(* ===== verification/AdPrelude.thy ===== *)
theory AdPrelude
  imports Main "HOL-Library.Word" "HOL-Library.Signed_Division"
begin

text \<open>
  Prelude of the development: the integer types of \<^verbatim>\<open>libutil/inc/AdGlobal.h\<close>, errors and
  undefined behaviour as values, byte buffers with bounds, and the functions of the C and C++
  standard libraries that the modelled code calls (\<^verbatim>\<open>htonl\<close>, \<^verbatim>\<open>printf("%d")\<close>, \<^verbatim>\<open>snprintf\<close>,
  \<^verbatim>\<open>atoi\<close>, \<^verbatim>\<open>c_str\<close>).

  A \<^verbatim>\<open>char\<close> is a byte. Strings (\<^verbatim>\<open>std::string\<close>) and packet buffers are lists of bytes.
  An operation that may leave the defined behaviour of C++ returns \<open>cxx_error + 'a\<close>.
\<close>

named_theorems cxx_simps "unfolding and evaluation rules of the C++ primitives"

type_synonym UCHAR = "8 word"
type_synonym USHORT = "16 word"
type_synonym UINT = "32 word"

definition AD_SUCCESS :: int where
  "AD_SUCCESS = 0"

definition AD_FAILURE :: int where
  "AD_FAILURE = - 1"

lemma AD_SUCCESS_FAILURE [simp]:
  "AD_SUCCESS \<noteq> AD_FAILURE" "AD_FAILURE \<noteq> AD_SUCCESS"
  by (simp_all add: AD_SUCCESS_def AD_FAILURE_def)

section \<open>Errors as values\<close>

datatype cxx_error = OutOfBounds | NullPointer | BadLength | SignedOverflow | BadShift | DivByZero | BadJson

type_synonym 'a cxx = "cxx_error + 'a"

fun bind_cxx :: "'a cxx \<Rightarrow> ('a \<Rightarrow> 'b cxx) \<Rightarrow> 'b cxx" where
  "bind_cxx (Inl e) f = Inl e"
| "bind_cxx (Inr x) f = f x"

lemma bind_cxx_Inr_iff:
  "bind_cxx m f = Inr y \<longleftrightarrow> (\<exists>x. m = Inr x \<and> f x = Inr y)"
  by (cases m) auto

lemma bind_cxx_Inl_iff:
  "bind_cxx m f = Inl e \<longleftrightarrow> m = Inl e \<or> (\<exists>x. m = Inr x \<and> f x = Inl e)"
  by (cases m) auto

lemma bind_cxx_assoc:
  "bind_cxx (bind_cxx m f) g = bind_cxx m (\<lambda>x. bind_cxx (f x) g)"
  by (cases m) auto

text \<open>A loop over a list that stops at the first undefined step.\<close>

fun fold_cxx :: "('a \<Rightarrow> 's \<Rightarrow> 's cxx) \<Rightarrow> 'a list \<Rightarrow> 's \<Rightarrow> 's cxx" where
  "fold_cxx f [] s = Inr s"
| "fold_cxx f (x # xs) s = bind_cxx (f x s) (fold_cxx f xs)"

lemma fold_cxx_append:
  "fold_cxx f (xs @ ys) s = bind_cxx (fold_cxx f xs s) (fold_cxx f ys)"
proof (induction xs arbitrary: s)
  case (Cons x xs)
  then have "fold_cxx f (xs @ ys) = (\<lambda>s. bind_cxx (fold_cxx f xs s) (fold_cxx f ys))"
    by (rule ext)
  then show ?case by (simp add: bind_cxx_assoc)
qed simp

section \<open>Signed 32-bit arithmetic\<close>

text \<open>
  \<open>int_cast\<close> is the conversion \<^verbatim>\<open>(int)\<close> of a wider value: the low 32 bits read as two's
  complement. Addition of two \<^verbatim>\<open>int\<close>s is undefined when the sum is out of range.
\<close>

definition int_cast :: "int \<Rightarrow> int" where
  "int_cast i = sint (of_int i :: UINT)"

definition add_int :: "int \<Rightarrow> int \<Rightarrow> int cxx" where
  "add_int a b =
     (if - (2 ^ 31) \<le> a + b \<and> a + b < 2 ^ 31 then Inr (a + b) else Inl SignedOverflow)"

lemma int_cast_id: "- (2 ^ 31) \<le> i \<Longrightarrow> i < 2 ^ 31 \<Longrightarrow> int_cast i = i"
  by (simp add: int_cast_def signed_of_int signed_take_bit_int_eq_self)

lemma add_int_ok: "- (2 ^ 31) \<le> a + b \<Longrightarrow> a + b < 2 ^ 31 \<Longrightarrow> add_int a b = Inr (a + b)"
  by (simp add: add_int_def)

text \<open>The remainder \<^verbatim>\<open>a % b\<close> of two \<^verbatim>\<open>int\<close>s has the sign of \<open>a\<close>.\<close>

definition rem_int :: "int \<Rightarrow> int \<Rightarrow> int cxx" where
  "rem_int a b = (if b = 0 then Inl DivByZero else Inr (a smod b))"

lemma rem_int_ok: "0 \<le> a \<Longrightarrow> 0 < b \<Longrightarrow> rem_int a b = Inr (a mod b)"
  by (cases "a = 0")
    (simp_all add: rem_int_def signed_modulo_int_def signed_divide_int_def minus_div_mult_eq_mod)

text \<open>Element access \<^verbatim>\<open>v[i]\<close> of a vector.\<close>

definition vec_get :: "'a list \<Rightarrow> int \<Rightarrow> 'a cxx" where
  "vec_get v i = (if 0 \<le> i \<and> i < int (length v) then Inr (v ! nat i) else Inl OutOfBounds)"

definition vec_set :: "'a list \<Rightarrow> int \<Rightarrow> 'a \<Rightarrow> 'a list cxx" where
  "vec_set v i x = (if 0 \<le> i \<and> i < int (length v) then Inr (v[nat i := x]) else Inl OutOfBounds)"

section \<open>Byte buffers\<close>

text \<open>
  A buffer is the list of its bytes; a pointer into it is an index, which pointer arithmetic
  may move out of the buffer. Reads and writes outside are undefined behaviour.
\<close>

definition byte_of :: "UCHAR \<Rightarrow> char" where
  "byte_of w = char_of (unat w)"

lemma of_char_byte_of [simp]: "of_char (byte_of w) = w"
proof -
  have "unat w < 256" using unsigned_less [of w] by simp
  then have "of_char (byte_of w) = unat w" by (simp add: byte_of_def take_bit_eq_mod)
  then have "(of_nat (of_char (byte_of w)) :: UCHAR) = of_nat (unat w)" by simp
  then show ?thesis by (simp add: of_nat_of_char)
qed

definition rd8 :: "string \<Rightarrow> int \<Rightarrow> UCHAR cxx" where
  "rd8 mem p = (if 0 \<le> p \<and> p < int (length mem) then Inr (of_char (mem ! nat p))
                else Inl OutOfBounds)"

definition rd_bytes :: "string \<Rightarrow> int \<Rightarrow> nat \<Rightarrow> string cxx" where
  "rd_bytes mem p n = (if 0 \<le> p \<and> p + int n \<le> int (length mem)
                       then Inr (take n (drop (nat p) mem)) else Inl OutOfBounds)"

definition mem_write :: "string \<Rightarrow> nat \<Rightarrow> string \<Rightarrow> string cxx" where
  "mem_write mem p bs = (if p + length bs \<le> length mem
                         then Inr (take p mem @ bs @ drop (p + length bs) mem)
                         else Inl OutOfBounds)"

lemma length_mem_write: "mem_write mem p bs = Inr mem' \<Longrightarrow> length mem' = length mem"
  by (auto simp: mem_write_def split: if_splits)

lemma take_mem_write: "mem_write mem p bs = Inr mem' \<Longrightarrow> take p mem' = take p mem"
  by (auto simp: mem_write_def split: if_splits)

lemma mem_write_seq:
  assumes "length a = p" "p + length bs \<le> length mem"
    and "mem = a @ rest"
  shows "mem_write mem p bs = Inr ((a @ bs) @ drop (length bs) rest)"
  using assms by (auto simp: mem_write_def)

text \<open>Network byte order: \<^verbatim>\<open>*(USHORT *)p = htons(x)\<close> and \<^verbatim>\<open>*(int *)p = htonl(x)\<close>.\<close>

definition be16 :: "USHORT \<Rightarrow> string" where
  "be16 w = (let n = unat w in [char_of (n div 256), char_of (n mod 256)])"

definition be32 :: "UINT \<Rightarrow> string" where
  "be32 w = (let n = unat w in
     [char_of (n div 2 ^ 24), char_of (n div 2 ^ 16 mod 256),
      char_of (n div 2 ^ 8 mod 256), char_of (n mod 256)])"

definition be_nat :: "string \<Rightarrow> nat" where
  "be_nat bs = foldl (\<lambda>a c. a * 256 + of_char c) 0 bs"

definition rd16 :: "string \<Rightarrow> int \<Rightarrow> USHORT cxx" where
  "rd16 mem p = bind_cxx (rd_bytes mem p 2) (\<lambda>bs. Inr (of_nat (be_nat bs)))"

definition rd32 :: "string \<Rightarrow> int \<Rightarrow> UINT cxx" where
  "rd32 mem p = bind_cxx (rd_bytes mem p 4) (\<lambda>bs. Inr (of_nat (be_nat bs)))"

lemma length_be16 [simp]: "length (be16 w) = 2"
  by (simp add: be16_def Let_def)

lemma length_be32 [simp]: "length (be32 w) = 4"
  by (simp add: be32_def Let_def)

lemma be_nat_be16: "of_nat (be_nat (be16 w)) = w"
proof -
  have "unat w < 65536" using unsigned_less [of w] by simp
  then have "unat w div 256 < 256" by simp
  then have "be_nat (be16 w) = unat w div 256 * 256 + unat w mod 256"
    by (simp add: be16_def be_nat_def Let_def take_bit_eq_mod)
  also have "\<dots> = unat w" by simp
  finally show ?thesis by simp
qed

lemma be_nat_be32: "of_nat (be_nat (be32 w)) = w"
proof -
  define n where "n = unat w"
  have n: "n < 2 ^ 32" using unsigned_less [of w] by (simp add: n_def)
  have "n div 2 ^ 24 < 256" using n by simp
  then have "be_nat (be32 w) =
     ((n div 2 ^ 24 * 256 + n div 2 ^ 16 mod 256) * 256 + n div 2 ^ 8 mod 256) * 256 + n mod 256"
    by (simp add: be32_def be_nat_def Let_def n_def take_bit_eq_mod)
  also have "\<dots> = n"
  proof -
    have "n div 2 ^ 16 = n div 2 ^ 8 div 256" "n div 2 ^ 24 = n div 2 ^ 8 div 256 div 256"
      by (simp_all flip: div_mult2_eq)
    then show ?thesis by simp
  qed
  finally show ?thesis by (simp add: n_def)
qed

text \<open>Reads at a position of a buffer whose contents are known there.\<close>

lemma rd8_at: "length a = n \<Longrightarrow> rd8 (a @ c # b) (int n) = Inr (of_char c)"
  by (auto simp: rd8_def nth_append)

lemma rd_bytes_at: "length a = n \<Longrightarrow> rd_bytes (a @ bs @ b) (int n) (length bs) = Inr bs"
  by (auto simp: rd_bytes_def)

lemma rd16_at: "length a = n \<Longrightarrow> rd16 (a @ be16 w @ b) (int n) = Inr w"
  using rd_bytes_at [of a n "be16 w" b] by (simp add: rd16_def be_nat_be16)

lemma rd32_at: "length a = n \<Longrightarrow> rd32 (a @ be32 w @ b) (int n) = Inr w"
  using rd_bytes_at [of a n "be32 w" b] by (simp add: rd32_def be_nat_be32)

end
