(* ===== verification/AdTlv.thy ===== *)
theory AdTlv
  imports AdPrelude
begin

text \<open>
  The wire format of \<^verbatim>\<open>libtlv\<close>, shared by the functions of \<^verbatim>\<open>AdRtbNetProtocol.cpp\<close>: the
  12-byte head, the macro \<^verbatim>\<open>AD_PROTOCOL_KV\<close> that appends one key, length and value to a packet
  buffer, and the loop that reads the body back into the fields a parser table points to.
  The lemmas show that the head and the body are read back as they were written.
\<close>

unbundle bit_operations_syntax

section \<open>The head\<close>

record ADPROHEAD_S =
  ucFlag :: UCHAR
  ucVersion :: UCHAR
  ucProtocol :: UCHAR
  ucWide :: UCHAR
  ucResponse :: UCHAR
  ucExpand :: UCHAR
  ucType :: UCHAR
  ucVerb :: UCHAR
  ucAttr :: UCHAR
  ucResult :: UCHAR
  usTotal :: USHORT
  iLength :: int

definition zero_head :: ADPROHEAD_S where
  "zero_head = \<lparr>ucFlag = 0, ucVersion = 0, ucProtocol = 0, ucWide = 0, ucResponse = 0,
     ucExpand = 0, ucType = 0, ucVerb = 0, ucAttr = 0, ucResult = 0, usTotal = 0, iLength = 0\<rparr>"

text \<open>
  The protocol object. \<^verbatim>\<open>m_mParse\<close> is cleared and rebuilt at the start of each parse, so it is
  an argument of the parse loop and not a part of the state.
\<close>

record AdRtbProtocol =
  m_stHead :: ADPROHEAD_S
  m_sExHead :: string

abbreviation AD_PROTOCOL_FLAG :: UCHAR where "AD_PROTOCOL_FLAG \<equiv> 0xe8"
abbreviation AD_PROTOCOL_EXPPAND_1 :: UCHAR where "AD_PROTOCOL_EXPPAND_1 \<equiv> 1"
abbreviation AD_PROTOCOL_BODY_COMP :: UCHAR where "AD_PROTOCOL_BODY_COMP \<equiv> 1"
abbreviation AD_PROTOCOL_RESULT_OK :: UCHAR where "AD_PROTOCOL_RESULT_OK \<equiv> 0"
abbreviation AD_PROTOCOL_RESULT_UNKNOW :: UCHAR where "AD_PROTOCOL_RESULT_UNKNOW \<equiv> 0xff"
abbreviation AD_PROTOCOL_HEAD_LEN :: nat where "AD_PROTOCOL_HEAD_LEN \<equiv> 12"
abbreviation AD_PROTOCOL_HEAD_EXPAND_LEN :: nat where "AD_PROTOCOL_HEAD_EXPAND_LEN \<equiv> 4"
abbreviation AD_KBYTES4 :: nat where "AD_KBYTES4 \<equiv> 4096"

text \<open>
  The bytes written for a head. The second byte is assembled in a \<^verbatim>\<open>char\<close> with \<^verbatim>\<open>|=\<close>.
\<close>

definition flags_byte :: "ADPROHEAD_S \<Rightarrow> UCHAR" where
  "flags_byte h = push_bit 4 (ucVersion h) OR push_bit 3 (ucProtocol h) OR
     push_bit 2 (ucWide h) OR push_bit 1 (ucResponse h) OR ucExpand h"

definition head_bytes :: "ADPROHEAD_S \<Rightarrow> string" where
  "head_bytes h = map byte_of [AD_PROTOCOL_FLAG, flags_byte h, ucType h, ucVerb h, ucAttr h,
     ucResult h] @ be16 (usTotal h) @ be32 (of_int (iLength h))"

text \<open>
  Reading the head after its flag byte. \<^verbatim>\<open>*pCur\<close> is a signed \<^verbatim>\<open>char\<close>, so \<^verbatim>\<open>>> 4\<close> is an
  arithmetic shift and the version is sign-extended.
\<close>

definition read_head :: "string \<Rightarrow> UCHAR \<Rightarrow> ADPROHEAD_S cxx" where
  "read_head pdata flag =
     bind_cxx (rd8 pdata 1) (\<lambda>b.
     bind_cxx (rd8 pdata 2) (\<lambda>type.
     bind_cxx (rd8 pdata 3) (\<lambda>verb.
     bind_cxx (rd8 pdata 4) (\<lambda>attr.
     bind_cxx (rd8 pdata 5) (\<lambda>result.
     bind_cxx (rd16 pdata 6) (\<lambda>total.
     bind_cxx (rd32 pdata 8) (\<lambda>len.
       Inr \<lparr>ucFlag = flag, ucVersion = signed_drop_bit 4 b,
         ucProtocol = drop_bit 3 (b AND 0x0f), ucWide = drop_bit 2 (b AND 0x07),
         ucResponse = drop_bit 1 (b AND 0x03), ucExpand = b AND 0x01,
         ucType = type, ucVerb = verb, ucAttr = attr, ucResult = result,
         usTotal = total, iLength = sint len\<rparr>)))))))"

section \<open>Writing the body: AD_PROTOCOL_KV\<close>

text \<open>
  The variables of the function the macro is used in: the packet buffer, \<^verbatim>\<open>pCur\<close> as an index
  into it, \<^verbatim>\<open>iSpace\<close> and \<^verbatim>\<open>usCount\<close>. The flag of the result is false when the macro makes the
  function return \<^verbatim>\<open>AD_FAILURE\<close>.
\<close>

record kv_state =
  kv_mem :: string
  pCur :: nat
  iSpace :: int
  usCount :: USHORT

definition kv_bytes :: "UCHAR \<Rightarrow> string \<Rightarrow> string" where
  "kv_bytes K V = byte_of K # be32 (of_nat (length V)) @ V"

definition AD_PROTOCOL_KV :: "UCHAR \<Rightarrow> string \<Rightarrow> kv_state \<Rightarrow> (bool \<times> kv_state) cxx" where
  "AD_PROTOCOL_KV K V st =
     (if V = [] then Inr (True, st)
      else if iSpace st < int_cast (5 + int (length V)) then Inr (False, st)
      else bind_cxx (mem_write (kv_mem st) (pCur st) (kv_bytes K V)) (\<lambda>m.
        Inr (True, st\<lparr>kv_mem := m, pCur := pCur st + 5 + length V, usCount := usCount st + 1,
          iSpace := int_cast (iSpace st - (5 + int (length V)))\<rparr>)))"

text \<open>A sequence of uses of the macro, left at the first that returns.\<close>

fun kv_all :: "(UCHAR \<times> string) list \<Rightarrow> kv_state \<Rightarrow> (bool \<times> kv_state) cxx" where
  "kv_all [] st = Inr (True, st)"
| "kv_all ((K, V) # kvs) st =
     bind_cxx (AD_PROTOCOL_KV K V st) (\<lambda>(ok, st').
       if ok then kv_all kvs st' else Inr (False, st'))"

section \<open>Reading the body\<close>

text \<open>
  An entry of \<^verbatim>\<open>m_mParse\<close>: its \<^verbatim>\<open>type\<close> is the constructor and its \<^verbatim>\<open>pointer\<close>, which points to
  a field of the message, is the update function of that field.
\<close>

datatype 'r parser =
    ParseString "(string \<Rightarrow> string) \<Rightarrow> 'r \<Rightarrow> 'r"
  | ParseList "(string list \<Rightarrow> string list) \<Rightarrow> 'r \<Rightarrow> 'r"

fun kv_store :: "'r parser \<Rightarrow> string \<Rightarrow> 'r \<Rightarrow> 'r" where
  "kv_store (ParseString field) s r = field (\<lambda>_. s) r"
| "kv_store (ParseList field) s r = field (\<lambda>l. l @ [s]) r"

text \<open>
  The parse loop. \<open>left\<close> is what \<^verbatim>\<open>usTotal\<close> lacks to \<^verbatim>\<open>m_stHead.usTotal\<close>. A negative
  \<^verbatim>\<open>kvLen\<close> makes \<^verbatim>\<open>string::assign\<close> throw \<^verbatim>\<open>std::length_error\<close>; for an unknown key it only
  moves \<^verbatim>\<open>pCur\<close> back.
\<close>

fun tlv_body :: "(UCHAR \<rightharpoonup> 'r parser) \<Rightarrow> string \<Rightarrow> int \<Rightarrow> int \<Rightarrow> nat \<Rightarrow> int \<Rightarrow> 'r \<Rightarrow> 'r cxx" where
  "tlv_body parse mem pBody len 0 cur r = Inr r"
| "tlv_body parse mem pBody len (Suc left) cur r =
     (if int_cast (cur - pBody) < len then
        bind_cxx (rd8 mem cur) (\<lambda>ucKey.
        bind_cxx (rd32 mem (cur + 1)) (\<lambda>w.
        let kvLen = sint w in
        bind_cxx
          (case parse ucKey of
             None \<Rightarrow> Inr r
           | Some p \<Rightarrow>
               if kvLen < 0 then Inl BadLength
               else bind_cxx (rd_bytes mem (cur + 5) (nat kvLen)) (\<lambda>s. Inr (kv_store p s r)))
          (tlv_body parse mem pBody len left (cur + 5 + kvLen))))
      else Inr r)"

text \<open>
  The body of a packet: with \<^verbatim>\<open>ucAttr\<close> = \<^verbatim>\<open>AD_PROTOCOL_BODY_COMP\<close> it is inflated by zlib's
  \<^verbatim>\<open>uncompress\<close> into a local buffer of which \<^verbatim>\<open>uncompress\<close> is told the first 4096 bytes, and
  read there. \<open>uncompress cap src\<close> is the output for a destination of \<open>cap\<close> bytes; its status
  is ignored by the code. A negative length is converted to \<^verbatim>\<open>ULONG\<close> and exceeds any buffer.
  The result is the buffer, the index of the body and its length.
\<close>

definition tlv_unpack ::
    "(nat \<Rightarrow> string \<Rightarrow> string) \<Rightarrow> ADPROHEAD_S \<Rightarrow> string \<Rightarrow> nat \<Rightarrow> (string \<times> int \<times> int) cxx" where
  "tlv_unpack uncompress h pdata pBody =
     (if ucAttr h = AD_PROTOCOL_BODY_COMP then
        if iLength h < 0 then Inl OutOfBounds
        else bind_cxx (rd_bytes pdata (int pBody) (nat (iLength h))) (\<lambda>src.
          let out = uncompress AD_KBYTES4 src in Inr (out, 0, int (length out)))
      else Inr (pdata, int pBody, iLength h))"

section \<open>The head is read back as it was written\<close>

text \<open>The head fields that survive the bit packing of the second byte.\<close>

definition wf_head :: "ADPROHEAD_S \<Rightarrow> bool" where
  "wf_head h \<longleftrightarrow> ucFlag h = AD_PROTOCOL_FLAG \<and> ucVersion h < 8 \<and> ucProtocol h < 2 \<and> ucWide h < 2 \<and>
     ucResponse h < 2 \<and> ucExpand h < 2 \<and> - (2 ^ 31) \<le> iLength h \<and> iLength h < 2 ^ 31"

lemma byte_below_8:
  assumes "v < (8 :: UCHAR)"
  shows "v = 0 \<or> v = 1 \<or> v = 2 \<or> v = 3 \<or> v = 4 \<or> v = 5 \<or> v = 6 \<or> v = 7"
proof -
  have "unat v < 8" using assms by (simp add: word_less_nat_alt)
  then have "unat v \<in> set [0..<8]" by simp
  then have "(of_nat (unat v) :: UCHAR) \<in> of_nat ` set [0..<8]" by (rule imageI)
  then show ?thesis by (simp add: upt_rec)
qed

lemma byte_below_2: "v < 2 \<Longrightarrow> v = 0 \<or> v = (1 :: UCHAR)"
  using byte_below_8 [of v] by (force simp: word_less_nat_alt)

lemma flags_byte_fields:
  assumes "v < 8" "p < 2" "w < 2" "r < 2" "e < (2 :: UCHAR)"
  defines "b \<equiv> push_bit 4 v OR push_bit 3 p OR push_bit 2 w OR push_bit 1 r OR e"
  shows "signed_drop_bit 4 b = v" "drop_bit 3 (b AND 0x0f) = p" "drop_bit 2 (b AND 0x07) = w"
    "drop_bit 1 (b AND 0x03) = r" "b AND 0x01 = e"
  using byte_below_8 [OF assms(1)] byte_below_2 [OF assms(2)] byte_below_2 [OF assms(3)]
    byte_below_2 [OF assms(4)] byte_below_2 [OF assms(5)]
  unfolding b_def by (elim disjE; simp)+

lemma rd8_head: "i < 6 \<Longrightarrow> rd8 (head_bytes h @ rest) (int i) =
    Inr ([AD_PROTOCOL_FLAG, flags_byte h, ucType h, ucVerb h, ucAttr h, ucResult h] ! i)"
  by (auto simp: rd8_def head_bytes_def nth_append less_Suc_eq numeral_eq_Suc)

lemma length_head_bytes [simp]: "length (head_bytes h) = 12"
  by (simp add: head_bytes_def)

lemma read_head_bytes:
  assumes "wf_head h"
  shows "read_head (head_bytes h @ rest) AD_PROTOCOL_FLAG = Inr h"
proof -
  have 1: "rd8 (head_bytes h @ rest) 1 = Inr (flags_byte h)"
    "rd8 (head_bytes h @ rest) 2 = Inr (ucType h)" "rd8 (head_bytes h @ rest) 3 = Inr (ucVerb h)"
    "rd8 (head_bytes h @ rest) 4 = Inr (ucAttr h)" "rd8 (head_bytes h @ rest) 5 = Inr (ucResult h)"
    using rd8_head [of 1 h rest] rd8_head [of 2 h rest] rd8_head [of 3 h rest]
      rd8_head [of 4 h rest] rd8_head [of 5 h rest] by simp_all
  have 2: "rd16 (head_bytes h @ rest) 6 = Inr (usTotal h)"
    using rd16_at [of "map byte_of [AD_PROTOCOL_FLAG, flags_byte h, ucType h, ucVerb h, ucAttr h,
      ucResult h]" 6 "usTotal h" "be32 (of_int (iLength h)) @ rest"]
    by (simp add: head_bytes_def)
  have 3: "rd32 (head_bytes h @ rest) 8 = Inr (of_int (iLength h))"
    using rd32_at [of "map byte_of [AD_PROTOCOL_FLAG, flags_byte h, ucType h, ucVerb h, ucAttr h,
      ucResult h] @ be16 (usTotal h)" 8 "of_int (iLength h)" rest]
    by (simp add: head_bytes_def)
  have 4: "sint (of_int (iLength h) :: UINT) = iLength h"
    using assms int_cast_id [of "iLength h"] by (simp add: wf_head_def int_cast_def)
  show ?thesis
    using assms flags_byte_fields [of "ucVersion h" "ucProtocol h" "ucWide h" "ucResponse h" "ucExpand h"]
    unfolding read_head_def 1 2 3 by (simp add: 4 wf_head_def flags_byte_def)
qed

section \<open>What a sequence of AD_PROTOCOL_KV writes\<close>

definition wire :: "(UCHAR \<times> string) list \<Rightarrow> string" where
  "wire kvs = concat (map (\<lambda>(K, V). if V = [] then [] else kv_bytes K V) kvs)"

definition wire_count :: "(UCHAR \<times> string) list \<Rightarrow> nat" where
  "wire_count kvs = length (filter (\<lambda>(K, V). V \<noteq> []) kvs)"

lemma wire_simps [simp]:
  "wire [] = []"
  "wire ((K, V) # kvs) = (if V = [] then wire kvs else kv_bytes K V @ wire kvs)"
  "wire_count [] = 0"
  "wire_count ((K, V) # kvs) = (if V = [] then wire_count kvs else Suc (wire_count kvs))"
  by (simp_all add: wire_def wire_count_def)

lemma wire_append: "wire (xs @ ys) = wire xs @ wire ys"
  by (simp add: wire_def)

lemma length_kv_bytes [simp]: "length (kv_bytes K V) = 5 + length V"
  by (simp add: kv_bytes_def)

text \<open>Every pair takes more than five bytes.\<close>

lemma wire_count_le: "6 * wire_count kvs \<le> length (wire kvs)"
proof (induction kvs)
  case (Cons kv kvs)
  obtain K V where "kv = (K, V)" by (cases kv)
  with Cons show ?case by (cases V) auto
qed simp

text \<open>The state of the macro's function after it has written \<open>kvs\<close>.\<close>

definition kv_done :: "(UCHAR \<times> string) list \<Rightarrow> kv_state \<Rightarrow> kv_state" where
  "kv_done kvs st = st\<lparr>
     kv_mem := take (pCur st) (kv_mem st) @ wire kvs @
       drop (pCur st + length (wire kvs)) (kv_mem st),
     pCur := pCur st + length (wire kvs),
     usCount := usCount st + of_nat (wire_count kvs),
     iSpace := iSpace st - int (length (wire kvs))\<rparr>"

lemma kv_done_simps [simp]:
  "pCur (kv_done kvs st) = pCur st + length (wire kvs)"
  "iSpace (kv_done kvs st) = iSpace st - int (length (wire kvs))"
  "usCount (kv_done kvs st) = usCount st + of_nat (wire_count kvs)"
  by (simp_all add: kv_done_def)

lemma kv_done_Nil: "pCur st \<le> length (kv_mem st) \<Longrightarrow> kv_done [] st = st"
  by (simp add: kv_done_def)

lemma kv_done_Cons:
  assumes "pCur st + length (wire (kv # kvs)) \<le> length (kv_mem st)"
  shows "kv_done (kv # kvs) st = kv_done kvs (kv_done [kv] st)"
  using assms by (cases kv) (simp add: kv_done_def add.assoc min_def algebra_simps)

lemma AD_PROTOCOL_KV_ok:
  assumes "pCur st + length (wire [(K, V)]) \<le> length (kv_mem st)"
    and "int (length (wire [(K, V)])) \<le> iSpace st" "iSpace st < 2 ^ 31"
  shows "AD_PROTOCOL_KV K V st = Inr (True, kv_done [(K, V)] st)"
proof (cases "V = []")
  case True
  with assms show ?thesis by (simp add: AD_PROTOCOL_KV_def kv_done_Nil kv_done_def)
next
  case False
  with assms have "int_cast (5 + int (length V)) = 5 + int (length V)"
    "int_cast (iSpace st - (5 + int (length V))) = iSpace st - (5 + int (length V))"
    by (auto intro!: int_cast_id)
  with False assms show ?thesis
    by (simp add: AD_PROTOCOL_KV_def mem_write_def kv_done_def add.assoc)
qed

text \<open>When the pairs fit, all are written, one after the other.\<close>

lemma kv_all_ok:
  assumes "pCur st + length (wire kvs) \<le> length (kv_mem st)"
    and "int (length (wire kvs)) \<le> iSpace st" "iSpace st < 2 ^ 31"
  shows "kv_all kvs st = Inr (True, kv_done kvs st)"
  using assms
proof (induction kvs arbitrary: st)
  case Nil
  then show ?case by (simp add: kv_done_Nil)
next
  case (Cons kv kvs)
  obtain K V where kv: "kv = (K, V)" by (cases kv)
  let ?st = "kv_done [kv] st"
  have len: "length (wire (kv # kvs)) = length (wire [kv]) + length (wire kvs)"
    using wire_append [of "[kv]" kvs] by simp
  have "AD_PROTOCOL_KV K V st = Inr (True, ?st)"
    using Cons.prems len kv by (auto intro!: AD_PROTOCOL_KV_ok)
  moreover have "length (kv_mem ?st) = length (kv_mem st)"
    using Cons.prems len by (auto simp: kv_done_def)
  then have "kv_all kvs ?st = Inr (True, kv_done kvs ?st)"
    using Cons.prems len by (intro Cons.IH) auto
  ultimately show ?case
    using kv_done_Cons [OF Cons.prems(1)] kv by simp
qed

text \<open>
  When \<^verbatim>\<open>iSpace\<close> is exactly what is left of the buffer, no write of the macro leaves it, and the
  sequence succeeds exactly when everything fits.
\<close>

lemma kv_all_in_bounds:
  assumes "pCur st \<le> length (kv_mem st)" "iSpace st = int (length (kv_mem st) - pCur st)"
    and "length (kv_mem st) < 2 ^ 31" "\<forall>(K, V) \<in> set kvs. length V < 2 ^ 31 - 5"
  shows "\<exists>st'. kv_all kvs st = Inr (pCur st + length (wire kvs) \<le> length (kv_mem st), st') \<and>
           length (kv_mem st') = length (kv_mem st)"
  using assms
proof (induction kvs arbitrary: st)
  case Nil
  then show ?case by simp
next
  case (Cons kv kvs)
  obtain K V where kv: "kv = (K, V)" by (cases kv)
  have cast: "int_cast (5 + int (length V)) = 5 + int (length V)"
    using Cons.prems(4) kv by (intro int_cast_id) auto
  consider (empty) "V = []" | (fits) "V \<noteq> []" "pCur st + 5 + length V \<le> length (kv_mem st)"
    | (full) "V \<noteq> []" "\<not> pCur st + 5 + length V \<le> length (kv_mem st)" by blast
  then show ?case
  proof cases
    case empty
    with Cons kv show ?thesis by (simp add: AD_PROTOCOL_KV_def)
  next
    case fits
    let ?st = "kv_done [kv] st"
    have KV: "AD_PROTOCOL_KV K V st = Inr (True, ?st)"
      unfolding kv using Cons.prems fits by (intro AD_PROTOCOL_KV_ok) auto
    have len: "length (kv_mem ?st) = length (kv_mem st)"
      using fits kv by (auto simp: kv_done_def)
    have "\<exists>st'. kv_all kvs ?st = Inr (pCur ?st + length (wire kvs) \<le> length (kv_mem ?st), st') \<and>
      length (kv_mem st') = length (kv_mem ?st)"
      using Cons.prems fits kv len by (intro Cons.IH) auto
    with KV kv len fits show ?thesis by (simp add: add.assoc)
  next
    case full
    with Cons.prems kv show ?thesis by (auto simp: AD_PROTOCOL_KV_def cast)
  qed
qed

section \<open>What the parse loop reads back\<close>

definition store_kvs ::
    "(UCHAR \<rightharpoonup> 'r parser) \<Rightarrow> (UCHAR \<times> string) list \<Rightarrow> 'r \<Rightarrow> 'r" where
  "store_kvs parse kvs r = fold (\<lambda>(K, V) r. if V = [] then r else
     case parse K of None \<Rightarrow> r | Some p \<Rightarrow> kv_store p V r) kvs r"

lemma store_kvs_simps [simp]:
  "store_kvs parse [] r = r"
  "store_kvs parse ((K, V) # kvs) r = store_kvs parse kvs (if V = [] then r else
     case parse K of None \<Rightarrow> r | Some p \<Rightarrow> kv_store p V r)"
  by (simp_all add: store_kvs_def)

lemma store_kvs_append:
  "store_kvs parse (xs @ ys) r = store_kvs parse ys (store_kvs parse xs r)"
  by (simp add: store_kvs_def)

lemma tlv_body_wire:
  assumes "mem = pre @ dn @ wire kvs @ suf"
    and "len = int (length dn + length (wire kvs))" "len < 2 ^ 31"
    and "left = wire_count kvs + extra" "cur = int (length pre + length dn)"
  shows "tlv_body parse mem (int (length pre)) len left cur r = Inr (store_kvs parse kvs r)"
  using assms
proof (induction kvs arbitrary: dn left cur r)
  case Nil
  then have "int_cast (cur - int (length pre)) = int (length dn)"
    by (auto intro: int_cast_id)
  with Nil show ?case by (cases left) auto
next
  case (Cons kv kvs)
  obtain K V where kv: "kv = (K, V)" by (cases kv)
  show ?case
  proof (cases "V = []")
    case True
    with Cons.prems kv show ?thesis using Cons.IH [of dn left cur r] by simp
  next
    case False
    with Cons.prems kv obtain left' where left: "left = Suc left'" "left' = wire_count kvs + extra"
      by auto
    have small: "length V < 2 ^ 31" using Cons.prems False kv by auto
    let ?a = "pre @ dn" let ?b = "wire kvs @ suf"
    have mem: "mem = ?a @ byte_of K # be32 (of_nat (length V)) @ V @ ?b"
      using Cons.prems(1) False kv by (simp add: kv_bytes_def)
    have cast: "int_cast (cur - int (length pre)) = int (length dn)"
      using Cons.prems by (auto intro: int_cast_id)
    have guard: "int (length dn) < len" using Cons.prems(2) False kv by simp
    have k: "rd8 mem cur = Inr K"
      unfolding mem Cons.prems(5) using rd8_at [of ?a "length pre + length dn" "byte_of K"] by simp
    have l: "rd32 mem (cur + 1) = Inr (of_nat (length V))"
      unfolding mem Cons.prems(5)
      using rd32_at [of "?a @ [byte_of K]" "length pre + length dn + 1" "of_nat (length V)" "V @ ?b"]
      by (simp add: add.commute)
    have v: "rd_bytes mem (cur + 5) (length V) = Inr V"
      unfolding mem Cons.prems(5)
      using rd_bytes_at [of "?a @ byte_of K # be32 (of_nat (length V))"
        "length pre + length dn + 5" V ?b] by (simp add: add.commute)
    have s: "sint (of_nat (length V) :: UINT) = int (length V)"
      using int_cast_id [of "int (length V)"] small by (simp add: int_cast_def)
    have IH: "tlv_body parse mem (int (length pre)) len left' (cur + 5 + int (length V)) r' =
      Inr (store_kvs parse kvs r')" for r'
      using Cons.prems False kv left
      by (intro Cons.IH [of "dn @ kv_bytes K V"]) auto
    show ?thesis
      using False kv guard
      by (simp add: left(1) cast k l v s IH split: option.split)
  qed
qed

text \<open>How one pair acts on a record, for evaluation over a concrete table and record.\<close>

lemma store_kvs_table:
  "store_kvs parse ((K, V) # kvs) r =
     (case parse K of
        None \<Rightarrow> store_kvs parse kvs r
      | Some (ParseString field) \<Rightarrow>
          store_kvs parse kvs
            (if field (\<lambda>_. []) r = r then field (\<lambda>_. V) r
             else if V = [] then r else field (\<lambda>_. V) r)
      | Some (ParseList field) \<Rightarrow>
          store_kvs parse kvs (if V = [] then r else field (\<lambda>l. l @ [V]) r))"
  by (cases "V = []") (auto split: option.split parser.split)

lemma store_kvs_list:
  assumes "parse K = Some (ParseList field)"
    and "\<And>f g r. field f (field g r) = field (\<lambda>l. f (g l)) r" "\<And>r. field (\<lambda>l. l) r = r"
  shows "store_kvs parse (map (Pair K) xs) r = field (\<lambda>l. l @ filter (\<lambda>s. s \<noteq> []) xs) r"
  using assms(3) by (induction xs arbitrary: r) (auto simp: assms(1,2))

lemma store_kvs_skip: "parse K = None \<Longrightarrow> store_kvs parse (map (Pair K) xs) r = r"
  by (induction xs) auto

section \<open>A packet as a whole\<close>

text \<open>
  zlib as the code relies on it: \<^verbatim>\<open>compressBound\<close> of at most 4083 bytes is at most 4096, so
  \<^verbatim>\<open>compress\<close> of such a source into 4096 bytes succeeds, and \<^verbatim>\<open>uncompress\<close> restores the source.
\<close>

definition zlib_ok ::
    "(nat \<Rightarrow> string \<Rightarrow> string) \<Rightarrow> (nat \<Rightarrow> string \<Rightarrow> string) \<Rightarrow> bool" where
  "zlib_ok compress uncompress \<longleftrightarrow> (\<forall>src. length src \<le> 4083 \<longrightarrow>
     length (compress AD_KBYTES4 src) \<le> AD_KBYTES4 \<and>
     uncompress AD_KBYTES4 (compress AD_KBYTES4 src) = src)"

definition payload ::
    "(nat \<Rightarrow> string \<Rightarrow> string) \<Rightarrow> UCHAR \<Rightarrow> (UCHAR \<times> string) list \<Rightarrow> string" where
  "payload compress attr kvs =
     (if attr = AD_PROTOCOL_BODY_COMP then compress AD_KBYTES4 (wire kvs) else wire kvs)"

lemma length_payload:
  "zlib_ok c u \<Longrightarrow> length (wire kvs) \<le> 4083 \<Longrightarrow> length (payload c attr kvs) \<le> AD_KBYTES4"
  by (simp add: payload_def zlib_ok_def)

lemma wire_count_small: "length (wire kvs) \<le> 4083 \<Longrightarrow> wire_count kvs < 2 ^ 16"
  using wire_count_le [of kvs] by simp

text \<open>The body of a packet with a matching head is stored into the message, whole.\<close>

lemma tlv_read_back:
  assumes "zlib_ok c u" "length (wire kvs) \<le> 4083"
    and "usTotal h = of_nat (wire_count kvs)" "iLength h = int (length (payload c (ucAttr h) kvs))"
    and "length hdb = n"
  shows "\<exists>m b l. tlv_unpack u h (hdb @ payload c (ucAttr h) kvs @ suf) n = Inr (m, b, l) \<and>
    tlv_body parse m b l (unat (usTotal h)) b r = Inr (store_kvs parse kvs r)"
proof -
  have total: "unat (usTotal h) = wire_count kvs + 0"
    using assms(3) wire_count_small [OF assms(2)] by (simp add: unat_of_nat)
  show ?thesis
  proof (cases "ucAttr h = AD_PROTOCOL_BODY_COMP")
    case True
    have "u AD_KBYTES4 (payload c (ucAttr h) kvs) = wire kvs"
      using assms(1,2) True by (simp add: payload_def zlib_ok_def)
    moreover have "tlv_body parse (wire kvs) 0 (int (length (wire kvs))) (unat (usTotal h)) 0 r =
      Inr (store_kvs parse kvs r)"
      using tlv_body_wire [where parse = parse and pre = "[]" and dn = "[]" and suf = "[]", OF _ refl _ total refl]
        assms(2) by simp
    ultimately show ?thesis
      using True assms(4,5) rd_bytes_at [of hdb n "payload c (ucAttr h) kvs" suf]
      by (simp add: tlv_unpack_def Let_def)
  next
    case False
    have "tlv_body parse (hdb @ wire kvs @ suf) (int (length hdb)) (int (length (wire kvs)))
      (unat (usTotal h)) (int (length hdb)) r = Inr (store_kvs parse kvs r)"
      using tlv_body_wire [where parse = parse and pre = hdb and dn = "[]" and suf = suf, OF _ refl _ total refl]
        assms(2) by simp
    with False assms(4,5) show ?thesis by (simp add: tlv_unpack_def payload_def)
  qed
qed

end
