(* ===== verification/AdTlvKeys.thy ===== *)
theory AdTlvKeys
  imports AdPrelude
begin

text \<open>The key bytes of \<^verbatim>\<open>libtlv/src/AdRtbNetProtocol.cpp\<close>.\<close>

abbreviation AD_PROTOCOL_KEY_DEVICE :: UCHAR where "AD_PROTOCOL_KEY_DEVICE \<equiv> 255"
abbreviation AD_PROTOCOL_KEY_DEVICE_IDFA :: UCHAR where "AD_PROTOCOL_KEY_DEVICE_IDFA \<equiv> 90"
abbreviation AD_PROTOCOL_KEY_DEVICE_IMEI :: UCHAR where "AD_PROTOCOL_KEY_DEVICE_IMEI \<equiv> 91"
abbreviation AD_PROTOCOL_KEY_DEVICE_ANDROID :: UCHAR where "AD_PROTOCOL_KEY_DEVICE_ANDROID \<equiv> 92"
abbreviation AD_PROTOCOL_KEY_RTB_UID :: UCHAR where "AD_PROTOCOL_KEY_RTB_UID \<equiv> 101"
abbreviation AD_PROTOCOL_KEY_RTB_BIDID :: UCHAR where "AD_PROTOCOL_KEY_RTB_BIDID \<equiv> 102"
abbreviation AD_PROTOCOL_KEY_RTB_IP :: UCHAR where "AD_PROTOCOL_KEY_RTB_IP \<equiv> 103"
abbreviation AD_PROTOCOL_KEY_RTB_USERAGENT :: UCHAR where "AD_PROTOCOL_KEY_RTB_USERAGENT \<equiv> 104"
abbreviation AD_PROTOCOL_KEY_RTB_CLICK_URL :: UCHAR where "AD_PROTOCOL_KEY_RTB_CLICK_URL \<equiv> 105"
abbreviation AD_PROTOCOL_KEY_RTB_USER_URL :: UCHAR where "AD_PROTOCOL_KEY_RTB_USER_URL \<equiv> 106"
abbreviation AD_PROTOCOL_KEY_RTB_CATEGORY :: UCHAR where "AD_PROTOCOL_KEY_RTB_CATEGORY \<equiv> 107"
abbreviation AD_PROTOCOL_KEY_RTB_ANONYMOUS_ID :: UCHAR where "AD_PROTOCOL_KEY_RTB_ANONYMOUS_ID \<equiv> 110"
abbreviation AD_PROTOCOL_KEY_SENSITIVE_CATEGORY :: UCHAR where "AD_PROTOCOL_KEY_SENSITIVE_CATEGORY \<equiv> 112"
abbreviation AD_PROTOCOL_KEY_AD_CATEGORY :: UCHAR where "AD_PROTOCOL_KEY_AD_CATEGORY \<equiv> 114"
abbreviation AD_PROTOCOL_KEY_DEVICE_TYPE :: UCHAR where "AD_PROTOCOL_KEY_DEVICE_TYPE \<equiv> 122"
abbreviation AD_PROTOCOL_KEY_TENCENT_DURATION_MIN :: UCHAR where "AD_PROTOCOL_KEY_TENCENT_DURATION_MIN \<equiv> 123"
abbreviation AD_PROTOCOL_KEY_TENCENT_DURATION_MAX :: UCHAR where "AD_PROTOCOL_KEY_TENCENT_DURATION_MAX \<equiv> 124"
abbreviation AD_PROTOCOL_KEY_LINEARITY :: UCHAR where "AD_PROTOCOL_KEY_LINEARITY \<equiv> 127"
abbreviation AD_PROTOCOL_KEY_ADIRECT_BILLING_MODE :: UCHAR where "AD_PROTOCOL_KEY_ADIRECT_BILLING_MODE \<equiv> 131"
abbreviation AD_PROTOCOL_KEY_ADIRECT_ORDER_ID :: UCHAR where "AD_PROTOCOL_KEY_ADIRECT_ORDER_ID \<equiv> 132"
abbreviation AD_PROTOCOL_KEY_ADIRECT_EXEC_ID :: UCHAR where "AD_PROTOCOL_KEY_ADIRECT_EXEC_ID \<equiv> 133"
abbreviation AD_PROTOCOL_KEY_ADIRECT_MATERIAL_ID :: UCHAR where "AD_PROTOCOL_KEY_ADIRECT_MATERIAL_ID \<equiv> 134"
abbreviation AD_PROTOCOL_KEY_ADIRECT_REGION :: UCHAR where "AD_PROTOCOL_KEY_ADIRECT_REGION \<equiv> 135"
abbreviation AD_PROTOCOL_KEY_ADIRECT_FLOW_TYPE :: UCHAR where "AD_PROTOCOL_KEY_ADIRECT_FLOW_TYPE \<equiv> 136"
abbreviation AD_PROTOCOL_KEY_ADV_PID :: UCHAR where "AD_PROTOCOL_KEY_ADV_PID \<equiv> 203"
abbreviation AD_PROTOCOL_KEY_ADV_SIZE :: UCHAR where "AD_PROTOCOL_KEY_ADV_SIZE \<equiv> 204"
abbreviation AD_PROTOCOL_KEY_ADV_VIEW_TYPE :: UCHAR where "AD_PROTOCOL_KEY_ADV_VIEW_TYPE \<equiv> 206"
abbreviation AD_PROTOCOL_KEY_ADV_EXEC_FILTER :: UCHAR where "AD_PROTOCOL_KEY_ADV_EXEC_FILTER \<equiv> 207"
abbreviation AD_PROTOCOL_KEY_ADV_MIN_CPM_PRICE :: UCHAR where "AD_PROTOCOL_KEY_ADV_MIN_CPM_PRICE \<equiv> 208"
abbreviation AD_PROTOCOL_KEY_ADV_VIEW_SCREEN :: UCHAR where "AD_PROTOCOL_KEY_ADV_VIEW_SCREEN \<equiv> 210"
abbreviation AD_PROTOCOL_KEY_ADV_MAX_CPM_PRICE :: UCHAR where "AD_PROTOCOL_KEY_ADV_MAX_CPM_PRICE \<equiv> 211"
abbreviation AD_PROTOCOL_KEY_ADV_CLICK_URL :: UCHAR where "AD_PROTOCOL_KEY_ADV_CLICK_URL \<equiv> 214"
abbreviation AD_PROTOCOL_KEY_ADV_HTML :: UCHAR where "AD_PROTOCOL_KEY_ADV_HTML \<equiv> 213"
abbreviation AD_PROTOCOL_KEY_ADV_CREATIVE_TYPE :: UCHAR where "AD_PROTOCOL_KEY_ADV_CREATIVE_TYPE \<equiv> 215"
abbreviation AD_PROTOCOL_KEY_ADV_DESTINATION_URL :: UCHAR where "AD_PROTOCOL_KEY_ADV_DESTINATION_URL \<equiv> 218"
abbreviation AD_PROTOCOL_KEY_ADV_CREATIVE_ID :: UCHAR where "AD_PROTOCOL_KEY_ADV_CREATIVE_ID \<equiv> 219"
abbreviation AD_PROTOCOL_KEY_MATERIAL_FORMAT :: UCHAR where "AD_PROTOCOL_KEY_MATERIAL_FORMAT \<equiv> 220"
abbreviation AD_PROTOCOL_KEY_CREATIVE_ID :: UCHAR where "AD_PROTOCOL_KEY_CREATIVE_ID \<equiv> 229"
abbreviation AD_PROTOCOL_KEY_MOBILE_CONNECT_TYPE :: UCHAR where "AD_PROTOCOL_KEY_MOBILE_CONNECT_TYPE \<equiv> 231"
abbreviation AD_PROTOCOL_KEY_MOBILE_OPERATOR :: UCHAR where "AD_PROTOCOL_KEY_MOBILE_OPERATOR \<equiv> 232"
abbreviation AD_PROTOCOL_KEY_MOBILE_APP :: UCHAR where "AD_PROTOCOL_KEY_MOBILE_APP \<equiv> 234"
abbreviation AD_PROTOCOL_KEY_HOT_KEY :: UCHAR where "AD_PROTOCOL_KEY_HOT_KEY \<equiv> 236"
abbreviation AD_PROTOCOL_KEY_HOT_URL :: UCHAR where "AD_PROTOCOL_KEY_HOT_URL \<equiv> 237"
abbreviation AD_PROTOCOL_KEY_HOT_TIME :: UCHAR where "AD_PROTOCOL_KEY_HOT_TIME \<equiv> 238"
abbreviation AD_PROTOCOL_KEY_MONITOR_URL :: UCHAR where "AD_PROTOCOL_KEY_MONITOR_URL \<equiv> 239"
abbreviation AD_PROTOCOL_KEY_TRANSACTION_TYPE :: UCHAR where "AD_PROTOCOL_KEY_TRANSACTION_TYPE \<equiv> 240"
abbreviation AD_PROTOCOL_KEY_ADVERTISER_ID :: UCHAR where "AD_PROTOCOL_KEY_ADVERTISER_ID \<equiv> 241"
abbreviation AD_PROTOCOL_KEY_DURATION :: UCHAR where "AD_PROTOCOL_KEY_DURATION \<equiv> 242"
abbreviation AD_PROTOCOL_KEY_DEVICE_UNIQUE_TYPE :: UCHAR where "AD_PROTOCOL_KEY_DEVICE_UNIQUE_TYPE \<equiv> 243"
abbreviation AD_PROTOCOL_KEY_HOT_TAG :: UCHAR where "AD_PROTOCOL_KEY_HOT_TAG \<equiv> 244"
abbreviation AD_PROTOCOL_KEY_CREATE_GROUP_ID :: UCHAR where "AD_PROTOCOL_KEY_CREATE_GROUP_ID \<equiv> 245"
abbreviation AD_PROTOCOL_KEY_TARGET_PRICE :: UCHAR where "AD_PROTOCOL_KEY_TARGET_PRICE \<equiv> 246"
abbreviation AD_PROTOCOL_KEY_ADIRECT_USER_ID :: UCHAR where "AD_PROTOCOL_KEY_ADIRECT_USER_ID \<equiv> 247"
abbreviation AD_PROTOCOL_KEY_ADIRECT_COOKIE_ID :: UCHAR where "AD_PROTOCOL_KEY_ADIRECT_COOKIE_ID \<equiv> 248"
abbreviation AD_PROTOCOL_KEY_KEYWORD :: UCHAR where "AD_PROTOCOL_KEY_KEYWORD \<equiv> 249"
abbreviation AD_PROTOCOL_KEY_MRAID_MATERIAL :: UCHAR where "AD_PROTOCOL_KEY_MRAID_MATERIAL \<equiv> 251"
abbreviation AD_PROTOCOL_KEY_CROWD_CATEGORY :: UCHAR where "AD_PROTOCOL_KEY_CROWD_CATEGORY \<equiv> 253"
abbreviation AD_PROTOCOL_KEY_USERAGENT_ID :: UCHAR where "AD_PROTOCOL_KEY_USERAGENT_ID \<equiv> 254"

end
