(* ===== verification/AdRtbBase.thy ===== *)
theory AdRtbBase
  imports AdPrelude
begin

text \<open>
  The bid request and the bid response of \<^verbatim>\<open>inc/AdRtbBase.h\<close> and the time stamp of
  \<^verbatim>\<open>libutil/inc/AdTime.h\<close>. Many fields of \<^verbatim>\<open>AdRtbResponse\<close> have the names of fields of
  \<^verbatim>\<open>AdRtbRequest\<close>, so those of the response are written \<open>m_r_\<close> instead of \<open>m_\<close>.
\<close>

section \<open>Time stamps\<close>

record Time =
  tv_sec :: int
  tv_usec :: int

definition at_zero :: Time where
  "at_zero = \<lparr>tv_sec = 0, tv_usec = 0\<rparr>"

text \<open>
  \<^verbatim>\<open>toNow\<close> computes in \<^verbatim>\<open>long\<close> and returns a \<^verbatim>\<open>UINT\<close>. The clock is an argument.
\<close>

definition toNow :: "Time \<Rightarrow> Time \<Rightarrow> UINT" where
  "toNow now m_stTime =
     (if tv_usec m_stTime \<le> tv_usec now
      then of_int ((tv_sec now - tv_sec m_stTime) * 1000000 + tv_usec now - tv_usec m_stTime)
      else of_int ((tv_sec now - tv_sec m_stTime) * 1000000 + tv_usec m_stTime - tv_usec now))"

section \<open>Requests\<close>

record AdRtbRequest =
  m_uiAdx :: UINT
  m_sFlow :: string
  m_sAdViewScreen :: string
  m_sAdViewType :: string
  m_sBidID :: string
  m_sUserID :: string
  m_sUserIP :: string
  m_sArea :: string
  m_sPId :: string
  m_sSlotID :: string
  m_ltSiteCategory :: "string list"
  m_sSize :: string
  m_sUserAgent :: string
  m_sUserUrl :: string
  m_ltUalist :: "string list"
  m_ltCreate :: "string list"
  m_ltCategory :: "string list"
  m_ltSensitive :: "string list"
  m_sMinPrice :: string
  m_sVideoMinTime :: string
  m_sVideoMaxTime :: string
  m_sLinearity :: string
  m_ltMaterialFormat :: "string list"
  m_ltMobileOperator :: "string list"
  m_ltMobileDevice :: "string list"
  m_ltMobileConnect :: "string list"
  m_sIDFA :: string
  m_sIMEI :: string
  m_sAndroidID :: string
  m_sTransaction :: string
  m_sDevUniqueType :: string
  m_sLat :: string
  m_sLon :: string
  m_ltCrowdCategory :: "string list"
  m_cTime :: Time
  m_uiRequestId :: UINT
  m_bMobile :: bool
  m_sPara1 :: string
  m_sPara2 :: string
  m_sPara3 :: string
  m_sPara4 :: string
  m_sPara5 :: string

text \<open>\<^verbatim>\<open>clear()\<close> resets every field; \<^verbatim>\<open>m_cTime.update()\<close> takes the current time.\<close>

definition clear_request :: "Time \<Rightarrow> AdRtbRequest" where
  "clear_request now =
    \<lparr>m_uiAdx = 0, m_sFlow = [], m_sAdViewScreen = [], m_sAdViewType = [], m_sBidID = [],
     m_sUserID = [], m_sUserIP = [], m_sArea = [], m_sPId = [], m_sSlotID = [],
     m_ltSiteCategory = [], m_sSize = [], m_sUserAgent = [], m_sUserUrl = [],
     m_ltUalist = [], m_ltCreate = [], m_ltCategory = [], m_ltSensitive = [],
     m_sMinPrice = [], m_sVideoMinTime = [], m_sVideoMaxTime = [], m_sLinearity = [],
     m_ltMaterialFormat = [], m_ltMobileOperator = [], m_ltMobileDevice = [],
     m_ltMobileConnect = [], m_sIDFA = [], m_sIMEI = [], m_sAndroidID = [],
     m_sTransaction = [], m_sDevUniqueType = [], m_sLat = [], m_sLon = [],
     m_ltCrowdCategory = [], m_cTime = now, m_uiRequestId = 0, m_bMobile = False,
     m_sPara1 = [], m_sPara2 = [], m_sPara3 = [], m_sPara4 = [], m_sPara5 = []\<rparr>"

definition AD_RESPONSE_MAX_TIME :: UINT where
  "AD_RESPONSE_MAX_TIME = 15000"

definition checkLife :: "Time \<Rightarrow> AdRtbRequest \<Rightarrow> bool" where
  "checkLife now ctReq \<longleftrightarrow> toNow now (m_cTime ctReq) > AD_RESPONSE_MAX_TIME"

section \<open>Responses\<close>

record AdRtbResponse =
  m_r_uiAdx :: UINT
  m_r_sFlow :: string
  m_r_sDuration :: string
  m_r_sAdvertiserId :: string
  m_r_sTanxID :: string
  m_r_sRegion :: string
  m_r_sArea :: string
  m_r_sHotKey :: string
  m_r_sHotUrl :: string
  m_r_sHotTag :: string
  m_r_sKeyWord :: string
  m_r_sHotTime :: string
  m_r_sBidID :: string
  m_r_sExecID :: string
  m_r_sUserID :: string
  m_r_sUserIP :: string
  m_r_sPId :: string
  m_r_sCreateGID :: string
  m_r_sSize :: string
  m_r_sOrderID :: string
  m_r_sCreativeID :: string
  m_r_sMaterialID :: string
  m_r_sUud :: string
  m_r_sCreative :: string
  m_r_sTargetPriceType :: string
  m_r_sTargetPrice :: string
  m_r_sMaxPrice :: string
  m_r_sCategory :: string
  m_r_sHtml :: string
  m_r_sWidth :: string
  m_r_sHeight :: string
  m_r_sHtmlMraid :: string
  m_r_sDestUrl :: string
  m_r_sClickUrl :: string
  m_r_sMaterailFormat :: string
  m_r_sAdirectID :: string
  m_r_sDevType :: string
  m_r_sCookID :: string
  m_r_ltMonitorUrl :: "string list"

definition clear_response :: AdRtbResponse where
  "clear_response =
    \<lparr>m_r_uiAdx = 0, m_r_sFlow = [], m_r_sDuration = [], m_r_sAdvertiserId = [],
     m_r_sTanxID = [], m_r_sRegion = [], m_r_sArea = [], m_r_sHotKey = [],
     m_r_sHotUrl = [], m_r_sHotTag = [], m_r_sKeyWord = [], m_r_sHotTime = [],
     m_r_sBidID = [], m_r_sExecID = [], m_r_sUserID = [], m_r_sUserIP = [], m_r_sPId = [],
     m_r_sCreateGID = [], m_r_sSize = [], m_r_sOrderID = [], m_r_sCreativeID = [],
     m_r_sMaterialID = [], m_r_sUud = [], m_r_sCreative = [], m_r_sTargetPriceType = [],
     m_r_sTargetPrice = [], m_r_sMaxPrice = [], m_r_sCategory = [], m_r_sHtml = [],
     m_r_sWidth = [], m_r_sHeight = [], m_r_sHtmlMraid = [], m_r_sDestUrl = [],
     m_r_sClickUrl = [], m_r_sMaterailFormat = [], m_r_sAdirectID = [], m_r_sDevType = [],
     m_r_sCookID = [], m_r_ltMonitorUrl = []\<rparr>"

end
