(* ===== verification/AdCString.thy ===== *)
theory AdCString
  imports AdPrelude
begin

text \<open>
  The text functions of the C library that build and read the string keys of the program:
  \<^verbatim>\<open>printf("%d")\<close> and \<^verbatim>\<open>"%02d"\<close> of an \<^verbatim>\<open>int\<close>, \<^verbatim>\<open>snprintf\<close> with its truncation,
  \<^verbatim>\<open>c_str\<close> (a \<^verbatim>\<open>%s\<close> argument ends at its first NUL) and \<^verbatim>\<open>atoi\<close>.
\<close>

section \<open>Decimal numerals\<close>

fun digits10 :: "nat \<Rightarrow> string" where
  "digits10 n = (if n < 10 then [char_of (48 + n)]
                 else digits10 (n div 10) @ [char_of (48 + n mod 10)])"

declare digits10.simps [simp del]

definition is_digit :: "char \<Rightarrow> bool" where
  "is_digit c \<longleftrightarrow> 48 \<le> (of_char c :: nat) \<and> (of_char c :: nat) \<le> 57"

definition digits_val :: "string \<Rightarrow> nat" where
  "digits_val s = foldl (\<lambda>a c. a * 10 + (of_char c - 48)) 0 s"

lemma of_char_digit: "n < 10 \<Longrightarrow> of_char (char_of (48 + n)) = (48 + n :: nat)"
  by (simp add: take_bit_eq_mod)

lemma digits_val_digits10 [simp]: "digits_val (digits10 n) = n"
proof (induction n rule: digits10.induct)
  case (1 n)
  show ?case
  proof (cases "n < 10")
    case True
    then show ?thesis
      by (simp add: digits10.simps [of n] digits_val_def of_char_digit del: of_char_of)
  next
    case False
    then have "digits_val (digits10 n) = digits_val (digits10 (n div 10)) * 10 + n mod 10"
      by (simp add: digits10.simps [of n] digits_val_def of_char_digit del: of_char_of)
    with False "1" show ?thesis by simp
  qed
qed

lemma digits10_inj: "digits10 m = digits10 n \<longleftrightarrow> m = n"
  by (metis digits_val_digits10)

lemma digits10_digit: "c \<in> set (digits10 n) \<Longrightarrow> is_digit c"
proof (induction n rule: digits10.induct)
  case (1 n)
  have d: "is_digit (char_of (48 + m))" if "m < 10" for m :: nat
    using that by (simp add: is_digit_def of_char_digit del: of_char_of)
  from "1" d show ?case
    by (subst (asm) (2) digits10.simps) (auto split: if_splits)
qed

lemma digits10_not_Nil [simp]: "digits10 n \<noteq> []"
  by (subst digits10.simps) simp

lemma length_digits10: "n < 10 ^ Suc k \<Longrightarrow> length (digits10 n) \<le> Suc k"
proof (induction k arbitrary: n)
  case 0
  then show ?case by (subst digits10.simps) simp
next
  case (Suc k)
  show ?case
  proof (cases "n < 10")
    case True
    then show ?thesis by (subst digits10.simps) simp
  next
    case False
    from Suc.prems have "n div 10 < 10 ^ Suc k" by (simp add: less_mult_imp_div_less)
    from Suc.IH [OF this] False show ?thesis by (subst digits10.simps) simp
  qed
qed

section \<open>printf\<close>

text \<open>The bits of a \<^verbatim>\<open>UINT\<close> passed to \<^verbatim>\<open>%d\<close> are printed as a signed \<^verbatim>\<open>int\<close>.\<close>

definition fmt_d :: "UINT \<Rightarrow> string" where
  "fmt_d w = (let i = sint w in
     if i < 0 then CHR ''-'' # digits10 (nat (- i)) else digits10 (nat i))"

lemma dash_not_digit [simp]: "\<not> is_digit CHR ''-''"
  by (simp add: is_digit_def)

lemma digits10_neq_dash [simp]: "digits10 n \<noteq> CHR ''-'' # s" "CHR ''-'' # s \<noteq> digits10 n"
  using digits10_digit [of "CHR ''-''" n] dash_not_digit by (metis list.set_intros(1))+

lemma fmt_d_inj [simp]: "fmt_d v = fmt_d w \<longleftrightarrow> v = w"
proof
  assume "fmt_d v = fmt_d w"
  then have "sint v = sint w"
    by (auto simp: fmt_d_def Let_def digits10_inj split: if_splits)
  then show "v = w" by (rule signed_word_eqI)
qed simp

lemma fmt_d_not_Nil [simp]: "fmt_d w \<noteq> []"
  by (simp add: fmt_d_def Let_def)

lemma fmt_d_chars: "c \<in> set (fmt_d w) \<Longrightarrow> is_digit c \<or> c = CHR ''-''"
  by (auto simp: fmt_d_def Let_def dest: digits10_digit split: if_splits)

lemma length_fmt_d: "length (fmt_d w) \<le> 11"
proof -
  have "- (2 ^ 31) \<le> sint w" "sint w < 2 ^ 31"
    using sint_ge [of w] sint_lt [of w] by simp_all
  then have "nat (sint w) < 10 ^ Suc 9" "nat (- sint w) < 10 ^ Suc 9" by simp_all
  then show ?thesis
    using length_digits10 [of "nat (sint w)" 9] length_digits10 [of "nat (- sint w)" 9]
    by (simp add: fmt_d_def Let_def)
qed

text \<open>\<^verbatim>\<open>"%02d"\<close> of a small non-negative number: at least two digits.\<close>

definition fmt_02d :: "nat \<Rightarrow> string" where
  "fmt_02d n = (if n < 10 then CHR ''0'' # digits10 n else digits10 n)"

text \<open>
  \<^verbatim>\<open>snprintf(buf, n, \<dots>)\<close> with \<open>0 < n\<close> stores at most \<open>n - 1\<close> characters and a NUL; the
  C string in the buffer afterwards is the truncated text.
\<close>

definition c_str :: "string \<Rightarrow> string" where
  "c_str s = takeWhile (\<lambda>c. c \<noteq> CHR 0x00) s"

definition snprintf :: "nat \<Rightarrow> string \<Rightarrow> string" where
  "snprintf n s = take (n - 1) s"

lemma snprintf_id: "length s < n \<Longrightarrow> snprintf n s = s"
  by (simp add: snprintf_def)

lemma length_snprintf: "length (snprintf n s) \<le> n - 1"
  by (simp add: snprintf_def)

lemma c_str_append: "CHR 0x00 \<notin> set s \<Longrightarrow> c_str (s @ t) = s @ c_str t"
  by (auto simp: c_str_def intro: takeWhile_append2)

lemma c_str_id: "CHR 0x00 \<notin> set s \<Longrightarrow> c_str s = s"
  by (auto simp: c_str_def takeWhile_eq_all_conv)

section \<open>atoi\<close>

definition is_space :: "char \<Rightarrow> bool" where
  "is_space c \<longleftrightarrow> c = CHR '' '' \<or> (9 \<le> (of_char c :: nat) \<and> (of_char c :: nat) \<le> 13)"

text \<open>
  glibc's \<^verbatim>\<open>atoi\<close> is \<^verbatim>\<open>(int) strtol(s, NULL, 10)\<close>: white space, an optional sign, digits; the
  value is clipped to 64 bits and then cut to the low 32.
\<close>

definition clip64 :: "int \<Rightarrow> int" where
  "clip64 i = max (- (2 ^ 63)) (min (2 ^ 63 - 1) i)"

definition atoi :: "string \<Rightarrow> UINT" where
  "atoi s =
     (let t = dropWhile is_space s in
      case t of
        [] \<Rightarrow> 0
      | c # u \<Rightarrow>
          if c = CHR ''-'' then of_int (clip64 (- int (digits_val (takeWhile is_digit u))))
          else if c = CHR ''+'' then of_int (clip64 (int (digits_val (takeWhile is_digit u))))
          else of_int (clip64 (int (digits_val (takeWhile is_digit t)))))"

lemma space_not_digit: "is_digit c \<Longrightarrow> \<not> is_space c"
  by (auto simp: is_digit_def is_space_def)

lemma dash_not_space [simp]: "\<not> is_space CHR ''-''"
  by (simp add: is_space_def)

lemma takeWhile_digits10 [simp]: "takeWhile is_digit (digits10 n) = digits10 n"
  by (auto simp: takeWhile_eq_all_conv dest: digits10_digit)

lemma dropWhile_space_digits10 [simp]: "dropWhile is_space (digits10 n) = digits10 n"
proof (cases "digits10 n")
  case (Cons c t)
  then have "is_digit c" using digits10_digit [of c n] by simp
  then show ?thesis using Cons by (simp add: space_not_digit)
qed simp

text \<open>\<^verbatim>\<open>atoi\<close> reads back what \<^verbatim>\<open>%d\<close> printed.\<close>

lemma atoi_fmt_d: "atoi (fmt_d w) = w"
proof (cases "sint w < 0")
  case True
  then have "- (2 ^ 31) \<le> sint w" using sint_ge [of w] by simp
  with True have "clip64 (sint w) = sint w" by (simp add: clip64_def)
  with True show ?thesis by (simp add: atoi_def fmt_d_def Let_def)
next
  case False
  obtain c t where ct: "digits10 (nat (sint w)) = c # t"
    by (cases "digits10 (nat (sint w))") auto
  then have d: "is_digit c" using digits10_digit [of c "nat (sint w)"] by simp
  have "sint w < 2 ^ 31" using sint_lt [of w] by simp
  with False have clip: "clip64 (sint w) = sint w" by (simp add: clip64_def)
  have fmt: "fmt_d w = c # t" using False ct by (simp add: fmt_d_def Let_def)
  have "c \<noteq> CHR ''-''" "c \<noteq> CHR ''+''" using d by (auto simp: is_digit_def)
  moreover have "dropWhile is_space (c # t) = c # t" "takeWhile is_digit (c # t) = c # t"
    using dropWhile_space_digits10 [of "nat (sint w)"] takeWhile_digits10 [of "nat (sint w)"]
    by (simp_all only: ct)
  moreover have "digits_val (c # t) = nat (sint w)"
    using digits_val_digits10 [of "nat (sint w)"] by (simp only: ct)
  ultimately show ?thesis
    unfolding atoi_def fmt Let_def using False clip by simp
qed

lemma snprintf_fmt_d [simp]: "12 \<le> n \<Longrightarrow> snprintf n (fmt_d w) = fmt_d w"
  using length_fmt_d [of w] by (intro snprintf_id) simp

section \<open>tolower\<close>

definition tolower :: "char \<Rightarrow> char" where
  "tolower c = (if 65 \<le> (of_char c :: nat) \<and> (of_char c :: nat) \<le> 90
     then char_of ((of_char c :: nat) + 32) else c)"

end
