(* ===== verification/AdRtbNetProtocol.thy ===== *)
theory AdRtbNetProtocol
  imports AdTlv AdTlvKeys AdRtbBase AdCString
begin

text \<open>
  The protocol object of \<^verbatim>\<open>libtlv/src/AdRtbNetProtocol.cpp\<close>: the parser tables, the four
  conversions between messages and packets, and the packet length function. \<^verbatim>\<open>bPrint\<close> only
  prints and is left out. zlib's \<^verbatim>\<open>compress\<close> and \<^verbatim>\<open>uncompress\<close> are arguments.
\<close>

section \<open>Parser tables\<close>

definition AdRtbProtocolInitParser_req :: "(UCHAR \<times> AdRtbRequest parser) list" where
  "AdRtbProtocolInitParser_req =
    [(AD_PROTOCOL_KEY_ADIRECT_FLOW_TYPE, ParseString m_sFlow_update),
     (AD_PROTOCOL_KEY_RTB_BIDID, ParseString m_sBidID_update),
     (AD_PROTOCOL_KEY_RTB_UID, ParseString m_sUserID_update),
     (AD_PROTOCOL_KEY_RTB_IP, ParseString m_sUserIP_update),
     (AD_PROTOCOL_KEY_ADV_PID, ParseString m_sPId_update),
     (AD_PROTOCOL_KEY_MOBILE_APP, ParseList m_ltSiteCategory_update),
     (AD_PROTOCOL_KEY_ADV_SIZE, ParseString m_sSize_update),
     (AD_PROTOCOL_KEY_RTB_USERAGENT, ParseString m_sUserAgent_update),
     (AD_PROTOCOL_KEY_RTB_USER_URL, ParseString m_sUserUrl_update),
     (AD_PROTOCOL_KEY_DEVICE_UNIQUE_TYPE, ParseString m_sDevUniqueType_update),
     (AD_PROTOCOL_KEY_ADV_VIEW_SCREEN, ParseString m_sAdViewScreen_update),
     (AD_PROTOCOL_KEY_ADV_VIEW_TYPE, ParseString m_sAdViewType_update),
     (AD_PROTOCOL_KEY_ADV_EXEC_FILTER, ParseList m_ltCreate_update),
     (AD_PROTOCOL_KEY_AD_CATEGORY, ParseList m_ltCategory_update),
     (AD_PROTOCOL_KEY_USERAGENT_ID, ParseList m_ltUalist_update),
     (AD_PROTOCOL_KEY_MATERIAL_FORMAT, ParseList m_ltMaterialFormat_update),
     (AD_PROTOCOL_KEY_SENSITIVE_CATEGORY, ParseList m_ltSensitive_update),
     (AD_PROTOCOL_KEY_ADV_MIN_CPM_PRICE, ParseString m_sMinPrice_update),
     (AD_PROTOCOL_KEY_TENCENT_DURATION_MIN, ParseString m_sVideoMinTime_update),
     (AD_PROTOCOL_KEY_TENCENT_DURATION_MAX, ParseString m_sVideoMaxTime_update),
     (AD_PROTOCOL_KEY_LINEARITY, ParseString m_sLinearity_update),
     (AD_PROTOCOL_KEY_MOBILE_OPERATOR, ParseList m_ltMobileOperator_update),
     (AD_PROTOCOL_KEY_DEVICE_TYPE, ParseList m_ltMobileDevice_update),
     (AD_PROTOCOL_KEY_MOBILE_CONNECT_TYPE, ParseList m_ltMobileConnect_update),
     (AD_PROTOCOL_KEY_TRANSACTION_TYPE, ParseString m_sTransaction_update),
     (AD_PROTOCOL_KEY_DEVICE_IDFA, ParseString m_sIDFA_update),
     (AD_PROTOCOL_KEY_DEVICE_IMEI, ParseString m_sIMEI_update),
     (AD_PROTOCOL_KEY_DEVICE_ANDROID, ParseString m_sAndroidID_update)]"

definition AdRtbProtocolInitParser_res :: "(UCHAR \<times> AdRtbResponse parser) list" where
  "AdRtbProtocolInitParser_res =
    [(AD_PROTOCOL_KEY_ADIRECT_REGION, ParseString m_r_sArea_update),
     (AD_PROTOCOL_KEY_DEVICE, ParseString m_r_sRegion_update),
     (AD_PROTOCOL_KEY_HOT_URL, ParseString m_r_sHotUrl_update),
     (AD_PROTOCOL_KEY_HOT_TIME, ParseString m_r_sHotTime_update),
     (AD_PROTOCOL_KEY_HOT_TAG, ParseString m_r_sHotTag_update),
     (AD_PROTOCOL_KEY_RTB_BIDID, ParseString m_r_sBidID_update),
     (AD_PROTOCOL_KEY_ADIRECT_EXEC_ID, ParseString m_r_sExecID_update),
     (AD_PROTOCOL_KEY_RTB_UID, ParseString m_r_sUserID_update),
     (AD_PROTOCOL_KEY_RTB_IP, ParseString m_r_sUserIP_update),
     (AD_PROTOCOL_KEY_ADV_PID, ParseString m_r_sPId_update),
     (AD_PROTOCOL_KEY_ADV_SIZE, ParseString m_r_sSize_update),
     (AD_PROTOCOL_KEY_ADIRECT_ORDER_ID, ParseString m_r_sOrderID_update),
     (AD_PROTOCOL_KEY_ADV_CREATIVE_ID, ParseString m_r_sCreativeID_update),
     (AD_PROTOCOL_KEY_CREATE_GROUP_ID, ParseString m_r_sCreateGID_update),
     (AD_PROTOCOL_KEY_ADIRECT_MATERIAL_ID, ParseString m_r_sMaterialID_update),
     (AD_PROTOCOL_KEY_CREATIVE_ID, ParseString m_r_sUud_update),
     (AD_PROTOCOL_KEY_ADV_CREATIVE_TYPE, ParseString m_r_sCreative_update),
     (AD_PROTOCOL_KEY_ADIRECT_BILLING_MODE, ParseString m_r_sTargetPriceType_update),
     (AD_PROTOCOL_KEY_ADV_MAX_CPM_PRICE, ParseString m_r_sMaxPrice_update),
     (AD_PROTOCOL_KEY_RTB_CATEGORY, ParseString m_r_sCategory_update),
     (AD_PROTOCOL_KEY_ADV_HTML, ParseString m_r_sHtml_update),
     (AD_PROTOCOL_KEY_MRAID_MATERIAL, ParseString m_r_sHtmlMraid_update),
     (AD_PROTOCOL_KEY_ADV_DESTINATION_URL, ParseString m_r_sDestUrl_update),
     (AD_PROTOCOL_KEY_ADV_CLICK_URL, ParseString m_r_sClickUrl_update),
     (AD_PROTOCOL_KEY_DURATION, ParseString m_r_sDuration_update),
     (AD_PROTOCOL_KEY_ADVERTISER_ID, ParseString m_r_sAdvertiserId_update),
     (AD_PROTOCOL_KEY_TARGET_PRICE, ParseString m_r_sTargetPrice_update),
     (AD_PROTOCOL_KEY_MATERIAL_FORMAT, ParseString m_r_sMaterailFormat_update),
     (AD_PROTOCOL_KEY_ADIRECT_USER_ID, ParseString m_r_sAdirectID_update),
     (AD_PROTOCOL_KEY_ADIRECT_COOKIE_ID, ParseString m_r_sCookID_update),
     (AD_PROTOCOL_KEY_RTB_ANONYMOUS_ID, ParseString m_r_sTanxID_update),
     (AD_PROTOCOL_KEY_DEVICE_TYPE, ParseString m_r_sDevType_update),
     (AD_PROTOCOL_KEY_KEYWORD, ParseString m_r_sKeyWord_update),
     (AD_PROTOCOL_KEY_HOT_KEY, ParseString m_r_sHotKey_update),
     (AD_PROTOCOL_KEY_MONITOR_URL, ParseList m_r_ltMonitorUrl_update)]"

section \<open>The fields a message writes, in order\<close>

definition request_kvs :: "AdRtbRequest \<Rightarrow> (UCHAR \<times> string) list" where
  "request_kvs ctReq =
     [(AD_PROTOCOL_KEY_ADIRECT_FLOW_TYPE, m_sFlow ctReq),
      (AD_PROTOCOL_KEY_RTB_BIDID, m_sBidID ctReq),
      (AD_PROTOCOL_KEY_RTB_UID, m_sUserID ctReq),
      (AD_PROTOCOL_KEY_RTB_IP, m_sUserIP ctReq),
      (AD_PROTOCOL_KEY_ADV_PID, m_sPId ctReq)] @
     map (Pair AD_PROTOCOL_KEY_MOBILE_APP) (m_ltSiteCategory ctReq) @
     [(AD_PROTOCOL_KEY_ADV_SIZE, m_sSize ctReq),
      (AD_PROTOCOL_KEY_RTB_USERAGENT, m_sUserAgent ctReq),
      (AD_PROTOCOL_KEY_RTB_USER_URL, m_sUserUrl ctReq),
      (AD_PROTOCOL_KEY_DEVICE_UNIQUE_TYPE, m_sDevUniqueType ctReq),
      (AD_PROTOCOL_KEY_ADV_VIEW_SCREEN, m_sAdViewScreen ctReq),
      (AD_PROTOCOL_KEY_ADV_VIEW_TYPE, m_sAdViewType ctReq)] @
     map (Pair AD_PROTOCOL_KEY_ADV_EXEC_FILTER) (m_ltCreate ctReq) @
     map (Pair AD_PROTOCOL_KEY_CROWD_CATEGORY) (m_ltCrowdCategory ctReq) @
     map (Pair AD_PROTOCOL_KEY_AD_CATEGORY) (m_ltCategory ctReq) @
     map (Pair AD_PROTOCOL_KEY_USERAGENT_ID) (m_ltUalist ctReq) @
     map (Pair AD_PROTOCOL_KEY_MATERIAL_FORMAT) (m_ltMaterialFormat ctReq) @
     map (Pair AD_PROTOCOL_KEY_SENSITIVE_CATEGORY) (m_ltSensitive ctReq) @
     [(AD_PROTOCOL_KEY_ADV_MIN_CPM_PRICE, m_sMinPrice ctReq),
      (AD_PROTOCOL_KEY_TENCENT_DURATION_MIN, m_sVideoMinTime ctReq),
      (AD_PROTOCOL_KEY_TENCENT_DURATION_MAX, m_sVideoMaxTime ctReq),
      (AD_PROTOCOL_KEY_LINEARITY, m_sLinearity ctReq)] @
     map (Pair AD_PROTOCOL_KEY_MOBILE_OPERATOR) (m_ltMobileOperator ctReq) @
     map (Pair AD_PROTOCOL_KEY_DEVICE_TYPE) (m_ltMobileDevice ctReq) @
     map (Pair AD_PROTOCOL_KEY_MOBILE_CONNECT_TYPE) (m_ltMobileConnect ctReq) @
     [(AD_PROTOCOL_KEY_TRANSACTION_TYPE, m_sTransaction ctReq),
      (AD_PROTOCOL_KEY_DEVICE_IDFA, m_sIDFA ctReq),
      (AD_PROTOCOL_KEY_DEVICE_IMEI, m_sIMEI ctReq),
      (AD_PROTOCOL_KEY_DEVICE_ANDROID, m_sAndroidID ctReq)]"

definition response_kvs :: "AdRtbResponse \<Rightarrow> (UCHAR \<times> string) list" where
  "response_kvs ctRes =
     [(AD_PROTOCOL_KEY_ADIRECT_REGION, m_r_sArea ctRes),
      (AD_PROTOCOL_KEY_DEVICE, m_r_sRegion ctRes),
      (AD_PROTOCOL_KEY_HOT_URL, m_r_sHotUrl ctRes),
      (AD_PROTOCOL_KEY_HOT_TIME, m_r_sHotTime ctRes),
      (AD_PROTOCOL_KEY_HOT_TAG, m_r_sHotTag ctRes),
      (AD_PROTOCOL_KEY_RTB_BIDID, m_r_sBidID ctRes),
      (AD_PROTOCOL_KEY_ADIRECT_EXEC_ID, m_r_sExecID ctRes),
      (AD_PROTOCOL_KEY_RTB_UID, m_r_sUserID ctRes),
      (AD_PROTOCOL_KEY_RTB_IP, m_r_sUserIP ctRes),
      (AD_PROTOCOL_KEY_ADV_PID, m_r_sPId ctRes),
      (AD_PROTOCOL_KEY_ADV_SIZE, m_r_sSize ctRes),
      (AD_PROTOCOL_KEY_ADIRECT_ORDER_ID, m_r_sOrderID ctRes),
      (AD_PROTOCOL_KEY_ADV_CREATIVE_ID, m_r_sCreativeID ctRes),
      (AD_PROTOCOL_KEY_CREATE_GROUP_ID, m_r_sCreateGID ctRes),
      (AD_PROTOCOL_KEY_ADIRECT_MATERIAL_ID, m_r_sMaterialID ctRes),
      (AD_PROTOCOL_KEY_CREATIVE_ID, m_r_sUud ctRes),
      (AD_PROTOCOL_KEY_ADV_CREATIVE_TYPE, m_r_sCreative ctRes),
      (AD_PROTOCOL_KEY_ADIRECT_BILLING_MODE, m_r_sTargetPriceType ctRes),
      (AD_PROTOCOL_KEY_ADV_MAX_CPM_PRICE, m_r_sMaxPrice ctRes),
      (AD_PROTOCOL_KEY_RTB_CATEGORY, m_r_sCategory ctRes),
      (AD_PROTOCOL_KEY_ADV_HTML, m_r_sHtml ctRes),
      (AD_PROTOCOL_KEY_MRAID_MATERIAL, m_r_sHtmlMraid ctRes),
      (AD_PROTOCOL_KEY_ADV_DESTINATION_URL, m_r_sDestUrl ctRes),
      (AD_PROTOCOL_KEY_ADV_CLICK_URL, m_r_sClickUrl ctRes),
      (AD_PROTOCOL_KEY_DURATION, m_r_sDuration ctRes),
      (AD_PROTOCOL_KEY_ADVERTISER_ID, m_r_sAdvertiserId ctRes),
      (AD_PROTOCOL_KEY_TARGET_PRICE, m_r_sTargetPrice ctRes),
      (AD_PROTOCOL_KEY_MATERIAL_FORMAT, m_r_sMaterailFormat ctRes),
      (AD_PROTOCOL_KEY_ADIRECT_USER_ID, m_r_sAdirectID ctRes),
      (AD_PROTOCOL_KEY_ADIRECT_COOKIE_ID, m_r_sCookID ctRes),
      (AD_PROTOCOL_KEY_RTB_ANONYMOUS_ID, m_r_sTanxID ctRes),
      (AD_PROTOCOL_KEY_DEVICE_TYPE, m_r_sDevType ctRes)] @
     (if take 3 (c_str (m_r_sHotKey ctRes)) = ''KW_''
      then [(AD_PROTOCOL_KEY_KEYWORD, m_r_sHotKey ctRes)]
      else [(AD_PROTOCOL_KEY_HOT_KEY, m_r_sHotKey ctRes)]) @
     map (Pair AD_PROTOCOL_KEY_MONITOR_URL) (m_r_ltMonitorUrl ctRes)"

section \<open>The protocol object\<close>

definition AdRtbProtocol_init :: AdRtbProtocol where
  "AdRtbProtocol_init = \<lparr>m_stHead = \<lparr>ucFlag = AD_PROTOCOL_FLAG, ucVersion = 1, ucProtocol = 1,
     ucWide = 0, ucResponse = 1, ucExpand = 0, ucType = 0,
     ucVerb = 1, ucAttr = 1, ucResult = AD_PROTOCOL_RESULT_OK,
     usTotal = 0, iLength = 0\<rparr>, m_sExHead = []\<rparr>"

definition TlvPacketLen :: "string \<Rightarrow> int \<Rightarrow> int cxx" where
  "TlvPacketLen pData iLen =
     bind_cxx (rd8 pData 0) (\<lambda>ucFlag.
       if iLen < int AD_PROTOCOL_HEAD_LEN then Inr AD_FAILURE
       else if ucFlag = AD_PROTOCOL_FLAG
       then bind_cxx (rd32 pData 9) (\<lambda>w. Inr (sint w))
       else Inr AD_FAILURE)"

section \<open>Packet to message\<close>

text \<open>
  The checks of the two parsers between the head and the body: the expanded head is saved and
  skipped, and the packet must hold the announced length. The result is the index of the body,
  whether the packet is too short, and the object.
\<close>

definition tlv_expand ::
    "ADPROHEAD_S \<Rightarrow> AdRtbProtocol \<Rightarrow> string \<Rightarrow> int \<Rightarrow> (nat \<times> bool \<times> AdRtbProtocol) cxx" where
  "tlv_expand h P pdata iLen =
     (if ucExpand h = AD_PROTOCOL_EXPPAND_1 then
        bind_cxx (rd_bytes pdata 12 AD_PROTOCOL_HEAD_EXPAND_LEN) (\<lambda>ex.
        bind_cxx (add_int (12 + 4) (iLength h)) (\<lambda>need.
          Inr (16, iLen < need, P\<lparr>m_sExHead := ex\<rparr>)))
      else bind_cxx (add_int 12 (iLength h)) (\<lambda>need. Inr (12, iLen < need, P)))"

definition TlvToInternal_req ::
    "(nat \<Rightarrow> string \<Rightarrow> string) \<Rightarrow> Time \<Rightarrow> AdRtbProtocol \<Rightarrow> string \<Rightarrow> int \<Rightarrow>
     (int \<times> AdRtbProtocol \<times> AdRtbRequest) cxx" where
  "TlvToInternal_req uncompress now P pdata iLen =
    (let ctReq = clear_request now; P0 = P\<lparr>m_stHead := zero_head\<rparr> in
     if iLen < int AD_PROTOCOL_HEAD_LEN then Inr (AD_FAILURE, P0, ctReq)
     else bind_cxx (rd8 pdata 0) (\<lambda>flag.
       if flag \<noteq> AD_PROTOCOL_FLAG
       then Inr (AD_FAILURE, P\<lparr>m_stHead := zero_head\<lparr>ucFlag := flag\<rparr>\<rparr>, ctReq)
       else bind_cxx (read_head pdata flag) (\<lambda>h.
         bind_cxx (tlv_expand h (P\<lparr>m_stHead := h\<rparr>) pdata iLen) (\<lambda>(pBody, short, P1).
           if short then Inr (AD_FAILURE, P1, ctReq)
           else bind_cxx (tlv_unpack uncompress h pdata pBody) (\<lambda>(mem, body, len).
             bind_cxx (tlv_body (map_of AdRtbProtocolInitParser_req) mem body len
                 (unat (usTotal h)) body ctReq) (\<lambda>r.
               Inr (AD_SUCCESS, P1\<lparr>m_stHead := h\<lparr>iLength := len\<rparr>\<rparr>,
                 r\<lparr>m_uiAdx := ucast (ucType h), m_sTransaction := fmt_d 1\<rparr>)))))))"

text \<open>
  The response parser does not check the length before it reads the head. Its exits all pass
  the label \<^verbatim>\<open>RETURN\<close>, which sets \<^verbatim>\<open>m_uiAdx\<close> from the head read so far.
\<close>

definition TlvToInternal_res ::
    "(nat \<Rightarrow> string \<Rightarrow> string) \<Rightarrow> AdRtbProtocol \<Rightarrow> string \<Rightarrow> int \<Rightarrow>
     (int \<times> AdRtbProtocol \<times> AdRtbResponse) cxx" where
  "TlvToInternal_res uncompress P pdata iLen =
    (let RETURN = (\<lambda>ret P r. Inr (ret, P, r\<lparr>m_r_uiAdx := ucast (ucType (m_stHead P))\<rparr>));
         ctRes = clear_response in
     bind_cxx (rd8 pdata 0) (\<lambda>flag.
       if flag \<noteq> AD_PROTOCOL_FLAG
       then RETURN AD_FAILURE (P\<lparr>m_stHead := zero_head\<lparr>ucFlag := flag\<rparr>\<rparr>) ctRes
       else bind_cxx (read_head pdata flag) (\<lambda>h.
         bind_cxx (tlv_expand h (P\<lparr>m_stHead := h\<rparr>) pdata iLen) (\<lambda>(pBody, short, P1).
           if short then RETURN AD_FAILURE P1 ctRes
           else if ucResult h \<noteq> AD_PROTOCOL_RESULT_OK then RETURN AD_FAILURE P1 ctRes
           else bind_cxx (tlv_unpack uncompress h pdata pBody) (\<lambda>(mem, body, len).
             bind_cxx (tlv_body (map_of AdRtbProtocolInitParser_res) mem body len
                 (unat (usTotal h)) body ctRes) (\<lambda>r.
               RETURN AD_SUCCESS (P1\<lparr>m_stHead := h\<lparr>iLength := len\<rparr>\<rparr>) r))))))"

section \<open>Message to packet\<close>

text \<open>
  The end of both builders: the head is written at the start of the buffer and, with an
  expanded head, \<^verbatim>\<open>m_sExHead\<close> is copied behind it and its size added to the length.
\<close>

definition tlv_finish ::
    "AdRtbProtocol \<Rightarrow> string \<Rightarrow> int \<Rightarrow> (int \<times> AdRtbProtocol \<times> string) cxx" where
  "tlv_finish P mem dataLen =
     bind_cxx (mem_write mem 0 (head_bytes (m_stHead P))) (\<lambda>m1.
       if ucExpand (m_stHead P) = AD_PROTOCOL_EXPPAND_1
       then bind_cxx (mem_write m1 12 (m_sExHead P)) (\<lambda>m2.
         Inr (dataLen + int (length (m_sExHead P)), P, m2))
       else Inr (dataLen, P, m1))"

text \<open>
  \<open>compress cap src\<close> is the output of zlib's \<^verbatim>\<open>compress\<close> for a destination of \<open>cap\<close> bytes; its
  status is ignored. The request builder writes \<^verbatim>\<open>m_sFlow\<close> twice, the first time without
  checking or counting the space.
\<close>

definition InternalToTlv_req ::
    "(nat \<Rightarrow> string \<Rightarrow> string) \<Rightarrow> AdRtbProtocol \<Rightarrow> AdRtbRequest \<Rightarrow> string \<Rightarrow> int \<Rightarrow>
     (int \<times> AdRtbProtocol \<times> string) cxx" where
  "InternalToTlv_req compress P ctReq pdata iLen =
    (let P0 = P\<lparr>m_stHead := (m_stHead P)\<lparr>ucType := ucast (m_uiAdx ctReq)\<rparr>\<rparr>;
         V = m_sFlow ctReq;
         st0 = \<lparr>kv_mem = pdata, pCur = 12, iSpace = iLen - 12, usCount = 0\<rparr> in
     bind_cxx
       (if V = [] then Inr st0
        else bind_cxx (mem_write pdata 12 (kv_bytes AD_PROTOCOL_KEY_ADIRECT_FLOW_TYPE V)) (\<lambda>m.
          Inr (st0\<lparr>kv_mem := m, pCur := 12 + (5 + length V), usCount := 1\<rparr>))) (\<lambda>st1.
     bind_cxx (kv_all (request_kvs ctReq) st1) (\<lambda>(ok, st).
       if \<not> ok then Inr (AD_FAILURE, P0, kv_mem st)
       else
       let dataLen = pCur st - 12 in
       bind_cxx
         (if ucAttr (m_stHead P0) = AD_PROTOCOL_BODY_COMP then
            let out = compress AD_KBYTES4 (take dataLen (drop 12 (kv_mem st))) in
            bind_cxx (mem_write (kv_mem st) 12 out) (\<lambda>m.
            bind_cxx (mem_write m (12 + length out) [CHR 0x00]) (\<lambda>m'. Inr (m', length out)))
          else Inr (kv_mem st, dataLen)) (\<lambda>(mem, len).
       let P1 = P0\<lparr>m_stHead := (m_stHead P0)\<lparr>iLength := int len, usTotal := usCount st\<rparr>\<rparr> in
       tlv_finish P1 mem (int len + 12)))))"

text \<open>
  The response builder. A response with adx 0 is written as a head alone, with the result
  \<^verbatim>\<open>AD_PROTOCOL_RESULT_UNKNOW\<close>.
\<close>

definition InternalToTlv_res ::
    "(nat \<Rightarrow> string \<Rightarrow> string) \<Rightarrow> AdRtbProtocol \<Rightarrow> AdRtbResponse \<Rightarrow> string \<Rightarrow> int \<Rightarrow>
     (int \<times> AdRtbProtocol \<times> string) cxx" where
  "InternalToTlv_res compress P ctRes pdata iLen =
    (let headSize = (if ucExpand (m_stHead P) = AD_PROTOCOL_EXPPAND_1 then 12 + 4 else 12);
         P0 = P\<lparr>m_stHead := (m_stHead P)\<lparr>ucType := ucast (m_r_uiAdx ctRes)\<rparr>\<rparr>;
         finish = (\<lambda>P mem dataLen usCount.
           tlv_finish (P\<lparr>m_stHead := (m_stHead P)\<lparr>iLength := int dataLen, usTotal := usCount,
             ucVerb := 2\<rparr>\<rparr>) mem (int dataLen + int headSize)) in
     if m_r_uiAdx ctRes \<noteq> 0 then
       bind_cxx (kv_all (response_kvs ctRes) \<lparr>kv_mem = pdata, pCur = headSize,
           iSpace = iLen - int headSize, usCount = 0\<rparr>) (\<lambda>(ok, st).
         if \<not> ok then Inr (AD_FAILURE, P0, kv_mem st)
         else
         let dataLen = pCur st - headSize in
         if ucAttr (m_stHead P0) = AD_PROTOCOL_BODY_COMP then
           let out = compress AD_KBYTES4 (take dataLen (drop headSize (kv_mem st))) in
           if int (length out) + int headSize > iLen then Inr (AD_FAILURE, P0, kv_mem st)
           else
             bind_cxx (mem_write (kv_mem st) headSize out) (\<lambda>m.
             bind_cxx (mem_write m (headSize + length out) [CHR 0x00]) (\<lambda>m'.
               finish P0 m' (length out) (usCount st)))
         else finish P0 (kv_mem st) dataLen (usCount st))
     else finish (P0\<lparr>m_stHead := (m_stHead P0)\<lparr>ucResult := AD_PROTOCOL_RESULT_UNKNOW\<rparr>\<rparr>)
       pdata 0 0)"

end
