(* ===== verification/AdTlvRoundtrip.thy ===== *)
theory AdTlvRoundtrip
  imports AdRtbNetProtocol
begin

text \<open>
  What the receiver of a packet gets. The first section computes how the parser tables of
  \<^verbatim>\<open>libtlv/src/AdRtbNetProtocol.cpp\<close> store the pairs a message writes; the second shows which
  bytes the builders leave in the buffer; the last composes the two into the round trips of
  requests and responses, with the bounds under which no byte is written or read outside.
\<close>

section \<open>What the receiver stores\<close>

lemma request_list_fields:
  "store_kvs (map_of AdRtbProtocolInitParser_req) (map (Pair AD_PROTOCOL_KEY_MOBILE_APP) xs) r =
     m_ltSiteCategory_update (\<lambda>l. l @ filter (\<lambda>s. s \<noteq> []) xs) r"
  "store_kvs (map_of AdRtbProtocolInitParser_req) (map (Pair AD_PROTOCOL_KEY_ADV_EXEC_FILTER) xs) r =
     m_ltCreate_update (\<lambda>l. l @ filter (\<lambda>s. s \<noteq> []) xs) r"
  "store_kvs (map_of AdRtbProtocolInitParser_req) (map (Pair AD_PROTOCOL_KEY_CROWD_CATEGORY) xs) r = r"
  "store_kvs (map_of AdRtbProtocolInitParser_req) (map (Pair AD_PROTOCOL_KEY_AD_CATEGORY) xs) r =
     m_ltCategory_update (\<lambda>l. l @ filter (\<lambda>s. s \<noteq> []) xs) r"
  "store_kvs (map_of AdRtbProtocolInitParser_req) (map (Pair AD_PROTOCOL_KEY_USERAGENT_ID) xs) r =
     m_ltUalist_update (\<lambda>l. l @ filter (\<lambda>s. s \<noteq> []) xs) r"
  "store_kvs (map_of AdRtbProtocolInitParser_req) (map (Pair AD_PROTOCOL_KEY_MATERIAL_FORMAT) xs) r =
     m_ltMaterialFormat_update (\<lambda>l. l @ filter (\<lambda>s. s \<noteq> []) xs) r"
  "store_kvs (map_of AdRtbProtocolInitParser_req) (map (Pair AD_PROTOCOL_KEY_SENSITIVE_CATEGORY) xs) r =
     m_ltSensitive_update (\<lambda>l. l @ filter (\<lambda>s. s \<noteq> []) xs) r"
  "store_kvs (map_of AdRtbProtocolInitParser_req) (map (Pair AD_PROTOCOL_KEY_MOBILE_OPERATOR) xs) r =
     m_ltMobileOperator_update (\<lambda>l. l @ filter (\<lambda>s. s \<noteq> []) xs) r"
  "store_kvs (map_of AdRtbProtocolInitParser_req) (map (Pair AD_PROTOCOL_KEY_DEVICE_TYPE) xs) r =
     m_ltMobileDevice_update (\<lambda>l. l @ filter (\<lambda>s. s \<noteq> []) xs) r"
  "store_kvs (map_of AdRtbProtocolInitParser_req) (map (Pair AD_PROTOCOL_KEY_MOBILE_CONNECT_TYPE) xs) r =
     m_ltMobileConnect_update (\<lambda>l. l @ filter (\<lambda>s. s \<noteq> []) xs) r"
  by (rule store_kvs_list store_kvs_skip; simp add: AdRtbProtocolInitParser_req_def)+

lemma store_kvs_string:
  assumes "parse K = Some (ParseString field)" "V = [] \<Longrightarrow> field (\<lambda>_. []) r = r"
  shows "store_kvs parse ((K, V) # kvs) r = store_kvs parse kvs (field (\<lambda>_. V) r)"
  using assms by (cases "V = []") auto

lemma request_string_fields:
  "(V = [] \<longrightarrow> m_sFlow r = []) \<Longrightarrow>
     store_kvs (map_of AdRtbProtocolInitParser_req) ((AD_PROTOCOL_KEY_ADIRECT_FLOW_TYPE, V) # kvs) r =
     store_kvs (map_of AdRtbProtocolInitParser_req) kvs (r\<lparr>m_sFlow := V\<rparr>)"
  "(V = [] \<longrightarrow> m_sBidID r = []) \<Longrightarrow>
     store_kvs (map_of AdRtbProtocolInitParser_req) ((AD_PROTOCOL_KEY_RTB_BIDID, V) # kvs) r =
     store_kvs (map_of AdRtbProtocolInitParser_req) kvs (r\<lparr>m_sBidID := V\<rparr>)"
  "(V = [] \<longrightarrow> m_sUserID r = []) \<Longrightarrow>
     store_kvs (map_of AdRtbProtocolInitParser_req) ((AD_PROTOCOL_KEY_RTB_UID, V) # kvs) r =
     store_kvs (map_of AdRtbProtocolInitParser_req) kvs (r\<lparr>m_sUserID := V\<rparr>)"
  "(V = [] \<longrightarrow> m_sUserIP r = []) \<Longrightarrow>
     store_kvs (map_of AdRtbProtocolInitParser_req) ((AD_PROTOCOL_KEY_RTB_IP, V) # kvs) r =
     store_kvs (map_of AdRtbProtocolInitParser_req) kvs (r\<lparr>m_sUserIP := V\<rparr>)"
  "(V = [] \<longrightarrow> m_sPId r = []) \<Longrightarrow>
     store_kvs (map_of AdRtbProtocolInitParser_req) ((AD_PROTOCOL_KEY_ADV_PID, V) # kvs) r =
     store_kvs (map_of AdRtbProtocolInitParser_req) kvs (r\<lparr>m_sPId := V\<rparr>)"
  "(V = [] \<longrightarrow> m_sSize r = []) \<Longrightarrow>
     store_kvs (map_of AdRtbProtocolInitParser_req) ((AD_PROTOCOL_KEY_ADV_SIZE, V) # kvs) r =
     store_kvs (map_of AdRtbProtocolInitParser_req) kvs (r\<lparr>m_sSize := V\<rparr>)"
  "(V = [] \<longrightarrow> m_sUserAgent r = []) \<Longrightarrow>
     store_kvs (map_of AdRtbProtocolInitParser_req) ((AD_PROTOCOL_KEY_RTB_USERAGENT, V) # kvs) r =
     store_kvs (map_of AdRtbProtocolInitParser_req) kvs (r\<lparr>m_sUserAgent := V\<rparr>)"
  "(V = [] \<longrightarrow> m_sUserUrl r = []) \<Longrightarrow>
     store_kvs (map_of AdRtbProtocolInitParser_req) ((AD_PROTOCOL_KEY_RTB_USER_URL, V) # kvs) r =
     store_kvs (map_of AdRtbProtocolInitParser_req) kvs (r\<lparr>m_sUserUrl := V\<rparr>)"
  "(V = [] \<longrightarrow> m_sDevUniqueType r = []) \<Longrightarrow>
     store_kvs (map_of AdRtbProtocolInitParser_req) ((AD_PROTOCOL_KEY_DEVICE_UNIQUE_TYPE, V) # kvs) r =
     store_kvs (map_of AdRtbProtocolInitParser_req) kvs (r\<lparr>m_sDevUniqueType := V\<rparr>)"
  "(V = [] \<longrightarrow> m_sAdViewScreen r = []) \<Longrightarrow>
     store_kvs (map_of AdRtbProtocolInitParser_req) ((AD_PROTOCOL_KEY_ADV_VIEW_SCREEN, V) # kvs) r =
     store_kvs (map_of AdRtbProtocolInitParser_req) kvs (r\<lparr>m_sAdViewScreen := V\<rparr>)"
  "(V = [] \<longrightarrow> m_sAdViewType r = []) \<Longrightarrow>
     store_kvs (map_of AdRtbProtocolInitParser_req) ((AD_PROTOCOL_KEY_ADV_VIEW_TYPE, V) # kvs) r =
     store_kvs (map_of AdRtbProtocolInitParser_req) kvs (r\<lparr>m_sAdViewType := V\<rparr>)"
  "(V = [] \<longrightarrow> m_sMinPrice r = []) \<Longrightarrow>
     store_kvs (map_of AdRtbProtocolInitParser_req) ((AD_PROTOCOL_KEY_ADV_MIN_CPM_PRICE, V) # kvs) r =
     store_kvs (map_of AdRtbProtocolInitParser_req) kvs (r\<lparr>m_sMinPrice := V\<rparr>)"
  "(V = [] \<longrightarrow> m_sVideoMinTime r = []) \<Longrightarrow>
     store_kvs (map_of AdRtbProtocolInitParser_req) ((AD_PROTOCOL_KEY_TENCENT_DURATION_MIN, V) # kvs) r =
     store_kvs (map_of AdRtbProtocolInitParser_req) kvs (r\<lparr>m_sVideoMinTime := V\<rparr>)"
  "(V = [] \<longrightarrow> m_sVideoMaxTime r = []) \<Longrightarrow>
     store_kvs (map_of AdRtbProtocolInitParser_req) ((AD_PROTOCOL_KEY_TENCENT_DURATION_MAX, V) # kvs) r =
     store_kvs (map_of AdRtbProtocolInitParser_req) kvs (r\<lparr>m_sVideoMaxTime := V\<rparr>)"
  "(V = [] \<longrightarrow> m_sLinearity r = []) \<Longrightarrow>
     store_kvs (map_of AdRtbProtocolInitParser_req) ((AD_PROTOCOL_KEY_LINEARITY, V) # kvs) r =
     store_kvs (map_of AdRtbProtocolInitParser_req) kvs (r\<lparr>m_sLinearity := V\<rparr>)"
  "(V = [] \<longrightarrow> m_sTransaction r = []) \<Longrightarrow>
     store_kvs (map_of AdRtbProtocolInitParser_req) ((AD_PROTOCOL_KEY_TRANSACTION_TYPE, V) # kvs) r =
     store_kvs (map_of AdRtbProtocolInitParser_req) kvs (r\<lparr>m_sTransaction := V\<rparr>)"
  "(V = [] \<longrightarrow> m_sIDFA r = []) \<Longrightarrow>
     store_kvs (map_of AdRtbProtocolInitParser_req) ((AD_PROTOCOL_KEY_DEVICE_IDFA, V) # kvs) r =
     store_kvs (map_of AdRtbProtocolInitParser_req) kvs (r\<lparr>m_sIDFA := V\<rparr>)"
  "(V = [] \<longrightarrow> m_sIMEI r = []) \<Longrightarrow>
     store_kvs (map_of AdRtbProtocolInitParser_req) ((AD_PROTOCOL_KEY_DEVICE_IMEI, V) # kvs) r =
     store_kvs (map_of AdRtbProtocolInitParser_req) kvs (r\<lparr>m_sIMEI := V\<rparr>)"
  "(V = [] \<longrightarrow> m_sAndroidID r = []) \<Longrightarrow>
     store_kvs (map_of AdRtbProtocolInitParser_req) ((AD_PROTOCOL_KEY_DEVICE_ANDROID, V) # kvs) r =
     store_kvs (map_of AdRtbProtocolInitParser_req) kvs (r\<lparr>m_sAndroidID := V\<rparr>)"
  by (rule store_kvs_string; (simp add: AdRtbProtocolInitParser_req_def; fail | cases r, simp))+

text \<open>
  The request a bidder receives. Lost on the wire are the empty elements of lists, the crowd
  categories (written, but unknown to the parser), the transaction (replaced by
  \<^verbatim>\<open>AD_MODE_BID_PRICE\<close>), all but the low eight bits of the adx, and the fields without a key.
\<close>

definition received_request :: "Time \<Rightarrow> AdRtbRequest \<Rightarrow> AdRtbRequest" where
  "received_request now q = (let ne = filter (\<lambda>s. s \<noteq> []) in (clear_request now)
     \<lparr>m_uiAdx := ucast (ucast (m_uiAdx q) :: UCHAR), m_sFlow := m_sFlow q,
      m_sAdViewScreen := m_sAdViewScreen q, m_sAdViewType := m_sAdViewType q,
      m_sBidID := m_sBidID q, m_sUserID := m_sUserID q, m_sUserIP := m_sUserIP q,
      m_sPId := m_sPId q, m_ltSiteCategory := ne (m_ltSiteCategory q), m_sSize := m_sSize q,
      m_sUserAgent := m_sUserAgent q, m_sUserUrl := m_sUserUrl q, m_ltUalist := ne (m_ltUalist q),
      m_ltCreate := ne (m_ltCreate q), m_ltCategory := ne (m_ltCategory q),
      m_ltSensitive := ne (m_ltSensitive q), m_sMinPrice := m_sMinPrice q,
      m_sVideoMinTime := m_sVideoMinTime q, m_sVideoMaxTime := m_sVideoMaxTime q,
      m_sLinearity := m_sLinearity q, m_ltMaterialFormat := ne (m_ltMaterialFormat q),
      m_ltMobileOperator := ne (m_ltMobileOperator q),
      m_ltMobileDevice := ne (m_ltMobileDevice q),
      m_ltMobileConnect := ne (m_ltMobileConnect q), m_sIDFA := m_sIDFA q, m_sIMEI := m_sIMEI q,
      m_sAndroidID := m_sAndroidID q, m_sTransaction := ''1'',
      m_sDevUniqueType := m_sDevUniqueType q\<rparr>)"

lemma fmt_d_1: "fmt_d 1 = ''1''"
  by code_simp

lemma store_request:
  "(store_kvs (map_of AdRtbProtocolInitParser_req)
      ((AD_PROTOCOL_KEY_ADIRECT_FLOW_TYPE, m_sFlow q) # request_kvs q) (clear_request now))
     \<lparr>m_uiAdx := ucast (ucast (m_uiAdx q) :: UCHAR), m_sTransaction := fmt_d 1\<rparr> =
   received_request now q"
  unfolding request_kvs_def append_Cons append_Nil received_request_def
  by (simp add: store_kvs_append request_list_fields request_string_fields Let_def fmt_d_1
      clear_request_def del: store_kvs_simps(2))
lemma response_list_fields:
  "store_kvs (map_of AdRtbProtocolInitParser_res) (map (Pair AD_PROTOCOL_KEY_MONITOR_URL) xs) r =
     m_r_ltMonitorUrl_update (\<lambda>l. l @ filter (\<lambda>s. s \<noteq> []) xs) r"
  by (rule store_kvs_list; simp add: AdRtbProtocolInitParser_res_def)

lemma response_string_fields:
  "(V = [] \<longrightarrow> m_r_sArea r = []) \<Longrightarrow>
     store_kvs (map_of AdRtbProtocolInitParser_res) ((AD_PROTOCOL_KEY_ADIRECT_REGION, V) # kvs) r =
     store_kvs (map_of AdRtbProtocolInitParser_res) kvs (r\<lparr>m_r_sArea := V\<rparr>)"
  "(V = [] \<longrightarrow> m_r_sRegion r = []) \<Longrightarrow>
     store_kvs (map_of AdRtbProtocolInitParser_res) ((AD_PROTOCOL_KEY_DEVICE, V) # kvs) r =
     store_kvs (map_of AdRtbProtocolInitParser_res) kvs (r\<lparr>m_r_sRegion := V\<rparr>)"
  "(V = [] \<longrightarrow> m_r_sHotUrl r = []) \<Longrightarrow>
     store_kvs (map_of AdRtbProtocolInitParser_res) ((AD_PROTOCOL_KEY_HOT_URL, V) # kvs) r =
     store_kvs (map_of AdRtbProtocolInitParser_res) kvs (r\<lparr>m_r_sHotUrl := V\<rparr>)"
  "(V = [] \<longrightarrow> m_r_sHotTime r = []) \<Longrightarrow>
     store_kvs (map_of AdRtbProtocolInitParser_res) ((AD_PROTOCOL_KEY_HOT_TIME, V) # kvs) r =
     store_kvs (map_of AdRtbProtocolInitParser_res) kvs (r\<lparr>m_r_sHotTime := V\<rparr>)"
  "(V = [] \<longrightarrow> m_r_sHotTag r = []) \<Longrightarrow>
     store_kvs (map_of AdRtbProtocolInitParser_res) ((AD_PROTOCOL_KEY_HOT_TAG, V) # kvs) r =
     store_kvs (map_of AdRtbProtocolInitParser_res) kvs (r\<lparr>m_r_sHotTag := V\<rparr>)"
  "(V = [] \<longrightarrow> m_r_sBidID r = []) \<Longrightarrow>
     store_kvs (map_of AdRtbProtocolInitParser_res) ((AD_PROTOCOL_KEY_RTB_BIDID, V) # kvs) r =
     store_kvs (map_of AdRtbProtocolInitParser_res) kvs (r\<lparr>m_r_sBidID := V\<rparr>)"
  "(V = [] \<longrightarrow> m_r_sExecID r = []) \<Longrightarrow>
     store_kvs (map_of AdRtbProtocolInitParser_res) ((AD_PROTOCOL_KEY_ADIRECT_EXEC_ID, V) # kvs) r =
     store_kvs (map_of AdRtbProtocolInitParser_res) kvs (r\<lparr>m_r_sExecID := V\<rparr>)"
  "(V = [] \<longrightarrow> m_r_sUserID r = []) \<Longrightarrow>
     store_kvs (map_of AdRtbProtocolInitParser_res) ((AD_PROTOCOL_KEY_RTB_UID, V) # kvs) r =
     store_kvs (map_of AdRtbProtocolInitParser_res) kvs (r\<lparr>m_r_sUserID := V\<rparr>)"
  "(V = [] \<longrightarrow> m_r_sUserIP r = []) \<Longrightarrow>
     store_kvs (map_of AdRtbProtocolInitParser_res) ((AD_PROTOCOL_KEY_RTB_IP, V) # kvs) r =
     store_kvs (map_of AdRtbProtocolInitParser_res) kvs (r\<lparr>m_r_sUserIP := V\<rparr>)"
  "(V = [] \<longrightarrow> m_r_sPId r = []) \<Longrightarrow>
     store_kvs (map_of AdRtbProtocolInitParser_res) ((AD_PROTOCOL_KEY_ADV_PID, V) # kvs) r =
     store_kvs (map_of AdRtbProtocolInitParser_res) kvs (r\<lparr>m_r_sPId := V\<rparr>)"
  "(V = [] \<longrightarrow> m_r_sSize r = []) \<Longrightarrow>
     store_kvs (map_of AdRtbProtocolInitParser_res) ((AD_PROTOCOL_KEY_ADV_SIZE, V) # kvs) r =
     store_kvs (map_of AdRtbProtocolInitParser_res) kvs (r\<lparr>m_r_sSize := V\<rparr>)"
  "(V = [] \<longrightarrow> m_r_sOrderID r = []) \<Longrightarrow>
     store_kvs (map_of AdRtbProtocolInitParser_res) ((AD_PROTOCOL_KEY_ADIRECT_ORDER_ID, V) # kvs) r =
     store_kvs (map_of AdRtbProtocolInitParser_res) kvs (r\<lparr>m_r_sOrderID := V\<rparr>)"
  "(V = [] \<longrightarrow> m_r_sCreativeID r = []) \<Longrightarrow>
     store_kvs (map_of AdRtbProtocolInitParser_res) ((AD_PROTOCOL_KEY_ADV_CREATIVE_ID, V) # kvs) r =
     store_kvs (map_of AdRtbProtocolInitParser_res) kvs (r\<lparr>m_r_sCreativeID := V\<rparr>)"
  "(V = [] \<longrightarrow> m_r_sCreateGID r = []) \<Longrightarrow>
     store_kvs (map_of AdRtbProtocolInitParser_res) ((AD_PROTOCOL_KEY_CREATE_GROUP_ID, V) # kvs) r =
     store_kvs (map_of AdRtbProtocolInitParser_res) kvs (r\<lparr>m_r_sCreateGID := V\<rparr>)"
  "(V = [] \<longrightarrow> m_r_sMaterialID r = []) \<Longrightarrow>
     store_kvs (map_of AdRtbProtocolInitParser_res) ((AD_PROTOCOL_KEY_ADIRECT_MATERIAL_ID, V) # kvs) r =
     store_kvs (map_of AdRtbProtocolInitParser_res) kvs (r\<lparr>m_r_sMaterialID := V\<rparr>)"
  "(V = [] \<longrightarrow> m_r_sUud r = []) \<Longrightarrow>
     store_kvs (map_of AdRtbProtocolInitParser_res) ((AD_PROTOCOL_KEY_CREATIVE_ID, V) # kvs) r =
     store_kvs (map_of AdRtbProtocolInitParser_res) kvs (r\<lparr>m_r_sUud := V\<rparr>)"
  "(V = [] \<longrightarrow> m_r_sCreative r = []) \<Longrightarrow>
     store_kvs (map_of AdRtbProtocolInitParser_res) ((AD_PROTOCOL_KEY_ADV_CREATIVE_TYPE, V) # kvs) r =
     store_kvs (map_of AdRtbProtocolInitParser_res) kvs (r\<lparr>m_r_sCreative := V\<rparr>)"
  "(V = [] \<longrightarrow> m_r_sTargetPriceType r = []) \<Longrightarrow>
     store_kvs (map_of AdRtbProtocolInitParser_res) ((AD_PROTOCOL_KEY_ADIRECT_BILLING_MODE, V) # kvs) r =
     store_kvs (map_of AdRtbProtocolInitParser_res) kvs (r\<lparr>m_r_sTargetPriceType := V\<rparr>)"
  "(V = [] \<longrightarrow> m_r_sMaxPrice r = []) \<Longrightarrow>
     store_kvs (map_of AdRtbProtocolInitParser_res) ((AD_PROTOCOL_KEY_ADV_MAX_CPM_PRICE, V) # kvs) r =
     store_kvs (map_of AdRtbProtocolInitParser_res) kvs (r\<lparr>m_r_sMaxPrice := V\<rparr>)"
  "(V = [] \<longrightarrow> m_r_sCategory r = []) \<Longrightarrow>
     store_kvs (map_of AdRtbProtocolInitParser_res) ((AD_PROTOCOL_KEY_RTB_CATEGORY, V) # kvs) r =
     store_kvs (map_of AdRtbProtocolInitParser_res) kvs (r\<lparr>m_r_sCategory := V\<rparr>)"
  "(V = [] \<longrightarrow> m_r_sHtml r = []) \<Longrightarrow>
     store_kvs (map_of AdRtbProtocolInitParser_res) ((AD_PROTOCOL_KEY_ADV_HTML, V) # kvs) r =
     store_kvs (map_of AdRtbProtocolInitParser_res) kvs (r\<lparr>m_r_sHtml := V\<rparr>)"
  "(V = [] \<longrightarrow> m_r_sHtmlMraid r = []) \<Longrightarrow>
     store_kvs (map_of AdRtbProtocolInitParser_res) ((AD_PROTOCOL_KEY_MRAID_MATERIAL, V) # kvs) r =
     store_kvs (map_of AdRtbProtocolInitParser_res) kvs (r\<lparr>m_r_sHtmlMraid := V\<rparr>)"
  "(V = [] \<longrightarrow> m_r_sDestUrl r = []) \<Longrightarrow>
     store_kvs (map_of AdRtbProtocolInitParser_res) ((AD_PROTOCOL_KEY_ADV_DESTINATION_URL, V) # kvs) r =
     store_kvs (map_of AdRtbProtocolInitParser_res) kvs (r\<lparr>m_r_sDestUrl := V\<rparr>)"
  "(V = [] \<longrightarrow> m_r_sClickUrl r = []) \<Longrightarrow>
     store_kvs (map_of AdRtbProtocolInitParser_res) ((AD_PROTOCOL_KEY_ADV_CLICK_URL, V) # kvs) r =
     store_kvs (map_of AdRtbProtocolInitParser_res) kvs (r\<lparr>m_r_sClickUrl := V\<rparr>)"
  "(V = [] \<longrightarrow> m_r_sDuration r = []) \<Longrightarrow>
     store_kvs (map_of AdRtbProtocolInitParser_res) ((AD_PROTOCOL_KEY_DURATION, V) # kvs) r =
     store_kvs (map_of AdRtbProtocolInitParser_res) kvs (r\<lparr>m_r_sDuration := V\<rparr>)"
  "(V = [] \<longrightarrow> m_r_sAdvertiserId r = []) \<Longrightarrow>
     store_kvs (map_of AdRtbProtocolInitParser_res) ((AD_PROTOCOL_KEY_ADVERTISER_ID, V) # kvs) r =
     store_kvs (map_of AdRtbProtocolInitParser_res) kvs (r\<lparr>m_r_sAdvertiserId := V\<rparr>)"
  "(V = [] \<longrightarrow> m_r_sTargetPrice r = []) \<Longrightarrow>
     store_kvs (map_of AdRtbProtocolInitParser_res) ((AD_PROTOCOL_KEY_TARGET_PRICE, V) # kvs) r =
     store_kvs (map_of AdRtbProtocolInitParser_res) kvs (r\<lparr>m_r_sTargetPrice := V\<rparr>)"
  "(V = [] \<longrightarrow> m_r_sMaterailFormat r = []) \<Longrightarrow>
     store_kvs (map_of AdRtbProtocolInitParser_res) ((AD_PROTOCOL_KEY_MATERIAL_FORMAT, V) # kvs) r =
     store_kvs (map_of AdRtbProtocolInitParser_res) kvs (r\<lparr>m_r_sMaterailFormat := V\<rparr>)"
  "(V = [] \<longrightarrow> m_r_sAdirectID r = []) \<Longrightarrow>
     store_kvs (map_of AdRtbProtocolInitParser_res) ((AD_PROTOCOL_KEY_ADIRECT_USER_ID, V) # kvs) r =
     store_kvs (map_of AdRtbProtocolInitParser_res) kvs (r\<lparr>m_r_sAdirectID := V\<rparr>)"
  "(V = [] \<longrightarrow> m_r_sCookID r = []) \<Longrightarrow>
     store_kvs (map_of AdRtbProtocolInitParser_res) ((AD_PROTOCOL_KEY_ADIRECT_COOKIE_ID, V) # kvs) r =
     store_kvs (map_of AdRtbProtocolInitParser_res) kvs (r\<lparr>m_r_sCookID := V\<rparr>)"
  "(V = [] \<longrightarrow> m_r_sTanxID r = []) \<Longrightarrow>
     store_kvs (map_of AdRtbProtocolInitParser_res) ((AD_PROTOCOL_KEY_RTB_ANONYMOUS_ID, V) # kvs) r =
     store_kvs (map_of AdRtbProtocolInitParser_res) kvs (r\<lparr>m_r_sTanxID := V\<rparr>)"
  "(V = [] \<longrightarrow> m_r_sDevType r = []) \<Longrightarrow>
     store_kvs (map_of AdRtbProtocolInitParser_res) ((AD_PROTOCOL_KEY_DEVICE_TYPE, V) # kvs) r =
     store_kvs (map_of AdRtbProtocolInitParser_res) kvs (r\<lparr>m_r_sDevType := V\<rparr>)"
  "(V = [] \<longrightarrow> m_r_sKeyWord r = []) \<Longrightarrow>
     store_kvs (map_of AdRtbProtocolInitParser_res) ((AD_PROTOCOL_KEY_KEYWORD, V) # kvs) r =
     store_kvs (map_of AdRtbProtocolInitParser_res) kvs (r\<lparr>m_r_sKeyWord := V\<rparr>)"
  "(V = [] \<longrightarrow> m_r_sHotKey r = []) \<Longrightarrow>
     store_kvs (map_of AdRtbProtocolInitParser_res) ((AD_PROTOCOL_KEY_HOT_KEY, V) # kvs) r =
     store_kvs (map_of AdRtbProtocolInitParser_res) kvs (r\<lparr>m_r_sHotKey := V\<rparr>)"
  by (rule store_kvs_string; (simp add: AdRtbProtocolInitParser_res_def; fail | cases r, simp))+

text \<open>
  The response an adapter receives. A hot key that begins with \<^verbatim>\<open>KW_\<close> arrives in
  \<^verbatim>\<open>m_sKeyWord\<close>; the key word, the flow, the width and the height of the response are not sent.
\<close>

definition received_response :: "AdRtbResponse \<Rightarrow> AdRtbResponse" where
  "received_response r = (let kw = (take 3 (c_str (m_r_sHotKey r)) = ''KW_'') in clear_response
     \<lparr>m_r_uiAdx := ucast (ucast (m_r_uiAdx r) :: UCHAR), m_r_sArea := m_r_sArea r,
      m_r_sRegion := m_r_sRegion r, m_r_sHotUrl := m_r_sHotUrl r, m_r_sHotTime := m_r_sHotTime r,
      m_r_sHotTag := m_r_sHotTag r, m_r_sBidID := m_r_sBidID r, m_r_sExecID := m_r_sExecID r,
      m_r_sUserID := m_r_sUserID r, m_r_sUserIP := m_r_sUserIP r, m_r_sPId := m_r_sPId r,
      m_r_sSize := m_r_sSize r, m_r_sOrderID := m_r_sOrderID r,
      m_r_sCreativeID := m_r_sCreativeID r, m_r_sCreateGID := m_r_sCreateGID r,
      m_r_sMaterialID := m_r_sMaterialID r, m_r_sUud := m_r_sUud r,
      m_r_sCreative := m_r_sCreative r, m_r_sTargetPriceType := m_r_sTargetPriceType r,
      m_r_sMaxPrice := m_r_sMaxPrice r, m_r_sCategory := m_r_sCategory r,
      m_r_sHtml := m_r_sHtml r, m_r_sHtmlMraid := m_r_sHtmlMraid r,
      m_r_sDestUrl := m_r_sDestUrl r, m_r_sClickUrl := m_r_sClickUrl r,
      m_r_sDuration := m_r_sDuration r, m_r_sAdvertiserId := m_r_sAdvertiserId r,
      m_r_sTargetPrice := m_r_sTargetPrice r, m_r_sMaterailFormat := m_r_sMaterailFormat r,
      m_r_sAdirectID := m_r_sAdirectID r, m_r_sCookID := m_r_sCookID r,
      m_r_sTanxID := m_r_sTanxID r, m_r_sDevType := m_r_sDevType r,
      m_r_sKeyWord := (if kw then m_r_sHotKey r else []),
      m_r_sHotKey := (if kw then [] else m_r_sHotKey r),
      m_r_ltMonitorUrl := filter (\<lambda>s. s \<noteq> []) (m_r_ltMonitorUrl r)\<rparr>)"

lemma store_response:
  "(store_kvs (map_of AdRtbProtocolInitParser_res) (response_kvs r) clear_response)
     \<lparr>m_r_uiAdx := ucast (ucast (m_r_uiAdx r) :: UCHAR)\<rparr> = received_response r"
proof (cases "take 3 (c_str (m_r_sHotKey r)) = ''KW_''")
  case True
  then show ?thesis
    unfolding response_kvs_def append_Cons append_Nil received_response_def
    by (simp add: store_kvs_append response_list_fields response_string_fields Let_def
        clear_response_def del: store_kvs_simps(2))
next
  case False
  then show ?thesis
    unfolding response_kvs_def append_Cons append_Nil received_response_def
    by (simp add: store_kvs_append response_list_fields response_string_fields Let_def
        clear_response_def del: store_kvs_simps(2))
qed

section \<open>The packets the builders write\<close>

lemma tlv_finish_head:
  assumes "ucExpand (m_stHead P) = 0" "12 \<le> length mem"
  shows "tlv_finish P mem n = Inr (n, P, head_bytes (m_stHead P) @ drop 12 mem)"
  using assms by (simp add: tlv_finish_def mem_write_def)

text \<open>The deflated body and its terminator.\<close>

lemma write_deflated:
  assumes "length out \<le> AD_KBYTES4" "4109 \<le> length mem"
  shows "bind_cxx (mem_write mem 12 out) (\<lambda>m. bind_cxx (mem_write m (12 + length out) [CHR 0x00]) f) =
    f (take 12 mem @ out @ CHR 0x00 # drop (13 + length out) mem)"
  using assms by (simp add: mem_write_def)

lemma kv_done_iSpace: "kv_mem (kv_done kvs (st\<lparr>iSpace := s\<rparr>)) = kv_mem (kv_done kvs st)"
  by (simp add: kv_done_def)

text \<open>A head that can be read back and announces the body \<open>wire kvs\<close>.\<close>

definition announces ::
    "(nat \<Rightarrow> string \<Rightarrow> string) \<Rightarrow> (UCHAR \<times> string) list \<Rightarrow> ADPROHEAD_S \<Rightarrow> bool" where
  "announces c kvs h \<longleftrightarrow> wf_head h \<and> ucExpand h = 0 \<and> usTotal h = of_nat (wire_count kvs) \<and>
     iLength h = int (length (payload c (ucAttr h) kvs))"

lemma InternalToTlv_req_packet:
  fixes q :: AdRtbRequest and pdata :: string
  defines "kvs \<equiv> (AD_PROTOCOL_KEY_ADIRECT_FLOW_TYPE, m_sFlow q) # request_kvs q"
  assumes z: "zlib_ok c u" and P: "wf_head (m_stHead P)" "ucExpand (m_stHead P) = 0"
    and fit: "length (wire kvs) \<le> 4083"
    and buf: "4109 \<le> length pdata" "length pdata < 2 ^ 31"
  shows "\<exists>P' rest. InternalToTlv_req c P q pdata (int (length pdata)) =
      Inr (int (12 + length (payload c (ucAttr (m_stHead P)) kvs)), P',
        head_bytes (m_stHead P') @ payload c (ucAttr (m_stHead P)) kvs @ rest) \<and>
    length (head_bytes (m_stHead P') @ payload c (ucAttr (m_stHead P)) kvs @ rest) = length pdata \<and>
    announces c kvs (m_stHead P') \<and> ucAttr (m_stHead P') = ucAttr (m_stHead P) \<and>
    ucType (m_stHead P') = ucast (m_uiAdx q) \<and> ucResult (m_stHead P') = ucResult (m_stHead P)"
proof -
  let ?V = "m_sFlow q" and ?K = AD_PROTOCOL_KEY_ADIRECT_FLOW_TYPE
  define st0 where "st0 = \<lparr>kv_mem = pdata, pCur = 12, iSpace = int (length pdata) - 12, usCount = 0\<rparr>"
  define st1 where "st1 = (kv_done [(?K, ?V)] st0)\<lparr>iSpace := int (length pdata) - 12\<rparr>"
  have len: "length (wire kvs) = length (wire [(?K, ?V)]) + length (wire (request_kvs q))"
    by (simp add: kvs_def)
  have first: "(if ?V = [] then Inr st0 else bind_cxx (mem_write pdata 12 (kv_bytes ?K ?V))
      (\<lambda>m. Inr (st0\<lparr>kv_mem := m, pCur := 12 + (5 + length ?V), usCount := 1\<rparr>))) = Inr st1"
    using len fit buf by (cases "?V = []") (auto simp: st0_def st1_def kv_done_def mem_write_def)
  have len1: "length (kv_mem st1) = length pdata"
    using len fit buf by (cases "?V = []") (auto simp: st0_def st1_def kv_done_def)
  have all: "kv_all (request_kvs q) st1 = Inr (True, kv_done (request_kvs q) st1)"
    using len fit buf len1 by (intro kv_all_ok) (auto simp: st1_def st0_def)
  define st where "st = kv_done (request_kvs q) st1"
  have mem: "kv_mem st = take 12 pdata @ wire kvs @ drop (12 + length (wire kvs)) pdata"
  proof -
    have "kv_mem st = kv_mem (kv_done kvs st0)"
      unfolding st_def st1_def kv_done_iSpace kvs_def
      using fit buf kv_done_Cons [of st0 "(?K, ?V)" "request_kvs q"]
      by (simp add: st0_def kvs_def del: wire_simps)
    then show ?thesis by (simp add: kv_done_def st0_def)
  qed
  have cur: "pCur st = 12 + length (wire kvs)"
    by (simp add: st_def st1_def st0_def len)
  have cnt: "usCount st = of_nat (wire_count kvs)"
    by (simp add: st_def st1_def st0_def kvs_def)
  have lenst: "length (kv_mem st) = length pdata" and dropst: "take (length (wire kvs)) (drop 12 (kv_mem st)) = wire kvs"
    using fit buf by (auto simp: mem)
  let ?h = "\<lambda>len. (m_stHead P)\<lparr>ucType := ucast (m_uiAdx q), iLength := len, usTotal := usCount st\<rparr>"
  let ?body = "payload c (ucAttr (m_stHead P)) kvs"
  have lb: "length ?body \<le> AD_KBYTES4" using length_payload z fit by blast
  have wf: "wf_head (?h (int (length ?body)))"
    using P lb by (simp add: wf_head_def)
  have ann: "announces c kvs (?h (int (length ?body)))"
    using wf P(2) by (simp add: announces_def cnt)
  show ?thesis
  proof (cases "ucAttr (m_stHead P) = AD_PROTOCOL_BODY_COMP")
    case True
    have out: "length (c AD_KBYTES4 (wire kvs)) \<le> AD_KBYTES4"
      using lb True by (simp add: payload_def)
    have "4109 \<le> length (kv_mem st)" using lenst buf by simp
    note w = write_deflated [OF out this]
    show ?thesis
      unfolding InternalToTlv_req_def Let_def st0_def [symmetric] first
      using True P buf lenst out fit
      by (simp add: all [folded st_def] cur dropst w tlv_finish_head ann payload_def)
        (use ann True buf in \<open>simp add: payload_def\<close>)
  next
    case False
    then show ?thesis
      unfolding InternalToTlv_req_def Let_def st0_def [symmetric] first
      using P buf lenst fit ann
      by (simp add: all [folded st_def] cur mem tlv_finish_head payload_def)
  qed
qed


lemma InternalToTlv_res_packet:
  fixes r :: AdRtbResponse and pdata :: string
  defines "kvs \<equiv> response_kvs r"
  assumes z: "zlib_ok c u" and P: "wf_head (m_stHead P)" "ucExpand (m_stHead P) = 0"
    and adx: "m_r_uiAdx r \<noteq> 0" and fit: "length (wire kvs) \<le> 4083"
    and buf: "4109 \<le> length pdata" "length pdata < 2 ^ 31"
  shows "\<exists>P' rest. InternalToTlv_res c P r pdata (int (length pdata)) =
      Inr (int (12 + length (payload c (ucAttr (m_stHead P)) kvs)), P',
        head_bytes (m_stHead P') @ payload c (ucAttr (m_stHead P)) kvs @ rest) \<and>
    length (head_bytes (m_stHead P') @ payload c (ucAttr (m_stHead P)) kvs @ rest) = length pdata \<and>
    announces c kvs (m_stHead P') \<and> ucAttr (m_stHead P') = ucAttr (m_stHead P) \<and>
    ucType (m_stHead P') = ucast (m_r_uiAdx r) \<and> ucResult (m_stHead P') = ucResult (m_stHead P)"
proof -
  define st0 where "st0 = \<lparr>kv_mem = pdata, pCur = 12, iSpace = int (length pdata) - 12, usCount = 0\<rparr>"
  define st where "st = kv_done kvs st0"
  have all: "kv_all (response_kvs r) st0 = Inr (True, st)"
    unfolding st_def kvs_def using fit buf by (intro kv_all_ok) (auto simp: st0_def kvs_def)
  have mem: "kv_mem st = take 12 pdata @ wire kvs @ drop (12 + length (wire kvs)) pdata"
    by (simp add: kv_done_def st0_def st_def)
  have cur: "pCur st = 12 + length (wire kvs)" and cnt: "usCount st = of_nat (wire_count kvs)"
    by (simp_all add: st_def st0_def)
  have lenst: "length (kv_mem st) = length pdata" and dropst: "take (length (wire kvs)) (drop 12 (kv_mem st)) = wire kvs"
    using fit buf by (auto simp: mem)
  let ?h = "(m_stHead P)\<lparr>ucType := ucast (m_r_uiAdx r), 
    iLength := int (length (payload c (ucAttr (m_stHead P)) kvs)), usTotal := usCount st,
    ucVerb := 2\<rparr>"
  let ?body = "payload c (ucAttr (m_stHead P)) kvs"
  have lb: "length ?body \<le> AD_KBYTES4" using length_payload z fit by blast
  have ann: "announces c kvs ?h"
    using P lb by (simp add: announces_def cnt wf_head_def)
  show ?thesis
  proof (cases "ucAttr (m_stHead P) = AD_PROTOCOL_BODY_COMP")
    case True
    have out: "length (c AD_KBYTES4 (wire kvs)) \<le> AD_KBYTES4"
      using lb True by (simp add: payload_def)
    have "4109 \<le> length (kv_mem st)" using lenst buf by simp
    note w = write_deflated [OF out this]
    show ?thesis
      unfolding InternalToTlv_res_def Let_def
      using True P adx buf lenst out fit
      by (simp add: st0_def [symmetric] all cur dropst w tlv_finish_head ann payload_def)
        (use ann True buf in \<open>simp add: payload_def\<close>)
  next
    case False
    then show ?thesis
      unfolding InternalToTlv_res_def Let_def
      using P adx buf lenst fit ann
      by (simp add: st0_def [symmetric] all cur mem tlv_finish_head payload_def)
  qed
qed

section \<open>The packets the parsers accept\<close>

lemma read_announced_in:
  assumes "announces c kvs h" "zlib_ok c u" "length (wire kvs) \<le> 4083"
  defines "body \<equiv> payload c (ucAttr h) kvs"
  shows "rd8 (head_bytes h @ body @ suf) 0 = Inr AD_PROTOCOL_FLAG"
    "read_head (head_bytes h @ body @ suf) AD_PROTOCOL_FLAG = Inr h"
    "tlv_expand h P (head_bytes h @ body @ suf) (12 + int (length body)) = Inr (12, False, P)"
    "\<exists>m b l. tlv_unpack u h (head_bytes h @ body @ suf) 12 = Inr (m, b, l) \<and> 0 \<le> l \<and> l < 2 ^ 31 \<and>
      (\<forall>parse r. tlv_body parse m b l (unat (usTotal h)) b r = Inr (store_kvs parse kvs r))"
proof -
  have h: "wf_head h" "ucExpand h = 0" "usTotal h = of_nat (wire_count kvs)"
    "iLength h = int (length body)"
    using assms(1) by (auto simp: announces_def body_def)
  have lb: "length body \<le> AD_KBYTES4" using length_payload assms(2,3) unfolding body_def by blast
  show "rd8 (head_bytes h @ body @ suf) 0 = Inr AD_PROTOCOL_FLAG"
    using rd8_head [of 0 h "body @ suf"] by simp
  show "read_head (head_bytes h @ body @ suf) AD_PROTOCOL_FLAG = Inr h"
    using h(1) by (rule read_head_bytes)
  show "tlv_expand h P (head_bytes h @ body @ suf) (12 + int (length body)) = Inr (12, False, P)"
    using h lb by (simp add: tlv_expand_def add_int_def)
  note stored = tlv_read_back [OF assms(2,3) h(3) h(4) [unfolded body_def],
      where hdb = "head_bytes h" and n = 12 and suf = suf]
  obtain m b l where mbl: "tlv_unpack u h (head_bytes h @ body @ suf) 12 = Inr (m, b, l)"
    using stored [where parse = Map.empty and r = "()"] by (auto simp: body_def)
  have "0 \<le> l \<and> l < 2 ^ 31"
  proof (cases "ucAttr h = AD_PROTOCOL_BODY_COMP")
    case True
    have "rd_bytes (head_bytes h @ body @ suf) 12 (length body) = Inr body"
      using rd_bytes_at [of "head_bytes h" 12 body suf] by simp
    then show ?thesis
      using mbl True h(4) assms(2,3) by (auto simp: tlv_unpack_def Let_def body_def payload_def zlib_ok_def)
  next
    case False
    then show ?thesis using mbl h(4) lb by (auto simp: tlv_unpack_def)
  qed
  then show "\<exists>m b l. tlv_unpack u h (head_bytes h @ body @ suf) 12 = Inr (m, b, l) \<and> 0 \<le> l \<and> l < 2 ^ 31 \<and>
      (\<forall>parse r. tlv_body parse m b l (unat (usTotal h)) b r = Inr (store_kvs parse kvs r))"
    using stored mbl by (auto simp: body_def)
qed

lemma read_announced:
  assumes "announces c kvs h" "zlib_ok c u" "length (wire kvs) \<le> 4083"
  defines "packet \<equiv> head_bytes h @ payload c (ucAttr h) kvs"
  shows "rd8 packet 0 = Inr AD_PROTOCOL_FLAG" "read_head packet AD_PROTOCOL_FLAG = Inr h"
    "tlv_expand h P packet (int (length packet)) = Inr (12, False, P)"
    "\<exists>m b l. tlv_unpack u h packet 12 = Inr (m, b, l) \<and>
      (\<forall>parse r. tlv_body parse m b l (unat (usTotal h)) b r = Inr (store_kvs parse kvs r))"
  using read_announced_in [OF assms(1-3), where suf = "[]"] by (auto simp: packet_def)

text \<open>The packet of a request at the start of a buffer, and the protocol object that its parser leaves.\<close>

lemma TlvToInternal_req_in:
  assumes "announces c kvs h" "zlib_ok c u" "length (wire kvs) \<le> 4083"
  defines "packet \<equiv> head_bytes h @ payload c (ucAttr h) kvs"
  shows "\<exists>l. 0 \<le> l \<and> l < 2 ^ 31 \<and> TlvToInternal_req u now P (packet @ suf) (int (length packet)) =
    Inr (AD_SUCCESS, P\<lparr>m_stHead := h\<lparr>iLength := l\<rparr>\<rparr>,
      (store_kvs (map_of AdRtbProtocolInitParser_req) kvs (clear_request now))
        \<lparr>m_uiAdx := ucast (ucType h), m_sTransaction := fmt_d 1\<rparr>)"
proof -
  note read = read_announced_in [OF assms(1-3), where suf = suf]
  have packet: "packet @ suf = head_bytes h @ payload c (ucAttr h) kvs @ suf"
    "int (length packet) = 12 + int (length (payload c (ucAttr h) kvs))" by (simp_all add: packet_def)
  obtain m b l where mbl: "tlv_unpack u h (packet @ suf) 12 = Inr (m, b, l)" "0 \<le> l" "l < 2 ^ 31"
    "\<forall>parse r. tlv_body parse m b l (unat (usTotal h)) b (r :: AdRtbRequest) = Inr (store_kvs parse kvs r)"
    using read(4) unfolding packet by blast
  have "TlvToInternal_req u now P (packet @ suf) (int (length packet)) =
    Inr (AD_SUCCESS, P\<lparr>m_stHead := h\<lparr>iLength := l\<rparr>\<rparr>,
      (store_kvs (map_of AdRtbProtocolInitParser_req) kvs (clear_request now))
        \<lparr>m_uiAdx := ucast (ucType h), m_sTransaction := fmt_d 1\<rparr>)"
    using mbl by (simp add: TlvToInternal_req_def Let_def packet read(1-3))
  with mbl show ?thesis by blast
qed

lemma TlvToInternal_res_packet:
  assumes "announces c kvs h" "zlib_ok c u" "length (wire kvs) \<le> 4083" "ucResult h = AD_PROTOCOL_RESULT_OK"
  defines "packet \<equiv> head_bytes h @ payload c (ucAttr h) kvs"
  shows "\<exists>P'. TlvToInternal_res u P packet (int (length packet)) = Inr (AD_SUCCESS, P',
    (store_kvs (map_of AdRtbProtocolInitParser_res) kvs clear_response)\<lparr>m_r_uiAdx := ucast (ucType h)\<rparr>)"
proof -
  note read = read_announced [OF assms(1-3), folded packet_def]
  obtain m b l where mbl: "tlv_unpack u h packet 12 = Inr (m, b, l)"
    "\<forall>parse r. tlv_body parse m b l (unat (usTotal h)) b (r :: AdRtbResponse) = Inr (store_kvs parse kvs r)"
    using read(4) by blast
  with assms(4) show ?thesis
    by (simp add: TlvToInternal_res_def Let_def read(1-3))
qed

section \<open>A buffer with room behind the space of the builder\<close>

text \<open>What a builder does in a buffer does not depend on the bytes behind it.\<close>

lemma mem_write_in: "mem_write mem p bs = Inr m \<Longrightarrow> mem_write (mem @ x) p bs = Inr (m @ x)"
  by (auto simp: mem_write_def split: if_splits)

lemma AD_PROTOCOL_KV_in:
  assumes "AD_PROTOCOL_KV K V st = Inr (ok, st')" "pCur st \<le> length (kv_mem st)"
  shows "AD_PROTOCOL_KV K V (st\<lparr>kv_mem := kv_mem st @ x\<rparr>) = Inr (ok, st'\<lparr>kv_mem := kv_mem st' @ x\<rparr>) \<and>
    pCur st' \<le> length (kv_mem st')"
proof -
  have "length m = length (kv_mem st) \<and> pCur st + 5 + length V \<le> length m \<and>
      mem_write (kv_mem st @ x) (pCur st) (kv_bytes K V) = Inr (m @ x)"
    if "mem_write (kv_mem st) (pCur st) (kv_bytes K V) = Inr m" for m
    using that mem_write_in by (auto simp: mem_write_def split: if_splits)
  with assms show ?thesis
    by (auto simp: AD_PROTOCOL_KV_def bind_cxx_Inr_iff split: if_splits)
qed

lemma kv_all_in:
  assumes "kv_all kvs st = Inr (ok, st')" "pCur st \<le> length (kv_mem st)"
  shows "kv_all kvs (st\<lparr>kv_mem := kv_mem st @ x\<rparr>) = Inr (ok, st'\<lparr>kv_mem := kv_mem st' @ x\<rparr>) \<and>
    pCur st' \<le> length (kv_mem st')"
  using assms
proof (induction kvs arbitrary: st)
  case (Cons kv kvs)
  obtain K V where kv: "kv = (K, V)" by force
  then obtain k st1 where s: "AD_PROTOCOL_KV K V st = Inr (k, st1)"
    using Cons.prems(1) by (cases "AD_PROTOCOL_KV K V st") auto
  show ?case
    using Cons.prems(1) Cons.IH AD_PROTOCOL_KV_in [OF s Cons.prems(2), where x = x] s
    by (auto simp: kv split: if_splits)
qed simp

lemma tlv_finish_in:
  "tlv_finish P mem n = Inr (k, P', m) \<Longrightarrow> tlv_finish P (mem @ x) n = Inr (k, P', m @ x)"
  by (auto simp: tlv_finish_def bind_cxx_Inr_iff mem_write_in split: if_splits)

lemma InternalToTlv_res_in:
  assumes "InternalToTlv_res c P r pdata iLen = Inr (n, P', mem)" "16 \<le> length pdata"
  shows "InternalToTlv_res c P r (pdata @ x) iLen = Inr (n, P', mem @ x)"
proof -
  define hs where "hs = (if ucExpand (m_stHead P) = AD_PROTOCOL_EXPPAND_1 then 12 + 4 else 12 :: nat)"
  then have hs: "hs \<le> length pdata" using assms(2) by (auto split: if_splits)
  show ?thesis
  proof (cases "m_r_uiAdx r = 0")
    case True
    with assms(1) show ?thesis
      unfolding InternalToTlv_res_def Let_def hs_def [symmetric] by (auto intro: tlv_finish_in)
  next
    case False
    define st0 where "st0 = \<lparr>kv_mem = pdata, pCur = hs, iSpace = iLen - int hs, usCount = 0\<rparr>"
    have st0: "\<lparr>kv_mem = pdata @ x, pCur = hs, iSpace = iLen - int hs, usCount = 0\<rparr> = st0\<lparr>kv_mem := kv_mem st0 @ x\<rparr>"
      by (simp add: st0_def)
    obtain ok st where kv: "kv_all (response_kvs r) st0 = Inr (ok, st)"
      using assms(1) False unfolding InternalToTlv_res_def Let_def hs_def [symmetric] st0_def [symmetric]
      by (cases "kv_all (response_kvs r) st0") auto
    have "pCur st0 \<le> length (kv_mem st0)" using hs by (simp add: st0_def)
    note in_kv = kv_all_in [OF kv this, where x = x]
    then have body: "take (pCur st - hs) (drop hs (kv_mem st @ x)) = take (pCur st - hs) (drop hs (kv_mem st))"
      by simp arith
    show ?thesis
      using assms(1) False in_kv
      unfolding InternalToTlv_res_def Let_def hs_def [symmetric] st0_def [symmetric] st0
      by (auto simp: kv body bind_cxx_Inr_iff mem_write_in intro: tlv_finish_in split: if_splits)
  qed
qed

section \<open>Round trips\<close>

text \<open>The bytes a sender passes to the socket: the first \<open>n\<close> of its buffer.\<close>

definition sent :: "(int \<times> AdRtbProtocol \<times> string) cxx \<Rightarrow> string cxx" where
  "sent res = bind_cxx res (\<lambda>(n, P, mem). if n < 0 then Inl BadLength else rd_bytes mem 0 (nat n))"

lemma sent_packet:
  "sent (Inr (int (length packet), P, packet @ rest)) = Inr packet"
  using rd_bytes_at [of "[]" 0 packet rest] by (simp add: sent_def)

lemma sent_in:
  assumes "sent (InternalToTlv_res c P r pdata iLen) = Inr packet" "16 \<le> length pdata" "packet \<noteq> []"
  shows "\<exists>n P' mem. InternalToTlv_res c P r (pdata @ x) iLen = Inr (n, P', mem) \<and> 0 < n \<and> rd_bytes mem 0 (nat n) = Inr packet"
proof -
  obtain n P' mem where res: "InternalToTlv_res c P r pdata iLen = Inr (n, P', mem)"
    and rd: "0 \<le> n" "rd_bytes mem 0 (nat n) = Inr packet"
    using assms(1) by (auto simp: sent_def bind_cxx_Inr_iff split: if_splits)
  have "n \<noteq> 0" using rd assms(3) by (auto simp: rd_bytes_def)
  then show ?thesis
    using InternalToTlv_res_in [OF res assms(2), of x] rd by (auto simp: rd_bytes_def split: if_splits)
qed

definition sender_ok :: "AdRtbProtocol \<Rightarrow> bool" where
  "sender_ok P \<longleftrightarrow> wf_head (m_stHead P) \<and> ucExpand (m_stHead P) = 0"

lemma sender_ok_init: "sender_ok AdRtbProtocol_init"
  by (simp add: sender_ok_def AdRtbProtocol_init_def wf_head_def)

text \<open>Concrete messages and a compressor for the instances of the theorems.\<close>

definition sample_request :: AdRtbRequest where
  "sample_request = (clear_request \<lparr>tv_sec = 0, tv_usec = 0\<rparr>)
     \<lparr>m_uiAdx := 3, m_sFlow := ''1'', m_sBidID := ''b7'', m_ltCategory := [''12'', [], ''34'']\<rparr>"

definition sample_response :: AdRtbResponse where
  "sample_response = clear_response\<lparr>m_r_uiAdx := 3, m_r_sBidID := ''b7'', m_r_sHotKey := ''KW_car''\<rparr>"

lemma zlib_ok_rev: "zlib_ok (\<lambda>_. rev) (\<lambda>_. rev)"
  by (simp add: zlib_ok_def)

lemma rd32_take: "p + 4 \<le> length mem \<Longrightarrow>
    rd32 mem (int p) = Inr (of_nat (be_nat (take 4 (drop p mem))))"
  by (simp add: rd32_def rd_bytes_def)

section \<open>Properties\<close>

lemma request_read_in:
  assumes "zlib_ok c u" "sender_ok P"
    and "length (wire ((AD_PROTOCOL_KEY_ADIRECT_FLOW_TYPE, m_sFlow q) # request_kvs q)) \<le> 4083"
    and "4109 \<le> length pdata" "length pdata < 2 ^ 31"
  shows "\<exists>packet. sent (InternalToTlv_req c P q pdata (int (length pdata))) = Inr packet \<and> length packet \<le> length pdata \<and> (\<forall>suf. \<exists>P'. sender_ok P' \<and>
    ucResult (m_stHead P') = ucResult (m_stHead P) \<and>
    TlvToInternal_req u now R (packet @ suf) (int (length packet)) = Inr (AD_SUCCESS, P', received_request now q))"
proof -
  let ?kvs = "(AD_PROTOCOL_KEY_ADIRECT_FLOW_TYPE, m_sFlow q) # request_kvs q"
  let ?body = "payload c (ucAttr (m_stHead P)) ?kvs"
  obtain P' rest where 1: "InternalToTlv_req c P q pdata (int (length pdata)) =
      Inr (int (12 + length ?body), P', head_bytes (m_stHead P') @ ?body @ rest)"
    and l: "length (head_bytes (m_stHead P') @ ?body @ rest) = length pdata" and ann: "announces c ?kvs (m_stHead P')" and a: "ucAttr (m_stHead P') = ucAttr (m_stHead P)"
    and t: "ucType (m_stHead P') = ucast (m_uiAdx q)" "ucResult (m_stHead P') = ucResult (m_stHead P)"
    using InternalToTlv_req_packet [of c u P q pdata] assms by (auto simp: sender_ok_def)
  have s: "sent (InternalToTlv_req c P q pdata (int (length pdata))) = Inr (head_bytes (m_stHead P') @ ?body)"
    using sent_packet [of "head_bytes (m_stHead P') @ ?body" P' rest] by (simp add: 1)
  have ok: "sender_ok (R\<lparr>m_stHead := (m_stHead P')\<lparr>iLength := l\<rparr>\<rparr>)" if "0 \<le> l" "l < 2 ^ 31" for l
    using that ann by (simp add: sender_ok_def announces_def wf_head_def)
  show ?thesis
  proof (intro exI [of _ "head_bytes (m_stHead P') @ ?body"] conjI s allI)
    show "length (head_bytes (m_stHead P') @ ?body) \<le> length pdata" unfolding l [symmetric] by simp
    fix suf
    from TlvToInternal_req_in [OF ann assms(1,3), of now R suf] obtain l where
      "0 \<le> l" "l < 2 ^ 31" "TlvToInternal_req u now R ((head_bytes (m_stHead P') @ ?body) @ suf)
        (int (length (head_bytes (m_stHead P') @ ?body))) =
       Inr (AD_SUCCESS, R\<lparr>m_stHead := (m_stHead P')\<lparr>iLength := l\<rparr>\<rparr>, received_request now q)"
      by (auto simp: a t store_request simp del: store_kvs_simps)
    then show "\<exists>P''. sender_ok P'' \<and> ucResult (m_stHead P'') = ucResult (m_stHead P) \<and>
        TlvToInternal_req u now R ((head_bytes (m_stHead P') @ ?body) @ suf)
          (int (length (head_bytes (m_stHead P') @ ?body))) = Inr (AD_SUCCESS, P'', received_request now q)"
      using ok t(2) by (intro exI [of _ "R\<lparr>m_stHead := (m_stHead P')\<lparr>iLength := l\<rparr>\<rparr>"]) simp
  qed
qed

text \<open>
  C4. A request written by \<^verbatim>\<open>InternalToTlv\<close> and sent is read back by \<^verbatim>\<open>TlvToInternal\<close> as
  \<open>received_request\<close>, field by field, whenever the body fits 4083 bytes (what zlib's
  \<^verbatim>\<open>compress\<close> is sure to fit into the 4096 it is given) and the buffer has the 4109 bytes for a
  head, a body and its terminator; nothing is read or written outside a buffer.
\<close>

theorem request_roundtrip:
  assumes "zlib_ok c u" "sender_ok P"
    and "length (wire ((AD_PROTOCOL_KEY_ADIRECT_FLOW_TYPE, m_sFlow q) # request_kvs q)) \<le> 4083"
    and "4109 \<le> length pdata" "length pdata < 2 ^ 31"
  shows "\<exists>packet. sent (InternalToTlv_req c P q pdata (int (length pdata))) = Inr packet \<and>
    (\<exists>P'. TlvToInternal_req u now R packet (int (length packet)) =
      Inr (AD_SUCCESS, P', received_request now q))"
proof -
  obtain packet where packet: "sent (InternalToTlv_req c P q pdata (int (length pdata))) = Inr packet"
    "\<forall>suf. \<exists>P'. sender_ok P' \<and> ucResult (m_stHead P') = ucResult (m_stHead P) \<and>
       TlvToInternal_req u now R (packet @ suf) (int (length packet)) = Inr (AD_SUCCESS, P', received_request now q)"
    using request_read_in [OF assms] by blast
  from packet(2) [rule_format, of "[]"] packet(1) show ?thesis by auto
qed

theorem request_roundtrip_witness:
  "\<exists>packet. sent (InternalToTlv_req (\<lambda>_. rev) AdRtbProtocol_init sample_request
      (replicate 4109 CHR 0x00) (int (length (replicate 4109 CHR 0x00)))) = Inr packet \<and>
    (\<exists>P'. TlvToInternal_req (\<lambda>_. rev) \<lparr>tv_sec = 9, tv_usec = 0\<rparr> AdRtbProtocol_init packet (int (length packet)) =
      Inr (AD_SUCCESS, P', received_request \<lparr>tv_sec = 9, tv_usec = 0\<rparr> sample_request))"
  by (rule request_roundtrip [OF zlib_ok_rev sender_ok_init])
    (simp_all add: sample_request_def clear_request_def request_kvs_def wire_append)

lemma response_read_back:
  assumes "zlib_ok c u" "sender_ok P" "ucResult (m_stHead P) = AD_PROTOCOL_RESULT_OK"
    and "m_r_uiAdx r \<noteq> 0" "length (wire (response_kvs r)) \<le> 4083"
    and "4109 \<le> length pdata" "length pdata < 2 ^ 31"
  shows "\<exists>packet. sent (InternalToTlv_res c P r pdata (int (length pdata))) = Inr packet \<and> packet \<noteq> [] \<and>
    (\<exists>P'. TlvToInternal_res u R packet (int (length packet)) =
      Inr (AD_SUCCESS, P', received_response r))"
proof -
  let ?body = "payload c (ucAttr (m_stHead P)) (response_kvs r)"
  obtain P' rest where 1: "InternalToTlv_res c P r pdata (int (length pdata)) =
      Inr (int (12 + length ?body), P', head_bytes (m_stHead P') @ ?body @ rest)"
    and ann: "announces c (response_kvs r) (m_stHead P')"
    and a: "ucAttr (m_stHead P') = ucAttr (m_stHead P)"
    and t: "ucType (m_stHead P') = ucast (m_r_uiAdx r)" "ucResult (m_stHead P') = ucResult (m_stHead P)"
    using InternalToTlv_res_packet [of c u P r pdata] assms by (auto simp: sender_ok_def)
  have "sent (InternalToTlv_res c P r pdata (int (length pdata))) =
      Inr (head_bytes (m_stHead P') @ ?body)"
    using sent_packet [of "head_bytes (m_stHead P') @ ?body" P' rest] by (simp add: 1)
  moreover have "head_bytes (m_stHead P') @ ?body \<noteq> []" using length_head_bytes [of "m_stHead P'"] by force
  ultimately show ?thesis
    using TlvToInternal_res_packet [OF ann assms(1,5)] assms(3) by (simp add: a t store_response)
qed

text \<open>
  C5. A response with an adx written by \<^verbatim>\<open>InternalToTlv\<close> and sent is read back by
  \<^verbatim>\<open>TlvToInternal\<close> as \<open>received_response\<close>, under the same bounds.
\<close>

theorem response_roundtrip:
  assumes "zlib_ok c u" "sender_ok P" "ucResult (m_stHead P) = AD_PROTOCOL_RESULT_OK"
    and "m_r_uiAdx r \<noteq> 0" "length (wire (response_kvs r)) \<le> 4083"
    and "4109 \<le> length pdata" "length pdata < 2 ^ 31"
  shows "\<exists>packet. sent (InternalToTlv_res c P r pdata (int (length pdata))) = Inr packet \<and>
    (\<exists>P'. TlvToInternal_res u R packet (int (length packet)) =
      Inr (AD_SUCCESS, P', received_response r))"
  using response_read_back [OF assms] by blast

theorem response_roundtrip_witness:
  "\<exists>packet. sent (InternalToTlv_res (\<lambda>_. rev) AdRtbProtocol_init sample_response
      (replicate 4109 CHR 0x00) (int (length (replicate 4109 CHR 0x00)))) = Inr packet \<and>
    (\<exists>P'. TlvToInternal_res (\<lambda>_. rev) AdRtbProtocol_init packet (int (length packet)) =
      Inr (AD_SUCCESS, P', received_response sample_response))"
  by (rule response_roundtrip [OF zlib_ok_rev sender_ok_init])
    (simp_all add: sample_response_def clear_response_def response_kvs_def AdRtbProtocol_init_def
      c_str_def wire_append)

text \<open>
  C20. The response builder is memory safe on any response whose values are shorter than 2 GB, whether it fits or not: with a
  buffer of at least 4113 bytes and a compressor that stays within the 4096 bytes it is given, every exit (success, no space,
  no bid) is reached without a write outside the buffer. The object may be new, with no extended head, or have the four bytes
  of one that it received.
\<close>

theorem InternalToTlv_res_safe:
  assumes "\<forall>src. length (compress AD_KBYTES4 src) \<le> AD_KBYTES4"
    and "length (m_sExHead P) \<le> 4" "4113 \<le> length pdata" "length pdata < 2 ^ 31"
    and "\<forall>(K, V) \<in> set (response_kvs r). length V < 2 ^ 31 - 5"
  shows "\<exists>n P' mem. InternalToTlv_res compress P r pdata (int (length pdata)) = Inr (n, P', mem) \<and>
    length mem = length pdata"
proof -
  obtain hs where hs: "hs = (if ucExpand (m_stHead P) = AD_PROTOCOL_EXPPAND_1 then 12 + 4 else 12 :: nat)"
    by blast
  then have small: "hs \<le> 16" by (simp split: if_splits)
  have fin: "\<exists>n' P'' mem'. tlv_finish P' mem n = Inr (n', P'', mem') \<and> length mem' = length pdata"
    if "length mem = length pdata" "m_sExHead P' = m_sExHead P" for P' mem n
    using that assms(2,3) by (auto simp: tlv_finish_def mem_write_def)
  let ?st0 = "\<lparr>kv_mem = pdata, pCur = hs, iSpace = int (length pdata) - int hs, usCount = 0\<rparr>"
  obtain ok st where all: "kv_all (response_kvs r) ?st0 = Inr (ok, st)"
    and len: "length (kv_mem st) = length pdata"
    using kv_all_in_bounds [of ?st0 "response_kvs r"] small assms(3-5) by auto
  have out: "length (compress AD_KBYTES4 s) \<le> AD_KBYTES4" for s using assms(1) by blast
  have body: "bind_cxx (mem_write (kv_mem st) hs (compress AD_KBYTES4 s))
     (\<lambda>m. bind_cxx (mem_write m (hs + length (compress AD_KBYTES4 s)) [CHR 0x00]) f) =
     f (take hs (kv_mem st) @ compress AD_KBYTES4 s @ CHR 0x00 #
       drop (hs + length (compress AD_KBYTES4 s) + 1) (kv_mem st))"
    for s and f :: "string \<Rightarrow> (int \<times> AdRtbProtocol \<times> string) cxx"
    using out [of s] len small assms(3) by (simp add: mem_write_def)
  have len': "length (take hs (kv_mem st) @ compress AD_KBYTES4 s @ CHR 0x00 #
       drop (hs + length (compress AD_KBYTES4 s) + 1) (kv_mem st)) = length pdata" for s
    using out [of s] len small assms(3) by simp
  have fin': "\<exists>n' P'' mem'. tlv_finish P' (take hs (kv_mem st) @ compress AD_KBYTES4 s @ CHR 0x00 #
       drop (Suc (hs + length (compress AD_KBYTES4 s))) (kv_mem st)) n = Inr (n', P'', mem') \<and>
       length mem' = length pdata" if "m_sExHead P' = m_sExHead P" for P' s n
    using fin [OF len' that] by simp
  show ?thesis
    by (simp add: InternalToTlv_res_def Let_def hs [symmetric] all body fin fin' len)
qed

theorem InternalToTlv_res_safe_witness:
  "\<exists>n P' mem. InternalToTlv_res take AdRtbProtocol_init sample_response
      (replicate 5000 CHR 0x00) (int (length (replicate 5000 CHR 0x00))) = Inr (n, P', mem) \<and>
    length mem = length (replicate 5000 CHR 0x00)"
  by (rule InternalToTlv_res_safe)
    (simp_all add: sample_response_def clear_response_def response_kvs_def c_str_def AdRtbProtocol_init_def)

lemma no_bid_read_back:
  assumes "sender_ok P" "m_r_uiAdx r = 0" "12 \<le> length pdata"
  shows "\<exists>packet. sent (InternalToTlv_res c P r pdata (int (length pdata))) = Inr packet \<and> length packet = 12 \<and>
    (\<exists>P'. TlvToInternal_res u R packet 12 = Inr (AD_FAILURE, P', clear_response) \<and>
      ucResult (m_stHead P') = AD_PROTOCOL_RESULT_UNKNOW)"
proof -
  define h where "h = (m_stHead P)\<lparr>ucType := 0, ucResult := AD_PROTOCOL_RESULT_UNKNOW, iLength := 0,
    usTotal := 0, ucVerb := 2\<rparr>"
  have h: "wf_head h" "ucExpand h = 0"
    using assms(1) by (auto simp: sender_ok_def wf_head_def h_def)
  have 1: "InternalToTlv_res c P r pdata (int (length pdata)) =
      Inr (12, P\<lparr>m_stHead := h\<rparr>, head_bytes h @ drop 12 pdata)"
    using assms h by (simp add: InternalToTlv_res_def Let_def tlv_finish_head sender_ok_def h_def)
  have 2: "sent (Inr (12, P\<lparr>m_stHead := h\<rparr>, head_bytes h @ drop 12 pdata)) = Inr (head_bytes h)"
    using sent_packet [of "head_bytes h"] by simp
  have 3: "rd8 (head_bytes h) 0 = Inr AD_PROTOCOL_FLAG" "read_head (head_bytes h) AD_PROTOCOL_FLAG = Inr h"
    using rd8_head [of 0 h "[]"] read_head_bytes [OF h(1), of "[]"] by auto
  have 4: "ucType h = 0" "ucResult h = AD_PROTOCOL_RESULT_UNKNOW" "iLength h = 0"
    by (simp_all add: h_def)
  show ?thesis
    unfolding 1 2
    by (simp add: TlvToInternal_res_def Let_def 3 4 tlv_expand_def add_int_def h(2) clear_response_def)
qed

text \<open>
  A no-bid response (adx 0) is sent as the head alone, and its reader reports
  \<^verbatim>\<open>AD_FAILURE\<close> with an empty response and the result code \<^verbatim>\<open>AD_PROTOCOL_RESULT_UNKNOW\<close>.
\<close>

theorem no_bid_roundtrip:
  assumes "sender_ok P" "m_r_uiAdx r = 0" "12 \<le> length pdata"
  shows "\<exists>packet. sent (InternalToTlv_res c P r pdata (int (length pdata))) = Inr packet \<and> length packet = 12 \<and>
    (\<exists>P'. TlvToInternal_res u R packet 12 = Inr (AD_FAILURE, P', clear_response) \<and>
      ucResult (m_stHead P') = AD_PROTOCOL_RESULT_UNKNOW)"
  using assms by (rule no_bid_read_back)

theorem no_bid_roundtrip_witness:
  "\<exists>packet. sent (InternalToTlv_res (\<lambda>_. rev) AdRtbProtocol_init clear_response
      (replicate 16 CHR 0x00) (int (length (replicate 16 CHR 0x00)))) = Inr packet \<and> length packet = 12 \<and>
    (\<exists>P'. TlvToInternal_res (\<lambda>_. rev) AdRtbProtocol_init packet 12 =
        Inr (AD_FAILURE, P', clear_response) \<and>
      ucResult (m_stHead P') = AD_PROTOCOL_RESULT_UNKNOW)"
  by (rule no_bid_roundtrip [OF sender_ok_init]) (simp_all add: clear_response_def)

text \<open>
  The request builder writes \<^verbatim>\<open>m_sFlow\<close> a first time without comparing it with or taking it
  from \<^verbatim>\<open>iSpace\<close>, so a flow of which two copies do not fit the buffer is written
  outside it instead of being refused.
\<close>

theorem request_flow_overflow:
  assumes "m_sFlow q \<noteq> []" "length pdata < 12 + 2 * (5 + length (m_sFlow q))"
    and "length pdata < 2 ^ 31" "length (m_sFlow q) < 2 ^ 31 - 5"
  shows "InternalToTlv_req compress P q pdata (int (length pdata)) = Inl OutOfBounds"
proof -
  let ?V = "m_sFlow q"
  have 1: "int_cast (5 + int (length ?V)) = 5 + int (length ?V)"
    using assms(4) by (intro int_cast_id) auto
  show ?thesis
    using assms 1
    by (simp add: InternalToTlv_req_def Let_def mem_write_def request_kvs_def AD_PROTOCOL_KV_def)
qed

theorem request_flow_overflow_witness:
  "InternalToTlv_req (\<lambda>_. rev) AdRtbProtocol_init (sample_request\<lparr>m_sFlow := ''1234''\<rparr>)
     (replicate 28 CHR 0x00) (int (length (replicate 28 CHR 0x00))) = Inl OutOfBounds"
  by (rule request_flow_overflow) simp_all

text \<open>
  The reader trusts the length field of a pair: a packet of 17 bytes whose only pair has a key
  of the table and any positive length makes it read behind the packet.
\<close>

theorem TlvToInternal_req_trusts_length:
  assumes "wf_head h" "ucExpand h = 0" "ucAttr h \<noteq> AD_PROTOCOL_BODY_COMP" "usTotal h \<noteq> 0" "iLength h = 5"
    and "K \<in> set (map fst AdRtbProtocolInitParser_req)" "0 < n" "n < 2 ^ 31"
  shows "TlvToInternal_req uncompress now P (head_bytes h @ byte_of K # be32 (of_nat n)) 17 = Inl OutOfBounds"
proof -
  let ?p = "head_bytes h @ byte_of K # be32 (of_nat n)"
  obtain left where left: "unat (usTotal h) = Suc left"
    using assms(4) by (cases "unat (usTotal h)") (auto simp: unat_eq_0)
  obtain p where p: "map_of AdRtbProtocolInitParser_req K = Some p"
    using assms(6) by (cases "map_of AdRtbProtocolInitParser_req K") (auto simp: map_of_eq_None_iff)
  have 1: "rd8 ?p 0 = Inr AD_PROTOCOL_FLAG" "read_head ?p AD_PROTOCOL_FLAG = Inr h"
    using rd8_head [of 0 h] read_head_bytes [OF assms(1)] by auto
  have 2: "rd8 ?p 12 = Inr K"
    using rd8_at [of "head_bytes h" 12 "byte_of K"] by simp
  have 3: "rd32 ?p 13 = Inr (of_nat n)"
    using rd32_at [of "head_bytes h @ [byte_of K]" 13 "of_nat n" "[]"] by simp
  have s: "sint (of_nat n :: UINT) = int n"
    using int_cast_id [of "int n"] assms(8) by (simp add: int_cast_def)
  have 4: "rd_bytes ?p 17 n = Inl OutOfBounds"
    using assms(7) by (simp add: rd_bytes_def)
  have c: "int_cast 0 = 0" by (simp add: int_cast_id)
  have "tlv_body (map_of AdRtbProtocolInitParser_req) ?p 12 5 (Suc left) 12 (clear_request now) = Inl OutOfBounds"
    by (simp add: 2 3 4 p s c)
  then show ?thesis
    using assms(2,3,5)
    by (simp add: TlvToInternal_req_def Let_def 1 tlv_expand_def add_int_def tlv_unpack_def left del: tlv_body.simps)
qed

theorem TlvToInternal_req_trusts_length_witness:
  "TlvToInternal_req (\<lambda>_. rev) \<lparr>tv_sec = 0, tv_usec = 0\<rparr> AdRtbProtocol_init
    (head_bytes ((m_stHead AdRtbProtocol_init)\<lparr>ucAttr := 0, usTotal := 1, iLength := 5\<rparr>) @
     byte_of AD_PROTOCOL_KEY_RTB_BIDID # be32 (of_nat 7)) 17 = Inl OutOfBounds"
  by (rule TlvToInternal_req_trusts_length)
    (simp_all add: AdRtbProtocol_init_def wf_head_def AdRtbProtocolInitParser_req_def)

text \<open>
  \<^verbatim>\<open>TlvPacketLen\<close> reads the length one byte too far: on every packet with a body of at most 8MB
  it returns 256 times the body's length plus the first byte of the body, which is more
  than the whole packet, so a reader that steps by it over several packets skips all but the first.
\<close>

theorem TlvPacketLen_shifted:
  assumes "0 < iLength h" "iLength h < 2 ^ 23" "int (length body) = iLength h"
  shows "TlvPacketLen (head_bytes h @ body) (int (length (head_bytes h @ body))) =
      Inr (256 * iLength h + int (of_char (body ! 0))) \<and>
    256 * iLength h + int (of_char (body ! 0)) > int (length (head_bytes h @ body))"
proof -
  define n where "n = nat (iLength h)"
  have n: "iLength h = int n" "n < 2 ^ 23" "0 < n" using assms(1,2) by (auto simp: n_def)
  obtain c rest where body: "body = c # rest" using assms(1,3) by (cases body) auto
  let ?pre = "map byte_of [AD_PROTOCOL_FLAG, flags_byte h, ucType h, ucVerb h, ucAttr h, ucResult h] @
    be16 (usTotal h)"
  have u: "unat (of_nat n :: UINT) = n" using n by (simp add: unat_of_nat)
  have be: "be32 (of_int (iLength h)) =
    [char_of (n div 2 ^ 24), char_of (n div 2 ^ 16 mod 256), char_of (n div 2 ^ 8 mod 256), char_of (n mod 256)]"
    using u by (simp add: be32_def Let_def n(1))
  have d: "drop 9 (head_bytes h @ body) =
    [char_of (n div 2 ^ 16 mod 256), char_of (n div 2 ^ 8 mod 256), char_of (n mod 256), c] @ rest"
    by (simp add: head_bytes_def be body)
  have "n div 2 ^ 16 = n div 2 ^ 8 div 256" by (simp flip: div_mult2_eq)
  then have split: "(n div 2 ^ 16 mod 256 * 256 + n div 2 ^ 8 mod 256) * 256 + n mod 256 = n"
    using n(2) by simp
  have "be_nat (take 4 (drop 9 (head_bytes h @ body))) =
    ((n div 2 ^ 16 mod 256 * 256 + n div 2 ^ 8 mod 256) * 256 + n mod 256) * 256 + of_char c"
    unfolding d by (simp add: be_nat_def take_bit_eq_mod)
  then have val: "be_nat (take 4 (drop 9 (head_bytes h @ body))) = 256 * n + of_char c"
    unfolding split by simp
  have c: "(of_char c :: nat) < 256" by simp
  have r: "rd32 (head_bytes h @ body) 9 = Inr (of_nat (256 * n + of_char c))"
    using rd32_take [of 9 "head_bytes h @ body"] val by (simp add: body)
  have s: "sint (of_nat (256 * n + of_char c) :: UINT) = int (256 * n + of_char c)"
  proof -
    have "int_cast (int (256 * n + x)) = int (256 * n + x)" if "x < 256" for x
      using n(2) that by (intro int_cast_id) simp_all
    from this [OF c] show ?thesis unfolding int_cast_def by (simp only: of_int_of_nat_eq)
  qed
  have f: "rd8 (head_bytes h @ body) 0 = Inr AD_PROTOCOL_FLAG"
    using rd8_head [of 0 h body] by simp
  show ?thesis
    using n assms(3)
    by (simp add: TlvPacketLen_def f [unfolded body] r [unfolded body] s [simplified] body del: of_nat_of_char)
qed

theorem TlvPacketLen_shifted_witness:
  "TlvPacketLen (head_bytes (zero_head\<lparr>iLength := 3\<rparr>) @ ''abc'')
     (int (length (head_bytes (zero_head\<lparr>iLength := 3\<rparr>) @ ''abc''))) =
    Inr (256 * iLength (zero_head\<lparr>iLength := 3\<rparr>) + int (of_char (''abc'' ! 0))) \<and>
   256 * iLength (zero_head\<lparr>iLength := 3\<rparr>) + int (of_char (''abc'' ! 0)) >
    int (length (head_bytes (zero_head\<lparr>iLength := 3\<rparr>) @ ''abc''))"
  by (rule TlvPacketLen_shifted) simp_all

end
