(* ===== verification/StdMap.thy ===== *)
theory StdMap
  imports AdPrelude
begin

text \<open>
  \<^verbatim>\<open>std::map\<close> of the C++ standard library: the list of its entries in the order of the keys, in
  which an iterator meets them. \<open>find\<close> is \<^const>\<open>map_of\<close>; \<^verbatim>\<open>m[k] = v\<close> is \<open>smap_upd\<close>, \<^verbatim>\<open>m.insert\<close>
  keeps an entry that is there, \<^verbatim>\<open>m.erase(k)\<close> is \<open>smap_erase\<close>. A loop that erases through the
  iterator the entries that fail a test is \<^const>\<open>filter\<close>.
\<close>

fun smap_upd :: "'k::linorder \<Rightarrow> 'v \<Rightarrow> ('k \<times> 'v) list \<Rightarrow> ('k \<times> 'v) list" where
  "smap_upd k v [] = [(k, v)]"
| "smap_upd k v ((k', v') # m) =
     (if k < k' then (k, v) # (k', v') # m
      else if k = k' then (k, v) # m
      else (k', v') # smap_upd k v m)"

fun smap_erase :: "'k::linorder \<Rightarrow> ('k \<times> 'v) list \<Rightarrow> ('k \<times> 'v) list" where
  "smap_erase k [] = []"
| "smap_erase k ((k', v') # m) = (if k = k' then m else (k', v') # smap_erase k m)"

definition smap_insert :: "'k::linorder \<Rightarrow> 'v \<Rightarrow> ('k \<times> 'v) list \<Rightarrow> ('k \<times> 'v) list" where
  "smap_insert k v m = (case map_of m k of None \<Rightarrow> smap_upd k v m | Some _ \<Rightarrow> m)"

definition smap_ok :: "('k::linorder \<times> 'v) list \<Rightarrow> bool" where
  "smap_ok m \<longleftrightarrow> sorted_wrt (<) (map fst m)"

lemma smap_ok_simps [simp]:
  "smap_ok []"
  "smap_ok ((k, v) # m) \<longleftrightarrow> (\<forall>k' \<in> fst ` set m. k < k') \<and> smap_ok m"
  by (auto simp: smap_ok_def)

lemma keys_smap_upd [simp]: "fst ` set (smap_upd k v m) = insert k (fst ` set m)"
  by (induction k v m rule: smap_upd.induct) auto

lemma smap_ok_upd [intro, simp]: "smap_ok m \<Longrightarrow> smap_ok (smap_upd k v m)"
  by (induction k v m rule: smap_upd.induct) force+

lemma map_of_smap_upd [simp]: "map_of (smap_upd k v m) = (map_of m)(k \<mapsto> v)"
  by (induction k v m rule: smap_upd.induct) auto

lemma keys_smap_erase: "fst ` set (smap_erase k m) \<subseteq> fst ` set m"
  by (induction k m rule: smap_erase.induct) auto

lemma smap_ok_erase [intro, simp]: "smap_ok m \<Longrightarrow> smap_ok (smap_erase k m)"
proof (induction k m rule: smap_erase.induct)
  case (2 k k' v' m)
  then show ?case using keys_smap_erase [of k m] by (fastforce dest: subsetD [OF _ imageI])
qed simp

lemma map_of_smap_erase [simp]:
  assumes "smap_ok m"
  shows "map_of (smap_erase k m) = (map_of m)(k := None)"
  using assms
proof (induction k m rule: smap_erase.induct)
  case (2 k k' v' m)
  then have "k = k' \<Longrightarrow> map_of m k = None"
    by (force simp: map_of_eq_None_iff)
  with 2 show ?case by (auto simp: fun_eq_iff)
qed (simp add: fun_eq_iff)

lemma smap_ok_insert [intro, simp]: "smap_ok m \<Longrightarrow> smap_ok (smap_insert k v m)"
  by (simp add: smap_insert_def split: option.split)

lemma map_of_smap_insert [simp]:
  "map_of (smap_insert k v m) = (case map_of m k of None \<Rightarrow> (map_of m)(k \<mapsto> v) | Some _ \<Rightarrow> map_of m)"
  by (simp add: smap_insert_def split: option.split)

lemma smap_ok_distinct: "smap_ok m \<Longrightarrow> distinct (map fst m)"
  unfolding smap_ok_def by (induction m) auto

lemma smap_ok_filter [intro, simp]: "smap_ok m \<Longrightarrow> smap_ok (filter P m)"
  by (auto simp: smap_ok_def sorted_wrt_map sorted_wrt_filter)

lemma map_of_filter_smap:
  assumes "smap_ok m"
  shows "map_of (filter (\<lambda>(k, v). P k v) m) k = (case map_of m k of None \<Rightarrow> None
    | Some v \<Rightarrow> if P k v then Some v else None)"
  using assms
proof (induction m)
  case (Cons e m)
  obtain k' v' where e: "e = (k', v')" by (cases e)
  with Cons.prems have "map_of m k' = None" by (force simp: map_of_eq_None_iff)
  with Cons e show ?case by (auto split: option.splits)
qed simp

lemma smap_mem_iff: "smap_ok m \<Longrightarrow> (k, v) \<in> set m \<longleftrightarrow> map_of m k = Some v"
  by (simp add: smap_ok_distinct)

text \<open>An ordered map is determined by what it finds.\<close>

lemma smap_eqI:
  assumes "smap_ok m" "smap_ok m'" "map_of m = map_of m'"
  shows "m = m'"
proof -
  have s: "set m = set m'" using assms by (auto simp: smap_mem_iff)
  have d: "distinct (map fst m)" "distinct (map fst m')"
    using assms(1,2) by (simp_all add: smap_ok_distinct)
  have "sorted (map fst m)" "sorted (map fst m')"
    using assms(1,2) by (simp_all add: smap_ok_def strict_sorted_imp_sorted)
  moreover have "inj_on fst (set m \<union> set m')"
    using d s by (simp add: distinct_map)
  ultimately show ?thesis
    using d s by (intro map_sorted_distinct_set_unique [of fst]) simp_all
qed

lemma set_smap_upd: "set (smap_upd k v m) \<subseteq> insert (k, v) (set m)"
  by (induction k v m rule: smap_upd.induct) auto

text \<open>Entries that come in the order of their keys go to the end.\<close>

lemma smap_upd_last: "\<forall>k' \<in> fst ` set m. k' < k \<Longrightarrow> smap_upd k v m = m @ [(k, v)]"
  by (induction k v m rule: smap_upd.induct) auto

lemma fold_smap_upd: "smap_ok (m @ m') \<Longrightarrow> fold (\<lambda>(k, v). smap_upd k v) m' m = m @ m'"
proof (induction m' arbitrary: m)
  case (Cons e m')
  then have "\<forall>k' \<in> fst ` set m. k' < fst e"
    by (cases e) (auto simp: smap_ok_def sorted_wrt_append)
  with Cons show ?case by (cases e) (simp add: smap_upd_last)
qed simp

end
