(* ===== verification/AdBuff.thy ===== *)
theory AdBuff
  imports StdMap
begin

text \<open>
  The buffers of \<^verbatim>\<open>libutil/inc/AdBuff.h\<close>: the ring buffer (base class and its variants for one or
  several readers and writers), the loop-read buffer of sessions and the ping-pong buffer.
  A locale states what a bounded queue promises; the ring buffer is its instance. The
  single-reader single-writer variant takes no lock, so its threads are also modelled as
  a step relation over the shared positions.
\<close>

section \<open>The ring buffer\<close>

record 'a AdRingBufferBase =
  m_vRing :: "'a list"
  m_iSize :: int
  m_iReadPosition :: int
  m_iWritePosition :: int

text \<open>\<open>dflt\<close> is the value of \<^verbatim>\<open>Request()\<close> with which \<^verbatim>\<open>resize\<close> fills new elements.\<close>

definition ring_init :: "'a \<Rightarrow> int \<Rightarrow> 'a AdRingBufferBase \<Rightarrow> 'a AdRingBufferBase" where
  "ring_init dflt iSize rb =
     \<lparr>m_vRing = (if iSize > 0
        then take (nat iSize) (m_vRing rb) @ replicate (nat iSize - length (m_vRing rb)) dflt
        else m_vRing rb),
      m_iSize = iSize, m_iReadPosition = 0, m_iWritePosition = 0\<rparr>"

definition ring_new :: "'a \<Rightarrow> int \<Rightarrow> 'a AdRingBufferBase" where
  "ring_new dflt iSize = ring_init dflt iSize
     \<lparr>m_vRing = [], m_iSize = 0, m_iReadPosition = 0, m_iWritePosition = 0\<rparr>"

definition ring_next :: "int \<Rightarrow> 'a AdRingBufferBase \<Rightarrow> int cxx" where
  "ring_next pos rb = bind_cxx (add_int pos 1) (\<lambda>p. rem_int p (m_iSize rb))"

definition ring_push :: "'a \<Rightarrow> 'a AdRingBufferBase \<Rightarrow> 'a AdRingBufferBase cxx" where
  "ring_push request rb =
     bind_cxx (vec_set (m_vRing rb) (m_iWritePosition rb) request) (\<lambda>v.
     bind_cxx (ring_next (m_iWritePosition rb) rb) (\<lambda>w.
       Inr (rb\<lparr>m_vRing := v, m_iWritePosition := w\<rparr>)))"

definition ring_full :: "'a AdRingBufferBase \<Rightarrow> bool cxx" where
  "ring_full rb = bind_cxx (ring_next (m_iWritePosition rb) rb) (\<lambda>fullReadPosition.
     Inr (m_iReadPosition rb = fullReadPosition))"

definition ring_empty :: "'a AdRingBufferBase \<Rightarrow> bool" where
  "ring_empty rb \<longleftrightarrow> m_iReadPosition rb = m_iWritePosition rb"

definition ring_pop :: "'a AdRingBufferBase \<Rightarrow> ('a \<times> 'a AdRingBufferBase) cxx" where
  "ring_pop rb =
     bind_cxx (vec_get (m_vRing rb) (m_iReadPosition rb)) (\<lambda>request.
     bind_cxx (ring_next (m_iReadPosition rb) rb) (\<lambda>r.
       Inr (request, rb\<lparr>m_iReadPosition := r\<rparr>)))"

definition ring_size :: "'a AdRingBufferBase \<Rightarrow> UINT" where
  "ring_size rb =
     (if m_iReadPosition rb = m_iWritePosition rb then 0
      else if m_iReadPosition rb > m_iWritePosition rb
      then of_int (m_iSize rb - m_iReadPosition rb + m_iWritePosition rb)
      else of_int (m_iWritePosition rb - m_iReadPosition rb))"

text \<open>
  \<^verbatim>\<open>tryPush\<close> and \<^verbatim>\<open>tryPop\<close> act on the positions and the vector in the same way in all four
  variants, which differ in the locks around them.
\<close>

definition tryPush :: "'a \<Rightarrow> 'a AdRingBufferBase \<Rightarrow> (bool \<times> 'a AdRingBufferBase) cxx" where
  "tryPush request rb = bind_cxx (ring_full rb) (\<lambda>full.
     if full then Inr (False, rb)
     else bind_cxx (ring_push request rb) (\<lambda>rb'. Inr (True, rb')))"

definition tryPop :: "'a AdRingBufferBase \<Rightarrow> ('a option \<times> 'a AdRingBufferBase) cxx" where
  "tryPop rb =
     (if ring_empty rb then Inr (None, rb)
      else bind_cxx (ring_pop rb) (\<lambda>(request, rb'). Inr (Some request, rb')))"

section \<open>What a bounded queue promises\<close>

datatype 'a queue_op = Push 'a | Pop

datatype 'a queue_out = Pushed bool | Popped "'a option"

text \<open>The contract: a list, at most \<open>n\<close> long.\<close>

fun list_queue_step :: "nat \<Rightarrow> 'a queue_op \<Rightarrow> 'a list \<Rightarrow> 'a queue_out \<times> 'a list" where
  "list_queue_step n (Push x) xs =
     (if length xs < n then (Pushed True, xs @ [x]) else (Pushed False, xs))"
| "list_queue_step n Pop [] = (Popped None, [])"
| "list_queue_step n Pop (x # xs) = (Popped (Some x), xs)"

fun list_queue_run :: "nat \<Rightarrow> 'a queue_op list \<Rightarrow> 'a list \<Rightarrow> 'a queue_out list \<times> 'a list" where
  "list_queue_run n [] xs = ([], xs)"
| "list_queue_run n (p # ps) xs =
     (let (out, ys) = list_queue_step n p xs; (outs, zs) = list_queue_run n ps ys in (out # outs, zs))"

text \<open>The same calls on an implementation.\<close>

fun queue_exec_op ::
    "('a \<Rightarrow> 's \<Rightarrow> (bool \<times> 's) cxx) \<Rightarrow> ('s \<Rightarrow> ('a option \<times> 's) cxx) \<Rightarrow> 'a queue_op \<Rightarrow> 's \<Rightarrow>
     ('a queue_out \<times> 's) cxx" where
  "queue_exec_op push pop (Push x) s = bind_cxx (push x s) (\<lambda>(b, s'). Inr (Pushed b, s'))"
| "queue_exec_op push pop Pop s = bind_cxx (pop s) (\<lambda>(r, s'). Inr (Popped r, s'))"

fun queue_exec ::
    "('a \<Rightarrow> 's \<Rightarrow> (bool \<times> 's) cxx) \<Rightarrow> ('s \<Rightarrow> ('a option \<times> 's) cxx) \<Rightarrow> 'a queue_op list \<Rightarrow> 's \<Rightarrow>
     ('a queue_out list \<times> 's) cxx" where
  "queue_exec push pop [] s = Inr ([], s)"
| "queue_exec push pop (p # ps) s = bind_cxx (queue_exec_op push pop p s) (\<lambda>(out, s').
     bind_cxx (queue_exec push pop ps s') (\<lambda>(outs, s''). Inr (out # outs, s'')))"

locale bounded_queue =
  fixes queue_ok :: "'s \<Rightarrow> bool" and contents :: "'s \<Rightarrow> 'a list" and capacity :: "'s \<Rightarrow> nat"
    and try_push :: "'a \<Rightarrow> 's \<Rightarrow> (bool \<times> 's) cxx" and try_pop :: "'s \<Rightarrow> ('a option \<times> 's) cxx"
  assumes push_room: "queue_ok s \<Longrightarrow> length (contents s) < capacity s \<Longrightarrow>
      \<exists>s'. try_push x s = Inr (True, s') \<and> queue_ok s' \<and> contents s' = contents s @ [x] \<and>
        capacity s' = capacity s"
    and push_no_room: "queue_ok s \<Longrightarrow> \<not> length (contents s) < capacity s \<Longrightarrow>
      try_push x s = Inr (False, s)"
    and pop_some: "queue_ok s \<Longrightarrow> contents s = y # ys \<Longrightarrow>
      \<exists>s'. try_pop s = Inr (Some y, s') \<and> queue_ok s' \<and> contents s' = ys \<and> capacity s' = capacity s"
    and pop_none: "queue_ok s \<Longrightarrow> contents s = [] \<Longrightarrow> try_pop s = Inr (None, s)"
begin

lemma exec_op_refines:
  assumes "queue_ok s"
  shows "\<exists>out s'. queue_exec_op try_push try_pop p s = Inr (out, s') \<and> queue_ok s' \<and> capacity s' = capacity s \<and>
    list_queue_step (capacity s) p (contents s) = (out, contents s')"
proof (cases p)
  case (Push x)
  then show ?thesis
    using assms push_room [OF assms, of x] push_no_room [OF assms, of x]
    by (cases "length (contents s) < capacity s") auto
next
  case Pop
  show ?thesis
  proof (cases "contents s")
    case Nil
    with Pop assms show ?thesis using pop_none by simp
  next
    case (Cons y ys)
    from pop_some [OF assms Cons] obtain s' where "try_pop s = Inr (Some y, s')" "queue_ok s'"
      "contents s' = ys" "capacity s' = capacity s" by blast
    with Pop Cons show ?thesis by auto
  qed
qed

lemma exec_refines:
  assumes "queue_ok s"
  shows "\<exists>outs s'. queue_exec try_push try_pop ps s = Inr (outs, s') \<and> queue_ok s' \<and> capacity s' = capacity s \<and>
    list_queue_run (capacity s) ps (contents s) = (outs, contents s')"
  using assms
proof (induction ps arbitrary: s)
  case (Cons p ps)
  obtain out s1 where 1: "queue_exec_op try_push try_pop p s = Inr (out, s1)" "queue_ok s1" "capacity s1 = capacity s"
    "list_queue_step (capacity s) p (contents s) = (out, contents s1)"
    using exec_op_refines [OF Cons.prems] by blast
  show ?case using Cons.IH [OF 1(2)] 1 by auto
qed simp

end

section \<open>The ring buffer is a bounded queue\<close>

definition ring_ok :: "'a AdRingBufferBase \<Rightarrow> bool" where
  "ring_ok rb \<longleftrightarrow> 0 < m_iSize rb \<and> m_iSize rb < 2 ^ 31 \<and> int (length (m_vRing rb)) = m_iSize rb \<and>
     0 \<le> m_iReadPosition rb \<and> m_iReadPosition rb < m_iSize rb \<and>
     0 \<le> m_iWritePosition rb \<and> m_iWritePosition rb < m_iSize rb"

definition ring_count :: "'a AdRingBufferBase \<Rightarrow> nat" where
  "ring_count rb = nat ((m_iWritePosition rb - m_iReadPosition rb) mod m_iSize rb)"

definition ring_contents :: "'a AdRingBufferBase \<Rightarrow> 'a list" where
  "ring_contents rb =
     map (\<lambda>i. m_vRing rb ! nat ((m_iReadPosition rb + int i) mod m_iSize rb)) [0..<ring_count rb]"

definition ring_capacity :: "'a AdRingBufferBase \<Rightarrow> nat" where
  "ring_capacity rb = nat (m_iSize rb - 1)"

lemma ring_ok_init: "0 < n \<Longrightarrow> n < 2 ^ 31 \<Longrightarrow> ring_ok (ring_init d n rb)"
  "ring_contents (ring_init d n rb) = []"
  by (auto simp: ring_ok_def ring_init_def ring_contents_def ring_count_def)

lemma length_ring_contents [simp]: "length (ring_contents rb) = ring_count rb"
  by (simp add: ring_contents_def)

text \<open>Positions modulo the size.\<close>

lemma pos_last:
  assumes "0 < n" "0 \<le> w" "w < (n :: int)"
  shows "(r + (w - r) mod n) mod n = w"
  using assms by (simp add: mod_simps)

lemma pos_other:
  assumes "0 < n" "0 \<le> i" "i < (w - r) mod (n :: int)" "0 \<le> w" "w < n"
  shows "(r + i) mod n \<noteq> w"
proof
  assume "(r + i) mod n = w"
  then have "((r + i) mod n - r) mod n = (w - r) mod n" by simp
  then have "i mod n = (w - r) mod n" by (simp add: mod_simps)
  moreover have "i < n" using assms pos_mod_bound [of n "w - r"] by linarith
  ultimately show False using assms by simp
qed

lemma pos_first: "0 < n \<Longrightarrow> 0 \<le> r \<Longrightarrow> r < n \<Longrightarrow> (r + int 0) mod n = (r :: int)"
  by simp

lemma mod_Suc_int:
  assumes "0 < (n :: int)" "x mod n + 1 < n"
  shows "(x + 1) mod n = x mod n + 1"
proof -
  have "(x + 1) mod n = (x mod n + 1) mod n" by (simp add: mod_simps)
  also have "\<dots> = x mod n + 1" using assms pos_mod_sign [of n x] by (intro mod_pos_pos_trivial) linarith+
  finally show ?thesis .
qed

lemma ring_next_ok:
  "ring_ok rb \<Longrightarrow> 0 \<le> p \<Longrightarrow> p < m_iSize rb \<Longrightarrow> ring_next p rb = Inr ((p + 1) mod m_iSize rb)"
  by (simp add: ring_next_def ring_ok_def add_int_ok rem_int_ok)

lemma ring_empty_iff: "ring_ok rb \<Longrightarrow> ring_empty rb \<longleftrightarrow> ring_count rb = 0"
  unfolding ring_empty_def ring_count_def ring_ok_def
proof -
  assume ok: "0 < m_iSize rb \<and> m_iSize rb < 2 ^ 31 \<and> int (length (m_vRing rb)) = m_iSize rb \<and>
     0 \<le> m_iReadPosition rb \<and> m_iReadPosition rb < m_iSize rb \<and>
     0 \<le> m_iWritePosition rb \<and> m_iWritePosition rb < m_iSize rb"
  have "(m_iReadPosition rb + (m_iWritePosition rb - m_iReadPosition rb) mod m_iSize rb) mod m_iSize rb =
    m_iWritePosition rb"
    using ok by (intro pos_last) auto
  with ok show "m_iReadPosition rb = m_iWritePosition rb \<longleftrightarrow>
    nat ((m_iWritePosition rb - m_iReadPosition rb) mod m_iSize rb) = 0"
    by (auto simp: pos_mod_sign dest!: antisym [OF _ pos_mod_sign])
qed

lemma ring_count_less: "ring_ok rb \<Longrightarrow> ring_count rb < nat (m_iSize rb)"
  by (simp add: ring_count_def ring_ok_def)

lemma ring_full_ok:
  assumes ok: "ring_ok rb"
  shows "ring_full rb = Inr (\<not> ring_count rb < ring_capacity rb)"
proof -
  let ?n = "m_iSize rb" and ?r = "m_iReadPosition rb" and ?w = "m_iWritePosition rb"
  let ?c = "(?w - ?r) mod ?n"
  have n: "0 < ?n" "0 \<le> ?r" "?r < ?n" "0 \<le> ?w" "?w < ?n" using ok by (auto simp: ring_ok_def)
  have c: "0 \<le> ?c" "?c < ?n" using n by simp_all
  have "?r = (?w + 1) mod ?n \<longleftrightarrow> ?c = ?n - 1"
  proof
    assume r: "?r = (?w + 1) mod ?n"
    have "?c = (?w - (?w + 1) mod ?n) mod ?n" using r by simp
    also have "\<dots> = (- 1) mod ?n" by (simp add: mod_simps)
    also have "\<dots> = ?n - 1" using n by (simp add: zmod_minus1)
    finally show "?c = ?n - 1" .
  next
    assume e: "?c = ?n - 1"
    have "?w = (?r + ?c) mod ?n" using n pos_last [of ?n ?w ?r] by simp
    then have "(?w + 1) mod ?n = ((?r + ?c) mod ?n + 1) mod ?n" by simp
    also have "\<dots> = (?r + ?n) mod ?n" unfolding e by (simp add: mod_simps)
    also have "\<dots> = ?r" using n by simp
    finally show "?r = (?w + 1) mod ?n" by simp
  qed
  moreover have "?c = ?n - 1 \<longleftrightarrow> \<not> ?c < ?n - 1" using c by linarith
  moreover have "nat ?c < nat (?n - 1) \<longleftrightarrow> ?c < ?n - 1"
    using c(1) by (rule nat_less_eq_zless)
  ultimately show ?thesis
    unfolding ring_count_def ring_capacity_def using n ok
    by (simp only: ring_full_def ring_next_ok bind_cxx.simps)
qed

text \<open>The three effects of a push and a pop, apart.\<close>

lemma ring_store:
  assumes ok: "ring_ok rb"
  shows "ring_contents (rb\<lparr>m_vRing := (m_vRing rb)[nat (m_iWritePosition rb) := x]\<rparr>) = ring_contents rb"
proof -
  let ?n = "m_iSize rb" and ?r = "m_iReadPosition rb" and ?w = "m_iWritePosition rb"
  have n: "0 < ?n" "0 \<le> ?r" "?r < ?n" "0 \<le> ?w" "?w < ?n" using ok by (auto simp: ring_ok_def)
  have "(m_vRing rb)[nat ?w := x] ! nat ((?r + int i) mod ?n) = m_vRing rb ! nat ((?r + int i) mod ?n)"
    if "i < ring_count rb" for i
  proof -
    have "(?r + int i) mod ?n \<noteq> ?w"
      using that n by (intro pos_other) (auto simp: ring_count_def)
    then show ?thesis using n by (simp add: nth_list_update_neq eq_nat_nat_iff)
  qed
  then show ?thesis by (simp add: ring_contents_def ring_count_def)
qed

lemma ring_advance_write:
  assumes ok: "ring_ok rb" and room: "ring_count rb < ring_capacity rb"
  shows "ring_contents (rb\<lparr>m_iWritePosition := (m_iWritePosition rb + 1) mod m_iSize rb\<rparr>) =
    ring_contents rb @ [m_vRing rb ! nat (m_iWritePosition rb)]"
proof -
  let ?n = "m_iSize rb" and ?r = "m_iReadPosition rb" and ?w = "m_iWritePosition rb"
  let ?c = "(?w - ?r) mod ?n" and ?rb = "rb\<lparr>m_iWritePosition := (?w + 1) mod ?n\<rparr>"
  have n: "0 < ?n" "0 \<le> ?r" "?r < ?n" "0 \<le> ?w" "?w < ?n" using ok by (auto simp: ring_ok_def)
  have "?c + 1 < ?n" using room n by (simp add: ring_count_def ring_capacity_def)
  then have "(?w + 1 - ?r) mod ?n = ?c + 1"
    using mod_Suc_int [of ?n "?w - ?r"] n by (simp add: algebra_simps)
  then have cnt: "ring_count ?rb = Suc (ring_count rb)"
    using n by (simp add: ring_count_def mod_simps nat_add_distrib)
  have "nat ((?r + int (ring_count rb)) mod ?n) = nat ?w"
    using n pos_last [of ?n ?w ?r] by (simp add: ring_count_def)
  then show ?thesis unfolding ring_contents_def cnt by simp
qed

lemma ring_advance_read:
  assumes ok: "ring_ok rb" and "0 < ring_count rb"
  shows "ring_contents rb = m_vRing rb ! nat (m_iReadPosition rb) #
    ring_contents (rb\<lparr>m_iReadPosition := (m_iReadPosition rb + 1) mod m_iSize rb\<rparr>)"
proof -
  let ?n = "m_iSize rb" and ?r = "m_iReadPosition rb" and ?w = "m_iWritePosition rb"
  let ?c = "(?w - ?r) mod ?n" and ?rb = "rb\<lparr>m_iReadPosition := (?r + 1) mod ?n\<rparr>"
  have n: "0 < ?n" "0 \<le> ?r" "?r < ?n" "0 \<le> ?w" "?w < ?n" using ok by (auto simp: ring_ok_def)
  have c: "0 < ?c" "?c < ?n" using assms(2) n by (auto simp: ring_count_def)
  have "(?w - (?r + 1)) mod ?n = (?c - 1) mod ?n" by (simp add: mod_simps algebra_simps)
  also have "\<dots> = ?c - 1" using c by (intro mod_pos_pos_trivial) auto
  finally have cnt: "ring_count rb = Suc (ring_count ?rb)"
    using n c by (simp add: ring_count_def mod_simps flip: Suc_nat_eq_nat_zadd1)
  show ?thesis
    unfolding ring_contents_def cnt map_upt_Suc
    using n by (simp add: mod_simps add.assoc)
qed

lemma ring_push_ok:
  assumes ok: "ring_ok rb" and room: "ring_count rb < ring_capacity rb"
  shows "\<exists>rb'. ring_push x rb = Inr rb' \<and> ring_ok rb' \<and> ring_contents rb' = ring_contents rb @ [x] \<and>
    m_iSize rb' = m_iSize rb"
proof -
  let ?n = "m_iSize rb" and ?w = "m_iWritePosition rb"
  let ?rb1 = "rb\<lparr>m_vRing := (m_vRing rb)[nat ?w := x]\<rparr>"
  have n: "0 < ?n" "0 \<le> ?w" "?w < ?n" "int (length (m_vRing rb)) = ?n"
    using ok by (auto simp: ring_ok_def)
  have ok1: "ring_ok ?rb1" using ok by (simp add: ring_ok_def)
  have "ring_contents (?rb1\<lparr>m_iWritePosition := (?w + 1) mod ?n\<rparr>) = ring_contents rb @ [x]"
    using ring_advance_write [OF ok1] room ring_store [OF ok, of x] n
    by (simp add: ring_count_def ring_capacity_def nat_less_iff)
  with n ok show ?thesis
    by (simp add: ring_push_def vec_set_def ring_next_ok) (simp add: ring_ok_def)
qed

lemma ring_pop_ok:
  assumes ok: "ring_ok rb" and "0 < ring_count rb"
  shows "\<exists>rb'. ring_pop rb = Inr (hd (ring_contents rb), rb') \<and> ring_ok rb' \<and>
    ring_contents rb' = tl (ring_contents rb) \<and> m_iSize rb' = m_iSize rb"
  using ring_advance_read [OF assms] ok
  by (auto simp: ring_pop_def vec_get_def ring_next_ok ring_ok_def)

interpretation ring: bounded_queue ring_ok ring_contents ring_capacity tryPush tryPop
proof unfold_locales
  fix rb :: "'a AdRingBufferBase" and x y :: 'a and ys
  assume ok: "ring_ok rb"
  show "\<exists>rb'. tryPush x rb = Inr (True, rb') \<and> ring_ok rb' \<and> ring_contents rb' = ring_contents rb @ [x] \<and>
      ring_capacity rb' = ring_capacity rb" if "length (ring_contents rb) < ring_capacity rb"
    using that ring_push_ok [OF ok, of x] ring_full_ok [OF ok]
    by (auto simp: tryPush_def ring_capacity_def)
  show "tryPush x rb = Inr (False, rb)" if "\<not> length (ring_contents rb) < ring_capacity rb"
    using that ring_full_ok [OF ok] by (simp add: tryPush_def)
  show "\<exists>rb'. tryPop rb = Inr (Some y, rb') \<and> ring_ok rb' \<and> ring_contents rb' = ys \<and>
      ring_capacity rb' = ring_capacity rb" if c: "ring_contents rb = y # ys"
  proof -
    have "0 < ring_count rb" using arg_cong [OF c, of length] by simp
    with ring_pop_ok [OF ok] c ring_empty_iff [OF ok] show ?thesis
      by (auto simp: tryPop_def ring_capacity_def)
  qed
  show "tryPop rb = Inr (None, rb)" if "ring_contents rb = []"
    using arg_cong [OF that, of length] ring_empty_iff [OF ok] by (simp add: tryPop_def)
qed

lemma ring_size_count:
  assumes ok: "ring_ok rb"
  shows "ring_size rb = of_nat (ring_count rb)"
proof -
  let ?n = "m_iSize rb" and ?r = "m_iReadPosition rb" and ?w = "m_iWritePosition rb"
  have n: "0 < ?n" "0 \<le> ?r" "?r < ?n" "0 \<le> ?w" "?w < ?n" using ok by (auto simp: ring_ok_def)
  consider "?r = ?w" | "?w < ?r" | "?r < ?w" by linarith
  then show ?thesis
  proof cases
    case 2
    have "(?w - ?r) mod ?n = (?w - ?r + ?n) mod ?n" by simp
    also have "\<dots> = ?w - ?r + ?n" using n 2 by (intro mod_pos_pos_trivial) auto
    finally have "ring_count rb = nat (?n - ?r + ?w)" by (simp add: ring_count_def algebra_simps)
    with 2 n show ?thesis by (simp add: ring_size_def)
  next
    case 3
    with n have "ring_count rb = nat (?w - ?r)" by (simp add: ring_count_def mod_pos_pos_trivial)
    with 3 show ?thesis by (simp add: ring_size_def)
  qed (simp add: ring_size_def ring_count_def)
qed

section \<open>One reader and one writer without a lock\<close>

text \<open>
  \<^verbatim>\<open>AdRingBufferSRSW\<close>: the writer's thread runs \<^verbatim>\<open>push\<close> (check \<^verbatim>\<open>__full\<close> and wait as long as it holds, store the
  element, advance the write position, wake the reader) while the reader's thread runs \<^verbatim>\<open>pop\<close> (check \<^verbatim>\<open>__empty\<close>
  and wait as long as it holds, copy the element, advance the read position, wake the writer). Each is a step of its
  own here, in an interleaving of the accesses to the shared fields. The check is made outside the lock:
  between it and the wait the other thread may run. A wait is \<^verbatim>\<open>pthread_cond_wait\<close> or \<^verbatim>\<open>pthread_cond_timedwait\<close>
  under a lock that no one else takes: the thread blocks in one step, is woken by a signal that comes while it is
  blocked, and may return without one, at its time limit or, as POSIX allows, at any time. A signal that comes while
  no thread is blocked has no effect. \<^verbatim>\<open>tryPush\<close> and \<^verbatim>\<open>tryPop\<close> are the same steps without the wait: one that finds the
  buffer full, or empty, changes nothing. \<open>pushed\<close> and \<open>popped\<close> record the elements.
\<close>

datatype 'a writer_pc = WIdle | WFull 'a | WWaiting 'a | WAgain 'a | WReady 'a | WStored 'a | WPushed

datatype 'a reader_pc = RIdle | REmpty | RWaiting | RReady | RLoaded 'a | RPopped

record 'a AdRingBufferSRSW =
  shared :: "'a AdRingBufferBase"
  writer :: "'a writer_pc"
  reader :: "'a reader_pc"
  pushed :: "'a list"
  popped :: "'a list"
  m_uiReadCount :: UINT
  m_uiWriteCount :: UINT

text \<open>\<^verbatim>\<open>LockCond::wake\<close>: \<^verbatim>\<open>pthread_cond_signal\<close> on the condition of the reader, and on that of the writer.\<close>

definition wake_reader :: "'a reader_pc \<Rightarrow> 'a reader_pc" where
  "wake_reader pc = (case pc of RWaiting \<Rightarrow> RIdle | _ \<Rightarrow> pc)"

definition wake_writer :: "'a writer_pc \<Rightarrow> 'a writer_pc" where
  "wake_writer pc = (case pc of WWaiting x \<Rightarrow> WAgain x | _ \<Rightarrow> pc)"

text \<open>A step of the thread that pushes.\<close>

inductive srsw_write :: "'a AdRingBufferSRSW \<Rightarrow> 'a AdRingBufferSRSW \<Rightarrow> bool" where
  push_check: "writer s = WIdle \<or> writer s = WAgain x \<Longrightarrow> ring_full (shared s) = Inr False \<Longrightarrow>
    srsw_write s (s\<lparr>writer := WReady x\<rparr>)"
| push_full: "writer s = WIdle \<or> writer s = WAgain x \<Longrightarrow> ring_full (shared s) = Inr True \<Longrightarrow>
    srsw_write s (s\<lparr>writer := WFull x\<rparr>)"
| push_wait: "writer s = WFull x \<Longrightarrow> srsw_write s (s\<lparr>writer := WWaiting x\<rparr>)"
| push_return: "writer s = WWaiting x \<Longrightarrow> srsw_write s (s\<lparr>writer := WAgain x\<rparr>)"
| push_store: "writer s = WReady x \<Longrightarrow>
    vec_set (m_vRing (shared s)) (m_iWritePosition (shared s)) x = Inr v \<Longrightarrow>
    srsw_write s (s\<lparr>writer := WStored x, shared := (shared s)\<lparr>m_vRing := v\<rparr>\<rparr>)"
| push_advance: "writer s = WStored x \<Longrightarrow>
    ring_next (m_iWritePosition (shared s)) (shared s) = Inr w \<Longrightarrow>
    srsw_write s (s\<lparr>writer := WPushed, shared := (shared s)\<lparr>m_iWritePosition := w\<rparr>,
      pushed := pushed s @ [x], m_uiWriteCount := m_uiWriteCount s + 1\<rparr>)"
| push_wake: "writer s = WPushed \<Longrightarrow> srsw_write s (s\<lparr>writer := WIdle, reader := wake_reader (reader s)\<rparr>)"

text \<open>A step of the thread that pops.\<close>

inductive srsw_read :: "'a AdRingBufferSRSW \<Rightarrow> 'a AdRingBufferSRSW \<Rightarrow> bool" where
  pop_check: "reader s = RIdle \<Longrightarrow> \<not> ring_empty (shared s) \<Longrightarrow>
    srsw_read s (s\<lparr>reader := RReady\<rparr>)"
| pop_empty: "reader s = RIdle \<Longrightarrow> ring_empty (shared s) \<Longrightarrow>
    srsw_read s (s\<lparr>reader := REmpty\<rparr>)"
| pop_wait: "reader s = REmpty \<Longrightarrow> srsw_read s (s\<lparr>reader := RWaiting\<rparr>)"
| pop_return: "reader s = RWaiting \<Longrightarrow> srsw_read s (s\<lparr>reader := RIdle\<rparr>)"
| pop_load: "reader s = RReady \<Longrightarrow>
    vec_get (m_vRing (shared s)) (m_iReadPosition (shared s)) = Inr x \<Longrightarrow>
    srsw_read s (s\<lparr>reader := RLoaded x\<rparr>)"
| pop_advance: "reader s = RLoaded x \<Longrightarrow>
    ring_next (m_iReadPosition (shared s)) (shared s) = Inr r \<Longrightarrow>
    srsw_read s (s\<lparr>reader := RPopped, shared := (shared s)\<lparr>m_iReadPosition := r\<rparr>,
      popped := popped s @ [x], m_uiReadCount := m_uiReadCount s + 1\<rparr>)"
| pop_wake: "reader s = RPopped \<Longrightarrow> srsw_read s (s\<lparr>reader := RIdle, writer := wake_writer (writer s)\<rparr>)"

definition srsw_step :: "'a AdRingBufferSRSW \<Rightarrow> 'a AdRingBufferSRSW \<Rightarrow> bool" where
  "srsw_step s t \<longleftrightarrow> srsw_write s t \<or> srsw_read s t"

definition srsw_init :: "'a \<Rightarrow> int \<Rightarrow> 'a AdRingBufferSRSW" where
  "srsw_init dflt n = \<lparr>shared = ring_new dflt n, writer = WIdle, reader = RIdle,
     pushed = [], popped = [], m_uiReadCount = 0, m_uiWriteCount = 0\<rparr>"

inductive srsw_reachable :: "'a AdRingBufferSRSW \<Rightarrow> 'a AdRingBufferSRSW \<Rightarrow> bool" for s0 where
  start: "srsw_reachable s0 s0"
| run: "srsw_reachable s0 s \<Longrightarrow> srsw_step s t \<Longrightarrow> srsw_reachable s0 t"

definition srsw_inv :: "'a AdRingBufferSRSW \<Rightarrow> bool" where
  "srsw_inv s \<longleftrightarrow> ring_ok (shared s) \<and> pushed s = popped s @ ring_contents (shared s) \<and>
     (\<forall>x. writer s = WReady x \<or> writer s = WStored x \<longrightarrow> ring_count (shared s) < ring_capacity (shared s)) \<and>
     (\<forall>x. writer s = WStored x \<longrightarrow> m_vRing (shared s) ! nat (m_iWritePosition (shared s)) = x) \<and>
     (\<forall>x. reader s = RReady \<or> reader s = RLoaded x \<longrightarrow> 0 < ring_count (shared s)) \<and>
     (\<forall>x. reader s = RLoaded x \<longrightarrow> m_vRing (shared s) ! nat (m_iReadPosition (shared s)) = x) \<and>
     m_uiReadCount s = of_nat (length (popped s)) \<and> m_uiWriteCount s = of_nat (length (pushed s))"

lemma srsw_inv_init: "0 < n \<Longrightarrow> n < 2 ^ 31 \<Longrightarrow> srsw_inv (srsw_init dflt n)"
  using ring_ok_init(1) [of n dflt] ring_ok_init(2) [of dflt n]
  by (simp add: srsw_inv_def srsw_init_def ring_new_def)

lemma ring_count_update [simp]:
  "ring_count (rb\<lparr>m_vRing := v\<rparr>) = ring_count rb" "ring_capacity (rb\<lparr>m_vRing := v\<rparr>) = ring_capacity rb"
  "ring_capacity (rb\<lparr>m_iWritePosition := w\<rparr>) = ring_capacity rb"
  "ring_capacity (rb\<lparr>m_iReadPosition := w\<rparr>) = ring_capacity rb"
  by (simp_all add: ring_count_def ring_capacity_def)

lemma wake_pc [simp]:
  "wake_reader pc = RReady \<longleftrightarrow> pc = RReady" "wake_reader pc = RLoaded x \<longleftrightarrow> pc = RLoaded x"
  "wake_writer wpc = WReady y \<longleftrightarrow> wpc = WReady y" "wake_writer wpc = WStored y \<longleftrightarrow> wpc = WStored y"
  by (auto simp: wake_reader_def wake_writer_def split: reader_pc.splits writer_pc.splits)

lemma srsw_inv_write: "srsw_write s t \<Longrightarrow> srsw_inv s \<Longrightarrow> srsw_inv t"
proof (induction rule: srsw_write.induct)
  case (push_check s x)
  then show ?case by (simp add: srsw_inv_def ring_full_ok)
next
  case (push_store s x v)
  let ?w = "m_iWritePosition (shared s)"
  have v: "v = (m_vRing (shared s))[nat ?w := x]" "0 \<le> ?w" "?w < int (length (m_vRing (shared s)))"
    using push_store(2) by (auto simp: vec_set_def split: if_splits)
  have ok: "ring_ok (shared s)" using push_store by (simp add: srsw_inv_def)
  have "m_iReadPosition (shared s) \<noteq> ?w" if "0 < ring_count (shared s)"
    using that by (auto simp: ring_count_def)
  then have r: "v ! nat (m_iReadPosition (shared s)) = m_vRing (shared s) ! nat (m_iReadPosition (shared s))"
    if "0 < ring_count (shared s)"
    using that ok v by (simp add: ring_ok_def nth_list_update_neq eq_nat_nat_iff)
  show ?case using push_store v ring_store [OF ok, of x] r
    by (auto simp: srsw_inv_def ring_ok_def)
next
  case (push_advance s x w)
  have ok: "ring_ok (shared s)" and room: "ring_count (shared s) < ring_capacity (shared s)"
    and x: "m_vRing (shared s) ! nat (m_iWritePosition (shared s)) = x"
    using push_advance by (auto simp: srsw_inv_def)
  have w: "w = (m_iWritePosition (shared s) + 1) mod m_iSize (shared s)"
    using push_advance(2) ok by (simp add: ring_next_ok ring_ok_def)
  note c = ring_advance_write [OF ok room, folded w, unfolded x]
  have n: "ring_count (shared s\<lparr>m_iWritePosition := w\<rparr>) = Suc (ring_count (shared s))"
    using arg_cong [OF c, of length] by simp
  show ?case using push_advance ok c n w by (auto simp: srsw_inv_def ring_ok_def)
qed (simp_all add: srsw_inv_def)

lemma srsw_inv_read: "srsw_read s t \<Longrightarrow> srsw_inv s \<Longrightarrow> srsw_inv t"
proof (induction rule: srsw_read.induct)
  case (pop_check s)
  then show ?case by (simp add: srsw_inv_def ring_empty_iff)
next
  case (pop_load s x)
  then show ?case by (auto simp: srsw_inv_def vec_get_def split: if_splits)
next
  case (pop_advance s x r)
  have ok: "ring_ok (shared s)" and some: "0 < ring_count (shared s)"
    and x: "m_vRing (shared s) ! nat (m_iReadPosition (shared s)) = x"
    using pop_advance by (auto simp: srsw_inv_def)
  have r: "r = (m_iReadPosition (shared s) + 1) mod m_iSize (shared s)"
    using pop_advance(2) ok by (simp add: ring_next_ok ring_ok_def)
  note c = ring_advance_read [OF ok some, folded r, unfolded x]
  have n: "ring_count (shared s) = Suc (ring_count (shared s\<lparr>m_iReadPosition := r\<rparr>))"
    using arg_cong [OF c, of length] by simp
  show ?case using pop_advance ok c n r by (auto simp: srsw_inv_def ring_ok_def)
qed (simp_all add: srsw_inv_def)

lemma srsw_inv_step: "srsw_step s t \<Longrightarrow> srsw_inv s \<Longrightarrow> srsw_inv t"
  by (auto simp: srsw_step_def intro: srsw_inv_write srsw_inv_read)

lemma srsw_reachable_inv:
  "srsw_reachable s0 s \<Longrightarrow> srsw_inv s0 \<Longrightarrow> srsw_inv s"
  by (induction rule: srsw_reachable.induct) (auto intro: srsw_inv_step)

lemma srsw_size: "srsw_reachable s0 s \<Longrightarrow> m_iSize (shared s) = m_iSize (shared s0)"
  by (induction rule: srsw_reachable.induct) (auto simp: srsw_step_def elim: srsw_write.cases srsw_read.cases)

section \<open>The loop-read buffer\<close>

text \<open>
  \<^verbatim>\<open>AdLRBuffer\<close> holds the sessions of an adapter. Pointers are numbers, 0 is \<^verbatim>\<open>NULL\<close>. The locks
  make each operation atomic.
\<close>

type_synonym ptr = nat

record AdLRBuffer =
  m_mBuffer :: "(ptr \<times> UINT) list"
  m_vBuffer :: "ptr list"

definition lr_push :: "ptr \<Rightarrow> AdLRBuffer \<Rightarrow> AdLRBuffer" where
  "lr_push pData b =
     (case map_of (m_mBuffer b) pData of
        None \<Rightarrow> \<lparr>m_mBuffer = smap_upd pData (of_nat (length (m_vBuffer b))) (m_mBuffer b),
          m_vBuffer = m_vBuffer b @ [pData]\<rparr>
      | Some _ \<Rightarrow> b)"

text \<open>The loop of \<^verbatim>\<open>del\<close> that numbers the entries again and refills the vector.\<close>

fun lr_renumber :: "(ptr \<times> UINT) list \<Rightarrow> ptr list \<Rightarrow> (ptr \<times> UINT) list \<times> ptr list" where
  "lr_renumber [] v = ([], v)"
| "lr_renumber ((p, _) # m) v =
     (let (m', v') = lr_renumber m (v @ [p]) in ((p, of_nat (length v)) # m', v'))"

definition lr_del :: "ptr \<Rightarrow> AdLRBuffer \<Rightarrow> AdLRBuffer" where
  "lr_del pData b =
     (case map_of (m_mBuffer b) pData of
        None \<Rightarrow> b
      | Some _ \<Rightarrow>
          (let (m, v) = lr_renumber (smap_erase pData (m_mBuffer b)) [] in
             \<lparr>m_mBuffer = m, m_vBuffer = v\<rparr>))"

definition lr_find :: "UINT \<Rightarrow> AdLRBuffer \<Rightarrow> ptr" where
  "lr_find uiId b =
     (if m_vBuffer b = [] then 0
      else m_vBuffer b ! unat (uiId mod of_nat (length (m_vBuffer b))))"

definition lr_check :: "ptr \<Rightarrow> AdLRBuffer \<Rightarrow> bool" where
  "lr_check pData b \<longleftrightarrow> map_of (m_mBuffer b) pData \<noteq> None"

definition lr_size :: "AdLRBuffer \<Rightarrow> int" where
  "lr_size b = int (length (m_mBuffer b))"

text \<open>
  The map and the vector describe the same sessions: the vector has the keys in some order and
  the map the place of each.
\<close>

definition lr_ok :: "AdLRBuffer \<Rightarrow> bool" where
  "lr_ok b \<longleftrightarrow> smap_ok (m_mBuffer b) \<and> distinct (m_vBuffer b) \<and>
     length (m_vBuffer b) < 2 ^ 31 \<and> set (m_vBuffer b) = fst ` set (m_mBuffer b) \<and>
     (\<forall>(p, i) \<in> set (m_mBuffer b). unat i < length (m_vBuffer b) \<and> m_vBuffer b ! unat i = p)"

definition lr_sessions :: "AdLRBuffer \<Rightarrow> ptr set" where
  "lr_sessions b = set (m_vBuffer b)"

lemma lr_ok_empty: "lr_ok \<lparr>m_mBuffer = [], m_vBuffer = []\<rparr>"
  by (simp add: lr_ok_def)

lemma set_smap_upd_new:
  "map_of m k = None \<Longrightarrow> set (smap_upd k v m) = insert (k, v) (set m)"
  by (induction k v m rule: smap_upd.induct) (auto split: if_splits)

lemma lr_find_key: "map_of (m_mBuffer b) p = None \<longleftrightarrow> p \<notin> fst ` set (m_mBuffer b)"
  by (simp add: map_of_eq_None_iff)

lemma lr_push_ok:
  assumes ok: "lr_ok b" and "length (m_vBuffer b) + 1 < 2 ^ 31"
  shows "lr_ok (lr_push p b) \<and> lr_sessions (lr_push p b) = insert p (lr_sessions b)"
proof (cases "map_of (m_mBuffer b) p")
  case None
  have u: "unat (of_nat (length (m_vBuffer b)) :: UINT) = length (m_vBuffer b)"
    using assms(2) by (simp add: unat_of_nat)
  have "p \<notin> set (m_vBuffer b)" using None ok by (simp add: lr_find_key lr_ok_def)
  with None ok assms(2) show ?thesis
    by (auto simp: lr_push_def lr_ok_def lr_sessions_def set_smap_upd_new u nth_append less_Suc_eq)
next
  case (Some i)
  then have "p \<in> set (m_vBuffer b)" using ok lr_find_key [of b p] by (simp add: lr_ok_def)
  with Some ok show ?thesis by (auto simp: lr_push_def lr_sessions_def)
qed

lemma lr_renumber_spec:
  assumes "lr_renumber m v = (m', v')" "length v + length m < 2 ^ 31"
  shows "map fst m' = map fst m \<and> v' = v @ map fst m \<and>
    (\<forall>(p, i) \<in> set m'. unat i < length v' \<and> v' ! unat i = p)"
  using assms
proof (induction m v arbitrary: m' v' rule: lr_renumber.induct)
  case (2 p i m v)
  obtain m1 v1 where r: "lr_renumber m (v @ [p]) = (m1, v1)" by fastforce
  with 2 have IH: "map fst m1 = map fst m" "v1 = (v @ [p]) @ map fst m"
    "\<forall>(p, i) \<in> set m1. unat i < length v1 \<and> v1 ! unat i = p" by auto
  have u: "unat (of_nat (length v) :: UINT) = length v" using 2(3) by (simp add: unat_of_nat)
  from 2(2) r have "m' = (p, of_nat (length v)) # m1" "v' = v1" by auto
  with IH u show ?case by (auto simp: nth_append)
qed simp

lemma lr_del_ok:
  assumes ok: "lr_ok b"
  shows "lr_ok (lr_del p b) \<and> lr_sessions (lr_del p b) = lr_sessions b - {p}"
proof (cases "map_of (m_mBuffer b) p")
  case None
  then have "p \<notin> set (m_vBuffer b)" using ok by (simp add: lr_find_key lr_ok_def)
  with None ok show ?thesis by (auto simp: lr_del_def lr_sessions_def)
next
  case (Some i)
  let ?m = "smap_erase p (m_mBuffer b)"
  obtain m' v' where r: "lr_renumber ?m [] = (m', v')" by fastforce
  have sm: "smap_ok (m_mBuffer b)" "smap_ok ?m" using ok by (auto simp: lr_ok_def)
  have keys: "fst ` set ?m = fst ` set (m_mBuffer b) - {p}"
    using sm(1) by (auto simp: smap_mem_iff image_iff fun_eq_iff sm split: if_splits)
  have "length (map fst (m_mBuffer b)) = length (m_vBuffer b)"
    using ok smap_ok_distinct [OF sm(1)] distinct_card [of "m_vBuffer b"]
      distinct_card [of "map fst (m_mBuffer b)"] by (simp add: lr_ok_def)
  moreover have "length (map fst ?m) \<le> length (map fst (m_mBuffer b))"
    using card_mono [of "fst ` set (m_mBuffer b)" "fst ` set ?m"] keys
      distinct_card [OF smap_ok_distinct [OF sm(1)]] distinct_card [OF smap_ok_distinct [OF sm(2)]]
    by auto
  ultimately have len: "length ?m < 2 ^ 31" using ok by (simp add: lr_ok_def)
  from lr_renumber_spec [OF r] len have s: "map fst m' = map fst ?m" "v' = map fst ?m"
    "\<forall>(p, i) \<in> set m'. unat i < length v' \<and> v' ! unat i = p" by auto
  have "smap_ok m'" using sm(2) s(1) by (simp add: smap_ok_def)
  moreover have "set v' = fst ` set m'" "set v' = fst ` set (m_mBuffer b) - {p}"
    using arg_cong [OF s(1), of set] s(2) keys by auto
  moreover have "distinct v'" using smap_ok_distinct [OF sm(2)] s(2) by simp
  ultimately show ?thesis
    using Some r s len ok by (auto simp: lr_del_def lr_ok_def lr_sessions_def)
qed

lemma lr_size_card:
  assumes "lr_ok b"
  shows "lr_size b = int (card (lr_sessions b))"
  using assms distinct_card [OF smap_ok_distinct [of "m_mBuffer b"]]
  by (simp add: lr_size_def lr_sessions_def lr_ok_def)

text \<open>Consecutive ids reach the sessions in turn.\<close>

lemma lr_find_turn:
  assumes "lr_ok b" "m_vBuffer b \<noteq> []" "unat uiId + k < 2 ^ 32"
  shows "lr_find (uiId + of_nat k) b = m_vBuffer b ! ((unat uiId + k) mod length (m_vBuffer b))"
proof -
  let ?n = "length (m_vBuffer b)"
  have n: "?n < 2 ^ 31" using assms(1) by (simp add: lr_ok_def)
  have k: "unat (of_nat k :: UINT) = k" using assms(3) by (simp add: unat_of_nat)
  have "unat (uiId + of_nat k) = unat uiId + k"
    using assms(3) k by (subst unat_add_lem [THEN iffD1]) simp_all
  moreover have "unat (of_nat ?n :: UINT) = ?n" using n by (simp add: unat_of_nat)
  ultimately show ?thesis using assms(2) by (simp add: lr_find_def unat_mod_distrib)
qed

section \<open>The ping-pong buffer\<close>

record 'a AdPingPongBuffer =
  m_ctRequestA :: 'a
  m_ctRequestB :: 'a
  m_bFirst :: bool

definition pp_new :: "'a \<Rightarrow> 'a AdPingPongBuffer" where
  "pp_new d = \<lparr>m_ctRequestA = d, m_ctRequestB = d, m_bFirst = False\<rparr>"

definition pp_GetBack :: "'a AdPingPongBuffer \<Rightarrow> 'a" where
  "pp_GetBack b = (if m_bFirst b then m_ctRequestB b else m_ctRequestA b)"

definition pp_Get :: "bool \<Rightarrow> 'a AdPingPongBuffer \<Rightarrow> 'a" where
  "pp_Get bBack b =
     (if bBack then pp_GetBack b else if m_bFirst b then m_ctRequestA b else m_ctRequestB b)"

text \<open>An assignment through the reference that \<^verbatim>\<open>Get\<close> returns.\<close>

definition pp_set :: "bool \<Rightarrow> ('a \<Rightarrow> 'a) \<Rightarrow> 'a AdPingPongBuffer \<Rightarrow> 'a AdPingPongBuffer" where
  "pp_set bBack f b =
     (if bBack = m_bFirst b then b\<lparr>m_ctRequestB := f (m_ctRequestB b)\<rparr>
      else b\<lparr>m_ctRequestA := f (m_ctRequestA b)\<rparr>)"

definition pp_Switch :: "'a AdPingPongBuffer \<Rightarrow> 'a AdPingPongBuffer" where
  "pp_Switch b = b\<lparr>m_bFirst := \<not> m_bFirst b\<rparr>"

lemma pp_simps [simp]:
  "pp_Get side (pp_set side f b) = f (pp_Get side b)"
  "pp_Get (\<not> side) (pp_set side f b) = pp_Get (\<not> side) b"
  "pp_Get side (pp_Switch b) = pp_Get (\<not> side) b"
  by (auto simp: pp_Get_def pp_GetBack_def pp_set_def pp_Switch_def)

lemma pp_other [simp]:
  "pp_Get False (pp_set True f b) = pp_Get False b"
  "pp_Get True (pp_set False f b) = pp_Get True b"
  by (auto simp: pp_Get_def pp_GetBack_def pp_set_def)


section \<open>Properties\<close>

text \<open>
  C28. Any sequence of \<^verbatim>\<open>tryPush\<close> and \<^verbatim>\<open>tryPop\<close> on a ring buffer of size \<open>n\<close> gives the results
  of a first-in first-out list that holds at most \<open>n - 1\<close> elements, without an access outside
  the vector, and \<^verbatim>\<open>size()\<close> is the number of elements left.
\<close>

theorem ring_refines_list:
  assumes "0 < n" "n < 2 ^ 31"
  shows "\<exists>outs rb. queue_exec tryPush tryPop ps (ring_new dflt n) = Inr (outs, rb) \<and>
    list_queue_run (nat (n - 1)) ps [] = (outs, ring_contents rb) \<and>
    ring_size rb = of_nat (length (ring_contents rb))"
proof -
  have "ring_ok (ring_new dflt n)" "ring_contents (ring_new dflt n) = []"
    using assms by (simp_all add: ring_new_def ring_ok_init)
  moreover have "ring_capacity (ring_new dflt n) = nat (n - 1)"
    by (simp add: ring_capacity_def ring_new_def ring_init_def)
  ultimately show ?thesis
    using ring.exec_refines [of "ring_new dflt n" ps] ring_size_count by fastforce
qed

theorem ring_refines_list_witness:
  "\<exists>outs rb. queue_exec tryPush tryPop [Push ''a'', Push ''b'', Push ''c'', Pop, Push ''d'']
      (ring_new [] 3) = Inr (outs, rb) \<and>
    list_queue_run (nat (3 - 1)) [Push ''a'', Push ''b'', Push ''c'', Pop, Push ''d''] [] =
      (outs, ring_contents rb) \<and> ring_size rb = of_nat (length (ring_contents rb))"
  by (rule ring_refines_list) simp_all

text \<open>
  C29. In the lock-free ring buffer for one reader and one writer, under every interleaving of
  their accesses: what was pushed is what was popped followed by the contents, in order; at
  most \<open>n - 1\<close> elements are held; each access that a thread is about to make stays inside the
  vector; and the counters are the numbers of calls modulo \<open>2 ^ 32\<close>.
\<close>

theorem srsw_fifo:
  assumes "srsw_reachable (srsw_init dflt n) s" "0 < n" "n < 2 ^ 31"
  shows "pushed s = popped s @ ring_contents (shared s) \<and>
    length (ring_contents (shared s)) \<le> nat (n - 1) \<and>
    (\<forall>x. writer s = WReady x \<longrightarrow>
      (\<exists>v. vec_set (m_vRing (shared s)) (m_iWritePosition (shared s)) x = Inr v)) \<and>
    (reader s = RReady \<longrightarrow> (\<exists>x. vec_get (m_vRing (shared s)) (m_iReadPosition (shared s)) = Inr x)) \<and>
    m_uiWriteCount s = of_nat (length (pushed s)) \<and> m_uiReadCount s = of_nat (length (popped s))"
proof -
  have inv: "srsw_inv s"
    by (rule srsw_reachable_inv [OF assms(1) srsw_inv_init [OF assms(2,3)]])
  have "m_iSize (shared s) = n"
    using srsw_size [OF assms(1)] by (simp add: srsw_init_def ring_new_def ring_init_def)
  then show ?thesis
    using inv ring_count_less [of "shared s"]
    by (auto simp: srsw_inv_def ring_ok_def vec_set_def vec_get_def)
qed

theorem srsw_fifo_witness:
  "\<exists>s. srsw_reachable (srsw_init (0 :: nat) 2) s \<and> pushed s = [7] \<and>
    pushed s = popped s @ ring_contents (shared s)"
proof -
  let ?s0 = "srsw_init (0 :: nat) 2"
  let ?s1 = "?s0\<lparr>writer := WReady 7\<rparr>"
  let ?s2 = "?s1\<lparr>writer := WStored 7, shared := (shared ?s1)\<lparr>m_vRing := [7, 0]\<rparr>\<rparr>"
  let ?s3 = "?s2\<lparr>writer := WPushed, shared := (shared ?s2)\<lparr>m_iWritePosition := 1\<rparr>,
    pushed := pushed ?s2 @ [7], m_uiWriteCount := m_uiWriteCount ?s2 + 1\<rparr>"
  note init = srsw_init_def ring_new_def ring_init_def
  have ok: "ring_ok (shared ?s0)" by (simp add: init ring_ok_def)
  have "srsw_step ?s0 ?s1"
    using ring_full_ok [OF ok]
    unfolding srsw_step_def by (intro disjI1 push_check) (simp_all add: init ring_count_def ring_capacity_def)
  moreover have "srsw_step ?s1 ?s2"
    unfolding srsw_step_def by (intro disjI1 push_store) (simp_all add: init vec_set_def numeral_eq_Suc)
  moreover have "srsw_step ?s2 ?s3"
    unfolding srsw_step_def by (intro disjI1 push_advance) (simp_all add: init ring_next_def add_int_def rem_int_ok)
  ultimately have "srsw_reachable ?s0 ?s3" by (meson srsw_reachable.intros)
  moreover from srsw_fifo [OF this] have "pushed ?s3 = popped ?s3 @ ring_contents (shared ?s3)" by simp
  moreover have "pushed ?s3 = [7]" by (simp add: init)
  ultimately show ?thesis by blast
qed

text \<open>
  C31. \<^verbatim>\<open>push\<close> and \<^verbatim>\<open>del\<close> of the loop-read buffer add and remove one session, keep the map and
  the vector consistent, and as many consecutive ids as there are sessions reach every
  session exactly once.
\<close>

theorem lr_round_robin:
  assumes "lr_ok b" "length (m_vBuffer b) + 1 < 2 ^ 31" "unat uiId + length (m_vBuffer b) \<le> 2 ^ 32"
  shows "lr_ok (lr_push p b) \<and> lr_sessions (lr_push p b) = insert p (lr_sessions b) \<and>
    lr_ok (lr_del p b) \<and> lr_sessions (lr_del p b) = lr_sessions b - {p} \<and>
    (lr_check p b \<longleftrightarrow> p \<in> lr_sessions b) \<and> lr_size b = int (card (lr_sessions b)) \<and>
    map (\<lambda>k. lr_find (uiId + of_nat k) b) [0..<length (m_vBuffer b)] =
      rotate (unat uiId) (m_vBuffer b)"
proof -
  have "map (\<lambda>k. lr_find (uiId + of_nat k) b) [0..<length (m_vBuffer b)] =
      rotate (unat uiId) (m_vBuffer b)"
  proof (rule nth_equalityI)
    fix i assume i: "i < length (map (\<lambda>k. lr_find (uiId + of_nat k) b) [0..<length (m_vBuffer b)])"
    then have "m_vBuffer b \<noteq> []" "unat uiId + i < 2 ^ 32" using assms(3) by auto
    from lr_find_turn [OF assms(1) this] i
    show "map (\<lambda>k. lr_find (uiId + of_nat k) b) [0..<length (m_vBuffer b)] ! i =
      rotate (unat uiId) (m_vBuffer b) ! i"
      by (simp add: nth_rotate)
  qed simp
  moreover have "lr_check p b \<longleftrightarrow> p \<in> lr_sessions b"
    using lr_find_key [of b p] assms(1) by (simp add: lr_check_def lr_sessions_def lr_ok_def)
  ultimately show ?thesis
    using lr_push_ok [OF assms(1,2)] lr_del_ok [OF assms(1)] lr_size_card [OF assms(1)] by simp
qed

theorem lr_round_robin_witness:
  "map (\<lambda>k. lr_find (5 + of_nat k) \<lparr>m_mBuffer = [(8, 0), (9, 1)], m_vBuffer = [8, 9]\<rparr>) [0..<2] = [9, 8]"
proof -
  let ?b = "\<lparr>m_mBuffer = [(8, 0), (9, 1)], m_vBuffer = [8, 9]\<rparr>"
  have 1: "lr_ok ?b" "length (m_vBuffer ?b) + 1 < 2 ^ 31" "unat (5 :: UINT) + length (m_vBuffer ?b) \<le> 2 ^ 32"
    by (simp_all add: lr_ok_def)
  have "map (\<lambda>k. lr_find (5 + of_nat k) ?b) [0..<length (m_vBuffer ?b)] = rotate (unat (5 :: UINT)) (m_vBuffer ?b)"
    using lr_round_robin [OF 1, of 8] by blast
  also have "\<dots> = [9, 8]"
  proof -
    have "unat (5 :: UINT) = 5" "length (m_vBuffer ?b) = 2" "(5 :: nat) mod 2 = 1" by simp_all
    then show ?thesis by (subst rotate_conv_mod) (simp only:, simp)
  qed
  finally have "map (\<lambda>k. lr_find (5 + of_nat k) ?b) [0..<length (m_vBuffer ?b)] = [9, 8]" .
  moreover have "length (m_vBuffer ?b) = 2" by simp
  ultimately show ?thesis by (simp only:)
qed

end
