(* ===== verification/AdBuffLive.thy ===== *)
theory AdBuffLive
  imports AdBuff
begin

text \<open>
  Progress of the lock-free ring buffer of \<^verbatim>\<open>libutil/inc/AdBuff.h\<close>, in infinite runs of the steps of \<open>AdBuff\<close>. The reader
  checks outside the lock whether the buffer is empty, and a signal that comes before it waits is lost. A reader that
  waits with a time limit, as the worker task does, gets every element all the same; one that waits without, as the
  write task does, may sleep on an element until the next push.
\<close>

section \<open>Runs\<close>

text \<open>
  The reader's thread has to go on: it is not blocked, or it is blocked with a time limit. That a wait without a limit
  returns without a signal is possible, but nothing to rely on. In a fair run a thread that has to go on does so.
\<close>

definition reader_due :: "bool \<Rightarrow> 'a AdRingBufferSRSW \<Rightarrow> bool" where
  "reader_due timed s \<longleftrightarrow> (reader s = RWaiting \<longrightarrow> timed) \<and> (\<exists>t. srsw_read s t)"

definition fair_run :: "bool \<Rightarrow> (nat \<Rightarrow> 'a AdRingBufferSRSW) \<Rightarrow> bool" where
  "fair_run timed \<sigma> \<longleftrightarrow> (\<forall>i. srsw_step (\<sigma> i) (\<sigma> (Suc i)) \<or> \<sigma> (Suc i) = \<sigma> i) \<and>
     (\<forall>i. (\<forall>j \<ge> i. reader_due timed (\<sigma> j)) \<longrightarrow> (\<exists>j \<ge> i. srsw_read (\<sigma> j) (\<sigma> (Suc j))))"

text \<open>The writer finishes a push, and signals, again and again.\<close>

definition pushes_on :: "(nat \<Rightarrow> 'a AdRingBufferSRSW) \<Rightarrow> bool" where
  "pushes_on \<sigma> \<longleftrightarrow> (\<forall>i. \<exists>j \<ge> i. writer (\<sigma> j) = WPushed \<and> writer (\<sigma> (Suc j)) = WIdle)"

lemma fair_step: "fair_run timed \<sigma> \<Longrightarrow> srsw_step (\<sigma> i) (\<sigma> (Suc i)) \<or> \<sigma> (Suc i) = \<sigma> i"
  by (simp add: fair_run_def)

lemma run_inv: "fair_run timed \<sigma> \<Longrightarrow> srsw_inv (\<sigma> 0) \<Longrightarrow> srsw_inv (\<sigma> i)"
  by (induction i) (metis fair_step srsw_inv_step)+

lemma step_pushed: "srsw_step s t \<Longrightarrow> \<exists>xs. pushed t = pushed s @ xs"
  by (auto simp: srsw_step_def elim: srsw_write.cases srsw_read.cases)

lemma run_pushed: "fair_run timed \<sigma> \<Longrightarrow> i \<le> j \<Longrightarrow> \<exists>xs. pushed (\<sigma> j) = pushed (\<sigma> i) @ xs"
proof (induction j)
  case (Suc j)
  show ?case
  proof (cases "i = Suc j")
    case False
    with Suc obtain xs where "pushed (\<sigma> j) = pushed (\<sigma> i) @ xs" by auto
    with fair_step [OF Suc.prems(1), of j] step_pushed [of "\<sigma> j" "\<sigma> (Suc j)"] show ?thesis
      by (metis append.assoc)
  qed simp
qed simp

section \<open>The reader comes closer\<close>

text \<open>The steps of the reader until it has popped the element \<open>k\<close>, when the buffer is not empty again.\<close>

definition stage :: "'a reader_pc \<Rightarrow> nat" where
  "stage pc = (case pc of REmpty \<Rightarrow> 0 | RWaiting \<Rightarrow> 1 | RPopped \<Rightarrow> 1 | RIdle \<Rightarrow> 2 | RReady \<Rightarrow> 3 | RLoaded _ \<Rightarrow> 4)"

definition distance :: "nat \<Rightarrow> 'a AdRingBufferSRSW \<Rightarrow> nat" where
  "distance k s = 5 * (Suc k - length (popped s)) - stage (reader s)"

lemma write_distance: "srsw_write s t \<Longrightarrow> length (popped s) \<le> k \<Longrightarrow>
    distance k t \<le> distance k s \<and> (reader t \<noteq> reader s \<longrightarrow> distance k t < distance k s)"
  by (induction rule: srsw_write.induct) (auto simp: distance_def stage_def wake_reader_def split: reader_pc.split)

lemma read_distance:
  "srsw_read s t \<Longrightarrow> length (popped s) \<le> k \<Longrightarrow> \<not> ring_empty (shared s) \<Longrightarrow> distance k t < distance k s"
  by (induction rule: srsw_read.induct) (auto simp: distance_def stage_def)

lemma read_moves: "srsw_read s t \<Longrightarrow> reader t \<noteq> reader s"
  by (induction rule: srsw_read.induct) auto

lemma step_distance:
  assumes "srsw_step s t \<or> t = s" "length (popped s) \<le> k" "\<not> ring_empty (shared s)"
  shows "distance k t \<le> distance k s \<and> (reader t \<noteq> reader s \<longrightarrow> distance k t < distance k s)"
  using assms write_distance [of s t k] read_distance [of s t k] by (auto simp: srsw_step_def)

lemma not_empty: "srsw_inv s \<Longrightarrow> length (popped s) < length (pushed s) \<Longrightarrow> \<not> ring_empty (shared s)"
  by (auto simp: srsw_inv_def ring_empty_iff dest: arg_cong [of "pushed s" _ length])

text \<open>The reader always can make a step.\<close>

lemma reader_can:
  assumes "srsw_inv s"
  shows "\<exists>t. srsw_read s t"
proof -
  have ok: "ring_ok (shared s)" using assms by (simp add: srsw_inv_def)
  show ?thesis
  proof (cases "reader s")
    case RIdle
    then show ?thesis using pop_check [of s] pop_empty [of s] by blast
  next
    case RReady
    obtain x where "vec_get (m_vRing (shared s)) (m_iReadPosition (shared s)) = Inr x"
      using ok by (auto simp: ring_ok_def vec_get_def)
    with RReady show ?thesis by (blast intro: pop_load)
  next
    case (RLoaded x)
    obtain r where "ring_next (m_iReadPosition (shared s)) (shared s) = Inr r"
      using ok by (simp add: ring_next_ok ring_ok_def)
    with RLoaded show ?thesis by (blast intro: pop_advance)
  qed (blast intro: pop_wait pop_return pop_wake)+
qed

lemma write_wakes: "srsw_write s t \<Longrightarrow> writer s = WPushed \<Longrightarrow> reader t = wake_reader (reader s)"
  by (induction rule: srsw_write.induct) auto

text \<open>The reader goes on, by itself or because it is woken.\<close>

lemma reader_moves:
  assumes "fair_run timed \<sigma>" "srsw_inv (\<sigma> 0)" "timed \<or> pushes_on \<sigma>"
  shows "\<exists>j \<ge> i. reader (\<sigma> (Suc j)) \<noteq> reader (\<sigma> j)"
proof (rule ccontr)
  assume "\<not> (\<exists>j \<ge> i. reader (\<sigma> (Suc j)) \<noteq> reader (\<sigma> j))"
  then have same: "\<forall>j \<ge> i. reader (\<sigma> (Suc j)) = reader (\<sigma> j)" by blast
  have stays: "reader (\<sigma> j) = reader (\<sigma> i)" if "i \<le> j" for j
    using that same by (induction rule: dec_induct) auto
  show False
  proof (cases "reader (\<sigma> i) = RWaiting \<and> \<not> timed")
    case True
    then obtain j where j: "i \<le> j" "writer (\<sigma> j) = WPushed" "writer (\<sigma> (Suc j)) = WIdle"
      using assms(3) by (auto simp: pushes_on_def)
    have waits: "reader (\<sigma> j) = RWaiting" using stays [OF j(1)] True by simp
    have "srsw_step (\<sigma> j) (\<sigma> (Suc j))" using fair_step [OF assms(1), of j] j by auto
    then have "srsw_write (\<sigma> j) (\<sigma> (Suc j)) \<or> reader (\<sigma> (Suc j)) \<noteq> reader (\<sigma> j)"
      by (auto simp: srsw_step_def dest: read_moves)
    moreover have "srsw_write (\<sigma> j) (\<sigma> (Suc j)) \<Longrightarrow> reader (\<sigma> (Suc j)) = RIdle"
      using write_wakes [of "\<sigma> j" "\<sigma> (Suc j)"] j(2) waits by (simp add: wake_reader_def)
    ultimately show False using same j(1) waits by auto
  next
    case False
    have "reader_due timed (\<sigma> j)" if "i \<le> j" for j
      using False stays [OF that] reader_can [OF run_inv [OF assms(1,2), of j]] unfolding reader_due_def by metis
    then obtain j where "i \<le> j" "srsw_read (\<sigma> j) (\<sigma> (Suc j))" using assms(1) unfolding fair_run_def by blast
    with same read_moves show False by blast
  qed
qed

section \<open>Delivery\<close>

lemma eventually_popped:
  assumes "fair_run timed \<sigma>" "srsw_inv (\<sigma> 0)" "timed \<or> pushes_on \<sigma>"
  shows "k < length (pushed (\<sigma> i)) \<Longrightarrow> \<exists>j \<ge> i. k < length (popped (\<sigma> j))"
proof (induction "distance k (\<sigma> i)" arbitrary: i rule: less_induct)
  case less
  show ?case
  proof (rule ccontr)
    assume "\<not> (\<exists>j \<ge> i. k < length (popped (\<sigma> j)))"
    then have waits: "\<forall>j \<ge> i. length (popped (\<sigma> j)) \<le> k" by (simp add: not_less)
    have pushed: "k < length (pushed (\<sigma> j))" if "i \<le> j" for j
      using run_pushed [OF assms(1) that] less.prems by auto
    have closer: "distance k (\<sigma> (Suc j)) \<le> distance k (\<sigma> j) \<and>
        (reader (\<sigma> (Suc j)) \<noteq> reader (\<sigma> j) \<longrightarrow> distance k (\<sigma> (Suc j)) < distance k (\<sigma> j))" if "i \<le> j" for j
      using step_distance [OF fair_step [OF assms(1)]] not_empty [OF run_inv [OF assms(1,2)]] waits pushed that
      by (meson le_less_trans)
    obtain j where j: "i \<le> j" "reader (\<sigma> (Suc j)) \<noteq> reader (\<sigma> j)" using reader_moves [OF assms] by blast
    have "distance k (\<sigma> j) \<le> distance k (\<sigma> i)"
      using j(1) by (induction rule: dec_induct) (use closer le_trans in blast)+
    with closer [OF j(1)] j(2) have "distance k (\<sigma> (Suc j)) < distance k (\<sigma> i)" by simp
    then have "\<exists>j' \<ge> Suc j. k < length (popped (\<sigma> j'))" using less.hyps pushed [of "Suc j"] j(1) by simp
    with waits j(1) show False by (meson Suc_leD le_trans not_less)
  qed
qed

text \<open>
  C30. Nothing that was pushed stays in the lock-free ring buffer, whatever the signals that are lost between the check
  and the wait: in every run in which the thread of the reader goes on whenever it is not blocked, and in which it waits
  with a time limit or else the writer finishes a push again and again, each element arrives at the reader, unchanged
  and in its place.
\<close>

theorem srsw_delivers:
  assumes "fair_run timed \<sigma>" "\<sigma> 0 = srsw_init dflt n" "0 < n" "n < 2 ^ 31" "timed \<or> pushes_on \<sigma>"
    and "k < length (pushed (\<sigma> i))"
  shows "\<exists>j \<ge> i. k < length (popped (\<sigma> j)) \<and> popped (\<sigma> j) ! k = pushed (\<sigma> i) ! k"
proof -
  have inv: "srsw_inv (\<sigma> 0)" unfolding assms(2) by (rule srsw_inv_init [OF assms(3,4)])
  from eventually_popped [OF assms(1) inv assms(5,6)] obtain j where j: "i \<le> j" "k < length (popped (\<sigma> j))" by blast
  obtain xs where "pushed (\<sigma> j) = pushed (\<sigma> i) @ xs" using run_pushed [OF assms(1) j(1)] by blast
  moreover have "pushed (\<sigma> j) = popped (\<sigma> j) @ ring_contents (shared (\<sigma> j))"
    using run_inv [OF assms(1) inv, of j] by (simp add: srsw_inv_def)
  ultimately have "popped (\<sigma> j) ! k = pushed (\<sigma> i) ! k" using assms(6) j(2) by (metis nth_append)
  with j show ?thesis by blast
qed

section \<open>Two runs\<close>

text \<open>
  The writer pushes 7 after the reader has found the buffer empty and before it waits: the signal is lost. With a time
  limit the reader returns, pops 7, and waits again and again.
\<close>

definition demo_state_of :: "nat list \<Rightarrow> int \<Rightarrow> int \<Rightarrow> nat writer_pc \<Rightarrow> nat reader_pc \<Rightarrow> nat list \<Rightarrow> nat list \<Rightarrow> nat AdRingBufferSRSW" where
  "demo_state_of ring r w wr rd pu po = \<lparr>shared = (ring_new 0 2)\<lparr>m_vRing := ring, m_iReadPosition := r, m_iWritePosition := w\<rparr>,
     writer = wr, reader = rd, pushed = pu, popped = po, m_uiReadCount = of_nat (length po), m_uiWriteCount = of_nat (length pu)\<rparr>"

definition demo_states :: "nat AdRingBufferSRSW list" where
  "demo_states =
    [demo_state_of [0, 0] 0 0 WIdle RIdle [] [],
     demo_state_of [0, 0] 0 0 WIdle REmpty [] [],
     demo_state_of [0, 0] 0 0 (WReady 7) REmpty [] [],
     demo_state_of [7, 0] 0 0 (WStored 7) REmpty [] [],
     demo_state_of [7, 0] 0 1 WPushed REmpty [7] [],
     demo_state_of [7, 0] 0 1 WIdle REmpty [7] [],
     demo_state_of [7, 0] 0 1 WIdle RWaiting [7] [],
     demo_state_of [7, 0] 0 1 WIdle RIdle [7] [],
     demo_state_of [7, 0] 0 1 WIdle RReady [7] [],
     demo_state_of [7, 0] 0 1 WIdle (RLoaded 7) [7] [],
     demo_state_of [7, 0] 1 1 WIdle RPopped [7] [7],
     demo_state_of [7, 0] 1 1 WIdle RIdle [7] [7],
     demo_state_of [7, 0] 1 1 WIdle REmpty [7] [7],
     demo_state_of [7, 0] 1 1 WIdle RWaiting [7] [7]]"

lemmas demo_state_defs = demo_state_of_def ring_new_def ring_init_def

lemma ring_full_demo: "ring_full (shared (demo_state_of [0, 0] 0 0 WIdle REmpty [] [])) = Inr False"
  by (simp add: demo_state_defs ring_full_def add_int_def rem_int_ok ring_next_def)

text \<open>The first steps, up to the wait.\<close>

lemma demo_first_steps:
  "srsw_read (demo_states ! 0) (demo_states ! 1)" "srsw_write (demo_states ! 1) (demo_states ! 2)"
  "srsw_write (demo_states ! 2) (demo_states ! 3)" "srsw_write (demo_states ! 3) (demo_states ! 4)"
  "srsw_write (demo_states ! 4) (demo_states ! 5)" "srsw_read (demo_states ! 5) (demo_states ! 6)"
proof -
  note d = demo_states_def demo_state_defs
  show "srsw_read (demo_states ! 0) (demo_states ! 1)"
    using pop_empty [of "demo_states ! 0"] by (simp add: d ring_empty_def)
  show "srsw_write (demo_states ! 1) (demo_states ! 2)"
    using push_check [of "demo_states ! 1" 7] ring_full_demo by (simp add: d)
  show "srsw_write (demo_states ! 2) (demo_states ! 3)"
    using push_store [of "demo_states ! 2" 7 "[7, 0]"] by (simp add: d vec_set_def numeral_eq_Suc)
  show "srsw_write (demo_states ! 3) (demo_states ! 4)"
    using push_advance [of "demo_states ! 3" 7 1]
    by (simp add: d ring_next_def add_int_def rem_int_ok numeral_eq_Suc)
  show "srsw_write (demo_states ! 4) (demo_states ! 5)"
    using push_wake [of "demo_states ! 4"] by (simp add: d wake_reader_def numeral_eq_Suc)
  show "srsw_read (demo_states ! 5) (demo_states ! 6)"
    using pop_wait [of "demo_states ! 5"] by (simp add: d numeral_eq_Suc)
qed

text \<open>The steps of the reader after its wait has returned, and the cycle of an idle reader.\<close>

lemma demo_last_steps:
  "srsw_read (demo_states ! 6) (demo_states ! 7)" "srsw_read (demo_states ! 7) (demo_states ! 8)"
  "srsw_read (demo_states ! 8) (demo_states ! 9)" "srsw_read (demo_states ! 9) (demo_states ! 10)"
  "srsw_read (demo_states ! 10) (demo_states ! 11)" "srsw_read (demo_states ! 11) (demo_states ! 12)"
  "srsw_read (demo_states ! 12) (demo_states ! 13)" "srsw_read (demo_states ! 13) (demo_states ! 11)"
proof -
  note d = demo_states_def demo_state_defs numeral_eq_Suc
  show "srsw_read (demo_states ! 6) (demo_states ! 7)" using pop_return [of "demo_states ! 6"] by (simp add: d)
  show "srsw_read (demo_states ! 7) (demo_states ! 8)"
    using pop_check [of "demo_states ! 7"] by (simp add: d ring_empty_def)
  show "srsw_read (demo_states ! 8) (demo_states ! 9)"
    using pop_load [of "demo_states ! 8" 7] by (simp add: d vec_get_def)
  show "srsw_read (demo_states ! 9) (demo_states ! 10)"
    using pop_advance [of "demo_states ! 9" 7 1]
    by (simp add: demo_states_def demo_state_defs ring_next_def add_int_def rem_int_ok numeral_eq_Suc)
  show "srsw_read (demo_states ! 10) (demo_states ! 11)"
    using pop_wake [of "demo_states ! 10"] by (simp add: d wake_writer_def)
  show "srsw_read (demo_states ! 11) (demo_states ! 12)"
    using pop_empty [of "demo_states ! 11"] by (simp add: d ring_empty_def)
  show "srsw_read (demo_states ! 12) (demo_states ! 13)" using pop_wait [of "demo_states ! 12"] by (simp add: d)
  show "srsw_read (demo_states ! 13) (demo_states ! 11)" using pop_return [of "demo_states ! 13"] by (simp add: d)
qed

lemma demo_start: "demo_states ! 0 = srsw_init 0 2"
  by (simp add: demo_states_def demo_state_defs srsw_init_def numeral_eq_Suc)

primrec demo_index :: "nat \<Rightarrow> nat" where
  "demo_index 0 = 0"
| "demo_index (Suc i) = (if demo_index i < 13 then Suc (demo_index i) else 11)"

lemma demo_index_le: "demo_index i \<le> 13"
  by (induction i) auto

lemma demo_index_late: "demo_index (i + 6) \<ge> 6"
  by (induction i) (auto simp: numeral_eq_Suc)

definition demo_timed :: "nat \<Rightarrow> nat AdRingBufferSRSW" where
  "demo_timed i = demo_states ! demo_index i"

lemma demo_timed_step: "srsw_step (demo_timed i) (demo_timed (Suc i)) \<and>
    (6 \<le> demo_index i \<longrightarrow> srsw_read (demo_timed i) (demo_timed (Suc i)))"
proof -
  have "demo_index i = 0 \<or> demo_index i = 1 \<or> demo_index i = 2 \<or> demo_index i = 3 \<or> demo_index i = 4 \<or>
      demo_index i = 5 \<or> demo_index i = 6 \<or> demo_index i = 7 \<or> demo_index i = 8 \<or> demo_index i = 9 \<or>
      demo_index i = 10 \<or> demo_index i = 11 \<or> demo_index i = 12 \<or> demo_index i = 13"
    using demo_index_le [of i] by (auto simp: le_Suc_eq numeral_eq_Suc)
  then show ?thesis
    using demo_first_steps demo_last_steps
    by (elim disjE) (simp_all add: demo_timed_def srsw_step_def numeral_eq_Suc)
qed

lemma demo_timed_fair: "fair_run True demo_timed"
  unfolding fair_run_def using demo_timed_step demo_index_late le_add1 by blast

theorem srsw_delivers_witness:
  "fair_run True demo_timed \<and> reader (demo_timed 6) = RWaiting \<and>
   (\<exists>j \<ge> 6. 0 < length (popped (demo_timed j)) \<and> popped (demo_timed j) ! 0 = pushed (demo_timed 6) ! 0)"
proof -
  have init: "demo_timed 0 = srsw_init 0 2" by (simp add: demo_timed_def demo_start)
  have six: "demo_timed 6 = demo_state_of [7, 0] 0 1 WIdle RWaiting [7] []"
    by (simp add: demo_timed_def demo_states_def numeral_eq_Suc)
  then have "0 < length (pushed (demo_timed 6))" "reader (demo_timed 6) = RWaiting"
    by (simp_all add: demo_state_of_def)
  with srsw_delivers [OF demo_timed_fair init _ _ _ this(1)] demo_timed_fair show ?thesis by simp
qed

text \<open>
  The lost wake-up. Without a time limit the same run is fair although it rests after the wait: 7 stays in the buffer for
  ever, and the reader sleeps. The write task pops in this way.
\<close>

definition demo_untimed :: "nat \<Rightarrow> nat AdRingBufferSRSW" where
  "demo_untimed i = demo_states ! min i 6"

theorem srsw_wakeup_lost:
  "fair_run False demo_untimed \<and> demo_untimed 0 = srsw_init 0 2 \<and>
   (\<forall>i \<ge> 6. pushed (demo_untimed i) = [7] \<and> popped (demo_untimed i) = [] \<and>
      writer (demo_untimed i) = WIdle \<and> reader (demo_untimed i) = RWaiting)"
proof (intro conjI allI impI)
  have waits: "demo_untimed i = demo_state_of [7, 0] 0 1 WIdle RWaiting [7] []" if "6 \<le> i" for i
    using that by (simp add: demo_untimed_def min_def demo_states_def numeral_eq_Suc)
  have "srsw_step (demo_untimed i) (demo_untimed (Suc i)) \<or> demo_untimed (Suc i) = demo_untimed i" for i
  proof (cases "i < 6")
    case True
    then have "i = 0 \<or> i = 1 \<or> i = 2 \<or> i = 3 \<or> i = 4 \<or> i = 5" by linarith
    then show ?thesis
      using demo_first_steps by (elim disjE) (simp_all add: demo_untimed_def srsw_step_def numeral_eq_Suc)
  qed (simp add: waits)
  moreover have "\<not> (\<forall>j \<ge> i. reader_due False (demo_untimed j))" for i
    using waits [of "i + 6"] by (auto simp: reader_due_def demo_state_of_def intro!: exI [of _ "i + 6"])
  ultimately show "fair_run False demo_untimed" unfolding fair_run_def by blast
  show "demo_untimed 0 = srsw_init 0 2" by (simp add: demo_untimed_def demo_start)
  fix i :: nat assume "6 \<le> i"
  from waits [OF this] show "pushed (demo_untimed i) = [7]" "popped (demo_untimed i) = []"
    "writer (demo_untimed i) = WIdle" "reader (demo_untimed i) = RWaiting"
    by (simp_all add: demo_state_of_def)
qed

end
