(* ===== verification/AdPlanningUnit.thy ===== *)
theory AdPlanningUnit
  imports Complex_Main AdPrelude
begin

text \<open>
  The planning data of \<^verbatim>\<open>ibidding/engine/inc/AdPlanningData.h\<close>: an order with its targeting, its
  creatives and its marks is one \<open>AdPlanningUnit\<close>. Fields whose names two classes share carry
  a letter of the class (\<open>m_c_\<close>, \<open>m_au_\<close>, \<open>m_mk_\<close>). A \<^verbatim>\<open>std::map\<close> is the list of its entries in
  the order of the keys. A \<^verbatim>\<open>double\<close> that is only copied is a rational number. The pointers
  \<^verbatim>\<open>m_pltBanPidList\<close> and \<^verbatim>\<open>m_pAdvancedPrice\<close> are options of what they point to; \<open>AdPlanningData\<close> says when that
  is gone in the code.
\<close>

abbreviation AD_ORDER_CPM :: UINT where "AD_ORDER_CPM \<equiv> 1"
abbreviation AD_ORDER_CPC :: UINT where "AD_ORDER_CPC \<equiv> 2"
abbreviation AD_ORDER_NICE :: UINT where "AD_ORDER_NICE \<equiv> 1"
abbreviation AD_ORDER_BASE :: UINT where "AD_ORDER_BASE \<equiv> 2"
abbreviation AD_ORDER_AUDIENCE :: UINT where "AD_ORDER_AUDIENCE \<equiv> 3"
abbreviation AD_MARK_PUBLIC :: UINT where "AD_MARK_PUBLIC \<equiv> 1"
abbreviation AD_MARK_PRIVATE :: UINT where "AD_MARK_PRIVATE \<equiv> 2"
abbreviation AD_KEYS_ACC_CUS :: UINT where "AD_KEYS_ACC_CUS \<equiv> 3"
abbreviation AD_KEYS_DIM_CUS :: UINT where "AD_KEYS_DIM_CUS \<equiv> 4"
abbreviation AD_PID_MODE_ALL :: UINT where "AD_PID_MODE_ALL \<equiv> 1"
abbreviation AD_PID_MODE_FIXED :: UINT where "AD_PID_MODE_FIXED \<equiv> 2"
abbreviation AD_PID_MODE_OTHER :: UINT where "AD_PID_MODE_OTHER \<equiv> 3"
abbreviation AD_WEEK_DAYS :: nat where "AD_WEEK_DAYS \<equiv> 7"
abbreviation AD_DAY_HOURS :: nat where "AD_DAY_HOURS \<equiv> 24"

type_synonym DOUBLE = rat

record AdOrderInfo =
  m_uiAdvertiser :: UINT
  m_uiExecuteId :: UINT
  m_uiTotalBudget :: UINT
  m_uiTargetPriceType :: UINT
  m_uiTargetPrice :: UINT
  m_uiLimitePrice :: UINT
  m_uiBidmode :: UINT
  m_uiTimeType :: UINT
  m_uiFrequency :: UINT
  m_uiTimeStamp :: UINT
  m_uiNice :: UINT
  m_ltAdViewScreen :: "UINT list"
  m_ltAdViewType :: "UINT list"
  m_sTanxAdId :: string
  m_ltBanId :: "UINT list"
  m_ltBanContent :: "string list"
  m_uiCtrType :: UINT
  m_dMinCtr :: DOUBLE

definition clear_order :: AdOrderInfo where
  "clear_order =
    \<lparr>m_uiAdvertiser = 0, m_uiExecuteId = 0, m_uiTotalBudget = 0, m_uiTargetPriceType = 0,
     m_uiTargetPrice = 0, m_uiLimitePrice = 0, m_uiBidmode = 0, m_uiTimeType = 0,
     m_uiFrequency = 0, m_uiTimeStamp = 0, m_uiNice = 0, m_ltAdViewScreen = [],
     m_ltAdViewType = [], m_sTanxAdId = [], m_ltBanId = [], m_ltBanContent = [],
     m_uiCtrType = 0, m_dMinCtr = 0\<rparr>"

record AdMobileInfo =
  m_bEnable :: bool
  m_ltOperator :: "UINT list"
  m_ltDeviceType :: "UINT list"
  m_ltConnectType :: "UINT list"
  m_ltUserAgentType :: "UINT list"

definition clear_mobile :: AdMobileInfo where
  "clear_mobile = \<lparr>m_bEnable = False, m_ltOperator = [], m_ltDeviceType = [], m_ltConnectType = [],
     m_ltUserAgentType = []\<rparr>"

record AdPidInfo =
  m_uiAdxId :: UINT
  m_uiMode :: UINT
  m_ltPidList :: "string list"

definition clear_pid :: AdPidInfo where
  "clear_pid = \<lparr>m_uiAdxId = 0, m_uiMode = 0, m_ltPidList = []\<rparr>"

record AdTimeDay =
  m_uiWeek :: UINT
  m_uiBudget :: UINT
  m_uiHour :: UINT

record AdTime =
  bPush :: bool
  m_sStart :: string
  m_sStop :: string
  m_stDay :: "AdTimeDay list"

definition clear_time :: AdTime where
  "clear_time = \<lparr>bPush = False, m_sStart = [], m_sStop = [],
     m_stDay = replicate AD_WEEK_DAYS \<lparr>m_uiWeek = 0, m_uiBudget = 0, m_uiHour = 0\<rparr>\<rparr>"

record AdTargetAudience =
  m_ltArea :: "string list"

record AdMaterialInfo =
  m_uiFormat :: UINT
  m_uiVideoTime :: UINT
  m_uiCreativeType :: UINT
  m_uiWidth :: UINT
  m_uiHeight :: UINT
  m_sCategory :: string
  m_sUuId :: string
  m_sCreateId :: string
  m_sMaterialId :: string
  m_sMaterialUrl :: string
  m_sMraidMaterialUrl :: string
  m_sClickUrl :: string
  m_sDestinationUrl :: string
  m_ltMonitorUrl :: "string list"

definition clear_material :: AdMaterialInfo where
  "clear_material =
    \<lparr>m_uiFormat = 0, m_uiVideoTime = 0, m_uiCreativeType = 0, m_uiWidth = 0, m_uiHeight = 0,
     m_sCategory = [], m_sUuId = [], m_sCreateId = [], m_sMaterialId = [], m_sMaterialUrl = [],
     m_sMraidMaterialUrl = [], m_sClickUrl = [], m_sDestinationUrl = [], m_ltMonitorUrl = []\<rparr>"

record AdCreativeInfo =
  m_sCreativeGroupId :: string
  m_sAdxId :: string
  m_sSensitiveCategory :: string
  m_c_sCategory :: string
  m_ltMaterials :: "AdMaterialInfo list"

definition clear_creative :: AdCreativeInfo where
  "clear_creative = \<lparr>m_sCreativeGroupId = [], m_sAdxId = [], m_sSensitiveCategory = [],
     m_c_sCategory = [], m_ltMaterials = []\<rparr>"

record AdAdvancedPrice =
  m_sPID :: string
  m_iType :: int
  m_iAdxId :: int
  m_iEpv :: int
  m_iEprice :: int
  m_iExecId :: int

definition clear_advanced :: AdAdvancedPrice where
  "clear_advanced = \<lparr>m_sPID = [], m_iType = 0, m_iAdxId = 0, m_iEpv = 0, m_iEprice = 0,
     m_iExecId = 0\<rparr>"

abbreviation AD_AUDIENCE_UNVISIT :: int where "AD_AUDIENCE_UNVISIT \<equiv> 0"
abbreviation AD_AUDIENCE_VISIT :: int where "AD_AUDIENCE_VISIT \<equiv> 1"
abbreviation AD_AUDIENCE_SEARCH :: int where "AD_AUDIENCE_SEARCH \<equiv> 2"
abbreviation AD_AUDIENCE_MERGE_AND :: UINT where "AD_AUDIENCE_MERGE_AND \<equiv> 1"
abbreviation AD_AUDIENCE_MERGE_OR :: UINT where "AD_AUDIENCE_MERGE_OR \<equiv> 0"

record AdAudienceNode =
  m_au_uiType :: UINT
  m_sAudienceID :: string
  m_mSearch :: "(string \<times> UINT) list"
  m_mVisit :: "(string \<times> UINT) list"
  m_mUnVisit :: "(string \<times> UINT) list"

definition clear_audience :: AdAudienceNode where
  "clear_audience = \<lparr>m_au_uiType = 0, m_sAudienceID = [], m_mSearch = [], m_mVisit = [],
     m_mUnVisit = []\<rparr>"

record AdMarkNode =
  m_mk_uiType :: UINT
  m_sKey :: string

definition clear_mark :: AdMarkNode where
  "clear_mark = \<lparr>m_mk_uiType = 0, m_sKey = []\<rparr>"

record AdPlanningUnit =
  m_stOrder :: AdOrderInfo
  m_stMobile :: AdMobileInfo
  m_stTime :: AdTime
  m_stTargetAudience :: AdTargetAudience
  m_mCreativeInfo :: "(UINT \<times> AdCreativeInfo) list"
  m_ltPidInfo :: "AdPidInfo list"
  m_ltKeyWord :: "AdMarkNode list"
  m_ltAudience :: "AdAudienceNode list"
  m_pltBanPidList :: "string list option"
  m_pAdvancedPrice :: "(string \<times> AdAdvancedPrice) list option"

definition clear_unit :: AdPlanningUnit where
  "clear_unit =
    \<lparr>m_stOrder = clear_order, m_stMobile = clear_mobile, m_stTime = clear_time,
     m_stTargetAudience = \<lparr>m_ltArea = []\<rparr>, m_mCreativeInfo = [], m_ltPidInfo = [],
     m_ltKeyWord = [], m_ltAudience = [], m_pltBanPidList = None, m_pAdvancedPrice = None\<rparr>"

abbreviation eid :: "AdPlanningUnit \<Rightarrow> UINT" where
  "eid u \<equiv> m_uiExecuteId (m_stOrder u)"

end
