(* ===== verification/AdFilterBase.thy ===== *)
theory AdFilterBase
  imports StdMap AdPlanningUnit AdRtbBase AdCString "HOL-Library.Char_ord" "HOL-Library.List_Lexorder"
begin

text \<open>
  What the filters of \<^verbatim>\<open>ibidding/filter\<close> are made of: the inverted index \<^verbatim>\<open>AdMap\<close> from keys to
  planning units (\<^verbatim>\<open>AdMap.h\<close>, \<^verbatim>\<open>AdMap.cpp\<close>) and the result \<^verbatim>\<open>AD_RESULT\<close> of a match
  (\<^verbatim>\<open>AdFilterBase.h\<close>). Two locales state what the filters promise: one that files units under
  keys and marks or erases those found under the keys of a request.
\<close>

unbundle bit_operations_syntax

abbreviation AD_FILTER_TIME :: UINT where "AD_FILTER_TIME \<equiv> 0x8000"
abbreviation AD_FILTER_ADX :: UINT where "AD_FILTER_ADX \<equiv> 0x4000"
abbreviation AD_FILTER_PID :: UINT where "AD_FILTER_PID \<equiv> 0x2000"
abbreviation AD_FILTER_AREA :: UINT where "AD_FILTER_AREA \<equiv> 0x1000"
abbreviation AD_FILTER_SIZE :: UINT where "AD_FILTER_SIZE \<equiv> 0x0800"
abbreviation AD_FILTER_UA :: UINT where "AD_FILTER_UA \<equiv> 0x0400"
abbreviation AD_FILTER_MOBILE_OPERATER :: UINT where "AD_FILTER_MOBILE_OPERATER \<equiv> 0x0080"
abbreviation AD_FILTER_MOBILE_DEVICE :: UINT where "AD_FILTER_MOBILE_DEVICE \<equiv> 0x0040"
abbreviation AD_FILTER_MOBILE_CONNECT :: UINT where "AD_FILTER_MOBILE_CONNECT \<equiv> 0x0020"

definition AD_FILTER_NORMAL :: UINT where
  "AD_FILTER_NORMAL = AD_FILTER_TIME OR AD_FILTER_ADX OR AD_FILTER_PID OR AD_FILTER_AREA OR
     AD_FILTER_SIZE OR AD_FILTER_UA"

definition AD_FILTER_MOBILE :: UINT where
  "AD_FILTER_MOBILE = AD_FILTER_MOBILE_OPERATER OR AD_FILTER_MOBILE_DEVICE OR
     AD_FILTER_MOBILE_CONNECT"

abbreviation AD_PROTOCOL_FLOW_PC :: UINT where "AD_PROTOCOL_FLOW_PC \<equiv> 0"
abbreviation AD_PROTOCOL_FLOW_VIDEO :: UINT where "AD_PROTOCOL_FLOW_VIDEO \<equiv> 1"
abbreviation AD_PROTOCOL_FLOW_MOBILE :: UINT where "AD_PROTOCOL_FLOW_MOBILE \<equiv> 2"
abbreviation AD_PROTOCOL_KEY_ADX_TANX :: UINT where "AD_PROTOCOL_KEY_ADX_TANX \<equiv> 1"
abbreviation AD_PROTOCOL_KEY_ADX_YUKU :: UINT where "AD_PROTOCOL_KEY_ADX_YUKU \<equiv> 5"
abbreviation AD_PROTOCOL_KEY_ADX_BAIDU :: UINT where "AD_PROTOCOL_KEY_ADX_BAIDU \<equiv> 6"
abbreviation AD_PROTOCOL_KEY_ADX_MIAOZHEN :: UINT where "AD_PROTOCOL_KEY_ADX_MIAOZHEN \<equiv> 12"
abbreviation AD_AREA_ALL :: string where "AD_AREA_ALL \<equiv> ''0086-ffff-ffff''"

section \<open>The index\<close>

text \<open>
  The pointers an index holds are modelled by what they point to; the planning units are not
  changed while an index refers to them.
\<close>

type_synonym 'p AD_MAP = "(string \<times> 'p list) list"

definition AdMap_find :: "string \<Rightarrow> 'p AD_MAP \<Rightarrow> 'p list option" where
  "AdMap_find Key m = map_of m Key"

definition AdMap_update :: "string \<Rightarrow> 'p \<Rightarrow> 'p AD_MAP \<Rightarrow> 'p AD_MAP" where
  "AdMap_update Key pId m =
     smap_upd Key ((case map_of m Key of None \<Rightarrow> [] | Some l \<Rightarrow> l) @ [pId]) m"

definition AdMap_update_list :: "string \<Rightarrow> 'p list \<Rightarrow> 'p AD_MAP \<Rightarrow> 'p AD_MAP" where
  "AdMap_update_list Key Value m = smap_upd Key Value m"

definition AdMap_insert :: "string \<Rightarrow> 'p list \<Rightarrow> 'p AD_MAP \<Rightarrow> bool \<times> 'p AD_MAP" where
  "AdMap_insert Key Value m = (map_of m Key = None, smap_insert Key Value m)"

definition AdMap_del :: "string \<Rightarrow> 'p AD_MAP \<Rightarrow> 'p AD_MAP" where
  "AdMap_del Key m = smap_erase Key m"

definition AdMap_clear :: "'p AD_MAP \<Rightarrow> 'p AD_MAP" where
  "AdMap_clear m = []"

text \<open>What is filed under a key.\<close>

definition filed :: "'p AD_MAP \<Rightarrow> string \<Rightarrow> 'p list" where
  "filed m k = (case map_of m k of None \<Rightarrow> [] | Some l \<Rightarrow> l)"

lemma filed_Nil [simp]: "filed [] k = []"
  by (simp add: filed_def)

lemma filed_update [simp]:
  "filed (AdMap_update k p m) k' = (if k = k' then filed m k' @ [p] else filed m k')"
  by (simp add: filed_def AdMap_update_def)

lemma filed_others [simp]:
  "filed (AdMap_update_list k ps m) k' = (if k = k' then ps else filed m k')"
  "smap_ok m \<Longrightarrow> filed (AdMap_del k m) k' = (if k = k' then [] else filed m k')"
  "filed (AdMap_clear m) k' = []"
  by (auto simp: filed_def AdMap_update_list_def AdMap_del_def AdMap_clear_def)

lemma smap_ok_AdMap [intro, simp]:
  "smap_ok m \<Longrightarrow> smap_ok (AdMap_update k p m)" "smap_ok m \<Longrightarrow> smap_ok (AdMap_update_list k ps m)"
  "smap_ok m \<Longrightarrow> smap_ok (AdMap_del k m)" "smap_ok m \<Longrightarrow> smap_ok (snd (AdMap_insert k ps m))"
  by (simp_all add: AdMap_update_def AdMap_update_list_def AdMap_del_def AdMap_insert_def)

text \<open>A unit filed under each of a list of keys.\<close>

definition file_under :: "string list \<Rightarrow> 'p \<Rightarrow> 'p AD_MAP \<Rightarrow> 'p AD_MAP" where
  "file_under ks p m = fold (\<lambda>k. AdMap_update k p) ks m"

lemma file_under_simps [simp]:
  "file_under [] p m = m"
  "file_under (k # ks) p m = file_under ks p (AdMap_update k p m)"
  by (simp_all add: file_under_def)

lemma file_under_append: "file_under (ks @ ks') p m = file_under ks' p (file_under ks p m)"
  by (simp add: file_under_def)

lemma set_filed_file_under:
  "set (filed (file_under ks p m) k) = set (filed m k) \<union> (if k \<in> set ks then {p} else {})"
  by (induction ks arbitrary: m) auto

lemma fold_file_under:
  "fold (\<lambda>x. file_under (f x) p) xs m = file_under (concat (map f xs)) p m"
  by (induction xs arbitrary: m) (auto simp: file_under_append)

section \<open>The result of a match\<close>

record AdFilterMarkInfo =
  m_fm_uiType :: UINT
  m_sMark :: string

record AdRtbFilterResult =
  m_bVip :: bool
  m_uiMatch :: UINT
  m_ltMarkInfo :: "AdFilterMarkInfo list"

definition clear_result :: AdRtbFilterResult where
  "clear_result = \<lparr>m_bVip = False, m_uiMatch = 0, m_ltMarkInfo = []\<rparr>"

text \<open>
  \<^verbatim>\<open>AD_RESULT\<close> is a map from pointers to units, ordered by \<^verbatim>\<open>ResultSort\<close>, which compares the
  execute ids of the units: the key is the id, and the entry keeps the pointer that was
  inserted first.
\<close>

type_synonym AD_RESULT = "(UINT \<times> (AdPlanningUnit \<times> AdRtbFilterResult)) list"

definition result_mark :: "UINT \<Rightarrow> AdPlanningUnit \<Rightarrow> AD_RESULT \<Rightarrow> AD_RESULT" where
  "result_mark flag pUnit mResult =
     (case map_of mResult (eid pUnit) of
        None \<Rightarrow> smap_upd (eid pUnit) (pUnit, clear_result\<lparr>m_uiMatch := 0 OR flag\<rparr>) mResult
      | Some (p, sResult) \<Rightarrow>
          smap_upd (eid pUnit) (p, sResult\<lparr>m_uiMatch := m_uiMatch sResult OR flag\<rparr>) mResult)"

definition result_erase :: "AdPlanningUnit \<Rightarrow> AD_RESULT \<Rightarrow> AD_RESULT" where
  "result_erase pUnit mResult = smap_erase (eid pUnit) mResult"

text \<open>
  The block all filters share: find a key in the index and mark, or erase, each unit filed
  under it in the result.
\<close>

definition match_key :: "UINT \<Rightarrow> AdPlanningUnit AD_MAP \<Rightarrow> string \<Rightarrow> AD_RESULT \<Rightarrow> AD_RESULT" where
  "match_key flag m key mResult =
     (case AdMap_find key m of None \<Rightarrow> mResult | Some l \<Rightarrow> fold (result_mark flag) l mResult)"

definition erase_key :: "AdPlanningUnit AD_MAP \<Rightarrow> string \<Rightarrow> AD_RESULT \<Rightarrow> AD_RESULT" where
  "erase_key m key mResult =
     (case AdMap_find key m of None \<Rightarrow> mResult | Some l \<Rightarrow> fold result_erase l mResult)"

text \<open>The flags a result has for a unit.\<close>

definition match_flags :: "AD_RESULT \<Rightarrow> UINT \<Rightarrow> UINT" where
  "match_flags mResult i = (case map_of mResult i of None \<Rightarrow> 0 | Some (_, r) \<Rightarrow> m_uiMatch r)"

definition result_ok :: "AdPlanningUnit set \<Rightarrow> AD_RESULT \<Rightarrow> bool" where
  "result_ok U mResult \<longleftrightarrow> smap_ok mResult \<and> (\<forall>(i, (u, r)) \<in> set mResult. u \<in> U \<and> i = eid u)"

lemma result_ok_Nil [simp]: "result_ok U []"
  by (simp add: result_ok_def)

lemma result_ok_map: "result_ok U res \<Longrightarrow> map_of res i = Some (u, r) \<Longrightarrow> u \<in> U \<and> eid u = i"
  by (auto simp: result_ok_def dest!: map_of_SomeD)

lemma result_ok_iff:
  "result_ok U res \<longleftrightarrow> smap_ok res \<and> (\<forall>i u r. map_of res i = Some (u, r) \<longrightarrow> u \<in> U \<and> eid u = i)"
proof (cases "smap_ok res")
  case True
  have "(\<forall>(i, (u, r)) \<in> set res. u \<in> U \<and> i = eid u) \<longleftrightarrow>
      (\<forall>i u r. (i, (u, r)) \<in> set res \<longrightarrow> u \<in> U \<and> i = eid u)" by auto
  then show ?thesis unfolding result_ok_def smap_mem_iff [OF True] using True by auto
qed (simp add: result_ok_def)

lemma result_ok_filter: "result_ok U res \<Longrightarrow> result_ok U (filter P res)"
  by (auto simp: result_ok_def)

lemma result_ok_mark [intro]: "result_ok U res \<Longrightarrow> u \<in> U \<Longrightarrow> result_ok U (result_mark f u res)"
  unfolding result_ok_iff by (auto simp: result_mark_def split: option.splits if_splits)

lemma result_ok_erase [intro]: "result_ok U res \<Longrightarrow> result_ok U (result_erase u res)"
  unfolding result_ok_iff by (auto simp: result_erase_def split: if_splits)

lemma result_ok_marks: "result_ok U res \<Longrightarrow> set l \<subseteq> U \<Longrightarrow> result_ok U (fold (result_mark f) l res)"
  by (induction l arbitrary: res) auto

lemma result_ok_erases: "result_ok U res \<Longrightarrow> result_ok U (fold result_erase l res)"
  by (induction l arbitrary: res) auto

lemma match_flags_mark:
  "match_flags (result_mark f u res) i = (if i = eid u then match_flags res i OR f else match_flags res i)"
  by (auto simp: match_flags_def result_mark_def clear_result_def split: option.splits)

lemma match_flags_marks:
  "match_flags (fold (result_mark f) l res) i =
     (if i \<in> eid ` set l then match_flags res i OR f else match_flags res i)"
  by (induction l arbitrary: res) (auto simp: match_flags_mark or.assoc)

lemma dom_mark: "dom (map_of (result_mark f u res)) = insert (eid u) (dom (map_of res))"
  by (auto simp: result_mark_def split: option.splits)

lemma dom_marks: "dom (map_of (fold (result_mark f) l res)) = eid ` set l \<union> dom (map_of res)"
  by (induction l arbitrary: res) (auto simp: dom_mark)

lemma map_of_erases:
  "result_ok U res \<Longrightarrow>
    map_of (fold result_erase l res) i = (if i \<in> eid ` set l then None else map_of res i)"
proof (induction l arbitrary: res)
  case (Cons u l)
  have "smap_ok res" using Cons.prems by (simp add: result_ok_def)
  then have "map_of (result_erase u res) i = (if i = eid u then None else map_of res i)"
    by (simp add: result_erase_def)
  with Cons.IH [OF result_ok_erase [OF Cons.prems, of u]] show ?case by auto
qed simp

lemma match_key_filed: "match_key f m k res = fold (result_mark f) (filed m k) res"
  by (simp add: match_key_def AdMap_find_def filed_def split: option.split)

lemma erase_key_filed: "erase_key m k res = fold result_erase (filed m k) res"
  by (simp add: erase_key_def AdMap_find_def filed_def split: option.split)

lemma fold_match_key:
  "fold (match_key f m) ks res = fold (result_mark f) (concat (map (filed m) ks)) res"
  by (induction ks arbitrary: res) (simp_all add: match_key_filed)

lemma fold_erase_key:
  "fold (erase_key m) ks res = fold result_erase (concat (map (filed m) ks)) res"
  by (induction ks arbitrary: res) (simp_all add: erase_key_filed)

section \<open>What an index filter promises\<close>

text \<open>The keys a unit is filed under by \<^verbatim>\<open>AddData\<close>.\<close>

locale unit_index =
  fixes AddData :: "AdPlanningUnit \<Rightarrow> AdPlanningUnit AD_MAP \<Rightarrow> AdPlanningUnit AD_MAP"
    and unit_keys :: "AdPlanningUnit \<Rightarrow> string list"
  assumes AddData_files: "AddData u m = file_under (unit_keys u) u m"
begin

lemma filed_built:
  "set (filed (fold AddData us m) k) = set (filed m k) \<union> {u \<in> set us. k \<in> set (unit_keys u)}"
  by (induction us arbitrary: m) (auto simp: AddData_files set_filed_file_under)

end

text \<open>A filter that marks, with its flag, the units found under the keys of a request.\<close>

locale marking_filter = unit_index +
  fixes match :: "'q \<Rightarrow> AdPlanningUnit AD_MAP \<Rightarrow> AD_RESULT \<Rightarrow> AD_RESULT"
    and request_keys :: "'q \<Rightarrow> string list" and flag :: UINT
  assumes match_marks: "match q m res = fold (match_key flag m) (request_keys q) res"
begin

definition hits :: "'q \<Rightarrow> AdPlanningUnit \<Rightarrow> bool" where
  "hits q u \<longleftrightarrow> (\<exists>k \<in> set (request_keys q). k \<in> set (unit_keys u))"

lemma found_hits:
  "set (concat (map (filed (fold AddData us [])) (request_keys q))) = {u \<in> set us. hits q u}"
  by (auto simp: filed_built hits_def)

lemma match_built:
  assumes "result_ok U res" "set us \<subseteq> U"
  shows "result_ok U (match q (fold AddData us []) res)"
    and "match_flags (match q (fold AddData us []) res) i =
      (if i \<in> eid ` {u \<in> set us. hits q u} then match_flags res i OR flag else match_flags res i)"
    and "dom (map_of (match q (fold AddData us []) res)) =
      eid ` {u \<in> set us. hits q u} \<union> dom (map_of res)"
  unfolding match_marks fold_match_key match_flags_marks dom_marks
  using found_hits [of us q] assms by (auto intro!: result_ok_marks)

end

text \<open>A filter that erases the units found under the keys of a request.\<close>

locale erasing_filter = unit_index +
  fixes match :: "'q \<Rightarrow> AdPlanningUnit AD_MAP \<Rightarrow> AD_RESULT \<Rightarrow> AD_RESULT"
    and request_keys :: "'q \<Rightarrow> string list"
  assumes match_erases: "match q m res = fold (erase_key m) (request_keys q) res"
begin

definition hits :: "'q \<Rightarrow> AdPlanningUnit \<Rightarrow> bool" where
  "hits q u \<longleftrightarrow> (\<exists>k \<in> set (request_keys q). k \<in> set (unit_keys u))"

lemma match_built:
  assumes "result_ok U res"
  shows "result_ok U (match q (fold AddData us []) res)"
    and "map_of (match q (fold AddData us []) res) i =
      (if i \<in> eid ` {u \<in> set us. hits q u} then None else map_of res i)"
proof -
  have "set (concat (map (filed (fold AddData us [])) (request_keys q))) = {u \<in> set us. hits q u}"
    by (auto simp: filed_built hits_def)
  then show "map_of (match q (fold AddData us []) res) i =
      (if i \<in> eid ` {u \<in> set us. hits q u} then None else map_of res i)"
    unfolding match_erases fold_erase_key by (simp add: map_of_erases [OF assms] del: set_concat)
  show "result_ok U (match q (fold AddData us []) res)"
    unfolding match_erases fold_erase_key using assms by (rule result_ok_erases)
qed

end

end
