(* ===== verification/AdFilterIndex.thy ===== *)
theory AdFilterIndex
  imports AdFilterBase
begin

text \<open>
  The filters that mark the units a request may buy: time, exchange, placement, area, size,
  user agent and the three of the mobile flow (\<^verbatim>\<open>ibidding/filter/src/AdFilterTime.cpp\<close>,
  \<^verbatim>\<open>AdFilterAdExchange.cpp\<close>, \<^verbatim>\<open>AdFilterPid.cpp\<close>, \<^verbatim>\<open>AdFilterArea.cpp\<close>, \<^verbatim>\<open>AdFilterSize.cpp\<close>,
  \<^verbatim>\<open>AdFilterUserAgent.cpp\<close>, \<^verbatim>\<open>AdFilterMobileOperator.cpp\<close>, \<^verbatim>\<open>AdFilterMobileDevice.cpp\<close>,
  \<^verbatim>\<open>AdFilterMobileConnect.cpp\<close>). Each is an instance of the marking filter; its keys are the
  strings the code builds, cut to the 128 or 32 bytes of its buffer.
\<close>

section \<open>Time\<close>

text \<open>
  \<^verbatim>\<open>match\<close> takes the week day and the hour of the local time, formatted by \<^verbatim>\<open>strftime\<close> with
  \<^verbatim>\<open>%w%H\<close>. \<^verbatim>\<open>AddData\<close> prints into 16 bytes with the bound 128, which its at most 13 characters
  do not reach. The bits 24 to 31 of \<^verbatim>\<open>m_uiHour\<close> are not looked at.
\<close>

record local_time =
  tm_wday :: nat
  tm_hour :: nat

definition AdFilterTime_match ::
    "local_time \<Rightarrow> AdPlanningUnit AD_MAP \<Rightarrow> AD_RESULT \<Rightarrow> AD_RESULT" where
  "AdFilterTime_match tm m mResult =
     match_key AD_FILTER_TIME m (snprintf 16 (digits10 (tm_wday tm) @ fmt_02d (tm_hour tm))) mResult"

definition AdFilterTime_AddData ::
    "AdPlanningUnit \<Rightarrow> AdPlanningUnit AD_MAP \<Rightarrow> AdPlanningUnit AD_MAP" where
  "AdFilterTime_AddData pUnit m =
     (if \<not> bPush (m_stTime pUnit) then m
      else fold (\<lambda>day m.
          if m_uiHour day = 0 then m
          else fold (\<lambda>uiHour m.
              if m_uiHour day AND push_bit uiHour 1 \<noteq> 0
              then AdMap_update (snprintf 128 (fmt_d (m_uiWeek day) @ fmt_02d uiHour)) pUnit m
              else m) [0..<AD_DAY_HOURS] m)
        (take AD_WEEK_DAYS (m_stDay (m_stTime pUnit))) m)"

definition AdFilterTime_keys :: "AdPlanningUnit \<Rightarrow> string list" where
  "AdFilterTime_keys pUnit =
     (if \<not> bPush (m_stTime pUnit) then []
      else concat (map (\<lambda>day. map (\<lambda>uiHour. snprintf 128 (fmt_d (m_uiWeek day) @ fmt_02d uiHour))
          (filter (\<lambda>h. bit (m_uiHour day) h) [0..<AD_DAY_HOURS]))
        (take AD_WEEK_DAYS (m_stDay (m_stTime pUnit)))))"

lemma and_push_bit_1: "(w :: UINT) AND push_bit h 1 \<noteq> 0 \<longleftrightarrow> bit w h"
  by (simp only: bit_iff_and_push_bit_not_eq_0)

text \<open>Loops that update the index are \<^const>\<open>file_under\<close> of the keys they build.\<close>

lemma fold_update:
  "fold (\<lambda>x m. if P x then AdMap_update (f x) p m else m) xs m = file_under (map f (filter P xs)) p m"
  by (induction xs arbitrary: m) auto

lemma fold_files:
  assumes "\<And>x m. x \<in> set xs \<Longrightarrow> step x m = file_under (ks x) p m"
  shows "fold step xs m = file_under (concat (map ks xs)) p m"
  using assms by (induction xs arbitrary: m) (auto simp: file_under_append)

interpretation time_filter: marking_filter AdFilterTime_AddData AdFilterTime_keys AdFilterTime_match
  "\<lambda>tm. [snprintf 16 (digits10 (tm_wday tm) @ fmt_02d (tm_hour tm))]" AD_FILTER_TIME
proof
  fix pUnit :: AdPlanningUnit and m
  have "(if m_uiHour day = 0 then m
         else fold (\<lambda>uiHour m.
              if m_uiHour day AND push_bit uiHour 1 \<noteq> 0
              then AdMap_update (snprintf 128 (fmt_d (m_uiWeek day) @ fmt_02d uiHour)) pUnit m
              else m) [0..<AD_DAY_HOURS] m) =
    file_under (map (\<lambda>uiHour. snprintf 128 (fmt_d (m_uiWeek day) @ fmt_02d uiHour))
       (filter (\<lambda>h. bit (m_uiHour day) h) [0..<AD_DAY_HOURS])) pUnit m" for day m
  proof (cases "m_uiHour day = 0")
    case False
    then show ?thesis by (simp only: and_push_bit_1 fold_update if_False)
  qed simp
  then show "AdFilterTime_AddData pUnit m = file_under (AdFilterTime_keys pUnit) pUnit m"
    unfolding AdFilterTime_AddData_def AdFilterTime_keys_def by (auto intro: fold_files)
qed (simp add: AdFilterTime_match_def)

section \<open>Exchange\<close>

definition AdFilterAdExchange_match ::
    "AdRtbRequest \<Rightarrow> AdPlanningUnit AD_MAP \<Rightarrow> AD_RESULT \<Rightarrow> AD_RESULT" where
  "AdFilterAdExchange_match pRequest m mResult =
     match_key AD_FILTER_ADX m (snprintf 32 (fmt_d (m_uiAdx pRequest))) mResult"

definition AdFilterAdExchange_AddData ::
    "AdPlanningUnit \<Rightarrow> AdPlanningUnit AD_MAP \<Rightarrow> AdPlanningUnit AD_MAP" where
  "AdFilterAdExchange_AddData pUnit m =
     (if \<not> bPush (m_stTime pUnit) then m
      else fold (\<lambda>pid m.
          if 0 = m_uiAdxId pid then m
          else AdMap_update (snprintf 32 (fmt_d (m_uiAdxId pid))) pUnit m)
        (m_ltPidInfo pUnit) m)"

definition AdFilterAdExchange_keys :: "AdPlanningUnit \<Rightarrow> string list" where
  "AdFilterAdExchange_keys pUnit =
     (if \<not> bPush (m_stTime pUnit) then []
      else map (\<lambda>pid. fmt_d (m_uiAdxId pid)) (filter (\<lambda>pid. m_uiAdxId pid \<noteq> 0) (m_ltPidInfo pUnit)))"

interpretation adx_filter: marking_filter AdFilterAdExchange_AddData AdFilterAdExchange_keys
  AdFilterAdExchange_match "\<lambda>pRequest. [fmt_d (m_uiAdx pRequest)]" AD_FILTER_ADX
proof
  fix pUnit :: AdPlanningUnit and m
  have "fold (\<lambda>pid m. if m_uiAdxId pid = 0 then m
      else AdMap_update (fmt_d (m_uiAdxId pid)) pUnit m) ps m =
    file_under (map (\<lambda>pid. fmt_d (m_uiAdxId pid)) (filter (\<lambda>pid. m_uiAdxId pid \<noteq> 0) ps)) pUnit m" for ps :: "AdPidInfo list" and m
    by (induction ps arbitrary: m) auto
  then show "AdFilterAdExchange_AddData pUnit m = file_under (AdFilterAdExchange_keys pUnit) pUnit m"
    by (simp add: AdFilterAdExchange_AddData_def AdFilterAdExchange_keys_def eq_commute [of 0]
      cong: if_cong)
qed (simp add: AdFilterAdExchange_match_def)

section \<open>Placement\<close>

definition AdFilterPid_match ::
    "AdRtbRequest \<Rightarrow> AdPlanningUnit AD_MAP \<Rightarrow> AD_RESULT \<Rightarrow> AD_RESULT" where
  "AdFilterPid_match pRequest m mResult =
    (let r1 = match_key AD_FILTER_PID m (snprintf 128 (fmt_d (m_uiAdx pRequest) @ ''_ALL'')) mResult;
         r2 = match_key AD_FILTER_PID m
           (snprintf 128 (fmt_d (m_uiAdx pRequest) @ ''_'' @ c_str (m_sPId pRequest))) r1
     in fold (\<lambda>s. match_key AD_FILTER_PID m
           (snprintf 128 (''OTHER_'' @ fmt_d (m_uiAdx pRequest) @ ''_'' @ c_str s)))
         (m_ltSiteCategory pRequest) r2)"

definition AdFilterPid_AddData ::
    "AdPlanningUnit \<Rightarrow> AdPlanningUnit AD_MAP \<Rightarrow> AdPlanningUnit AD_MAP" where
  "AdFilterPid_AddData pUnit m =
     (if \<not> bPush (m_stTime pUnit) then m
      else fold (\<lambda>pid m.
          if m_uiMode pid = AD_PID_MODE_ALL
          then AdMap_update (snprintf 128 (fmt_d (m_uiAdxId pid) @ ''_ALL'')) pUnit m
          else if m_uiMode pid = AD_PID_MODE_FIXED
          then fold (\<lambda>s. AdMap_update (snprintf 128 (fmt_d (m_uiAdxId pid) @ ''_'' @ c_str s)) pUnit)
                 (m_ltPidList pid) m
          else if m_uiMode pid = AD_PID_MODE_OTHER
          then fold (\<lambda>s. AdMap_update
                   (snprintf 128 (''OTHER_'' @ fmt_d (m_uiAdxId pid) @ ''_'' @ c_str s)) pUnit)
                 (m_ltPidList pid) m
          else m)
        (m_ltPidInfo pUnit) m)"

definition pid_info_keys :: "AdPidInfo \<Rightarrow> string list" where
  "pid_info_keys pid =
     (if m_uiMode pid = AD_PID_MODE_ALL then [snprintf 128 (fmt_d (m_uiAdxId pid) @ ''_ALL'')]
      else if m_uiMode pid = AD_PID_MODE_FIXED
      then map (\<lambda>s. snprintf 128 (fmt_d (m_uiAdxId pid) @ ''_'' @ c_str s)) (m_ltPidList pid)
      else if m_uiMode pid = AD_PID_MODE_OTHER
      then map (\<lambda>s. snprintf 128 (''OTHER_'' @ fmt_d (m_uiAdxId pid) @ ''_'' @ c_str s))
             (m_ltPidList pid)
      else [])"

definition AdFilterPid_keys :: "AdPlanningUnit \<Rightarrow> string list" where
  "AdFilterPid_keys pUnit =
     (if \<not> bPush (m_stTime pUnit) then [] else concat (map pid_info_keys (m_ltPidInfo pUnit)))"

definition AdFilterPid_request_keys :: "AdRtbRequest \<Rightarrow> string list" where
  "AdFilterPid_request_keys pRequest =
     snprintf 128 (fmt_d (m_uiAdx pRequest) @ ''_ALL'') #
     snprintf 128 (fmt_d (m_uiAdx pRequest) @ ''_'' @ c_str (m_sPId pRequest)) #
     map (\<lambda>s. snprintf 128 (''OTHER_'' @ fmt_d (m_uiAdx pRequest) @ ''_'' @ c_str s))
       (m_ltSiteCategory pRequest)"

lemma fold_update_map: "fold (\<lambda>x. AdMap_update (f x) p) xs m = file_under (map f xs) p m"
  by (induction xs arbitrary: m) auto

interpretation pid_filter: marking_filter AdFilterPid_AddData AdFilterPid_keys
  AdFilterPid_match AdFilterPid_request_keys AD_FILTER_PID
proof
  show "AdFilterPid_AddData pUnit m = file_under (AdFilterPid_keys pUnit) pUnit m" for pUnit m
    unfolding AdFilterPid_AddData_def AdFilterPid_keys_def
    by (auto simp: pid_info_keys_def fold_update_map intro!: fold_files)
  show "AdFilterPid_match q m res = fold (match_key AD_FILTER_PID m) (AdFilterPid_request_keys q) res" for q m res
    by (simp add: AdFilterPid_match_def AdFilterPid_request_keys_def Let_def fold_map o_def)
qed

section \<open>Area\<close>

definition AdFilterArea_match ::
    "AdRtbRequest \<Rightarrow> AdPlanningUnit AD_MAP \<Rightarrow> AD_RESULT \<Rightarrow> AD_RESULT" where
  "AdFilterArea_match pRequest m mResult =
     match_key AD_FILTER_AREA m (m_sArea pRequest) (match_key AD_FILTER_AREA m AD_AREA_ALL mResult)"

definition AdFilterArea_AddData ::
    "AdPlanningUnit \<Rightarrow> AdPlanningUnit AD_MAP \<Rightarrow> AdPlanningUnit AD_MAP" where
  "AdFilterArea_AddData pUnit m =
     (if \<not> bPush (m_stTime pUnit) then m
      else fold (\<lambda>s. AdMap_update s pUnit) (m_ltArea (m_stTargetAudience pUnit)) m)"

definition AdFilterArea_keys :: "AdPlanningUnit \<Rightarrow> string list" where
  "AdFilterArea_keys pUnit =
     (if \<not> bPush (m_stTime pUnit) then [] else m_ltArea (m_stTargetAudience pUnit))"

interpretation area_filter: marking_filter AdFilterArea_AddData AdFilterArea_keys
  AdFilterArea_match "\<lambda>pRequest. [AD_AREA_ALL, m_sArea pRequest]" AD_FILTER_AREA
  by unfold_locales
    (simp_all add: AdFilterArea_AddData_def AdFilterArea_keys_def AdFilterArea_match_def file_under_def)

section \<open>Size\<close>

definition AdFilterSize_match ::
    "AdRtbRequest \<Rightarrow> AdPlanningUnit AD_MAP \<Rightarrow> AD_RESULT \<Rightarrow> AD_RESULT" where
  "AdFilterSize_match pRequest m mResult =
     match_key AD_FILTER_SIZE m
       (snprintf 128 (fmt_d (m_uiAdx pRequest) @ ''_'' @ c_str (m_sSize pRequest))) mResult"

definition AdFilterSize_AddData ::
    "AdPlanningUnit \<Rightarrow> AdPlanningUnit AD_MAP \<Rightarrow> AdPlanningUnit AD_MAP" where
  "AdFilterSize_AddData pUnit m =
     (if \<not> bPush (m_stTime pUnit) then m
      else fold (\<lambda>(_, create) m.
          if m_sCreativeGroupId create = [] \<or> m_sAdxId create = [] then m
          else fold (\<lambda>mate. AdMap_update (snprintf 128 (c_str (m_sAdxId create) @ ''_'' @
                   fmt_d (m_uiWidth mate) @ ''x'' @ fmt_d (m_uiHeight mate))) pUnit)
                 (m_ltMaterials create) m)
        (m_mCreativeInfo pUnit) m)"

definition creative_size_keys :: "AdCreativeInfo \<Rightarrow> string list" where
  "creative_size_keys create =
     (if m_sCreativeGroupId create = [] \<or> m_sAdxId create = [] then []
      else map (\<lambda>mate. snprintf 128 (c_str (m_sAdxId create) @ ''_'' @
        fmt_d (m_uiWidth mate) @ ''x'' @ fmt_d (m_uiHeight mate))) (m_ltMaterials create))"

definition AdFilterSize_keys :: "AdPlanningUnit \<Rightarrow> string list" where
  "AdFilterSize_keys pUnit =
     (if \<not> bPush (m_stTime pUnit) then []
      else concat (map (\<lambda>(_, create). creative_size_keys create) (m_mCreativeInfo pUnit)))"

interpretation size_filter: marking_filter AdFilterSize_AddData AdFilterSize_keys
  AdFilterSize_match
  "\<lambda>pRequest. [snprintf 128 (fmt_d (m_uiAdx pRequest) @ ''_'' @ c_str (m_sSize pRequest))]" AD_FILTER_SIZE
proof
  show "AdFilterSize_AddData pUnit m = file_under (AdFilterSize_keys pUnit) pUnit m" for pUnit m
    unfolding AdFilterSize_AddData_def AdFilterSize_keys_def
    by (auto simp: creative_size_keys_def fold_update_map intro!: fold_files)
qed (simp add: AdFilterSize_match_def)

section \<open>User agent\<close>

definition AdFilterUserAgent_match ::
    "AdRtbRequest \<Rightarrow> AdPlanningUnit AD_MAP \<Rightarrow> AD_RESULT \<Rightarrow> AD_RESULT" where
  "AdFilterUserAgent_match pRequest m mResult =
     fold (\<lambda>s. match_key AD_FILTER_UA m (snprintf 128 (c_str s))) (m_ltUalist pRequest)
       (match_key AD_FILTER_UA m ''0'' mResult)"

text \<open>Unlike the other filters, this one files units whose \<^verbatim>\<open>bPush\<close> is false, too.\<close>

definition AdFilterUserAgent_AddData ::
    "AdPlanningUnit \<Rightarrow> AdPlanningUnit AD_MAP \<Rightarrow> AdPlanningUnit AD_MAP" where
  "AdFilterUserAgent_AddData pUnit m =
     (if m_ltUserAgentType (m_stMobile pUnit) \<noteq> []
      then fold (\<lambda>ua. AdMap_update (snprintf 128 (fmt_d ua)) pUnit) (m_ltUserAgentType (m_stMobile pUnit)) m
      else AdMap_update ''0'' pUnit m)"

definition AdFilterUserAgent_keys :: "AdPlanningUnit \<Rightarrow> string list" where
  "AdFilterUserAgent_keys pUnit =
     (if m_ltUserAgentType (m_stMobile pUnit) \<noteq> []
      then map fmt_d (m_ltUserAgentType (m_stMobile pUnit)) else [''0''])"

definition wildcard_keys :: "string list \<Rightarrow> string list" where
  "wildcard_keys xs = ''0'' # map (\<lambda>s. snprintf 128 (c_str s)) xs"

lemma fold_update_fmt_d:
  "fold (\<lambda>x. AdMap_update (fmt_d x) p) xs m = file_under (map fmt_d xs) p m"
  by (simp add: fold_update_map)

interpretation ua_filter: marking_filter AdFilterUserAgent_AddData AdFilterUserAgent_keys
  AdFilterUserAgent_match "\<lambda>pRequest. wildcard_keys (m_ltUalist pRequest)" AD_FILTER_UA
  by unfold_locales
    (simp_all add: AdFilterUserAgent_AddData_def AdFilterUserAgent_keys_def AdFilterUserAgent_match_def
      fold_update_fmt_d wildcard_keys_def fold_map o_def)

section \<open>The mobile flow\<close>

text \<open>The keys of the three mobile filters: none outside the mobile flow, and \<^verbatim>\<open>0\<close> for any.\<close>

definition mobile_keys :: "AdRtbRequest \<Rightarrow> string list \<Rightarrow> string list" where
  "mobile_keys pRequest xs =
     (if atoi (c_str (m_sFlow pRequest)) \<noteq> AD_PROTOCOL_FLOW_MOBILE then [] else wildcard_keys xs)"

definition AdFilterMobileOperator_match ::
    "AdRtbRequest \<Rightarrow> AdPlanningUnit AD_MAP \<Rightarrow> AD_RESULT \<Rightarrow> AD_RESULT" where
  "AdFilterMobileOperator_match pRequest m mResult =
     (if atoi (c_str (m_sFlow pRequest)) \<noteq> AD_PROTOCOL_FLOW_MOBILE then mResult
      else fold (\<lambda>s. match_key AD_FILTER_MOBILE_OPERATER m (snprintf 128 (c_str s))) (m_ltMobileOperator pRequest)
        (match_key AD_FILTER_MOBILE_OPERATER m ''0'' mResult))"

definition AdFilterMobileOperator_AddData ::
    "AdPlanningUnit \<Rightarrow> AdPlanningUnit AD_MAP \<Rightarrow> AdPlanningUnit AD_MAP" where
  "AdFilterMobileOperator_AddData pUnit m =
     (if \<not> bPush (m_stTime pUnit) then m
      else fold (\<lambda>x. AdMap_update (snprintf 128 (fmt_d x)) pUnit) (m_ltOperator (m_stMobile pUnit)) m)"

definition AdFilterMobileOperator_keys :: "AdPlanningUnit \<Rightarrow> string list" where
  "AdFilterMobileOperator_keys pUnit =
     (if \<not> bPush (m_stTime pUnit) then [] else map fmt_d (m_ltOperator (m_stMobile pUnit)))"

interpretation operator_filter: marking_filter AdFilterMobileOperator_AddData AdFilterMobileOperator_keys
  AdFilterMobileOperator_match "\<lambda>pRequest. mobile_keys pRequest (m_ltMobileOperator pRequest)" AD_FILTER_MOBILE_OPERATER
  by unfold_locales
    (simp_all add: AdFilterMobileOperator_AddData_def AdFilterMobileOperator_keys_def
      AdFilterMobileOperator_match_def fold_update_fmt_d mobile_keys_def wildcard_keys_def fold_map o_def)

definition AdFilterMobileDevice_match ::
    "AdRtbRequest \<Rightarrow> AdPlanningUnit AD_MAP \<Rightarrow> AD_RESULT \<Rightarrow> AD_RESULT" where
  "AdFilterMobileDevice_match pRequest m mResult =
     (if atoi (c_str (m_sFlow pRequest)) \<noteq> AD_PROTOCOL_FLOW_MOBILE then mResult
      else fold (\<lambda>s. match_key AD_FILTER_MOBILE_DEVICE m (snprintf 128 (c_str s))) (m_ltMobileDevice pRequest)
        (match_key AD_FILTER_MOBILE_DEVICE m ''0'' mResult))"

definition AdFilterMobileDevice_AddData ::
    "AdPlanningUnit \<Rightarrow> AdPlanningUnit AD_MAP \<Rightarrow> AdPlanningUnit AD_MAP" where
  "AdFilterMobileDevice_AddData pUnit m =
     (if \<not> bPush (m_stTime pUnit) then m
      else fold (\<lambda>x. AdMap_update (snprintf 128 (fmt_d x)) pUnit) (m_ltDeviceType (m_stMobile pUnit)) m)"

definition AdFilterMobileDevice_keys :: "AdPlanningUnit \<Rightarrow> string list" where
  "AdFilterMobileDevice_keys pUnit =
     (if \<not> bPush (m_stTime pUnit) then [] else map fmt_d (m_ltDeviceType (m_stMobile pUnit)))"

interpretation device_filter: marking_filter AdFilterMobileDevice_AddData AdFilterMobileDevice_keys
  AdFilterMobileDevice_match "\<lambda>pRequest. mobile_keys pRequest (m_ltMobileDevice pRequest)" AD_FILTER_MOBILE_DEVICE
  by unfold_locales
    (simp_all add: AdFilterMobileDevice_AddData_def AdFilterMobileDevice_keys_def
      AdFilterMobileDevice_match_def fold_update_fmt_d mobile_keys_def wildcard_keys_def fold_map o_def)

definition AdFilterMobileConnect_match ::
    "AdRtbRequest \<Rightarrow> AdPlanningUnit AD_MAP \<Rightarrow> AD_RESULT \<Rightarrow> AD_RESULT" where
  "AdFilterMobileConnect_match pRequest m mResult =
     (if atoi (c_str (m_sFlow pRequest)) \<noteq> AD_PROTOCOL_FLOW_MOBILE then mResult
      else fold (\<lambda>s. match_key AD_FILTER_MOBILE_CONNECT m (snprintf 128 (c_str s))) (m_ltMobileConnect pRequest)
        (match_key AD_FILTER_MOBILE_CONNECT m ''0'' mResult))"

definition AdFilterMobileConnect_AddData ::
    "AdPlanningUnit \<Rightarrow> AdPlanningUnit AD_MAP \<Rightarrow> AdPlanningUnit AD_MAP" where
  "AdFilterMobileConnect_AddData pUnit m =
     (if \<not> bPush (m_stTime pUnit) then m
      else fold (\<lambda>x. AdMap_update (snprintf 128 (fmt_d x)) pUnit) (m_ltConnectType (m_stMobile pUnit)) m)"

definition AdFilterMobileConnect_keys :: "AdPlanningUnit \<Rightarrow> string list" where
  "AdFilterMobileConnect_keys pUnit =
     (if \<not> bPush (m_stTime pUnit) then [] else map fmt_d (m_ltConnectType (m_stMobile pUnit)))"

interpretation connect_filter: marking_filter AdFilterMobileConnect_AddData AdFilterMobileConnect_keys
  AdFilterMobileConnect_match "\<lambda>pRequest. mobile_keys pRequest (m_ltMobileConnect pRequest)" AD_FILTER_MOBILE_CONNECT
  by unfold_locales
    (simp_all add: AdFilterMobileConnect_AddData_def AdFilterMobileConnect_keys_def
      AdFilterMobileConnect_match_def fold_update_fmt_d mobile_keys_def wildcard_keys_def fold_map o_def)

end
