(* ===== verification/AdUtil.thy ===== *)
theory AdUtil
  imports AdPrelude "HOL-Library.Sublist"
begin

text \<open>
  Two classes of \<^verbatim>\<open>libutil/inc/AdUtil.h\<close>: the packet cache \<^verbatim>\<open>AdCache\<close>, with its truncating
  writes, and the string helpers \<^verbatim>\<open>AdString\<close>. \<^verbatim>\<open>AdHttp\<close> is in the theory of that name.
\<close>

section \<open>The cache\<close>

abbreviation AD_CACHE_MAX :: nat where "AD_CACHE_MAX \<equiv> 8192"

record AdCache =
  m_cCache :: string
  m_iLen :: int
  m_iMaxLen :: int

text \<open>The memory of a new cache holds some bytes.\<close>

definition cache_new :: "string \<Rightarrow> AdCache" where
  "cache_new mem = \<lparr>m_cCache = mem, m_iLen = 0, m_iMaxLen = int AD_CACHE_MAX - 1\<rparr>"

text \<open>
  \<^verbatim>\<open>memcpy(dst + at, src, n)\<close>. A negative \<open>n\<close> is converted to \<^verbatim>\<open>size_t\<close> and exceeds every
  buffer.
\<close>

definition memcpy_at :: "string \<Rightarrow> int \<Rightarrow> string \<Rightarrow> int \<Rightarrow> string cxx" where
  "memcpy_at dst at src n =
     (if n < 0 \<or> at < 0 \<or> int (length src) < n then Inl OutOfBounds
      else mem_write dst (nat at) (take (nat n) src))"

definition cache_Write :: "string \<Rightarrow> int \<Rightarrow> AdCache \<Rightarrow> (int \<times> AdCache) cxx" where
  "cache_Write pBuff iLen c =
     (let n = (if iLen > m_iMaxLen c then m_iMaxLen c else iLen) in
      bind_cxx (memcpy_at (m_cCache c) 0 pBuff n) (\<lambda>m.
      bind_cxx (memcpy_at m n [CHR 0x00] 1) (\<lambda>m'.
        Inr (AD_SUCCESS, c\<lparr>m_cCache := m', m_iLen := n\<rparr>))))"

definition cache_Append :: "string \<Rightarrow> int \<Rightarrow> AdCache \<Rightarrow> (int \<times> AdCache) cxx" where
  "cache_Append buff iLen c =
     bind_cxx (add_int iLen (m_iLen c)) (\<lambda>s.
       if s > m_iMaxLen c then
         bind_cxx (memcpy_at (m_cCache c) (m_iLen c) buff (m_iMaxLen c - m_iLen c)) (\<lambda>m.
         bind_cxx (memcpy_at m (m_iMaxLen c) [CHR 0x00] 1) (\<lambda>m'.
           Inr (AD_FAILURE, c\<lparr>m_cCache := m', m_iLen := m_iMaxLen c\<rparr>)))
       else
         bind_cxx (memcpy_at (m_cCache c) (m_iLen c) buff iLen) (\<lambda>m.
         bind_cxx (memcpy_at m s [CHR 0x00] 1) (\<lambda>m'.
           Inr (AD_SUCCESS, c\<lparr>m_cCache := m', m_iLen := s\<rparr>))))"

definition cache_assign :: "AdCache \<Rightarrow> AdCache \<Rightarrow> AdCache cxx" where
  "cache_assign a c =
     bind_cxx (cache_Write (m_cCache a) (m_iLen a) c) (\<lambda>(_, c'). Inr c')"

definition cache_Clear :: "AdCache \<Rightarrow> AdCache" where
  "cache_Clear c = c\<lparr>m_iLen := 0\<rparr>"

definition cache_Set :: "int \<Rightarrow> AdCache \<Rightarrow> AdCache" where
  "cache_Set iLen c = c\<lparr>m_iLen := iLen\<rparr>"

definition cache_ok :: "AdCache \<Rightarrow> bool" where
  "cache_ok c \<longleftrightarrow> length (m_cCache c) = AD_CACHE_MAX \<and> m_iMaxLen c = int AD_CACHE_MAX - 1 \<and>
     0 \<le> m_iLen c \<and> m_iLen c \<le> m_iMaxLen c"

text \<open>The bytes a reader of the cache gets.\<close>

definition cache_data :: "AdCache \<Rightarrow> string" where
  "cache_data c = take (nat (m_iLen c)) (m_cCache c)"

lemma memcpy_ok:
  "k \<le> length src \<Longrightarrow> p + k \<le> length dst \<Longrightarrow>
    memcpy_at dst (int p) src (int k) = Inr (take p dst @ take k src @ drop (p + k) dst)"
  by (simp add: memcpy_at_def mem_write_def)

text \<open>A copy of \<open>k\<close> bytes to place \<open>p\<close> and the terminator behind it.\<close>

lemma memcpy_nul:
  assumes "k \<le> length src" "p + k < length dst"
  shows "\<exists>m. bind_cxx (memcpy_at dst (int p) src (int k)) (\<lambda>m. bind_cxx (memcpy_at m (int (p + k)) [CHR 0x00] 1) f) = f m \<and>
    length m = length dst \<and> take (p + k) m = take p dst @ take k src"
proof -
  let ?m = "take p dst @ take k src @ drop (p + k) dst"
  have l: "length (take p dst @ take k src) = p + k" using assms by simp
  have "memcpy_at ?m (int (p + k)) [CHR 0x00] (int 1) = Inr (take (p + k) ?m @ take 1 [CHR 0x00] @ drop (p + k + 1) ?m)"
    using assms by (intro memcpy_ok) auto
  moreover have "take (p + k) ?m = take p dst @ take k src"
    using l by (metis append.assoc append_eq_conv_conj)
  ultimately show ?thesis
    using assms l by (intro exI [of _ "take p dst @ take k src @ CHR 0x00 # drop (Suc (p + k)) dst"])
      (simp add: memcpy_ok)
qed

lemma cache_Write_ok:
  assumes "cache_ok c" "0 \<le> iLen" "iLen \<le> int (length pBuff)"
  shows "\<exists>c'. cache_Write pBuff iLen c = Inr (AD_SUCCESS, c') \<and> cache_ok c' \<and>
    cache_data c' = take (min (nat iLen) (AD_CACHE_MAX - 1)) pBuff"
proof -
  define k where "k = min (nat iLen) 8191"
  have k: "(if iLen > m_iMaxLen c then m_iMaxLen c else iLen) = int k" "k \<le> length pBuff" "k \<le> 8191"
    using assms by (auto simp: k_def cache_ok_def)
  have c: "length (m_cCache c) = 8192" using assms(1) by (simp add: cache_ok_def)
  obtain m where m: "cache_Write pBuff iLen c = Inr (AD_SUCCESS, c\<lparr>m_cCache := m, m_iLen := int k\<rparr>)"
    "length m = 8192" "take k m = take k pBuff"
    using memcpy_nul [of k pBuff 0 "m_cCache c" "\<lambda>m. Inr (AD_SUCCESS, c\<lparr>m_cCache := m, m_iLen := int k\<rparr>)"] k c
    unfolding cache_Write_def k(1) Let_def by auto
  with k assms(1) show ?thesis by (simp add: cache_ok_def cache_data_def k_def)
qed

lemma cache_Append_ok:
  assumes ok: "cache_ok c" and len: "0 \<le> iLen" "iLen \<le> int (length buff)" "iLen < 2 ^ 30"
  shows "\<exists>c'. cache_Append buff iLen c =
      Inr (if nat iLen + length (cache_data c) < AD_CACHE_MAX then AD_SUCCESS else AD_FAILURE, c') \<and>
    cache_ok c' \<and>
    cache_data c' = take (AD_CACHE_MAX - 1) (cache_data c @ take (nat iLen) buff)"
proof -
  obtain l where l: "m_iLen c = int l" using ok nonneg_int_cases by (auto simp: cache_ok_def)
  obtain k where k: "iLen = int k" using len(1) nonneg_int_cases by auto
  have c: "l \<le> 8191" "length (m_cCache c) = 8192" "m_iMaxLen c = 8191"
    using ok by (auto simp: cache_ok_def l)
  have s: "add_int iLen (m_iLen c) = Inr (int (k + l))"
    using len(3) c by (simp add: add_int_def k l)
  define j where "j = (if k + l \<le> 8191 then k else 8191 - l)"
  have j: "j \<le> length buff" "l + j < length (m_cCache c)" "l + j = min (l + k) 8191"
    using len(2) c by (auto simp: j_def k)
  let ?ret = "if k + l \<le> 8191 then AD_SUCCESS else AD_FAILURE"
  have sum: "k + l \<le> 8191 \<Longrightarrow> int (k + l) = int (l + j) \<and> int k = int j"
    "\<not> k + l \<le> 8191 \<Longrightarrow> 8191 = int (l + j) \<and> 8191 - int l = int j"
    using c by (auto simp: j_def)
  obtain m where m: "cache_Append buff iLen c = Inr (?ret, c\<lparr>m_cCache := m, m_iLen := int (l + j)\<rparr>)"
    "length m = 8192" "take (l + j) m = take l (m_cCache c) @ take j buff"
  proof (cases "k + l \<le> 8191")
    case True
    then have "\<not> int (k + l) > m_iMaxLen c" using c by simp
    with True that show thesis
      using memcpy_nul [OF j(1,2), of "\<lambda>m. Inr (?ret, c\<lparr>m_cCache := m, m_iLen := int (l + j)\<rparr>)"] c sum(1) s
      by (auto simp: cache_Append_def l k add.commute [of "int l"])
  next
    case False
    then have "int (k + l) > m_iMaxLen c" using c by simp
    with False that show thesis
      using memcpy_nul [OF j(1,2), of "\<lambda>m. Inr (?ret, c\<lparr>m_cCache := m, m_iLen := int (l + j)\<rparr>)"] c sum(2) s
      by (auto simp: cache_Append_def l k add.commute [of "int l"])
  qed
  have "cache_data c = take l (m_cCache c)" by (simp add: cache_data_def l)
  moreover from this have "length (cache_data c) = l" using c by simp
  moreover have "take l (m_cCache c) @ take j buff = take 8191 (take l (m_cCache c) @ take k buff)"
  proof -
    have "j = min (8191 - l) k" by (auto simp: j_def)
    with c show ?thesis by (simp add: min_absorb2)
  qed
  ultimately show ?thesis
    using m c j k ok by (simp add: cache_ok_def cache_data_def nat_add_distrib del: take_append)
qed

section \<open>Splitting strings\<close>

text \<open>\<^verbatim>\<open>find\<close> of a substring, and \<^verbatim>\<open>find_first_not_of\<close> as the string from there.\<close>

fun find_sub :: "string \<Rightarrow> string \<Rightarrow> nat option" where
  "find_sub sep [] = (if sep = [] then Some 0 else None)"
| "find_sub sep (c # s) =
     (if prefix sep (c # s) then Some 0 else map_option Suc (find_sub sep s))"

lemma find_sub_Some:
  "find_sub sep s = Some i \<Longrightarrow> i + length sep \<le> length s \<and> take (length sep) (drop i s) = sep"
proof (induction s arbitrary: i)
  case (Cons c s)
  show ?case
  proof (cases "prefix sep (c # s)")
    case True
    with Cons.prems show ?thesis using prefix_length_le [OF True] by (auto simp: prefix_def)
  next
    case False
    with Cons.prems obtain j where "find_sub sep s = Some j" "i = Suc j" by auto
    with Cons.IH [of j] show ?thesis by simp
  qed
qed (auto split: if_splits)

text \<open>
  The loop of \<^verbatim>\<open>StrSplit\<close> on the rest of the string from \<^verbatim>\<open>pos_begin\<close> on. With an empty separator
  the position does not move and the loop does not end.
\<close>

partial_function (option) StrSplit_loop :: "string \<Rightarrow> string \<Rightarrow> string list \<Rightarrow> string list option" where
  "StrSplit_loop sep rest ret =
     (case find_sub sep rest of
        Some comma_pos \<Rightarrow>
          (let tmp = take comma_pos rest in
           StrSplit_loop sep (drop (comma_pos + length sep) rest)
             (if tmp = [] then ret else ret @ [tmp]))
      | None \<Rightarrow> Some (if rest = [] then ret else ret @ [rest]))"

definition StrSplit :: "string \<Rightarrow> string list \<Rightarrow> string \<Rightarrow> string list option" where
  "StrSplit str ret sep =
     (let rest = dropWhile (\<lambda>c. c \<in> set sep) str in
      if rest = [] then Some ret else StrSplit_loop sep rest ret)"

text \<open>The same for the separators that are used, which are not empty.\<close>

function split_loop :: "string \<Rightarrow> string \<Rightarrow> string list" where
  "split_loop sep rest =
     (case find_sub sep rest of
        None \<Rightarrow> (if rest = [] then [] else [rest])
      | Some i \<Rightarrow>
          if sep = [] then []
          else (if i = 0 then [] else [take i rest]) @ split_loop sep (drop (i + length sep) rest))"
  by pat_completeness auto
termination
  by (relation "measure (\<lambda>(sep, rest). length rest)") (auto dest!: find_sub_Some simp flip: length_greater_0_conv)

declare split_loop.simps [simp del]

definition split_fields :: "string \<Rightarrow> string \<Rightarrow> string list" where
  "split_fields str sep = split_loop sep (dropWhile (\<lambda>c. c \<in> set sep) str)"

lemma StrSplit_loop_total:
  assumes "sep \<noteq> []"
  shows "StrSplit_loop sep rest ret = Some (ret @ split_loop sep rest)"
proof (induction rest arbitrary: ret rule: measure_induct_rule [where f = length])
  case (less rest)
  show ?case
  proof (cases "find_sub sep rest")
    case None
    then show ?thesis by (subst StrSplit_loop.simps) (simp add: split_loop.simps)
  next
    case (Some i)
    have "length (drop (i + length sep) rest) < length rest"
      using find_sub_Some [OF Some] assms by (cases rest) auto
    note IH = less [OF this]
    show ?thesis
      using assms Some find_sub_Some [OF Some]
      by (subst StrSplit_loop.simps, subst split_loop.simps) (auto simp: IH Let_def)
  qed
qed

text \<open>The fields between single separators, empty ones included.\<close>

fun split_on :: "char \<Rightarrow> string \<Rightarrow> string list" where
  "split_on c [] = [[]]"
| "split_on c (x # s) =
     (if x = c then [] # split_on c s
      else (case split_on c s of [] \<Rightarrow> [[x]] | f # fs \<Rightarrow> (x # f) # fs))"

lemma split_on_no [simp]: "c \<notin> set s \<Longrightarrow> split_on c s = [s]"
  by (induction s) auto

lemma split_on_append: "c \<notin> set a \<Longrightarrow> split_on c (a @ c # b) = a # split_on c b"
  by (induction a) auto

lemma find_sub_char:
  "find_sub [c] s = (if c \<in> set s then Some (length (takeWhile (\<lambda>x. x \<noteq> c) s)) else None)"
  by (induction s) (auto simp: prefix_Cons)

lemma split_loop_char: "split_loop [c] s = filter (\<lambda>f. f \<noteq> []) (split_on c s)"
proof (induction s rule: measure_induct_rule [where f = length])
  case (less s)
  show ?case
  proof (cases "c \<in> set s")
    case False
    then show ?thesis by (subst split_loop.simps) (simp add: find_sub_char)
  next
    case True
    let ?a = "takeWhile (\<lambda>x. x \<noteq> c) s" and ?b = "drop (length (takeWhile (\<lambda>x. x \<noteq> c) s) + 1) s"
    have "dropWhile (\<lambda>x. x \<noteq> c) s = c # ?b"
    proof -
      have "dropWhile (\<lambda>x. x \<noteq> c) s \<noteq> []" using True by (simp add: dropWhile_eq_Nil_conv)
      then have "hd (dropWhile (\<lambda>x. x \<noteq> c) s) = c" using hd_dropWhile [of "\<lambda>x. x \<noteq> c" s] by simp
      moreover have "tl (dropWhile (\<lambda>x. x \<noteq> c) s) = ?b"
        by (simp add: dropWhile_eq_drop drop_Suc tl_drop)
      ultimately show ?thesis using \<open>dropWhile (\<lambda>x. x \<noteq> c) s \<noteq> []\<close> by (metis list.collapse)
    qed
    then have s: "s = ?a @ c # ?b" by (metis takeWhile_dropWhile_id)
    have "length ?b < length s" using True by (cases s) auto
    note IH = less [OF this]
    have "c \<notin> set ?a" by (auto dest: set_takeWhileD)
    from split_on_append [OF this, of ?b] have so: "split_on c s = ?a # split_on c ?b"
      using s by simp
    have "split_loop [c] s = (if ?a = [] then [] else [?a]) @ split_loop [c] ?b"
      by (subst split_loop.simps) (simp add: find_sub_char True takeWhile_eq_take [symmetric])
    then show ?thesis unfolding so IH by simp
  qed
qed

lemma split_on_dropWhile:
  "filter (\<lambda>f. f \<noteq> []) (split_on c (dropWhile (\<lambda>x. x = c) s)) = filter (\<lambda>f. f \<noteq> []) (split_on c s)"
  by (induction s) auto

lemma split_fields_char: "split_fields s [c] = filter (\<lambda>f. f \<noteq> []) (split_on c s)"
  by (simp add: split_fields_def split_loop_char split_on_dropWhile)

lemma split_on_fields: "f \<in> set (split_on c s) \<Longrightarrow> c \<notin> set f"
  by (induction s arbitrary: f) (auto split: list.splits if_splits)

lemma concat_split_on: "concat (split_on c s) = filter (\<lambda>x. x \<noteq> c) s"
  by (induction s) (auto split: list.splits)

lemma StrSplit_fields: "sep \<noteq> [] \<Longrightarrow> StrSplit str ret sep = Some (ret @ split_fields str sep)"
proof -
  assume sep: "sep \<noteq> []"
  then have "split_loop sep [] = []" by (subst split_loop.simps) simp
  then have "(if rest = [] then Some ret else StrSplit_loop sep rest ret) = Some (ret @ split_loop sep rest)"
    for rest by (simp add: StrSplit_loop_total [OF sep])
  then show ?thesis unfolding StrSplit_def split_fields_def Let_def .
qed

lemma find_sub_empty: "find_sub [] s = Some 0"
  by (cases s) auto

lemma StrSplit_loop_empty: "StrSplit_loop [] rest ret = None"
proof -
  have "sep \<noteq> []" if "StrSplit_loop sep rest ret = Some y" for sep rest ret y
    by (rule StrSplit_loop.raw_induct [of "\<lambda>sep rest ret y. sep \<noteq> []", OF _ that])
      (auto simp: find_sub_empty Let_def split: option.splits)
  then show ?thesis by (cases "StrSplit_loop [] rest ret") auto
qed

section \<open>Replacing in strings\<close>

partial_function (option) StrReplace :: "string \<Rightarrow> string \<Rightarrow> string \<Rightarrow> string \<Rightarrow> string option" where
  "StrReplace sMatch sNew rest sDes =
     (case find_sub sMatch rest of
        Some comma_pos \<Rightarrow>
          StrReplace sMatch sNew (drop (comma_pos + length sMatch) rest)
            (sDes @ take comma_pos rest @ sNew)
      | None \<Rightarrow> Some (sDes @ rest))"

text \<open>A string without the marker is a list of pieces joined by the marker again.\<close>

fun join_with :: "string \<Rightarrow> string list \<Rightarrow> string" where
  "join_with sep [] = []"
| "join_with sep [s] = s"
| "join_with sep (s # t # ss) = s @ sep @ join_with sep (t # ss)"

function pieces :: "string \<Rightarrow> string \<Rightarrow> string list" where
  "pieces sep rest =
     (case find_sub sep rest of
        None \<Rightarrow> [rest]
      | Some i \<Rightarrow> if sep = [] then [] else take i rest # pieces sep (drop (i + length sep) rest))"
  by pat_completeness auto
termination
  by (relation "measure (\<lambda>(sep, rest). length rest)")
    (auto dest!: find_sub_Some simp flip: length_greater_0_conv)

declare pieces.simps [simp del]

lemma pieces_not_Nil: "sep \<noteq> [] \<Longrightarrow> pieces sep s \<noteq> []"
  by (subst pieces.simps) (auto split: option.split)

lemma join_with_Cons: "ss \<noteq> [] \<Longrightarrow> join_with sep (s # ss) = s @ sep @ join_with sep ss"
  by (cases ss) auto

lemma join_pieces: "sep \<noteq> [] \<Longrightarrow> join_with sep (pieces sep s) = s"
proof (induction s rule: measure_induct_rule [where f = length])
  case (less s)
  show ?case
  proof (cases "find_sub sep s")
    case None
    then show ?thesis by (subst pieces.simps) simp
  next
    case (Some i)
    note f = find_sub_Some [OF Some]
    have "length (drop (i + length sep) s) < length s"
      using f less.prems by (cases sep) auto
    note IH = less.IH [OF this less.prems]
    have "s = take i s @ sep @ drop (i + length sep) s"
      using f by (metis append_take_drop_id drop_drop add.commute)
    moreover have "pieces sep s = take i s # pieces sep (drop (i + length sep) s)"
      using less.prems Some by (subst pieces.simps) simp
    ultimately show ?thesis using IH join_with_Cons [OF pieces_not_Nil [OF less.prems]] by simp
  qed
qed

text \<open>No piece has a separator in it, and none that begins in it ends before the separator that follows it.\<close>

lemma find_sub_absent: "sep \<noteq> [] \<Longrightarrow> find_sub sep s = None \<Longrightarrow> \<not> sublist sep s"
  by (induction s) (auto simp: sublist_Cons_right split: if_splits)

lemma find_sub_first:
  "sep \<noteq> [] \<Longrightarrow> find_sub sep s = Some i \<Longrightarrow> \<not> sublist sep (take (i + length sep - 1) s)"
proof (induction s arbitrary: i)
  case (Cons c s)
  show ?case
  proof (cases "prefix sep (c # s)")
    case True
    then have "i = 0" using Cons.prems(2) by simp
    then have "length (take (i + length sep - 1) (c # s)) < length sep" using Cons.prems(1) by (cases sep) auto
    then show ?thesis by (meson sublist_length_le not_less)
  next
    case False
    then obtain j where j: "find_sub sep s = Some j" "i = Suc j" using Cons.prems(2) by auto
    have "take (i + length sep - 1) (c # s) = c # take (j + length sep - 1) s"
      using Cons.prems(1) by (cases sep) (simp_all add: j(2))
    moreover have "\<not> prefix sep (c # take (j + length sep - 1) s)"
    proof
      assume "prefix sep (c # take (j + length sep - 1) s)"
      also have "prefix (c # take (j + length sep - 1) s) (c # s)" by (simp add: take_is_prefix)
      finally show False using False by simp
    qed
    ultimately show ?thesis using Cons.IH [OF Cons.prems(1) j(1)] Cons.prems(1) by (simp add: sublist_Cons_right)
  qed
qed (auto split: if_splits)

lemma pieces_apart:
  "sep \<noteq> [] \<Longrightarrow> (\<forall>p \<in> set (butlast (pieces sep s)). \<not> sublist sep (p @ butlast sep)) \<and> \<not> sublist sep (last (pieces sep s))"
proof (induction s rule: measure_induct_rule [where f = length])
  case (less s)
  show ?case
  proof (cases "find_sub sep s")
    case None
    then have "pieces sep s = [s]" by (subst pieces.simps) simp
    then show ?thesis using find_sub_absent [OF less.prems None] by simp
  next
    case (Some i)
    note f = find_sub_Some [OF Some]
    have "length (drop (i + length sep) s) < length s" using f less.prems by (cases sep) auto
    note IH = less.IH [OF this less.prems]
    have e: "pieces sep s = take i s # pieces sep (drop (i + length sep) s)"
      using less.prems Some by (subst pieces.simps) simp
    have "i + length sep - 1 = i + (length sep - 1)" using less.prems by (cases sep) simp_all
    then have "take (i + length sep - 1) s = take i s @ take (length sep - 1) (drop i s)" by (simp only: take_add)
    also have "take (length sep - 1) (drop i s) = take (length sep - 1) (take (length sep) (drop i s))" by simp
    also have "\<dots> = butlast sep" using f by (simp add: butlast_conv_take)
    finally have "\<not> sublist sep (take i s @ butlast sep)" using find_sub_first [OF less.prems Some] by simp
    then show ?thesis using IH pieces_not_Nil [OF less.prems] by (simp add: e)
  qed
qed

lemma split_loop_pieces: "sep \<noteq> [] \<Longrightarrow> split_loop sep s = filter (\<lambda>f. f \<noteq> []) (pieces sep s)"
proof (induction s rule: measure_induct_rule [where f = length])
  case (less s)
  show ?case
  proof (cases "find_sub sep s")
    case None
    then show ?thesis by (subst split_loop.simps, subst pieces.simps) simp
  next
    case (Some i)
    note f = find_sub_Some [OF Some]
    have "length (drop (i + length sep) s) < length s" using f less.prems by (cases sep) auto
    from less.IH [OF this less.prems] show ?thesis
      using Some f less.prems by (subst split_loop.simps, subst pieces.simps) auto
  qed
qed

lemma StrReplace_pieces:
  "sep \<noteq> [] \<Longrightarrow> StrReplace sep new s des = Some (des @ join_with new (pieces sep s))"
proof (induction s arbitrary: des rule: measure_induct_rule [where f = length])
  case (less s)
  show ?case
  proof (cases "find_sub sep s")
    case None
    then show ?thesis by (subst StrReplace.simps, subst pieces.simps) simp
  next
    case (Some i)
    have "length (drop (i + length sep) s) < length s"
      using find_sub_Some [OF Some] less.prems by (cases sep) auto
    note IH = less.IH [OF this less.prems]
    have "pieces sep s = take i s # pieces sep (drop (i + length sep) s)"
      using less.prems Some by (subst pieces.simps) simp
    then show ?thesis
      using Some join_with_Cons [OF pieces_not_Nil [OF less.prems], of new "take i s"]
      by (subst StrReplace.simps) (simp add: IH)
  qed
qed

section \<open>Properties\<close>

text \<open>
  C32. \<^verbatim>\<open>Write\<close> and \<^verbatim>\<open>Append\<close> of the packet cache never write outside its 8192 bytes: what does
  not fit is cut off (reported by \<^verbatim>\<open>Append\<close> only), a byte is left for the terminator, and the
  cache holds the old contents followed by the new.
\<close>

theorem cache_bounded:
  assumes "cache_ok c" "0 \<le> iLen" "iLen \<le> int (length buff)" "iLen < 2 ^ 30"
  shows "(\<exists>c'. cache_Write buff iLen c = Inr (AD_SUCCESS, c') \<and> cache_ok c' \<and>
      cache_data c' = take (min (nat iLen) (AD_CACHE_MAX - 1)) buff) \<and>
    (\<exists>c'. cache_Append buff iLen c =
        Inr (if nat iLen + length (cache_data c) < AD_CACHE_MAX then AD_SUCCESS else AD_FAILURE, c') \<and>
      cache_ok c' \<and> cache_data c' = take (AD_CACHE_MAX - 1) (cache_data c @ take (nat iLen) buff))"
  using cache_Write_ok [OF assms(1-3)] cache_Append_ok [OF assms] by blast

theorem cache_bounded_witness:
  "(\<exists>c'. cache_Write ''abc'' 2 (cache_new (replicate 8192 CHR 0x00)) = Inr (AD_SUCCESS, c') \<and> cache_ok c' \<and>
      cache_data c' = ''ab'')"
  using cache_bounded [of "cache_new (replicate 8192 CHR 0x00)" 2 "''abc''"]
  by (simp add: cache_ok_def cache_new_def)

text \<open>
  C34. \<^verbatim>\<open>StrSplit\<close> returns for every separator that is not empty. It appends those of the pieces that are not empty, in
  order, where the pieces joined by the separator give the string without the characters of the separator at its start (which is
  what \<^verbatim>\<open>find_first_not_of\<close> skips, also when only some of a longer separator are there), and each piece ends at the first
  occurrence of the separator. For a single character these are the fields between the separators. For the empty separator it
  does not return on any string that is not empty.
\<close>

theorem StrSplit_spec:
  "(\<exists>ps. StrSplit str ret (c # sep) = Some (ret @ filter (\<lambda>f. f \<noteq> []) ps) \<and> ps \<noteq> [] \<and>
      join_with (c # sep) ps = dropWhile (\<lambda>x. x \<in> set (c # sep)) str \<and>
      (\<forall>p \<in> set (butlast ps). \<not> sublist (c # sep) (p @ butlast (c # sep))) \<and> \<not> sublist (c # sep) (last ps)) \<and>
   StrSplit str ret [c] = Some (ret @ filter (\<lambda>f. f \<noteq> []) (split_on c str)) \<and>
   StrSplit (x # str) ret [] = None"
proof (intro conjI)
  let ?ps = "pieces (c # sep) (dropWhile (\<lambda>x. x \<in> set (c # sep)) str)"
  have "StrSplit str ret (c # sep) = Some (ret @ filter (\<lambda>f. f \<noteq> []) ?ps)"
    using StrSplit_fields [of "c # sep" str ret] by (simp add: split_fields_def split_loop_pieces del: set_simps)
  then show "\<exists>ps. StrSplit str ret (c # sep) = Some (ret @ filter (\<lambda>f. f \<noteq> []) ps) \<and> ps \<noteq> [] \<and>
      join_with (c # sep) ps = dropWhile (\<lambda>x. x \<in> set (c # sep)) str \<and>
      (\<forall>p \<in> set (butlast ps). \<not> sublist (c # sep) (p @ butlast (c # sep))) \<and> \<not> sublist (c # sep) (last ps)"
    using pieces_not_Nil [of "c # sep"] join_pieces [of "c # sep"] pieces_apart [of "c # sep"]
    by (intro exI [of _ ?ps]) blast
qed (use StrSplit_fields [of "[c]" str ret] StrSplit_loop_empty [of "x # str" ret] in
  \<open>simp_all add: split_fields_char StrSplit_def\<close>)

theorem StrSplit_spec_witness:
  "StrSplit ''-ab->c->->d'' [] ''->'' = Some [''ab'', ''c'', ''d''] \<and> StrSplit '':ab::c'' [] '':'' = Some [''ab'', ''c''] \<and>
    StrSplit ''x'' [] [] = None"
proof -
  have "StrSplit ''-ab->c->->d'' [] ''->'' = Some [''ab'', ''c'', ''d'']"
    using StrSplit_fields [of "''->''" "''-ab->c->->d''" "[]"] by (simp add: split_fields_def split_loop.simps)
  then show ?thesis
    using StrSplit_spec [of "'':ab::c''" "[]" "CHR '':''" "''>''" "CHR ''x''"] StrSplit_spec [of "[]" "[]" "CHR ''-''" "''>''" "CHR ''x''"]
    by (simp add: StrSplit_fields split_fields_char)
qed

text \<open>
  \<^verbatim>\<open>StrReplace\<close> returns for every marker that is not empty, and its result is the pieces
  between the markers joined by the replacement; joined by the marker they give the source.
\<close>

theorem StrReplace_spec:
  "StrReplace (c # m) new s des = Some (des @ join_with new (pieces (c # m) s)) \<and>
   join_with (c # m) (pieces (c # m) s) = s"
  by (simp add: StrReplace_pieces join_pieces)

end
