(* ===== verification/AdFilterErase.thy ===== *)
theory AdFilterErase
  imports AdFilterIndex AdUtil
begin

text \<open>
  The filters that take units out of a result: the bans of an order and of a placement
  (\<^verbatim>\<open>ibidding/filter/src/AdFilterBan.cpp\<close>), the landing pages that Baidu forbids
  (\<^verbatim>\<open>AdFilterLandingPage.cpp\<close>), and the test of all flags and of the request's parameters
  (\<^verbatim>\<open>AdFilterParameter.cpp\<close>).
\<close>

section \<open>Bans\<close>

definition AdFilterBan_match ::
    "AdRtbRequest \<Rightarrow> AdPlanningUnit AD_MAP \<Rightarrow> AD_RESULT \<Rightarrow> AD_RESULT" where
  "AdFilterBan_match pRequest m mResult =
    (let adx = fmt_d (m_uiAdx pRequest);
         r1 = erase_key m (m_sPId pRequest) mResult;
         r2 = fold (\<lambda>s. erase_key m (snprintf 128 (''CAT_'' @ adx @ ''_'' @ c_str s)))
           (m_ltSensitive pRequest) r1;
         r3 = fold (\<lambda>s. erase_key m (snprintf 128 (''CAT_'' @ adx @ ''_'' @ c_str s)))
           (m_ltCategory pRequest) r2;
         r4 = fold (\<lambda>s. erase_key m (snprintf 128
             (''CRT_'' @ adx @ ''_'' @ c_str (m_sSize pRequest) @ ''_'' @ c_str s)))
           (m_ltCreate pRequest) r3;
         r5 = erase_key m (snprintf 128 (adx @ ''_'' @ c_str (m_sPId pRequest))) r4
     in fold (\<lambda>s. erase_key m (snprintf 128 (adx @ ''_'' @ c_str s))) (m_ltSiteCategory pRequest) r5)"

text \<open>
  The keys of one material: its creative type, its format (under \<^verbatim>\<open>FMT_\<close> keys, which no filter
  looks up) and its category, for Baidu also the first two letters of it. The second letter of a
  category of one letter is the terminator, which ends the key.
\<close>

definition ban_material ::
    "AdPlanningUnit \<Rightarrow> AdCreativeInfo \<Rightarrow> AdMaterialInfo \<Rightarrow> AdPlanningUnit AD_MAP \<Rightarrow>
     AdPlanningUnit AD_MAP" where
  "ban_material pUnit create mate m =
    (let adx = c_str (m_sAdxId create);
         size = fmt_d (m_uiWidth mate) @ ''x'' @ fmt_d (m_uiHeight mate);
         m1 = (if m_uiCreativeType mate \<noteq> 0
               then AdMap_update (snprintf 128 (''CRT_'' @ adx @ ''_'' @ size @ ''_'' @
                 fmt_d (m_uiCreativeType mate))) pUnit m
               else m);
         m2 = (if m_uiFormat mate \<noteq> 0
               then AdMap_update (snprintf 128 (''FMT_'' @ adx @ ''_'' @ size @ ''_'' @
                 fmt_d (m_uiFormat mate))) pUnit m1
               else m1)
     in if m_sCategory mate \<noteq> [] then
          let m3 = AdMap_update (snprintf 128 (''CAT_'' @ adx @ ''_'' @ c_str (m_sCategory mate))) pUnit m2
          in if AD_PROTOCOL_KEY_ADX_BAIDU = atoi adx
             then AdMap_update (c_str (snprintf 128 (''CAT_'' @ adx @ ''_'' @
               [m_sCategory mate ! 0,
                if 1 < length (m_sCategory mate) then m_sCategory mate ! 1 else CHR 0x00]))) pUnit m3
             else m3
        else m2)"

definition AdFilterBan_AddData ::
    "AdPlanningUnit \<Rightarrow> AdPlanningUnit AD_MAP \<Rightarrow> AdPlanningUnit AD_MAP" where
  "AdFilterBan_AddData pUnit m =
     (if \<not> bPush (m_stTime pUnit) then m
      else
       let m1 = fold (\<lambda>s. AdMap_update s pUnit) (m_ltBanContent (m_stOrder pUnit)) m;
           m2 = (case m_pltBanPidList pUnit of None \<Rightarrow> m1
                 | Some l \<Rightarrow> fold (\<lambda>s. AdMap_update s pUnit) l m1)
       in fold (\<lambda>(_, create) m.
            if m_sCreativeGroupId create = [] then m
            else fold (ban_material pUnit create) (m_ltMaterials create) m)
          (m_mCreativeInfo pUnit) m2)"

definition material_ban_keys :: "AdCreativeInfo \<Rightarrow> AdMaterialInfo \<Rightarrow> string list" where
  "material_ban_keys create mate =
    (let adx = c_str (m_sAdxId create);
         size = fmt_d (m_uiWidth mate) @ ''x'' @ fmt_d (m_uiHeight mate)
     in (if m_uiCreativeType mate \<noteq> 0
         then [snprintf 128 (''CRT_'' @ adx @ ''_'' @ size @ ''_'' @ fmt_d (m_uiCreativeType mate))]
         else []) @
        (if m_uiFormat mate \<noteq> 0
         then [snprintf 128 (''FMT_'' @ adx @ ''_'' @ size @ ''_'' @ fmt_d (m_uiFormat mate))]
         else []) @
        (if m_sCategory mate \<noteq> []
         then snprintf 128 (''CAT_'' @ adx @ ''_'' @ c_str (m_sCategory mate)) #
           (if AD_PROTOCOL_KEY_ADX_BAIDU = atoi adx
            then [c_str (snprintf 128 (''CAT_'' @ adx @ ''_'' @
               [m_sCategory mate ! 0,
                if 1 < length (m_sCategory mate) then m_sCategory mate ! 1 else CHR 0x00]))]
            else [])
         else []))"

definition AdFilterBan_keys :: "AdPlanningUnit \<Rightarrow> string list" where
  "AdFilterBan_keys pUnit =
     (if \<not> bPush (m_stTime pUnit) then []
      else m_ltBanContent (m_stOrder pUnit) @
        (case m_pltBanPidList pUnit of None \<Rightarrow> [] | Some l \<Rightarrow> l) @
        concat (map (\<lambda>(_, create). if m_sCreativeGroupId create = [] then []
            else concat (map (material_ban_keys create) (m_ltMaterials create)))
          (m_mCreativeInfo pUnit)))"

definition AdFilterBan_request_keys :: "AdRtbRequest \<Rightarrow> string list" where
  "AdFilterBan_request_keys pRequest =
    (let adx = fmt_d (m_uiAdx pRequest) in
     [m_sPId pRequest] @
     map (\<lambda>s. snprintf 128 (''CAT_'' @ adx @ ''_'' @ c_str s)) (m_ltSensitive pRequest) @
     map (\<lambda>s. snprintf 128 (''CAT_'' @ adx @ ''_'' @ c_str s)) (m_ltCategory pRequest) @
     map (\<lambda>s. snprintf 128 (''CRT_'' @ adx @ ''_'' @ c_str (m_sSize pRequest) @ ''_'' @ c_str s))
       (m_ltCreate pRequest) @
     [snprintf 128 (adx @ ''_'' @ c_str (m_sPId pRequest))] @
     map (\<lambda>s. snprintf 128 (adx @ ''_'' @ c_str s)) (m_ltSiteCategory pRequest))"

lemma ban_material_files:
  "ban_material pUnit create mate m = file_under (material_ban_keys create mate) pUnit m"
  by (simp add: ban_material_def material_ban_keys_def Let_def file_under_append)

lemma fold_update_id: "fold (\<lambda>s. AdMap_update s p) xs m = file_under xs p m"
  by (induction xs arbitrary: m) auto

interpretation ban_filter: erasing_filter AdFilterBan_AddData AdFilterBan_keys
  AdFilterBan_match AdFilterBan_request_keys
proof
  fix pUnit :: AdPlanningUnit and m
  have inner: "fold (ban_material pUnit create) ms m =
      file_under (concat (map (material_ban_keys create) ms)) pUnit m" for create ms m
    by (rule fold_files) (rule ban_material_files)
  have "fold (\<lambda>(_, create) m. if m_sCreativeGroupId create = [] then m
          else fold (ban_material pUnit create) (m_ltMaterials create) m) cs m =
     file_under (concat (map (\<lambda>(_, create). if m_sCreativeGroupId create = [] then []
            else concat (map (material_ban_keys create) (m_ltMaterials create))) cs)) pUnit m"
    for cs :: "(UINT \<times> AdCreativeInfo) list" and m
    by (rule fold_files) (auto simp: inner)
  then show "AdFilterBan_AddData pUnit m = file_under (AdFilterBan_keys pUnit) pUnit m"
    by (simp add: AdFilterBan_AddData_def AdFilterBan_keys_def Let_def fold_update_id file_under_append
        split: option.split)
qed (simp add: AdFilterBan_match_def AdFilterBan_request_keys_def Let_def fold_map o_def)

section \<open>Landing pages\<close>

text \<open>\<^verbatim>\<open>m_mLandPages\<close>: the forbidden hosts of a placement.\<close>

type_synonym landing_pages = "(string \<times> string list) list"

text \<open>
  One line \<^verbatim>\<open>pid\<close>, tab, \<^verbatim>\<open>url\<close>; the pid and the url of the line before are kept when the line has
  another form.
\<close>

definition ADLandingPageParse :: "string \<Rightarrow> string \<Rightarrow> string \<Rightarrow> string \<times> string" where
  "ADLandingPageParse sStr sPid sUrl =
    (let vStr = split_fields sStr [CHR 0x09] in
     if length vStr = 2 then
       let v = split_fields (vStr ! 1) [CHR 0x0A] in
       (vStr ! 0, if length v \<ge> 1 then v ! 0 else sUrl)
     else (sPid, sUrl))"

text \<open>\<open>lines\<close> is what \<^verbatim>\<open>fgets\<close> reads with a buffer of 512 bytes, \<open>None\<close> when \<^verbatim>\<open>fopen\<close> fails.\<close>

definition AdFilterLandingPageInit :: "string list option \<Rightarrow> landing_pages \<Rightarrow> int \<times> landing_pages" where
  "AdFilterLandingPageInit file pages =
     (case file of
        None \<Rightarrow> (AD_FAILURE, pages)
      | Some lines \<Rightarrow>
          (AD_SUCCESS, fst (fold (\<lambda>line (pages, sPid, sUrl).
             let (sPid', sUrl') = ADLandingPageParse line sPid sUrl in
             (smap_upd sPid' ((case map_of pages sPid' of None \<Rightarrow> [] | Some l \<Rightarrow> l) @ [sUrl']) pages,
              sPid', sUrl')) lines (pages, [], []))))"

text \<open>
  The host of an URL and its suffixes of at least two labels. The inner loop joins the labels
  with dots, the outer one drops the first label.
\<close>

fun host_join :: "string \<Rightarrow> string list \<Rightarrow> string" where
  "host_join sTemp [] = sTemp"
| "host_join sTemp (s # ss) = host_join (if sTemp = [] then s else sTemp @ ''.'' @ s) ss"

fun host_suffixes :: "string list \<Rightarrow> string list" where
  "host_suffixes [] = []"
| "host_suffixes [s] = []"
| "host_suffixes (s # t # ss) = host_join [] (s # t # ss) # host_suffixes (t # ss)"

definition AdFilterLandingPageUrlParse :: "string \<Rightarrow> string list" where
  "AdFilterLandingPageUrlParse sSrc =
    (let v1 = split_fields sSrc ''//'' in
     if length v1 < 2 then [] else
     let v2 = split_fields (v1 ! 1) ''/'' in
     if length v2 < 1 then [] else
     let v3 = split_fields (v2 ! 0) ''?'' in
     if length v3 < 1 then [] else host_suffixes (split_fields (v3 ! 0) ''.''))"

definition AdFilterLandingPage_match ::
    "landing_pages \<Rightarrow> AdRtbRequest \<Rightarrow> AdPlanningUnit AD_MAP \<Rightarrow> AD_RESULT \<Rightarrow> AD_RESULT" where
  "AdFilterLandingPage_match pages pRequest m mResult =
     (if m_uiAdx pRequest = AD_PROTOCOL_KEY_ADX_BAIDU then
        (case map_of pages (m_sPId pRequest) of
           None \<Rightarrow> mResult
         | Some pVec \<Rightarrow> fold (erase_key m) pVec mResult)
      else mResult)"

definition AdFilterLandingPage_AddData ::
    "AdPlanningUnit \<Rightarrow> AdPlanningUnit AD_MAP \<Rightarrow> AdPlanningUnit AD_MAP" where
  "AdFilterLandingPage_AddData pUnit m =
     (if \<not> bPush (m_stTime pUnit) then m
      else fold (\<lambda>(_, create) m.
          case m_ltMaterials create of
            [] \<Rightarrow> m
          | mate # _ \<Rightarrow> fold (\<lambda>s. AdMap_update (c_str s) pUnit)
              (AdFilterLandingPageUrlParse (m_sDestinationUrl mate)) m)
        (m_mCreativeInfo pUnit) m)"

definition AdFilterLandingPage_keys :: "AdPlanningUnit \<Rightarrow> string list" where
  "AdFilterLandingPage_keys pUnit =
     (if \<not> bPush (m_stTime pUnit) then []
      else concat (map (\<lambda>(_, create). case m_ltMaterials create of [] \<Rightarrow> []
          | mate # _ \<Rightarrow> map c_str (AdFilterLandingPageUrlParse (m_sDestinationUrl mate)))
        (m_mCreativeInfo pUnit)))"

definition AdFilterLandingPage_request_keys :: "landing_pages \<Rightarrow> AdRtbRequest \<Rightarrow> string list" where
  "AdFilterLandingPage_request_keys pages pRequest =
     (if m_uiAdx pRequest = AD_PROTOCOL_KEY_ADX_BAIDU
      then (case map_of pages (m_sPId pRequest) of None \<Rightarrow> [] | Some l \<Rightarrow> l) else [])"

interpretation landing_filter: erasing_filter AdFilterLandingPage_AddData AdFilterLandingPage_keys
  "\<lambda>(pages, pRequest). AdFilterLandingPage_match pages pRequest"
  "\<lambda>(pages, pRequest). AdFilterLandingPage_request_keys pages pRequest"
proof
  show "AdFilterLandingPage_AddData pUnit m = file_under (AdFilterLandingPage_keys pUnit) pUnit m" for pUnit m
    unfolding AdFilterLandingPage_AddData_def AdFilterLandingPage_keys_def
    by (auto simp: fold_update_map split: list.split intro!: fold_files)
qed (auto simp: AdFilterLandingPage_match_def AdFilterLandingPage_request_keys_def split: option.split)

lemma host_join_acc: "sTemp \<noteq> [] \<Longrightarrow> host_join sTemp ss = sTemp @ concat (map (\<lambda>s. ''.'' @ s) ss)"
  by (induction ss arbitrary: sTemp) auto

lemma join_with_concat: "join_with sep (s # ss) = s @ concat (map (\<lambda>t. sep @ t) ss)"
  by (induction ss arbitrary: s) auto

lemma host_join_labels: "[] \<notin> set ss \<Longrightarrow> ss \<noteq> [] \<Longrightarrow> host_join [] ss = join_with ''.'' ss"
  by (cases ss) (auto simp: host_join_acc join_with_concat)

text \<open>The keys of a URL are the suffixes of two or more labels of its host.\<close>

lemma host_suffixes_iff:
  assumes "[] \<notin> set ss"
  shows "t \<in> set (host_suffixes ss) \<longleftrightarrow> (\<exists>i. i + 2 \<le> length ss \<and> t = join_with ''.'' (drop i ss))"
  using assms
proof (induction ss rule: host_suffixes.induct)
  case (3 s u ss)
  have "(\<exists>i. i + 2 \<le> length (s # u # ss) \<and> t = join_with ''.'' (drop i (s # u # ss))) \<longleftrightarrow>
    t = join_with ''.'' (s # u # ss) \<or> (\<exists>i. i + 2 \<le> length (u # ss) \<and> t = join_with ''.'' (drop i (u # ss)))"
    (is "?L \<longleftrightarrow> ?R")
  proof
    assume ?L
    then obtain i where i: "i + 2 \<le> length (s # u # ss)" "t = join_with ''.'' (drop i (s # u # ss))" by blast
    then show ?R by (cases i) auto
  next
    assume ?R
    then show ?L
    proof
      assume "\<exists>i. i + 2 \<le> length (u # ss) \<and> t = join_with ''.'' (drop i (u # ss))"
      then obtain i where "i + 2 \<le> length (u # ss)" "t = join_with ''.'' (drop i (u # ss))" by blast
      then show ?L by (intro exI [of _ "Suc i"]) auto
    qed (auto intro: exI [of _ 0])
  qed
  moreover have "host_suffixes (s # u # ss) = join_with ''.'' (s # u # ss) # host_suffixes (u # ss)"
    using host_join_labels [of "s # u # ss"] 3(2) by (simp only: host_suffixes.simps) simp
  ultimately show ?case using 3 by (simp del: host_suffixes.simps join_with.simps)
qed auto

section \<open>All flags and the parameters of the request\<close>

definition parameter_mask :: "UINT \<Rightarrow> UINT" where
  "parameter_mask uiFlow =
     (if uiFlow = AD_PROTOCOL_FLOW_MOBILE then AD_FILTER_NORMAL OR AD_FILTER_MOBILE
      else AD_FILTER_NORMAL)"

definition video_size :: "AdRtbRequest \<Rightarrow> UINT \<times> UINT" where
  "video_size pRequest =
    (let vPara = split_fields (m_sSize pRequest) ''x'' in
     if length vPara = 2 then (atoi (c_str (vPara ! 0)), atoi (c_str (vPara ! 1))) else (0, 0))"

text \<open>Whether the loop keeps an entry of the result.\<close>

definition parameter_keep :: "AdRtbRequest \<Rightarrow> AdPlanningUnit \<Rightarrow> AdRtbFilterResult \<Rightarrow> bool" where
  "parameter_keep pRequest pUnit sResult =
    (let uiFlow = atoi (c_str (m_sFlow pRequest));
         uiView = atoi (c_str (m_sAdViewScreen pRequest));
         uiViewType = atoi (c_str (m_sAdViewType pRequest));
         (width, height) = (if uiFlow = AD_PROTOCOL_FLOW_VIDEO then video_size pRequest else (0, 0))
     in if m_uiMatch sResult \<noteq> parameter_mask uiFlow then False
        else if uiFlow = AD_PROTOCOL_FLOW_MOBILE \<and> \<not> m_bEnable (m_stMobile pUnit) \<or>
          uiFlow = AD_PROTOCOL_FLOW_PC \<and> m_bEnable (m_stMobile pUnit) then False
        else if m_ltAdViewScreen (m_stOrder pUnit) \<noteq> [] \<and>
          \<not> list_ex (\<lambda>x. x = 0 \<or> x \<ge> uiView) (m_ltAdViewScreen (m_stOrder pUnit)) then False
        else if m_ltAdViewType (m_stOrder pUnit) \<noteq> [] \<and>
          \<not> list_ex (\<lambda>x. x = 0 \<or> x = uiViewType) (m_ltAdViewType (m_stOrder pUnit)) then False
        else if uiFlow = AD_PROTOCOL_FLOW_VIDEO then
          height > 0 \<and> width > 0 \<and>
          (case map_of (m_mCreativeInfo pUnit) (m_uiAdx pRequest) of
             None \<Rightarrow> False
           | Some create \<Rightarrow> list_ex (\<lambda>mate. m_uiHeight mate = height \<and> m_uiWidth mate = width)
               (m_ltMaterials create))
        else True)"

definition AdFilterParameter_match :: "AdRtbRequest \<Rightarrow> AD_RESULT \<Rightarrow> AD_RESULT" where
  "AdFilterParameter_match pRequest mResult =
     filter (\<lambda>(_, (pUnit, sResult)). parameter_keep pRequest pUnit sResult) mResult"

lemma map_of_parameter:
  assumes "result_ok U res"
  shows "map_of (AdFilterParameter_match q res) i =
    (case map_of res i of None \<Rightarrow> None
     | Some (u, r) \<Rightarrow> if parameter_keep q u r then Some (u, r) else None)"
  using assms map_of_filter_smap [of res "\<lambda>_ (u, r). parameter_keep q u r" i]
  by (auto simp: AdFilterParameter_match_def result_ok_def split_def split: option.split)

end
