(* ===== verification/JsonValue.thy ===== *)
theory JsonValue
  imports Complex_Main AdCString
begin

text \<open>
  The parts of \<^verbatim>\<open>Json::Value\<close> (\<^verbatim>\<open>libjson/src/json_value.cpp\<close>) that the program uses to read parsed
  documents. A conversion that throws and an assertion that fails are \<open>BadJson\<close>: nothing
  catches them. The reader itself is an argument of the functions that use it. The non-constant
  \<^verbatim>\<open>operator[]\<close> adds a missing member with the value null; the program never asks \<^verbatim>\<open>isMember\<close>
  after it, so the addition is left out. Strings are C strings.
\<close>

datatype Json =
    JNull
  | JInt int
  | JUInt nat
  | JReal rat
  | JString string
  | JBool bool
  | JArray "Json list"
  | JObject "(string \<times> Json) list"

type_synonym json_reader = "string \<Rightarrow> Json option"

definition json_asString :: "Json \<Rightarrow> string cxx" where
  "json_asString v =
     (case v of
        JNull \<Rightarrow> Inr []
      | JString s \<Rightarrow> Inr (c_str s)
      | JBool b \<Rightarrow> Inr (if b then ''true'' else ''false'')
      | _ \<Rightarrow> Inl BadJson)"

text \<open>The conversion \<^verbatim>\<open>Int(value_.real_)\<close> truncates.\<close>

definition json_asInt :: "Json \<Rightarrow> UINT cxx" where
  "json_asInt v =
     (case v of
        JNull \<Rightarrow> Inr 0
      | JInt i \<Rightarrow> Inr (of_int i)
      | JUInt n \<Rightarrow> if n < 2 ^ 31 - 1 then Inr (of_nat n) else Inl BadJson
      | JReal r \<Rightarrow>
          if - (2 ^ 31) \<le> r \<and> r \<le> 2 ^ 31 - 1
          then Inr (of_int (if 0 \<le> r then \<lfloor>r\<rfloor> else \<lceil>r\<rceil>)) else Inl BadJson
      | JBool b \<Rightarrow> Inr (if b then 1 else 0)
      | _ \<Rightarrow> Inl BadJson)"

definition json_asDouble :: "Json \<Rightarrow> rat cxx" where
  "json_asDouble v =
     (case v of
        JNull \<Rightarrow> Inr 0
      | JInt i \<Rightarrow> Inr (of_int i)
      | JUInt n \<Rightarrow> Inr (of_nat n)
      | JReal r \<Rightarrow> Inr r
      | JBool b \<Rightarrow> Inr (if b then 1 else 0)
      | _ \<Rightarrow> Inl BadJson)"

definition json_size :: "Json \<Rightarrow> nat" where
  "json_size v = (case v of JArray xs \<Rightarrow> length xs | JObject ms \<Rightarrow> length ms | _ \<Rightarrow> 0)"

text \<open>\<^verbatim>\<open>operator[](UInt)\<close>, \<^verbatim>\<open>operator[](const char *)\<close> and \<^verbatim>\<open>isMember\<close>.\<close>

definition json_index :: "Json \<Rightarrow> nat \<Rightarrow> Json cxx" where
  "json_index v i =
     (case v of
        JNull \<Rightarrow> Inr JNull
      | JArray xs \<Rightarrow> Inr (if i < length xs then xs ! i else JNull)
      | _ \<Rightarrow> Inl BadJson)"

definition json_get :: "Json \<Rightarrow> string \<Rightarrow> Json cxx" where
  "json_get v key =
     (case v of
        JNull \<Rightarrow> Inr JNull
      | JObject ms \<Rightarrow> Inr (case map_of ms key of None \<Rightarrow> JNull | Some x \<Rightarrow> x)
      | _ \<Rightarrow> Inl BadJson)"

definition json_isMember :: "Json \<Rightarrow> string \<Rightarrow> bool cxx" where
  "json_isMember v key =
     (case v of
        JNull \<Rightarrow> Inr False
      | JObject ms \<Rightarrow> Inr (map_of ms key \<noteq> None)
      | _ \<Rightarrow> Inl BadJson)"

text \<open>
  The loop \<^verbatim>\<open>for(i = 0; i < v.size(); i ++)\<close> over \<^verbatim>\<open>v[i]\<close>, with a body that changes a state.
\<close>

definition json_for :: "Json \<Rightarrow> (Json \<Rightarrow> 's \<Rightarrow> 's cxx) \<Rightarrow> 's \<Rightarrow> 's cxx" where
  "json_for v body s =
     fold_cxx (\<lambda>i s. bind_cxx (json_index v i) (\<lambda>x. body x s)) [0..<json_size v] s"

lemma fold_cxx_cong:
  "(\<And>x s. x \<in> set xs \<Longrightarrow> f x s = g x s) \<Longrightarrow> fold_cxx f xs s = fold_cxx g xs s"
proof (induction xs arbitrary: s)
  case (Cons x xs)
  then have "\<And>t. fold_cxx f xs t = fold_cxx g xs t" by auto
  then have "fold_cxx f xs = fold_cxx g xs" by (rule ext)
  with Cons.prems show ?case by simp
qed simp

lemma fold_cxx_map: "fold_cxx f (map g xs) s = fold_cxx (\<lambda>x. f (g x)) xs s"
proof (induction xs arbitrary: s)
  case (Cons x xs)
  then have "fold_cxx f (map g xs) = fold_cxx (\<lambda>x. f (g x)) xs" by (rule ext)
  then show ?case by simp
qed simp

text \<open>Over an array it visits the elements in order, and over a number or a string nothing.\<close>

lemma json_for_array: "json_for (JArray xs) body s = fold_cxx body xs s"
proof -
  have "json_for (JArray xs) body s = fold_cxx (\<lambda>i. body (xs ! i)) [0..<length xs] s"
    unfolding json_for_def
    by (simp add: json_size_def) (rule fold_cxx_cong, auto simp: json_index_def)
  also have "\<dots> = fold_cxx body (map ((!) xs) [0..<length xs]) s" by (simp add: fold_cxx_map)
  finally show ?thesis by (simp add: map_nth)
qed

lemma json_for_other [simp]:
  "json_for JNull body s = Inr s" "json_for (JString t) body s = Inr s"
  "json_for (JInt i) body s = Inr s" "json_for (JBool b) body s = Inr s"
  by (simp_all add: json_for_def json_size_def)

text \<open>A member that may be missing.\<close>

definition json_when :: "Json \<Rightarrow> string \<Rightarrow> (Json \<Rightarrow> 's \<Rightarrow> 's cxx) \<Rightarrow> 's \<Rightarrow> 's cxx" where
  "json_when v key body s =
     bind_cxx (json_isMember v key) (\<lambda>b.
       if b then bind_cxx (json_get v key) (\<lambda>x. body x s) else Inr s)"

lemma json_when_object:
  "json_when (JObject ms) key body s = (case map_of ms key of None \<Rightarrow> Inr s | Some x \<Rightarrow> body x s)"
  by (simp add: json_when_def json_isMember_def json_get_def split: option.split)

end
