(* ===== verification/AdFilterTanx.thy ===== *)
theory AdFilterTanx
  imports AdFilterErase JsonValue
begin

text \<open>
  The filter of the exchange Tanx (\<^verbatim>\<open>ibidding/filter/inc/AdFilterTanx.h\<close>,
  \<^verbatim>\<open>AdFilterTanx.cpp\<close>): what a placement excludes is read from two files of JSON lines, and the
  units of an excluded category are erased. The JSON reader is an argument.
\<close>

abbreviation AD_TANX_CATEGORY :: nat where "AD_TANX_CATEGORY \<equiv> 0"
abbreviation AD_TANX_LANDING_PAGE :: nat where "AD_TANX_LANDING_PAGE \<equiv> 1"
abbreviation AD_TANX_CREATIVE_TYPE :: nat where "AD_TANX_CREATIVE_TYPE \<equiv> 2"
abbreviation AD_TANX_ADVERTISE :: nat where "AD_TANX_ADVERTISE \<equiv> 3"
abbreviation AD_TANX_CREATIVE_LEVEL :: nat where "AD_TANX_CREATIVE_LEVEL \<equiv> 4"
abbreviation AD_TANX_MAX :: nat where "AD_TANX_MAX \<equiv> 5"

text \<open>\<^verbatim>\<open>AdTanxContent\<close> is its vector of lists, one for each kind of exclusion.\<close>

type_synonym AdTanxContent = "string list list"

definition tanx_new :: AdTanxContent where
  "tanx_new = replicate AD_TANX_MAX []"

definition tanx_add :: "string \<Rightarrow> int \<Rightarrow> AdTanxContent \<Rightarrow> AdTanxContent" where
  "tanx_add sStr iType c =
     (if iType < int AD_TANX_MAX \<and> iType \<ge> 0 then c[nat iType := c ! nat iType @ [sStr]] else c)"

definition tanx_get :: "UINT \<Rightarrow> AdTanxContent \<Rightarrow> string list" where
  "tanx_get uiType c = (if unat uiType < AD_TANX_MAX then c ! unat uiType else c ! AD_TANX_CATEGORY)"

record AdTanxDescription =
  m_ctContent :: AdTanxContent
  m_vInterval :: "string list"
  m_vArea :: "string list"

type_synonym tanx_contents = "(string \<times> AdTanxContent) list"

text \<open>\<^verbatim>\<open>m_mPidDes\<close>.\<close>

type_synonym tanx_pids = "(string \<times> AdTanxDescription list) list"

text \<open>\<^verbatim>\<open>mContent[sFilter]\<close>: the content of a filter, new when there is none.\<close>

definition content_at :: "string \<Rightarrow> tanx_contents \<Rightarrow> AdTanxContent" where
  "content_at k mContent = (case map_of mContent k of None \<Rightarrow> tanx_new | Some c \<Rightarrow> c)"

definition json_number :: "Json \<Rightarrow> string cxx" where
  "json_number v = bind_cxx (json_asInt v) (\<lambda>i. Inr (snprintf 128 (fmt_d i)))"

text \<open>The loop over one member: its elements, as numbers or strings, are added to one list.\<close>

definition tanx_member ::
    "(Json \<Rightarrow> string cxx) \<Rightarrow> string \<Rightarrow> nat \<Rightarrow> Json \<Rightarrow> AdTanxContent \<Rightarrow> AdTanxContent cxx" where
  "tanx_member conv key iType value =
     json_when value key (\<lambda>v. json_for v (\<lambda>x c.
       bind_cxx (conv x) (\<lambda>s. Inr (tanx_add s (int iType) c))))"

definition ADFilterTanxParseContent ::
    "json_reader \<Rightarrow> string \<Rightarrow> tanx_contents \<Rightarrow> (int \<times> tanx_contents) cxx" where
  "ADFilterTanxParseContent parse sStr mContent =
     (case parse (c_str sStr) of
        None \<Rightarrow> Inr (AD_SUCCESS, mContent)
      | Some value \<Rightarrow>
          bind_cxx (json_isMember value ''filter_id'') (\<lambda>b.
          if \<not> b then Inr (AD_FAILURE, mContent)
          else
          bind_cxx (json_get value ''filter_id'') (\<lambda>f.
          bind_cxx (json_asString f) (\<lambda>sFilter.
          bind_cxx (tanx_member json_number ''excluded_ad_category'' AD_TANX_CATEGORY value
            (content_at sFilter mContent)) (\<lambda>c1.
          bind_cxx (tanx_member json_asString ''excluded_click_through_url'' AD_TANX_LANDING_PAGE
            value c1) (\<lambda>c2.
          bind_cxx (tanx_member json_number ''excluded_filter'' AD_TANX_CREATIVE_TYPE value c2) (\<lambda>c3.
          bind_cxx (tanx_member json_asString ''excluded_brand_advertiser_id'' AD_TANX_ADVERTISE
            value c3) (\<lambda>c4.
          bind_cxx (tanx_member json_asString ''included_adboard_level'' AD_TANX_CREATIVE_LEVEL
            value c4) (\<lambda>c5.
            Inr (AD_SUCCESS, smap_upd sFilter c5 mContent))))))))))"

text \<open>\<^verbatim>\<open>mContent[sFilter]\<close> also adds an empty content for an unknown filter.\<close>

definition ADFilterTanxParseDescreption ::
    "json_reader \<Rightarrow> string \<Rightarrow> tanx_contents \<Rightarrow> tanx_pids \<Rightarrow> (int \<times> tanx_contents \<times> tanx_pids) cxx" where
  "ADFilterTanxParseDescreption parse sStr mContent mPidDes =
     (case parse (c_str sStr) of
        None \<Rightarrow> Inr (AD_SUCCESS, mContent, mPidDes)
      | Some value \<Rightarrow>
          bind_cxx (json_isMember value ''filter_id'') (\<lambda>b.
          if \<not> b then Inr (AD_FAILURE, mContent, mPidDes)
          else
          bind_cxx (json_get value ''filter_id'') (\<lambda>f.
          bind_cxx (json_asString f) (\<lambda>sFilter.
          let ctDes = \<lparr>m_ctContent = content_at sFilter mContent, m_vInterval = [], m_vArea = []\<rparr>;
              mContent' = smap_upd sFilter (content_at sFilter mContent) mContent in
          bind_cxx (json_when value ''include_area'' (\<lambda>v. json_for v (\<lambda>x d.
            bind_cxx (json_number x) (\<lambda>s. Inr (d\<lparr>m_vArea := m_vArea d @ [s]\<rparr>)))) ctDes) (\<lambda>d1.
          bind_cxx (json_when value ''include_interval'' (\<lambda>v. json_for v (\<lambda>x d.
            bind_cxx (json_number x) (\<lambda>s. Inr (d\<lparr>m_vInterval := m_vInterval d @ [s]\<rparr>)))) d1) (\<lambda>d2.
          bind_cxx (json_when value ''include_pid'' (\<lambda>v. json_for v (\<lambda>x pids.
            bind_cxx (json_asString x) (\<lambda>pid.
              Inr (smap_upd pid ((case map_of pids pid of None \<Rightarrow> [] | Some l \<Rightarrow> l) @ [d2]) pids))))
            mPidDes) (\<lambda>pids.
            Inr (AD_SUCCESS, mContent', pids))))))))"

text \<open>
  The lines of a file as the reading loop passes them on: a line that fills the buffer is skipped
  with the chunks of it that follow, and \<^verbatim>\<open>^D\<close> ends the file. \<open>chunks\<close> is what \<^verbatim>\<open>fgets\<close>
  returns with a buffer of 40960 bytes.
\<close>

abbreviation LINE_MAX :: nat where "LINE_MAX \<equiv> 40960"

fun tanx_skip :: "string list \<Rightarrow> string list" where
  "tanx_skip [] = []"
| "tanx_skip (c # cs) = (if length (c_str c) < LINE_MAX - 1 then cs else tanx_skip cs)"

lemma length_tanx_skip: "length (tanx_skip cs) \<le> length cs"
  by (induction cs) auto

function tanx_lines :: "string list \<Rightarrow> string list" where
  "tanx_lines [] = []"
| "tanx_lines (c # cs) =
     (if length (c_str c) \<ge> LINE_MAX - 1 then tanx_lines (tanx_skip cs)
      else if c_str c = ''^D'' then []
      else c_str c # tanx_lines cs)"
  by pat_completeness auto
termination
  by (relation "measure length") (auto simp: le_imp_less_Suc length_tanx_skip)

text \<open>
  A file is its path and what can be read from it, \<open>None\<close> when \<^verbatim>\<open>fopen\<close> fails.
\<close>

definition AdFilterTanxInit ::
    "json_reader \<Rightarrow> string \<times> string list option \<Rightarrow> string \<times> string list option \<Rightarrow> tanx_pids \<Rightarrow>
     (int \<times> tanx_pids) cxx" where
  "AdFilterTanxInit parse sFilter sDes mPidDes =
     (if fst sFilter = [] \<or> fst sDes = [] then Inr (AD_FAILURE, mPidDes)
      else case snd sFilter of
        None \<Rightarrow> Inr (AD_FAILURE, mPidDes)
      | Some chunks \<Rightarrow>
          bind_cxx (fold_cxx (\<lambda>line mContent.
              bind_cxx (ADFilterTanxParseContent parse line mContent) (\<lambda>(_, m). Inr m))
            (tanx_lines chunks) []) (\<lambda>mContent.
          case snd sDes of
            None \<Rightarrow> Inr (AD_FAILURE, mPidDes)
          | Some chunks \<Rightarrow>
              bind_cxx (fold_cxx (\<lambda>line (mContent, pids).
                  bind_cxx (ADFilterTanxParseDescreption parse line mContent pids) (\<lambda>(_, r). Inr r))
                (tanx_lines chunks) (mContent, mPidDes)) (\<lambda>(_, pids).
                Inr (AD_SUCCESS, pids))))"

section \<open>Matching\<close>

definition AdFilterTanx_match ::
    "tanx_pids \<Rightarrow> AdRtbRequest \<Rightarrow> AdPlanningUnit AD_MAP \<Rightarrow> AD_RESULT \<Rightarrow> AD_RESULT" where
  "AdFilterTanx_match mPidDes pRequest m mResult =
     (if m_uiAdx pRequest \<noteq> AD_PROTOCOL_KEY_ADX_TANX then mResult
      else case map_of mPidDes (m_sPId pRequest) of
        None \<Rightarrow> mResult
      | Some l \<Rightarrow>
          fold (\<lambda>des r.
              if m_vArea des = [] \<and> m_vInterval des = []
              then fold (\<lambda>s. erase_key m
                    (snprintf 128 (''CAT_'' @ fmt_d (m_uiAdx pRequest) @ ''_'' @ c_str s)))
                  (tanx_get (of_nat AD_TANX_CATEGORY) (m_ctContent des)) r
              else r) l mResult)"

definition AdFilterTanx_AddData ::
    "AdPlanningUnit \<Rightarrow> AdPlanningUnit AD_MAP \<Rightarrow> AdPlanningUnit AD_MAP" where
  "AdFilterTanx_AddData pUnit m =
     (if \<not> bPush (m_stTime pUnit) then m
      else fold (\<lambda>(_, create) m.
          if m_sCreativeGroupId create = [] then m
          else fold (\<lambda>mate m.
              if m_sCategory mate \<noteq> []
              then AdMap_update (snprintf 128 (''CAT_'' @ c_str (m_sAdxId create) @ ''_'' @
                     c_str (m_sCategory mate))) pUnit m
              else m)
            (m_ltMaterials create) m)
        (m_mCreativeInfo pUnit) m)"

definition AdFilterTanx_keys :: "AdPlanningUnit \<Rightarrow> string list" where
  "AdFilterTanx_keys pUnit =
     (if \<not> bPush (m_stTime pUnit) then []
      else concat (map (\<lambda>(_, create).
          if m_sCreativeGroupId create = [] then []
          else map (\<lambda>mate. snprintf 128 (''CAT_'' @ c_str (m_sAdxId create) @ ''_'' @
                     c_str (m_sCategory mate)))
            (filter (\<lambda>mate. m_sCategory mate \<noteq> []) (m_ltMaterials create)))
        (m_mCreativeInfo pUnit)))"

definition tanx_excluded :: "tanx_pids \<Rightarrow> AdRtbRequest \<Rightarrow> string list" where
  "tanx_excluded mPidDes pRequest =
     (if m_uiAdx pRequest \<noteq> AD_PROTOCOL_KEY_ADX_TANX then []
      else case map_of mPidDes (m_sPId pRequest) of
        None \<Rightarrow> []
      | Some l \<Rightarrow> concat (map (\<lambda>des. if m_vArea des = [] \<and> m_vInterval des = []
          then m_ctContent des ! AD_TANX_CATEGORY else []) l))"

definition AdFilterTanx_request_keys :: "tanx_pids \<Rightarrow> AdRtbRequest \<Rightarrow> string list" where
  "AdFilterTanx_request_keys mPidDes pRequest =
     map (\<lambda>s. snprintf 128 (''CAT_'' @ fmt_d (m_uiAdx pRequest) @ ''_'' @ c_str s))
       (tanx_excluded mPidDes pRequest)"

interpretation tanx_filter: erasing_filter AdFilterTanx_AddData AdFilterTanx_keys
  "\<lambda>(pids, pRequest). AdFilterTanx_match pids pRequest"
  "\<lambda>(pids, pRequest). AdFilterTanx_request_keys pids pRequest"
proof
  show "AdFilterTanx_AddData pUnit m = file_under (AdFilterTanx_keys pUnit) pUnit m" for pUnit m
    unfolding AdFilterTanx_AddData_def AdFilterTanx_keys_def
    by (auto simp: fold_update intro!: fold_files)
  have "fold (\<lambda>des r. if m_vArea des = [] \<and> m_vInterval des = []
          then fold (\<lambda>s. erase_key m (key s)) (tanx_get (of_nat AD_TANX_CATEGORY) (m_ctContent des)) r
          else r) l res =
    fold (\<lambda>s. erase_key m (key s)) (concat (map (\<lambda>des. if m_vArea des = [] \<and> m_vInterval des = []
          then m_ctContent des ! AD_TANX_CATEGORY else []) l)) res"
    for key m res and l :: "AdTanxDescription list"
    by (induction l arbitrary: res) (auto simp: tanx_get_def)
  then show "(case qq of (pids, pRequest) \<Rightarrow> AdFilterTanx_match pids pRequest) m res =
      fold (erase_key m) (case qq of (pids, pRequest) \<Rightarrow> AdFilterTanx_request_keys pids pRequest) res"
    for qq m res
    by (cases qq) (auto simp: AdFilterTanx_match_def AdFilterTanx_request_keys_def tanx_excluded_def
        fold_map o_def split: option.split)
qed

end
