(* ===== verification/AdFilterRealTime.thy ===== *)
theory AdFilterRealTime
  imports AdFilterErase JsonValue
begin

text \<open>
  The spending control of \<^verbatim>\<open>AdFilterRealTime.h/.cpp\<close>: what is known of the spending of each execute
  id, the decision that each report of the collector leads to, and the filter that erases the
  units whose state is not fresh or not \<open>OK\<close>. \<^verbatim>\<open>long long\<close> and \<^verbatim>\<open>time_t\<close> values are integers,
  brought into their 64 bits where they are made; \<^verbatim>\<open>ULONG\<close> has 64 bits.
\<close>

type_synonym ULONG = "64 word"

abbreviation AD_REALTIME_STATE_OK :: UINT where "AD_REALTIME_STATE_OK \<equiv> 0x14"
abbreviation AD_REALTIME_STATE_OVER :: UINT where "AD_REALTIME_STATE_OVER \<equiv> 0x15"
abbreviation AD_REALTIME_STATE_CONTROL :: UINT where "AD_REALTIME_STATE_CONTROL \<equiv> 0x16"
abbreviation AD_REALTIME_STATE_SHARE :: UINT where "AD_REALTIME_STATE_SHARE \<equiv> 0x17"
abbreviation AD_REALTIME_STATE_NORANGE :: UINT where "AD_REALTIME_STATE_NORANGE \<equiv> 0x18"
abbreviation AD_REALTIME_STATE_NOREMAIN :: UINT where "AD_REALTIME_STATE_NOREMAIN \<equiv> 0x19"
abbreviation AD_REALTIME_USING_TIME :: int where "AD_REALTIME_USING_TIME \<equiv> 30"

section \<open>State\<close>

record AdRealTimeClock =
  m_uiTotal :: ULONG
  m_uiNumber :: ULONG

record AdRealTimeInfo =
  m_uiPushFlag :: UINT
  m_rt_uiExecuteId :: UINT
  m_rt_uiAdv :: UINT
  m_ulTime :: int
  m_bHourShare :: bool
  m_uiAdvsType :: UINT
  m_uiAdvsTime :: UINT
  m_uiHaveShow :: UINT
  m_uiHaveClick :: UINT
  m_uiWillSpend :: UINT
  m_llHaveSpend :: int
  m_llAdvToday :: int
  m_llAdvRemain :: int
  m_stClock :: "AdRealTimeClock list"

definition clear_realtime :: AdRealTimeInfo where
  "clear_realtime = \<lparr>m_uiPushFlag = 0, m_rt_uiExecuteId = 0, m_rt_uiAdv = 0, m_ulTime = 0,
     m_bHourShare = False, m_uiAdvsType = 0, m_uiAdvsTime = 0, m_uiHaveShow = 0,
     m_uiHaveClick = 0, m_uiWillSpend = 0, m_llHaveSpend = 0, m_llAdvToday = 0,
     m_llAdvRemain = 0,
     m_stClock = replicate AD_DAY_HOURS \<lparr>m_uiTotal = 0, m_uiNumber = 0\<rparr>\<rparr>"

record ADRTDATA_S =
  m_d_uiExecuteId :: UINT
  m_d_uiAdv :: UINT
  m_d_uiHou :: UINT
  m_d_uiShow :: UINT
  m_d_uiClick :: UINT
  m_d_llAdvToday :: int
  m_d_llAdvRemain :: int
  m_d_llHaveSpend :: int
  m_d_llHourSpend :: int

record AdFilterRealTime =
  m_mInfo :: "(ULONG \<times> AdRealTimeInfo) list"
  m_uiLastDay :: UINT

definition AdFilterRealTime_new :: AdFilterRealTime where
  "AdFilterRealTime_new = \<lparr>m_mInfo = [], m_uiLastDay = 0\<rparr>"

text \<open>The reference \<^verbatim>\<open>m_mInfo[eid]\<close>, which adds a cleared entry where there is none.\<close>

definition realtime_at :: "UINT \<Rightarrow> AdFilterRealTime \<Rightarrow> AdRealTimeInfo" where
  "realtime_at i st = (case map_of (m_mInfo st) (ucast i) of None \<Rightarrow> clear_realtime | Some s \<Rightarrow> s)"

definition realtime_put :: "UINT \<Rightarrow> AdRealTimeInfo \<Rightarrow> AdFilterRealTime \<Rightarrow> AdFilterRealTime" where
  "realtime_put i s st = st\<lparr>m_mInfo := smap_upd (ucast i) s (m_mInfo st)\<rparr>"

section \<open>The filter\<close>

text \<open>\<open>now\<close> is the value of \<^verbatim>\<open>time\<close> during the call.\<close>

definition realtime_keep :: "int \<Rightarrow> AdFilterRealTime \<Rightarrow> AdPlanningUnit \<Rightarrow> bool" where
  "realtime_keep now st pUnit =
     (case map_of (m_mInfo st) (ucast (eid pUnit)) of
        None \<Rightarrow> True
      | Some sInfo \<Rightarrow>
          \<not> (now - m_ulTime sInfo > AD_REALTIME_USING_TIME \<or>
             m_uiPushFlag sInfo \<noteq> AD_REALTIME_STATE_OK))"

definition AdFilterRealTime_match :: "int \<Rightarrow> AdFilterRealTime \<Rightarrow> AD_RESULT \<Rightarrow> AD_RESULT" where
  "AdFilterRealTime_match now st mResult =
     filter (\<lambda>(_, (pUnit, _)). realtime_keep now st pUnit) mResult"

definition AdFilterClear :: "AdFilterRealTime \<Rightarrow> AdFilterRealTime" where
  "AdFilterClear st = st\<lparr>m_mInfo := []\<rparr>"

text \<open>\<open>uiWeek\<close> is the week day that \<^verbatim>\<open>AdFilterGetWeekDay\<close> returns.\<close>

definition AdFilterRealTime_AddData ::
    "UINT \<Rightarrow> AdPlanningUnit \<Rightarrow> AdFilterRealTime \<Rightarrow> AdFilterRealTime" where
  "AdFilterRealTime_AddData uiWeek pUnit st =
     (let st1 = (if uiWeek \<noteq> m_uiLastDay st then (AdFilterClear st)\<lparr>m_uiLastDay := uiWeek\<rparr> else st);
          s0 = realtime_at (eid pUnit) st1;
          s1 = s0\<lparr>m_rt_uiExecuteId := eid pUnit, m_rt_uiAdv := m_uiAdvertiser (m_stOrder pUnit),
                  m_uiAdvsType := m_uiTargetPriceType (m_stOrder pUnit)\<rparr>;
          s2 = (case find (\<lambda>d. uiWeek = m_uiWeek d) (take AD_WEEK_DAYS (m_stDay (m_stTime pUnit))) of
                  None \<Rightarrow> s1
                | Some d \<Rightarrow> s1\<lparr>m_uiWillSpend := m_uiBudget d, m_uiAdvsTime := m_uiHour d\<rparr>);
          s3 = s2\<lparr>m_bHourShare := m_uiBidmode (m_stOrder pUnit) \<noteq> 0\<rparr>;
          s4 = (if \<not> bPush (m_stTime pUnit) then s3\<lparr>m_uiPushFlag := AD_REALTIME_STATE_NORANGE\<rparr>
                else s3)
      in realtime_put (eid pUnit) s4 st1)"

section \<open>The decision\<close>

definition sub_ll :: "int \<Rightarrow> int \<Rightarrow> int cxx" where
  "sub_ll a b =
     (if - (2 ^ 63) \<le> a - b \<and> a - b < 2 ^ 63 then Inr (a - b) else Inl SignedOverflow)"

text \<open>The hours from \<open>h\<close> on in which the unit is to be shown.\<close>

definition hours_left :: "UINT \<Rightarrow> nat \<Rightarrow> UINT" where
  "hours_left uiAdvsTime h =
     fold (\<lambda>iCount uiHour. if uiAdvsTime AND push_bit iCount 1 \<noteq> 0 then uiHour + 1 else uiHour)
       [h..<AD_DAY_HOURS] 0"

definition set_total :: "nat \<Rightarrow> ULONG \<Rightarrow> AdRealTimeInfo \<Rightarrow> AdRealTimeInfo" where
  "set_total h t s = s\<lparr>m_stClock := (m_stClock s)[h := (m_stClock s ! h)\<lparr>m_uiTotal := t\<rparr>]\<rparr>"

definition set_number :: "nat \<Rightarrow> ULONG \<Rightarrow> AdRealTimeInfo \<Rightarrow> AdRealTimeInfo" where
  "set_number h n s = s\<lparr>m_stClock := (m_stClock s)[h := (m_stClock s ! h)\<lparr>m_uiNumber := n\<rparr>]\<rparr>"

text \<open>The budget of the current hour: what is left of today's, in equal shares.\<close>

definition hour_budget :: "UINT \<Rightarrow> nat \<Rightarrow> AdRealTimeInfo \<Rightarrow> AdRealTimeInfo" where
  "hour_budget uiNumber h s =
     (if m_uiWillSpend s > uiNumber then
        (let uiHour = hours_left (m_uiAdvsTime s) h in
         if uiHour = 0 then s
         else if uiHour = 1 then set_total h (ucast (m_uiWillSpend s - uiNumber)) s
         else set_total h (ucast ((m_uiWillSpend s - uiNumber) div uiHour)) s)
      else s)"

definition realtime_decide :: "nat \<Rightarrow> int \<Rightarrow> AdRealTimeInfo \<Rightarrow> AdRealTimeInfo cxx" where
  "realtime_decide h hourSpend s =
     (if m_uiPushFlag s = AD_REALTIME_STATE_NORANGE then Inr s
      else if m_uiWillSpend s > 0 \<and> m_llHaveSpend s \<ge> uint (m_uiWillSpend s)
        then Inr (s\<lparr>m_uiPushFlag := AD_REALTIME_STATE_OVER\<rparr>)
      else if m_llAdvRemain s \<le> 0 then Inr (s\<lparr>m_uiPushFlag := AD_REALTIME_STATE_NOREMAIN\<rparr>)
      else if m_uiAdvsTime s AND push_bit h 1 \<noteq> 0 then
        bind_cxx (sub_ll (m_llHaveSpend s) hourSpend) (\<lambda>d.
          let s1 = hour_budget (of_int d) h s in
          if m_uiWillSpend s1 > 0 \<and> m_bHourShare s1 \<and>
             m_uiTotal (m_stClock s1 ! h) \<le> m_uiNumber (m_stClock s1 ! h)
          then Inr (s1\<lparr>m_uiPushFlag := AD_REALTIME_STATE_SHARE\<rparr>)
          else Inr (s1\<lparr>m_uiPushFlag := AD_REALTIME_STATE_OK\<rparr>))
      else Inr ((set_total h 0 s)\<lparr>m_uiPushFlag := AD_REALTIME_STATE_CONTROL\<rparr>))"

definition realtime_report :: "int \<Rightarrow> ADRTDATA_S \<Rightarrow> AdRealTimeInfo \<Rightarrow> AdRealTimeInfo" where
  "realtime_report now pstCtl s =
     s\<lparr>m_ulTime := now, m_uiHaveShow := m_d_uiShow pstCtl, m_uiHaveClick := m_d_uiClick pstCtl,
       m_llHaveSpend := m_d_llHaveSpend pstCtl, m_llAdvRemain := m_d_llAdvRemain pstCtl,
       m_llAdvToday := m_d_llAdvToday pstCtl\<rparr>"

definition AdFilterRealTimeUpdate ::
    "int \<Rightarrow> ADRTDATA_S \<Rightarrow> AdFilterRealTime \<Rightarrow> (UINT \<times> AdFilterRealTime) cxx" where
  "AdFilterRealTimeUpdate now pstCtl st =
     (let s1 = realtime_report now pstCtl (realtime_at (m_d_uiExecuteId pstCtl) st)
      in bind_cxx (vec_get (m_stClock s1) (uint (m_d_uiHou pstCtl))) (\<lambda>_.
         let h = unat (m_d_uiHou pstCtl) in
         bind_cxx (realtime_decide h (m_d_llHourSpend pstCtl)
                    (set_number h (of_int (m_d_llHourSpend pstCtl)) s1)) (\<lambda>s2.
           Inr (m_uiPushFlag s2, realtime_put (m_d_uiExecuteId pstCtl) s2 st))))"

section \<open>The reports\<close>

text \<open>
  glibc's \<^verbatim>\<open>strtoul(s, 0, 10)\<close>, then the conversion to \<^verbatim>\<open>long long\<close>; \<^verbatim>\<open>strncmp(a, b, n) == 0\<close>.
\<close>

definition strtoul10 :: "string \<Rightarrow> ULONG" where
  "strtoul10 s =
     (let t = dropWhile is_space s;
          neg = (t \<noteq> [] \<and> hd t = CHR ''-'');
          u = (if t \<noteq> [] \<and> (hd t = CHR ''-'' \<or> hd t = CHR ''+'') then tl t else t);
          v = digits_val (takeWhile is_digit u)
      in if v \<ge> 2 ^ 64 then - 1 else if neg then - of_nat v else of_nat v)"

definition strncmp_eq :: "string \<Rightarrow> string \<Rightarrow> nat \<Rightarrow> bool" where
  "strncmp_eq a b n = (take n (c_str a) = take n (c_str b))"

definition rt_uint :: "Json \<Rightarrow> string \<Rightarrow> (UINT \<Rightarrow> ADRTDATA_S \<Rightarrow> ADRTDATA_S) \<Rightarrow>
    ADRTDATA_S \<Rightarrow> ADRTDATA_S cxx" where
  "rt_uint value key upd =
     json_when value key (\<lambda>v d. bind_cxx (json_asString v) (\<lambda>s. Inr (upd (atoi (c_str s)) d)))"

definition rt_long :: "Json \<Rightarrow> string \<Rightarrow> (int \<Rightarrow> ADRTDATA_S \<Rightarrow> ADRTDATA_S) \<Rightarrow>
    ADRTDATA_S \<Rightarrow> ADRTDATA_S cxx" where
  "rt_long value key upd =
     json_when value key (\<lambda>v d. bind_cxx (json_asString v) (\<lambda>s.
       Inr (upd (sint (strtoul10 (c_str s))) d)))"

text \<open>
  \<open>stack\<close> is what the uninitialised local \<^verbatim>\<open>stRTData\<close> holds: the fields a packet does not set
  keep it.
\<close>

definition realtime_fields :: "Json \<Rightarrow> ADRTDATA_S \<Rightarrow> ADRTDATA_S cxx" where
  "realtime_fields value d =
     fold_cxx (\<lambda>f. f)
       [rt_uint value ''eid'' (\<lambda>x. m_d_uiExecuteId_update (\<lambda>_. x)),
        rt_uint value ''adv'' (\<lambda>x. m_d_uiAdv_update (\<lambda>_. x)),
        rt_uint value ''hour'' (\<lambda>x. m_d_uiHou_update (\<lambda>_. x)),
        rt_uint value ''show'' (\<lambda>x. m_d_uiShow_update (\<lambda>_. x)),
        rt_uint value ''click'' (\<lambda>x. m_d_uiClick_update (\<lambda>_. x)),
        rt_long value ''advtoday'' (\<lambda>x. m_d_llAdvToday_update (\<lambda>_. x)),
        rt_long value ''advremain'' (\<lambda>x. m_d_llAdvRemain_update (\<lambda>_. x)),
        rt_long value ''havespend'' (\<lambda>x. m_d_llHaveSpend_update (\<lambda>_. x)),
        rt_long value ''hourspend'' (\<lambda>x. m_d_llHourSpend_update (\<lambda>_. x))] d"

definition AdFilterPushData ::
    "json_reader \<Rightarrow> int \<Rightarrow> string \<Rightarrow> ADRTDATA_S \<Rightarrow> AdFilterRealTime \<Rightarrow> AdFilterRealTime cxx" where
  "AdFilterPushData parse now psPush stack st =
     bind_cxx
       (case parse psPush of
          None \<Rightarrow> Inr stack
        | Some value \<Rightarrow>
            json_when value ''type'' (\<lambda>ty d.
              bind_cxx (json_asString ty) (\<lambda>t.
              bind_cxx (json_get value ''league'') (\<lambda>lg.
              bind_cxx (json_asString lg) (\<lambda>l.
                if strncmp_eq ''1'' t (length l) then realtime_fields value d else Inr d)))) stack)
       (\<lambda>stRTData.
         bind_cxx (AdFilterRealTimeUpdate now stRTData st) (\<lambda>(_, st'). Inr st'))"

section \<open>What the decision depends on\<close>

definition realtime_ok :: "AdFilterRealTime \<Rightarrow> bool" where
  "realtime_ok st \<longleftrightarrow> smap_ok (m_mInfo st) \<and>
     (\<forall>(_, s) \<in> set (m_mInfo st). length (m_stClock s) = AD_DAY_HOURS)"

lemma length_clear_clock [simp]: "length (m_stClock clear_realtime) = AD_DAY_HOURS"
  by (simp add: clear_realtime_def)

lemma realtime_at_clock: "realtime_ok st \<Longrightarrow> length (m_stClock (realtime_at i st)) = AD_DAY_HOURS"
  by (auto simp: realtime_ok_def realtime_at_def split: option.split dest!: map_of_SomeD)

lemma ucast_ULONG_inject [simp]: "(ucast (i :: UINT) :: ULONG) = ucast j \<longleftrightarrow> i = j"
  by transfer (simp add: take_bit_take_bit)

lemma realtime_at_put: "realtime_at j (realtime_put i s st) = (if j = i then s else realtime_at j st)"
  by (simp add: realtime_at_def realtime_put_def)

lemma set_clock_simps [simp]:
  "length (m_stClock (set_total h t s)) = length (m_stClock s)"
  "length (m_stClock (set_number h t s)) = length (m_stClock s)"
  "m_uiPushFlag (set_total h t s) = m_uiPushFlag s"
  "m_uiPushFlag (set_number h t s) = m_uiPushFlag s"
  "m_uiWillSpend (set_total h t s) = m_uiWillSpend s"
  "m_uiWillSpend (set_number h t s) = m_uiWillSpend s"
  "m_bHourShare (set_total h t s) = m_bHourShare s"
  "m_bHourShare (set_number h t s) = m_bHourShare s"
  "m_uiAdvsTime (set_total h t s) = m_uiAdvsTime s"
  "m_uiAdvsTime (set_number h t s) = m_uiAdvsTime s"
  "m_llHaveSpend (set_number h t s) = m_llHaveSpend s"
  "m_llAdvRemain (set_number h t s) = m_llAdvRemain s"
  "m_ulTime (set_total h t s) = m_ulTime s"
  "m_ulTime (set_number h t s) = m_ulTime s"
  by (simp_all add: set_total_def set_number_def)

lemma hour_budget_simps [simp]:
  "length (m_stClock (hour_budget n h s)) = length (m_stClock s)"
  "m_uiWillSpend (hour_budget n h s) = m_uiWillSpend s"
  "m_bHourShare (hour_budget n h s) = m_bHourShare s"
  "m_ulTime (hour_budget n h s) = m_ulTime s"
  by (simp_all add: hour_budget_def Let_def)

lemma and_power_iff: "(w :: UINT) AND 2 ^ h = 0 \<longleftrightarrow> \<not> bit w h"
  using and_push_bit_1 [of w h] by auto

lemma hours_left_fold:
  "fold (\<lambda>i n. if (w :: UINT) AND push_bit i 1 \<noteq> 0 then n + 1 else n) xs (n :: UINT) =
    n + of_nat (length (filter (bit w) xs))"
  by (induction xs arbitrary: n) (simp_all add: and_power_iff)

lemma unat_hours_left: "unat (hours_left w h) = length (filter (bit w) [h..<AD_DAY_HOURS])"
proof -
  have "length (filter (bit w) [h..<AD_DAY_HOURS]) < 2 ^ 32"
    using length_filter_le [of "bit w" "[h..<AD_DAY_HOURS]"] by simp
  then show ?thesis unfolding hours_left_def hours_left_fold by (simp add: unat_of_nat take_bit_nat_eq_self del: push_bit_of_1)
qed

text \<open>The conditions under which the decision is \<open>OK\<close>.\<close>

lemma realtime_decide_OK:
  assumes "realtime_decide h hs s = Inr s'" "m_uiPushFlag s' = AD_REALTIME_STATE_OK"
  shows "m_uiPushFlag s \<noteq> AD_REALTIME_STATE_NORANGE"
    and "m_uiWillSpend s > 0 \<Longrightarrow> m_llHaveSpend s < uint (m_uiWillSpend s)"
    and "m_llAdvRemain s > 0" and "bit (m_uiAdvsTime s) h"
    and "s' = (hour_budget (of_int (m_llHaveSpend s - hs)) h s)\<lparr>m_uiPushFlag := AD_REALTIME_STATE_OK\<rparr>"
    and "m_uiWillSpend s > 0 \<Longrightarrow> m_bHourShare s \<Longrightarrow>
      m_uiNumber (m_stClock s' ! h) < m_uiTotal (m_stClock s' ! h)"
  using assms
  by (auto simp: realtime_decide_def and_power_iff bind_cxx_Inr_iff Let_def sub_ll_def not_le
      split: if_splits)

lemma realtime_decide_time: "realtime_decide h hs s = Inr s' \<Longrightarrow> m_ulTime s' = m_ulTime s"
  by (auto simp: realtime_decide_def bind_cxx_Inr_iff Let_def split: if_splits)

lemma realtime_decide_clock:
  "realtime_decide h hs s = Inr s' \<Longrightarrow> length (m_stClock s') = length (m_stClock s)"
  by (auto simp: realtime_decide_def bind_cxx_Inr_iff Let_def split: if_splits)

text \<open>What an update that returns has done.\<close>

lemma realtime_report_simps [simp]:
  "m_stClock (realtime_report now d s) = m_stClock s"
  "m_uiPushFlag (realtime_report now d s) = m_uiPushFlag s"
  "m_ulTime (realtime_report now d s) = now"
  "m_uiWillSpend (realtime_report now d s) = m_uiWillSpend s"
  "m_bHourShare (realtime_report now d s) = m_bHourShare s"
  "m_uiAdvsTime (realtime_report now d s) = m_uiAdvsTime s"
  "m_llHaveSpend (realtime_report now d s) = m_d_llHaveSpend d"
  "m_llAdvRemain (realtime_report now d s) = m_d_llAdvRemain d"
  by (simp_all add: realtime_report_def)

lemma AdFilterRealTimeUpdate_Inr:
  assumes "AdFilterRealTimeUpdate now d st = Inr (f, st')"
  obtains s' where "realtime_decide (unat (m_d_uiHou d)) (m_d_llHourSpend d)
      (set_number (unat (m_d_uiHou d)) (of_int (m_d_llHourSpend d))
        (realtime_report now d (realtime_at (m_d_uiExecuteId d) st))) = Inr s'"
    and "f = m_uiPushFlag s'" and "st' = realtime_put (m_d_uiExecuteId d) s' st"
    and "unat (m_d_uiHou d) < length (m_stClock (realtime_at (m_d_uiExecuteId d) st))"
proof -
  let ?n = "length (m_stClock (realtime_at (m_d_uiExecuteId d) st))"
  have "uint (m_d_uiHou d) < int ?n"
    using assms by (rule contrapos_pp) (simp add: AdFilterRealTimeUpdate_def Let_def vec_get_def)
  moreover from this have "unat (m_d_uiHou d) < ?n" by (simp only: uint_nat of_nat_less_iff)
  ultimately show thesis
    using assms that unfolding AdFilterRealTimeUpdate_def Let_def
    by (auto simp only: vec_get_def bind_cxx_Inr_iff prod.inject sum.inject realtime_report_simps)
qed

lemma realtime_ok_put:
  "realtime_ok st \<Longrightarrow> length (m_stClock s) = AD_DAY_HOURS \<Longrightarrow> realtime_ok (realtime_put i s st)"
proof -
  assume a: "realtime_ok st" "length (m_stClock s) = AD_DAY_HOURS"
  have ok: "smap_ok (smap_upd (ucast i) s (m_mInfo st))" using a by (simp add: realtime_ok_def)
  have "length (m_stClock t) = AD_DAY_HOURS"
    if "(k, t) \<in> set (smap_upd (ucast i) s (m_mInfo st))" for k t
    using that a unfolding smap_mem_iff [OF ok]
    by (auto simp: realtime_ok_def split: if_splits dest!: map_of_SomeD)
  with ok show ?thesis by (auto simp: realtime_ok_def realtime_put_def)
qed

lemma AdFilterRealTimeUpdate_ok:
  "realtime_ok st \<Longrightarrow> AdFilterRealTimeUpdate now d st = Inr (f, st') \<Longrightarrow> realtime_ok st'"
  by (erule AdFilterRealTimeUpdate_Inr)
    (auto intro!: realtime_ok_put dest: realtime_decide_clock simp: realtime_at_clock)

section \<open>Properties\<close>

lemma realtime_match_iff:
  "(i, (u, r)) \<in> set (AdFilterRealTime_match now st res) \<longleftrightarrow>
    (i, (u, r)) \<in> set res \<and> realtime_keep now st u"
  by (auto simp: AdFilterRealTime_match_def)

lemma realtime_keep_put:
  assumes "eid u = i"
  shows "realtime_keep now (realtime_put i s st) u \<longleftrightarrow>
    now - m_ulTime s \<le> AD_REALTIME_USING_TIME \<and> m_uiPushFlag s = AD_REALTIME_STATE_OK"
  using assms by (auto simp: realtime_keep_def realtime_put_def)

text \<open>
  C21. Spending control. After a report on an execute id was processed, a unit with this id
  survives the real time filter only while the report is at most 30 seconds old, and only if the
  report says that today's budget is not used up (when there is one), that the advertiser has
  money left, that the hour of the report is one in which the unit is to be shown, and, when the
  budget is shared over the hours, that this hour's spending is below the hour's budget.
\<close>

theorem realtime_stops_spending:
  assumes ok: "realtime_ok st" and upd: "AdFilterRealTimeUpdate now d st = Inr (f, st')"
    and kept: "(i, (u, r)) \<in> set (AdFilterRealTime_match now' st' res)"
    and u: "eid u = m_d_uiExecuteId d"
  defines "s \<equiv> realtime_at (m_d_uiExecuteId d) st" and "s' \<equiv> realtime_at (m_d_uiExecuteId d) st'"
    and "h \<equiv> unat (m_d_uiHou d)"
  shows "now' - now \<le> 30 \<and> f = AD_REALTIME_STATE_OK \<and>
    (m_uiWillSpend s = 0 \<or> m_d_llHaveSpend d < uint (m_uiWillSpend s)) \<and> m_d_llAdvRemain d > 0 \<and>
    h < 24 \<and> bit (m_uiAdvsTime s) h \<and>
    (m_uiWillSpend s \<noteq> 0 \<and> m_bHourShare s \<longrightarrow>
      m_uiNumber (m_stClock s' ! h) < m_uiTotal (m_stClock s' ! h))"
  using upd
proof (rule AdFilterRealTimeUpdate_Inr)
  fix t assume dec: "realtime_decide (unat (m_d_uiHou d)) (m_d_llHourSpend d)
      (set_number (unat (m_d_uiHou d)) (of_int (m_d_llHourSpend d))
        (realtime_report now d (realtime_at (m_d_uiExecuteId d) st))) = Inr t"
    and f: "f = m_uiPushFlag t" and st': "st' = realtime_put (m_d_uiExecuteId d) t st"
    and h: "unat (m_d_uiHou d) < length (m_stClock (realtime_at (m_d_uiExecuteId d) st))"
  have keep: "now' - m_ulTime t \<le> 30" "m_uiPushFlag t = AD_REALTIME_STATE_OK"
    using kept by (simp_all add: realtime_match_iff st' realtime_keep_put [OF u])
  have s': "s' = t" by (simp add: s'_def st' realtime_at_put)
  note decOK = realtime_decide_OK [OF dec keep(2)]
  show ?thesis
    using keep realtime_decide_time [OF dec] decOK(2-4,6) h realtime_at_clock [OF ok]
    by (auto simp: f s' s_def h_def word_gt_0)
qed

text \<open>A unit for Monday, 100 units of money in its 24 hours, in equal shares, and a report.\<close>

definition shared_unit :: AdPlanningUnit where
  "shared_unit = clear_unit
     \<lparr>m_stOrder := clear_order\<lparr>m_uiExecuteId := 7, m_uiBidmode := 1\<rparr>,
      m_stTime := clear_time\<lparr>bPush := True,
        m_stDay := [\<lparr>m_uiWeek = 1, m_uiBudget = 100, m_uiHour = 0xFFFFFF\<rparr>]\<rparr>\<rparr>"

definition good_report :: ADRTDATA_S where
  "good_report = \<lparr>m_d_uiExecuteId = 7, m_d_uiAdv = 0, m_d_uiHou = 20, m_d_uiShow = 5,
     m_d_uiClick = 1, m_d_llAdvToday = 80, m_d_llAdvRemain = 900, m_d_llHaveSpend = 60,
     m_d_llHourSpend = 9\<rparr>"

definition shared_state :: AdFilterRealTime where
  "shared_state = AdFilterRealTime_AddData 1 shared_unit AdFilterRealTime_new"

definition good_state :: AdFilterRealTime where
  "good_state = snd (projr (AdFilterRealTimeUpdate 1000 good_report shared_state))"

lemma good_update: "AdFilterRealTimeUpdate 1000 good_report shared_state = Inr (0x14, good_state)"
  by code_simp

lemma realtime_ok_new [simp]: "realtime_ok AdFilterRealTime_new"
  by (simp add: realtime_ok_def AdFilterRealTime_new_def)

lemma realtime_ok_AddData: "realtime_ok st \<Longrightarrow> realtime_ok (AdFilterRealTime_AddData w u st)"
proof -
  assume a: "realtime_ok st"
  then have "realtime_ok (st\<lparr>m_uiLastDay := x\<rparr>)" "realtime_ok ((AdFilterClear st)\<lparr>m_uiLastDay := x\<rparr>)" for x
    by (simp_all add: realtime_ok_def AdFilterClear_def)
  with a show ?thesis
    by (auto simp: AdFilterRealTime_AddData_def Let_def realtime_at_clock
        intro!: realtime_ok_put split: option.split)
qed

lemma shared_state_ok [simp]: "realtime_ok shared_state"
  by (simp add: shared_state_def realtime_ok_AddData)

theorem realtime_stops_spending_witness:
  "(7, (shared_unit, clear_result)) \<in> set (AdFilterRealTime_match 1010 good_state [(7, (shared_unit, clear_result))]) \<and>
   m_d_llHaveSpend good_report < uint (m_uiWillSpend (realtime_at 7 shared_state))"
proof -
  have k: "(7, (shared_unit, clear_result)) \<in>
      set (AdFilterRealTime_match 1010 good_state [(7, (shared_unit, clear_result))])"
    unfolding realtime_match_iff by simp code_simp
  have "eid shared_unit = m_d_uiExecuteId good_report" "m_uiWillSpend (realtime_at 7 shared_state) \<noteq> 0"
      "m_d_uiExecuteId good_report = 7"
    by code_simp+
  then show ?thesis
    using realtime_stops_spending [OF shared_state_ok good_update k] k by auto
qed

lemma uint_of_int_UINT: "0 \<le> i \<Longrightarrow> i < 2 ^ 32 \<Longrightarrow> uint (of_int i :: UINT) = i"
  by (simp add: unsigned_of_int take_bit_int_eq_self)

lemma uint_of_int_ULONG: "0 \<le> i \<Longrightarrow> i < 2 ^ 64 \<Longrightarrow> uint (of_int i :: ULONG) = i"
  by (simp add: unsigned_of_int take_bit_int_eq_self)

lemma uint_ucast_ULONG [simp]: "uint (ucast (w :: UINT) :: ULONG) = uint w"
  by transfer simp

text \<open>The total that \<open>hour_budget\<close> sets for the hour.\<close>

lemma hour_budget_total:
  assumes "b < m_uiWillSpend s" "h < length (m_stClock s)" "h < 24" "bit (m_uiAdvsTime s) h"
  shows "uint (m_uiTotal (m_stClock (hour_budget b h s) ! h)) =
    (uint (m_uiWillSpend s) - uint b) div int (length (filter (bit (m_uiAdvsTime s)) [h..<24]))"
    and "m_uiNumber (m_stClock (hour_budget b h s) ! h) = m_uiNumber (m_stClock s ! h)"
    and "0 < length (filter (bit (m_uiAdvsTime s)) [h..<24])"
proof -
  let ?l = "hours_left (m_uiAdvsTime s) h"
  have l: "uint ?l = int (length (filter (bit (m_uiAdvsTime s)) [h..<24]))"
    by (simp only: uint_nat unat_hours_left)
  have "h \<in> set (filter (bit (m_uiAdvsTime s)) [h..<24])" using assms by simp
  then show n: "0 < length (filter (bit (m_uiAdvsTime s)) [h..<24])"
    by (metis length_greater_0_conv length_pos_if_in_set)
  with l have l0: "?l \<noteq> 0" by auto
  have d: "uint (m_uiWillSpend s - b) = uint (m_uiWillSpend s) - uint b"
    using assms(1) by (intro uint_minus_simple_alt [THEN iffD1]) simp
  show "uint (m_uiTotal (m_stClock (hour_budget b h s) ! h)) =
    (uint (m_uiWillSpend s) - uint b) div int (length (filter (bit (m_uiAdvsTime s)) [h..<24]))"
  proof (cases "?l = 1")
    case True
    then show ?thesis using l d assms by (simp add: hour_budget_def set_total_def)
  next
    case False
    then show ?thesis using l l0 d assms
      by (simp add: hour_budget_def set_total_def Let_def uint_div_distrib)
  qed
  show "m_uiNumber (m_stClock (hour_budget b h s) ! h) = m_uiNumber (m_stClock s ! h)"
    using assms by (simp add: hour_budget_def set_total_def Let_def)
qed

text \<open>
  C22. The hour budget spreads what is left. When a report leads to \<open>OK\<close> for a unit whose budget
  is shared over the hours, the money spent before this hour, plus this hour's spending once for
  this hour and for every later hour in which the unit is to be shown, stays below today's budget.
\<close>

theorem hour_share_budget:
  assumes ok: "realtime_ok st"
    and upd: "AdFilterRealTimeUpdate now d st = Inr (AD_REALTIME_STATE_OK, st')"
    and share: "m_bHourShare (realtime_at (m_d_uiExecuteId d) st)"
    and will: "m_uiWillSpend (realtime_at (m_d_uiExecuteId d) st) \<noteq> 0"
    and spend: "0 \<le> m_d_llHourSpend d" "m_d_llHourSpend d \<le> m_d_llHaveSpend d"
  shows "int (length (filter (bit (m_uiAdvsTime (realtime_at (m_d_uiExecuteId d) st)))
           [unat (m_d_uiHou d)..<24])) * m_d_llHourSpend d + (m_d_llHaveSpend d - m_d_llHourSpend d)
         < uint (m_uiWillSpend (realtime_at (m_d_uiExecuteId d) st))"
  using upd
proof (rule AdFilterRealTimeUpdate_Inr)
  let ?s = "realtime_at (m_d_uiExecuteId d) st" and ?h = "unat (m_d_uiHou d)"
  let ?s2 = "set_number ?h (of_int (m_d_llHourSpend d)) (realtime_report now d ?s)"
  let ?n = "length (filter (bit (m_uiAdvsTime ?s)) [?h..<24])"
  let ?b = "m_d_llHaveSpend d - m_d_llHourSpend d"
  fix t assume dec: "realtime_decide ?h (m_d_llHourSpend d) ?s2 = Inr t"
    and f: "AD_REALTIME_STATE_OK = m_uiPushFlag t" and h: "?h < length (m_stClock ?s)"
  note decOK = realtime_decide_OK [OF dec f [symmetric]]
  have have_less: "m_d_llHaveSpend d < uint (m_uiWillSpend ?s)"
    using decOK(2) will by (simp add: word_gt_0)
  have h24: "?h < 24" using h realtime_at_clock [OF ok] by simp
  have "uint (m_uiWillSpend ?s) < 2 ^ 32" using uint_lt2p [of "m_uiWillSpend ?s"] by simp
  then have b: "uint (of_int ?b :: UINT) = ?b" "uint (of_int (m_d_llHourSpend d) :: ULONG) = m_d_llHourSpend d"
    using have_less spend by (auto intro!: uint_of_int_UINT uint_of_int_ULONG simp del: of_int_diff)
  have "of_int ?b < m_uiWillSpend ?s2" using b(1) have_less spend(1)
    by (simp add: word_less_def del: of_int_diff)
  note tot = hour_budget_total [OF this, of ?h]
  have num: "m_uiNumber (m_stClock ?s2 ! ?h) = of_int (m_d_llHourSpend d)"
    using h by (simp add: set_number_def)
  have pos: "0 < uint (m_uiWillSpend ?s)" using have_less spend by simp
  let ?r = "uint (m_uiWillSpend ?s) - ?b"
  have lt: "m_d_llHourSpend d < ?r div int ?n" and n: "0 < ?n"
    using decOK(4-6) pos share h h24 tot num b by (simp_all add: word_less_def del: of_int_diff)
  have "(m_d_llHourSpend d + 1) * int ?n \<le> ?r div int ?n * int ?n"
    using lt by (intro mult_right_mono) simp_all
  also have "\<dots> \<le> ?r"
    using n div_mult_mod_eq [of ?r "int ?n"] pos_mod_sign [of "int ?n" ?r] by linarith
  finally show ?thesis using n by (simp add: algebra_simps del: length_greater_0_conv)
qed

theorem hour_share_budget_witness:
  "4 * m_d_llHourSpend good_report + (m_d_llHaveSpend good_report - m_d_llHourSpend good_report) < 100"
proof -
  have "m_bHourShare (realtime_at (m_d_uiExecuteId good_report) shared_state)"
    "uint (m_uiWillSpend (realtime_at (m_d_uiExecuteId good_report) shared_state)) = 100"
    "length (filter (bit (m_uiAdvsTime (realtime_at (m_d_uiExecuteId good_report) shared_state)))
       [unat (m_d_uiHou good_report)..<24]) = 4"
    "0 \<le> m_d_llHourSpend good_report" "m_d_llHourSpend good_report \<le> m_d_llHaveSpend good_report"
    by code_simp+
  then show ?thesis using hour_share_budget [OF shared_state_ok good_update] by force
qed

text \<open>
  The hour of a report is an index that nothing checks. For spendings that are not negative,
  processing a report is defined exactly when its hour is below 24; an hour of 24 or more writes
  outside the array of the clock.
\<close>

theorem report_hour_unchecked:
  assumes "realtime_ok st" "0 \<le> m_d_llHaveSpend d" "m_d_llHaveSpend d < 2 ^ 63"
    and "0 \<le> m_d_llHourSpend d" "m_d_llHourSpend d < 2 ^ 63"
  shows "if unat (m_d_uiHou d) < 24 then \<exists>f st'. AdFilterRealTimeUpdate now d st = Inr (f, st')
    else AdFilterRealTimeUpdate now d st = Inl OutOfBounds"
proof -
  have l: "length (m_stClock (realtime_at (m_d_uiExecuteId d) st)) = 24"
    using realtime_at_clock [OF assms(1)] by simp
  have h: "uint (m_d_uiHou d) < int 24 \<longleftrightarrow> unat (m_d_uiHou d) < 24"
    by (simp only: uint_nat of_nat_less_iff)
  have sub: "sub_ll (m_d_llHaveSpend d) (m_d_llHourSpend d) = Inr (m_d_llHaveSpend d - m_d_llHourSpend d)"
    using assms by (simp add: sub_ll_def)
  have "AdFilterRealTimeUpdate now d st = Inl OutOfBounds" if "24 \<le> unat (m_d_uiHou d)"
    unfolding AdFilterRealTimeUpdate_def Let_def vec_get_def realtime_report_simps l h using that by simp
  moreover have "\<exists>f st'. AdFilterRealTimeUpdate now d st = Inr (f, st')" if "unat (m_d_uiHou d) < 24"
  proof -
    have "\<exists>s'. realtime_decide n (m_d_llHourSpend d)
        (set_number n x (realtime_report now d s)) = Inr s'" for n x s
      by (auto simp: realtime_decide_def sub Let_def)
    with that show ?thesis
      unfolding AdFilterRealTimeUpdate_def Let_def vec_get_def realtime_report_simps l h
      by (auto simp: bind_cxx_Inr_iff)
  qed
  ultimately show ?thesis by simp
qed

theorem report_hour_unchecked_witness:
  "AdFilterRealTimeUpdate 1000 (good_report\<lparr>m_d_uiHou := 24\<rparr>) shared_state = Inl OutOfBounds"
  using report_hour_unchecked [OF shared_state_ok, of "good_report\<lparr>m_d_uiHou := 24\<rparr>" 1000]
  by (simp add: good_report_def)

text \<open>The operations the state goes through on one day.\<close>

datatype realtime_event = AddUnit UINT AdPlanningUnit | Report int ADRTDATA_S

fun realtime_step :: "realtime_event \<Rightarrow> AdFilterRealTime \<Rightarrow> AdFilterRealTime cxx" where
  "realtime_step (AddUnit w u) st = Inr (AdFilterRealTime_AddData w u st)"
| "realtime_step (Report now d) st =
     bind_cxx (AdFilterRealTimeUpdate now d st) (\<lambda>(_, st'). Inr st')"

definition no_range :: "UINT \<Rightarrow> AdFilterRealTime \<Rightarrow> bool" where
  "no_range i st \<longleftrightarrow> m_uiPushFlag (realtime_at i st) = AD_REALTIME_STATE_NORANGE \<and>
     map_of (m_mInfo st) (ucast i) \<noteq> None"

lemma no_range_put:
  "no_range i (realtime_put j s st) \<longleftrightarrow>
    (if i = j then m_uiPushFlag s = AD_REALTIME_STATE_NORANGE else no_range i st)"
  by (simp add: no_range_def realtime_at_put) (simp add: realtime_put_def)

lemma realtime_step_day:
  assumes "realtime_step e st = Inr t" "\<forall>w v. e = AddUnit w v \<longrightarrow> w = m_uiLastDay st"
  shows "m_uiLastDay t = m_uiLastDay st"
proof (cases e)
  case (AddUnit w v)
  with assms show ?thesis by (auto simp: AdFilterRealTime_AddData_def Let_def realtime_put_def)
next
  case (Report now d)
  with assms(1) obtain f where "AdFilterRealTimeUpdate now d st = Inr (f, t)"
    by (auto simp: bind_cxx_Inr_iff)
  then show ?thesis by (rule AdFilterRealTimeUpdate_Inr) (simp add: realtime_put_def)
qed

lemma no_range_add:
  assumes "no_range i st" "w = m_uiLastDay st"
  shows "no_range i (AdFilterRealTime_AddData w u st)"
  using assms by (auto simp: no_range_def AdFilterRealTime_AddData_def Let_def realtime_put_def
      realtime_at_def split: option.splits)

lemma no_range_update:
  assumes "no_range i st" "AdFilterRealTimeUpdate now d st = Inr (f, st')"
  shows "no_range i st'"
  using assms(2)
proof (rule AdFilterRealTimeUpdate_Inr)
  fix s' assume dec: "realtime_decide (unat (m_d_uiHou d)) (m_d_llHourSpend d)
      (set_number (unat (m_d_uiHou d)) (of_int (m_d_llHourSpend d))
        (realtime_report now d (realtime_at (m_d_uiExecuteId d) st))) = Inr s'"
    and st': "st' = realtime_put (m_d_uiExecuteId d) s' st"
  have "i = m_d_uiExecuteId d \<Longrightarrow> m_uiPushFlag s' = AD_REALTIME_STATE_NORANGE"
    using dec assms(1) by (auto simp: realtime_decide_def no_range_def)
  with assms(1) show ?thesis by (simp add: st' no_range_put)
qed

text \<open>
  The state \<open>NORANGE\<close> is left only with the day. Once a unit was loaded without a time range
  for the day, no report and no later loading on the same day, with a range or without, lets a
  unit with this execute id through the filter again.
\<close>

theorem no_range_sticky:
  assumes "no_range i st" "eid u = i"
    and "\<forall>w v. AddUnit w v \<in> set es \<longrightarrow> w = m_uiLastDay st"
    and "fold_cxx realtime_step es st = Inr st'"
  shows "(i, (u, r)) \<notin> set (AdFilterRealTime_match now st' res)"
proof -
  have "no_range i st'"
    using assms(1,3,4)
  proof (induction es arbitrary: st)
    case (Cons e es)
    from Cons.prems obtain t where t: "realtime_step e st = Inr t" "fold_cxx realtime_step es t = Inr st'"
      by (auto simp: bind_cxx_Inr_iff)
    have day: "m_uiLastDay t = m_uiLastDay st"
      using t(1) Cons.prems(2) by (intro realtime_step_day) auto
    have "no_range i t"
      using t(1) Cons.prems(1,2)
      by (cases e) (auto simp: bind_cxx_Inr_iff intro: no_range_add no_range_update)
    moreover have "\<forall>w v. AddUnit w v \<in> set es \<longrightarrow> w = m_uiLastDay t"
      using Cons.prems(2) day by auto
    ultimately show ?case using t(2) by (rule Cons.IH)
  qed simp
  then have "\<not> realtime_keep now st' u"
    using assms(2) by (auto simp: no_range_def realtime_keep_def realtime_at_def split: option.splits)
  then show ?thesis by (simp add: realtime_match_iff)
qed

text \<open>The unit without its range is loaded first, then the unit with its range, then a report.\<close>

theorem no_range_sticky_witness:
  "\<exists>st. fold_cxx realtime_step [AddUnit 1 shared_unit, Report 1000 good_report]
      (AdFilterRealTime_AddData 1 (shared_unit\<lparr>m_stTime := clear_time\<rparr>) AdFilterRealTime_new) = Inr st \<and>
    (7, (shared_unit, clear_result)) \<notin> set (AdFilterRealTime_match 1000 st [(7, (shared_unit, clear_result))])"
proof -
  let ?st = "AdFilterRealTime_AddData 1 (shared_unit\<lparr>m_stTime := clear_time\<rparr>) AdFilterRealTime_new"
  let ?es = "[AddUnit 1 shared_unit, Report 1000 good_report]"
  have "case fold_cxx realtime_step ?es ?st of Inl _ \<Rightarrow> False | Inr _ \<Rightarrow> True" by code_simp
  then obtain st where st: "fold_cxx realtime_step ?es ?st = Inr st"
    by (auto split: sum.splits)
  have "no_range 7 ?st" unfolding no_range_def by code_simp
  moreover have "eid shared_unit = 7" by code_simp
  moreover have "1 = m_uiLastDay ?st" by code_simp
  ultimately show ?thesis using no_range_sticky [OF _ _ _ st] st by auto
qed

end
