(* ===== verification/AdAcbm.thy ===== *)
theory AdAcbm
  imports StdMap AdCString "HOL-Library.Char_ord" "HOL-Library.Sublist"
begin

text \<open>
  The multiple pattern search of \<^verbatim>\<open>libutil/inc/AdAcbm.h\<close> and \<^verbatim>\<open>src/AdAcbm.cpp\<close> as the program uses
  it: patterns are added to a tree, whose edges ignore the case, and the texts are scanned from
  the right. The program never calls \<^verbatim>\<open>AdAcbmTreeBuild\<close>: the shifts \<^verbatim>\<open>m_iGSShift\<close> of the nodes stay 0
  and the array \<^verbatim>\<open>m_iBCShift\<close> is not initialised, so its content is an argument. The fields
  \<^verbatim>\<open>m_iDepth\<close>, \<^verbatim>\<open>m_ucVal\<close>, \<^verbatim>\<open>m_iBCShift\<close> and \<^verbatim>\<open>m_pstParent\<close> of a node are never read and are left
  out. The child of an upper case letter is the child of the lower case letter, which the model
  gets by folding the case of the letter it looks up. Allocations succeed.
\<close>

section \<open>The tree\<close>

datatype ADACBMNODE =
  AcbmNode (m_iLabel: int) (m_iGSShift: int) (m_iChild: int) (m_ucChild: char)
    (m_pstChild: "(char \<times> ADACBMNODE) list")

definition acbm_node :: "int \<Rightarrow> ADACBMNODE" where
  "acbm_node label = AcbmNode label 0 0 (CHR 0x00) []"

definition acbm_child :: "ADACBMNODE \<Rightarrow> char \<Rightarrow> ADACBMNODE option" where
  "acbm_child n c = map_of (m_pstChild n) (tolower c)"

record 'd AdAcbmTree =
  m_iPtnCount :: int
  m_iMaxDepth :: int
  m_iMinPtnSize :: int
  m_iBCShift :: "char \<Rightarrow> int"
  m_pstRoot :: "ADACBMNODE option"
  m_vStr :: "string list"
  m_mData :: "(int \<times> 'd list) list"

definition acbm_new :: "(char \<Rightarrow> int) \<Rightarrow> 'd AdAcbmTree" where
  "acbm_new bc = \<lparr>m_iPtnCount = 0, m_iMaxDepth = 0, m_iMinPtnSize = 512, m_iBCShift = bc,
     m_pstRoot = None, m_vStr = [], m_mData = []\<rparr>"

definition acbm_clear :: "'d AdAcbmTree \<Rightarrow> 'd AdAcbmTree" where
  "acbm_clear t = \<lparr>m_iPtnCount = 0, m_iMaxDepth = 0, m_iMinPtnSize = 512, m_iBCShift = (\<lambda>_. 0),
     m_pstRoot = None, m_vStr = [], m_mData = []\<rparr>"

text \<open>
  The path of a pattern, made where it is missing, and the label of its last node, which gets
  the next label if it has none.
\<close>

fun acbm_insert :: "int \<Rightarrow> string \<Rightarrow> ADACBMNODE \<Rightarrow> int \<times> ADACBMNODE" where
  "acbm_insert next [] (AcbmNode l g k u ch) =
     (if l < 0 then (next, AcbmNode next g k u ch) else (l, AcbmNode l g k u ch))"
| "acbm_insert next (c # cs) (AcbmNode l g k u ch) =
     (case map_of ch (tolower c) of
        Some n \<Rightarrow>
          (let (lb, n') = acbm_insert next cs n
           in (lb, AcbmNode l g k u (smap_upd (tolower c) n' ch)))
      | None \<Rightarrow>
          (let (lb, n') = acbm_insert next cs (acbm_node (- 1))
           in (lb, AcbmNode l g (k + 1) (tolower c) (smap_upd (tolower c) n' ch))))"

definition AdAcbmTreeAdd :: "string \<Rightarrow> 'd \<Rightarrow> 'd AdAcbmTree \<Rightarrow> int \<times> 'd AdAcbmTree" where
  "AdAcbmTreeAdd sStr pData t =
     (let pstRoot = (case m_pstRoot t of None \<Rightarrow> acbm_node (- 2) | Some r \<Rightarrow> r);
          iPtnLen = int (length sStr)
      in if iPtnLen > 0 then
           (let (label, root) = acbm_insert (m_iPtnCount t) sStr pstRoot
            in (AD_SUCCESS,
                t\<lparr>m_iMaxDepth := max iPtnLen (m_iMaxDepth t),
                  m_iMinPtnSize := min iPtnLen (m_iMinPtnSize t),
                  m_pstRoot := Some root,
                  m_iPtnCount := (if label = m_iPtnCount t then m_iPtnCount t + 1 else m_iPtnCount t),
                  m_vStr := m_vStr t @ [sStr],
                  m_mData := smap_upd label
                    ((case map_of (m_mData t) label of None \<Rightarrow> [] | Some l \<Rightarrow> l) @ [pData]) (m_mData t)\<rparr>))
         else (AD_FAILURE, acbm_clear t))"

section \<open>The search\<close>

type_synonym 'd acbm_matches = "('d \<times> string list) list"

text \<open>\<^verbatim>\<open>mResult[p].push_back(s)\<close>.\<close>

definition match_add :: "string \<Rightarrow> 'd::linorder \<Rightarrow> 'd acbm_matches \<Rightarrow> 'd acbm_matches" where
  "match_add s p res = smap_upd p ((case map_of res p of None \<Rightarrow> [] | Some l \<Rightarrow> l) @ [s]) res"

definition acbm_hit ::
    "'d::linorder AdAcbmTree \<Rightarrow> ADACBMNODE \<Rightarrow> int \<times> 'd acbm_matches \<Rightarrow> (int \<times> 'd acbm_matches) cxx" where
  "acbm_hit t n = (\<lambda>(iMatch, res).
     if m_iLabel n \<ge> 0 then
       (case map_of (m_mData t) (m_iLabel n) of
          None \<Rightarrow> Inr (iMatch + 1, res)
        | Some ps \<Rightarrow>
            bind_cxx (if ps = [] then Inr [] else vec_get (m_vStr t) (m_iLabel n)) (\<lambda>s.
              Inr (iMatch + 1, fold (match_add s) ps res)))
     else Inr (iMatch, res))"

text \<open>The inner loop: down the tree along the text from \<^verbatim>\<open>iCur\<close> on.\<close>

fun acbm_walk ::
    "'d::linorder AdAcbmTree \<Rightarrow> ADACBMNODE \<Rightarrow> string \<Rightarrow> int \<times> 'd acbm_matches \<Rightarrow>
     (ADACBMNODE \<times> string \<times> int \<times> 'd acbm_matches) cxx" where
  "acbm_walk t n [] st = Inr (n, [], st)"
| "acbm_walk t n (c # cs) st =
     (case acbm_child n c of
        None \<Rightarrow> Inr (n, c # cs, st)
      | Some n' \<Rightarrow> bind_cxx (acbm_hit t n' st) (acbm_walk t n' cs))"

text \<open>
  The shift after a walk that stopped at node \<open>n\<close> and index \<open>iCur\<close>, before the letters \<open>rest\<close>.
\<close>

definition acbm_shift :: "'d AdAcbmTree \<Rightarrow> ADACBMNODE \<Rightarrow> int \<Rightarrow> int \<Rightarrow> string \<Rightarrow> int cxx" where
  "acbm_shift t n iBase iCur rest =
     (if m_iChild n > 0 then
        (case acbm_child n (m_ucChild n) of
           None \<Rightarrow> Inl NullPointer
         | Some ch \<Rightarrow>
             bind_cxx
               (case rest of
                  [] \<Rightarrow> Inr 1
                | c # _ \<Rightarrow> bind_cxx (add_int (m_iBCShift t c) iBase) (\<lambda>i. add_int i (- iCur)))
               (\<lambda>iBCShift.
                 let iShift = (if m_iGSShift ch > iBCShift then iBCShift else m_iGSShift ch)
                 in Inr (if iShift \<le> 0 then 1 else iShift)))
      else Inr 1)"

text \<open>The shift is at least 1; the maximum below only shows the termination.\<close>

function acbm_scan ::
    "'d::linorder AdAcbmTree \<Rightarrow> ADACBMNODE \<Rightarrow> string \<Rightarrow> int \<Rightarrow> int \<times> 'd acbm_matches \<Rightarrow>
     (int \<times> 'd acbm_matches) cxx" where
  "acbm_scan t root sStr iBase st =
     (if iBase < 0 then Inr st
      else bind_cxx (acbm_walk t root (drop (nat iBase) sStr) st) (\<lambda>(n, rest, st').
        case acbm_shift t n iBase (int (length sStr) - int (length rest)) rest of
          Inl e \<Rightarrow> Inl e
        | Inr iShift \<Rightarrow> acbm_scan t root sStr (iBase - max 1 iShift) st'))"
  by pat_completeness auto
termination
  by (relation "measure (\<lambda>(t, root, s, iBase, st). nat (iBase + 1))") auto

declare acbm_scan.simps [simp del]

definition AdAcbmSearch ::
    "'d::linorder AdAcbmTree \<Rightarrow> string \<Rightarrow> 'd acbm_matches \<Rightarrow> (int \<times> 'd acbm_matches) cxx" where
  "AdAcbmSearch t sStr mResult =
     (if int (length sStr) < m_iMinPtnSize t then Inr (0, mResult)
      else case m_pstRoot t of
        None \<Rightarrow> Inl NullPointer
      | Some root \<Rightarrow> acbm_scan t root sStr (int (length sStr) - m_iMinPtnSize t) (0, mResult))"

section \<open>Paths and labels\<close>

abbreviation low :: "string \<Rightarrow> string" where "low \<equiv> map tolower"

lemma tolower_idem [simp]: "tolower (tolower c) = tolower c"
  by (auto simp: tolower_def of_char_of take_bit_nat_eq_self split: if_splits)

lemma acbm_child_tolower [simp]: "acbm_child n (tolower c) = acbm_child n c"
  by (simp add: acbm_child_def)

fun acbm_at :: "ADACBMNODE \<Rightarrow> string \<Rightarrow> ADACBMNODE option" where
  "acbm_at n [] = Some n"
| "acbm_at n (c # cs) = (case acbm_child n c of None \<Rightarrow> None | Some m \<Rightarrow> acbm_at m cs)"

definition acbm_label :: "ADACBMNODE \<Rightarrow> string \<Rightarrow> int" where
  "acbm_label n q = (case acbm_at n q of None \<Rightarrow> - 1 | Some m \<Rightarrow> m_iLabel m)"

lemma acbm_label_simps [simp]:
  "acbm_label n [] = m_iLabel n"
  "acbm_label n (c # cs) = (case acbm_child n c of None \<Rightarrow> - 1 | Some m \<Rightarrow> acbm_label m cs)"
  by (auto simp: acbm_label_def split: option.split)

lemma acbm_label_new [simp]: "acbm_label (acbm_node l) q = (if q = [] then l else - 1)"
  by (cases q) (simp_all add: acbm_node_def acbm_child_def)

text \<open>What an insertion does at a node, by whether the child is there.\<close>

lemma acbm_insert_Cons:
  assumes "acbm_insert k (c # cs) n = (l, n')"
  obtains m where
    "acbm_insert k cs (case acbm_child n c of None \<Rightarrow> acbm_node (- 1) | Some m \<Rightarrow> m) = (l, m)"
    and "\<And>d. acbm_child n' d = (if tolower d = tolower c then Some m else acbm_child n d)"
    and "m_iLabel n' = m_iLabel n" and "m_iGSShift n' = m_iGSShift n"
    and "n' = AcbmNode (m_iLabel n) (m_iGSShift n)
      (if acbm_child n c = None then m_iChild n + 1 else m_iChild n)
      (if acbm_child n c = None then tolower c else m_ucChild n) (m_pstChild n')"
proof (cases n)
  case (AcbmNode lb g i u ch)
  then show thesis
    using assms that by (cases "map_of ch (tolower c)") (auto simp: acbm_child_def split: prod.splits)
qed

lemma acbm_insert_label:
  assumes "acbm_insert k s n = (l, n')"
  shows "l = (if acbm_label n s < 0 then k else acbm_label n s) \<and>
    acbm_label n' q = (if low q = low s then l else acbm_label n q)"
  using assms
proof (induction s arbitrary: n n' q)
  case Nil
  then show ?case by (cases n; cases q) (auto simp: acbm_child_def split: if_splits)
next
  case (Cons c cs)
  note Cons_IH = Cons.IH
  show ?case
    using Cons.prems
  proof (rule acbm_insert_Cons)
    let ?m = "case acbm_child n c of None \<Rightarrow> acbm_node (- 1) | Some m \<Rightarrow> m"
    fix m assume m: "acbm_insert k cs ?m = (l, m)"
      "\<And>d. acbm_child n' d = (if tolower d = tolower c then Some m else acbm_child n d)"
      "m_iLabel n' = m_iLabel n"
    have lab: "acbm_label n (c' # q) = acbm_label ?m q" if "tolower c' = tolower c" for c' q
      using acbm_child_tolower [of n c', unfolded that]
      by (simp split: option.split)
    show ?thesis
    proof (cases q)
      case Nil
      then show ?thesis using Cons.IH [OF m(1)] m(3) lab [of c cs] by simp
    next
      case (Cons d ds)
      have l: "l = (if acbm_label n (c # cs) < 0 then k else acbm_label n (c # cs))"
        using Cons_IH [OF m(1)] lab [of c cs] by simp
      show ?thesis
      proof (cases "tolower d = tolower c")
        case True
        then have "acbm_label n' q = (if low ds = low cs then l else acbm_label ?m ds)"
          using Cons_IH [OF m(1), of ds] m(2) Cons by simp
        with True l lab [of d ds] Cons show ?thesis by simp
      next
        case False
        with l m(2) Cons show ?thesis by simp
      qed
    qed
  qed
qed

text \<open>The shifts of all nodes are 0, and the child a node names is there.\<close>

definition shift_ok :: "ADACBMNODE \<Rightarrow> bool" where
  "shift_ok n \<longleftrightarrow> m_iGSShift n = 0 \<and> (m_iChild n > 0 \<longrightarrow> acbm_child n (m_ucChild n) \<noteq> None)"

definition nodes_ok :: "ADACBMNODE \<Rightarrow> bool" where
  "nodes_ok n \<longleftrightarrow> (\<forall>q m. acbm_at n q = Some m \<longrightarrow> shift_ok m)"

lemma nodes_ok_unfold:
  "nodes_ok n \<longleftrightarrow> shift_ok n \<and> (\<forall>c m. acbm_child n c = Some m \<longrightarrow> nodes_ok m)"
proof
  assume a: "nodes_ok n"
  show "shift_ok n \<and> (\<forall>c m. acbm_child n c = Some m \<longrightarrow> nodes_ok m)"
  proof (intro conjI allI impI)
    show "shift_ok n" using a [unfolded nodes_ok_def, rule_format, of "[]"] by simp
    fix c m assume "acbm_child n c = Some m"
    then show "nodes_ok m"
      unfolding nodes_ok_def using a [unfolded nodes_ok_def, rule_format, of "c # q" for q] by simp
  qed
next
  assume a: "shift_ok n \<and> (\<forall>c m. acbm_child n c = Some m \<longrightarrow> nodes_ok m)"
  show "nodes_ok n"
    unfolding nodes_ok_def
  proof (intro allI impI)
    fix q m assume "acbm_at n q = Some m"
    then show "shift_ok m" using a
      by (cases q) (auto simp: nodes_ok_def split: option.splits)
  qed
qed

lemma nodes_ok_new [simp]: "nodes_ok (acbm_node l)"
  by (subst nodes_ok_unfold) (simp add: acbm_node_def acbm_child_def shift_ok_def)

lemma nodes_ok_insert:
  "acbm_insert k s n = (l, n') \<Longrightarrow> nodes_ok n \<Longrightarrow> nodes_ok n'"
proof (induction s arbitrary: n n')
  case Nil
  then have "shift_ok n" "\<And>c m. acbm_child n c = Some m \<Longrightarrow> nodes_ok m"
    using nodes_ok_unfold [of n] by auto
  with Nil show ?case
    by (cases n, subst nodes_ok_unfold) (auto simp: acbm_child_def shift_ok_def split: if_splits)
next
  case (Cons c cs)
  have ok: "shift_ok n" "\<And>d m. acbm_child n d = Some m \<Longrightarrow> nodes_ok m"
    using Cons.prems(2) nodes_ok_unfold [of n] by auto
  show ?case
    using Cons.prems(1)
  proof (rule acbm_insert_Cons)
    let ?m = "case acbm_child n c of None \<Rightarrow> acbm_node (- 1) | Some m \<Rightarrow> m"
    fix m assume m: "acbm_insert k cs ?m = (l, m)"
      "\<And>d. acbm_child n' d = (if tolower d = tolower c then Some m else acbm_child n d)"
      and n': "n' = AcbmNode (m_iLabel n) (m_iGSShift n)
        (if acbm_child n c = None then m_iChild n + 1 else m_iChild n)
        (if acbm_child n c = None then tolower c else m_ucChild n) (m_pstChild n')"
    have "nodes_ok ?m" using ok(2) by (auto split: option.split)
    then have "nodes_ok m" by (rule Cons.IH [OF m(1)])
    moreover have "shift_ok n'"
      using ok(1) m(2) arg_cong [OF n', of m_iGSShift] arg_cong [OF n', of m_iChild]
        arg_cong [OF n', of m_ucChild]
      by (auto simp: shift_ok_def split: if_splits)
    ultimately show ?thesis
      using ok(2) m(2) by (subst nodes_ok_unfold) auto
  qed
qed

section \<open>The tree of a list of patterns\<close>

definition acbm_data :: "'d AdAcbmTree \<Rightarrow> int \<Rightarrow> 'd list" where
  "acbm_data t l = (case map_of (m_mData t) l of None \<Rightarrow> [] | Some ps \<Rightarrow> ps)"

definition acbm_build :: "(char \<Rightarrow> int) \<Rightarrow> (string \<times> 'd) list \<Rightarrow> 'd AdAcbmTree" where
  "acbm_build bc ps = fold (\<lambda>(p, d) t. snd (AdAcbmTreeAdd p d t)) ps (acbm_new bc)"

text \<open>
  The tree holds the patterns \<open>ps\<close>: each label stands for one pattern up to its case, and the
  data filed under it are those added with the pattern.
\<close>

definition acbm_root :: "'d AdAcbmTree \<Rightarrow> ADACBMNODE" where
  "acbm_root t = (case m_pstRoot t of None \<Rightarrow> acbm_node (- 2) | Some r \<Rightarrow> r)"

definition acbm_ok :: "(string \<times> 'd) list \<Rightarrow> 'd AdAcbmTree \<Rightarrow> bool" where
  "acbm_ok ps t \<longleftrightarrow>
     nodes_ok (acbm_root t) \<and> m_iLabel (acbm_root t) < 0 \<and> (ps \<noteq> [] \<longrightarrow> m_pstRoot t \<noteq> None) \<and>
     (\<forall>(p, _) \<in> set ps. p \<noteq> [] \<and> m_iMinPtnSize t \<le> int (length p)) \<and> 0 < m_iMinPtnSize t \<and>
     0 \<le> m_iPtnCount t \<and> m_iPtnCount t \<le> int (length (m_vStr t)) \<and>
     (\<forall>q. acbm_label (acbm_root t) q < m_iPtnCount t) \<and>
     (\<forall>q q'. 0 \<le> acbm_label (acbm_root t) q \<longrightarrow>
        acbm_label (acbm_root t) q = acbm_label (acbm_root t) q' \<longrightarrow> low q = low q') \<and>
     (\<forall>q. q \<noteq> [] \<longrightarrow> (0 \<le> acbm_label (acbm_root t) q \<longleftrightarrow> low q \<in> low ` fst ` set ps)) \<and>
     (\<forall>q. 0 \<le> acbm_label (acbm_root t) q \<longrightarrow>
        set (acbm_data t (acbm_label (acbm_root t) q)) = {d. \<exists>p. (p, d) \<in> set ps \<and> low p = low q}) \<and>
     (\<forall>l \<ge> m_iPtnCount t. acbm_data t l = [])"

text \<open>The parts of the invariant.\<close>

lemmas acbm_ok_nodes = acbm_ok_def [THEN iffD1, THEN conjunct1]
lemmas acbm_ok_root_label = acbm_ok_def [THEN iffD1, THEN conjunct2, THEN conjunct1]
lemmas acbm_ok_root = acbm_ok_def [THEN iffD1, THEN conjunct2, THEN conjunct2, THEN conjunct1, rule_format]
lemmas acbm_ok_mins = acbm_ok_def [THEN iffD1, THEN conjunct2, THEN conjunct2, THEN conjunct2, THEN conjunct1]
lemmas acbm_ok_min0 = acbm_ok_def [THEN iffD1, THEN conjunct2, THEN conjunct2, THEN conjunct2, THEN conjunct2, THEN conjunct1]
lemmas acbm_ok_count0 = acbm_ok_def [THEN iffD1, THEN conjunct2, THEN conjunct2, THEN conjunct2, THEN conjunct2, THEN conjunct2, THEN conjunct1]
lemmas acbm_ok_count = acbm_ok_def [THEN iffD1, THEN conjunct2, THEN conjunct2, THEN conjunct2, THEN conjunct2, THEN conjunct2, THEN conjunct2, THEN conjunct1]
lemmas acbm_ok_lt = acbm_ok_def [THEN iffD1, THEN conjunct2, THEN conjunct2, THEN conjunct2, THEN conjunct2, THEN conjunct2, THEN conjunct2, THEN conjunct2, THEN conjunct1, rule_format]
lemmas acbm_ok_inj = acbm_ok_def [THEN iffD1, THEN conjunct2, THEN conjunct2, THEN conjunct2, THEN conjunct2, THEN conjunct2, THEN conjunct2, THEN conjunct2, THEN conjunct2, THEN conjunct1, rule_format]
lemmas acbm_ok_keys = acbm_ok_def [THEN iffD1, THEN conjunct2, THEN conjunct2, THEN conjunct2, THEN conjunct2, THEN conjunct2, THEN conjunct2, THEN conjunct2, THEN conjunct2, THEN conjunct2, THEN conjunct1, rule_format]
lemmas acbm_ok_data = acbm_ok_def [THEN iffD1, THEN conjunct2, THEN conjunct2, THEN conjunct2, THEN conjunct2, THEN conjunct2, THEN conjunct2, THEN conjunct2, THEN conjunct2, THEN conjunct2, THEN conjunct2, THEN conjunct1, rule_format]
lemmas acbm_ok_fresh = acbm_ok_def [THEN iffD1, THEN conjunct2, THEN conjunct2, THEN conjunct2, THEN conjunct2, THEN conjunct2, THEN conjunct2, THEN conjunct2, THEN conjunct2, THEN conjunct2, THEN conjunct2, THEN conjunct2, rule_format]

lemma acbm_ok_new [simp]: "acbm_ok [] (acbm_new bc)"
  by (simp add: acbm_ok_def acbm_new_def acbm_root_def acbm_data_def)
    (simp add: acbm_node_def)

lemma acbm_data_add:
  "acbm_data (t\<lparr>m_mData := smap_upd l (acbm_data t l @ [d]) (m_mData t)\<rparr>) l' =
    (if l' = l then acbm_data t l @ [d] else acbm_data t l')"
  by (simp add: acbm_data_def)

lemma acbm_add_unfold:
  assumes "p \<noteq> []" "acbm_insert (m_iPtnCount t) p (acbm_root t) = (l, r)"
  shows "AdAcbmTreeAdd p d t = (AD_SUCCESS,
    t\<lparr>m_iMaxDepth := max (int (length p)) (m_iMaxDepth t),
      m_iMinPtnSize := min (int (length p)) (m_iMinPtnSize t), m_pstRoot := Some r,
      m_iPtnCount := (if l = m_iPtnCount t then m_iPtnCount t + 1 else m_iPtnCount t),
      m_vStr := m_vStr t @ [p], m_mData := smap_upd l (acbm_data t l @ [d]) (m_mData t)\<rparr>)"
  using assms by (simp add: AdAcbmTreeAdd_def acbm_root_def acbm_data_def Let_def)

lemma acbm_label_low: "low q = low q' \<Longrightarrow> acbm_label n q = acbm_label n q'"
proof (induction q arbitrary: n q')
  case (Cons c cs)
  then obtain d ds where q': "q' = d # ds" "tolower c = tolower d" "low cs = low ds" by (cases q') auto
  then have "acbm_child n c = acbm_child n d" using acbm_child_tolower [of n c] by simp
  with q' Cons.IH [OF q'(3)] show ?case by (auto split: option.split)
qed simp

lemma acbm_ok_add:
  assumes ok: "acbm_ok ps t" and p: "p \<noteq> []"
  shows "acbm_ok (ps @ [(p, d)]) (snd (AdAcbmTreeAdd p d t))"
proof -
  obtain l r where ins: "acbm_insert (m_iPtnCount t) p (acbm_root t) = (l, r)" by fastforce
  let ?R = "acbm_root t" and ?n = "m_iPtnCount t"
  note lab = acbm_insert_label [OF ins]
  have l: "l = (if acbm_label ?R p < 0 then ?n else acbm_label ?R p)" using lab by blast
  have r: "acbm_label r q = (if low q = low p then l else acbm_label ?R q)" for q using lab by blast
  note n = acbm_ok_count0 [OF ok] and lt = acbm_ok_lt [OF ok] and R0 = acbm_ok_root_label [OF ok]
    and inj = acbm_ok_inj [OF ok] and keys = acbm_ok_keys [OF ok] and data = acbm_ok_data [OF ok]
    and fresh = acbm_ok_fresh [OF ok] and vstr = acbm_ok_count [OF ok]
    and mins = acbm_ok_mins [OF ok] and min0 = acbm_ok_min0 [OF ok]
  define t' where "t' = snd (AdAcbmTreeAdd p d t)"
  have t': "acbm_root t' = r" "m_pstRoot t' = Some r" "m_vStr t' = m_vStr t @ [p]"
    "m_iPtnCount t' = (if l = ?n then ?n + 1 else ?n)"
    "m_iMinPtnSize t' = min (int (length p)) (m_iMinPtnSize t)"
    "\<And>l'. acbm_data t' l' = (if l' = l then acbm_data t l @ [d] else acbm_data t l')"
    unfolding t'_def acbm_add_unfold [OF p ins] by (simp_all add: acbm_root_def acbm_data_def)
  have l0: "0 \<le> l" "l < m_iPtnCount t'" using l n lt [of p] t'(4) by (auto split: if_splits)
  have nodes: "nodes_ok r" using nodes_ok_insert [OF ins] ok by (simp add: acbm_ok_def)
  have r0: "m_iLabel r < 0" using r [of "[]"] p R0 by simp
  have lab_p: "acbm_label ?R q = acbm_label ?R p" if "low q = low p" for q
    using that by (rule acbm_label_low)
  have other: "acbm_label ?R q \<noteq> l" if "low q \<noteq> low p" "0 \<le> acbm_label ?R q" for q
    using that l lt [of q] inj [of q p] by (auto split: if_splits)
  have bound: "acbm_label r q < m_iPtnCount t'" for q
    using r [of q] l0 lt [of q] t'(4) by (auto split: if_splits)
  have injective: "low q = low q'" if "0 \<le> acbm_label r q" "acbm_label r q = acbm_label r q'" for q q'
    using that r [of q] r [of q'] other [of q] other [of q'] inj [of q q'] l0(1)
    by (auto split: if_splits)
  have keys': "0 \<le> acbm_label r q \<longleftrightarrow> low q \<in> low ` fst ` set (ps @ [(p, d)])" if "q \<noteq> []" for q
    using r [of q] keys [OF that] l0(1) by (auto split: if_splits)
  have data': "set (acbm_data t' (acbm_label r q)) = {e. \<exists>p'. (p', e) \<in> set (ps @ [(p, d)]) \<and> low p' = low q}"
    if "0 \<le> acbm_label r q" for q
  proof (cases "low q = low p")
    case True
    have "set (acbm_data t l) = {e. \<exists>p'. (p', e) \<in> set ps \<and> low p' = low p}"
    proof (cases "acbm_label ?R p < 0")
      case True
      then have no: "low p \<notin> low ` fst ` set ps" using keys [OF p] by simp
      have "low p' \<noteq> low p" if "(p', e) \<in> set ps" for p' e
        using no image_eqI [of _ fst, OF _ that] by (metis fst_conv image_eqI)
      then show ?thesis using True l fresh [of ?n] by auto
    next
      case False
      then show ?thesis using l data [of p] by simp
    qed
    then show ?thesis using True r [of q] t'(6) by auto
  next
    case False
    then have "acbm_label r q = acbm_label ?R q" "acbm_label ?R q \<noteq> l"
      using r [of q] other that by auto
    then show ?thesis using False data [of q] that t'(6) by auto
  qed
  have fresh': "acbm_data t' l' = []" if "m_iPtnCount t' \<le> l'" for l'
    using that l0 fresh [of l'] t'(4,6) by (auto split: if_splits)
  have mins': "\<forall>(p', _) \<in> set (ps @ [(p, d)]). p' \<noteq> [] \<and> m_iMinPtnSize t' \<le> int (length p')"
    using mins p t'(5) by auto
  have nums: "0 < m_iMinPtnSize t'" "0 \<le> m_iPtnCount t'" "m_iPtnCount t' \<le> int (length (m_vStr t'))"
    "ps @ [(p, d)] \<noteq> [] \<longrightarrow> m_pstRoot t' \<noteq> None"
    using min0 p n vstr t'(2-5) by simp_all
  show ?thesis
    unfolding acbm_ok_def t'_def [symmetric] t'(1)
    by (intro conjI nodes r0 nums mins'; use bound injective keys' data' fresh' in blast)
qed

lemma acbm_ok_build:
  "\<forall>(p, _) \<in> set ps. p \<noteq> [] \<Longrightarrow> acbm_ok ps (acbm_build bc ps)"
proof (induction ps rule: rev_induct)
  case (snoc e ps)
  obtain p d where "e = (p, d)" by (cases e)
  with snoc show ?case by (auto simp: acbm_build_def intro: acbm_ok_add)
qed (simp add: acbm_build_def)

section \<open>What the search finds\<close>

abbreviation found :: "('d \<times> 'v) list \<Rightarrow> 'd set" where
  "found res \<equiv> fst ` set res"

text \<open>The data of the patterns that are on the tree along a text.\<close>

definition acbm_hits :: "'d AdAcbmTree \<Rightarrow> ADACBMNODE \<Rightarrow> string \<Rightarrow> 'd set" where
  "acbm_hits t n str =
     {d. \<exists>q. q \<noteq> [] \<and> prefix q str \<and> 0 \<le> acbm_label n q \<and> d \<in> set (acbm_data t (acbm_label n q))}"

lemma acbm_hits_Nil [simp]: "acbm_hits t n [] = {}"
  by (auto simp: acbm_hits_def)

lemma acbm_hits_Cons:
  "acbm_hits t n (c # cs) =
    (case acbm_child n c of
       None \<Rightarrow> {}
     | Some m \<Rightarrow> (if 0 \<le> m_iLabel m then set (acbm_data t (m_iLabel m)) else {}) \<union> acbm_hits t m cs)"
proof (cases "acbm_child n c")
  case None
  then show ?thesis by (auto simp: acbm_hits_def prefix_Cons)
next
  case (Some m)
  have "d \<in> acbm_hits t n (c # cs) \<longleftrightarrow>
      (\<exists>q. prefix q cs \<and> 0 \<le> acbm_label m q \<and> d \<in> set (acbm_data t (acbm_label m q)))" for d
    using Some by (auto simp: acbm_hits_def prefix_Cons)
  then show ?thesis
    using Some by (auto simp: acbm_hits_def) (metis acbm_label_simps(1) prefix_bot.bot_least)+
qed

lemma found_match_adds [simp]: "found (fold (match_add s) ps res) = set ps \<union> found res"
  by (induction ps arbitrary: res) (auto simp: match_add_def)

lemma acbm_hit_defined:
  assumes "m_iLabel n < int (length (m_vStr t))"
  shows "\<exists>k' res'. acbm_hit t n (k, res) = Inr (k', res') \<and>
    found res' = found res \<union> (if 0 \<le> m_iLabel n then set (acbm_data t (m_iLabel n)) else {})"
  using assms by (auto simp: acbm_hit_def acbm_data_def vec_get_def split: option.split)

lemma acbm_walk_defined:
  assumes "nodes_ok n" "\<And>q. acbm_label n q < int (length (m_vStr t))"
  shows "\<exists>n' rest k' res'. acbm_walk t n str (k, res) = Inr (n', rest, k', res') \<and> nodes_ok n' \<and>
    length rest \<le> length str \<and> found res' = found res \<union> acbm_hits t n str"
  using assms
proof (induction str arbitrary: n k res)
  case Nil
  then show ?case by simp
next
  case (Cons c cs)
  show ?case
  proof (cases "acbm_child n c")
    case None
    then show ?thesis using Cons.prems(1) by (simp add: acbm_hits_Cons)
  next
    case (Some m)
    have m: "nodes_ok m" "\<And>q. acbm_label m q < int (length (m_vStr t))"
      using Cons.prems(1) nodes_ok_unfold [of n] Some Cons.prems(2) [of "c # q" for q] by simp_all
    obtain k1 r1 where r1: "acbm_hit t m (k, res) = Inr (k1, r1)"
      "found r1 = found res \<union> (if 0 \<le> m_iLabel m then set (acbm_data t (m_iLabel m)) else {})"
      using acbm_hit_defined [of m t k res] m(2) [of "[]"] by auto
    from Cons.IH [OF m, of k1 r1] show ?thesis
      using Some r1 by (fastforce simp: acbm_hits_Cons)
  qed
qed

text \<open>Without \<^verbatim>\<open>AdAcbmTreeBuild\<close> every step of the scan goes one letter to the left.\<close>

lemma acbm_shift_one:
  assumes n: "nodes_ok n" and bc: "\<And>c. \<bar>m_iBCShift t c\<bar> < 2 ^ 30"
    and i: "0 \<le> iBase" "iBase < 2 ^ 30" "0 \<le> iCur" "iCur < 2 ^ 30"
  shows "acbm_shift t n iBase iCur rest = Inr 1"
proof (cases "m_iChild n > 0")
  case True
  then obtain ch where ch: "acbm_child n (m_ucChild n) = Some ch" "m_iGSShift ch = 0"
    using n [unfolded nodes_ok_def, rule_format, of "[]"]
      n [unfolded nodes_ok_def, rule_format, of "[m_ucChild n]"] by (auto simp: shift_ok_def)
  have "add_int (m_iBCShift t c) iBase = Inr (m_iBCShift t c + iBase)"
    "add_int (m_iBCShift t c + iBase) (- iCur) = Inr (m_iBCShift t c + iBase - iCur)" for c
    using bc [of c] i by (auto simp: add_int_def)
  then show ?thesis using True ch by (auto simp: acbm_shift_def Let_def split: list.split)
qed (simp add: acbm_shift_def)

lemma acbm_scan_defined:
  assumes "nodes_ok root" "\<And>q. acbm_label root q < int (length (m_vStr t))"
    and "\<And>c. \<bar>m_iBCShift t c\<bar> < 2 ^ 30" "length s < 2 ^ 30" "iBase < int (length s)"
  shows "\<exists>k' res'. acbm_scan t root s iBase (k, res) = Inr (k', res') \<and>
    found res' = found res \<union> (\<Union>i \<in> {i. int i \<le> iBase}. acbm_hits t root (drop i s))"
  using assms(5)
proof (induction "nat (iBase + 1)" arbitrary: iBase k res)
  case 0
  then have "iBase < 0" by simp
  then show ?case by (subst acbm_scan.simps) auto
next
  case (Suc m)
  then have i: "0 \<le> iBase" "m = nat (iBase - 1 + 1)" "iBase - 1 < int (length s)" by auto
  obtain n rest k1 r1 where walk: "acbm_walk t root (drop (nat iBase) s) (k, res) = Inr (n, rest, k1, r1)"
      "nodes_ok n" "length rest \<le> length (drop (nat iBase) s)"
      "found r1 = found res \<union> acbm_hits t root (drop (nat iBase) s)"
    using acbm_walk_defined [OF assms(1,2), of "drop (nat iBase) s" k res] by auto
  have "acbm_shift t n iBase (int (length s) - int (length rest)) rest = Inr 1"
    using walk(3) Suc.prems i assms(4) by (intro acbm_shift_one walk(2) assms(3)) auto
  then have step: "acbm_scan t root s iBase (k, res) = acbm_scan t root s (iBase - 1) (k1, r1)"
    using i(1) walk(1) by (subst acbm_scan.simps) simp
  have set: "{j. int j \<le> iBase} = insert (nat iBase) {j. int j \<le> iBase - 1}" using i(1) by auto
  show ?case
    unfolding step set using Suc.hyps(1) [OF i(2,3), of k1 r1] walk(4) by auto
qed

lemma acbm_build_bc:
  "\<forall>(p, _) \<in> set ps. p \<noteq> [] \<Longrightarrow> m_iBCShift (acbm_build bc ps) = bc"
proof (induction ps rule: rev_induct)
  case (snoc e ps)
  obtain p d where e: "e = (p, d)" by (cases e)
  obtain l r where "acbm_insert (m_iPtnCount (acbm_build bc ps)) p (acbm_root (acbm_build bc ps)) = (l, r)"
    by fastforce
  with snoc e acbm_add_unfold [of p "acbm_build bc ps" l r d] show ?case by (simp add: acbm_build_def)
qed (simp add: acbm_build_def acbm_new_def)

text \<open>Where the patterns occur.\<close>

lemma acbm_hits_sublist:
  assumes ok: "acbm_ok ps t"
  shows "(\<Union>i \<in> {i. int i \<le> int (length s) - m_iMinPtnSize t}. acbm_hits t (acbm_root t) (drop i s)) =
    {d. \<exists>p. (p, d) \<in> set ps \<and> sublist (low p) (low s)}" (is "?L = ?R")
proof (intro equalityI subsetI)
  fix d assume "d \<in> ?L"
  then obtain i q where q: "prefix q (drop i s)" "0 \<le> acbm_label (acbm_root t) q"
    "d \<in> set (acbm_data t (acbm_label (acbm_root t) q))"
    by (auto simp: acbm_hits_def)
  then obtain p where p: "(p, d) \<in> set ps" "low p = low q" using acbm_ok_data [OF ok q(2)] by auto
  have "sublist q s" using q(1) unfolding prefix_def sublist_def
    by (metis append_take_drop_id)
  then have "sublist (low q) (low s)" by (auto simp: sublist_def) blast
  with p show "d \<in> ?R" by auto
next
  fix d assume "d \<in> ?R"
  then obtain p a b where p: "(p, d) \<in> set ps" "low s = a @ low p @ b" by (auto simp: sublist_def)
  let ?q = "take (length p) (drop (length a) s)"
  have len: "length s = length a + length p + length b" using arg_cong [OF p(2), of length] by simp
  have q: "low ?q = low p" by (simp add: take_map [symmetric] drop_map [symmetric] p(2))
  have "p \<noteq> []" "m_iMinPtnSize t \<le> int (length p)" using acbm_ok_mins [OF ok] p(1) by auto
  moreover have "0 \<le> acbm_label (acbm_root t) p"
    using acbm_ok_keys [OF ok \<open>p \<noteq> []\<close>] p(1) by force
  moreover from this have "d \<in> set (acbm_data t (acbm_label (acbm_root t) p))"
    using acbm_ok_data [OF ok, of p] p(1) by auto
  moreover have "?q \<noteq> [] \<and> prefix ?q (drop (length a) s)"
    using \<open>p \<noteq> []\<close> len by (simp add: take_is_prefix)
  ultimately have "d \<in> acbm_hits t (acbm_root t) (drop (length a) s)"
    unfolding acbm_hits_def mem_Collect_eq
    using acbm_label_low [OF q, of "acbm_root t"] by (intro exI [of _ ?q]) metis
  then show "d \<in> ?L"
    using \<open>m_iMinPtnSize t \<le> int (length p)\<close> len by (intro UN_I [of "length a"]) auto
qed

text \<open>
  C27. The search is complete and correct. In a tree of at least one pattern, none of them
  empty, the search of a text returns exactly the data whose pattern occurs in the text when the
  case of the letters is ignored, whatever the uninitialised array \<^verbatim>\<open>m_iBCShift\<close> holds, up to
  values near the limits of \<^verbatim>\<open>int\<close>.
\<close>

theorem acbm_search_finds:
  assumes "ps \<noteq> []" "\<forall>(p, _) \<in> set ps. p \<noteq> []" "\<And>c. \<bar>bc c\<bar> < 2 ^ 30" "length s < 2 ^ 30"
  shows "\<exists>k res. AdAcbmSearch (acbm_build bc ps) s [] = Inr (k, res) \<and>
    found res = {d. \<exists>p. (p, d) \<in> set ps \<and> sublist (low p) (low s)}"
proof -
  let ?t = "acbm_build bc ps"
  have ok: "acbm_ok ps ?t" by (rule acbm_ok_build) fact
  then obtain root where root: "m_pstRoot ?t = Some root" "acbm_root ?t = root"
    using acbm_ok_root [OF ok assms(1)] by (auto simp: acbm_root_def)
  note hits = acbm_hits_sublist [OF ok, of s, unfolded root(2)]
  show ?thesis
  proof (cases "int (length s) < m_iMinPtnSize ?t")
    case True
    then have "{i. int i \<le> int (length s) - m_iMinPtnSize ?t} = {}" by auto
    then show ?thesis using True hits by (simp add: AdAcbmSearch_def)
  next
    case False
    have "acbm_label root q < int (length (m_vStr ?t))" for q
      using acbm_ok_lt [OF ok, of q] acbm_ok_count [OF ok] root(2) by simp
    then obtain k res where "acbm_scan ?t root s (int (length s) - m_iMinPtnSize ?t) (0, []) = Inr (k, res)"
      "found res = (\<Union>i \<in> {i. int i \<le> int (length s) - m_iMinPtnSize ?t}. acbm_hits ?t root (drop i s))"
      using acbm_scan_defined [of root ?t s "int (length s) - m_iMinPtnSize ?t" 0 "[]"]
        acbm_ok_nodes [OF ok] root(2) acbm_build_bc [OF assms(2), of bc] assms(3,4) acbm_ok_min0 [OF ok]
      by auto
    then show ?thesis using False root(1) hits by (auto simp: AdAcbmSearch_def)
  qed
qed

theorem acbm_search_finds_witness:
  "\<exists>k res. AdAcbmSearch (acbm_build (\<lambda>_. 77) [(''Car'', 1 :: nat), (''rent'', 2), (''bus'', 3)]) ''rent a cAr'' [] = Inr (k, res) \<and>
    found res = {1, 2}"
proof -
  let ?ps = "[(''Car'', 1 :: nat), (''rent'', 2), (''bus'', 3)]"
  have "sublist (low p) (low ''rent a cAr'') \<longleftrightarrow> p \<noteq> ''bus''" if "(p, d) \<in> set ?ps" for p d
    using that by (auto; code_simp)
  then have "{d. \<exists>p. (p, d) \<in> set ?ps \<and> sublist (low p) (low ''rent a cAr'')} = {1, 2}" by auto
  then show ?thesis using acbm_search_finds [of ?ps "\<lambda>_. 77" "''rent a cAr''"] by auto
qed

text \<open>
  The strings that a search reports are wrong after a pattern was added twice: labels count
  the distinct patterns, but \<^verbatim>\<open>m_vStr\<close> keeps every pattern that was added, and is indexed by label.
  After the patterns \<open>p\<close>, \<open>p\<close>, \<open>q\<close>, the search of the text \<open>q\<close> reports the string \<open>p\<close> for \<open>q\<close>, for
  any two patterns of one letter each that differ in more than the case.
\<close>

theorem acbm_string_of_duplicate:
  assumes "tolower p \<noteq> tolower q" "d \<noteq> e"
  shows "AdAcbmSearch (acbm_build bc [([p], d), ([p], d), ([q], e)]) [q] [] = Inr (1, [(e, [[p]])])"
  using assms
  by (auto simp: AdAcbmSearch_def acbm_build_def AdAcbmTreeAdd_def acbm_new_def acbm_node_def
      acbm_scan.simps [of _ _ "[q]"] acbm_child_def acbm_hit_def vec_get_def match_add_def acbm_shift_def Let_def)

theorem acbm_string_of_duplicate_witness:
  "AdAcbmSearch (acbm_build (\<lambda>_. 0) [(''a'', 1 :: nat), (''a'', 1), (''b'', 2)]) ''b'' [] =
    Inr (1, [(2, [''a''])])"
  by (rule acbm_string_of_duplicate) code_simp+

text \<open>
  Adding the empty string, which \<^verbatim>\<open>AdFilterMarkGetStr\<close> makes of a key such as \<open>*\<close>, fails and
  removes all patterns that were added before: a search of a text below 512 bytes finds nothing, of
  a longer one it goes through the root pointer, which is \<^verbatim>\<open>NULL\<close>.
\<close>

theorem acbm_add_empty_clears:
  "fst (AdAcbmTreeAdd [] d t) = AD_FAILURE \<and>
   AdAcbmSearch (snd (AdAcbmTreeAdd [] d t)) s res =
     (if length s < 512 then Inr (0, res) else Inl NullPointer)"
  by (auto simp: AdAcbmTreeAdd_def AdAcbmSearch_def acbm_clear_def)

end
