(* ===== verification/AdUserInfo.thy ===== *)
theory AdUserInfo
  imports AdTlv AdUtil AdCString AdPlanningUnit
begin

text \<open>
  The user data of \<^verbatim>\<open>ibidding/filter/AdUserInfo.h/.cpp\<close>: the request to the user cache, the
  reading of its reply, and the marks that the reply lists. The consistent hash that selects a
  cache server and the exchange of the packets are arguments.
\<close>

section \<open>Data\<close>

record AdUserMark =
  m_um_sMark :: string
  m_um_uiTime :: UINT
  m_um_ucTag :: UCHAR

text \<open>
  \<^verbatim>\<open>multimap<UINT, AdUserMark, greater<UINT> >\<close>: in the order of its iterators, the greatest key
  first; an entry is inserted behind those with the same key.
\<close>

type_synonym user_marks = "(UINT \<times> AdUserMark) list"

fun marks_insert :: "UINT \<Rightarrow> AdUserMark \<Rightarrow> user_marks \<Rightarrow> user_marks" where
  "marks_insert k v [] = [(k, v)]"
| "marks_insert k v ((k', v') # m) =
     (if k > k' then (k, v) # (k', v') # m else (k', v') # marks_insert k v m)"

record AdUserData =
  m_ud_uiFlagID :: UINT
  m_ud_sAdUID :: string
  m_ud_sLeague :: string
  m_ud_sUserID :: string
  m_ud_sUserIE :: string
  m_ud_sUserIP :: string
  m_ud_sUserAg :: string
  m_ud_sCookID :: string
  m_ud_sPID :: string
  m_ud_sCreativeID :: string
  m_ud_sExecuteID :: string
  m_ud_mMark :: user_marks
  m_ud_mAudience :: user_marks

definition clear_user :: AdUserData where
  "clear_user = \<lparr>m_ud_uiFlagID = 0, m_ud_sAdUID = [], m_ud_sLeague = [], m_ud_sUserID = [],
     m_ud_sUserIE = [], m_ud_sUserIP = [], m_ud_sUserAg = [], m_ud_sCookID = [], m_ud_sPID = [],
     m_ud_sCreativeID = [], m_ud_sExecuteID = [], m_ud_mMark = [], m_ud_mAudience = []\<rparr>"

abbreviation AD_CACHE_LEAGUE :: UCHAR where "AD_CACHE_LEAGUE \<equiv> 0x01"
abbreviation AD_CACHE_USER_ID :: UCHAR where "AD_CACHE_USER_ID \<equiv> 0x02"
abbreviation AD_CACHE_USER_IP :: UCHAR where "AD_CACHE_USER_IP \<equiv> 0x03"
abbreviation AD_CACHE_USERAGENT :: UCHAR where "AD_CACHE_USERAGENT \<equiv> 0x04"
abbreviation AD_CACHE_KEY :: UCHAR where "AD_CACHE_KEY \<equiv> 0x05"
abbreviation AD_CACHE_URL :: UCHAR where "AD_CACHE_URL \<equiv> 0x06"
abbreviation AD_CACHE_TAG :: UCHAR where "AD_CACHE_TAG \<equiv> 0x07"
abbreviation AD_CACHE_FLAG :: UCHAR where "AD_CACHE_FLAG \<equiv> 0x08"
abbreviation AD_CACHE_ADIRECTS_ID :: UCHAR where "AD_CACHE_ADIRECTS_ID \<equiv> 0x0a"
abbreviation AD_CACHE_COOKIE_ID :: UCHAR where "AD_CACHE_COOKIE_ID \<equiv> 0x0b"
abbreviation AD_CACHE_COOKIE_VALUE :: UCHAR where "AD_CACHE_COOKIE_VALUE \<equiv> 0x0c"
abbreviation AD_CACHE_PID :: UCHAR where "AD_CACHE_PID \<equiv> 0x0d"
abbreviation AD_CACHE_EXEC_ID :: UCHAR where "AD_CACHE_EXEC_ID \<equiv> 0x0e"
abbreviation AD_CACHE_CREATE_ID :: UCHAR where "AD_CACHE_CREATE_ID \<equiv> 0x0f"
abbreviation AD_CACHE_SELECT :: UCHAR where "AD_CACHE_SELECT \<equiv> 0x03"
abbreviation AD_DAY_SECONDS :: int where "AD_DAY_SECONDS \<equiv> 86400"
abbreviation AD_KBYTES8 :: nat where "AD_KBYTES8 \<equiv> 8192"

section \<open>Marks\<close>

text \<open>A mark \<open>text:time\<close> of the past; \<open>now\<close> is the second of the constructor of \<^verbatim>\<open>Time\<close>.\<close>

definition AdUserInfoAddMark :: "int \<Rightarrow> string \<Rightarrow> user_marks \<Rightarrow> UCHAR \<Rightarrow> user_marks" where
  "AdUserInfoAddMark now sStr mMark ucTag =
     fold (\<lambda>sNode mMark.
         let vStr2 = split_fields sNode '':'' in
         if length vStr2 = 2 then
           let tCapture = sint (atoi (c_str (vStr2 ! 1))) in
           if tCapture < now then
             let uiTime = of_int ((now - tCapture) div AD_DAY_SECONDS + 1) in
             marks_insert uiTime \<lparr>m_um_sMark = vStr2 ! 0, m_um_uiTime = uiTime, m_um_ucTag = ucTag\<rparr> mMark
           else mMark
         else mMark)
       (split_fields sStr ''|'') mMark"

definition AdUserInfoAddRequestMark :: "string \<Rightarrow> user_marks \<Rightarrow> UCHAR \<Rightarrow> user_marks" where
  "AdUserInfoAddRequestMark sStr mMark ucTag =
     marks_insert 1 \<lparr>m_um_sMark = sStr, m_um_uiTime = 1, m_um_ucTag = ucTag\<rparr> mMark"

section \<open>The request\<close>

definition user_kvs :: "AdUserData \<Rightarrow> (UCHAR \<times> string) list" where
  "user_kvs ctUser =
     [(AD_CACHE_LEAGUE, m_ud_sLeague ctUser), (AD_CACHE_USER_ID, m_ud_sUserID ctUser),
      (AD_CACHE_USER_IP, m_ud_sUserIP ctUser), (AD_CACHE_USERAGENT, m_ud_sUserAg ctUser)]"

definition user_head :: "USHORT \<Rightarrow> int \<Rightarrow> ADPROHEAD_S" where
  "user_head count len = \<lparr>ucFlag = AD_PROTOCOL_FLAG, ucVersion = 1, ucProtocol = 1, ucWide = 0,
     ucResponse = 1, ucExpand = 0, ucType = 0, ucVerb = AD_CACHE_SELECT, ucAttr = 0, ucResult = 0,
     usTotal = count, iLength = len\<rparr>"

definition AdUserInfoBuildRequest :: "AdUserData \<Rightarrow> string \<Rightarrow> int \<Rightarrow> (int \<times> string) cxx" where
  "AdUserInfoBuildRequest ctUser pPacket iLen =
     bind_cxx (kv_all (user_kvs ctUser) \<lparr>kv_mem = pPacket, pCur = 12, iSpace = iLen - 12, usCount = 0\<rparr>)
       (\<lambda>(ok, st).
         if \<not> ok then Inr (AD_FAILURE, kv_mem st)
         else
           let len = int (pCur st) - 12 in
           bind_cxx (mem_write (kv_mem st) 0 (head_bytes (user_head (usCount st) len))) (\<lambda>m.
             Inr (len + 12, m)))"

section \<open>The reply\<close>

text \<open>What the \<^verbatim>\<open>switch\<close> does with a value; \<open>None\<close> leaves the loop.\<close>

definition user_store :: "int \<Rightarrow> UCHAR \<Rightarrow> string \<Rightarrow> AdUserData \<Rightarrow> AdUserData option" where
  "user_store now ucKey s ctUser =
     (if ucKey = AD_CACHE_PID then Some (ctUser\<lparr>m_ud_sPID := s\<rparr>)
      else if ucKey = AD_CACHE_CREATE_ID then Some (ctUser\<lparr>m_ud_sCreativeID := s\<rparr>)
      else if ucKey = AD_CACHE_EXEC_ID then Some (ctUser\<lparr>m_ud_sExecuteID := s\<rparr>)
      else if ucKey = AD_CACHE_LEAGUE then Some (ctUser\<lparr>m_ud_sLeague := s\<rparr>)
      else if ucKey = AD_CACHE_ADIRECTS_ID then Some (ctUser\<lparr>m_ud_sUserID := s\<rparr>)
      else if ucKey = AD_CACHE_COOKIE_ID then Some (ctUser\<lparr>m_ud_sCookID := s\<rparr>)
      else if ucKey = AD_CACHE_USER_IP then Some (ctUser\<lparr>m_ud_sUserIP := s\<rparr>)
      else if ucKey = AD_CACHE_USERAGENT then Some (ctUser\<lparr>m_ud_sUserAg := s\<rparr>)
      else if ucKey = AD_CACHE_KEY then
        (let u = ctUser\<lparr>m_ud_mMark := AdUserInfoAddMark now s (m_ud_mMark ctUser) AD_CACHE_KEY\<rparr> in
         Some (if find_sub ''KW_'' s = Some 0
               then u\<lparr>m_ud_mAudience := AdUserInfoAddMark now s (m_ud_mAudience u) AD_CACHE_TAG\<rparr>
               else u))
      else if ucKey = AD_CACHE_URL then
        Some (ctUser\<lparr>m_ud_mMark := AdUserInfoAddMark now s (m_ud_mMark ctUser) AD_CACHE_URL\<rparr>)
      else if ucKey = AD_CACHE_TAG then
        Some (ctUser\<lparr>m_ud_mMark := AdUserInfoAddMark now s (m_ud_mMark ctUser) AD_CACHE_TAG,
          m_ud_mAudience := AdUserInfoAddMark now s (m_ud_mAudience ctUser) AD_CACHE_TAG\<rparr>)
      else if ucKey = AD_CACHE_COOKIE_VALUE then
        Some (ctUser\<lparr>m_ud_mAudience := AdUserInfoAddMark now s (m_ud_mAudience ctUser) AD_CACHE_TAG\<rparr>)
      else if ucKey = AD_CACHE_FLAG then Some (ctUser\<lparr>m_ud_uiFlagID := atoi (c_str s)\<rparr>)
      else None)"

text \<open>
  The loop over the body, which starts at index 12. \<open>left\<close> is what \<^verbatim>\<open>usTotal\<close> lacks to the total
  of the head. The end of a value is computed in 64 bits and cut to an \<^verbatim>\<open>int\<close> before it is
  compared with the length of the packet.
\<close>

fun user_body :: "int \<Rightarrow> string \<Rightarrow> int \<Rightarrow> int \<Rightarrow> nat \<Rightarrow> int \<Rightarrow> AdUserData \<Rightarrow> AdUserData cxx" where
  "user_body now mem len iLen 0 cur ctUser = Inr ctUser"
| "user_body now mem len iLen (Suc left) cur ctUser =
     (if int_cast (cur - 12 + 1) < len then
        bind_cxx (rd8 mem cur) (\<lambda>ucKey.
        bind_cxx (rd32 mem (cur + 1)) (\<lambda>w.
          let kvLen = sint w in
          if kvLen \<le> 0 then Inr ctUser
          else if int_cast (cur + 5 + 1 + kvLen) > iLen then Inr ctUser
          else bind_cxx
            (if user_store now ucKey [] ctUser = None then Inr None
             else bind_cxx (rd_bytes mem (cur + 5) (nat kvLen)) (\<lambda>s. Inr (user_store now ucKey s ctUser)))
            (\<lambda>r. case r of
                None \<Rightarrow> Inr ctUser
              | Some u \<Rightarrow> user_body now mem len iLen left (cur + 5 + kvLen) u)))
      else Inr ctUser)"

text \<open>\<open>pPacket\<close> is the receive buffer, of which \<open>iLen\<close> bytes were received.\<close>

definition AdUserInfoParse :: "int \<Rightarrow> AdUserData \<Rightarrow> string \<Rightarrow> int \<Rightarrow> (int \<times> AdUserData) cxx" where
  "AdUserInfoParse now ctUser pPacket iLen =
     bind_cxx (rd8 pPacket 0) (\<lambda>flag.
       if flag \<noteq> AD_PROTOCOL_FLAG then Inr (AD_FAILURE, ctUser)
       else bind_cxx (read_head pPacket flag) (\<lambda>h.
         bind_cxx (add_int iLen (- iLength h)) (\<lambda>d.
           if d \<noteq> 12 then Inr (AD_FAILURE, ctUser)
           else if usTotal h = 0 then Inr (AD_FAILURE, ctUser)
           else bind_cxx (user_body now pPacket (iLength h) iLen (unat (usTotal h)) 12 ctUser) (\<lambda>u.
             Inr (AD_SUCCESS, u)))))"

text \<open>
  \<open>lookup\<close> is \<^verbatim>\<open>conhash_lookup\<close>, whose node holds the address of a server; \<open>exchange\<close> opens the
  socket, sends the packet and waits for the reply: the receive buffer and the length received,
  or nothing. \<open>usSend\<close> is what the send buffer holds before.
\<close>

definition AdUserInfoGet ::
    "(string \<Rightarrow> string option) \<Rightarrow> (string \<Rightarrow> UINT \<Rightarrow> string \<Rightarrow> (string \<times> int) option) \<Rightarrow> int \<Rightarrow> string \<Rightarrow>
     AdUserData \<Rightarrow> (int \<times> AdUserData) cxx" where
  "AdUserInfoGet lookup exchange now usSend ctUser =
     (case lookup (snprintf 256 (c_str (m_ud_sLeague ctUser) @ ''+'' @ c_str (m_ud_sUserID ctUser))) of
        None \<Rightarrow> Inr (AD_FAILURE, ctUser)
      | Some sUrl \<Rightarrow>
          (let vStr = split_fields sUrl '':'' in
           if vStr = [] then Inr (AD_FAILURE, ctUser)
           else bind_cxx (vec_get vStr 1) (\<lambda>port.
             bind_cxx (AdUserInfoBuildRequest ctUser usSend (int AD_KBYTES8)) (\<lambda>(iLength, pkt).
               if iLength \<le> 0 then Inr (AD_FAILURE, ctUser)
               else case exchange (c_str (vStr ! 0)) (atoi (c_str port)) (take (nat iLength) pkt) of
                   None \<Rightarrow> Inr (AD_FAILURE, ctUser)
                 | Some (usRecv, iLen) \<Rightarrow>
                     if iLen \<le> 0 then Inr (AD_FAILURE, ctUser)
                     else AdUserInfoParse now ctUser usRecv iLen))))"

section \<open>The request fits or is refused\<close>

lemma user_kvs_wire:
  "length (wire (user_kvs u)) \<le> 20 + length (m_ud_sLeague u) + length (m_ud_sUserID u) +
     length (m_ud_sUserIP u) + length (m_ud_sUserAg u)"
  by (simp add: user_kvs_def)

text \<open>
  The request for the user data never leaves the send buffer of 8192 bytes. If the four
  fields fit, the packet is the head followed by the fields that are not empty, and the head
  holds their number and their length; otherwise the function fails.
\<close>

theorem user_request_bounded:
  assumes mem: "length usSend = AD_KBYTES8"
    and small: "length (m_ud_sLeague u) < 2 ^ 28" "length (m_ud_sUserID u) < 2 ^ 28"
      "length (m_ud_sUserIP u) < 2 ^ 28" "length (m_ud_sUserAg u) < 2 ^ 28"
  shows "if 12 + length (wire (user_kvs u)) \<le> AD_KBYTES8
    then AdUserInfoBuildRequest u usSend (int AD_KBYTES8) = Inr (12 + int (length (wire (user_kvs u))),
      head_bytes (user_head (of_nat (wire_count (user_kvs u))) (int (length (wire (user_kvs u))))) @
      wire (user_kvs u) @ drop (12 + length (wire (user_kvs u))) usSend)
    else \<exists>m. AdUserInfoBuildRequest u usSend (int AD_KBYTES8) = Inr (AD_FAILURE, m)"
proof -
  let ?st = "\<lparr>kv_mem = usSend, pCur = 12, iSpace = 8192 - 12, usCount = 0\<rparr>"
  let ?w = "wire (user_kvs u)"
  have bounds: "\<exists>st'. kv_all (user_kvs u) ?st = Inr (12 + length ?w \<le> 8192, st') \<and>
      length (kv_mem st') = 8192"
    using kv_all_in_bounds [of ?st "user_kvs u"] mem small by (auto simp: user_kvs_def)
  show ?thesis
  proof (cases "12 + length ?w \<le> 8192")
    case True
    have "kv_all (user_kvs u) ?st = Inr (True, kv_done (user_kvs u) ?st)"
      using True mem by (intro kv_all_ok) auto
    then show ?thesis
      using True mem by (simp add: AdUserInfoBuildRequest_def kv_done_def mem_write_def Let_def)
  next
    case False
    with bounds show ?thesis by (auto simp: AdUserInfoBuildRequest_def)
  qed
qed

theorem user_request_bounded_witness:
  "AdUserInfoBuildRequest (clear_user\<lparr>m_ud_sLeague := ''1''\<rparr>) (replicate 8192 CHR ''x'') 8192 =
     Inr (18, head_bytes (user_head 1 6) @ kv_bytes 1 ''1'' @ replicate 8174 CHR ''x'')"
  using user_request_bounded [of "replicate 8192 CHR ''x''" "clear_user\<lparr>m_ud_sLeague := ''1''\<rparr>"]
  by (simp add: user_kvs_def clear_user_def)

section \<open>What the parser keeps of a reply\<close>

definition user_stores :: "int \<Rightarrow> (UCHAR \<times> string) list \<Rightarrow> AdUserData \<Rightarrow> AdUserData" where
  "user_stores now kvs u = fold (\<lambda>(K, V) u. case user_store now K V u of None \<Rightarrow> u | Some u' \<Rightarrow> u') kvs u"

definition user_key :: "UCHAR \<Rightarrow> bool" where
  "user_key K \<longleftrightarrow> K \<in> {1, 3, 4, 5, 6, 7, 8, 10, 11, 12, 13, 14, 15}"

lemma user_store_key: "user_key K \<Longrightarrow> \<exists>u'. user_store now K V u = Some u'"
  by (auto simp: user_key_def user_store_def Let_def)

text \<open>One step of the loop at a pair of the reply.\<close>

lemma user_body_step:
  assumes mem: "mem = pre @ kv_bytes K V @ rest" and key: "user_key K" and V: "V \<noteq> []"
    and len: "int (length pre) < len + 11" and small: "length pre + length V < 2 ^ 30" "12 \<le> length pre"
  shows "user_body now mem len iLen (Suc left) (int (length pre)) u =
    (if int (length pre + length (kv_bytes K V)) \<ge> iLen then Inr u
     else user_body now mem len iLen left (int (length (pre @ kv_bytes K V))) (user_stores now [(K, V)] u))"
proof -
  let ?p = "length pre"
  have mem': "mem = pre @ byte_of K # be32 (of_nat (length V)) @ V @ rest"
    using mem by (simp add: kv_bytes_def)
  have k: "rd8 mem (int ?p) = Inr K"
    unfolding mem' using rd8_at [of pre ?p "byte_of K"] by simp
  have l: "rd32 mem (int ?p + 1) = Inr (of_nat (length V))"
    unfolding mem' using rd32_at [of "pre @ [byte_of K]" "?p + 1" "of_nat (length V)" "V @ rest"]
    by (simp add: add.commute)
  have v: "rd_bytes mem (int ?p + 5) (length V) = Inr V"
    unfolding mem' using rd_bytes_at [of "pre @ byte_of K # be32 (of_nat (length V))" "?p + 5" V rest]
    by (simp add: add.commute)
  have s: "sint (of_nat (length V) :: UINT) = int (length V)"
    using small int_cast_id [of "int (length V)"] by (simp add: int_cast_def)
  have c: "int_cast (int ?p - 12 + 1) = int ?p - 12 + 1"
    "int_cast (int ?p + 5 + 1 + int (length V)) = int ?p + 5 + 1 + int (length V)"
    using small by (subst int_cast_id, auto)+
  obtain u0 u' where u: "user_store now K [] u = Some u0" "user_store now K V u = Some u'"
    using user_store_key [OF key] by blast
  show ?thesis
    using V len unfolding user_body.simps c k bind_cxx.simps l s Let_def
    by (auto simp: v u user_stores_def add.assoc)
qed

lemma user_body_wire:
  assumes "mem = pre @ wire kvs @ kv_bytes K V @ suf"
    and "iLen = int (length pre + length (wire kvs) + 5 + length V)" "iLen < 2 ^ 30"
    and "len = iLen - 12" "12 \<le> length pre"
    and "\<forall>(K, V) \<in> set (kvs @ [(K, V)]). user_key K \<and> V \<noteq> []"
  shows "user_body now mem len iLen (Suc (length kvs)) (int (length pre)) u = Inr (user_stores now kvs u)"
  using assms
proof (induction kvs arbitrary: pre u)
  case Nil
  then show ?case
    by (subst user_body_step [of _ pre K V suf]) (auto simp: user_stores_def)
next
  case (Cons kv kvs)
  obtain K' V' where kv: "kv = (K', V')" by (cases kv)
  let ?pre = "pre @ kv_bytes K' V'"
  have V': "V' \<noteq> []" "user_key K'" using Cons.prems(6) kv by auto
  have "user_body now mem len iLen (Suc (length kvs)) (int (length ?pre)) (user_stores now [kv] u) =
      Inr (user_stores now kvs (user_stores now [kv] u))"
    using Cons.prems kv V' by (intro Cons.IH) auto
  moreover have "user_body now mem len iLen (Suc (length (kv # kvs))) (int (length pre)) u =
      user_body now mem len iLen (Suc (length kvs)) (int (length ?pre)) (user_stores now [kv] u)"
    using Cons.prems kv V'
    by (subst user_body_step [of _ pre K' V' "wire kvs @ kv_bytes K V @ suf"]) auto
  ultimately show ?case by (simp add: user_stores_def)
qed

text \<open>
  The parser drops the last field of a reply. From a reply whose head announces its fields
  and its length correctly, and that ends with its last field, every field except the last one
  reaches the user data: the check of the end of a value is off by one.
\<close>

theorem user_parse_drops_last:
  assumes "wf_head h" "usTotal h = of_nat (length kvs + 1)" "length kvs + 1 < 2 ^ 16"
    and "iLength h = int (length (wire kvs) + 5 + length V)" "iLength h < 2 ^ 29"
    and "\<forall>(K, V) \<in> set (kvs @ [(K, V)]). user_key K \<and> V \<noteq> []"
  shows "AdUserInfoParse now u (head_bytes h @ wire kvs @ kv_bytes K V @ rest) (12 + iLength h) =
    Inr (AD_SUCCESS, user_stores now kvs u)"
proof -
  let ?mem = "head_bytes h @ wire kvs @ kv_bytes K V @ rest"
  have "user_body now ?mem (iLength h) (12 + iLength h) (Suc (length kvs)) 12 u =
      Inr (user_stores now kvs u)"
    using user_body_wire [of ?mem "head_bytes h" kvs K V rest "12 + iLength h" "iLength h"] assms(4-6)
    by simp
  moreover have "unat (usTotal h) = Suc (length kvs)" "usTotal h \<noteq> 0"
    using assms(2,3) by (auto simp: unat_of_nat take_bit_nat_eq_self word_unat_eq_iff simp del: of_nat_Suc of_nat_add)
  moreover have "rd8 ?mem 0 = Inr AD_PROTOCOL_FLAG" "read_head ?mem AD_PROTOCOL_FLAG = Inr h"
    using assms(1) rd8_head [of 0 h "wire kvs @ kv_bytes K V @ rest"] read_head_bytes [of h] by auto
  ultimately show ?thesis
    by (simp add: AdUserInfoParse_def add_int_def)
qed

text \<open>A reply with two fields, of which the second is lost.\<close>

theorem user_parse_drops_last_witness:
  "AdUserInfoParse 0 clear_user
     (head_bytes ((user_head 2 13)\<lparr>ucVerb := 1\<rparr>) @ kv_bytes AD_CACHE_PID ''p'' @ kv_bytes AD_CACHE_EXEC_ID ''42'') 25 =
   Inr (AD_SUCCESS, clear_user\<lparr>m_ud_sPID := ''p''\<rparr>)"
  using user_parse_drops_last [of "(user_head 2 13)\<lparr>ucVerb := 1\<rparr>" "[(AD_CACHE_PID, ''p'')]" "''42''"
      AD_CACHE_EXEC_ID 0 clear_user "[]"]
  by (simp add: wf_head_def user_head_def user_key_def user_stores_def user_store_def)

text \<open>
  The check of the end of a value wraps around. A reply whose first field announces a value
  of \<open>2\<^sup>3\<^sup>1 - 1\<close> bytes passes the check, because the end is cut to an \<^verbatim>\<open>int\<close>, and the value is read
  from beyond the receive buffer.
\<close>

theorem user_parse_length_wraps:
  assumes "wf_head h" "usTotal h \<noteq> 0" "1 < iLength h" "iLength h < 2 ^ 31 - 12" "user_key K"
    and "length rest < 2 ^ 30"
  shows "AdUserInfoParse now u (head_bytes h @ byte_of K # be32 0x7fffffff @ rest) (12 + iLength h) =
    Inl OutOfBounds"
proof -
  let ?mem = "head_bytes h @ byte_of K # be32 0x7fffffff @ rest"
  obtain n where n: "unat (usTotal h) = Suc n"
    using assms(2) by (cases "unat (usTotal h)") (simp_all add: unat_eq_0)
  have k: "rd8 ?mem 12 = Inr K" using rd8_at [of "head_bytes h" 12 "byte_of K"] by simp
  have l: "rd32 ?mem (12 + 1) = Inr 0x7fffffff"
    using rd32_at [of "head_bytes h @ [byte_of K]" 13 "0x7fffffff" rest] by simp
  have s: "sint (0x7fffffff :: UINT) = 0x7fffffff" by simp
  have c: "int_cast (12 - 12 + 1) = 1" "int_cast (12 + 5 + 1 + 0x7fffffff) = - 0x7fffffef"
    by (simp_all add: int_cast_def)
  obtain u0 where u0: "user_store now K [] u = Some u0" using user_store_key [OF assms(5)] by blast
  have r: "rd_bytes ?mem (12 + 5) (nat 0x7fffffff) = Inl OutOfBounds"
    using assms(6) by (simp add: rd_bytes_def)
  have "user_body now ?mem (iLength h) (12 + iLength h) (Suc n) 12 u = Inl OutOfBounds"
    unfolding user_body.simps c k bind_cxx.simps l s Let_def r using assms(3) u0 by simp
  moreover have "rd8 ?mem 0 = Inr AD_PROTOCOL_FLAG" "read_head ?mem AD_PROTOCOL_FLAG = Inr h"
    using assms(1) rd8_head [of 0 h "byte_of K # be32 0x7fffffff @ rest"] read_head_bytes [of h] by auto
  ultimately show ?thesis
    using assms(2) n by (simp add: AdUserInfoParse_def add_int_def)
qed

theorem user_parse_length_wraps_witness:
  "AdUserInfoParse 0 clear_user (head_bytes (user_head 1 5) @ byte_of AD_CACHE_PID # be32 0x7fffffff @ []) 17 =
     Inl OutOfBounds"
  using user_parse_length_wraps [of "user_head 1 5" AD_CACHE_PID "[]" 0 clear_user]
  by (simp add: wf_head_def user_head_def user_key_def)

end
