(* ===== verification/AdFilterMark.thy ===== *)
theory AdFilterMark
  imports AdFilterBase AdAcbm AdUserInfo
begin

text \<open>
  The last filter, \<^verbatim>\<open>AdFilterMark.h/.cpp\<close>: what the user cache knows of the user decides between
  the units that want any user, those that want a key word and those that want an audience.
  A pointer to an \<^verbatim>\<open>AdMarkInfo\<close> is the number of its allocation, which is its place in
  \<^verbatim>\<open>m_ltMark\<close>; pointers to units are the units, which a match does not change. The getter of the
  user data is an argument.
\<close>

section \<open>State\<close>

record AdAudienceInfo =
  m_ai_uiType :: UINT
  m_uiEffectiveTime :: UINT
  m_uiVisitMask :: UINT
  m_uiVisitMatch :: UINT
  m_uiUnVisitMask :: UINT
  m_uiUnVisitMatch :: UINT
  m_uiSearchMask :: UINT
  m_uiSearchMatch :: UINT
  m_ai_pData :: "AdPlanningUnit option"

definition clear_audience_info :: AdAudienceInfo where
  "clear_audience_info = \<lparr>m_ai_uiType = 0, m_uiEffectiveTime = 0, m_uiVisitMask = 0,
     m_uiVisitMatch = 0, m_uiUnVisitMask = 0, m_uiUnVisitMatch = 0, m_uiSearchMask = 0,
     m_uiSearchMatch = 0, m_ai_pData = None\<rparr>"

record AdMarkInfo =
  m_mi_uiType :: UINT
  m_mi_sKey :: string
  m_mi_pData :: AdPlanningUnit

record AdFilterMark =
  m_ctAcbm :: "nat AdAcbmTree"
  m_ltMark :: "AdMarkInfo list"
  m_mk_mMap :: "AdAudienceInfo AD_MAP"
  m_fm_ltAudience :: "AdAudienceInfo list"
  m_uiStrMinLen :: UINT
  m_uiStrMaxLen :: UINT

text \<open>The constructor leaves the two lengths and the array of the search as they are in memory.\<close>

definition AdFilterMark_new :: "(char \<Rightarrow> int) \<Rightarrow> UINT \<Rightarrow> UINT \<Rightarrow> AdFilterMark" where
  "AdFilterMark_new bc minLen maxLen = \<lparr>m_ctAcbm = acbm_new bc, m_ltMark = [], m_mk_mMap = [],
     m_fm_ltAudience = [], m_uiStrMinLen = minLen, m_uiStrMaxLen = maxLen\<rparr>"

section \<open>Loading\<close>

text \<open>Stars are erased, then a leading \<^verbatim>\<open>http://\<close>, then a leading \<^verbatim>\<open>https://\<close>.\<close>

definition AdFilterMarkGetStr :: "string \<Rightarrow> string" where
  "AdFilterMarkGetStr sStr =
     (let s1 = filter (\<lambda>c. c \<noteq> CHR ''*'') sStr;
          s2 = (if find_sub ''http://'' s1 = Some 0 then drop 7 s1 else s1)
      in if find_sub ''https://'' s2 = Some 0 then drop 8 s2 else s2)"

text \<open>The loop over the key words ends at the first that the search tree refuses.\<close>

fun add_marks :: "AdPlanningUnit \<Rightarrow> AdMarkNode list \<Rightarrow> AdFilterMark \<Rightarrow> int \<times> AdFilterMark" where
  "add_marks pUnit [] st = (AD_SUCCESS, st)"
| "add_marks pUnit (n # ns) st =
     (let pMark = \<lparr>m_mi_uiType = m_mk_uiType n, m_mi_sKey = AdFilterMarkGetStr (m_sKey n), m_mi_pData = pUnit\<rparr>;
          (ret, tree) = AdAcbmTreeAdd (m_mi_sKey pMark) (length (m_ltMark st)) (m_ctAcbm st);
          st' = st\<lparr>m_ltMark := m_ltMark st @ [pMark], m_ctAcbm := tree\<rparr>
      in if ret \<noteq> AD_SUCCESS then (ret, st') else add_marks pUnit ns st')"

definition AdFilterMarkAddMark :: "AdPlanningUnit \<Rightarrow> AdFilterMark \<Rightarrow> int \<times> AdFilterMark" where
  "AdFilterMarkAddMark pUnit st = add_marks pUnit (m_ltKeyWord pUnit) st"

text \<open>The bits below \<open>n\<close>, at most 32.\<close>

definition first_bits :: "nat \<Rightarrow> UINT" where
  "first_bits n = fold (\<lambda>i m. m OR push_bit i 1) [0..<min n 32] 0"

text \<open>One of the three loops over the strings of an audience; \<open>set_match\<close> sets its bit.\<close>

definition add_audience_infos ::
    "AdPlanningUnit \<Rightarrow> AdAudienceNode \<Rightarrow> (UINT \<Rightarrow> AdAudienceInfo \<Rightarrow> AdAudienceInfo) \<Rightarrow>
     (string \<times> UINT) list \<Rightarrow> AdFilterMark \<Rightarrow> AdFilterMark" where
  "add_audience_infos pUnit node set_match entries st =
     fold (\<lambda>(i, (s, t)) st.
         let pInfo = set_match (push_bit i 1) (clear_audience_info
               \<lparr>m_ai_uiType := m_au_uiType node, m_uiEffectiveTime := t,
                m_uiSearchMask := first_bits (length (m_mSearch node)),
                m_uiVisitMask := first_bits (length (m_mVisit node)),
                m_uiUnVisitMask := first_bits (length (m_mUnVisit node)),
                m_ai_pData := Some pUnit\<rparr>)
         in st\<lparr>m_fm_ltAudience := m_fm_ltAudience st @ [pInfo],
               m_mk_mMap := AdMap_update s pInfo (m_mk_mMap st),
               m_uiStrMinLen := (if int (length s) < uint (m_uiStrMinLen st) then of_nat (length s)
                                 else m_uiStrMinLen st),
               m_uiStrMaxLen := (if int (length s) > uint (m_uiStrMaxLen st) then of_nat (length s)
                                 else m_uiStrMaxLen st)\<rparr>)
       (take 32 (enumerate 0 entries)) st"

definition AdFilterMarkAddAudience :: "AdPlanningUnit \<Rightarrow> AdFilterMark \<Rightarrow> int \<times> AdFilterMark" where
  "AdFilterMarkAddAudience pUnit st =
     (let st0 = (if m_mk_mMap st = [] then st\<lparr>m_uiStrMinLen := 0xffff, m_uiStrMaxLen := 0\<rparr> else st)
      in (AD_SUCCESS,
          fold (\<lambda>node st.
             add_audience_infos pUnit node (\<lambda>b. m_uiUnVisitMatch_update (\<lambda>_. b)) (m_mUnVisit node)
              (add_audience_infos pUnit node (\<lambda>b. m_uiVisitMatch_update (\<lambda>_. b)) (m_mVisit node)
               (add_audience_infos pUnit node (\<lambda>b. m_uiSearchMatch_update (\<lambda>_. b)) (m_mSearch node) st)))
           (m_ltAudience pUnit) st0))"

definition AdFilterMark_AddData :: "AdPlanningUnit \<Rightarrow> AdFilterMark \<Rightarrow> int \<times> AdFilterMark" where
  "AdFilterMark_AddData pUnit st =
     (let (ret, st1) = AdFilterMarkAddMark pUnit st
      in if ret \<noteq> AD_SUCCESS then (ret, st1) else AdFilterMarkAddAudience pUnit st1)"

section \<open>Key words\<close>

text \<open>Whether a pattern found in a mark counts for it.\<close>

definition mark_counts :: "AdUserMark \<Rightarrow> AdMarkInfo \<Rightarrow> bool" where
  "mark_counts mk pInfo \<longleftrightarrow>
     m_mi_uiType pInfo = AD_KEYS_ACC_CUS \<and> length (m_mi_sKey pInfo) = length (m_um_sMark mk) \<or>
     m_mi_uiType pInfo = AD_KEYS_DIM_CUS \<or>
     m_um_ucTag mk = AD_CACHE_TAG \<and>
       (m_mi_uiType pInfo = AD_MARK_PUBLIC \<or> m_mi_uiType pInfo = AD_MARK_PRIVATE)"

text \<open>\<^verbatim>\<open>mResult[p]\<close>, which adds a cleared result where there is none.\<close>

definition result_touch :: "AdPlanningUnit \<Rightarrow> AD_RESULT \<Rightarrow> AD_RESULT" where
  "result_touch p mResult = smap_insert (eid p) (p, clear_result) mResult"

text \<open>
  A step of the loop over the marks. \<open>mMatch\<close> is cleared at the end of a step, but not when the
  step is left because no pattern counts. For a unit that is hit the code looks for the unit among
  the keys of \<open>mMatch\<close>, which are pointers to \<^verbatim>\<open>AdMarkInfo\<close>, finds none, and adds no mark info.
\<close>

definition match_mark_step ::
    "AdFilterMark \<Rightarrow> AdPlanningUnit list \<Rightarrow> AdUserMark \<Rightarrow> nat acbm_matches \<times> AD_RESULT \<Rightarrow>
     (nat acbm_matches \<times> AD_RESULT) cxx" where
  "match_mark_step st setReady mk = (\<lambda>(mMatch, mResult).
     bind_cxx (AdAcbmSearch (m_ctAcbm st) (m_um_sMark mk) mMatch) (\<lambda>(_, mMatch).
       if mMatch = [] then Inr (mMatch, mResult)
       else bind_cxx
         (fold_cxx (\<lambda>(p, _) setMatch. bind_cxx (vec_get (m_ltMark st) (int p)) (\<lambda>pInfo.
              Inr (if mark_counts mk pInfo then setMatch @ [m_mi_pData pInfo] else setMatch))) mMatch [])
         (\<lambda>setMatch.
           if setMatch = [] then Inr (mMatch, mResult)
           else Inr ([], fold result_touch (filter (\<lambda>u. u \<in> set setMatch) setReady) mResult))))"

definition AdFilterMarkMatchMark ::
    "AdFilterMark \<Rightarrow> AdUserData \<Rightarrow> AdPlanningUnit list \<Rightarrow> AD_RESULT \<Rightarrow> AD_RESULT cxx" where
  "AdFilterMarkMatchMark st ctMark setReady mResult =
     (if setReady = [] then Inr mResult
      else bind_cxx (fold_cxx (match_mark_step st setReady) (map snd (m_ud_mMark ctMark)) ([], mResult))
        (\<lambda>(_, mResult). Inr mResult))"

section \<open>Audiences\<close>

definition audience_merge :: "AdUserMark \<Rightarrow> AdAudienceInfo \<Rightarrow>
    (UINT \<times> AdAudienceInfo) list \<Rightarrow> (UINT \<times> AdAudienceInfo) list" where
  "audience_merge mk pInfo mMatch =
     (case m_ai_pData pInfo of
        None \<Rightarrow> mMatch
      | Some pUnit \<Rightarrow>
          if m_uiEffectiveTime pInfo < m_um_uiTime mk then mMatch
          else
            (let ctInfo = (case map_of mMatch (eid pUnit) of None \<Rightarrow> clear_audience_info | Some i \<Rightarrow> i)
             in smap_upd (eid pUnit) (ctInfo
                 \<lparr>m_ai_uiType := m_ai_uiType pInfo,
                  m_uiSearchMask := m_uiSearchMask pInfo,
                  m_uiSearchMatch := m_uiSearchMatch ctInfo OR m_uiSearchMatch pInfo,
                  m_uiUnVisitMask := m_uiUnVisitMask pInfo,
                  m_uiUnVisitMatch := m_uiUnVisitMatch ctInfo OR m_uiUnVisitMatch pInfo,
                  m_uiVisitMask := m_uiVisitMask pInfo,
                  m_uiVisitMatch := m_uiVisitMatch ctInfo OR m_uiVisitMatch pInfo,
                  m_ai_pData := Some pUnit\<rparr>) mMatch))"

text \<open>The proper prefixes of a mark with the lengths of the strings of the index.\<close>

definition audience_prefixes :: "AdFilterMark \<Rightarrow> string \<Rightarrow> string list" where
  "audience_prefixes st sMark =
     map (\<lambda>i. take i sMark)
       (takeWhile (\<lambda>i. i \<le> unat (m_uiStrMaxLen st)) [unat (m_uiStrMinLen st)..<length sMark])"

definition audience_accepts :: "AdAudienceInfo \<Rightarrow> bool" where
  "audience_accepts i \<longleftrightarrow>
     (if m_ai_uiType i = AD_AUDIENCE_MERGE_AND then
        m_uiSearchMask i = m_uiSearchMatch i \<and> m_uiVisitMask i = m_uiVisitMatch i \<and>
        0 = m_uiUnVisitMatch i
      else if m_ai_uiType i = AD_AUDIENCE_MERGE_OR then
        0 \<noteq> m_uiSearchMatch i \<or> 0 \<noteq> m_uiUnVisitMatch i \<or> m_uiUnVisitMatch i = 0
      else False)"

definition AdFilterMarkMatchAudience ::
    "AdFilterMark \<Rightarrow> AdUserData \<Rightarrow> AD_RESULT \<Rightarrow> AD_RESULT \<Rightarrow> AD_RESULT" where
  "AdFilterMarkMatchAudience st ctMark mReady mResult =
     (if mReady = [] then mResult
      else
        (let mMatch = fold (\<lambda>(_, mk) mMatch.
               fold (\<lambda>s mMatch.
                   case AdMap_find s (m_mk_mMap st) of
                     None \<Rightarrow> mMatch
                   | Some l \<Rightarrow> fold (audience_merge mk) l mMatch)
                 (audience_prefixes st (m_um_sMark mk)) mMatch) (m_ud_mAudience ctMark) []
         in fold (\<lambda>(_, i) mResult.
              case m_ai_pData i of
                None \<Rightarrow> mResult
              | Some pUnit \<Rightarrow>
                  if audience_accepts i \<and> map_of mReady (eid pUnit) \<noteq> None
                  then smap_upd (eid pUnit)
                    (case map_of mResult (eid pUnit) of None \<Rightarrow> pUnit | Some (p, _) \<Rightarrow> p, clear_result) mResult
                  else mResult) mMatch mResult))"

section \<open>The match\<close>

definition AdFilterMarkVipUserTag :: "AdUserData \<Rightarrow> AD_RESULT \<Rightarrow> AD_RESULT" where
  "AdFilterMarkVipUserTag ctMark mResult =
     (if m_ud_sExecuteID ctMark = [] then mResult
      else map (\<lambda>(i, (u, r)).
        if atoi (c_str (m_ud_sExecuteID ctMark)) = eid u then (i, (u, r\<lparr>m_bVip := True\<rparr>))
        else (i, (u, r))) mResult)"

definition mark_user :: "AdRtbRequest \<Rightarrow> AdUserData" where
  "mark_user pRequest =
     clear_user\<lparr>m_ud_sUserID := m_sUserID pRequest, m_ud_sUserIE := m_sUserID pRequest,
       m_ud_sUserIP := m_sUserIP pRequest, m_ud_sLeague := fmt_d (m_uiAdx pRequest),
       m_ud_sUserAg := (if atoi (c_str (m_sFlow pRequest)) \<noteq> AD_PROTOCOL_FLOW_MOBILE
                        then m_sUserAgent pRequest else [])\<rparr>"

definition nice_is :: "UINT \<Rightarrow> UINT \<times> (AdPlanningUnit \<times> AdRtbFilterResult) \<Rightarrow> bool" where
  "nice_is n = (\<lambda>(_, (u, _)). m_uiNice (m_stOrder u) = n)"

text \<open>
  \<open>user_get\<close> is \<^verbatim>\<open>AdUserInfoGet\<close>, \<open>now\<close> the clock when \<^verbatim>\<open>checkLife\<close> is called. The loop that
  sorts the units is three selections: those for key words and for audiences leave the result.
\<close>

definition AdFilterMark_match ::
    "(AdUserData \<Rightarrow> (int \<times> AdUserData) cxx) \<Rightarrow> Time \<Rightarrow> AdFilterMark \<Rightarrow> AdRtbRequest \<Rightarrow> AD_RESULT \<Rightarrow>
     (int \<times> AD_RESULT) cxx" where
  "AdFilterMark_match user_get now st pRequest mResult =
     (let setMark = map (\<lambda>(_, (u, _)). u) (filter (nice_is AD_ORDER_NICE) mResult);
          mAudience = filter (nice_is AD_ORDER_AUDIENCE) mResult;
          mBase = filter (nice_is AD_ORDER_BASE) mResult
      in bind_cxx (user_get (mark_user pRequest)) (\<lambda>(ret, ctData).
        if ret \<noteq> AD_SUCCESS \<and> m_ltCrowdCategory pRequest = [] then Inr (AD_FAILURE, mBase)
        else
          (let ctData = (if ret = AD_SUCCESS then ctData
                 else ctData\<lparr>m_ud_mMark := fold (\<lambda>s m. AdUserInfoAddRequestMark s m AD_CACHE_TAG)
                        (m_ltCrowdCategory pRequest) (m_ud_mMark ctData)\<rparr>)
           in if checkLife now pRequest then Inr (AD_SUCCESS, [])
              else bind_cxx (AdFilterMarkMatchMark st ctData setMark mBase) (\<lambda>res.
                let res' = AdFilterMarkMatchAudience st ctData mAudience res
                in Inr (AD_SUCCESS,
                     if ret = AD_SUCCESS then AdFilterMarkVipUserTag ctData res' else res')))))"

section \<open>Only units of the result, and all that want any user\<close>

text \<open>The units that the audience index refers to.\<close>

definition mark_index_ok :: "AdPlanningUnit set \<Rightarrow> AdFilterMark \<Rightarrow> bool" where
  "mark_index_ok U st \<longleftrightarrow>
     (\<forall>(_, l) \<in> set (m_mk_mMap st). \<forall>i \<in> set l. \<exists>u \<in> U. m_ai_pData i = Some u)"

abbreviation mdom :: "('k \<times> 'v) list \<Rightarrow> 'k set" where
  "mdom m \<equiv> dom (map_of m)"

lemma result_touch_ok: "result_ok U res \<Longrightarrow> u \<in> U \<Longrightarrow> result_ok U (result_touch u res)"
  unfolding result_ok_iff result_touch_def by (auto split: option.splits if_splits)

lemma mdom_result_touch [simp]: "mdom (result_touch u res) = insert (eid u) (mdom res)"
  by (auto simp: result_touch_def split: option.splits)

lemma fold_result_touch:
  "result_ok U res \<Longrightarrow> set us \<subseteq> U \<Longrightarrow> result_ok U (fold result_touch us res) \<and>
    mdom (fold result_touch us res) = eid ` set us \<union> mdom res"
  by (induction us arbitrary: res) (auto simp: result_touch_ok)

lemma match_mark_step_touches:
  assumes "match_mark_step st us mk (m, res) = Inr (m', res')"
  shows "\<exists>us'. set us' \<subseteq> set us \<and> res' = fold result_touch us' res"
proof -
  obtain k m1 where m1: "AdAcbmSearch (m_ctAcbm st) (m_um_sMark mk) m = Inr (k, m1)"
    using assms by (auto simp: match_mark_step_def bind_cxx_Inr_iff)
  show ?thesis
  proof (cases "res' = res")
    case True
    then show ?thesis by (intro exI [of _ "[]"]) simp
  next
    case False
    then obtain setMatch where "res' = fold result_touch (filter (\<lambda>u. u \<in> set setMatch) us) res"
      using assms m1 by (auto simp: match_mark_step_def bind_cxx_Inr_iff split: if_splits)
    then show ?thesis by (intro exI [of _ "filter (\<lambda>u. u \<in> set setMatch) us"]) auto
  qed
qed

text \<open>What a step may do to a result: add units of \<open>us\<close>.\<close>

definition result_grows :: "AdPlanningUnit set \<Rightarrow> UINT set \<Rightarrow> AD_RESULT \<Rightarrow> AD_RESULT \<Rightarrow> bool" where
  "result_grows U E res res' \<longleftrightarrow> result_ok U res' \<and> mdom res \<subseteq> mdom res' \<and> mdom res' \<subseteq> E \<union> mdom res"

lemma result_grows_refl: "result_ok U res \<Longrightarrow> result_grows U E res res"
  by (simp add: result_grows_def)

lemma result_grows_trans:
  "result_grows U E res res' \<Longrightarrow> result_grows U E res' res'' \<Longrightarrow> result_grows U E res res''"
  unfolding result_grows_def by blast

lemma result_grows_mono: "result_grows U E res res' \<Longrightarrow> E \<subseteq> E' \<Longrightarrow> result_grows U E' res res'"
  by (auto simp: result_grows_def)

lemma match_mark_step_grows:
  assumes "match_mark_step st us mk (m, res) = Inr (m', res')" "result_ok U res" "set us \<subseteq> U"
  shows "result_grows U (eid ` set us) res res'"
proof -
  obtain us' where us': "set us' \<subseteq> set us" "res' = fold result_touch us' res"
    using match_mark_step_touches [OF assms(1)] by blast
  have "result_ok U res'" "mdom res' = eid ` set us' \<union> mdom res"
    using fold_result_touch [OF assms(2), of us'] us' assms(3) by auto
  with us'(1) show ?thesis by (auto simp: result_grows_def)
qed

lemma match_marks_grow:
  "fold_cxx (match_mark_step st us) mks (m, r) = Inr (m', r') \<Longrightarrow> result_ok U r \<Longrightarrow> set us \<subseteq> U \<Longrightarrow>
    result_grows U (eid ` set us) r r'"
proof (induction mks arbitrary: m r)
  case Nil
  then show ?case by (simp add: result_grows_refl)
next
  case (Cons mk mks)
  then obtain m1 r1 where step: "match_mark_step st us mk (m, r) = Inr (m1, r1)"
    "fold_cxx (match_mark_step st us) mks (m1, r1) = Inr (m', r')"
    by (auto simp: bind_cxx_Inr_iff)
  have g: "result_grows U (eid ` set us) r r1"
    using match_mark_step_grows [OF step(1) Cons.prems(2,3)] .
  moreover have "result_grows U (eid ` set us) r1 r'"
    using Cons.IH [OF step(2) _ Cons.prems(3)] g by (simp add: result_grows_def)
  ultimately show ?case by (rule result_grows_trans)
qed

lemma AdFilterMarkMatchMark_grows:
  assumes "AdFilterMarkMatchMark st ct us res = Inr res'" "result_ok U res" "set us \<subseteq> U"
  shows "result_grows U (eid ` set us) res res'"
proof (cases "us = []")
  case True
  then show ?thesis using assms by (simp add: AdFilterMarkMatchMark_def result_grows_refl)
next
  case False
  then obtain m' where "fold_cxx (match_mark_step st us) (map snd (m_ud_mMark ct)) ([], res) = Inr (m', res')"
    using assms(1) by (auto simp: AdFilterMarkMatchMark_def bind_cxx_Inr_iff)
  then show ?thesis using assms(2,3) by (rule match_marks_grow)
qed

text \<open>The audiences that are merged refer to units of the index.\<close>

definition infos_ok :: "AdPlanningUnit set \<Rightarrow> AdAudienceInfo set \<Rightarrow> bool" where
  "infos_ok U I \<longleftrightarrow> (\<forall>i \<in> I. \<exists>u \<in> U. m_ai_pData i = Some u)"

lemma infos_ok_merge:
  assumes "infos_ok U (snd ` set m)" "infos_ok U {p}"
  shows "infos_ok U (snd ` set (audience_merge mk p m))"
proof -
  obtain u where u: "u \<in> U" "m_ai_pData p = Some u" using assms(2) by (auto simp: infos_ok_def)
  have "infos_ok U (snd ` set (smap_upd k i m))" if "m_ai_pData i = Some u" for k i
    using assms(1) u(1) that set_smap_upd [of k i m] unfolding infos_ok_def by fastforce
  with assms(1) u(2) show ?thesis by (simp add: audience_merge_def Let_def)
qed

lemma infos_ok_merges:
  "infos_ok U (snd ` set m) \<Longrightarrow> infos_ok U (set l) \<Longrightarrow> infos_ok U (snd ` set (fold (audience_merge mk) l m))"
proof (induction l arbitrary: m)
  case (Cons p l)
  then have "infos_ok U {p}" "infos_ok U (set l)" by (simp_all add: infos_ok_def)
  with Cons show ?case by (simp add: infos_ok_merge)
qed simp

lemma infos_ok_prefixes:
  assumes "mark_index_ok U st"
  shows "infos_ok U (snd ` set m) \<Longrightarrow> infos_ok U (snd ` set (fold (\<lambda>s mMatch.
    case AdMap_find s (m_mk_mMap st) of None \<Rightarrow> mMatch
    | Some l \<Rightarrow> fold (audience_merge mk) l mMatch) ss m))"
proof (induction ss arbitrary: m)
  case (Cons s ss)
  have "infos_ok U (set l)" if "AdMap_find s (m_mk_mMap st) = Some l" for l
    using that assms unfolding AdMap_find_def mark_index_ok_def infos_ok_def
    by (auto dest!: map_of_SomeD)
  with Cons show ?case by (simp add: infos_ok_merges split: option.split)
qed simp

lemma AdFilterMarkMatchAudience_grows:
  assumes "result_ok U res" "mark_index_ok U st"
  shows "result_grows U (mdom ready) res (AdFilterMarkMatchAudience st ct ready res)"
proof (cases "ready = []")
  case True
  with assms show ?thesis by (simp add: AdFilterMarkMatchAudience_def result_grows_refl)
next
  case False
  define mMatch where "mMatch = fold (\<lambda>(_, mk) mMatch.
               fold (\<lambda>s mMatch.
                   case AdMap_find s (m_mk_mMap st) of
                     None \<Rightarrow> mMatch
                   | Some l \<Rightarrow> fold (audience_merge mk) l mMatch)
                 (audience_prefixes st (m_um_sMark mk)) mMatch) (m_ud_mAudience ct) []"
  define step where "step = (\<lambda>(_ :: UINT, i) mResult.
              case m_ai_pData i of
                None \<Rightarrow> mResult
              | Some pUnit \<Rightarrow>
                  if audience_accepts i \<and> map_of ready (eid pUnit) \<noteq> None
                  then smap_upd (eid pUnit)
                    (case map_of mResult (eid pUnit) of None \<Rightarrow> pUnit | Some (p, _) \<Rightarrow> p, clear_result) mResult
                  else mResult)"
  have merged: "infos_ok U (snd ` set (fold (\<lambda>(_, mk) mMatch.
               fold (\<lambda>s mMatch.
                   case AdMap_find s (m_mk_mMap st) of
                     None \<Rightarrow> mMatch
                   | Some l \<Rightarrow> fold (audience_merge mk) l mMatch)
                 (audience_prefixes st (m_um_sMark mk)) mMatch) mks m))"
    if "infos_ok U (snd ` set m)" for m and mks :: user_marks
    using that by (induction mks arbitrary: m) (auto simp: infos_ok_prefixes [OF assms(2)])
  have units: "infos_ok U (snd ` set mMatch)"
    unfolding mMatch_def by (rule merged) (simp add: infos_ok_def)
  have step: "result_grows U (mdom ready) r (step e r)" if ok: "infos_ok U {snd e}" "result_ok U r" for e r
  proof -
    obtain k i where e: "e = (k, i)" by (cases e)
    then obtain u where u: "u \<in> U" "m_ai_pData i = Some u" using ok(1) by (auto simp: infos_ok_def)
    have "result_ok U (smap_upd (eid u) (case map_of r (eid u) of None \<Rightarrow> u | Some (p, _) \<Rightarrow> p, clear_result) r)"
      using ok(2) u(1) unfolding result_ok_iff by (auto split: option.splits if_splits)
    then show ?thesis using e u ok(2)
      by (auto simp: step_def result_grows_def)
  qed
  have "result_grows U (mdom ready) r (fold step es r)"
    if "infos_ok U (snd ` set es)" "result_ok U r" for es r
    using that
  proof (induction es arbitrary: r)
    case Nil
    then show ?case by (simp add: result_grows_refl)
  next
    case (Cons e es)
    then have "infos_ok U {snd e}" "infos_ok U (snd ` set es)" by (simp_all add: infos_ok_def)
    with Cons.prems step have g: "result_grows U (mdom ready) r (step e r)" by blast
    then have "result_ok U (step e r)" by (simp add: result_grows_def)
    then have "result_grows U (mdom ready) (step e r) (fold step es (step e r))"
      using \<open>infos_ok U (snd ` set es)\<close> by (intro Cons.IH)
    with g show ?case by (simp add: result_grows_trans)
  qed
  with units assms(1) False show ?thesis
    by (simp add: AdFilterMarkMatchAudience_def mMatch_def [symmetric] step_def [symmetric])
qed

lemma AdFilterMarkVipUserTag_result:
  assumes "result_ok U res"
  shows "result_ok U (AdFilterMarkVipUserTag ct res)" "mdom (AdFilterMarkVipUserTag ct res) = mdom res"
proof -
  define tag :: "UINT \<times> (AdPlanningUnit \<times> AdRtbFilterResult) \<Rightarrow> UINT \<times> (AdPlanningUnit \<times> AdRtbFilterResult)"
    where "tag = (\<lambda>(i, (u, r)).
        if atoi (c_str (m_ud_sExecuteID ct)) = eid u then (i, (u, r\<lparr>m_bVip := True\<rparr>)) else (i, (u, r)))"
  have [simp]: "fst (tag e) = fst e" "fst (snd (tag e)) = fst (snd e)" for e
    by (auto simp: tag_def split: prod.split)
  have "map fst (map tag res) = map fst res" by (simp add: comp_def)
  moreover have "\<forall>(i, (u, r)) \<in> set (map tag res). u \<in> U \<and> i = eid u"
    using assms by (fastforce simp: result_ok_def tag_def split: prod.splits if_splits)
  ultimately have "result_ok U (map tag res)"
    using assms by (simp add: result_ok_def smap_ok_def del: map_map)
  moreover have "mdom (map tag res) = mdom res"
    by (simp add: dom_map_of_conv_image_fst image_image)
  ultimately show "result_ok U (AdFilterMarkVipUserTag ct res)" "mdom (AdFilterMarkVipUserTag ct res) = mdom res"
    using assms by (simp_all add: AdFilterMarkVipUserTag_def tag_def [symmetric])
qed

lemma mdom_filter: "result_ok U res \<Longrightarrow> mdom (filter P res) = {eid u | u r i. (i, (u, r)) \<in> set res \<and> P (i, (u, r))}"
  unfolding dom_map_of_conv_image_fst result_ok_def by force

text \<open>The getter finds nothing of the user, and the request names no category of a crowd.\<close>

definition unknown_user :: "(AdUserData \<Rightarrow> (int \<times> AdUserData) cxx) \<Rightarrow> AdRtbRequest \<Rightarrow> bool" where
  "unknown_user user_get pRequest \<longleftrightarrow> m_ltCrowdCategory pRequest = [] \<and>
     (case user_get (mark_user pRequest) of Inl _ \<Rightarrow> False | Inr (ret, _) \<Rightarrow> ret \<noteq> AD_SUCCESS)"

lemma mark_match_result:
  assumes "AdFilterMark_match user_get now st pRequest res = Inr (ret, res')"
    and "result_ok U res" "mark_index_ok U st"
  shows "result_ok U res' \<and>
    dom (map_of res') \<subseteq> dom (map_of (filter (\<lambda>e. nice_is AD_ORDER_NICE e \<or> nice_is AD_ORDER_BASE e \<or>
      nice_is AD_ORDER_AUDIENCE e) res)) \<and>
    (\<not> checkLife now pRequest \<longrightarrow> dom (map_of (filter (nice_is AD_ORDER_BASE) res)) \<subseteq> dom (map_of res')) \<and>
    (if unknown_user user_get pRequest then ret = AD_FAILURE \<and> res' = filter (nice_is AD_ORDER_BASE) res else ret = AD_SUCCESS)"
proof -
  let ?base = "filter (nice_is AD_ORDER_BASE) res" and ?aud = "filter (nice_is AD_ORDER_AUDIENCE) res"
  let ?us = "map (\<lambda>(_, (u, _)). u) (filter (nice_is AD_ORDER_NICE) res)"
  have us: "set ?us \<subseteq> U" using assms(2) by (auto simp: result_ok_def)
  have base: "result_ok U ?base" using assms(2) by (rule result_ok_filter)
  have doms: "eid ` set ?us \<union> mdom ?aud \<union> mdom ?base \<subseteq>
      mdom (filter (\<lambda>e. nice_is AD_ORDER_NICE e \<or> nice_is AD_ORDER_BASE e \<or> nice_is AD_ORDER_AUDIENCE e) res)"
    unfolding mdom_filter [OF assms(2)] by force
  obtain r ct where get: "user_get (mark_user pRequest) = Inr (r, ct)"
    using assms(1) by (cases "user_get (mark_user pRequest)") (auto simp: AdFilterMark_match_def Let_def)
  consider (fail) "r \<noteq> AD_SUCCESS" "m_ltCrowdCategory pRequest = []"
    | (old) "r = AD_SUCCESS \<or> m_ltCrowdCategory pRequest \<noteq> []" "checkLife now pRequest"
    | (run) "r = AD_SUCCESS \<or> m_ltCrowdCategory pRequest \<noteq> []" "\<not> checkLife now pRequest" by blast
  then show ?thesis
  proof cases
    case fail
    then have "res' = ?base" "ret = AD_FAILURE" "unknown_user user_get pRequest"
      using assms(1) get by (simp_all add: AdFilterMark_match_def unknown_user_def)
    with base doms show ?thesis by auto
  next
    case old
    then have "res' = []" "ret = AD_SUCCESS" "\<not> unknown_user user_get pRequest"
      using assms(1) get by (auto simp: AdFilterMark_match_def Let_def unknown_user_def)
    with old show ?thesis by simp
  next
    case run
    then obtain ct' res1 where step: "AdFilterMarkMatchMark st ct' ?us ?base = Inr res1" "ret = AD_SUCCESS"
      "res' = (if r = AD_SUCCESS then AdFilterMarkVipUserTag ct' (AdFilterMarkMatchAudience st ct' ?aud res1)
               else AdFilterMarkMatchAudience st ct' ?aud res1)"
      using assms(1) get by (auto simp: AdFilterMark_match_def Let_def bind_cxx_Inr_iff)
    have g1: "result_grows U (eid ` set ?us) ?base res1"
      by (rule AdFilterMarkMatchMark_grows [OF step(1) base us])
    then have "result_grows U (mdom ?aud) res1 (AdFilterMarkMatchAudience st ct' ?aud res1)"
      using assms(3) by (intro AdFilterMarkMatchAudience_grows) (simp_all add: result_grows_def)
    then have g2: "result_grows U (mdom ?aud) res1 res'"
      using step(3) AdFilterMarkVipUserTag_result [of U _ ct'] by (auto simp: result_grows_def)
    let ?all = "mdom (filter (\<lambda>e. nice_is AD_ORDER_NICE e \<or> nice_is AD_ORDER_BASE e \<or>
      nice_is AD_ORDER_AUDIENCE e) res)"
    have "mdom res' \<subseteq> ?all" "mdom ?base \<subseteq> mdom res'" "result_ok U res'"
      using g1 g2 doms unfolding result_grows_def by blast+
    moreover have "\<not> unknown_user user_get pRequest" using run get by (auto simp: unknown_user_def)
    ultimately show ?thesis using step(2) by simp
  qed
qed

text \<open>Loading a unit adds this unit to the audience index, and no other.\<close>

lemma mark_index_ok_update:
  assumes "mark_index_ok U st" "m_ai_pData x = Some u" "u \<in> U"
    and "m_mk_mMap st' = AdMap_update s x (m_mk_mMap st)"
  shows "mark_index_ok U st'"
  unfolding mark_index_ok_def
proof (clarify)
  fix k l i
  assume e: "(k, l) \<in> set (m_mk_mMap st')" and i: "i \<in> set l"
  have old: "\<exists>u \<in> U. m_ai_pData i = Some u" if "(k', l') \<in> set (m_mk_mMap st)" "i \<in> set l'" for k' l'
    using assms(1) that by (auto simp: mark_index_ok_def)
  from e have "(k, l) = (s, filed (m_mk_mMap st) s @ [x]) \<or> (k, l) \<in> set (m_mk_mMap st)"
    unfolding assms(4) AdMap_update_def filed_def [symmetric] using set_smap_upd by fast
  then show "\<exists>u \<in> U. m_ai_pData i = Some u"
    using i old assms(2,3) by (auto simp: filed_def dest!: map_of_SomeD split: option.splits)
qed

lemma mark_index_ok_infos:
  assumes "mark_index_ok U st" "u \<in> U" "\<And>b x. m_ai_pData (set_match b x) = m_ai_pData x"
  shows "mark_index_ok U (add_audience_infos u node set_match entries st)"
  unfolding add_audience_infos_def
proof (rule fold_invariant [where Q = "\<lambda>_. True"])
  fix e :: "nat \<times> string \<times> UINT" and st
  assume st: "mark_index_ok U st"
  obtain i s t where e: "e = (i, s, t)" by (cases e)
  show "mark_index_ok U ((\<lambda>(i, (s, t)) st.
         let pInfo = set_match (push_bit i 1) (clear_audience_info
               \<lparr>m_ai_uiType := m_au_uiType node, m_uiEffectiveTime := t,
                m_uiSearchMask := first_bits (length (m_mSearch node)),
                m_uiVisitMask := first_bits (length (m_mVisit node)),
                m_uiUnVisitMask := first_bits (length (m_mUnVisit node)),
                m_ai_pData := Some u\<rparr>)
         in st\<lparr>m_fm_ltAudience := m_fm_ltAudience st @ [pInfo],
               m_mk_mMap := AdMap_update s pInfo (m_mk_mMap st),
               m_uiStrMinLen := (if int (length s) < uint (m_uiStrMinLen st) then of_nat (length s)
                                 else m_uiStrMinLen st),
               m_uiStrMaxLen := (if int (length s) > uint (m_uiStrMaxLen st) then of_nat (length s)
                                 else m_uiStrMaxLen st)\<rparr>) e st)"
    unfolding e prod.case Let_def
    by (rule mark_index_ok_update [OF st _ assms(2)]) (simp_all add: assms(3))
qed (simp_all add: assms(1))

lemma add_marks_index: "m_mk_mMap (snd (add_marks u ns st)) = m_mk_mMap st"
  by (induction u ns st rule: add_marks.induct) (auto simp: Let_def split: prod.splits)

lemma mark_index_ok_AddData:
  assumes "mark_index_ok U st" "u \<in> U"
  shows "mark_index_ok U (snd (AdFilterMark_AddData u st))"
proof -
  have cong: "mark_index_ok U s \<longleftrightarrow> mark_index_ok U s'" if "m_mk_mMap s = m_mk_mMap s'" for s s'
    by (simp add: mark_index_ok_def that)
  have "mark_index_ok U (snd (AdFilterMarkAddAudience u s))" if s: "mark_index_ok U s" for s
    unfolding AdFilterMarkAddAudience_def Let_def snd_conv
  proof (rule fold_invariant [where Q = "\<lambda>_. True"])
    show "mark_index_ok U (if m_mk_mMap s = [] then s\<lparr>m_uiStrMinLen := 0xffff, m_uiStrMaxLen := 0\<rparr> else s)"
      using s by (simp add: mark_index_ok_def)
  qed (simp_all add: mark_index_ok_infos assms(2))
  moreover have "mark_index_ok U (snd (AdFilterMarkAddMark u st))"
    using assms(1) unfolding AdFilterMarkAddMark_def by (simp add: cong [OF add_marks_index])
  ultimately show ?thesis
    by (auto simp: AdFilterMark_AddData_def Let_def split: prod.split)
qed

text \<open>
  C23. What the mark filter decides. It never adds a unit: what it returns are units of the
  result that want any user, a key word or an audience. As long as the request is not too old,
  all units that want any user stay. It fails exactly when the user getter finds nothing of the
  user and the request names no category of a crowd, and then the units that want any user,
  with what the result says of them, are what stays, even when the request is too old.
\<close>

theorem mark_filter_selects:
  assumes "AdFilterMark_match user_get now st pRequest res = Inr (ret, res')"
    and "result_ok U res" "mark_index_ok U st"
  shows "result_ok U res' \<and>
    dom (map_of res') \<subseteq> dom (map_of (filter (\<lambda>e. nice_is AD_ORDER_NICE e \<or> nice_is AD_ORDER_BASE e \<or>
      nice_is AD_ORDER_AUDIENCE e) res)) \<and>
    (\<not> checkLife now pRequest \<longrightarrow> dom (map_of (filter (nice_is AD_ORDER_BASE) res)) \<subseteq> dom (map_of res')) \<and>
    (if unknown_user user_get pRequest then ret = AD_FAILURE \<and> res' = filter (nice_is AD_ORDER_BASE) res else ret = AD_SUCCESS)"
  using assms by (rule mark_match_result)

text \<open>A unit that wants any user and a unit that wants an exact key word.\<close>

definition base_unit :: AdPlanningUnit where
  "base_unit = clear_unit\<lparr>m_stOrder := clear_order\<lparr>m_uiExecuteId := 1, m_uiNice := AD_ORDER_BASE\<rparr>\<rparr>"

definition nice_unit :: AdPlanningUnit where
  "nice_unit = clear_unit\<lparr>m_stOrder := clear_order\<lparr>m_uiExecuteId := 2, m_uiNice := AD_ORDER_NICE\<rparr>,
     m_ltKeyWord := [\<lparr>m_mk_uiType = AD_KEYS_ACC_CUS, m_sKey = ''car''\<rparr>]\<rparr>"

definition mark_state :: AdFilterMark where
  "mark_state = snd (AdFilterMark_AddData nice_unit (AdFilterMark_new (\<lambda>_. 0) 0 0))"

text \<open>A user getter: the cache knows two marks of the user.\<close>

definition user_with :: "string list \<Rightarrow> AdUserData \<Rightarrow> (int \<times> AdUserData) cxx" where
  "user_with marks u = Inr (AD_SUCCESS, u\<lparr>m_ud_mMark := map (\<lambda>s. (1, \<lparr>m_um_sMark = s, m_um_uiTime = 1,
     m_um_ucTag = AD_CACHE_KEY\<rparr>)) marks\<rparr>)"

definition both_units :: AD_RESULT where
  "both_units = [(1, (base_unit, clear_result)), (2, (nice_unit, clear_result))]"

lemma match_car: "case AdFilterMark_match (user_with [''car'']) at_zero mark_state (clear_request at_zero) both_units of
    Inl _ \<Rightarrow> False | Inr (ret, res) \<Rightarrow> ret = AD_SUCCESS \<and> map fst res = [1, 2]"
  by code_simp

theorem mark_filter_selects_witness:
  "\<exists>res'. AdFilterMark_match (user_with [''car'']) at_zero mark_state (clear_request at_zero) both_units = Inr (AD_SUCCESS, res') \<and>
    1 \<in> dom (map_of res')"
proof -
  obtain res' where run: "AdFilterMark_match (user_with [''car'']) at_zero mark_state (clear_request at_zero) both_units = Inr (AD_SUCCESS, res')"
    using match_car by (auto split: sum.splits prod.splits)
  have "result_ok {base_unit, nice_unit} both_units"
    by (simp add: result_ok_def both_units_def base_unit_def nice_unit_def clear_order_def clear_unit_def)
  moreover have "m_mk_mMap mark_state = []" by code_simp
  then have "mark_index_ok {base_unit, nice_unit} mark_state" by (simp add: mark_index_ok_def)
  moreover have "\<not> checkLife at_zero (clear_request at_zero)" by code_simp
  moreover have "map_of (filter (nice_is AD_ORDER_BASE) both_units) 1 \<noteq> None" by code_simp
  ultimately show ?thesis using mark_filter_selects [OF run] run by blast
qed

definition selected_by :: "string list \<Rightarrow> UINT list" where
  "selected_by marks =
     (case AdFilterMark_match (user_with marks) at_zero mark_state (clear_request at_zero) both_units of
        Inl _ \<Rightarrow> [] | Inr (_, res) \<Rightarrow> map fst res)"

text \<open>
  A stale match. The user's marks are \<open>my car\<close>, in which the exact key word \<open>car\<close> does not
  count because the lengths differ, and \<open>bus\<close>. The match of the first mark is kept for the second,
  whose length fits, and the unit that wants the exact key word \<open>car\<close> is selected; for each of the
  two marks alone it is not.
\<close>

theorem stale_mark_match:
  "selected_by [''my car'', ''bus''] = [1, 2] \<and> selected_by [''my car''] = [1] \<and> selected_by [''bus''] = [1]"
  by code_simp

text \<open>
  An audience whose parts are joined by "or" selects every user who matched any of its
  strings, also one that the user must not have visited: the third test of the condition holds
  whenever the second does not.
\<close>

lemma audience_or_always: "m_ai_uiType i = AD_AUDIENCE_MERGE_OR \<Longrightarrow> audience_accepts i"
  by (simp add: audience_accepts_def)

end
