(* ===== verification/AdRtbFiltersCorrect.thy ===== *)
theory AdRtbFiltersCorrect
  imports AdRtbFilters
begin

text \<open>
  What the filter chain as a whole decides: after an update with a list of planning units, a match
  returns the units that the request targets, that nothing excludes, and whose budget is not
  used up; and an update that fails leaves the chain in use as it was.
\<close>

section \<open>What an update builds\<close>

definition build_filters ::
    "UINT \<Rightarrow> (UINT \<times> AdPlanningUnit) list \<Rightarrow> AdFilters \<times> AdFilterRealTime \<Rightarrow> AdFilters \<times> AdFilterRealTime" where
  "build_filters uiWeek mData = fold (\<lambda>(_, u). FiltersAddData uiWeek u) mData"

lemma FiltersAddData_simps:
  "f_time (fst (FiltersAddData w u s)) = AdFilterTime_AddData u (f_time (fst s))"
  "f_adx (fst (FiltersAddData w u s)) = AdFilterAdExchange_AddData u (f_adx (fst s))"
  "f_pid (fst (FiltersAddData w u s)) = AdFilterPid_AddData u (f_pid (fst s))"
  "f_area (fst (FiltersAddData w u s)) = AdFilterArea_AddData u (f_area (fst s))"
  "f_size (fst (FiltersAddData w u s)) = AdFilterSize_AddData u (f_size (fst s))"
  "f_agent (fst (FiltersAddData w u s)) = AdFilterUserAgent_AddData u (f_agent (fst s))"
  "f_operator (fst (FiltersAddData w u s)) = AdFilterMobileOperator_AddData u (f_operator (fst s))"
  "f_device (fst (FiltersAddData w u s)) = AdFilterMobileDevice_AddData u (f_device (fst s))"
  "f_connect (fst (FiltersAddData w u s)) = AdFilterMobileConnect_AddData u (f_connect (fst s))"
  "f_ban (fst (FiltersAddData w u s)) = AdFilterBan_AddData u (f_ban (fst s))"
  "f_tanx (fst (FiltersAddData w u s)) = AdFilterTanx_AddData u (f_tanx (fst s))"
  "f_mark (fst (FiltersAddData w u s)) = snd (AdFilterMark_AddData u (f_mark (fst s)))"
  "f_pages (fst (FiltersAddData w u s)) = f_pages (fst s)"
  by (simp_all add: FiltersAddData_def split: prod.split)

lemma built_field:
  assumes "\<And>u s. field (fst (FiltersAddData w u s)) = step u (field (fst s))"
  shows "field (fst (build_filters w d s)) = fold step (map snd d) (field (fst s))"
proof (induction d arbitrary: s)
  case (Cons e d)
  show ?case using Cons [of "FiltersAddData w (snd e) s"] by (simp add: build_filters_def split_def assms)
qed (simp add: build_filters_def)

lemmas built_simps =
  built_field [of f_time, OF FiltersAddData_simps(1)]
  built_field [of f_adx, OF FiltersAddData_simps(2)]
  built_field [of f_pid, OF FiltersAddData_simps(3)]
  built_field [of f_area, OF FiltersAddData_simps(4)]
  built_field [of f_size, OF FiltersAddData_simps(5)]
  built_field [of f_agent, OF FiltersAddData_simps(6)]
  built_field [of f_operator, OF FiltersAddData_simps(7)]
  built_field [of f_device, OF FiltersAddData_simps(8)]
  built_field [of f_connect, OF FiltersAddData_simps(9)]
  built_field [of f_ban, OF FiltersAddData_simps(10)]
  built_field [of f_tanx, OF FiltersAddData_simps(11)]
  built_field [where field = f_mark and step = "\<lambda>u m. snd (AdFilterMark_AddData u m)", OF FiltersAddData_simps(12)]

lemma built_pages: "f_pages (fst (build_filters w d s)) = f_pages (fst s)"
proof (induction d arbitrary: s)
  case (Cons e d)
  show ?case using Cons [of "FiltersAddData w (snd e) s"]
    by (simp add: build_filters_def split_def FiltersAddData_simps)
qed (simp add: build_filters_def)

section \<open>Running filters that mark and filters that erase\<close>

text \<open>A filter that adds the units of \<open>E\<close> and marks them.\<close>

definition marks_spec :: "AdPlanningUnit set \<Rightarrow> (AD_RESULT \<Rightarrow> AD_RESULT) \<Rightarrow> UINT set \<times> UINT \<Rightarrow> bool" where
  "marks_spec U f = (\<lambda>(E, flag). \<forall>res. result_ok U res \<longrightarrow> result_ok U (f res) \<and>
     (\<forall>i. match_flags (f res) i = (if i \<in> E then match_flags res i OR flag else match_flags res i)) \<and>
     mdom (f res) = E \<union> mdom res)"

text \<open>A filter that keeps the entries with a property.\<close>

definition keeps_spec ::
    "AdPlanningUnit set \<Rightarrow> (AD_RESULT \<Rightarrow> AD_RESULT) \<Rightarrow> (AdPlanningUnit \<Rightarrow> AdRtbFilterResult \<Rightarrow> bool) \<Rightarrow> bool" where
  "keeps_spec U f P \<longleftrightarrow> (\<forall>res. result_ok U res \<longrightarrow> result_ok U (f res) \<and>
     (\<forall>i. map_of (f res) i = (case map_of res i of None \<Rightarrow> None
        | Some (u, r) \<Rightarrow> if P u r then Some (u, r) else None)))"

context marking_filter
begin

lemma built_marks:
  "marks_spec (set us) (match q (fold AddData us [])) (eid ` {u \<in> set us. hits q u}, flag)"
  using match_built [of "set us" _ us q] by (simp add: marks_spec_def)

end

context erasing_filter
begin

lemma built_keeps:
  assumes "inj_on eid (set us)"
  shows "keeps_spec (set us) (match q (fold AddData us [])) (\<lambda>u _. \<not> hits q u)"
  unfolding keeps_spec_def
proof (intro allI impI conjI)
  fix res :: AD_RESULT and i
  assume res: "result_ok (set us) res"
  then show "result_ok (set us) (match q (fold AddData us []) res)" by (rule match_built)
  show "map_of (match q (fold AddData us []) res) i = (case map_of res i of None \<Rightarrow> None
      | Some (u, r) \<Rightarrow> if \<not> hits q u then Some (u, r) else None)"
  proof (cases "map_of res i")
    case (Some e)
    then obtain u r where e: "map_of res i = Some (u, r)" by (cases e) auto
    with res have u: "u \<in> set us" "eid u = i" by (auto dest: result_ok_map)
    then have "i \<in> eid ` {u \<in> set us. hits q u} \<longleftrightarrow> hits q u"
      using assms by (auto dest: inj_onD)
    with e show ?thesis by (simp add: match_built(2) [OF res])
  qed (simp add: match_built(2) [OF res])
qed

end

lemma run_marks:
  assumes "list_all2 (marks_spec U) fs specs" "result_ok U res" "res \<noteq> []"
  shows "\<exists>res'. run_filters (fs @ gs) res = run_filters gs res' \<and> result_ok U res' \<and>
    (\<forall>i. match_flags res' i = fold (\<lambda>(E, flag) w. if i \<in> E then w OR flag else w) specs (match_flags res i)) \<and>
    mdom res' = (\<Union>(E, _) \<in> set specs. E) \<union> mdom res"
  using assms
proof (induction fs specs arbitrary: res rule: list_all2_induct)
  case (Cons f fs spec specs)
  obtain E flag where spec: "spec = (E, flag)" by (cases spec)
  have f: "result_ok U (f res)" "mdom (f res) = E \<union> mdom res"
    "\<And>i. match_flags (f res) i = (if i \<in> E then match_flags res i OR flag else match_flags res i)"
    using Cons.hyps(1) Cons.prems(1) spec by (auto simp: marks_spec_def)
  have "mdom res \<noteq> {}" using Cons.prems(2) by (simp add: dom_map_of_conv_image_fst)
  with f(2) have ne: "f res \<noteq> []" by auto
  obtain res' where res': "run_filters (fs @ gs) (f res) = run_filters gs res'" "result_ok U res'"
    "\<And>i. match_flags res' i =
      fold (\<lambda>(E, flag) w. if i \<in> E then w OR flag else w) specs (match_flags (f res) i)"
    "mdom res' = (\<Union>(E, _) \<in> set specs. E) \<union> mdom (f res)"
    using Cons.IH [OF f(1) ne] by blast
  have "mdom res' = (\<Union>(E, _) \<in> set (spec # specs). E) \<union> mdom res"
    using res'(4) f(2) spec by auto
  then show ?case using res' f(3) ne spec by (intro exI [of _ res']) simp
qed auto

lemma run_keeps:
  assumes "list_all2 (keeps_spec U) fs Ps" "result_ok U res" "run_filters fs res = (left, res')"
  shows "result_ok U res' \<and>
    (\<forall>i. map_of res' i = (case map_of res i of None \<Rightarrow> None
        | Some (u, r) \<Rightarrow> if list_all (\<lambda>P. P u r) Ps then Some (u, r) else None)) \<and>
    (left \<longrightarrow> res' = [])"
  using assms
proof (induction fs Ps arbitrary: res rule: list_all2_induct)
  case Nil
  then show ?case by (auto split: option.split)
next
  case (Cons f fs P Ps)
  have f: "result_ok U (f res)" "\<And>i. map_of (f res) i = (case map_of res i of None \<Rightarrow> None
        | Some (u, r) \<Rightarrow> if P u r then Some (u, r) else None)"
    using Cons.hyps(1) Cons.prems by (auto simp: keeps_spec_def)
  show ?case
  proof (cases "f res = []")
    case True
    have "(case map_of res i of None \<Rightarrow> None
        | Some (u, r) \<Rightarrow> if list_all (\<lambda>P. P u r) (P # Ps) then Some (u, r) else None) = None" for i
    proof (cases "map_of res i")
      case (Some e)
      then obtain u r where e: "map_of res i = Some (u, r)" by (cases e) auto
      with f(2) [of i] True have "\<not> P u r" by (simp split: if_splits)
      with e show ?thesis by simp
    qed simp
    with True Cons.prems show ?thesis by simp
  next
    case False
    with Cons.prems have "run_filters fs (f res) = (left, res')" by simp
    from Cons.IH [OF f(1) this] f(2) show ?thesis by (auto split: option.splits)
  qed
qed

section \<open>Which units a request selects\<close>

definition meets :: "string list \<Rightarrow> string list \<Rightarrow> bool" where
  "meets ks ks' \<longleftrightarrow> list_ex (\<lambda>k. k \<in> set ks') ks"

text \<open>For each marking filter whether a unit is filed under a key of the request, and the flag.\<close>

definition index_specs :: "match_env \<Rightarrow> AdRtbRequest \<Rightarrow> ((AdPlanningUnit \<Rightarrow> bool) \<times> UINT) list" where
  "index_specs env q =
    [(\<lambda>u. meets [snprintf 16 (digits10 (tm_wday (e_tm env)) @ fmt_02d (tm_hour (e_tm env)))]
        (AdFilterTime_keys u), AD_FILTER_TIME),
     (\<lambda>u. meets [fmt_d (m_uiAdx q)] (AdFilterAdExchange_keys u), AD_FILTER_ADX),
     (\<lambda>u. meets (AdFilterPid_request_keys q) (AdFilterPid_keys u), AD_FILTER_PID),
     (\<lambda>u. meets [AD_AREA_ALL, m_sArea q] (AdFilterArea_keys u), AD_FILTER_AREA),
     (\<lambda>u. meets [snprintf 128 (fmt_d (m_uiAdx q) @ ''_'' @ c_str (m_sSize q))] (AdFilterSize_keys u),
       AD_FILTER_SIZE),
     (\<lambda>u. meets (wildcard_keys (m_ltUalist q)) (AdFilterUserAgent_keys u), AD_FILTER_UA),
     (\<lambda>u. meets (mobile_keys q (m_ltMobileOperator q)) (AdFilterMobileOperator_keys u),
       AD_FILTER_MOBILE_OPERATER),
     (\<lambda>u. meets (mobile_keys q (m_ltMobileDevice q)) (AdFilterMobileDevice_keys u),
       AD_FILTER_MOBILE_DEVICE),
     (\<lambda>u. meets (mobile_keys q (m_ltMobileConnect q)) (AdFilterMobileConnect_keys u),
       AD_FILTER_MOBILE_CONNECT)]"

text \<open>The request targets a unit if all filters find it, the three mobile ones in the mobile flow.\<close>

definition targets :: "match_env \<Rightarrow> AdRtbRequest \<Rightarrow> AdPlanningUnit \<Rightarrow> bool" where
  "targets env q u \<longleftrightarrow> list_all (\<lambda>(P, _). P u)
     (if atoi (c_str (m_sFlow q)) = AD_PROTOCOL_FLOW_MOBILE then index_specs env q
      else take 6 (index_specs env q))"

definition flags_of :: "((AdPlanningUnit \<Rightarrow> bool) \<times> UINT) list \<Rightarrow> AdPlanningUnit \<Rightarrow> UINT" where
  "flags_of specs u = fold (\<lambda>(P, flag) w. if P u then w OR flag else w) specs 0"

definition with_flags :: "UINT \<Rightarrow> AdRtbFilterResult" where
  "with_flags w = clear_result\<lparr>m_uiMatch := w\<rparr>"

definition selected ::
    "match_env \<Rightarrow> AdFilterRealTime \<Rightarrow> tanx_pids \<Rightarrow> AdRtbRequest \<Rightarrow> AdPlanningUnit \<Rightarrow> bool" where
  "selected env rt pids q u \<longleftrightarrow> targets env q u \<and>
     parameter_keep q u (with_flags (parameter_mask (atoi (c_str (m_sFlow q))))) \<and>
     \<not> meets (AdFilterBan_request_keys q) (AdFilterBan_keys u) \<and>
     \<not> meets (AdFilterTanx_request_keys pids q) (AdFilterTanx_keys u) \<and>
     realtime_keep (e_now env) rt u"

lemma mobile_keys_other:
  "atoi (c_str (m_sFlow q)) \<noteq> AD_PROTOCOL_FLOW_MOBILE \<Longrightarrow> meets (mobile_keys q xs) ks \<longleftrightarrow> False"
  by (simp add: mobile_keys_def meets_def)

text \<open>The flags are distinct bits, so all are set exactly when all filters found the unit.\<close>

definition or_flags :: "(bool \<times> UINT) list \<Rightarrow> UINT" where
  "or_flags bs = fold (\<lambda>(b, flag) w. if b then w OR flag else w) bs 0"

lemma flags_of_or: "flags_of specs u = or_flags (map (\<lambda>(P, flag). (P u, flag)) specs)"
  by (simp add: flags_of_def or_flags_def fold_map o_def split_def cong: if_cong)

lemma or_flags_six:
  "or_flags [(a, AD_FILTER_TIME), (b, AD_FILTER_ADX), (c, AD_FILTER_PID), (d, AD_FILTER_AREA),
     (e, AD_FILTER_SIZE), (f, AD_FILTER_UA), (False, x), (False, y), (False, z)] = AD_FILTER_NORMAL \<longleftrightarrow>
   a \<and> b \<and> c \<and> d \<and> e \<and> f"
  by (cases a; cases b; cases c; cases d; cases e; cases f)
    (simp_all add: or_flags_def AD_FILTER_NORMAL_def)

lemma or_flags_nine:
  "or_flags [(a, AD_FILTER_TIME), (b, AD_FILTER_ADX), (c, AD_FILTER_PID), (d, AD_FILTER_AREA),
     (e, AD_FILTER_SIZE), (f, AD_FILTER_UA), (g, AD_FILTER_MOBILE_OPERATER),
     (h, AD_FILTER_MOBILE_DEVICE), (i, AD_FILTER_MOBILE_CONNECT)] =
     AD_FILTER_NORMAL OR AD_FILTER_MOBILE \<longleftrightarrow>
   a \<and> b \<and> c \<and> d \<and> e \<and> f \<and> g \<and> h \<and> i"
  by (cases a; cases b; cases c; cases d; cases e; cases f; cases g; cases h; cases i)
    (simp_all add: or_flags_def AD_FILTER_NORMAL_def AD_FILTER_MOBILE_def)

lemma flags_full:
  "flags_of (index_specs env q) u = parameter_mask (atoi (c_str (m_sFlow q))) \<longleftrightarrow> targets env q u"
proof (cases "atoi (c_str (m_sFlow q)) = AD_PROTOCOL_FLOW_MOBILE")
  case True
  then show ?thesis
    by (simp add: flags_of_or index_specs_def parameter_mask_def or_flags_nine targets_def)
next
  case False
  then show ?thesis
    by (simp add: flags_of_or index_specs_def parameter_mask_def mobile_keys_other or_flags_six
        targets_def)
qed

section \<open>What the filters of an update do\<close>

text \<open>The data of an update: each unit under its own execute id.\<close>

definition units_ok :: "(UINT \<times> AdPlanningUnit) list \<Rightarrow> bool" where
  "units_ok mData \<longleftrightarrow> smap_ok mData \<and> list_all (\<lambda>(i, u). i = eid u) mData"

definition units_of :: "(UINT \<times> AdPlanningUnit) list \<Rightarrow> AdPlanningUnit set" where
  "units_of mData = snd ` set mData"

lemma units_map: "units_ok d \<Longrightarrow> u \<in> units_of d \<Longrightarrow> map_of d (eid u) = Some u"
  by (auto simp: units_ok_def units_of_def list_all_iff simp flip: smap_mem_iff)

lemma units_inj: "units_ok d \<Longrightarrow> inj_on eid (units_of d)"
  by (rule inj_onI) (metis units_map option.inject)

lemma set_units: "set (map snd d) = units_of d"
  by (simp add: units_of_def)

lemma meets_hits: "meets ks ks' \<longleftrightarrow> (\<exists>k \<in> set ks. k \<in> set ks')"
  by (simp add: meets_def list_ex_iff)

lemma built_index_marks:
  "list_all2 (marks_spec (units_of d))
     (index_filters env (fst (build_filters w d (FiltersCreate nm, rt))) q)
     (map (\<lambda>(P, flag). (eid ` {u \<in> units_of d. P u}, flag)) (index_specs env q))"
  using time_filter.built_marks [of "map snd d" "e_tm env"]
    adx_filter.built_marks [of "map snd d" q] pid_filter.built_marks [of "map snd d" q]
    area_filter.built_marks [of "map snd d" q] size_filter.built_marks [of "map snd d" q]
    ua_filter.built_marks [of "map snd d" q] operator_filter.built_marks [of "map snd d" q]
    device_filter.built_marks [of "map snd d" q] connect_filter.built_marks [of "map snd d" q]
  unfolding set_units marking_filter.hits_def [OF time_filter.marking_filter_axioms]
    marking_filter.hits_def [OF adx_filter.marking_filter_axioms]
    marking_filter.hits_def [OF pid_filter.marking_filter_axioms]
    marking_filter.hits_def [OF area_filter.marking_filter_axioms]
    marking_filter.hits_def [OF size_filter.marking_filter_axioms]
    marking_filter.hits_def [OF ua_filter.marking_filter_axioms]
    marking_filter.hits_def [OF operator_filter.marking_filter_axioms]
    marking_filter.hits_def [OF device_filter.marking_filter_axioms]
    marking_filter.hits_def [OF connect_filter.marking_filter_axioms]
    meets_hits [symmetric]
  by (simp add: index_filters_def index_specs_def built_simps FiltersCreate_def)

definition rest_specs ::
    "match_env \<Rightarrow> AdFilterRealTime \<Rightarrow> tanx_pids \<Rightarrow> AdRtbRequest \<Rightarrow>
     (AdPlanningUnit \<Rightarrow> AdRtbFilterResult \<Rightarrow> bool) list" where
  "rest_specs env rt pids q =
    [parameter_keep q, (\<lambda>u _. \<not> meets (AdFilterBan_request_keys q) (AdFilterBan_keys u)),
     (\<lambda>_ _. True), (\<lambda>u _. \<not> meets (AdFilterTanx_request_keys pids q) (AdFilterTanx_keys u)),
     (\<lambda>u _. realtime_keep (e_now env) rt u), (\<lambda>_ _. True)]"

lemma keeps_id: "keeps_spec U (\<lambda>res. res) (\<lambda>_ _. True)"
  by (auto simp: keeps_spec_def split: option.split)

lemma keeps_parameter: "keeps_spec U (AdFilterParameter_match q) (parameter_keep q)"
  unfolding keeps_spec_def using map_of_parameter
  by (auto simp: AdFilterParameter_match_def result_ok_filter)

lemma keeps_realtime: "keeps_spec U (AdFilterRealTime_match now rt) (\<lambda>u _. realtime_keep now rt u)"
  unfolding keeps_spec_def
proof (intro allI impI conjI)
  fix res :: AD_RESULT and i
  assume res: "result_ok U res"
  then show "result_ok U (AdFilterRealTime_match now rt res)"
    by (simp add: AdFilterRealTime_match_def result_ok_filter)
  show "map_of (AdFilterRealTime_match now rt res) i = (case map_of res i of None \<Rightarrow> None
      | Some (u, r) \<Rightarrow> if realtime_keep now rt u then Some (u, r) else None)"
    using res map_of_filter_smap [of res "\<lambda>_ (u, r). realtime_keep now rt u" i]
    by (auto simp: AdFilterRealTime_match_def result_ok_def split_def split: option.split)
qed

lemma built_rest_keeps:
  assumes "units_ok d" "v = fst (build_filters w d (FiltersCreate nm, rt0))"
  shows "list_all2 (keeps_spec (units_of d)) (rest_filters env rt (v\<lparr>f_mPidDes := pids\<rparr>) q)
     (rest_specs env rt pids q)"
proof -
  have inj: "inj_on eid (set (map snd d))" unfolding set_units using assms(1) by (rule units_inj)
  have "AdFilterLandingPage_match [] q m = (\<lambda>res. res)" for m
    by (rule ext) (simp add: AdFilterLandingPage_match_def)
  then show ?thesis
    using ban_filter.built_keeps [OF inj, of q] tanx_filter.built_keeps [OF inj, of "(pids, q)"]
    unfolding set_units erasing_filter.hits_def [OF ban_filter.erasing_filter_axioms]
      erasing_filter.hits_def [OF tanx_filter.erasing_filter_axioms] meets_hits [symmetric]
    by (simp add: rest_filters_def rest_specs_def assms(2) built_simps built_pages FiltersCreate_def
        keeps_id keeps_parameter keeps_realtime)
qed

text \<open>
  All filters but the last. The result is empty when the loop was left, and it holds the
  selected units.
\<close>

lemma keeps_flags:
  "P \<in> set (rest_specs env rt pids q) \<Longrightarrow> P u r = P u (with_flags (m_uiMatch r))"
  by (auto simp: rest_specs_def parameter_keep_def with_flags_def Let_def)

lemma parameter_keep_mask:
  "parameter_keep q u (with_flags w) \<Longrightarrow> w = parameter_mask (atoi (c_str (m_sFlow q)))"
  by (auto simp: parameter_keep_def with_flags_def Let_def split: if_splits prod.splits)

lemma rest_selected:
  "list_all (\<lambda>P. P u (with_flags (flags_of (index_specs env q) u))) (rest_specs env rt pids q) \<longleftrightarrow>
    selected env rt pids q u"
  using parameter_keep_mask [of q u "flags_of (index_specs env q) u"]
  by (auto simp: rest_specs_def selected_def simp flip: flags_full)

lemma selected_time:
  "selected env rt pids q u \<Longrightarrow> \<exists>P flag specs. index_specs env q = (P, flag) # specs \<and> P u"
  by (auto simp: selected_def targets_def index_specs_def split: if_splits)

lemma fold_flags_unit:
  assumes "inj_on eid U" "u \<in> U"
  shows "fold (\<lambda>(E, flag) w. if eid u \<in> E then w OR flag else w)
      (map (\<lambda>(P, flag). (eid ` {u \<in> U. P u}, flag)) specs) w =
    fold (\<lambda>(P, flag) w. if P u then w OR flag else w) specs w"
proof (induction specs arbitrary: w)
  case (Cons s specs)
  obtain P flag where s: "s = (P, flag)" by (cases s)
  have "eid u \<in> eid ` {u \<in> U. P u} \<longleftrightarrow> P u" using assms by (auto dest: inj_onD)
  with Cons s show ?case by simp
qed simp

lemma marked_flags:
  assumes "inj_on eid U" "result_ok U res" "map_of res i = Some (u, r)"
    and "\<And>i. match_flags res i = fold (\<lambda>(E, flag) w. if i \<in> E then w OR flag else w)
      (map (\<lambda>(P, flag). (eid ` {u \<in> U. P u}, flag)) specs) 0"
  shows "m_uiMatch r = flags_of specs u"
proof -
  have u: "u \<in> U" "eid u = i" using result_ok_map [OF assms(2,3)] by auto
  have "m_uiMatch r = match_flags res i" using assms(3) by (simp add: match_flags_def)
  also have "\<dots> = flags_of specs u"
    using assms(4) [of i] fold_flags_unit [OF assms(1) u(1), of specs 0] u(2)
    by (simp add: flags_of_def)
  finally show ?thesis .
qed

lemma index_filters_pids: "index_filters env (v\<lparr>f_mPidDes := pids\<rparr>) q = index_filters env v q"
  by (simp add: index_filters_def)

lemma chain_selects:
  assumes d: "units_ok d" and v: "v = fst (build_filters w d (FiltersCreate nm, rt0))"
    and run: "run_filters (index_filters env v q @ rest_filters env rt (v\<lparr>f_mPidDes := pids\<rparr>) q) [] =
      (left, res)"
  shows "result_ok (units_of d) res \<and> mdom res = eid ` {u \<in> units_of d. selected env rt pids q u} \<and>
    (left \<longrightarrow> res = [])"
proof -
  define U where "U = units_of d"
  define cut where "cut = map (\<lambda>(P, flag). (eid ` {u \<in> U. P u}, flag :: UINT))"
  have inj: "inj_on eid U" unfolding U_def using d by (rule units_inj)
  obtain f fs where fs: "index_filters env v q = f # fs" by (simp add: index_filters_def)
  obtain P flag specs where specs: "index_specs env q = (P, flag) # specs" by (simp add: index_specs_def)
  have marks: "marks_spec U f (eid ` {u \<in> U. P u}, flag)" "list_all2 (marks_spec U) fs (cut specs)"
    using built_index_marks [of d env w nm rt0 q] fs specs
    by (simp_all flip: v U_def add: cut_def)
  have keeps: "list_all2 (keeps_spec U) (rest_filters env rt (v\<lparr>f_mPidDes := pids\<rparr>) q)
      (rest_specs env rt pids q)"
    unfolding U_def using d v by (rule built_rest_keeps)
  have f: "result_ok U (f [])" "mdom (f []) = eid ` {u \<in> U. P u}"
    "\<And>i. match_flags (f []) i = (if i \<in> eid ` {u \<in> U. P u} then flag else 0)"
    using marks(1) by (auto simp: marks_spec_def match_flags_def)
  have found: "P u" if "selected env rt pids q u" for u
    using selected_time [OF that] specs by auto
  show ?thesis
  proof (cases "f [] = []")
    case True
    with run fs have "left" "res = []" by auto
    moreover have "{u \<in> U. P u} = {}" using f(2) True by simp
    ultimately show ?thesis using found by (auto simp: U_def)
  next
    case False
    obtain res' where res': "run_filters (fs @ rest_filters env rt (v\<lparr>f_mPidDes := pids\<rparr>) q) (f []) =
        run_filters (rest_filters env rt (v\<lparr>f_mPidDes := pids\<rparr>) q) res'" "result_ok U res'"
      "\<And>i. match_flags res' i =
        fold (\<lambda>(E, flag) w. if i \<in> E then w OR flag else w) (cut specs) (match_flags (f []) i)"
      "mdom res' = (\<Union>(E, _) \<in> set (cut specs). E) \<union> mdom (f [])"
      using run_marks [OF marks(2) f(1) False] by blast
    have "run_filters (rest_filters env rt (v\<lparr>f_mPidDes := pids\<rparr>) q) res' = (left, res)"
      using run fs False res'(1) by simp
    from run_keeps [OF keeps res'(2) this] have res: "result_ok U res" "left \<longrightarrow> res = []"
      "\<And>i. map_of res i = (case map_of res' i of None \<Rightarrow> None
        | Some (u, r) \<Rightarrow> if list_all (\<lambda>P. P u r) (rest_specs env rt pids q) then Some (u, r) else None)"
      by auto
    have flags: "m_uiMatch r = flags_of (index_specs env q) u" if "map_of res' i = Some (u, r)" for i u r
      using inj res'(2) that
    proof (rule marked_flags)
      show "match_flags res' i = fold (\<lambda>(E, flag) w. if i \<in> E then w OR flag else w)
          (map (\<lambda>(P, flag). (eid ` {u \<in> U. P u}, flag)) (index_specs env q)) 0" for i
        using res'(3) f(3) by (simp add: specs cut_def)
    qed
    have keep: "list_all (\<lambda>P. P u r) (rest_specs env rt pids q) \<longleftrightarrow> selected env rt pids q u"
      if "map_of res' i = Some (u, r)" for i u r
      unfolding rest_selected [symmetric] list_all_iff flags [OF that, symmetric]
      using keeps_flags [of _ env rt pids q u r] by auto
    have "i \<in> mdom res \<longleftrightarrow> i \<in> eid ` {u \<in> U. selected env rt pids q u}" for i
    proof
      assume "i \<in> mdom res"
      then obtain u r where m: "map_of res i = Some (u, r)" by (auto simp: dom_def)
      then have m': "map_of res' i = Some (u, r)" using res(3) [of i] by (auto split: option.splits if_splits)
      with m res(3) [of i] keep [OF m'] have "selected env rt pids q u" by (simp split: if_splits)
      then show "i \<in> eid ` {u \<in> U. selected env rt pids q u}"
        using result_ok_map [OF res'(2) m'] by auto
    next
      assume "i \<in> eid ` {u \<in> U. selected env rt pids q u}"
      then obtain u where u: "i = eid u" "u \<in> U" "selected env rt pids q u" by auto
      then have "i \<in> mdom res'" using found f(2) res'(4) by blast
      then obtain u' r where m: "map_of res' i = Some (u', r)" by (auto simp: dom_def)
      then have "u' = u" using u inj result_ok_map [OF res'(2)] by (auto dest: inj_onD)
      then show "i \<in> mdom res" using m u(3) keep [OF m] res(3) [of i] by (auto simp: dom_def)
    qed
    then show ?thesis using res(1,2) by (auto simp: U_def)
  qed
qed

lemma built_mark_ok:
  assumes "mark_index_ok {} nm"
  shows "mark_index_ok (units_of d) (f_mark (fst (build_filters w d (FiltersCreate nm, rt))))"
  unfolding built_simps
proof (rule fold_invariant [where Q = "\<lambda>u. u \<in> units_of d"])
  show "mark_index_ok (units_of d) (f_mark (fst (FiltersCreate nm, rt)))"
    using assms by (fastforce simp: mark_index_ok_def FiltersCreate_def)
qed (auto simp: set_units [symmetric] mark_index_ok_AddData)

section \<open>Updates\<close>

text \<open>What is known after an update that returned \<open>ret\<close>.\<close>

lemma FiltersUpdate_Inr:
  assumes "FiltersUpdate conf w d st = Inr (ret, st')"
  obtains rt0 pids v where "v = fst (build_filters w d (FiltersCreate (c_new_mark conf), rt0))"
    and "pp_Get (ret \<noteq> AD_SUCCESS) (m_vFilters st') = Some (v\<lparr>f_mPidDes := pids\<rparr>)"
    and "pp_Get (ret = AD_SUCCESS) (m_vFilters st') = pp_Get False (m_vFilters st)"
proof -
  define s where "s = FiltersClear st"
  define rt0 where "rt0 = (if pp_Get False (m_vFilters s) = None then AdFilterRealTime_new else m_realtime s)"
  define b where "b = build_filters w d (FiltersCreate (c_new_mark conf), rt0)"
  have s: "pp_Get False (m_vFilters s) = pp_Get False (m_vFilters st)"
    by (simp add: s_def FiltersClear_def)
  have eq: "FiltersUpdate conf w d st = bind_cxx (FiltersInit conf (fst b) (pp_Get False (m_vFilters s)))
     (\<lambda>(ret, v'). let st1 = s\<lparr>m_vFilters := pp_set True (\<lambda>_. Some v') (m_vFilters s), m_realtime := snd b\<rparr>
           in if ret \<noteq> AD_SUCCESS then Inr (ret, st1)
              else Inr (AD_SUCCESS, st1\<lparr>m_vFilters := pp_Switch (m_vFilters st1)\<rparr>))"
    unfolding FiltersUpdate_def Let_def b_def rt0_def s_def build_filters_def by (simp only: split_def)
  obtain p where "FiltersInit conf (fst b) (pp_Get False (m_vFilters s)) = Inr p"
    using assms unfolding eq bind_cxx_Inr_iff by blast
  then obtain ret' v' where init: "FiltersInit conf (fst b) (pp_Get False (m_vFilters s)) = Inr (ret', v')"
    by (cases p) simp
  have st': "ret' = ret"
    "m_vFilters st' = (if ret' \<noteq> AD_SUCCESS then pp_set True (\<lambda>_. Some v') (m_vFilters s)
        else pp_Switch (pp_set True (\<lambda>_. Some v') (m_vFilters s)))"
    using assms unfolding eq init by (cases "ret' = AD_SUCCESS"; auto simp: Let_def)+
  obtain pids where "v' = (fst b)\<lparr>f_mPidDes := pids\<rparr>"
    using init by (auto simp: FiltersInit_def bind_cxx_Inr_iff Let_def split: if_splits)
  then show thesis
    using st' s by (intro that [of "fst b" rt0 pids]) (auto simp: b_def Let_def split: if_splits)
qed

section \<open>Properties\<close>

definition tanx_in_use :: "AdRtbFilters \<Rightarrow> tanx_pids" where
  "tanx_in_use st = (case pp_Get False (m_vFilters st) of None \<Rightarrow> [] | Some v \<Rightarrow> f_mPidDes v)"

definition nice_in :: "UINT list \<Rightarrow> AdPlanningUnit \<Rightarrow> bool" where
  "nice_in ns u \<longleftrightarrow> m_uiNice (m_stOrder u) \<in> set ns"

lemma nice_filter_dom:
  assumes "result_ok U res" "mdom res = eid ` {u \<in> U. S u}" "inj_on eid U"
  shows "mdom (filter (\<lambda>e. nice_in ns (fst (snd e))) res) = eid ` {u \<in> U. S u \<and> nice_in ns u}"
proof -
  have ok: "smap_ok res" using assms(1) by (simp add: result_ok_def)
  have m: "map_of (filter (\<lambda>e. nice_in ns (fst (snd e))) res) i =
      (case map_of res i of None \<Rightarrow> None | Some v \<Rightarrow> if nice_in ns (fst v) then Some v else None)" for i
    using map_of_filter_smap [OF ok, of "\<lambda>_ v. nice_in ns (fst v)" i] by (simp add: split_def)
  have "i \<in> mdom (filter (\<lambda>e. nice_in ns (fst (snd e))) res) \<longleftrightarrow>
      (\<exists>u r. map_of res i = Some (u, r) \<and> nice_in ns u)" for i
    by (auto simp: m dom_def split: option.splits if_splits)
  moreover have "(\<exists>u r. map_of res i = Some (u, r) \<and> nice_in ns u) \<longleftrightarrow>
      i \<in> eid ` {u \<in> U. S u \<and> nice_in ns u}" for i
  proof
    assume "\<exists>u r. map_of res i = Some (u, r) \<and> nice_in ns u"
    then obtain u r where u: "map_of res i = Some (u, r)" "nice_in ns u" by blast
    then have "i \<in> eid ` {u \<in> U. S u}" using assms(2) by (auto simp: dom_def)
    then obtain u' where u': "i = eid u'" "u' \<in> U" "S u'" by auto
    then have "u' = u" using result_ok_map [OF assms(1) u(1)] assms(3) by (auto dest: inj_onD)
    with u' u(2) show "i \<in> eid ` {u \<in> U. S u \<and> nice_in ns u}" by auto
  next
    assume "i \<in> eid ` {u \<in> U. S u \<and> nice_in ns u}"
    then obtain u where u: "i = eid u" "u \<in> U" "S u" "nice_in ns u" by auto
    then have "i \<in> mdom res" using assms(2) by auto
    then obtain u' r where e: "map_of res i = Some (u', r)" by (auto simp: dom_def)
    then have "u' = u" using u result_ok_map [OF assms(1) e] assms(3) by (auto dest: inj_onD)
    with e u(4) show "\<exists>u r. map_of res i = Some (u, r) \<and> nice_in ns u" by auto
  qed
  ultimately show ?thesis by blast
qed

lemma nice_filters:
  "filter (nice_is AD_ORDER_BASE) res = filter (\<lambda>e. nice_in [AD_ORDER_BASE] (fst (snd e))) res"
  "filter (\<lambda>e. nice_is AD_ORDER_NICE e \<or> nice_is AD_ORDER_BASE e \<or> nice_is AD_ORDER_AUDIENCE e) res =
   filter (\<lambda>e. nice_in [AD_ORDER_NICE, AD_ORDER_BASE, AD_ORDER_AUDIENCE] (fst (snd e))) res"
  by (rule filter_cong; auto simp: nice_is_def nice_in_def)+

text \<open>The filters in use are those built from units \<open>mData\<close>, each under its own execute id.\<close>

definition serves :: "(UINT \<times> AdPlanningUnit) list \<Rightarrow> AdRtbFilters \<Rightarrow> bool" where
  "serves mData st \<longleftrightarrow> units_ok mData \<and> (\<exists>uiWeek new_mark rt pids. mark_index_ok {} new_mark \<and>
     pp_Get False (m_vFilters st) = Some ((fst (build_filters uiWeek mData (FiltersCreate new_mark, rt)))\<lparr>f_mPidDes := pids\<rparr>))"

lemma FiltersUpdate_serves:
  assumes "FiltersUpdate conf uiWeek mData st = Inr (AD_SUCCESS, st')"
    and "units_ok mData" "mark_index_ok {} (c_new_mark conf)"
  shows "serves mData st'"
proof -
  obtain v rt0 pids where "v = fst (build_filters uiWeek mData (FiltersCreate (c_new_mark conf), rt0))"
    "pp_Get False (m_vFilters st') = Some (v\<lparr>f_mPidDes := pids\<rparr>)"
    using assms(1) by (rule FiltersUpdate_Inr) simp
  with assms(2,3) show ?thesis unfolding serves_def by blast
qed

lemma serves_match:
  assumes "serves mData st" "FiltersMatch env st q [] = Inr res"
  shows "result_ok (units_of mData) res"
    "mdom res \<subseteq> eid ` {u \<in> units_of mData. selected env (m_realtime st) (tanx_in_use st) q u \<and>
      nice_in [AD_ORDER_NICE, AD_ORDER_BASE, AD_ORDER_AUDIENCE] u}"
    "\<not> checkLife (e_clock env) q \<Longrightarrow>
      eid ` {u \<in> units_of mData. selected env (m_realtime st) (tanx_in_use st) q u \<and>
        nice_in [AD_ORDER_BASE] u} \<subseteq> mdom res"
proof -
  obtain uiWeek new_mark rt0 pids v where v: "v = fst (build_filters uiWeek mData (FiltersCreate new_mark, rt0))"
    and use: "pp_Get False (m_vFilters st) = Some (v\<lparr>f_mPidDes := pids\<rparr>)"
    and ok: "units_ok mData" "mark_index_ok {} new_mark"
    using assms(1) unfolding serves_def by blast
  have pids: "tanx_in_use st = pids" by (simp add: tanx_in_use_def use)
  obtain left res1 where run: "run_filters (index_filters env v q @
      rest_filters env (m_realtime st) (v\<lparr>f_mPidDes := pids\<rparr>) q) [] = (left, res1)" by force
  let ?S = "selected env (m_realtime st) pids q"
  have res1: "result_ok (units_of mData) res1" "mdom res1 = eid ` {u \<in> units_of mData. ?S u}"
    "left \<Longrightarrow> res1 = []"
    using chain_selects [OF ok(1) v run] by auto
  have inj: "inj_on eid (units_of mData)" using ok(1) by (rule units_inj)
  have "result_ok (units_of mData) res \<and>
    mdom res \<subseteq> eid ` {u \<in> units_of mData. ?S u \<and> nice_in [AD_ORDER_NICE, AD_ORDER_BASE, AD_ORDER_AUDIENCE] u} \<and>
    (\<not> checkLife (e_clock env) q \<longrightarrow> eid ` {u \<in> units_of mData. ?S u \<and> nice_in [AD_ORDER_BASE] u} \<subseteq> mdom res)"
  proof (cases left)
    case True
    with res1 assms(2) use run have "res = []" by (simp add: FiltersMatch_def index_filters_pids)
    moreover have "{u \<in> units_of mData. ?S u} = {}" using res1(2) res1(3) [OF True] by simp
    ultimately show ?thesis by auto
  next
    case False
    then obtain ret where match: "AdFilterMark_match (e_user env) (e_clock env) (f_mark v) q res1 = Inr (ret, res)"
      using assms(2) use run by (auto simp: FiltersMatch_def index_filters_pids bind_cxx_Inr_iff)
    have "mark_index_ok (units_of mData) (f_mark v)" unfolding v using ok(2) by (rule built_mark_ok)
    from mark_match_result [OF match res1(1) this] show ?thesis
      unfolding nice_filters nice_filter_dom [OF res1(1,2) inj] by auto
  qed
  then show "result_ok (units_of mData) res"
    "mdom res \<subseteq> eid ` {u \<in> units_of mData. selected env (m_realtime st) (tanx_in_use st) q u \<and>
      nice_in [AD_ORDER_NICE, AD_ORDER_BASE, AD_ORDER_AUDIENCE] u}"
    "\<not> checkLife (e_clock env) q \<Longrightarrow>
      eid ` {u \<in> units_of mData. selected env (m_realtime st) (tanx_in_use st) q u \<and>
        nice_in [AD_ORDER_BASE] u} \<subseteq> mdom res"
    unfolding pids by blast+
qed

lemma serves_match_entry:
  assumes "serves mData st" "FiltersMatch env st q [] = Inr res" "(k, u, r) \<in> set res"
  shows "u \<in> units_of mData \<and> k = eid u \<and> selected env (m_realtime st) (tanx_in_use st) q u"
proof -
  note m = serves_match [OF assms(1,2)]
  have u: "u \<in> units_of mData" "k = eid u" using m(1) assms(3) by (auto simp: result_ok_def)
  have "smap_ok res" using m(1) by (simp add: result_ok_def)
  with assms(3) have "k \<in> mdom res" by (auto simp: dom_def smap_mem_iff)
  with m(2) obtain u' where u': "u' \<in> units_of mData" "k = eid u'" "selected env (m_realtime st) (tanx_in_use st) q u'"
    by auto
  have "inj_on eid (units_of mData)" using assms(1) by (auto simp: serves_def intro: units_inj)
  with u u' have "u' = u" by (auto dest: inj_onD)
  with u u' show ?thesis by simp
qed

text \<open>
  C2. What a bid request selects. After a successful update with planning units, each under its own
  execute id, a match returns only units that the request targets in time, exchange, placement, area,
  size and user agent (and, in the mobile flow, operator, device and connection), whose view
  parameters fit, that no ban and no Tanx exclusion concerns and whose budget report allows it, and
  only if their kind is known. As long as the request is not too old, it returns all of these
  that want any user; the other kinds depend on the user's marks.
\<close>

theorem filters_match_selects:
  assumes "units_ok mData" "mark_index_ok {} (c_new_mark conf)"
    and "FiltersUpdate conf uiWeek mData st = Inr (AD_SUCCESS, st')"
    and "FiltersMatch env st' q [] = Inr res"
  shows "mdom res \<subseteq> eid ` {u \<in> units_of mData. selected env (m_realtime st') (tanx_in_use st') q u \<and>
      nice_in [AD_ORDER_NICE, AD_ORDER_BASE, AD_ORDER_AUDIENCE] u} \<and>
    (\<not> checkLife (e_clock env) q \<longrightarrow>
      eid ` {u \<in> units_of mData. selected env (m_realtime st') (tanx_in_use st') q u \<and>
        nice_in [AD_ORDER_BASE] u} \<subseteq> mdom res)"
  using serves_match [OF FiltersUpdate_serves [OF assms(3,1,2)] assms(4)] by blast

text \<open>A unit for the exchange 10 on Monday morning, and a request for it.\<close>

definition demo_unit :: AdPlanningUnit where
  "demo_unit = clear_unit
     \<lparr>m_stOrder := clear_order\<lparr>m_uiExecuteId := 7, m_uiNice := AD_ORDER_BASE\<rparr>,
      m_stTime := clear_time\<lparr>bPush := True,
        m_stDay := [\<lparr>m_uiWeek = 1, m_uiBudget = 100, m_uiHour = 0x000200\<rparr>]\<rparr>,
      m_stTargetAudience := \<lparr>m_ltArea = [AD_AREA_ALL]\<rparr>,
      m_mCreativeInfo := [(10, clear_creative\<lparr>m_sCreativeGroupId := ''g'', m_sAdxId := ''10'',
        m_ltMaterials := [clear_material\<lparr>m_uiWidth := 300, m_uiHeight := 250\<rparr>]\<rparr>)],
      m_ltPidInfo := [clear_pid\<lparr>m_uiAdxId := 10, m_uiMode := AD_PID_MODE_ALL\<rparr>]\<rparr>"

definition demo_conf :: filters_conf where
  "demo_conf = \<lparr>c_changed = (\<lambda>_. True), c_any_changed = True, c_parse = (\<lambda>_. None),
     c_tanx_content = (''content'', Some []), c_tanx_description = (''description'', Some []),
     c_realtime_init = AD_SUCCESS, c_mark_init = AD_SUCCESS, c_new_mark = AdFilterMark_new (\<lambda>_. 0) 0 0\<rparr>"

text \<open>The chain after an earlier update and a report that lets the execute id 7 spend.\<close>

definition demo_state :: AdRtbFilters where
  "demo_state = \<lparr>m_vFilters = \<lparr>m_ctRequestA = None,
       m_ctRequestB = Some (FiltersCreate (AdFilterMark_new (\<lambda>_. 0) 0 0)), m_bFirst = False\<rparr>,
     m_realtime = good_state\<rparr>"

definition demo_env :: match_env where
  "demo_env = \<lparr>e_tm = \<lparr>tm_wday = 1, tm_hour = 9\<rparr>, e_now = 1010, e_clock = at_zero,
     e_user = (\<lambda>u. Inr (AD_FAILURE, u))\<rparr>"

definition demo_request :: AdRtbRequest where
  "demo_request = (clear_request at_zero)\<lparr>m_uiAdx := 10, m_sFlow := ''0'', m_sSize := ''300x250'',
     m_sPId := ''p'', m_sArea := ''0086-0021-0000''\<rparr>"

definition demo_loaded :: "(int \<times> AdRtbFilters) cxx" where
  "demo_loaded = FiltersUpdate demo_conf 1 [(7, demo_unit)] demo_state"

lemma case_pair_Inr:
  "case x of Inl _ \<Rightarrow> False | Inr (a, b) \<Rightarrow> P a b \<Longrightarrow> \<exists>a b. x = Inr (a, b) \<and> P a b"
  by (cases x) auto

lemma case_Inr: "case x of Inl _ \<Rightarrow> False | Inr a \<Rightarrow> P a \<Longrightarrow> \<exists>a. x = Inr a \<and> P a"
  by (cases x) auto

lemma demo_runs:
  "case demo_loaded of Inl _ \<Rightarrow> False | Inr (ret, st') \<Rightarrow> ret = AD_SUCCESS \<and>
    selected demo_env (m_realtime st') (tanx_in_use st') demo_request demo_unit \<and>
    (case FiltersMatch demo_env st' demo_request [] of Inl _ \<Rightarrow> False | Inr _ \<Rightarrow> True)"
  by code_simp

theorem filters_match_selects_witness:
  "\<exists>st' res. demo_loaded = Inr (AD_SUCCESS, st') \<and>
    FiltersMatch demo_env st' demo_request [] = Inr res \<and> mdom res = {7}"
proof -
  obtain st' where run: "demo_loaded = Inr (AD_SUCCESS, st')"
    and sel: "selected demo_env (m_realtime st') (tanx_in_use st') demo_request demo_unit"
    and ok: "case FiltersMatch demo_env st' demo_request [] of Inl _ \<Rightarrow> False | Inr _ \<Rightarrow> True"
    using case_pair_Inr [OF demo_runs] by blast
  obtain res where match: "FiltersMatch demo_env st' demo_request [] = Inr res"
    using case_Inr [OF ok] by blast
  have u: "units_ok [(7, demo_unit)]" "\<not> checkLife (e_clock demo_env) demo_request"
    "nice_in [AD_ORDER_BASE] demo_unit" "eid demo_unit = 7"
    by code_simp+
  have mark: "mark_index_ok {} (c_new_mark demo_conf)"
    by (simp add: mark_index_ok_def demo_conf_def AdFilterMark_new_def)
  note chosen = filters_match_selects [OF u(1) mark run [unfolded demo_loaded_def] match]
  have "mdom res \<subseteq> {7}" using chosen [THEN conjunct1] u(4) by (auto simp: units_of_def)
  moreover have "7 \<in> eid ` {u \<in> units_of [(7, demo_unit)].
      selected demo_env (m_realtime st') (tanx_in_use st') demo_request u \<and> nice_in [AD_ORDER_BASE] u}"
    by (rule image_eqI [of _ _ demo_unit]) (use sel u in \<open>simp_all add: units_of_def\<close>)
  then have "7 \<in> mdom res" using chosen u(2) by blast
  ultimately show ?thesis using run match by blast
qed

text \<open>
  C37. An update that fails leaves the filters in use as they were: a match after it gives what it would
  have given before, except that the budgets have already been reloaded, because the real time filter
  is shared between the filters in use and the new ones.
\<close>

theorem filters_failed_update:
  assumes "FiltersUpdate conf uiWeek mData st = Inr (ret, st')" "ret \<noteq> AD_SUCCESS"
  shows "FiltersMatch env st' q res = FiltersMatch env (st\<lparr>m_realtime := m_realtime st'\<rparr>) q res"
proof -
  have "pp_Get False (m_vFilters st') = pp_Get False (m_vFilters st)"
    using assms(1) by (rule FiltersUpdate_Inr) (use assms(2) in simp)
  then show ?thesis by (simp add: FiltersMatch_def split: option.split)
qed

theorem filters_failed_update_witness:
  "\<exists>st'. FiltersUpdate (demo_conf\<lparr>c_mark_init := AD_FAILURE\<rparr>) 1 [(7, demo_unit)] demo_state =
      Inr (AD_FAILURE, st') \<and>
    FiltersMatch demo_env st' demo_request [] =
      FiltersMatch demo_env (demo_state\<lparr>m_realtime := m_realtime st'\<rparr>) demo_request []"
proof -
  have "case FiltersUpdate (demo_conf\<lparr>c_mark_init := AD_FAILURE\<rparr>) 1 [(7, demo_unit)] demo_state of
      Inl _ \<Rightarrow> False | Inr (ret, _) \<Rightarrow> ret = AD_FAILURE" by code_simp
  then obtain st' where "FiltersUpdate (demo_conf\<lparr>c_mark_init := AD_FAILURE\<rparr>) 1 [(7, demo_unit)]
      demo_state = Inr (AD_FAILURE, st')"
    using case_pair_Inr by blast
  from this filters_failed_update [OF this] show ?thesis by (auto simp: AD_FAILURE_def AD_SUCCESS_def)
qed

text \<open>
  The first update of a bidder reads the filters in use even when there are none: if the
  configuration does not report the Tanx files as changed, it goes outside the empty vector.
\<close>

lemma first_update_empty_vector:
  "FiltersUpdate (demo_conf\<lparr>c_changed := \<lambda>_. False\<rparr>) 1 [] AdRtbFilters_new = Inl OutOfBounds"
  by code_simp

end
