(* ===== verification/AdCtrModel.thy ===== *)
theory AdCtrModel
  imports StdMap AdUtil AdCString AdRtbBase AdPlanningUnit "HOL-Library.List_Lexorder" "HOL-Library.Char_ord"
begin

text \<open>
  The estimate of the click rate (\<^verbatim>\<open>AdFeature_extractor.cpp\<close>, \<^verbatim>\<open>AdClassifier.cpp\<close>,
  \<^verbatim>\<open>AdRtbEngCtr.cpp\<close> of \<^verbatim>\<open>ibidding/engine/src\<close>): the features of a request by their numbers in a
  dictionary, the prediction and the price. The model and the prediction of \<^verbatim>\<open>liblinear\<close> and the rounding
  of \<^verbatim>\<open>double\<close> multiplication and division are arguments.
\<close>

section \<open>The dictionary of features\<close>

record Feature =
  ft_idx :: nat
  ft_val :: DOUBLE

record RawInstance =
  ri_region :: string
  ri_os :: string
  ri_user_tags :: string
  ri_host :: string
  ri_page_type :: string
  ri_pid :: string
  ri_view_screen :: string
  ri_adver_id :: string

type_synonym FDICT = "(string \<times> nat) list"

text \<open>\<^verbatim>\<open>while(getline(ss, field, sep))\<close>: an empty rest gives no field.\<close>

function split_by_sep :: "string \<Rightarrow> char \<Rightarrow> string list" where
  "split_by_sep s sep = (if s = [] then []
     else let field = takeWhile (\<lambda>c. c \<noteq> sep) s in field # split_by_sep (drop (length field + 1) s) sep)"
  by auto
termination
  by (relation "measure (\<lambda>(s, sep). length s)") (auto simp: Let_def intro!: diff_less)

declare split_by_sep.simps [simp del]

text \<open>\<^verbatim>\<open>strtoul(s, NULL, 10)\<close>, of 64 bits.\<close>

definition strtoul :: "string \<Rightarrow> nat" where
  "strtoul s =
     (let t = dropWhile is_space (c_str s);
          neg = (t \<noteq> [] \<and> hd t = CHR ''-'');
          u = (if t \<noteq> [] \<and> (hd t = CHR ''-'' \<or> hd t = CHR ''+'') then tl t else t);
          v = digits_val (takeWhile is_digit u)
      in if v \<ge> 2 ^ 64 then 2 ^ 64 - 1 else if neg \<and> v \<noteq> 0 then 2 ^ 64 - v else v)"

fun load_fdict_lines :: "string list \<Rightarrow> FDICT \<Rightarrow> bool \<times> FDICT" where
  "load_fdict_lines [] d = (True, d)"
| "load_fdict_lines (line # lines) d =
     (let fields = split_by_sep line CHR 0x09 in
      if length fields \<noteq> 2 then (False, [])
      else load_fdict_lines lines (smap_upd (fields ! 0) (strtoul (fields ! 1)) d))"

definition load_fdict_from_file :: "string \<Rightarrow> bool \<times> FDICT" where
  "load_fdict_from_file content = load_fdict_lines (split_by_sep content CHR 0x0A) []"

definition save_fdict_to_file :: "FDICT \<Rightarrow> string" where
  "save_fdict_to_file d = concat (map (\<lambda>(name, n). name @ CHR 0x09 # digits10 n @ [CHR 0x0A]) d)"

definition get_feature_id :: "string \<Rightarrow> bool \<Rightarrow> FDICT \<Rightarrow> nat \<times> FDICT" where
  "get_feature_id name create_new d =
     (case map_of d name of
        Some n \<Rightarrow> (n, d)
      | None \<Rightarrow>
          if create_new then (length d + 1, smap_upd name (length d + 1) d) else (0, d))"

definition append_feature :: "bool \<Rightarrow> string \<times> string \<Rightarrow> Feature list \<times> FDICT \<Rightarrow> Feature list \<times> FDICT" where
  "append_feature create_new = (\<lambda>(type, name) (features, d).
     let (fid, d) = get_feature_id (type @ '':'' @ name) create_new d in
     (if fid = 0 then features else features @ [\<lparr>ft_idx = fid, ft_val = 1\<rparr>], d))"

section \<open>The features of a request\<close>

definition region_province :: "string \<Rightarrow> string list" where
  "region_province region =
     (let regions = split_by_sep region CHR ''-'' in
      if 2 < length regions then [(regions ! 0) @ ''@'' @ (regions ! 1)] else [])"

definition host_domain :: "string \<Rightarrow> string list" where
  "host_domain host =
     (let details = split_by_sep host CHR ''.''; hlen = length details in
      if 2 < hlen then [(details ! (hlen - 2)) @ ''@'' @ (details ! (hlen - 1))] else [])"

text \<open>The features in the order in which they are appended.\<close>

definition feature_names :: "RawInstance \<Rightarrow> (string \<times> string) list" where
  "feature_names ins =
     (let regions = ri_region ins # region_province (ri_region ins);
          utags = split_by_sep (ri_user_tags ins) CHR ''|'';
          hosts = ri_host ins # host_domain (ri_host ins);
          region_vec = map (\<lambda>r. CHR ''r'' # r) regions;
          tag_vec = map (\<lambda>u. ''ut'' @ u) utags;
          host_vec = map (\<lambda>h. CHR ''h'' # h) hosts;
          pid_vec = [CHR ''p'' # ri_pid ins]
      in [(''common'', ''all_feature'')] @ map (Pair ''region'') regions @ map (Pair ''utag'') utags @
         map (Pair ''host'') hosts @ [(''pid'', ri_pid ins)] @
         concat (map (\<lambda>r. map (\<lambda>x. (''cb'', r @ '':'' @ x)) (tag_vec @ host_vec @ pid_vec)) region_vec) @
         concat (map (\<lambda>h. map (\<lambda>x. (''cb'', h @ '':'' @ x)) pid_vec) host_vec) @
         [(''aid'', ri_adver_id ins)])"

text \<open>\<^verbatim>\<open>std::sort\<close> by the number: features of one number are equal, so every sorted list is the same.\<close>

definition extract_features :: "RawInstance \<Rightarrow> bool \<Rightarrow> FDICT \<Rightarrow> Feature list \<times> FDICT" where
  "extract_features ins create_new d =
     (let (ret, d) = fold (append_feature create_new) (feature_names ins) ([], d) in (sort_key ft_idx ret, d))"

definition extract_for_train :: "RawInstance \<Rightarrow> FDICT \<Rightarrow> Feature list \<times> FDICT" where
  "extract_for_train ins d = extract_features ins True d"

definition extract_for_predict :: "RawInstance \<Rightarrow> FDICT \<Rightarrow> Feature list \<times> FDICT" where
  "extract_for_predict ins d = extract_features ins False d"

section \<open>The classifier\<close>

text \<open>
  The model file as \<^verbatim>\<open>load_model\<close> gives it: its function \<^verbatim>\<open>predict_probability\<close> on the list of nodes, which an
  index of \<open>- 1\<close> ends.
\<close>

type_synonym ll_model = "(int \<times> DOUBLE) list \<Rightarrow> DOUBLE"

record Classifier =
  cl_model :: "ll_model option"
  cl_fdict :: FDICT

definition Classifier_init :: "ll_model option \<Rightarrow> string option \<Rightarrow> bool \<times> Classifier" where
  "Classifier_init load_model fdict =
     (let ret1 = (load_model \<noteq> None);
          (ret2, d) = (case fdict of None \<Rightarrow> (True, []) | Some content \<Rightarrow> load_fdict_from_file content)
      in (True \<or> ret1 \<or> ret2, \<lparr>cl_model = load_model, cl_fdict = d\<rparr>))"

definition predict_ctr :: "Classifier \<Rightarrow> RawInstance \<Rightarrow> DOUBLE cxx" where
  "predict_ctr cl instance =
     (let (features, _) = extract_for_predict instance (cl_fdict cl);
          nodes = map (\<lambda>f. (int_cast (int (ft_idx f)), ft_val f)) features
      in case cl_model cl of None \<Rightarrow> Inl NullPointer | Some predict \<Rightarrow> Inr (predict (nodes @ [(- 1, 0)])))"

section \<open>The price of a click\<close>

abbreviation GT_HOST_LEN :: nat where "GT_HOST_LEN \<equiv> 128"

definition GtRtbEngGetHost :: "string \<Rightarrow> string" where
  "GtRtbEngGetHost url =
     (let u = c_str url;
          uiStPos = (if take 7 u = ''http://'' then 7 else 0);
          host = takeWhile (\<lambda>c. c \<noteq> CHR ''/'') (take (GT_HOST_LEN - uiStPos) (drop uiStPos u))
      in if length host < GT_HOST_LEN then host else [])"

text \<open>\<^verbatim>\<open>sprintf\<close> of a string into a buffer of \<open>n\<close> bytes.\<close>

definition sprintf_s :: "nat \<Rightarrow> string \<Rightarrow> string cxx" where
  "sprintf_s n s = (if length (c_str s) < n then Inr (c_str s) else Inl OutOfBounds)"

definition or_NULL :: "string \<Rightarrow> string" where
  "or_NULL s = (if c_str s = [] then ''NULL'' else s)"

definition raw_instance :: "AdRtbRequest \<Rightarrow> AdPlanningUnit \<Rightarrow> string option \<Rightarrow> RawInstance cxx" where
  "raw_instance pRequest pUnit stMark =
     bind_cxx (case m_ltMobileDevice pRequest of
         [] \<Rightarrow> Inr ''NULL''
       | dev # _ \<Rightarrow> if dev = ''0'' then Inr ''NULL'' else sprintf_s 8 dev) (\<lambda>os.
     bind_cxx (sprintf_s 8 (m_sAdViewScreen pRequest)) (\<lambda>pt.
     bind_cxx (sprintf_s 8 (m_sAdViewType pRequest)) (\<lambda>screen.
     bind_cxx (sprintf_s 16 (fmt_d (m_uiAdvertiser (m_stOrder pUnit)))) (\<lambda>adv.
     Inr \<lparr>ri_region = or_NULL (m_sArea pRequest), ri_os = os,
       ri_user_tags = (case stMark of None \<Rightarrow> ''NULL'' | Some m \<Rightarrow> or_NULL m),
       ri_host = (if c_str (m_sUserUrl pRequest) = [] then ''NULL'' else GtRtbEngGetHost (m_sUserUrl pRequest)),
       ri_page_type = pt, ri_pid = or_NULL (m_sPId pRequest), ri_view_screen = screen, ri_adver_id = adv\<rparr>))))"

text \<open>
  The arithmetic of \<^verbatim>\<open>double\<close> that the price uses. Its conversion to \<^verbatim>\<open>UINT\<close> is undefined outside the
  range.
\<close>

record fpu =
  d_mul :: "DOUBLE \<Rightarrow> DOUBLE \<Rightarrow> DOUBLE"
  d_div :: "DOUBLE \<Rightarrow> DOUBLE \<Rightarrow> DOUBLE"

definition uint_of_double :: "DOUBLE \<Rightarrow> UINT cxx" where
  "uint_of_double r = (if - 1 < r \<and> r < 2 ^ 32 then Inr (of_int (if 0 \<le> r then \<lfloor>r\<rfloor> else 0)) else Inl BadLength)"

definition AdRtbEngPrice :: "fpu \<Rightarrow> AdPlanningUnit \<Rightarrow> DOUBLE \<Rightarrow> UINT cxx" where
  "AdRtbEngPrice fp pUnit ctr =
     (let od = m_stOrder pUnit in
      if d_div fp ctr 10 < m_dMinCtr od then Inr 0
      else
        (let uiTgPrice = m_uiTargetPrice od * 100 in
         bind_cxx (uint_of_double (d_mul fp ctr (of_nat (unat uiTgPrice)))) (\<lambda>uiPrice.
           Inr (if uiPrice > m_uiTargetPrice od * 5 then m_uiTargetPrice od * 5 else uiPrice))))"

definition AdRtbEngCtrGet ::
    "fpu \<Rightarrow> Classifier \<Rightarrow> AdRtbRequest \<Rightarrow> AdPlanningUnit \<Rightarrow> string option \<Rightarrow> UINT cxx" where
  "AdRtbEngCtrGet fp cl pRequest pUnit stMark =
     bind_cxx (raw_instance pRequest pUnit stMark) (\<lambda>ins.
     bind_cxx (predict_ctr cl ins) (\<lambda>ctr. AdRtbEngPrice fp pUnit ctr))"

section \<open>What training has seen, prediction finds\<close>

definition fdict_ok :: "FDICT \<Rightarrow> bool" where
  "fdict_ok d \<longleftrightarrow> smap_ok d \<and> (\<forall>(name, n) \<in> set d. n \<noteq> 0)"

lemma fdict_ok_pos: "fdict_ok d \<Longrightarrow> map_of d name = Some n \<Longrightarrow> n \<noteq> 0"
  by (auto simp: fdict_ok_def dest: map_of_SomeD)

lemma fdict_ok_upd:
  assumes "fdict_ok d" "n \<noteq> 0"
  shows "fdict_ok (smap_upd name n d)"
proof -
  have "set (smap_upd name n d) \<subseteq> insert (name, n) (set d)"
    by (induction name n d rule: smap_upd.induct) auto
  with assms show ?thesis by (auto simp: fdict_ok_def)
qed

definition feature_of :: "FDICT \<Rightarrow> string \<times> string \<Rightarrow> Feature list" where
  "feature_of d = (\<lambda>(type, name). case map_of d (type @ '':'' @ name) of
     None \<Rightarrow> [] | Some n \<Rightarrow> if n = 0 then [] else [\<lparr>ft_idx = n, ft_val = 1\<rparr>])"

lemma append_predict:
  "fold (append_feature False) names (fs, d) = (fs @ concat (map (feature_of d) names), d)"
  by (induction names arbitrary: fs)
    (auto simp: append_feature_def get_feature_id_def feature_of_def split: option.split)

text \<open>Training numbers every feature and changes no number.\<close>

definition key_of :: "string \<times> string \<Rightarrow> string" where
  "key_of = (\<lambda>(type, name). type @ '':'' @ name)"

lemma append_feature_train:
  assumes "fdict_ok d"
  obtains n d' where "append_feature True f (fs, d) = (fs @ [\<lparr>ft_idx = n, ft_val = 1\<rparr>], d')" "fdict_ok d'"
    "map_of d' (key_of f) = Some n" "n \<noteq> 0" "map_of d \<subseteq>\<^sub>m map_of d'"
proof (cases "map_of d (key_of f)")
  case None
  then show thesis
    using assms by (intro that [of "length d + 1" "smap_upd (key_of f) (length d + 1) d"])
      (auto simp: append_feature_def get_feature_id_def key_of_def fdict_ok_upd map_le_def split: prod.split)
next
  case (Some n)
  then show thesis
    using assms fdict_ok_pos [OF assms Some]
    by (intro that [of n d]) (auto simp: append_feature_def get_feature_id_def key_of_def split: prod.split)
qed

lemma append_train:
  assumes "fdict_ok d"
  shows "\<exists>d'. fold (append_feature True) names (fs, d) = (fs @ concat (map (feature_of d') names), d') \<and>
    fdict_ok d' \<and> map_of d \<subseteq>\<^sub>m map_of d' \<and> key_of ` set names \<subseteq> dom (map_of d')"
  using assms
proof (induction names arbitrary: fs d)
  case (Cons f names)
  obtain n d1 where f: "append_feature True f (fs, d) = (fs @ [\<lparr>ft_idx = n, ft_val = 1\<rparr>], d1)" "fdict_ok d1"
    "map_of d1 (key_of f) = Some n" "n \<noteq> 0" "map_of d \<subseteq>\<^sub>m map_of d1"
    by (rule append_feature_train [OF Cons.prems])
  from Cons.IH [OF f(2), of "fs @ [\<lparr>ft_idx = n, ft_val = 1\<rparr>]"] obtain d' where d':
    "fold (append_feature True) names (fs @ [\<lparr>ft_idx = n, ft_val = 1\<rparr>], d1) =
       ((fs @ [\<lparr>ft_idx = n, ft_val = 1\<rparr>]) @ concat (map (feature_of d') names), d')"
    "fdict_ok d'" "map_of d1 \<subseteq>\<^sub>m map_of d'" "key_of ` set names \<subseteq> dom (map_of d')" by blast
  have "map_of d' (key_of f) = Some n" using d'(3) f(3) by (auto simp: map_le_def dom_def)
  moreover from this have "feature_of d' f = [\<lparr>ft_idx = n, ft_val = 1\<rparr>]"
    using f(4) by (simp add: feature_of_def key_of_def split: prod.splits)
  ultimately show ?case
    using f(1) d'(1,2,4) map_le_trans [OF f(5) d'(3)] by (intro exI [of _ d']) (simp add: domI)
qed simp

lemma train_entries:
  assumes "fold (append_feature True) names (fs, d) = (fs', d')"
  shows "set d' \<subseteq> set d \<union> {(key_of f, n) | f n. f \<in> set names \<and> n \<le> length d + length names}"
  using assms
proof (induction names arbitrary: fs d)
  case (Cons f names)
  obtain fs1 d1 where f: "append_feature True f (fs, d) = (fs1, d1)" by fastforce
  have u: "set (smap_upd k n d) \<subseteq> insert (k, n) (set d) \<and> length (smap_upd k n d) \<le> length d + 1" for k n
    by (induction k n d rule: smap_upd.induct) auto
  have "d1 = d \<or> d1 = smap_upd (key_of f) (length d + 1) d"
    using f by (auto simp: append_feature_def get_feature_id_def key_of_def split: prod.splits option.splits)
  then have d1: "set d1 \<subseteq> insert (key_of f, length d + 1) (set d)" "length d1 \<le> length d + 1"
    using u [of "key_of f" "length d + 1"] by auto
  have IH: "set d' \<subseteq> set d1 \<union> {(key_of f, n) | f n. f \<in> set names \<and> n \<le> length d1 + length names}"
    using Cons f by simp
  show ?case
  proof
    fix x assume "x \<in> set d'"
    with IH consider "x \<in> set d1" | g n where "x = (key_of g, n)" "g \<in> set names" "n \<le> length d1 + length names"
      by blast
    then show "x \<in> set d \<union> {(key_of g, n) | g n. g \<in> set (f # names) \<and> n \<le> length d + length (f # names)}"
    proof cases
      case 1
      then have "x = (key_of f, length d + 1) \<or> x \<in> set d" using d1 by blast
      moreover have "f \<in> set (f # names)" "length d + 1 \<le> length d + length (f # names)" by simp_all
      ultimately show ?thesis by blast
    next
      case 2
      then have "g \<in> set (f # names)" "n \<le> length d + length (f # names)" using d1(2) by simp_all
      with 2(1) show ?thesis by blast
    qed
  qed
qed simp

lemma train_then_predict:
  assumes "fdict_ok d" "extract_for_train ins d = (fs, d')"
  shows "extract_for_predict ins d' = (fs, d') \<and> fdict_ok d' \<and> map_of d \<subseteq>\<^sub>m map_of d' \<and>
    sorted (map ft_idx fs) \<and> (\<forall>f \<in> set fs. ft_idx f \<noteq> 0)"
proof -
  obtain d1 where d1: "fold (append_feature True) (feature_names ins) ([], d) =
      (concat (map (feature_of d1) (feature_names ins)), d1)" "fdict_ok d1" "map_of d \<subseteq>\<^sub>m map_of d1"
    using append_train [OF assms(1), of "feature_names ins" "[]"] by auto
  with assms(2) have "d' = d1" and fs: "fs = sort_key ft_idx (concat (map (feature_of d') (feature_names ins)))"
    by (auto simp: extract_for_train_def extract_features_def)
  moreover have "\<forall>f \<in> set (concat (map (feature_of d') (feature_names ins))). ft_idx f \<noteq> 0"
    by (auto simp: feature_of_def split: option.splits if_splits)
  ultimately show ?thesis
    using d1 by (simp add: extract_for_predict_def extract_features_def append_predict)
qed

section \<open>The dictionary file\<close>

lemma split_by_sep_field:
  "sep \<notin> set a \<Longrightarrow> split_by_sep (a @ sep # b) sep = a # split_by_sep b sep"
  "sep \<notin> set a \<Longrightarrow> a \<noteq> [] \<Longrightarrow> split_by_sep a sep = [a]"
  "split_by_sep [] sep = []"
proof -
  assume a: "sep \<notin> set a"
  then have "takeWhile (\<lambda>c. c \<noteq> sep) (a @ sep # b) = a" for b by (induction a) auto
  then show "split_by_sep (a @ sep # b) sep = a # split_by_sep b sep"
    by (subst split_by_sep.simps) (simp add: Let_def)
next
  assume a: "sep \<notin> set a" "a \<noteq> []"
  then have tw: "takeWhile (\<lambda>c. c \<noteq> sep) a = a" by (auto simp: takeWhile_eq_all_conv)
  from a show "split_by_sep a sep = [a]"
    unfolding split_by_sep.simps [of a] Let_def tw by (simp add: split_by_sep.simps [of "[]"])
qed (subst split_by_sep.simps, simp)

lemma strtoul_digits10: "n < 2 ^ 64 \<Longrightarrow> strtoul (digits10 n) = n"
proof -
  assume n: "n < 2 ^ 64"
  obtain c s where cs: "digits10 n = c # s" by (cases "digits10 n") auto
  have d: "is_digit c" using digits10_digit [of c n] cs by simp
  have "\<not> is_digit CHR 0x00" "\<not> is_digit CHR ''+''" by (simp_all add: is_digit_def)
  then have "CHR 0x00 \<notin> set (digits10 n)" by (auto dest: digits10_digit)
  then have c: "c_str (digits10 n) = digits10 n" by (rule c_str_id)
  have "c \<noteq> CHR ''-''" "c \<noteq> CHR ''+''" using d \<open>\<not> is_digit CHR ''+''\<close> by auto
  with n show ?thesis by (simp add: strtoul_def c Let_def cs [symmetric] hd_conv_nth) (simp add: cs)
qed

definition plain_name :: "string \<Rightarrow> bool" where
  "plain_name s \<longleftrightarrow> CHR 0x09 \<notin> set s \<and> CHR 0x0A \<notin> set s"

lemma load_save_fdict:
  assumes "smap_ok d" "\<forall>(name, n) \<in> set d. plain_name name \<and> n < 2 ^ 64"
  shows "load_fdict_from_file (save_fdict_to_file d) = (True, d)"
proof -
  have line: "split_by_sep (name @ CHR 0x09 # digits10 n) CHR 0x09 = [name, digits10 n]" if "plain_name name" for name n
  proof -
    have "\<not> is_digit CHR 0x09" by (simp add: is_digit_def)
    then have "CHR 0x09 \<notin> set (digits10 n)" by (auto dest: digits10_digit)
    with that show ?thesis by (simp add: split_by_sep_field plain_name_def)
  qed
  have nl: "CHR 0x0A \<notin> set (digits10 n)" for n
  proof -
    have "\<not> is_digit CHR 0x0A" by (simp add: is_digit_def)
    then show ?thesis by (auto dest: digits10_digit)
  qed
  have lines: "split_by_sep (save_fdict_to_file e) CHR 0x0A = map (\<lambda>(name, n). name @ CHR 0x09 # digits10 n) e"
    if "\<forall>(name, n) \<in> set e. plain_name name" for e
    using that
  proof (induction e)
    case (Cons p e)
    obtain name n where p: "p = (name, n)" by (cases p)
    have "CHR 0x0A \<notin> set (name @ CHR 0x09 # digits10 n)" using Cons.prems nl p by (auto simp: plain_name_def)
    from split_by_sep_field(1) [OF this, of "save_fdict_to_file e"] Cons p show ?case
      by (simp add: save_fdict_to_file_def)
  qed (simp add: save_fdict_to_file_def split_by_sep_field)
  have "load_fdict_lines (map (\<lambda>(name, n). name @ CHR 0x09 # digits10 n) e) m = (True, fold (\<lambda>(k, v). smap_upd k v) e m)"
    if "\<forall>(name, n) \<in> set e. plain_name name \<and> n < 2 ^ 64" for e m
    using that by (induction e arbitrary: m) (auto simp: line strtoul_digits10)
  moreover have "\<forall>(name, n) \<in> set d. plain_name name" using assms(2) by auto
  ultimately show ?thesis
    using assms fold_smap_upd [of "[]" d] by (simp add: load_fdict_from_file_def lines)
qed

section \<open>Properties\<close>

text \<open>
  C35. The features that training gave to a request are those that prediction finds, through the dictionary
  file that training writes and prediction loads; their numbers ascend and are not zero, as \<^verbatim>\<open>liblinear\<close>
  needs it, and prediction does not change the dictionary.
\<close>

theorem train_save_load_predict:
  assumes "fdict_ok d" "extract_for_train ins d = (fs, d')"
    and "\<forall>(name, n) \<in> set d. plain_name name \<and> n < 2 ^ 64" "\<forall>f \<in> set (feature_names ins). plain_name (key_of f)"
    and "length d + length (feature_names ins) < 2 ^ 64"
  shows "load_fdict_from_file (save_fdict_to_file d') = (True, d') \<and>
    extract_for_predict ins d' = (fs, d') \<and> sorted (map ft_idx fs) \<and> (\<forall>f \<in> set fs. ft_idx f \<noteq> 0)"
proof -
  have "set d' \<subseteq> set d \<union> {(key_of f, n) | f n. f \<in> set (feature_names ins) \<and> n \<le> length d + length (feature_names ins)}"
    using train_entries [of "feature_names ins" "[]" d] assms(2)
    by (auto simp: extract_for_train_def extract_features_def split: prod.splits)
  then have "\<forall>(name, n) \<in> set d'. plain_name name \<and> n < 2 ^ 64" using assms(3,4,5) by fastforce
  from load_save_fdict [OF _ this] train_then_predict [OF assms(1,2)] show ?thesis
    by (simp add: fdict_ok_def)
qed

definition demo_instance :: RawInstance where
  "demo_instance = \<lparr>ri_region = ''86-1-2'', ri_os = ''1'', ri_user_tags = ''a|b'', ri_host = ''x.y.z'', ri_page_type = ''1'',
     ri_pid = ''p'', ri_view_screen = ''1'', ri_adver_id = ''7''\<rparr>"

lemma train_save_load_predict_witness:
  "load_fdict_from_file (save_fdict_to_file (snd (extract_for_train demo_instance []))) =
     (True, snd (extract_for_train demo_instance [])) \<and>
   extract_for_predict demo_instance (snd (extract_for_train demo_instance [])) = extract_for_train demo_instance []"
proof -
  have e: "extract_for_train demo_instance [] =
      (fst (extract_for_train demo_instance []), snd (extract_for_train demo_instance []))" by simp
  have "list_all (\<lambda>f. plain_name (key_of f)) (feature_names demo_instance) \<and> length (feature_names demo_instance) = 21"
    by code_simp
  then have "\<forall>f \<in> set (feature_names demo_instance). plain_name (key_of f)"
    "length ([] :: FDICT) + length (feature_names demo_instance) < 2 ^ 64"
    by (simp_all add: list_all_iff)
  from train_save_load_predict [OF _ e _ this] show ?thesis by (simp add: fdict_ok_def)
qed

text \<open>
  Building the features of a request is defined exactly when the device, the view screen and the view type
  are shorter than eight bytes: they are copied from the request into arrays of eight bytes with \<^verbatim>\<open>sprintf\<close>.
\<close>

theorem ctr_buffers:
  "(\<exists>ins. raw_instance pRequest pUnit stMark = Inr ins) \<longleftrightarrow>
     (case m_ltMobileDevice pRequest of [] \<Rightarrow> True | dev # _ \<Rightarrow> dev = ''0'' \<or> length (c_str dev) < 8) \<and>
     length (c_str (m_sAdViewScreen pRequest)) < 8 \<and> length (c_str (m_sAdViewType pRequest)) < 8"
proof -
  have "length (c_str (fmt_d w)) < 16" for w
    using length_fmt_d [of w] length_takeWhile_le [of "\<lambda>c. c \<noteq> CHR 0x00" "fmt_d w"] by (simp add: c_str_def)
  then show ?thesis by (auto simp: raw_instance_def sprintf_s_def bind_cxx_Inr_iff split: list.split)
qed

lemma AdRtbEngPrice_le: "AdRtbEngPrice fp pUnit ctr = Inr p \<Longrightarrow> p \<le> m_uiTargetPrice (m_stOrder pUnit) * 5"
  by (auto simp: AdRtbEngPrice_def Let_def bind_cxx_Inr_iff split: if_splits)

lemma Classifier_init_true: "fst (Classifier_init load_model fdict)"
  by (simp add: Classifier_init_def Let_def split: prod.split)

end
