(* ===== verification/AdRedisCli.thy ===== *)
theory AdRedisCli
  imports StdMap AdCString "HOL-Library.List_Lexorder" "HOL-Library.Char_ord"
begin

text \<open>
  The Redis client (\<^verbatim>\<open>libutil/src/AdRedisCli.cpp\<close>) over the functions of \<^verbatim>\<open>hiredis\<close>, which are
  arguments: whether \<^verbatim>\<open>redisConnect\<close> succeeds and what \<^verbatim>\<open>redisCommand\<close> answers to a command, given by its
  words; \<open>None\<close> is the null reply of a broken connection. A command without a connection and a field
  of a null reply are null pointers. What a command changes on the server is not modelled.
\<close>

datatype redisReply =
    REDIS_REPLY_STRING string
  | REDIS_REPLY_ARRAY "string list"
  | REDIS_REPLY_INTEGER int
  | REDIS_REPLY_NIL
  | REDIS_REPLY_STATUS string
  | REDIS_REPLY_ERROR string

type_synonym redis_command = "string list \<Rightarrow> redisReply option"

record hiredis =
  redisConnect :: "string \<Rightarrow> int \<Rightarrow> bool"
  redisReplyOf :: redis_command

record AdRedisCli =
  m_pGtCli :: bool
  m_sIp :: string
  m_iPort :: int
  m_sPasswd :: string

definition AdRedisCli_new :: AdRedisCli where
  "AdRedisCli_new = \<lparr>m_pGtCli = False, m_sIp = [], m_iPort = 0, m_sPasswd = []\<rparr>"

definition AdRedisCli_for :: "string \<Rightarrow> int \<Rightarrow> string \<Rightarrow> AdRedisCli" where
  "AdRedisCli_for sIp iPort password = \<lparr>m_pGtCli = False, m_sIp = sIp, m_iPort = iPort, m_sPasswd = password\<rparr>"

definition AdRedisClose :: "AdRedisCli \<Rightarrow> AdRedisCli" where
  "AdRedisClose cli = cli\<lparr>m_pGtCli := False\<rparr>"

text \<open>The connection and the authentication; the reply of \<^verbatim>\<open>AUTH\<close> is not compared with null.\<close>

definition redis_auth :: "hiredis \<Rightarrow> string \<Rightarrow> AdRedisCli \<Rightarrow> (int \<times> AdRedisCli) cxx" where
  "redis_auth srv passwd cli =
     (if \<not> redisConnect srv (c_str (m_sIp cli)) (m_iPort cli) then Inr (AD_FAILURE, AdRedisClose cli)
      else if passwd \<noteq> [] then
        (case redisReplyOf srv [''AUTH'', c_str passwd] of
           None \<Rightarrow> Inl NullPointer
         | Some (REDIS_REPLY_ERROR _) \<Rightarrow> Inr (AD_FAILURE, cli\<lparr>m_pGtCli := True\<rparr>)
         | Some _ \<Rightarrow> Inr (AD_SUCCESS, cli\<lparr>m_pGtCli := True\<rparr>))
      else Inr (AD_SUCCESS, cli\<lparr>m_pGtCli := True\<rparr>))"

definition AdRedisConnect :: "hiredis \<Rightarrow> AdRedisCli \<Rightarrow> (int \<times> AdRedisCli) cxx" where
  "AdRedisConnect srv cli = redis_auth srv (m_sPasswd cli) cli"

definition AdRedisConnect_to ::
    "hiredis \<Rightarrow> string \<Rightarrow> int \<Rightarrow> string \<Rightarrow> AdRedisCli \<Rightarrow> (int \<times> AdRedisCli) cxx" where
  "AdRedisConnect_to srv sIp iPort Passwd cli =
     redis_auth srv Passwd (cli\<lparr>m_sIp := sIp, m_iPort := iPort\<rparr>)"

definition redisCommand :: "hiredis \<Rightarrow> AdRedisCli \<Rightarrow> string list \<Rightarrow> redisReply option cxx" where
  "redisCommand srv cli args = (if m_pGtCli cli then Inr (redisReplyOf srv args) else Inl NullPointer)"

section \<open>Reading\<close>

definition AdRedisHkeys :: "hiredis \<Rightarrow> AdRedisCli \<Rightarrow> string \<Rightarrow> (int \<times> string list) cxx" where
  "AdRedisHkeys srv cli key =
     (if key = [] then Inr (AD_FAILURE, [])
      else bind_cxx (redisCommand srv cli [''HKEYS'', c_str key]) (\<lambda>reply.
        Inr (case reply of
               Some (REDIS_REPLY_ARRAY ks) \<Rightarrow> (AD_SUCCESS, map c_str ks)
             | Some REDIS_REPLY_NIL \<Rightarrow> (AD_SUCCESS, [])
             | _ \<Rightarrow> (AD_FAILURE, []))))"

text \<open>\<^verbatim>\<open>mValue[atoi(field)] = atoi(value)\<close> for the pairs of a reply; a reply of odd length ends in a read behind it.\<close>

fun hash_pairs :: "string list \<Rightarrow> (int \<times> int) list \<Rightarrow> (int \<times> int) list cxx" where
  "hash_pairs [] m = Inr m"
| "hash_pairs [f] m = Inl OutOfBounds"
| "hash_pairs (f # v # r) m = hash_pairs r (smap_upd (sint (atoi f)) (sint (atoi v)) m)"

definition AdRedisHGetAll ::
    "hiredis \<Rightarrow> AdRedisCli \<Rightarrow> string \<Rightarrow> (int \<times> int) list \<Rightarrow> (int \<times> (int \<times> int) list) cxx" where
  "AdRedisHGetAll srv cli key mValue =
     bind_cxx (redisCommand srv cli [''HGETALL'', c_str key]) (\<lambda>reply.
       case reply of
         Some (REDIS_REPLY_ARRAY es) \<Rightarrow> bind_cxx (hash_pairs es mValue) (\<lambda>m. Inr (AD_SUCCESS, m))
       | Some REDIS_REPLY_NIL \<Rightarrow> Inr (AD_SUCCESS, mValue)
       | _ \<Rightarrow> Inr (AD_FAILURE, mValue))"

text \<open>The pipelined form: the replies of the keys in turn, into the elements of \<^verbatim>\<open>vValue\<close>.\<close>

fun hgetall_replies ::
    "redis_command \<Rightarrow> string list \<Rightarrow> nat \<Rightarrow> (int \<times> int) list list \<Rightarrow> (int \<times> (int \<times> int) list list) cxx" where
  "hgetall_replies cmd [] j vValue = Inr (AD_SUCCESS, vValue)"
| "hgetall_replies cmd (k # ks) j vValue =
     (case cmd [''HGETALL'', c_str k] of
        None \<Rightarrow> Inr (AD_FAILURE, vValue)
      | Some (REDIS_REPLY_ARRAY es) \<Rightarrow>
          if es = [] then hgetall_replies cmd ks (j + 1) vValue
          else bind_cxx (vec_get vValue (int j)) (\<lambda>m.
            bind_cxx (hash_pairs es m) (\<lambda>m. hgetall_replies cmd ks (j + 1) (vValue[j := m])))
      | Some _ \<Rightarrow> hgetall_replies cmd ks (j + 1) vValue)"

definition AdRedisArrayHGetAll ::
    "hiredis \<Rightarrow> AdRedisCli \<Rightarrow> string list \<Rightarrow> (int \<times> int) list list \<Rightarrow> (int \<times> (int \<times> int) list list) cxx" where
  "AdRedisArrayHGetAll srv cli vStr vValue =
     (if vStr \<noteq> [] \<and> \<not> m_pGtCli cli then Inl NullPointer
      else hgetall_replies (redisReplyOf srv) vStr 0 vValue)"

text \<open>
  The integer of a reply and the value the variable has before: a null reply leaves it. The overloads
  store it as \<^verbatim>\<open>int\<close> (\<^verbatim>\<open>Get\<close>), \<^verbatim>\<open>unsigned int\<close> or \<^verbatim>\<open>long long\<close> (\<^verbatim>\<open>HGet\<close>); \<^verbatim>\<open>atol\<close> has 64 bits.
\<close>

definition reply_int :: "redisReply option \<Rightarrow> UINT \<Rightarrow> int \<times> UINT" where
  "reply_int reply value =
     (case reply of
        None \<Rightarrow> (AD_FAILURE, value)
      | Some (REDIS_REPLY_INTEGER i) \<Rightarrow> (AD_SUCCESS, of_int i)
      | Some (REDIS_REPLY_STRING s) \<Rightarrow> (AD_SUCCESS, atoi s)
      | Some REDIS_REPLY_NIL \<Rightarrow> (AD_SUCCESS, 0)
      | _ \<Rightarrow> (AD_FAILURE, 0))"

definition AdRedisGet :: "hiredis \<Rightarrow> AdRedisCli \<Rightarrow> string \<Rightarrow> int \<Rightarrow> (int \<times> int) cxx" where
  "AdRedisGet srv cli key value =
     bind_cxx (redisCommand srv cli [''GET'', c_str key]) (\<lambda>reply.
       let (ret, v) = reply_int reply (of_int value) in Inr (ret, sint v))"

definition AdRedisHGet_uint :: "hiredis \<Rightarrow> AdRedisCli \<Rightarrow> string \<Rightarrow> string \<Rightarrow> UINT \<Rightarrow> (int \<times> UINT) cxx" where
  "AdRedisHGet_uint srv cli key field value =
     bind_cxx (redisCommand srv cli [''HGET'', c_str key, c_str field]) (\<lambda>reply. Inr (reply_int reply value))"

definition AdRedisHGet :: "hiredis \<Rightarrow> AdRedisCli \<Rightarrow> string \<Rightarrow> string \<Rightarrow> (int \<times> string) cxx" where
  "AdRedisHGet srv cli key field =
     bind_cxx (redisCommand srv cli [''HGET'', c_str key, c_str field]) (\<lambda>reply.
       Inr (case reply of
              Some (REDIS_REPLY_STRING s) \<Rightarrow> (AD_SUCCESS, c_str s)
            | Some REDIS_REPLY_NIL \<Rightarrow> (AD_SUCCESS, [])
            | _ \<Rightarrow> (AD_FAILURE, [])))"

section \<open>Writing\<close>

text \<open>A write succeeds when there is a reply, even one that is an error.\<close>

definition redis_write :: "hiredis \<Rightarrow> AdRedisCli \<Rightarrow> string \<Rightarrow> string list \<Rightarrow> int cxx" where
  "redis_write srv cli key args =
     (if key = [] then Inr AD_FAILURE
      else bind_cxx (redisCommand srv cli args) (\<lambda>reply.
        Inr (if reply = None then AD_FAILURE else AD_SUCCESS)))"

definition AdRedisSadd :: "hiredis \<Rightarrow> AdRedisCli \<Rightarrow> string \<Rightarrow> string \<Rightarrow> int cxx" where
  "AdRedisSadd srv cli key value = redis_write srv cli key [''SADD'', c_str key, c_str value]"

definition AdRedisHIncRby :: "hiredis \<Rightarrow> AdRedisCli \<Rightarrow> string \<Rightarrow> string \<Rightarrow> UINT \<Rightarrow> int cxx" where
  "AdRedisHIncRby srv cli key field value =
     redis_write srv cli key [''HINCRBY'', c_str key, c_str field, fmt_d value]"

definition AdRedisHSet :: "hiredis \<Rightarrow> AdRedisCli \<Rightarrow> string \<Rightarrow> string \<Rightarrow> UINT \<Rightarrow> int cxx" where
  "AdRedisHSet srv cli key field value =
     redis_write srv cli key [''HSET'', c_str key, c_str field, fmt_d value]"

definition AdRedisPublish :: "hiredis \<Rightarrow> AdRedisCli \<Rightarrow> string \<Rightarrow> string \<Rightarrow> int cxx" where
  "AdRedisPublish srv cli topic message = redis_write srv cli topic [''PUBLISH'', c_str topic, c_str message]"

section \<open>Facts\<close>

lemma AdRedisConnect_cases:
  assumes "AdRedisConnect srv cli = Inr (ret, cli')"
  shows "m_sIp cli' = m_sIp cli" "m_iPort cli' = m_iPort cli" "ret = AD_SUCCESS \<Longrightarrow> m_pGtCli cli'" "ret = AD_SUCCESS \<or> ret = AD_FAILURE"
  using assms
  by (auto simp: AdRedisConnect_def redis_auth_def AdRedisClose_def
      split: if_splits option.splits redisReply.splits)

lemma redisCommand_connected [simp]: "m_pGtCli cli \<Longrightarrow> redisCommand srv cli args = Inr (redisReplyOf srv args)"
  by (simp add: redisCommand_def)

lemma AdRedisHkeys_Inr:
  "m_pGtCli cli \<Longrightarrow> \<exists>ret ks. AdRedisHkeys srv cli key = Inr (ret, ks) \<and> (ret = AD_SUCCESS \<or> ret = AD_FAILURE)"
  by (auto simp: AdRedisHkeys_def split: option.split redisReply.split)

lemma AdRedisHGet_Inr:
  "m_pGtCli cli \<Longrightarrow> \<exists>ret s. AdRedisHGet srv cli key field = Inr (ret, s) \<and> (ret = AD_SUCCESS \<or> ret = AD_FAILURE)"
  by (auto simp: AdRedisHGet_def split: option.split redisReply.split)

end
