(* ===== verification/AdRtbConfig.thy ===== *)
theory AdRtbConfig
  imports StdMap AdUtil AdCString AdPrelude "HOL-Library.List_Lexorder" "HOL-Library.Char_ord"
begin

text \<open>
  The configuration file (\<^verbatim>\<open>libutil/src/AdRtbConfig.cpp\<close>): sections of keys and values, and the
  files whose time stamps are watched. The file system (the content behind \<^verbatim>\<open>fopen\<close>, \<^verbatim>\<open>stat\<close>) and the
  address of a network interface are arguments.
\<close>

type_synonym ADCONFIG = "(string \<times> string) list"

type_synonym timespec = "int \<times> int"

record AdRtbConfig =
  m_mConfig :: "(string \<times> ADCONFIG) list"
  m_mFileTimeStamp :: "(string \<times> timespec) list"
  m_mChangedFile :: "(string \<times> UINT) list"
  m_sConfigFile :: string

definition AdRtbConfig_new :: AdRtbConfig where
  "AdRtbConfig_new = \<lparr>m_mConfig = [], m_mFileTimeStamp = [], m_mChangedFile = [], m_sConfigFile = []\<rparr>"

definition ConfigClear :: "AdRtbConfig \<Rightarrow> AdRtbConfig" where
  "ConfigClear c = c\<lparr>m_mChangedFile := [], m_mFileTimeStamp := [], m_mConfig := []\<rparr>"

section \<open>Loading\<close>

definition StrDeleteInvalid :: "string \<Rightarrow> string" where
  "StrDeleteInvalid str = filter (\<lambda>c. c \<notin> {CHR '' '', CHR 0x09, CHR 0x0A, CHR 0x0D}) str"

text \<open>\<^verbatim>\<open>m_mConfig[sSection]\<close>, which creates an empty section.\<close>

definition section_at :: "string \<Rightarrow> (string \<times> ADCONFIG) list \<Rightarrow> ADCONFIG" where
  "section_at sSection m = (case map_of m sSection of None \<Rightarrow> [] | Some s \<Rightarrow> s)"

definition config_put :: "string \<Rightarrow> string \<Rightarrow> string \<Rightarrow> (string \<times> ADCONFIG) list \<Rightarrow> (string \<times> ADCONFIG) list" where
  "config_put sSection k v m = smap_upd sSection (smap_upd k v (section_at sSection m)) m"

text \<open>One line of the file: the section so far and the content.\<close>

definition load_line ::
    "string \<Rightarrow> string \<times> (string \<times> ADCONFIG) list \<Rightarrow> (string \<times> (string \<times> ADCONFIG) list) cxx" where
  "load_line line = (\<lambda>(sSection, m).
     let sLine = StrDeleteInvalid (c_str line) in
     if sLine = [] \<or> hd sLine = CHR ''#'' then Inr (sSection, m)
     else bind_cxx (vec_get (split_fields sLine ''#'') 0) (\<lambda>sLine.
       let vStr = split_fields sLine ''='' in
       if length vStr = 1 then Inr (vStr ! 0, m)
       else if length vStr = 2 then
         Inr (sSection, if sSection \<noteq> [] then config_put sSection (vStr ! 0) (vStr ! 1) m else m)
       else Inr (sSection, m)))"

definition GetDevId :: "(string \<Rightarrow> string option) \<Rightarrow> string \<Rightarrow> int \<times> string" where
  "GetDevId get_ip sId =
     (case (case get_ip ''eth0'' of None \<Rightarrow> get_ip ''em1'' | Some sIp \<Rightarrow> Some sIp) of
        None \<Rightarrow> (AD_FAILURE, sId)
      | Some sIp \<Rightarrow>
          (let vStr = split_fields sIp ''.'' in
           if length vStr = 4 then (AD_SUCCESS, vStr ! 3) else (AD_FAILURE, sId)))"

text \<open>The loop \<^verbatim>\<open>while(fgets(line, AD_CONFIG_MAX, pFile) != NULL)\<close> cuts the content into pieces.\<close>

abbreviation AD_CONFIG_MAX :: nat where
  "AD_CONFIG_MAX \<equiv> 512"

definition fgets_line :: "string \<Rightarrow> string" where
  "fgets_line s = take (AD_CONFIG_MAX - 1)
     (takeWhile (\<lambda>c. c \<noteq> CHR 0x0A) s @ (if CHR 0x0A \<in> set s then [CHR 0x0A] else []))"

lemma fgets_line_nonempty: "s \<noteq> [] \<Longrightarrow> 0 < length (fgets_line s)"
  by (cases s) (auto simp: fgets_line_def)

function fgets_all :: "string \<Rightarrow> string list" where
  "fgets_all s = (if s = [] then []
     else let line = fgets_line s in line # fgets_all (drop (length line) s))"
  by auto
termination
  using fgets_line_nonempty by (relation "measure length") (auto intro!: diff_less)

declare fgets_all.simps [simp del]

definition Load ::
    "(string \<Rightarrow> string option) \<Rightarrow> (string \<Rightarrow> timespec option) \<Rightarrow> (string \<Rightarrow> string option) \<Rightarrow>
     string \<Rightarrow> AdRtbConfig \<Rightarrow> (int \<times> AdRtbConfig) cxx" where
  "Load fopen stat get_ip file c0 =
    (let c = (ConfigClear c0)\<lparr>m_sConfigFile := (if file \<noteq> [] then file else m_sConfigFile c0)\<rparr>;
         path = m_sConfigFile c
     in case fopen path of
          None \<Rightarrow> Inr (AD_FAILURE, c)
        | Some content \<Rightarrow>
            bind_cxx (fold_cxx load_line (fgets_all content) ([], m_mConfig c)) (\<lambda>(_, m).
              let m1 = config_put ''[CHECK]'' path path m;
                  stamps = (case stat path of None \<Rightarrow> m_mFileTimeStamp c
                            | Some t \<Rightarrow> smap_upd path t (m_mFileTimeStamp c));
                  dev = (case map_of (section_at ''[GLOBAL]'' m1) ''DEV'' of None \<Rightarrow> [] | Some s \<Rightarrow> s)
              in Inr (AD_SUCCESS, c\<lparr>m_mConfig := config_put ''[GLOBAL]'' ''DEV'' (snd (GetDevId get_ip dev)) m1,
                   m_mFileTimeStamp := stamps\<rparr>)))"

section \<open>Watched files\<close>

text \<open>\<^verbatim>\<open>m_mFileTimeStamp[k]\<close> and \<^verbatim>\<open>m_mChangedFile[k] ++\<close>.\<close>

definition stamp_at :: "string \<Rightarrow> AdRtbConfig \<Rightarrow> timespec" where
  "stamp_at k c = (case map_of (m_mFileTimeStamp c) k of None \<Rightarrow> (0, 0) | Some t \<Rightarrow> t)"

definition changed_at :: "string \<Rightarrow> AdRtbConfig \<Rightarrow> UINT" where
  "changed_at k c = (case map_of (m_mChangedFile c) k of None \<Rightarrow> 0 | Some n \<Rightarrow> n)"

definition check_file :: "(string \<Rightarrow> timespec option) \<Rightarrow> string \<times> string \<Rightarrow> AdRtbConfig \<Rightarrow> AdRtbConfig" where
  "check_file stat = (\<lambda>(k, path) c.
     case stat path of
       None \<Rightarrow> c
     | Some t \<Rightarrow>
         if stamp_at k c \<noteq> t
         then c\<lparr>m_mFileTimeStamp := smap_upd k t (m_mFileTimeStamp c),
                m_mChangedFile := smap_upd k (changed_at k c + 1) (m_mChangedFile c)\<rparr>
         else c\<lparr>m_mFileTimeStamp := smap_upd k t (m_mFileTimeStamp c)\<rparr>)"

definition Check :: "(string \<Rightarrow> timespec option) \<Rightarrow> AdRtbConfig \<Rightarrow> int \<times> AdRtbConfig" where
  "Check stat c =
    (let mCheckFile = section_at ''[CHECK]'' (m_mConfig c);
         c1 = c\<lparr>m_mChangedFile := [], m_mConfig := smap_upd ''[CHECK]'' mCheckFile (m_mConfig c)\<rparr>;
         c2 = fold (check_file stat) mCheckFile c1
     in (int_cast (int (length (m_mChangedFile c2))), c2))"

definition Get :: "string \<Rightarrow> AdRtbConfig \<Rightarrow> ADCONFIG \<times> AdRtbConfig" where
  "Get Section c =
    (section_at Section (m_mConfig c),
     c\<lparr>m_mConfig := smap_upd Section (section_at Section (m_mConfig c)) (m_mConfig c)\<rparr>)"

definition FileIsChanged :: "string \<Rightarrow> AdRtbConfig \<Rightarrow> bool" where
  "FileIsChanged sFile c =
     (if sFile = ''NULL'' then m_mChangedFile c \<noteq> [] else map_of (m_mChangedFile c) sFile \<noteq> None)"

definition AnyFileIsChanged :: "AdRtbConfig \<Rightarrow> bool" where
  "AnyFileIsChanged c \<longleftrightarrow> m_mChangedFile c \<noteq> []"


section \<open>Properties of the watched files\<close>

definition watched :: "AdRtbConfig \<Rightarrow> ADCONFIG" where
  "watched c = section_at ''[CHECK]'' (m_mConfig c)"

definition config_ok :: "AdRtbConfig \<Rightarrow> bool" where
  "config_ok c \<longleftrightarrow> smap_ok (m_mConfig c) \<and> (\<forall>(s, m) \<in> set (m_mConfig c). smap_ok m) \<and>
     smap_ok (m_mFileTimeStamp c) \<and> smap_ok (m_mChangedFile c)"

definition differs :: "(string \<Rightarrow> timespec option) \<Rightarrow> AdRtbConfig \<Rightarrow> string \<times> string \<Rightarrow> bool" where
  "differs stat c = (\<lambda>(k, path). case stat path of None \<Rightarrow> False | Some t \<Rightarrow> stamp_at k c \<noteq> t)"

lemma smap_ok_section: "config_ok c \<Longrightarrow> smap_ok (section_at s (m_mConfig c))"
  by (auto simp: config_ok_def section_at_def split: option.split dest: map_of_SomeD)

lemma config_ok_section:
  assumes "config_ok c" "smap_ok m"
  shows "config_ok (c\<lparr>m_mConfig := smap_upd s m (m_mConfig c)\<rparr>)"
  using assms set_smap_upd [of s m "m_mConfig c"] by (auto simp: config_ok_def)

lemma section_at_upd [simp]:
  "section_at s' (smap_upd s m M) = (if s' = s then m else section_at s' M)"
  by (simp add: section_at_def)

lemma check_file_simps [simp]:
  "m_mConfig (check_file stat e c) = m_mConfig c"
  "stamp_at k (check_file stat (k', p) c) =
     (if k = k' then (case stat p of None \<Rightarrow> stamp_at k c | Some t \<Rightarrow> t) else stamp_at k c)"
  by (cases e; auto simp: check_file_def stamp_at_def split: option.split)+

lemma check_file_changed:
  "fst ` set (m_mChangedFile (check_file stat e c)) =
     (if differs stat c e then insert (fst e) (fst ` set (m_mChangedFile c))
      else fst ` set (m_mChangedFile c))"
  by (cases e) (simp add: check_file_def differs_def split: option.split)

lemma config_ok_check_file: "config_ok c \<Longrightarrow> config_ok (check_file stat e c)"
  by (cases e) (auto simp: check_file_def config_ok_def split: option.split)

text \<open>The loop of \<^verbatim>\<open>Check\<close> over files with different names.\<close>

lemma check_files:
  assumes "distinct (map fst ms)" "config_ok c"
  shows "config_ok (fold (check_file stat) ms c) \<and>
    m_mConfig (fold (check_file stat) ms c) = m_mConfig c \<and>
    fst ` set (m_mChangedFile (fold (check_file stat) ms c)) =
      fst ` set (m_mChangedFile c) \<union> fst ` set (filter (differs stat c) ms) \<and>
    (\<forall>k. stamp_at k (fold (check_file stat) ms c) =
       (case map_of ms k of None \<Rightarrow> stamp_at k c
        | Some p \<Rightarrow> (case stat p of None \<Rightarrow> stamp_at k c | Some t \<Rightarrow> t)))"
  using assms
proof (induction ms arbitrary: c)
  case (Cons e ms)
  obtain k' p' where e: "e = (k', p')" by (cases e)
  let ?c = "check_file stat e c"
  have ok: "config_ok ?c" using Cons.prems by (auto intro: config_ok_check_file)
  have d: "filter (differs stat ?c) ms = filter (differs stat c) ms"
    using Cons.prems e by (intro filter_cong) (force simp: differs_def split: option.split)+
  have "map_of ms k' = None" using Cons.prems e by (simp add: map_of_eq_None_iff)
  moreover have "distinct (map fst ms)" using Cons.prems by simp
  note IH = Cons.IH [OF this ok, unfolded d]
  ultimately show ?case
    using IH unfolding e by (auto simp: check_file_changed split: option.split)
qed simp

lemma length_keys: "distinct (map fst m) \<Longrightarrow> length m = card (fst ` set m)"
  using distinct_card [of "map fst m"] by simp

lemma check_spec:
  assumes "config_ok c"
  shows "config_ok (snd (Check stat c)) \<and> watched (snd (Check stat c)) = watched c \<and>
    fst ` set (m_mChangedFile (snd (Check stat c))) = fst ` set (filter (differs stat c) (watched c)) \<and>
    fst (Check stat c) = int_cast (int (length (filter (differs stat c) (watched c)))) \<and>
    filter (differs stat (snd (Check stat c))) (watched c) = []"
proof -
  let ?ms = "watched c"
  define c1 where "c1 = c\<lparr>m_mChangedFile := [], m_mConfig := smap_upd ''[CHECK]'' ?ms (m_mConfig c)\<rparr>"
  let ?c' = "fold (check_file stat) ?ms c1"
  have ms: "smap_ok ?ms" using assms by (simp add: watched_def smap_ok_section)
  then have d: "distinct (map fst ?ms)" by (rule smap_ok_distinct)
  have ok: "config_ok c1"
    using config_ok_section [OF _ ms, of "c\<lparr>m_mChangedFile := []\<rparr>" "''[CHECK]''"] assms
    by (simp add: c1_def config_ok_def)
  note F = check_files [OF d ok, of stat]
  have e: "differs stat c1 = differs stat c" by (simp add: fun_eq_iff differs_def c1_def stamp_at_def split: option.split)
  have keys: "fst ` set (m_mChangedFile ?c') = fst ` set (filter (differs stat c) ?ms)"
    using F by (simp add: c1_def flip: e)
  have "length (m_mChangedFile ?c') = card (fst ` set (m_mChangedFile ?c'))"
    using F by (intro length_keys smap_ok_distinct) (simp add: config_ok_def)
  also have "\<dots> = length (filter (differs stat c) ?ms)"
    unfolding keys by (rule length_keys [symmetric]) (rule distinct_map_filter [OF d])
  finally have len: "length (m_mChangedFile ?c') = length (filter (differs stat c) ?ms)" .
  have "\<not> differs stat ?c' (k, p)" if "(k, p) \<in> set ?ms" for k p
    using that F d by (auto simp: differs_def split: option.split)
  then have "filter (differs stat ?c') ?ms = []" by (auto simp: filter_empty_conv)
  moreover have "watched ?c' = watched c" using F by (simp add: watched_def c1_def)
  moreover have "Check stat c = (int_cast (int (length (m_mChangedFile ?c'))), ?c')"
    by (simp add: Check_def watched_def c1_def Let_def)
  ultimately show ?thesis using keys len F by simp
qed

text \<open>
  \<^verbatim>\<open>Check\<close> returns how many watched files have a time stamp that differs from the recorded one,
  \<^verbatim>\<open>FileIsChanged\<close> then answers exactly for these, and a change is reported once: when the files
  stay as they are the next \<^verbatim>\<open>Check\<close> reports nothing. The maps stay ordered.
\<close>

theorem check_reports_changes:
  assumes "config_ok c" "length (watched c) < 2 ^ 31" "c' = snd (Check stat c)"
  shows "fst (Check stat c) = int (length (filter (differs stat c) (watched c))) \<and>
    (FileIsChanged k c' \<longleftrightarrow> (if k = ''NULL'' then list_ex (differs stat c) (watched c)
       else list_ex (\<lambda>(k', p). k' = k \<and> differs stat c (k, p)) (watched c))) \<and>
    watched c' = watched c \<and> config_ok c' \<and>
    fst (Check stat c') = 0 \<and> \<not> AnyFileIsChanged (snd (Check stat c'))"
proof -
  note S = check_spec [OF assms(1), of stat, folded assms(3)]
  then have "config_ok c'" by simp
  note S2 = check_spec [OF this, of stat]
  have "length (filter (differs stat c) (watched c)) < 2 ^ 31"
    using assms(2) length_filter_le le_less_trans by blast
  moreover have "filter D m \<noteq> [] \<longleftrightarrow> list_ex D m" for D and m :: ADCONFIG
    by (simp add: filter_empty_conv list_ex_iff)
  moreover have "m_mChangedFile c' = [] \<longleftrightarrow> filter (differs stat c) (watched c) = []"
    using S by (metis image_is_empty set_empty)
  moreover have "map_of (m_mChangedFile c') k \<noteq> None \<longleftrightarrow> k \<in> fst ` set (filter (differs stat c) (watched c))"
    using S by (simp only: map_of_eq_None_iff) simp
  moreover have "k \<in> fst ` set (filter D m) \<longleftrightarrow> list_ex (\<lambda>(k', p). k' = k \<and> D (k, p)) m"
    for D and m :: ADCONFIG by (induction m) auto
  moreover have "fst (Check stat c') = 0" "m_mChangedFile (snd (Check stat c')) = []"
    using S S2 by (simp_all add: int_cast_def)
  ultimately show ?thesis
    using S by (simp add: FileIsChanged_def AnyFileIsChanged_def int_cast_id)
qed


lemma check_reports_changes_witness:
  "fst (Check (\<lambda>p. Some (if p = ''a'' then 1 else 2, 0))
      \<lparr>m_mConfig = [(''[CHECK]'', [(''a'', ''a''), (''b'', ''b'')])],
       m_mFileTimeStamp = [(''a'', (1, 0)), (''b'', (1, 0))], m_mChangedFile = [], m_sConfigFile = ''a''\<rparr>) = 1"
  by (subst check_reports_changes [THEN conjunct1, OF _ _ refl])
    (simp_all add: config_ok_def watched_def section_at_def differs_def stamp_at_def)

section \<open>Reading a configuration back\<close>

text \<open>A name or value that survives: no space, no comment, no separator, not empty.\<close>

definition plain :: "string \<Rightarrow> bool" where
  "plain s \<longleftrightarrow> s \<noteq> [] \<and>
     (\<forall>c \<in> set s. c \<notin> {CHR '' '', CHR 0x09, CHR 0x0A, CHR 0x0D, CHR 0x00, CHR ''#'', CHR ''=''})"

definition section_lines :: "string \<times> ADCONFIG \<Rightarrow> string list" where
  "section_lines = (\<lambda>(s, kvs). (s @ [CHR 0x0A]) # map (\<lambda>(k, v). k @ ''='' @ v @ [CHR 0x0A]) kvs)"

definition conf_lines :: "(string \<times> ADCONFIG) list \<Rightarrow> string list" where
  "conf_lines conf = concat (map section_lines conf)"

definition conf_plain :: "(string \<times> ADCONFIG) list \<Rightarrow> bool" where
  "conf_plain conf \<longleftrightarrow> (\<forall>(s, kvs) \<in> set conf. plain s \<and> (\<forall>(k, v) \<in> set kvs. plain k \<and> plain v))"

definition entries :: "string \<Rightarrow> (string \<times> ADCONFIG) list \<Rightarrow> ADCONFIG" where
  "entries s conf = concat (map snd (filter (\<lambda>(s', kvs). s' = s) conf))"

lemma fields_nonempty: "s \<noteq> [] \<Longrightarrow> hd s \<noteq> c \<Longrightarrow> split_fields s [c] \<noteq> []"
proof
  assume s: "s \<noteq> []" "hd s \<noteq> c" and "split_fields s [c] = []"
  then have "concat (split_on c s) = []" by (simp add: split_fields_char filter_empty_conv)
  then have "filter (\<lambda>x. x \<noteq> c) s = []" by (simp only: concat_split_on)
  then show False using s by (cases s) simp_all
qed

text \<open>No line makes the loader read outside a vector, and the maps stay ordered.\<close>

definition sections_ok :: "(string \<times> ADCONFIG) list \<Rightarrow> bool" where
  "sections_ok m \<longleftrightarrow> smap_ok m \<and> (\<forall>(s, kvs) \<in> set m. smap_ok kvs)"

lemma sections_ok_put: "sections_ok m \<Longrightarrow> sections_ok (config_put s k v m)"
proof -
  assume m: "sections_ok m"
  then have "smap_ok (section_at s m)"
    by (auto simp: sections_ok_def section_at_def split: option.split dest: map_of_SomeD)
  with m set_smap_upd [of s "smap_upd k v (section_at s m)" m] show ?thesis
    by (auto simp: sections_ok_def config_put_def)
qed

lemma load_line_Inr:
  assumes "sections_ok m"
  shows "\<exists>sSection' m'. load_line line (sSection, m) = Inr (sSection', m') \<and> sections_ok m'"
proof -
  let ?s = "StrDeleteInvalid (c_str line)"
  show ?thesis
  proof (cases "?s = [] \<or> hd ?s = CHR ''#''")
    case False
    then have "split_fields ?s ''#'' \<noteq> []" by (simp add: fields_nonempty)
    then have "vec_get (split_fields ?s ''#'') 0 = Inr (hd (split_fields ?s ''#''))"
      by (simp add: vec_get_def hd_conv_nth)
    with False assms show ?thesis
      by (simp add: load_line_def Let_def sections_ok_put)
  qed (simp add: load_line_def assms)
qed

lemma load_lines_Inr:
  "sections_ok m \<Longrightarrow>
   \<exists>sSection' m'. fold_cxx load_line lines (sSection, m) = Inr (sSection', m') \<and> sections_ok m'"
proof (induction lines arbitrary: sSection m)
  case (Cons line lines)
  from load_line_Inr [OF Cons.prems, of line sSection] Cons.IH show ?case by force
qed simp

text \<open>
  Loading a configuration file is defined for every content: no line, however malformed, makes
  \<^verbatim>\<open>Load\<close> read behind the fields of the line. It fails exactly when the file cannot be opened, and
  leaves an ordered configuration with nothing reported as changed.
\<close>

theorem Load_safe:
  "\<exists>ret c'. Load fopen stat get_ip file c = Inr (ret, c') \<and> config_ok c' \<and> \<not> AnyFileIsChanged c' \<and>
     ret = (if fopen (if file \<noteq> [] then file else m_sConfigFile c) = None then AD_FAILURE else AD_SUCCESS)"
proof -
  let ?path = "if file \<noteq> [] then file else m_sConfigFile c"
  have ok: "config_ok c' \<longleftrightarrow> sections_ok (m_mConfig c') \<and> smap_ok (m_mFileTimeStamp c') \<and> smap_ok (m_mChangedFile c')"
    for c' by (auto simp: config_ok_def sections_ok_def)
  show ?thesis
  proof (cases "fopen ?path")
    case (Some content)
    obtain s m where "fold_cxx load_line (fgets_all content) ([], []) = Inr (s, m)" "sections_ok m"
      using load_lines_Inr [of "[]" "fgets_all content" "[]"] by (auto simp: sections_ok_def)
    with Some show ?thesis
      by (simp add: Load_def Let_def ConfigClear_def ok sections_ok_put AnyFileIsChanged_def split: option.split)
  qed (simp add: Load_def Let_def ConfigClear_def ok sections_ok_def AnyFileIsChanged_def)
qed

text \<open>The lines of a plain configuration, one by one.\<close>

lemma StrDeleteInvalid_plain [simp]: "plain s \<Longrightarrow> StrDeleteInvalid s = s"
  by (auto simp: StrDeleteInvalid_def plain_def filter_id_conv)

lemma StrDeleteInvalid_append [simp]: "StrDeleteInvalid (a @ b) = StrDeleteInvalid a @ StrDeleteInvalid b"
  by (simp add: StrDeleteInvalid_def)

lemma StrDeleteInvalid_ends [simp]:
  "StrDeleteInvalid [CHR 0x0A] = []" "StrDeleteInvalid (CHR ''='' # s) = CHR ''='' # StrDeleteInvalid s"
  by (simp_all add: StrDeleteInvalid_def)

lemma plain_char:
  assumes "plain s"
  shows "s \<noteq> []" "CHR 0x00 \<notin> set s" "CHR 0x0A \<notin> set s" "CHR ''#'' \<notin> set s" "CHR ''='' \<notin> set s"
  using assms by (auto simp: plain_def)

lemma load_plain_section:
  assumes "plain s"
  shows "load_line (s @ [CHR 0x0A]) (sec, m) = Inr (s, m)"
proof -
  note p = plain_char [OF assms]
  have "hd s \<noteq> CHR ''#''" using p by (cases s) auto
  then show ?thesis
    using p assms by (simp add: load_line_def c_str_id split_fields_char vec_get_def)
qed

lemma load_plain_pair:
  assumes "plain k" "plain v" "sec \<noteq> []"
  shows "load_line (k @ ''='' @ v @ [CHR 0x0A]) (sec, m) = Inr (sec, config_put sec k v m)"
proof -
  note p = plain_char [OF assms(1)] and q = plain_char [OF assms(2)]
  have "hd (k @ CHR ''='' # v) \<noteq> CHR ''#''" using p by (cases k) auto
  then show ?thesis
    using p q assms
    by (simp add: load_line_def c_str_id split_fields_char vec_get_def split_on_append)
qed

definition put_section :: "string \<times> ADCONFIG \<Rightarrow> (string \<times> ADCONFIG) list \<Rightarrow> (string \<times> ADCONFIG) list" where
  "put_section = (\<lambda>(s, kvs). fold (\<lambda>(k, v). config_put s k v) kvs)"

lemma load_plain_pairs:
  "(\<forall>(k, v) \<in> set kvs. plain k \<and> plain v) \<Longrightarrow> s \<noteq> [] \<Longrightarrow>
   fold_cxx load_line (map (\<lambda>(k, v). k @ ''='' @ v @ [CHR 0x0A]) kvs) (s, m) =
     Inr (s, fold (\<lambda>(k, v). config_put s k v) kvs m)"
  by (induction kvs arbitrary: m) (auto simp: load_plain_pair [simplified])

lemma load_plain_conf:
  "conf_plain conf \<Longrightarrow>
   \<exists>s'. fold_cxx load_line (conf_lines conf) (s, m) = Inr (s', fold put_section conf m)"
proof (induction conf arbitrary: s m)
  case (Cons e conf)
  obtain s' kvs where e: "e = (s', kvs)" by (cases e)
  with Cons.prems have p: "plain s'" "\<forall>(k, v) \<in> set kvs. plain k \<and> plain v" "conf_plain conf"
    by (auto simp: conf_plain_def)
  have "fold_cxx load_line (section_lines e) (s, m) = Inr (s', put_section e m)"
    using p plain_char(1) [OF p(1)]
    by (simp add: e section_lines_def put_section_def load_plain_section load_plain_pairs [simplified])
  with Cons.IH [OF p(3), of s' "put_section e m"] show ?case
    by (simp add: conf_lines_def fold_cxx_append)
qed (simp add: conf_lines_def)

lemma section_at_put [simp]:
  "section_at s' (config_put s k v m) = (if s' = s then smap_upd k v (section_at s m) else section_at s' m)"
  by (simp add: config_put_def)

lemma map_of_put_section:
  "map_of (section_at s' (put_section (s, kvs) m)) =
     (if s' = s then map_of (section_at s m) ++ map_of (rev kvs) else map_of (section_at s' m))"
proof (induction kvs arbitrary: m)
  case (Cons e kvs)
  then show ?case by (cases e) (auto simp: put_section_def map_add_def fun_eq_iff split: option.split)
qed (simp add: put_section_def)

lemma map_of_put_sections:
  "map_of (section_at s (fold put_section conf m)) = map_of (section_at s m) ++ map_of (rev (entries s conf))"
proof (induction conf arbitrary: m)
  case (Cons e conf)
  then show ?case by (cases e) (auto simp: map_of_put_section entries_def)
qed (simp add: entries_def)

text \<open>What \<^verbatim>\<open>fgets\<close> makes of lines that fit its buffer.\<close>

lemma fgets_all_lines:
  assumes "\<forall>l \<in> set lines. \<exists>l'. l = l' @ [CHR 0x0A] \<and> CHR 0x0A \<notin> set l' \<and> length l < AD_CONFIG_MAX"
  shows "fgets_all (concat lines) = lines"
  using assms
proof (induction lines)
  case (Cons l lines)
  then obtain l' where l: "l = l' @ [CHR 0x0A]" "CHR 0x0A \<notin> set l'" "length l < AD_CONFIG_MAX" by auto
  moreover have "CHR 0x0A \<notin> set a \<Longrightarrow> takeWhile (\<lambda>c. c \<noteq> CHR 0x0A) (a @ CHR 0x0A # b) = a" for a b
    by (induction a) auto
  ultimately have "fgets_line (l @ concat lines) = l" by (simp add: fgets_line_def)
  with Cons l show ?case by (subst fgets_all.simps) simp
qed (simp add: fgets_all.simps)

lemma conf_lines_nl:
  assumes "conf_plain conf" "l \<in> set (conf_lines conf)"
  shows "\<exists>l'. l = l' @ [CHR 0x0A] \<and> CHR 0x0A \<notin> set l'"
proof -
  obtain s kvs where s: "(s, kvs) \<in> set conf" "l \<in> set (section_lines (s, kvs))"
    using assms(2) by (auto simp: conf_lines_def)
  with assms(1) have p: "plain s" "\<And>k v. (k, v) \<in> set kvs \<Longrightarrow> plain k \<and> plain v"
    by (auto simp: conf_plain_def)
  from s consider "l = s @ [CHR 0x0A]"
    | k v where "(k, v) \<in> set kvs" "l = (k @ ''='' @ v) @ [CHR 0x0A]"
    by (auto simp: section_lines_def)
  then show ?thesis
  proof cases
    case 1
    with plain_char [OF p(1)] show ?thesis by blast
  next
    case (2 k v)
    with p(2) [OF 2(1)] have "CHR 0x0A \<notin> set (k @ ''='' @ v)" by (auto dest: plain_char(3))
    with 2 show ?thesis by blast
  qed
qed

text \<open>
  C33. A configuration whose names and values are plain and whose lines fit the line buffer is read back
  by \<^verbatim>\<open>Load\<close> as it was written: every key of every section finds the last value given for it. (\<^verbatim>\<open>[CHECK]\<close> and
  \<^verbatim>\<open>[GLOBAL]\<close> get entries of their own.)
\<close>

theorem Load_roundtrip:
  assumes "conf_plain conf" "\<forall>l \<in> set (conf_lines conf). length l < AD_CONFIG_MAX"
    and "file \<noteq> []" "fopen file = Some (concat (conf_lines conf))" "s \<notin> {''[CHECK]'', ''[GLOBAL]''}"
  shows "\<exists>c'. Load fopen stat get_ip file c = Inr (AD_SUCCESS, c') \<and>
    map_of (fst (Get s c')) k = map_of (rev (entries s conf)) k \<and>
    map_of (fst (Get ''[CHECK]'' c')) file = Some file"
proof -
  have "\<exists>l'. l = l' @ [CHR 0x0A] \<and> CHR 0x0A \<notin> set l'" if "l \<in> set (conf_lines conf)" for l
    by (rule conf_lines_nl [OF assms(1) that])
  then have lines: "fgets_all (concat (conf_lines conf)) = conf_lines conf"
    using assms(2) by (intro fgets_all_lines) blast
  obtain s' where "fold_cxx load_line (conf_lines conf) ([], []) = Inr (s', fold put_section conf [])"
    using load_plain_conf [OF assms(1)] by blast
  with assms lines show ?thesis
    by (simp add: Load_def Let_def ConfigClear_def Get_def map_of_put_sections) (simp add: section_at_def)
qed

lemma Load_roundtrip_witness:
  "\<exists>c'. Load (\<lambda>_. Some (''[NODE]'' @ [CHR 0x0A] @ ''DPORT=80'' @ [CHR 0x0A])) (\<lambda>_. None) (\<lambda>_. None) ''f''
     AdRtbConfig_new = Inr (AD_SUCCESS, c') \<and> map_of (fst (Get ''[NODE]'' c')) ''DPORT'' = Some ''80''"
proof -
  have "conf_plain [(''[NODE]'', [(''DPORT'', ''80'')])]" by (simp add: conf_plain_def plain_def)
  from Load_roundtrip [OF this, of "''f''" "\<lambda>_. Some (''[NODE]'' @ [CHR 0x0A] @ ''DPORT=80'' @ [CHR 0x0A])"
      "''[NODE]''" "\<lambda>_. None" "\<lambda>_. None" AdRtbConfig_new "''DPORT''"]
  show ?thesis by (auto simp: conf_lines_def section_lines_def entries_def)
qed

end
