(* ===== verification/AdPlanningData.thy ===== *)
theory AdPlanningData
  imports AdPlanningUnit JsonValue AdUtil AdBuff AdRedisCli AdRtbConfig
begin

text \<open>
  The loader of planning units (\<^verbatim>\<open>ibidding/engine/src/AdPlanningData.cpp\<close>): how a unit is read from its
  JSON text, the two maps of units in a ping-pong buffer, and the updates from Redis. The JSON reader,
  the Redis server, the clock and the conversion of a date to seconds are arguments. The units of the maps and
  what their pointers \<^verbatim>\<open>m_pltBanPidList\<close> and \<^verbatim>\<open>m_pAdvancedPrice\<close> point to are values, those that they had when
  the pointers were set. In the code they are gone once their owner is cleared, so the values stand for the objects only as
  long as no one else has kept a pointer: \<^verbatim>\<open>clear(mMap)\<close> in \<^verbatim>\<open>DataUpdate\<close> deletes the units of the back map, which
  the filters still use when the filters of the update before were not switched; \<^verbatim>\<open>DataUpdateAdvancedFilterResult\<close> starts by
  clearing \<^verbatim>\<open>m_mBanPidList\<close>, whose lists the units of the front map point to, also when it then fails; and
  \<^verbatim>\<open>DataUpdateAdvancedPriceData\<close> starts by clearing the back map of the prices, to which units that are not in
  the front map may still point. \<open>AdRtbEngineUpdates\<close> says after which updates the pointers of the units in use are good.
\<close>

unbundle bit_operations_syntax

abbreviation AD_BYTE64 :: nat where "AD_BYTE64 \<equiv> 64"
abbreviation AD_BYTE128 :: nat where "AD_BYTE128 \<equiv> 128"

section \<open>Reading a unit\<close>

text \<open>\<^verbatim>\<open>x = v[key].asInt()\<close> and \<^verbatim>\<open>x = v[key].asString()\<close>, and the same for the elements of an array.\<close>

definition json_int :: "Json \<Rightarrow> string \<Rightarrow> UINT cxx" where
  "json_int v key = bind_cxx (json_get v key) json_asInt"

definition json_str :: "Json \<Rightarrow> string \<Rightarrow> string cxx" where
  "json_str v key = bind_cxx (json_get v key) json_asString"

definition json_each :: "(Json \<Rightarrow> 'a cxx) \<Rightarrow> Json \<Rightarrow> string \<Rightarrow> 'a list \<Rightarrow> 'a list cxx" where
  "json_each conv v key xs =
     bind_cxx (json_get v key) (\<lambda>a. json_for a (\<lambda>x xs. bind_cxx (conv x) (\<lambda>y. Inr (xs @ [y]))) xs)"

abbreviation json_ints :: "Json \<Rightarrow> string \<Rightarrow> UINT list \<Rightarrow> UINT list cxx" where
  "json_ints \<equiv> json_each json_asInt"

abbreviation json_strs :: "Json \<Rightarrow> string \<Rightarrow> string list \<Rightarrow> string list cxx" where
  "json_strs \<equiv> json_each json_asString"

text \<open>An optional member: \<^verbatim>\<open>if( true == v.isMember(key) )\<close> with a conversion of \<^verbatim>\<open>v\<close> at \<^verbatim>\<open>key\<close>.\<close>

definition json_opt :: "Json \<Rightarrow> string \<Rightarrow> (Json \<Rightarrow> string \<Rightarrow> 'a cxx) \<Rightarrow> ('a \<Rightarrow> 's \<Rightarrow> 's) \<Rightarrow> 's \<Rightarrow> 's cxx" where
  "json_opt v key read put s =
     bind_cxx (json_isMember v key) (\<lambda>b.
       if b then bind_cxx (read v key) (\<lambda>x. Inr (put x s)) else Inr s)"

definition json_dbl :: "Json \<Rightarrow> string \<Rightarrow> DOUBLE cxx" where
  "json_dbl v key = bind_cxx (json_get v key) json_asDouble"

definition parse_order :: "Json \<Rightarrow> AdOrderInfo \<Rightarrow> AdOrderInfo cxx" where
  "parse_order v or0 =
     bind_cxx (json_int v ''advertiser'') (\<lambda>adv.
     bind_cxx (json_int v ''execid'') (\<lambda>ex.
     bind_cxx (json_int v ''target_price'') (\<lambda>tp.
     bind_cxx (json_int v ''target_price_type'') (\<lambda>tpt.
     bind_cxx (json_opt v ''limit_price'' json_int (\<lambda>x od. od\<lparr>m_uiLimitePrice := x\<rparr>)
       (or0\<lparr>m_uiNice := AD_ORDER_BASE, m_uiAdvertiser := adv, m_uiExecuteId := ex,
          m_uiTargetPrice := tp, m_uiTargetPriceType := tpt\<rparr>)) (\<lambda>od.
     bind_cxx (json_int v ''hour_share'') (\<lambda>hs.
     bind_cxx (json_opt v ''screen'' (\<lambda>v k. json_ints v k (m_ltAdViewScreen od)) (\<lambda>x od. od\<lparr>m_ltAdViewScreen := x\<rparr>)
       (od\<lparr>m_uiBidmode := hs\<rparr>)) (\<lambda>od.
     bind_cxx (json_opt v ''space_type'' (\<lambda>v k. json_ints v k (m_ltAdViewType od)) (\<lambda>x od. od\<lparr>m_ltAdViewType := x\<rparr>) od) (\<lambda>od.
     bind_cxx (json_opt v ''ord_ctl'' json_int (\<lambda>x od. od\<lparr>m_uiTimeType := x\<rparr>) od) (\<lambda>od.
     bind_cxx (json_opt v ''ord_freq'' json_int (\<lambda>x od. od\<lparr>m_uiFrequency := x\<rparr>) od) (\<lambda>od.
     bind_cxx (json_opt v ''advertiser_tb'' json_str (\<lambda>x od. od\<lparr>m_sTanxAdId := x\<rparr>) od) (\<lambda>od.
     bind_cxx (json_opt v ''ctr_min'' json_dbl (\<lambda>x od. od\<lparr>m_dMinCtr := x\<rparr>) od) (\<lambda>od.
     json_opt v ''ctr_type'' json_int (\<lambda>x od. od\<lparr>m_uiCtrType := x\<rparr>) od))))))))))))"

definition parse_pid :: "Json \<Rightarrow> AdPidInfo list \<Rightarrow> AdPidInfo list cxx" where
  "parse_pid v infos =
     bind_cxx (json_str v ''adx_id'') (\<lambda>adx.
     bind_cxx (json_int v ''select_type'') (\<lambda>mode.
     bind_cxx (if mode = AD_PID_MODE_FIXED \<or> mode = AD_PID_MODE_OTHER then json_strs v ''spid'' [] else Inr [])
       (\<lambda>pids. Inr (infos @ [\<lparr>m_uiAdxId = atoi adx, m_uiMode = mode, m_ltPidList = pids\<rparr>]))))"

text \<open>One day of the week: element \<open>n\<close> of the array of seven, and the bits of its hours.\<close>

definition hour_bit :: "UINT \<Rightarrow> UINT cxx" where
  "hour_bit h = (if unat h < 32 then Inr (push_bit (unat h) 1) else Inl BadShift)"

definition day_set :: "nat \<Rightarrow> (AdTimeDay \<Rightarrow> AdTimeDay) \<Rightarrow> AdTime \<Rightarrow> AdTime cxx" where
  "day_set n f t =
     bind_cxx (vec_get (m_stDay t) (int n)) (\<lambda>d. Inr (t\<lparr>m_stDay := (m_stDay t)[n := f d]\<rparr>))"

definition parse_day :: "Json \<Rightarrow> nat \<times> AdTime \<Rightarrow> (nat \<times> AdTime) cxx" where
  "parse_day v = (\<lambda>(n, t).
     bind_cxx (json_int v ''weekday'') (\<lambda>w.
     bind_cxx (day_set n (\<lambda>d. d\<lparr>m_uiWeek := w\<rparr>) t) (\<lambda>t.
     bind_cxx (json_int v ''budget'') (\<lambda>b.
     bind_cxx (day_set n (\<lambda>d. d\<lparr>m_uiBudget := b\<rparr>) t) (\<lambda>t.
     bind_cxx (json_get v ''hour'') (\<lambda>hs.
     bind_cxx (json_for hs (\<lambda>x t.
         bind_cxx (json_asInt x) (\<lambda>h. bind_cxx (hour_bit h) (\<lambda>b.
           day_set n (\<lambda>d. d\<lparr>m_uiHour := m_uiHour d OR b\<rparr>) t))) (t\<lparr>bPush := True\<rparr>)) (\<lambda>t.
     Inr (n + 1, t))))))))"

definition DataParseTime :: "Json \<Rightarrow> AdTime \<Rightarrow> AdTime cxx" where
  "DataParseTime value t =
     bind_cxx (json_get value ''range'') (\<lambda>v.
     bind_cxx (json_str v ''start'') (\<lambda>st.
     bind_cxx (json_str v ''end'') (\<lambda>en.
     bind_cxx (json_get v ''week'') (\<lambda>week.
     bind_cxx (json_for week parse_day (0, t\<lparr>bPush := False, m_sStart := st, m_sStop := en\<rparr>)) (\<lambda>(_, t).
     Inr t)))))"

definition parse_marks :: "Json \<Rightarrow> string \<Rightarrow> UINT \<Rightarrow> AdMarkNode list \<Rightarrow> AdMarkNode list cxx" where
  "parse_marks value key type ltMark =
     json_when value key (\<lambda>a. json_for a (\<lambda>x l.
       bind_cxx (json_asString x) (\<lambda>s. Inr (l @ [\<lparr>m_mk_uiType = type, m_sKey = s\<rparr>])))) ltMark"

definition DataParseMark :: "Json \<Rightarrow> AdMarkNode list \<Rightarrow> AdMarkNode list cxx" where
  "DataParseMark value ltMark =
     bind_cxx (parse_marks value ''mark'' AD_MARK_PUBLIC ltMark) (\<lambda>l.
     bind_cxx (parse_marks value ''acc_cus_keyword'' AD_KEYS_ACC_CUS l) (\<lambda>l.
     bind_cxx (parse_marks value ''dim_cus_keyword'' AD_KEYS_DIM_CUS l) (\<lambda>l.
     parse_marks value ''private_mark'' AD_MARK_PRIVATE l)))"

text \<open>
  The audiences. An element without \<^verbatim>\<open>tag_datas\<close> is left by \<^verbatim>\<open>continue\<close>, and what it has set
  stays in the node of the next one.
\<close>

definition audience_data :: "Json \<Rightarrow> UINT \<Rightarrow> Json \<Rightarrow> AdAudienceNode \<Rightarrow> AdAudienceNode cxx" where
  "audience_data v uiTime x a =
     bind_cxx (json_int v ''visit_type'') (\<lambda>vt.
       if sint vt = AD_AUDIENCE_UNVISIT then
         bind_cxx (json_asString x) (\<lambda>s. Inr (a\<lparr>m_mUnVisit := smap_upd s uiTime (m_mUnVisit a)\<rparr>))
       else if sint vt = AD_AUDIENCE_VISIT then
         bind_cxx (json_asString x) (\<lambda>s. Inr (a\<lparr>m_mVisit := smap_upd s uiTime (m_mVisit a)\<rparr>))
       else if sint vt = AD_AUDIENCE_SEARCH then
         bind_cxx (json_asString x) (\<lambda>s. Inr (a\<lparr>m_mSearch := smap_upd s uiTime (m_mSearch a)\<rparr>))
       else Inr a)"

definition audience_tag :: "Json \<Rightarrow> AdAudienceNode \<Rightarrow> AdAudienceNode cxx" where
  "audience_tag v a =
     bind_cxx (json_isMember v ''datas'') (\<lambda>b.
       if \<not> b then Inr a
       else bind_cxx (json_int v ''date_limit'') (\<lambda>t.
         let uiTime = (if t = 0 then 30 else t) in
         bind_cxx (json_get v ''datas'') (\<lambda>ds. json_for ds (audience_data v uiTime) a)))"

definition audience_mark ::
    "Json \<Rightarrow> AdAudienceNode list \<times> AdAudienceNode \<Rightarrow> (AdAudienceNode list \<times> AdAudienceNode) cxx" where
  "audience_mark v = (\<lambda>(ltAudi, a).
     bind_cxx (json_opt v ''mark_id'' json_str (\<lambda>x a. a\<lparr>m_sAudienceID := x\<rparr>) a) (\<lambda>a.
     bind_cxx (json_opt v ''merge_type'' json_int (\<lambda>x a. a\<lparr>m_au_uiType := x\<rparr>) a) (\<lambda>a.
     bind_cxx (json_isMember v ''tag_datas'') (\<lambda>b.
       if \<not> b then Inr (ltAudi, a)
       else bind_cxx (json_get v ''tag_datas'') (\<lambda>tags.
         bind_cxx (json_for tags audience_tag a) (\<lambda>a. Inr (ltAudi @ [a], clear_audience)))))))"

definition DataParseAudience :: "Json \<Rightarrow> AdAudienceNode list \<Rightarrow> AdAudienceNode list cxx" where
  "DataParseAudience value ltAudi =
     json_when value ''marks'' (\<lambda>ms l.
       bind_cxx (json_for ms audience_mark (l, clear_audience)) (\<lambda>(l, _). Inr l)) ltAudi"

text \<open>The creatives by exchange, with their materials.\<close>

definition parse_material :: "Json \<Rightarrow> AdMaterialInfo cxx" where
  "parse_material v =
     bind_cxx (json_opt v ''cid'' json_int (\<lambda>x m. m\<lparr>m_sCreateId := snprintf AD_BYTE64 (fmt_d x)\<rparr>) clear_material) (\<lambda>m.
     bind_cxx (json_str v ''mid'') (\<lambda>mid.
     bind_cxx (json_str v ''uuid'') (\<lambda>uuid.
     bind_cxx (json_int v ''format'') (\<lambda>format.
     bind_cxx (json_int v ''creative_type'') (\<lambda>ct.
     bind_cxx (json_int v ''width'') (\<lambda>w.
     bind_cxx (json_int v ''height'') (\<lambda>h.
     bind_cxx (json_opt v ''duration'' json_int (\<lambda>x m. m\<lparr>m_uiVideoTime := x\<rparr>)
       (m\<lparr>m_sMaterialId := mid, m_sUuId := uuid, m_uiFormat := format, m_uiCreativeType := ct,
          m_uiWidth := w, m_uiHeight := h\<rparr>)) (\<lambda>m.
     bind_cxx (json_opt v ''click_through_url'' json_str (\<lambda>x m. m\<lparr>m_sClickUrl := x\<rparr>) m) (\<lambda>m.
     bind_cxx (json_opt v ''destination_url'' json_str (\<lambda>x m. m\<lparr>m_sDestinationUrl := x\<rparr>) m) (\<lambda>m.
     bind_cxx (json_opt v ''material_url'' json_str (\<lambda>x m. m\<lparr>m_sMaterialUrl := x\<rparr>) m) (\<lambda>m.
     bind_cxx (json_opt v ''material_url_mraid'' json_str (\<lambda>x m. m\<lparr>m_sMraidMaterialUrl := x\<rparr>) m) (\<lambda>m.
     bind_cxx (json_opt v ''ad_type'' json_str (\<lambda>x m. m\<lparr>m_sCategory := x\<rparr>) m) (\<lambda>m.
     json_opt v ''monitor_url'' (\<lambda>v k. json_strs v k (m_ltMonitorUrl m)) (\<lambda>x m. m\<lparr>m_ltMonitorUrl := x\<rparr>) m)))))))))))))"

definition creative_at :: "UINT \<Rightarrow> (UINT \<times> AdCreativeInfo) list \<Rightarrow> AdCreativeInfo" where
  "creative_at adx m = (case map_of m adx of None \<Rightarrow> clear_creative | Some c \<Rightarrow> c)"

definition parse_creative ::
    "Json \<Rightarrow> (UINT \<times> AdCreativeInfo) list \<Rightarrow> (UINT \<times> AdCreativeInfo) list cxx" where
  "parse_creative v pMap =
     bind_cxx (json_str v ''adx_id'') (\<lambda>adx.
     let uiAdx = atoi adx; c = creative_at uiAdx pMap in
     bind_cxx (json_str v ''gid'') (\<lambda>gid.
     bind_cxx (json_get v ''material'') (\<lambda>ms.
     bind_cxx (json_for ms (\<lambda>x l. bind_cxx (parse_material x) (\<lambda>m. Inr (l @ [m]))) (m_ltMaterials c)) (\<lambda>l.
     Inr (smap_upd uiAdx (c\<lparr>m_sCreativeGroupId := gid, m_sAdxId := adx, m_ltMaterials := l\<rparr>) pMap)))))"

definition DataParseCreate ::
    "Json \<Rightarrow> (UINT \<times> AdCreativeInfo) list \<Rightarrow> (UINT \<times> AdCreativeInfo) list cxx" where
  "DataParseCreate value pMap =
     bind_cxx (json_get value ''create'') (\<lambda>cs. json_for cs parse_creative pMap)"

text \<open>The targeting of mobile devices, and the platform.\<close>

definition parse_device :: "Json \<Rightarrow> AdMobileInfo \<Rightarrow> AdMobileInfo cxx" where
  "parse_device v m =
     bind_cxx (json_opt v ''operator'' (\<lambda>v k. json_ints v k (m_ltOperator m)) (\<lambda>x m. m\<lparr>m_ltOperator := x\<rparr>) m) (\<lambda>m.
     bind_cxx (json_opt v ''dev'' (\<lambda>v k. json_ints v k (m_ltDeviceType m)) (\<lambda>x m. m\<lparr>m_ltDeviceType := x\<rparr>) m) (\<lambda>m.
     bind_cxx (json_opt v ''webcon'' (\<lambda>v k. json_ints v k (m_ltConnectType m)) (\<lambda>x m. m\<lparr>m_ltConnectType := x\<rparr>) m) (\<lambda>m.
     json_opt v ''ua'' (\<lambda>v k. json_ints v k (m_ltUserAgentType m)) (\<lambda>x m. m\<lparr>m_ltUserAgentType := x\<rparr>) m)))"

definition parse_platform :: "Json \<Rightarrow> AdMobileInfo \<Rightarrow> AdMobileInfo cxx" where
  "parse_platform value m =
     bind_cxx (json_isMember value ''patform'') (\<lambda>b.
       if b then
         bind_cxx (json_str value ''patform'') (\<lambda>s.
           Inr (if atoi s = 1 then m\<lparr>m_bEnable := False\<rparr>
                else if atoi s = 2 then m\<lparr>m_bEnable := True\<rparr> else m))
       else Inr (m\<lparr>m_bEnable := False\<rparr>))"

text \<open>\<open>DataParse\<close>: the unit and the value returned. Every text that is not a document fails.\<close>

definition present :: "bool \<Rightarrow> int \<Rightarrow> int" where
  "present b iReturn = (if b then iReturn else AD_FAILURE)"

definition parse_unit :: "Json \<Rightarrow> AdPlanningUnit \<Rightarrow> (int \<times> AdPlanningUnit) cxx" where
  "parse_unit value u =
     bind_cxx (json_isMember value ''order'') (\<lambda>has_order.
     bind_cxx (json_when value ''order'' parse_order (m_stOrder u)) (\<lambda>order.
     bind_cxx (json_isMember value ''pid'') (\<lambda>has_pid.
     bind_cxx (json_when value ''pid'' (\<lambda>v. json_for v parse_pid) (m_ltPidInfo u)) (\<lambda>pids.
     bind_cxx (json_isMember value ''range'') (\<lambda>has_range.
     bind_cxx (if has_range then DataParseTime value (m_stTime u) else Inr (m_stTime u)) (\<lambda>time.
     bind_cxx (json_isMember value ''area'') (\<lambda>has_area.
     bind_cxx (if has_area then json_strs value ''area'' (m_ltArea (m_stTargetAudience u))
               else Inr (m_ltArea (m_stTargetAudience u))) (\<lambda>area.
     bind_cxx (json_when value ''marks'' (\<lambda>v nice. Inr (if json_size v > 0 then AD_ORDER_AUDIENCE else nice))
       (m_uiNice order)) (\<lambda>nice.
     bind_cxx (DataParseAudience value (m_ltAudience u)) (\<lambda>audi.
     bind_cxx (DataParseMark value (m_ltKeyWord u)) (\<lambda>marks.
     bind_cxx (json_when value ''device'' parse_device (m_stMobile u)) (\<lambda>mobile.
     bind_cxx (parse_platform value mobile) (\<lambda>mobile.
     bind_cxx (json_isMember value ''create'') (\<lambda>has_create.
     bind_cxx (if has_create then DataParseCreate value (m_mCreativeInfo u) else Inr (m_mCreativeInfo u)) (\<lambda>creates.
     bind_cxx (json_isMember value ''ban_list'') (\<lambda>b.
     bind_cxx (if b then json_ints value ''ban_list'' (m_ltBanId order) else Inr (m_ltBanId order)) (\<lambda>ban.
     bind_cxx (json_opt value ''timestamp'' json_str (\<lambda>s _. atoi s) (m_uiTimeStamp order)) (\<lambda>stamp.
     Inr (present (has_order \<and> has_pid \<and> has_range \<and> has_area \<and> has_create) AD_SUCCESS,
       u\<lparr>m_stOrder := order\<lparr>m_uiNice := (if marks \<noteq> [] then AD_ORDER_NICE
                                      else if audi \<noteq> [] then AD_ORDER_AUDIENCE else nice),
                      m_ltBanId := ban, m_uiTimeStamp := stamp\<rparr>,
          m_ltPidInfo := pids, m_stTime := time, m_stTargetAudience := \<lparr>m_ltArea = area\<rparr>,
          m_ltAudience := audi, m_ltKeyWord := marks, m_stMobile := mobile,
          m_mCreativeInfo := creates\<rparr>)))))))))))))))))))"

definition DataParse :: "json_reader \<Rightarrow> string \<Rightarrow> AdPlanningUnit \<Rightarrow> (int \<times> AdPlanningUnit) cxx" where
  "DataParse parse sJson u =
     (case parse (c_str sJson) of None \<Rightarrow> Inr (AD_FAILURE, u) | Some value \<Rightarrow> parse_unit value u)"

text \<open>
  Whether an order runs today. \<open>tm_secs\<close> gives what \<^verbatim>\<open>mktime\<close> returns after \<^verbatim>\<open>strptime\<close> has read the given
  texts, one after the other, into the same \<^verbatim>\<open>tm_time\<close>.
\<close>

abbreviation AD_DAYTIME :: nat where "AD_DAYTIME \<equiv> 32"

definition DataJsonCheck :: "json_reader \<Rightarrow> int \<Rightarrow> (string list \<Rightarrow> int) \<Rightarrow> string \<Rightarrow> int cxx" where
  "DataJsonCheck parse ulTime tm_secs stBuf =
     (if c_str stBuf = [] then Inr AD_SUCCESS
      else case parse (c_str stBuf) of
        None \<Rightarrow> Inr AD_SUCCESS
      | Some value \<Rightarrow>
          bind_cxx (json_isMember value ''range'') (\<lambda>b.
            if \<not> b then Inr AD_SUCCESS
            else bind_cxx (json_get value ''range'') (\<lambda>subvalue.
              bind_cxx (json_str subvalue ''start'') (\<lambda>start.
                let szStar = snprintf AD_DAYTIME (start @ '' 00:00:00'') in
                if ulTime > tm_secs [szStar] then
                  bind_cxx (json_str subvalue ''end'') (\<lambda>stop.
                    if stop = [] then Inr AD_SUCCESS
                    else
                      (let szEnd = snprintf AD_DAYTIME (stop @ '' 23:59:59'') in
                       Inr (if ulTime > tm_secs [szStar, szEnd] then AD_FAILURE else AD_SUCCESS)))
                else Inr AD_FAILURE))))"

section \<open>The maps of units\<close>

type_synonym unit_map = "(UINT \<times> AdPlanningUnit) list"

type_synonym advanced_map = "(UINT \<times> (string \<times> AdAdvancedPrice) list) list"

record AdPlanningData =
  m_cli :: AdRedisCli
  m_mData :: "unit_map AdPingPongBuffer"
  m_iLastTimeStamp :: int
  m_mBanPidList :: "(UINT \<times> string list) list"
  m_mAdvancePrice :: "advanced_map AdPingPongBuffer"

definition AdPlanningData_new :: AdPlanningData where
  "AdPlanningData_new = \<lparr>m_cli = AdRedisCli_new, m_mData = pp_new [], m_iLastTimeStamp = 0,
     m_mBanPidList = [], m_mAdvancePrice = pp_new []\<rparr>"

text \<open>What the environment of an update gives: the server, the reader of JSON, the time and the dates.\<close>

record planning_env =
  pe_redis :: hiredis
  pe_json :: json_reader
  pe_now :: int
  pe_date :: "string list \<Rightarrow> int"

definition AdPlanningDataInit :: "ADCONFIG \<Rightarrow> AdPlanningData \<Rightarrow> AdPlanningData" where
  "AdPlanningDataInit config d =
     (case map_of config ''REDIS'' of
        None \<Rightarrow> d
      | Some server \<Rightarrow>
          (let vStr = split_fields server '':'' in
           if length vStr = 2
           then d\<lparr>m_cli := (m_cli d)\<lparr>m_sIp := vStr ! 0, m_iPort := sint (atoi (vStr ! 1))\<rparr>\<rparr> else d))"

definition DataGetCache :: "AdPlanningData \<Rightarrow> unit_map" where
  "DataGetCache d = pp_Get False (m_mData d)"

definition DataSearch :: "UINT \<Rightarrow> AdPlanningData \<Rightarrow> AdPlanningUnit option" where
  "DataSearch iEid d = map_of (DataGetCache d) iEid"

definition DataPush :: "planning_env \<Rightarrow> string \<Rightarrow> unit_map \<Rightarrow> (int \<times> unit_map) cxx" where
  "DataPush env sJson mMap =
     bind_cxx (DataJsonCheck (pe_json env) (pe_now env) (pe_date env) sJson) (\<lambda>iReturn.
       if iReturn \<noteq> AD_SUCCESS then Inr (AD_SUCCESS, mMap)
       else bind_cxx (DataParse (pe_json env) sJson clear_unit) (\<lambda>(r, u).
         if r = AD_SUCCESS then Inr (AD_SUCCESS, smap_upd (eid u) u mMap) else Inr (AD_FAILURE, mMap)))"

text \<open>\<^verbatim>\<open>for\<close> over the keys of \<^verbatim>\<open>exec:raw\<close>; the first failure ends it.\<close>

fun push_all :: "planning_env \<Rightarrow> AdRedisCli \<Rightarrow> string list \<Rightarrow> unit_map \<Rightarrow> (int \<times> unit_map) cxx" where
  "push_all env cli [] m = Inr (AD_SUCCESS, m)"
| "push_all env cli (k # ks) m =
     bind_cxx (AdRedisHGet (pe_redis env) cli ''exec:raw'' k) (\<lambda>(ret, sValue).
       if ret \<noteq> AD_SUCCESS then Inr (ret, m)
       else bind_cxx (DataPush env sValue m) (\<lambda>(ret, m).
         if ret \<noteq> AD_SUCCESS then Inr (ret, m) else push_all env cli ks m))"

section \<open>Ban lists\<close>

definition ban_entry :: "Json \<Rightarrow> string list \<Rightarrow> string list cxx" where
  "ban_entry v content =
     bind_cxx (json_isMember v ''adx_id'') (\<lambda>b.
       if \<not> b then Inr content
       else bind_cxx (json_str v ''adx_id'') (\<lambda>sAdx.
         json_when v ''spid'' (\<lambda>ps. json_for ps (\<lambda>x c. bind_cxx (json_asString x) (\<lambda>sPid.
           Inr (c @ [snprintf AD_BYTE128 (sAdx @ ''_'' @ sPid)])))) content))"

fun ban_content :: "planning_env \<Rightarrow> AdRedisCli \<Rightarrow> UINT list \<Rightarrow> string list \<Rightarrow> (int \<times> string list) cxx" where
  "ban_content env cli [] content = Inr (AD_SUCCESS, content)"
| "ban_content env cli (b # bs) content =
     bind_cxx (AdRedisHGet (pe_redis env) cli ''adv:ban'' (fmt_d b)) (\<lambda>(ret, sValue).
       if ret \<noteq> AD_SUCCESS then Inr (ret, content)
       else if sValue = [] then ban_content env cli bs content
       else case pe_json env sValue of
         None \<Rightarrow> Inr (AD_FAILURE, content)
       | Some value \<Rightarrow> bind_cxx (json_for value ban_entry content) (ban_content env cli bs))"

fun DataUpdateBanList :: "planning_env \<Rightarrow> AdRedisCli \<Rightarrow> unit_map \<Rightarrow> (int \<times> unit_map) cxx" where
  "DataUpdateBanList env cli [] = Inr (AD_SUCCESS, [])"
| "DataUpdateBanList env cli ((k, u) # m) =
     bind_cxx (ban_content env cli (m_ltBanId (m_stOrder u)) (m_ltBanContent (m_stOrder u))) (\<lambda>(ret, content).
       let u' = u\<lparr>m_stOrder := (m_stOrder u)\<lparr>m_ltBanContent := content\<rparr>\<rparr> in
       if ret \<noteq> AD_SUCCESS then Inr (ret, (k, u') # m)
       else bind_cxx (DataUpdateBanList env cli m) (\<lambda>(ret, m). Inr (ret, (k, u') # m)))"

section \<open>Update from Redis\<close>

text \<open>The members announced for today, in order, up to the first failure.\<close>

definition today_member :: "AdPlanningUnit \<Rightarrow> string" where
  "today_member u =
     snprintf AD_BYTE128 (fmt_d (eid u) @ ''+'' @ fmt_d (m_uiAdvertiser (m_stOrder u)))"

fun announce_all :: "hiredis \<Rightarrow> AdRedisCli \<Rightarrow> unit_map \<Rightarrow> int cxx" where
  "announce_all srv cli [] = Inr AD_SUCCESS"
| "announce_all srv cli ((k, u) # m) =
     bind_cxx (AdRedisSadd srv cli ''exec:today'' (today_member u)) (\<lambda>ret.
       if ret \<noteq> AD_SUCCESS then Inr ret else announce_all srv cli m)"

definition DataUpdateForSystem :: "planning_env \<Rightarrow> AdPlanningData \<Rightarrow> (int \<times> AdPlanningData) cxx" where
  "DataUpdateForSystem env d =
     (let mMap = pp_Get True (m_mData d) in
      if mMap = [] then Inr (AD_FAILURE, d)
      else bind_cxx (AdRedisConnect (pe_redis env) (m_cli d)) (\<lambda>(ret, cli).
        bind_cxx (if ret \<noteq> AD_SUCCESS then Inr ret else announce_all (pe_redis env) cli mMap) (\<lambda>ret.
          Inr (ret, d\<lparr>m_cli := AdRedisClose cli\<rparr>))))"

text \<open>The part of \<open>DataUpdate\<close> up to the label \<^verbatim>\<open>RETURN\<close>: the result, the time stamp read and the state.\<close>

definition data_load :: "planning_env \<Rightarrow> AdPlanningData \<Rightarrow> (int \<times> int \<times> AdPlanningData) cxx" where
  "data_load env d =
     bind_cxx (AdRedisGet (pe_redis env) (m_cli d) ''exec:timestamp'' 0) (\<lambda>(ret, iTimeStamp).
       if ret \<noteq> AD_SUCCESS then Inr (ret, iTimeStamp, d)
       else if iTimeStamp = m_iLastTimeStamp d then Inr (ret, iTimeStamp, d)
       else bind_cxx (AdRedisHkeys (pe_redis env) (m_cli d) ''exec:raw'') (\<lambda>(ret, lKeys).
         if ret \<noteq> AD_SUCCESS then Inr (ret, iTimeStamp, d)
         else bind_cxx (push_all env (m_cli d) lKeys []) (\<lambda>(ret, mMap).
           if ret \<noteq> AD_SUCCESS then Inr (ret, iTimeStamp, d\<lparr>m_mData := pp_set True (\<lambda>_. mMap) (m_mData d)\<rparr>)
           else bind_cxx (DataUpdateBanList env (m_cli d) mMap) (\<lambda>(ret, mMap).
             Inr (ret, iTimeStamp, d\<lparr>m_mData := pp_set True (\<lambda>_. mMap) (m_mData d)\<rparr>)))))"

definition DataUpdate :: "planning_env \<Rightarrow> AdPlanningData \<Rightarrow> (int \<times> UINT \<times> AdPlanningData) cxx" where
  "DataUpdate env d =
     bind_cxx (AdRedisConnect (pe_redis env) (m_cli d)) (\<lambda>(ret, cli).
       if ret \<noteq> AD_SUCCESS then Inr (ret, 0, d\<lparr>m_cli := cli\<rparr>)
       else bind_cxx (data_load env (d\<lparr>m_cli := cli\<rparr>)) (\<lambda>(ret, iTimeStamp, d).
         let d = d\<lparr>m_cli := AdRedisClose (m_cli d)\<rparr> in
         if ret = AD_SUCCESS \<and> iTimeStamp \<noteq> m_iLastTimeStamp d
         then bind_cxx (DataUpdateForSystem env d) (\<lambda>(ret, d).
           Inr (ret, of_nat (length (pp_Get True (m_mData d))),
             d\<lparr>m_iLastTimeStamp := iTimeStamp, m_mData := pp_Switch (m_mData d)\<rparr>))
         else Inr (ret, 0, d)))"

section \<open>Advanced filter results and prices\<close>

text \<open>
  The loop sets the pointer of each unit to the list of its order, which \<^verbatim>\<open>m_mBanPidList\<close> keeps. The key of
  the unit in the map is its order (\<open>units_keyed\<close> below).
\<close>

definition senior_key :: "UINT \<Rightarrow> string" where
  "senior_key e = snprintf AD_BYTE128 (''exec:senior:filter:pid:'' @ fmt_d e)"

fun ban_pids ::
    "hiredis \<Rightarrow> AdRedisCli \<Rightarrow> unit_map \<Rightarrow> (UINT \<times> string list) list \<Rightarrow>
     (int \<times> unit_map \<times> (UINT \<times> string list) list) cxx" where
  "ban_pids srv cli [] bans = Inr (AD_SUCCESS, [], bans)"
| "ban_pids srv cli ((k, u) # m) bans =
     bind_cxx (AdRedisHkeys srv cli (senior_key (eid u))) (\<lambda>(ret, pidlist).
       let bans = smap_upd (eid u) pidlist bans in
       if ret \<noteq> AD_SUCCESS then Inr (ret, (k, u) # m, bans)
       else bind_cxx (ban_pids srv cli m bans) (\<lambda>(ret, m, bans).
         Inr (ret, (k, u\<lparr>m_pltBanPidList := Some pidlist\<rparr>) # m, bans)))"

definition DataUpdateAdvancedFilterResult :: "planning_env \<Rightarrow> AdPlanningData \<Rightarrow> (int \<times> AdPlanningData) cxx" where
  "DataUpdateAdvancedFilterResult env d0 =
     (let d = d0\<lparr>m_mBanPidList := []\<rparr>; mMap = pp_Get False (m_mData d) in
      if mMap = [] then Inr (AD_FAILURE, d)
      else bind_cxx (AdRedisConnect (pe_redis env) (m_cli d)) (\<lambda>(ret, cli).
        if ret \<noteq> AD_SUCCESS then Inr (ret, d\<lparr>m_cli := AdRedisClose cli\<rparr>)
        else bind_cxx (ban_pids (pe_redis env) cli mMap []) (\<lambda>(ret, m, bans).
          Inr (ret, d\<lparr>m_cli := AdRedisClose cli, m_mData := pp_set False (\<lambda>_. m) (m_mData d),
            m_mBanPidList := bans\<rparr>))))"

text \<open>Prices: \<^verbatim>\<open>epv\<close> times 1000 is an \<^verbatim>\<open>int\<close>. An entry that is stored makes the map of its order.\<close>

definition mul_int :: "int \<Rightarrow> int \<Rightarrow> int cxx" where
  "mul_int a b = (if - (2 ^ 31) \<le> a * b \<and> a * b < 2 ^ 31 then Inr (a * b) else Inl SignedOverflow)"

definition prices_at :: "UINT \<Rightarrow> advanced_map \<Rightarrow> (string \<times> AdAdvancedPrice) list" where
  "prices_at e m = (case map_of m e of None \<Rightarrow> [] | Some ps \<Rightarrow> ps)"

definition advanced_entry :: "UINT \<Rightarrow> Json \<Rightarrow> advanced_map \<Rightarrow> advanced_map cxx" where
  "advanced_entry uiEid v m =
     bind_cxx (json_str v ''adx_id'') (\<lambda>adx.
     bind_cxx (json_str v ''type'') (\<lambda>type.
     bind_cxx (json_int v ''epv'') (\<lambda>epv.
     bind_cxx (mul_int (sint epv) 1000) (\<lambda>iEpv.
     bind_cxx (json_int v ''eprice'') (\<lambda>eprice.
     bind_cxx (json_str v ''spid'') (\<lambda>spid.
     Inr (smap_upd uiEid (smap_upd spid
       \<lparr>m_sPID = spid, m_iType = sint (atoi type), m_iAdxId = sint (atoi adx), m_iEpv = iEpv,
        m_iEprice = sint eprice, m_iExecId = sint uiEid\<rparr> (prices_at uiEid m)) m)))))))"

definition DataParseAdvancedPriceData ::
    "json_reader \<Rightarrow> string \<Rightarrow> UINT \<Rightarrow> advanced_map \<Rightarrow> (int \<times> advanced_map) cxx" where
  "DataParseAdvancedPriceData parse sData uiEid m =
     (case parse (c_str sData) of
        None \<Rightarrow> Inr (AD_FAILURE, m)
      | Some value \<Rightarrow> bind_cxx (json_for value (advanced_entry uiEid) m) (\<lambda>m. Inr (AD_SUCCESS, m)))"

text \<open>A text that is no document is skipped.\<close>

fun advanced_all :: "planning_env \<Rightarrow> AdRedisCli \<Rightarrow> string list \<Rightarrow> advanced_map \<Rightarrow> (int \<times> advanced_map) cxx" where
  "advanced_all env cli [] m = Inr (AD_SUCCESS, m)"
| "advanced_all env cli (k # ks) m =
     bind_cxx (AdRedisHGet (pe_redis env) cli ''exec:senior'' k) (\<lambda>(ret, sData).
       if ret \<noteq> AD_SUCCESS then Inr (ret, m)
       else bind_cxx (DataParseAdvancedPriceData (pe_json env) sData (atoi k) m) (\<lambda>(_, m).
         advanced_all env cli ks m))"

definition point_prices :: "advanced_map \<Rightarrow> unit_map \<Rightarrow> unit_map" where
  "point_prices m = map (\<lambda>(k, u). (k, u\<lparr>m_pAdvancedPrice := map_of m (eid u)\<rparr>))"

text \<open>The prices read over an open connection, and the units with their pointers.\<close>

definition advanced_load :: "planning_env \<Rightarrow> AdRedisCli \<Rightarrow> unit_map \<Rightarrow> (int \<times> advanced_map \<times> unit_map) cxx" where
  "advanced_load env cli mData =
     bind_cxx (AdRedisHkeys (pe_redis env) cli ''exec:senior'') (\<lambda>(ret, lKeys).
       if ret \<noteq> AD_SUCCESS then Inr (ret, [], mData)
       else bind_cxx (advanced_all env cli lKeys []) (\<lambda>(ret, m).
         Inr (ret, m, if ret \<noteq> AD_SUCCESS then mData else point_prices m mData)))"

text \<open>The back map is cleared at the start and the buffer is switched on every exit.\<close>

definition DataUpdateAdvancedPriceData :: "planning_env \<Rightarrow> AdPlanningData \<Rightarrow> (int \<times> AdPlanningData) cxx" where
  "DataUpdateAdvancedPriceData env d =
     bind_cxx (AdRedisConnect (pe_redis env) (m_cli d)) (\<lambda>(ret, cli).
     bind_cxx (if ret \<noteq> AD_SUCCESS then Inr (ret, [], DataGetCache d)
               else advanced_load env cli (DataGetCache d)) (\<lambda>(ret, m, mData).
     Inr (ret, d\<lparr>m_cli := AdRedisClose cli, m_mData := pp_set False (\<lambda>_. mData) (m_mData d),
       m_mAdvancePrice := pp_Switch (pp_set True (\<lambda>_. m) (m_mAdvancePrice d))\<rparr>)))"

end
