(* ===== verification/AdRtbDealRank.thy ===== *)
theory AdRtbDealRank
  imports AdCtrModel AdFilterBase AdPlanningData
begin

text \<open>
  The choice of the unit and of its price (\<^verbatim>\<open>ibidding/engine/src/AdRtbDealRank.cpp\<close>,
  \<^verbatim>\<open>AdRtbCtr.cpp\<close>). What depends on floating point and on the clock is an argument: the share of a
  position as the \<^verbatim>\<open>int\<close> it is converted to, \<^verbatim>\<open>atof\<close>, and the first values of \<^verbatim>\<open>rand\<close> after the two
  \<^verbatim>\<open>srand((UINT)time(NULL))\<close> of a choice, which are the same for all choices of a second.
\<close>

record AdUnitPrice =
  pPlaningData :: AdPlanningUnit
  uiEid :: UINT
  uiPriceType :: UINT
  uiEidType :: UINT
  uiPrice :: UINT

abbreviation AD_VIP_PRICE :: UINT where "AD_VIP_PRICE \<equiv> 5000"

record rank_env =
  re_fpu :: fpu
  re_product :: "DOUBLE \<Rightarrow> UINT \<Rightarrow> DOUBLE"
  re_atof :: "string \<Rightarrow> DOUBLE"
  re_share :: "DOUBLE \<Rightarrow> nat \<Rightarrow> int"
  re_rand :: nat
  re_rand2 :: nat

section \<open>The table of click rates\<close>

record AdRtbCtrData =
  m_vCtrInfo :: "string list"
  m_fCtrVal :: DOUBLE
  m_uiClick :: UINT

type_synonym AdRtbCtr = "(string \<times> AdRtbCtrData) list"

text \<open>\<^verbatim>\<open>vStr\<close> is empty when its size is tested, so the end of the line stays in the last field.\<close>

definition AdRtbCtrParse :: "string \<Rightarrow> string list" where
  "AdRtbCtrParse sStr = split_fields sStr [CHR 0x09]"

definition ctr_line :: "rank_env \<Rightarrow> string \<Rightarrow> AdRtbCtr \<Rightarrow> AdRtbCtr" where
  "ctr_line env line m =
     (let v = AdRtbCtrParse (c_str line) in
      if 5 \<le> length v
      then smap_upd (v ! 0) \<lparr>m_vCtrInfo = v, m_fCtrVal = re_atof env (v ! 4), m_uiClick = atoi (v ! 3)\<rparr> m
      else m)"

definition AdRtbCtrInit :: "rank_env \<Rightarrow> string option \<Rightarrow> AdRtbCtr \<Rightarrow> int \<times> AdRtbCtr" where
  "AdRtbCtrInit env pFile m =
     (case pFile of
        None \<Rightarrow> (AD_FAILURE, m)
      | Some content \<Rightarrow> (AD_SUCCESS, fold (ctr_line env) (fgets_all content) []))"

definition AdRtbCtrSearch :: "string \<Rightarrow> AdRtbCtr \<Rightarrow> AdRtbCtrData option" where
  "AdRtbCtrSearch key m = map_of m key"

section \<open>State\<close>

text \<open>The model in use is one of the two objects, or none.\<close>

datatype ctr_slot = NoModel | ModelA | ModelB

record AdRtbDealRank =
  m_fWeight :: DOUBLE
  m_sCtrModelFile :: string
  m_ctCtrModel :: ctr_slot
  m_ctCtrModelA :: "Classifier option"
  m_ctCtrModelB :: "Classifier option"
  m_ctCtr :: "AdRtbCtr AdPingPongBuffer"
  m_sCtrFile :: string
  m_mDefaultCtr :: "(UINT \<times> DOUBLE) list AdPingPongBuffer"

text \<open>The constructor leaves the weight as it was in memory.\<close>

definition AdRtbDealRank_new :: "DOUBLE \<Rightarrow> AdRtbDealRank" where
  "AdRtbDealRank_new garbage = \<lparr>m_fWeight = garbage, m_sCtrModelFile = [], m_ctCtrModel = NoModel, m_ctCtrModelA = None,
     m_ctCtrModelB = None, m_ctCtr = pp_new [], m_sCtrFile = [], m_mDefaultCtr = pp_new []\<rparr>"

definition current_model :: "AdRtbDealRank \<Rightarrow> Classifier option" where
  "current_model r = (case m_ctCtrModel r of NoModel \<Rightarrow> None | ModelA \<Rightarrow> m_ctCtrModelA r | ModelB \<Rightarrow> m_ctCtrModelB r)"

definition AdRtbDealRankCtrInit :: "rank_env \<Rightarrow> string option \<Rightarrow> AdRtbDealRank \<Rightarrow> int \<times> AdRtbDealRank" where
  "AdRtbDealRankCtrInit env pFile r =
     (let (ret, m) = AdRtbCtrInit env pFile (pp_Get True (m_ctCtr r)); b = pp_set True (\<lambda>_. m) (m_ctCtr r) in
      if ret \<noteq> AD_SUCCESS then (ret, r\<lparr>m_ctCtr := b\<rparr>) else (AD_SUCCESS, r\<lparr>m_ctCtr := pp_Switch b\<rparr>))"

definition AdRtbDealRankCtrSearch :: "string \<Rightarrow> AdRtbDealRank \<Rightarrow> AdRtbCtrData option" where
  "AdRtbDealRankCtrSearch sKey r = AdRtbCtrSearch sKey (pp_Get False (m_ctCtr r))"

definition AdRtbCtrCompute :: "rank_env \<Rightarrow> AdRtbRequest \<Rightarrow> AdPlanningUnit \<Rightarrow> AdRtbDealRank \<Rightarrow> UINT \<Rightarrow> (int \<times> UINT) cxx" where
  "AdRtbCtrCompute env pRequest pUnit r price =
     (case (case AdRtbDealRankCtrSearch (m_sPId pRequest) r of
              Some adCtr \<Rightarrow> Some (m_fCtrVal adCtr)
            | None \<Rightarrow> map_of (pp_Get False (m_mDefaultCtr r)) (m_uiAdx pRequest)) of
        None \<Rightarrow> Inr (AD_FAILURE, price)
      | Some val \<Rightarrow>
          bind_cxx (uint_of_double (re_product env val (m_uiTargetPrice (m_stOrder pUnit)))) (\<lambda>p. Inr (AD_SUCCESS, p)))"

text \<open>The new model goes into the object that is not in use.\<close>

definition AdRtbDealRankCtrModelInit ::
    "ll_model option \<Rightarrow> string option \<Rightarrow> AdRtbDealRank \<Rightarrow> int \<times> AdRtbDealRank" where
  "AdRtbDealRankCtrModelInit load_model fdict r =
     (let toA = (case m_ctCtrModel r of
            ModelA \<Rightarrow> False | ModelB \<Rightarrow> True | NoModel \<Rightarrow> m_ctCtrModelA r \<noteq> None \<or> m_ctCtrModelB r = None);
          (ok, cl) = Classifier_init load_model fdict;
          r1 = (if toA then r\<lparr>m_ctCtrModelA := Some cl\<rparr> else r\<lparr>m_ctCtrModelB := Some cl\<rparr>)
      in if \<not> ok then (AD_FAILURE, r1)
         else (AD_SUCCESS, r1\<lparr>m_ctCtrModel := (if toA then ModelA else ModelB)\<rparr>))"

text \<open>The files behind the configuration: the click rates, and the model with its dictionary.\<close>

record rank_files =
  rf_ctr :: "string \<Rightarrow> string option"
  rf_model :: "string \<Rightarrow> ll_model option"
  rf_fdict :: "string \<Rightarrow> string option"

definition config_at :: "ADCONFIG \<Rightarrow> string \<Rightarrow> string" where
  "config_at c k = (case map_of c k of None \<Rightarrow> [] | Some v \<Rightarrow> v)"

text \<open>\<^verbatim>\<open>Get\<close> and \<^verbatim>\<open>operator[]\<close> add empty sections and keys to the configuration; no other code tells them from absent ones.\<close>

definition AdRtbDealRankInit :: "rank_env \<Rightarrow> rank_files \<Rightarrow> AdRtbConfig \<Rightarrow> AdRtbDealRank \<Rightarrow> int \<times> AdRtbDealRank" where
  "AdRtbDealRankInit env files ctConfig r0 =
     (let Config = fst (Get ''[CONFIG]'' ctConfig);
          global = fst (Get ''[GLOBAL]'' ctConfig);
          ctrConfig = fst (Get ''[DEFAULTCTR]'' ctConfig);
          defaults = fold (\<lambda>(k, v). smap_upd (atoi k) (re_atof env v)) ctrConfig [];
          r = r0\<lparr>m_fWeight := re_atof env (config_at global ''WEIGHT''),
                 m_sCtrModelFile := config_at Config ''CTRM'', m_sCtrFile := config_at Config ''CTRS'',
                 m_mDefaultCtr := pp_Switch (pp_set True (\<lambda>_. defaults) (m_mDefaultCtr r0))\<rparr>;
          (ret, r) = (if FileIsChanged ''CTRM'' ctConfig
             then AdRtbDealRankCtrModelInit (rf_model files (m_sCtrModelFile r)) (rf_fdict files (m_sCtrModelFile r)) r
             else (AD_SUCCESS, r))
      in if ret \<noteq> AD_SUCCESS then (AD_FAILURE, r)
         else
           (let (ret, r) = AdRtbDealRankCtrInit env (rf_ctr files (m_sCtrFile r)) r
            in if ret \<noteq> AD_SUCCESS then (AD_FAILURE, r) else (AD_SUCCESS, r)))"

section \<open>The weighted choice\<close>

text \<open>\<^verbatim>\<open>for(j = lo; j < hi; j ++) choice[j] = i;\<close> on the array of one hundred.\<close>

function fill_choice :: "int \<Rightarrow> int \<Rightarrow> nat \<Rightarrow> nat list \<Rightarrow> nat list cxx" where
  "fill_choice j hi i choice =
     (if j < hi then bind_cxx (vec_set choice j i) (fill_choice (j + 1) hi i) else Inr choice)"
  by auto
termination
  by (relation "measure (\<lambda>(j, hi, i, choice). nat (hi - j))") auto

declare fill_choice.simps [simp del]

fun choice_table :: "(nat \<Rightarrow> int) \<Rightarrow> nat list \<Rightarrow> nat \<Rightarrow> int \<Rightarrow> nat list \<Rightarrow> nat list cxx" where
  "choice_table share [] num tmptol choice = Inr choice"
| "choice_table share (i # is) num tmptol choice =
     (if i < num - 1 then
        bind_cxx (add_int (share i) tmptol) (\<lambda>hi.
        bind_cxx (fill_choice tmptol hi i choice) (choice_table share is num hi))
      else bind_cxx (fill_choice tmptol 100 i choice) (choice_table share is num tmptol))"

definition AdRtbRandWet :: "(nat \<Rightarrow> int) \<Rightarrow> nat \<Rightarrow> nat \<Rightarrow> nat cxx" where
  "AdRtbRandWet share rnd rCount =
     (if rCount = 1 then Inr 0
      else bind_cxx (choice_table share [0..<rCount] rCount 0 (replicate 100 0)) (\<lambda>choice.
        let ranum = rnd mod 100 in
        if ranum < 100 then vec_get choice (int ranum) else Inr 0))"

section \<open>The price and the choice\<close>

definition AdRtbCtrModel ::
    "rank_env \<Rightarrow> AdRtbDealRank \<Rightarrow> AdRtbRequest \<Rightarrow> AdPlanningUnit \<Rightarrow> AdFilterMarkInfo list \<Rightarrow> UINT \<Rightarrow> UINT cxx" where
  "AdRtbCtrModel env r pRequest pUnit stMark price =
     (case current_model r of
        None \<Rightarrow> Inr price
      | Some cl \<Rightarrow> AdRtbEngCtrGet (re_fpu env) cl pRequest pUnit
          (case stMark of [] \<Rightarrow> None | m # _ \<Rightarrow> Some (m_sMark m)))"

definition AdRtbAdvanceStrategy :: "AdRtbRequest \<Rightarrow> AdPlanningUnit \<Rightarrow> UINT option" where
  "AdRtbAdvanceStrategy pRequest pUnit =
     (case m_pAdvancedPrice pUnit of
        None \<Rightarrow> None
      | Some ps \<Rightarrow> map_option (\<lambda>p. of_int (m_iEprice p)) (map_of ps (m_sPId pRequest)))"

definition unit_price :: "rank_env \<Rightarrow> AdRtbDealRank \<Rightarrow> AdRtbRequest \<Rightarrow> AdPlanningUnit \<times> AdRtbFilterResult \<Rightarrow> UINT cxx" where
  "unit_price env r pRequest = (\<lambda>(u, res).
     case AdRtbAdvanceStrategy pRequest u of
       Some p \<Rightarrow> Inr p
     | None \<Rightarrow>
         let od = m_stOrder u in
         if m_uiTargetPriceType od = AD_ORDER_CPM then Inr (m_uiTargetPrice od)
         else if m_uiTargetPriceType od = AD_ORDER_CPC then AdRtbCtrModel env r pRequest u (m_ltMarkInfo res) 0
         else Inr 0)"

definition ad_unit_price :: "AdPlanningUnit \<Rightarrow> UINT \<Rightarrow> AdUnitPrice" where
  "ad_unit_price u price = \<lparr>pPlaningData = u, uiEid = eid u, uiPriceType = m_uiTargetPriceType (m_stOrder u),
     uiEidType = 0, uiPrice = price\<rparr>"

text \<open>Youku and Miaozhen videos are sold at any price.\<close>

definition any_price :: "AdRtbRequest \<Rightarrow> bool" where
  "any_price pRequest \<longleftrightarrow> atoi (m_sFlow pRequest) = AD_PROTOCOL_FLOW_VIDEO \<and>
     (m_uiAdx pRequest = AD_PROTOCOL_KEY_ADX_YUKU \<or> m_uiAdx pRequest = AD_PROTOCOL_KEY_ADX_MIAOZHEN)"

text \<open>The loop over the result: a VIP user ends it with the unit, else the candidates are collected.\<close>

type_synonym match_result = "(UINT \<times> AdPlanningUnit \<times> AdRtbFilterResult) list"

fun rank_loop ::
    "rank_env \<Rightarrow> AdRtbDealRank \<Rightarrow> AdRtbRequest \<Rightarrow> match_result \<Rightarrow> AdUnitPrice list \<Rightarrow> (AdUnitPrice + AdUnitPrice list) cxx" where
  "rank_loop env r pRequest [] rankVec = Inr (Inr rankVec)"
| "rank_loop env r pRequest ((_, u, res) # mResult) rankVec =
     (if m_bVip res then Inr (Inl (ad_unit_price u AD_VIP_PRICE))
      else bind_cxx (unit_price env r pRequest (u, res)) (\<lambda>price.
        rank_loop env r pRequest mResult
          (if price > 0 \<and> price > atoi (m_sMinPrice pRequest) \<or> any_price pRequest
           then rankVec @ [ad_unit_price u price] else rankVec)))"

text \<open>The map of prices in descending order: the keys are the negated prices, read as \<^verbatim>\<open>int\<close>.\<close>

definition price_groups :: "AdUnitPrice list \<Rightarrow> (int \<times> AdUnitPrice list) list" where
  "price_groups rankVec =
     fold (\<lambda>p m. let k = - sint (uiPrice p) in
       smap_upd k ((case map_of m k of None \<Rightarrow> [] | Some v \<Rightarrow> v) @ [p]) m) rankVec []"

text \<open>A price group that is not found would leave the result uninitialised.\<close>

definition AdRtbRankStrategy :: "rank_env \<Rightarrow> AdRtbDealRank \<Rightarrow> AdUnitPrice list \<Rightarrow> AdUnitPrice option cxx" where
  "AdRtbRankStrategy env r rankVec =
     (let share = re_share env (m_fWeight r); n = length rankVec in
      if n = 0 then Inr None
      else if n = 1 then Inr (Some (rankVec ! 0))
      else if n \<le> 3 then
        bind_cxx (AdRtbRandWet share (re_rand env) n) (\<lambda>i. bind_cxx (vec_get rankVec (int i)) (\<lambda>p. Inr (Some p)))
      else
        (let m = price_groups rankVec; iSize = (if length m \<ge> 3 then 3 else length m) in
         if iSize > 0 then
           bind_cxx (AdRtbRandWet share (re_rand env) iSize) (\<lambda>index.
             if index < length m then
               (let vect = snd (m ! index) in
                bind_cxx (vec_get vect (int (re_rand2 env mod length vect))) (\<lambda>p. Inr (Some p)))
             else Inl NullPointer)
         else Inr None))"

definition AdRtbRankChoice ::
    "rank_env \<Rightarrow> AdRtbDealRank \<Rightarrow> AdRtbRequest \<Rightarrow> match_result \<Rightarrow> AdUnitPrice option cxx" where
  "AdRtbRankChoice env r pRequest mResult =
     bind_cxx (rank_loop env r pRequest mResult []) (\<lambda>x.
       case x of Inl vip \<Rightarrow> Inr (Some vip) | Inr rankVec \<Rightarrow> AdRtbRankStrategy env r rankVec)"

section \<open>The weights\<close>

lemma fill_choice_in:
  assumes "0 \<le> j" "j \<le> hi" "hi \<le> int (length choice)"
  shows "fill_choice j hi i choice = Inr (take (nat j) choice @ replicate (nat (hi - j)) i @ drop (nat hi) choice)"
  using assms
proof (induction j hi i choice rule: fill_choice.induct)
  case (1 j hi i choice)
  show ?case
  proof (cases "j < hi")
    case True
    with 1 have v: "vec_set choice j i = Inr (choice[nat j := i])" by (simp add: vec_set_def)
    have n: "nat (j + 1) = Suc (nat j)" "nat (hi - j) = Suc (nat (hi - (j + 1)))" using True 1 by auto
    have "take (Suc (nat j)) (choice[nat j := i]) = take (nat j) choice @ [i]"
      using True 1 by (simp add: take_Suc_conv_app_nth)
    moreover have "drop (nat hi) (choice[nat j := i]) = drop (nat hi) choice" using True 1 by simp
    ultimately show ?thesis
      using 1(1) [OF True, of "choice[nat j := i]"] 1(2-) True v n by (subst fill_choice.simps) simp
  next
    case False
    with 1 show ?thesis by (subst fill_choice.simps) simp
  qed
qed

lemma fill_choice_out:
  "0 \<le> j \<Longrightarrow> j \<le> int (length choice) \<Longrightarrow> int (length choice) < hi \<Longrightarrow> fill_choice j hi i choice = Inl OutOfBounds"
proof (induction j hi i choice rule: fill_choice.induct)
  case (1 j hi i choice)
  then show ?case by (cases "j = int (length choice)"; subst fill_choice.simps) (auto simp: vec_set_def)
qed

lemma fill_choice_inv:
  "fill_choice j hi i choice = Inr choice' \<Longrightarrow> set choice' \<subseteq> insert i (set choice) \<and> length choice' = length choice"
proof (induction j hi i choice rule: fill_choice.induct)
  case (1 j hi i choice)
  show ?case
  proof (cases "j < hi")
    case True
    with 1(2) obtain c1 where c1: "vec_set choice j i = Inr c1" "fill_choice (j + 1) hi i c1 = Inr choice'"
      by (subst (asm) fill_choice.simps) (auto simp: bind_cxx_Inr_iff)
    moreover from c1(1) have "set c1 \<subseteq> insert i (set choice)" "length c1 = length choice"
      by (auto simp: vec_set_def split: if_splits dest: subsetD [OF set_update_subset_insert])
    ultimately show ?thesis using 1(1) [OF True c1(2)] by auto
  next
    case False
    with 1(2) show ?thesis by (subst (asm) fill_choice.simps) auto
  qed
qed

lemma choice_table_inv:
  "choice_table share is num tmptol choice = Inr choice' \<Longrightarrow>
   set choice' \<subseteq> set is \<union> set choice \<and> length choice' = length choice"
  by (induction share "is" num tmptol choice rule: choice_table.induct)
    (auto simp: bind_cxx_Inr_iff split: if_splits dest!: fill_choice_inv)

lemma AdRtbRandWet_less: "AdRtbRandWet share rnd n = Inr k \<Longrightarrow> 0 < n \<Longrightarrow> k < n"
proof -
  assume a: "AdRtbRandWet share rnd n = Inr k" and n: "0 < n"
  show ?thesis
  proof (cases "n = 1")
    case False
    with a obtain choice where c: "choice_table share [0..<n] n 0 (replicate 100 0) = Inr choice"
      "vec_get choice (int (rnd mod 100)) = Inr k"
      by (auto simp: AdRtbRandWet_def bind_cxx_Inr_iff Let_def)
    from c(2) have "k \<in> set choice" by (auto simp: vec_get_def split: if_splits)
    with choice_table_inv [OF c(1)] n show ?thesis by auto
  qed (use a in \<open>simp add: AdRtbRandWet_def\<close>)
qed

lemma upt_23: "[0..<2] = [0, Suc 0]" "[0..<3] = [0, Suc 0, 2]"
  by (simp_all add: numeral_2_eq_2 numeral_3_eq_3)

lemma AdRtbRandWet_3:
  assumes "0 \<le> share 0" "0 \<le> share 1" "share 0 + share 1 \<le> 100"
  shows "AdRtbRandWet share rnd 3 =
    Inr (if int (rnd mod 100) < share 0 then 0 else if int (rnd mod 100) < share 0 + share 1 then 1 else 2)"
proof -
  obtain a b where ab: "share 0 = int a" "share 1 = int b" using assms by (metis zero_le_imp_eq_int)
  define m where "m = rnd mod 100"
  have m: "m < 100" by (simp add: m_def)
  have "choice_table share [0..<3] 3 0 (replicate 100 0) =
      Inr (replicate a 0 @ replicate b 1 @ replicate (100 - a - b) 2)"
  proof -
    have "nat (int b + int a) = a + b" "nat (100 - (int b + int a)) = 100 - a - b" by simp_all
    then show ?thesis using assms ab by (simp add: upt_23 add_int_def fill_choice_in)
  qed
  then show ?thesis
    using assms ab m
    by (simp add: AdRtbRandWet_def vec_get_def nth_append flip: m_def) (auto simp flip: of_nat_add)
qed

lemma AdRtbRandWet_2:
  assumes "0 \<le> share 0" "share 0 \<le> 100"
  shows "AdRtbRandWet share rnd 2 = Inr (if int (rnd mod 100) < share 0 then 0 else 1)"
proof -
  obtain a where a: "share 0 = int a" using assms by (metis zero_le_imp_eq_int)
  define m where "m = rnd mod 100"
  have m: "m < 100" by (simp add: m_def)
  have "choice_table share [0..<2] 2 0 (replicate 100 0) = Inr (replicate a 0 @ replicate (100 - a) 1)"
    using assms a by (simp add: upt_23 add_int_def fill_choice_in)
  then show ?thesis
    using assms a m by (simp add: AdRtbRandWet_def vec_get_def nth_append flip: m_def)
qed

lemma AdRtbRandWet_over:
  assumes "100 < share 0" "share 0 < 2 ^ 31" "1 < n"
  shows "AdRtbRandWet share rnd n = Inl OutOfBounds"
proof -
  have "[0..<n] = 0 # [1..<n]" using assms(3) by (simp add: upt_conv_Cons)
  then show ?thesis using assms by (simp add: AdRtbRandWet_def add_int_def fill_choice_out)
qed

section \<open>The candidates\<close>

text \<open>The units that may be chosen when there is no VIP user, with their prices.\<close>

definition sellable :: "AdRtbRequest \<Rightarrow> UINT \<Rightarrow> bool" where
  "sellable pRequest price \<longleftrightarrow> price > 0 \<and> price > atoi (m_sMinPrice pRequest) \<or> any_price pRequest"

fun candidates :: "rank_env \<Rightarrow> AdRtbDealRank \<Rightarrow> AdRtbRequest \<Rightarrow> match_result \<Rightarrow> AdUnitPrice list cxx" where
  "candidates env r pRequest [] = Inr []"
| "candidates env r pRequest ((_, u, res) # mResult) =
     bind_cxx (unit_price env r pRequest (u, res)) (\<lambda>price.
     bind_cxx (candidates env r pRequest mResult) (\<lambda>cs.
       Inr (if sellable pRequest price then ad_unit_price u price # cs else cs)))"

lemma rank_loop_no_vip:
  assumes "\<forall>(_, _, res) \<in> set mResult. \<not> m_bVip res"
  shows "rank_loop env r pRequest mResult vec = bind_cxx (candidates env r pRequest mResult) (\<lambda>cs. Inr (Inr (vec @ cs)))"
  using assms
proof (induction mResult arbitrary: vec)
  case (Cons e m)
  obtain k u res where e: "e = (k, u, res)" by (cases e)
  with Cons have IH: "rank_loop env r pRequest m v = bind_cxx (candidates env r pRequest m) (\<lambda>cs. Inr (Inr (v @ cs)))" for v
    by simp
  show ?case
    using Cons.prems e
    by (cases "unit_price env r pRequest (u, res)"; cases "candidates env r pRequest m") (simp_all add: IH sellable_def)
qed simp

lemma rank_loop_vip:
  "rank_loop env r pRequest mResult vec = Inr (Inl p) \<Longrightarrow>
   \<exists>k u res. (k, u, res) \<in> set mResult \<and> m_bVip res \<and> p = ad_unit_price u AD_VIP_PRICE"
proof (induction mResult arbitrary: vec)
  case (Cons e m)
  obtain k u res where e: "e = (k, u, res)" by (cases e)
  show ?case
  proof (cases "m_bVip res")
    case True
    with Cons.prems e show ?thesis by auto
  next
    case False
    with Cons.prems e obtain vec' where "rank_loop env r pRequest m vec' = Inr (Inl p)"
      by (auto simp: bind_cxx_Inr_iff)
    from Cons.IH [OF this] show ?thesis by auto
  qed
qed simp

lemma rank_loop_vip_exists:
  assumes "rank_loop env r pRequest mResult vec = Inr x" "(k, u, res) \<in> set mResult" "m_bVip res"
  shows "\<exists>p. x = Inl p"
  using assms(1,2)
proof (induction mResult arbitrary: vec)
  case (Cons e m)
  obtain k' u' res' where e: "e = (k', u', res')" by (cases e)
  show ?case
  proof (cases "m_bVip res'")
    case True
    with Cons.prems e show ?thesis by auto
  next
    case False
    with Cons.prems(1) e obtain vec' where "rank_loop env r pRequest m vec' = Inr x"
      by (auto simp: bind_cxx_Inr_iff)
    moreover have "(k, u, res) \<in> set m" using False assms(3) Cons.prems(2) e by auto
    ultimately show ?thesis using Cons.IH by blast
  qed
qed simp

lemma candidates_in:
  "candidates env r pRequest mResult = Inr cs \<Longrightarrow> p \<in> set cs \<Longrightarrow>
   \<exists>k u res. (k, u, res) \<in> set mResult \<and> unit_price env r pRequest (u, res) = Inr (uiPrice p) \<and>
     sellable pRequest (uiPrice p) \<and> p = ad_unit_price u (uiPrice p)"
  by (induction env r pRequest mResult arbitrary: cs rule: candidates.induct)
    (fastforce simp: bind_cxx_Inr_iff ad_unit_price_def split: if_splits)+

section \<open>Groups of prices\<close>

lemma price_groups_inv:
  "smap_ok (price_groups cs) \<and>
   (\<forall>k v. map_of (price_groups cs) k = Some v \<longleftrightarrow> v = filter (\<lambda>p. - sint (uiPrice p) = k) cs \<and> v \<noteq> [])"
proof -
  let ?f = "\<lambda>p m. let k = - sint (uiPrice p) in
       smap_upd k ((case map_of m k of None \<Rightarrow> [] | Some v \<Rightarrow> v) @ [p]) m"
  have "smap_ok (fold ?f cs []) \<and>
    (\<forall>k. map_of (fold ?f cs []) k = (let v = filter (\<lambda>p. - sint (uiPrice p) = k) cs in if v = [] then None else Some v))"
  proof (induction cs rule: rev_induct)
    case (snoc p cs)
    then show ?case by (auto simp: Let_def split: option.splits if_splits)
  qed simp
  then show ?thesis by (auto simp: price_groups_def Let_def split: if_splits)
qed

lemma price_group_at:
  assumes "i < length (price_groups cs)"
  shows "snd (price_groups cs ! i) = filter (\<lambda>p. - sint (uiPrice p) = fst (price_groups cs ! i)) cs"
    and "snd (price_groups cs ! i) \<noteq> []"
proof -
  have ok: "smap_ok (price_groups cs)" using price_groups_inv by blast
  have "(fst (price_groups cs ! i), snd (price_groups cs ! i)) \<in> set (price_groups cs)" using assms by simp
  then have "map_of (price_groups cs) (fst (price_groups cs ! i)) = Some (snd (price_groups cs ! i))"
    unfolding smap_mem_iff [OF ok] .
  with price_groups_inv [of cs] show
    "snd (price_groups cs ! i) = filter (\<lambda>p. - sint (uiPrice p) = fst (price_groups cs ! i)) cs"
    "snd (price_groups cs ! i) \<noteq> []" by auto
qed

text \<open>The prices above that of group \<open>i\<close> are those of the groups before it.\<close>

lemma higher_prices:
  assumes "i < length (price_groups cs)" "p \<in> set (snd (price_groups cs ! i))"
  shows "card ((\<lambda>q. sint (uiPrice q)) ` {q \<in> set cs. sint (uiPrice p) < sint (uiPrice q)}) = i"
proof -
  let ?m = "price_groups cs"
  have k: "- sint (uiPrice p) = fst (?m ! i)" using assms price_group_at(1) [OF assms(1)] by simp
  have so: "sorted_wrt (<) (map fst ?m)" using price_groups_inv [of cs] by (simp add: smap_ok_def)
  have keys: "fst ` set ?m = (\<lambda>q. - sint (uiPrice q)) ` set cs"
  proof -
    have "k \<in> fst ` set ?m \<longleftrightarrow> k \<in> (\<lambda>q. - sint (uiPrice q)) ` set cs" for k
    proof -
      have "k \<in> fst ` set ?m \<longleftrightarrow> (\<exists>v. map_of ?m k = Some v)" by (metis map_of_eq_None_iff not_Some_eq)
      then show ?thesis using price_groups_inv [of cs] by (auto simp: filter_empty_conv)
    qed
    then show ?thesis by blast
  qed
  have "(\<lambda>q. sint (uiPrice q)) ` {q \<in> set cs. sint (uiPrice p) < sint (uiPrice q)} =
      uminus ` {x \<in> (\<lambda>q. - sint (uiPrice q)) ` set cs. x < - sint (uiPrice p)}"
  proof -
    have "{x \<in> (\<lambda>q. - sint (uiPrice q)) ` set cs. x < - sint (uiPrice p)} =
        (\<lambda>q. - sint (uiPrice q)) ` {q \<in> set cs. sint (uiPrice p) < sint (uiPrice q)}" by auto
    then show ?thesis by (simp add: image_image)
  qed
  also have "\<dots> = uminus ` {x \<in> set (map fst ?m). x < map fst ?m ! i}" using keys k assms(1) by simp
  also have "card \<dots> = card {x \<in> set (map fst ?m). x < map fst ?m ! i}"
    by (intro card_image) (simp add: inj_on_def)
  also have "{x \<in> set (map fst ?m). x < map fst ?m ! i} = set (take i (map fst ?m))"
  proof -
    let ?l = "map fst ?m"
    have l: "i < length ?l" using assms(1) by simp
    have "x \<in> set (take i ?l)" if x: "x \<in> set ?l" "x < ?l ! i" for x
    proof -
      obtain j where j: "j < length ?l" "x = ?l ! j" using x(1) unfolding in_set_conv_nth by blast
      have "j < i"
      proof (rule ccontr)
        assume "\<not> j < i"
        then have "?l ! i \<le> ?l ! j"
          using so j(1) sorted_wrt_nth_less [OF so, of i j] by (cases "i = j") auto
        with x(2) j(2) show False by simp
      qed
      with j l show ?thesis by (auto simp: in_set_conv_nth)
    qed
    moreover have "x < ?l ! i" if x: "x \<in> set (take i ?l)" for x
    proof -
      obtain j where "j < i" "x = ?l ! j" using x l by (auto simp: in_set_conv_nth)
      with sorted_wrt_nth_less [OF so, of j i] l show ?thesis by simp
    qed
    ultimately show ?thesis by (auto dest: in_set_takeD)
  qed
  also have "card \<dots> = i"
    using so assms(1) by (subst distinct_card) (auto simp: strict_sorted_iff)
  finally show ?thesis .
qed

section \<open>What is chosen\<close>

lemma AdRtbRankStrategy_in:
  assumes "AdRtbRankStrategy env r cs = Inr (Some p)"
  shows "p \<in> set cs \<and> (4 \<le> length cs \<longrightarrow>
    card ((\<lambda>q. sint (uiPrice q)) ` {q \<in> set cs. sint (uiPrice p) < sint (uiPrice q)}) \<le> 2)"
proof (cases "length cs \<le> 3")
  case True
  then show ?thesis
    using assms by (auto simp: AdRtbRankStrategy_def Let_def bind_cxx_Inr_iff vec_get_def split: if_splits)
next
  case False
  let ?m = "price_groups cs"
  from False assms obtain i where i: "AdRtbRandWet (re_share env (m_fWeight r)) (re_rand env) (if length ?m \<ge> 3 then 3 else length ?m) = Inr i"
    and il: "i < length ?m" and p: "vec_get (snd (?m ! i)) (int (re_rand2 env mod length (snd (?m ! i)))) = Inr p"
    by (auto simp: AdRtbRankStrategy_def Let_def bind_cxx_Inr_iff split: if_splits)
  have "0 < (if length ?m \<ge> 3 then 3 else length ?m)" using il by auto
  with AdRtbRandWet_less [OF i] have "i < (if length ?m \<ge> 3 then 3 else length ?m)" .
  then have i2: "i \<le> 2" by (simp split: if_splits)
  have ps: "p \<in> set (snd (?m ! i))" using p by (auto simp: vec_get_def split: if_splits)
  then have "p \<in> set cs" using price_group_at(1) [OF il] by (metis filter_is_subset subsetD)
  with higher_prices [OF il ps] i2 show ?thesis by simp
qed

lemma price_groups_nonempty: "cs \<noteq> [] \<Longrightarrow> price_groups cs \<noteq> []"
proof
  assume "cs \<noteq> []" "price_groups cs = []"
  then show False
    using price_groups_inv [of cs, THEN conjunct2, rule_format, of "- sint (uiPrice (hd cs))"
        "filter (\<lambda>p. - sint (uiPrice p) = - sint (uiPrice (hd cs))) cs"]
    by (cases cs) auto
qed

lemma AdRtbRankStrategy_None: "AdRtbRankStrategy env r cs = Inr None \<Longrightarrow> cs = []"
  using price_groups_nonempty [of cs]
  by (auto simp: AdRtbRankStrategy_def Let_def bind_cxx_Inr_iff split: if_splits)

lemma rank_choice:
  assumes "AdRtbRankChoice env r pRequest mResult = Inr res"
  shows "(if \<exists>(_, _, s) \<in> set mResult. m_bVip s
    then \<exists>k u s. (k, u, s) \<in> set mResult \<and> m_bVip s \<and> res = Some (ad_unit_price u AD_VIP_PRICE)
    else \<exists>cs. candidates env r pRequest mResult = Inr cs \<and>
      (case res of None \<Rightarrow> cs = []
       | Some p \<Rightarrow> p \<in> set cs \<and> (4 \<le> length cs \<longrightarrow>
           card ((\<lambda>q. sint (uiPrice q)) ` {q \<in> set cs. sint (uiPrice p) < sint (uiPrice q)}) \<le> 2) \<and>
           (\<exists>k u s. (k, u, s) \<in> set mResult \<and> p = ad_unit_price u (uiPrice p) \<and>
             unit_price env r pRequest (u, s) = Inr (uiPrice p) \<and> sellable pRequest (uiPrice p))))"
proof -
  obtain x where x: "rank_loop env r pRequest mResult [] = Inr x"
    and rest: "(case x of Inl vip \<Rightarrow> Inr (Some vip) | Inr rankVec \<Rightarrow> AdRtbRankStrategy env r rankVec) = Inr res"
    using assms by (auto simp: AdRtbRankChoice_def bind_cxx_Inr_iff)
  show ?thesis
  proof (cases "\<exists>(_, _, s) \<in> set mResult. m_bVip s")
    case True
    then obtain k u s where "(k, u, s) \<in> set mResult" "m_bVip s" by auto
    with rank_loop_vip_exists [OF x] obtain p where "x = Inl p" by blast
    with rank_loop_vip x rest True show ?thesis by fastforce
  next
    case False
    then have "\<forall>(_, _, s) \<in> set mResult. \<not> m_bVip s" by auto
    from rank_loop_no_vip [OF this, of env r pRequest "[]"] x obtain cs where
      cs: "candidates env r pRequest mResult = Inr cs" "x = Inr cs"
      by (cases "candidates env r pRequest mResult") auto
    show ?thesis
    proof (cases res)
      case None
      with AdRtbRankStrategy_None rest cs False show ?thesis by simp
    next
      case (Some p)
      with AdRtbRankStrategy_in [of env r cs p] rest cs have p: "p \<in> set cs \<and> (4 \<le> length cs \<longrightarrow>
           card ((\<lambda>q. sint (uiPrice q)) ` {q \<in> set cs. sint (uiPrice p) < sint (uiPrice q)}) \<le> 2)" by simp
      with candidates_in [OF cs(1), of p] Some cs(1) False show ?thesis by auto
    qed
  qed
qed

lemma rank_choice_in:
  assumes "AdRtbRankChoice env r pRequest mResult = Inr (Some p)"
  shows "\<exists>k u s. (k, u, s) \<in> set mResult \<and> p = ad_unit_price u (uiPrice p) \<and>
    (if m_bVip s then uiPrice p = AD_VIP_PRICE
     else unit_price env r pRequest (u, s) = Inr (uiPrice p) \<and> sellable pRequest (uiPrice p))"
proof (cases "\<exists>(_, _, s) \<in> set mResult. m_bVip s")
  case True
  then obtain k u s where "(k, u, s) \<in> set mResult" "m_bVip s" "p = ad_unit_price u AD_VIP_PRICE"
    using rank_choice [OF assms] by auto
  moreover have "ad_unit_price u AD_VIP_PRICE = ad_unit_price u (uiPrice (ad_unit_price u AD_VIP_PRICE))"
    "uiPrice (ad_unit_price u AD_VIP_PRICE) = AD_VIP_PRICE" by (simp_all add: ad_unit_price_def)
  ultimately show ?thesis by metis
next
  case False
  then have none: "\<not> m_bVip s" if "(k, u, s) \<in> set mResult" for k u s using that by auto
  obtain k u s where "(k, u, s) \<in> set mResult" "p = ad_unit_price u (uiPrice p)"
      "unit_price env r pRequest (u, s) = Inr (uiPrice p) \<and> sellable pRequest (uiPrice p)"
    using rank_choice [OF assms] False by auto
  with none show ?thesis by (intro exI [of _ k] exI [of _ u] exI [of _ s]) auto
qed

text \<open>
  C19. The choice among the units of a match. A VIP user gets a unit of the match at the fixed price. Otherwise
  the units with their prices above zero and above the minimum of the request are the candidates (all units for
  the videos that have any price); nothing is chosen exactly when there is none, the chosen unit is one of them
  at its own price, and among four and more at most two different prices are higher.
\<close>

theorem rank_choice_spec:
  assumes "AdRtbRankChoice env r pRequest mResult = Inr res"
  shows "(if \<exists>(_, _, s) \<in> set mResult. m_bVip s
    then \<exists>k u s. (k, u, s) \<in> set mResult \<and> m_bVip s \<and> res = Some (ad_unit_price u AD_VIP_PRICE)
    else \<exists>cs. candidates env r pRequest mResult = Inr cs \<and>
      (case res of None \<Rightarrow> cs = []
       | Some p \<Rightarrow> p \<in> set cs \<and> (4 \<le> length cs \<longrightarrow>
           card ((\<lambda>q. sint (uiPrice q)) ` {q \<in> set cs. sint (uiPrice p) < sint (uiPrice q)}) \<le> 2) \<and>
           (\<exists>k u s. (k, u, s) \<in> set mResult \<and> p = ad_unit_price u (uiPrice p) \<and>
             unit_price env r pRequest (u, s) = Inr (uiPrice p) \<and> sellable pRequest (uiPrice p))))"
  using assms by (rule rank_choice)

text \<open>Four units at different prices, and weights of 60, 24 and 16 of a hundred.\<close>

definition demo_priced :: "UINT \<Rightarrow> UINT \<Rightarrow> UINT \<times> AdPlanningUnit \<times> AdRtbFilterResult" where
  "demo_priced e price = (e, clear_unit\<lparr>m_stOrder := clear_order\<lparr>m_uiExecuteId := e, m_uiTargetPrice := price,
     m_uiTargetPriceType := AD_ORDER_CPM\<rparr>\<rparr>, clear_result)"

definition demo_rank_env :: rank_env where
  "demo_rank_env = \<lparr>re_fpu = \<lparr>d_mul = (*), d_div = (/)\<rparr>, re_product = (\<lambda>v p. 1000 * v * of_nat (unat p)),
     re_atof = (\<lambda>_. 0), re_share = (\<lambda>_ i. if i = 0 then 60 else 24), re_rand = 70, re_rand2 = 70\<rparr>"

lemma rank_choice_spec_witness:
  "AdRtbRankChoice demo_rank_env (AdRtbDealRank_new 0) (clear_request at_zero)
     [demo_priced 1 10, demo_priced 2 40, demo_priced 3 30, demo_priced 4 20] =
   Inr (Some (ad_unit_price (fst (snd (demo_priced 3 30))) 30)) \<and>
   (\<exists>cs. candidates demo_rank_env (AdRtbDealRank_new 0) (clear_request at_zero)
     [demo_priced 1 10, demo_priced 2 40, demo_priced 3 30, demo_priced 4 20] = Inr cs \<and>
     ad_unit_price (fst (snd (demo_priced 3 30))) 30 \<in> set cs)"
proof -
  let ?m = "[demo_priced 1 10, demo_priced 2 40, demo_priced 3 30, demo_priced 4 20]"
  let ?u = "\<lambda>e p. ad_unit_price (fst (snd (demo_priced e p))) p"
  have s: "sint (10 :: UINT) = 10" "sint (20 :: UINT) = 20" "sint (30 :: UINT) = 30" "sint (40 :: UINT) = 40" "atoi [] = 0"
    by code_simp+
  have "rank_loop demo_rank_env (AdRtbDealRank_new 0) (clear_request at_zero) ?m [] = Inr (Inr [?u 1 10, ?u 2 40, ?u 3 30, ?u 4 20])"
    by (simp add: demo_priced_def unit_price_def AdRtbAdvanceStrategy_def clear_unit_def clear_result_def clear_request_def s)
  moreover have "price_groups [?u 1 10, ?u 2 40, ?u 3 30, ?u 4 20] =
      [(- 40, [?u 2 40]), (- 30, [?u 3 30]), (- 20, [?u 4 20]), (- 10, [?u 1 10])]"
    by (simp add: price_groups_def ad_unit_price_def s)
  moreover have "AdRtbRandWet (\<lambda>i. if i = 0 then 60 else 24) 70 3 = Inr 1"
    by (subst AdRtbRandWet_3) simp_all
  ultimately have c: "AdRtbRankChoice demo_rank_env (AdRtbDealRank_new 0) (clear_request at_zero) ?m = Inr (Some (?u 3 30))"
    by (simp add: AdRtbRankChoice_def AdRtbRankStrategy_def Let_def demo_rank_env_def vec_get_def)
  have "\<not> (\<exists>(_, _, s) \<in> set ?m. m_bVip s)" by (simp add: demo_priced_def clear_result_def)
  with rank_choice_spec [OF c] c show ?thesis by auto
qed

text \<open>
  The weighted choice among two or three positions takes the first for its share of the hundred values of the
  random number, the second for the next share and the last for the rest, as long as the shares fit. A weight
  above one makes it write behind the array of one hundred entries.
\<close>

theorem rand_wet_spec:
  assumes "0 \<le> share 0" "0 \<le> share 1" "share 0 < 2 ^ 31"
  shows "(share 0 + share 1 \<le> 100 \<longrightarrow> AdRtbRandWet share rnd 3 =
      Inr (if int (rnd mod 100) < share 0 then 0 else if int (rnd mod 100) < share 0 + share 1 then 1 else 2)) \<and>
    (share 0 \<le> 100 \<longrightarrow> AdRtbRandWet share rnd 2 = Inr (if int (rnd mod 100) < share 0 then 0 else 1)) \<and>
    (100 < share 0 \<longrightarrow> AdRtbRandWet share rnd 2 = Inl OutOfBounds \<and> AdRtbRandWet share rnd 3 = Inl OutOfBounds) \<and>
    AdRtbRandWet share rnd 1 = Inr 0"
  using assms AdRtbRandWet_3 [of share rnd] AdRtbRandWet_2 [of share rnd] AdRtbRandWet_over [of share]
  by (simp add: AdRtbRandWet_def)

lemma rand_wet_spec_witness:
  "AdRtbRandWet (\<lambda>i. if i = 0 then 60 else 24) 70 3 = Inr 1 \<and>
   AdRtbRandWet (\<lambda>i. if i = 0 then 150 else 24) 70 2 = Inl OutOfBounds"
  using rand_wet_spec [of "\<lambda>i. if i = 0 then 60 else 24" 70] rand_wet_spec [of "\<lambda>i. if i = 0 then 150 else 24" 70]
  by simp

end
