(* ===== verification/AdPlanningRoundtrip.thy ===== *)
theory AdPlanningRoundtrip
  imports AdPlanningData
begin

text \<open>
  A planning unit written as the JSON document that \<^verbatim>\<open>DataParse\<close> expects is read back field by field.
  The writer here is the specification of the format: which member holds which field.
\<close>

definition ji :: "UINT \<Rightarrow> Json" where
  "ji w = JInt (sint w)"

definition no_nul :: "string \<Rightarrow> bool" where
  "no_nul s \<longleftrightarrow> CHR 0x00 \<notin> set s"

definition ints_json :: "UINT list \<Rightarrow> Json" where
  "ints_json ws = JArray (map ji ws)"

definition strs_json :: "string list \<Rightarrow> Json" where
  "strs_json ss = JArray (map JString ss)"

lemma asInt_ji [simp]: "json_asInt (ji w) = Inr w"
  by (simp add: json_asInt_def ji_def)

lemma asString_JString [simp]: "no_nul s \<Longrightarrow> json_asString (JString s) = Inr s"
  by (simp add: json_asString_def no_nul_def c_str_id)

lemma no_nul_fmt_d [simp]: "no_nul (fmt_d w)"
proof -
  have "\<not> is_digit CHR 0x00" by (simp add: is_digit_def)
  then show ?thesis by (auto simp: no_nul_def dest: fmt_d_chars)
qed

text \<open>Access to the members of an object that is written out.\<close>

lemma json_object_simps [simp]:
  "json_isMember (JObject ms) k = Inr (map_of ms k \<noteq> None)"
  "json_get (JObject ms) k = Inr (case map_of ms k of None \<Rightarrow> JNull | Some x \<Rightarrow> x)"
  "json_int (JObject ms) k = json_asInt (case map_of ms k of None \<Rightarrow> JNull | Some x \<Rightarrow> x)"
  "json_str (JObject ms) k = json_asString (case map_of ms k of None \<Rightarrow> JNull | Some x \<Rightarrow> x)"
  "json_dbl (JObject ms) k = json_asDouble (case map_of ms k of None \<Rightarrow> JNull | Some x \<Rightarrow> x)"
  by (simp_all add: json_isMember_def json_get_def json_int_def json_str_def json_dbl_def)

lemma json_for_append:
  assumes "\<And>x. x \<in> set xs \<Longrightarrow> conv (f x) = Inr (g x)"
  shows "json_for (JArray (map f xs)) (\<lambda>x l. bind_cxx (conv x) (\<lambda>y. Inr (l @ [y]))) l = Inr (l @ map g xs)"
proof -
  have "fold_cxx (\<lambda>x l. bind_cxx (conv (f x)) (\<lambda>y. Inr (l @ [y]))) xs l = Inr (l @ map g xs)"
    using assms by (induction xs arbitrary: l) simp_all
  then show ?thesis by (simp add: json_for_array fold_cxx_map)
qed

lemma json_each_object:
  assumes "map_of ms k = Some (JArray (map f xs))" "\<And>x. x \<in> set xs \<Longrightarrow> conv (f x) = Inr x"
  shows "json_each conv (JObject ms) k l = Inr (l @ xs)"
  using json_for_append [of xs conv f "\<lambda>x. x" l] assms by (simp add: json_each_def)

lemma json_ints_object: "map_of ms k = Some (ints_json ws) \<Longrightarrow> json_ints (JObject ms) k l = Inr (l @ ws)"
  unfolding ints_json_def by (rule json_each_object [where f = ji]) simp_all

lemma json_strs_object:
  "map_of ms k = Some (strs_json ss) \<Longrightarrow> list_all no_nul ss \<Longrightarrow> json_strs (JObject ms) k l = Inr (l @ ss)"
  unfolding strs_json_def by (rule json_each_object [where f = JString]) (simp_all add: list_all_iff)

section \<open>Order, pids and times\<close>

definition order_json :: "AdOrderInfo \<Rightarrow> Json" where
  "order_json od = JObject
    [(''advertiser'', ji (m_uiAdvertiser od)), (''execid'', ji (m_uiExecuteId od)),
     (''target_price'', ji (m_uiTargetPrice od)), (''target_price_type'', ji (m_uiTargetPriceType od)),
     (''limit_price'', ji (m_uiLimitePrice od)), (''hour_share'', ji (m_uiBidmode od)),
     (''screen'', ints_json (m_ltAdViewScreen od)), (''space_type'', ints_json (m_ltAdViewType od)),
     (''ord_ctl'', ji (m_uiTimeType od)), (''ord_freq'', ji (m_uiFrequency od)),
     (''advertiser_tb'', JString (m_sTanxAdId od)), (''ctr_min'', JReal (m_dMinCtr od)),
     (''ctr_type'', ji (m_uiCtrType od))]"

lemma parse_order_json:
  assumes "no_nul (m_sTanxAdId od)"
  shows "parse_order (order_json od) clear_order =
    Inr (od\<lparr>m_uiTotalBudget := 0, m_uiTimeStamp := 0, m_uiNice := AD_ORDER_BASE, m_ltBanId := [], m_ltBanContent := []\<rparr>)"
  using assms
  by (simp add: parse_order_def order_json_def json_opt_def json_ints_object clear_order_def json_asDouble_def)

definition pid_json :: "AdPidInfo \<Rightarrow> Json" where
  "pid_json p = JObject
    [(''adx_id'', JString (fmt_d (m_uiAdxId p))), (''select_type'', ji (m_uiMode p)),
     (''spid'', strs_json (m_ltPidList p))]"

definition pid_ok :: "AdPidInfo \<Rightarrow> bool" where
  "pid_ok p \<longleftrightarrow> list_all no_nul (m_ltPidList p) \<and>
     (m_uiMode p = AD_PID_MODE_FIXED \<or> m_uiMode p = AD_PID_MODE_OTHER \<or> m_ltPidList p = [])"

lemma parse_pid_json: "pid_ok p \<Longrightarrow> parse_pid (pid_json p) l = Inr (l @ [p])"
  by (auto simp: parse_pid_def pid_json_def pid_ok_def json_strs_object atoi_fmt_d)

lemma parse_pids_json:
  "list_all pid_ok ps \<Longrightarrow> json_for (JArray (map pid_json ps)) parse_pid l = Inr (l @ ps)"
  by (simp add: json_for_array fold_cxx_map, induction ps arbitrary: l) (simp_all add: parse_pid_json)

definition hour_bits :: "UINT \<Rightarrow> UINT list" where
  "hour_bits w = map of_nat (filter (bit w) [0..<32])"

definition day_json :: "AdTimeDay \<Rightarrow> Json" where
  "day_json d = JObject [(''weekday'', ji (m_uiWeek d)), (''budget'', ji (m_uiBudget d)),
     (''hour'', ints_json (hour_bits (m_uiHour d)))]"

definition time_json :: "AdTime \<Rightarrow> Json" where
  "time_json t = JObject [(''start'', JString (m_sStart t)), (''end'', JString (m_sStop t)),
     (''week'', JArray (map day_json (m_stDay t)))]"

lemma hour_bit_of_nat: "h < 32 \<Longrightarrow> hour_bit (of_nat h) = Inr (push_bit h 1)"
  by (simp add: hour_bit_def unat_of_nat)

lemma hours_fold:
  assumes "\<forall>h \<in> set hs. h < 32" "n < length (m_stDay t)"
  shows "\<exists>w'. fold_cxx (\<lambda>h t. bind_cxx (hour_bit (of_nat h)) (\<lambda>b. day_set n (\<lambda>d. d\<lparr>m_uiHour := m_uiHour d OR b\<rparr>) t)) hs t =
    Inr (t\<lparr>m_stDay := (m_stDay t)[n := (m_stDay t ! n)\<lparr>m_uiHour := w'\<rparr>]\<rparr>) \<and>
    (\<forall>i < 32. bit w' i \<longleftrightarrow> bit (m_uiHour (m_stDay t ! n)) i \<or> i \<in> set hs)"
  using assms
proof (induction hs arbitrary: t)
  case Nil
  then show ?case by (intro exI [of _ "m_uiHour (m_stDay t ! n)"]) simp
next
  case (Cons h hs)
  let ?d = "(m_stDay t ! n)\<lparr>m_uiHour := m_uiHour (m_stDay t ! n) OR push_bit h 1\<rparr>"
  let ?t = "t\<lparr>m_stDay := (m_stDay t)[n := ?d]\<rparr>"
  from Cons.IH [of ?t] Cons.prems obtain w' where w':
    "fold_cxx (\<lambda>h t. bind_cxx (hour_bit (of_nat h)) (\<lambda>b. day_set n (\<lambda>d. d\<lparr>m_uiHour := m_uiHour d OR b\<rparr>) t)) hs ?t =
      Inr (?t\<lparr>m_stDay := (m_stDay ?t)[n := (m_stDay ?t ! n)\<lparr>m_uiHour := w'\<rparr>]\<rparr>)"
    "\<forall>i < 32. bit w' i \<longleftrightarrow> bit (m_uiHour (m_stDay ?t ! n)) i \<or> i \<in> set hs" by auto
  then have "bit w' i \<longleftrightarrow> bit (m_uiHour (m_stDay t ! n)) i \<or> i = h \<or> i \<in> set hs" if "i < 32" for i
    using that Cons.prems by (auto simp: bit_simps)
  with w' Cons.prems show ?case
    by (intro exI [of _ w']) (simp add: hour_bit_of_nat day_set_def vec_get_def)
qed

text \<open>Day \<open>n\<close> of a time whose day \<open>n\<close> is still empty.\<close>

abbreviation empty_day :: AdTimeDay where
  "empty_day \<equiv> \<lparr>m_uiWeek = 0, m_uiBudget = 0, m_uiHour = 0\<rparr>"

lemma day_eta: "\<lparr>m_uiWeek = m_uiWeek d, m_uiBudget = m_uiBudget d, m_uiHour = m_uiHour d\<rparr> = d"
  by simp

lemma parse_day_json:
  assumes "n < length (m_stDay t)" "m_stDay t ! n = empty_day"
  shows "parse_day (day_json d) (n, t) = Inr (n + 1, t\<lparr>bPush := True, m_stDay := (m_stDay t)[n := d]\<rparr>)"
proof -
  let ?d = "\<lparr>m_uiWeek = m_uiWeek d, m_uiBudget = m_uiBudget d, m_uiHour = 0\<rparr>"
  let ?t = "t\<lparr>m_stDay := (m_stDay t)[n := ?d], bPush := True\<rparr>"
  obtain w where w:
    "fold_cxx (\<lambda>h t. bind_cxx (hour_bit (of_nat h)) (\<lambda>b. day_set n (\<lambda>d. d\<lparr>m_uiHour := m_uiHour d OR b\<rparr>) t))
       (filter (bit (m_uiHour d)) [0..<32]) ?t =
     Inr (?t\<lparr>m_stDay := (m_stDay ?t)[n := (m_stDay ?t ! n)\<lparr>m_uiHour := w\<rparr>]\<rparr>)"
    "\<forall>i < 32. bit w i \<longleftrightarrow> bit (m_uiHour (m_stDay ?t ! n)) i \<or> i \<in> set (filter (bit (m_uiHour d)) [0..<32])"
    using hours_fold [of "filter (bit (m_uiHour d)) [0..<32]" n ?t] assms by auto
  have "w = m_uiHour d" using w(2) assms by (intro bit_word_eqI) auto
  with w(1) assms have "parse_day (day_json d) (n, t) = Inr (n + 1, t\<lparr>bPush := True, m_stDay :=
      (m_stDay t)[n := \<lparr>m_uiWeek = m_uiWeek d, m_uiBudget = m_uiBudget d, m_uiHour = m_uiHour d\<rparr>]\<rparr>)"
    by (simp add: parse_day_def day_json_def day_set_def vec_get_def ints_json_def hour_bits_def
        json_for_array fold_cxx_map del: of_nat_less_iff)
  then show ?thesis unfolding day_eta .
qed

lemma parse_days_json:
  assumes "n + length ds \<le> length (m_stDay t)" "\<forall>i. n \<le> i \<longrightarrow> i < length (m_stDay t) \<longrightarrow> m_stDay t ! i = empty_day"
  shows "fold_cxx (\<lambda>d. parse_day (day_json d)) ds (n, t) =
    Inr (n + length ds, t\<lparr>bPush := bPush t \<or> ds \<noteq> [],
      m_stDay := take n (m_stDay t) @ ds @ drop (n + length ds) (m_stDay t)\<rparr>)"
  using assms
proof (induction ds arbitrary: n t)
  case (Cons d ds)
  then have n: "n < length (m_stDay t)" "m_stDay t ! n = empty_day" by auto
  let ?t = "t\<lparr>bPush := True, m_stDay := (m_stDay t)[n := d]\<rparr>"
  have "take n (m_stDay t) @ d # drop (Suc n) (m_stDay t) = (m_stDay t)[n := d]"
    using n by (simp add: upd_conv_take_nth_drop)
  moreover have "drop (Suc (n + length ds)) ((m_stDay t)[n := d]) = drop (Suc (n + length ds)) (m_stDay t)"
    by (rule drop_update_cancel) simp
  moreover have "take (Suc n) ((m_stDay t)[n := d]) = take n (m_stDay t) @ [d]"
    using n by (simp add: take_Suc_conv_app_nth)
  ultimately show ?case
    using n Cons.prems Cons.IH [of "n + 1" ?t] by (simp add: parse_day_json)
qed simp

definition time_ok :: "AdTime \<Rightarrow> bool" where
  "time_ok t \<longleftrightarrow> length (m_stDay t) = AD_WEEK_DAYS \<and> bPush t \<and> no_nul (m_sStart t) \<and> no_nul (m_sStop t)"

lemma DataParseTime_json:
  assumes "time_ok t" "map_of ms ''range'' = Some (time_json t)"
  shows "DataParseTime (JObject ms) clear_time = Inr t"
proof -
  let ?t = "\<lparr>bPush = False, m_sStart = m_sStart t, m_sStop = m_sStop t, m_stDay = replicate AD_WEEK_DAYS empty_day\<rparr>"
  have "m_stDay t \<noteq> []" "length (m_stDay t) = 7" using assms by (auto simp: time_ok_def)
  then have "fold_cxx (\<lambda>d. parse_day (day_json d)) (m_stDay t) (0, ?t) = Inr (AD_WEEK_DAYS, t)"
    using parse_days_json [of 0 "m_stDay t" ?t] assms by (cases t) (simp add: time_ok_def)
  with assms show ?thesis
    by (simp add: DataParseTime_def time_json_def json_for_array fold_cxx_map clear_time_def time_ok_def)
qed

text \<open>A time with any number of days: the array has seven.\<close>

definition week_json :: "AdTimeDay list \<Rightarrow> Json" where
  "week_json ds = JObject [(''range'', JObject [(''start'', JString []), (''end'', JString []),
     (''week'', JArray (map day_json ds))])]"

lemma parse_day_outside: "length (m_stDay t) \<le> n \<Longrightarrow> parse_day (day_json d) (n, t) = Inl OutOfBounds"
  by (simp add: parse_day_def day_json_def day_set_def vec_get_def)

text \<open>
  \<^verbatim>\<open>DataParseTime\<close> is defined exactly for ranges of at most seven days: the day number is taken from the
  document and indexes \<^verbatim>\<open>m_stDay\<close> without a check, so an eighth day is written behind the array.
\<close>

theorem week_days_unchecked:
  "(if length ds \<le> AD_WEEK_DAYS
    then \<exists>t. DataParseTime (week_json ds) clear_time = Inr t \<and> take (length ds) (m_stDay t) = ds
    else DataParseTime (week_json ds) clear_time = Inl OutOfBounds)"
proof -
  let ?t = "\<lparr>bPush = False, m_sStart = [], m_sStop = [], m_stDay = replicate AD_WEEK_DAYS empty_day\<rparr>"
  have e: "DataParseTime (week_json ds) clear_time =
      bind_cxx (fold_cxx (\<lambda>d. parse_day (day_json d)) ds (0, ?t)) (\<lambda>(_, t). Inr t)"
    by (simp add: DataParseTime_def week_json_def json_for_array fold_cxx_map clear_time_def json_asString_def c_str_def)
  show ?thesis
  proof (cases "length ds \<le> AD_WEEK_DAYS")
    case True
    then show ?thesis by (simp add: e parse_days_json)
  next
    case False
    then obtain d r where ds: "ds = take AD_WEEK_DAYS ds @ d # r"
      by (metis append_take_drop_id drop_eq_Nil neq_Nil_conv)
    have l: "length (take AD_WEEK_DAYS ds) = AD_WEEK_DAYS" using False by simp
    have "fold_cxx (\<lambda>d. parse_day (day_json d)) (take AD_WEEK_DAYS ds @ d # r) (0, ?t) = Inl OutOfBounds"
      unfolding fold_cxx_append using l by (simp add: parse_days_json parse_day_outside del: length_take)
    with False show ?thesis by (simp add: e flip: ds)
  qed
qed

section \<open>Key words and audiences\<close>

definition mark_keys :: "UINT \<Rightarrow> AdMarkNode list \<Rightarrow> Json" where
  "mark_keys type ms = strs_json (map m_sKey (filter (\<lambda>m. m_mk_uiType m = type) ms))"

definition marks_ok :: "AdMarkNode list \<Rightarrow> bool" where
  "marks_ok ms \<longleftrightarrow> list_all (\<lambda>m. no_nul (m_sKey m)) ms \<and>
     ms = concat (map (\<lambda>type. filter (\<lambda>m. m_mk_uiType m = type) ms)
       [AD_MARK_PUBLIC, AD_KEYS_ACC_CUS, AD_KEYS_DIM_CUS, AD_MARK_PRIVATE])"

lemma parse_marks_json:
  assumes "map_of ms key = Some (mark_keys type marks)" "list_all (\<lambda>m. no_nul (m_sKey m)) marks"
  shows "parse_marks (JObject ms) key type l = Inr (l @ filter (\<lambda>m. m_mk_uiType m = type) marks)"
proof -
  have "fold_cxx (\<lambda>m l. Inr (l @ [\<lparr>m_mk_uiType = type, m_sKey = m_sKey m\<rparr>])) ks l = Inr (l @ ks)"
    if "\<forall>m \<in> set ks. m_mk_uiType m = type" for ks l
    using that by (induction ks arbitrary: l) auto
  from this [of "filter (\<lambda>m. m_mk_uiType m = type) marks" l]
  have "fold_cxx (\<lambda>x l. bind_cxx (json_asString x) (\<lambda>s. Inr (l @ [\<lparr>m_mk_uiType = type, m_sKey = s\<rparr>])))
      (map JString (map m_sKey (filter (\<lambda>m. m_mk_uiType m = type) marks))) l =
    Inr (l @ filter (\<lambda>m. m_mk_uiType m = type) marks)"
    unfolding fold_cxx_map using assms(2) by (subst fold_cxx_cong) (auto simp: list_all_iff)
  with assms(1) show ?thesis
    by (simp add: parse_marks_def json_when_object mark_keys_def strs_json_def json_for_array)
qed

lemma DataParseMark_json:
  assumes "marks_ok marks"
    and "map_of ms ''mark'' = Some (mark_keys AD_MARK_PUBLIC marks)"
    and "map_of ms ''acc_cus_keyword'' = Some (mark_keys AD_KEYS_ACC_CUS marks)"
    and "map_of ms ''dim_cus_keyword'' = Some (mark_keys AD_KEYS_DIM_CUS marks)"
    and "map_of ms ''private_mark'' = Some (mark_keys AD_MARK_PRIVATE marks)"
  shows "DataParseMark (JObject ms) [] = Inr marks"
proof -
  from assms(1) have ok: "list_all (\<lambda>m. no_nul (m_sKey m)) marks"
    and c: "concat (map (\<lambda>type. filter (\<lambda>m. m_mk_uiType m = type) marks)
       [AD_MARK_PUBLIC, AD_KEYS_ACC_CUS, AD_KEYS_DIM_CUS, AD_MARK_PRIVATE]) = marks"
    unfolding marks_ok_def by simp_all
  note p = parse_marks_json [OF assms(2) ok] parse_marks_json [OF assms(3) ok]
    parse_marks_json [OF assms(4) ok] parse_marks_json [OF assms(5) ok]
  have "DataParseMark (JObject ms) [] = Inr (concat (map (\<lambda>type. filter (\<lambda>m. m_mk_uiType m = type) marks)
       [AD_MARK_PUBLIC, AD_KEYS_ACC_CUS, AD_KEYS_DIM_CUS, AD_MARK_PRIVATE]))"
    unfolding DataParseMark_def by (simp add: p)
  then show ?thesis by (simp only: c)
qed

text \<open>Every mark of an audience in a tag of its own.\<close>

definition tag_json :: "int \<Rightarrow> string \<times> UINT \<Rightarrow> Json" where
  "tag_json visit = (\<lambda>(s, t). JObject [(''datas'', JArray [JString s]), (''date_limit'', ji t),
     (''visit_type'', JInt visit)])"

definition audience_json :: "AdAudienceNode \<Rightarrow> Json" where
  "audience_json a = JObject [(''mark_id'', JString (m_sAudienceID a)), (''merge_type'', ji (m_au_uiType a)),
     (''tag_datas'', JArray (map (tag_json AD_AUDIENCE_UNVISIT) (m_mUnVisit a) @
        map (tag_json AD_AUDIENCE_VISIT) (m_mVisit a) @ map (tag_json AD_AUDIENCE_SEARCH) (m_mSearch a)))]"

definition times_ok :: "(string \<times> UINT) list \<Rightarrow> bool" where
  "times_ok m \<longleftrightarrow> smap_ok m \<and> list_all (\<lambda>(s, t). no_nul s \<and> t \<noteq> 0) m"

definition audience_ok :: "AdAudienceNode \<Rightarrow> bool" where
  "audience_ok a \<longleftrightarrow> no_nul (m_sAudienceID a) \<and> times_ok (m_mSearch a) \<and> times_ok (m_mVisit a) \<and>
     times_ok (m_mUnVisit a)"

lemma asInt_JInt: "json_asInt (JInt i) = Inr (of_int i)"
  by (simp add: json_asInt_def)

lemma audience_tag_json:
  assumes "no_nul s" "t \<noteq> 0"
  shows
    "audience_tag (tag_json AD_AUDIENCE_UNVISIT (s, t)) a = Inr (a\<lparr>m_mUnVisit := smap_upd s t (m_mUnVisit a)\<rparr>)"
    "audience_tag (tag_json AD_AUDIENCE_VISIT (s, t)) a = Inr (a\<lparr>m_mVisit := smap_upd s t (m_mVisit a)\<rparr>)"
    "audience_tag (tag_json AD_AUDIENCE_SEARCH (s, t)) a = Inr (a\<lparr>m_mSearch := smap_upd s t (m_mSearch a)\<rparr>)"
  using assms
  by (simp_all add: audience_tag_def tag_json_def json_for_array audience_data_def asInt_JInt)

lemma audience_tags_json:
  assumes "list_all (\<lambda>(s, t). no_nul s \<and> t \<noteq> 0) m"
  shows
    "fold_cxx audience_tag (map (tag_json AD_AUDIENCE_UNVISIT) m) a =
       Inr (a\<lparr>m_mUnVisit := fold (\<lambda>(k, v). smap_upd k v) m (m_mUnVisit a)\<rparr>)"
    "fold_cxx audience_tag (map (tag_json AD_AUDIENCE_VISIT) m) a =
       Inr (a\<lparr>m_mVisit := fold (\<lambda>(k, v). smap_upd k v) m (m_mVisit a)\<rparr>)"
    "fold_cxx audience_tag (map (tag_json AD_AUDIENCE_SEARCH) m) a =
       Inr (a\<lparr>m_mSearch := fold (\<lambda>(k, v). smap_upd k v) m (m_mSearch a)\<rparr>)"
  using assms by (induction m arbitrary: a) (auto simp: audience_tag_json)

lemma audience_mark_json:
  assumes "audience_ok a"
  shows "audience_mark (audience_json a) (l, clear_audience) = Inr (l @ [a], clear_audience)"
proof -
  have m: "fold (\<lambda>(k, v). smap_upd k v) m [] = m" if "times_ok m" for m :: "(string \<times> UINT) list"
    using that fold_smap_upd [of "[]" m] by (simp add: times_ok_def)
  from assms show ?thesis
    unfolding audience_mark_def audience_json_def audience_ok_def
    by (simp add: json_opt_def json_for_array fold_cxx_append audience_tags_json times_ok_def
        m [unfolded times_ok_def] clear_audience_def)
qed

lemma DataParseAudience_json:
  assumes "list_all audience_ok as" "map_of ms ''marks'' = Some (JArray (map audience_json as))"
  shows "DataParseAudience (JObject ms) [] = Inr as"
proof -
  have "fold_cxx (\<lambda>a. audience_mark (audience_json a)) as (l, clear_audience) = Inr (l @ as, clear_audience)" for l
    using assms(1) by (induction as arbitrary: l) (simp_all add: audience_mark_json)
  with assms(2) show ?thesis
    by (simp add: DataParseAudience_def json_when_object json_for_array fold_cxx_map)
qed

section \<open>Devices and creatives\<close>

definition device_json :: "AdMobileInfo \<Rightarrow> Json" where
  "device_json m = JObject [(''operator'', ints_json (m_ltOperator m)), (''dev'', ints_json (m_ltDeviceType m)),
     (''webcon'', ints_json (m_ltConnectType m)), (''ua'', ints_json (m_ltUserAgentType m))]"

lemma parse_device_json: "parse_device (device_json m) clear_mobile = Inr (m\<lparr>m_bEnable := False\<rparr>)"
  by (simp add: parse_device_def device_json_def json_opt_def json_ints_object clear_mobile_def)

lemma parse_platform_json:
  "map_of ms ''patform'' = Some (JString (if m_bEnable m then ''2'' else ''1'')) \<Longrightarrow>
   parse_platform (JObject ms) (m\<lparr>m_bEnable := False\<rparr>) = Inr m"
  by (cases m) (simp add: parse_platform_def json_asString_def atoi_def c_str_def is_space_def is_digit_def digits_val_def Let_def clip64_def)

definition material_json :: "AdMaterialInfo \<Rightarrow> Json" where
  "material_json m = JObject
    [(''cid'', ji (atoi (m_sCreateId m))), (''mid'', JString (m_sMaterialId m)), (''uuid'', JString (m_sUuId m)),
     (''format'', ji (m_uiFormat m)), (''creative_type'', ji (m_uiCreativeType m)), (''width'', ji (m_uiWidth m)),
     (''height'', ji (m_uiHeight m)), (''duration'', ji (m_uiVideoTime m)),
     (''click_through_url'', JString (m_sClickUrl m)), (''destination_url'', JString (m_sDestinationUrl m)),
     (''material_url'', JString (m_sMaterialUrl m)), (''material_url_mraid'', JString (m_sMraidMaterialUrl m)),
     (''ad_type'', JString (m_sCategory m)), (''monitor_url'', strs_json (m_ltMonitorUrl m))]"

definition material_ok :: "AdMaterialInfo \<Rightarrow> bool" where
  "material_ok m \<longleftrightarrow> m_sCreateId m = fmt_d (atoi (m_sCreateId m)) \<and> list_all no_nul
     ([m_sMaterialId m, m_sUuId m, m_sClickUrl m, m_sDestinationUrl m, m_sMaterialUrl m, m_sMraidMaterialUrl m,
       m_sCategory m] @ m_ltMonitorUrl m)"

lemma parse_material_json:
  assumes "material_ok m"
  shows "parse_material (material_json m) = Inr m"
proof -
  have "fmt_d (atoi (m_sCreateId m)) = m_sCreateId m" using assms by (simp add: material_ok_def)
  with assms show ?thesis
    unfolding parse_material_def material_json_def
    by (simp add: json_opt_def json_strs_object material_ok_def clear_material_def snprintf_fmt_d)
qed

definition creative_json :: "AdCreativeInfo \<Rightarrow> Json" where
  "creative_json c = JObject [(''adx_id'', JString (m_sAdxId c)), (''gid'', JString (m_sCreativeGroupId c)),
     (''material'', JArray (map material_json (m_ltMaterials c)))]"

definition creative_ok :: "UINT \<times> AdCreativeInfo \<Rightarrow> bool" where
  "creative_ok = (\<lambda>(adx, c). atoi (m_sAdxId c) = adx \<and> no_nul (m_sAdxId c) \<and> no_nul (m_sCreativeGroupId c) \<and>
     m_sSensitiveCategory c = [] \<and> m_c_sCategory c = [] \<and> list_all material_ok (m_ltMaterials c))"

lemma parse_creative_json:
  assumes "creative_ok (adx, c)" "adx \<notin> fst ` set l"
  shows "parse_creative (creative_json c) l = Inr (smap_upd adx c l)"
proof -
  have "map_of l adx = None" using assms by (simp add: map_of_eq_None_iff)
  moreover have "json_for (JArray (map material_json ms)) (\<lambda>x l. bind_cxx (parse_material x) (\<lambda>m. Inr (l @ [m]))) l =
      Inr (l @ ms)" if "list_all material_ok ms" for ms l
    using that json_for_append [of ms parse_material material_json "\<lambda>m. m"]
    by (simp add: list_all_iff parse_material_json)
  ultimately show ?thesis
    using assms(1)
    by (cases c) (simp add: parse_creative_def creative_json_def creative_ok_def creative_at_def clear_creative_def)
qed

lemma DataParseCreate_json:
  assumes "list_all creative_ok cs" "smap_ok cs" "map_of ms ''create'' = Some (JArray (map (\<lambda>(_, c). creative_json c) cs))"
  shows "DataParseCreate (JObject ms) [] = Inr cs"
proof -
  have "fold_cxx (\<lambda>e. parse_creative (case e of (_, c) \<Rightarrow> creative_json c)) cs l = Inr (l @ cs)"
    if "smap_ok (l @ cs)" for l
    using that assms(1)
  proof (induction cs arbitrary: l)
    case (Cons e cs)
    obtain adx c where e: "e = (adx, c)" by (cases e)
    have lt: "\<forall>k' \<in> fst ` set l. k' < adx" using Cons.prems(1) e by (auto simp: smap_ok_def sorted_wrt_append)
    then have "adx \<notin> fst ` set l" by blast
    with Cons.prems(2) e have "parse_creative (creative_json c) l = Inr (smap_upd adx c l)"
      by (intro parse_creative_json) simp_all
    with Cons e lt show ?case by (simp add: smap_upd_last)
  qed simp
  from this [of "[]"] assms show ?thesis
    by (simp add: DataParseCreate_def json_for_array fold_cxx_map)
qed

section \<open>The whole unit\<close>

definition unit_json :: "AdPlanningUnit \<Rightarrow> Json" where
  "unit_json u = JObject
    [(''order'', order_json (m_stOrder u)), (''pid'', JArray (map pid_json (m_ltPidInfo u))),
     (''range'', time_json (m_stTime u)), (''area'', strs_json (m_ltArea (m_stTargetAudience u))),
     (''marks'', JArray (map audience_json (m_ltAudience u))),
     (''mark'', mark_keys AD_MARK_PUBLIC (m_ltKeyWord u)),
     (''acc_cus_keyword'', mark_keys AD_KEYS_ACC_CUS (m_ltKeyWord u)),
     (''dim_cus_keyword'', mark_keys AD_KEYS_DIM_CUS (m_ltKeyWord u)),
     (''private_mark'', mark_keys AD_MARK_PRIVATE (m_ltKeyWord u)),
     (''device'', device_json (m_stMobile u)),
     (''patform'', JString (if m_bEnable (m_stMobile u) then ''2'' else ''1'')),
     (''create'', JArray (map (\<lambda>(_, c). creative_json c) (m_mCreativeInfo u))),
     (''ban_list'', ints_json (m_ltBanId (m_stOrder u))),
     (''timestamp'', JString (fmt_d (m_uiTimeStamp (m_stOrder u))))]"

text \<open>
  What a document can say: strings without a NUL, times of seven days, key words by type, creatives
  under their exchange; the fields that the loader computes have their values.
\<close>

definition unit_ok :: "AdPlanningUnit \<Rightarrow> bool" where
  "unit_ok u \<longleftrightarrow> no_nul (m_sTanxAdId (m_stOrder u)) \<and> m_uiTotalBudget (m_stOrder u) = 0 \<and>
     m_ltBanContent (m_stOrder u) = [] \<and>
     m_uiNice (m_stOrder u) = (if m_ltKeyWord u \<noteq> [] then AD_ORDER_NICE
        else if m_ltAudience u \<noteq> [] then AD_ORDER_AUDIENCE else AD_ORDER_BASE) \<and>
     list_all pid_ok (m_ltPidInfo u) \<and> time_ok (m_stTime u) \<and>
     list_all no_nul (m_ltArea (m_stTargetAudience u)) \<and> list_all audience_ok (m_ltAudience u) \<and>
     marks_ok (m_ltKeyWord u) \<and> list_all creative_ok (m_mCreativeInfo u) \<and> smap_ok (m_mCreativeInfo u) \<and>
     m_pltBanPidList u = None \<and> m_pAdvancedPrice u = None"

lemma DataParse_json:
  assumes "unit_ok u" "parse (c_str sJson) = Some (unit_json u)"
  shows "DataParse parse sJson clear_unit = Inr (AD_SUCCESS, u)"
proof -
  define ms where "ms = (case unit_json u of JObject ms \<Rightarrow> ms | _ \<Rightarrow> [])"
  have v: "unit_json u = JObject ms" by (simp add: ms_def unit_json_def)
  have m: "map_of ms ''order'' = Some (order_json (m_stOrder u))"
    "map_of ms ''pid'' = Some (JArray (map pid_json (m_ltPidInfo u)))"
    "map_of ms ''range'' = Some (time_json (m_stTime u))"
    "map_of ms ''area'' = Some (strs_json (m_ltArea (m_stTargetAudience u)))"
    "map_of ms ''marks'' = Some (JArray (map audience_json (m_ltAudience u)))"
    "map_of ms ''mark'' = Some (mark_keys AD_MARK_PUBLIC (m_ltKeyWord u))"
    "map_of ms ''acc_cus_keyword'' = Some (mark_keys AD_KEYS_ACC_CUS (m_ltKeyWord u))"
    "map_of ms ''dim_cus_keyword'' = Some (mark_keys AD_KEYS_DIM_CUS (m_ltKeyWord u))"
    "map_of ms ''private_mark'' = Some (mark_keys AD_MARK_PRIVATE (m_ltKeyWord u))"
    "map_of ms ''device'' = Some (device_json (m_stMobile u))"
    "map_of ms ''patform'' = Some (JString (if m_bEnable (m_stMobile u) then ''2'' else ''1''))"
    "map_of ms ''create'' = Some (JArray (map (\<lambda>(_, c). creative_json c) (m_mCreativeInfo u)))"
    "map_of ms ''ban_list'' = Some (ints_json (m_ltBanId (m_stOrder u)))"
    "map_of ms ''timestamp'' = Some (JString (fmt_d (m_uiTimeStamp (m_stOrder u))))"
    by (simp_all add: ms_def unit_json_def)
  let ?od = "(m_stOrder u)\<lparr>m_uiTotalBudget := 0, m_uiTimeStamp := 0, m_uiNice := AD_ORDER_BASE,
    m_ltBanId := [], m_ltBanContent := []\<rparr>"
  note ok = assms(1) [unfolded unit_ok_def]
  have p1: "json_when (JObject ms) ''order'' parse_order (m_stOrder clear_unit) = Inr ?od"
    using ok by (simp add: json_when_object m(1) parse_order_json clear_unit_def)
  have p2: "json_when (JObject ms) ''pid'' (\<lambda>v. json_for v parse_pid) (m_ltPidInfo clear_unit) = Inr (m_ltPidInfo u)"
    using ok by (simp add: json_when_object m(2) parse_pids_json clear_unit_def)
  have p3: "DataParseTime (JObject ms) (m_stTime clear_unit) = Inr (m_stTime u)"
    using ok by (simp add: DataParseTime_json [OF _ m(3)] clear_unit_def)
  have p4: "json_strs (JObject ms) ''area'' (m_ltArea (m_stTargetAudience clear_unit)) = Inr (m_ltArea (m_stTargetAudience u))"
    using ok by (simp add: json_strs_object [OF m(4)] clear_unit_def)
  have p5: "json_when (JObject ms) ''marks'' (\<lambda>v nice. Inr (if json_size v > 0 then AD_ORDER_AUDIENCE else nice)) n =
      Inr (if m_ltAudience u \<noteq> [] then AD_ORDER_AUDIENCE else n)" for n
    by (simp add: json_when_object m(5) json_size_def)
  have p6: "DataParseAudience (JObject ms) (m_ltAudience clear_unit) = Inr (m_ltAudience u)"
    using ok by (simp add: DataParseAudience_json [OF _ m(5)] clear_unit_def)
  have p7: "DataParseMark (JObject ms) (m_ltKeyWord clear_unit) = Inr (m_ltKeyWord u)"
    using ok DataParseMark_json [OF _ m(6) m(7) m(8) m(9)] by (simp add: clear_unit_def)
  have p8: "json_when (JObject ms) ''device'' parse_device (m_stMobile clear_unit) = Inr ((m_stMobile u)\<lparr>m_bEnable := False\<rparr>)"
    by (simp add: json_when_object m(10) parse_device_json clear_unit_def)
  have p9: "DataParseCreate (JObject ms) (m_mCreativeInfo clear_unit) = Inr (m_mCreativeInfo u)"
    using ok by (simp add: DataParseCreate_json [OF _ _ m(12)] clear_unit_def)
  have p10: "json_ints (JObject ms) ''ban_list'' [] = Inr (m_ltBanId (m_stOrder u))"
    by (simp add: json_ints_object [OF m(13)])
  have p11: "json_opt (JObject ms) ''timestamp'' json_str (\<lambda>s _. atoi s) n = Inr (m_uiTimeStamp (m_stOrder u))" for n
    by (simp add: json_opt_def m(14) atoi_fmt_d)
  have "parse_unit (JObject ms) clear_unit = Inr (present True AD_SUCCESS,
    clear_unit\<lparr>m_stOrder := ?od\<lparr>m_uiNice := m_uiNice (m_stOrder u), m_ltBanId := m_ltBanId (m_stOrder u),
                     m_uiTimeStamp := m_uiTimeStamp (m_stOrder u)\<rparr>,
      m_ltPidInfo := m_ltPidInfo u, m_stTime := m_stTime u, m_stTargetAudience := \<lparr>m_ltArea = m_ltArea (m_stTargetAudience u)\<rparr>,
      m_ltAudience := m_ltAudience u, m_ltKeyWord := m_ltKeyWord u, m_stMobile := m_stMobile u,
      m_mCreativeInfo := m_mCreativeInfo u\<rparr>)"
    using ok
    by (simp add: parse_unit_def p1 p2 p3 p4 p5 p6 p7 p8 p9 p10 p11 parse_platform_json [OF m(11)]
        m(1,2,3,4,12,13) del: json_object_simps(2-))
  also have "\<dots> = Inr (AD_SUCCESS, u)"
    using ok by (auto simp: clear_unit_def present_def
        intro!: AdPlanningUnit.equality AdOrderInfo.equality AdTargetAudience.equality)
  finally have "parse_unit (JObject ms) clear_unit = Inr (AD_SUCCESS, u)" .
  with assms(2) v show ?thesis by (simp add: DataParse_def)
qed

text \<open>
  C24. A planning unit written as a JSON document with the members the loader looks for is read back by
  \<^verbatim>\<open>DataParse\<close> with every field: order, pids, hours of the week, areas, audiences, key words, devices,
  creatives, ban list and time stamp. Nothing is read outside an array.
\<close>

theorem unit_roundtrip:
  assumes "unit_ok u" "parse (c_str sJson) = Some (unit_json u)"
  shows "DataParse parse sJson clear_unit = Inr (AD_SUCCESS, u)"
  using assms by (rule DataParse_json)

text \<open>A unit for the first exchange, with a day, an audience and a creative.\<close>

definition demo_unit_doc :: AdPlanningUnit where
  "demo_unit_doc = clear_unit
    \<lparr>m_stOrder := clear_order\<lparr>m_uiExecuteId := 7, m_uiTargetPrice := 100, m_uiNice := AD_ORDER_AUDIENCE, m_ltBanId := [4]\<rparr>,
     m_stTime := clear_time\<lparr>bPush := True, m_stDay := \<lparr>m_uiWeek = 1, m_uiBudget = 50, m_uiHour = 0x801\<rparr> # replicate 6 empty_day\<rparr>,
     m_ltPidInfo := [\<lparr>m_uiAdxId = 1, m_uiMode = AD_PID_MODE_FIXED, m_ltPidList = [''p'']\<rparr>],
     m_ltAudience := [clear_audience\<lparr>m_sAudienceID := ''a'', m_mVisit := [(''m'', 7)]\<rparr>],
     m_mCreativeInfo := [(1, clear_creative\<lparr>m_sAdxId := ''1'', m_ltMaterials := [clear_material\<lparr>m_sCreateId := ''5''\<rparr>]\<rparr>)]\<rparr>"

lemma demo_unit_doc_ok: "unit_ok demo_unit_doc"
proof -
  have "atoi ''5'' = 5" "fmt_d 5 = ''5''" "atoi ''1'' = 1" by code_simp+
  then show ?thesis
    by (simp add: demo_unit_doc_def unit_ok_def clear_unit_def clear_order_def clear_time_def pid_ok_def time_ok_def
        audience_ok_def times_ok_def marks_ok_def creative_ok_def material_ok_def clear_audience_def clear_creative_def
        clear_material_def no_nul_def)
qed

lemma unit_roundtrip_witness:
  "DataParse (\<lambda>_. Some (unit_json demo_unit_doc)) ''doc'' clear_unit = Inr (AD_SUCCESS, demo_unit_doc)"
  by (rule unit_roundtrip) (simp_all add: demo_unit_doc_ok)

end
