(* ===== verification/AdPlanningCorrect.thy ===== *)
theory AdPlanningCorrect
  imports AdPlanningRoundtrip
begin

text \<open>
  What the updates of the planning data do to the two maps of units: which units are loaded from which
  texts, that a failed update leaves the units in use, what every loaded unit satisfies, and how the
  pointers to advanced prices outlive what they point to.
\<close>

section \<open>The server as hashes\<close>

definition hash_keys :: "hiredis \<Rightarrow> string \<Rightarrow> string list option" where
  "hash_keys srv key = (case redisReplyOf srv [''HKEYS'', c_str key] of
      Some (REDIS_REPLY_ARRAY ks) \<Rightarrow> Some (map c_str ks) | Some REDIS_REPLY_NIL \<Rightarrow> Some [] | _ \<Rightarrow> None)"

definition hash_field :: "hiredis \<Rightarrow> string \<Rightarrow> string \<Rightarrow> string option" where
  "hash_field srv key field = (case redisReplyOf srv [''HGET'', c_str key, c_str field] of
      Some (REDIS_REPLY_STRING s) \<Rightarrow> Some (c_str s) | Some REDIS_REPLY_NIL \<Rightarrow> Some [] | _ \<Rightarrow> None)"

lemma AdRedisHkeys_eq:
  "m_pGtCli cli \<Longrightarrow> key \<noteq> [] \<Longrightarrow> AdRedisHkeys srv cli key =
     Inr (case hash_keys srv key of None \<Rightarrow> (AD_FAILURE, []) | Some ks \<Rightarrow> (AD_SUCCESS, ks))"
  by (simp add: AdRedisHkeys_def hash_keys_def split: option.split redisReply.split)

lemma AdRedisHGet_eq:
  "m_pGtCli cli \<Longrightarrow> AdRedisHGet srv cli key field =
     Inr (case hash_field srv key field of None \<Rightarrow> (AD_FAILURE, []) | Some s \<Rightarrow> (AD_SUCCESS, s))"
  by (simp add: AdRedisHGet_def hash_field_def split: option.split redisReply.split)

section \<open>Loading the units\<close>

text \<open>
  A text is bad (\<open>None\<close>: it throws or is no unit), not of today (\<open>Some None\<close>) or a unit of today.
\<close>

definition accepts :: "planning_env \<Rightarrow> string \<Rightarrow> AdPlanningUnit option option" where
  "accepts env s =
     (case DataJsonCheck (pe_json env) (pe_now env) (pe_date env) s of
        Inl _ \<Rightarrow> None
      | Inr r \<Rightarrow>
          if r \<noteq> AD_SUCCESS then Some None
          else case DataParse (pe_json env) s clear_unit of
            Inl _ \<Rightarrow> None
          | Inr (r, u) \<Rightarrow> if r = AD_SUCCESS then Some (Some u) else None)"

definition today_units :: "planning_env \<Rightarrow> string list \<Rightarrow> AdPlanningUnit list" where
  "today_units env vals = List.map_filter (\<lambda>s. case accepts env s of Some (Some u) \<Rightarrow> Some u | _ \<Rightarrow> None) vals"

definition keyed :: "AdPlanningUnit list \<Rightarrow> unit_map \<Rightarrow> unit_map" where
  "keyed us m = fold (\<lambda>u. smap_upd (eid u) u) us m"

lemma DataPush_cases:
  assumes "DataPush env s m = Inr (ret, m')"
  shows "(ret = AD_SUCCESS \<and> (\<exists>a. accepts env s = Some a \<and>
            m' = (case a of None \<Rightarrow> m | Some u \<Rightarrow> smap_upd (eid u) u m))) \<or>
         (ret = AD_FAILURE \<and> accepts env s = None)"
  using assms
  by (auto simp: DataPush_def accepts_def bind_cxx_Inr_iff split: if_splits prod.splits)

lemma push_all_success:
  assumes "push_all env cli ks m = Inr (AD_SUCCESS, m')" "m_pGtCli cli"
  shows "\<exists>vals. map (hash_field (pe_redis env) ''exec:raw'') ks = map Some vals \<and>
    list_all (\<lambda>s. accepts env s \<noteq> None) vals \<and> m' = keyed (today_units env vals) m"
  using assms(1)
proof (induction ks arbitrary: m)
  case Nil
  then show ?case by (intro exI [of _ "[]"]) (simp add: keyed_def today_units_def map_filter_simps)
next
  case (Cons k ks)
  from Cons.prems obtain s m1 where s: "hash_field (pe_redis env) ''exec:raw'' k = Some s"
    and p: "DataPush env s m = Inr (AD_SUCCESS, m1)" and r: "push_all env cli ks m1 = Inr (AD_SUCCESS, m')"
    by (auto simp: AdRedisHGet_eq assms(2) bind_cxx_Inr_iff split: option.splits if_splits prod.splits)
  from DataPush_cases [OF p] obtain a where a: "accepts env s = Some a"
      "m1 = (case a of None \<Rightarrow> m | Some u \<Rightarrow> smap_upd (eid u) u m)" by auto
  from Cons.IH [OF r] obtain vals where
    "map (hash_field (pe_redis env) ''exec:raw'') ks = map Some vals"
    "list_all (\<lambda>s. accepts env s \<noteq> None) vals" "m' = keyed (today_units env vals) m1" by blast
  with s a show ?case
    by (intro exI [of _ "s # vals"])
      (auto simp: keyed_def today_units_def map_filter_simps split: option.split)
qed

text \<open>Nothing but the ban content changes when the ban lists are read.\<close>

definition strip_ban :: "AdPlanningUnit \<Rightarrow> AdPlanningUnit" where
  "strip_ban u = u\<lparr>m_stOrder := (m_stOrder u)\<lparr>m_ltBanContent := []\<rparr>\<rparr>"

abbreviation strip_map :: "unit_map \<Rightarrow> unit_map" where
  "strip_map \<equiv> map (\<lambda>(k, u). (k, strip_ban u))"

lemma DataUpdateBanList_strip: "DataUpdateBanList env cli m = Inr (ret, m') \<Longrightarrow> strip_map m' = strip_map m"
proof (induction m arbitrary: ret m')
  case (Cons e m)
  then show ?case
    by (cases e) (auto simp: bind_cxx_Inr_iff Let_def strip_ban_def split: prod.splits if_splits)
qed simp

lemma today_units_eid: "eid (strip_ban u) = eid u"
  by (simp add: strip_ban_def)

text \<open>What \<open>data_load\<close> leaves: the front map and the time stamp always, and on success new units behind.\<close>

definition loaded :: "planning_env \<Rightarrow> unit_map \<Rightarrow> bool" where
  "loaded env m \<longleftrightarrow> (\<exists>ks vals. hash_keys (pe_redis env) ''exec:raw'' = Some ks \<and>
     map (hash_field (pe_redis env) ''exec:raw'') ks = map Some vals \<and>
     list_all (\<lambda>s. accepts env s \<noteq> None) vals \<and> strip_map m = strip_map (keyed (today_units env vals) []))"

lemma data_load_success:
  assumes "data_load env d = Inr (AD_SUCCESS, ts, d')" "m_pGtCli (m_cli d)" "ts \<noteq> m_iLastTimeStamp d"
  obtains ks m m' where "hash_keys (pe_redis env) ''exec:raw'' = Some ks"
    "push_all env (m_cli d) ks [] = Inr (AD_SUCCESS, m)" "DataUpdateBanList env (m_cli d) m = Inr (AD_SUCCESS, m')"
    "d' = d\<lparr>m_mData := pp_set True (\<lambda>_. m') (m_mData d)\<rparr>"
proof -
  obtain r t where g: "AdRedisGet (pe_redis env) (m_cli d) ''exec:timestamp'' 0 = Inr (r, t)"
    using assms(1) by (auto simp: data_load_def bind_cxx_Inr_iff)
  with assms(1,3) have r: "r = AD_SUCCESS" "t = ts" "t \<noteq> m_iLastTimeStamp d"
    by (auto simp: data_load_def bind_cxx_Inr_iff split: if_splits)
  obtain ks where ks: "hash_keys (pe_redis env) ''exec:raw'' = Some ks"
    using assms(1) g r
    by (cases "hash_keys (pe_redis env) ''exec:raw''") (auto simp: data_load_def AdRedisHkeys_eq assms(2))
  obtain r' m where p: "push_all env (m_cli d) ks [] = Inr (r', m)"
    using assms(1) g r ks by (cases "push_all env (m_cli d) ks []") (auto simp: data_load_def AdRedisHkeys_eq assms(2))
  with assms(1) g r ks have "r' = AD_SUCCESS"
    by (cases "r' = AD_SUCCESS") (auto simp: data_load_def AdRedisHkeys_eq assms(2))
  moreover obtain r'' m' where b: "DataUpdateBanList env (m_cli d) m = Inr (r'', m')"
    using assms(1) g r ks p calculation
    by (cases "DataUpdateBanList env (m_cli d) m") (auto simp: data_load_def AdRedisHkeys_eq assms(2))
  ultimately show thesis
    using assms(1) g r ks p b
    by (intro that [of ks m m']) (auto simp: data_load_def AdRedisHkeys_eq assms(2))
qed

lemma data_load_frame:
  assumes "data_load env d = Inr (ret, ts, d')"
  shows "\<exists>m. d' = d \<or> d' = d\<lparr>m_mData := pp_set True (\<lambda>_. m) (m_mData d)\<rparr>"
  using assms by (auto simp: data_load_def bind_cxx_Inr_iff split: if_splits prod.splits)

lemma data_load_cases:
  assumes "data_load env d = Inr (ret, ts, d')" "m_pGtCli (m_cli d)"
  shows "DataGetCache d' = DataGetCache d \<and> m_iLastTimeStamp d' = m_iLastTimeStamp d \<and>
    (ret = AD_SUCCESS \<longrightarrow> ts \<noteq> m_iLastTimeStamp d \<longrightarrow> loaded env (pp_Get True (m_mData d')))"
proof (intro conjI impI)
  assume *: "ret = AD_SUCCESS" "ts \<noteq> m_iLastTimeStamp d"
  obtain ks m m' where l: "hash_keys (pe_redis env) ''exec:raw'' = Some ks"
    "push_all env (m_cli d) ks [] = Inr (AD_SUCCESS, m)" "DataUpdateBanList env (m_cli d) m = Inr (AD_SUCCESS, m')"
    "d' = d\<lparr>m_mData := pp_set True (\<lambda>_. m') (m_mData d)\<rparr>"
    by (rule data_load_success [OF assms(1) [unfolded *(1)] assms(2) *(2)])
  from push_all_success [OF l(2) assms(2)] l DataUpdateBanList_strip [OF l(3)]
  show "loaded env (pp_Get True (m_mData d'))" unfolding loaded_def by auto
qed (use data_load_frame [OF assms(1)] in \<open>auto simp: DataGetCache_def\<close>)

section \<open>The outcome of an update\<close>

lemma DataUpdateForSystem_frame:
  "DataUpdateForSystem env d = Inr (ret, d') \<Longrightarrow> \<exists>cli. d' = d\<lparr>m_cli := cli\<rparr>"
proof -
  have "\<exists>cli. d = d\<lparr>m_cli := cli\<rparr>" by (rule exI [of _ "m_cli d"]) simp
  then show "DataUpdateForSystem env d = Inr (ret, d') \<Longrightarrow> ?thesis"
    by (auto simp: DataUpdateForSystem_def Let_def bind_cxx_Inr_iff split: if_splits prod.splits)
qed

definition kept :: "AdPlanningData \<Rightarrow> AdPlanningData \<Rightarrow> bool" where
  "kept d d' \<longleftrightarrow> DataGetCache d' = DataGetCache d \<and> m_iLastTimeStamp d' = m_iLastTimeStamp d"

lemma DataUpdate_outcome:
  assumes "DataUpdate env d = Inr (ret, n, d')"
  shows "(kept d d' \<and> n = 0) \<or>
    (loaded env (DataGetCache d') \<and> pp_Get True (m_mData d') = DataGetCache d \<and>
     n = of_nat (length (DataGetCache d')) \<and> m_iLastTimeStamp d' \<noteq> m_iLastTimeStamp d)"
proof -
  obtain r cli where c: "AdRedisConnect (pe_redis env) (m_cli d) = Inr (r, cli)"
    using assms by (auto simp: DataUpdate_def bind_cxx_Inr_iff)
  show ?thesis
  proof (cases "r = AD_SUCCESS")
    case False
    with assms c show ?thesis by (auto simp: DataUpdate_def kept_def DataGetCache_def)
  next
    case True
    then have cli: "m_pGtCli cli" using AdRedisConnect_cases(3) [OF c] by simp
    let ?d = "d\<lparr>m_cli := cli\<rparr>"
    obtain r1 ts d1 where l: "data_load env ?d = Inr (r1, ts, d1)"
      using assms c True by (auto simp: DataUpdate_def bind_cxx_Inr_iff)
    have dl: "DataGetCache d1 = DataGetCache d" "m_iLastTimeStamp d1 = m_iLastTimeStamp d"
      "r1 = AD_SUCCESS \<Longrightarrow> ts \<noteq> m_iLastTimeStamp d \<Longrightarrow> loaded env (pp_Get True (m_mData d1))"
      using data_load_cases [OF l] cli by (simp_all add: DataGetCache_def)
    let ?d1 = "d1\<lparr>m_cli := AdRedisClose (m_cli d1)\<rparr>"
    show ?thesis
    proof (cases "r1 = AD_SUCCESS \<and> ts \<noteq> m_iLastTimeStamp d")
      case False
      with assms c True l dl show ?thesis by (auto simp: DataUpdate_def kept_def DataGetCache_def)
    next
      case sw: True
      obtain r2 d2 where s: "DataUpdateForSystem env ?d1 = Inr (r2, d2)"
        using assms c True l dl sw by (auto simp: DataUpdate_def bind_cxx_Inr_iff split: if_splits)
      from DataUpdateForSystem_frame [OF s] have "m_mData d2 = m_mData d1" by auto
      with assms c True l dl sw s show ?thesis
        by (auto simp: DataUpdate_def DataGetCache_def)
    qed
  qed
qed

lemma map_of_keyed: "map_of (keyed us m) = map_of m ++ map_of (rev (map (\<lambda>u. (eid u, u)) us))"
  by (induction us arbitrary: m) (auto simp: keyed_def map_add_def fun_eq_iff split: option.split)

lemma map_of_strip: "map_of (strip_map m) e = map_option strip_ban (map_of m e)"
  by (induction m) auto

lemma loaded_lookup:
  assumes "loaded env m"
  shows "\<exists>ks vals. hash_keys (pe_redis env) ''exec:raw'' = Some ks \<and>
    map (hash_field (pe_redis env) ''exec:raw'') ks = map Some vals \<and>
    list_all (\<lambda>s. accepts env s \<noteq> None) vals \<and>
    (\<forall>e. map_option strip_ban (map_of m e) = map_option strip_ban
      (map_of (rev (map (\<lambda>u. (eid u, u)) (today_units env vals))) e))"
proof -
  obtain ks vals where l: "hash_keys (pe_redis env) ''exec:raw'' = Some ks"
    "map (hash_field (pe_redis env) ''exec:raw'') ks = map Some vals" "list_all (\<lambda>s. accepts env s \<noteq> None) vals"
    and s: "strip_map m = strip_map (keyed (today_units env vals) [])"
    using assms by (auto simp: loaded_def)
  have "map_option strip_ban (map_of m e) = map_option strip_ban (map_of (keyed (today_units env vals) []) e)" for e
    using s by (simp flip: map_of_strip)
  with l show ?thesis by (intro exI [of _ ks] exI [of _ vals]) (simp add: map_of_keyed)
qed

text \<open>
  C25. An update of the planning data either keeps the units in use and the time stamp, or it replaces them all:
  then every text of \<^verbatim>\<open>exec:raw\<close> was readable, an order is found exactly when a text of it runs today (the
  last such text, with its ban list filled in), the old units are behind, and the number of units is
  returned.
\<close>

theorem data_update_outcome:
  assumes "DataUpdate env d = Inr (ret, n, d')"
  shows "(DataGetCache d' = DataGetCache d \<and> m_iLastTimeStamp d' = m_iLastTimeStamp d \<and> n = 0) \<or>
    (m_iLastTimeStamp d' \<noteq> m_iLastTimeStamp d \<and> pp_Get True (m_mData d') = DataGetCache d \<and>
     n = of_nat (length (DataGetCache d')) \<and>
     (\<exists>ks vals. hash_keys (pe_redis env) ''exec:raw'' = Some ks \<and>
       map (hash_field (pe_redis env) ''exec:raw'') ks = map Some vals \<and>
       list_all (\<lambda>s. accepts env s \<noteq> None) vals \<and>
       (\<forall>e. map_option strip_ban (DataSearch e d') = map_option strip_ban
         (map_of (rev (map (\<lambda>u. (eid u, u)) (today_units env vals))) e))))"
proof -
  show ?thesis
    using DataUpdate_outcome [OF assms] loaded_lookup [of env "DataGetCache d'"]
    by (auto simp: kept_def DataSearch_def)
qed

text \<open>
  One entry of \<^verbatim>\<open>exec:raw\<close> that is no complete unit (a member is missing, or the value has disappeared
  between \<^verbatim>\<open>HKEYS\<close> and \<^verbatim>\<open>HGET\<close>) blocks the update of all other orders: whenever the update returns,
  the units in use are the old ones.
\<close>

theorem bad_text_blocks_update:
  assumes "DataUpdate env d = Inr (ret, n, d')" "hash_keys (pe_redis env) ''exec:raw'' = Some ks" "k \<in> set ks"
    and "hash_field (pe_redis env) ''exec:raw'' k = Some s" "accepts env s = None"
  shows "DataGetCache d' = DataGetCache d \<and> m_iLastTimeStamp d' = m_iLastTimeStamp d \<and> n = 0"
proof -
  have "\<not> loaded env m" for m
  proof
    assume "loaded env m"
    then obtain vals where v: "map (hash_field (pe_redis env) ''exec:raw'') ks = map Some vals"
      "list_all (\<lambda>s. accepts env s \<noteq> None) vals" using assms(2) by (auto simp: loaded_def)
    have "Some s \<in> set (map Some vals)" using assms(3,4) by (simp flip: v(1)) force
    with v(2) assms(5) show False by (auto simp: list_all_iff)
  qed
  with DataUpdate_outcome [OF assms(1)] show ?thesis by (simp add: kept_def)
qed

text \<open>A server with one order, whose entry is gone when it is read.\<close>

definition demo_redis :: "string list \<Rightarrow> (string \<Rightarrow> string) \<Rightarrow> hiredis" where
  "demo_redis ks val = \<lparr>redisConnect = (\<lambda>_ _. True), redisReplyOf = (\<lambda>args.
     if hd args = ''GET'' then Some (REDIS_REPLY_STRING ''9'')
     else if hd args = ''HKEYS'' then Some (REDIS_REPLY_ARRAY ks)
     else if hd args = ''HGET'' then (if val (args ! 2) = [] then Some REDIS_REPLY_NIL else Some (REDIS_REPLY_STRING (val (args ! 2))))
     else None)\<rparr>"

definition demo_planning_env :: "string list \<Rightarrow> (string \<Rightarrow> string) \<Rightarrow> planning_env" where
  "demo_planning_env ks val = \<lparr>pe_redis = demo_redis ks val, pe_json = (\<lambda>_. None), pe_now = 0, pe_date = (\<lambda>_. 0)\<rparr>"

lemma bad_text_blocks_update_witness:
  "\<exists>ret d'. DataUpdate (demo_planning_env [''7''] (\<lambda>_. [])) AdPlanningData_new = Inr (ret, 0, d') \<and>
     DataGetCache d' = []"
proof -
  let ?env = "demo_planning_env [''7''] (\<lambda>_. [])"
  have a: "atoi ''9'' = 9" by code_simp
  have "\<exists>d'. DataUpdate ?env AdPlanningData_new = Inr (AD_FAILURE, 0, d')"
    by (simp add: DataUpdate_def AdRedisConnect_def redis_auth_def AdPlanningData_new_def AdRedisCli_new_def
        demo_planning_env_def demo_redis_def data_load_def AdRedisGet_def reply_int_def a AdRedisHkeys_def
        AdRedisHGet_def DataPush_def DataJsonCheck_def DataParse_def c_str_def)
  then obtain d' where d': "DataUpdate ?env AdPlanningData_new = Inr (AD_FAILURE, 0, d')" by blast
  have "DataGetCache d' = DataGetCache AdPlanningData_new"
    using bad_text_blocks_update [OF d', of "[''7'']" "''7''" "[]"]
    by (simp add: hash_keys_def hash_field_def demo_planning_env_def demo_redis_def c_str_def accepts_def
        DataJsonCheck_def DataParse_def)
  with d' show ?thesis by (auto simp: DataGetCache_def AdPlanningData_new_def pp_new_def pp_Get_def)
qed

text \<open>The same server with a document behind the entry.\<close>

definition demo_loading_env :: planning_env where
  "demo_loading_env = (demo_planning_env [''7''] (\<lambda>k. if k = ''7'' then ''doc'' else []))
     \<lparr>pe_json := (\<lambda>_. Some (unit_json demo_unit_doc)), pe_date := (\<lambda>_. - 1)\<rparr>"

lemma demo_push:
  "DataPush demo_loading_env ''doc'' [] = Inr (AD_SUCCESS, [(7, demo_unit_doc)])"
proof -
  have "DataJsonCheck (pe_json demo_loading_env) (pe_now demo_loading_env) (pe_date demo_loading_env) ''doc'' = Inr AD_SUCCESS"
    by (simp add: DataJsonCheck_def demo_loading_env_def demo_planning_env_def c_str_def unit_json_def time_json_def
        demo_unit_doc_def clear_unit_def clear_time_def json_asString_def)
  moreover have "DataParse (pe_json demo_loading_env) ''doc'' clear_unit = Inr (AD_SUCCESS, demo_unit_doc)"
    by (rule DataParse_json [OF demo_unit_doc_ok]) (simp add: demo_loading_env_def)
  moreover have "eid demo_unit_doc = 7" by (simp add: demo_unit_doc_def clear_unit_def)
  ultimately show ?thesis by (simp add: DataPush_def)
qed

lemma same_ban:
  "m_ltBanContent (m_stOrder u) = c \<Longrightarrow> u\<lparr>m_stOrder := (m_stOrder u)\<lparr>m_ltBanContent := c\<rparr>\<rparr> = (u :: AdPlanningUnit)"
  by (cases u; cases "m_stOrder u") simp

lemma demo_load:
  assumes "m_pGtCli (m_cli d)" "m_iLastTimeStamp d \<noteq> 9"
  shows "data_load demo_loading_env d = Inr (AD_SUCCESS, 9, d\<lparr>m_mData := pp_set True (\<lambda>_. [(7, demo_unit_doc)]) (m_mData d)\<rparr>)"
proof -
  let ?r = "pe_redis demo_loading_env"
  have a: "atoi ''9'' = 9" "sint (9 :: UINT) = 9" by code_simp+
  have "AdRedisGet ?r (m_cli d) ''exec:timestamp'' 0 = Inr (AD_SUCCESS, 9)"
    using assms by (simp add: AdRedisGet_def reply_int_def a demo_loading_env_def demo_planning_env_def demo_redis_def)
  moreover have "AdRedisHkeys ?r (m_cli d) ''exec:raw'' = Inr (AD_SUCCESS, [''7''])"
    using assms by (simp add: AdRedisHkeys_def c_str_def demo_loading_env_def demo_planning_env_def demo_redis_def)
  moreover have "AdRedisHGet ?r (m_cli d) ''exec:raw'' ''7'' = Inr (AD_SUCCESS, ''doc'')"
    using assms by (simp add: AdRedisHGet_def c_str_def demo_loading_env_def demo_planning_env_def demo_redis_def)
  moreover have "AdRedisHGet ?r (m_cli d) ''adv:ban'' (fmt_d 4) = Inr (AD_SUCCESS, [])"
  proof -
    have "fmt_d 4 = ''4''" by code_simp
    then show ?thesis
      using assms by (simp add: AdRedisHGet_def c_str_def demo_loading_env_def demo_planning_env_def demo_redis_def)
  qed
  moreover have "m_ltBanId (m_stOrder demo_unit_doc) = [4]" "m_ltBanContent (m_stOrder demo_unit_doc) = []"
    by (simp_all add: demo_unit_doc_def clear_unit_def clear_order_def)
  ultimately show ?thesis
    using assms by (simp add: data_load_def demo_push same_ban)
qed

definition demo_client :: AdRedisCli where
  "demo_client = AdRedisCli_new\<lparr>m_pGtCli := True\<rparr>"

definition demo_planning :: AdPlanningData where
  "demo_planning = AdPlanningData_new\<lparr>m_cli := AdRedisCli_new,
     m_mData := pp_Switch (pp_set True (\<lambda>_. [(7, demo_unit_doc)]) (pp_new [])), m_iLastTimeStamp := 9\<rparr>"

lemma demo_connect: "AdRedisConnect (pe_redis demo_loading_env) AdRedisCli_new = Inr (AD_SUCCESS, demo_client)"
  by (simp add: AdRedisConnect_def redis_auth_def demo_client_def AdRedisCli_new_def demo_loading_env_def
      demo_planning_env_def demo_redis_def)

lemma demo_update: "DataUpdate demo_loading_env AdPlanningData_new = Inr (AD_FAILURE, 1, demo_planning)"
proof -
  have l: "data_load demo_loading_env (AdPlanningData_new\<lparr>m_cli := demo_client\<rparr>) = Inr (AD_SUCCESS, 9,
      AdPlanningData_new\<lparr>m_cli := demo_client, m_mData := pp_set True (\<lambda>_. [(7, demo_unit_doc)]) (pp_new [])\<rparr>)"
    by (subst demo_load) (simp_all add: AdPlanningData_new_def demo_client_def)
  have s: "AdRedisSadd (pe_redis demo_loading_env) demo_client ''exec:today'' x = Inr AD_FAILURE" for x
    by (simp add: AdRedisSadd_def redis_write_def demo_client_def demo_loading_env_def demo_planning_env_def demo_redis_def)
  have "AdRedisClose demo_client = AdRedisCli_new"
    by (simp add: demo_client_def AdRedisClose_def AdRedisCli_new_def)
  then show ?thesis
    using l s demo_connect
    by (simp add: DataUpdate_def DataUpdateForSystem_def AdPlanningData_new_def demo_planning_def)
qed

lemma data_update_outcome_witness:
  "(\<exists>ret n d'. DataUpdate demo_loading_env AdPlanningData_new = Inr (ret, n, d') \<and>
     n = of_nat (length (DataGetCache d')) \<and> m_iLastTimeStamp d' \<noteq> 0)"
proof -
  have "m_iLastTimeStamp demo_planning = 9" "m_iLastTimeStamp AdPlanningData_new = 0"
    by (simp_all add: demo_planning_def AdPlanningData_new_def)
  moreover have "1 = (of_nat (length (DataGetCache demo_planning)) :: UINT)"
    using data_update_outcome [OF demo_update] by (elim disjE conjE) simp_all
  ultimately show ?thesis using demo_update by auto
qed

text \<open>
  When the units were loaded but announcing them in \<^verbatim>\<open>exec:today\<close> fails, \<^verbatim>\<open>DataUpdate\<close> returns a failure
  although it has switched to the new units and recorded their time stamp. The next call with the same
  time stamp returns success with no new units, so what follows the loading of new units is never done.
\<close>

theorem announce_failure_hidden:
  assumes "AdRedisConnect (pe_redis env) (m_cli d) = Inr (AD_SUCCESS, cli)"
    and "data_load env (d\<lparr>m_cli := cli\<rparr>) = Inr (AD_SUCCESS, ts, d1)" "ts \<noteq> m_iLastTimeStamp d"
    and "DataUpdateForSystem env (d1\<lparr>m_cli := AdRedisClose (m_cli d1)\<rparr>) = Inr (AD_FAILURE, d2)"
    and "AdRedisConnect (pe_redis env') (m_cli d2) = Inr (AD_SUCCESS, cli2)"
    and "AdRedisGet (pe_redis env') cli2 ''exec:timestamp'' 0 = Inr (AD_SUCCESS, ts)"
  shows "\<exists>n d3 d4. DataUpdate env d = Inr (AD_FAILURE, n, d3) \<and> DataGetCache d3 = pp_Get True (m_mData d1) \<and>
    m_iLastTimeStamp d3 = ts \<and> DataUpdate env' d3 = Inr (AD_SUCCESS, 0, d4) \<and> DataGetCache d4 = DataGetCache d3"
proof -
  obtain cli' where d2: "d2 = d1\<lparr>m_cli := cli'\<rparr>"
    using DataUpdateForSystem_frame [OF assms(4)] by auto
  have fr: "m_iLastTimeStamp d1 = m_iLastTimeStamp d" using data_load_frame [OF assms(2)] by auto
  let ?d3 = "d2\<lparr>m_iLastTimeStamp := ts, m_mData := pp_Switch (m_mData d2)\<rparr>"
  have "DataUpdate env d = Inr (AD_FAILURE, of_nat (length (pp_Get True (m_mData d2))), ?d3)"
    using assms(1,2,3,4) fr by (simp add: DataUpdate_def)
  moreover have "DataUpdate env' ?d3 = Inr (AD_SUCCESS, 0, ?d3\<lparr>m_cli := AdRedisClose cli2\<rparr>)"
    using assms(5,6) by (simp add: DataUpdate_def data_load_def)
  moreover have "DataGetCache ?d3 = pp_Get True (m_mData d1)" "m_iLastTimeStamp ?d3 = ts"
    "DataGetCache (?d3\<lparr>m_cli := AdRedisClose cli2\<rparr>) = DataGetCache ?d3"
    using d2 by (simp_all add: DataGetCache_def)
  ultimately show ?thesis by blast
qed

lemma announce_failure_hidden_witness:
  "\<exists>n d3 d4. DataUpdate demo_loading_env AdPlanningData_new = Inr (AD_FAILURE, n, d3) \<and> DataSearch 7 d3 = Some demo_unit_doc \<and>
    DataUpdate demo_loading_env d3 = Inr (AD_SUCCESS, 0, d4)"
proof -
  let ?d1 = "AdPlanningData_new\<lparr>m_cli := demo_client, m_mData := pp_set True (\<lambda>_. [(7, demo_unit_doc)]) (pp_new [])\<rparr>"
  have l: "data_load demo_loading_env (AdPlanningData_new\<lparr>m_cli := demo_client\<rparr>) = Inr (AD_SUCCESS, 9, ?d1)"
    by (subst demo_load) (simp_all add: AdPlanningData_new_def demo_client_def)
  have c: "AdRedisClose demo_client = AdRedisCli_new"
    by (simp add: demo_client_def AdRedisClose_def AdRedisCli_new_def)
  have s: "DataUpdateForSystem demo_loading_env (?d1\<lparr>m_cli := AdRedisClose (m_cli ?d1)\<rparr>) =
      Inr (AD_FAILURE, ?d1\<lparr>m_cli := AdRedisCli_new\<rparr>)"
    using demo_connect c by (simp add: DataUpdateForSystem_def AdRedisSadd_def redis_write_def demo_client_def
        demo_loading_env_def demo_planning_env_def demo_redis_def)
  have a: "atoi ''9'' = 9" "sint (9 :: UINT) = 9" by code_simp+
  have g: "AdRedisGet (pe_redis demo_loading_env) demo_client ''exec:timestamp'' 0 = Inr (AD_SUCCESS, 9)"
    by (simp add: AdRedisGet_def reply_int_def a demo_client_def demo_loading_env_def demo_planning_env_def demo_redis_def)
  have "AdRedisConnect (pe_redis demo_loading_env) (m_cli AdPlanningData_new) = Inr (AD_SUCCESS, demo_client)"
    using demo_connect by (simp add: AdPlanningData_new_def)
  from announce_failure_hidden [OF this l _ s _ g] show ?thesis
    using demo_connect by (fastforce simp: AdPlanningData_new_def DataSearch_def)
qed

section \<open>Advanced prices\<close>

lemma map_of_point_prices:
  "map_of (point_prices ps m) e = map_option (\<lambda>u. u\<lparr>m_pAdvancedPrice := map_of ps (eid u)\<rparr>) (map_of m e)"
  by (induction m) (auto simp: point_prices_def)

lemma advanced_load_units:
  "advanced_load env cli mData = Inr (ret, m, us) \<Longrightarrow>
   us = (if ret = AD_SUCCESS then point_prices m mData else mData)"
  by (auto simp: advanced_load_def bind_cxx_Inr_iff split: if_splits prod.splits)

lemma DataUpdateAdvancedPriceData_new:
  assumes "DataUpdateAdvancedPriceData env d = Inr (ret, d')"
  shows "\<exists>cli m us. d' = d\<lparr>m_cli := cli, m_mData := pp_set False (\<lambda>_. us) (m_mData d),
       m_mAdvancePrice := pp_Switch (pp_set True (\<lambda>_. m) (m_mAdvancePrice d))\<rparr> \<and>
     us = (if ret = AD_SUCCESS then point_prices m (DataGetCache d) else DataGetCache d)"
proof -
  obtain r cli where c: "AdRedisConnect (pe_redis env) (m_cli d) = Inr (r, cli)"
    using assms by (auto simp: DataUpdateAdvancedPriceData_def bind_cxx_Inr_iff)
  let ?new = "\<lambda>m us. d\<lparr>m_cli := AdRedisClose cli, m_mData := pp_set False (\<lambda>_. us) (m_mData d),
       m_mAdvancePrice := pp_Switch (pp_set True (\<lambda>_. m) (m_mAdvancePrice d))\<rparr>"
  have "\<exists>m us. d' = ?new m us \<and> us = (if ret = AD_SUCCESS then point_prices m (DataGetCache d) else DataGetCache d)"
  proof (cases "r = AD_SUCCESS")
    case True
    with assms c obtain m us where "advanced_load env cli (DataGetCache d) = Inr (ret, m, us)" "d' = ?new m us"
      by (auto simp: DataUpdateAdvancedPriceData_def bind_cxx_Inr_iff)
    then show ?thesis by (blast dest: advanced_load_units)
  qed (use assms c in \<open>auto simp: DataUpdateAdvancedPriceData_def\<close>)
  then show ?thesis by blast
qed

text \<open>
  After the prices were read every unit in use points to the prices of its own order in the map that
  was just filled, and to nothing when there are none. When reading fails the units are left as they are. The
  two maps are exchanged in both cases.
\<close>

theorem advanced_prices_pointed:
  assumes "DataUpdateAdvancedPriceData env d = Inr (ret, d')"
  shows "(ret = AD_SUCCESS \<longrightarrow> DataSearch e d' = map_option
      (\<lambda>u. u\<lparr>m_pAdvancedPrice := map_of (pp_Get False (m_mAdvancePrice d')) (eid u)\<rparr>) (DataSearch e d)) \<and>
    (ret \<noteq> AD_SUCCESS \<longrightarrow> DataGetCache d' = DataGetCache d) \<and>
    pp_Get True (m_mAdvancePrice d') = pp_Get False (m_mAdvancePrice d)"
  using DataUpdateAdvancedPriceData_new [OF assms] by (auto simp: DataSearch_def DataGetCache_def map_of_point_prices)

definition demo_price_env :: planning_env where
  "demo_price_env = (demo_planning_env [''7''] (\<lambda>_. ''doc''))
     \<lparr>pe_json := (\<lambda>_. Some (JArray [JObject [(''epv'', JInt 2), (''spid'', JString ''p'')]]))\<rparr>"

lemma advanced_prices_pointed_witness:
  "\<exists>d'. DataUpdateAdvancedPriceData demo_price_env demo_planning = Inr (AD_SUCCESS, d') \<and>
     map_option m_pAdvancedPrice (DataSearch 7 d') = Some (Some [(''p'',
       \<lparr>m_sPID = ''p'', m_iType = 0, m_iAdxId = 0, m_iEpv = 2000, m_iEprice = 0, m_iExecId = 7\<rparr>)])"
proof -
  have a: "atoi ''7'' = 7" "atoi [] = 0" "sint (7 :: UINT) = 7" "sint (2 :: UINT) = 2" by code_simp+
  have e: "eid demo_unit_doc = 7" by (simp add: demo_unit_doc_def clear_unit_def)
  have "\<exists>cli. DataUpdateAdvancedPriceData demo_price_env demo_planning = Inr (AD_SUCCESS, demo_planning
    \<lparr>m_cli := cli, m_mData := pp_set False (\<lambda>_. point_prices [(7, [(''p'',
       \<lparr>m_sPID = ''p'', m_iType = 0, m_iAdxId = 0, m_iEpv = 2000, m_iEprice = 0, m_iExecId = 7\<rparr>)])]
         (DataGetCache demo_planning)) (m_mData demo_planning),
     m_mAdvancePrice := pp_Switch (pp_set True (\<lambda>_. [(7, [(''p'',
       \<lparr>m_sPID = ''p'', m_iType = 0, m_iAdxId = 0, m_iEpv = 2000, m_iEprice = 0, m_iExecId = 7\<rparr>)])]) (m_mAdvancePrice demo_planning))\<rparr>)"
    by (simp add: DataUpdateAdvancedPriceData_def advanced_load_def AdRedisConnect_def redis_auth_def demo_planning_def AdPlanningData_new_def
        AdRedisCli_new_def demo_price_env_def demo_planning_env_def demo_redis_def AdRedisHkeys_def AdRedisHGet_def
        DataParseAdvancedPriceData_def json_for_array advanced_entry_def asInt_JInt json_asString_def json_asInt_def
        mul_int_def prices_at_def a c_str_def)
  then obtain d' where d': "DataUpdateAdvancedPriceData demo_price_env demo_planning = Inr (AD_SUCCESS, d')"
    and m: "pp_Get False (m_mAdvancePrice d') = [(7, [(''p'',
       \<lparr>m_sPID = ''p'', m_iType = 0, m_iAdxId = 0, m_iEpv = 2000, m_iEprice = 0, m_iExecId = 7\<rparr>)])]" by auto
  from advanced_prices_pointed [OF d', of 7] m e show ?thesis
    using d' by (auto simp: DataSearch_def DataGetCache_def demo_planning_def)
qed

end
