(* ===== verification/AdPlanningInvariant.thy ===== *)
theory AdPlanningInvariant
  imports AdPlanningCorrect
begin

text \<open>
  What every planning unit satisfies that the loader has made, and that the maps of units keep it under
  every sequence of updates from any server.
\<close>

section \<open>Units\<close>

definition unit_typed :: "AdPlanningUnit \<Rightarrow> bool" where
  "unit_typed u \<longleftrightarrow>
     m_uiNice (m_stOrder u) \<in> {AD_ORDER_NICE, AD_ORDER_BASE, AD_ORDER_AUDIENCE} \<and>
     (m_uiNice (m_stOrder u) = AD_ORDER_NICE \<longleftrightarrow> m_ltKeyWord u \<noteq> []) \<and>
     (m_ltKeyWord u = [] \<longrightarrow> m_ltAudience u \<noteq> [] \<longrightarrow> m_uiNice (m_stOrder u) = AD_ORDER_AUDIENCE) \<and>
     length (m_stDay (m_stTime u)) = AD_WEEK_DAYS \<and> smap_ok (m_mCreativeInfo u) \<and>
     (\<forall>p \<in> set (m_ltPidInfo u). m_uiMode p \<in> {AD_PID_MODE_FIXED, AD_PID_MODE_OTHER} \<or> m_ltPidList p = []) \<and>
     (\<forall>a \<in> set (m_ltAudience u). smap_ok (m_mSearch a) \<and> smap_ok (m_mVisit a) \<and> smap_ok (m_mUnVisit a))"

lemma fold_cxx_inv:
  assumes "fold_cxx f xs s = Inr s'" "P s" "\<And>x s s'. P s \<Longrightarrow> f x s = Inr s' \<Longrightarrow> P s'"
  shows "P s'"
  using assms(1,2)
proof (induction xs arbitrary: s)
  case (Cons x xs)
  then show ?case using assms(3) by (auto simp: bind_cxx_Inr_iff)
qed simp

lemma json_for_inv:
  assumes "json_for v body s = Inr s'" "P s" "\<And>x s s'. P s \<Longrightarrow> body x s = Inr s' \<Longrightarrow> P s'"
  shows "P s'"
  using assms(1) unfolding json_for_def
  by (rule fold_cxx_inv [where P = P]) (auto simp: assms(2) bind_cxx_Inr_iff dest: assms(3))

lemma json_when_inv:
  assumes "json_when v k body s = Inr s'" "P s" "\<And>x s'. body x s = Inr s' \<Longrightarrow> P s'"
  shows "P s'"
  using assms by (auto simp: json_when_def bind_cxx_Inr_iff split: if_splits)

lemma json_opt_inv:
  assumes "json_opt v k read put s = Inr s'" "P s" "\<And>x. P s \<Longrightarrow> P (put x s)"
  shows "P s'"
  using assms by (auto simp: json_opt_def bind_cxx_Inr_iff split: if_splits)

lemma day_set_length: "day_set n f t = Inr t' \<Longrightarrow> length (m_stDay t') = length (m_stDay t)"
  by (auto simp: day_set_def bind_cxx_Inr_iff)

lemma parse_day_length:
  assumes "parse_day v (n, t) = Inr (n', t')"
  shows "length (m_stDay t') = length (m_stDay t)"
proof -
  obtain t1 w b t2 hs where d: "day_set n (\<lambda>d. d\<lparr>m_uiWeek := w\<rparr>) t = Inr t1" "day_set n (\<lambda>d. d\<lparr>m_uiBudget := b\<rparr>) t1 = Inr t2"
    and f: "json_for hs (\<lambda>x t. bind_cxx (json_asInt x) (\<lambda>h. bind_cxx (hour_bit h) (\<lambda>b.
           day_set n (\<lambda>d. d\<lparr>m_uiHour := m_uiHour d OR b\<rparr>) t))) (t2\<lparr>bPush := True\<rparr>) = Inr t'"
    using assms by (auto simp: parse_day_def bind_cxx_Inr_iff)
  have "length (m_stDay t') = length (m_stDay t2)"
    using f by (rule json_for_inv [where P = "\<lambda>t. length (m_stDay t) = length (m_stDay t2)"])
      (auto simp: bind_cxx_Inr_iff dest: day_set_length)
  with d show ?thesis by (auto dest!: day_set_length)
qed

lemma DataParseTime_length: "DataParseTime value t = Inr t' \<Longrightarrow> length (m_stDay t') = length (m_stDay t)"
proof -
  assume "DataParseTime value t = Inr t'"
  then obtain st en week n where f: "json_for week parse_day (0, t\<lparr>bPush := False, m_sStart := st, m_sStop := en\<rparr>) = Inr (n, t')"
    by (auto simp: DataParseTime_def bind_cxx_Inr_iff)
  then have "case (n, t') of (_, t'') \<Rightarrow> length (m_stDay t'') = length (m_stDay t)"
    by (rule json_for_inv [where P = "\<lambda>(_, t''). length (m_stDay t'') = length (m_stDay t)"])
      (auto dest: parse_day_length)
  then show ?thesis by simp
qed

abbreviation pid_mode_ok :: "AdPidInfo \<Rightarrow> bool" where
  "pid_mode_ok p \<equiv> m_uiMode p \<in> {AD_PID_MODE_FIXED, AD_PID_MODE_OTHER} \<or> m_ltPidList p = []"

lemma parse_pid_mode:
  "json_for v parse_pid l = Inr l' \<Longrightarrow> \<forall>p \<in> set l. pid_mode_ok p \<Longrightarrow> \<forall>p \<in> set l'. pid_mode_ok p"
  by (erule json_for_inv [where P = "\<lambda>l. \<forall>p \<in> set l. pid_mode_ok p"])
    (auto simp: parse_pid_def bind_cxx_Inr_iff split: if_splits)

abbreviation maps_ok :: "AdAudienceNode \<Rightarrow> bool" where
  "maps_ok a \<equiv> smap_ok (m_mSearch a) \<and> smap_ok (m_mVisit a) \<and> smap_ok (m_mUnVisit a)"

lemma audience_tag_ok: "audience_tag v a = Inr a' \<Longrightarrow> maps_ok a \<Longrightarrow> maps_ok a'"
proof -
  assume t: "audience_tag v a = Inr a'" and a: "maps_ok a"
  have d: "audience_data v t x a = Inr a' \<Longrightarrow> maps_ok a \<Longrightarrow> maps_ok a'" for v t x a a'
    by (auto simp: audience_data_def bind_cxx_Inr_iff split: if_splits)
  from t consider "a' = a" | ds tm where "json_for ds (audience_data v tm) a = Inr a'"
    by (auto simp: audience_tag_def bind_cxx_Inr_iff Let_def split: if_splits)
  then show ?thesis
  proof cases
    case 2
    then show ?thesis using a d by (rule json_for_inv [where P = maps_ok])
  qed (use a in simp)
qed

lemma audience_mark_ok:
  assumes "audience_mark v (l, a) = Inr (l', a')" "\<forall>a \<in> set l. maps_ok a" "maps_ok a"
  shows "(\<forall>a \<in> set l'. maps_ok a) \<and> maps_ok a'"
proof -
  have c: "maps_ok clear_audience" by (simp add: clear_audience_def)
  obtain a1 a2 where o1: "json_opt v ''mark_id'' json_str (\<lambda>x a. a\<lparr>m_sAudienceID := x\<rparr>) a = Inr a1"
    and o2: "json_opt v ''merge_type'' json_int (\<lambda>x a. a\<lparr>m_au_uiType := x\<rparr>) a1 = Inr a2"
    and r: "(l' = l \<and> a' = a2) \<or> (\<exists>tags a3. json_for tags audience_tag a2 = Inr a3 \<and> l' = l @ [a3] \<and> a' = clear_audience)"
    using assms(1) by (auto simp: audience_mark_def bind_cxx_Inr_iff split: if_splits)
  have "maps_ok a1" using o1 assms(3) by (rule json_opt_inv [where P = maps_ok]) simp
  with o2 have a2: "maps_ok a2" by (rule json_opt_inv [where P = maps_ok]) simp
  from r show ?thesis
  proof (elim disjE exE conjE)
    fix tags a3 assume "json_for tags audience_tag a2 = Inr a3" "l' = l @ [a3]" "a' = clear_audience"
    moreover from this(1) a2 audience_tag_ok have "maps_ok a3" by (rule json_for_inv [where P = maps_ok])
    ultimately show ?thesis using assms(2) c by simp
  qed (use assms a2 in simp)
qed

lemma DataParseAudience_ok:
  assumes "DataParseAudience value l = Inr l'" "\<forall>a \<in> set l. maps_ok a"
  shows "\<forall>a \<in> set l'. maps_ok a"
proof -
  have c: "maps_ok clear_audience" by (simp add: clear_audience_def)
  from assms show ?thesis unfolding DataParseAudience_def
  proof (rule json_when_inv [where P = "\<lambda>l. \<forall>a \<in> set l. maps_ok a"])
    fix ms s' assume "bind_cxx (json_for ms audience_mark (l, clear_audience)) (\<lambda>(l, _). Inr l) = Inr s'"
    then obtain a where f: "json_for ms audience_mark (l, clear_audience) = Inr (s', a)"
      by (auto simp: bind_cxx_Inr_iff)
    have "case (s', a) of (l, a) \<Rightarrow> (\<forall>a \<in> set l. maps_ok a) \<and> maps_ok a"
      using f by (rule json_for_inv [where P = "\<lambda>(l, a). (\<forall>a \<in> set l. maps_ok a) \<and> maps_ok a"])
        (use assms(2) c in \<open>auto dest: audience_mark_ok\<close>)
    then show "\<forall>a \<in> set s'. maps_ok a" by simp
  qed
qed

lemma DataParseCreate_ok: "DataParseCreate value m = Inr m' \<Longrightarrow> smap_ok m \<Longrightarrow> smap_ok m'"
proof -
  assume "DataParseCreate value m = Inr m'" and m: "smap_ok m"
  then obtain cs where "json_for cs parse_creative m = Inr m'" by (auto simp: DataParseCreate_def bind_cxx_Inr_iff)
  then show ?thesis using m
    by (rule json_for_inv [where P = smap_ok]) (auto simp: parse_creative_def Let_def bind_cxx_Inr_iff)
qed

lemma parse_order_nice: "parse_order v od = Inr od' \<Longrightarrow> m_uiNice od' = AD_ORDER_BASE"
proof -
  have j: "m_uiNice s' = n" if "json_opt v k read put s = Inr s'" "m_uiNice s = n" "\<And>x s. m_uiNice (put x s) = m_uiNice s"
    for k s s' n and read :: "Json \<Rightarrow> string \<Rightarrow> 'a cxx" and put
    using that by (auto simp: json_opt_def bind_cxx_Inr_iff split: if_splits)
  show "parse_order v od = Inr od' \<Longrightarrow> m_uiNice od' = AD_ORDER_BASE"
    unfolding parse_order_def bind_cxx_Inr_iff
    by (elim exE conjE) (rule j, assumption | simp)+
qed

lemma parse_unit_typed:
  assumes "parse_unit value clear_unit = Inr (AD_SUCCESS, u)"
  shows "unit_typed u"
proof -
  obtain has_order has_pid has_range has_area has_create od pids time nice audi marks mobile creates ban stamp area where
    o: "json_isMember value ''order'' = Inr has_order" "json_when value ''order'' parse_order (m_stOrder clear_unit) = Inr od"
    and p: "json_when value ''pid'' (\<lambda>v. json_for v parse_pid) (m_ltPidInfo clear_unit) = Inr pids"
    and t: "(if has_range then DataParseTime value (m_stTime clear_unit) else Inr (m_stTime clear_unit)) = Inr time"
    and n: "json_when value ''marks'' (\<lambda>v nice. Inr (if json_size v > 0 then AD_ORDER_AUDIENCE else nice)) (m_uiNice od) = Inr nice"
    and a: "DataParseAudience value (m_ltAudience clear_unit) = Inr audi"
    and c: "(if has_create then DataParseCreate value (m_mCreativeInfo clear_unit) else Inr (m_mCreativeInfo clear_unit)) = Inr creates"
    and r: "present (has_order \<and> has_pid \<and> has_range \<and> has_area \<and> has_create) AD_SUCCESS = AD_SUCCESS"
    and u: "u = clear_unit\<lparr>m_stOrder := od\<lparr>m_uiNice := (if marks \<noteq> [] then AD_ORDER_NICE
                                      else if audi \<noteq> [] then AD_ORDER_AUDIENCE else nice),
                      m_ltBanId := ban, m_uiTimeStamp := stamp\<rparr>,
          m_ltPidInfo := pids, m_stTime := time, m_stTargetAudience := \<lparr>m_ltArea = area\<rparr>,
          m_ltAudience := audi, m_ltKeyWord := marks, m_stMobile := mobile,
          m_mCreativeInfo := creates\<rparr>"
    using assms unfolding parse_unit_def bind_cxx_Inr_iff by auto
  have "has_order" using r by (auto simp: present_def split: if_splits)
  with o have "m_uiNice od = AD_ORDER_BASE"
    by (auto simp: json_when_def bind_cxx_Inr_iff dest: parse_order_nice)
  with n have "nice \<in> {AD_ORDER_BASE, AD_ORDER_AUDIENCE}"
    by (auto simp: json_when_def bind_cxx_Inr_iff split: if_splits)
  moreover have "length (m_stDay time) = AD_WEEK_DAYS"
    using t by (auto simp: clear_unit_def clear_time_def dest: DataParseTime_length split: if_splits)
  moreover have "smap_ok creates"
    using c by (auto simp: clear_unit_def dest: DataParseCreate_ok split: if_splits)
  moreover have "\<forall>p \<in> set pids. pid_mode_ok p"
    using p by (rule json_when_inv [where P = "\<lambda>l. \<forall>p \<in> set l. pid_mode_ok p"])
      (auto simp: clear_unit_def dest: parse_pid_mode)
  moreover have "\<forall>a \<in> set audi. maps_ok a"
    using a by (rule DataParseAudience_ok) (simp add: clear_unit_def)
  ultimately show ?thesis by (auto simp: u unit_typed_def)
qed

lemma DataParse_typed: "DataParse parse s clear_unit = Inr (AD_SUCCESS, u) \<Longrightarrow> unit_typed u"
  by (auto simp: DataParse_def dest: parse_unit_typed split: option.splits)

section \<open>The maps of units\<close>

definition units_typed :: "unit_map \<Rightarrow> bool" where
  "units_typed m \<longleftrightarrow> smap_ok m \<and> (\<forall>(k, u) \<in> set m. k = eid u \<and> unit_typed u)"

text \<open>The same units with other ban lists and prices.\<close>

definition same_units :: "unit_map \<Rightarrow> unit_map \<Rightarrow> bool" where
  "same_units m m' \<longleftrightarrow> list_all2 (\<lambda>(k, u) (k', u'). k' = k \<and> eid u' = eid u \<and> (unit_typed u \<longrightarrow> unit_typed u')) m m'"

lemma same_units_refl [simp]: "same_units m m"
  by (auto simp: same_units_def intro: list_all2_refl)

lemma same_units_Cons [simp]:
  "same_units ((k, u) # m) ((k', u') # m') \<longleftrightarrow>
     k' = k \<and> eid u' = eid u \<and> (unit_typed u \<longrightarrow> unit_typed u') \<and> same_units m m'"
  by (simp add: same_units_def)

lemma units_typed_same:
  assumes "units_typed m" "same_units m m'"
  shows "units_typed m'"
proof -
  have "map fst m' = map fst m"
    using assms(2) unfolding same_units_def by (induction rule: list_all2_induct) auto
  moreover have "\<forall>(k, u) \<in> set m'. k = eid u \<and> unit_typed u"
    using assms(2,1) unfolding same_units_def units_typed_def
    by (induction rule: list_all2_induct) (auto simp: smap_ok_def)
  ultimately show ?thesis using assms(1) by (simp add: units_typed_def smap_ok_def)
qed

lemma units_typed_upd: "units_typed m \<Longrightarrow> unit_typed u \<Longrightarrow> units_typed (smap_upd (eid u) u m)"
  using set_smap_upd [of "eid u" u m] by (auto simp: units_typed_def)

lemma units_typed_Nil [simp]: "units_typed []"
  by (simp add: units_typed_def)

lemma push_all_ok: "push_all env cli ks m = Inr (ret, m') \<Longrightarrow> units_typed m \<Longrightarrow> units_typed m'"
proof (induction ks arbitrary: m)
  case (Cons k ks)
  have "units_typed m1" if "DataPush env s m = Inr (r, m1)" for s r m1
    using that Cons.prems(2)
    by (auto simp: DataPush_def bind_cxx_Inr_iff intro: units_typed_upd dest: DataParse_typed split: if_splits prod.splits)
  with Cons show ?case by (auto simp: bind_cxx_Inr_iff split: if_splits prod.splits)
qed simp

lemma unit_typed_ban [simp]:
  "unit_typed (u\<lparr>m_stOrder := (m_stOrder u)\<lparr>m_ltBanContent := c\<rparr>\<rparr>) = unit_typed u"
  "unit_typed (u\<lparr>m_pltBanPidList := l\<rparr>) = unit_typed u" "unit_typed (u\<lparr>m_pAdvancedPrice := ps\<rparr>) = unit_typed u"
  by (simp_all add: unit_typed_def)

lemma DataUpdateBanList_same: "DataUpdateBanList env cli m = Inr (ret, m') \<Longrightarrow> same_units m m'"
proof (induction m arbitrary: ret m')
  case (Cons e m)
  then show ?case by (cases e) (auto simp: bind_cxx_Inr_iff Let_def split: if_splits prod.splits)
qed simp

lemma ban_pids_same: "ban_pids srv cli m bans = Inr (ret, m', bans') \<Longrightarrow> same_units m m'"
proof (induction m arbitrary: ret bans m' bans')
  case (Cons e m)
  then show ?case by (cases e) (auto simp: bind_cxx_Inr_iff Let_def split: if_splits prod.splits)
qed simp

lemma point_prices_same: "same_units m (point_prices ps m)"
  by (induction m) (auto simp: point_prices_def)

section \<open>Every sequence of updates\<close>

inductive planning_reach :: "AdPlanningData \<Rightarrow> bool" where
  planning_new: "planning_reach AdPlanningData_new"
| planning_init: "planning_reach d \<Longrightarrow> planning_reach (AdPlanningDataInit config d)"
| planning_update: "planning_reach d \<Longrightarrow> DataUpdate env d = Inr (ret, n, d') \<Longrightarrow> planning_reach d'"
| planning_filter_result:
    "planning_reach d \<Longrightarrow> DataUpdateAdvancedFilterResult env d = Inr (ret, d') \<Longrightarrow> planning_reach d'"
| planning_prices:
    "planning_reach d \<Longrightarrow> DataUpdateAdvancedPriceData env d = Inr (ret, d') \<Longrightarrow> planning_reach d'"

definition planning_ok :: "AdPlanningData \<Rightarrow> bool" where
  "planning_ok d \<longleftrightarrow> units_typed (pp_Get False (m_mData d)) \<and> units_typed (pp_Get True (m_mData d))"

lemma data_load_ok: "data_load env d = Inr (ret, ts, d') \<Longrightarrow> planning_ok d \<Longrightarrow> planning_ok d'"
  unfolding data_load_def planning_ok_def
  by (auto simp: bind_cxx_Inr_iff split: if_splits prod.splits
      dest!: push_all_ok DataUpdateBanList_same intro: units_typed_same)

lemma DataUpdate_ok:
  assumes "DataUpdate env d = Inr (ret, n, d')" "planning_ok d"
  shows "planning_ok d'"
proof -
  have sys: "planning_ok (d2\<lparr>m_iLastTimeStamp := ts, m_mData := pp_Switch (m_mData d2)\<rparr>)"
    if "planning_ok d1" "DataUpdateForSystem env (d1\<lparr>m_cli := cli\<rparr>) = Inr (r, d2)" for d1 d2 cli r ts
    using DataUpdateForSystem_frame [OF that(2)] that(1) by (auto simp: planning_ok_def)
  have "planning_ok (d\<lparr>m_cli := cli\<rparr>)" for cli using assms(2) by (simp add: planning_ok_def)
  then have ld: "planning_ok d1" if "data_load env (d\<lparr>m_cli := cli\<rparr>) = Inr (r, ts, d1)" for cli r ts d1
    using that data_load_ok by blast
  show ?thesis
    using assms ld
    by (auto simp: DataUpdate_def bind_cxx_Inr_iff Let_def planning_ok_def split: if_splits prod.splits
        dest: sys [unfolded planning_ok_def, rotated])
qed

lemma planning_reach_ok: "planning_reach d \<Longrightarrow> planning_ok d"
proof (induction rule: planning_reach.induct)
  case planning_new
  then show ?case by (simp add: planning_ok_def AdPlanningData_new_def pp_new_def pp_Get_def pp_GetBack_def)
next
  case (planning_init d config)
  then show ?case by (auto simp: planning_ok_def AdPlanningDataInit_def Let_def split: option.split)
next
  case (planning_update d env ret n d')
  then show ?case by (blast intro: DataUpdate_ok)
next
  case (planning_filter_result d env ret d')
  then show ?case
    by (auto simp: planning_ok_def DataUpdateAdvancedFilterResult_def Let_def bind_cxx_Inr_iff
        split: if_splits prod.splits dest!: ban_pids_same intro: units_typed_same)
next
  case (planning_prices d env ret d')
  then show ?case
    by (auto simp: planning_ok_def DataUpdateAdvancedPriceData_def DataGetCache_def bind_cxx_Inr_iff
        split: if_splits prod.splits dest!: advanced_load_units intro: units_typed_same [OF _ point_prices_same])
qed

text \<open>
  C26. Whatever updates have run against whatever servers and clocks: an order that is found under an id has
  that id, its kind (nice, base or audience) is one of the three and fits its key words and audiences, it has seven
  days, lists of pids only for the modes that use them, and ordered maps of creatives and marks.
\<close>

theorem loaded_units_typed:
  assumes "planning_reach d" "DataSearch e d = Some u"
  shows "eid u = e \<and> unit_typed u"
  using planning_reach_ok [OF assms(1)] map_of_SomeD [OF assms(2) [unfolded DataSearch_def]]
  by (auto simp: planning_ok_def units_typed_def DataGetCache_def)

lemma loaded_units_typed_witness:
  "DataSearch 7 demo_planning = Some demo_unit_doc \<and> eid demo_unit_doc = 7 \<and> unit_typed demo_unit_doc"
proof -
  have "planning_reach demo_planning" using planning_update [OF planning_new demo_update] .
  moreover have "DataSearch 7 demo_planning = Some demo_unit_doc"
    by (simp add: DataSearch_def DataGetCache_def demo_planning_def)
  ultimately show ?thesis using loaded_units_typed by blast
qed

end
