(* ===== verification/AdRtbEngine.thy ===== *)
theory AdRtbEngine
  imports AdRtbFiltersCorrect AdTlvRoundtrip AdRtbDealRank AdPlanningInvariant AdRtbConfig
begin

text \<open>
  The bidding engine (\<^verbatim>\<open>ibidding/engine/src/AdRtbEngine.cpp\<close>, \<^verbatim>\<open>AdRtbEngine.h\<close>) and the update task of
  \<^verbatim>\<open>ibidding/src/AdRtbMain.cpp\<close>: the counters of a bidding task, the update of planning data, ranking
  and filters, and the answer to a request, from the packet of the adapter to the packet of the reply. The state of
  the engine is the composition of the states of the components; what their operations take from outside is
  collected in \<open>update_env\<close> and \<open>run_env\<close>. Printing is left out.
\<close>

section \<open>Counters of a bidding task\<close>

record AdBiddingTaskStatus =
  m_uiRequest :: UINT
  m_uiResponse :: UINT
  m_uiRequestRate :: UINT
  m_uiResponseRate :: UINT
  m_uiRequestNum :: UINT
  m_uiResponseNum :: UINT
  m_mReadyOrder :: "(UINT \<times> int) list"
  m_ctLastTime :: Time
  m_ctLastSecond :: Time

definition AdBiddingTaskStatus_new :: "Time \<Rightarrow> AdBiddingTaskStatus" where
  "AdBiddingTaskStatus_new now = \<lparr>m_uiRequest = 0, m_uiResponse = 0, m_uiRequestRate = 0, m_uiResponseRate = 0,
     m_uiRequestNum = 0, m_uiResponseNum = 0, m_mReadyOrder = [], m_ctLastTime = now, m_ctLastSecond = now\<rparr>"

definition AdRtbStatusResponseAdd :: "AdBiddingTaskStatus \<Rightarrow> AdBiddingTaskStatus" where
  "AdRtbStatusResponseAdd s = s\<lparr>m_uiResponse := m_uiResponse s + 1, m_uiResponseNum := m_uiResponseNum s + 1\<rparr>"

definition AdRtbStatusRequestAdd :: "Time \<Rightarrow> AdBiddingTaskStatus \<Rightarrow> AdBiddingTaskStatus" where
  "AdRtbStatusRequestAdd now s =
     (let s = (if toNow now (m_ctLastSecond s) > 1000000
        then s\<lparr>m_uiRequestRate := m_uiRequestNum s, m_uiResponseRate := m_uiResponseNum s, m_uiRequestNum := 0,
               m_uiResponseNum := 0, m_ctLastSecond := now\<rparr> else s)
      in s\<lparr>m_uiRequest := m_uiRequest s + 1, m_uiRequestNum := m_uiRequestNum s + 1\<rparr>)"

definition AdRtbStatusReadyAdd :: "UINT \<Rightarrow> AdBiddingTaskStatus \<Rightarrow> AdBiddingTaskStatus cxx" where
  "AdRtbStatusReadyAdd e s =
     (case map_of (m_mReadyOrder s) e of
        None \<Rightarrow> Inr (s\<lparr>m_mReadyOrder := smap_upd e 1 (m_mReadyOrder s)\<rparr>)
      | Some n \<Rightarrow> bind_cxx (add_int n 1) (\<lambda>n. Inr (s\<lparr>m_mReadyOrder := smap_upd e n (m_mReadyOrder s)\<rparr>)))"

text \<open>
  The counts are sent one by one and a count that was sent becomes zero; the first failure ends the loop.
  \<open>hour\<close> and \<open>day\<close> stand for \<^verbatim>\<open>strftime\<close> with \<^verbatim>\<open>%H\<close> and \<^verbatim>\<open>%F\<close> of a time.
\<close>

definition ready_key :: "string \<Rightarrow> UINT \<Rightarrow> string" where
  "ready_key sDay e = snprintf AD_BYTE128 (''exec:response:'' @ sDay @ '':'' @ fmt_d e)"

fun send_ready ::
    "hiredis \<Rightarrow> AdRedisCli \<Rightarrow> string \<Rightarrow> string \<Rightarrow> (UINT \<times> int) list \<Rightarrow> (int \<times> (UINT \<times> int) list) cxx" where
  "send_ready srv cli sDay sFiled [] = Inr (AD_SUCCESS, [])"
| "send_ready srv cli sDay sFiled ((e, n) # m) =
     bind_cxx (AdRedisHIncRby srv cli (ready_key sDay e) sFiled (of_int n)) (\<lambda>ret.
       if ret \<noteq> AD_SUCCESS then Inr (ret, (e, n) # m)
       else bind_cxx (send_ready srv cli sDay sFiled m) (\<lambda>(ret, m). Inr (ret, (e, 0) # m)))"

definition AdRtbStatusUpdate ::
    "hiredis \<Rightarrow> (Time \<Rightarrow> string) \<Rightarrow> (Time \<Rightarrow> string) \<Rightarrow> Time \<Rightarrow> string \<Rightarrow> string \<Rightarrow> AdBiddingTaskStatus \<Rightarrow>
     (int \<times> AdBiddingTaskStatus) cxx" where
  "AdRtbStatusUpdate srv hour day now server passwd s =
     (let vStr = split_fields server '':'' in
      if server = [] \<or> length vStr \<noteq> 2 then Inr (AD_FAILURE, s)
      else if m_mReadyOrder s = [] \<or> toNow now (m_ctLastTime s) < 10 * 1000000 then Inr (AD_SUCCESS, s)
      else
        (let s = s\<lparr>m_ctLastTime := now\<rparr> in
         bind_cxx (AdRedisConnect srv (AdRedisCli_for (vStr ! 0) (sint (atoi (vStr ! 1))) passwd)) (\<lambda>(ret, cli).
           if ret \<noteq> AD_SUCCESS then Inr (ret, s)
           else bind_cxx (send_ready srv cli (day now) (hour now) (m_mReadyOrder s)) (\<lambda>(ret, m).
             Inr (ret, s\<lparr>m_mReadyOrder := m\<rparr>)))))"

section \<open>The engine and its update\<close>

definition AD_RTB_ENGINE_REINIT :: int where
  "AD_RTB_ENGINE_REINIT = 0x44"

record AdRtbEngine =
  m_ctData :: AdPlanningData
  m_ctFilters :: AdRtbFilters
  m_ctConfig :: "AdRtbConfig AdPingPongBuffer"
  m_ctDealRank :: AdRtbDealRank
  m_ltServer :: "string list"
  m_e_sConfigFile :: string

definition AdRtbEngine_new :: "DOUBLE \<Rightarrow> AdRtbEngine" where
  "AdRtbEngine_new garbage = \<lparr>m_ctData = AdPlanningData_new, m_ctFilters = AdRtbFilters_new,
     m_ctConfig = pp_new AdRtbConfig_new, m_ctDealRank = AdRtbDealRank_new garbage, m_ltServer = [],
     m_e_sConfigFile = []\<rparr>"

text \<open>The file system and the network as an initialisation sees them.\<close>

record init_env =
  ie_fopen :: "string \<Rightarrow> string option"
  ie_stat :: "string \<Rightarrow> timespec option"
  ie_get_ip :: "string \<Rightarrow> string option"

definition AdRtbEngineInit :: "init_env \<Rightarrow> string \<Rightarrow> AdRtbEngine \<Rightarrow> (int \<times> AdRtbEngine) cxx" where
  "AdRtbEngineInit env confFile eng =
     bind_cxx (Load (ie_fopen env) (ie_stat env) (ie_get_ip env) confFile (pp_Get True (m_ctConfig eng)))
       (\<lambda>(ret, ctConf).
         let b = pp_set True (\<lambda>_. ctConf) (m_ctConfig eng); eng = eng\<lparr>m_e_sConfigFile := confFile, m_ctConfig := b\<rparr> in
         if ret \<noteq> AD_SUCCESS then Inr (ret, eng)
         else Inr (ret, eng\<lparr>m_ltServer := m_ltServer eng @ map snd (fst (Get ''[ADAPTER]'' ctConf)),
           m_ctData := AdPlanningDataInit (fst (Get ''[GLOBAL]'' ctConf)) (m_ctData eng),
           m_ctConfig := pp_Switch b\<rparr>))"

text \<open>
  What one update reads from outside: Redis for each of its three parts, the file system, and what the
  initialisation of the filters returns.
\<close>

record update_env =
  ue_data :: planning_env
  ue_prices :: planning_env
  ue_results :: planning_env
  ue_stat :: "string \<Rightarrow> timespec option"
  ue_rank :: rank_env
  ue_files :: rank_files
  ue_parse :: json_reader
  ue_lines :: "string \<Rightarrow> string list option"
  ue_realtime_init :: int
  ue_mark_init :: int
  ue_new_mark :: AdFilterMark
  ue_week :: UINT

definition filters_conf_of :: "update_env \<Rightarrow> AdRtbConfig \<Rightarrow> filters_conf" where
  "filters_conf_of env ctConf =
     (let config = fst (Get ''[CONFIG]'' ctConf);
          content = config_at config ''TANXCONTENT''; description = config_at config ''TANXDESCRIPTION''
      in \<lparr>c_changed = (\<lambda>sFile. FileIsChanged sFile ctConf), c_any_changed = FileIsChanged ''NULL'' ctConf,
          c_parse = ue_parse env, c_tanx_content = (content, ue_lines env content),
          c_tanx_description = (description, ue_lines env description),
          c_realtime_init = ue_realtime_init env, c_mark_init = ue_mark_init env, c_new_mark = ue_new_mark env\<rparr>)"

text \<open>The first part: the planning data. The second: configuration and ranking. The third: the filters.\<close>

definition engine_data :: "update_env \<Rightarrow> AdRtbEngine \<Rightarrow> (int \<times> AdRtbEngine) cxx" where
  "engine_data env eng =
     bind_cxx (DataUpdate (ue_data env) (m_ctData eng)) (\<lambda>(ret, uiData, d).
       if ret \<noteq> AD_SUCCESS then Inr (ret, eng\<lparr>m_ctData := d\<rparr>)
       else bind_cxx (if uiData \<noteq> 0 then DataUpdateAdvancedPriceData (ue_prices env) d else Inr (AD_SUCCESS, d)) (\<lambda>(ret, d).
         if ret \<noteq> AD_SUCCESS then Inr (ret, eng\<lparr>m_ctData := d\<rparr>)
         else bind_cxx (DataUpdateAdvancedFilterResult (ue_results env) d) (\<lambda>(ret, d). Inr (ret, eng\<lparr>m_ctData := d\<rparr>))))"

definition engine_config :: "update_env \<Rightarrow> AdRtbEngine \<Rightarrow> int \<times> AdRtbEngine" where
  "engine_config env eng =
     (let (n, ctConf) = Check (ue_stat env) (pp_Get False (m_ctConfig eng));
          eng = eng\<lparr>m_ctConfig := pp_set False (\<lambda>_. ctConf) (m_ctConfig eng)\<rparr>
      in if n > 0 then
           if FileIsChanged (m_e_sConfigFile eng) ctConf then (AD_RTB_ENGINE_REINIT, eng)
           else (let (ret, r) = AdRtbDealRankInit (ue_rank env) (ue_files env) ctConf (m_ctDealRank eng)
                 in (ret, eng\<lparr>m_ctDealRank := r\<rparr>))
         else (AD_SUCCESS, eng))"

definition engine_filters :: "update_env \<Rightarrow> AdRtbEngine \<Rightarrow> (int \<times> AdRtbEngine) cxx" where
  "engine_filters env eng =
     bind_cxx (FiltersUpdate (filters_conf_of env (pp_Get False (m_ctConfig eng))) (ue_week env)
         (DataGetCache (m_ctData eng)) (m_ctFilters eng)) (\<lambda>(ret, fs). Inr (ret, eng\<lparr>m_ctFilters := fs\<rparr>))"

definition AdRtbEngineUpdate :: "update_env \<Rightarrow> AdRtbEngine \<Rightarrow> (int \<times> AdRtbEngine) cxx" where
  "AdRtbEngineUpdate env eng =
     bind_cxx (engine_data env eng) (\<lambda>(ret, eng).
       if ret \<noteq> AD_SUCCESS then Inr (ret, eng)
       else (let (ret, eng) = engine_config env eng in
         if ret \<noteq> AD_SUCCESS then Inr (ret, eng) else engine_filters env eng))"

text \<open>
  One turn of the update task: a failure is only counted, but after a changed configuration the engine is
  initialised and updated again, and there a failure ends the task.
\<close>

definition update_turn :: "update_env \<Rightarrow> init_env \<Rightarrow> update_env \<Rightarrow> AdRtbEngine \<Rightarrow> (bool \<times> AdRtbEngine) cxx" where
  "update_turn env ienv env2 eng =
     bind_cxx (AdRtbEngineUpdate env eng) (\<lambda>(ret, eng).
       if ret = AD_RTB_ENGINE_REINIT then
         bind_cxx (AdRtbEngineInit ienv (m_e_sConfigFile eng) eng) (\<lambda>(ret, eng).
           if ret \<noteq> AD_SUCCESS then Inr (False, eng)
           else bind_cxx (AdRtbEngineUpdate env2 eng) (\<lambda>(ret, eng). Inr (ret = AD_SUCCESS, eng)))
       else Inr (True, eng))"

fun AdUpdateTask_loop :: "(update_env \<times> init_env \<times> update_env) list \<Rightarrow> AdRtbEngine \<Rightarrow> (bool \<times> AdRtbEngine) cxx" where
  "AdUpdateTask_loop [] eng = Inr (True, eng)"
| "AdUpdateTask_loop ((env, ienv, env2) # envs) eng =
     bind_cxx (update_turn env ienv env2 eng) (\<lambda>(run, eng).
       if run then AdUpdateTask_loop envs eng else Inr (False, eng))"

section \<open>The answer\<close>

definition AdRtbEngineGetMaterials :: "AdCreativeInfo \<Rightarrow> string \<Rightarrow> AdMaterialInfo option" where
  "AdRtbEngineGetMaterials ctCreate sSize =
     (let pVec = split_fields sSize ''x'' in
      if length pVec = 2
      then find (\<lambda>m. m_uiWidth m = atoi (pVec ! 0) \<and> m_uiHeight m = atoi (pVec ! 1)) (m_ltMaterials ctCreate)
      else None)"

definition build_response ::
    "AdRtbConfig \<Rightarrow> AdRtbRequest \<Rightarrow> AdUnitPrice \<Rightarrow> AdCreativeInfo \<Rightarrow> AdMaterialInfo \<Rightarrow> AdRtbResponse \<Rightarrow> AdRtbResponse" where
  "build_response ctConf ctReq stPrice ctCreate pMate ctRes =
     (let pUnit = pPlaningData stPrice; gConf = fst (Get ''[GLOBAL]'' ctConf); od = m_stOrder pUnit;
          dev = (case m_ltMobileDevice ctReq of [] \<Rightarrow> m_r_sDevType ctRes | d # _ \<Rightarrow> snprintf 256 (c_str d))
      in ctRes\<lparr>m_r_sMaxPrice := fmt_d (uiPrice stPrice), m_r_uiAdx := m_uiAdx ctReq, m_r_sFlow := m_sFlow ctReq,
           m_r_sBidID := m_sBidID ctReq, m_r_sPId := m_sPId ctReq, m_r_sArea := m_sArea ctReq,
           m_r_sClickUrl := m_sClickUrl pMate, m_r_sDestUrl := m_sDestinationUrl pMate, m_r_sHtml := m_sMaterialUrl pMate,
           m_r_sHtmlMraid := m_sMraidMaterialUrl pMate, m_r_sCategory := AdPlanningUnit.m_sCategory pMate,
           m_r_sCreateGID := m_sCreativeGroupId ctCreate, m_r_sCreativeID := m_sCreateId pMate,
           m_r_sUserID := m_sUserID ctReq, m_r_sUserIP := m_sUserIP ctReq, m_r_sSize := m_sSize ctReq,
           m_r_sUud := m_sUuId pMate, m_r_sMaterialID := m_sMaterialId pMate, m_r_sDevType := dev,
           m_r_sRegion := config_at gConf ''DEV'', m_r_sDuration := fmt_d (m_uiVideoTime pMate),
           m_r_sMaterailFormat := fmt_d (m_uiFormat pMate), m_r_sCreative := fmt_d (m_uiCreativeType pMate),
           m_r_sTargetPriceType := fmt_d (m_uiTargetPriceType od), m_r_sExecID := fmt_d (m_uiExecuteId od),
           m_r_sAdvertiserId := fmt_d (m_uiAdvertiser od), m_r_sTargetPrice := fmt_d (m_uiTargetPrice od),
           m_r_sTanxID := m_sTanxAdId od, m_r_ltMonitorUrl := AdPlanningUnit.m_ltMonitorUrl pMate\<rparr>)"

definition AdRtbEngineBuild ::
    "AdRtbConfig \<Rightarrow> AdRtbRequest \<Rightarrow> AdRtbResponse \<Rightarrow> AdUnitPrice \<Rightarrow> int \<times> AdRtbResponse" where
  "AdRtbEngineBuild ctConf ctReq ctRes stPrice =
     (case map_of (m_mCreativeInfo (pPlaningData stPrice)) (m_uiAdx ctReq) of
        None \<Rightarrow> (AD_FAILURE, ctRes)
      | Some ctCreate \<Rightarrow>
          (case AdRtbEngineGetMaterials ctCreate (m_sSize ctReq) of
             None \<Rightarrow> (AD_FAILURE, ctRes)
           | Some pMate \<Rightarrow> (AD_SUCCESS, build_response ctConf ctReq stPrice ctCreate pMate ctRes)))"

record AdTask =
  m_uiLoop :: UINT
  m_pState :: "AdBiddingTaskStatus option"

text \<open>What a run reads from outside: the readings of the clock, zlib, the filters' and the ranking's arguments, Redis.\<close>

record run_env =
  ne_parse :: Time
  ne_request :: Time
  ne_life :: Time
  ne_status :: Time
  ne_uncompress :: "nat \<Rightarrow> string \<Rightarrow> string"
  ne_compress :: "nat \<Rightarrow> string \<Rightarrow> string"
  ne_match :: match_env
  ne_rank :: rank_env
  ne_redis :: hiredis
  ne_hour :: "Time \<Rightarrow> string"
  ne_day :: "Time \<Rightarrow> string"

definition AdRtbEngineAddStatus :: "Time \<Rightarrow> AdTask \<Rightarrow> AdBiddingTaskStatus" where
  "AdRtbEngineAddStatus now ctTask =
     (case m_pState ctTask of None \<Rightarrow> AdBiddingTaskStatus_new now | Some s \<Rightarrow> s)"

definition count_ready :: "match_result \<Rightarrow> AdBiddingTaskStatus \<Rightarrow> AdBiddingTaskStatus cxx" where
  "count_ready = fold_cxx (\<lambda>(_, u, _). AdRtbStatusReadyAdd (eid u))"

definition count_response :: "run_env \<Rightarrow> AdRtbConfig \<Rightarrow> AdBiddingTaskStatus \<Rightarrow> AdBiddingTaskStatus cxx" where
  "count_response env ctConf s =
     (let gConf = fst (Get ''[GLOBAL]'' ctConf) in
      bind_cxx (AdRtbStatusUpdate (ne_redis env) (ne_hour env) (ne_day env) (ne_status env)
          (config_at gConf ''REDIS_REALTIME'') (config_at gConf ''REDIS_PASSWD'') (AdRtbStatusResponseAdd s))
        (\<lambda>(_, s). Inr s))"

text \<open>From the request to the response; the flag tells whether the response was built.\<close>

definition engine_bid ::
    "run_env \<Rightarrow> AdRtbEngine \<Rightarrow> AdRtbRequest \<Rightarrow> match_result \<Rightarrow> AdRtbResponse \<Rightarrow> AdBiddingTaskStatus \<Rightarrow>
     (int \<times> AdRtbResponse \<times> AdBiddingTaskStatus) cxx" where
  "engine_bid env eng ctRequest mResult ctResponse s0 =
     (let ctConf = pp_Get False (m_ctConfig eng) in
      bind_cxx (count_ready mResult s0) (\<lambda>s.
      bind_cxx (AdRtbRankChoice (ne_rank env) (m_ctDealRank eng) ctRequest mResult) (\<lambda>choice.
        case choice of
          None \<Rightarrow> Inr (AD_FAILURE, ctResponse, s)
        | Some stUnitPrice \<Rightarrow>
            (let (ret, ctResponse) = AdRtbEngineBuild ctConf ctRequest ctResponse stUnitPrice in
             if ret \<noteq> AD_SUCCESS then Inr (ret, ctResponse, s)
             else bind_cxx (count_response env ctConf s) (\<lambda>s. Inr (AD_SUCCESS, ctResponse, s))))))"

text \<open>The request of an adapter in the same machine.\<close>

definition AdRtbEngineRun_local ::
    "run_env \<Rightarrow> AdRtbEngine \<Rightarrow> AdRtbRequest \<Rightarrow> AdRtbResponse \<Rightarrow> AdTask \<Rightarrow> (int \<times> AdRtbResponse \<times> AdTask) cxx" where
  "AdRtbEngineRun_local env eng ctRequest ctResponse ctTask =
     (let n = m_uiLoop ctTask + 1; ctRequest = ctRequest\<lparr>m_uiRequestId := n\<rparr>;
          s = AdRtbStatusRequestAdd (ne_request env) (AdRtbEngineAddStatus (ne_request env) ctTask) in
      bind_cxx (FiltersMatch (ne_match env) (m_ctFilters eng) ctRequest []) (\<lambda>mResult.
        if mResult = [] \<or> checkLife (ne_life env) ctRequest
        then Inr (AD_FAILURE, ctResponse, \<lparr>m_uiLoop = n, m_pState = Some s\<rparr>)
        else bind_cxx (engine_bid env eng ctRequest mResult ctResponse s) (\<lambda>(ret, ctResponse, s).
          Inr (ret, ctResponse, \<lparr>m_uiLoop = n, m_pState = Some s\<rparr>))))"

text \<open>The packet of a remote adapter: the reply replaces the request in its buffer of \<^verbatim>\<open>iMaxLen\<close> bytes.\<close>

definition AdRtbEngineRun ::
    "run_env \<Rightarrow> AdRtbEngine \<Rightarrow> string \<Rightarrow> int \<Rightarrow> int \<Rightarrow> AdTask \<Rightarrow> (int \<times> string \<times> AdTask) cxx" where
  "AdRtbEngineRun env eng pPacket iLen iMaxLen ctTask =
     bind_cxx (TlvToInternal_req (ne_uncompress env) (ne_parse env) AdRtbProtocol_init pPacket iLen)
       (\<lambda>(ret, P, ctRequest).
       if ret \<noteq> AD_SUCCESS then Inr (AD_SUCCESS, pPacket, ctTask)
       else
         (let n = m_uiLoop ctTask + 1; ctRequest = ctRequest\<lparr>m_uiRequestId := n\<rparr>;
              s = AdRtbStatusRequestAdd (ne_request env) (AdRtbEngineAddStatus (ne_request env) ctTask) in
          bind_cxx (FiltersMatch (ne_match env) (m_ctFilters eng) ctRequest []) (\<lambda>mResult.
          bind_cxx (if mResult = [] then Inr (AD_FAILURE, clear_response, s)
                    else engine_bid env eng ctRequest mResult clear_response s) (\<lambda>(_, ctResponse, s).
          bind_cxx (InternalToTlv_res (ne_compress env) P ctResponse pPacket iMaxLen) (\<lambda>(ret, P, pPacket).
            Inr (ret, pPacket, \<lparr>m_uiLoop = n, m_pState = Some s\<rparr>))))))"

text \<open>
  \<^verbatim>\<open>Run\<close> on the cache of a session: what is written to the session, if anything. The request does not
  stay in the cache, since its memory takes the reply.
\<close>

definition Run :: "run_env \<Rightarrow> AdRtbEngine \<Rightarrow> AdCache option \<Rightarrow> AdTask \<Rightarrow> (int \<times> string option \<times> AdCache option \<times> AdTask) cxx" where
  "Run env eng pCache ctTask =
     (case pCache of
        None \<Rightarrow> Inr (AD_FAILURE, None, None, ctTask)
      | Some c \<Rightarrow>
          bind_cxx (AdRtbEngineRun env eng (m_cCache c) (m_iLen c) (m_iMaxLen c) ctTask) (\<lambda>(len, buf, ctTask).
            let c = c\<lparr>m_cCache := buf\<rparr> in
            if len > 0 then
              (let c = cache_Set len c in
               bind_cxx (rd_bytes buf 0 (nat len)) (\<lambda>packet. Inr (AD_SUCCESS, Some packet, Some c, ctTask)))
            else Inr (AD_SUCCESS, None, Some c, ctTask)))"

end
