(* ===== verification/AdRtbEngineCorrect.thy ===== *)
theory AdRtbEngineCorrect
  imports AdRtbEngine
begin

text \<open>
  What the engine guarantees: every bid is for a unit that the request targets, from the bytes of the request to the
  bytes of the reply; the filters in use always come from one loaded set of units; and where the order of the
  steps of an update makes a failure permanent or fatal.
\<close>

section \<open>The VIP mark\<close>

text \<open>
  The mark of a VIP user is set by the mark filter only, and on the unit that the user data names: the filters before
  it keep a result without marks. No filter adds a mark info.
\<close>

definition unmarked :: "AD_RESULT \<Rightarrow> bool" where
  "unmarked res \<longleftrightarrow> (\<forall>(_, (_, r)) \<in> set res. \<not> m_bVip r \<and> m_ltMarkInfo r = [])"

lemma unmarked_Nil [simp]: "unmarked []"
  by (simp add: unmarked_def)

lemma unmarked_subset: "unmarked res \<Longrightarrow> set res' \<subseteq> set res \<Longrightarrow> unmarked res'"
  by (auto simp: unmarked_def)

lemma unmarked_upd: "unmarked res \<Longrightarrow> \<not> m_bVip r \<and> m_ltMarkInfo r = [] \<Longrightarrow> unmarked (smap_upd k (u, r) res)"
  using set_smap_upd [of k "(u, r)" res] by (fastforce simp: unmarked_def)

lemma unmarked_result_mark: "unmarked res \<Longrightarrow> unmarked (result_mark f u res)"
  unfolding result_mark_def
  by (auto intro!: unmarked_upd simp: clear_result_def split: option.split)
    (auto simp: unmarked_def dest!: map_of_SomeD)

lemma unmarked_result_touch: "unmarked res \<Longrightarrow> unmarked (result_touch u res)"
  by (auto simp: result_touch_def clear_result_def smap_insert_def intro!: unmarked_upd split: option.split)

lemma set_smap_erase: "set (smap_erase k m) \<subseteq> set m"
  by (induction k m rule: smap_erase.induct) auto

lemma unmarked_result_erase: "unmarked res \<Longrightarrow> unmarked (result_erase u res)"
  unfolding result_erase_def by (erule unmarked_subset) (rule set_smap_erase)

lemma unmarked_fold: "(\<And>x res. unmarked res \<Longrightarrow> unmarked (f x res)) \<Longrightarrow> unmarked res \<Longrightarrow> unmarked (fold f xs res)"
  by (induction xs arbitrary: res) auto

lemma unmarked_match_key: "unmarked res \<Longrightarrow> unmarked (match_key f m k res)"
  unfolding match_key_filed by (rule unmarked_fold) (rule unmarked_result_mark)

lemma unmarked_erase_key: "unmarked res \<Longrightarrow> unmarked (erase_key m k res)"
  unfolding erase_key_filed by (rule unmarked_fold) (rule unmarked_result_erase)

lemma unmarked_marking: "(\<And>q m res. match q m res = fold (match_key flag m) (keys q) res) \<Longrightarrow>
    unmarked res \<Longrightarrow> unmarked (match q m res)"
  by (simp add: unmarked_fold unmarked_match_key)

lemma unmarked_erasing: "(\<And>q m res. match q m res = fold (erase_key m) (keys q) res) \<Longrightarrow>
    unmarked res \<Longrightarrow> unmarked (match q m res)"
  by (simp add: unmarked_fold unmarked_erase_key)

lemma unmarked_index:
  assumes "f \<in> set (index_filters env v q)" "unmarked res"
  shows "unmarked (f res)"
  using assms unmarked_marking [OF time_filter.match_marks] unmarked_marking [OF adx_filter.match_marks]
    unmarked_marking [OF pid_filter.match_marks] unmarked_marking [OF area_filter.match_marks]
    unmarked_marking [OF size_filter.match_marks] unmarked_marking [OF ua_filter.match_marks]
    unmarked_marking [OF operator_filter.match_marks] unmarked_marking [OF device_filter.match_marks]
    unmarked_marking [OF connect_filter.match_marks]
  unfolding index_filters_def by auto

lemma unmarked_rest:
  assumes "f \<in> set (rest_filters env rt v q)" "unmarked res"
  shows "unmarked (f res)"
proof -
  have "unmarked (AdFilterLandingPage_match pages q m res)" for pages m
    unfolding AdFilterLandingPage_match_def using assms(2)
    by (auto intro!: unmarked_fold unmarked_erase_key split: option.split)
  moreover have "unmarked (AdFilterTanx_match pids q m res)" for pids m
    unfolding AdFilterTanx_match_def using assms(2)
    by (auto intro!: unmarked_fold unmarked_erase_key split: option.split)
  moreover have "unmarked (AdFilterBan_match q m res)" for m
    using assms(2) by (rule unmarked_erasing [OF ban_filter.match_erases])
  moreover have "unmarked (filter P res)" for P using assms(2) by (rule unmarked_subset) auto
  ultimately show ?thesis using assms
    unfolding rest_filters_def AdFilterParameter_match_def AdFilterRealTime_match_def by auto
qed

lemma unmarked_run:
  "run_filters fs res = (left, res') \<Longrightarrow> (\<And>f res. f \<in> set fs \<Longrightarrow> unmarked res \<Longrightarrow> unmarked (f res)) \<Longrightarrow>
    unmarked res \<Longrightarrow> unmarked res'"
  by (induction fs res rule: run_filters.induct) (auto split: if_splits)

text \<open>The data of the user names the unit, which makes the user a VIP of the unit.\<close>

definition vip_user :: "(AdUserData \<Rightarrow> (int \<times> AdUserData) cxx) \<Rightarrow> AdRtbRequest \<Rightarrow> AdPlanningUnit \<Rightarrow> bool" where
  "vip_user user_get q u \<longleftrightarrow> (case user_get (mark_user q) of
       Inl _ \<Rightarrow> False
     | Inr (ret, ct) \<Rightarrow> ret = AD_SUCCESS \<and> m_ud_sExecuteID ct \<noteq> [] \<and> atoi (c_str (m_ud_sExecuteID ct)) = eid u)"

lemma unmarked_match_mark_step: "match_mark_step st us mk (m, res) = Inr (m', res') \<Longrightarrow> unmarked res \<Longrightarrow> unmarked res'"
  by (drule match_mark_step_touches) (auto intro: unmarked_fold unmarked_result_touch)

lemma unmarked_match_marks:
  "fold_cxx (match_mark_step st us) mks (m, r) = Inr (m', r') \<Longrightarrow> unmarked r \<Longrightarrow> unmarked r'"
  by (induction mks arbitrary: m r) (auto simp: bind_cxx_Inr_iff dest: unmarked_match_mark_step)

lemma unmarked_MatchMark: "AdFilterMarkMatchMark st ct us res = Inr res' \<Longrightarrow> unmarked res \<Longrightarrow> unmarked res'"
  by (auto simp: AdFilterMarkMatchMark_def bind_cxx_Inr_iff split: if_splits dest: unmarked_match_marks)

lemma unmarked_MatchAudience: "unmarked res \<Longrightarrow> unmarked (AdFilterMarkMatchAudience st ct ready res)"
  unfolding AdFilterMarkMatchAudience_def Let_def
  by (auto intro!: unmarked_fold unmarked_upd simp: clear_result_def split: option.split)

lemma vip_tag:
  assumes "unmarked res" "(k, (u, r)) \<in> set (AdFilterMarkVipUserTag ct res)"
  shows "m_ltMarkInfo r = [] \<and> (m_bVip r \<longleftrightarrow> m_ud_sExecuteID ct \<noteq> [] \<and> atoi (c_str (m_ud_sExecuteID ct)) = eid u)"
  using assms by (auto simp: AdFilterMarkVipUserTag_def unmarked_def split: if_splits)

lemma mark_match_vip:
  assumes "AdFilterMark_match user_get now st q res = Inr (ret, res')" "unmarked res" "(k, (u, r)) \<in> set res'"
  shows "m_ltMarkInfo r = [] \<and> (m_bVip r \<longleftrightarrow> vip_user user_get q u)"
proof -
  let ?base = "filter (nice_is AD_ORDER_BASE) res" and ?us = "map (\<lambda>(_, (u, _)). u) (filter (nice_is AD_ORDER_NICE) res)"
    and ?aud = "filter (nice_is AD_ORDER_AUDIENCE) res"
  have base: "unmarked ?base" using assms(2) by (rule unmarked_subset) auto
  obtain r0 ct where get: "user_get (mark_user q) = Inr (r0, ct)"
    using assms(1) by (cases "user_get (mark_user q)") (auto simp: AdFilterMark_match_def Let_def)
  consider "res' = []" | "r0 \<noteq> AD_SUCCESS" "res' = ?base"
    | ct' res1 where "AdFilterMarkMatchMark st ct' ?us ?base = Inr res1" "r0 = AD_SUCCESS \<longrightarrow> ct' = ct"
      "res' = (if r0 = AD_SUCCESS then AdFilterMarkVipUserTag ct' (AdFilterMarkMatchAudience st ct' ?aud res1)
               else AdFilterMarkMatchAudience st ct' ?aud res1)"
    using assms(1) get by (auto simp: AdFilterMark_match_def Let_def bind_cxx_Inr_iff split: if_splits)
  then show ?thesis
  proof cases
    case (3 ct' res1)
    have "unmarked (AdFilterMarkMatchAudience st ct' ?aud res1)"
      by (rule unmarked_MatchAudience) (rule unmarked_MatchMark [OF 3(1) base])
    then show ?thesis using assms(3) 3(2,3) get
      by (cases "r0 = AD_SUCCESS") (auto simp: vip_user_def unmarked_def dest!: vip_tag [rotated])
  qed (use assms(3) base get in \<open>auto simp: vip_user_def unmarked_def\<close>)
qed

lemma match_vip:
  assumes "FiltersMatch env st q [] = Inr res" "(k, (u, r)) \<in> set res"
  shows "m_ltMarkInfo r = [] \<and> (m_bVip r \<longleftrightarrow> vip_user (e_user env) q u)"
proof -
  obtain v where v: "pp_Get False (m_vFilters st) = Some v"
    using assms by (cases "pp_Get False (m_vFilters st)") (auto simp: FiltersMatch_def)
  obtain left res1 where run: "run_filters (index_filters env v q @ rest_filters env (m_realtime st) v q) [] = (left, res1)" by force
  have res1: "unmarked res1"
    by (rule unmarked_run [OF run]) (auto dest: unmarked_index unmarked_rest)
  have "left \<Longrightarrow> res1 = []"
  proof -
    have "run_filters fs x = (True, y) \<Longrightarrow> y = []" for fs x y
      by (induction fs x rule: run_filters.induct) (auto split: if_splits)
    then show "left \<Longrightarrow> res1 = []" using run by simp
  qed
  then obtain ret where "AdFilterMark_match (e_user env) (e_clock env) (f_mark v) q res1 = Inr (ret, res)"
    using assms v run by (auto simp: FiltersMatch_def bind_cxx_Inr_iff split: if_splits)
  from mark_match_vip [OF this res1 assms(2)] show ?thesis .
qed

section \<open>A bid\<close>

text \<open>A material of the size the request asks for.\<close>

definition fits_size :: "string \<Rightarrow> AdMaterialInfo \<Rightarrow> bool" where
  "fits_size sSize m \<longleftrightarrow> (\<exists>w h. split_fields sSize ''x'' = [w, h] \<and> m_uiWidth m = atoi w \<and> m_uiHeight m = atoi h)"

lemma GetMaterials_Some:
  "AdRtbEngineGetMaterials c sSize = Some m \<Longrightarrow> m \<in> set (m_ltMaterials c) \<and> fits_size sSize m"
proof -
  assume a: "AdRtbEngineGetMaterials c sSize = Some m"
  then have "length (split_fields sSize ''x'') = 2" by (auto simp: AdRtbEngineGetMaterials_def Let_def split: if_splits)
  then obtain w h where "split_fields sSize ''x'' = [w, h]" by (auto simp: length_Suc_conv numeral_2_eq_2)
  with a show ?thesis
    by (auto simp: AdRtbEngineGetMaterials_def Let_def fits_size_def find_Some_iff)
qed

lemma GetMaterials_None:
  "AdRtbEngineGetMaterials c sSize = None \<Longrightarrow> m \<in> set (m_ltMaterials c) \<Longrightarrow> \<not> fits_size sSize m"
  by (auto simp: AdRtbEngineGetMaterials_def Let_def fits_size_def find_None_iff split: if_splits)

lemma AdRtbEngineBuild_cases:
  assumes "AdRtbEngineBuild ctConf q r0 p = (ret, r)"
  obtains "ret = AD_FAILURE" "r = r0"
    "\<And>c m. map_of (m_mCreativeInfo (pPlaningData p)) (m_uiAdx q) = Some c \<Longrightarrow> m \<in> set (m_ltMaterials c) \<Longrightarrow> \<not> fits_size (m_sSize q) m"
  | c m where "ret = AD_SUCCESS" "map_of (m_mCreativeInfo (pPlaningData p)) (m_uiAdx q) = Some c"
      "m \<in> set (m_ltMaterials c)" "fits_size (m_sSize q) m" "r = build_response ctConf q p c m r0"
  using assms GetMaterials_Some GetMaterials_None
  by (force simp: AdRtbEngineBuild_def split: option.splits)

text \<open>
  The price of a bid. A unit that the user is a VIP of is sold at the fixed price. Any other has the price of its order
  or of the model, which is above zero and above the minimum of the request, save for the videos of Youku and
  Miaozhen, which are sold at any price.
\<close>

definition bid_price :: "run_env \<Rightarrow> AdRtbEngine \<Rightarrow> AdRtbRequest \<Rightarrow> AdPlanningUnit \<Rightarrow> UINT \<Rightarrow> bool" where
  "bid_price env eng q u p \<longleftrightarrow>
     (if vip_user (e_user (ne_match env)) q u then p = AD_VIP_PRICE
      else unit_price (ne_rank env) (m_ctDealRank eng) q (u, clear_result) = Inr p \<and>
        (any_price q \<or> 0 < p \<and> atoi (m_sMinPrice q) < p))"

lemma rank_choice_priced:
  assumes "FiltersMatch (ne_match env) st q [] = Inr mResult"
    and "AdRtbRankChoice (ne_rank env) (m_ctDealRank eng) q mResult = Inr (Some p)"
  shows "\<exists>k u s. (k, u, s) \<in> set mResult \<and> p = ad_unit_price u (uiPrice p) \<and> bid_price env eng q u (uiPrice p)"
proof -
  obtain k u s where u: "(k, u, s) \<in> set mResult" "p = ad_unit_price u (uiPrice p)"
    "if m_bVip s then uiPrice p = AD_VIP_PRICE
     else unit_price (ne_rank env) (m_ctDealRank eng) q (u, s) = Inr (uiPrice p) \<and> sellable q (uiPrice p)"
    using rank_choice_in [OF assms(2)] by blast
  have s: "m_ltMarkInfo s = []" "m_bVip s \<longleftrightarrow> vip_user (e_user (ne_match env)) q u"
    using match_vip [OF assms(1) u(1)] by simp_all
  have "unit_price (ne_rank env) (m_ctDealRank eng) q (u, s) = unit_price (ne_rank env) (m_ctDealRank eng) q (u, clear_result)"
    by (simp add: unit_price_def s(1) clear_result_def Let_def split: option.split)
  with u s have "bid_price env eng q u (uiPrice p)" by (auto simp: bid_price_def sellable_def split: if_splits)
  with u show ?thesis by blast
qed

text \<open>The response bids for one of the units at its price, with a material of the right size.\<close>

definition bid_for :: "run_env \<Rightarrow> AdRtbEngine \<Rightarrow> (UINT \<times> AdPlanningUnit) list \<Rightarrow> AdRtbRequest \<Rightarrow> AdRtbResponse \<Rightarrow> bool" where
  "bid_for env eng mData q r \<longleftrightarrow> (\<exists>u p c m. u \<in> units_of mData \<and>
     selected (ne_match env) (m_realtime (m_ctFilters eng)) (tanx_in_use (m_ctFilters eng)) q u \<and>
     bid_price env eng q u p \<and> map_of (m_mCreativeInfo u) (m_uiAdx q) = Some c \<and>
     m \<in> set (m_ltMaterials c) \<and> fits_size (m_sSize q) m \<and>
     r = build_response (pp_Get False (m_ctConfig eng)) q (ad_unit_price u p) c m clear_response)"

lemma engine_bid_cases:
  assumes "engine_bid env eng q mResult r0 s = Inr (ret, r, s')"
  shows "(ret \<noteq> AD_SUCCESS \<and> r = r0) \<or> (ret = AD_SUCCESS \<and> (\<exists>p c m.
    AdRtbRankChoice (ne_rank env) (m_ctDealRank eng) q mResult = Inr (Some p) \<and>
    map_of (m_mCreativeInfo (pPlaningData p)) (m_uiAdx q) = Some c \<and> m \<in> set (m_ltMaterials c) \<and>
    fits_size (m_sSize q) m \<and> r = build_response (pp_Get False (m_ctConfig eng)) q p c m r0))"
proof -
  obtain choice s1 where choice: "AdRtbRankChoice (ne_rank env) (m_ctDealRank eng) q mResult = Inr choice"
    and rest: "(case choice of None \<Rightarrow> Inr (AD_FAILURE, r0, s1)
      | Some p \<Rightarrow> (case AdRtbEngineBuild (pp_Get False (m_ctConfig eng)) q r0 p of (ret, r) \<Rightarrow>
           if ret \<noteq> AD_SUCCESS then Inr (ret, r, s1)
           else bind_cxx (count_response env (pp_Get False (m_ctConfig eng)) s1) (\<lambda>s. Inr (AD_SUCCESS, r, s)))) = Inr (ret, r, s')"
    using assms by (auto simp: engine_bid_def Let_def bind_cxx_Inr_iff)
  show ?thesis
  proof (cases choice)
    case None
    with rest show ?thesis by (simp add: AD_SUCCESS_def AD_FAILURE_def)
  next
    case (Some p)
    obtain ret1 r1 where b: "AdRtbEngineBuild (pp_Get False (m_ctConfig eng)) q r0 p = (ret1, r1)" by force
    from b show ?thesis
    proof (cases rule: AdRtbEngineBuild_cases)
      case 1
      with rest Some b show ?thesis by (simp add: AD_SUCCESS_def AD_FAILURE_def)
    next
      case (2 c m)
      with rest Some b have "ret = AD_SUCCESS \<and> r = r1" by (auto simp: bind_cxx_Inr_iff)
      with 2 choice Some show ?thesis by blast
    qed
  qed
qed

lemma engine_bid_serves:
  assumes "serves mData (m_ctFilters eng)" "FiltersMatch (ne_match env) (m_ctFilters eng) q [] = Inr mResult"
    and "engine_bid env eng q mResult clear_response s = Inr (ret, r, s')"
  shows "r = clear_response \<or> bid_for env eng mData q r"
  using engine_bid_cases [OF assms(3)]
proof (elim disjE conjE exE)
  fix p c m
  assume c: "AdRtbRankChoice (ne_rank env) (m_ctDealRank eng) q mResult = Inr (Some p)"
    and b: "map_of (m_mCreativeInfo (pPlaningData p)) (m_uiAdx q) = Some c" "m \<in> set (m_ltMaterials c)"
      "fits_size (m_sSize q) m" "r = build_response (pp_Get False (m_ctConfig eng)) q p c m clear_response"
  from rank_choice_priced [OF assms(2) c] obtain k u x where u: "(k, u, x) \<in> set mResult" "p = ad_unit_price u (uiPrice p)"
    "bid_price env eng q u (uiPrice p)" by blast
  from u(2) have "pPlaningData p = u" by (metis AdUnitPrice.select_convs(1) ad_unit_price_def)
  with b u serves_match_entry [OF assms(1,2) u(1)] have "bid_for env eng mData q r"
    unfolding bid_for_def by (intro exI [of _ u] exI [of _ "uiPrice p"] exI [of _ c] exI [of _ m]) simp
  then show ?thesis ..
qed simp

section \<open>From packet to packet\<close>

lemma reply_read:
  assumes "zlib_ok c u" "sender_ok P" "ucResult (m_stHead P) = AD_PROTOCOL_RESULT_OK"
    and "4110 \<le> length buf" "length buf < 2 ^ 31" "iMaxLen = int (length buf) - 1"
    and "m_r_uiAdx r = 0 \<or> length (wire (response_kvs r)) \<le> 4083"
  shows "\<exists>k P1 mem packet P2. InternalToTlv_res c P r buf iMaxLen = Inr (k, P1, mem) \<and> 0 < k \<and>
    rd_bytes mem 0 (nat k) = Inr packet \<and> TlvToInternal_res u R packet (int (length packet)) =
      (if m_r_uiAdx r = 0 then Inr (AD_FAILURE, P2, clear_response) else Inr (AD_SUCCESS, P2, received_response r))"
proof -
  define a where "a = take (length buf - 1) buf"
  have a: "buf = a @ drop (length buf - 1) buf" "length a = length buf - 1" by (simp_all add: a_def)
  have m: "iMaxLen = int (length a)" "4109 \<le> length a" "length a < 2 ^ 31" using a assms(4-6) by auto
  have "\<exists>packet P2. sent (InternalToTlv_res c P r a (int (length a))) = Inr packet \<and> packet \<noteq> [] \<and>
      TlvToInternal_res u R packet (int (length packet)) =
      (if m_r_uiAdx r = 0 then Inr (AD_FAILURE, P2, clear_response) else Inr (AD_SUCCESS, P2, received_response r))"
  proof (cases "m_r_uiAdx r = 0")
    case True
    obtain packet P2 where "sent (InternalToTlv_res c P r a (int (length a))) = Inr packet" "length packet = 12"
      "TlvToInternal_res u R packet 12 = Inr (AD_FAILURE, P2, clear_response)"
      using no_bid_read_back [OF assms(2) True, of a c u R] m by auto
    with True show ?thesis by (intro exI [of _ packet] exI [of _ P2]) auto
  next
    case False
    with assms(7) response_read_back [OF assms(1-3) False _ m(2,3), of R] show ?thesis by auto
  qed
  then obtain packet P2 where p: "sent (InternalToTlv_res c P r a iMaxLen) = Inr packet" "packet \<noteq> []"
    "TlvToInternal_res u R packet (int (length packet)) =
      (if m_r_uiAdx r = 0 then Inr (AD_FAILURE, P2, clear_response) else Inr (AD_SUCCESS, P2, received_response r))"
    unfolding m(1) by blast
  have "16 \<le> length a" using m(2) by simp
  from sent_in [OF p(1) this p(2), of "drop (length buf - 1) buf"] p(3) show ?thesis
    unfolding a(1) [symmetric] by blast
qed

text \<open>A run on a packet: the request as it was read, its number, and the response that is written.\<close>

definition numbered :: "AdTask \<Rightarrow> AdRtbRequest \<Rightarrow> AdRtbRequest" where
  "numbered ctTask q = q\<lparr>m_uiRequestId := m_uiLoop ctTask + 1\<rparr>"

lemma Run_response:
  assumes "Run env eng (Some cc) ctTask = Inr (ret, reply, pCache, ctTask')"
    and "TlvToInternal_req (ne_uncompress env) (ne_parse env) AdRtbProtocol_init (m_cCache cc) (m_iLen cc) = Inr (AD_SUCCESS, P, q)"
    and "serves mData (m_ctFilters eng)"
  obtains r k P' mem where "r = clear_response \<or> bid_for env eng mData (numbered ctTask q) r"
    and "InternalToTlv_res (ne_compress env) P r (m_cCache cc) (m_iMaxLen cc) = Inr (k, P', mem)"
    and "0 < k \<longrightarrow> (\<exists>packet. rd_bytes mem 0 (nat k) = Inr packet \<and> reply = Some packet)"
proof -
  define s where "s = AdRtbStatusRequestAdd (ne_request env) (AdRtbEngineAddStatus (ne_request env) ctTask)"
  obtain mResult ret1 r s' k P' mem
    where m: "FiltersMatch (ne_match env) (m_ctFilters eng) (numbered ctTask q) [] = Inr mResult"
      and b: "(if mResult = [] then Inr (AD_FAILURE, clear_response, s)
               else engine_bid env eng (numbered ctTask q) mResult clear_response s) = Inr (ret1, r, s')"
      and w: "InternalToTlv_res (ne_compress env) P r (m_cCache cc) (m_iMaxLen cc) = Inr (k, P', mem)"
      and rep: "0 < k \<longrightarrow> (\<exists>packet. rd_bytes mem 0 (nat k) = Inr packet \<and> reply = Some packet)"
    using assms(1)
    by (auto simp: Run_def AdRtbEngineRun_def assms(2) bind_cxx_Inr_iff Let_def s_def numbered_def split: if_splits)
  have "r = clear_response \<or> bid_for env eng mData (numbered ctTask q) r"
    using b engine_bid_serves [OF assms(3) m] by (auto split: if_splits)
  with w rep that show thesis by blast
qed

lemma cache_packet:
  assumes "cache_ok cc" "cache_data cc = packet"
  shows "m_cCache cc = packet @ drop (length packet) (m_cCache cc)" "m_iLen cc = int (length packet)"
proof -
  have n: "nat (m_iLen cc) \<le> length (m_cCache cc)" "0 \<le> m_iLen cc" using assms(1) by (auto simp: cache_ok_def)
  have packet: "packet = take (nat (m_iLen cc)) (m_cCache cc)" using assms(2) by (simp add: cache_data_def)
  with n have l: "length packet = nat (m_iLen cc)" by simp
  with n show "m_iLen cc = int (length packet)" by simp
  show "m_cCache cc = packet @ drop (length packet) (m_cCache cc)"
    unfolding l by (simp add: packet)
qed

lemma request_in_cache:
  assumes "zlib_ok c u" "sender_ok P"
    and "length (wire ((AD_PROTOCOL_KEY_ADIRECT_FLOW_TYPE, m_sFlow q) # request_kvs q)) \<le> 4083"
    and "4109 \<le> length pdata" "length pdata < 2 ^ 31"
    and "sent (InternalToTlv_req c P q pdata (int (length pdata))) = Inr packet"
    and "cache_ok cc" "cache_data cc = packet"
  shows "\<exists>P'. sender_ok P' \<and> ucResult (m_stHead P') = ucResult (m_stHead P) \<and>
    TlvToInternal_req u now R (m_cCache cc) (m_iLen cc) = Inr (AD_SUCCESS, P', received_request now q)"
proof -
  obtain p where "sent (InternalToTlv_req c P q pdata (int (length pdata))) = Inr p" "\<forall>suf. \<exists>P'. sender_ok P' \<and>
    ucResult (m_stHead P') = ucResult (m_stHead P) \<and>
    TlvToInternal_req u now R (p @ suf) (int (length p)) = Inr (AD_SUCCESS, P', received_request now q)"
    using request_read_in [OF assms(1-5), of now R] by blast
  with assms(6) have "\<exists>P'. sender_ok P' \<and> ucResult (m_stHead P') = ucResult (m_stHead P) \<and>
    TlvToInternal_req u now R (packet @ drop (length packet) (m_cCache cc)) (int (length packet)) =
      Inr (AD_SUCCESS, P', received_request now q)" by simp
  then show ?thesis unfolding cache_packet [OF assms(7,8), symmetric] .
qed

text \<open>
  C1. From the adapter to the adapter. A request whose values take at most 4083 bytes of a packet, that the adapter
  writes and that arrives in the cache of a session, is answered either by a packet that the adapter reads as no
  bid, or by a bid for a unit of the loaded set that the request targets and nothing excludes, with a material of the
  size and for the exchange of the request. The price is the fixed one of a VIP exactly when the data of the user
  names this unit; else it is that of the unit, above zero and above the minimum of the request, save for the
  videos of Youku and Miaozhen, where it may be any, even zero. When the values of the bid take at most 4083 bytes
  the adapter reads it field by field; nothing is said of the answer to a bid that takes more.
\<close>

theorem bid_end_to_end:
  assumes "serves mData (m_ctFilters eng)" "zlib_ok (ne_compress env) (ne_uncompress env)"
    and "sender_ok P" "ucResult (m_stHead P) = AD_PROTOCOL_RESULT_OK"
    and "length (wire ((AD_PROTOCOL_KEY_ADIRECT_FLOW_TYPE, m_sFlow q) # request_kvs q)) \<le> 4083"
    and "4109 \<le> length pdata" "length pdata < 2 ^ 31"
    and "sent (InternalToTlv_req (ne_compress env) P q pdata (int (length pdata))) = Inr packet"
    and "cache_ok cc" "cache_data cc = packet"
    and "Run env eng (Some cc) ctTask = Inr (ret, reply, cc', ctTask')"
  shows "(\<exists>answer P'. reply = Some answer \<and> TlvToInternal_res (ne_uncompress env) R answer (int (length answer)) =
      Inr (AD_FAILURE, P', clear_response)) \<or>
    (\<exists>r. bid_for env eng mData (numbered ctTask (received_request (ne_parse env) q)) r \<and>
      (length (wire (response_kvs r)) \<le> 4083 \<longrightarrow>
        (\<exists>answer P'. reply = Some answer \<and> TlvToInternal_res (ne_uncompress env) R answer (int (length answer)) =
          Inr (AD_SUCCESS, P', received_response r))))"
proof -
  obtain P1 where P1: "sender_ok P1" "ucResult (m_stHead P1) = AD_PROTOCOL_RESULT_OK"
    "TlvToInternal_req (ne_uncompress env) (ne_parse env) AdRtbProtocol_init (m_cCache cc) (m_iLen cc) =
      Inr (AD_SUCCESS, P1, received_request (ne_parse env) q)"
    using request_in_cache [OF assms(2,3,5-10)] assms(4) by auto
  obtain r k P2 mem where r: "r = clear_response \<or> bid_for env eng mData (numbered ctTask (received_request (ne_parse env) q)) r"
    and w: "InternalToTlv_res (ne_compress env) P1 r (m_cCache cc) (m_iMaxLen cc) = Inr (k, P2, mem)"
    and rep: "0 < k \<longrightarrow> (\<exists>packet. rd_bytes mem 0 (nat k) = Inr packet \<and> reply = Some packet)"
    by (rule Run_response [OF assms(11) P1(3) assms(1)])
  have buf: "4110 \<le> length (m_cCache cc)" "length (m_cCache cc) < 2 ^ 31" "m_iMaxLen cc = int (length (m_cCache cc)) - 1"
    using assms(9) by (simp_all add: cache_ok_def)
  have adx: "m_r_uiAdx clear_response = 0" by (simp add: clear_response_def)
  have answer: "\<exists>answer P'. reply = Some answer \<and> TlvToInternal_res (ne_uncompress env) R answer (int (length answer)) =
      (if m_r_uiAdx r = 0 then Inr (AD_FAILURE, P', clear_response) else Inr (AD_SUCCESS, P', received_response r))"
    if "m_r_uiAdx r = 0 \<or> length (wire (response_kvs r)) \<le> 4083"
    using reply_read [OF assms(2) P1(1,2) buf that, of R] w rep by force
  show ?thesis
  proof (cases "m_r_uiAdx r = 0")
    case True
    with answer show ?thesis by auto
  next
    case False
    with r adx have "bid_for env eng mData (numbered ctTask (received_request (ne_parse env) q)) r" by auto
    with False answer show ?thesis by auto
  qed
qed

text \<open>A unit with a price, the packet of \<open>demo_request\<close> in the cache, and a server that is not there.\<close>

definition bid_unit :: AdPlanningUnit where
  "bid_unit = demo_unit\<lparr>m_stOrder := (m_stOrder demo_unit)\<lparr>m_uiTargetPrice := 30, m_uiTargetPriceType := AD_ORDER_CPM\<rparr>\<rparr>"

definition demo_run :: run_env where
  "demo_run = \<lparr>ne_parse = at_zero, ne_request = at_zero, ne_life = at_zero, ne_status = at_zero,
     ne_uncompress = (\<lambda>_. rev), ne_compress = (\<lambda>_. rev), ne_match = demo_env, ne_rank = demo_rank_env,
     ne_redis = \<lparr>redisConnect = (\<lambda>_ _. False), redisReplyOf = (\<lambda>_. None)\<rparr>, ne_hour = (\<lambda>_. ''09''),
     ne_day = (\<lambda>_. ''2016-01-04'')\<rparr>"

definition demo_task :: AdTask where
  "demo_task = \<lparr>m_uiLoop = 4, m_pState = None\<rparr>"

definition demo_engine :: "AdRtbFilters \<Rightarrow> AdRtbEngine" where
  "demo_engine fs = (AdRtbEngine_new 0)\<lparr>m_ctFilters := fs\<rparr>"

definition demo_received :: AdRtbRequest where
  "demo_received = numbered demo_task (received_request at_zero demo_request)"

definition demo_status :: AdBiddingTaskStatus where
  "demo_status = AdRtbStatusRequestAdd (ne_request demo_run) (AdRtbEngineAddStatus (ne_request demo_run) demo_task)"

definition demo_bid :: "(AdRtbFilters \<times> match_result \<times> int \<times> AdRtbResponse \<times> AdBiddingTaskStatus) option" where
  "demo_bid = (case FiltersUpdate demo_conf 1 [(7, bid_unit)] demo_state of
       Inl _ \<Rightarrow> None
     | Inr (ret, st') \<Rightarrow> if ret \<noteq> AD_SUCCESS then None else
         (case FiltersMatch (ne_match demo_run) st' demo_received [] of
            Inl _ \<Rightarrow> None
          | Inr m \<Rightarrow> (case engine_bid demo_run (demo_engine st') demo_received m clear_response demo_status of
               Inl _ \<Rightarrow> None | Inr (ret, r, s) \<Rightarrow> Some (st', m, ret, r, s))))"

definition wire_size :: "(UCHAR \<times> string) list \<Rightarrow> nat" where
  "wire_size kvs = sum_list (map (\<lambda>(K, V). if V = [] then 0 else 5 + length V) kvs)"

lemma wire_size: "wire_size kvs = length (wire kvs)"
  by (induction kvs) (auto simp: wire_size_def)

lemma demo_bids:
  "case demo_bid of None \<Rightarrow> False | Some (st', m, ret, r, s) \<Rightarrow> map fst m = [7] \<and> m_r_sExecID r = ''7'' \<and>
     m_r_sMaxPrice r = ''30'' \<and> wire_size (response_kvs r) \<le> 4083"
  by code_simp

lemma demo_bid_run:
  obtains st' m ret r s where "FiltersUpdate demo_conf 1 [(7, bid_unit)] demo_state = Inr (AD_SUCCESS, st')"
    and "FiltersMatch (ne_match demo_run) st' demo_received [] = Inr m"
    and "engine_bid demo_run (demo_engine st') demo_received m clear_response demo_status = Inr (ret, r, s)"
    and "m \<noteq> []" "m_r_sExecID r = ''7''" "length (wire (response_kvs r)) \<le> 4083"
proof -
  obtain st' m ret r s where b: "demo_bid = Some (st', m, ret, r, s)" and f: "map fst m = [7]" "m_r_sExecID r = ''7''"
    "length (wire (response_kvs r)) \<le> 4083"
    using demo_bids by (auto simp: wire_size split: option.splits)
  then have m: "m \<noteq> []" by auto
  obtain ret1 st1 where u: "FiltersUpdate demo_conf 1 [(7, bid_unit)] demo_state = Inr (ret1, st1)"
    using b by (cases "FiltersUpdate demo_conf 1 [(7, bid_unit)] demo_state") (auto simp: demo_bid_def)
  have ok: "ret1 = AD_SUCCESS"
    using b by (cases "ret1 = AD_SUCCESS") (simp_all add: demo_bid_def u)
  obtain m1 where match: "FiltersMatch (ne_match demo_run) st1 demo_received [] = Inr m1"
    using b by (cases "FiltersMatch (ne_match demo_run) st1 demo_received []") (simp_all add: demo_bid_def u ok)
  obtain ret2 r2 s2 where bid: "engine_bid demo_run (demo_engine st1) demo_received m1 clear_response demo_status = Inr (ret2, r2, s2)"
    using b by (cases "engine_bid demo_run (demo_engine st1) demo_received m1 clear_response demo_status")
      (auto simp: demo_bid_def u ok match)
  have "st1 = st' \<and> m1 = m \<and> ret2 = ret \<and> r2 = r \<and> s2 = s"
    using b by (simp add: demo_bid_def u ok match bid)
  with u ok match bid m f that show thesis by blast
qed

lemma Run_bid:
  assumes "TlvToInternal_req (ne_uncompress env) (ne_parse env) AdRtbProtocol_init (m_cCache cc) (m_iLen cc) = Inr (AD_SUCCESS, P, q)"
    and "FiltersMatch (ne_match env) (m_ctFilters eng) (numbered ctTask q) [] = Inr m" "m \<noteq> []"
    and "engine_bid env eng (numbered ctTask q) m clear_response
      (AdRtbStatusRequestAdd (ne_request env) (AdRtbEngineAddStatus (ne_request env) ctTask)) = Inr (ret, r, s)"
    and "InternalToTlv_res (ne_compress env) P r (m_cCache cc) (m_iMaxLen cc) = Inr (k, P', mem)" "0 < k"
    and "rd_bytes mem 0 (nat k) = Inr packet"
  shows "Run env eng (Some cc) ctTask = Inr (AD_SUCCESS, Some packet, Some (cache_Set k (cc\<lparr>m_cCache := mem\<rparr>)),
    \<lparr>m_uiLoop = m_uiLoop ctTask + 1, m_pState = Some s\<rparr>)"
  using assms by (simp add: Run_def AdRtbEngineRun_def Let_def numbered_def)

lemma mark_new_ok: "mark_index_ok {} (c_new_mark demo_conf)"
  by (simp add: mark_index_ok_def demo_conf_def AdFilterMark_new_def)

lemma demo_request_fits:
  "length (wire ((AD_PROTOCOL_KEY_ADIRECT_FLOW_TYPE, m_sFlow demo_request) # request_kvs demo_request)) \<le> 4083"
  by (simp add: demo_request_def clear_request_def request_kvs_def wire_append)

lemma demo_packet:
  obtains packet cc P where
    "sent (InternalToTlv_req (\<lambda>_. rev) AdRtbProtocol_init demo_request (replicate 4109 CHR 0x00)
      (int (length (replicate 4109 CHR 0x00)))) = Inr packet"
    and "cache_ok cc" "cache_data cc = packet" "sender_ok P" "ucResult (m_stHead P) = AD_PROTOCOL_RESULT_OK"
    and "TlvToInternal_req (\<lambda>_. rev) at_zero AdRtbProtocol_init (m_cCache cc) (m_iLen cc) =
      Inr (AD_SUCCESS, P, received_request at_zero demo_request)"
proof -
  let ?pdata = "replicate 4109 CHR 0x00"
    have buf: "4109 \<le> length ?pdata" "length ?pdata < 2 ^ 31" by simp_all
  obtain packet where packet: "sent (InternalToTlv_req (\<lambda>_. rev) AdRtbProtocol_init demo_request ?pdata (int (length ?pdata))) = Inr packet"
    "length packet \<le> length ?pdata"
    using request_read_in [OF zlib_ok_rev sender_ok_init demo_request_fits buf, of at_zero AdRtbProtocol_init] by blast
  define cc where "cc = \<lparr>m_cCache = packet @ replicate (8192 - length packet) CHR 0x00, m_iLen = int (length packet), m_iMaxLen = 8191\<rparr>"
  have cc: "cache_ok cc" "cache_data cc = packet"
    using packet(2) by (simp_all add: cc_def cache_ok_def cache_data_def)
  obtain P where "sender_ok P" "ucResult (m_stHead P) = AD_PROTOCOL_RESULT_OK"
    "TlvToInternal_req (\<lambda>_. rev) at_zero AdRtbProtocol_init (m_cCache cc) (m_iLen cc) =
      Inr (AD_SUCCESS, P, received_request at_zero demo_request)"
    using request_in_cache [OF zlib_ok_rev sender_ok_init demo_request_fits buf packet(1) cc, of at_zero AdRtbProtocol_init]
    by (auto simp: AdRtbProtocol_init_def)
  with packet(1) cc that show thesis by blast
qed

lemma demo_serves:
  assumes "FiltersUpdate demo_conf 1 [(7, bid_unit)] demo_state = Inr (AD_SUCCESS, st')"
  shows "serves [(7, bid_unit)] st'"
proof -
  have "AdRtbFiltersCorrect.units_ok [(7, bid_unit)]" by code_simp
  from FiltersUpdate_serves [OF assms this mark_new_ok] show ?thesis .
qed

lemma bid_end_to_end_witness:
  "\<exists>eng cc cc' ctTask' answer. Run demo_run eng (Some cc) demo_task = Inr (AD_SUCCESS, Some answer, cc', ctTask') \<and>
    ((\<exists>P'. TlvToInternal_res (\<lambda>_. rev) AdRtbProtocol_init answer (int (length answer)) = Inr (AD_FAILURE, P', clear_response)) \<or>
     (\<exists>r. bid_for demo_run eng [(7, bid_unit)] demo_received r \<and> (length (wire (response_kvs r)) \<le> 4083 \<longrightarrow>
       (\<exists>P'. TlvToInternal_res (\<lambda>_. rev) AdRtbProtocol_init answer (int (length answer)) =
         Inr (AD_SUCCESS, P', received_response r)))))"
proof -
  obtain st' m ret r s where load: "FiltersUpdate demo_conf 1 [(7, bid_unit)] demo_state = Inr (AD_SUCCESS, st')"
    and match: "FiltersMatch (ne_match demo_run) st' demo_received [] = Inr m" "m \<noteq> []"
    and bid: "engine_bid demo_run (demo_engine st') demo_received m clear_response demo_status = Inr (ret, r, s)"
    and fits: "length (wire (response_kvs r)) \<le> 4083"
    by (rule demo_bid_run) blast
  have serves: "serves [(7, bid_unit)] (m_ctFilters (demo_engine st'))"
    using demo_serves [OF load] by (simp add: demo_engine_def)
  let ?pdata = "replicate 4109 CHR 0x00"
  have buf: "4109 \<le> length ?pdata" "length ?pdata < 2 ^ 31" by simp_all
  obtain packet cc P where packet: "sent (InternalToTlv_req (\<lambda>_. rev) AdRtbProtocol_init demo_request ?pdata (int (length ?pdata))) = Inr packet"
    and cc: "cache_ok cc" "cache_data cc = packet"
    and P: "sender_ok P" "ucResult (m_stHead P) = AD_PROTOCOL_RESULT_OK"
      "TlvToInternal_req (\<lambda>_. rev) at_zero AdRtbProtocol_init (m_cCache cc) (m_iLen cc) =
        Inr (AD_SUCCESS, P, received_request at_zero demo_request)"
    by (rule demo_packet)
  have big: "4110 \<le> length (m_cCache cc)" "length (m_cCache cc) < 2 ^ 31" "m_iMaxLen cc = int (length (m_cCache cc)) - 1"
    using cc(1) by (simp_all add: cache_ok_def)
  obtain k P1 mem answer where w: "InternalToTlv_res (\<lambda>_. rev) P r (m_cCache cc) (m_iMaxLen cc) = Inr (k, P1, mem)" "0 < k"
    "rd_bytes mem 0 (nat k) = Inr answer"
    using reply_read [OF zlib_ok_rev P(1,2) big, of r AdRtbProtocol_init] fits by blast
  have env: "ne_uncompress demo_run = (\<lambda>_. rev)" "ne_compress demo_run = (\<lambda>_. rev)" "ne_parse demo_run = at_zero"
    "m_ctFilters (demo_engine st') = st'" by (simp_all add: demo_run_def demo_engine_def)
  note run = Run_bid [where env = demo_run and eng = "demo_engine st'" and ctTask = demo_task and cc = cc,
    unfolded env, OF P(3) match(1) [unfolded demo_received_def] match(2)
      bid [unfolded demo_received_def demo_status_def] w]
  have ok: "ucResult (m_stHead AdRtbProtocol_init) = AD_PROTOCOL_RESULT_OK" by (simp add: AdRtbProtocol_init_def)
  have "zlib_ok (ne_compress demo_run) (ne_uncompress demo_run)" unfolding env by (rule zlib_ok_rev)
  from bid_end_to_end [OF serves this sender_ok_init ok demo_request_fits buf packet [folded env(2)] cc run, of AdRtbProtocol_init] run
  show ?thesis unfolding env demo_received_def by blast
qed

section \<open>The area of a remote request\<close>

lemma tlv_body_inv:
  assumes "tlv_body parse mem b len n cur r = Inr r'" "Q r"
    and "\<And>K p s r. parse K = Some p \<Longrightarrow> Q r \<Longrightarrow> Q (kv_store p s r)"
  shows "Q r'"
  using assms(1,2)
proof (induction n arbitrary: cur r)
  case (Suc n)
  show ?case
  proof (cases "int_cast (cur - b) < len")
    case True
    with Suc.prems(1) obtain K w r1 where
      "(case parse K of None \<Rightarrow> Inr r
        | Some p \<Rightarrow> if sint (w :: UINT) < 0 then Inl BadLength
            else bind_cxx (rd_bytes mem (cur + 5) (nat (sint w))) (\<lambda>s. Inr (kv_store p s r))) = Inr r1"
      and rest: "tlv_body parse mem b len n (cur + 5 + sint w) r1 = Inr r'"
      by (auto simp: bind_cxx_Inr_iff Let_def)
    then have "Q r1"
      using Suc.prems(2) assms(3) by (auto simp: bind_cxx_Inr_iff split: option.splits if_splits)
    with rest show ?thesis by (rule Suc.IH)
  qed (use Suc.prems in simp)
qed simp

lemma parsed_area: "map_of AdRtbProtocolInitParser_req K = Some p \<Longrightarrow> m_sArea (kv_store p s r) = m_sArea r"
  by (drule map_of_SomeD) (auto simp: AdRtbProtocolInitParser_req_def)

lemma received_area:
  assumes "TlvToInternal_req u now R pdata iLen = Inr (AD_SUCCESS, P, q)"
  shows "m_sArea q = []"
proof -
  obtain mem b len n q' adx t where p: "tlv_body (map_of AdRtbProtocolInitParser_req) mem b len n b (clear_request now) = Inr q'"
    and q: "q = q'\<lparr>m_uiAdx := adx, m_sTransaction := t\<rparr>"
    using assms by (auto simp: TlvToInternal_req_def Let_def bind_cxx_Inr_iff split: if_splits)
  have "m_sArea q' = []"
    using p by (rule tlv_body_inv [where Q = "\<lambda>q. m_sArea q = []"]) (simp_all add: clear_request_def parsed_area)
  with q show ?thesis by simp
qed

text \<open>
  The adapter looks up the area of a user and puts it into the request, but no packet carries it: whatever bytes
  arrive, the request has an empty area, so the only units a remote engine finds are those for all areas (or for
  the empty one). Every unit that is targeted at an area is lost.
\<close>

theorem remote_area_lost:
  assumes "TlvToInternal_req u now R pPacket iLen = Inr (AD_SUCCESS, P, q)" "serves mData (m_ctFilters eng)"
    and "FiltersMatch env (m_ctFilters eng) (numbered ctTask q) [] = Inr mResult" "(k, w, s) \<in> set mResult"
  shows "m_sArea q = [] \<and>
    (AD_AREA_ALL \<in> set (m_ltArea (m_stTargetAudience w)) \<or> [] \<in> set (m_ltArea (m_stTargetAudience w)))"
proof -
  have a: "m_sArea q = []" using assms(1) by (rule received_area)
  have "targets env (numbered ctTask q) w"
    using serves_match_entry [OF assms(2-4)] by (simp add: selected_def)
  then have "meets [AD_AREA_ALL, m_sArea (numbered ctTask q)] (AdFilterArea_keys w)"
    by (simp add: targets_def index_specs_def split: if_splits)
  with a show ?thesis by (auto simp: numbered_def meets_def AdFilterArea_keys_def split: if_splits)
qed

lemma remote_area_lost_witness:
  "\<exists>(cc :: AdCache) P q (eng :: AdRtbEngine) m k w s. TlvToInternal_req (\<lambda>_. rev) at_zero AdRtbProtocol_init (m_cCache cc) (m_iLen cc) = Inr (AD_SUCCESS, P, q) \<and>
    FiltersMatch (ne_match demo_run) (m_ctFilters eng) (numbered demo_task q) [] = Inr m \<and> (k, w, s) \<in> set m \<and>
    m_sArea demo_request = ''0086-0021-0000'' \<and> m_sArea q = [] \<and>
    (AD_AREA_ALL \<in> set (m_ltArea (m_stTargetAudience w)) \<or> [] \<in> set (m_ltArea (m_stTargetAudience w)))"
proof -
  obtain st' m where load: "FiltersUpdate demo_conf 1 [(7, bid_unit)] demo_state = Inr (AD_SUCCESS, st')"
    and match: "FiltersMatch (ne_match demo_run) st' demo_received [] = Inr m" and m: "m \<noteq> []"
    by (rule demo_bid_run) blast
  obtain e where "e \<in> set m" using m by (cases m) auto
  then obtain k w s where e: "(k, w, s) \<in> set m" by (metis prod_cases3)
  obtain cc :: AdCache and P where P: "TlvToInternal_req (\<lambda>_. rev) at_zero AdRtbProtocol_init (m_cCache cc) (m_iLen cc) =
      Inr (AD_SUCCESS, P, received_request at_zero demo_request)"
    by (rule demo_packet) (rule that)
  have eng: "m_ctFilters (demo_engine st') = st'" by (simp add: demo_engine_def)
  have serves: "serves [(7, bid_unit)] (m_ctFilters (demo_engine st'))" unfolding eng by (rule demo_serves [OF load])
  have match: "FiltersMatch (ne_match demo_run) (m_ctFilters (demo_engine st'))
      (numbered demo_task (received_request at_zero demo_request)) [] = Inr m"
    unfolding eng using match by (simp only: demo_received_def)
  have "m_sArea demo_request = ''0086-0021-0000''" by (simp add: demo_request_def)
  with remote_area_lost [OF P serves match e] P match e show ?thesis by blast
qed

end
