(* ===== verification/AdRtbEngineUpdates.thy ===== *)
theory AdRtbEngineUpdates
  imports AdRtbEngineCorrect AdPlanningCorrect
begin

text \<open>
  The engine over time: what every sequence of initialisations, updates and budget reports keeps, and which
  failures the order of the steps of an update makes fatal or permanent.
\<close>

section \<open>What an update changes\<close>

lemma engine_data_frame:
  assumes "engine_data env eng = Inr (ret, eng')"
  shows "eng' = eng\<lparr>m_ctData := m_ctData eng'\<rparr>" "m_ctFilters eng' = m_ctFilters eng"
    "m_ctConfig eng' = m_ctConfig eng"
  using assms by (auto simp: engine_data_def bind_cxx_Inr_iff split: if_splits)

lemma engine_data_reach:
  assumes "engine_data env eng = Inr (ret, eng')" "planning_reach (m_ctData eng)"
  shows "planning_reach (m_ctData eng')"
  using assms
  by (auto simp: engine_data_def bind_cxx_Inr_iff split: if_splits;
      meson planning_update planning_prices planning_filter_result)

lemma engine_config_frame:
  assumes "engine_config env eng = (ret, eng')"
  shows "m_ctData eng' = m_ctData eng" "m_ctFilters eng' = m_ctFilters eng"
    "pp_Get False (m_ctConfig eng') = snd (Check (ue_stat env) (pp_Get False (m_ctConfig eng)))"
  using assms by (auto simp: engine_config_def Let_def split: prod.splits if_splits)

lemma engine_filters_frame:
  assumes "engine_filters env eng = Inr (ret, eng')"
  shows "m_ctData eng' = m_ctData eng" "m_ctConfig eng' = m_ctConfig eng"
    "ret \<noteq> AD_SUCCESS \<Longrightarrow> pp_Get False (m_vFilters (m_ctFilters eng')) = pp_Get False (m_vFilters (m_ctFilters eng))"
proof -
  obtain fs where f: "FiltersUpdate (filters_conf_of env (pp_Get False (m_ctConfig eng))) (ue_week env)
      (DataGetCache (m_ctData eng)) (m_ctFilters eng) = Inr (ret, fs)" "eng' = eng\<lparr>m_ctFilters := fs\<rparr>"
    using assms by (auto simp: engine_filters_def bind_cxx_Inr_iff)
  then show "m_ctData eng' = m_ctData eng" "m_ctConfig eng' = m_ctConfig eng" by simp_all
  assume "ret \<noteq> AD_SUCCESS"
  moreover have "pp_Get (ret = AD_SUCCESS) (m_vFilters fs) = pp_Get False (m_vFilters (m_ctFilters eng))"
    by (rule FiltersUpdate_Inr [OF f(1)])
  ultimately show "pp_Get False (m_vFilters (m_ctFilters eng')) = pp_Get False (m_vFilters (m_ctFilters eng))"
    using f(2) by simp
qed

text \<open>An update: the data, then configuration and ranking, then the filters.\<close>

lemma AdRtbEngineUpdate_cases:
  assumes "AdRtbEngineUpdate env eng = Inr (ret, eng')"
  obtains "engine_data env eng = Inr (ret, eng')" "ret \<noteq> AD_SUCCESS"
  | eng1 where "engine_data env eng = Inr (AD_SUCCESS, eng1)" "engine_config env eng1 = (ret, eng')" "ret \<noteq> AD_SUCCESS"
  | eng1 eng2 where "engine_data env eng = Inr (AD_SUCCESS, eng1)" "engine_config env eng1 = (AD_SUCCESS, eng2)"
      "engine_filters env eng2 = Inr (ret, eng')"
  using assms by (auto simp: AdRtbEngineUpdate_def bind_cxx_Inr_iff Let_def split: prod.splits if_splits)

section \<open>Every history of the engine\<close>

inductive engine_reach :: "AdRtbEngine \<Rightarrow> bool" where
  reach_new: "engine_reach (AdRtbEngine_new garbage)"
| reach_init: "engine_reach eng \<Longrightarrow> AdRtbEngineInit ienv confFile eng = Inr (ret, eng') \<Longrightarrow> engine_reach eng'"
| reach_update: "engine_reach eng \<Longrightarrow> mark_index_ok {} (ue_new_mark env) \<Longrightarrow>
    AdRtbEngineUpdate env eng = Inr (ret, eng') \<Longrightarrow> engine_reach eng'"
| reach_report: "engine_reach eng \<Longrightarrow>
    AdFilterRealTimeUpdate now report (m_realtime (m_ctFilters eng)) = Inr (w, rt) \<Longrightarrow>
    engine_reach (eng\<lparr>m_ctFilters := (m_ctFilters eng)\<lparr>m_realtime := rt\<rparr>\<rparr>)"

definition served :: "AdRtbFilters \<Rightarrow> bool" where
  "served fs \<longleftrightarrow> pp_Get False (m_vFilters fs) = None \<or>
     (\<exists>mData. serves mData fs \<and> (\<forall>(e, u) \<in> set mData. eid u = e \<and> unit_typed u))"

lemma served_same: "pp_Get False (m_vFilters fs') = pp_Get False (m_vFilters fs) \<Longrightarrow> served fs \<Longrightarrow> served fs'"
  by (auto simp: served_def serves_def)

lemma planning_units:
  assumes "planning_reach d"
  shows "units_ok (DataGetCache d)" "\<forall>(e, u) \<in> set (DataGetCache d). eid u = e \<and> unit_typed u"
  using planning_reach_ok [OF assms]
  by (auto simp: planning_ok_def units_typed_def units_ok_def DataGetCache_def list_all_iff)

lemma engine_filters_served:
  assumes "engine_filters env eng = Inr (ret, eng')" "planning_reach (m_ctData eng)"
    and "mark_index_ok {} (ue_new_mark env)" "served (m_ctFilters eng)"
  shows "served (m_ctFilters eng')"
proof (cases "ret = AD_SUCCESS")
  case True
  obtain fs where f: "FiltersUpdate (filters_conf_of env (pp_Get False (m_ctConfig eng))) (ue_week env)
      (DataGetCache (m_ctData eng)) (m_ctFilters eng) = Inr (AD_SUCCESS, fs)" "m_ctFilters eng' = fs"
    using assms(1) True by (auto simp: engine_filters_def bind_cxx_Inr_iff)
  have "c_new_mark (filters_conf_of env c) = ue_new_mark env" for c by (simp add: filters_conf_of_def Let_def)
  with assms(3) have "mark_index_ok {} (c_new_mark (filters_conf_of env (pp_Get False (m_ctConfig eng))))" by simp
  from FiltersUpdate_serves [OF f(1) planning_units(1) [OF assms(2)] this] planning_units(2) [OF assms(2)] f(2)
  show ?thesis by (auto simp: served_def)
next
  case False
  with engine_filters_frame(3) [OF assms(1)] assms(4) show ?thesis by (blast intro: served_same)
qed

lemma AdRtbEngineUpdate_inv:
  assumes "AdRtbEngineUpdate env eng = Inr (ret, eng')" "mark_index_ok {} (ue_new_mark env)"
    and "planning_reach (m_ctData eng)" "served (m_ctFilters eng)"
  shows "planning_reach (m_ctData eng') \<and> served (m_ctFilters eng')"
  using assms(1)
proof (cases rule: AdRtbEngineUpdate_cases)
  case 1
  with engine_data_frame(2) [OF 1(1)] engine_data_reach [OF 1(1) assms(3)] assms(4) show ?thesis by simp
next
  case (2 eng1)
  with engine_data_frame(2) [OF 2(1)] engine_data_reach [OF 2(1) assms(3)] engine_config_frame(1,2) [OF 2(2)] assms(4)
  show ?thesis by simp
next
  case (3 eng1 eng2)
  have "planning_reach (m_ctData eng2)" "served (m_ctFilters eng2)"
    using engine_data_reach [OF 3(1) assms(3)] engine_data_frame(2) [OF 3(1)] engine_config_frame [OF 3(2)] assms(4)
    by simp_all
  with engine_filters_served [OF 3(3) _ assms(2)] engine_filters_frame(1) [OF 3(3)] show ?thesis by simp
qed

lemma engine_reach_inv: "engine_reach eng \<Longrightarrow> planning_reach (m_ctData eng) \<and> served (m_ctFilters eng)"
proof (induction rule: engine_reach.induct)
  case (reach_new garbage)
  then show ?case
    by (simp add: AdRtbEngine_new_def planning_new served_def AdRtbFilters_new_def pp_new_def pp_Get_def)
next
  case (reach_init eng ienv confFile ret eng')
  then show ?case
    by (auto simp: AdRtbEngineInit_def bind_cxx_Inr_iff Let_def intro: planning_init split: if_splits)
next
  case (reach_update eng env ret eng')
  then show ?case by (blast dest: AdRtbEngineUpdate_inv)
next
  case (reach_report eng now report w rt)
  have "served ((m_ctFilters eng)\<lparr>m_realtime := rt\<rparr>)"
    by (rule served_same [of _ "m_ctFilters eng"]) (use reach_report.IH in simp_all)
  with reach_report.IH show ?case by simp
qed

section \<open>The pointers of the units in use\<close>

text \<open>
  Units and the lists that they point to are values here, so the pointers need a statement of their own: a pointer of a unit
  is good when it is the content that the map which owns it has under the key of the unit.
\<close>

definition prices_good :: "AdPlanningData \<Rightarrow> bool" where
  "prices_good d \<longleftrightarrow> (\<forall>(e, u) \<in> set (DataGetCache d). m_pAdvancedPrice u = None \<or>
     m_pAdvancedPrice u = map_of (pp_Get False (m_mAdvancePrice d)) (eid u))"

definition bans_good :: "AdPlanningData \<Rightarrow> bool" where
  "bans_good d \<longleftrightarrow> (\<forall>(e, u) \<in> set (DataGetCache d). m_pltBanPidList u \<noteq> None \<and>
     m_pltBanPidList u = map_of (m_mBanPidList d) (eid u))"

lemma parse_no_price: "parse_unit value clear_unit = Inr (ret, u) \<Longrightarrow> m_pAdvancedPrice u = None"
  by (auto simp: parse_unit_def bind_cxx_Inr_iff clear_unit_def)

lemma loaded_no_price:
  assumes "loaded env m" "(e, u) \<in> set m"
  shows "m_pAdvancedPrice u = None"
proof -
  obtain vals where s: "strip_map m = strip_map (keyed (today_units env vals) [])" using assms(1) by (auto simp: loaded_def)
  have today: "\<forall>u \<in> set (today_units env vals). m_pAdvancedPrice u = None"
    by (auto simp: today_units_def accepts_def map_filter_def DataParse_def dest!: parse_no_price
        split: option.splits sum.splits if_splits prod.splits)
  have keyed: "\<forall>(k, w) \<in> set (keyed us m0). m_pAdvancedPrice w = None"
    if "\<forall>w \<in> set us. m_pAdvancedPrice w = None" "\<forall>(k, w) \<in> set m0. m_pAdvancedPrice w = None" for us m0
    using that
  proof (induction us arbitrary: m0)
    case (Cons w us)
    have "\<forall>(k, x) \<in> set (smap_upd (eid w) w m0). m_pAdvancedPrice x = None"
      using Cons.prems set_smap_upd [of "eid w" w m0] by fastforce
    with Cons show ?case by (simp add: keyed_def)
  qed (simp add: keyed_def)
  have k: "\<forall>(k, w) \<in> set (keyed (today_units env vals) []). m_pAdvancedPrice w = None" by (rule keyed [OF today]) simp
  have "(e, strip_ban u) \<in> set (strip_map m)" using assms(2) by force
  then obtain w where "(e, w) \<in> set (keyed (today_units env vals) [])" "strip_ban u = strip_ban w" unfolding s by auto
  with k have "m_pAdvancedPrice (strip_ban u) = None" by (auto simp: strip_ban_def)
  then show ?thesis by (simp add: strip_ban_def)
qed

lemma DataUpdate_prices_map: "DataUpdate env d = Inr (ret, n, d') \<Longrightarrow> m_mAdvancePrice d' = m_mAdvancePrice d"
  by (auto simp: DataUpdate_def bind_cxx_Inr_iff Let_def split: if_splits dest!: data_load_frame DataUpdateForSystem_frame)

lemma DataUpdate_prices:
  assumes "DataUpdate env d = Inr (ret, n, d')" "prices_good d"
  shows "prices_good d' \<and> (n = 0 \<or> (\<forall>(e, u) \<in> set (DataGetCache d'). m_pAdvancedPrice u = None))"
  using DataUpdate_outcome [OF assms(1)]
proof (elim disjE conjE)
  assume "kept d d'" "n = 0"
  then show ?thesis using assms(2) DataUpdate_prices_map [OF assms(1)] by (simp add: prices_good_def kept_def)
next
  assume "loaded env (DataGetCache d')"
  then have "\<forall>(e, u) \<in> set (DataGetCache d'). m_pAdvancedPrice u = None" by (auto dest: loaded_no_price)
  then show ?thesis by (auto simp: prices_good_def)
qed

lemma prices_update:
  assumes "DataUpdateAdvancedPriceData env d = Inr (ret, d')" "\<forall>(e, u) \<in> set (DataGetCache d). m_pAdvancedPrice u = None"
  shows "prices_good d'"
  using DataUpdateAdvancedPriceData_new [OF assms(1)] assms(2)
  by (auto simp: prices_good_def DataGetCache_def point_prices_def split: if_splits)

lemma ban_pids_prices:
  "ban_pids srv cli m bans = Inr (ret, m', bans') \<Longrightarrow> (e, u) \<in> set m' \<Longrightarrow>
    \<exists>u0. (e, u0) \<in> set m \<and> eid u = eid u0 \<and> m_pAdvancedPrice u = m_pAdvancedPrice u0"
proof (induction m arbitrary: ret bans m' bans')
  case (Cons x m)
  obtain k w where x: "x = (k, w)" by (cases x)
  consider "m' = x # m" | l m1 ret1 bans1 where "ban_pids srv cli m bans1 = Inr (ret1, m1, bans')"
      "m' = (k, w\<lparr>m_pltBanPidList := Some l\<rparr>) # m1"
    using Cons.prems(1) by (auto simp: x bind_cxx_Inr_iff Let_def split: if_splits)
  then show ?case
  proof cases
    case 1
    with Cons.prems(2) show ?thesis by blast
  next
    case 2
    then show ?thesis using Cons.prems(2) Cons.IH [OF 2(1)] x by auto
  qed
qed simp

lemma ban_pids_other:
  "ban_pids srv cli m bans = Inr (ret, m', bans') \<Longrightarrow> e \<notin> (eid \<circ> snd) ` set m \<Longrightarrow> map_of bans' e = map_of bans e"
proof (induction m arbitrary: ret bans m' bans')
  case (Cons x m)
  then show ?case by (cases x) (auto simp: bind_cxx_Inr_iff Let_def split: if_splits)
qed simp

lemma ban_pids_good:
  "ban_pids srv cli m bans = Inr (AD_SUCCESS, m', bans') \<Longrightarrow> distinct (map (eid \<circ> snd) m) \<Longrightarrow>
    \<forall>(e, u) \<in> set m'. m_pltBanPidList u \<noteq> None \<and> m_pltBanPidList u = map_of bans' (eid u)"
proof (induction m arbitrary: bans m')
  case (Cons x m)
  obtain k u where x: "x = (k, u)" by (cases x)
  obtain l m1 where b: "ban_pids srv cli m (smap_upd (eid u) l bans) = Inr (AD_SUCCESS, m1, bans')"
      and m': "m' = (k, u\<lparr>m_pltBanPidList := Some l\<rparr>) # m1"
    using Cons.prems(1) by (auto simp: x bind_cxx_Inr_iff Let_def split: if_splits)
  have "map_of bans' (eid u) = Some l" using ban_pids_other [OF b, of "eid u"] Cons.prems(2) by (simp add: x)
  then show ?case using Cons.IH [OF b] Cons.prems(2) by (simp add: x m')
qed simp

lemma results_update:
  assumes "DataUpdateAdvancedFilterResult env d = Inr (ret, d')"
  shows "prices_good d \<Longrightarrow> prices_good d'"
    "ret = AD_SUCCESS \<Longrightarrow> units_typed (DataGetCache d) \<Longrightarrow> bans_good d'"
proof -
  consider "DataGetCache d' = DataGetCache d" "m_mAdvancePrice d' = m_mAdvancePrice d" "ret \<noteq> AD_SUCCESS"
    | m bans cli where "ban_pids (pe_redis env) cli (DataGetCache d) [] = Inr (ret, m, bans)" "DataGetCache d' = m"
      "m_mAdvancePrice d' = m_mAdvancePrice d" "m_mBanPidList d' = bans"
  proof (cases "DataGetCache d = []")
    case True
    then show thesis using assms by (intro that(1)) (auto simp: DataUpdateAdvancedFilterResult_def Let_def DataGetCache_def AD_SUCCESS_def AD_FAILURE_def)
  next
    case False
    then obtain r cli where r: "AdRedisConnect (pe_redis env) (m_cli d) = Inr (r, cli)"
        and run: "(if r \<noteq> AD_SUCCESS then Inr (r, d\<lparr>m_mBanPidList := [], m_cli := AdRedisClose cli\<rparr>)
          else bind_cxx (ban_pids (pe_redis env) cli (DataGetCache d) []) (\<lambda>(ret, m, bans).
            Inr (ret, d\<lparr>m_cli := AdRedisClose cli, m_mData := pp_set False (\<lambda>_. m) (m_mData d), m_mBanPidList := bans\<rparr>))) = Inr (ret, d')"
      using assms by (auto simp: DataUpdateAdvancedFilterResult_def Let_def bind_cxx_Inr_iff DataGetCache_def cong: if_cong)
    show thesis
    proof (cases "r = AD_SUCCESS")
      case True
      then obtain m bans where b: "ban_pids (pe_redis env) cli (DataGetCache d) [] = Inr (ret, m, bans)"
          "d' = d\<lparr>m_cli := AdRedisClose cli, m_mData := pp_set False (\<lambda>_. m) (m_mData d), m_mBanPidList := bans\<rparr>"
        using run by (auto simp: bind_cxx_Inr_iff)
      then show thesis by (intro that(2) [OF b(1)]) (simp_all add: DataGetCache_def)
    next
      case False
      then show thesis using run by (intro that(1)) (auto simp: DataGetCache_def)
    qed
  qed
  note c = this
  show "prices_good d'" if "prices_good d"
  proof (rule c)
    fix m bans cli
    assume b: "ban_pids (pe_redis env) cli (DataGetCache d) [] = Inr (ret, m, bans)" "DataGetCache d' = m"
      "m_mAdvancePrice d' = m_mAdvancePrice d"
    show ?thesis unfolding prices_good_def b(2,3)
    proof clarify
      fix e u assume "(e, u) \<in> set m"
      then obtain e0 u0 where "(e0, u0) \<in> set (DataGetCache d)" "eid u = eid u0" "m_pAdvancedPrice u = m_pAdvancedPrice u0"
        using ban_pids_prices [OF b(1)] by blast
      moreover assume "m_pAdvancedPrice u \<noteq> map_of (pp_Get False (m_mAdvancePrice d)) (eid u)"
      ultimately show "m_pAdvancedPrice u = None" using that by (auto simp: prices_good_def)
    qed
  qed (use that in \<open>simp add: prices_good_def\<close>)
  show "bans_good d'" if "ret = AD_SUCCESS" "units_typed (DataGetCache d)"
  proof (rule c)
    fix m bans cli
    assume b: "ban_pids (pe_redis env) cli (DataGetCache d) [] = Inr (ret, m, bans)" "DataGetCache d' = m" "m_mBanPidList d' = bans"
    have keys: "map (eid \<circ> snd) (DataGetCache d) = map fst (DataGetCache d)" using that(2) by (auto simp: units_typed_def)
    have "distinct (map (eid \<circ> snd) (DataGetCache d))"
      unfolding keys using that(2) by (auto simp: units_typed_def intro: smap_ok_distinct)
    from ban_pids_good [OF b(1) [unfolded that(1)] this] show ?thesis by (simp add: bans_good_def b(2,3))
  qed (use that in simp)
qed

lemma engine_data_pointers:
  assumes "engine_data env eng = Inr (ret, eng')" "planning_reach (m_ctData eng)" "prices_good (m_ctData eng)"
  shows "prices_good (m_ctData eng') \<and> (ret = AD_SUCCESS \<longrightarrow> bans_good (m_ctData eng'))"
proof -
  obtain r n d where u: "DataUpdate (ue_data env) (m_ctData eng) = Inr (r, n, d)"
    using assms(1) by (auto simp: engine_data_def bind_cxx_Inr_iff)
  note p = DataUpdate_prices [OF u assms(3)] and reach = planning_update [OF assms(2) u]
  show ?thesis
  proof (cases "r = AD_SUCCESS")
    case True
    then obtain r1 d1 where d1: "(if n \<noteq> 0 then DataUpdateAdvancedPriceData (ue_prices env) d else Inr (AD_SUCCESS, d)) = Inr (r1, d1)"
        and run: "(if r1 \<noteq> AD_SUCCESS then Inr (r1, eng\<lparr>m_ctData := d1\<rparr>)
          else bind_cxx (DataUpdateAdvancedFilterResult (ue_results env) d1) (\<lambda>(ret, d). Inr (ret, eng\<lparr>m_ctData := d\<rparr>))) = Inr (ret, eng')"
      using assms(1) u by (auto simp: engine_data_def bind_cxx_Inr_iff)
    have p1: "prices_good d1" "planning_reach d1"
      using d1 p prices_update [of "ue_prices env" d r1 d1] planning_prices [OF reach, of "ue_prices env" r1 d1] reach
      by (auto split: if_splits)
    then have "units_typed (DataGetCache d1)" using planning_reach_ok [OF p1(2)] by (simp add: planning_ok_def DataGetCache_def)
    then show ?thesis using run p1(1) results_update [of "ue_results env" d1] by (auto simp: bind_cxx_Inr_iff split: if_splits)
  qed (use assms(1) u p in \<open>auto simp: engine_data_def\<close>)
qed

lemma AdRtbEngineUpdate_pointers:
  assumes "AdRtbEngineUpdate env eng = Inr (ret, eng')" "planning_reach (m_ctData eng)" "prices_good (m_ctData eng)"
  shows "prices_good (m_ctData eng') \<and> (ret = AD_SUCCESS \<longrightarrow> bans_good (m_ctData eng'))"
  using assms(1)
proof (cases rule: AdRtbEngineUpdate_cases)
  case 1
  then show ?thesis using engine_data_pointers [OF 1(1) assms(2,3)] by simp
next
  case (2 eng1)
  then show ?thesis using engine_data_pointers [OF 2(1) assms(2,3)] engine_config_frame(1) [OF 2(2)] by simp
next
  case (3 eng1 eng2)
  then show ?thesis
    using engine_data_pointers [OF 3(1) assms(2,3)] engine_config_frame(1) [OF 3(2)] engine_filters_frame(1) [OF 3(3)] by simp
qed

lemma engine_reach_prices: "engine_reach eng \<Longrightarrow> prices_good (m_ctData eng)"
proof (induction rule: engine_reach.induct)
  case (reach_new garbage)
  then show ?case by (simp add: prices_good_def AdRtbEngine_new_def AdPlanningData_new_def DataGetCache_def pp_new_def pp_Get_def)
next
  case (reach_init eng ienv confFile ret eng')
  then show ?case
    by (auto simp: AdRtbEngineInit_def AdPlanningDataInit_def prices_good_def DataGetCache_def bind_cxx_Inr_iff Let_def
        split: if_splits option.splits)
next
  case (reach_update eng env ret eng')
  then show ?case using AdRtbEngineUpdate_pointers engine_reach_inv by blast
qed simp

text \<open>Budget reports that arrive after an update.\<close>

inductive report_step :: "AdRtbEngine \<Rightarrow> AdRtbEngine \<Rightarrow> bool" where
  "AdFilterRealTimeUpdate now report (m_realtime (m_ctFilters eng)) = Inr (w, rt) \<Longrightarrow>
    report_step eng (eng\<lparr>m_ctFilters := (m_ctFilters eng)\<lparr>m_realtime := rt\<rparr>\<rparr>)"

lemma reports_same:
  "report_step\<^sup>*\<^sup>* eng eng' \<Longrightarrow> m_ctData eng' = m_ctData eng \<and>
    pp_Get False (m_vFilters (m_ctFilters eng')) = pp_Get False (m_vFilters (m_ctFilters eng))"
  by (induction rule: rtranclp_induct) (auto elim!: report_step.cases)

lemma update_serves:
  assumes "AdRtbEngineUpdate env eng = Inr (AD_SUCCESS, eng')" "mark_index_ok {} (ue_new_mark env)" "planning_reach (m_ctData eng)"
  shows "serves (DataGetCache (m_ctData eng')) (m_ctFilters eng')"
  using assms(1)
proof (cases rule: AdRtbEngineUpdate_cases)
  case (3 eng1 eng2)
  have r: "planning_reach (m_ctData eng2)"
    using engine_data_reach [OF 3(1) assms(3)] engine_config_frame(1) [OF 3(2)] by simp
  obtain fs where f: "FiltersUpdate (filters_conf_of env (pp_Get False (m_ctConfig eng2))) (ue_week env)
      (DataGetCache (m_ctData eng2)) (m_ctFilters eng2) = Inr (AD_SUCCESS, fs)" "eng' = eng2\<lparr>m_ctFilters := fs\<rparr>"
    using 3(3) by (auto simp: engine_filters_def bind_cxx_Inr_iff)
  have "c_new_mark (filters_conf_of env c) = ue_new_mark env" for c by (simp add: filters_conf_of_def Let_def)
  with assms(2) have "mark_index_ok {} (c_new_mark (filters_conf_of env (pp_Get False (m_ctConfig eng2))))" by simp
  from FiltersUpdate_serves [OF f(1) planning_units(1) [OF r] this] f(2) show ?thesis by simp
qed simp_all

text \<open>
  C3. After an update that succeeds, whatever initialisations, updates and budget reports came before it, and for as long as only
  budget reports follow, the filters in use are those built from the units that the planning data has in use: each unit under its
  own id and well formed, its list of banned places the one that the planning data holds for it, and its advanced prices none or
  those in the map in use. Nothing of the kind is claimed after an update that fails: it may free what the filters still point to.
\<close>

theorem engine_serves:
  assumes "engine_reach eng0" "mark_index_ok {} (ue_new_mark env)" "AdRtbEngineUpdate env eng0 = Inr (AD_SUCCESS, eng1)"
    "report_step\<^sup>*\<^sup>* eng1 eng"
  shows "serves (DataGetCache (m_ctData eng)) (m_ctFilters eng) \<and>
    (\<forall>(e, u) \<in> set (DataGetCache (m_ctData eng)). eid u = e \<and> unit_typed u \<and>
      m_pltBanPidList u \<noteq> None \<and> m_pltBanPidList u = map_of (m_mBanPidList (m_ctData eng)) e \<and>
      (m_pAdvancedPrice u = None \<or> m_pAdvancedPrice u = map_of (pp_Get False (m_mAdvancePrice (m_ctData eng))) e))"
proof -
  have r: "planning_reach (m_ctData eng0)" using engine_reach_inv [OF assms(1)] by simp
  have d: "m_ctData eng = m_ctData eng1" "serves (DataGetCache (m_ctData eng1)) (m_ctFilters eng)"
    using reports_same [OF assms(4)] update_serves [OF assms(3,2) r] by (simp_all add: serves_def)
  have "engine_reach eng1" by (rule reach_update [OF assms(1-3)])
  then have "\<forall>(e, u) \<in> set (DataGetCache (m_ctData eng1)). eid u = e \<and> unit_typed u"
    using engine_reach_inv planning_units(2) by blast
  moreover have "prices_good (m_ctData eng1)" "bans_good (m_ctData eng1)"
    using AdRtbEngineUpdate_pointers [OF assms(3) r engine_reach_prices [OF assms(1)]] by simp_all
  ultimately show ?thesis unfolding d(1) using d(2) by (fastforce simp: prices_good_def bans_good_def)
qed

section \<open>A first update that fails\<close>

lemma nothing_changed:
  assumes "config_ok c" "length (watched c) < 2 ^ 31" "c1 = snd (Check stat c)"
  shows "fst (Check stat c1) = 0" "m_mChangedFile (snd (Check stat c1)) = []"
proof -
  have ok: "config_ok c1" and none: "filter (differs stat c1) (watched c1) = []"
    using check_spec [OF assms(1), of stat] by (simp_all add: assms(3))
  note S = check_spec [OF ok, of stat]
  show "fst (Check stat c1) = 0" using S none by (simp add: int_cast_def)
  have "fst ` set (m_mChangedFile (snd (Check stat c1))) = {}" using S none by simp
  then show "m_mChangedFile (snd (Check stat c1)) = []" by simp
qed

text \<open>Without filters in use, and without a changed file, an update reads behind the empty vector.\<close>

lemma unchanged_crash:
  assumes "engine_data env eng = Inr (AD_SUCCESS, eng1)" "pp_Get False (m_vFilters (m_ctFilters eng)) = None"
    and "fst (Check (ue_stat env) (pp_Get False (m_ctConfig eng))) = 0"
    and "m_mChangedFile (snd (Check (ue_stat env) (pp_Get False (m_ctConfig eng)))) = []"
  shows "AdRtbEngineUpdate env eng = Inl OutOfBounds"
proof -
  obtain n c where c: "Check (ue_stat env) (pp_Get False (m_ctConfig eng1)) = (n, c)" by force
  then have n: "n = 0" "m_mChangedFile c = []" using assms(3,4) engine_data_frame(3) [OF assms(1)] by simp_all
  obtain eng2 where e2: "engine_config env eng1 = (AD_SUCCESS, eng2)" "pp_Get False (m_ctConfig eng2) = c"
    "m_ctFilters eng2 = m_ctFilters eng"
    using n engine_data_frame(2) [OF assms(1)] by (simp add: engine_config_def c)
  have "c_changed (filters_conf_of env c) f = False" for f
    using n(2) by (simp add: filters_conf_of_def Let_def FileIsChanged_def)
  moreover have "pp_Get False (m_vFilters (FiltersClear (m_ctFilters eng))) = None"
    using assms(2) by (simp add: FiltersClear_def)
  ultimately have "engine_filters env eng2 = Inl OutOfBounds"
    by (simp add: engine_filters_def FiltersUpdate_def FiltersInit_def Let_def split_def e2)
  with assms(1) e2(1) show ?thesis by (simp add: AdRtbEngineUpdate_def)
qed

text \<open>
  C38. A first update that reads its data but then fails (the configuration file was touched, a file of click rates or a
  Tanx file is missing) is fatal: \<^verbatim>\<open>Check\<close> has recorded the changed files, so the next update whose data can
  be read, with the files as they are, finds nothing changed and copies the Tanx data from a filter that does not
  exist, outside the empty vector of filters.
\<close>

theorem second_update_crashes:
  assumes "pp_Get False (m_vFilters (m_ctFilters eng)) = None"
    and "config_ok (pp_Get False (m_ctConfig eng))" "length (watched (pp_Get False (m_ctConfig eng))) < 2 ^ 31"
    and "engine_data env eng = Inr (AD_SUCCESS, eng0)" "AdRtbEngineUpdate env eng = Inr (ret, eng1)" "ret \<noteq> AD_SUCCESS"
    and "engine_data env2 eng1 = Inr (AD_SUCCESS, eng2)" "ue_stat env2 = ue_stat env"
  shows "AdRtbEngineUpdate env2 eng1 = Inl OutOfBounds"
proof -
  have "pp_Get False (m_vFilters (m_ctFilters eng1)) = None \<and>
      pp_Get False (m_ctConfig eng1) = snd (Check (ue_stat env) (pp_Get False (m_ctConfig eng)))"
    using assms(5)
  proof (cases rule: AdRtbEngineUpdate_cases)
    case 1
    with assms(4,6) show ?thesis by simp
  next
    case (2 e1)
    with engine_data_frame(2,3) [OF 2(1)] engine_config_frame(2,3) [OF 2(2)] assms(1) show ?thesis by simp
  next
    case (3 e1 e2)
    with engine_data_frame(2,3) [OF 3(1)] engine_config_frame(2,3) [OF 3(2)]
      engine_filters_frame(2,3) [OF 3(3)] assms(1,6) show ?thesis by simp
  qed
  note e1 = this
  note none = nothing_changed [OF assms(2,3) e1 [THEN conjunct2]]
  show ?thesis
    by (rule unchanged_crash [OF assms(7)]) (use e1 none assms(8) in simp_all)
qed

section \<open>An outage of the server\<close>

lemma DataUpdate_no_server:
  assumes "\<not> redisConnect (pe_redis env) (c_str (m_sIp (m_cli d))) (m_iPort (m_cli d))"
  shows "DataUpdate env d = Inr (AD_FAILURE, 0, d\<lparr>m_cli := AdRedisClose (m_cli d)\<rparr>)"
  using assms by (simp add: DataUpdate_def AdRedisConnect_def redis_auth_def AD_SUCCESS_def AD_FAILURE_def)

lemma engine_no_server:
  assumes "\<not> redisConnect (pe_redis (ue_data env)) (c_str (m_sIp (m_cli (m_ctData eng)))) (m_iPort (m_cli (m_ctData eng)))"
  shows "update_turn env ienv env2 eng =
    Inr (True, eng\<lparr>m_ctData := (m_ctData eng)\<lparr>m_cli := AdRedisClose (m_cli (m_ctData eng))\<rparr>\<rparr>)"
  using DataUpdate_no_server [OF assms]
  by (simp add: update_turn_def AdRtbEngineUpdate_def engine_data_def AD_SUCCESS_def AD_FAILURE_def AD_RTB_ENGINE_REINIT_def)

text \<open>
  As long as the server of the configuration in use cannot be reached the update task looks at no file: whatever
  becomes of the configuration file, it is not read again, so an outage of the server cannot be ended by writing
  another address into the configuration. The filters in use keep serving.
\<close>

theorem outage_blocks_reconfiguration:
  assumes "\<forall>(env, ienv, env2) \<in> set envs. \<not> redisConnect (pe_redis (ue_data env)) (c_str (m_sIp (m_cli (m_ctData eng))))
    (m_iPort (m_cli (m_ctData eng)))"
  shows "\<exists>d. AdUpdateTask_loop envs eng = Inr (True, eng\<lparr>m_ctData := d\<rparr>) \<and> DataGetCache d = DataGetCache (m_ctData eng) \<and>
    m_iLastTimeStamp d = m_iLastTimeStamp (m_ctData eng) \<and>
    m_sIp (m_cli d) = m_sIp (m_cli (m_ctData eng)) \<and> m_iPort (m_cli d) = m_iPort (m_cli (m_ctData eng))"
  using assms
proof (induction envs arbitrary: eng)
  case Nil
  show ?case by (intro exI [of _ "m_ctData eng"]) simp
next
  case (Cons e envs)
  obtain env ienv env2 where e: "e = (env, ienv, env2)" by (cases e)
  let ?eng = "eng\<lparr>m_ctData := (m_ctData eng)\<lparr>m_cli := AdRedisClose (m_cli (m_ctData eng))\<rparr>\<rparr>"
  have turn: "update_turn env ienv env2 eng = Inr (True, ?eng)"
    by (rule engine_no_server) (use Cons.prems e in simp)
  have "\<forall>(env, ienv, env2) \<in> set envs. \<not> redisConnect (pe_redis (ue_data env)) (c_str (m_sIp (m_cli (m_ctData ?eng))))
    (m_iPort (m_cli (m_ctData ?eng)))"
    using Cons.prems by (auto simp: AdRedisClose_def)
  from Cons.IH [OF this] turn e show ?case by (auto simp: AdRedisClose_def DataGetCache_def)
qed

section \<open>The counts of ready orders\<close>

definition zero_counts :: "(UINT \<times> int) list \<Rightarrow> (UINT \<times> int) list" where
  "zero_counts = map (\<lambda>(e, _). (e, 0))"

text \<open>The server has answered the increment of an order by its count.\<close>

definition counted :: "hiredis \<Rightarrow> string \<Rightarrow> string \<Rightarrow> UINT \<times> int \<Rightarrow> bool" where
  "counted srv sDay sFiled = (\<lambda>(e, n). redisReplyOf srv
     [''HINCRBY'', c_str (ready_key sDay e), c_str sFiled, fmt_d (of_int n)] \<noteq> None)"

lemma ready_key_nonempty: "ready_key sDay e \<noteq> []"
  by (simp add: ready_key_def snprintf_def)

lemma send_ready_spec:
  assumes "send_ready srv cli sDay sFiled m = Inr (ret, m')" "m_pGtCli cli"
  shows "m' = zero_counts (takeWhile (counted srv sDay sFiled) m) @ dropWhile (counted srv sDay sFiled) m \<and>
    ret = (if list_all (counted srv sDay sFiled) m then AD_SUCCESS else AD_FAILURE)"
  using assms(1)
proof (induction m arbitrary: ret m')
  case Nil
  then show ?case by (simp add: zero_counts_def)
next
  case (Cons e m)
  obtain i n where e: "e = (i, n)" by (cases e)
  have sent: "AdRedisHIncRby srv cli (ready_key sDay i) sFiled (of_int n) =
      Inr (if counted srv sDay sFiled e then AD_SUCCESS else AD_FAILURE)"
    using assms(2) by (simp add: AdRedisHIncRby_def redis_write_def ready_key_nonempty counted_def e)
  show ?case
  proof (cases "counted srv sDay sFiled e")
    case True
    with Cons.prems sent e obtain m1 where m1: "send_ready srv cli sDay sFiled m = Inr (ret, m1)" "m' = (i, 0) # m1"
      by (auto simp: bind_cxx_Inr_iff)
    with True Cons.IH [OF m1(1)] e show ?thesis by (simp add: zero_counts_def)
  next
    case False
    with Cons.prems sent e show ?thesis by (auto simp: AD_SUCCESS_def AD_FAILURE_def zero_counts_def)
  qed
qed

text \<open>The connection of an update to the server that is named in the configuration.\<close>

definition status_connects :: "hiredis \<Rightarrow> string \<Rightarrow> string \<Rightarrow> bool" where
  "status_connects srv server passwd \<longleftrightarrow>
     (\<exists>h p cli. split_fields server '':'' = [h, p] \<and> AdRedisConnect srv (AdRedisCli_for h (sint (atoi p)) passwd) = Inr (AD_SUCCESS, cli))"

text \<open>
  C36. The counts of ready orders. When there are counts, ten seconds have gone by since the last time and the server is reached,
  the counts are sent in the order of the ids up to the first that the server does not answer: every one that was answered starts
  again at zero, so that it is not sent once more, the others keep their value, and the update succeeds exactly when all were
  answered. When no connection is made, only the time is noted. Otherwise nothing is sent and nothing changes.
\<close>

theorem ready_counts_sent:
  assumes "AdRtbStatusUpdate srv hour day now server passwd s = Inr (ret, s')"
  shows "if length (split_fields server '':'') \<noteq> 2 then ret = AD_FAILURE \<and> s' = s
    else if m_mReadyOrder s = [] \<or> toNow now (m_ctLastTime s) < 10 * 1000000 then ret = AD_SUCCESS \<and> s' = s
    else if \<not> status_connects srv server passwd then ret = AD_FAILURE \<and> s' = s\<lparr>m_ctLastTime := now\<rparr>
    else ret = (if list_all (counted srv (day now) (hour now)) (m_mReadyOrder s) then AD_SUCCESS else AD_FAILURE) \<and>
      s' = s\<lparr>m_ctLastTime := now, m_mReadyOrder := zero_counts (takeWhile (counted srv (day now) (hour now)) (m_mReadyOrder s)) @
        dropWhile (counted srv (day now) (hour now)) (m_mReadyOrder s)\<rparr>"
proof -
  have ne: "server \<noteq> []" if "length (split_fields server '':'') = 2"
    using that by (auto simp: split_fields_char)
  let ?v = "split_fields server '':''"
  let ?cli = "AdRedisCli_for (?v ! 0) (sint (atoi (?v ! 1))) passwd"
  consider (bad) "length ?v \<noteq> 2" | (early) "length ?v = 2" "m_mReadyOrder s = [] \<or> toNow now (m_ctLastTime s) < 10 * 1000000"
    | (due) "length ?v = 2" "\<not> (m_mReadyOrder s = [] \<or> toNow now (m_ctLastTime s) < 10 * 1000000)" by blast
  then show ?thesis
  proof cases
    case due
    obtain r cli where c: "AdRedisConnect srv ?cli = Inr (r, cli)"
      and run: "(if r \<noteq> AD_SUCCESS then Inr (r, s\<lparr>m_ctLastTime := now\<rparr>)
        else bind_cxx (send_ready srv cli (day now) (hour now) (m_mReadyOrder s)) (\<lambda>(ret, m).
          Inr (ret, s\<lparr>m_ctLastTime := now, m_mReadyOrder := m\<rparr>))) = Inr (ret, s')"
      using assms due ne by (auto simp: AdRtbStatusUpdate_def Let_def bind_cxx_Inr_iff cong: if_cong)
    have v: "?v = [?v ! 0, ?v ! 1]" using due(1) by (auto simp: numeral_2_eq_2 length_Suc_conv)
    have k: "status_connects srv server passwd \<longleftrightarrow> r = AD_SUCCESS"
    proof
      assume "status_connects srv server passwd"
      then obtain h p cli' where "?v = [h, p]" "AdRedisConnect srv (AdRedisCli_for h (sint (atoi p)) passwd) = Inr (AD_SUCCESS, cli')"
        by (auto simp: status_connects_def)
      then show "r = AD_SUCCESS" using c by simp
    qed (use c v in \<open>unfold status_connects_def, blast\<close>)
    have f: "r = AD_SUCCESS \<or> r = AD_FAILURE" by (rule AdRedisConnect_cases(4) [OF c])
    show ?thesis
    proof (cases "r = AD_SUCCESS")
      case True
      then obtain m where m: "send_ready srv cli (day now) (hour now) (m_mReadyOrder s) = Inr (ret, m)"
          "s' = s\<lparr>m_ctLastTime := now, m_mReadyOrder := m\<rparr>"
        using run by (auto simp: bind_cxx_Inr_iff)
      from send_ready_spec [OF m(1) AdRedisConnect_cases(3) [OF c True]] show ?thesis using due k True m(2) by simp
    next
      case False
      then show ?thesis using run due k f by simp
    qed
  qed (use assms ne in \<open>auto simp: AdRtbStatusUpdate_def Let_def\<close>)
qed

text \<open>A server that answers for the order 7 only.\<close>

definition demo_counter :: hiredis where
  "demo_counter = \<lparr>redisConnect = (\<lambda>_ _. True), redisReplyOf = (\<lambda>args.
     if args ! 1 = ''exec:response:2016-01-04:7'' then Some (REDIS_REPLY_INTEGER 3) else None)\<rparr>"

definition demo_ready :: AdBiddingTaskStatus where
  "demo_ready = (AdBiddingTaskStatus_new at_zero)\<lparr>m_mReadyOrder := [(7, 3), (9, 2)]\<rparr>"

lemma demo_ready_update:
  "AdRtbStatusUpdate demo_counter (\<lambda>_. ''09'') (\<lambda>_. ''2016-01-04'') \<lparr>tv_sec = 20, tv_usec = 0\<rparr> ''r:1'' [] demo_ready =
   Inr (AD_FAILURE, demo_ready\<lparr>m_ctLastTime := \<lparr>tv_sec = 20, tv_usec = 0\<rparr>, m_mReadyOrder := [(7, 0), (9, 2)]\<rparr>)"
  by code_simp

lemma ready_counts_sent_witness:
  "\<exists>s'. AdRtbStatusUpdate demo_counter (\<lambda>_. ''09'') (\<lambda>_. ''2016-01-04'') \<lparr>tv_sec = 20, tv_usec = 0\<rparr> ''r:1'' [] demo_ready =
     Inr (AD_FAILURE, s') \<and> m_mReadyOrder s' = [(7, 0), (9, 2)]"
proof -
  have c: "length (split_fields ''r:1'' '':'') = 2" "\<not> (m_mReadyOrder demo_ready = [] \<or>
      toNow \<lparr>tv_sec = 20, tv_usec = 0\<rparr> (m_ctLastTime demo_ready) < 10 * 1000000)"
    "counted demo_counter ''2016-01-04'' ''09'' (7, 3)" "\<not> counted demo_counter ''2016-01-04'' ''09'' (9, 2)"
    by code_simp+
  have m: "m_mReadyOrder demo_ready = [(7, 3), (9, 2)]" by (simp add: demo_ready_def)
  have f: "AD_FAILURE \<noteq> AD_SUCCESS" by (simp add: AD_SUCCESS_def AD_FAILURE_def)
  obtain s' where u: "AdRtbStatusUpdate demo_counter (\<lambda>_. ''09'') (\<lambda>_. ''2016-01-04'') \<lparr>tv_sec = 20, tv_usec = 0\<rparr> ''r:1'' [] demo_ready =
     Inr (AD_FAILURE, s')" "m_uiRequest s' = m_uiRequest s'" using demo_ready_update by simp
  have k: "status_connects demo_counter ''r:1'' []"
  proof -
    have "split_fields ''r:1'' '':'' = [''r'', ''1'']" by code_simp
    moreover have "\<exists>cli. AdRedisConnect demo_counter (AdRedisCli_for ''r'' (sint (atoi ''1'')) []) = Inr (AD_SUCCESS, cli)"
      by (simp add: AdRedisConnect_def redis_auth_def demo_counter_def AdRedisCli_for_def)
    ultimately show ?thesis unfolding status_connects_def by blast
  qed
  from ready_counts_sent [OF u(1)] c k m u(1) f show ?thesis by (simp add: zero_counts_def)
qed

section \<open>A bidder that starts\<close>

text \<open>A configuration with one watched file, the server of \<open>demo_loading_env\<close>, and files that are there.\<close>

definition demo_conf_text :: string where
  "demo_conf_text = ''[CHECK]'' @ [CHR 0x0A] @ ''TANXCONTENT=t'' @ [CHR 0x0A] @ ''[CONFIG]'' @ [CHR 0x0A] @
     ''TANXCONTENT=t'' @ [CHR 0x0A] @ ''TANXDESCRIPTION=d'' @ [CHR 0x0A]"

definition demo_loaded_conf :: AdRtbConfig where
  "demo_loaded_conf = \<lparr>m_mConfig = [(''[CHECK]'', [(''TANXCONTENT'', ''t''), (''f'', ''f'')]),
       (''[CONFIG]'', [(''TANXCONTENT'', ''t''), (''TANXDESCRIPTION'', ''d'')]), (''[GLOBAL]'', [(''DEV'', [])])],
     m_mFileTimeStamp = [(''f'', (1, 0))], m_mChangedFile = [], m_sConfigFile = ''f''\<rparr>"

definition demo_init_env :: init_env where
  "demo_init_env = \<lparr>ie_fopen = (\<lambda>_. Some demo_conf_text), ie_stat = (\<lambda>_. Some (1, 0)), ie_get_ip = (\<lambda>_. None)\<rparr>"

definition demo_update_env :: "planning_env \<Rightarrow> int \<Rightarrow> update_env" where
  "demo_update_env data sec = \<lparr>ue_data = data, ue_prices = data, ue_results = data, ue_stat = (\<lambda>_. Some (sec, 0)),
     ue_rank = demo_rank_env, ue_files = \<lparr>rf_ctr = (\<lambda>_. Some []), rf_model = (\<lambda>_. None), rf_fdict = (\<lambda>_. None)\<rparr>,
     ue_parse = (\<lambda>_. None), ue_lines = (\<lambda>_. Some []), ue_realtime_init = AD_SUCCESS, ue_mark_init = AD_SUCCESS,
     ue_new_mark = AdFilterMark_new (\<lambda>_. 0) 0 0, ue_week = 1\<rparr>"

definition demo_started :: AdRtbEngine where
  "demo_started = (AdRtbEngine_new 0)\<lparr>m_e_sConfigFile := ''f'', m_ctConfig :=
     pp_Switch (pp_set True (\<lambda>_. demo_loaded_conf) (pp_new AdRtbConfig_new)), m_ctData := demo_planning\<rparr>"

text \<open>The units of a server whose units were loaded before.\<close>

definition demo_data :: "AdPlanningData \<Rightarrow> bool" where
  "demo_data d \<longleftrightarrow> m_iLastTimeStamp d = 9 \<and> m_cli d = AdRedisCli_new \<and> DataGetCache d \<noteq> []"

lemma demo_hkeys: "m_pGtCli cli \<Longrightarrow> AdRedisHkeys (pe_redis demo_loading_env) cli (senior_key e) = Inr (AD_SUCCESS, [''7''])"
  by (simp add: AdRedisHkeys_def c_str_def demo_loading_env_def demo_planning_env_def demo_redis_def senior_key_def snprintf_def)

lemma demo_bans: "m_pGtCli cli \<Longrightarrow> \<exists>m' bans'. ban_pids (pe_redis demo_loading_env) cli m bans = Inr (AD_SUCCESS, m', bans') \<and>
    map fst m' = map fst m"
proof (induction m arbitrary: bans)
  case (Cons e m)
  obtain k u where e: "e = (k, u)" by (cases e)
  obtain m' bans' where "ban_pids (pe_redis demo_loading_env) cli m (smap_upd (eid u) [''7''] bans) = Inr (AD_SUCCESS, m', bans')"
    "map fst m' = map fst m" using Cons by blast
  with Cons.prems show ?case by (simp add: e demo_hkeys Let_def)
qed simp

lemma demo_engine_data:
  assumes "demo_data (m_ctData eng)"
  shows "\<exists>d. engine_data (demo_update_env demo_loading_env sec) eng = Inr (AD_SUCCESS, eng\<lparr>m_ctData := d\<rparr>) \<and> demo_data d"
proof -
  let ?d = "m_ctData eng" and ?r = "pe_redis demo_loading_env"
  have a: "atoi ''9'' = 9" "sint (9 :: UINT) = 9" by code_simp+
  have cli: "m_pGtCli demo_client" "AdRedisClose demo_client = AdRedisCli_new"
    by (simp_all add: demo_client_def AdRedisClose_def AdRedisCli_new_def)
  have "AdRedisGet ?r demo_client ''exec:timestamp'' 0 = Inr (AD_SUCCESS, 9)"
    using cli by (simp add: AdRedisGet_def reply_int_def a demo_loading_env_def demo_planning_env_def demo_redis_def)
  then have u: "DataUpdate demo_loading_env ?d = Inr (AD_SUCCESS, 0, ?d\<lparr>m_cli := AdRedisCli_new\<rparr>)"
    using assms demo_connect cli by (simp add: demo_data_def DataUpdate_def data_load_def)
  obtain m bans where b: "ban_pids ?r demo_client (DataGetCache ?d) [] = Inr (AD_SUCCESS, m, bans)"
    "map fst m = map fst (DataGetCache ?d)" using demo_bans [OF cli(1)] by blast
  then have m: "m \<noteq> []" using assms by (auto simp: demo_data_def)
  let ?d' = "?d\<lparr>m_cli := AdRedisCli_new, m_mData := pp_set False (\<lambda>_. m) (m_mData ?d), m_mBanPidList := bans\<rparr>"
  have "DataUpdateAdvancedFilterResult demo_loading_env (?d\<lparr>m_cli := AdRedisCli_new\<rparr>) = Inr (AD_SUCCESS, ?d')"
    using assms demo_connect cli b(1) by (simp add: DataUpdateAdvancedFilterResult_def demo_data_def DataGetCache_def)
  moreover have "demo_data ?d'" using assms m by (simp add: demo_data_def DataGetCache_def)
  ultimately show ?thesis using u by (intro exI [of _ ?d']) (simp add: engine_data_def demo_update_env_def)
qed

lemma demo_planning_data: "demo_data demo_planning"
  by (simp add: demo_data_def demo_planning_def DataGetCache_def)

lemma demo_started_conf: "pp_Get False (m_ctConfig demo_started) = demo_loaded_conf"
  by (simp add: demo_started_def)

lemma demo_started_none: "pp_Get False (m_vFilters (m_ctFilters demo_started)) = None"
  by (simp add: demo_started_def AdRtbEngine_new_def AdRtbFilters_new_def pp_new_def pp_Get_def)

lemma demo_init:
  "AdRtbEngineInit demo_init_env ''f'' (AdRtbEngine_new 0) = Inr (AD_SUCCESS, demo_started\<lparr>m_ctData := AdPlanningData_new\<rparr>)"
proof -
  have "Load (\<lambda>_. Some demo_conf_text) (\<lambda>_. Some (1, 0)) (\<lambda>_. None) ''f'' AdRtbConfig_new = Inr (AD_SUCCESS, demo_loaded_conf)"
    by code_simp
  moreover have "pp_Get True (m_ctConfig (AdRtbEngine_new 0)) = AdRtbConfig_new"
    by (simp add: AdRtbEngine_new_def pp_new_def pp_Get_def pp_GetBack_def)
  moreover have "fst (Get ''[ADAPTER]'' demo_loaded_conf) = []" "map_of (fst (Get ''[GLOBAL]'' demo_loaded_conf)) ''REDIS'' = None"
    by (simp_all add: Get_def section_at_def demo_loaded_conf_def)
  ultimately show ?thesis
    by (simp add: AdRtbEngineInit_def demo_init_env_def Let_def AdPlanningDataInit_def demo_started_def AdRtbEngine_new_def)
qed

lemma demo_first_update:
  "AdRtbEngineUpdate (demo_update_env demo_loading_env 1) (demo_started\<lparr>m_ctData := AdPlanningData_new\<rparr>) =
   Inr (AD_FAILURE, demo_started)"
proof -
  have "demo_started\<lparr>m_ctData := demo_planning\<rparr> = demo_started" by (simp add: demo_started_def)
  then show ?thesis
    using demo_update by (simp add: AdRtbEngineUpdate_def engine_data_def demo_update_env_def AD_SUCCESS_def AD_FAILURE_def)
qed

lemma demo_mark: "mark_index_ok {} (ue_new_mark (demo_update_env data sec))"
  by (simp add: demo_update_env_def mark_index_ok_def AdFilterMark_new_def)

lemma demo_started_reach: "engine_reach demo_started"
  using reach_update [OF reach_init [OF reach_new demo_init] demo_mark demo_first_update] .

lemma demo_check:
  "Check (\<lambda>_. Some (1, 0)) demo_loaded_conf = (1, demo_loaded_conf\<lparr>m_mFileTimeStamp := [(''TANXCONTENT'', (1, 0)), (''f'', (1, 0))],
     m_mChangedFile := [(''TANXCONTENT'', 1)]\<rparr>)"
  "fst (Check (\<lambda>_. Some (2, 0)) demo_loaded_conf) = 2" "FileIsChanged ''f'' (snd (Check (\<lambda>_. Some (2, 0)) demo_loaded_conf))"
  by code_simp+

lemma demo_sections: "m_mConfig demo_loaded_conf = [(''[CHECK]'', [(''TANXCONTENT'', ''t''), (''f'', ''f'')]),
    (''[CONFIG]'', [(''TANXCONTENT'', ''t''), (''TANXDESCRIPTION'', ''d'')]), (''[GLOBAL]'', [(''DEV'', [])])]"
  by (simp add: demo_loaded_conf_def)

lemma demo_serving:
  "\<exists>eng. AdRtbEngineUpdate (demo_update_env demo_loading_env 1) demo_started = Inr (AD_SUCCESS, eng) \<and>
    pp_Get False (m_vFilters (m_ctFilters eng)) \<noteq> None"
proof -
  let ?env = "demo_update_env demo_loading_env 1"
  have "demo_data (m_ctData demo_started)" using demo_planning_data by (simp add: demo_started_def)
  from demo_engine_data [OF this, of 1] obtain d where
    d: "engine_data ?env demo_started = Inr (AD_SUCCESS, demo_started\<lparr>m_ctData := d\<rparr>)" by blast
  let ?c = "snd (Check (\<lambda>_. Some (1, 0)) demo_loaded_conf)"
  obtain ret r where r: "AdRtbDealRankInit (ue_rank ?env) (ue_files ?env) ?c (m_ctDealRank demo_started) = (ret, r)" by force
  have ret: "ret = AD_SUCCESS"
    using r by (simp add: AdRtbDealRankInit_def Let_def demo_check FileIsChanged_def demo_update_env_def
        AdRtbDealRankCtrInit_def AdRtbCtrInit_def AD_SUCCESS_def split: prod.splits if_splits)
  have stat: "ue_stat ?env = (\<lambda>_. Some (1, 0))" by (simp add: demo_update_env_def)
  have same: "\<not> FileIsChanged (m_e_sConfigFile demo_started) ?c" by (simp add: demo_started_def demo_check FileIsChanged_def)
  obtain eng2 where e2: "engine_config ?env (demo_started\<lparr>m_ctData := d\<rparr>) = (AD_SUCCESS, eng2)"
    "pp_Get False (m_ctConfig eng2) = ?c" "m_ctFilters eng2 = m_ctFilters demo_started"
    using r same by (simp add: engine_config_def stat demo_started_conf demo_check ret)
  let ?conf = "filters_conf_of ?env ?c"
  have conf: "c_changed ?conf ''TANXCONTENT''" "c_any_changed ?conf" "c_tanx_content ?conf = (''t'', Some [])"
    "c_tanx_description ?conf = (''d'', Some [])" "c_realtime_init ?conf = AD_SUCCESS" "c_mark_init ?conf = AD_SUCCESS"
    by (simp_all add: filters_conf_of_def Let_def demo_check FileIsChanged_def Get_def section_at_def demo_sections
        config_at_def demo_update_env_def)
  have init: "\<exists>v'. FiltersInit ?conf v None = Inr (AD_SUCCESS, v')" for v
    using conf by (simp add: FiltersInit_def AdFilterTanxInit_def)
  have none: "pp_Get False (m_vFilters (FiltersClear (m_ctFilters demo_started))) = None"
    using demo_started_none by (simp add: FiltersClear_def)
  obtain v rt where vrt: "fold (\<lambda>(_, u). FiltersAddData (ue_week ?env) u) (DataGetCache (m_ctData eng2))
      (FiltersCreate (c_new_mark ?conf), AdFilterRealTime_new) = (v, rt)" by force
  obtain v' where v': "FiltersInit ?conf v None = Inr (AD_SUCCESS, v')" using init by blast
  have "\<exists>fs. FiltersUpdate ?conf (ue_week ?env) (DataGetCache (m_ctData eng2)) (m_ctFilters demo_started) = Inr (AD_SUCCESS, fs) \<and>
      pp_Get False (m_vFilters fs) \<noteq> None"
    using none v' by (simp add: FiltersUpdate_def Let_def vrt)
  then show ?thesis using d e2 by (auto simp: AdRtbEngineUpdate_def engine_filters_def)
qed

lemma engine_serves_witness:
  "\<exists>eng. AdRtbEngineUpdate (demo_update_env demo_loading_env 1) demo_started = Inr (AD_SUCCESS, eng) \<and>
    serves (DataGetCache (m_ctData eng)) (m_ctFilters eng) \<and>
    list_all (\<lambda>(e, u). eid u = e \<and> m_pltBanPidList u = map_of (m_mBanPidList (m_ctData eng)) e) (DataGetCache (m_ctData eng))"
proof -
  obtain eng where u: "AdRtbEngineUpdate (demo_update_env demo_loading_env 1) demo_started = Inr (AD_SUCCESS, eng)"
    using demo_serving by blast
  from engine_serves [OF demo_started_reach demo_mark u rtranclp.rtrancl_refl] u show ?thesis
    by (intro exI [of _ eng]) (auto simp: list_all_iff)
qed

lemma second_update_crashes_witness:
  "\<exists>eng1. AdRtbEngineUpdate (demo_update_env demo_loading_env 2) demo_started = Inr (AD_RTB_ENGINE_REINIT, eng1) \<and>
    AdRtbEngineUpdate (demo_update_env demo_loading_env 2) eng1 = Inl OutOfBounds"
proof -
  let ?env = "demo_update_env demo_loading_env 2"
  have "demo_data (m_ctData demo_started)" using demo_planning_data by (simp add: demo_started_def)
  from demo_engine_data [OF this, of 2] obtain d where d: "engine_data ?env demo_started =
      Inr (AD_SUCCESS, demo_started\<lparr>m_ctData := d\<rparr>)" "demo_data d" by blast
  have stat: "ue_stat ?env = (\<lambda>_. Some (2, 0))" by (simp add: demo_update_env_def)
  obtain n c where c: "Check (\<lambda>_. Some (2, 0)) demo_loaded_conf = (n, c)" by force
  then have n: "n = 2" "FileIsChanged ''f'' c" using demo_check(2,3) by simp_all
  let ?e1 = "demo_started\<lparr>m_ctData := d, m_ctConfig := pp_set False (\<lambda>_. c) (m_ctConfig demo_started)\<rparr>"
  have "m_e_sConfigFile demo_started = ''f''" by (simp add: demo_started_def)
  with n have "engine_config ?env (demo_started\<lparr>m_ctData := d\<rparr>) = (AD_RTB_ENGINE_REINIT, ?e1)"
    by (simp add: engine_config_def stat demo_started_conf c)
  then have u: "AdRtbEngineUpdate ?env demo_started = Inr (AD_RTB_ENGINE_REINIT, ?e1)"
    using d(1) by (simp add: AdRtbEngineUpdate_def AD_RTB_ENGINE_REINIT_def AD_SUCCESS_def)
  have "demo_data (m_ctData ?e1)" using d(2) by simp
  from demo_engine_data [OF this, of 2] obtain d2 where d2: "engine_data ?env ?e1 = Inr (AD_SUCCESS, ?e1\<lparr>m_ctData := d2\<rparr>)"
    by blast
  have ok: "config_ok (pp_Get False (m_ctConfig demo_started))" "length (watched (pp_Get False (m_ctConfig demo_started))) < 2 ^ 31"
    unfolding demo_started_conf by (simp_all add: config_ok_def demo_loaded_conf_def watched_def section_at_def)
  have ret: "AD_RTB_ENGINE_REINIT \<noteq> AD_SUCCESS" by (simp add: AD_RTB_ENGINE_REINIT_def AD_SUCCESS_def)
  from second_update_crashes [OF demo_started_none ok d(1) u ret d2 refl] u show ?thesis by blast
qed

lemma outage_blocks_reconfiguration_witness:
  "\<exists>d. AdUpdateTask_loop (replicate 3 (demo_update_env (demo_loading_env\<lparr>pe_redis := demo_counter\<lparr>redisConnect := \<lambda>_ _. False\<rparr>\<rparr>) 2,
      demo_init_env, demo_update_env demo_loading_env 2)) demo_started = Inr (True, demo_started\<lparr>m_ctData := d\<rparr>) \<and>
    DataSearch 7 d = Some demo_unit_doc"
proof -
  have "m_ctData demo_started = demo_planning" by (simp add: demo_started_def)
  then have "map_of (DataGetCache (m_ctData demo_started)) 7 = Some demo_unit_doc"
    by (simp add: demo_planning_def DataGetCache_def)
  with outage_blocks_reconfiguration [of "replicate 3 (demo_update_env (demo_loading_env\<lparr>pe_redis :=
      demo_counter\<lparr>redisConnect := \<lambda>_ _. False\<rparr>\<rparr>) 2, demo_init_env, demo_update_env demo_loading_env 2)" demo_started]
  show ?thesis by (fastforce simp: demo_update_env_def DataSearch_def)
qed

end
