(* ===== verification/AdHttp.thy ===== *)
theory AdHttp
  imports AdUtil AdCString StdMap "HOL-Library.List_Lexorder" "HOL-Library.Char_ord"
begin

text \<open>
  The class \<^verbatim>\<open>AdHttp\<close> of \<^verbatim>\<open>libutil/inc/AdUtil.h\<close>. Its static functions look up attributes of a request that is
  still in its packet cache; they are what the adapter uses. A parsed request keeps its method, its address, its
  parameters and its attributes; parsing cuts the text in the memory of the cache into pieces. The builders write
  whole requests and responses into a cache.
\<close>

section \<open>C strings in memory\<close>

text \<open>
  \<^verbatim>\<open>strcasestr(mem, pat)\<close>. Without a terminator in its memory the string has no end and the search leaves the
  memory.
\<close>

definition strcasestr :: "string \<Rightarrow> string \<Rightarrow> nat option cxx" where
  "strcasestr mem pat =
     (if CHR 0x00 \<in> set mem then Inr (find_sub (map tolower pat) (map tolower (c_str mem))) else Inl OutOfBounds)"

definition rd_char :: "string \<Rightarrow> nat \<Rightarrow> char cxx" where
  "rd_char mem p = (if p < length mem then Inr (mem ! p) else Inl OutOfBounds)"

text \<open>\<^verbatim>\<open>strcspn(mem + p, set)\<close> and \<^verbatim>\<open>strspn\<close>: how many characters from \<open>p\<close> on are not (or are) in the set.\<close>

definition span_at :: "(char \<Rightarrow> bool) \<Rightarrow> string \<Rightarrow> nat \<Rightarrow> nat cxx" where
  "span_at P mem p =
     (let n = length (takeWhile (\<lambda>c. P c \<and> c \<noteq> CHR 0x00) (drop p mem)) in
      if p + n < length mem then Inr n else Inl OutOfBounds)"

definition strcspn :: "string \<Rightarrow> nat \<Rightarrow> string \<Rightarrow> nat cxx" where
  "strcspn mem p reject = span_at (\<lambda>c. c \<notin> set reject) mem p"

definition strspn :: "string \<Rightarrow> nat \<Rightarrow> string \<Rightarrow> nat cxx" where
  "strspn mem p accept = span_at (\<lambda>c. c \<in> set accept) mem p"

section \<open>Attributes of a request in its cache\<close>

definition attr_stop :: "char \<Rightarrow> bool" where
  "attr_stop ch \<longleftrightarrow> ch \<in> set (''? '' @ [CHR 0x0A, CHR 0x09, CHR 0x00, CHR 0x0D])"

text \<open>The loop over at most \<open>n\<close> characters: how many there are before one that ends the value.\<close>

fun attr_scan :: "string \<Rightarrow> nat \<Rightarrow> nat \<Rightarrow> nat \<Rightarrow> nat cxx" where
  "attr_scan mem p 0 i = Inr i"
| "attr_scan mem p (Suc n) i =
     bind_cxx (rd_char mem (p + i)) (\<lambda>ch. if attr_stop ch then Inr i else attr_scan mem p n (Suc i))"

definition GetAttr :: "AdCache \<Rightarrow> string \<Rightarrow> string option cxx" where
  "GetAttr ctCache pAttr =
     bind_cxx (strcasestr (m_cCache ctCache) pAttr) (\<lambda>r.
       case r of
         None \<Rightarrow> Inr None
       | Some found \<Rightarrow>
           (let p = found + length pAttr; iLen = m_iLen ctCache - int p in
            bind_cxx (attr_scan (m_cCache ctCache) p (nat (iLen + 1)) 0) (\<lambda>i.
              if int i > iLen then Inr None else Inr (Some (take i (drop p (m_cCache ctCache)))))))"

definition GetPostUri :: "AdCache \<Rightarrow> string option cxx" where
  "GetPostUri ctCache = GetAttr ctCache ''POST ''"

definition GetGetUri :: "AdCache \<Rightarrow> string option cxx" where
  "GetGetUri ctCache = GetAttr ctCache ''GET ''"

definition GetHost :: "AdCache \<Rightarrow> string option cxx" where
  "GetHost ctCache = GetAttr ctCache ''Host: ''"

definition GetLen :: "AdCache \<Rightarrow> int cxx" where
  "GetLen ctCache =
     bind_cxx (GetAttr ctCache ''Content-Length: '') (\<lambda>r.
       case r of
         None \<Rightarrow> Inr AD_FAILURE
       | Some sValue \<Rightarrow> if sValue = [] then Inr AD_FAILURE else Inr (sint (atoi sValue)))"

abbreviation crlf :: string where "crlf \<equiv> [CHR 0x0D, CHR 0x0A]"

text \<open>The body is given by its place in the memory.\<close>

definition GetBody :: "AdCache \<Rightarrow> nat option cxx" where
  "GetBody ctCache =
     bind_cxx (strcasestr (m_cCache ctCache) (crlf @ crlf)) (\<lambda>r. Inr (map_option (\<lambda>p. p + 4) r))"

text \<open>
  \<^verbatim>\<open>PacketLen\<close> of the adapter (\<^verbatim>\<open>adapter/AdAdapter.cpp\<close>): the length of the request that begins in the cache, by
  its head; for the exchange (\<^verbatim>\<open>AdExchange/src/AdAdx.cpp\<close>) without the test of the method.
\<close>

definition packet_len :: "AdCache \<Rightarrow> int cxx" where
  "packet_len pCache =
     bind_cxx (GetLen pCache) (\<lambda>iBody.
       if iBody \<le> 0 then Inr AD_FAILURE
       else bind_cxx (GetBody pCache) (\<lambda>r.
         case r of None \<Rightarrow> Inr AD_FAILURE | Some pBody \<Rightarrow> Inr (int_cast (int pBody + iBody))))"

definition AdAdapterPacketLen :: "AdCache \<Rightarrow> int cxx" where
  "AdAdapterPacketLen pCache =
     bind_cxx (GetPostUri pCache) (\<lambda>r.
       case r of None \<Rightarrow> Inr AD_FAILURE | Some sValue \<Rightarrow> packet_len pCache)"

section \<open>Builders\<close>

text \<open>
  \<^verbatim>\<open>snprintf(cCache.Get(), cCache.Max(), ...)\<close> cuts the text off, but the length that it returns, which
  becomes the size of the cache, is that of the whole text.
\<close>

definition cache_printf :: "string \<Rightarrow> AdCache \<Rightarrow> AdCache" where
  "cache_printf text c =
     (let t = snprintf AD_CACHE_MAX text in
      c\<lparr>m_cCache := t @ CHR 0x00 # drop (length t + 1) (m_cCache c), m_iLen := int (length text)\<rparr>)"

datatype Http_Method = HTTP_GET | HTTP_POST | HTTP_HEAD | HTTP_CONNECT | HTTP_PUT | HTTP_DELETE | HTTP_OPTIONS |
  HTTP_PROPFIND

fun method_name :: "Http_Method \<Rightarrow> string" where
  "method_name HTTP_GET = ''GET''"
| "method_name HTTP_POST = ''POST''"
| "method_name HTTP_HEAD = ''HEAD''"
| "method_name HTTP_CONNECT = ''CONNECT''"
| "method_name HTTP_PUT = ''PUT''"
| "method_name HTTP_DELETE = ''DELETE''"
| "method_name HTTP_OPTIONS = ''OPTIONS''"
| "method_name HTTP_PROPFIND = ''PROPFIND''"

definition m_mMethodToInt :: "(string \<times> Http_Method) list" where
  "m_mMethodToInt = map (\<lambda>m. (method_name m, m))
     [HTTP_GET, HTTP_POST, HTTP_HEAD, HTTP_CONNECT, HTTP_PUT, HTTP_DELETE, HTTP_OPTIONS, HTTP_PROPFIND]"

definition m_mResponse :: "(int \<times> string) list" where
  "m_mResponse = [(200, ''Ok''), (204, ''No Content''), (301, ''Moved Permanently''), (302, ''Move temporarily''),
     (400, ''Bad Request''), (401, ''Unauthorized''), (404, ''Not Found''), (408, ''Request Timeout''),
     (413, '' Request Entity Too Large'')]"

text \<open>\<^verbatim>\<open>m_mResponse[iStatus]\<close>: a status that is not in the map has the empty text.\<close>

definition status_text :: "int \<Rightarrow> string" where
  "status_text iStatus = (case map_of m_mResponse iStatus of None \<Rightarrow> [] | Some s \<Rightarrow> s)"

definition request_text :: "Http_Method \<Rightarrow> string option \<Rightarrow> string \<Rightarrow> UINT \<Rightarrow> string" where
  "request_text iMethod pUri pBody iBodyLen =
     (case pUri of
        Some uri \<Rightarrow> method_name iMethod @ '' '' @ c_str uri @ '' HTTP/1.1'' @ crlf @
          ''Content-Type: application/Json'' @ crlf
      | None \<Rightarrow> method_name iMethod @ ''  / HTTP/1.1'' @ crlf @ ''Content-Type:application/Json'' @ crlf) @
     ''Content-Length: '' @ fmt_d iBodyLen @ crlf @ ''Connection: close'' @ crlf @ crlf @ c_str pBody"

definition GetRequest :: "Http_Method \<Rightarrow> string option \<Rightarrow> string \<Rightarrow> UINT \<Rightarrow> AdCache \<Rightarrow> AdCache" where
  "GetRequest iMethod pUri pBody iBodyLen = cache_printf (request_text iMethod pUri pBody iBodyLen)"

definition status_line :: "int \<Rightarrow> string \<Rightarrow> string" where
  "status_line iStatus pType = ''HTTP/1.1 '' @ fmt_d (of_int iStatus) @ '' '' @ status_text iStatus @ crlf @
     ''Content-Type: '' @ c_str pType @ crlf"

definition GetResponse :: "int \<Rightarrow> string option \<Rightarrow> AdCache \<Rightarrow> AdCache" where
  "GetResponse iStatus pType =
     cache_printf (status_line iStatus (case pType of None \<Rightarrow> ''text/plain'' | Some t \<Rightarrow> t) @
       ''Content-Length: 0'' @ crlf @ ''Connection: close'' @ crlf @ crlf)"

definition GetResponse_body :: "int \<Rightarrow> string option \<Rightarrow> string \<Rightarrow> UINT \<Rightarrow> AdCache \<Rightarrow> AdCache" where
  "GetResponse_body iStatus pType pBody iBodyLen =
     cache_printf (status_line iStatus (case pType of None \<Rightarrow> ''text/plain'' | Some t \<Rightarrow> t) @
       ''Content-Length: '' @ fmt_d iBodyLen @ crlf @ ''Connection: close'' @ crlf @ crlf @ c_str pBody)"

definition GetRedirect :: "int \<Rightarrow> string \<Rightarrow> AdCache \<Rightarrow> AdCache" where
  "GetRedirect iStatus sLocation c =
     (if sLocation = [] then c
      else cache_printf (status_line iStatus ''text/plain'' @ ''Content-Length: 0'' @ crlf @
        ''Location: '' @ c_str sLocation @ crlf @ ''Connection: close'' @ crlf @ crlf) c)"

section \<open>Parsed requests and responses\<close>

record AdHttp =
  m_sMethod :: string
  m_iMethod :: "Http_Method option"
  m_iHeadLen :: int
  m_iBodyLen :: int
  m_pBody :: "nat option"
  m_sUri :: string
  m_mParas :: "(string \<times> string) list"
  m_sHttpVersion :: string
  m_mAttrs :: "(string \<times> string) list"
  m_sStatus :: string
  m_iResState :: int
  m_iResHeadLen :: int
  m_iResBodyLen :: int
  m_pResBody :: "nat option"
  m_mResAttrs :: "(string \<times> string) list"

text \<open>\<^verbatim>\<open>Clear\<close>: what a request starts from.\<close>

definition http_clear :: AdHttp where
  "http_clear = \<lparr>m_sMethod = [], m_iMethod = None, m_iHeadLen = AD_FAILURE, m_iBodyLen = AD_FAILURE, m_pBody = None,
     m_sUri = [], m_mParas = [], m_sHttpVersion = [], m_mAttrs = [], m_sStatus = [], m_iResState = AD_FAILURE,
     m_iResHeadLen = AD_FAILURE, m_iResBodyLen = AD_FAILURE, m_pResBody = None, m_mResAttrs = []\<rparr>"

text \<open>\<^verbatim>\<open>GetLen(bRes)\<close> reads the attributes of the request for a response and the other way round.\<close>

definition http_GetLen :: "bool \<Rightarrow> AdHttp \<Rightarrow> int" where
  "http_GetLen bRes h =
     (case map_of (if bRes then m_mAttrs h else m_mResAttrs h) ''Content-Length'' of
        None \<Rightarrow> AD_FAILURE
      | Some v \<Rightarrow> sint (atoi (c_str v)))"

definition http_GetHeader :: "string \<Rightarrow> AdHttp \<Rightarrow> string option" where
  "http_GetHeader pHeader h = map_of (m_mAttrs h) pHeader"

definition http_GetPara :: "string \<Rightarrow> AdHttp \<Rightarrow> string option" where
  "http_GetPara pPara h = map_of (m_mParas h) pPara"

definition http_GetUri :: "Http_Method option \<Rightarrow> AdHttp \<Rightarrow> string option" where
  "http_GetUri iMethod h = (if iMethod = None \<or> m_iMethod h = iMethod then Some (m_sUri h) else None)"

text \<open>
  \<^verbatim>\<open>SkipQuoted\<close>: the word from \<open>buf\<close> to the next delimiter ends where it begins, a terminator is put behind
  it, and the white space that follows is skipped. While the character before the delimiter is the quote character
  the rest is moved over the quote and the word goes on; each turn moves \<open>end_word\<close> on, so that the length of the
  memory is enough fuel.
\<close>

fun mem_fill :: "nat \<Rightarrow> nat \<Rightarrow> string \<Rightarrow> string cxx" where
  "mem_fill p 0 mem = Inr mem"
| "mem_fill p (Suc n) mem = bind_cxx (mem_write mem p [CHR 0x00]) (mem_fill (Suc p) n)"

fun quote_loop :: "nat \<Rightarrow> char \<Rightarrow> string \<Rightarrow> nat \<Rightarrow> nat \<Rightarrow> string \<Rightarrow> (nat \<times> nat \<times> string) cxx" where
  "quote_loop 0 quotechar delimiters p end_word mem = Inl OutOfBounds"
| "quote_loop (Suc n) quotechar delimiters p end_word mem =
     bind_cxx (rd_char mem p) (\<lambda>c.
       if c \<noteq> quotechar then Inr (p, end_word, mem)
       else bind_cxx (rd_char mem end_word) (\<lambda>e.
         if e = CHR 0x00 then bind_cxx (mem_write mem p [CHR 0x00]) (\<lambda>mem. Inr (p, end_word, mem))
         else bind_cxx (strcspn mem (end_word + 1) delimiters) (\<lambda>end_off.
           bind_cxx (mem_write mem p (take (end_off + 1) (drop end_word mem))) (\<lambda>mem.
             quote_loop n quotechar delimiters (p + end_off) (end_word + end_off + 1) mem))))"

definition SkipQuoted :: "nat \<Rightarrow> string \<Rightarrow> string \<Rightarrow> char \<Rightarrow> string \<Rightarrow> (nat \<times> nat \<times> string) cxx" where
  "SkipQuoted buf delimiters whitespace quotechar mem =
     bind_cxx (strcspn mem buf delimiters) (\<lambda>n.
       let end_word = buf + n in
       bind_cxx (if end_word > buf
           then bind_cxx (quote_loop (length mem + 1) quotechar delimiters (end_word - 1) end_word mem)
             (\<lambda>(p, end_word, mem). bind_cxx (mem_fill (p + 1) (end_word - (p + 1)) mem) (\<lambda>mem. Inr (end_word, mem)))
           else Inr (end_word, mem)) (\<lambda>(end_word, mem).
       bind_cxx (rd_char mem end_word) (\<lambda>e.
         if e = CHR 0x00 then Inr (buf, end_word, mem)
         else bind_cxx (strspn mem (end_word + 1) whitespace) (\<lambda>k.
           let end_whitespace = end_word + 1 + k in
           bind_cxx (mem_fill end_word (end_whitespace - end_word) mem) (\<lambda>mem. Inr (buf, end_whitespace, mem))))))"

text \<open>A word as a string, and the word from \<open>buf\<close> on.\<close>

definition str_at :: "string \<Rightarrow> nat \<Rightarrow> string cxx" where
  "str_at mem p = bind_cxx (span_at (\<lambda>_. True) mem p) (\<lambda>n. Inr (take n (drop p mem)))"

definition next_word :: "nat \<Rightarrow> string \<Rightarrow> string \<Rightarrow> string \<Rightarrow> (string \<times> nat \<times> string) cxx" where
  "next_word buf delimiters whitespace mem =
     bind_cxx (SkipQuoted buf delimiters whitespace (CHR 0x00) mem) (\<lambda>(w, buf, mem).
       bind_cxx (str_at mem w) (\<lambda>s. Inr (s, buf, mem)))"

text \<open>
  \<^verbatim>\<open>ParsePara\<close>, by the rest of the text: a parameter without an equal sign ends the loop.
\<close>

function parse_paras :: "string \<Rightarrow> (string \<times> string) list \<Rightarrow> (string \<times> string) list" where
  "parse_paras s m =
     (if CHR ''='' \<in> set s then
        (let name = takeWhile (\<lambda>c. c \<noteq> CHR ''='') s; rest = tl (dropWhile (\<lambda>c. c \<noteq> CHR ''='') s) in
         if CHR ''&'' \<in> set rest
         then parse_paras (tl (dropWhile (\<lambda>c. c \<noteq> CHR ''&'') rest)) (smap_upd name (takeWhile (\<lambda>c. c \<noteq> CHR ''&'') rest) m)
         else smap_upd name rest m)
      else m)"
  by pat_completeness auto
termination
proof (relation "measure (\<lambda>(s, m). length s)", goal_cases)
  case (2 s m name rest)
  have "length (tl (dropWhile (\<lambda>c. c \<noteq> CHR ''&'') rest)) \<le> length rest"
    using length_dropWhile_le [of "\<lambda>c. c \<noteq> CHR ''&''" rest] by simp
  moreover have "length rest < length s"
    using 2(1,3) length_dropWhile_le [of "\<lambda>c. c \<noteq> CHR ''=''" s]
    by (cases "dropWhile (\<lambda>c. c \<noteq> CHR ''='') s") auto
  ultimately show ?case by simp
qed simp

declare parse_paras.simps [simp del]

definition ParsePara :: "string \<Rightarrow> AdHttp \<Rightarrow> AdHttp" where
  "ParsePara sStr h = h\<lparr>m_mParas := parse_paras (dropWhile (\<lambda>c. c = CHR ''='') sStr) (m_mParas h)\<rparr>"

text \<open>
  The loop over the attributes ends at an empty name. Each turn that goes on moves \<open>buf\<close> on or leaves the memory, so the
  length of the memory is enough fuel.
\<close>

fun parse_attrs :: "nat \<Rightarrow> nat \<Rightarrow> string \<Rightarrow> (string \<times> string) list \<Rightarrow> (string \<times> (string \<times> string) list) cxx" where
  "parse_attrs 0 buf mem m = Inl OutOfBounds"
| "parse_attrs (Suc n) buf mem m =
     bind_cxx (next_word buf '':'' '' '' mem) (\<lambda>(name, buf, mem).
       if name = [] then Inr (mem, m)
       else bind_cxx (next_word buf crlf crlf mem) (\<lambda>(value, buf, mem).
         parse_attrs n buf mem (smap_upd name value m)))"

definition skip_space :: "string \<Rightarrow> nat \<Rightarrow> nat cxx" where
  "skip_space mem p = bind_cxx (span_at is_space mem p) (\<lambda>n. Inr (p + n))"

text \<open>
  \<^verbatim>\<open>Error\<close> writes the answer for a bad request into \<^verbatim>\<open>m_sStatus\<close> from buffers of 2048 and 4096 bytes.
\<close>

definition http_Error :: "int \<Rightarrow> string \<Rightarrow> AdHttp \<Rightarrow> AdHttp" where
  "http_Error iStatus cExt h =
     (let start = snprintf 2048 (''Error '' @ fmt_d (of_int iStatus) @ '': '' @ status_text iStatus) @ [CHR 0x0A];
          body = start @ snprintf (2048 - length start) (c_str cExt);
          iLen = length start + length (c_str cExt)
      in h\<lparr>m_sStatus := snprintf 4096
        (if iStatus > 199 \<and> iStatus \<noteq> 204 \<and> iStatus \<noteq> 304
         then ''HTTP/1.1 '' @ fmt_d (of_int iStatus) @ '' '' @ status_text iStatus @ crlf @
           ''Content-Type: text/plain'' @ crlf @ ''Content-Length: '' @ fmt_d (of_nat iLen) @ crlf @
           ''Connection: close'' @ crlf @ crlf @ body
         else ''HTTP/1.1 '' @ fmt_d (of_int iStatus) @ '' '' @ status_text iStatus @ crlf @
           ''Content-Type: text/plain'' @ crlf @ ''Content-Length: 0'' @ crlf @ ''Connection: close'' @ crlf @ crlf)\<rparr>)"

text \<open>
  \<^verbatim>\<open>Parse\<close>. The test of the first character of the address can never be true and is left out. The answer is
  the method, or nothing for a failure.
\<close>

definition http_Parse :: "AdCache \<Rightarrow> AdHttp \<Rightarrow> (Http_Method option \<times> AdCache \<times> AdHttp) cxx" where
  "http_Parse ctCache h =
     bind_cxx (GetBody ctCache) (\<lambda>body.
       let h = h\<lparr>m_pBody := body, m_iHeadLen := (case body of None \<Rightarrow> m_iHeadLen h | Some p \<Rightarrow> int p)\<rparr> in
       if m_iHeadLen h < 1 then Inl OutOfBounds
       else bind_cxx (mem_write (m_cCache ctCache) (nat (m_iHeadLen h) - 1) [CHR 0x00]) (\<lambda>mem.
       bind_cxx (skip_space mem 0) (\<lambda>buf.
       bind_cxx (next_word buf '' '' '' '' mem) (\<lambda>(method, buf, mem).
       bind_cxx (next_word buf '' '' '' '' mem) (\<lambda>(uri, buf, mem).
       bind_cxx (next_word buf crlf crlf mem) (\<lambda>(version, buf, mem).
         let h = h\<lparr>m_sMethod := method, m_sUri := uri, m_sHttpVersion := version\<rparr> in
         case map_of m_mMethodToInt method of
           None \<Rightarrow> bind_cxx (str_at mem 0) (\<lambda>s.
             Inr (None, ctCache\<lparr>m_cCache := mem\<rparr>, http_Error 400 (snprintf 4096 (''Cannot parse HTTP request: ['' @ s @ '']'')) h))
         | Some m \<Rightarrow>
             (let h = h\<lparr>m_iMethod := Some m\<rparr>; vStr = split_fields uri ''?'';
                  h = (if length vStr = 2 then ParsePara (vStr ! 1) (h\<lparr>m_sUri := vStr ! 0\<rparr>) else h)
              in bind_cxx (parse_attrs (length mem + 1) buf mem (m_mAttrs h)) (\<lambda>(mem, attrs).
                let h = h\<lparr>m_mAttrs := attrs\<rparr>; h = h\<lparr>m_iBodyLen := http_GetLen False h\<rparr>;
                    c = ctCache\<lparr>m_cCache := mem\<rparr> in
                bind_cxx (add_int (m_iHeadLen h) (m_iBodyLen h)) (\<lambda>n.
                  if n > m_iLen ctCache then Inr (None, c, http_Error 413 [] h) else Inr (Some m, c, h))))))))))"

text \<open>\<^verbatim>\<open>ParseResponse\<close>: the state of the response, or a failure.\<close>

definition http_ParseResponse :: "AdCache \<Rightarrow> AdHttp \<Rightarrow> (int \<times> AdCache \<times> AdHttp) cxx" where
  "http_ParseResponse ctCache h =
     bind_cxx (GetBody ctCache) (\<lambda>body.
       let h = h\<lparr>m_pResBody := body, m_iResHeadLen := (case body of None \<Rightarrow> m_iLen ctCache | Some p \<Rightarrow> int p)\<rparr> in
       if m_iResHeadLen h < 1 then Inl OutOfBounds
       else bind_cxx (mem_write (m_cCache ctCache) (nat (m_iResHeadLen h) - 1) [CHR 0x00]) (\<lambda>mem.
       bind_cxx (skip_space mem 0) (\<lambda>buf.
       bind_cxx (next_word buf '' '' '' '' mem) (\<lambda>(version, buf, mem).
       bind_cxx (next_word buf '' '' '' '' mem) (\<lambda>(state, buf, mem).
       bind_cxx (next_word buf crlf crlf mem) (\<lambda>(sState, buf, mem).
         let h = h\<lparr>m_iResState := sint (atoi state)\<rparr>; c = ctCache\<lparr>m_cCache := mem\<rparr> in
         if map_of m_mResponse (m_iResState h) = None then Inr (AD_FAILURE, c, h)
         else bind_cxx (parse_attrs (length mem + 1) buf mem (m_mResAttrs h)) (\<lambda>(mem, attrs).
           let h = h\<lparr>m_mResAttrs := attrs\<rparr>; h = h\<lparr>m_iResBodyLen := http_GetLen False h\<rparr>;
               c = ctCache\<lparr>m_cCache := mem\<rparr> in
           bind_cxx (add_int (m_iResHeadLen h) (m_iResBodyLen h)) (\<lambda>n.
             if n > m_iLen ctCache then Inr (AD_FAILURE, c, h) else Inr (m_iResState h, c, h)))))))))"

end
