(* ===== verification/AdHttpCorrect.thy ===== *)
theory AdHttpCorrect
  imports AdHttp
begin

text \<open>
  What the functions of \<open>AdHttp\<close> promise: attributes are read inside the memory of the cache, a request that was
  built is taken apart again, and where the parser leaves its memory.
\<close>

section \<open>Searching line by line\<close>

lemma find_sub_separator:
  assumes "pat \<noteq> []" "x \<notin> set pat"
  shows "find_sub pat (a @ x # b) = (case find_sub pat a of Some i \<Rightarrow> Some i
    | None \<Rightarrow> map_option (\<lambda>i. i + Suc (length a)) (find_sub pat b))"
proof (induction a)
  case Nil
  have "\<not> prefix pat (x # b)" using assms by (cases pat) auto
  with assms(1) show ?case by simp
next
  case (Cons c a)
  have "prefix pat ((c # a) @ x # b) \<longleftrightarrow> prefix pat (c # a)"
    using assms(2) unfolding prefix_append by (auto simp: prefix_Cons)
  with Cons show ?case by (simp add: option.map_comp comp_def split: option.split)
qed

lemma find_sub_None: "c \<in> set pat \<Longrightarrow> c \<notin> set s \<Longrightarrow> find_sub pat s = None"
proof (cases "find_sub pat s")
  case (Some i)
  assume c: "c \<in> set pat" "c \<notin> set s"
  from c(1) find_sub_Some [OF Some] have "c \<in> set (take (length pat) (drop i s))" by simp
  with c(2) show ?thesis by (meson in_set_dropD in_set_takeD)
qed simp

lemma find_sub_skip:
  assumes "pat \<noteq> []" "set a \<inter> set pat = {}"
  shows "find_sub pat (a @ b) = map_option (\<lambda>i. i + length a) (find_sub pat b)"
  using assms(2)
proof (induction a)
  case (Cons c a)
  have "\<not> prefix pat (c # a @ b)" using Cons.prems assms(1) by (cases pat) auto
  with Cons show ?case by (simp add: option.map_comp comp_def)
qed (simp add: option.map_ident)

lemma drop_at: "drop (length a) (a @ b) = b"
  by simp

lemma find_sub_here: "find_sub pat (pat @ b) = Some 0"
proof (cases "pat @ b")
  case (Cons c s)
  moreover have "prefix pat (pat @ b)" by simp
  ultimately show ?thesis by simp
qed simp

lemma tolower_eq:
  "tolower c = d \<Longrightarrow> \<not> (97 \<le> (of_char d :: nat) \<and> (of_char d :: nat) \<le> 122) \<Longrightarrow> c = d"
proof (rule ccontr)
  assume a: "tolower c = d" "\<not> (97 \<le> (of_char d :: nat) \<and> (of_char d :: nat) \<le> 122)" "c \<noteq> d"
  then have u: "65 \<le> (of_char c :: nat)" "(of_char c :: nat) \<le> 90" "d = char_of ((of_char c :: nat) + 32)"
    by (auto simp: tolower_def split: if_splits)
  then have "(of_char d :: nat) = of_char c + 32" by (simp add: take_bit_nat_eq_self)
  with u a(2) show False by simp
qed

lemma tolower_other [simp]:
  "tolower c = CHR 0x0D \<longleftrightarrow> c = CHR 0x0D" "tolower c = CHR 0x0A \<longleftrightarrow> c = CHR 0x0A"
  "tolower c = CHR '':'' \<longleftrightarrow> c = CHR '':''" "tolower c = CHR '' '' \<longleftrightarrow> c = CHR '' ''"
proof -
  have "tolower c = d \<longleftrightarrow> c = d" if "(of_char d :: nat) < 65 " for d
    using that tolower_eq [of c d] by (auto simp: tolower_def)
  then show "tolower c = CHR 0x0D \<longleftrightarrow> c = CHR 0x0D" "tolower c = CHR 0x0A \<longleftrightarrow> c = CHR 0x0A"
    "tolower c = CHR '':'' \<longleftrightarrow> c = CHR '':''" "tolower c = CHR '' '' \<longleftrightarrow> c = CHR '' ''" by simp_all
qed

section \<open>Attributes\<close>

text \<open>The value of an attribute: what stands up to the first character that ends it.\<close>

definition attr_value :: "string \<Rightarrow> string" where
  "attr_value s = takeWhile (\<lambda>c. \<not> attr_stop c) s"

lemma attr_scan_value:
  "p + i + n \<le> length mem \<Longrightarrow>
    attr_scan mem p n i = Inr (i + min n (length (attr_value (drop (p + i) mem))))"
proof (induction n arbitrary: i)
  case (Suc n)
  then have "drop (p + i) mem = mem ! (p + i) # drop (p + Suc i) mem" by (simp add: Cons_nth_drop_Suc)
  with Suc show ?case by (simp add: rd_char_def attr_value_def)
qed simp

lemma GetAttr_eq:
  assumes "cache_ok c" "CHR 0x00 \<in> set (m_cCache c)"
  shows "GetAttr c pat = Inr (case find_sub (map tolower pat) (map tolower (c_str (m_cCache c))) of
      None \<Rightarrow> None
    | Some i \<Rightarrow> (let v = attr_value (drop (i + length pat) (m_cCache c)) in
        if int (i + length pat + length v) \<le> m_iLen c then Some v else None))"
proof (cases "find_sub (map tolower pat) (map tolower (c_str (m_cCache c)))")
  case (Some i)
  define p where "p = i + length pat"
  let ?n = "nat (m_iLen c - int p + 1)" and ?v = "attr_value (drop p (m_cCache c))"
  have l: "length (m_cCache c) = 8192" "m_iLen c \<le> 8191" using assms(1) by (simp_all add: cache_ok_def)
  have v: "take (length ?v) (drop p (m_cCache c)) = ?v" by (simp add: attr_value_def takeWhile_eq_take [symmetric])
  show ?thesis
  proof (cases "int p \<le> m_iLen c")
    case True
    then have "p + 0 + ?n \<le> length (m_cCache c)" using l by linarith
    from attr_scan_value [OF this] have "attr_scan (m_cCache c) p ?n 0 = Inr (min ?n (length ?v))" by simp
    moreover have "int (min ?n (length ?v)) > m_iLen c - int p \<longleftrightarrow> \<not> int (p + length ?v) \<le> m_iLen c"
      using True by linarith
    ultimately show ?thesis
      using assms(2) Some v True
      by (auto simp: GetAttr_def strcasestr_def p_def [symmetric] Let_def min_def algebra_simps)
  next
    case False
    then have "?n = 0" by simp
    with False assms(2) Some show ?thesis
      by (auto simp: GetAttr_def strcasestr_def p_def [symmetric] Let_def)
  qed
qed (use assms in \<open>simp add: GetAttr_def strcasestr_def\<close>)

lemma find_head_line:
  assumes "set l \<inter> set crlf = {}" "t \<noteq> []" "hd t \<notin> set crlf"
  shows "find_sub (crlf @ crlf) (l @ crlf @ t) = map_option (\<lambda>i. i + (length l + 2)) (find_sub (crlf @ crlf) t)"
proof -
  have "find_sub (crlf @ crlf) (crlf @ t) = map_option (\<lambda>i. i + 2) (find_sub (crlf @ crlf) t)"
    using assms(2,3) by (cases t) (auto simp: option.map_comp comp_def)
  then show ?thesis
    using find_sub_skip [of "crlf @ crlf" l "crlf @ t"] assms(1) by (simp add: option.map_comp comp_def ac_simps)
qed

section \<open>A request that was built\<close>

definition uri_plain :: "string \<Rightarrow> bool" where
  "uri_plain uri \<longleftrightarrow> list_all (\<lambda>c. c \<notin> set ([CHR 0x00, CHR 0x09, CHR '' '', CHR '':''] @ crlf)) uri"

lemma printf_memory:
  assumes "length text < AD_CACHE_MAX" "CHR 0x00 \<notin> set text" "length (m_cCache c) = AD_CACHE_MAX"
    "m_iMaxLen c = int AD_CACHE_MAX - 1"
  shows "cache_ok (cache_printf text c)" "m_iLen (cache_printf text c) = int (length text)"
    "\<exists>rest. m_cCache (cache_printf text c) = text @ CHR 0x00 # rest" "c_str (m_cCache (cache_printf text c)) = text"
  using assms by (auto simp: cache_printf_def Let_def snprintf_def cache_ok_def c_str_def takeWhile_append)

text \<open>The text of a request, by its lines.\<close>

definition request_head :: "string \<Rightarrow> UINT \<Rightarrow> string" where
  "request_head uri n = ''POST '' @ uri @ '' HTTP/1.1'' @ crlf @ ''Content-Type: application/Json'' @ crlf @
     ''Content-Length: '' @ fmt_d n @ crlf @ ''Connection: close'' @ crlf @ crlf"

lemma request_text_plain:
  assumes "uri_plain uri" "CHR 0x00 \<notin> set body"
  shows "request_text HTTP_POST (Some uri) body n = request_head uri n @ body" "CHR 0x00 \<notin> set (request_head uri n)"
proof -
  have "CHR 0x00 \<notin> set uri" using assms(1) by (auto simp: uri_plain_def list_all_iff)
  moreover have "CHR 0x00 \<notin> set (fmt_d n)" using fmt_d_chars [of "CHR 0x00" n] by (auto simp: is_digit_def)
  ultimately show "request_text HTTP_POST (Some uri) body n = request_head uri n @ body" "CHR 0x00 \<notin> set (request_head uri n)"
    using assms(2) by (simp_all add: request_text_def request_head_def c_str_id)
qed

lemma fmt_d_plain: "set (fmt_d n) \<inter> set crlf = {}"
  using fmt_d_chars [of _ n] by (fastforce simp: is_digit_def)

lemma map_tolower_crlf [simp]: "set l \<inter> set crlf = {} \<Longrightarrow> set (map tolower l) \<inter> set crlf = {}"
proof -
  have "c \<in> set crlf" if "tolower c \<in> set crlf" for c using that by (simp add: eq_commute [of _ "tolower c"])
  moreover assume "set l \<inter> set crlf = {}"
  ultimately show "set (map tolower l) \<inter> set crlf = {}" unfolding set_map by blast
qed

lemma find_post: "find_sub (map tolower ''POST '') (map tolower (request_head uri n @ body)) = Some 0"
  unfolding request_head_def map_append append_assoc by (rule find_sub_here)

lemma find_length:
  assumes "uri_plain uri"
  shows "find_sub (map tolower ''Content-Length: '') (map tolower (request_head uri n @ body)) =
    Some (length uri + 48)"
proof -
  define pat where "pat = map tolower ''Content-Length: ''"
  define l1 where "l1 = map tolower (''POST '' @ uri @ '' HTTP/1.1'' @ [CHR 0x0D])"
  define l2 where "l2 = map tolower (''Content-Type: application/Json'' @ [CHR 0x0D])"
  let ?r = "map tolower (fmt_d n @ crlf @ ''Connection: close'' @ crlf @ crlf @ body)"
  have nl: "tolower (CHR 0x0A) = CHR 0x0A" by simp
  have "map tolower (request_head uri n @ body) = l1 @ CHR 0x0A # l2 @ CHR 0x0A # pat @ ?r"
    unfolding request_head_def l1_def l2_def pat_def map_append append_assoc list.map nl append.simps ..
  moreover have p: "pat \<noteq> []" "CHR 0x0A \<notin> set pat" "CHR '':'' \<in> set pat" unfolding pat_def by code_simp+
  have "CHR '':'' \<notin> set uri" using assms by (auto simp: uri_plain_def list_all_iff)
  then have "CHR '':'' \<notin> tolower ` set (''POST '' @ uri @ '' HTTP/1.1'' @ [CHR 0x0D])"
    by (simp add: image_iff eq_commute [of _ "tolower _"])
  then have "find_sub pat l1 = None" unfolding l1_def set_map [symmetric] by (rule find_sub_None [OF p(3)])
  moreover have "find_sub pat l2 = None" unfolding pat_def l2_def by code_simp
  moreover have "length l1 = length uri + 15" "length l2 = 31" by (simp_all add: l1_def l2_def)
  ultimately show ?thesis
    unfolding pat_def [symmetric] by (simp add: find_sub_separator [OF p(1,2)] find_sub_here)
qed

lemma find_body:
  assumes "uri_plain uri"
  shows "find_sub (map tolower (crlf @ crlf)) (map tolower (request_head uri n @ body)) =
    Some (length (request_head uri n) - 4)"
proof -
  have u: "set uri \<inter> set crlf = {}" using assms by (auto simp: uri_plain_def list_all_iff)
  have low: "map tolower crlf = crlf" by simp
  let ?l1 = "map tolower (''POST '' @ uri @ '' HTTP/1.1'')" and ?l2 = "map tolower ''Content-Type: application/Json''"
  let ?l3 = "map tolower (''Content-Length: '' @ fmt_d n)" and ?l4 = "map tolower ''Connection: close''"
  have l: "set ?l1 \<inter> set crlf = {}" "set ?l2 \<inter> set crlf = {}" "set ?l3 \<inter> set crlf = {}" "set ?l4 \<inter> set crlf = {}"
    using u fmt_d_plain [of n] by (intro map_tolower_crlf; auto)+
  let ?t4 = "?l4 @ crlf @ crlf @ map tolower body"
  have h: "hd (?l2 @ t) \<notin> set crlf" "hd (?l3 @ t) \<notin> set crlf" "hd (?l4 @ t) \<notin> set crlf" for t
    by (simp_all add: eq_commute [of _ "tolower _"])
  have "find_sub (crlf @ crlf) ?t4 = Some 17"
    using find_sub_skip [of "crlf @ crlf" ?l4 "crlf @ crlf @ map tolower body"] l(4)
      find_sub_here [of "crlf @ crlf" "map tolower body"] by simp
  then have "find_sub (crlf @ crlf) (?l3 @ crlf @ ?t4) = Some (length (fmt_d n) + 35)"
    using find_head_line [OF l(3), of ?t4] h(3) by simp
  then have "find_sub (crlf @ crlf) (?l2 @ crlf @ ?l3 @ crlf @ ?t4) = Some (length (fmt_d n) + 67)"
    using find_head_line [OF l(2), of "?l3 @ crlf @ ?t4"] h(2) by simp
  then have "find_sub (crlf @ crlf) (?l1 @ crlf @ ?l2 @ crlf @ ?l3 @ crlf @ ?t4) = Some (length uri + length (fmt_d n) + 83)"
    using find_head_line [OF l(1), of "?l2 @ crlf @ ?l3 @ crlf @ ?t4"] h(1) by simp
  moreover have "map tolower (request_head uri n @ body) = ?l1 @ crlf @ ?l2 @ crlf @ ?l3 @ crlf @ ?t4"
    unfolding request_head_def map_append append_assoc low ..
  moreover have "length uri + length (fmt_d n) + 83 = length (request_head uri n) - 4" by (simp add: request_head_def)
  moreover have "map tolower (crlf @ crlf) = crlf @ crlf" by simp
  ultimately show ?thesis by (simp only:)
qed

section \<open>Properties\<close>

text \<open>
  Reading an attribute of a request is defined exactly when the memory of its cache holds a terminator, whatever
  else it holds; a value that is found follows the name of the attribute in upper or lower case, ends before the first
  blank, line end or question mark, and lies within the bytes of the request. A request that fills the 8192 bytes that
  \<^verbatim>\<open>AdSessionRead\<close> offers to the socket has no terminator, and the search leaves the memory.
\<close>

theorem GetAttr_bounded:
  assumes "cache_ok c"
  shows "if CHR 0x00 \<in> set (m_cCache c)
    then \<exists>r. GetAttr c pat = Inr r \<and> (\<forall>v. r = Some v \<longrightarrow>
      (\<exists>i. int (i + length pat + length v) \<le> m_iLen c \<and>
        map tolower (take (length pat) (drop i (m_cCache c))) = map tolower pat \<and>
        v = attr_value (drop (i + length pat) (m_cCache c))))
    else GetAttr c pat = Inl OutOfBounds"
proof (cases "CHR 0x00 \<in> set (m_cCache c)")
  case True
  have "map tolower (take (length pat) (drop i (m_cCache c))) = map tolower pat"
    if "find_sub (map tolower pat) (map tolower (c_str (m_cCache c))) = Some i" for i
  proof -
    let ?n = "length (c_str (m_cCache c))"
    have s: "c_str (m_cCache c) = take ?n (m_cCache c)" by (simp add: c_str_def takeWhile_eq_take [symmetric])
    have n: "i + length pat \<le> ?n" "take (length pat) (drop i (map tolower (c_str (m_cCache c)))) = map tolower pat"
      using find_sub_Some [OF that] by simp_all
    have "take (length pat) (drop i (take ?n (m_cCache c))) = take (length pat) (drop i (m_cCache c))"
      using n(1) by (simp add: drop_take)
    with n(2) show ?thesis unfolding drop_map [symmetric] take_map [symmetric] s [symmetric] by (simp add: drop_map take_map)
  qed
  with True show ?thesis
    by (auto simp: GetAttr_eq [OF assms True] Let_def split: option.split if_splits)
qed (simp add: GetAttr_def strcasestr_def)

text \<open>
  C17. A request that \<^verbatim>\<open>GetRequest\<close> builds and that fits the cache is recognised by the adapter: its length is
  found exactly, so that it is taken as a complete packet, its address is found up to the parameters, and its body
  begins behind the head.
\<close>

theorem request_recognised:
  assumes "uri_plain uri" "CHR 0x00 \<notin> set body" "0 < sint n" "sint n = int (length body)"
    and "length (request_head uri n @ body) < AD_CACHE_MAX" "cache_ok c0"
  shows "AdAdapterPacketLen (GetRequest HTTP_POST (Some uri) body n c0) = Inr (m_iLen (GetRequest HTTP_POST (Some uri) body n c0)) \<and>
    GetPostUri (GetRequest HTTP_POST (Some uri) body n c0) = Inr (Some (takeWhile (\<lambda>ch. ch \<noteq> CHR ''?'') uri)) \<and>
    GetBody (GetRequest HTTP_POST (Some uri) body n c0) = Inr (Some (length (request_head uri n))) \<and>
    cache_data (GetRequest HTTP_POST (Some uri) body n c0) = request_head uri n @ body"
proof -
  define c where "c = GetRequest HTTP_POST (Some uri) body n c0"
  let ?t = "request_head uri n @ body"
  note req = request_text_plain [OF assms(1,2), of n]
  have nul: "CHR 0x00 \<notin> set ?t" using req(2) assms(2) by simp
  have c: "c = cache_printf ?t c0" by (simp add: c_def GetRequest_def req(1))
  have c0: "length (m_cCache c0) = AD_CACHE_MAX" "m_iMaxLen c0 = int AD_CACHE_MAX - 1" using assms(6) by (simp_all add: cache_ok_def)
  note mem = printf_memory [OF assms(5) nul c0, folded c]
  obtain rest where rest: "m_cCache c = ?t @ CHR 0x00 # rest" using mem(3) by blast
  then have z: "CHR 0x00 \<in> set (m_cCache c)" by simp
  note attr = GetAttr_eq [OF mem(1) z, unfolded mem(4)]
  have uri: "attr_value (uri @ CHR '' '' # r) = takeWhile (\<lambda>ch. ch \<noteq> CHR ''?'') uri" for r
    using assms(1) by (induction uri) (auto simp: uri_plain_def attr_value_def attr_stop_def)
  have post: "GetPostUri c = Inr (Some (takeWhile (\<lambda>ch. ch \<noteq> CHR ''?'') uri))"
  proof -
    obtain r where "drop (0 + length ''POST '') (m_cCache c) = uri @ CHR '' '' # r"
      by (simp add: rest request_head_def)
    moreover have "length (takeWhile (\<lambda>ch. ch \<noteq> CHR ''?'') uri) \<le> length uri" by (rule length_takeWhile_le)
    ultimately show ?thesis
      unfolding GetPostUri_def attr find_post option.case Let_def
      by (simp add: uri mem(2)) (simp add: request_head_def)
  qed
  have dig: "attr_value (fmt_d n @ CHR 0x0D # r) = fmt_d n" for r
  proof -
    have "\<not> attr_stop ch" if "ch \<in> set (fmt_d n)" for ch
      using fmt_d_chars [OF that] by (auto simp: attr_stop_def is_digit_def)
    then show ?thesis by (simp add: attr_value_def attr_stop_def takeWhile_append2)
  qed
  have len: "GetLen c = Inr (sint n)"
  proof -
    let ?p = "''POST '' @ uri @ '' HTTP/1.1'' @ crlf @ ''Content-Type: application/Json'' @ crlf @ ''Content-Length: ''"
    obtain r where "m_cCache c = ?p @ fmt_d n @ CHR 0x0D # r" by (simp add: rest request_head_def)
    moreover have "length uri + 48 + length ''Content-Length: '' = length ?p" by simp
    ultimately have "drop (length uri + 48 + length ''Content-Length: '') (m_cCache c) = fmt_d n @ CHR 0x0D # r"
      by (simp only: drop_at)
    then show ?thesis
      unfolding GetLen_def attr find_length [OF assms(1)] option.case Let_def
      by (simp add: dig mem(2) atoi_fmt_d) (simp add: request_head_def)
  qed
  have body: "GetBody c = Inr (Some (length (request_head uri n)))"
    using z unfolding GetBody_def strcasestr_def mem(4) find_body [OF assms(1)] by (simp add: request_head_def)
  have "AdAdapterPacketLen c = Inr (m_iLen c)"
    using assms(3,4,5) by (simp add: AdAdapterPacketLen_def post packet_len_def len body mem(2) int_cast_id)
  moreover have "cache_data c = ?t" by (simp add: cache_data_def mem(2) rest)
  ultimately show ?thesis using post body unfolding c_def by blast
qed

lemma GetAttr_bounded_witness:
  "\<exists>c. cache_ok c \<and> CHR 0x00 \<notin> set (m_cCache c) \<and> GetAttr c ''Host: '' = Inl OutOfBounds"
proof (intro exI [of _ "(cache_new (replicate 8192 (CHR ''a'')))\<lparr>m_iLen := 8191\<rparr>"] conjI)
  let ?c = "(cache_new (replicate 8192 (CHR ''a'')))\<lparr>m_iLen := 8191\<rparr>"
  show c: "cache_ok ?c" "CHR 0x00 \<notin> set (m_cCache ?c)" by (simp_all add: cache_ok_def cache_new_def)
  then show "GetAttr ?c ''Host: '' = Inl OutOfBounds" using GetAttr_bounded [OF c(1), of "''Host: ''"] by simp
qed

lemma request_recognised_witness:
  "AdAdapterPacketLen (GetRequest HTTP_POST (Some ''/mz?a=1'') ''hello'' 5 (cache_new (replicate 8192 (CHR ''x'')))) = Inr 100"
proof -
  let ?c0 = "cache_new (replicate 8192 (CHR ''x''))"
  have "sint (5 :: UINT) = 5" by simp
  moreover have "fmt_d 5 = ''5''" by code_simp
  then have h: "length (request_head ''/mz?a=1'' 5 @ ''hello'') = 100" by (simp add: request_head_def)
  moreover have "uri_plain ''/mz?a=1''" by code_simp
  moreover have "cache_ok ?c0" by (simp add: cache_ok_def cache_new_def)
  ultimately have "AdAdapterPacketLen (GetRequest HTTP_POST (Some ''/mz?a=1'') ''hello'' 5 ?c0) =
      Inr (m_iLen (GetRequest HTTP_POST (Some ''/mz?a=1'') ''hello'' 5 ?c0))"
    using request_recognised [of "''/mz?a=1''" "''hello''" 5 ?c0] by simp
  moreover have "m_iLen (GetRequest HTTP_POST (Some ''/mz?a=1'') ''hello'' 5 ?c0) = 100"
    using h request_text_plain(1) [OF \<open>uri_plain ''/mz?a=1''\<close>, of "''hello''" 5]
    by (simp add: GetRequest_def cache_printf_def Let_def)
  ultimately show ?thesis by simp
qed

end
