(* ===== verification/AdCoding.thy ===== *)
theory AdCoding
  imports AdCString "HOL-Library.Sublist"
begin

text \<open>
  The codings of \<^verbatim>\<open>inc/AdProtocolBase.h\<close>: percent encoding of URLs (also in \<^verbatim>\<open>AdExchange/src/AdAdx.cpp\<close>) and Base64. A
  byte is a character, its value \<open>of_char c\<close>.
\<close>

unbundle bit_operations_syntax

section \<open>URLs\<close>

definition ToHex :: "nat \<Rightarrow> char" where
  "ToHex x = (if x > 9 then char_of (x + 55) else char_of (x + 48))"

text \<open>A character that is no hexadecimal digit leaves the result uninitialised; letters behind \<open>F\<close> count on.\<close>

definition FromHex :: "nat \<Rightarrow> char \<Rightarrow> nat" where
  "FromHex garbage c =
     (let x = of_char c in
      if 65 \<le> x \<and> x \<le> 90 then x - 65 + 10
      else if 97 \<le> x \<and> x \<le> 122 then x - 97 + 10
      else if 48 \<le> x \<and> x \<le> 57 then x - 48
      else garbage)"

definition isalnum :: "char \<Rightarrow> bool" where
  "isalnum c \<longleftrightarrow> (let x = (of_char c :: nat) in 48 \<le> x \<and> x \<le> 57 \<or> 65 \<le> x \<and> x \<le> 90 \<or> 97 \<le> x \<and> x \<le> 122)"

definition url_char :: "char \<Rightarrow> string" where
  "url_char c =
     (if isalnum c \<or> c \<in> set ''-_.~'' then [c]
      else if c = CHR '' '' then ''+''
      else [CHR 0x25, ToHex (of_char c div 16), ToHex (of_char c mod 16)])"

definition UrlEncode :: "string \<Rightarrow> string \<Rightarrow> string" where
  "UrlEncode str sDst = sDst @ concat (map url_char str)"

text \<open>A percent sign with fewer than two characters behind it is dropped alone.\<close>

fun url_decode :: "nat \<Rightarrow> string \<Rightarrow> string" where
  "url_decode g [] = []"
| "url_decode g (c # s) =
     (if c = CHR ''+'' then CHR '' '' # url_decode g s
      else if c = CHR 0x25 then
        (case s of
           h # l # t \<Rightarrow> char_of (FromHex g h * 16 + FromHex g l) # url_decode g t
         | _ \<Rightarrow> url_decode g s)
      else c # url_decode g s)"

definition UrlDecode :: "nat \<Rightarrow> string \<Rightarrow> string \<Rightarrow> string" where
  "UrlDecode g str sDst = sDst @ url_decode g str"

section \<open>Base64\<close>

definition sBase :: string where
  "sBase = ''ABCDEFGHIJKLMNOPQRSTUVWXYZabcdefghijklmnopqrstuvwxyz0123456789+/''"

abbreviation base_char :: "UCHAR \<Rightarrow> char" where
  "base_char w \<equiv> sBase ! unat w"

abbreviation byte :: "char \<Rightarrow> UCHAR" where
  "byte c \<equiv> of_char c"

text \<open>What the loop writes, three bytes at a time.\<close>

fun base_text :: "string \<Rightarrow> string" where
  "base_text [] = []"
| "base_text [a] = [base_char (drop_bit 2 (byte a)), base_char (push_bit 4 (byte a AND 0x03)), CHR ''='', CHR ''='']"
| "base_text [a, b] = [base_char (drop_bit 2 (byte a)),
     base_char (push_bit 4 (byte a AND 0x03) OR drop_bit 4 (byte b)), base_char (push_bit 2 (byte b AND 0x0f)), CHR ''='']"
| "base_text (a # b # c # s) = base_char (drop_bit 2 (byte a)) #
     base_char (push_bit 4 (byte a AND 0x03) OR drop_bit 4 (byte b)) #
     base_char (push_bit 2 (byte b AND 0x0f) OR drop_bit 6 (byte c)) # base_char (byte c AND 0x3f) # base_text s"

text \<open>
  \<^verbatim>\<open>BaseEncode\<close> writes the text and a terminator from the start of the destination on, whose memory is \<open>mem\<close>, if the
  estimate of its length fits \<open>iDst\<close>.
\<close>

definition BaseEncode :: "string \<Rightarrow> int \<Rightarrow> string \<Rightarrow> (int \<times> string) cxx" where
  "BaseEncode src iDst mem =
     (let iSrc = int (length src) in
      bind_cxx (add_int ((iSrc + 3 - iSrc mod 3) * 4) 0) (\<lambda>n.
        if n div 3 + 1 > iDst then Inr (AD_FAILURE, mem)
        else bind_cxx (mem_write mem 0 (base_text src @ [CHR 0x00])) (\<lambda>mem.
          Inr (int (length (base_text src)), mem))))"

text \<open>
  The table has the value of every character of the alphabet. Its initializer \<^verbatim>\<open>{0x80}\<close> sets the first entry only, so
  every other character, not only the equal sign, has the value 0.
\<close>

definition index_of :: "char \<Rightarrow> string \<Rightarrow> nat option" where
  "index_of c s = map_option fst (find (\<lambda>(i, d). d = c) (zip [0..<length s] s))"

definition sTable :: "char \<Rightarrow> UCHAR" where
  "sTable c = (if c = CHR 0x00 then 0x80 else case index_of c sBase of None \<Rightarrow> 0 | Some i \<Rightarrow> of_nat i)"

text \<open>The decoding of four values into three bytes.\<close>

definition base_block :: "UCHAR \<Rightarrow> UCHAR \<Rightarrow> UCHAR \<Rightarrow> UCHAR \<Rightarrow> string" where
  "base_block a b c d = [byte_of (push_bit 2 a OR drop_bit 4 b), byte_of (push_bit 4 b OR drop_bit 2 c),
     byte_of (push_bit 6 c OR d)]"

fun base_blocks :: "string \<Rightarrow> string" where
  "base_blocks (a # b # c # d # s) = base_block (sTable a) (sTable b) (sTable c) (sTable d) @ base_blocks s"
| "base_blocks _ = []"

text \<open>
  The last block decides how many bytes are taken back. \<^verbatim>\<open>sIn\<close> starts as zeros, so without a block nothing is
  taken back.
\<close>

definition BaseDecode :: "string \<Rightarrow> int \<Rightarrow> string \<Rightarrow> (int \<times> string) cxx" where
  "BaseDecode src iDst mem =
     (let s = filter (\<lambda>c. sTable c \<noteq> 0x80) src; n = length s in
      if n mod 4 = 0 \<and> int (n div 4 * 3) \<le> iDst then
        bind_cxx (mem_write mem 0 (base_blocks s)) (\<lambda>mem.
          let k = (if n = 0 then 0 else if s ! (n - 2) = CHR ''='' then 2 else if s ! (n - 1) = CHR ''='' then 1 else 0)
          in Inr (int (length (base_blocks s)) - k, mem))
      else Inr (AD_FAILURE, mem))"

section \<open>URLs are read back\<close>

lemma FromHex_ToHex: "h < 16 \<Longrightarrow> FromHex g (ToHex h) = h"
  by (auto simp: FromHex_def ToHex_def Let_def take_bit_nat_eq_self)

lemma ToHex_alnum: "h < 16 \<Longrightarrow> isalnum (ToHex h)"
  by (auto simp: isalnum_def ToHex_def Let_def take_bit_nat_eq_self)

lemma of_char_less: "(of_char c :: nat) < 256"
  using nat_of_char_less_256 [of c] by simp

lemma of_char_div_less: "(of_char c :: nat) div 16 < 16"
  using of_char_less [of c] by linarith

lemma url_decode_char: "url_decode g (url_char c @ t) = c # url_decode g t"
proof -
  have "c \<noteq> CHR ''+'' \<and> c \<noteq> CHR 0x25" if "isalnum c \<or> c \<in> set ''-_.~''"
    using that by (auto simp: isalnum_def Let_def)
  then show ?thesis
    by (auto simp: url_char_def FromHex_ToHex of_char_div_less)
qed

lemma url_decode_encode: "url_decode g (concat (map url_char s)) = s"
  by (induction s) (simp_all add: url_decode_char)

lemma url_char_safe: "d \<in> set (url_char c) \<Longrightarrow> isalnum d \<or> d \<in> set ''-_.~+%''"
  by (auto simp: url_char_def ToHex_alnum of_char_div_less split: if_splits)

section \<open>Base64 is read back\<close>

lemma sTable_sBase: "list_all (\<lambda>i. sTable (sBase ! i) = of_nat i \<and> sBase ! i \<noteq> CHR ''='' \<and> sBase ! i \<noteq> CHR 0x00) [0..<64]"
  by code_simp

lemma sTable_base_char [simp]:
  assumes "unat w < 64"
  shows "sTable (base_char w) = w" "base_char w \<noteq> CHR ''=''" "base_char w \<noteq> CHR 0x00"
  using sTable_sBase assms by (auto simp: list_all_iff)

lemma sTable_pad [simp]: "sTable (CHR ''='') = 0"
  by code_simp

lemma byte_eqI:
  assumes "\<And>n. n = 0 \<or> n = 1 \<or> n = 2 \<or> n = 3 \<or> n = 4 \<or> n = 5 \<or> n = 6 \<or> n = 7 \<Longrightarrow> bit v n = bit w n"
  shows "v = (w :: UCHAR)"
proof (rule bit_word_eqI)
  fix n :: nat
  assume "n < LENGTH(8)"
  then have "n = 0 \<or> n = 1 \<or> n = 2 \<or> n = 3 \<or> n = 4 \<or> n = 5 \<or> n = 6 \<or> n = 7" by auto
  then show "bit v n = bit w n" by (rule assms)
qed

lemma unat_less_64: "unat w < 64" if "\<not> bit w 6" "\<not> bit w 7" for w :: UCHAR
proof -
  have w: "take_bit 6 w = w"
    by (rule byte_eqI, elim disjE) (use that in \<open>simp_all add: bit_simps\<close>)
  have "unat (take_bit 6 w) < 2 ^ 6"
    by (simp only: unsigned_take_bit_eq take_bit_nat_less_exp)
  then show ?thesis by (simp add: w)
qed

lemma base_bytes [simp]:
  "push_bit 2 (drop_bit 2 (a :: UCHAR)) OR drop_bit 4 (push_bit 4 (a AND 0x03)) = a"
  "push_bit 4 (drop_bit 4 a) OR drop_bit 2 (push_bit 2 (a AND 0x0f)) = a"
  "push_bit 6 (drop_bit 6 a) OR (a AND 0x3f) = a"
  by (rule byte_eqI, elim disjE; simp add: bit_simps)+

lemma base_values [simp]:
  "unat (drop_bit 2 (a :: UCHAR)) < 64" "unat (push_bit 4 (a AND 0x03)) < 64"
  "unat (push_bit 4 (a AND 0x03) OR drop_bit 4 b) < 64" "unat (push_bit 2 (b AND 0x0f)) < 64"
  "unat (push_bit 2 (b AND 0x0f) OR drop_bit 6 c) < 64" "unat (c AND 0x3f) < 64"
  by (rule unat_less_64; auto simp: bit_simps dest: bit_imp_le_length)+

lemma byte_of_byte [simp]: "byte_of (byte c) = c"
proof -
  have "byte c = of_nat (of_char c)" by (simp add: of_nat_of_char)
  then have "unat (byte c) = of_char c mod 256" by (simp only: unat_of_nat) simp
  then have "unat (byte c) = (of_char c :: nat)" using of_char_less [of c] by simp
  then show ?thesis by (simp add: byte_of_def)
qed

lemma byte_of_0 [simp]: "byte_of 0 = CHR 0x00"
  by code_simp

lemma mod_3_step [simp]: "Suc (Suc (Suc n)) mod 3 = n mod 3"
  by presburger

lemma base_blocks_text: "base_blocks (base_text s) = s @ replicate ((3 - length s mod 3) mod 3) CHR 0x00"
proof (induction s rule: base_text.induct)
  case (2 a)
  have "replicate ((3 - length [a] mod 3) mod 3) CHR 0x00 = [CHR 0x00, CHR 0x00]" by (simp add: numeral_2_eq_2)
  then show ?case by (simp add: base_block_def del: push_bit_and)
qed (simp_all add: base_block_def del: push_bit_and)

lemma base_text_length: "length (base_text s) = (length s + 2) div 3 * 4"
  by (induction s rule: base_text.induct) (simp_all, presburger)

lemma base_text_alphabet: "list_all (\<lambda>c. c \<in> set sBase \<or> c = CHR ''='') (base_text s)"
proof -
  have "base_char w \<in> set sBase" if "unat w < 64" for w
    using that by (intro nth_mem) (simp add: sBase_def)
  then show ?thesis
    by (induction s rule: base_text.induct) (simp_all del: push_bit_and)
qed

lemma nth_back_append:
  assumes "k \<le> length t" "0 < k"
  shows "(s @ t) ! (length (s @ t) - k) = t ! (length t - k)"
proof -
  have "length (s @ t) - k = length s + (length t - k)" using assms by simp
  then show ?thesis by (simp only: nth_append_length_plus)
qed

lemma base_text_nil [simp]: "base_text s = [] \<longleftrightarrow> s = []"
  by (cases s rule: base_text.cases) simp_all

lemma base_text_long: "s \<noteq> [] \<Longrightarrow> 4 \<le> length (base_text s)"
  by (cases s rule: base_text.cases) simp_all

lemma base_text_end:
  assumes "s \<noteq> []"
  shows "base_text s ! (length (base_text s) - 2) = CHR ''='' \<longleftrightarrow> length s mod 3 = 1"
    and "base_text s ! (length (base_text s) - 1) = CHR ''='' \<longleftrightarrow> length s mod 3 \<noteq> 0"
  using assms
proof (induction s rule: base_text.induct)
  case (4 a b c s)
  define x where "x = take 4 (base_text (a # b # c # s))"
  have x: "base_text (a # b # c # s) = x @ base_text s" by (simp add: x_def)
  case 1
  show ?case
  proof (cases "s = []")
    case False
    then show ?thesis
      using 4(1) base_text_long [OF False] by (simp add: x nth_back_append del: length_append base_text.simps)
  qed (simp del: push_bit_and)
  case 2
  show ?case
  proof (cases "s = []")
    case False
    then show ?thesis
      using 4(2) base_text_long [OF False] nth_back_append [of 1 "base_text s" x]
      by (simp add: x del: length_append base_text.simps)
  qed (simp del: push_bit_and)
qed (simp_all del: push_bit_and)

lemma base_text_kept: "filter (\<lambda>c. sTable c \<noteq> 0x80) (base_text s) = base_text s"
proof -
  have kept: "list_all (\<lambda>c. sTable c \<noteq> 0x80) (CHR ''='' # sBase)" by code_simp
  have "\<forall>c \<in> set (base_text s). sTable c \<noteq> 0x80"
    using base_text_alphabet [of s] kept by (auto simp: list_all_iff)
  then show ?thesis by (simp add: filter_True)
qed

lemma BaseEncode_ok:
  assumes "BaseEncode src iDst mem = Inr (n, mem')" "n \<noteq> AD_FAILURE"
  shows "n = int (length (base_text src))" "n < iDst" "mem_write mem 0 (base_text src @ [CHR 0x00]) = Inr mem'"
proof -
  have a: "\<not> (int (length src) + 3 - int (length src) mod 3) * 4 div 3 + 1 > iDst"
    and n: "n = int (length (base_text src))"
    and w: "mem_write mem 0 (base_text src @ [CHR 0x00]) = Inr mem'"
    using assms by (auto simp: BaseEncode_def Let_def add_int_def bind_cxx_Inr_iff split: if_splits)
  show "n = int (length (base_text src))" "mem_write mem 0 (base_text src @ [CHR 0x00]) = Inr mem'" by (fact n w)+
  have "int ((length src + 2) div 3 * 4) \<le> (int (length src) + 3 - int (length src) mod 3) * 4 div 3"
    by presburger
  then show "n < iDst" using a n by (simp add: base_text_length)
qed

text \<open>
  What \<^verbatim>\<open>UrlEncode\<close> writes of a text consists of letters, digits and the characters \<open>-_.~+%\<close> only, and \<^verbatim>\<open>UrlDecode\<close> gives
  the text back, whatever bytes it holds.
\<close>

theorem url_roundtrip:
  "list_all (\<lambda>c. isalnum c \<or> c \<in> set ''-_.~+%'') (UrlEncode s []) \<and> UrlDecode g (UrlEncode s []) [] = s"
  using url_char_safe by (auto simp: list_all_iff UrlEncode_def UrlDecode_def url_decode_encode)

lemma pad_3: "(n + 2 :: nat) div 3 * 3 = n + (3 - n mod 3) mod 3"
proof -
  have "n mod 3 = 0 \<or> n mod 3 = 1 \<or> n mod 3 = 2" by presburger
  then show ?thesis
  proof (elim disjE)
    assume "n mod 3 = 0"
    then show ?thesis by simp presburger
  next
    assume "n mod 3 = 1"
    then show ?thesis by simp presburger
  next
    assume "n mod 3 = 2"
    then show ?thesis by simp presburger
  qed
qed

lemma pad_cases: "(3 - n mod 3 :: nat) mod 3 = (if n mod 3 = 1 then 2 else if n mod 3 \<noteq> 0 then 1 else (0 :: nat))"
proof -
  have "n mod 3 = 0 \<or> n mod 3 = 1 \<or> n mod 3 = 2" by presburger
  then show ?thesis by auto
qed

text \<open>
  C18. If \<^verbatim>\<open>BaseEncode\<close> does not fail, its text and the terminator lie within the \<open>iDst\<close> bytes of the destination, nothing behind
  them changes, and \<^verbatim>\<open>BaseDecode\<close> into any buffer large enough writes the encoded bytes and returns their number.
\<close>

theorem base64_roundtrip:
  assumes "BaseEncode src iDst mem = Inr (n, mem')" "n \<noteq> AD_FAILURE"
    and "n div 4 * 3 \<le> iDst'" "iDst' \<le> int (length mem1)"
  shows "n < iDst \<and> drop (nat n + 1) mem' = drop (nat n + 1) mem \<and>
    (\<exists>mem2. BaseDecode (take (nat n) mem') iDst' mem1 = Inr (int (length src), mem2) \<and> take (length src) mem2 = src)"
proof -
  note ok = BaseEncode_ok [OF assms(1,2)]
  define k where "k = (3 - length src mod 3) mod 3"
  have enc: "take (nat n) mem' = base_text src" and rest: "drop (nat n + 1) mem' = drop (nat n + 1) mem"
    using ok(1,3) by (auto simp: mem_write_def split: if_splits)
  define m where "m = (length src + 2) div 3"
  have m: "m * 3 = length src + k" unfolding m_def k_def by (rule pad_3)
  have chars: "length (base_text src) = m * 4" by (simp add: base_text_length m_def)
  have bytes: "base_blocks (base_text src) = src @ replicate k CHR 0x00" by (simp only: base_blocks_text k_def)
  have n: "n = int (m * 4)" "n div 4 * 3 = int (length src + k)" using ok(1) chars m by simp_all
  then have "length src + k \<le> length mem1" using assms(3,4) by simp
  then obtain mem2 where mem2: "mem_write mem1 0 (src @ replicate k CHR 0x00) = Inr mem2" "take (length src) mem2 = src"
    by (simp add: mem_write_def)
  have cut: "(if m * 4 = 0 then 0 else if base_text src ! (m * 4 - 2) = CHR ''='' then 2
      else if base_text src ! (m * 4 - 1) = CHR ''='' then 1 else 0) = int k"
  proof (cases "src = []")
    case False
    then have "m \<noteq> 0" using base_text_long chars by fastforce
    then show ?thesis unfolding k_def pad_cases using base_text_end [OF False] chars by simp
  qed (simp add: k_def m_def)
  have fits: "int (m * 4 div 4 * 3) \<le> iDst'" using assms(3) n by simp
  have "BaseDecode (take (nat n) mem') iDst' mem1 = Inr (int (length src), mem2)"
    unfolding BaseDecode_def enc base_text_kept Let_def chars bytes cut using mem2(1) fits by simp
  then show ?thesis using ok(2) rest mem2(2) by blast
qed

theorem base64_roundtrip_witness:
  "\<exists>mem2. BaseDecode ''Wm9v'' 8 (replicate 8 CHR 0x00) = Inr (3, mem2) \<and> take (length ''Zoo'') mem2 = ''Zoo''"
proof -
  have "BaseEncode ''Zoo'' 9 (replicate 9 CHR 0x00) = Inr (4, ''Wm9v'' @ replicate 5 CHR 0x00)" by code_simp
  from base64_roundtrip [OF this, of 8 "replicate 8 CHR 0x00"] show ?thesis by (simp add: AD_FAILURE_def)
qed

end
