(* ===== verification/AdProtocolBase.thy ===== *)
theory AdProtocolBase
  imports AdCoding AdAcbm AdRtbBase AdHttp
begin

text \<open>
  What the exchange protocols share: the parameter object of a request (\<^verbatim>\<open>inc/AdProtocolBase.h\<close>), the parser of user agents
  (\<^verbatim>\<open>inc/AdUaParser.h\<close>), and the texts of the base class that the responses are made of. \<^verbatim>\<open>time(NULL)\<close> is an argument
  \<open>now\<close>, and so is the content of arrays that are not initialised. The fields of \<^verbatim>\<open>AdAdapterPara\<close> that share their name with
  a field of the request have the prefix \<open>m_pa_\<close>. A private object is a value of a type of the protocol; sessions and methods
  are named by numbers.
\<close>

section \<open>The parameter object\<close>

definition AD_MSG_TYPE_REQUEST :: nat where "AD_MSG_TYPE_REQUEST = 1"
definition AD_MSG_TYPE_RESPONSE :: nat where "AD_MSG_TYPE_RESPONSE = 2"
definition AD_MSG_TYPE_REQUEST_BIDDING :: nat where "AD_MSG_TYPE_REQUEST_BIDDING = 3"

record AdLogMsg =
  m_iLength :: int
  m_ucType :: nat
  m_uMsg :: string

text \<open>\<^verbatim>\<open>clear\<close> leaves the message bytes.\<close>

definition logmsg_clear :: "AdLogMsg \<Rightarrow> AdLogMsg" where
  "logmsg_clear m = m\<lparr>m_iLength := AD_FAILURE, m_ucType := 0\<rparr>"

record 'p AdAdapterPara =
  m_pCacheIn :: "AdCache option"
  m_ctCacheOut :: AdCache
  m_pBody :: "string option"
  m_iBody :: int
  m_ctCacheReq :: AdLogMsg
  m_ctCacheRes :: AdLogMsg
  m_ctRequest :: AdRtbRequest
  m_ctResponse :: AdRtbResponse
  m_sVer :: string
  m_sImpression :: string
  m_pa_sIDFA :: string
  m_pPrivate :: "'p option"
  m_pSrcSession :: "nat option"
  m_pDstSession :: "nat option"
  m_pAdxMethod :: "nat option"
  m_bDebugUser :: bool
  m_bTimeout :: bool

definition para_clear :: "Time \<Rightarrow> 'p AdAdapterPara \<Rightarrow> 'p AdAdapterPara" where
  "para_clear now p =
     \<lparr>m_pCacheIn = None, m_ctCacheOut = cache_Clear (m_ctCacheOut p), m_pBody = None, m_iBody = 0,
      m_ctCacheReq = logmsg_clear (m_ctCacheReq p), m_ctCacheRes = logmsg_clear (m_ctCacheRes p),
      m_ctRequest = clear_request now, m_ctResponse = clear_response, m_sVer = [], m_sImpression = [],
      m_pa_sIDFA = [], m_pPrivate = None, m_pSrcSession = None, m_pDstSession = None, m_pAdxMethod = None,
      m_bDebugUser = False, m_bTimeout = False\<rparr>"

text \<open>The updates of the request and of the response inside the parameter object.\<close>

abbreviation on_request :: "(AdRtbRequest \<Rightarrow> AdRtbRequest) \<Rightarrow> 'p AdAdapterPara \<Rightarrow> 'p AdAdapterPara" where
  "on_request f p \<equiv> p\<lparr>m_ctRequest := f (m_ctRequest p)\<rparr>"

abbreviation on_response :: "(AdRtbResponse \<Rightarrow> AdRtbResponse) \<Rightarrow> 'p AdAdapterPara \<Rightarrow> 'p AdAdapterPara" where
  "on_response f p \<equiv> p\<lparr>m_ctResponse := f (m_ctResponse p)\<rparr>"

section \<open>User agents\<close>

definition AD_UA_DEF_OTHER :: nat where
  "AD_UA_DEF_OTHER = 20"

text \<open>The map of the constructor, in the order of its keys.\<close>

definition ua_names :: "(string \<times> nat) list" where
  "ua_names = [(''360SE'', 3), (''Chrome'', 4), (''Edge'', 2), (''Firefox'', 5), (''LBBROWSER'', 9), (''MSIE'', 1),
     (''Maxthon'', 7), (''QQBrowser'', 8), (''Safari'', 6)]"

definition AdUserAgentParser :: "(char \<Rightarrow> int) \<Rightarrow> nat AdAcbmTree" where
  "AdUserAgentParser bc = acbm_build bc ua_names"

definition ua_parse :: "nat AdAcbmTree \<Rightarrow> string \<Rightarrow> nat acbm_matches \<Rightarrow> (int \<times> nat acbm_matches) cxx" where
  "ua_parse ac ua mResult =
     bind_cxx (AdAcbmSearch ac ua mResult) (\<lambda>(ret, mResult).
       Inr (ret, if ret = 0 then smap_upd AD_UA_DEF_OTHER [] mResult else mResult))"

definition AdUaParser :: "nat AdAcbmTree \<Rightarrow> 'p AdAdapterPara \<Rightarrow> (int \<times> 'p AdAdapterPara) cxx" where
  "AdUaParser ac pPara =
     bind_cxx (ua_parse ac (m_sUserAgent (m_ctRequest pPara)) []) (\<lambda>(ret, mResult).
       if mResult \<noteq> [] then
         Inr (AD_SUCCESS, on_request (\<lambda>r. r\<lparr>m_ltUalist := m_ltUalist r @ map (\<lambda>(i, _). fmt_d (of_nat i)) mResult\<rparr>) pPara)
       else Inr (AD_FAILURE, pPara))"

section \<open>Optional fields\<close>

text \<open>A field of a message that is set if it is there.\<close>

definition opt_set :: "'a option \<Rightarrow> ('a \<Rightarrow> 's \<Rightarrow> 's) \<Rightarrow> 's \<Rightarrow> 's" where
  "opt_set v f s = (case v of None \<Rightarrow> s | Some x \<Rightarrow> f x s)"

section \<open>The user id\<close>

definition CheckUserId :: "'p AdAdapterPara \<Rightarrow> int \<times> 'p AdAdapterPara" where
  "CheckUserId pPara =
     (let r = m_ctRequest pPara;
          set_id = (\<lambda>s. (AD_SUCCESS, on_request (\<lambda>r. r\<lparr>m_sUserID := s\<rparr>) pPara));
          rest = (if m_sUserID r = [] then
                    (if m_sUserIP r \<noteq> [] then set_id (m_sUserIP r) else (AD_FAILURE, pPara))
                  else (AD_SUCCESS, pPara))
      in if atoi (c_str (m_sFlow r)) = 2 then
           (if m_sIDFA r \<noteq> [] then set_id (m_sIDFA r)
            else if m_sIMEI r \<noteq> [] then set_id (m_sIMEI r)
            else if m_sAndroidID r \<noteq> [] then set_id (m_sAndroidID r)
            else if m_sUserIP r \<noteq> [] then set_id (m_sUserIP r)
            else rest)
         else rest)"

section \<open>Formats\<close>

text \<open>\<^verbatim>\<open>%s\<close> and \<^verbatim>\<open>%d\<close> are replaced by the next argument, the text of a number being given; \<open>%%\<close> is one percent sign.\<close>

fun printf :: "string \<Rightarrow> string list \<Rightarrow> string" where
  "printf [] args = []"
| "printf [c] args = [c]"
| "printf (c # d # f) args =
     (if c = CHR ''%'' \<and> d = CHR ''%'' then CHR ''%'' # printf f args
      else if c = CHR ''%'' \<and> (d = CHR ''s'' \<or> d = CHR ''d'') \<and> args \<noteq> [] then c_str (hd args) @ printf f (tl args)
      else c # printf (d # f) args)"

text \<open>The C string at the start of an array; without a terminator the read leaves the array.\<close>

definition buf_text :: "string \<Rightarrow> string cxx" where
  "buf_text mem = (if CHR 0x00 \<in> set mem then Inr (c_str mem) else Inl OutOfBounds)"

section \<open>The parameters of a click and of a show\<close>

definition GetClickPara :: "AdRtbResponse \<Rightarrow> string \<Rightarrow> string" where
  "GetClickPara pRes sPara =
     UrlEncode (snprintf 1024 (printf ''%s,%s,%s,%d,%s,%s,%s,%s''
       [m_r_sBidID pRes, m_r_sAdvertiserId pRes, m_r_sExecID pRes, fmt_d (m_r_uiAdx pRes), m_r_sPId pRes, m_r_sArea pRes,
        m_r_sCreativeID pRes, m_r_sHotKey pRes])) sPara"

definition AD_SHOW_INFO :: string where
  "AD_SHOW_INFO = join_with [CHR 0x09] [''time:%s'', ''area:%s'', ''tag_cr:%s'', ''tag_kw:%s'', ''hot_key:%s'', ''size:%s'',
     ''adverID:%s'', ''executeID:%s'', ''creativeID:%s'', ''cgroupID:%s'', ''materialID:%s'', ''tID:%s'', ''requestID:%s'',
     ''unionID:%d'', ''bidding_price:%s'', ''res_equip_id:%s'', ''pID:%s'', ''target_price:%s'', ''billing_mode:%s'', ''os:%s'',
     ''idfa:%s'']"

text \<open>The trailing equal signs are replaced by terminators; the first character stays.\<close>

fun strip_pad :: "nat \<Rightarrow> string \<Rightarrow> string" where
  "strip_pad 0 mem = mem"
| "strip_pad (Suc i) mem =
     (if mem ! i = CHR ''='' then (if i = 0 then mem else strip_pad i (mem[i := CHR 0x00])) else mem)"

definition show_info :: "nat \<Rightarrow> 'p AdAdapterPara \<Rightarrow> string" where
  "show_info now pPara =
     (let pRes = m_ctResponse pPara in
      snprintf 2048 (printf AD_SHOW_INFO
       [digits10 now, m_r_sArea pRes, m_r_sHotTag pRes, m_r_sKeyWord pRes, m_r_sHotKey pRes, m_r_sSize pRes,
        m_r_sAdvertiserId pRes, m_r_sExecID pRes, m_r_sCreativeID pRes, m_r_sCreateGID pRes, m_r_sMaterialID pRes,
        m_r_sUserID pRes, m_r_sBidID pRes, fmt_d (m_r_uiAdx pRes), m_r_sMaxPrice pRes, m_r_sRegion pRes, m_r_sPId pRes,
        m_r_sTargetPrice pRes, m_r_sTargetPriceType pRes, m_r_sDevType pRes, m_sIDFA (m_ctRequest pPara)]))"

definition GetShowInfo :: "nat \<Rightarrow> 'p AdAdapterPara \<Rightarrow> string \<Rightarrow> int \<Rightarrow> string cxx" where
  "GetShowInfo now pPara pBuf iBuf =
     bind_cxx (BaseEncode (show_info now pPara) iBuf pBuf) (\<lambda>(iVal, pBuf).
       Inr (if iVal > 0 then strip_pad (nat iVal) pBuf else pBuf))"

text \<open>
  \<open>sVal\<close> is the content of the array of the caller, in which \<^verbatim>\<open>GetShowInfo\<close> writes. \<open>now'\<close> is the earlier, \<open>now\<close> the later reading
  of the clock.
\<close>

definition GetShowPara :: "nat \<Rightarrow> nat \<Rightarrow> string \<Rightarrow> 'p AdAdapterPara \<Rightarrow> nat \<Rightarrow> string cxx" where
  "GetShowPara now' now sVal pPara iBuf =
     (let pRes = m_ctResponse pPara in
      bind_cxx (GetShowInfo now pPara sVal 2048) (\<lambda>sVal.
        bind_cxx (buf_text sVal) (\<lambda>info.
          Inr (snprintf iBuf (printf ''tp=%d&adx=%d&aid=%s&eid=%s&cid=%s&bid=%s&info=%s&tm=%s''
            [''1'', fmt_d (m_r_uiAdx pRes), m_r_sAdvertiserId pRes, m_r_sExecID pRes, m_r_sCreativeID pRes, m_r_sBidID pRes,
             info, digits10 now'])))))"

section \<open>The snippets\<close>

definition AD_HTML_SNIP :: string where
  "AD_HTML_SNIP = ''<iframe width=\"%s\" height=\"%s\" frameborder=\"0\" scrolling=\"no\" src=\"%s?%s&gc=%s&pid=%s&%s\"></iframe><img src=\"%s&\"/>''"

definition AD_HTML_SNIP_NO_EXTEND :: string where
  "AD_HTML_SNIP_NO_EXTEND = ''<iframe width=\"%s\" height=\"%s\" frameborder=\"0\" scrolling=\"no\" src=\"%s?%s&gc=%s&pid=%s\"></iframe><img src=\"%s&\"/>''"

definition AD_SCRIPT_SNIP :: string where
  "AD_SCRIPT_SNIP = ''<style type=\"text/css\">*{margin:0px; padding:0px;}</style><script type=\"text/javascript\"> document.write('<iframe width=\"%s\" height=\"%s\" frameborder=\"0\" scrolling=\"no\" src=\"%s?%s&gc=%s&pid=%s&%s&bdclick='+encodeURIComponent(\"%s\") +'\"></iframe>');</script>''"

text \<open>The result, and what is written to the buffer, if anything is.\<close>

definition GetShowHtml ::
    "nat \<Rightarrow> nat \<Rightarrow> string \<Rightarrow> 'p AdAdapterPara \<Rightarrow> string \<Rightarrow> string \<Rightarrow> nat \<Rightarrow> (int \<times> string option) cxx" where
  "GetShowHtml now' now sVal pPara sExtStr sImage iBuf =
     bind_cxx (GetShowPara now' now sVal pPara 2048) (\<lambda>sShowPara.
       let pRes = m_ctResponse pPara; sClickPara = GetClickPara pRes [] in
       case split_fields (m_r_sSize pRes) ''x'' of
         [w, h] \<Rightarrow>
           Inr (AD_SUCCESS, Some (snprintf iBuf
             (if sExtStr = [] then
                printf AD_HTML_SNIP_NO_EXTEND [w, h, m_r_sHtml pRes, sShowPara, sClickPara, sClickPara, sImage]
              else
                printf AD_HTML_SNIP [w, h, m_r_sHtml pRes, sShowPara, sClickPara, sClickPara, sExtStr, sImage])))
       | _ \<Rightarrow> Inr (AD_FAILURE, None))"

definition GetScriptHtml ::
    "nat \<Rightarrow> nat \<Rightarrow> string \<Rightarrow> 'p AdAdapterPara \<Rightarrow> string \<Rightarrow> string \<Rightarrow> nat \<Rightarrow> (int \<times> string option) cxx" where
  "GetScriptHtml now' now sVal pPara sExtStr clickmacro iBuf =
     bind_cxx (GetShowPara now' now sVal pPara 2048) (\<lambda>sShowPara.
       let pRes = m_ctResponse pPara; sClickPara = GetClickPara pRes [] in
       case split_fields (m_r_sSize pRes) ''x'' of
         [w, h] \<Rightarrow>
           Inr (AD_SUCCESS,
             if sExtStr = [] then None
             else Some (snprintf iBuf
               (printf AD_SCRIPT_SNIP [w, h, m_r_sHtml pRes, sShowPara, sClickPara, sClickPara, sExtStr, clickmacro])))
       | _ \<Rightarrow> Inr (AD_FAILURE, None))"

section \<open>The host of a page\<close>

text \<open>The name of a host and of the domains it is in, without the last one.\<close>

fun page_domains :: "string list \<Rightarrow> string list" where
  "page_domains (a # b # r) = join_with ''.'' (a # b # r) # page_domains (b # r)"
| "page_domains _ = []"

definition AdPageUrlParse :: "string \<Rightarrow> string list \<Rightarrow> string list" where
  "AdPageUrlParse sSrc vStr =
     (case split_fields sSrc ''//'' of
        _ # sTemp # _ \<Rightarrow>
          (case split_fields sTemp ''/'' of
             [] \<Rightarrow> vStr
           | sTemp # _ \<Rightarrow>
               (case split_fields sTemp ''?'' of
                  [] \<Rightarrow> vStr
                | sTemp # _ \<Rightarrow> vStr @ page_domains (split_fields sTemp ''.'')))
      | _ \<Rightarrow> vStr)"

section \<open>Snippets with a script\<close>

definition material_type :: "string \<Rightarrow> string" where
  "material_type sMaterailFormat =
     (let iFormat = atoi (c_str sMaterailFormat) in
      if iFormat = 4 then ''mv'' else if iFormat = 5 then ''flash'' else ''img'')"

definition AD_JS_URL :: string where
  "AD_JS_URL = ''http://material.istreamsche.com/aittp.js''"

definition AD_SINP :: string where
  "AD_SINP = ''<!DOCTYPE html><html><head><meta http-equiv=\"Content-Type\" content=\"text/html; charset=utf-8\" /><style type=\"text/css\">* { margin: 0; padding: 0; border: 0; }</style><script type=\"text/javascript\" src=\"%s\"></script></head><body><script type=\"text/javascript\">var _d = {\"tpType\": \"%s\",\"v\":\"1.0.0\",\"mUrl\": \"%s\",\"cu\": \"%s\",\"su\": \"%s\",\"cmu\": \"%s\",\"s3u\": \"%s\",\"w\": \"%s\",\"h\": \"%s\",\"lImg\": \"http://material.istreamsche.com/logo/a_2.png\",\"lhImg\": \"http://material.istreamsche.com/logo/b_2.png\",\"lpst\": \"rb\",\"lUrl\": \"http://aitou.geotmt.com/un/reg/form\"};aittp.adHandler(_d);</script></body></html>''"

text \<open>The show URL and the click URL of an exchange; both arrays start as empty texts.\<close>

definition snippet_urls :: "'p AdAdapterPara \<Rightarrow> string \<Rightarrow> string \<Rightarrow> string \<Rightarrow> string \<times> string" where
  "snippet_urls pPara price_macro sShowPara sClickPara =
     (let adx = m_uiAdx (m_ctRequest pPara) in
      if adx = 15 then
        (snprintf 2048 (printf ''http://lg.istreamsche.com/ggshow?p=%s&%s'' [price_macro, sShowPara]),
         snprintf 2048 (printf ''http://lg.istreamsche.com/ggclick?gc=%s&%s'' [sClickPara, sShowPara]))
      else if adx = 10 then
        (snprintf 2048 (printf ''http://inmolog.istreamsche.com/inmoshow?p=%s&%s'' [price_macro, sShowPara]),
         snprintf 2048 (printf ''http://inmolog.istreamsche.com/inmoclick?gc=%s&%s&url=%s''
           [sClickPara, sShowPara, m_r_sClickUrl (m_ctResponse pPara)]))
      else if adx = 6 then
        (snprintf 2048 (printf ''http://lg.istreamsche.com/besshow?p=%s&%s'' [price_macro, sShowPara]), [])
      else ([], []))"

text \<open>The first monitor URL is read without a look at the size of the list.\<close>

definition GenerateSinppet ::
    "nat \<Rightarrow> nat \<Rightarrow> string \<Rightarrow> 'p AdAdapterPara \<Rightarrow> string \<Rightarrow> string \<Rightarrow> string \<Rightarrow> nat \<Rightarrow> (int \<times> string) cxx" where
  "GenerateSinppet now' now sVal pPara cmurl price_macro click_macro iBuf =
     bind_cxx (GetShowPara now' now sVal pPara 2048) (\<lambda>sShowPara.
       let pRes = m_ctResponse pPara; sClickPara = GetClickPara pRes [];
           (sShowUrl, sAdClickUrl) = snippet_urls pPara price_macro sShowPara sClickPara;
           sClickUrlRes = (if click_macro \<noteq> [] then click_macro @ UrlEncode sAdClickUrl [] else sAdClickUrl)
       in case m_r_ltMonitorUrl pRes of
         [] \<Rightarrow> Inl OutOfBounds
       | monitor # _ \<Rightarrow>
           Inr (AD_SUCCESS, snprintf iBuf (printf AD_SINP
             [AD_JS_URL, material_type (m_r_sMaterailFormat pRes), m_r_sHtml pRes, sClickUrlRes, sShowUrl, cmurl, monitor,
              m_r_sWidth pRes, m_r_sHeight pRes])))"

definition GenerateVastVedio :: "nat \<Rightarrow> nat \<Rightarrow> string \<Rightarrow> nat \<Rightarrow> 'p AdAdapterPara \<Rightarrow> string \<Rightarrow> string \<Rightarrow> (int \<times> string) cxx" where
  "GenerateVastVedio now' now sVal iBuf pPara price_macro click_macro =
     (let pRes = m_ctResponse pPara in
      bind_cxx (GetShowInfo now pPara sVal 2048) (\<lambda>sVal.
        bind_cxx (buf_text sVal) (\<lambda>info.
          Inr (AD_SUCCESS, snprintf iBuf (printf
            ''http://lg.istreamsche.com/vedio?p=%s&adx=%d&aid=%s&eid=%s&dura=%s&format=%s&w=%s&h=%s&tm=%s&clickmacro=%s&material=%s&desurl=%s&monitorurl=%s&info=%s''
            [price_macro, fmt_d (m_r_uiAdx pRes), m_r_sAdvertiserId pRes, m_r_sExecID pRes, m_r_sDuration pRes,
             m_r_sMaterailFormat pRes, m_r_sWidth pRes, m_r_sHeight pRes, digits10 now', click_macro,
             UrlEncode (m_r_sHtml pRes) [], m_r_sClickUrl pRes,
             (case m_r_ltMonitorUrl pRes of [] \<Rightarrow> [] | u # _ \<Rightarrow> UrlEncode u []), info])))))"

section \<open>Responses\<close>

definition http_head :: "string \<Rightarrow> string list \<Rightarrow> string" where
  "http_head status heads = status @ crlf @ concat (map (\<lambda>f. f @ crlf) heads) @ crlf"

definition AD_HTTP200_JSON :: string where
  "AD_HTTP200_JSON = http_head ''HTTP/1.0 200 OK'' [''Content-Length: %d'', ''Content-Type: application/json; charset=UTF-8'',
     ''Server: TornadoServer/2.2'']"

definition AD_HTTP200 :: string where
  "AD_HTTP200 = http_head ''HTTP/1.0 200 OK'' [''Content-Length: %d'', ''Content-Type: text/html; charset=UTF-8'',
     ''Server: TornadoServer/2.2'']"

definition AD_HTTP200_OCT :: string where
  "AD_HTTP200_OCT = http_head ''HTTP/1.0 200 OK'' [''Content-Length: %d'',
     ''Content-Type: application/octet-stream; charset=UTF-8'', ''Server: AitouServer/2.2'']"

definition AD_HTTP204 :: string where
  "AD_HTTP204 = http_head ''HTTP/1.0 204 No Content'' [''Content-Length: %d'',
     ''Content-Type: application/json; charset=UTF-8'', ''Server: TornadoServer/2.2'']"

text \<open>The end of all answers: the head and the body are written to the output cache; \<open>iHead\<close> is the size of the head's array.\<close>

definition write_answer :: "nat \<Rightarrow> string \<Rightarrow> string \<Rightarrow> 'p AdAdapterPara \<Rightarrow> (int \<times> 'p AdAdapterPara) cxx" where
  "write_answer iHead format body pPara =
     (let sHead = snprintf iHead (printf format [fmt_d (of_nat (length body))]) in
      bind_cxx (cache_Write sHead (int (length sHead)) (m_ctCacheOut pPara)) (\<lambda>(ret, out).
        if ret \<noteq> AD_SUCCESS then Inr (AD_FAILURE, pPara\<lparr>m_ctCacheOut := out\<rparr>)
        else bind_cxx (cache_Append body (int (length body)) out) (\<lambda>(ret, out).
          Inr (if ret \<noteq> AD_SUCCESS then AD_FAILURE else AD_SUCCESS, pPara\<lparr>m_ctCacheOut := out\<rparr>))))"

end
