(* ===== verification/AdAdapterMethod.thy ===== *)
theory AdAdapterMethod
  imports AdProtocolBase AdBuff AdRtbConfig AdRedisCli
begin

text \<open>
  The parts of the adapter that a request passes before it is handed to a bidder: the shared libraries with the protocols
  (\<^verbatim>\<open>libutil/inc/AdSharedLib.h\<close>), the choice of a protocol by the address of a request (\<^verbatim>\<open>adapter/AdAdapterMethod.cpp\<close>), the ban
  list (\<^verbatim>\<open>adapter/AdAdpFilterBan.cpp\<close>) and the queues to the log processes (\<^verbatim>\<open>libcommon/src/AdProcessMsg.cpp\<close>). The dynamic
  linker, Redis and the message queues of the kernel are arguments. Objects of a library are named by numbers.
\<close>

section \<open>Shared libraries\<close>

text \<open>
  \<^verbatim>\<open>dlopen\<close> gives a handle, \<^verbatim>\<open>dlsym\<close> tells whether \<^verbatim>\<open>SharedLibInit\<close> is exported, and a call of it makes an object.
\<close>

record dynlib =
  dl_open :: "string \<Rightarrow> nat option"
  dl_sym :: "nat \<Rightarrow> bool"
  dl_init :: "nat \<Rightarrow> nat option"

record AdSharedLib =
  m_ctRequests :: "(UINT \<times> nat) list AdPingPongBuffer"
  m_mShareLib :: "(UINT \<times> nat) list"
  m_bPingPong :: bool

definition AdSharedLib_new :: AdSharedLib where
  "AdSharedLib_new = \<lparr>m_ctRequests = pp_new [], m_mShareLib = [], m_bPingPong = False\<rparr>"

text \<open>The objects that are deleted and the library afterwards.\<close>

definition lib_Clear :: "bool \<Rightarrow> AdSharedLib \<Rightarrow> nat list \<times> AdSharedLib" where
  "lib_Clear bDel l =
     (let mRequest = pp_Get (m_bPingPong l) (m_ctRequests l) in
      (if bDel then map snd mRequest else [], l\<lparr>m_ctRequests := pp_set (m_bPingPong l) (\<lambda>_. []) (m_ctRequests l)\<rparr>))"

definition lib_Switch :: "AdSharedLib \<Rightarrow> AdSharedLib" where
  "lib_Switch l = l\<lparr>m_ctRequests := pp_Switch (m_ctRequests l)\<rparr>"

definition lib_Close :: "bool \<Rightarrow> AdSharedLib \<Rightarrow> nat list \<times> AdSharedLib" where
  "lib_Close bDel l =
     (let (del1, l) = lib_Clear bDel l; (del2, l) = lib_Clear bDel (lib_Switch l) in (del1 @ del2, l\<lparr>m_mShareLib := []\<rparr>))"

definition lib_Open :: "dynlib \<Rightarrow> UINT \<Rightarrow> string \<Rightarrow> bool \<Rightarrow> AdSharedLib \<Rightarrow> int \<times> AdSharedLib" where
  "lib_Open dl nId sShareLibFile bPingPong l =
     (case dl_open dl (c_str sShareLibFile) of
        None \<Rightarrow> (AD_FAILURE, l)
      | Some handle \<Rightarrow>
          if \<not> dl_sym dl handle then (AD_FAILURE, l)
          else
            (case dl_init dl handle of
               None \<Rightarrow> (AD_FAILURE, l)
             | Some ctReq \<Rightarrow>
                 let l = l\<lparr>m_ctRequests := pp_set False (smap_upd nId ctReq) (m_ctRequests l),
                           m_mShareLib := smap_upd nId handle (m_mShareLib l), m_bPingPong := bPingPong\<rparr>
                 in if bPingPong then
                      (case dl_init dl handle of
                         None \<Rightarrow> (AD_FAILURE, l)
                       | Some ctReq \<Rightarrow> (AD_SUCCESS, l\<lparr>m_ctRequests := pp_set True (smap_upd nId ctReq) (m_ctRequests l)\<rparr>))
                    else (AD_SUCCESS, l)))"

definition lib_Get :: "UINT \<Rightarrow> AdSharedLib \<Rightarrow> nat option" where
  "lib_Get nId l = map_of (pp_Get False (m_ctRequests l)) nId"

section \<open>The protocol of a request\<close>

record AdAdapterMethod =
  m_mUriAdx :: "(string \<times> UINT) list"
  m_mHostAdx :: "(string \<times> UINT) list"
  m_ctProMethod :: AdSharedLib

definition AdAdapterMethod_new :: AdAdapterMethod where
  "AdAdapterMethod_new = \<lparr>m_mUriAdx = [], m_mHostAdx = [], m_ctProMethod = AdSharedLib_new\<rparr>"

definition method_uri :: "AdCache \<Rightarrow> string option cxx" where
  "method_uri c =
     bind_cxx (GetPostUri c) (\<lambda>r. case r of Some str \<Rightarrow> Inr (Some str) | None \<Rightarrow> GetGetUri c)"

definition method_adx :: "AdAdapterMethod \<Rightarrow> AdCache \<Rightarrow> string \<Rightarrow> UINT option cxx" where
  "method_adx m c str =
     (case map_of (m_mUriAdx m) str of
        Some adx \<Rightarrow> Inr (Some adx)
      | None \<Rightarrow>
          bind_cxx (GetHost c) (\<lambda>r. case r of None \<Rightarrow> Inr None | Some str \<Rightarrow> Inr (map_of (m_mHostAdx m) str)))"

definition method_Get :: "AdAdapterMethod \<Rightarrow> 'p AdAdapterPara \<Rightarrow> (int \<times> 'p AdAdapterPara) cxx" where
  "method_Get m ctPara =
     (case m_pCacheIn ctPara of
        None \<Rightarrow> Inl NullPointer
      | Some c \<Rightarrow>
          bind_cxx (method_uri c) (\<lambda>r. case r of
            None \<Rightarrow> Inr (AD_FAILURE, ctPara)
          | Some str \<Rightarrow>
          bind_cxx (method_adx m c str) (\<lambda>r. case r of
            None \<Rightarrow> Inr (AD_FAILURE, ctPara)
          | Some adx \<Rightarrow>
              (let p = on_request (\<lambda>r. r\<lparr>m_uiAdx := adx\<rparr>) ctPara in
               case lib_Get adx (m_ctProMethod m) of
                 None \<Rightarrow> Inr (AD_FAILURE, p)
               | Some pTrans \<Rightarrow>
                   let p = p\<lparr>m_pAdxMethod := Some pTrans\<rparr> in
                   bind_cxx (GetLen c) (\<lambda>iBody.
                     if 0 > iBody then Inr (AD_FAILURE, p)
                     else bind_cxx (GetBody c) (\<lambda>r. case r of
                       None \<Rightarrow> Inr (AD_FAILURE, p)
                     | Some pBody \<Rightarrow>
                         if int pBody + iBody > m_iLen c then Inr (AD_FAILURE, p)
                         else Inr (AD_SUCCESS, p\<lparr>m_pBody := Some (drop pBody (m_cCache c)), m_iBody := iBody\<rparr>)))))))"

text \<open>
  One entry of the section \<^verbatim>\<open>[METHODSO]\<close>: an address or a host with the number of an exchange, and the file of its library. An
  entry whose number is 0, or that is not of this form, ends the initialisation; the tables keep what was added.
\<close>

definition method_entry :: "dynlib \<Rightarrow> string \<times> string \<Rightarrow> AdAdapterMethod \<Rightarrow> (int \<times> AdAdapterMethod) cxx" where
  "method_entry dl = (\<lambda>(k, so) m.
     bind_cxx (rd8 (k @ [CHR 0x00]) 0) (\<lambda>c0.
       let vStr = split_fields k '':'';
           adx = (if length vStr = 2 then atoi (c_str (vStr ! 1)) else 0);
           m = (if length vStr = 2 then
                  (if c0 = of_char (CHR ''/'') then m\<lparr>m_mUriAdx := smap_upd (vStr ! 0) adx (m_mUriAdx m)\<rparr>
                   else m\<lparr>m_mHostAdx := smap_upd (vStr ! 0) adx (m_mHostAdx m)\<rparr>)
                else m)
       in if adx = 0 then Inr (AD_FAILURE, m)
          else (let (ret, l) = lib_Open dl adx so False (m_ctProMethod m) in Inr (ret, m\<lparr>m_ctProMethod := l\<rparr>))))"

fun method_entries :: "dynlib \<Rightarrow> ADCONFIG \<Rightarrow> AdAdapterMethod \<Rightarrow> (int \<times> AdAdapterMethod) cxx" where
  "method_entries dl [] m = Inr (AD_SUCCESS, m)"
| "method_entries dl (e # es) m =
     bind_cxx (method_entry dl e m) (\<lambda>(ret, m). if ret \<noteq> AD_SUCCESS then Inr (ret, m) else method_entries dl es m)"

text \<open>The deleted objects, the result and the tables.\<close>

definition method_Init :: "dynlib \<Rightarrow> AdRtbConfig \<Rightarrow> AdAdapterMethod \<Rightarrow> (nat list \<times> int \<times> AdAdapterMethod) cxx" where
  "method_Init dl ctConf m =
     (let (deleted, l) = lib_Close True (m_ctProMethod m) in
      bind_cxx (method_entries dl (fst (Get ''[METHODSO]'' ctConf)) \<lparr>m_mUriAdx = [], m_mHostAdx = [], m_ctProMethod = l\<rparr>)
        (\<lambda>(ret, m). Inr (deleted, ret, m)))"

section \<open>The ban list\<close>

record AdAdpFilterBan =
  m_mBan :: "(string \<times> UINT) list AdPingPongBuffer"
  m_b_sIp :: string
  m_b_sPasswd :: string
  m_b_iPort :: int

definition AdAdpFilterBan_new :: AdAdpFilterBan where
  "AdAdpFilterBan_new = \<lparr>m_mBan = pp_new [], m_b_sIp = [], m_b_sPasswd = [], m_b_iPort = AD_FAILURE\<rparr>"

definition ban_Match :: "AdAdpFilterBan \<Rightarrow> AdRtbRequest \<Rightarrow> bool" where
  "ban_Match f pRequest =
     (let mBan = pp_Get False (m_mBan f);
          b_PID = (m_sPId pRequest \<noteq> [] \<and>
            map_of mBan (snprintf 256 (printf ''%d+%s'' [fmt_d (m_uiAdx pRequest), m_sPId pRequest])) \<noteq> None);
          b_IP = (m_sUserIP pRequest \<noteq> [] \<and> map_of mBan (m_sUserIP pRequest) \<noteq> None)
      in b_IP \<and> b_IP)"

text \<open>A failed query is reported as a success, and the list stays.\<close>

definition ban_Update :: "hiredis \<Rightarrow> AdAdpFilterBan \<Rightarrow> (int \<times> AdAdpFilterBan) cxx" where
  "ban_Update srv f =
     bind_cxx (AdRedisConnect_to srv (m_b_sIp f) (m_b_iPort f) (m_b_sPasswd f) AdRedisCli_new) (\<lambda>(ret, cli).
       if ret \<noteq> AD_SUCCESS then Inr (ret, f)
       else bind_cxx (AdRedisHkeys srv cli ''global:ban'') (\<lambda>(ret, lKeys).
         if ret \<noteq> AD_SUCCESS then Inr (AD_SUCCESS, f)
         else Inr (AD_SUCCESS,
           f\<lparr>m_mBan := pp_Switch (pp_set True (\<lambda>_. fold (\<lambda>k. smap_upd k 1) lKeys []) (m_mBan f))\<rparr>)))"

definition ban_Init :: "hiredis \<Rightarrow> string \<Rightarrow> string \<Rightarrow> AdAdpFilterBan \<Rightarrow> (int \<times> AdAdpFilterBan) cxx" where
  "ban_Init srv sServer passwd f =
     (let vStr = split_fields sServer '':'' in
      if length vStr \<noteq> 2 then Inr (AD_FAILURE, f)
      else ban_Update srv (f\<lparr>m_b_sIp := vStr ! 0, m_b_iPort := sint (atoi (c_str (vStr ! 1))), m_b_sPasswd := passwd\<rparr>))"

section \<open>The log queues\<close>

record AdProcessMsg =
  m_vIpclist :: "AdLogMsg list list"
  m_uiWrite :: UINT

text \<open>A message is put into the queues in turn; a queue that is full (\<open>takes\<close>) drops it. Without queues the remainder traps.\<close>

definition AdProcessMsgPut :: "(nat \<Rightarrow> bool) \<Rightarrow> AdLogMsg \<Rightarrow> AdProcessMsg \<Rightarrow> AdProcessMsg cxx" where
  "AdProcessMsgPut takes msg q =
     (let n = m_uiWrite q + 1; q = q\<lparr>m_uiWrite := n\<rparr> in
      if m_vIpclist q = [] then Inl DivByZero
      else
        (let i = unat n mod length (m_vIpclist q) in
         Inr (if takes i then q\<lparr>m_vIpclist := (m_vIpclist q)[i := m_vIpclist q ! i @ [msg]]\<rparr> else q)))"

text \<open>The queues are made once; the first that cannot be made ends the initialisation.\<close>

fun make_queues :: "(nat \<Rightarrow> bool) \<Rightarrow> nat \<Rightarrow> AdLogMsg list list \<Rightarrow> int \<times> AdLogMsg list list" where
  "make_queues created 0 qs = (AD_SUCCESS, qs)"
| "make_queues created (Suc n) qs =
     (if created (length qs) then make_queues created n (qs @ [[]]) else (AD_FAILURE, qs))"

definition AdProcessMsgInit :: "(nat \<Rightarrow> bool) \<Rightarrow> nat \<Rightarrow> AdProcessMsg \<Rightarrow> int \<times> AdProcessMsg" where
  "AdProcessMsgInit created iMsg q =
     (if m_vIpclist q \<noteq> [] then (AD_SUCCESS, q)
      else (let (ret, qs) = make_queues created iMsg [] in (ret, q\<lparr>m_vIpclist := qs\<rparr>)))"

section \<open>Facts\<close>

lemma found_iff:
  "(case r of None \<Rightarrow> Inr (AD_FAILURE, p) | Some x \<Rightarrow> f x) = Inr (AD_SUCCESS, p') \<longleftrightarrow>
    (\<exists>x. r = Some x \<and> f x = Inr (AD_SUCCESS, p'))"
  "(if b then Inr (AD_FAILURE, p) else m) = Inr (AD_SUCCESS, p') \<longleftrightarrow> \<not> b \<and> m = Inr (AD_SUCCESS, p')"
  by (auto split: option.split)

text \<open>
  The body that a protocol reads lies within the bytes that were received: if a method is found for a request whose cache is
  filled up to its last byte at most, then the body is a part of the cache that starts behind an empty line and whose \<open>m_iBody\<close>
  bytes end at the length of the cache or before.
\<close>

theorem method_body_received:
  assumes "method_Get m p = Inr (AD_SUCCESS, p')" "m_pCacheIn p = Some c"
  shows "\<exists>k. m_pBody p' = Some (drop k (m_cCache c)) \<and> 0 \<le> m_iBody p' \<and> int k + m_iBody p' \<le> m_iLen c \<and>
    (\<exists>t. m_pAdxMethod p' = Some t \<and> lib_Get (m_uiAdx (m_ctRequest p')) (m_ctProMethod m) = Some t)"
  using assms
  by (force simp: method_Get_def bind_cxx_Inr_iff Let_def found_iff)

text \<open>
  The ban of a place is without effect: whether a request is banned depends only on its address and the list, not on its place. If
  the address is on the list, or none is given, this is what is meant.
\<close>

lemma ban_ignores_place: "ban_Match f (r\<lparr>m_sPId := s\<rparr>) = ban_Match f (r\<lparr>m_sPId := t\<rparr>)"
  by (simp add: ban_Match_def Let_def)

text \<open>While a method buffer is empty every request is refused.\<close>

lemma method_Get_empty:
  assumes "m_mUriAdx m = []" "m_mHostAdx m = []"
  shows "method_Get m p \<noteq> Inr (AD_SUCCESS, p')"
proof
  assume "method_Get m p = Inr (AD_SUCCESS, p')"
  then obtain c str x where "method_adx m c str = Inr (Some x)"
    by (auto simp: method_Get_def bind_cxx_Inr_iff Let_def found_iff split: option.split_asm)
  then show False using assms by (auto simp: method_adx_def bind_cxx_Inr_iff split: option.split_asm)
qed

end
