(* ===== verification/AdSession.thy ===== *)
theory AdSession
  imports AdUtil
begin

text \<open>
  A TCP connection and the session on it: \<^verbatim>\<open>libnet/src/AdTcp.cpp\<close> (\<^verbatim>\<open>Read\<close>, \<^verbatim>\<open>Write\<close>, \<^verbatim>\<open>Disconnect\<close>) and
  \<^verbatim>\<open>libnet/src/AdSession.cpp\<close>. What a system call does is an argument: one event for every call of \<^verbatim>\<open>read\<close> and \<^verbatim>\<open>write\<close>;
  \<^verbatim>\<open>close\<close> of an open descriptor succeeds. Reads do not wait (their third argument is never given). The bytes that the kernel
  took are kept in \<open>m_sent\<close>, which is no field of the code. The memory of a new cache is an argument. Every operation holds the
  lock of its session while it uses it; the model runs the operations one after the other.
\<close>

section \<open>The connection\<close>

datatype tcp_read = ReadData string | ReadEof | ReadAgain | ReadError

datatype tcp_write = Wrote nat | WriteAgain | WriteError

record AdTcp =
  m_t_iSocket :: int
  m_sent :: string

definition Disconnect :: "AdTcp \<Rightarrow> AdTcp" where
  "Disconnect t = (if m_t_iSocket t \<noteq> AD_FAILURE then t\<lparr>m_t_iSocket := AD_FAILURE\<rparr> else t)"

text \<open>The result and the bytes that were read, at most \<open>iLength\<close>.\<close>

definition Tcp_Read :: "tcp_read \<Rightarrow> nat \<Rightarrow> AdTcp \<Rightarrow> int \<times> string" where
  "Tcp_Read ev iLength t =
     (if m_t_iSocket t \<le> 0 then (AD_FAILURE, [])
      else case ev of
        ReadData s \<Rightarrow> (if s = [] then (AD_FAILURE, []) else (int (length (take iLength s)), take iLength s))
      | ReadEof \<Rightarrow> (AD_FAILURE, [])
      | ReadAgain \<Rightarrow> (AD_SUCCESS, [])
      | ReadError \<Rightarrow> (AD_FAILURE, []))"

text \<open>The kernel takes a first part of the bytes. The result 0 of \<^verbatim>\<open>write\<close> is a failure.\<close>

definition Tcp_Write :: "tcp_write \<Rightarrow> string \<Rightarrow> AdTcp \<Rightarrow> int \<times> AdTcp" where
  "Tcp_Write ev pPacket t =
     (if m_t_iSocket t \<le> 0 then (AD_FAILURE, t)
      else case ev of
        Wrote n \<Rightarrow> (let k = min n (length pPacket) in
          if k = 0 then (AD_FAILURE, t) else (int k, t\<lparr>m_sent := m_sent t @ take k pPacket\<rparr>))
      | WriteAgain \<Rightarrow> (AD_SUCCESS, t)
      | WriteError \<Rightarrow> (AD_FAILURE, t))"

section \<open>The session\<close>

text \<open>\<^verbatim>\<open>m_pMsg\<close> is the queue of the network loop, if there is one: how often the session was put into it.\<close>

record 'd AdSession =
  m_ctTcp :: AdTcp
  m_ltSendCache :: "AdCache list"
  m_s_iSocket :: int
  m_pMsg :: "nat option"
  m_uiActive :: UINT
  m_iTimeout :: int
  m_bTimeoutChange :: bool
  m_pData :: "'d option"
  m_ltReadCache :: "AdCache list"
  m_iPacketLen :: int
  m_iReadLen :: int

definition AdSession_new :: "nat option \<Rightarrow> 'd AdSession" where
  "AdSession_new pMsg = \<lparr>m_ctTcp = \<lparr>m_t_iSocket = AD_FAILURE, m_sent = []\<rparr>, m_ltSendCache = [], m_s_iSocket = AD_FAILURE,
     m_pMsg = pMsg, m_uiActive = 0, m_iTimeout = 0, m_bTimeoutChange = False, m_pData = None, m_ltReadCache = [],
     m_iPacketLen = AD_FAILURE, m_iReadLen = AD_FAILURE\<rparr>"

definition session_push :: "'d AdSession \<Rightarrow> 'd AdSession" where
  "session_push s = s\<lparr>m_pMsg := map_option Suc (m_pMsg s)\<rparr>"

text \<open>The result of \<^verbatim>\<open>accept\<close> or of \<^verbatim>\<open>connect\<close>, and of making the descriptor non-blocking.\<close>

definition AdSessionInit :: "int \<Rightarrow> bool \<Rightarrow> 'd AdSession \<Rightarrow> int \<times> 'd AdSession" where
  "AdSessionInit sock nonblock s =
     (let s = s\<lparr>m_ctTcp := (m_ctTcp s)\<lparr>m_t_iSocket := sock\<rparr>\<rparr> in
      if sock \<le> 0 then (AD_FAILURE, s)
      else if \<not> nonblock then (AD_FAILURE, s)
      else (sock, s\<lparr>m_s_iSocket := sock\<rparr>))"

text \<open>An active session keeps what is known of its packet, although the caches are gone.\<close>

definition AdSessionClose :: "'d AdSession \<Rightarrow> int \<times> 'd AdSession" where
  "AdSessionClose s =
     (let s = s\<lparr>m_ctTcp := Disconnect (m_ctTcp s), m_ltSendCache := [], m_ltReadCache := []\<rparr> in
      if m_uiActive s \<noteq> 0 then (AD_FAILURE, s)
      else (AD_SUCCESS, s\<lparr>m_iPacketLen := AD_FAILURE, m_iReadLen := AD_FAILURE, m_iTimeout := 0, m_bTimeoutChange := False\<rparr>))"

definition session_failed :: "'d AdSession \<Rightarrow> 'd AdSession" where
  "session_failed s = session_push (snd (AdSessionClose s))"

section \<open>Reading\<close>

definition read_reset :: "'d AdSession \<Rightarrow> 'd AdSession" where
  "read_reset s = s\<lparr>m_iReadLen := AD_FAILURE, m_iPacketLen := AD_FAILURE, m_ltReadCache := []\<rparr>"

text \<open>\<^verbatim>\<open>pAll->Append\<close> of the other pieces; what does not fit is dropped, the result is ignored.\<close>

fun append_pieces :: "AdCache list \<Rightarrow> AdCache \<Rightarrow> AdCache cxx" where
  "append_pieces [] pAll = Inr pAll"
| "append_pieces (c # cs) pAll =
     bind_cxx (cache_Append (m_cCache c) (m_iLen c) pAll) (\<lambda>(_, pAll). append_pieces cs pAll)"

definition piece_read :: "AdCache \<Rightarrow> 'd AdSession \<Rightarrow> 'd AdSession" where
  "piece_read c s = s\<lparr>m_iReadLen := m_iReadLen s + m_iLen c, m_ltReadCache := m_ltReadCache s @ [c]\<rparr>"

text \<open>
  \<open>plen\<close> is \<^verbatim>\<open>PacketLen\<close> of the interface. The code reads the first piece through the iterator of the node that
  \<^verbatim>\<open>pop_front\<close> has just freed, which is undefined; the model takes the piece that the node held.
\<close>

definition AdSessionCompletePacket ::
    "(AdCache \<Rightarrow> int cxx) \<Rightarrow> AdCache \<Rightarrow> 'd AdSession \<Rightarrow> (AdCache option \<times> 'd AdSession) cxx" where
  "AdSessionCompletePacket plen pCache s =
     bind_cxx (plen pCache) (\<lambda>iLen.
       if iLen = m_iLen pCache then Inr (Some pCache, if m_iPacketLen s \<ge> 0 then read_reset s else s)
       else if iLen = AD_FAILURE then
         (if m_iPacketLen s = AD_FAILURE then Inr (Some pCache, s)
          else
            (let s = piece_read pCache s in
             if m_iPacketLen s = m_iReadLen s then
               bind_cxx (append_pieces (tl (m_ltReadCache s)) (hd (m_ltReadCache s))) (\<lambda>pAll. Inr (Some pAll, read_reset s))
             else if m_iPacketLen s > m_iReadLen s then Inr (None, s)
             else Inr (None, read_reset s)))
       else
         (let s = (if m_iPacketLen s \<ge> 0 then read_reset s else s) in
          Inr (None, piece_read pCache (s\<lparr>m_iPacketLen := iLen\<rparr>))))"

text \<open>
  The loop of \<^verbatim>\<open>AdSessionRead\<close>: one event for every turn, with the memory of the turn's cache. Without an event there is nothing
  to read. After a failure the packets of this call are deleted.
\<close>

definition read_cache :: "string \<Rightarrow> string \<Rightarrow> AdCache" where
  "read_cache mem bytes = \<lparr>m_cCache = bytes @ drop (length bytes) mem, m_iLen = int (length bytes), m_iMaxLen = int AD_CACHE_MAX - 1\<rparr>"

fun AdSessionRead ::
    "(AdCache \<Rightarrow> int cxx) option \<Rightarrow> (string \<times> tcp_read) list \<Rightarrow> AdCache list \<Rightarrow> 'd AdSession \<Rightarrow>
     (AdCache list \<times> 'd AdSession) cxx" where
  "AdSessionRead pInterface [] ltCache s = Inr (ltCache, s)"
| "AdSessionRead pInterface ((mem, ev) # evs) ltCache s =
     (let (iLen, bytes) = Tcp_Read ev AD_CACHE_MAX (m_ctTcp s) in
      if iLen > 0 then
        (let c = read_cache mem bytes in
         bind_cxx (case pInterface of None \<Rightarrow> Inr (Some c, s) | Some plen \<Rightarrow> AdSessionCompletePacket plen c s) (\<lambda>(p, s).
           AdSessionRead pInterface evs (case p of None \<Rightarrow> ltCache | Some p \<Rightarrow> ltCache @ [p]) s))
      else if iLen = AD_FAILURE then Inr ([], session_failed s)
      else Inr (ltCache, s))"

declare AdSessionRead.simps(2) [simp del]

section \<open>Writing\<close>

definition session_write :: "tcp_write \<Rightarrow> string \<Rightarrow> 'd AdSession \<Rightarrow> int \<times> 'd AdSession" where
  "session_write ev bytes s =
     (let (len, t) = Tcp_Write ev bytes (m_ctTcp s); s = s\<lparr>m_ctTcp := t\<rparr>
      in (len, if len = AD_FAILURE then session_failed s else s))"

text \<open>
  The two direct writes: bytes, and a cache. If the kernel takes nothing the bytes are queued, as many as a cache holds. The new
  cache is written with the bytes up to its terminator.
\<close>

definition AdSessionWrite_bytes :: "tcp_write \<Rightarrow> string \<Rightarrow> string \<Rightarrow> int \<Rightarrow> 'd AdSession \<Rightarrow> (int \<times> 'd AdSession) cxx" where
  "AdSessionWrite_bytes ev mem pbuff iLen s =
     (if iLen \<le> 0 then Inr (AD_FAILURE, s)
      else if int (length pbuff) < iLen then Inl OutOfBounds
      else
        (let (len, s) = session_write ev (take (nat iLen) pbuff) s in
         if len = AD_SUCCESS then
           bind_cxx (cache_Write pbuff iLen (cache_new mem)) (\<lambda>(_, c).
             Inr (AD_SUCCESS, session_push (s\<lparr>m_ltSendCache := m_ltSendCache s @ [c]\<rparr>)))
         else Inr (AD_SUCCESS, s)))"

definition AdSessionWrite :: "tcp_write \<Rightarrow> string \<Rightarrow> AdCache \<Rightarrow> 'd AdSession \<Rightarrow> (int \<times> 'd AdSession) cxx" where
  "AdSessionWrite ev mem ctCache s =
     (if m_iLen ctCache \<le> 0 then Inr (AD_FAILURE, s)
      else
        (let (len, s) = session_write ev (cache_data ctCache) s in
         if len = AD_SUCCESS then
           bind_cxx (cache_assign ctCache (cache_new mem)) (\<lambda>c.
             Inr (AD_SUCCESS, session_push (s\<lparr>m_ltSendCache := m_ltSendCache s @ [c]\<rparr>)))
         else Inr (AD_SUCCESS, s)))"

text \<open>
  The delayed write of the network loop. With an empty queue \<^verbatim>\<open>len\<close> is not initialised (\<open>len\<close>); on a failure the cache in hand is
  lost, like the others.
\<close>

fun flush_loop :: "tcp_write list \<Rightarrow> int \<Rightarrow> 'd AdSession \<Rightarrow> int \<times> 'd AdSession" where
  "flush_loop [] len s = (if m_ltSendCache s = [] then len else AD_SUCCESS, s)"
| "flush_loop (ev # evs) len s =
     (case m_ltSendCache s of
        [] \<Rightarrow> (len, s)
      | c # cs \<Rightarrow>
          (let (len, t) = Tcp_Write ev (cache_data c) (m_ctTcp s); s = s\<lparr>m_ctTcp := t\<rparr> in
           if len = AD_SUCCESS then (len, s)
           else if len = AD_FAILURE then (len, s\<lparr>m_ltSendCache := cs\<rparr>)
           else flush_loop evs len (s\<lparr>m_ltSendCache := cs\<rparr>)))"

definition AdSessionFlush :: "tcp_write list \<Rightarrow> int \<Rightarrow> 'd AdSession \<Rightarrow> int \<times> 'd AdSession" where
  "AdSessionFlush evs len s =
     (let (len, s) = flush_loop evs len s; iSize = int (length (m_ltSendCache s))
      in (iSize, if len = AD_FAILURE then session_failed s else s))"

section \<open>The rest\<close>

definition AdSessionEmpty :: "'d AdSession \<Rightarrow> bool" where
  "AdSessionEmpty s \<longleftrightarrow> m_ltSendCache s = []"

definition AdSessionOk :: "'d AdSession \<Rightarrow> bool" where
  "AdSessionOk s \<longleftrightarrow> m_s_iSocket s \<noteq> AD_FAILURE \<and> m_s_iSocket s = m_t_iSocket (m_ctTcp s)"

definition AdSessionActive :: "'d AdSession \<Rightarrow> 'd AdSession" where
  "AdSessionActive s = s\<lparr>m_uiActive := m_uiActive s + 1\<rparr>"

definition AdSessionIdle :: "'d AdSession \<Rightarrow> 'd AdSession" where
  "AdSessionIdle s = (if m_uiActive s > 0 then s\<lparr>m_uiActive := m_uiActive s - 1\<rparr> else s)"

definition AdSessionSetPrivate :: "'d \<Rightarrow> 'd AdSession \<Rightarrow> 'd AdSession" where
  "AdSessionSetPrivate pData s = s\<lparr>m_pData := Some pData\<rparr>"

definition AdSessionGetPrivate :: "bool \<Rightarrow> 'd AdSession \<Rightarrow> 'd option \<times> 'd AdSession" where
  "AdSessionGetPrivate bClear s = (m_pData s, if bClear then s\<lparr>m_pData := None\<rparr> else s)"

definition AdSessionSetTimeout :: "int \<Rightarrow> 'd AdSession \<Rightarrow> 'd AdSession" where
  "AdSessionSetTimeout iMs s =
     (if m_iTimeout s \<noteq> iMs then session_push (s\<lparr>m_iTimeout := iMs, m_bTimeoutChange := True\<rparr>) else s)"

definition AdSessionGetTimeout :: "'d AdSession \<Rightarrow> int \<times> 'd AdSession" where
  "AdSessionGetTimeout s =
     (if m_bTimeoutChange s then (m_iTimeout s, s\<lparr>m_bTimeoutChange := False\<rparr>) else (AD_FAILURE, s))"

section \<open>What is delivered\<close>

text \<open>The reads that return the given pieces, each with the memory of its cache.\<close>

definition data_reads :: "(string \<times> string) list \<Rightarrow> (string \<times> tcp_read) list" where
  "data_reads = map (\<lambda>(mem, bytes). (mem, ReadData bytes))"

definition piece_ok :: "string \<times> string \<Rightarrow> bool" where
  "piece_ok = (\<lambda>(mem, bytes). bytes \<noteq> [] \<and> length bytes \<le> AD_CACHE_MAX \<and> length mem = AD_CACHE_MAX)"

lemma read_cache_simps [simp]: "m_iLen (read_cache mem bytes) = int (length bytes)"
  by (simp add: read_cache_def)

lemma Tcp_Read_data [simp]:
  "0 < m_t_iSocket t \<Longrightarrow> bytes \<noteq> [] \<Longrightarrow> length bytes \<le> AD_CACHE_MAX \<Longrightarrow>
    Tcp_Read (ReadData bytes) AD_CACHE_MAX t = (int (length bytes), bytes)"
  by (simp add: Tcp_Read_def)

lemma session_read_data:
  assumes "0 < m_t_iSocket (m_ctTcp s)" "piece_ok (mem, bytes)"
  shows "AdSessionRead (Some plen) ((mem, ReadData bytes) # evs) lt s =
    bind_cxx (AdSessionCompletePacket plen (read_cache mem bytes) s) (\<lambda>(p, s).
      AdSessionRead (Some plen) evs (case p of None \<Rightarrow> lt | Some p \<Rightarrow> lt @ [p]) s)"
  using assms by (simp add: AdSessionRead.simps(2) piece_ok_def)

lemma whole_packet:
  assumes "plen c = Inr (m_iLen c)"
  shows "AdSessionCompletePacket plen c s = Inr (Some c, if m_iPacketLen s \<ge> 0 then read_reset s else s)"
  using assms by (simp add: AdSessionCompletePacket_def)

text \<open>
  Reads that bring one whole packet each, as \<^verbatim>\<open>PacketLen\<close> measures it, deliver these packets in their order and leave the
  session as it was.
\<close>

theorem whole_reads_delivered:
  assumes "0 < m_t_iSocket (m_ctTcp s)" "m_iPacketLen s < 0"
    and "\<And>mem bytes. (mem, bytes) \<in> set ps \<Longrightarrow>
      piece_ok (mem, bytes) \<and> plen (read_cache mem bytes) = Inr (int (length bytes))"
  shows "AdSessionRead (Some plen) (data_reads ps) lt s = Inr (lt @ map (\<lambda>(mem, bytes). read_cache mem bytes) ps, s)"
  using assms
proof (induction ps arbitrary: lt)
  case (Cons p ps)
  obtain mem bytes where p: "p = (mem, bytes)" by (cases p)
  have ok: "piece_ok (mem, bytes)" "plen (read_cache mem bytes) = Inr (int (length bytes))"
    using Cons.prems(3) [of mem bytes] p by simp_all
  have "AdSessionRead (Some plen) (data_reads (p # ps)) lt s =
      AdSessionRead (Some plen) (data_reads ps) (lt @ [read_cache mem bytes]) s"
    using Cons.prems(2) ok by (simp add: data_reads_def p session_read_data [OF Cons.prems(1)] whole_packet)
  then show ?case using Cons.IH [of "lt @ [read_cache mem bytes]"] Cons.prems by (simp add: p)
qed (simp add: data_reads_def)

text \<open>The pieces of a packet whose head was read.\<close>

lemma later_piece:
  assumes "plen c = Inr AD_FAILURE" "0 < m_iLen c" "0 \<le> m_iPacketLen s" "m_iReadLen s + m_iLen c < m_iPacketLen s"
  shows "AdSessionCompletePacket plen c s = Inr (None, piece_read c s)"
  using assms by (simp add: AdSessionCompletePacket_def piece_read_def AD_FAILURE_def)

lemma later_pieces:
  assumes "0 < m_t_iSocket (m_ctTcp s)" "0 \<le> m_iPacketLen s"
    and "\<And>mem bytes. (mem, bytes) \<in> set ps \<Longrightarrow> piece_ok (mem, bytes) \<and> plen (read_cache mem bytes) = Inr AD_FAILURE"
    and "m_iReadLen s + int (length (concat (map snd ps))) < m_iPacketLen s"
  shows "\<exists>s'. AdSessionRead (Some plen) (data_reads ps) lt s = Inr (lt, s') \<and> m_iPacketLen s' = m_iPacketLen s \<and>
    m_iReadLen s' = m_iReadLen s + int (length (concat (map snd ps))) \<and> m_ctTcp s' = m_ctTcp s"
  using assms
proof (induction ps arbitrary: s)
  case (Cons p ps)
  obtain mem bytes where p: "p = (mem, bytes)" by (cases p)
  have ok: "piece_ok (mem, bytes)" "plen (read_cache mem bytes) = Inr AD_FAILURE"
    using Cons.prems(3) [of mem bytes] p by simp_all
  have "AdSessionCompletePacket plen (read_cache mem bytes) s = Inr (None, piece_read (read_cache mem bytes) s)"
    using Cons.prems(2,4) ok by (intro later_piece) (auto simp: p piece_ok_def)
  then have "AdSessionRead (Some plen) (data_reads (p # ps)) lt s =
      AdSessionRead (Some plen) (data_reads ps) lt (piece_read (read_cache mem bytes) s)"
    by (simp add: data_reads_def p session_read_data [OF Cons.prems(1) ok(1)])
  then show ?case using Cons.IH [of "piece_read (read_cache mem bytes) s"] Cons.prems by (simp add: p piece_read_def add.assoc)
qed (simp add: data_reads_def)

text \<open>
  C16. A packet that comes in two or more reads is never delivered: the count of its bytes starts at \<open>-1\<close>. Let the first
  piece hold the head, by which the packet is \<open>L\<close> bytes long, and let the later pieces, which look like no head, bring the rest
  of exactly these bytes. Then no packet is handed on and the session still waits for one byte.
\<close>

theorem split_packet_not_delivered:
  assumes "0 < m_t_iSocket (m_ctTcp s)" "m_iPacketLen s = AD_FAILURE" "m_iReadLen s = AD_FAILURE"
    and "piece_ok (mem, first)" "plen (read_cache mem first) = Inr L"
    and "rest \<noteq> []"
    and "\<And>mem bytes. (mem, bytes) \<in> set rest \<Longrightarrow> piece_ok (mem, bytes) \<and> plen (read_cache mem bytes) = Inr AD_FAILURE"
    and "L = int (length (first @ concat (map snd rest)))"
  shows "\<exists>s'. AdSessionRead (Some plen) (data_reads ((mem, first) # rest)) [] s = Inr ([], s') \<and>
    m_iPacketLen s' = L \<and> m_iReadLen s' = L - 1"
proof -
  let ?s = "piece_read (read_cache mem first) (s\<lparr>m_iPacketLen := L\<rparr>)"
  obtain mem' bytes rest' where r: "rest = (mem', bytes) # rest'" using assms(6) by (cases rest) auto
  have "bytes \<noteq> []" using assms(7) [of mem' bytes] r by (simp add: piece_ok_def)
  then have "0 < length bytes" by simp
  then have "int (length first) < L" unfolding assms(8) r by (simp del: length_greater_0_conv)
  then have "AdSessionCompletePacket plen (read_cache mem first) s = Inr (None, ?s)"
    using assms(2,5) by (simp add: AdSessionCompletePacket_def AD_FAILURE_def)
  then have "AdSessionRead (Some plen) (data_reads ((mem, first) # rest)) [] s =
      AdSessionRead (Some plen) (data_reads rest) [] ?s"
    by (simp add: data_reads_def session_read_data [OF assms(1,4)])
  moreover have "\<exists>s'. AdSessionRead (Some plen) (data_reads rest) [] ?s = Inr ([], s') \<and> m_iPacketLen s' = m_iPacketLen ?s \<and>
      m_iReadLen s' = m_iReadLen ?s + int (length (concat (map snd rest))) \<and> m_ctTcp s' = m_ctTcp ?s"
    using assms(1,3,7,8) by (intro later_pieces) (auto simp: piece_read_def AD_FAILURE_def)
  ultimately show ?thesis using assms(3,8) by (auto simp: piece_read_def AD_FAILURE_def)
qed

theorem whole_reads_delivered_witness:
  "AdSessionRead (Some (\<lambda>c. Inr (m_iLen c))) (data_reads [(replicate 8192 (CHR 0x00), ''ab''), (replicate 8192 (CHR 0x00), ''c'')]) []
      ((AdSession_new None)\<lparr>m_ctTcp := \<lparr>m_t_iSocket = 4, m_sent = []\<rparr>\<rparr> :: nat AdSession) =
    Inr (map (\<lambda>(mem, bytes). read_cache mem bytes) [(replicate 8192 (CHR 0x00), ''ab''), (replicate 8192 (CHR 0x00), ''c'')],
      (AdSession_new None)\<lparr>m_ctTcp := \<lparr>m_t_iSocket = 4, m_sent = []\<rparr>\<rparr>)"
proof -
  let ?s = "(AdSession_new None)\<lparr>m_ctTcp := \<lparr>m_t_iSocket = 4, m_sent = []\<rparr>\<rparr> :: nat AdSession"
  have "AdSessionRead (Some (\<lambda>c. Inr (m_iLen c))) (data_reads [(replicate 8192 (CHR 0x00), ''ab''), (replicate 8192 (CHR 0x00), ''c'')]) [] ?s =
      Inr ([] @ map (\<lambda>(mem, bytes). read_cache mem bytes) [(replicate 8192 (CHR 0x00), ''ab''), (replicate 8192 (CHR 0x00), ''c'')], ?s)"
    by (rule whole_reads_delivered) (auto simp: AdSession_new_def AD_FAILURE_def piece_ok_def)
  then show ?thesis by simp
qed

theorem split_packet_not_delivered_witness:
  "\<exists>s' :: nat AdSession. AdSessionRead (Some (\<lambda>c. Inr (if hd (m_cCache c) = CHR ''H'' then 5 else AD_FAILURE)))
      (data_reads [(replicate 8192 (CHR 0x00), ''Hel''), (replicate 8192 (CHR 0x00), ''lo'')]) []
      ((AdSession_new None)\<lparr>m_ctTcp := \<lparr>m_t_iSocket = 4, m_sent = []\<rparr>\<rparr>) = Inr ([], s') \<and>
    m_iPacketLen s' = 5 \<and> m_iReadLen s' = 5 - 1"
  by (rule split_packet_not_delivered) (auto simp: AdSession_new_def AD_FAILURE_def piece_ok_def read_cache_def)

section \<open>What is sent\<close>

lemma session_write_again: "0 < m_t_iSocket (m_ctTcp s) \<Longrightarrow> session_write WriteAgain b s = (AD_SUCCESS, s)"
  by (simp add: session_write_def Tcp_Write_def)

lemma session_write_some:
  "0 < m_t_iSocket (m_ctTcp s) \<Longrightarrow> 0 < n \<Longrightarrow> n \<le> length b \<Longrightarrow>
    session_write (Wrote n) b s = (int n, s\<lparr>m_ctTcp := (m_ctTcp s)\<lparr>m_sent := m_sent (m_ctTcp s) @ take n b\<rparr>\<rparr>)"
  by (auto simp: session_write_def Tcp_Write_def Let_def AD_FAILURE_def)

lemma write_bytes_some:
  assumes "0 < m_t_iSocket (m_ctTcp s)" "0 < n" "n \<le> length b"
  shows "AdSessionWrite_bytes (Wrote n) mem b (int (length b)) s =
    Inr (AD_SUCCESS, s\<lparr>m_ctTcp := (m_ctTcp s)\<lparr>m_sent := m_sent (m_ctTcp s) @ take n b\<rparr>\<rparr>)"
  using assms by (auto simp: AdSessionWrite_bytes_def session_write_some AD_SUCCESS_def)

lemma write_bytes_again:
  assumes "0 < m_t_iSocket (m_ctTcp s)" "b \<noteq> []" "length b < AD_CACHE_MAX" "length mem = AD_CACHE_MAX"
  shows "\<exists>c. AdSessionWrite_bytes WriteAgain mem b (int (length b)) s =
      Inr (AD_SUCCESS, session_push (s\<lparr>m_ltSendCache := m_ltSendCache s @ [c]\<rparr>)) \<and> cache_data c = b"
  using assms
  by (auto simp: AdSessionWrite_bytes_def session_write_again cache_Write_def cache_new_def memcpy_at_def mem_write_def
      cache_data_def Let_def)

text \<open>
  What is sent is not what was written. (1) A write of which the kernel takes only a part succeeds, and the rest is neither
  sent nor queued. (2) A direct write does not look at the queue: if \<open>a\<close> had to be queued and the kernel then takes \<open>b\<close>, the
  bytes of \<open>b\<close> are sent before those of \<open>a\<close>.
\<close>

theorem writes_not_in_order:
  assumes "0 < m_t_iSocket (m_ctTcp s)" "m_ltSendCache s = []"
    and "a \<noteq> []" "length a < AD_CACHE_MAX" "length mem = AD_CACHE_MAX" "0 < n" "n \<le> length b"
  shows "AdSessionWrite_bytes (Wrote n) mem b (int (length b)) s =
      Inr (AD_SUCCESS, s\<lparr>m_ctTcp := (m_ctTcp s)\<lparr>m_sent := m_sent (m_ctTcp s) @ take n b\<rparr>\<rparr>) \<and>
    (\<exists>s1 s2 s3. AdSessionWrite_bytes WriteAgain mem a (int (length a)) s = Inr (AD_SUCCESS, s1) \<and>
      AdSessionWrite_bytes (Wrote (length b)) mem b (int (length b)) s1 = Inr (AD_SUCCESS, s2) \<and>
      AdSessionFlush [Wrote (length a)] 0 s2 = (0, s3) \<and> m_sent (m_ctTcp s3) = m_sent (m_ctTcp s) @ b @ a)"
proof -
  obtain c where c: "AdSessionWrite_bytes WriteAgain mem a (int (length a)) s =
      Inr (AD_SUCCESS, session_push (s\<lparr>m_ltSendCache := [c]\<rparr>))" "cache_data c = a"
    using write_bytes_again [OF assms(1,3,4,5)] assms(2) by auto
  let ?s1 = "session_push (s\<lparr>m_ltSendCache := [c]\<rparr>)"
  let ?s2 = "?s1\<lparr>m_ctTcp := (m_ctTcp ?s1)\<lparr>m_sent := m_sent (m_ctTcp ?s1) @ take (length b) b\<rparr>\<rparr>"
  have "AdSessionWrite_bytes (Wrote (length b)) mem b (int (length b)) ?s1 = Inr (AD_SUCCESS, ?s2)"
    using assms(1,6,7) by (intro write_bytes_some) (auto simp: session_push_def)
  moreover have "AdSessionFlush [Wrote (length a)] 0 ?s2 =
      (0, ?s2\<lparr>m_ctTcp := (m_ctTcp ?s2)\<lparr>m_sent := m_sent (m_ctTcp ?s2) @ a\<rparr>, m_ltSendCache := []\<rparr>)"
    using assms(1,3) c(2) by (auto simp: AdSessionFlush_def session_push_def Tcp_Write_def Let_def AD_FAILURE_def AD_SUCCESS_def)
  ultimately show ?thesis
    using c(1) write_bytes_some [OF assms(1,6,7)] by (auto simp: session_push_def)
qed

theorem writes_not_in_order_witness:
  "\<exists>s1 s2 s3 :: nat AdSession. AdSessionWrite_bytes WriteAgain (replicate 8192 (CHR 0x00)) ''one'' 3
        ((AdSession_new None)\<lparr>m_ctTcp := \<lparr>m_t_iSocket = 4, m_sent = []\<rparr>\<rparr>) = Inr (AD_SUCCESS, s1) \<and>
      AdSessionWrite_bytes (Wrote 3) (replicate 8192 (CHR 0x00)) ''two'' 3 s1 = Inr (AD_SUCCESS, s2) \<and>
      AdSessionFlush [Wrote 3] 0 s2 = (0, s3) \<and> m_sent (m_ctTcp s3) = ''twoone''"
proof -
  let ?s = "(AdSession_new None)\<lparr>m_ctTcp := \<lparr>m_t_iSocket = 4, m_sent = []\<rparr>\<rparr> :: nat AdSession"
  have "0 < m_t_iSocket (m_ctTcp ?s)" "m_ltSendCache ?s = []" by (simp_all add: AdSession_new_def)
  from writes_not_in_order [OF this, of "''one''" "replicate 8192 (CHR 0x00)" 1 "''two''"] show ?thesis by (simp add: numeral_3_eq_3)
qed

text \<open>Without such an overtaking, the delayed write sends the queue in its order.\<close>

lemma flush_in_order:
  assumes "0 < m_t_iSocket (m_ctTcp s)" "\<forall>c \<in> set (m_ltSendCache s). cache_data c \<noteq> []"
  shows "\<exists>s' len. flush_loop (map (\<lambda>c. Wrote (length (cache_data c))) (m_ltSendCache s)) len0 s = (len, s') \<and>
    m_ltSendCache s' = [] \<and> m_sent (m_ctTcp s') = m_sent (m_ctTcp s) @ concat (map cache_data (m_ltSendCache s))"
  using assms
proof (induction "m_ltSendCache s" arbitrary: s len0)
  case (Cons c cs)
  let ?s = "s\<lparr>m_ctTcp := (m_ctTcp s)\<lparr>m_sent := m_sent (m_ctTcp s) @ cache_data c\<rparr>, m_ltSendCache := cs\<rparr>"
  have step: "flush_loop (map (\<lambda>c. Wrote (length (cache_data c))) (m_ltSendCache s)) len0 s =
      flush_loop (map (\<lambda>c. Wrote (length (cache_data c))) cs) (int (length (cache_data c))) ?s"
    using Cons.prems by (auto simp: Cons.hyps(2) [symmetric] Tcp_Write_def Let_def AD_FAILURE_def AD_SUCCESS_def)
  have "\<exists>s' len. flush_loop (map (\<lambda>c. Wrote (length (cache_data c))) (m_ltSendCache ?s)) (int (length (cache_data c))) ?s = (len, s') \<and>
      m_ltSendCache s' = [] \<and> m_sent (m_ctTcp s') = m_sent (m_ctTcp ?s) @ concat (map cache_data (m_ltSendCache ?s))"
    using Cons.prems by (intro Cons.hyps(1)) (auto simp: Cons.hyps(2) [symmetric])
  then show ?case unfolding step by (simp add: Cons.hyps(2) [symmetric])
qed auto

end
