(* ===== verification/AdIpArea.thy ===== *)
theory AdIpArea
  imports AdCString AdUtil
begin

text \<open>
  The table from addresses to areas of \<^verbatim>\<open>libcommon/src/AdIpArea.cpp\<close>: a binary tree over the bits of an address.
  The XML document (\<^verbatim>\<open>libxml2\<close>) is an argument, given by the children of its root: whether a child is an element,
  and its attributes with the content of their first child. So is \<open>aton\<close>, which stands for the number that the code
  finds in \<^verbatim>\<open>Addr\<close> after \<^verbatim>\<open>inet_aton\<close> and \<^verbatim>\<open>ntohl\<close>; \<^verbatim>\<open>inet_aton\<close> leaves it as it was when the text is no address.
  The list \<^verbatim>\<open>m_ltTreeList\<close> only serves to free the nodes and is left out. Allocations succeed.
\<close>

unbundle bit_operations_syntax

section \<open>The tree\<close>

datatype TreeNode =
  TreeNode (m_pLeft: "TreeNode option") (m_pRight: "TreeNode option")
    (m_sCountry: string) (m_sProvince: string) (m_sCity: string)

definition tree_new :: TreeNode where
  "tree_new = TreeNode None None [] [] []"

text \<open>The bits that the mask \<^verbatim>\<open>0x80000000 >> i\<close> selects, for \<open>i < n\<close>.\<close>

definition addr_bits :: "UINT \<Rightarrow> nat \<Rightarrow> bool list" where
  "addr_bits uiIP n = map (\<lambda>i. drop_bit i 0x80000000 AND uiIP \<noteq> 0) [0..<n]"

text \<open>The walk of \<^verbatim>\<open>AddTree\<close> creates the nodes that are missing and writes the area into the last one.\<close>

fun tree_set :: "bool list \<Rightarrow> string \<Rightarrow> string \<Rightarrow> string \<Rightarrow> TreeNode \<Rightarrow> TreeNode" where
  "tree_set [] sCoun sPro sCity (TreeNode l r _ _ _) = TreeNode l r sCoun sPro sCity"
| "tree_set (b # bs) sCoun sPro sCity (TreeNode l r c p ci) =
     (if b then TreeNode l (Some (tree_set bs sCoun sPro sCity (case r of None \<Rightarrow> tree_new | Some n \<Rightarrow> n))) c p ci
      else TreeNode (Some (tree_set bs sCoun sPro sCity (case l of None \<Rightarrow> tree_new | Some n \<Rightarrow> n))) r c p ci)"

text \<open>A shift by 32 or more is not defined. For the text \<open>0.0.0.0\<close> the area is that of the root, whatever the mask.\<close>

definition AddTree ::
    "(string \<Rightarrow> UINT) \<Rightarrow> string \<Rightarrow> string \<Rightarrow> string \<Rightarrow> string \<Rightarrow> UINT \<Rightarrow> TreeNode \<Rightarrow> (int \<times> TreeNode) cxx" where
  "AddTree aton sCoun sPro sCity sAddr uiMastlen t =
     (if sAddr \<noteq> ''0.0.0.0'' then
        if unat uiMastlen > 32 then Inl BadShift
        else Inr (AD_SUCCESS, tree_set (addr_bits (aton sAddr) (unat uiMastlen)) sCoun sPro sCity t)
      else Inr (AD_SUCCESS, tree_set [] sCoun sPro sCity t))"

section \<open>Loading the document\<close>

type_synonym xml_attr = "string \<times> string option"
type_synonym xml_node = "bool \<times> xml_attr list"

text \<open>
  What the loop over the nodes keeps: the last values of the attributes, which a node without them takes over from
  the node before. \<open>uiMask\<close> is not initialised, so its first value is an argument.
\<close>

record area_attrs =
  a_sProvince :: string
  a_sCity :: string
  a_sAddr :: string
  a_uiMask :: UINT

fun read_attr :: "xml_attr \<Rightarrow> area_attrs \<Rightarrow> area_attrs" where
  "read_attr (name, None) st = st"
| "read_attr (name, Some content) st =
     (if name = ''prov'' then st\<lparr>a_sProvince := content\<rparr>
      else if name = ''city'' then st\<lparr>a_sCity := content\<rparr>
      else if name = ''addr'' then st\<lparr>a_sAddr := content\<rparr>
      else if name = ''mask'' then st\<lparr>a_uiMask := atoi content\<rparr>
      else st)"

fun area_nodes :: "(string \<Rightarrow> UINT) \<Rightarrow> xml_node list \<Rightarrow> area_attrs \<Rightarrow> TreeNode \<Rightarrow> (int \<times> TreeNode) cxx" where
  "area_nodes aton [] st t = Inr (AD_SUCCESS, t)"
| "area_nodes aton ((is_element, attrs) # nodes) st t =
     (if \<not> is_element then area_nodes aton nodes st t
      else (let st = fold read_attr attrs st in
        bind_cxx (AddTree aton ''0086'' (a_sProvince st) (a_sCity st) (a_sAddr st) (a_uiMask st) t) (\<lambda>(ret, t).
          if ret \<noteq> AD_SUCCESS then Inr (ret, t) else area_nodes aton nodes st t)))"

text \<open>The document or its root may be missing. A second load adds to the tree that is there.\<close>

definition AdIpAreaInit ::
    "(string \<Rightarrow> UINT) \<Rightarrow> UINT \<Rightarrow> xml_node list option option \<Rightarrow> TreeNode \<Rightarrow> (int \<times> TreeNode) cxx" where
  "AdIpAreaInit aton garbage pDoc t =
     (case pDoc of
        None \<Rightarrow> Inr (AD_FAILURE, t)
      | Some None \<Rightarrow> Inr (AD_FAILURE, t)
      | Some (Some nodes) \<Rightarrow>
          area_nodes aton nodes \<lparr>a_sProvince = [], a_sCity = [], a_sAddr = [], a_uiMask = garbage\<rparr> t)"

section \<open>The area of an address\<close>

definition area_text :: "string \<Rightarrow> string \<Rightarrow> string \<Rightarrow> string" where
  "area_text c p ci = c @ ''-'' @ p @ ''-'' @ ci"

definition node_area :: "TreeNode \<Rightarrow> string" where
  "node_area n = area_text (m_sCountry n) (m_sProvince n) (m_sCity n)"

fun area_walk :: "bool list \<Rightarrow> TreeNode \<Rightarrow> string \<Rightarrow> string" where
  "area_walk [] pNode sArea = sArea"
| "area_walk (b # bs) pNode sArea =
     (case (if b then m_pRight pNode else m_pLeft pNode) of
        None \<Rightarrow> sArea
      | Some n \<Rightarrow> area_walk bs n (if m_sCity n \<noteq> [] then node_area n else sArea))"

definition AdIpAreaGet :: "(string \<Rightarrow> UINT) \<Rightarrow> string \<Rightarrow> TreeNode \<Rightarrow> string \<Rightarrow> string" where
  "AdIpAreaGet aton sAddr t sArea =
     (if aton sAddr = 0 then node_area t else area_walk (addr_bits (aton sAddr) 32) t sArea)"

section \<open>The tree as a table of prefixes\<close>

fun node_at :: "bool list \<Rightarrow> TreeNode \<Rightarrow> TreeNode option" where
  "node_at [] t = Some t"
| "node_at (b # bs) t = (case (if b then m_pRight t else m_pLeft t) of None \<Rightarrow> None | Some n \<Rightarrow> node_at bs n)"

definition area_at :: "bool list \<Rightarrow> TreeNode \<Rightarrow> string \<times> string \<times> string" where
  "area_at bs t = (case node_at bs t of None \<Rightarrow> ([], [], []) | Some n \<Rightarrow> (m_sCountry n, m_sProvince n, m_sCity n))"

lemma area_at_simps [simp]:
  "area_at [] t = (m_sCountry t, m_sProvince t, m_sCity t)"
  "area_at (b # bs) t =
     (case (if b then m_pRight t else m_pLeft t) of None \<Rightarrow> ([], [], []) | Some n \<Rightarrow> area_at bs n)"
  by (simp_all add: area_at_def split: option.split)

lemma area_at_new [simp]: "area_at q tree_new = ([], [], [])"
  by (cases q) (simp_all add: tree_new_def)

lemma area_at_set: "area_at q (tree_set bs c p ci t) = (if q = bs then (c, p, ci) else area_at q t)"
proof (induction bs c p ci t arbitrary: q rule: tree_set.induct)
  case (1 c p ci l r)
  show ?case by (cases q) simp_all
next
  case (2 b bs c p ci l r)
  then show ?case by (cases q) (auto split: option.split)
qed

text \<open>The walk keeps the area of the last prefix that has one.\<close>

definition prefixes_of :: "'a list \<Rightarrow> 'a list list" where
  "prefixes_of bs = map (\<lambda>n. take n bs) [1..<length bs + 1]"

lemma prefixes_of_Cons: "prefixes_of (b # bs) = [b] # map ((#) b) (prefixes_of bs)"
proof -
  have "[1..<length (b # bs) + 1] = 1 # map Suc [1..<length bs + 1]"
    by (simp add: map_Suc_upt upt_conv_Cons del: upt_Suc)
  then show ?thesis by (simp add: prefixes_of_def del: upt_Suc)
qed

lemma find_append: "find P (xs @ ys) = (case find P xs of None \<Rightarrow> find P ys | Some x \<Rightarrow> Some x)"
  by (induction xs) auto

lemma fold_last_find:
  "fold (\<lambda>x acc. if P x then f x else acc) xs a = (case find P (rev xs) of None \<Rightarrow> a | Some x \<Rightarrow> f x)"
  by (induction xs arbitrary: a) (auto simp: find_append split: option.split)

lemma fold_idle: "(\<And>x. x \<in> set xs \<Longrightarrow> f x = id) \<Longrightarrow> fold f xs a = a"
  by (induction xs arbitrary: a) auto

definition area_step :: "TreeNode \<Rightarrow> bool list \<Rightarrow> string \<Rightarrow> string" where
  "area_step t q sArea = (case area_at q t of (c, p, ci) \<Rightarrow> if ci \<noteq> [] then area_text c p ci else sArea)"

lemma area_walk_fold: "area_walk bs t sArea = fold (area_step t) (prefixes_of bs) sArea"
proof (induction bs t sArea rule: area_walk.induct)
  case (2 b bs t sArea)
  show ?case
  proof (cases "if b then m_pRight t else m_pLeft t")
    case None
    then have "area_step t (b # q) = id" for q by (simp add: area_step_def fun_eq_iff)
    then have "fold (area_step t) (prefixes_of (b # bs)) sArea = sArea"
      by (intro fold_idle) (auto simp: prefixes_of_Cons)
    with None show ?thesis by (auto split: if_splits)
  next
    case (Some n)
    then have "area_step t (b # q) = area_step n q" for q by (simp add: area_step_def fun_eq_iff)
    then have "fold (area_step t) (prefixes_of (b # bs)) sArea =
        fold (area_step n) (prefixes_of bs) (area_step n [] sArea)"
      by (simp add: prefixes_of_Cons fold_map comp_def)
    moreover have "area_step n [] sArea = (if m_sCity n \<noteq> [] then node_area n else sArea)"
      by (simp add: area_step_def node_area_def)
    ultimately show ?thesis using Some 2 by (auto split: if_splits)
  qed
qed (simp add: prefixes_of_def)

section \<open>A table of networks and its linear search\<close>

text \<open>
  An entry of the document: an address, the length of its mask, the province and the city. A network covers an address when the
  two agree in the bits of the mask; one of length 0 covers every address. The reference scans all entries and keeps one that
  covers the address and whose mask is not shorter than the best so far.
\<close>

type_synonym area_entry = "string \<times> UINT \<times> string \<times> string"

fun entry_node :: "area_entry \<Rightarrow> xml_node" where
  "entry_node (addr, m, p, ci) =
     (True, [(''prov'', Some p), (''city'', Some ci), (''addr'', Some addr), (''mask'', Some (fmt_d m))])"

fun entry_mask :: "area_entry \<Rightarrow> nat" where
  "entry_mask (addr, m, p, ci) = unat m"

fun covers :: "(string \<Rightarrow> UINT) \<Rightarrow> UINT \<Rightarrow> area_entry \<Rightarrow> bool" where
  "covers aton ip (addr, m, p, ci) \<longleftrightarrow> drop_bit (32 - unat m) (aton addr) = drop_bit (32 - unat m) ip"

text \<open>The entries that \<^verbatim>\<open>AddTree\<close> puts below the root; the others, default networks, give the area of the root.\<close>

fun below_root :: "area_entry \<Rightarrow> bool" where
  "below_root (addr, m, p, ci) \<longleftrightarrow> addr \<noteq> ''0.0.0.0'' \<and> 0 < m"

fun longest_match :: "(string \<Rightarrow> UINT) \<Rightarrow> UINT \<Rightarrow> area_entry list \<Rightarrow> area_entry option \<Rightarrow> area_entry option" where
  "longest_match aton ip [] best = best"
| "longest_match aton ip (e # es) best =
     longest_match aton ip es
       (if covers aton ip e \<and> (case best of None \<Rightarrow> True | Some b \<Rightarrow> entry_mask b \<le> entry_mask e) then Some e else best)"

fun entry_ok :: "area_entry \<Rightarrow> bool" where
  "entry_ok (addr, m, p, ci) \<longleftrightarrow> unat m \<le> 32 \<and> ci \<noteq> []"

lemma bit_mask: "i < 32 \<Longrightarrow> (drop_bit i 0x80000000 AND (w :: UINT) \<noteq> 0) \<longleftrightarrow> bit w (31 - i)"
proof -
  assume i: "i < 32"
  have "drop_bit i 0x80000000 = (push_bit (31 - i) 1 :: UINT)"
  proof (rule bit_word_eqI)
    have "(0x80000000 :: UINT) = push_bit 31 1" by simp
    then show "bit (drop_bit i 0x80000000 :: UINT) n \<longleftrightarrow> bit (push_bit (31 - i) 1 :: UINT) n" if "n < LENGTH(32)" for n
      using i that by (simp only: bit_drop_bit_eq comp_def bit_push_bit_iff bit_1_iff) auto
  qed
  then show ?thesis using i by (simp add: and_exp_eq_0_iff_not_bit push_bit_eq_mult and.commute [of _ w])
qed

lemma addr_bits_nth: "i < n \<Longrightarrow> n \<le> 32 \<Longrightarrow> addr_bits w n ! i \<longleftrightarrow> bit w (31 - i)"
  by (simp add: addr_bits_def bit_mask)

lemma take_addr_bits: "n \<le> 32 \<Longrightarrow> take n (addr_bits w 32) = addr_bits w n"
  by (simp add: addr_bits_def take_map del: upt_Suc)

lemma addr_bits_eq:
  assumes "m \<le> 32" "n \<le> 32"
  shows "addr_bits v m = addr_bits w n \<longleftrightarrow> m = n \<and> drop_bit (32 - m) v = drop_bit (32 - m) w"
proof (cases "m = n")
  case True
  have "addr_bits v m = addr_bits w m \<longleftrightarrow> (\<forall>i < m. bit v (31 - i) \<longleftrightarrow> bit w (31 - i))"
    using assms(1) by (auto simp: list_eq_iff_nth_eq addr_bits_nth addr_bits_def [of _ m] bit_mask)
  also have "\<dots> \<longleftrightarrow> (\<forall>k < m. bit v (32 - m + k) \<longleftrightarrow> bit w (32 - m + k))"
  proof (rule iffI; intro allI impI)
    fix k assume a: "\<forall>i < m. bit v (31 - i) \<longleftrightarrow> bit w (31 - i)" and "k < m"
    then have "m - 1 - k < m" by simp
    with a have "bit v (31 - (m - 1 - k)) \<longleftrightarrow> bit w (31 - (m - 1 - k))" by blast
    moreover have "31 - (m - 1 - k) = 32 - m + k" using assms(1) \<open>k < m\<close> by simp
    ultimately show "bit v (32 - m + k) \<longleftrightarrow> bit w (32 - m + k)" by (simp only:)
  next
    fix i assume a: "\<forall>k < m. bit v (32 - m + k) \<longleftrightarrow> bit w (32 - m + k)" and "i < m"
    then have "m - 1 - i < m" by simp
    with a have "bit v (32 - m + (m - 1 - i)) \<longleftrightarrow> bit w (32 - m + (m - 1 - i))" by blast
    moreover have "32 - m + (m - 1 - i) = 31 - i" using assms(1) \<open>i < m\<close> by simp
    ultimately show "bit v (31 - i) \<longleftrightarrow> bit w (31 - i)" by (simp only:)
  qed
  also have "\<dots> \<longleftrightarrow> drop_bit (32 - m) v = drop_bit (32 - m) w"
  proof
    assume a: "\<forall>k < m. bit v (32 - m + k) \<longleftrightarrow> bit w (32 - m + k)"
    show "drop_bit (32 - m) v = drop_bit (32 - m) w"
    proof (rule bit_word_eqI)
      fix k assume "k < LENGTH(32)"
      show "bit (drop_bit (32 - m) v) k \<longleftrightarrow> bit (drop_bit (32 - m) w) k"
        using a assms(1) by (cases "k < m") (auto simp: bit_drop_bit_eq dest!: bit_imp_le_length)
    qed
  next
    assume a: "drop_bit (32 - m) v = drop_bit (32 - m) w"
    have "bit (drop_bit (32 - m) v) k \<longleftrightarrow> bit (drop_bit (32 - m) w) k" for k by (simp only: a)
    then show "\<forall>k < m. bit v (32 - m + k) \<longleftrightarrow> bit w (32 - m + k)" by (simp add: bit_drop_bit_eq)
  qed
  finally show ?thesis using True by simp
next
  case False
  then have "length (addr_bits v m) \<noteq> length (addr_bits w n)" by (simp add: addr_bits_def)
  with False show ?thesis by metis
qed

section \<open>The tree after a load\<close>

fun entry_path :: "(string \<Rightarrow> UINT) \<Rightarrow> area_entry \<Rightarrow> bool list" where
  "entry_path aton (addr, m, p, ci) = (if addr = ''0.0.0.0'' then [] else addr_bits (aton addr) (unat m))"

fun put_entry :: "(string \<Rightarrow> UINT) \<Rightarrow> area_entry \<Rightarrow> TreeNode \<Rightarrow> TreeNode" where
  "put_entry aton (addr, m, p, ci) = tree_set (entry_path aton (addr, m, p, ci)) ''0086'' p ci"

lemma area_nodes_entries:
  "list_all entry_ok es \<Longrightarrow> area_nodes aton (map entry_node es) st t = Inr (AD_SUCCESS, fold (put_entry aton) es t)"
proof (induction es arbitrary: st t)
  case (Cons e es)
  then show ?case by (cases e) (auto simp: Let_def AddTree_def atoi_fmt_d)
qed simp

lemma entry_path_covers:
  "list_all entry_ok [e] \<Longrightarrow> 0 < n \<Longrightarrow> n \<le> 32 \<Longrightarrow>
    entry_path aton e = addr_bits ip n \<longleftrightarrow> below_root e \<and> covers aton ip e \<and> entry_mask e = n"
proof (cases e)
  case (fields addr m p ci)
  assume e: "list_all entry_ok [e]" "0 < n" "n \<le> 32"
  then have "addr_bits ip n \<noteq> []" by (simp add: addr_bits_def)
  moreover have "0 < m \<longleftrightarrow> 0 < unat m" by (simp add: word_less_nat_alt)
  ultimately show ?thesis using e by (auto simp: fields addr_bits_eq)
qed

text \<open>The last entry of a network of length \<open>n\<close> around the address.\<close>

definition last_cover :: "(string \<Rightarrow> UINT) \<Rightarrow> UINT \<Rightarrow> area_entry list \<Rightarrow> nat \<Rightarrow> area_entry option" where
  "last_cover aton ip es n = find (\<lambda>e. covers aton ip e \<and> entry_mask e = n) (rev es)"

lemma area_at_entries:
  assumes "list_all entry_ok es" "0 < n" "n \<le> 32"
  shows "area_at (addr_bits ip n) (fold (put_entry aton) es tree_new) =
    (case last_cover aton ip (filter below_root es) n of None \<Rightarrow> ([], [], []) | Some (_, _, p, ci) \<Rightarrow> (''0086'', p, ci))"
  using assms(1)
proof (induction es rule: rev_induct)
  case (snoc e es)
  have "entry_path aton e = addr_bits ip n \<longleftrightarrow> below_root e \<and> covers aton ip e \<and> entry_mask e = n"
    using snoc.prems assms(2,3) by (intro entry_path_covers) simp_all
  with snoc show ?case
    by (cases e) (auto simp: area_at_set last_cover_def eq_commute [of "addr_bits ip n"] simp del: entry_path.simps)
qed (simp add: last_cover_def)

text \<open>The area of the root is that of the last default network.\<close>

lemma entry_path_root: "entry_path aton e = [] \<longleftrightarrow> \<not> below_root e"
  by (cases e) (auto simp: addr_bits_def word_less_nat_alt)

lemma area_at_root:
  "area_at [] (fold (put_entry aton) es tree_new) =
    (case find (\<lambda>e. \<not> below_root e) (rev es) of None \<Rightarrow> ([], [], []) | Some (_, _, p, ci) \<Rightarrow> (''0086'', p, ci))"
proof (induction es rule: rev_induct)
  case (snoc e es)
  obtain addr m p ci where e: "e = (addr, m, p, ci)" by (metis prod_cases4)
  have "area_at [] (put_entry aton e t) = (if \<not> below_root e then (''0086'', p, ci) else area_at [] t)" for t
    using area_at_set [of "[]" "entry_path aton e" "''0086''" p ci t] entry_path_root [of aton e]
    by (simp add: e eq_commute [of "[]"] del: entry_path.simps below_root.simps area_at_simps)
  with snoc show ?case by (simp add: e del: area_at_simps below_root.simps)
qed (simp add: tree_new_def)

text \<open>The linear search finds the last entry of the longest network.\<close>

lemma longest_match_append: "longest_match aton ip (es @ es') best = longest_match aton ip es' (longest_match aton ip es best)"
  by (induction es arbitrary: best) auto

lemma last_cover_None: "last_cover aton ip es n = None \<longleftrightarrow> (\<forall>e \<in> set es. covers aton ip e \<longrightarrow> entry_mask e \<noteq> n)"
  unfolding last_cover_def find_None_iff set_rev by blast

lemma find_in: "find P xs = Some x \<Longrightarrow> x \<in> set xs \<and> P x"
  by (induction xs) (auto split: if_splits)

lemma longest_match_best:
  "case longest_match aton ip es None of
     None \<Rightarrow> \<forall>e \<in> set es. \<not> covers aton ip e
   | Some b \<Rightarrow> b \<in> set es \<and> covers aton ip b \<and> last_cover aton ip es (entry_mask b) = Some b \<and>
       (\<forall>e \<in> set es. covers aton ip e \<longrightarrow> entry_mask e \<le> entry_mask b)"
proof (induction es rule: rev_induct)
  case (snoc e es)
  then show ?case
    by (auto simp: longest_match_append last_cover_def split: option.splits if_splits)
qed simp

lemma find_last_upt:
  "P n \<Longrightarrow> a \<le> n \<Longrightarrow> n < b \<Longrightarrow> \<forall>m. n < m \<and> m < b \<longrightarrow> \<not> P m \<Longrightarrow> find P (rev [a..<b]) = Some n"
  by (induction b) (auto simp: less_Suc_eq)

lemma longest_match_last:
  assumes "list_all entry_ok es" "list_all below_root es"
  shows "longest_match aton ip es None = (case find (\<lambda>n. last_cover aton ip es n \<noteq> None) (rev [1..<33]) of
    None \<Rightarrow> None | Some n \<Rightarrow> last_cover aton ip es n)"
proof (cases "longest_match aton ip es None")
  case None
  then have "last_cover aton ip es n = None" for n
    using longest_match_best [where aton = aton and ip = ip and es = es] by (simp add: last_cover_None)
  then have "find (\<lambda>n. last_cover aton ip es n \<noteq> None) (rev [1..<33]) = None" by (simp add: find_None_iff)
  with None show ?thesis by simp
next
  case (Some b)
  then have b: "b \<in> set es" "covers aton ip b" "last_cover aton ip es (entry_mask b) = Some b"
    "\<forall>e \<in> set es. covers aton ip e \<longrightarrow> entry_mask e \<le> entry_mask b"
    using longest_match_best [where aton = aton and ip = ip and es = es] by simp_all
  have "entry_ok b" "below_root b" using assms b(1) by (simp_all add: list_all_iff)
  then have "1 \<le> entry_mask b" "entry_mask b < 33"
    by (cases b; auto simp: word_less_nat_alt Suc_le_eq)+
  moreover have "\<forall>m. entry_mask b < m \<and> m < 33 \<longrightarrow> last_cover aton ip es m = None"
    using b(4) by (auto simp: last_cover_None)
  ultimately have "find (\<lambda>n. last_cover aton ip es n \<noteq> None) (rev [1..<33]) = Some (entry_mask b)"
    using b(3) by (intro find_last_upt) auto
  with Some b(3) show ?thesis by simp
qed

lemma find_cong_set: "(\<And>x. x \<in> set xs \<Longrightarrow> P x = Q x) \<Longrightarrow> find P xs = find Q xs"
  by (induction xs) auto

section \<open>Property\<close>

text \<open>
  C11. A document whose networks have a length of at most 32 and a city is loaded. The area of an address other than
  \<open>0.0.0.0\<close> is that of the longest network around it, the last one of the document among equals, as a linear search over the
  document finds it, but default networks are left out: those of length 0 and those that are written \<open>0.0.0.0\<close>. When no other
  network covers the address, its area stays as it was, although a default network may cover it. The address \<open>0.0.0.0\<close> itself
  has the area of the last default network, or an empty one.
\<close>

theorem area_longest_prefix:
  assumes "list_all entry_ok es"
  shows "\<exists>t. AdIpAreaInit aton garbage (Some (Some (map entry_node es))) tree_new = Inr (AD_SUCCESS, t) \<and>
    (\<forall>sAddr sArea. aton sAddr \<noteq> 0 \<longrightarrow> AdIpAreaGet aton sAddr t sArea =
      (case longest_match aton (aton sAddr) (filter below_root es) None of
         None \<Rightarrow> sArea
       | Some (_, _, p, ci) \<Rightarrow> area_text ''0086'' p ci)) \<and>
    (\<forall>sAddr sArea. aton sAddr = 0 \<longrightarrow> AdIpAreaGet aton sAddr t sArea =
      (case find (\<lambda>e. \<not> below_root e) (rev es) of
         None \<Rightarrow> area_text [] [] []
       | Some (_, _, p, ci) \<Rightarrow> area_text ''0086'' p ci))"
proof (intro exI conjI allI impI)
  let ?t = "fold (put_entry aton) es tree_new" and ?es = "filter below_root es"
  show "AdIpAreaInit aton garbage (Some (Some (map entry_node es))) tree_new = Inr (AD_SUCCESS, ?t)"
    using assms by (simp add: AdIpAreaInit_def area_nodes_entries)
  have ok: "list_all entry_ok ?es" "list_all below_root ?es" using assms by (simp_all add: list_all_iff)
  show "AdIpAreaGet aton sAddr ?t sArea = (case find (\<lambda>e. \<not> below_root e) (rev es) of
      None \<Rightarrow> area_text [] [] [] | Some (_, _, p, ci) \<Rightarrow> area_text ''0086'' p ci)" if "aton sAddr = 0" for sAddr sArea
    using that area_at_root [of aton es] by (auto simp: AdIpAreaGet_def node_area_def split: option.splits prod.splits)
  fix sAddr sArea
  let ?ip = "aton sAddr"
  let ?c = "\<lambda>n. last_cover aton ?ip ?es n" and ?a = "\<lambda>n. area_at (addr_bits ?ip n) ?t"
  assume "?ip \<noteq> 0"
  then have "AdIpAreaGet aton sAddr ?t sArea = fold (area_step ?t) (map (\<lambda>n. take n (addr_bits ?ip 32)) [1..<33]) sArea"
    by (simp add: AdIpAreaGet_def area_walk_fold prefixes_of_def addr_bits_def del: upt_Suc)
  also have "\<dots> = fold (\<lambda>n acc. if snd (snd (?a n)) \<noteq> [] then (case ?a n of (c, p, ci) \<Rightarrow> area_text c p ci) else acc) [1..<33] sArea"
    unfolding fold_map
    by (intro fold_cong) (auto simp: area_step_def take_addr_bits fun_eq_iff comp_def split: prod.split)
  also have "\<dots> = (case find (\<lambda>n. snd (snd (?a n)) \<noteq> []) (rev [1..<33]) of
      None \<Rightarrow> sArea | Some n \<Rightarrow> (case ?a n of (c, p, ci) \<Rightarrow> area_text c p ci))" by (rule fold_last_find)
  also have "find (\<lambda>n. snd (snd (?a n)) \<noteq> []) (rev [1..<33]) = find (\<lambda>n. ?c n \<noteq> None) (rev [1..<33])"
  proof (rule find_cong_set)
    fix n assume "n \<in> set (rev [1..<33])"
    then have n: "0 < n" "n \<le> 32" by auto
    have "ci \<noteq> []" if "?c n = Some (ad, m, p, ci)" for ad m p ci
      using find_in [OF that [unfolded last_cover_def]] ok(1) by (force simp: list_all_iff)
    then show "(snd (snd (?a n)) \<noteq> []) = (?c n \<noteq> None)"
      by (auto simp: area_at_entries [OF assms n] split: option.split)
  qed
  also have "(case \<dots> of None \<Rightarrow> sArea | Some n \<Rightarrow> (case ?a n of (c, p, ci) \<Rightarrow> area_text c p ci)) =
      (case longest_match aton ?ip ?es None of None \<Rightarrow> sArea | Some (_, _, p, ci) \<Rightarrow> area_text ''0086'' p ci)"
  proof (cases "find (\<lambda>n. ?c n \<noteq> None) (rev [1..<33])")
    case (Some n)
    from find_in [OF this] have "0 < n" "n \<le> 32" "?c n \<noteq> None" by auto
    then show ?thesis using Some
      by (auto simp: longest_match_last [OF ok] area_at_entries [OF assms])
  qed (simp add: longest_match_last [OF ok])
  finally show "AdIpAreaGet aton sAddr ?t sArea = \<dots>" .
qed

text \<open>Two networks of which the longer one decides, a default network, and an address outside both.\<close>

definition demo_aton :: "string \<Rightarrow> UINT" where
  "demo_aton s = (if s = ''10.0.0.0'' then 0x0A000000 else if s = ''10.1.0.0'' then 0x0A010000
     else if s = ''10.1.2.3'' then 0x0A010203 else if s = ''10.9.9.9'' then 0x0A090909
     else if s = ''0.0.0.0'' then 0 else 0xC0A80101)"

definition demo_networks :: "area_entry list" where
  "demo_networks = [(''10.1.0.0'', 16, ''01'', ''23''), (''10.0.0.0'', 8, ''02'', ''45''), (''0.0.0.0'', 0, ''00'', ''99'')]"

lemma area_longest_prefix_witness:
  "\<exists>t. AdIpAreaInit demo_aton 0 (Some (Some (map entry_node demo_networks))) tree_new = Inr (AD_SUCCESS, t) \<and>
    AdIpAreaGet demo_aton ''10.1.2.3'' t [] = ''0086-01-23'' \<and> AdIpAreaGet demo_aton ''10.9.9.9'' t [] = ''0086-02-45'' \<and>
    AdIpAreaGet demo_aton ''192.168.1.1'' t [] = [] \<and> AdIpAreaGet demo_aton ''0.0.0.0'' t [] = ''0086-00-99''"
proof -
  have ok: "list_all entry_ok demo_networks" by code_simp
  obtain t where t: "AdIpAreaInit demo_aton 0 (Some (Some (map entry_node demo_networks))) tree_new = Inr (AD_SUCCESS, t)"
    and get: "\<And>sAddr sArea. demo_aton sAddr \<noteq> 0 \<Longrightarrow> AdIpAreaGet demo_aton sAddr t sArea =
      (case longest_match demo_aton (demo_aton sAddr) (filter below_root demo_networks) None of
         None \<Rightarrow> sArea | Some (_, _, p, ci) \<Rightarrow> area_text ''0086'' p ci)"
    and root: "\<And>sAddr sArea. demo_aton sAddr = 0 \<Longrightarrow> AdIpAreaGet demo_aton sAddr t sArea =
      (case find (\<lambda>e. \<not> below_root e) (rev demo_networks) of
         None \<Rightarrow> area_text [] [] [] | Some (_, _, p, ci) \<Rightarrow> area_text ''0086'' p ci)"
    using area_longest_prefix [OF ok, of demo_aton 0] by blast
  have n: "demo_aton ''10.1.2.3'' \<noteq> 0" "demo_aton ''10.9.9.9'' \<noteq> 0" "demo_aton ''192.168.1.1'' \<noteq> 0" "demo_aton ''0.0.0.0'' = 0"
    by (simp_all add: demo_aton_def)
  have m: "longest_match demo_aton (demo_aton ''10.1.2.3'') (filter below_root demo_networks) None = Some (''10.1.0.0'', 16, ''01'', ''23'')"
    "longest_match demo_aton (demo_aton ''10.9.9.9'') (filter below_root demo_networks) None = Some (''10.0.0.0'', 8, ''02'', ''45'')"
    "longest_match demo_aton (demo_aton ''192.168.1.1'') (filter below_root demo_networks) None = None"
    "find (\<lambda>e. \<not> below_root e) (rev demo_networks) = Some (''0.0.0.0'', 0, ''00'', ''99'')" by code_simp+
  show ?thesis
    using t get [OF n(1)] get [OF n(2)] get [OF n(3)] root [OF n(4)] m by (auto simp: area_text_def)
qed

end
