(* ===== verification/AdAdapter.thy ===== *)
theory AdAdapter
  imports AdAdapterMethod AdSession AdIpArea AdRtbNetProtocol
begin

text \<open>
  The adapter between the exchanges and the bidders: \<^verbatim>\<open>adapter/AdAdapter.cpp\<close>, \<^verbatim>\<open>inc/AdAdapter.h\<close> and \<^verbatim>\<open>inc/AdParaList.h\<close>. Sessions and
  parameter objects are named by numbers, from 1 on; the state maps them to their contents. The list of waiting requests of a bidder,
  an \<^verbatim>\<open>AdParaList\<close>, is the private object of its session. The locks of the lists are held for one operation each, and an operation
  runs as a whole. \<open>w_writes\<close> holds what the next calls of \<^verbatim>\<open>write\<close> do. Printing is left out, and allocations succeed.
\<close>

section \<open>The counters\<close>

record AdAdapterTaskStatus =
  ts_uiAll :: UINT
  ts_uiAllRate :: UINT
  ts_uiAllNum :: UINT
  ts_uiError :: UINT
  ts_uiErrorRate :: UINT
  ts_uiErrorNum :: UINT
  ts_uiRequest :: UINT
  ts_uiRequestRate :: UINT
  ts_uiRequestNum :: UINT
  ts_uiResponse :: UINT
  ts_uiResponseRate :: UINT
  ts_uiResponseNum :: UINT
  ts_uiTimeout :: UINT
  ts_uiTimeoutRate :: UINT
  ts_uiTimeoutNum :: UINT
  ts_ctLastTime :: Time

definition status_new :: "Time \<Rightarrow> AdAdapterTaskStatus" where
  "status_new now = \<lparr>ts_uiAll = 0, ts_uiAllRate = 0, ts_uiAllNum = 0, ts_uiError = 0, ts_uiErrorRate = 0, ts_uiErrorNum = 0,
     ts_uiRequest = 0, ts_uiRequestRate = 0, ts_uiRequestNum = 0, ts_uiResponse = 0, ts_uiResponseRate = 0, ts_uiResponseNum = 0,
     ts_uiTimeout = 0, ts_uiTimeoutRate = 0, ts_uiTimeoutNum = 0, ts_ctLastTime = now\<rparr>"

definition StatusAdd :: "Time \<Rightarrow> AdAdapterTaskStatus \<Rightarrow> AdAdapterTaskStatus" where
  "StatusAdd now s =
     (let s = (if toNow now (ts_ctLastTime s) > 1000000
        then s\<lparr>ts_uiRequestRate := ts_uiRequestNum s, ts_uiResponseRate := ts_uiResponseNum s, ts_uiAllRate := ts_uiAllNum s,
               ts_uiErrorRate := ts_uiErrorNum s, ts_uiTimeoutRate := ts_uiTimeoutNum s, ts_uiAllNum := 0, ts_uiErrorNum := 0,
               ts_uiRequestNum := 0, ts_uiResponseNum := 0, ts_uiTimeoutNum := 0, ts_ctLastTime := now\<rparr>
        else s)
      in s\<lparr>ts_uiAll := ts_uiAll s + 1, ts_uiAllNum := ts_uiAllNum s + 1\<rparr>)"

definition StatusAddError :: "AdAdapterTaskStatus \<Rightarrow> AdAdapterTaskStatus" where
  "StatusAddError s = s\<lparr>ts_uiError := ts_uiError s + 1, ts_uiErrorNum := ts_uiErrorNum s + 1\<rparr>"

definition StatusAddTimeout :: "AdAdapterTaskStatus \<Rightarrow> AdAdapterTaskStatus" where
  "StatusAddTimeout s = s\<lparr>ts_uiTimeout := ts_uiTimeout s + 1, ts_uiTimeoutNum := ts_uiTimeoutNum s + 1\<rparr>"

definition StatusAddRequest :: "AdAdapterTaskStatus \<Rightarrow> AdAdapterTaskStatus" where
  "StatusAddRequest s = s\<lparr>ts_uiRequest := ts_uiRequest s + 1, ts_uiRequestNum := ts_uiRequestNum s + 1\<rparr>"

definition StatusAddResponse :: "AdAdapterTaskStatus \<Rightarrow> AdAdapterTaskStatus" where
  "StatusAddResponse s = s\<lparr>ts_uiResponse := ts_uiResponse s + 1, ts_uiResponseNum := ts_uiResponseNum s + 1\<rparr>"

section \<open>The state\<close>

text \<open>The virtual functions of a protocol.\<close>

record 'p AdProtocol =
  HttpToInternal :: "'p AdAdapterPara \<Rightarrow> (int \<times> 'p AdAdapterPara) cxx"
  InternalToHttp :: "'p AdAdapterPara \<Rightarrow> (int \<times> 'p AdAdapterPara) cxx"
  EmptyToHttp :: "'p AdAdapterPara \<Rightarrow> (int \<times> 'p AdAdapterPara) cxx"

record 'p AdAdapter =
  m_ctLocalSession :: AdLRBuffer
  m_ctNetSession :: AdLRBuffer
  m_ctFreePara :: "nat list"
  m_ctProcessMsg :: AdProcessMsg
  w_uiLoop :: UINT
  w_pState :: "AdAdapterTaskStatus option"
  w_paras :: "nat \<Rightarrow> 'p AdAdapterPara"
  w_next :: nat
  w_sessions :: "nat \<Rightarrow> nat list AdSession"
  w_writes :: "tcp_write list"

text \<open>
  What a call reads: the tables that are in use, the protocols behind the objects, \<^verbatim>\<open>inet_addr\<close>, zlib, the readings of the clock, the
  content of new memory, and which log queues take a message.
\<close>

record 'p adapter_env =
  ae_method :: AdAdapterMethod
  ae_proto :: "nat \<Rightarrow> 'p AdProtocol"
  ae_aton :: "string \<Rightarrow> UINT"
  ae_area :: TreeNode
  ae_debug :: "(string \<times> int) list"
  ae_ban :: AdAdpFilterBan
  ae_compress :: "nat \<Rightarrow> string \<Rightarrow> string"
  ae_uncompress :: "nat \<Rightarrow> string \<Rightarrow> string"
  ae_alloc :: Time
  ae_status :: Time
  ae_life :: "nat \<Rightarrow> Time"
  ae_new :: "'p AdAdapterPara"
  ae_mem :: string
  ae_takes :: "nat \<Rightarrow> bool"

definition on_para :: "nat \<Rightarrow> ('p AdAdapterPara \<Rightarrow> 'p AdAdapterPara) \<Rightarrow> 'p AdAdapter \<Rightarrow> 'p AdAdapter" where
  "on_para n f w = w\<lparr>w_paras := (w_paras w)(n := f (w_paras w n))\<rparr>"

definition on_session :: "nat \<Rightarrow> (nat list AdSession \<Rightarrow> nat list AdSession) \<Rightarrow> 'p AdAdapter \<Rightarrow> 'p AdAdapter" where
  "on_session n f w = w\<lparr>w_sessions := (w_sessions w)(n := f (w_sessions w n))\<rparr>"

text \<open>\<^verbatim>\<open>AdAdapterAddStatus\<close>, where the task has no counters yet, and the counting.\<close>

definition add_status ::
    "'p adapter_env \<Rightarrow> (AdAdapterTaskStatus \<Rightarrow> AdAdapterTaskStatus) \<Rightarrow> 'p AdAdapter \<Rightarrow> 'p AdAdapter" where
  "add_status env f w = w\<lparr>w_pState := Some (f (case w_pState w of None \<Rightarrow> status_new (ae_status env) | Some s \<Rightarrow> s))\<rparr>"

text \<open>A direct write of a session: the next event is used; without one the kernel takes nothing.\<close>

definition next_write :: "'p AdAdapter \<Rightarrow> tcp_write \<times> 'p AdAdapter" where
  "next_write w = (case w_writes w of [] \<Rightarrow> (WriteAgain, w) | ev # evs \<Rightarrow> (ev, w\<lparr>w_writes := evs\<rparr>))"

definition write_cache :: "'p adapter_env \<Rightarrow> nat \<Rightarrow> AdCache \<Rightarrow> 'p AdAdapter \<Rightarrow> 'p AdAdapter cxx" where
  "write_cache env n c w =
     (let (ev, w) = next_write w in
      bind_cxx (AdSessionWrite ev (ae_mem env) c (w_sessions w n)) (\<lambda>(_, s). Inr (on_session n (\<lambda>_. s) w)))"

definition write_bytes :: "'p adapter_env \<Rightarrow> nat \<Rightarrow> string \<Rightarrow> int \<Rightarrow> 'p AdAdapter \<Rightarrow> 'p AdAdapter cxx" where
  "write_bytes env n bytes iLen w =
     (let (ev, w) = next_write w in
      bind_cxx (AdSessionWrite_bytes ev (ae_mem env) bytes iLen (w_sessions w n)) (\<lambda>(_, s). Inr (on_session n (\<lambda>_. s) w)))"

section \<open>The parameter objects\<close>

definition AllocPara :: "'p adapter_env \<Rightarrow> 'p AdAdapter \<Rightarrow> nat \<times> 'p AdAdapter" where
  "AllocPara env w =
     (case m_ctFreePara w of
        n # ns \<Rightarrow> (n, on_para n (para_clear (ae_alloc env)) (w\<lparr>m_ctFreePara := ns\<rparr>))
      | [] \<Rightarrow> (w_next w, on_para (w_next w) (\<lambda>_. para_clear (ae_alloc env) (ae_new env)) (w\<lparr>w_next := w_next w + 1\<rparr>)))"

text \<open>The buffer of free objects has \<^verbatim>\<open>AD_KBYTES4 * 400\<close> places; an object that finds it full is deleted.\<close>

definition FREE_MAX :: nat where
  "FREE_MAX = 1638400"

definition FreePara :: "nat \<Rightarrow> 'p AdAdapter \<Rightarrow> 'p AdAdapter" where
  "FreePara n w = (if length (m_ctFreePara w) < FREE_MAX then w\<lparr>m_ctFreePara := m_ctFreePara w @ [n]\<rparr> else w)"

definition AdAdapterPutMsg :: "'p adapter_env \<Rightarrow> 'p AdAdapterPara \<Rightarrow> AdProcessMsg \<Rightarrow> AdProcessMsg cxx" where
  "AdAdapterPutMsg env p q =
     bind_cxx (if m_ucType (m_ctCacheReq p) = AD_MSG_TYPE_REQUEST \<or> m_ucType (m_ctCacheReq p) = AD_MSG_TYPE_REQUEST_BIDDING
               then AdProcessMsgPut (ae_takes env) (m_ctCacheReq p) q else Inr q) (\<lambda>q.
       if m_ucType (m_ctCacheRes p) = AD_MSG_TYPE_RESPONSE then AdProcessMsgPut (ae_takes env) (m_ctCacheRes p) q else Inr q)"

section \<open>Requests\<close>

definition AD_AREA_ALL :: string where
  "AD_AREA_ALL = ''0086-ffff-ffff''"

text \<open>From the text of the exchange to the request: the result and the object; whether a request was counted.\<close>

definition request_area :: "'p adapter_env \<Rightarrow> AdRtbRequest \<Rightarrow> AdRtbRequest" where
  "request_area env r =
     (let sArea = AdIpAreaGet (ae_aton env) (m_sUserIP r) (ae_area env) (m_sArea r)
      in r\<lparr>m_sArea := if sArea = [] then AD_AREA_ALL else sArea\<rparr>)"

definition request_parse :: "'p adapter_env \<Rightarrow> 'p AdAdapterPara \<Rightarrow> (int \<times> 'p AdAdapterPara) cxx" where
  "request_parse env p =
     bind_cxx (method_Get (ae_method env) p) (\<lambda>(ret, p).
       if ret \<noteq> AD_SUCCESS then Inr (AD_FAILURE, p)
       else case m_pAdxMethod p of
         None \<Rightarrow> Inr (AD_FAILURE, p)
       | Some t \<Rightarrow> bind_cxx (HttpToInternal (ae_proto env t) p) (\<lambda>(ret, p).
           Inr (if ret \<noteq> AD_SUCCESS then AD_FAILURE else AD_SUCCESS, p)))"

definition request_tlv :: "'p adapter_env \<Rightarrow> 'p AdAdapterPara \<Rightarrow> (int \<times> 'p AdAdapterPara) cxx" where
  "request_tlv env p =
     (let p = on_request (request_area env) p; msg = (m_ctCacheReq p)\<lparr>m_ucType := AD_MSG_TYPE_REQUEST\<rparr> in
      bind_cxx (InternalToTlv_req (ae_compress env) AdRtbProtocol_init (m_ctRequest p) (m_uMsg msg) 8192) (\<lambda>(len, _, mem).
        let p = p\<lparr>m_ctCacheReq := msg\<lparr>m_iLength := len, m_uMsg := mem\<rparr>\<rparr> in
        if len \<le> 0 then Inr (AD_FAILURE, p)
        else
          let p = (if map_of (ae_debug env) (m_sUserIP (m_ctRequest p)) \<noteq> None then p\<lparr>m_bDebugUser := True\<rparr> else p)
          in Inr (if ban_Match (ae_ban env) (m_ctRequest p) then AD_FAILURE else AD_SUCCESS, p)))"

definition AdAdapterToInternal :: "'p adapter_env \<Rightarrow> nat \<Rightarrow> 'p AdAdapter \<Rightarrow> (int \<times> 'p AdAdapter) cxx" where
  "AdAdapterToInternal env n w =
     (let w = add_status env (StatusAdd (ae_status env)) w in
      bind_cxx (request_parse env (w_paras w n)) (\<lambda>(ret, p).
        if ret \<noteq> AD_SUCCESS then Inr (AD_FAILURE, on_para n (\<lambda>_. p) w)
        else bind_cxx (request_tlv env p) (\<lambda>(ret, p).
          Inr (ret, on_para n (\<lambda>_. p) (add_status env StatusAddRequest w)))))"

section \<open>Responses\<close>

text \<open>The response of a bidder, local (in the object) or remote (in \<^verbatim>\<open>m_ctCacheRes\<close>), before it is written for the exchange.\<close>

definition response_tlv :: "'p adapter_env \<Rightarrow> bool \<Rightarrow> 'p AdAdapterPara \<Rightarrow> (int \<times> 'p AdAdapterPara) cxx" where
  "response_tlv env bTlv p =
     (if bTlv then
        bind_cxx (TlvToInternal_res (ae_uncompress env) AdRtbProtocol_init (m_uMsg (m_ctCacheRes p)) (m_iLength (m_ctCacheRes p)))
          (\<lambda>(ret, _, res). Inr (if ret \<noteq> AD_SUCCESS then AD_FAILURE else AD_SUCCESS, p\<lparr>m_ctResponse := res\<rparr>))
      else if m_r_uiAdx (m_ctResponse p) = 0 then Inr (AD_FAILURE, p)
      else
        bind_cxx (InternalToTlv_res (ae_compress env) AdRtbProtocol_init (m_ctResponse p) (m_uMsg (m_ctCacheRes p)) 8192)
          (\<lambda>(len, _, mem). Inr (if len \<le> 0 then AD_FAILURE else AD_SUCCESS,
             p\<lparr>m_ctCacheRes := (m_ctCacheRes p)\<lparr>m_iLength := len, m_uMsg := mem\<rparr>\<rparr>)))"

definition mark_bidding :: "'p AdAdapterPara \<Rightarrow> 'p AdAdapterPara" where
  "mark_bidding p = p\<lparr>m_ctCacheReq := (m_ctCacheReq p)\<lparr>m_ucType := AD_MSG_TYPE_REQUEST_BIDDING\<rparr>,
     m_ctCacheRes := (m_ctCacheRes p)\<lparr>m_ucType := AD_MSG_TYPE_RESPONSE\<rparr>\<rparr>"

definition AdAdapterToHttp :: "'p adapter_env \<Rightarrow> nat \<Rightarrow> bool \<Rightarrow> 'p AdAdapter \<Rightarrow> (int \<times> 'p AdAdapter) cxx" where
  "AdAdapterToHttp env n bTlv w =
     (case m_pAdxMethod (w_paras w n) of
        None \<Rightarrow> Inr (AD_FAILURE, w)
      | Some t \<Rightarrow>
          bind_cxx (response_tlv env bTlv (w_paras w n)) (\<lambda>(ret, p).
          if ret \<noteq> AD_SUCCESS then Inr (AD_FAILURE, on_para n (\<lambda>_. p) w)
          else bind_cxx (InternalToHttp (ae_proto env t) p) (\<lambda>(ret, p).
          if ret \<noteq> AD_SUCCESS then Inr (AD_FAILURE, on_para n (\<lambda>_. p) w)
          else
            let p = mark_bidding p;
                w = on_para n (\<lambda>_. p) (add_status env StatusAddResponse w)
            in bind_cxx (AdAdapterPutMsg env p (m_ctProcessMsg w)) (\<lambda>q.
                 Inr (m_iLen (m_ctCacheOut p), w\<lparr>m_ctProcessMsg := q\<rparr>)))))"

text \<open>
  The empty answer, if the object has a protocol; the session, if there is one, is idle afterwards in any case.
\<close>

definition empty_answer :: "'p adapter_env \<Rightarrow> nat \<Rightarrow> nat option \<Rightarrow> 'p AdAdapter \<Rightarrow> 'p AdAdapter cxx" where
  "empty_answer env n pSession w =
     (case m_pAdxMethod (w_paras w n) of
        None \<Rightarrow> Inr w
      | Some t \<Rightarrow>
          bind_cxx (EmptyToHttp (ae_proto env t) (w_paras w n)) (\<lambda>(ret, p).
            let w = on_para n (\<lambda>_. p) w in
            if ret \<noteq> AD_SUCCESS then Inr w
            else bind_cxx (AdAdapterPutMsg env p (m_ctProcessMsg w)) (\<lambda>q.
              let w = w\<lparr>m_ctProcessMsg := q\<rparr> in
              case pSession of None \<Rightarrow> Inr w | Some session \<Rightarrow> write_cache env session (m_ctCacheOut p) w)))"

definition SessionTimeout :: "'p adapter_env \<Rightarrow> nat \<Rightarrow> nat option \<Rightarrow> 'p AdAdapter \<Rightarrow> 'p AdAdapter cxx" where
  "SessionTimeout env n pSession w =
     (let w = (if m_bTimeout (w_paras w n) then add_status env StatusAddTimeout w else w) in
      bind_cxx (empty_answer env n pSession w) (\<lambda>w.
        Inr (case pSession of None \<Rightarrow> w | Some session \<Rightarrow> on_session session AdSessionIdle w)))"

text \<open>What becomes of the answer of a bidder to a waiting request: nothing is sent if the exchange was answered already.\<close>

definition answer_request :: "'p adapter_env \<Rightarrow> bool \<Rightarrow> nat \<Rightarrow> 'p AdAdapter \<Rightarrow> 'p AdAdapter cxx" where
  "answer_request env bTlv n w =
     bind_cxx
       (if m_bTimeout (w_paras w n) then Inr w
        else
          let pAdxSession = m_pSrcSession (w_paras w n) in
          bind_cxx (AdAdapterToHttp env n bTlv w) (\<lambda>(ret, w).
            if ret > 0 then
              (case pAdxSession of
                 None \<Rightarrow> Inl NullPointer
               | Some adx \<Rightarrow>
                   bind_cxx (write_cache env adx (m_ctCacheOut (w_paras w n)) w) (\<lambda>w. Inr (on_session adx AdSessionIdle w)))
            else SessionTimeout env n pAdxSession w))
       (\<lambda>w. Inr (FreePara n w))"

section \<open>The waiting requests of a bidder\<close>

text \<open>The answer to the exchange that a request came too late.\<close>

definition expire :: "'p adapter_env \<Rightarrow> nat \<Rightarrow> 'p AdAdapter \<Rightarrow> 'p AdAdapter cxx" where
  "expire env n w =
     SessionTimeout env n (m_pSrcSession (w_paras w n)) (on_para n (\<lambda>p. p\<lparr>m_bTimeout := True\<rparr>) w)"

definition list_clear :: "'p adapter_env \<Rightarrow> nat list \<Rightarrow> 'p AdAdapter \<Rightarrow> 'p AdAdapter cxx" where
  "list_clear env = fold_cxx (\<lambda>n w.
     bind_cxx (if m_bTimeout (w_paras w n) then Inr w else expire env n w) (\<lambda>w.
       case m_pDstSession (w_paras w n) of
         None \<Rightarrow> Inl NullPointer
       | Some bid \<Rightarrow> Inr (on_session bid AdSessionIdle (FreePara n w))))"

text \<open>The check stops at the first request that is young enough.\<close>

fun list_check :: "'p adapter_env \<Rightarrow> nat list \<Rightarrow> 'p AdAdapter \<Rightarrow> 'p AdAdapter cxx" where
  "list_check env [] w = Inr w"
| "list_check env (n # ns) w =
     (if m_bTimeout (w_paras w n) then list_check env ns w
      else if checkLife (ae_life env n) (m_ctRequest (w_paras w n)) then bind_cxx (expire env n w) (list_check env ns)
      else Inr w)"

text \<open>
  The list of a session. A bidder's session without one is used all the same, through \<^verbatim>\<open>NULL\<close>. \<^verbatim>\<open>pop\<close> reads the entry from the node
  that \<^verbatim>\<open>pop_front\<close> has freed; the model takes what was there.
\<close>

definition session_list :: "nat \<Rightarrow> 'p AdAdapter \<Rightarrow> nat list cxx" where
  "session_list n w = (case m_pData (w_sessions w n) of None \<Rightarrow> Inl NullPointer | Some ns \<Rightarrow> Inr ns)"

definition set_list :: "nat \<Rightarrow> nat list \<Rightarrow> 'p AdAdapter \<Rightarrow> 'p AdAdapter" where
  "set_list n ns = on_session n (AdSessionSetPrivate ns)"

section \<open>Bidders\<close>

text \<open>
  The packet to a local bidder is the structure \<^verbatim>\<open>InternalPacket\<close> as it lies in memory: the flags, four bytes of padding, and three
  pointers. The two to the request and the response point into the object that the third names.
\<close>

definition AD_INTER_PACKET_FLAGS :: nat where
  "AD_INTER_PACKET_FLAGS = 0xaa559966"

definition le_bytes :: "nat \<Rightarrow> nat \<Rightarrow> string" where
  "le_bytes k n = map (\<lambda>i. char_of (n div 256 ^ i mod 256)) [0..<k]"

definition le_nat :: "string \<Rightarrow> nat" where
  "le_nat s = foldr (\<lambda>c n. of_char c + 256 * n) s 0"

definition inter_bytes :: "nat \<Rightarrow> nat \<Rightarrow> nat \<Rightarrow> string" where
  "inter_bytes pRequest pResponse pData =
     le_bytes 4 AD_INTER_PACKET_FLAGS @ replicate 4 (CHR 0x00) @ le_bytes 8 pRequest @ le_bytes 8 pResponse @ le_bytes 8 pData"

definition inter_flags :: "string \<Rightarrow> nat" where
  "inter_flags s = le_nat (take 4 s)"

definition inter_data :: "string \<Rightarrow> nat" where
  "inter_data s = le_nat (take 8 (drop 24 s))"

text \<open>The loop over the \<open>k\<close> whole structures of a local answer.\<close>

fun local_answers :: "'p adapter_env \<Rightarrow> nat \<Rightarrow> nat \<Rightarrow> string \<Rightarrow> 'p AdAdapter \<Rightarrow> 'p AdAdapter cxx" where
  "local_answers env bid 0 s w = Inr w"
| "local_answers env bid (Suc k) s w =
     (if inter_flags s \<noteq> AD_INTER_PACKET_FLAGS then local_answers env bid k (drop 32 s) w
      else
        bind_cxx (session_list bid w) (\<lambda>ns.
        let n = inter_data s in
        if n \<in> set ns then
          bind_cxx (answer_request env False n (on_session bid AdSessionIdle (set_list bid (remove1 n ns) w)))
            (local_answers env bid k (drop 32 s))
        else local_answers env bid k (drop 32 s) w))"

text \<open>
  The loop over a remote answer from \<open>iOffset\<close> on. The first request that waits takes it: all bytes from there to the end of the cache
  are its answer. A request that was taken while the length is not positive is lost.
\<close>

function (sequential) remote_answers :: "'p adapter_env \<Rightarrow> nat \<Rightarrow> AdCache \<Rightarrow> int \<Rightarrow> 'p AdAdapter \<Rightarrow> 'p AdAdapter cxx" where
  "remote_answers env bid c iOffset w =
     (let rest = drop (nat iOffset) (m_cCache c); size = m_iLen c - iOffset in
      bind_cxx (TlvPacketLen rest size) (\<lambda>iLen.
      bind_cxx (session_list bid w) (\<lambda>ns.
        case ns of
          [] \<Rightarrow> Inr w
        | n # ns \<Rightarrow>
            (let w = set_list bid ns w in
             if iLen \<le> 0 then Inr w
             else
               let w = on_session bid AdSessionIdle w in
               bind_cxx (if m_bTimeout (w_paras w n) then Inr w
                         else bind_cxx (memcpy_at (m_uMsg (m_ctCacheRes (w_paras w n))) 0 rest size) (\<lambda>mem.
                           Inr (on_para n (\<lambda>p. p\<lparr>m_ctCacheRes := (m_ctCacheRes p)\<lparr>m_uMsg := mem, m_iLength := size\<rparr>\<rparr>) w)))
                 (\<lambda>w. bind_cxx (answer_request env True n w) (\<lambda>w.
                   if iOffset + iLen < m_iLen c then remote_answers env bid c (iOffset + iLen) w else Inr w))))))"
  by pat_completeness auto
termination
  by (relation "measure (\<lambda>(env, bid, c, iOffset, w). nat (m_iLen c - iOffset))") auto

declare remote_answers.simps [simp del]

definition AD_IBIDDING_ENG_LOCAL :: string where "AD_IBIDDING_ENG_LOCAL = ''IBIDDING(local)''"
definition AD_IBIDDING_ENG_REMOTE :: string where "AD_IBIDDING_ENG_REMOTE = ''IBIDDING(remote)''"

text \<open>A bidder makes itself known by its first packet.\<close>

definition new_bidder :: "nat \<Rightarrow> AdCache \<Rightarrow> 'p AdAdapter \<Rightarrow> (int \<times> 'p AdAdapter) cxx" where
  "new_bidder n c w =
     (let text = c_str (m_cCache c); w' = on_session n AdSessionActive (set_list n [] w) in
      if m_iLen c \<le> 32 then
        (if take 16 text = AD_IBIDDING_ENG_LOCAL then Inr (AD_SUCCESS, w'\<lparr>m_ctLocalSession := lr_push n (m_ctLocalSession w')\<rparr>)
         else if take 17 text = AD_IBIDDING_ENG_REMOTE then Inr (AD_SUCCESS, w'\<lparr>m_ctNetSession := lr_push n (m_ctNetSession w')\<rparr>)
         else Inr (AD_FAILURE, w))
      else Inr (AD_FAILURE, w))"

text \<open>The session of a bidder was closed: its requests are answered and it is forgotten.\<close>

definition bidder_lost :: "'p adapter_env \<Rightarrow> bool \<Rightarrow> nat \<Rightarrow> 'p AdAdapter \<Rightarrow> (int \<times> 'p AdAdapter) cxx" where
  "bidder_lost env bTlv n w =
     (let (pList, s) = AdSessionGetPrivate True (w_sessions w n); w = on_session n (\<lambda>_. s) w in
      bind_cxx (case pList of None \<Rightarrow> Inr w | Some ns \<Rightarrow> list_clear env ns w) (\<lambda>w.
        let w = (if bTlv then w\<lparr>m_ctNetSession := lr_del n (m_ctNetSession w)\<rparr>
                 else w\<lparr>m_ctLocalSession := lr_del n (m_ctLocalSession w)\<rparr>)
        in Inr (AD_SUCCESS, on_session n AdSessionIdle w)))"

definition bidder_packet :: "'p adapter_env \<Rightarrow> bool \<Rightarrow> nat \<Rightarrow> AdCache option \<Rightarrow> 'p AdAdapter \<Rightarrow> (int \<times> 'p AdAdapter) cxx" where
  "bidder_packet env bTlv n pCache w =
     bind_cxx (session_list n w) (\<lambda>ns.
     bind_cxx (list_check env ns w) (\<lambda>w.
       case pCache of
         None \<Rightarrow> Inr (AD_SUCCESS, w)
       | Some c \<Rightarrow>
           bind_cxx (if bTlv then remote_answers env n c 0 w
                     else local_answers env n (nat (m_iLen c) div 32) (cache_data c) w) (\<lambda>w.
           bind_cxx (session_list n w) (\<lambda>ns.
             Inr (AD_SUCCESS, if ns = [] then on_session n (AdSessionSetTimeout 0) w else w)))))"

definition AdAdapterIBiddingResponse ::
    "'p adapter_env \<Rightarrow> AdCache option \<Rightarrow> nat \<Rightarrow> 'p AdAdapter \<Rightarrow> (int \<times> 'p AdAdapter) cxx" where
  "AdAdapterIBiddingResponse env pCache n w =
     (let local = lr_check n (m_ctLocalSession w); net = lr_check n (m_ctNetSession w) in
      if local \<or> net then
        (if \<not> AdSessionOk (w_sessions w n) then bidder_lost env (\<not> local) n w
         else bidder_packet env (\<not> local) n pCache w)
      else case pCache of
        None \<Rightarrow> Inr (AD_SUCCESS, w)
      | Some c \<Rightarrow> new_bidder n c w)"

section \<open>A packet of an exchange\<close>

text \<open>The next bidder in turn: its session and whether it is remote. A debug user is sent to the remote bidders first.\<close>

definition choose_bidder :: "bool \<Rightarrow> 'p AdAdapter \<Rightarrow> (nat \<times> bool) option" where
  "choose_bidder bDebugUser w =
     (let local = lr_find (w_uiLoop w) (m_ctLocalSession w); net = lr_find (w_uiLoop w) (m_ctNetSession w) in
      if bDebugUser then (if net \<noteq> 0 then Some (net, True) else if local \<noteq> 0 then Some (local, False) else None)
      else (if local \<noteq> 0 then Some (local, False) else if net \<noteq> 0 then Some (net, True) else None))"

datatype bidder_search = NoBidder | BrokenBidder nat | ClosedBidder | BusyBidders | Bidder nat bool

text \<open>The loop from \<open>i\<close> down to 0; it counts the turns of the task.\<close>

fun find_bidder :: "bool \<Rightarrow> nat \<Rightarrow> 'p AdAdapter \<Rightarrow> bidder_search \<times> 'p AdAdapter" where
  "find_bidder dbg 0 w = (BusyBidders, w)"
| "find_bidder dbg (Suc i) w =
     (let b = choose_bidder dbg w; w = w\<lparr>w_uiLoop := w_uiLoop w + 1\<rparr> in
      case b of
        None \<Rightarrow> (NoBidder, w)
      | Some (bid, bRemote) \<Rightarrow>
          (case m_pData (w_sessions w bid) of
             None \<Rightarrow> (BrokenBidder bid, w)
           | Some ns \<Rightarrow>
               if \<not> AdSessionOk (w_sessions w bid) then (ClosedBidder, w)
               else if ns = [] then (Bidder bid bRemote, w)
               else find_bidder dbg i w))"

text \<open>\<open>addr\<close> gives the addresses of the request and of the response in an object.\<close>

definition send_request ::
    "'p adapter_env \<Rightarrow> (nat \<Rightarrow> nat \<times> nat) \<Rightarrow> nat \<Rightarrow> nat \<Rightarrow> nat \<Rightarrow> bool \<Rightarrow> 'p AdAdapter \<Rightarrow> 'p AdAdapter cxx" where
  "send_request env addr n adx bid bRemote w =
     (let w = on_session bid (\<lambda>s. AdSessionSetTimeout 3 (AdSessionActive s)) w;
          w = on_para n (\<lambda>p. p\<lparr>m_pSrcSession := Some adx, m_pDstSession := Some bid\<rparr>) w
      in bind_cxx (session_list bid w) (\<lambda>ns.
        let w = set_list bid (ns @ [n]) w; req = m_ctCacheReq (w_paras w n) in
        if bRemote then write_bytes env bid (m_uMsg req) (m_iLength req) w
        else write_bytes env bid (inter_bytes (fst (addr n)) (snd (addr n)) n) 32 w))"

definition give_up :: "'p adapter_env \<Rightarrow> nat \<Rightarrow> nat \<Rightarrow> 'p AdAdapter \<Rightarrow> (int \<times> 'p AdAdapter) cxx" where
  "give_up env n adx w = bind_cxx (SessionTimeout env n (Some adx) w) (\<lambda>w. Inr (AD_FAILURE, FreePara n w))"

definition route_request ::
    "'p adapter_env \<Rightarrow> (nat \<Rightarrow> nat \<times> nat) \<Rightarrow> nat \<Rightarrow> nat \<Rightarrow> 'p AdAdapter \<Rightarrow> (int \<times> 'p AdAdapter) cxx" where
  "route_request env addr n adx w =
     (case find_bidder (m_bDebugUser (w_paras w n)) (Suc (nat (lr_size (m_ctLocalSession w)) div 2)) w of
        (Bidder bid bRemote, w) \<Rightarrow> bind_cxx (send_request env addr n adx bid bRemote w) (\<lambda>w. Inr (AD_SUCCESS, w))
      | (NoBidder, w) \<Rightarrow> give_up env n adx (add_status env StatusAddError w)
      | (BrokenBidder bid, w) \<Rightarrow>
          give_up env n adx (add_status env StatusAddError (on_session bid (\<lambda>s. snd (AdSessionClose s)) w))
      | (ClosedBidder, w) \<Rightarrow> give_up env n adx w
      | (BusyBidders, w) \<Rightarrow> give_up env n adx w)"

definition Adapter_Run ::
    "'p adapter_env \<Rightarrow> (nat \<Rightarrow> nat \<times> nat) \<Rightarrow> AdCache option \<Rightarrow> nat \<Rightarrow> 'p AdAdapter \<Rightarrow> (int \<times> 'p AdAdapter) cxx" where
  "Adapter_Run env addr pCache adx w =
     bind_cxx (AdAdapterIBiddingResponse env pCache adx w) (\<lambda>(ret, w).
       if ret = AD_SUCCESS then Inr (AD_SUCCESS, w)
       else
         (let (n, w) = AllocPara env w;
              w = on_session adx AdSessionActive (on_para n (\<lambda>p. p\<lparr>m_pCacheIn := pCache\<rparr>) w)
          in bind_cxx (AdAdapterToInternal env n w) (\<lambda>(ret, w).
               if ret \<noteq> AD_SUCCESS then give_up env n adx (add_status env StatusAddError w)
               else route_request env addr n adx w)))"

end
