(* ===== verification/AdAdapterCorrect.thy ===== *)
theory AdAdapterCorrect
  imports AdAdapter
begin

text \<open>
  What the adapter keeps: an object belongs to the free list, or to the list of the one bidder it was sent to, or to the call that runs,
  and never to two of them. The first section gives the contract of a protocol, under which this is proved; the theory
  \<^verbatim>\<open>AdAdapterProtocols\<close> shows that the protocols of the program keep it.
\<close>

section \<open>The contract of a protocol\<close>

text \<open>A protocol leaves the links of the object to its sessions, its method and the mark of a late answer.\<close>

definition links :: "'p AdAdapterPara \<Rightarrow> nat option \<times> nat option \<times> nat option \<times> bool" where
  "links p = (m_pSrcSession p, m_pDstSession p, m_pAdxMethod p, m_bTimeout p)"

locale adx_protocol =
  fixes P :: "'p AdProtocol"
  assumes http_links: "HttpToInternal P p = Inr (ret, p') \<Longrightarrow> links p' = links p"
    and answer_links: "InternalToHttp P p = Inr (ret, p') \<Longrightarrow> links p' = links p"
    and empty_links: "EmptyToHttp P p = Inr (ret, p') \<Longrightarrow> links p' = links p"

definition protocols_ok :: "'p adapter_env \<Rightarrow> bool" where
  "protocols_ok env \<longleftrightarrow> (\<forall>t. adx_protocol (ae_proto env t))"

lemma protocols_okD: "protocols_ok env \<Longrightarrow> adx_protocol (ae_proto env t)"
  by (simp add: protocols_ok_def)

section \<open>What an operation leaves\<close>

text \<open>The private objects of the sessions, the sets of bidders, the free list, and the sessions of the objects.\<close>

definition ends :: "'p AdAdapterPara \<Rightarrow> nat option \<times> nat option" where
  "ends p = (m_pSrcSession p, m_pDstSession p)"

definition frame :: "'p AdAdapter \<Rightarrow> 'p AdAdapter \<Rightarrow> bool" where
  "frame w w' \<longleftrightarrow> m_ctFreePara w' = m_ctFreePara w \<and> w_next w' = w_next w \<and>
     m_ctLocalSession w' = m_ctLocalSession w \<and> m_ctNetSession w' = m_ctNetSession w \<and>
     (\<forall>s. m_pData (w_sessions w' s) = m_pData (w_sessions w s)) \<and> (\<forall>n. ends (w_paras w' n) = ends (w_paras w n))"

lemma frame_refl [simp, intro]: "frame w w"
  by (simp add: frame_def)

lemma frame_trans [trans]: "frame w w' \<Longrightarrow> frame w' w'' \<Longrightarrow> frame w w''"
  by (simp add: frame_def)

lemma ends_links: "links p' = links p \<Longrightarrow> ends p' = ends p"
  by (simp add: links_def ends_def)

lemma frame_on_para: "ends (f (w_paras w n)) = ends (w_paras w n) \<Longrightarrow> frame w (on_para n f w)"
  by (simp add: frame_def on_para_def)

lemma frame_on_session: "m_pData (f (w_sessions w n)) = m_pData (w_sessions w n) \<Longrightarrow> frame w (on_session n f w)"
  by (simp add: frame_def on_session_def)

lemma frame_simps [simp]:
  "frame w (w\<lparr>m_ctProcessMsg := q\<rparr>)" "frame w (w\<lparr>w_writes := evs\<rparr>)" "frame w (w\<lparr>w_uiLoop := n\<rparr>)" "frame w (add_status env f w)"
  by (simp_all add: frame_def add_status_def)

lemma close_data [simp]: "m_pData (snd (AdSessionClose s)) = m_pData s"
  by (simp add: AdSessionClose_def Let_def)

lemma session_ops_data [simp]:
  "m_pData (AdSessionIdle s) = m_pData s" "m_pData (AdSessionActive s) = m_pData s" "m_pData (session_push s) = m_pData s"
  "m_pData (session_failed s) = m_pData s" "m_pData (AdSessionSetTimeout t s) = m_pData s"
  by (simp_all add: AdSessionIdle_def AdSessionActive_def session_push_def session_failed_def AdSessionSetTimeout_def)

lemma session_write_data: "session_write ev bytes s = (len, s') \<Longrightarrow> m_pData s' = m_pData s"
  by (auto simp: session_write_def Let_def split: prod.splits if_splits)

lemma AdSessionWrite_data: "AdSessionWrite ev mem c s = Inr (ret, s') \<Longrightarrow> m_pData s' = m_pData s"
  by (auto simp: AdSessionWrite_def bind_cxx_Inr_iff split: if_splits prod.splits dest: session_write_data)

lemma AdSessionWrite_bytes_data: "AdSessionWrite_bytes ev mem b n s = Inr (ret, s') \<Longrightarrow> m_pData s' = m_pData s"
  by (auto simp: AdSessionWrite_bytes_def bind_cxx_Inr_iff split: if_splits prod.splits dest: session_write_data)

lemma frame_next_write: "next_write w = (ev, w') \<Longrightarrow> frame w w' \<and> w_sessions w' = w_sessions w"
  by (auto simp: next_write_def split: list.splits)

lemma frame_write_cache:
  assumes "write_cache env n c w = Inr w'"
  shows "frame w w'"
proof -
  obtain ev w1 where w1: "next_write w = (ev, w1)" by fastforce
  then obtain ret s where s: "AdSessionWrite ev (ae_mem env) c (w_sessions w1 n) = Inr (ret, s)" "w' = on_session n (\<lambda>_. s) w1"
    using assms by (auto simp: write_cache_def bind_cxx_Inr_iff)
  have "frame w w1" using frame_next_write [OF w1] by simp
  also have "frame w1 w'" unfolding s(2) by (rule frame_on_session) (rule AdSessionWrite_data [OF s(1)])
  finally show ?thesis .
qed

lemma frame_write_bytes:
  assumes "write_bytes env n b k w = Inr w'"
  shows "frame w w'"
proof -
  obtain ev w1 where w1: "next_write w = (ev, w1)" by fastforce
  then obtain ret s where s: "AdSessionWrite_bytes ev (ae_mem env) b k (w_sessions w1 n) = Inr (ret, s)" "w' = on_session n (\<lambda>_. s) w1"
    using assms by (auto simp: write_bytes_def bind_cxx_Inr_iff)
  have "frame w w1" using frame_next_write [OF w1] by simp
  also have "frame w1 w'" unfolding s(2) by (rule frame_on_session) (rule AdSessionWrite_bytes_data [OF s(1)])
  finally show ?thesis .
qed

lemma frame_empty_answer:
  assumes "protocols_ok env" "empty_answer env n session w = Inr w'"
  shows "frame w w'"
proof (cases "m_pAdxMethod (w_paras w n)")
  case None
  then show ?thesis using assms(2) by (simp add: empty_answer_def)
next
  case (Some t)
  then obtain ret p where p: "EmptyToHttp (ae_proto env t) (w_paras w n) = Inr (ret, p)"
    using assms(2) by (auto simp: empty_answer_def bind_cxx_Inr_iff)
  have "ends p = ends (w_paras w n)"
    by (rule ends_links) (rule adx_protocol.empty_links [OF protocols_okD [OF assms(1)] p])
  then have f: "frame w (on_para n (\<lambda>_. p) w)" by (intro frame_on_para) simp
  show ?thesis
    using assms(2) Some p f
    by (auto simp: empty_answer_def bind_cxx_Inr_iff Let_def split: if_splits option.splits
        intro: frame_trans [OF f] frame_trans [OF frame_simps(1)] dest!: frame_write_cache)
qed

lemma frame_SessionTimeout:
  assumes "protocols_ok env" "SessionTimeout env n session w = Inr w'"
  shows "frame w w'"
proof -
  let ?w = "if m_bTimeout (w_paras w n) then add_status env StatusAddTimeout w else w"
  obtain w1 where w1: "empty_answer env n session ?w = Inr w1"
      "w' = (case session of None \<Rightarrow> w1 | Some session \<Rightarrow> on_session session AdSessionIdle w1)"
    using assms(2) by (auto simp: SessionTimeout_def bind_cxx_Inr_iff Let_def)
  have "frame w ?w" by simp
  also have "frame ?w w1" by (rule frame_empty_answer [OF assms(1) w1(1)])
  also have "frame w1 w'" unfolding w1(2) by (auto split: option.split intro: frame_on_session)
  finally show ?thesis .
qed

lemma frame_expire:
  assumes "protocols_ok env" "expire env n w = Inr w'"
  shows "frame w w'"
proof -
  have "frame w (on_para n (\<lambda>p. p\<lparr>m_bTimeout := True\<rparr>) w)" by (rule frame_on_para) (simp add: ends_def)
  also have "frame \<dots> w'" by (rule frame_SessionTimeout [OF assms(1)]) (use assms(2) in \<open>simp add: expire_def\<close>)
  finally show ?thesis .
qed

lemma frame_list_check:
  assumes "protocols_ok env" "list_check env ns w = Inr w'"
  shows "frame w w'"
  using assms(2)
proof (induction ns arbitrary: w)
  case (Cons n ns)
  then show ?case
    by (auto simp: bind_cxx_Inr_iff split: if_splits intro: frame_trans dest: frame_expire [OF assms(1)])
qed simp

lemma frame_ToHttp:
  assumes "protocols_ok env" "AdAdapterToHttp env n bTlv w = Inr (ret, w')"
  shows "frame w w'"
proof (cases "m_pAdxMethod (w_paras w n)")
  case None
  then show ?thesis using assms(2) by (simp add: AdAdapterToHttp_def)
next
  case (Some t)
  then obtain r p where p: "response_tlv env bTlv (w_paras w n) = Inr (r, p)"
    using assms(2) by (auto simp: AdAdapterToHttp_def bind_cxx_Inr_iff)
  have resp: "ends p = ends (w_paras w n)"
    using p by (auto simp: response_tlv_def bind_cxx_Inr_iff ends_def split: if_splits prod.splits)
  show ?thesis
  proof (cases "r = AD_SUCCESS")
    case False
    then have "w' = on_para n (\<lambda>_. p) w" using assms(2) Some p by (simp add: AdAdapterToHttp_def)
    then show ?thesis using resp by (simp add: frame_on_para)
  next
    case True
    have eq: "AdAdapterToHttp env n bTlv w = bind_cxx (InternalToHttp (ae_proto env t) p) (\<lambda>(ret, p).
        if ret \<noteq> AD_SUCCESS then Inr (AD_FAILURE, on_para n (\<lambda>_. p) w)
        else let p = mark_bidding p; w = on_para n (\<lambda>_. p) (add_status env StatusAddResponse w)
          in bind_cxx (AdAdapterPutMsg env p (m_ctProcessMsg w)) (\<lambda>q. Inr (m_iLen (m_ctCacheOut p), w\<lparr>m_ctProcessMsg := q\<rparr>)))"
      using Some p True by (simp add: AdAdapterToHttp_def)
    obtain r' p' where p': "InternalToHttp (ae_proto env t) p = Inr (r', p')"
      using assms(2) [unfolded eq] by (cases "InternalToHttp (ae_proto env t) p") auto
    have http: "ends p' = ends (w_paras w n)"
      using resp ends_links [OF adx_protocol.answer_links [OF protocols_okD [OF assms(1)] p']] by simp
    let ?w = "on_para n (\<lambda>_. mark_bidding p') (add_status env StatusAddResponse w)"
    show ?thesis
    proof (cases "r' = AD_SUCCESS")
      case False
      then have "w' = on_para n (\<lambda>_. p') w" using assms(2) [unfolded eq p' bind_cxx.simps prod.case] by simp
      then show ?thesis using http by (simp add: frame_on_para)
    next
      case ok: True
      have "frame w ?w" using http by (simp add: frame_def on_para_def add_status_def ends_def mark_bidding_def)
      moreover have "\<exists>q. w' = ?w\<lparr>m_ctProcessMsg := q\<rparr>"
        using assms(2) [unfolded eq p' bind_cxx.simps prod.case] ok
        unfolding Let_def if_not_P [OF not_not [THEN iffD2, OF ok]] bind_cxx_Inr_iff by blast
      ultimately show ?thesis using frame_trans frame_simps(1) by metis
    qed
  qed
qed

section \<open>Where the objects are\<close>

text \<open>
  The invariant. A bidder waits for one request at most. An object that waits is known, not free, came from a session and was sent to
  the bidder in whose list it is; so it is in no other list. The free objects are known and distinct.
\<close>

definition waits_ok :: "'p AdAdapter \<Rightarrow> nat \<Rightarrow> nat \<Rightarrow> bool" where
  "waits_ok w b n \<longleftrightarrow> n < w_next w \<and> n \<notin> set (m_ctFreePara w) \<and>
     m_pSrcSession (w_paras w n) \<noteq> None \<and> m_pDstSession (w_paras w n) = Some b"

definition adapter_inv :: "'p AdAdapter \<Rightarrow> bool" where
  "adapter_inv w \<longleftrightarrow>
     (\<forall>b ns. m_pData (w_sessions w b) = Some ns \<longrightarrow> length ns \<le> 1 \<and> (\<forall>n \<in> set ns. waits_ok w b n)) \<and>
     distinct (m_ctFreePara w) \<and> (\<forall>n \<in> set (m_ctFreePara w). n < w_next w)"

text \<open>An object that the running call holds.\<close>

definition held :: "nat \<Rightarrow> 'p AdAdapter \<Rightarrow> bool" where
  "held n w \<longleftrightarrow> n < w_next w \<and> n \<notin> set (m_ctFreePara w) \<and> (\<forall>b ns. m_pData (w_sessions w b) = Some ns \<longrightarrow> n \<notin> set ns)"

lemma inv_frame:
  assumes "frame w w'"
  shows "adapter_inv w' = adapter_inv w" "held n w' = held n w"
  using assms by (simp_all add: frame_def adapter_inv_def held_def waits_ok_def ends_def)

lemma inv_FreePara: "adapter_inv w \<Longrightarrow> held n w \<Longrightarrow> adapter_inv (FreePara n w)"
  by (auto simp: FreePara_def adapter_inv_def held_def waits_ok_def)

lemma FreePara_data [simp]: "w_sessions (FreePara n w) = w_sessions w"
  by (simp add: FreePara_def)

lemma inv_AllocPara:
  assumes "adapter_inv w" "AllocPara env w = (n, w')"
  shows "adapter_inv w'" "held n w'"
  using assms
  by (auto simp: AllocPara_def adapter_inv_def held_def waits_ok_def on_para_def less_Suc_eq split: list.splits)
    (blast+)?

lemma frame_idle [simp]: "frame w (on_session n AdSessionIdle w)"
  by (rule frame_on_session) simp

lemma frame_answer_request:
  assumes "protocols_ok env" "answer_request env bTlv n w = Inr w'"
  shows "\<exists>w1. w' = FreePara n w1 \<and> frame w w1"
proof (cases "m_bTimeout (w_paras w n)")
  case True
  then show ?thesis using assms(2) by (auto simp: answer_request_def)
next
  case False
  then obtain ret w1 where w1: "AdAdapterToHttp env n bTlv w = Inr (ret, w1)"
    using assms(2) by (auto simp: answer_request_def bind_cxx_Inr_iff Let_def)
  note f = frame_ToHttp [OF assms(1) w1]
  show ?thesis
  proof (cases "ret > 0")
    case True
    then obtain adx w2 where "write_cache env adx (m_ctCacheOut (w_paras w1 n)) w1 = Inr w2"
      "w' = FreePara n (on_session adx AdSessionIdle w2)"
      using assms(2) False w1 by (auto simp: answer_request_def bind_cxx_Inr_iff Let_def split: option.splits)
    then show ?thesis using f frame_trans frame_idle frame_write_cache by blast
  next
    case nonpos: False
    then obtain w2 where "SessionTimeout env n (m_pSrcSession (w_paras w n)) w1 = Inr w2" "w' = FreePara n w2"
      using assms(2) False w1 by (auto simp: answer_request_def bind_cxx_Inr_iff Let_def)
    then show ?thesis using f frame_trans frame_SessionTimeout [OF assms(1)] by blast
  qed
qed

lemma inv_answer_request:
  assumes "protocols_ok env" "adapter_inv w" "held n w" "answer_request env bTlv n w = Inr w'"
  shows "adapter_inv w'" "\<And>s. m_pData (w_sessions w' s) = m_pData (w_sessions w s)"
proof -
  obtain w1 where w1: "w' = FreePara n w1" "frame w w1" using frame_answer_request [OF assms(1,4)] by blast
  show "adapter_inv w'" unfolding w1(1) using inv_frame [OF w1(2)] assms(2,3) by (auto intro: inv_FreePara)
  show "m_pData (w_sessions w' s) = m_pData (w_sessions w s)" for s using w1 by (simp add: frame_def)
qed

text \<open>Taking the request out of the list of its bidder.\<close>

lemma set_list_data: "m_pData (w_sessions (set_list b ns w) s) = (if s = b then Some ns else m_pData (w_sessions w s))"
  by (simp add: set_list_def on_session_def AdSessionSetPrivate_def)

lemma set_list_simps [simp]:
  "m_ctFreePara (set_list b ns w) = m_ctFreePara w" "w_next (set_list b ns w) = w_next w" "w_paras (set_list b ns w) = w_paras w"
  by (simp_all add: set_list_def on_session_def)

lemma inv_take:
  assumes "adapter_inv w" "m_pData (w_sessions w b) = Some ns" "n \<in> set ns"
  shows "adapter_inv (set_list b [] w)" "held n (set_list b [] w)" "ns = [n]"
proof -
  have one: "length ns \<le> 1" "waits_ok w b n" using assms by (auto simp: adapter_inv_def)
  then show "ns = [n]" using assms(3) by (cases ns) auto
  show "adapter_inv (set_list b [] w)" using assms(1) by (auto simp: adapter_inv_def set_list_data waits_ok_def)
  have "n \<notin> set ms" if "m_pData (w_sessions w s) = Some ms" "s \<noteq> b" for s ms
    using assms(1) that one(2) by (auto simp: adapter_inv_def waits_ok_def)
  then show "held n (set_list b [] w)" using one(2) by (auto simp: held_def set_list_data waits_ok_def split: if_splits)
qed

section \<open>The steps keep the invariant\<close>

lemma session_list_Inr [simp]: "session_list b w = Inr ns \<longleftrightarrow> m_pData (w_sessions w b) = Some ns"
  by (auto simp: session_list_def split: option.splits)

lemma idle_data [simp]: "m_pData (w_sessions (on_session b AdSessionIdle w) s) = m_pData (w_sessions w s)"
  using frame_idle [of w b] by (simp add: frame_def)

lemmas inv_idle = inv_frame [OF frame_idle]

lemma inv_local_answers:
  assumes "protocols_ok env" "adapter_inv w" "local_answers env b k s w = Inr w'"
  shows "adapter_inv w'"
  using assms(2,3)
proof (induction k arbitrary: s w)
  case (Suc k)
  show ?case
  proof (cases "inter_flags s = AD_INTER_PACKET_FLAGS")
    case True
    then obtain ns where ns: "m_pData (w_sessions w b) = Some ns" using Suc.prems(2) by (auto simp: bind_cxx_Inr_iff)
    show ?thesis
    proof (cases "inter_data s \<in> set ns")
      case mem: True
      note tk = inv_take [OF Suc.prems(1) ns mem]
      let ?w = "on_session b AdSessionIdle (set_list b [] w)"
      from Suc.prems(2) True ns tk(3) obtain w1 where
        w1: "answer_request env False (inter_data s) ?w = Inr w1" "local_answers env b k (drop 32 s) w1 = Inr w'"
        by (auto simp: bind_cxx_Inr_iff session_list_def Let_def)
      have "adapter_inv w1" using inv_answer_request(1) [OF assms(1) _ _ w1(1)] tk(1,2) by (simp add: inv_idle)
      then show ?thesis using Suc.IH w1(2) by blast
    next
      case False
      then show ?thesis using Suc True ns by (auto simp: bind_cxx_Inr_iff session_list_def Let_def)
    qed
  qed (use Suc in auto)
qed simp

lemma inv_remote_answers:
  assumes "protocols_ok env" "adapter_inv w" "remote_answers env b c i w = Inr w'"
  shows "adapter_inv w'"
  using assms(2,3)
proof (induction "nat (m_iLen c - i)" arbitrary: i w rule: less_induct)
  case less
  let ?rest = "drop (nat i) (m_cCache c)" and ?size = "m_iLen c - i"
  obtain iLen ns where l: "TlvPacketLen ?rest ?size = Inr iLen" "m_pData (w_sessions w b) = Some ns"
    using less.prems(2) by (subst (asm) remote_answers.simps) (auto simp: bind_cxx_Inr_iff Let_def)
  show ?case
  proof (cases ns)
    case Nil
    then have "w' = w"
      using less.prems(2) l by (subst (asm) remote_answers.simps) (simp add: session_list_def Let_def)
    then show ?thesis using less.prems(1) by simp
  next
    case (Cons n ms)
    note tk = inv_take [OF less.prems(1) l(2), of n]
    have ms: "ns = [n]" "adapter_inv (set_list b [] w)" "held n (set_list b [] w)" using tk Cons by auto
    show ?thesis
    proof (cases "iLen \<le> 0")
      case True
      then have "w' = set_list b [] w"
        using less.prems(2) l ms(1) by (subst (asm) remote_answers.simps) (simp add: session_list_def Let_def)
      then show ?thesis using ms(2) by simp
    next
      case False
      let ?w = "on_session b AdSessionIdle (set_list b [] w)"
      obtain w1 w2 where w1: "frame ?w w1" "answer_request env True n w1 = Inr w2"
        "(if i + iLen < m_iLen c then remote_answers env b c (i + iLen) w2 else Inr w2) = Inr w'"
      proof -
        obtain w1 w2 where "(if m_bTimeout (w_paras ?w n) then Inr ?w
              else bind_cxx (memcpy_at (m_uMsg (m_ctCacheRes (w_paras ?w n))) 0 ?rest ?size) (\<lambda>mem.
                Inr (on_para n (\<lambda>p. p\<lparr>m_ctCacheRes := (m_ctCacheRes p)\<lparr>m_uMsg := mem, m_iLength := ?size\<rparr>\<rparr>) ?w))) = Inr w1"
            "answer_request env True n w1 = Inr w2"
            "(if i + iLen < m_iLen c then remote_answers env b c (i + iLen) w2 else Inr w2) = Inr w'"
          using less.prems(2) l ms(1) False
          by (subst (asm) remote_answers.simps) (auto simp only: session_list_def Let_def bind_cxx_Inr_iff bind_cxx.simps
            option.case list.case if_False)
        then show thesis
          by (intro that [of w1 w2]) (auto simp: bind_cxx_Inr_iff intro!: frame_on_para split: if_splits simp: ends_def)
      qed
      have "adapter_inv w1" "held n w1" using inv_frame [OF w1(1)] ms(2,3) by (simp_all add: inv_idle)
      then have "adapter_inv w2" by (rule inv_answer_request(1) [OF assms(1) _ _ w1(2)])
      then show ?thesis using w1(3) less.hyps [of "i + iLen" w2] False by (auto split: if_splits)
    qed
  qed
qed

lemma forget_list:
  assumes "adapter_inv w"
  shows "adapter_inv (on_session b (\<lambda>s. s\<lparr>m_pData := None\<rparr>) w)"
    and "m_pData (w_sessions w b) = Some ns \<Longrightarrow> n \<in> set ns \<Longrightarrow> held n (on_session b (\<lambda>s. s\<lparr>m_pData := None\<rparr>) w)"
proof -
  have data: "m_pData (w_sessions (on_session b (\<lambda>s. s\<lparr>m_pData := None\<rparr>) w) s) = (if s = b then None else m_pData (w_sessions w s))" for s
    by (simp add: on_session_def)
  have simps: "m_ctFreePara (on_session b (\<lambda>s. s\<lparr>m_pData := None\<rparr>) w) = m_ctFreePara w"
    "w_next (on_session b (\<lambda>s. s\<lparr>m_pData := None\<rparr>) w) = w_next w" "w_paras (on_session b (\<lambda>s. s\<lparr>m_pData := None\<rparr>) w) = w_paras w"
    by (simp_all add: on_session_def)
  show "adapter_inv (on_session b (\<lambda>s. s\<lparr>m_pData := None\<rparr>) w)"
    using assms by (auto simp: adapter_inv_def waits_ok_def data simps)
  assume ns: "m_pData (w_sessions w b) = Some ns" "n \<in> set ns"
  then have n: "waits_ok w b n" using assms by (auto simp: adapter_inv_def)
  have "n \<notin> set ms" if "m_pData (w_sessions w s) = Some ms" "s \<noteq> b" for s ms
    using assms that n by (auto simp: adapter_inv_def waits_ok_def)
  then show "held n (on_session b (\<lambda>s. s\<lparr>m_pData := None\<rparr>) w)"
    using n by (auto simp: held_def waits_ok_def data simps split: if_splits)
qed

lemma inv_list_clear:
  assumes "protocols_ok env" "adapter_inv w" "length ns \<le> 1" "\<And>n. n \<in> set ns \<Longrightarrow> held n w" "list_clear env ns w = Inr w'"
  shows "adapter_inv w'"
proof (cases ns)
  case Nil
  then show ?thesis using assms(2,5) by (simp add: list_clear_def)
next
  case (Cons n ms)
  then have ns: "ns = [n]" using assms(3) by (cases ms) auto
  obtain w1 b where w1: "(if m_bTimeout (w_paras w n) then Inr w else expire env n w) = Inr w1"
      "w' = on_session b AdSessionIdle (FreePara n w1)"
    using assms(5) unfolding ns list_clear_def by (auto simp: bind_cxx_Inr_iff split: option.splits if_splits)
  have "frame w w1" using w1(1) frame_expire [OF assms(1)] by (auto split: if_splits)
  then have "adapter_inv w1" "held n w1" using assms(2,4) ns by (simp_all add: inv_frame)
  then show ?thesis unfolding w1(2) by (simp add: inv_idle inv_FreePara)
qed

lemma inv_bidder_lost:
  assumes "protocols_ok env" "adapter_inv w" "bidder_lost env bTlv n w = Inr (ret, w')"
  shows "adapter_inv w'"
proof -
  let ?w = "on_session n (\<lambda>s. s\<lparr>m_pData := None\<rparr>) w"
  have eq: "on_session n (\<lambda>_. (w_sessions w n)\<lparr>m_pData := None\<rparr>) w = ?w" by (simp add: on_session_def)
  have ns: "length ns \<le> 1" if "m_pData (w_sessions w n) = Some ns" for ns
    using assms(2) that by (auto simp: adapter_inv_def)
  obtain w1 where w1: "(case m_pData (w_sessions w n) of None \<Rightarrow> Inr ?w | Some ns \<Rightarrow> list_clear env ns ?w) = Inr w1"
      "w' = on_session n AdSessionIdle (if bTlv then w1\<lparr>m_ctNetSession := lr_del n (m_ctNetSession w1)\<rparr>
        else w1\<lparr>m_ctLocalSession := lr_del n (m_ctLocalSession w1)\<rparr>)"
    using assms(3) unfolding bidder_lost_def AdSessionGetPrivate_def if_True Let_def prod.case eq bind_cxx_Inr_iff by auto
  have "adapter_inv w1"
    using w1(1) forget_list [OF assms(2), of n] ns
    by (auto split: option.splits dest!: inv_list_clear [OF assms(1), rotated 3])
  then show ?thesis unfolding w1(2) by (simp add: inv_idle) (simp add: adapter_inv_def waits_ok_def)
qed

lemma inv_set_empty: "adapter_inv w \<Longrightarrow> adapter_inv (set_list b [] w)"
  by (auto simp: adapter_inv_def set_list_data waits_ok_def)

lemma frame_active [simp]: "frame w (on_session n AdSessionActive w)"
  by (rule frame_on_session) simp

lemma inv_buffers [simp]:
  "adapter_inv (w\<lparr>m_ctLocalSession := l\<rparr>) = adapter_inv w" "adapter_inv (w\<lparr>m_ctNetSession := l\<rparr>) = adapter_inv w"
  by (simp_all add: adapter_inv_def waits_ok_def)

lemma inv_new_bidder: "adapter_inv w \<Longrightarrow> new_bidder n c w = Inr (ret, w') \<Longrightarrow> adapter_inv w'"
  by (auto simp: new_bidder_def Let_def inv_frame [OF frame_active] inv_set_empty split: if_splits)

lemma frame_timeout [simp]: "frame w (on_session n (AdSessionSetTimeout t) w)"
  by (rule frame_on_session) simp

lemmas inv_timeout = inv_frame [OF frame_timeout]

lemma inv_bidder_packet:
  assumes "protocols_ok env" "adapter_inv w" "bidder_packet env bTlv n pCache w = Inr (ret, w')"
  shows "adapter_inv w'"
proof -
  obtain ns w1 where w1: "list_check env ns w = Inr w1"
    "(case pCache of None \<Rightarrow> Inr (AD_SUCCESS, w1) | Some c \<Rightarrow>
       bind_cxx (if bTlv then remote_answers env n c 0 w1 else local_answers env n (nat (m_iLen c) div 32) (cache_data c) w1) (\<lambda>w.
         bind_cxx (session_list n w) (\<lambda>ns. Inr (AD_SUCCESS, if ns = [] then on_session n (AdSessionSetTimeout 0) w else w)))) =
     Inr (ret, w')"
    using assms(3) unfolding bidder_packet_def bind_cxx_Inr_iff by blast
  have "adapter_inv w1" using inv_frame [OF frame_list_check [OF assms(1) w1(1)]] assms(2) by simp
  then show ?thesis
    using w1(2)
    by (auto simp: bind_cxx_Inr_iff inv_timeout split: option.splits if_splits
        dest: inv_remote_answers [OF assms(1)] inv_local_answers [OF assms(1)])
qed

lemma inv_IBiddingResponse:
  assumes "protocols_ok env" "adapter_inv w" "AdAdapterIBiddingResponse env pCache n w = Inr (ret, w')"
  shows "adapter_inv w'"
  using assms(2,3)
  by (auto simp: AdAdapterIBiddingResponse_def Let_def split: if_splits option.splits
      dest: inv_bidder_lost [OF assms(1,2)] inv_bidder_packet [OF assms(1,2)] inv_new_bidder [OF assms(2)])

text \<open>What an operation on an object keeps of it.\<close>

definition keeps :: "('p AdAdapterPara \<Rightarrow> 'b) \<Rightarrow> 'p AdAdapterPara \<Rightarrow> (int \<times> 'p AdAdapterPara) cxx \<Rightarrow> bool" where
  "keeps g p m \<longleftrightarrow> (\<forall>r p'. m = Inr (r, p') \<longrightarrow> g p' = g p)"

lemma keepsD: "keeps g p m \<Longrightarrow> m = Inr (r, p') \<Longrightarrow> g p' = g p"
  by (simp add: keeps_def)

lemma keeps_intros:
  "keeps g p (Inl e)" "g p' = g p \<Longrightarrow> keeps g p (Inr (r, p'))" "(\<And>x. keeps g p (f x)) \<Longrightarrow> keeps g p (bind_cxx m f)"
  by (auto simp: keeps_def bind_cxx_Inr_iff)

lemma keeps_method: "keeps ends p (method_Get m p)"
  by (auto simp: method_Get_def Let_def ends_def intro!: keeps_intros split: option.split)

lemma keeps_tlv: "keeps ends p (request_tlv env p)"
  unfolding request_tlv_def Let_def
  by (rule keeps_intros(3)) (auto simp: ends_def intro!: keeps_intros(2) split: prod.split)

lemma frame_ToInternal:
  assumes "protocols_ok env" "AdAdapterToInternal env n w = Inr (ret, w')"
  shows "frame w w'"
proof -
  let ?w = "add_status env (StatusAdd (ae_status env)) w"
  obtain r p where p: "request_parse env (w_paras ?w n) = Inr (r, p)"
    using assms(2) by (auto simp: AdAdapterToInternal_def bind_cxx_Inr_iff Let_def)
  have m: "ends p' = ends p0" if "method_Get m p0 = Inr (r', p')" for m :: AdAdapterMethod and p0 p' :: "'a AdAdapterPara" and r'
    using keepsD [OF keeps_method that] .
  have h: "ends p' = ends p0" if "HttpToInternal (ae_proto env t) p0 = Inr (r', p')" for t p0 p' r'
    by (rule ends_links) (rule adx_protocol.http_links [OF protocols_okD [OF assms(1)] that])
  have ends_p: "ends p = ends (w_paras w n)"
    using p by (auto simp: request_parse_def bind_cxx_Inr_iff add_status_def split: if_splits option.splits) (metis m h)+
  show ?thesis
  proof (cases "r = AD_SUCCESS")
    case False
    then have "w' = on_para n (\<lambda>_. p) ?w" using assms(2) p by (simp add: AdAdapterToInternal_def Let_def)
    then show ?thesis using ends_p by (simp add: frame_def on_para_def add_status_def)
  next
    case True
    then obtain r' p' where p': "request_tlv env p = Inr (r', p')" "w' = on_para n (\<lambda>_. p') (add_status env StatusAddRequest ?w)"
      using assms(2) p by (auto simp: AdAdapterToInternal_def bind_cxx_Inr_iff Let_def)
    have "ends p' = ends p"
      by (rule keepsD [OF keeps_tlv p'(1)])
    then show ?thesis using ends_p by (simp add: p'(2) frame_def on_para_def add_status_def)
  qed
qed

lemma inv_give_up:
  assumes "protocols_ok env" "adapter_inv w" "held n w" "give_up env n adx w = Inr (ret, w')"
  shows "adapter_inv w'"
  using assms(2-4) by (auto simp: give_up_def bind_cxx_Inr_iff inv_frame dest!: frame_SessionTimeout [OF assms(1)] intro!: inv_FreePara)

text \<open>The bidder that is found waits for nothing.\<close>

lemma find_bidder_free:
  "find_bidder dbg k w = (r, w') \<Longrightarrow> frame w w' \<and> (\<forall>bid rem. r = Bidder bid rem \<longrightarrow> m_pData (w_sessions w' bid) = Some [])"
proof (induction k arbitrary: w)
  case (Suc k)
  let ?w = "w\<lparr>w_uiLoop := w_uiLoop w + 1\<rparr>"
  show ?case
  proof (cases "choose_bidder dbg w")
    case (Some c)
    obtain bid rem where c: "c = (bid, rem)" by (cases c)
    show ?thesis
    proof (cases "m_pData (w_sessions w bid) \<noteq> None \<and> AdSessionOk (w_sessions w bid) \<and> m_pData (w_sessions w bid) \<noteq> Some []")
      case True
      then have "find_bidder dbg k ?w = (r, w')" using Suc.prems Some c by auto
      from Suc.IH [OF this] show ?thesis using frame_trans frame_simps(3) by blast
    next
      case False
      then show ?thesis using Suc.prems Some c by (auto simp: Let_def split: if_splits option.splits)
    qed
  qed (use Suc.prems in \<open>auto simp: Let_def\<close>)
qed auto

lemma inv_send_request:
  assumes "adapter_inv w" "held n w" "m_pData (w_sessions w bid) = Some []" "send_request env addr n adx bid rem w = Inr w'"
  shows "adapter_inv w'"
proof -
  let ?w1 = "on_session bid (\<lambda>s. AdSessionSetTimeout 3 (AdSessionActive s)) w"
  let ?w2 = "on_para n (\<lambda>p. p\<lparr>m_pSrcSession := Some adx, m_pDstSession := Some bid\<rparr>) ?w1"
  let ?w3 = "set_list bid [n] ?w2"
  have f1: "frame w ?w1" by (rule frame_on_session) simp
  have "m_pData (w_sessions ?w2 s) = m_pData (w_sessions w s)" for s using f1 by (simp add: frame_def on_para_def)
  then have data: "m_pData (w_sessions ?w3 s) = (if s = bid then Some [n] else m_pData (w_sessions w s))" for s
    by (simp add: set_list_data)
  have rest: "m_ctFreePara ?w3 = m_ctFreePara w" "w_next ?w3 = w_next w"
    "w_paras ?w3 = (w_paras w)(n := (w_paras w n)\<lparr>m_pSrcSession := Some adx, m_pDstSession := Some bid\<rparr>)"
    by (simp_all add: on_para_def on_session_def)
  have "adapter_inv ?w3"
    unfolding adapter_inv_def
  proof (intro conjI allI impI)
    fix b ns assume ns: "m_pData (w_sessions ?w3 b) = Some ns"
    show "length ns \<le> 1" using ns assms(1) by (auto simp: data adapter_inv_def split: if_splits)
    show "\<forall>k \<in> set ns. waits_ok ?w3 b k"
    proof
      fix k assume k: "k \<in> set ns"
      show "waits_ok ?w3 b k"
      proof (cases "b = bid")
        case True
        then have "k = n" using k ns by (auto simp: data)
        then show ?thesis using True assms(2) by (simp add: waits_ok_def held_def on_para_def on_session_def)
      next
        case False
        then have "m_pData (w_sessions w b) = Some ns" using ns by (simp add: data)
        then have "waits_ok w b k" "k \<noteq> n" using k assms(1,2) by (auto simp: adapter_inv_def held_def)
        then show ?thesis by (simp add: waits_ok_def on_para_def on_session_def)
      qed
    qed
  qed (use assms(1) in \<open>simp_all add: adapter_inv_def on_para_def on_session_def\<close>)
  moreover have "frame ?w3 w'"
  proof -
    have l: "session_list bid ?w2 = Inr []"
      using assms(3) f1 by (simp add: session_list_def frame_def on_para_def)
    show ?thesis
      using assms(4) unfolding send_request_def Let_def l bind_cxx.simps append_Nil
      by (auto split: if_splits intro: frame_write_bytes)
  qed
  ultimately show ?thesis by (simp add: inv_frame)
qed

lemma inv_route_request:
  assumes "protocols_ok env" "adapter_inv w" "held n w" "route_request env addr n adx w = Inr (ret, w')"
  shows "adapter_inv w'"
proof -
  obtain r w1 where r: "find_bidder (m_bDebugUser (w_paras w n)) (Suc (nat (lr_size (m_ctLocalSession w)) div 2)) w = (r, w1)"
    by fastforce
  note fb = find_bidder_free [OF r]
  have w1: "adapter_inv w1" "held n w1" using inv_frame [OF conjunct1 [OF fb]] assms(2,3) by simp_all
  have close: "frame w1 (on_session b (\<lambda>s. snd (AdSessionClose s)) w1)" for b by (rule frame_on_session) simp
  show ?thesis
  proof (cases r)
    case (Bidder bid rem)
    then show ?thesis
      using assms(4) fb inv_send_request [OF w1] unfolding route_request_def r
      by (auto simp: bind_cxx_Inr_iff)
  next
    case NoBidder
    show ?thesis
      by (rule inv_give_up [OF assms(1), of "add_status env StatusAddError w1" n])
        (use assms(4) w1 NoBidder in \<open>simp_all add: route_request_def r inv_frame [OF frame_simps(4)] del: find_bidder.simps\<close>)
  next
    case (BrokenBidder b)
    let ?w = "on_session b (\<lambda>s. snd (AdSessionClose s)) w1"
    show ?thesis
      by (rule inv_give_up [OF assms(1), of "add_status env StatusAddError ?w" n])
        (use assms(4) w1 BrokenBidder in
          \<open>simp_all add: route_request_def r inv_frame [OF frame_simps(4)] inv_frame [OF close] del: find_bidder.simps\<close>)
  qed (rule inv_give_up [OF assms(1) w1], use assms(4) in \<open>simp add: route_request_def r del: find_bidder.simps\<close>)+
qed

lemma inv_Run:
  assumes "protocols_ok env" "adapter_inv w" "Adapter_Run env addr pCache adx w = Inr (ret, w')"
  shows "adapter_inv w'"
proof -
  obtain r w1 where r: "AdAdapterIBiddingResponse env pCache adx w = Inr (r, w1)"
    using assms(3) by (auto simp: Adapter_Run_def bind_cxx_Inr_iff)
  have w1: "adapter_inv w1" by (rule inv_IBiddingResponse [OF assms(1,2) r])
  show ?thesis
  proof (cases "r = AD_SUCCESS")
    case True
    then show ?thesis using assms(3) r w1 by (simp add: Adapter_Run_def)
  next
    case False
    obtain n w2 where al: "AllocPara env w1 = (n, w2)" by fastforce
    let ?w3 = "on_session adx AdSessionActive (on_para n (\<lambda>p. p\<lparr>m_pCacheIn := pCache\<rparr>) w2)"
    have "frame w2 (on_para n (\<lambda>p. p\<lparr>m_pCacheIn := pCache\<rparr>) w2)" by (rule frame_on_para) (simp add: ends_def)
    also have "frame \<dots> ?w3" by simp
    finally have w3: "adapter_inv ?w3" "held n ?w3" using inv_AllocPara [OF w1 al] by (simp_all add: inv_frame)
    obtain r4 w4 where w4: "AdAdapterToInternal env n ?w3 = Inr (r4, w4)"
      "(if r4 \<noteq> AD_SUCCESS then give_up env n adx (add_status env StatusAddError w4)
        else route_request env addr n adx w4) = Inr (ret, w')"
      using assms(3) r al False by (auto simp: Adapter_Run_def bind_cxx_Inr_iff Let_def)
    have "adapter_inv w4" "held n w4" using inv_frame [OF frame_ToInternal [OF assms(1) w4(1)]] w3 by simp_all
    then show ?thesis
      using w4(2) inv_give_up [OF assms(1), of "add_status env StatusAddError w4" n adx ret w']
        inv_route_request [OF assms(1), of w4 n addr adx ret w']
      by (auto simp: inv_frame [OF frame_simps(4)] split: if_splits)
  qed
qed

section \<open>All runs\<close>

text \<open>
  The adapter from its start: calls of \<^verbatim>\<open>Run\<close> for any session and packet, the work of a local bidder on the object it was sent, and
  what the network does with the sessions apart from their private objects.
\<close>

inductive adapter_reachable :: "'p AdAdapter \<Rightarrow> bool" where
  start: "m_ctFreePara w = [] \<Longrightarrow> (\<And>s. m_pData (w_sessions w s) = None) \<Longrightarrow> adapter_reachable w"
| call: "adapter_reachable w \<Longrightarrow> protocols_ok env \<Longrightarrow> Adapter_Run env addr pCache session w = Inr (ret, w') \<Longrightarrow>
    adapter_reachable w'"
| bid: "adapter_reachable w \<Longrightarrow> adapter_reachable (on_para n (\<lambda>p. p\<lparr>m_ctRequest := req, m_ctResponse := res\<rparr>) w)"
| net: "adapter_reachable w \<Longrightarrow> m_pData s = m_pData (w_sessions w k) \<Longrightarrow>
    adapter_reachable (on_session k (\<lambda>_. s) (w\<lparr>w_writes := evs\<rparr>))"

lemma reachable_inv: "adapter_reachable w \<Longrightarrow> adapter_inv w"
proof (induction rule: adapter_reachable.induct)
  case (start w)
  then show ?case by (simp add: adapter_inv_def)
next
  case (call w env addr pCache session ret w')
  then show ?case by (blast intro: inv_Run)
next
  case (bid w n res req)
  have "frame w (on_para n (\<lambda>p. p\<lparr>m_ctRequest := req, m_ctResponse := res\<rparr>) w)" by (rule frame_on_para) (simp add: ends_def)
  then show ?case using bid by (simp add: inv_frame)
next
  case (net w s k evs)
  have "frame w (on_session k (\<lambda>_. s) (w\<lparr>w_writes := evs\<rparr>))" using net.hyps(2) by (simp add: frame_def on_session_def)
  then show ?case using net by (simp add: inv_frame)
qed

text \<open>
  C6. In every state that the adapter reaches, an object that waits in the list of a bidder is the only one there, was sent to this
  bidder and waits for no other, and is not free; the free objects are distinct, so that a new request never gets an object whose
  request still waits, and no object is given to two requests.
\<close>

theorem waiting_objects_safe:
  assumes "adapter_reachable w" "m_pData (w_sessions w b) = Some ns" "n \<in> set ns"
  shows "ns = [n] \<and> m_pDstSession (w_paras w n) = Some b \<and> n \<notin> set (m_ctFreePara w) \<and> distinct (m_ctFreePara w) \<and>
    list_all (\<lambda>b'. m_pData (w_sessions w b') \<noteq> Some ns) (filter (\<lambda>b'. b' \<noteq> b) bs) \<and> fst (AllocPara env w) \<noteq> n"
proof -
  note inv = reachable_inv [OF assms(1)]
  have n: "waits_ok w b n" using inv assms(2,3) by (auto simp: adapter_inv_def)
  have "m_pData (w_sessions w b') \<noteq> Some ns" if "b' \<noteq> b" for b'
    using inv n that assms(3) by (auto simp: adapter_inv_def waits_ok_def)
  moreover have "fst (AllocPara env w) \<noteq> n" using n by (auto simp: AllocPara_def waits_ok_def split: list.split)
  ultimately show ?thesis
    using inv_take(3) [OF inv assms(2,3)] n inv by (auto simp: waits_ok_def list_all_iff adapter_inv_def)
qed

end
