(* ===== verification/AdProtocolTanX.thy ===== *)
theory AdProtocolTanX
  imports AdProtocolBase
begin

text \<open>
  The protocol of the exchange Tanx (\<^verbatim>\<open>adx/TanX/AdProtocolTanX.cpp\<close>). A message of the generated protocol buffers is a
  record of the fields the code reads or sets: an optional field is an option, a repeated one a list. The parser and the serialization
  of the messages are arguments, and so are the readings of the clock (\<open>clock\<close>) and the arrays that are not initialised (\<open>junk\<close>), in
  the order of their use.
\<close>

section \<open>The messages\<close>

record TANXREQ_DEVICE =
  tanx_platform :: "string option"
  tanx_os :: "string option"
  tanx_network :: "UINT option"
  tanx_operator :: "UINT option"
  tanx_device_id :: "string option"

record TANXREQ_VIDEO =
  tanx_min_ad_duration :: "UINT option"
  tanx_max_ad_duration :: "UINT option"

record TANXREQ_ADZ =
  tanx_pid :: "string option"
  tanx_size :: "string option"
  tanx_view_type :: "UINT list"
  tanx_excluded_filter :: "UINT list"
  tanx_min_cpm_price :: "UINT option"
  tanx_view_screen :: "UINT option"
  tanx_api :: "UINT list"

record TANXREQ =
  tanx_version :: "UINT option"
  tanx_bid :: "string option"
  tanx_is_ping :: "UINT option"
  tanx_tid :: "string option"
  tanx_ip :: "string option"
  tanx_user_agent :: "string option"
  tanx_url :: "string option"
  tanx_category :: "UINT option"
  tanx_adzinfo :: "TANXREQ_ADZ list"
  tanx_crowd_category :: "UINT option list"
  tanx_excluded_sensitive_category :: "UINT list"
  tanx_excluded_ad_category :: "UINT list"
  tanx_mobile :: "TANXREQ_DEVICE option option"
  tanx_video :: "TANXREQ_VIDEO option"

record TANXRES_ADS =
  ads_adzinfo_id :: UINT
  ads_max_cpm_price :: UINT
  ads_ad_bid_count_idx :: UINT
  ads_html_snippet :: string
  ads_click_through_url :: "string list"
  ads_category :: "UINT list"
  ads_creative_type :: "UINT list"
  ads_destination_url :: "string list"
  ads_advertiser_ids :: "UINT list"
  ads_creative_id :: string
  ads_feedback_address :: "string option"

record TANXRES =
  res_version :: UINT
  res_bid :: string
  res_ads :: "TANXRES_ADS list"

section \<open>Reading a request\<close>

text \<open>\<^verbatim>\<open>strncasecmp(s, t, n) == 0\<close>.\<close>

definition strncasecmp_eq :: "string \<Rightarrow> string \<Rightarrow> nat \<Rightarrow> bool" where
  "strncasecmp_eq s t n \<longleftrightarrow> take n (low (c_str s) @ [CHR 0x00]) = take n (low (c_str t) @ [CHR 0x00])"

definition tanx_view :: "UINT \<Rightarrow> string" where
  "tanx_view v =
     (if v = 1 then ''1'' else if v = 5 then ''2'' else if v = 7 then ''3'' else if v = 12 then ''4''
      else if v = 11 then ''5'' else if v = 101 then ''11'' else if v = 102 then ''12'' else if v = 103 then ''13''
      else if v = 106 then ''14'' else if v = 107 then ''14'' else if v = 111 then ''16'' else ''9'')"

text \<open>One place of the request; a field of a later place replaces that of an earlier one.\<close>

definition tanx_adz :: "TANXREQ_ADZ \<Rightarrow> AdRtbRequest \<Rightarrow> AdRtbRequest" where
  "tanx_adz adz r =
     fold (\<lambda>a r. r\<lparr>m_sPara2 := if a = 3 \<or> a = 5 then ''1'' else ''0''\<rparr>) (tanx_api adz)
     (opt_set (tanx_view_screen adz) (\<lambda>v r. r\<lparr>m_sAdViewScreen := fmt_d v\<rparr>)
     (opt_set (tanx_min_cpm_price adz) (\<lambda>v r. r\<lparr>m_sMinPrice := fmt_d v\<rparr>)
     (fold (\<lambda>v r. r\<lparr>m_ltCreate := m_ltCreate r @ [fmt_d v]\<rparr>) (tanx_excluded_filter adz)
     (fold (\<lambda>v r. r\<lparr>m_sAdViewType := tanx_view v\<rparr>) (tanx_view_type adz)
     (opt_set (tanx_size adz) (\<lambda>s r. r\<lparr>m_sSize := s\<rparr>)
     (opt_set (tanx_pid adz) (\<lambda>s r. r\<lparr>m_sPId := s\<rparr>) r))))))"

text \<open>The operator is read at two places of the code, so it is filed twice.\<close>

definition tanx_operator_code :: "UINT \<Rightarrow> string list" where
  "tanx_operator_code v = (if v = 1 then [''46000''] else if v = 2 then [''46001''] else if v = 3 then [''46003''] else [])"

definition tanx_platform_devices :: "string \<Rightarrow> string list" where
  "tanx_platform_devices s =
     (if strncasecmp_eq s ''iphone'' 6 then [''1''] else []) @
     (if strncasecmp_eq s ''ipad'' 4 then [''3''] else []) @
     (if strncasecmp_eq s ''android'' 7 then [''2'', ''5''] else [])"

definition tanx_os_devices :: "string \<Rightarrow> string list" where
  "tanx_os_devices s =
     (if strncasecmp_eq s ''android'' (length s) then [''1'', ''3''] else []) @
     (if strncasecmp_eq s ''ios'' (length s) then [''2'', ''5''] else [])"

definition tanx_connect :: "UINT \<Rightarrow> string list" where
  "tanx_connect v =
     (if v = 1 then [''1''] else if v = 2 then [''3'', ''2''] else if v = 3 then [''4'', ''2'']
      else if v = 4 then [''5'', ''2''] else [])"

definition tanx_device :: "TANXREQ_DEVICE \<Rightarrow> 'p AdAdapterPara \<Rightarrow> 'p AdAdapterPara" where
  "tanx_device d p =
     (let op = (case tanx_operator d of None \<Rightarrow> [] | Some v \<Rightarrow> tanx_operator_code v);
          pl = (case tanx_platform d of None \<Rightarrow> [] | Some s \<Rightarrow> tanx_platform_devices s);
          os = (case tanx_os d of None \<Rightarrow> [] | Some s \<Rightarrow> tanx_os_devices s);
          net = (case tanx_network d of None \<Rightarrow> [] | Some v \<Rightarrow> tanx_connect v)
      in opt_set (tanx_device_id d) (\<lambda>s p. p\<lparr>m_pa_sIDFA := s\<rparr>)
        (on_request (\<lambda>r. r\<lparr>m_ltMobileOperator := m_ltMobileOperator r @ op @ op,
           m_ltMobileDevice := m_ltMobileDevice r @ pl @ os, m_ltMobileConnect := m_ltMobileConnect r @ net\<rparr>) p))"

text \<open>What is read before the user agent, and after it up to the end of the lists.\<close>

definition tanx_ids :: "TANXREQ \<Rightarrow> AdRtbRequest \<Rightarrow> AdRtbRequest" where
  "tanx_ids q r =
     opt_set (tanx_bid q) (\<lambda>s r. r\<lparr>m_sBidID := s\<rparr>) (opt_set (tanx_version q) (\<lambda>v r. r\<lparr>m_sPara1 := fmt_d v\<rparr>) r)"

definition tanx_user :: "TANXREQ \<Rightarrow> AdRtbRequest \<Rightarrow> AdRtbRequest" where
  "tanx_user q r =
     opt_set (tanx_user_agent q) (\<lambda>s r. r\<lparr>m_sUserAgent := s\<rparr>)
     (opt_set (tanx_ip q) (\<lambda>s r. r\<lparr>m_sUserIP := s\<rparr>) (opt_set (tanx_tid q) (\<lambda>s r. r\<lparr>m_sUserID := s\<rparr>) r))"

definition tanx_content :: "TANXREQ \<Rightarrow> AdRtbRequest \<Rightarrow> AdRtbRequest" where
  "tanx_content q r =
     fold (\<lambda>v r. r\<lparr>m_ltCategory := m_ltCategory r @ [fmt_d v]\<rparr>) (tanx_excluded_ad_category q)
     (fold (\<lambda>v r. r\<lparr>m_ltSensitive := m_ltSensitive r @ [fmt_d v]\<rparr>) (tanx_excluded_sensitive_category q)
     (fold (\<lambda>v. opt_set v (\<lambda>v r. r\<lparr>m_ltCrowdCategory := m_ltCrowdCategory r @ [fmt_d v]\<rparr>)) (tanx_crowd_category q)
     (fold tanx_adz (tanx_adzinfo q)
     (opt_set (tanx_category q) (\<lambda>v r. r\<lparr>m_ltSiteCategory := m_ltSiteCategory r @ [fmt_d v]\<rparr>)
     (opt_set (tanx_url q) (\<lambda>s r. r\<lparr>m_sUserUrl := s\<rparr>) r)))))"

definition tanx_flow :: "TANXREQ \<Rightarrow> UINT" where
  "tanx_flow q = (if tanx_video q \<noteq> None then 1 else if tanx_mobile q \<noteq> None then 2 else 0)"

definition tanx_mobile_video :: "TANXREQ \<Rightarrow> 'p AdAdapterPara \<Rightarrow> 'p AdAdapterPara" where
  "tanx_mobile_video q p =
     (let p = opt_set (tanx_mobile q) (\<lambda>dev p. opt_set dev tanx_device (on_request (\<lambda>r. r\<lparr>m_bMobile := True\<rparr>) p)) p;
          p = opt_set (tanx_video q) (\<lambda>v. on_request (\<lambda>r.
                opt_set (tanx_max_ad_duration v) (\<lambda>n r. r\<lparr>m_sVideoMaxTime := fmt_d n\<rparr>)
                (opt_set (tanx_min_ad_duration v) (\<lambda>n r. r\<lparr>m_sVideoMinTime := fmt_d n\<rparr>) r))) p
      in on_request (\<lambda>r. r\<lparr>m_sFlow := fmt_d (tanx_flow q)\<rparr>) p)"

definition tanx_HttpToInternal ::
    "nat AdAcbmTree \<Rightarrow> (string \<Rightarrow> int \<Rightarrow> TANXREQ option) \<Rightarrow> 'p AdAdapterPara \<Rightarrow> (int \<times> 'p AdAdapterPara) cxx" where
  "tanx_HttpToInternal ua ParseFromArray pPara =
     (let p = on_request (\<lambda>r. r\<lparr>m_sPara2 := ''0'', m_sPara1 := ''0''\<rparr>) pPara in
      case m_pBody p of
        None \<Rightarrow> Inl NullPointer
      | Some body \<Rightarrow>
          (case ParseFromArray body (m_iBody p) of
             None \<Rightarrow> Inr (AD_FAILURE, p)
           | Some q \<Rightarrow>
               let p = on_request (tanx_ids q) p in
               if tanx_is_ping q \<noteq> None \<and> tanx_is_ping q \<noteq> Some 0 then Inr (AD_FAILURE, p)
               else
                 let p = on_request (tanx_user q) p in
                 bind_cxx (if tanx_user_agent q = None then Inr p else bind_cxx (AdUaParser ua p) (\<lambda>(ret, p). Inr p)) (\<lambda>p.
                   Inr (AD_SUCCESS, snd (CheckUserId (tanx_mobile_video q (on_request (tanx_content q) p)))))))"

section \<open>Writing a response\<close>

definition AD_TANX_PRICE_CLICK :: string where
  "AD_TANX_PRICE_CLICK = ''p=%%SETTLE_PRICE%%&tanxclick=%%CLICK_URL_PRE_ENC%%''"
definition AD_TANX_IMGURL :: string where
  "AD_TANX_IMGURL = ''http://cms.tanx.com/t.gif?tanx_nid=43124750&tanx_cm''"
definition AD_TANX_PRICE :: string where
  "AD_TANX_PRICE = ''p=%%SETTLE_PRICE%%''"
definition AD_TANX_CLICK :: string where
  "AD_TANX_CLICK = ''tanxclick=%%CLICK_URL_PRE_ENC%%''"
definition AD_TANX_HTML :: string where
  "AD_TANX_HTML = ''<html><head><style type=\"text/css\">*{margin: 0; padding: 0; border:none;}</style></head><body>%s</body></html>''"
definition AD_TANX_FEED :: string where
  "AD_TANX_FEED = ''http://tanxlog.istreamsche.com/tshow?%s&info=%s''"

definition tanx_message :: "'p AdAdapterPara \<Rightarrow> string \<Rightarrow> string option \<Rightarrow> TANXRES" where
  "tanx_message p sHtml feed =
     (let res = m_ctResponse p in
      \<lparr>res_version = atoi (c_str (m_sPara1 (m_ctRequest p))), res_bid = m_r_sBidID res,
       res_ads = [\<lparr>ads_adzinfo_id = 0, ads_max_cpm_price = atoi (c_str (m_r_sMaxPrice res)), ads_ad_bid_count_idx = 0,
         ads_html_snippet = sHtml, ads_click_through_url = [m_r_sClickUrl res],
         ads_category = [atoi (c_str (m_r_sCategory res))], ads_creative_type = [atoi (c_str (m_r_sCreative res))],
         ads_destination_url = [m_r_sDestUrl res], ads_advertiser_ids = [atoi (c_str (m_r_sTanxID res))],
         ads_creative_id = m_r_sMaterialID res, ads_feedback_address = feed\<rparr>]\<rparr>)"

text \<open>The snippet, the address of the feedback and the parameter object, or \<^verbatim>\<open>AD_FAILURE\<close>.\<close>

definition tanx_html ::
    "(nat \<Rightarrow> nat) \<Rightarrow> (nat \<Rightarrow> string) \<Rightarrow> 'p AdAdapterPara \<Rightarrow> (string \<times> string option) option cxx" where
  "tanx_html clock junk p =
     (if \<not> m_bMobile (m_ctRequest p) then
        bind_cxx (GetShowHtml (clock 0) (clock 1) (junk 0) p AD_TANX_PRICE_CLICK AD_TANX_IMGURL 4096) (\<lambda>(ret, html).
          Inr (if ret \<noteq> AD_SUCCESS then None else Some (case html of None \<Rightarrow> [] | Some s \<Rightarrow> s, None)))
      else
        bind_cxx (GetShowHtml (clock 0) (clock 1) (junk 0) p AD_TANX_CLICK AD_TANX_IMGURL 4096) (\<lambda>(ret, html).
          if ret \<noteq> AD_SUCCESS then Inr None
          else
            let html = (case html of None \<Rightarrow> [] | Some s \<Rightarrow> s);
                sHtml = (if m_sPara2 (m_ctRequest p) = ''0'' then snprintf 4096 (printf AD_TANX_HTML [html]) else html)
            in bind_cxx (GetShowInfo (clock 2) p (replicate 4096 (CHR 0x00)) 4096) (\<lambda>sShowInfo.
                 bind_cxx (buf_text sShowInfo) (\<lambda>info.
                   Inr (Some (sHtml, Some (snprintf 4096 (printf AD_TANX_FEED [AD_TANX_PRICE, info]))))))))"

definition tanx_InternalToHttp ::
    "(TANXRES \<Rightarrow> string) \<Rightarrow> (nat \<Rightarrow> nat) \<Rightarrow> (nat \<Rightarrow> string) \<Rightarrow> 'p AdAdapterPara \<Rightarrow> (int \<times> 'p AdAdapterPara) cxx" where
  "tanx_InternalToHttp SerializeToString clock junk pPara =
     (if m_sPara2 (m_ctRequest pPara) \<noteq> ''0'' \<and> m_sPara2 (m_ctRequest pPara) \<noteq> ''1'' then Inr (AD_FAILURE, pPara)
      else
        let p = (if m_sPara2 (m_ctRequest pPara) = ''1''
                 then on_response (\<lambda>r. r\<lparr>m_r_sHtml := m_r_sHtmlMraid r\<rparr>) pPara else pPara)
        in bind_cxx (tanx_html clock junk p) (\<lambda>res.
             case res of
               None \<Rightarrow> Inr (AD_FAILURE, p)
             | Some (sHtml, feed) \<Rightarrow> write_answer 4096 AD_HTTP200 (SerializeToString (tanx_message p sHtml feed)) p))"

definition tanx_EmptyToHttp :: "(TANXRES \<Rightarrow> string) \<Rightarrow> 'p AdAdapterPara \<Rightarrow> (int \<times> 'p AdAdapterPara) cxx" where
  "tanx_EmptyToHttp SerializeToString pPara =
     write_answer 2048 AD_HTTP200 (SerializeToString
       \<lparr>res_version = atoi (c_str (m_sPara1 (m_ctRequest pPara))), res_bid = m_sBidID (m_ctRequest pPara), res_ads = []\<rparr>) pPara"

end
