(* ===== verification/AdProtocolBaidu.thy ===== *)
theory AdProtocolBaidu
  imports AdProtocolBase
begin

text \<open>
  The protocol of the exchange Baidu (\<^verbatim>\<open>adx/Baidu/AdProtocolBaidu.cpp\<close>), with its messages as records of the fields
  that are read or set. The parser and the serialization of the messages, the readings of the clock and the arrays that are not
  initialised are arguments.
\<close>

record BESREQ_SLOT =
  bes_ad_block_key :: "64 word option"
  bes_adslot_type :: "UINT option"
  bes_width :: "UINT option"
  bes_height :: "UINT option"
  bes_slot_visibility :: "UINT option"
  bes_creative_type :: "UINT list"
  bes_minimum_cpm :: "UINT option"

record BESREQ =
  bes_id :: "string option"
  bes_is_ping :: "bool option"
  bes_ip :: "string option"
  bes_user_agent :: "string option"
  bes_baidu_id_list :: "string option list"
  bes_user_category :: "64 word list"
  bes_url :: "string option"
  bes_site_category :: "UINT option"
  bes_excluded_product_category :: "UINT list"
  bes_adslot :: "BESREQ_SLOT list"

record BESRES_AD =
  besad_sequence_id :: UINT
  besad_creative_id :: "64 word"
  besad_max_cpm :: UINT
  besad_is_cookie_matching :: bool
  besad_html_snippet :: string
  besad_advertiser_id :: UINT
  besad_width :: UINT
  besad_height :: UINT
  besad_category :: UINT
  besad_type :: "UINT option"
  besad_landing_page :: string
  besad_target_url :: "string list"

record BESRES =
  besres_id :: string
  besres_ad :: "BESRES_AD list"

section \<open>Reading a request\<close>

definition fmt_ld :: "64 word \<Rightarrow> string" where
  "fmt_ld w = (let i = sint w in if i < 0 then CHR ''-'' # digits10 (nat (- i)) else digits10 (nat i))"

definition bes_view :: "UINT \<Rightarrow> string" where
  "bes_view v =
     (if v = 1 then ''2'' else if v = 11 then ''12'' else if v = 12 then ''11''
      else if v = 21 \<or> v = 22 \<or> v = 23 then ''5'' else ''1'')"

text \<open>
  The table of the creative types: only an index of 10 or more is left out, so a negative one is written in front of the array.
\<close>

definition bes_creatives :: "UINT list \<Rightarrow> bool list cxx" where
  "bes_creatives ts =
     fold_cxx (\<lambda>t tup. if sint t < 10 then vec_set tup (sint t) True else Inr tup) ts (replicate 10 False)"

definition bes_excluded_creates :: "bool list \<Rightarrow> string list" where
  "bes_excluded_creates tup =
     (case (tup ! 1, tup ! 2, tup ! 7) of
        (False, False, False) \<Rightarrow> []
      | (True, True, True) \<Rightarrow> []
      | (True, True, False) \<Rightarrow> [''4'']
      | (True, False, True) \<Rightarrow> [''3'']
      | (False, True, True) \<Rightarrow> [''2'']
      | (True, False, False) \<Rightarrow> [''3'', ''4'']
      | (False, True, False) \<Rightarrow> [''4'', ''2'']
      | (False, False, True) \<Rightarrow> [''2'', ''3''])"

text \<open>Only the first slot is read; everything but its key only if it has a type.\<close>

definition bes_slot :: "BESREQ_SLOT \<Rightarrow> AdRtbRequest \<Rightarrow> AdRtbRequest cxx" where
  "bes_slot slot r =
     (let r = opt_set (bes_ad_block_key slot) (\<lambda>v r. r\<lparr>m_sPId := fmt_ld v\<rparr>) r in
      case bes_adslot_type slot of
        None \<Rightarrow> Inr r
      | Some ty \<Rightarrow>
          let r = r\<lparr>m_sAdViewType := bes_view ty\<rparr>;
              r = (case (bes_width slot, bes_height slot) of
                     (Some w, Some h) \<Rightarrow> r\<lparr>m_sSize := printf ''%dx%d'' [fmt_d w, fmt_d h]\<rparr> | _ \<Rightarrow> r);
              r = opt_set (bes_slot_visibility slot) (\<lambda>v r. r\<lparr>m_sAdViewScreen := if v = 1 then ''1'' else ''2''\<rparr>) r
          in bind_cxx (bes_creatives (bes_creative_type slot)) (\<lambda>tup.
               Inr (opt_set (bes_minimum_cpm slot) (\<lambda>v r. r\<lparr>m_sMinPrice := fmt_d v\<rparr>)
                 (r\<lparr>m_ltCreate := m_ltCreate r @ bes_excluded_creates tup\<rparr>))))"

definition bes_content :: "BESREQ \<Rightarrow> AdRtbRequest \<Rightarrow> AdRtbRequest" where
  "bes_content q r =
     fold (\<lambda>v r. r\<lparr>m_ltCategory := m_ltCategory r @ [fmt_d v]\<rparr>) (bes_excluded_product_category q)
     (opt_set (bes_site_category q) (\<lambda>v r. r\<lparr>m_ltSiteCategory := m_ltSiteCategory r @ [fmt_d v]\<rparr>)
     (opt_set (bes_url q) (\<lambda>s r. r\<lparr>m_sUserUrl := s\<rparr>)
     (fold (\<lambda>v r. r\<lparr>m_ltCrowdCategory := m_ltCrowdCategory r @ [fmt_ld v]\<rparr>) (bes_user_category q)
     (fold (\<lambda>u. opt_set u (\<lambda>s r. r\<lparr>m_sUserID := s\<rparr>)) (bes_baidu_id_list q) r))))"

definition baidu_HttpToInternal ::
    "nat AdAcbmTree \<Rightarrow> (string \<Rightarrow> int \<Rightarrow> BESREQ option) \<Rightarrow> 'p AdAdapterPara \<Rightarrow> (int \<times> 'p AdAdapterPara) cxx" where
  "baidu_HttpToInternal ua ParseFromArray pPara =
     (case m_pBody pPara of
        None \<Rightarrow> Inl NullPointer
      | Some body \<Rightarrow>
          (case ParseFromArray body (m_iBody pPara) of
             None \<Rightarrow> Inr (AD_FAILURE, pPara)
           | Some q \<Rightarrow>
               let p = on_request (opt_set (bes_id q) (\<lambda>s r. r\<lparr>m_sBidID := s\<rparr>)) pPara in
               if bes_is_ping q = Some True then Inr (AD_FAILURE, p)
               else
                 let p = on_request (opt_set (bes_ip q) (\<lambda>s r. r\<lparr>m_sUserIP := s\<rparr>)) p;
                     p = on_request (opt_set (bes_user_agent q) (\<lambda>s r. r\<lparr>m_sUserAgent := s\<rparr>)) p
                 in bind_cxx (if bes_user_agent q = None then Inr p else bind_cxx (AdUaParser ua p) (\<lambda>(ret, p). Inr p)) (\<lambda>p.
                   let p = on_request (bes_content q) p in
                   bind_cxx (case bes_adslot q of [] \<Rightarrow> Inr (m_ctRequest p) | slot # _ \<Rightarrow> bes_slot slot (m_ctRequest p)) (\<lambda>r.
                     Inr (AD_SUCCESS, snd (CheckUserId (p\<lparr>m_ctRequest := r\<lparr>m_sFlow := ''0''\<rparr>\<rparr>)))))))"

section \<open>Writing a response\<close>

definition AD_BD_CLICK_MACRO :: string where "AD_BD_CLICK_MACRO = ''%%CLICK_URL_0%%''"
definition AD_BD_PRICE_MACRO :: string where "AD_BD_PRICE_MACRO = ''%%PRICE%%''"
definition AD_COOKIEMAPPING_BAIDU :: string where
  "AD_COOKIEMAPPING_BAIDU = ''http://cm.pos.baidu.com/pixel?dspid=8086152&ext_data=geo''"

definition sg_iIbiddingCf :: "UINT list" where
  "sg_iIbiddingCf = [1, 1, 1, 1, 7, 2, 1, 1, 1]"

text \<open>The guard compares the format with \<^verbatim>\<open>sizeof\<close> the table, which is 36, not with its 9 entries.\<close>

definition bes_type :: "string \<Rightarrow> UINT option cxx" where
  "bes_type sMaterailFormat =
     (let v = atoi (c_str sMaterailFormat) in
      if v < 36 then bind_cxx (vec_get sg_iIbiddingCf (uint v)) (\<lambda>t. Inr (Some t)) else Inr None)"

definition atol :: "string \<Rightarrow> 64 word" where
  "atol s =
     (let t = dropWhile is_space s in
      case t of
        [] \<Rightarrow> 0
      | c # u \<Rightarrow>
          if c = CHR ''-'' then of_int (clip64 (- int (digits_val (takeWhile is_digit u))))
          else if c = CHR ''+'' then of_int (clip64 (int (digits_val (takeWhile is_digit u))))
          else of_int (clip64 (int (digits_val (takeWhile is_digit t)))))"

text \<open>The snippet and the target URL. What \<^verbatim>\<open>GetScriptHtml\<close> returns is ignored; without a snippet the array holds the empty text.\<close>

definition bes_snippet ::
    "(nat \<Rightarrow> nat) \<Rightarrow> (nat \<Rightarrow> string) \<Rightarrow> 'p AdAdapterPara \<Rightarrow> (string \<times> string) cxx" where
  "bes_snippet clock junk p =
     (let res = m_ctResponse p; html = map tolower (c_str (m_r_sHtml res)) in
      if find_sub ''html'' html \<noteq> None \<or> find_sub ''ats.istreamsche.com'' html \<noteq> None then
        bind_cxx (GetScriptHtml (clock 0) (clock 1) (junk 0) p (''p='' @ AD_BD_PRICE_MACRO) AD_BD_CLICK_MACRO 4096) (\<lambda>(_, s).
          Inr (case s of None \<Rightarrow> [] | Some s \<Rightarrow> s, m_r_sClickUrl res))
      else
        bind_cxx (GetShowPara (clock 0) (clock 1) (junk 0) p 2048) (\<lambda>sShowPara.
          bind_cxx (GenerateSinppet (clock 2) (clock 3) (junk 1) p AD_COOKIEMAPPING_BAIDU AD_BD_PRICE_MACRO AD_BD_CLICK_MACRO 4096)
            (\<lambda>(_, s).
              Inr (s, snprintf 2048 (printf ''http://lg.istreamsche.com/besclick?gc=%s&%s&url=%s''
                [GetClickPara res [], sShowPara, m_r_sClickUrl res])))))"

text \<open>The width and the height are appended to those of the response.\<close>

definition baidu_InternalToHttp ::
    "(BESRES \<Rightarrow> string) \<Rightarrow> (nat \<Rightarrow> nat) \<Rightarrow> (nat \<Rightarrow> string) \<Rightarrow> 'p AdAdapterPara \<Rightarrow> (int \<times> 'p AdAdapterPara) cxx" where
  "baidu_InternalToHttp SerializeToString clock junk pPara =
     (let res = m_ctResponse pPara in
      bind_cxx (bes_type (m_r_sMaterailFormat res)) (\<lambda>type.
        case split_fields (m_r_sSize res) ''x'' of
          [w, h] \<Rightarrow>
            (let p = on_response (\<lambda>r. r\<lparr>m_r_sWidth := m_r_sWidth r @ c_str w, m_r_sHeight := m_r_sHeight r @ c_str h\<rparr>) pPara in
             bind_cxx (bes_snippet clock junk p) (\<lambda>(snippet, target).
               write_answer 4096 AD_HTTP200_OCT (SerializeToString
                 \<lparr>besres_id = m_sBidID (m_ctRequest pPara),
                  besres_ad = [\<lparr>besad_sequence_id = 1, besad_creative_id = atol (c_str (m_r_sMaterialID res)),
                    besad_max_cpm = atoi (c_str (m_r_sMaxPrice res)), besad_is_cookie_matching = True,
                    besad_html_snippet = snippet, besad_advertiser_id = atoi (c_str (m_r_sAdvertiserId res)),
                    besad_width = atoi (c_str (m_r_sWidth (m_ctResponse p))), besad_height = atoi (c_str (m_r_sHeight (m_ctResponse p))),
                    besad_category = atoi (c_str (m_r_sCategory res)), besad_type = type,
                    besad_landing_page = m_r_sClickUrl res, besad_target_url = [target]\<rparr>]\<rparr>) p))
        | _ \<Rightarrow> Inr (AD_FAILURE, pPara)))"

definition baidu_EmptyToHttp :: "(BESRES \<Rightarrow> string) \<Rightarrow> 'p AdAdapterPara \<Rightarrow> (int \<times> 'p AdAdapterPara) cxx" where
  "baidu_EmptyToHttp SerializeToString pPara =
     write_answer 2048 AD_HTTP200_OCT (SerializeToString \<lparr>besres_id = m_sBidID (m_ctRequest pPara), besres_ad = []\<rparr>) pPara"

end
