(* ===== verification/AdProtocolMtMedia.thy ===== *)
theory AdProtocolMtMedia
  imports AdProtocolBase JsonValue
begin

text \<open>
  The protocol of the exchange MtMedia (\<^verbatim>\<open>adx/MtMedia/AdProtocolMtMedia.cpp\<close>), whose messages are JSON texts, and the
  test protocol (\<^verbatim>\<open>adx/Test/AdProtocolTest.cpp\<close>). The reader and the writer of JSON are arguments. The private object of a
  request is allocated when it is read and freed with the answer; none of its fields is used.
\<close>

record AdPrivateInfo =
  m_sMd5 :: string
  m_sSHA :: string
  m_sImpId :: string
  m_sDealID :: string
  m_pi_sIMEI :: string

definition private_new :: AdPrivateInfo where
  "private_new = \<lparr>m_sMd5 = [], m_sSHA = [], m_sImpId = [], m_sDealID = [], m_pi_sIMEI = []\<rparr>"

text \<open>\<^verbatim>\<open>sprintf\<close> into an array of \<open>n\<close> bytes: a longer text overruns it.\<close>

definition sprintf :: "nat \<Rightarrow> string \<Rightarrow> string cxx" where
  "sprintf n s = (if length s < n then Inr s else Inl OutOfBounds)"

definition json_text :: "Json \<Rightarrow> string \<Rightarrow> string cxx" where
  "json_text value key = bind_cxx (json_get value key) json_asString"

definition mt_fields :: "Json \<Rightarrow> AdRtbRequest \<times> UINT \<Rightarrow> (AdRtbRequest \<times> UINT) cxx" where
  "mt_fields value st =
     bind_cxx (json_when value ''rid'' (\<lambda>v (r, f). bind_cxx (json_asString v) (\<lambda>s. Inr (r\<lparr>m_sBidID := s\<rparr>, f))) st) (\<lambda>st.
     bind_cxx (bind_cxx (json_isMember value ''ad_w'') (\<lambda>w. if w then json_isMember value ''ad_h'' else Inr False)) (\<lambda>b.
     bind_cxx (if b then
                 bind_cxx (json_text value ''ad_w'') (\<lambda>w.
                 bind_cxx (json_text value ''ad_h'') (\<lambda>h.
                 bind_cxx (sprintf 1024 (printf ''%sx%s'' [w, h])) (\<lambda>s.
                   case st of (r, f) \<Rightarrow> Inr (r\<lparr>m_sSize := s\<rparr>, f))))
               else Inr st) (\<lambda>st.
     bind_cxx (json_when value ''flowtype'' (\<lambda>v (r, f). bind_cxx (json_asString v) (\<lambda>s. Inr (r, atoi (c_str s)))) st) (\<lambda>st.
     bind_cxx (json_when value ''pid'' (\<lambda>v (r, f). bind_cxx (json_asString v) (\<lambda>s. Inr (r\<lparr>m_sPId := s\<rparr>, f))) st) (\<lambda>st.
     json_when value ''ip'' (\<lambda>v (r, f). bind_cxx (json_asString v) (\<lambda>s. Inr (r\<lparr>m_sUserIP := s\<rparr>, f))) st)))))"

definition mtmedia_HttpToInternal ::
    "json_reader \<Rightarrow> AdPrivateInfo AdAdapterPara \<Rightarrow> (int \<times> AdPrivateInfo AdAdapterPara) cxx" where
  "mtmedia_HttpToInternal parse pPara =
     (let p = pPara\<lparr>m_pPrivate := Some private_new\<rparr> in
      case m_pBody p of
        None \<Rightarrow> Inl NullPointer
      | Some body \<Rightarrow>
          bind_cxx (buf_text body) (\<lambda>str.
          case parse str of
            None \<Rightarrow> Inr (AD_FAILURE, p)
          | Some value \<Rightarrow>
              bind_cxx (mt_fields value (m_ctRequest p, 0)) (\<lambda>(r, iFlowtype).
                Inr (AD_SUCCESS, p\<lparr>m_ctRequest := r\<lparr>m_sMinPrice := ''0'', m_sFlow := fmt_d iFlowtype\<rparr>\<rparr>))))"

definition mt_root :: "AdRtbResponse \<Rightarrow> Json" where
  "mt_root res =
     JObject (fold (\<lambda>(k, s). smap_upd k (JString s))
       [(''rid'', m_r_sBidID res), (''executeid'', m_r_sExecID res), (''advid'', m_r_sAdvertiserId res),
        (''creativeid'', m_r_sCreativeID res), (''areaid'', m_r_sArea res), (''material_url'', m_r_sHtml res),
        (''pid'', m_r_sPId res), (''click_url'', m_r_sDestUrl res), (''m_type'', material_type (m_r_sMaterailFormat res))] [])"

definition mtmedia_InternalToHttp ::
    "(Json \<Rightarrow> string) \<Rightarrow> AdPrivateInfo AdAdapterPara \<Rightarrow> (int \<times> AdPrivateInfo AdAdapterPara) cxx" where
  "mtmedia_InternalToHttp FastWriter pPara =
     (if m_pPrivate pPara = None then Inr (AD_FAILURE, pPara)
      else bind_cxx (write_answer 2048 AD_HTTP200_JSON (FastWriter (mt_root (m_ctResponse pPara))) pPara) (\<lambda>(ret, p).
        Inr (if ret \<noteq> AD_SUCCESS then (AD_FAILURE, p) else (AD_SUCCESS, p\<lparr>m_pPrivate := None\<rparr>))))"

text \<open>The head is printed into the output cache itself.\<close>

definition mtmedia_EmptyToHttp :: "AdPrivateInfo AdAdapterPara \<Rightarrow> (int \<times> AdPrivateInfo AdAdapterPara) cxx" where
  "mtmedia_EmptyToHttp pPara =
     (let out = m_ctCacheOut pPara; s = snprintf AD_CACHE_MAX (printf AD_HTTP204 [''0'']) in
      bind_cxx (mem_write (m_cCache out) 0 (s @ [CHR 0x00])) (\<lambda>m.
        Inr (AD_SUCCESS, pPara\<lparr>m_ctCacheOut := out\<lparr>m_cCache := m, m_iLen := int (length s)\<rparr>, m_pPrivate := None\<rparr>)))"

section \<open>The test protocol\<close>

definition test_HttpToInternal :: "'p AdAdapterPara \<Rightarrow> (int \<times> 'p AdAdapterPara) cxx" where
  "test_HttpToInternal pPara = Inr (AD_FAILURE, pPara)"

definition test_InternalToHttp :: "'p AdAdapterPara \<Rightarrow> (int \<times> 'p AdAdapterPara) cxx" where
  "test_InternalToHttp pPara = Inr (AD_FAILURE, pPara)"

definition test_answer :: string where
  "test_answer = http_head ''HTTP/1.0 200 OK'' [''Content-Length: 2'', ''Content-Type: text/html; charset=UTF-8'',
     ''Server: TornadoServer/2.2''] @ ''OK''"

definition test_EmptyToHttp :: "'p AdAdapterPara \<Rightarrow> (int \<times> 'p AdAdapterPara) cxx" where
  "test_EmptyToHttp pPara =
     bind_cxx (cache_Write test_answer (int (length test_answer)) (m_ctCacheOut pPara)) (\<lambda>(ret, out).
       if ret \<noteq> AD_SUCCESS then Inr (AD_FAILURE, pPara\<lparr>m_ctCacheOut := out\<rparr>)
       else bind_cxx (cache_Append [] 0 out) (\<lambda>(ret, out).
         Inr (if ret \<noteq> AD_SUCCESS then AD_FAILURE else AD_SUCCESS, pPara\<lparr>m_ctCacheOut := out\<rparr>)))"

end
