(* ===== verification/AdAdapterProtocols.thy ===== *)
theory AdAdapterProtocols
  imports AdAdapterCorrect AdProtocolTanX AdProtocolBaidu AdProtocolMtMedia
begin

text \<open>
  The protocols of the program as objects with virtual functions (the classes of \<^verbatim>\<open>adx/*/AdProtocol*.cpp\<close>), and the proof
  that each keeps the contract of the adapter. What stands for other code is an argument of each of them.
\<close>

definition AdProtocolTanX ::
    "nat AdAcbmTree \<Rightarrow> (string \<Rightarrow> int \<Rightarrow> TANXREQ option) \<Rightarrow> (TANXRES \<Rightarrow> string) \<Rightarrow> (nat \<Rightarrow> nat) \<Rightarrow> (nat \<Rightarrow> string) \<Rightarrow> 'p AdProtocol" where
  "AdProtocolTanX ua parse ser clock junk =
     \<lparr>HttpToInternal = tanx_HttpToInternal ua parse, InternalToHttp = tanx_InternalToHttp ser clock junk,
      EmptyToHttp = tanx_EmptyToHttp ser\<rparr>"

definition AdProtocolBaidu ::
    "nat AdAcbmTree \<Rightarrow> (string \<Rightarrow> int \<Rightarrow> BESREQ option) \<Rightarrow> (BESRES \<Rightarrow> string) \<Rightarrow> (nat \<Rightarrow> nat) \<Rightarrow> (nat \<Rightarrow> string) \<Rightarrow> 'p AdProtocol" where
  "AdProtocolBaidu ua parse ser clock junk =
     \<lparr>HttpToInternal = baidu_HttpToInternal ua parse, InternalToHttp = baidu_InternalToHttp ser clock junk,
      EmptyToHttp = baidu_EmptyToHttp ser\<rparr>"

definition AdProtocolMtMedia :: "json_reader \<Rightarrow> (Json \<Rightarrow> string) \<Rightarrow> AdPrivateInfo AdProtocol" where
  "AdProtocolMtMedia parse fast =
     \<lparr>HttpToInternal = mtmedia_HttpToInternal parse, InternalToHttp = mtmedia_InternalToHttp fast,
      EmptyToHttp = mtmedia_EmptyToHttp\<rparr>"

definition AdProtocolTest :: "'p AdProtocol" where
  "AdProtocolTest =
     \<lparr>HttpToInternal = test_HttpToInternal, InternalToHttp = test_InternalToHttp, EmptyToHttp = test_EmptyToHttp\<rparr>"

section \<open>What the operations keep\<close>

lemma links_updates [simp]:
  "links (p\<lparr>m_ctCacheOut := c\<rparr>) = links p" "links (p\<lparr>m_pa_sIDFA := s\<rparr>) = links p" "links (p\<lparr>m_pPrivate := x\<rparr>) = links p"
  "links (p\<lparr>m_ctRequest := r\<rparr>) = links p" "links (p\<lparr>m_ctResponse := q\<rparr>) = links p"
  by (simp_all add: links_def)

lemma keeps_step: "keeps links q m \<Longrightarrow> links q = links p \<Longrightarrow> keeps links p m"
  by (simp add: keeps_def)

lemma keeps_bind: "(\<And>x. m = Inr x \<Longrightarrow> keeps links p (f x)) \<Longrightarrow> keeps links p (bind_cxx m f)"
  by (auto simp: keeps_def bind_cxx_Inr_iff)

lemma keeps_write_answer: "links q = links p \<Longrightarrow> keeps links p (write_answer k f body q)"
  unfolding write_answer_def Let_def
  by (rule keeps_bind) (auto intro!: keeps_bind keeps_intros(2) split: prod.split)

lemma links_write_answer: "write_answer k f body p = Inr (r, p') \<Longrightarrow> links p' = links p"
  using keepsD [OF keeps_write_answer [of p p k f body]] by simp

lemma links_CheckUserId [simp]: "links (snd (CheckUserId p)) = links p"
  by (simp add: CheckUserId_def Let_def)

lemma links_opt_set: "(\<And>x q. links (f x q) = links q) \<Longrightarrow> links (opt_set v f p) = links p"
  by (simp add: opt_set_def split: option.split)

lemma AdUaParser_links: "AdUaParser ua p = Inr (r, p') \<Longrightarrow> links p' = links p"
  by (auto simp: AdUaParser_def bind_cxx_Inr_iff split: if_splits)

lemma links_mobile_video [simp]: "links (tanx_mobile_video q p) = links p"
  by (simp add: tanx_mobile_video_def tanx_device_def Let_def links_opt_set)

lemma keeps_tanx_http: "keeps links p (tanx_HttpToInternal ua parse p)"
  unfolding tanx_HttpToInternal_def Let_def
  by (auto intro!: keeps_bind keeps_intros(1,2) dest!: AdUaParser_links split: option.split if_splits
      simp: bind_cxx_Inr_iff)

lemma keeps_tanx_answer: "keeps links p (tanx_InternalToHttp ser clock junk p)"
  unfolding tanx_InternalToHttp_def Let_def
  by (auto intro!: keeps_bind keeps_intros(1,2) keeps_write_answer split: option.split)

lemma keeps_baidu_http: "keeps links p (baidu_HttpToInternal ua parse p)"
  unfolding baidu_HttpToInternal_def Let_def
  by (auto intro!: keeps_bind keeps_intros(1,2) dest!: AdUaParser_links split: option.split if_splits
      simp: bind_cxx_Inr_iff)

lemma keeps_baidu_answer: "keeps links p (baidu_InternalToHttp ser clock junk p)"
  unfolding baidu_InternalToHttp_def Let_def
  by (auto intro!: keeps_bind keeps_intros(1,2) keeps_write_answer split: list.split)

lemma keeps_mt_http: "keeps links p (mtmedia_HttpToInternal parse p)"
  unfolding mtmedia_HttpToInternal_def Let_def
  by (auto intro!: keeps_bind keeps_intros(1,2) split: option.split)

lemma keeps_mt_answer: "keeps links p (mtmedia_InternalToHttp fast p)"
  unfolding mtmedia_InternalToHttp_def
  by (auto intro!: keeps_bind keeps_intros(1,2) split: if_splits) (erule links_write_answer)+

lemma keeps_mt_empty: "keeps links p (mtmedia_EmptyToHttp p)"
  unfolding mtmedia_EmptyToHttp_def Let_def by (auto intro!: keeps_bind keeps_intros(2))

lemma keeps_test_empty: "keeps links p (test_EmptyToHttp p)"
  unfolding test_EmptyToHttp_def Let_def by (auto intro!: keeps_bind keeps_intros(2))

section \<open>The protocols keep the contract\<close>

interpretation tanx: adx_protocol "AdProtocolTanX ua parse ser clock junk" for ua parse ser clock junk
  by unfold_locales
    (auto simp: AdProtocolTanX_def tanx_EmptyToHttp_def
      dest: keepsD [OF keeps_tanx_http] keepsD [OF keeps_tanx_answer] links_write_answer)

interpretation baidu: adx_protocol "AdProtocolBaidu ua parse ser clock junk" for ua parse ser clock junk
  by unfold_locales
    (auto simp: AdProtocolBaidu_def baidu_EmptyToHttp_def
      dest: keepsD [OF keeps_baidu_http] keepsD [OF keeps_baidu_answer] links_write_answer)

interpretation mtmedia: adx_protocol "AdProtocolMtMedia parse fast" for parse fast
  by unfold_locales
    (auto simp: AdProtocolMtMedia_def
      dest: keepsD [OF keeps_mt_http] keepsD [OF keeps_mt_answer] keepsD [OF keeps_mt_empty])

interpretation test: adx_protocol AdProtocolTest
  by unfold_locales
    (auto simp: AdProtocolTest_def test_HttpToInternal_def test_InternalToHttp_def dest: keepsD [OF keeps_test_empty])

end
