(* ===== verification/AdAdapterAnswers.thy ===== *)
theory AdAdapterAnswers
  imports AdAdapterProtocols AdTlvRoundtrip
begin

text \<open>
  What happens to single requests: the answer of a local bidder, requests that came too late, answers of a remote bidder that are not
  TLV packets, and requests for an address that is not configured.
\<close>

section \<open>The packet of a local bidder\<close>

lemma le_bytes_Suc: "le_bytes (Suc k) n = char_of (n mod 256) # le_bytes k (n div 256)"
proof -
  have "map (\<lambda>i. char_of (n div 256 ^ i mod 256)) [0..<Suc k] =
      char_of (n mod 256) # map (\<lambda>i. char_of (n div 256 ^ Suc i mod 256)) [0..<k]"
    unfolding map_upt_Suc by simp
  then show ?thesis by (simp add: le_bytes_def div_mult2_eq [symmetric])
qed

lemma le_nat_bytes: "n < 256 ^ k \<Longrightarrow> le_nat (le_bytes k n) = n"
proof (induction k arbitrary: n)
  case (Suc k)
  have "n div 256 < 256 ^ k" using Suc.prems by (simp add: less_mult_imp_div_less mult.commute)
  with Suc.IH have "le_nat (le_bytes k (n div 256)) = n div 256" .
  then show ?case by (simp add: le_bytes_Suc le_nat_def)
qed (simp add: le_bytes_def le_nat_def)

lemma length_le_bytes [simp]: "length (le_bytes k n) = k"
  by (simp add: le_bytes_def)

lemma inter_bytes_simps [simp]:
  "length (inter_bytes p q n) = 32" "inter_flags (inter_bytes p q n) = AD_INTER_PACKET_FLAGS"
  "n < 2 ^ 64 \<Longrightarrow> inter_data (inter_bytes p q n) = n"
  by (simp_all add: inter_bytes_def inter_flags_def inter_data_def AD_INTER_PACKET_FLAGS_def le_nat_bytes)

lemma list_check_young:
  assumes "list_all (\<lambda>n. m_bTimeout (w_paras w n) \<or> \<not> checkLife (ae_life env n) (m_ctRequest (w_paras w n))) ns"
  shows "list_check env ns w = Inr w"
  using assms by (induction ns) auto

lemma answered_list:
  assumes "protocols_ok env" "answer_request env bTlv n w = Inr w'"
  shows "m_pData (w_sessions w' b) = m_pData (w_sessions w b)" "m_ctLocalSession w' = m_ctLocalSession w"
    "m_ctNetSession w' = m_ctNetSession w"
proof -
  obtain w1 where w1: "w' = FreePara n w1" "frame w w1" using frame_answer_request [OF assms] by blast
  then show "m_pData (w_sessions w' b) = m_pData (w_sessions w b)" "m_ctLocalSession w' = m_ctLocalSession w"
    "m_ctNetSession w' = m_ctNetSession w"
    by (simp_all add: frame_def FreePara_def)
qed

lemma local_answer:
  assumes "protocols_ok env" "lr_check b (m_ctLocalSession w)" "AdSessionOk (w_sessions w b)"
    and "m_pData (w_sessions w b) = Some [n]" "\<not> checkLife (ae_life env n) (m_ctRequest (w_paras w n))"
    and "m < 2 ^ 64" "m_iLen c = 32" "cache_data c = inter_bytes p q m"
  shows "AdAdapterIBiddingResponse env (Some c) b w =
    (if m = n then
       bind_cxx (answer_request env False n (on_session b AdSessionIdle (set_list b [] w)))
         (\<lambda>w. Inr (AD_SUCCESS, on_session b (AdSessionSetTimeout 0) w))
     else Inr (AD_SUCCESS, w))"
proof -
  let ?w = "on_session b AdSessionIdle (set_list b [] w)"
  have check: "list_check env [n] w = Inr w" using assms(5) by (intro list_check_young) simp
  have list: "session_list b w = Inr [n]" using assms(4) by simp
  have "AdAdapterIBiddingResponse env (Some c) b w = bind_cxx (local_answers env b (Suc 0) (inter_bytes p q m) w)
      (\<lambda>w. bind_cxx (session_list b w) (\<lambda>ns. Inr (AD_SUCCESS, if ns = [] then on_session b (AdSessionSetTimeout 0) w else w)))"
    using assms(2,3,7,8) by (simp add: AdAdapterIBiddingResponse_def bidder_packet_def list check del: inter_bytes_simps list_check.simps local_answers.simps)
  also have "\<dots> = (if m = n then bind_cxx (answer_request env False n ?w) (\<lambda>w. bind_cxx (session_list b w) (\<lambda>ns.
        Inr (AD_SUCCESS, if ns = [] then on_session b (AdSessionSetTimeout 0) w else w))) else Inr (AD_SUCCESS, w))"
    using assms(6) by (simp add: list Let_def bind_cxx_assoc)
  also have "\<dots> = (if m = n then bind_cxx (answer_request env False n ?w)
      (\<lambda>w. Inr (AD_SUCCESS, on_session b (AdSessionSetTimeout 0) w)) else Inr (AD_SUCCESS, w))"
  proof -
    have "session_list b w' = Inr []" if "answer_request env False n ?w = Inr w'" for w'
      using answered_list(1) [OF assms(1) that, of b] by (simp add: set_list_data)
    then show ?thesis by (cases "answer_request env False n ?w") (auto simp: session_list_def)
  qed
  finally show ?thesis .
qed

section \<open>Late requests\<close>

lemma write_cache_paras: "write_cache env k c w = Inr w' \<Longrightarrow> w_paras w' = w_paras w"
  by (auto simp: write_cache_def next_write_def on_session_def bind_cxx_Inr_iff split: list.splits)

lemma empty_answer_links:
  assumes "protocols_ok env" "empty_answer env n session w = Inr w'"
  shows "links (w_paras w' n) = links (w_paras w n)"
proof (cases "m_pAdxMethod (w_paras w n)")
  case (Some t)
  then obtain ret p where p: "EmptyToHttp (ae_proto env t) (w_paras w n) = Inr (ret, p)"
    using assms(2) by (auto simp: empty_answer_def bind_cxx_Inr_iff)
  have "w_paras w' n = p"
    using assms(2) Some p
    by (auto simp: empty_answer_def bind_cxx_Inr_iff Let_def on_para_def write_cache_paras split: if_splits option.splits)
  then show ?thesis using adx_protocol.empty_links [OF protocols_okD [OF assms(1)] p] by simp
qed (use assms(2) in \<open>simp add: empty_answer_def\<close>)

lemma SessionTimeout_links:
  assumes "protocols_ok env" "SessionTimeout env n session w = Inr w'"
  shows "links (w_paras w' n) = links (w_paras w n)"
proof -
  let ?w = "if m_bTimeout (w_paras w n) then add_status env StatusAddTimeout w else w"
  obtain w1 where w1: "empty_answer env n session ?w = Inr w1"
      "w' = (case session of None \<Rightarrow> w1 | Some session \<Rightarrow> on_session session AdSessionIdle w1)"
    using assms(2) by (auto simp: SessionTimeout_def bind_cxx_Inr_iff Let_def)
  have "links (w_paras ?w n) = links (w_paras w n)" by (simp add: add_status_def)
  then show ?thesis using empty_answer_links [OF assms(1) w1(1)] w1(2) by (auto simp: on_session_def split: option.split)
qed

lemma expire_late: "protocols_ok env \<Longrightarrow> expire env n w = Inr w' \<Longrightarrow> m_bTimeout (w_paras w' n)"
  unfolding expire_def by (drule (1) SessionTimeout_links) (simp add: links_def on_para_def)

section \<open>Properties\<close>

text \<open>
  C8. A local bidder's answer is taken for the request that it names and for no other: if the bidder waits for the object \<open>n\<close> and
  \<open>n\<close> is not too old, an answer that names \<open>n\<close> takes it from the list of the bidder and answers the exchange; an answer that names
  another object changes nothing.
\<close>

theorem local_answer_taken:
  assumes "protocols_ok env" "lr_check b (m_ctLocalSession w)" "AdSessionOk (w_sessions w b)"
    and "m_pData (w_sessions w b) = Some [n]" "\<not> checkLife (ae_life env n) (m_ctRequest (w_paras w n))"
    and "m < 2 ^ 64" "m_iLen c = 32" "cache_data c = inter_bytes p q m"
  shows "AdAdapterIBiddingResponse env (Some c) b w =
    (if m = n then
       bind_cxx (answer_request env False n (on_session b AdSessionIdle (set_list b [] w)))
         (\<lambda>w. Inr (AD_SUCCESS, on_session b (AdSessionSetTimeout 0) w))
     else Inr (AD_SUCCESS, w))"
  using assms by (rule local_answer)

text \<open>
  C9. A request is answered once: after the exchange has got the empty answer for a late request, neither the answer of the bidder,
  which only frees the object, nor another look at the waiting requests sends anything for it.
\<close>

theorem late_answered_once:
  assumes "protocols_ok env" "expire env n w = Inr w'"
  shows "answer_request env' bTlv n w' = Inr (FreePara n w') \<and> list_check env' [n] w' = Inr w' \<and>
    w_sessions (FreePara n w') = w_sessions w'"
  using expire_late [OF assms] by (simp add: answer_request_def)

text \<open>
  C10. A remote bidder's answer that is not a TLV packet of positive length loses the request: it leaves the list of the bidder, it
  is not answered, no session is told anything, and the object is not freed. Nothing refers to it any more.
\<close>

theorem remote_answer_lost:
  assumes "adapter_inv w" "lr_check b (m_ctNetSession w)" "\<not> lr_check b (m_ctLocalSession w)" "AdSessionOk (w_sessions w b)"
    and "m_pData (w_sessions w b) = Some [n]" "\<not> checkLife (ae_life env n) (m_ctRequest (w_paras w n))"
    and "TlvPacketLen (m_cCache c) (m_iLen c) = Inr k" "k \<le> 0"
  shows "\<exists>w'. AdAdapterIBiddingResponse env (Some c) b w = Inr (AD_SUCCESS, w') \<and> held n w' \<and> m_pData (w_sessions w' b) = Some [] \<and>
    list_all (\<lambda>s. m_ctTcp (w_sessions w' s) = m_ctTcp (w_sessions w s) \<and> m_ltSendCache (w_sessions w' s) = m_ltSendCache (w_sessions w s)) sessions"
proof -
  let ?w = "set_list b [] w"
  have check: "list_check env [n] w = Inr w" using assms(6) by (intro list_check_young) simp
  have list: "session_list b w = Inr [n]" using assms(5) by simp
  have list': "session_list b ?w = Inr []" by (simp add: set_list_data)
  have "remote_answers env b c 0 w = Inr ?w"
    by (subst remote_answers.simps) (use assms(7,8) in \<open>simp add: list Let_def\<close>)
  then have "AdAdapterIBiddingResponse env (Some c) b w = Inr (AD_SUCCESS, on_session b (AdSessionSetTimeout 0) ?w)"
    using assms(2-4)
    by (simp add: AdAdapterIBiddingResponse_def bidder_packet_def list list' check del: list_check.simps session_list_Inr)
  moreover have "held n (on_session b (AdSessionSetTimeout 0) ?w)"
    using inv_take(2) [OF assms(1,5), of n] by (simp add: inv_timeout)
  ultimately show ?thesis
    by (auto simp: list_all_iff on_session_def set_list_def AdSessionSetTimeout_def AdSessionSetPrivate_def session_push_def)
qed

text \<open>
  A request whose address and host are not configured is never answered: the call fails, every connection is left as it was with
  nothing sent and nothing queued, and the session of the exchange is made idle as if it had been served.
\<close>

theorem unknown_request_unanswered:
  assumes "AdAdapterIBiddingResponse env (Some c) adx w = Inr (AD_FAILURE, w)"
    and "method_uri c = Inr (Some uri)" "method_adx (ae_method env) c uri = Inr None"
  shows "\<exists>w'. Adapter_Run env addr (Some c) adx w = Inr (AD_FAILURE, w') \<and>
    w_sessions w' = (w_sessions w)(adx := AdSessionIdle (AdSessionActive (w_sessions w adx)))"
proof -
  obtain n w1 where al: "AllocPara env w = (n, w1)" by fastforce
  have w1: "w_sessions w1 = w_sessions w" "m_pAdxMethod (w_paras w1 n) = None" "\<not> m_bTimeout (w_paras w1 n)"
    using al by (auto simp: AllocPara_def on_para_def para_clear_def split: list.splits)
  let ?w2 = "on_session adx AdSessionActive (on_para n (\<lambda>p. p\<lparr>m_pCacheIn := Some c\<rparr>) w1)"
  let ?w3 = "add_status env (StatusAdd (ae_status env)) ?w2"
  have "request_parse env (w_paras ?w3 n) = Inr (AD_FAILURE, w_paras ?w3 n)"
    using assms(2,3) by (simp add: request_parse_def method_Get_def add_status_def on_session_def on_para_def)
  then have "AdAdapterToInternal env n ?w2 = Inr (AD_FAILURE, on_para n (\<lambda>_. w_paras ?w3 n) ?w3)"
    by (simp add: AdAdapterToInternal_def Let_def)
  moreover have "on_para n (\<lambda>_. w_paras ?w3 n) ?w3 = ?w3" by (simp add: on_para_def add_status_def on_session_def)
  ultimately have int: "AdAdapterToInternal env n ?w2 = Inr (AD_FAILURE, ?w3)" by simp
  let ?w4 = "add_status env StatusAddError ?w3"
  have "m_pAdxMethod (w_paras ?w4 n) = None" "\<not> m_bTimeout (w_paras ?w4 n)"
    using w1 by (simp_all add: add_status_def on_session_def on_para_def)
  then have "give_up env n adx ?w4 = Inr (AD_FAILURE, FreePara n (on_session adx AdSessionIdle ?w4))"
    by (simp add: give_up_def SessionTimeout_def empty_answer_def)
  then have "Adapter_Run env addr (Some c) adx w = Inr (AD_FAILURE, FreePara n (on_session adx AdSessionIdle ?w4))"
    by (simp add: Adapter_Run_def assms(1) al int)
  moreover have "w_sessions (FreePara n (on_session adx AdSessionIdle ?w4)) =
      (w_sessions w)(adx := AdSessionIdle (AdSessionActive (w_sessions w adx)))"
    by (simp add: add_status_def on_session_def on_para_def w1(1))
  ultimately show ?thesis by blast
qed

section \<open>Instances\<close>

text \<open>
  An adapter that uses the protocol MtMedia for the address \<open>/a\<close> and has one local and one remote bidder, the sessions 2 and 3; the
  exchange is session 4, and the object 0 is the first.
\<close>

definition demo_now :: Time where
  "demo_now = \<lparr>tv_sec = 0, tv_usec = 0\<rparr>"

definition demo_new :: "AdPrivateInfo AdAdapterPara" where
  "demo_new = \<lparr>m_pCacheIn = None, m_ctCacheOut = cache_new (replicate AD_CACHE_MAX (CHR ''x'')), m_pBody = None, m_iBody = 0,
     m_ctCacheReq = \<lparr>m_iLength = 0, m_ucType = 0, m_uMsg = replicate 8192 (CHR 0x00)\<rparr>,
     m_ctCacheRes = \<lparr>m_iLength = 0, m_ucType = 0, m_uMsg = replicate 8192 (CHR 0x00)\<rparr>, m_ctRequest = clear_request demo_now,
     m_ctResponse = clear_response, m_sVer = [], m_sImpression = [], m_pa_sIDFA = [], m_pPrivate = None, m_pSrcSession = None,
     m_pDstSession = None, m_pAdxMethod = None, m_bDebugUser = False, m_bTimeout = False\<rparr>"

definition demo_adapter_env :: "AdPrivateInfo adapter_env" where
  "demo_adapter_env = \<lparr>ae_method = \<lparr>m_mUriAdx = [(''/a'', 9)], m_mHostAdx = [],
       m_ctProMethod = AdSharedLib_new\<lparr>m_ctRequests := pp_new [(9, 7)]\<rparr>\<rparr>,
     ae_proto = (\<lambda>_. AdProtocolMtMedia (\<lambda>_. Some (JObject [])) (\<lambda>_. ''{}'')), ae_aton = (\<lambda>_. 0), ae_area = tree_new,
     ae_debug = [], ae_ban = AdAdpFilterBan_new, ae_compress = (\<lambda>_. rev), ae_uncompress = (\<lambda>_. rev), ae_alloc = demo_now,
     ae_status = demo_now, ae_life = (\<lambda>_. demo_now), ae_new = demo_new, ae_mem = [], ae_takes = (\<lambda>_. True)\<rparr>"

definition demo_session :: "nat list option \<Rightarrow> nat list AdSession" where
  "demo_session d = \<lparr>m_ctTcp = \<lparr>m_t_iSocket = 4, m_sent = []\<rparr>, m_ltSendCache = [], m_s_iSocket = 4, m_pMsg = Some 0, m_uiActive = 0,
     m_iTimeout = 0, m_bTimeoutChange = False, m_pData = d, m_ltReadCache = [], m_iPacketLen = AD_FAILURE, m_iReadLen = AD_FAILURE\<rparr>"

definition demo_waiting :: "AdPrivateInfo AdAdapter" where
  "demo_waiting = \<lparr>m_ctLocalSession = \<lparr>m_mBuffer = [(2, 0)], m_vBuffer = [2]\<rparr>, m_ctNetSession = \<lparr>m_mBuffer = [(3, 0)], m_vBuffer = [3]\<rparr>,
     m_ctFreePara = [], m_ctProcessMsg = \<lparr>m_vIpclist = [[]], m_uiWrite = 0\<rparr>, w_uiLoop = 0, w_pState = None,
     w_paras = (\<lambda>n. demo_new\<lparr>m_pSrcSession := Some 4, m_pDstSession := Some (n + 2), m_pAdxMethod := Some 7\<rparr>), w_next = 2,
     w_sessions = (\<lambda>_. demo_session None)(2 := demo_session (Some [0]), 3 := demo_session (Some [1])), w_writes = [Wrote 8192]\<rparr>"

definition demo_cache :: "string \<Rightarrow> AdCache" where
  "demo_cache s = \<lparr>m_cCache = s @ [CHR 0x00], m_iLen = int (length s), m_iMaxLen = 8191\<rparr>"

lemma demo_protocols: "protocols_ok demo_adapter_env"
  by (simp add: protocols_ok_def demo_adapter_env_def mtmedia.adx_protocol_axioms)

lemma demo_inv: "adapter_inv demo_waiting"
  by (auto simp: adapter_inv_def waits_ok_def demo_waiting_def demo_session_def split: if_splits)

lemma demo_young [simp]: "\<not> checkLife (ae_life demo_adapter_env n) (m_ctRequest (w_paras demo_waiting k))"
  by (simp add: demo_adapter_env_def demo_waiting_def demo_new_def demo_now_def clear_request_def) (code_simp)

lemma demo_lists [simp]:
  "m_ctLocalSession demo_waiting = \<lparr>m_mBuffer = [(2, 0)], m_vBuffer = [2]\<rparr>"
  "m_ctNetSession demo_waiting = \<lparr>m_mBuffer = [(3, 0)], m_vBuffer = [3]\<rparr>"
  "w_sessions demo_waiting 2 = demo_session (Some [0])" "w_sessions demo_waiting 3 = demo_session (Some [1])"
  "AdSessionOk (demo_session d)" "m_pData (demo_session d) = d"
  by (simp_all add: demo_waiting_def demo_session_def AdSessionOk_def AD_FAILURE_def)

lemma local_answer_taken_witness:
  "AdAdapterIBiddingResponse demo_adapter_env (Some (demo_cache (inter_bytes 7 8 5))) 2 demo_waiting = Inr (AD_SUCCESS, demo_waiting)"
  using local_answer_taken [OF demo_protocols, of 2 demo_waiting 0 5 "demo_cache (inter_bytes 7 8 5)" 7 8]
  by (simp add: lr_check_def demo_cache_def cache_data_def)

lemma remote_answer_lost_witness:
  "\<exists>w'. AdAdapterIBiddingResponse demo_adapter_env (Some (demo_cache ''hello'')) 3 demo_waiting = Inr (AD_SUCCESS, w') \<and> held 1 w'"
  using remote_answer_lost [OF demo_inv, of 3 1 demo_adapter_env "demo_cache ''hello''" "AD_FAILURE" "[2, 3]"]
  by (auto simp: lr_check_def demo_cache_def TlvPacketLen_def rd8_def AD_FAILURE_def)

lemma mt_empty_answer:
  assumes "length (m_cCache (m_ctCacheOut p)) = AD_CACHE_MAX"
  shows "\<exists>m. mtmedia_EmptyToHttp p = Inr (AD_SUCCESS, p\<lparr>m_ctCacheOut := (m_ctCacheOut p)\<lparr>m_cCache := printf AD_HTTP204 [''0''] @ m,
    m_iLen := int (length (printf AD_HTTP204 [''0'']))\<rparr>, m_pPrivate := None\<rparr>)"
proof -
  have "length (printf AD_HTTP204 [''0'']) < 200" by code_simp
  then have "mem_write (m_cCache (m_ctCacheOut p)) 0 (snprintf AD_CACHE_MAX (printf AD_HTTP204 [''0'']) @ [CHR 0x00]) =
      Inr (printf AD_HTTP204 [''0''] @ CHR 0x00 # drop (length (printf AD_HTTP204 [''0'']) + 1) (m_cCache (m_ctCacheOut p)))"
    using assms by (simp add: mem_write_def snprintf_def)
  moreover have "snprintf AD_CACHE_MAX (printf AD_HTTP204 [''0'']) = printf AD_HTTP204 [''0'']"
    using \<open>length (printf AD_HTTP204 [''0'']) < 200\<close> by (simp add: snprintf_def)
  ultimately show ?thesis by (auto simp: mtmedia_EmptyToHttp_def Let_def)
qed

text \<open>A write that the kernel takes as a whole.\<close>

lemma write_cache_whole:
  assumes "w_writes w = Wrote k # evs" "cache_data c \<noteq> []" "length (cache_data c) \<le> k" "0 < m_iLen c"
    and "0 < m_t_iSocket (m_ctTcp (w_sessions w n))"
  shows "write_cache env n c w =
    Inr (on_session n (\<lambda>s. s\<lparr>m_ctTcp := (m_ctTcp s)\<lparr>m_sent := m_sent (m_ctTcp s) @ cache_data c\<rparr>\<rparr>) (w\<lparr>w_writes := evs\<rparr>))"
  using assms
  by (simp add: write_cache_def next_write_def AdSessionWrite_def session_write_def Tcp_Write_def on_session_def AD_FAILURE_def AD_SUCCESS_def)

lemma late_answered_once_witness:
  "\<exists>w. expire demo_adapter_env 0 demo_waiting = Inr w \<and> answer_request demo_adapter_env False 0 w = Inr (FreePara 0 w) \<and>
    m_sent (m_ctTcp (w_sessions w 4)) = printf AD_HTTP204 [''0'']"
proof -
  let ?w = "on_para 0 (\<lambda>p. p\<lparr>m_bTimeout := True\<rparr>) demo_waiting"
  let ?w1 = "add_status demo_adapter_env StatusAddTimeout ?w"
  let ?t = "printf AD_HTTP204 [''0'']"
  have t: "0 < length ?t" "length ?t < 200" by code_simp+
  have p: "m_pAdxMethod (w_paras ?w1 0) = Some 7" "m_bTimeout (w_paras ?w 0)" "m_pSrcSession (w_paras demo_waiting 0) = Some 4"
    "length (m_cCache (m_ctCacheOut (w_paras ?w1 0))) = AD_CACHE_MAX"
    "m_ucType (m_ctCacheReq (w_paras ?w1 0)) = 0" "m_ucType (m_ctCacheRes (w_paras ?w1 0)) = 0"
    by (simp_all add: on_para_def add_status_def demo_waiting_def demo_new_def cache_new_def)
  obtain m where m: "mtmedia_EmptyToHttp (w_paras ?w1 0) = Inr (AD_SUCCESS, (w_paras ?w1 0)\<lparr>m_ctCacheOut :=
      (m_ctCacheOut (w_paras ?w1 0))\<lparr>m_cCache := ?t @ m, m_iLen := int (length ?t)\<rparr>, m_pPrivate := None\<rparr>)"
    using mt_empty_answer [OF p(4)] by blast
  define c where "c = (m_ctCacheOut (w_paras ?w1 0))\<lparr>m_cCache := ?t @ m, m_iLen := int (length ?t)\<rparr>"
  define w2 where "w2 = on_para 0 (\<lambda>_. (w_paras ?w1 0)\<lparr>m_ctCacheOut := c, m_pPrivate := None\<rparr>) ?w1"
  have proto: "EmptyToHttp (ae_proto demo_adapter_env 7) = mtmedia_EmptyToHttp"
    by (simp add: demo_adapter_env_def AdProtocolMtMedia_def)
  have put: "AdAdapterPutMsg demo_adapter_env ((w_paras ?w1 0)\<lparr>m_ctCacheOut := c, m_pPrivate := None\<rparr>) q = Inr q" for q
    using p(5,6) by (simp add: AdAdapterPutMsg_def AD_MSG_TYPE_REQUEST_def AD_MSG_TYPE_REQUEST_BIDDING_def AD_MSG_TYPE_RESPONSE_def)
  have "empty_answer demo_adapter_env 0 (Some 4) ?w1 = write_cache demo_adapter_env 4 c w2"
    unfolding empty_answer_def p(1) option.case proto m c_def [symmetric] bind_cxx.simps prod.case Let_def put
    by (simp add: w2_def on_para_def)
  also have "\<dots> = Inr (on_session 4 (\<lambda>s. s\<lparr>m_ctTcp := (m_ctTcp s)\<lparr>m_sent := m_sent (m_ctTcp s) @ ?t\<rparr>\<rparr>) (w2\<lparr>w_writes := []\<rparr>))"
  proof -
    have d: "cache_data c = ?t" by (simp add: c_def cache_data_def)
    show ?thesis
      unfolding d [symmetric]
      by (rule write_cache_whole [where k = 8192])
        (use t d in \<open>simp_all add: w2_def c_def on_para_def add_status_def demo_waiting_def demo_session_def\<close>)
  qed
  finally obtain w where w: "expire demo_adapter_env 0 demo_waiting = Inr w" "m_sent (m_ctTcp (w_sessions w 4)) = ?t"
    using p(2,3)
    by (simp add: expire_def SessionTimeout_def on_session_def AdSessionIdle_def w2_def on_para_def add_status_def demo_waiting_def
        demo_session_def)
  then show ?thesis using late_answered_once [OF demo_protocols w(1)] by blast
qed

text \<open>The adapter at its start, the first packet of a local bidder and a request for the address \<open>/a\<close>, or for \<open>/b\<close>.\<close>

definition demo_begin :: "AdPrivateInfo AdAdapter" where
  "demo_begin = \<lparr>m_ctLocalSession = \<lparr>m_mBuffer = [], m_vBuffer = []\<rparr>, m_ctNetSession = \<lparr>m_mBuffer = [], m_vBuffer = []\<rparr>,
     m_ctFreePara = [], m_ctProcessMsg = \<lparr>m_vIpclist = [[]], m_uiWrite = 0\<rparr>, w_uiLoop = 0, w_pState = None,
     w_paras = (\<lambda>n. demo_new), w_next = 0, w_sessions = (\<lambda>_. demo_session None), w_writes = [Wrote 8192]\<rparr>"

definition demo_post :: "string \<Rightarrow> AdCache" where
  "demo_post uri = demo_cache (''POST '' @ uri @ '' HTTP/1.1'' @ crlf @ ''Content-Length: 2'' @ crlf @ crlf @ ''{}'')"

lemma new_bidder_long: "32 < m_iLen c \<Longrightarrow> \<not> lr_check n (m_ctLocalSession w) \<Longrightarrow> \<not> lr_check n (m_ctNetSession w) \<Longrightarrow>
    AdAdapterIBiddingResponse env (Some c) n w = Inr (AD_FAILURE, w)"
  by (simp add: AdAdapterIBiddingResponse_def new_bidder_def Let_def)

lemma unknown_request_unanswered_witness:
  "\<exists>w. Adapter_Run demo_adapter_env (\<lambda>n. (n, n)) (Some (demo_post ''/b'')) 4 demo_begin = Inr (AD_FAILURE, w) \<and>
    m_sent (m_ctTcp (w_sessions w 4)) = [] \<and> m_ltSendCache (w_sessions w 4) = []"
proof -
  have c: "AdAdapterIBiddingResponse demo_adapter_env (Some (demo_post ''/b'')) 4 demo_begin = Inr (AD_FAILURE, demo_begin)"
    by (rule new_bidder_long) (simp_all add: demo_post_def demo_cache_def demo_begin_def lr_check_def)
  have "method_uri (demo_post ''/b'') = Inr (Some ''/b'')" by code_simp
  moreover have "method_adx (ae_method demo_adapter_env) (demo_post ''/b'') ''/b'' = Inr None"
  proof -
    have "GetHost (demo_post ''/b'') = Inr None" by code_simp
    then show ?thesis by (simp add: method_adx_def demo_adapter_env_def)
  qed
  ultimately obtain w where "Adapter_Run demo_adapter_env (\<lambda>n. (n, n)) (Some (demo_post ''/b'')) 4 demo_begin = Inr (AD_FAILURE, w)"
    "w_sessions w = (w_sessions demo_begin)(4 := AdSessionIdle (AdSessionActive (w_sessions demo_begin 4)))"
    using unknown_request_unanswered [OF c] by blast
  then show ?thesis by (auto simp: demo_begin_def demo_session_def AdSessionIdle_def AdSessionActive_def)
qed

text \<open>The run up to the request that waits.\<close>

definition demo_known :: "AdPrivateInfo AdAdapter" where
  "demo_known = demo_begin\<lparr>m_ctLocalSession := \<lparr>m_mBuffer = [(2, 0)], m_vBuffer = [2]\<rparr>,
     w_sessions := (\<lambda>_. demo_session None)(2 := (demo_session (Some []))\<lparr>m_uiActive := 1\<rparr>)\<rparr>"

lemma demo_bidder_known:
  "Adapter_Run demo_adapter_env addr (Some (demo_cache AD_IBIDDING_ENG_LOCAL)) 2 demo_begin = Inr (AD_SUCCESS, demo_known)"
  by (simp add: Adapter_Run_def AdAdapterIBiddingResponse_def lr_check_def demo_begin_def new_bidder_def demo_cache_def
      AD_IBIDDING_ENG_LOCAL_def c_str_def Let_def on_session_def set_list_def lr_push_def AdSessionSetPrivate_def AdSessionActive_def
      demo_known_def demo_session_def)

lemma demo_parse:
  fixes p :: "AdPrivateInfo AdAdapterPara"
  assumes "m_pCacheIn p = Some (demo_post ''/a'')"
  shows "\<exists>p'. request_parse demo_adapter_env p = Inr (AD_SUCCESS, p') \<and> m_ctCacheReq p' = m_ctCacheReq p \<and>
    m_bDebugUser p' = m_bDebugUser p \<and>
    m_ctRequest p' = (m_ctRequest p)\<lparr>m_uiAdx := 9, m_sMinPrice := ''0'', m_sFlow := ''0''\<rparr>"
proof -
  let ?c = "demo_post ''/a''"
  have c: "method_uri ?c = Inr (Some ''/a'')" "GetLen ?c = Inr 2" "GetBody ?c = Inr (Some 39)" "m_iLen ?c = 41"
    "drop 39 (m_cCache ?c) = ''{}'' @ [CHR 0x00]" by code_simp+
  have adx: "method_adx (ae_method demo_adapter_env) ?c ''/a'' = Inr (Some 9)"
    "lib_Get 9 (m_ctProMethod (ae_method demo_adapter_env)) = Some 7"
    by (simp_all add: method_adx_def demo_adapter_env_def lib_Get_def AdSharedLib_new_def pp_new_def pp_Get_def)
  have m: "method_Get (ae_method demo_adapter_env) p = Inr (AD_SUCCESS, p\<lparr>m_ctRequest := (m_ctRequest p)\<lparr>m_uiAdx := 9\<rparr>,
      m_pAdxMethod := Some 7, m_pBody := Some (''{}'' @ [CHR 0x00]), m_iBody := 2\<rparr>)"
    using assms by (simp add: method_Get_def c adx Let_def)
  have proto: "HttpToInternal (ae_proto demo_adapter_env 7) = mtmedia_HttpToInternal (\<lambda>_. Some (JObject []))"
    by (simp add: demo_adapter_env_def AdProtocolMtMedia_def)
  have "fmt_d 0 = ''0''" by code_simp
  then show ?thesis
    by (simp add: request_parse_def m proto mtmedia_HttpToInternal_def buf_text_def mt_fields_def json_when_object json_isMember_def)
qed

lemma demo_tlv:
  fixes p :: "AdPrivateInfo AdAdapterPara"
  assumes "m_uMsg (m_ctCacheReq p) = replicate 8192 (CHR 0x00)" "\<not> m_bDebugUser p"
    and "m_ctRequest p = (clear_request demo_now)\<lparr>m_uiAdx := 9, m_sMinPrice := ''0'', m_sFlow := ''0''\<rparr>"
  shows "\<exists>p'. request_tlv demo_adapter_env p = Inr (AD_SUCCESS, p') \<and> \<not> m_bDebugUser p'"
proof -
  let ?r = "request_area demo_adapter_env (m_ctRequest p)"
  have r: "?r = (clear_request demo_now)\<lparr>m_uiAdx := 9, m_sMinPrice := ''0'', m_sFlow := ''0'', m_sArea := ''--''\<rparr>"
    by (simp add: assms(3) request_area_def AdIpAreaGet_def demo_adapter_env_def node_area_def tree_new_def area_text_def Let_def)
  have "length (wire ((AD_PROTOCOL_KEY_ADIRECT_FLOW_TYPE, m_sFlow ?r) # request_kvs ?r)) \<le> 4083"
    unfolding r by (simp add: clear_request_def request_kvs_def wire_append)
  from InternalToTlv_req_packet [OF zlib_ok_rev _ _ this, of AdRtbProtocol_init "replicate 8192 (CHR 0x00)"]
  obtain len P mem where len: "0 < len"
    "InternalToTlv_req (\<lambda>_. rev) AdRtbProtocol_init ?r (replicate 8192 (CHR 0x00)) 8192 = Inr (len, P, mem)"
    using sender_ok_init by (force simp: sender_ok_def)
  have env: "ae_compress demo_adapter_env = (\<lambda>_. rev)" "ae_debug demo_adapter_env = []"
    "ban_Match (ae_ban demo_adapter_env) ?r = False"
    by (simp_all add: demo_adapter_env_def ban_Match_def AdAdpFilterBan_new_def pp_new_def pp_Get_def Let_def)
  show ?thesis
    using assms(1,2) len by (simp add: request_tlv_def Let_def env)
qed

lemma demo_sent:
  "\<exists>w. Adapter_Run demo_adapter_env (\<lambda>n. (n, n)) (Some (demo_post ''/a'')) 4 demo_known = Inr (AD_SUCCESS, w) \<and>
    m_pData (w_sessions w 2) = Some [0]"
proof -
  have ib: "AdAdapterIBiddingResponse demo_adapter_env (Some (demo_post ''/a'')) 4 demo_known = Inr (AD_FAILURE, demo_known)"
    by (rule new_bidder_long) (simp_all add: demo_post_def demo_cache_def demo_known_def demo_begin_def lr_check_def)
  let ?p = "(para_clear demo_now demo_new)\<lparr>m_pCacheIn := Some (demo_post ''/a'')\<rparr>"
  define wa where "wa = demo_known\<lparr>w_next := 1, w_paras := (\<lambda>_. demo_new)(0 := para_clear demo_now demo_new)\<rparr>"
  define w0 where "w0 = on_session 4 AdSessionActive (on_para 0 (\<lambda>p. p\<lparr>m_pCacheIn := Some (demo_post ''/a'')\<rparr>) wa)"
  have alloc: "AllocPara demo_adapter_env demo_known = (0, wa)"
    by (simp add: AllocPara_def demo_known_def demo_begin_def on_para_def demo_adapter_env_def wa_def)
  have w0: "w_paras w0 0 = ?p" by (simp add: w0_def wa_def on_session_def on_para_def)
  obtain p1 where p1: "request_parse demo_adapter_env ?p = Inr (AD_SUCCESS, p1)" "m_ctCacheReq p1 = m_ctCacheReq ?p"
    "\<not> m_bDebugUser p1" "m_ctRequest p1 = (m_ctRequest ?p)\<lparr>m_uiAdx := 9, m_sMinPrice := ''0'', m_sFlow := ''0''\<rparr>"
    using demo_parse [of ?p] by (auto simp: para_clear_def)
  obtain p2 where p2: "request_tlv demo_adapter_env p1 = Inr (AD_SUCCESS, p2)" "\<not> m_bDebugUser p2"
    using demo_tlv [of p1] p1 by (auto simp: para_clear_def demo_new_def logmsg_clear_def)
  define w1 where "w1 = on_para 0 (\<lambda>_. p2) (add_status demo_adapter_env StatusAddRequest
      (add_status demo_adapter_env (StatusAdd (ae_status demo_adapter_env)) w0))"
  have int: "AdAdapterToInternal demo_adapter_env 0 w0 = Inr (AD_SUCCESS, w1)"
    using p1(1) p2(1) w0 by (simp add: AdAdapterToInternal_def Let_def w1_def add_status_def)
  have w1: "m_ctLocalSession w1 = \<lparr>m_mBuffer = [(2, 0)], m_vBuffer = [2]\<rparr>" "w_uiLoop w1 = 0" "\<not> m_bDebugUser (w_paras w1 0)"
    "w_writes w1 = [Wrote 8192]" "w_sessions w1 2 = (demo_session (Some []))\<lparr>m_uiActive := 1\<rparr>"
    using p2(2) by (simp_all add: w1_def w0_def wa_def on_para_def add_status_def on_session_def demo_known_def demo_begin_def)
  have "\<exists>w. send_request demo_adapter_env (\<lambda>n. (n, n)) 0 4 2 False (w1\<lparr>w_uiLoop := 1\<rparr>) = Inr w \<and> m_pData (w_sessions w 2) = Some [0]"
    using w1(4,5)
    by (simp add: send_request_def session_list_def on_session_def on_para_def set_list_def Let_def write_bytes_def next_write_def
        AdSessionWrite_bytes_def session_write_def Tcp_Write_def demo_session_def AdSessionActive_def AdSessionSetTimeout_def
        AdSessionSetPrivate_def session_push_def AD_FAILURE_def AD_SUCCESS_def)
  then obtain w where w: "send_request demo_adapter_env (\<lambda>n. (n, n)) 0 4 2 False (w1\<lparr>w_uiLoop := 1\<rparr>) = Inr w"
    "m_pData (w_sessions w 2) = Some [0]" by blast
  have "route_request demo_adapter_env (\<lambda>n. (n, n)) 0 4 w1 = Inr (AD_SUCCESS, w)"
    using w1 w(1)
    by (simp add: route_request_def lr_size_def choose_bidder_def lr_find_def demo_session_def AdSessionOk_def AD_FAILURE_def Let_def)
  then show ?thesis
    using w(2) by (simp add: Adapter_Run_def ib alloc int flip: w0_def)
qed

lemma waiting_objects_safe_witness:
  "\<exists>w. adapter_reachable w \<and> m_pData (w_sessions w 2) = Some [0] \<and> m_pDstSession (w_paras w 0) = Some 2 \<and>
    fst (AllocPara demo_adapter_env w) \<noteq> 0"
proof -
  have "adapter_reachable demo_begin" by (rule adapter_reachable.start) (simp_all add: demo_begin_def demo_session_def)
  then have known: "adapter_reachable demo_known" by (rule adapter_reachable.call [OF _ demo_protocols demo_bidder_known])
  obtain w where w: "Adapter_Run demo_adapter_env (\<lambda>n. (n, n)) (Some (demo_post ''/a'')) 4 demo_known = Inr (AD_SUCCESS, w)"
    "m_pData (w_sessions w 2) = Some [0]"
    using demo_sent by blast
  have "adapter_reachable w" by (rule adapter_reachable.call [OF known demo_protocols w(1)])
  then show ?thesis using waiting_objects_safe [of w 2 "[0]" 0 "[]" demo_adapter_env] w(2) by auto
qed

end
