(* ===== verification/AdEvent.thy ===== *)
theory AdEvent
  imports StdMap
begin

unbundle bit_operations_syntax

text \<open>
  The events of the network loop, \<^verbatim>\<open>libnet/src/AdEvent.cpp\<close> over libevent. An \<^verbatim>\<open>event *\<close> is a number; \<open>ev_base\<close> has the
  allocated ones, with their socket and what was asked for. \<^verbatim>\<open>event_new\<close> may find no memory: \<open>ev_new h\<close> says whether the
  allocation of the number \<open>h\<close> succeeds. What libevent reports as ready is an argument of the loop (\<open>AdNetBase\<close>).
\<close>

definition AD_EVENT_READ :: UINT where "AD_EVENT_READ = 1"

definition AD_EVENT_WRITE :: UINT where "AD_EVENT_WRITE = 2"

definition AD_EVENT_TIMEOUT :: UINT where "AD_EVENT_TIMEOUT = 4"

definition AD_EVENT_ERROR :: UINT where "AD_EVENT_ERROR = 8"

lemmas ad_events = AD_EVENT_READ_def AD_EVENT_WRITE_def AD_EVENT_TIMEOUT_def AD_EVENT_ERROR_def

section \<open>libevent\<close>

text \<open>A read event is persistent, a write event is not. The time limit has seconds and microseconds.\<close>

record event =
  ev_fd :: int
  ev_write :: bool
  ev_timeout :: "(UINT \<times> UINT) option"

record AdEvent =
  ev_base :: "(nat \<times> event) list"
  ev_next :: nat
  m_mWrite :: "(int \<times> nat) list"
  m_mRead :: "(int \<times> nat) list"
  m_mState :: "(int \<times> UINT) list"
  m_mTimeout :: "(int \<times> UINT) list"

definition AdEvent_new :: AdEvent where
  "AdEvent_new = \<lparr>ev_base = [], ev_next = 0, m_mWrite = [], m_mRead = [], m_mState = [], m_mTimeout = []\<rparr>"

text \<open>\<^verbatim>\<open>event_new\<close> with the \<^verbatim>\<open>event_add\<close> that follows it; \<^verbatim>\<open>event_add\<close> alone; \<^verbatim>\<open>event_del\<close> with \<^verbatim>\<open>event_free\<close>.\<close>

definition event_make :: "(nat \<Rightarrow> bool) \<Rightarrow> int \<Rightarrow> bool \<Rightarrow> (UINT \<times> UINT) option \<Rightarrow> AdEvent \<Rightarrow> nat option \<times> AdEvent" where
  "event_make ev_new iSocket wr tv e =
     (if ev_new (ev_next e)
      then (Some (ev_next e), e\<lparr>ev_base := smap_upd (ev_next e) \<lparr>ev_fd = iSocket, ev_write = wr, ev_timeout = tv\<rparr> (ev_base e),
        ev_next := Suc (ev_next e)\<rparr>)
      else (None, e\<lparr>ev_next := Suc (ev_next e)\<rparr>))"

definition event_add :: "nat \<Rightarrow> (UINT \<times> UINT) option \<Rightarrow> AdEvent \<Rightarrow> AdEvent" where
  "event_add h tv e = e\<lparr>ev_base := map (\<lambda>(h', v). (h', if h' = h then v\<lparr>ev_timeout := tv\<rparr> else v)) (ev_base e)\<rparr>"

definition event_free :: "nat \<Rightarrow> AdEvent \<Rightarrow> AdEvent" where
  "event_free h e = e\<lparr>ev_base := smap_erase h (ev_base e)\<rparr>"

definition time_limit :: "UINT \<Rightarrow> (UINT \<times> UINT) option" where
  "time_limit uiTimeout = (if uiTimeout > 0 then Some (uiTimeout div 1000, uiTimeout mod 1000 * 1000) else None)"

section \<open>The operations\<close>

definition AdEventState :: "int \<Rightarrow> AdEvent \<Rightarrow> UINT" where
  "AdEventState iSocket e = (case map_of (m_mState e) iSocket of None \<Rightarrow> 0 | Some f \<Rightarrow> f)"

definition free_read :: "int \<Rightarrow> AdEvent \<Rightarrow> AdEvent" where
  "free_read iSocket e =
     (case map_of (m_mRead e) iSocket of None \<Rightarrow> e
      | Some h \<Rightarrow> (event_free h e)\<lparr>m_mRead := smap_erase iSocket (m_mRead e)\<rparr>)"

definition free_write :: "int \<Rightarrow> AdEvent \<Rightarrow> AdEvent" where
  "free_write iSocket e =
     (case map_of (m_mWrite e) iSocket of None \<Rightarrow> e
      | Some h \<Rightarrow> (event_free h e)\<lparr>m_mWrite := smap_erase iSocket (m_mWrite e)\<rparr>)"

definition AdEventDel :: "int \<Rightarrow> AdEvent \<Rightarrow> AdEvent" where
  "AdEventDel iSocket e =
     (let e = free_write iSocket (free_read iSocket e)
      in e\<lparr>m_mState := smap_erase iSocket (m_mState e), m_mTimeout := smap_erase iSocket (m_mTimeout e)\<rparr>)"

text \<open>The two parts of \<^verbatim>\<open>AdEventAdd\<close>. A write event that is no longer wanted ends the read event.\<close>

definition add_read :: "(nat \<Rightarrow> bool) \<Rightarrow> int \<Rightarrow> UINT \<Rightarrow> UINT \<Rightarrow> UINT \<Rightarrow> AdEvent \<Rightarrow> bool \<times> AdEvent" where
  "add_read ev_new iSocket uiFlag uiTimeout uiOldFlag e =
     (if uiFlag AND AD_EVENT_READ \<noteq> 0 then
        (if uiOldFlag AND AD_EVENT_READ = 0 then
           (case event_make ev_new iSocket False (time_limit uiTimeout) e of
              (None, e) \<Rightarrow> (False, e)
            | (Some h, e) \<Rightarrow> (True, e\<lparr>m_mRead := smap_upd iSocket h (m_mRead e)\<rparr>))
         else
           (case map_of (m_mRead e) iSocket of
              Some h \<Rightarrow> (True, if uiTimeout > 0 then event_add h (time_limit uiTimeout) e else e)
            | None \<Rightarrow> (True, e)))
      else (True, if uiOldFlag AND AD_EVENT_READ \<noteq> 0 then free_read iSocket e else e))"

definition add_write :: "(nat \<Rightarrow> bool) \<Rightarrow> int \<Rightarrow> UINT \<Rightarrow> UINT \<Rightarrow> AdEvent \<Rightarrow> bool \<times> AdEvent" where
  "add_write ev_new iSocket uiFlag uiOldFlag e =
     (if uiFlag AND AD_EVENT_WRITE \<noteq> 0 then
        (if uiOldFlag AND AD_EVENT_WRITE = 0 then
           (case event_make ev_new iSocket True None e of
              (None, e) \<Rightarrow> (False, e)
            | (Some h, e) \<Rightarrow> (True, e\<lparr>m_mWrite := smap_upd iSocket h (m_mWrite e)\<rparr>))
         else (True, e))
      else (True, if uiOldFlag AND AD_EVENT_WRITE \<noteq> 0 then free_read iSocket e else e))"

definition AdEventAdd :: "(nat \<Rightarrow> bool) \<Rightarrow> int \<Rightarrow> UINT \<Rightarrow> UINT \<Rightarrow> AdEvent \<Rightarrow> int \<times> AdEvent" where
  "AdEventAdd ev_new iSocket uiFlag uiTimeout e =
     (if uiFlag AND (AD_EVENT_READ OR AD_EVENT_WRITE) = 0 then (AD_FAILURE, e)
      else
        (let uiOldFlag = AdEventState iSocket e;
             e = e\<lparr>m_mState := smap_insert iSocket 0 (m_mState e),
               m_mTimeout := (if uiTimeout > 0 then smap_upd iSocket uiTimeout (m_mTimeout e) else smap_erase iSocket (m_mTimeout e))\<rparr>;
             (ok, e) = add_read ev_new iSocket uiFlag uiTimeout uiOldFlag e
         in if \<not> ok then (AD_FAILURE, e)
            else
              (let (ok, e) = add_write ev_new iSocket uiFlag uiOldFlag e
               in if \<not> ok then (AD_FAILURE, e)
                  else (AD_SUCCESS, e\<lparr>m_mState := smap_upd iSocket uiFlag (m_mState e)\<rparr>))))"

definition AdEventModify :: "(nat \<Rightarrow> bool) \<Rightarrow> int \<Rightarrow> UINT \<Rightarrow> UINT \<Rightarrow> AdEvent \<Rightarrow> int \<times> AdEvent" where
  "AdEventModify ev_new iSocket uiFlag uiTimeout e =
     (let uiOldFlag = AdEventState iSocket e; e = e\<lparr>m_mState := smap_insert iSocket 0 (m_mState e)\<rparr>
      in if uiFlag \<noteq> uiOldFlag then AdEventAdd ev_new iSocket uiFlag uiTimeout (AdEventDel iSocket e)
         else
           (case map_of (m_mTimeout e) iSocket of
              Some t \<Rightarrow>
                (if t \<noteq> uiTimeout
                 then AdEventAdd ev_new iSocket uiFlag uiTimeout (if uiTimeout = 0 then AdEventDel iSocket e else e)
                 else (AD_SUCCESS, e))
            | None \<Rightarrow>
                (if uiTimeout > 0 then AdEventAdd ev_new iSocket uiFlag uiTimeout (AdEventDel iSocket e)
                 else (AD_SUCCESS, e))))"

text \<open>\<^verbatim>\<open>AdEventHandle\<close>: the messages for what libevent reports as ready: to read, the time limit, to write.\<close>

definition AdEventHandle :: "bool \<Rightarrow> bool \<Rightarrow> bool \<Rightarrow> UINT list" where
  "AdEventHandle rd to wr =
     (if rd then [AD_EVENT_READ] else if to then [AD_EVENT_TIMEOUT] else []) @ (if wr then [AD_EVENT_WRITE] else [])"

definition AdEvent_clear :: "AdEvent \<Rightarrow> AdEvent" where
  "AdEvent_clear e =
     (let e = e\<lparr>m_mState := [], m_mTimeout := []\<rparr>;
          e = fold event_free (map snd (m_mRead e)) e;
          e = fold event_free (map snd (m_mWrite e)) (e\<lparr>m_mRead := []\<rparr>)
      in e\<lparr>m_mWrite := []\<rparr>)"

section \<open>The registration is consistent\<close>

text \<open>
  The flags of a socket say which of its two events exist; every event that exists is in one of the two maps, under its socket,
  and in one only, so that none leaks and none is used after it was freed.
\<close>

definition wants_read :: "UINT \<Rightarrow> bool" where
  "wants_read f \<longleftrightarrow> f AND AD_EVENT_READ \<noteq> 0"

definition wants_write :: "UINT \<Rightarrow> bool" where
  "wants_write f \<longleftrightarrow> f AND AD_EVENT_WRITE \<noteq> 0"

definition events_of :: "(int \<rightharpoonup> nat) \<Rightarrow> (nat \<rightharpoonup> event) \<Rightarrow> bool \<Rightarrow> bool" where
  "events_of m b wr \<longleftrightarrow> (\<forall>s h. m s = Some h \<longleftrightarrow> (\<exists>v. b h = Some v \<and> ev_fd v = s \<and> ev_write v = wr))"

definition events_live :: "AdEvent \<Rightarrow> bool" where
  "events_live e \<longleftrightarrow> events_of (map_of (m_mRead e)) (map_of (ev_base e)) False \<and>
     events_of (map_of (m_mWrite e)) (map_of (ev_base e)) True \<and> (\<forall>h. map_of (ev_base e) h \<noteq> None \<longrightarrow> h < ev_next e)"

definition events_sorted :: "AdEvent \<Rightarrow> bool" where
  "events_sorted e \<longleftrightarrow> smap_ok (ev_base e) \<and> smap_ok (m_mRead e) \<and> smap_ok (m_mWrite e) \<and> smap_ok (m_mState e) \<and>
     smap_ok (m_mTimeout e)"

definition flags_ok :: "AdEvent \<Rightarrow> bool" where
  "flags_ok e \<longleftrightarrow> (\<forall>s. (map_of (m_mRead e) s \<noteq> None \<longleftrightarrow> wants_read (AdEventState s e)) \<and>
     (map_of (m_mWrite e) s \<noteq> None \<longleftrightarrow> wants_write (AdEventState s e)))"

definition event_inv :: "AdEvent \<Rightarrow> bool" where
  "event_inv e \<longleftrightarrow> events_sorted e \<and> events_live e \<and> flags_ok e \<and> (\<forall>s. map_of (m_mTimeout e) s \<noteq> Some 0)"

lemma wants_simps [simp]:
  "\<not> wants_read 0" "\<not> wants_write 0" "wants_read AD_EVENT_READ" "\<not> wants_write AD_EVENT_READ"
  "wants_read (AD_EVENT_READ OR AD_EVENT_WRITE)" "wants_write (AD_EVENT_READ OR AD_EVENT_WRITE)"
  by (simp_all add: wants_read_def wants_write_def ad_events)

lemma wants_none: "f AND (AD_EVENT_READ OR AD_EVENT_WRITE) = 0 \<longleftrightarrow> \<not> wants_read f \<and> \<not> wants_write f"
  by (auto simp: wants_read_def wants_write_def bit.conj_disj_distrib or_eq_0_iff)

text \<open>What the operations do to the two maps and to the allocated events.\<close>

lemma events_of_free:
  assumes "events_of m b wr" "m s = Some h" "events_of m' b (\<not> wr)"
  shows "events_of (m(s := None)) (b(h := None)) wr" "events_of m' (b(h := None)) (\<not> wr)"
proof -
  obtain v where v: "b h = Some v" "ev_fd v = s" "ev_write v = wr" using assms(1,2) by (auto simp: events_of_def)
  show "events_of (m(s := None)) (b(h := None)) wr" 
    using assms(1) v unfolding events_of_def fun_upd_apply by (metis option.distinct(1) option.inject)
  show "events_of m' (b(h := None)) (\<not> wr)" 
    using assms(3) v unfolding events_of_def fun_upd_apply by (metis option.distinct(1) option.inject)
qed

lemma events_of_make:
  assumes "events_of m b wr" "m s = None" "b h = None" "events_of m' b (\<not> wr)" "ev_fd v = s" "ev_write v = wr"
  shows "events_of (m(s \<mapsto> h)) (b(h \<mapsto> v)) wr" "events_of m' (b(h \<mapsto> v)) (\<not> wr)"
proof -
  have "\<And>k u. b k = Some u \<Longrightarrow> ev_write u = wr \<Longrightarrow> ev_fd u \<noteq> s" using assms(1,2) unfolding events_of_def by (metis option.distinct(1))
  then show "events_of (m(s \<mapsto> h)) (b(h \<mapsto> v)) wr" using assms unfolding events_of_def by (auto split: if_splits)
  show "events_of m' (b(h \<mapsto> v)) (\<not> wr)" using assms(3-) unfolding events_of_def by (auto split: if_splits)
qed

lemma event_inv_new: "event_inv AdEvent_new"
  by (simp add: event_inv_def events_sorted_def events_live_def events_of_def flags_ok_def AdEvent_new_def AdEventState_def)

lemma event_maps_simps [simp]:
  "ev_base (event_free h e) = smap_erase h (ev_base e)" "m_mRead (event_free h e) = m_mRead e"
  "m_mWrite (event_free h e) = m_mWrite e" "m_mState (event_free h e) = m_mState e"
  "m_mTimeout (event_free h e) = m_mTimeout e" "ev_next (event_free h e) = ev_next e"
  "m_mState (free_read s e) = m_mState e" "m_mTimeout (free_read s e) = m_mTimeout e" "m_mWrite (free_read s e) = m_mWrite e"
  "m_mState (free_write s e) = m_mState e" "m_mTimeout (free_write s e) = m_mTimeout e" "m_mRead (free_write s e) = m_mRead e"
  by (simp_all add: event_free_def free_read_def free_write_def split: option.split)

lemma AdEventState_cong: "m_mState e = m_mState e' \<Longrightarrow> AdEventState s e = AdEventState s e'"
  by (simp add: AdEventState_def)

definition events_good :: "AdEvent \<Rightarrow> bool" where
  "events_good e \<longleftrightarrow> events_sorted e \<and> events_live e"

lemmas good_defs = events_good_def events_sorted_def events_live_def

lemma good_more [simp]:
  "smap_ok m \<Longrightarrow> events_good e \<Longrightarrow> events_good (e\<lparr>m_mState := m\<rparr>)"
  "smap_ok m \<Longrightarrow> events_good e \<Longrightarrow> events_good (e\<lparr>m_mTimeout := m\<rparr>)"
  by (auto simp: good_defs)

lemma free_read_good:
  assumes "events_good e"
  shows "events_good (free_read s e)" "map_of (m_mRead (free_read s e)) = (map_of (m_mRead e))(s := None)"
proof -
  show "map_of (m_mRead (free_read s e)) = (map_of (m_mRead e))(s := None)"
    using assms by (auto simp: free_read_def good_defs fun_upd_idem split: option.split)
  show "events_good (free_read s e)"
  proof (cases "map_of (m_mRead e) s")
    case None
    with assms show ?thesis by (simp add: free_read_def)
  next
    case (Some h)
    with assms events_of_free [of "map_of (m_mRead e)" "map_of (ev_base e)" False s h "map_of (m_mWrite e)"] show ?thesis
      by (auto simp: free_read_def good_defs)
  qed
qed

lemma free_write_good:
  assumes "events_good e"
  shows "events_good (free_write s e)" "map_of (m_mWrite (free_write s e)) = (map_of (m_mWrite e))(s := None)"
proof -
  show "map_of (m_mWrite (free_write s e)) = (map_of (m_mWrite e))(s := None)"
    using assms by (auto simp: free_write_def good_defs fun_upd_idem split: option.split)
  show "events_good (free_write s e)"
  proof (cases "map_of (m_mWrite e) s")
    case None
    with assms show ?thesis by (simp add: free_write_def)
  next
    case (Some h)
    with assms events_of_free [of "map_of (m_mWrite e)" "map_of (ev_base e)" True s h "map_of (m_mRead e)"] show ?thesis
      by (auto simp: free_write_def good_defs)
  qed
qed

lemma event_make_good:
  assumes "events_good e" "event_make ev_new s wr tv e = (Some h, e')" "map_of (if wr then m_mWrite e else m_mRead e) s = None"
  shows "wr \<Longrightarrow> events_good (e'\<lparr>m_mWrite := smap_upd s h (m_mWrite e')\<rparr>)"
    "\<not> wr \<Longrightarrow> events_good (e'\<lparr>m_mRead := smap_upd s h (m_mRead e')\<rparr>)"
    "m_mRead e' = m_mRead e" "m_mWrite e' = m_mWrite e" "m_mState e' = m_mState e" "m_mTimeout e' = m_mTimeout e"
    "map_of (ev_base e') = (map_of (ev_base e))(h \<mapsto> \<lparr>ev_fd = s, ev_write = wr, ev_timeout = tv\<rparr>)"
proof -
  have new: "map_of (ev_base e) (ev_next e) = None" using assms(1) by (auto simp: good_defs)
  have e': "e' = e\<lparr>ev_base := smap_upd h \<lparr>ev_fd = s, ev_write = wr, ev_timeout = tv\<rparr> (ev_base e), ev_next := Suc h\<rparr>" "h = ev_next e"
    using assms(2) by (auto simp: event_make_def split: if_splits)
  note m = events_of_make [where v = "\<lparr>ev_fd = s, ev_write = wr, ev_timeout = tv\<rparr>" and s = s and h = h and b = "map_of (ev_base e)" and wr = wr]
  show "wr \<Longrightarrow> events_good (e'\<lparr>m_mWrite := smap_upd s h (m_mWrite e')\<rparr>)"
    using assms(1,3) new m [of "map_of (m_mWrite e)" "map_of (m_mRead e)"] by (auto simp: e' good_defs less_Suc_eq)
  show "\<not> wr \<Longrightarrow> events_good (e'\<lparr>m_mRead := smap_upd s h (m_mRead e')\<rparr>)"
    using assms(1,3) new m [of "map_of (m_mRead e)" "map_of (m_mWrite e)"] by (auto simp: e' good_defs less_Suc_eq)
qed (use assms(2) in \<open>auto simp: event_make_def split: if_splits\<close>)

lemma event_add_good: "events_good e \<Longrightarrow> events_good (event_add h tv e)"
proof -
  have m: "map_of (map (\<lambda>(h', v). (h', if h' = h then v\<lparr>ev_timeout := tv\<rparr> else v)) l) =
      (\<lambda>h'. map_option (\<lambda>v. if h' = h then v\<lparr>ev_timeout := tv\<rparr> else v) (map_of l h'))" for l :: "(nat \<times> event) list"
    by (induction l) auto
  have s: "smap_ok (map (\<lambda>(h', v). (h', if h' = h then v\<lparr>ev_timeout := tv\<rparr> else v)) l) = smap_ok l" for l :: "(nat \<times> event) list"
    by (simp add: smap_ok_def comp_def case_prod_beta)
  have e: "(\<exists>v. map_option (\<lambda>v. if h' = h then v\<lparr>ev_timeout := tv\<rparr> else v) x = Some v \<and> ev_fd v = k \<and> ev_write v = wr) \<longleftrightarrow>
      (\<exists>v. x = Some v \<and> ev_fd v = k \<and> ev_write v = wr)" for x h' k wr
    by (cases x) auto
  have o: "events_of m (\<lambda>h'. map_option (\<lambda>v. if h' = h then v\<lparr>ev_timeout := tv\<rparr> else v) (b h')) wr = events_of m b wr" for m b wr
    unfolding events_of_def e ..
  show "events_good e \<Longrightarrow> events_good (event_add h tv e)"
    by (simp add: event_add_def good_defs m s o)
qed

lemma event_add_simps [simp]:
  "m_mRead (event_add h tv e) = m_mRead e" "m_mWrite (event_add h tv e) = m_mWrite e"
  "m_mState (event_add h tv e) = m_mState e" "m_mTimeout (event_add h tv e) = m_mTimeout e"
  by (simp_all add: event_add_def)

text \<open>The two parts of \<^verbatim>\<open>AdEventAdd\<close>, when the flags that were set describe the events that exist.\<close>

lemma add_read_good:
  assumes "events_good e" "\<forall>h. ev_new h" "map_of (m_mRead e) s \<noteq> None \<longleftrightarrow> wants_read old"
  shows "\<exists>e'. add_read ev_new s f t old e = (True, e') \<and> events_good e' \<and> m_mState e' = m_mState e \<and> m_mTimeout e' = m_mTimeout e \<and>
    m_mWrite e' = m_mWrite e \<and> (\<forall>s'. s' \<noteq> s \<longrightarrow> map_of (m_mRead e') s' = map_of (m_mRead e) s') \<and>
    (map_of (m_mRead e') s \<noteq> None \<longleftrightarrow> wants_read f)"
proof (cases "wants_read f \<and> \<not> wants_read old")
  case True
  with assms(3) have none: "map_of (m_mRead e) s = None" by auto
  obtain h e' where m: "event_make ev_new s False (time_limit t) e = (Some h, e')" using assms(2) by (simp add: event_make_def)
  note g = event_make_good [OF assms(1) m]
  have "events_good (e'\<lparr>m_mRead := smap_upd s h (m_mRead e')\<rparr>)" using g(2) none by simp
  moreover have "add_read ev_new s f t old e = (True, e'\<lparr>m_mRead := smap_upd s h (m_mRead e')\<rparr>)"
    using True m by (simp add: add_read_def wants_read_def)
  ultimately show ?thesis using g(3-6) none True by simp
next
  case False
  then show ?thesis
    using assms free_read_good [OF assms(1), of s] event_add_good [OF assms(1)]
    by (auto simp: add_read_def wants_read_def split: option.split)
qed

lemma add_write_good:
  assumes "events_good e" "\<forall>h. ev_new h" "map_of (m_mWrite e) s \<noteq> None \<longleftrightarrow> wants_write old" "wants_write old \<Longrightarrow> wants_write f"
  shows "\<exists>e'. add_write ev_new s f old e = (True, e') \<and> events_good e' \<and> m_mState e' = m_mState e \<and> m_mTimeout e' = m_mTimeout e \<and>
    m_mRead e' = m_mRead e \<and> (\<forall>s'. s' \<noteq> s \<longrightarrow> map_of (m_mWrite e') s' = map_of (m_mWrite e) s') \<and>
    (map_of (m_mWrite e') s \<noteq> None \<longleftrightarrow> wants_write f)"
proof (cases "wants_write f \<and> \<not> wants_write old")
  case True
  with assms(3) have none: "map_of (m_mWrite e) s = None" by auto
  obtain h e' where m: "event_make ev_new s True None e = (Some h, e')" using assms(2) by (simp add: event_make_def)
  note g = event_make_good [OF assms(1) m]
  have "events_good (e'\<lparr>m_mWrite := smap_upd s h (m_mWrite e')\<rparr>)" using g(1) none by simp
  moreover have "add_write ev_new s f old e = (True, e'\<lparr>m_mWrite := smap_upd s h (m_mWrite e')\<rparr>)"
    using True m by (simp add: add_write_def wants_write_def)
  ultimately show ?thesis using g(3-6) none True by simp
next
  case False
  then show ?thesis using assms by (auto simp: add_write_def wants_write_def)
qed

lemma AdEventAdd_good:
  assumes "event_inv e" "\<forall>h. ev_new h" "wants_read f \<or> wants_write f" "wants_write (AdEventState s e) \<Longrightarrow> wants_write f"
  shows "\<exists>e'. AdEventAdd ev_new s f t e = (AD_SUCCESS, e') \<and> event_inv e' \<and>
    (\<forall>s'. AdEventState s' e' = (if s' = s then f else AdEventState s' e)) \<and>
    (\<forall>s'. map_of (m_mTimeout e') s' = (if s' = s then if t > 0 then Some t else None else map_of (m_mTimeout e) s'))"
proof -
  let ?m = "if t > 0 then smap_upd s t (m_mTimeout e) else smap_erase s (m_mTimeout e)"
  let ?e = "e\<lparr>m_mState := smap_insert s 0 (m_mState e), m_mTimeout := ?m\<rparr>"
  have inv: "events_good e" "flags_ok e" using assms(1) by (auto simp: event_inv_def events_good_def)
  have ok: "smap_ok (m_mState e)" "smap_ok (m_mTimeout e)" using inv by (auto simp: good_defs)
  have good: "events_good ?e" using inv ok by simp
  have old: "map_of (m_mRead ?e) s \<noteq> None \<longleftrightarrow> wants_read (AdEventState s e)" using inv(2) by (simp add: flags_ok_def)
  obtain e1 where e1: "add_read ev_new s f t (AdEventState s e) ?e = (True, e1)" "events_good e1" "m_mState e1 = m_mState ?e"
      "m_mTimeout e1 = ?m" "m_mWrite e1 = m_mWrite e" "\<forall>s'. s' \<noteq> s \<longrightarrow> map_of (m_mRead e1) s' = map_of (m_mRead e) s'"
      "map_of (m_mRead e1) s \<noteq> None \<longleftrightarrow> wants_read f"
    using add_read_good [OF good assms(2) old, of f t] by auto
  have old': "map_of (m_mWrite e1) s \<noteq> None \<longleftrightarrow> wants_write (AdEventState s e)" using inv(2) e1(5) by (simp add: flags_ok_def)
  obtain e2 where e2: "add_write ev_new s f (AdEventState s e) e1 = (True, e2)" "events_good e2" "m_mState e2 = m_mState e1"
      "m_mTimeout e2 = m_mTimeout e1" "m_mRead e2 = m_mRead e1" "\<forall>s'. s' \<noteq> s \<longrightarrow> map_of (m_mWrite e2) s' = map_of (m_mWrite e1) s'"
      "map_of (m_mWrite e2) s \<noteq> None \<longleftrightarrow> wants_write f"
    using add_write_good [OF e1(2) assms(2) old' assms(4)] by auto
  let ?e2 = "e2\<lparr>m_mState := smap_upd s f (m_mState e2)\<rparr>"
  have run: "AdEventAdd ev_new s f t e = (AD_SUCCESS, ?e2)"
    using assms(3) e1(1) e2(1) by (auto simp: AdEventAdd_def wants_none)
  have st: "AdEventState s' ?e2 = (if s' = s then f else AdEventState s' e)" for s'
    using ok by (auto simp: AdEventState_def e2(3) e1(3) split: option.split)
  have "flags_ok ?e2"
    unfolding flags_ok_def st using inv(2) e1 e2 by (auto simp: flags_ok_def)
  moreover have "events_good ?e2" using e2(2,3) e1(3) ok by simp
  moreover have "map_of (m_mTimeout ?e2) s' \<noteq> Some 0" for s'
    using assms(1) ok by (auto simp: e2(4) e1(4) event_inv_def)
  ultimately have "event_inv ?e2" by (simp add: event_inv_def events_good_def)
  then show ?thesis using run st ok by (auto simp: e2(4) e1(4))
qed

lemma AdEventDel_good:
  assumes "event_inv e"
  shows "event_inv (AdEventDel s e)" "AdEventState s' (AdEventDel s e) = (if s' = s then 0 else AdEventState s' e)"
    "map_of (m_mTimeout (AdEventDel s e)) s' = (if s' = s then None else map_of (m_mTimeout e) s')"
proof -
  have inv: "events_good e" "flags_ok e" using assms by (auto simp: event_inv_def events_good_def)
  note r = free_read_good [OF inv(1), of s]
  note w = free_write_good [OF r(1), of s]
  have ok: "smap_ok (m_mState e)" "smap_ok (m_mTimeout e)" using inv by (auto simp: good_defs)
  show st: "AdEventState s' (AdEventDel s e) = (if s' = s then 0 else AdEventState s' e)" for s'
    using ok by (simp add: AdEventDel_def Let_def AdEventState_def)
  show tm: "map_of (m_mTimeout (AdEventDel s e)) s' = (if s' = s then None else map_of (m_mTimeout e) s')" for s'
    using ok by (simp add: AdEventDel_def Let_def)
  have "flags_ok (AdEventDel s e)"
    unfolding flags_ok_def st using inv(2) r(2) w(2) by (auto simp: flags_ok_def AdEventDel_def Let_def)
  moreover have "events_good (AdEventDel s e)" using w(1) ok by (simp add: AdEventDel_def Let_def)
  moreover have "map_of (m_mTimeout (AdEventDel s e)) s' \<noteq> Some 0" for s' using assms by (simp add: tm event_inv_def)
  ultimately show "event_inv (AdEventDel s e)" by (simp add: event_inv_def events_good_def)
qed

lemma event_inv_default:
  assumes "event_inv e"
  shows "event_inv (e\<lparr>m_mState := smap_insert s 0 (m_mState e)\<rparr>)"
    "AdEventState s' (e\<lparr>m_mState := smap_insert s 0 (m_mState e)\<rparr>) = AdEventState s' e"
proof -
  have ok: "smap_ok (m_mState e)" using assms by (simp add: event_inv_def events_sorted_def)
  show st: "AdEventState s' (e\<lparr>m_mState := smap_insert s 0 (m_mState e)\<rparr>) = AdEventState s' e" for s'
    using ok by (auto simp: AdEventState_def split: option.split)
  show "event_inv (e\<lparr>m_mState := smap_insert s 0 (m_mState e)\<rparr>)"
    using assms ok by (auto simp: event_inv_def flags_ok_def st events_sorted_def events_live_def)
qed

text \<open>
  \<^verbatim>\<open>AdEventModify\<close> sets the flags and the time limit that it is given, in every state; a limit of zero removes the one that was
  set before.
\<close>

lemma AdEventModify_good:
  assumes "event_inv e" "\<forall>h. ev_new h" "wants_read f \<or> wants_write f"
  shows "\<exists>e'. AdEventModify ev_new s f t e = (AD_SUCCESS, e') \<and> event_inv e' \<and>
    (\<forall>s'. AdEventState s' e' = (if s' = s then f else AdEventState s' e)) \<and>
    (\<forall>s'. map_of (m_mTimeout e') s' = (if s' = s then if t > 0 then Some t else None else map_of (m_mTimeout e) s'))"
proof -
  let ?e = "e\<lparr>m_mState := smap_insert s 0 (m_mState e)\<rparr>"
  note d = event_inv_default [OF assms(1), where s = s]
  note del = AdEventDel_good [OF d(1), where s = s]
  have again: ?thesis if "AdEventModify ev_new s f t e = AdEventAdd ev_new s f t (AdEventDel s ?e)"
  proof -
    obtain e' where "AdEventAdd ev_new s f t (AdEventDel s ?e) = (AD_SUCCESS, e')" "event_inv e'"
        "\<forall>s'. AdEventState s' e' = (if s' = s then f else AdEventState s' (AdEventDel s ?e))"
        "\<forall>s'. map_of (m_mTimeout e') s' = (if s' = s then if t > 0 then Some t else None else map_of (m_mTimeout (AdEventDel s ?e)) s')"
      using AdEventAdd_good [OF del(1) assms(2,3), of s t] del(2) by auto
    then show ?thesis using that del d(2) by auto
  qed
  show ?thesis
  proof (cases "f = AdEventState s e")
    case same: True
    then have w: "wants_write (AdEventState s ?e) \<Longrightarrow> wants_write f" unfolding d(2) by simp
    have keep: ?thesis if "AdEventModify ev_new s f t e = (AD_SUCCESS, ?e)" "map_of (m_mTimeout e) s = (if t > 0 then Some t else None)"
      using that d same by auto
    consider "map_of (m_mTimeout e) s = None" "t > 0" | "map_of (m_mTimeout e) s = None" "t = 0"
      | t' where "map_of (m_mTimeout e) s = Some t'" "t' \<noteq> t" "t = 0" | t' where "map_of (m_mTimeout e) s = Some t'" "t' \<noteq> t" "t > 0"
      | "map_of (m_mTimeout e) s = Some t"
      by (cases "map_of (m_mTimeout e) s") (auto simp: word_gt_0)
    then show ?thesis
    proof cases
      case 4
      then have "AdEventModify ev_new s f t e = AdEventAdd ev_new s f t ?e" using same by (auto simp: AdEventModify_def Let_def)
      then show ?thesis using AdEventAdd_good [where s = s and t = t, OF d(1) assms(2,3) w] d(2) by auto
    next
      case 5
      with assms(1) have "t > 0" by (auto simp: event_inv_def word_gt_0)
      with 5 show ?thesis by (intro keep) (use same in \<open>simp_all add: AdEventModify_def Let_def\<close>)
    next
      case 1
      then show ?thesis by (intro again) (use same in \<open>simp add: AdEventModify_def Let_def\<close>)
    next
      case 2
      then show ?thesis by (intro keep) (use same in \<open>simp_all add: AdEventModify_def Let_def\<close>)
    next
      case 3
      then show ?thesis by (intro again) (use same in \<open>simp add: AdEventModify_def Let_def\<close>)
    qed
  next
    case False
    then show ?thesis by (intro again) (simp add: AdEventModify_def Let_def)
  qed
qed

text \<open>\<^verbatim>\<open>AdEventModify\<close> on a consistent registration, with flags to read or to write: it succeeds, the registration stays
  consistent (the flags of a socket say which of its two events exist, and every event is under its socket), the socket has the new
  flags and the new time limit, none for 0, and those of the other sockets are as before.\<close>

theorem AdEventModify_spec:
  assumes "event_inv e" "\<forall>h. ev_new h" "wants_read f \<or> wants_write f"
  shows "\<exists>e'. AdEventModify ev_new s f t e = (AD_SUCCESS, e') \<and> event_inv e' \<and>
    (\<forall>s'. AdEventState s' e' = (if s' = s then f else AdEventState s' e)) \<and>
    (\<forall>s'. map_of (m_mTimeout e') s' = (if s' = s then if t > 0 then Some t else None else map_of (m_mTimeout e) s'))"
  using assms by (rule AdEventModify_good)

theorem AdEventModify_spec_witness:
  "\<exists>e'. AdEventModify (\<lambda>h. True) 7 AD_EVENT_READ 100 (snd (AdEventAdd (\<lambda>h. True) 7 AD_EVENT_READ 0 AdEvent_new)) = (AD_SUCCESS, e') \<and>
    AdEventState 7 e' = AD_EVENT_READ \<and> map_of (m_mTimeout e') 7 = Some 100"
proof -
  have "event_inv (snd (AdEventAdd (\<lambda>h. True) 7 AD_EVENT_READ 0 AdEvent_new))"
    using AdEventAdd_good [OF event_inv_new, of "\<lambda>h. True" AD_EVENT_READ 7 0] by (auto simp: AdEvent_new_def AdEventState_def)
  from AdEventModify_spec [OF this, of "\<lambda>h. True" AD_EVENT_READ 7 100] show ?thesis by auto
qed

text \<open>
  \<^verbatim>\<open>AdEventAdd\<close> alone does not: when the write event is no longer wanted it frees the read event instead, and the flags say that a
  socket is read for which there is no event.
\<close>

lemma AdEventAdd_frees_read:
  "let e = snd (AdEventAdd (\<lambda>h. True) 7 AD_EVENT_READ 0 (snd (AdEventAdd (\<lambda>h. True) 7 (AD_EVENT_READ OR AD_EVENT_WRITE) 0 AdEvent_new)))
   in AdEventState 7 e = AD_EVENT_READ \<and> map_of (m_mRead e) 7 = None \<and> map_of (m_mWrite e) 7 \<noteq> None"
  by code_simp

end
