(* ===== verification/AdNetBase.thy ===== *)
theory AdNetBase
  imports AdSession AdEvent AdBuff
begin

unbundle bit_operations_syntax

text \<open>
  The network loop, \<^verbatim>\<open>libnet/src/AdNetBase.cpp\<close>, and the threads around it, \<^verbatim>\<open>libnet/inc/AdNetTask.h\<close>. Sessions are objects
  at numbered places of a heap; the queues and maps hold these numbers. What the calls of \<^verbatim>\<open>accept\<close> give, what libevent reports,
  the readings of the clock and the memory are arguments.

  A queue is the list that a ring buffer is shown to be in \<open>AdBuff\<close>. An operation that waits until another thread has taken
  something from a full queue, or for a lock that its own thread holds, has the result \<open>Inr None\<close>: it does not return from this
  state. The use of an object that was deleted and an index outside a vector are left values.
\<close>

section \<open>Results\<close>

type_synonym 'a net = "'a option cxx"

definition bind_net :: "'a net \<Rightarrow> ('a \<Rightarrow> 'b net) \<Rightarrow> 'b net" where
  "bind_net m f = bind_cxx m (\<lambda>r. case r of None \<Rightarrow> Inr None | Some x \<Rightarrow> f x)"

abbreviation ret_net :: "'a \<Rightarrow> 'a net" where
  "ret_net x \<equiv> Inr (Some x)"

abbreviation wait_net :: "'a net" where
  "wait_net \<equiv> Inr None"

lemma bind_net_simps [simp]:
  "bind_net (ret_net x) f = f x" "bind_net wait_net f = wait_net" "bind_net (Inl e) f = Inl e"
  by (simp_all add: bind_net_def)

lemma bind_net_ret_iff: "bind_net m f = ret_net y \<longleftrightarrow> (\<exists>x. m = ret_net x \<and> f x = ret_net y)"
  by (auto simp: bind_net_def bind_cxx_Inr_iff split: option.splits)

text \<open>What holds of every result.\<close>

definition always :: "'a net \<Rightarrow> ('a \<Rightarrow> bool) \<Rightarrow> bool" where
  "always m P \<longleftrightarrow> (\<forall>x. m = ret_net x \<longrightarrow> P x)"

lemma always_simps [simp]:
  "always (ret_net x) P \<longleftrightarrow> P x" "always wait_net P" "always (Inl e) P"
  "always (bind_net m f) P \<longleftrightarrow> always m (\<lambda>x. always (f x) P)"
  "always (bind_cxx n g) P \<longleftrightarrow> (\<forall>y. n = Inr y \<longrightarrow> always (g y) P)"
  by (auto simp: always_def bind_net_ret_iff bind_cxx_Inr_iff)

lemma always_if [simp]: "always (if b then m else m') P \<longleftrightarrow> (if b then always m P else always m' P)"
  by simp

lemma alwaysD: "always m P \<Longrightarrow> m = ret_net x \<Longrightarrow> P x"
  by (simp add: always_def)

lemma always_mono: "always m Q \<Longrightarrow> (\<And>x. m = ret_net x \<Longrightarrow> Q x \<Longrightarrow> P x) \<Longrightarrow> always m P"
  by (auto simp: always_def)

section \<open>The state\<close>

definition AD_TASK_SESSION_MAX :: nat where
  "AD_TASK_SESSION_MAX = 1024 * 32"

definition AD_NET_MSG_READ :: UINT where "AD_NET_MSG_READ = 1"

definition AD_NET_MSG_WRITE :: UINT where "AD_NET_MSG_WRITE = 2"

text \<open>\<open>n_writes\<close> is no field of the code: the sessions that were ever put into a queue of write messages.\<close>

record 'd AdNetBase =
  n_event :: AdEvent
  n_heap :: "(nat \<times> 'd AdSession) list"
  n_next :: nat
  m_mSessionRead :: "(int \<times> nat) list"
  m_mSessionWrite :: "(int \<times> nat) list"
  m_mSessionClose :: "(nat \<times> nat) list"
  m_mSessionCloseTime :: "(int \<times> nat) list"
  m_ctSessionFree :: "nat list"
  m_ctSessionNew :: "nat list"
  m_vMsgRead :: "nat list list"
  m_uiRead :: UINT
  m_vMsgWrite :: "nat list list"
  m_uiWrite :: UINT
  m_ctMsgControl :: "nat list"
  m_ctTime :: int
  m_iServer :: int
  m_uiAllSession :: UINT
  m_uiDelSession :: UINT
  m_uiCloseSession :: UINT
  n_writes :: "nat list"

definition AdNetBase_new :: "int \<Rightarrow> 'd AdNetBase" where
  "AdNetBase_new now = \<lparr>n_event = AdEvent_new, n_heap = [], n_next = 1, m_mSessionRead = [], m_mSessionWrite = [],
     m_mSessionClose = [], m_mSessionCloseTime = [], m_ctSessionFree = [], m_ctSessionNew = [], m_vMsgRead = [], m_uiRead = 0,
     m_vMsgWrite = [], m_uiWrite = 0, m_ctMsgControl = [], m_ctTime = now, m_iServer = AD_FAILURE, m_uiAllSession = 0,
     m_uiDelSession = 0, m_uiCloseSession = 0, n_writes = []\<rparr>"

text \<open>What the object is made of besides its state: whether memory is found, and the virtual \<^verbatim>\<open>AdNetBaseSessionReconnect\<close>.\<close>

record 'w netenv =
  env_new :: "nat \<Rightarrow> bool"
  env_reconnect :: "nat \<Rightarrow> 'w \<Rightarrow> 'w net"

definition AdNetBaseSessionReconnect :: "nat \<Rightarrow> 'w \<Rightarrow> 'w net" where
  "AdNetBaseSessionReconnect a w = ret_net w"

definition get_session :: "nat \<Rightarrow> ('d, 'z) AdNetBase_scheme \<Rightarrow> 'd AdSession cxx" where
  "get_session a w = (case map_of (n_heap w) a of None \<Rightarrow> Inl NullPointer | Some s \<Rightarrow> Inr s)"

definition put_session :: "nat \<Rightarrow> 'd AdSession \<Rightarrow> ('d, 'z) AdNetBase_scheme \<Rightarrow> ('d, 'z) AdNetBase_scheme" where
  "put_session a s w = w\<lparr>n_heap := smap_upd a s (n_heap w)\<rparr>"

text \<open>\<^verbatim>\<open>tryPush\<close> on a queue of \<^verbatim>\<open>AD_TASK_SESSION_MAX\<close> places, of which one stays empty.\<close>

definition queue_try_push :: "nat \<Rightarrow> nat list \<Rightarrow> bool \<times> nat list" where
  "queue_try_push a q = (if length q < AD_TASK_SESSION_MAX - 1 then (True, q @ [a]) else (False, q))"

lemma queue_try_push_ring:
  assumes "ring_ok rb" "m_iSize rb = int AD_TASK_SESSION_MAX" "queue_try_push a (ring_contents rb) = (ok, q)"
  shows "\<exists>rb'. tryPush a rb = Inr (ok, rb') \<and> ring_ok rb' \<and> ring_contents rb' = q \<and> m_iSize rb' = m_iSize rb"
proof -
  have c: "ring_capacity rb = AD_TASK_SESSION_MAX - 1" using assms(2) by (simp add: ring_capacity_def AD_TASK_SESSION_MAX_def)
  have size: "m_iSize rb' = m_iSize rb" if "ring_ok rb'" "ring_capacity rb' = ring_capacity rb" for rb' :: "nat AdRingBufferBase"
    using that assms(1) unfolding ring_ok_def ring_capacity_def by linarith
  show ?thesis
  proof (cases "length (ring_contents rb) < ring_capacity rb")
    case True
    then obtain rb' where rb': "tryPush a rb = Inr (True, rb')" "ring_ok rb'" "ring_contents rb' = ring_contents rb @ [a]"
        "ring_capacity rb' = ring_capacity rb"
      using ring.push_room [OF assms(1)] by blast
    from True assms(3) have "ok" "q = ring_contents rb @ [a]" unfolding c queue_try_push_def by simp_all
    with rb' size [OF rb'(2,4)] show ?thesis by auto
  next
    case False
    then have p: "tryPush a rb = Inr (False, rb)" using ring.push_no_room [OF assms(1)] by blast
    from False assms(3) have "\<not> ok" "q = ring_contents rb" unfolding c queue_try_push_def by simp_all
    with p assms(1) show ?thesis by auto
  qed
qed

section \<open>Queues of messages\<close>

definition AdNetBaseInit :: "int \<Rightarrow> int \<Rightarrow> ('d, 'z) AdNetBase_scheme \<Rightarrow> ('d, 'z) AdNetBase_scheme" where
  "AdNetBaseInit msgRead msgWrite w =
     (let msgRead = (if msgRead \<le> 0 then 1 else msgRead); msgWrite = (if msgWrite \<le> 0 then 1 else msgWrite)
      in w\<lparr>m_vMsgRead := m_vMsgRead w @ replicate (nat msgRead) [], m_vMsgWrite := m_vMsgWrite w @ replicate (nat msgWrite) []\<rparr>)"

text \<open>The number of the queue, none if there is no queue. For another type the pointer is not initialised.\<close>

definition AdNetBaseGetMsg :: "nat \<Rightarrow> UINT \<Rightarrow> ('d, 'z) AdNetBase_scheme \<Rightarrow> nat option cxx" where
  "AdNetBaseGetMsg k uiType w =
     (if uiType = AD_NET_MSG_READ then
        Inr (if m_vMsgRead w = [] then None else Some (k mod length (m_vMsgRead w)))
      else if uiType = AD_NET_MSG_WRITE then
        Inr (if m_vMsgWrite w = [] then None else Some (k mod length (m_vMsgWrite w)))
      else Inl NullPointer)"

definition next_queue :: "UINT \<Rightarrow> 'a list \<Rightarrow> UINT" where
  "next_queue i v = (if unat (i + 1) \<ge> length v then 0 else i + 1)"

text \<open>The loop of the read case: after a turn over all queues none had room, the thread turns until one has.\<close>

fun push_read_loop :: "nat \<Rightarrow> nat \<Rightarrow> UINT \<Rightarrow> nat list list \<Rightarrow> (UINT \<times> nat list list) net" where
  "push_read_loop 0 a i v = wait_net"
| "push_read_loop (Suc n) a i v =
     (if unat i < length v then
        (case queue_try_push a (v ! unat i) of
           (True, q) \<Rightarrow> ret_net (next_queue i v, v[unat i := q])
         | (False, _) \<Rightarrow> push_read_loop n a (next_queue i v) v)
      else Inl OutOfBounds)"

text \<open>The write case takes the index of the read queues.\<close>

definition AdNetBasePushMsg :: "nat \<Rightarrow> UINT \<Rightarrow> ('d, 'z) AdNetBase_scheme \<Rightarrow> ('d, 'z) AdNetBase_scheme net" where
  "AdNetBasePushMsg a uiType w =
     (if uiType = AD_NET_MSG_READ then
        bind_cxx (get_session a w) (\<lambda>s.
          let w = put_session a (AdSessionActive s) w in
          bind_net (push_read_loop (Suc (length (m_vMsgRead w))) a (m_uiRead w) (m_vMsgRead w)) (\<lambda>(i, v).
            ret_net (w\<lparr>m_uiRead := i, m_vMsgRead := v\<rparr>)))
      else if uiType = AD_NET_MSG_WRITE then
        bind_cxx (get_session a w) (\<lambda>s.
          let w = put_session a (AdSessionActive s) w; i = unat (m_uiRead w) in
          if i < length (m_vMsgWrite w) then
            (case queue_try_push a (m_vMsgWrite w ! i) of
               (True, q) \<Rightarrow> ret_net (w\<lparr>m_vMsgWrite := (m_vMsgWrite w)[i := q], n_writes := n_writes w @ [a]\<rparr>)
             | (False, _) \<Rightarrow> wait_net)
          else Inl OutOfBounds)
      else ret_net w)"

section \<open>Sessions\<close>

definition AdNetBaseNewSession :: "('d, 'z) AdNetBase_scheme \<Rightarrow> nat \<times> ('d, 'z) AdNetBase_scheme" where
  "AdNetBaseNewSession w =
     (case m_ctSessionFree w of
        a # q \<Rightarrow> (a, w\<lparr>m_ctSessionFree := q\<rparr>)
      | [] \<Rightarrow> (n_next w, (put_session (n_next w) (AdSession_new (Some 0)) w)\<lparr>n_next := Suc (n_next w)\<rparr>))"

text \<open>The destructor of a session closes it until nobody uses it.\<close>

definition AdNetBaseDeleteSession :: "nat \<Rightarrow> ('d, 'z) AdNetBase_scheme \<Rightarrow> ('d, 'z) AdNetBase_scheme net" where
  "AdNetBaseDeleteSession a w =
     (case queue_try_push a (m_ctSessionFree w) of
        (True, q) \<Rightarrow> ret_net (w\<lparr>m_ctSessionFree := q, m_uiDelSession := m_uiDelSession w + 1\<rparr>)
      | (False, _) \<Rightarrow> bind_cxx (get_session a w) (\<lambda>s.
          if fst (AdSessionClose s) = AD_SUCCESS
          then ret_net (w\<lparr>n_heap := smap_erase a (n_heap w), m_uiDelSession := m_uiDelSession w + 1\<rparr>)
          else wait_net))"

text \<open>\<^verbatim>\<open>insert\<close> of a \<^verbatim>\<open>multimap\<close>: behind the entries with the same key.\<close>

fun mmap_insert :: "int \<Rightarrow> 'v \<Rightarrow> (int \<times> 'v) list \<Rightarrow> (int \<times> 'v) list" where
  "mmap_insert k v [] = [(k, v)]"
| "mmap_insert k v ((k', v') # m) = (if k < k' then (k, v) # (k', v') # m else (k', v') # mmap_insert k v m)"

definition AdNetBaseCloseSession ::
    "('d, 'z) AdNetBase_scheme netenv \<Rightarrow> nat \<Rightarrow> ('d, 'z) AdNetBase_scheme \<Rightarrow> ('d, 'z) AdNetBase_scheme net" where
  "AdNetBaseCloseSession E a w =
     bind_cxx (get_session a w) (\<lambda>s.
       let iSocket = m_s_iSocket s; now = m_ctTime w in
       if map_of (m_mSessionClose w) a \<noteq> None then ret_net w
       else bind_net
         (if map_of (m_mSessionRead w) iSocket = Some a
          then env_reconnect E a (w\<lparr>n_event := AdEventDel iSocket (n_event w),
            m_mSessionWrite := smap_erase iSocket (m_mSessionWrite w), m_mSessionRead := smap_erase iSocket (m_mSessionRead w)\<rparr>)
          else ret_net w) (\<lambda>w.
         bind_cxx (get_session a w) (\<lambda>s.
           ret_net ((put_session a (snd (AdSessionClose s)) w)\<lparr>m_mSessionClose := smap_upd a a (m_mSessionClose w),
             m_mSessionCloseTime := mmap_insert now a (m_mSessionCloseTime w), m_uiCloseSession := m_uiCloseSession w + 1\<rparr>))))"

definition AdNetBaseAddSession ::
    "('d, 'z) AdNetBase_scheme netenv \<Rightarrow> nat \<Rightarrow> ('d, 'z) AdNetBase_scheme \<Rightarrow> (int \<times> ('d, 'z) AdNetBase_scheme) net" where
  "AdNetBaseAddSession E a w =
     bind_cxx (get_session a w) (\<lambda>s.
       let sock = m_s_iSocket s in
       bind_net
         (case map_of (m_mSessionRead w) sock of
            Some b \<Rightarrow> (if a \<noteq> b then AdNetBaseCloseSession E b w else ret_net w)
          | None \<Rightarrow> ret_net w) (\<lambda>w.
         let (ret, e) = AdEventAdd (env_new E) sock AD_EVENT_READ 0 (n_event w); w = w\<lparr>n_event := e\<rparr> in
         if ret \<noteq> AD_SUCCESS then ret_net (AD_FAILURE, w)
         else ret_net (AD_SUCCESS, w\<lparr>m_mSessionRead := smap_upd sock a (m_mSessionRead w), m_uiAllSession := m_uiAllSession w + 1\<rparr>)))"

definition AdNetBaseAddServer ::
    "('d, 'z) AdNetBase_scheme netenv \<Rightarrow> int \<Rightarrow> ('d, 'z) AdNetBase_scheme \<Rightarrow> int \<times> ('d, 'z) AdNetBase_scheme" where
  "AdNetBaseAddServer E iSocket w =
     (if map_of (m_mSessionRead w) iSocket \<noteq> None then (AD_FAILURE, w)
      else
        (let (ret, e) = AdEventAdd (env_new E) iSocket AD_EVENT_READ 0 (n_event w); w = w\<lparr>n_event := e\<rparr> in
         if ret \<noteq> AD_SUCCESS then (AD_FAILURE, w) else (AD_SUCCESS, w\<lparr>m_iServer := iSocket\<rparr>)))"

definition AdNetBaseAddClient :: "nat \<Rightarrow> ('d, 'z) AdNetBase_scheme \<Rightarrow> (int \<times> ('d, 'z) AdNetBase_scheme) net" where
  "AdNetBaseAddClient a w =
     (case queue_try_push a (m_ctSessionNew w) of
        (True, q) \<Rightarrow> ret_net (AD_SUCCESS, w\<lparr>m_ctSessionNew := q\<rparr>)
      | (False, _) \<Rightarrow> wait_net)"

section \<open>The loop\<close>

text \<open>New sessions of a client, then the sessions other threads wrote to. The queues may grow meanwhile; \<open>n\<close> bounds the turns.\<close>

fun new_loop :: "('d, 'z) AdNetBase_scheme netenv \<Rightarrow> nat \<Rightarrow> ('d, 'z) AdNetBase_scheme \<Rightarrow> ('d, 'z) AdNetBase_scheme net" where
  "new_loop E 0 w = wait_net"
| "new_loop E (Suc n) w =
     (case m_ctSessionNew w of
        [] \<Rightarrow> ret_net w
      | a # q \<Rightarrow>
          bind_net (AdNetBaseAddSession E a (w\<lparr>m_ctSessionNew := q\<rparr>)) (\<lambda>(ret, w).
          bind_net (if ret \<noteq> AD_SUCCESS then bind_net (AdNetBaseDeleteSession a w) (env_reconnect E a) else ret_net w) (\<lambda>w.
            new_loop E n w)))"

definition control_turn ::
    "('d, 'z) AdNetBase_scheme netenv \<Rightarrow> nat \<Rightarrow> ('d, 'z) AdNetBase_scheme \<Rightarrow> (int \<times> ('d, 'z) AdNetBase_scheme) net" where
  "control_turn E a w =
     bind_cxx (get_session a w) (\<lambda>s.
       bind_net
         (if \<not> AdSessionOk s then AdNetBaseCloseSession E a w
          else if map_of (m_mSessionRead w) (m_s_iSocket s) \<noteq> None
          then ret_net (w\<lparr>m_mSessionWrite := smap_upd (m_s_iSocket s) a (m_mSessionWrite w)\<rparr>)
          else ret_net w) (\<lambda>w.
         bind_cxx (get_session a w) (\<lambda>s.
           let (ret, s) = AdSessionGetTimeout s; w = put_session a s w; sock = m_s_iSocket s in
           if ret \<ge> 0 then
             (let (ret, e) = AdEventModify (env_new E) sock (AdEventState sock (n_event w)) (of_int ret) (n_event w);
                  w = w\<lparr>n_event := e\<rparr>
              in ret_net (if ret \<noteq> AD_SUCCESS then AD_FAILURE else AD_SUCCESS, w))
           else ret_net (AD_SUCCESS, w))))"

fun control_loop ::
    "('d, 'z) AdNetBase_scheme netenv \<Rightarrow> nat \<Rightarrow> ('d, 'z) AdNetBase_scheme \<Rightarrow> (int \<times> ('d, 'z) AdNetBase_scheme) net" where
  "control_loop E 0 w = wait_net"
| "control_loop E (Suc n) w =
     (case m_ctMsgControl w of
        [] \<Rightarrow> ret_net (AD_SUCCESS, w)
      | a # q \<Rightarrow>
          bind_net (control_turn E a (w\<lparr>m_ctMsgControl := q\<rparr>)) (\<lambda>(ret, w).
            if ret \<noteq> AD_SUCCESS then ret_net (AD_FAILURE, w) else control_loop E n w))"

text \<open>The sessions with delayed writes, in the order of the map.\<close>

fun write_loop ::
    "('d, 'z) AdNetBase_scheme netenv \<Rightarrow> (int \<times> nat) list \<Rightarrow> ('d, 'z) AdNetBase_scheme \<Rightarrow>
     (int \<times> ('d, 'z) AdNetBase_scheme) net" where
  "write_loop E [] w = ret_net (AD_SUCCESS, w)"
| "write_loop E ((sock, a) # l) w =
     bind_cxx (get_session a w) (\<lambda>s.
       if \<not> AdSessionEmpty s then
         (if AdEventState sock (n_event w) \<noteq> AD_EVENT_READ OR AD_EVENT_WRITE then
            (let (ret, e) = AdEventModify (env_new E) sock (AD_EVENT_READ OR AD_EVENT_WRITE) 0 (n_event w); w = w\<lparr>n_event := e\<rparr>
             in if ret \<noteq> AD_SUCCESS then ret_net (AD_FAILURE, w) else write_loop E l w)
          else write_loop E l w)
       else write_loop E l (w\<lparr>m_mSessionWrite := smap_erase sock (m_mSessionWrite w)\<rparr>))"

text \<open>The closed sessions from the oldest on, up to the first that was closed within the last second; what is left of the list.\<close>

fun close_loop :: "(int \<times> nat) list \<Rightarrow> ('d, 'z) AdNetBase_scheme \<Rightarrow> ((int \<times> nat) list \<times> ('d, 'z) AdNetBase_scheme) net" where
  "close_loop [] w = ret_net ([], w)"
| "close_loop ((t, a) # l) w =
     (if m_ctTime w > t + 1 then
        bind_cxx (get_session a w) (\<lambda>s.
          let (ret, s) = AdSessionClose s; w = put_session a s w in
          if ret = AD_SUCCESS then
            bind_net (AdNetBaseDeleteSession a w) (\<lambda>w. close_loop l (w\<lparr>m_mSessionClose := smap_erase a (m_mSessionClose w)\<rparr>))
          else bind_net (close_loop l w) (\<lambda>(l', w). ret_net ((t, a) # l', w)))
      else ret_net ((t, a) # l, w))"

definition AdNetBaseLoop ::
    "('d, 'z) AdNetBase_scheme netenv \<Rightarrow> nat \<Rightarrow> int \<Rightarrow> ('d, 'z) AdNetBase_scheme \<Rightarrow> (int \<times> ('d, 'z) AdNetBase_scheme) net" where
  "AdNetBaseLoop E n now w =
     bind_net (new_loop E n (w\<lparr>m_ctTime := now\<rparr>)) (\<lambda>w.
     bind_net (control_loop E n w) (\<lambda>(ret, w).
       if ret \<noteq> AD_SUCCESS then ret_net (AD_FAILURE, w)
       else bind_net (write_loop E (m_mSessionWrite w) w) (\<lambda>(ret, w).
         if ret \<noteq> AD_SUCCESS then ret_net (AD_FAILURE, w)
         else bind_net (close_loop (m_mSessionCloseTime w) w) (\<lambda>(l, w).
           ret_net (AD_SUCCESS, w\<lparr>m_mSessionCloseTime := l\<rparr>)))))"

section \<open>Events\<close>

text \<open>One turn of the loop over \<^verbatim>\<open>accept\<close>: its result if it ends here.\<close>

definition accept_turn ::
    "('d, 'z) AdNetBase_scheme netenv \<Rightarrow> int \<Rightarrow> bool \<Rightarrow> ('d, 'z) AdNetBase_scheme \<Rightarrow>
     (int option \<times> ('d, 'z) AdNetBase_scheme) net" where
  "accept_turn E sock nonblock w =
     (let (a, w) = AdNetBaseNewSession w in
      bind_cxx (get_session a w) (\<lambda>s.
        let (sock, s) = AdSessionInit sock nonblock s; w = put_session a s w in
        if sock \<noteq> AD_FAILURE then
          bind_net (AdNetBaseAddSession E a w) (\<lambda>(ret, w).
            if ret \<noteq> AD_SUCCESS then bind_net (AdNetBaseDeleteSession a w) (\<lambda>w. ret_net (Some AD_FAILURE, w))
            else ret_net (None, w))
        else
          bind_net (AdNetBaseDeleteSession a (w\<lparr>m_uiDelSession := m_uiDelSession w - 1\<rparr>)) (\<lambda>w. ret_net (Some AD_SUCCESS, w))))"

text \<open>After the connections that are there \<^verbatim>\<open>accept\<close> fails.\<close>

fun accept_loop ::
    "('d, 'z) AdNetBase_scheme netenv \<Rightarrow> (int \<times> bool) list \<Rightarrow> ('d, 'z) AdNetBase_scheme \<Rightarrow>
     (int \<times> ('d, 'z) AdNetBase_scheme) net" where
  "accept_loop E [] w = bind_net (accept_turn E AD_FAILURE True w) (\<lambda>(r, w).
     ret_net (case r of None \<Rightarrow> AD_SUCCESS | Some r \<Rightarrow> r, w))"
| "accept_loop E ((sock, nonblock) # l) w = bind_net (accept_turn E sock nonblock w) (\<lambda>(r, w).
     case r of None \<Rightarrow> accept_loop E l w | Some r \<Rightarrow> ret_net (r, w))"

definition session_message ::
    "('d, 'z) AdNetBase_scheme netenv \<Rightarrow> nat \<Rightarrow> int \<Rightarrow> UINT \<Rightarrow> ('d, 'z) AdNetBase_scheme \<Rightarrow> ('d, 'z) AdNetBase_scheme net" where
  "session_message E a iSocket iMsgType w =
     (if iMsgType = AD_EVENT_READ \<or> iMsgType = AD_EVENT_TIMEOUT then AdNetBasePushMsg a AD_EVENT_READ w
      else if iMsgType = AD_EVENT_WRITE then
        bind_net (AdNetBasePushMsg a iMsgType w) (\<lambda>w.
          ret_net (w\<lparr>n_event := snd (AdEventModify (env_new E) iSocket AD_EVENT_READ 0 (n_event w))\<rparr>))
      else if iMsgType = AD_EVENT_ERROR then
        bind_net (AdNetBaseCloseSession E a w) (AdNetBasePushMsg a AD_EVENT_READ)
      else AdNetBaseCloseSession E a w)"

definition AdEventHandleMsg ::
    "('d, 'z) AdNetBase_scheme netenv \<Rightarrow> nat \<Rightarrow> int \<Rightarrow> (int \<times> bool) list \<Rightarrow> int \<Rightarrow> UINT \<Rightarrow> ('d, 'z) AdNetBase_scheme \<Rightarrow>
     (int \<times> ('d, 'z) AdNetBase_scheme) net" where
  "AdEventHandleMsg E n now accepts iSocket iMsgType w =
     (if iMsgType = AD_EVENT_READ \<and> iSocket = m_iServer w then accept_loop E accepts w
      else
        (case map_of (m_mSessionRead w) iSocket of
           None \<Rightarrow> ret_net (AD_FAILURE, w\<lparr>n_event := AdEventDel iSocket (n_event w)\<rparr>)
         | Some a \<Rightarrow>
             bind_net (session_message E a iSocket iMsgType w) (\<lambda>w.
             bind_net (AdNetBaseLoop E n now w) (\<lambda>(_, w). ret_net (AD_SUCCESS, w)))))"

text \<open>
  \<^verbatim>\<open>AdEventWait\<close>: what libevent reports, an event with what is ready of it. An event that was freed meanwhile is not reported.
\<close>

record ready =
  r_event :: nat
  r_timeout :: bool
  r_accepts :: "(int \<times> bool) list"
  r_now :: int

definition ready_messages :: "ready \<Rightarrow> event \<Rightarrow> UINT list" where
  "ready_messages r v = AdEventHandle (\<not> ev_write v \<and> \<not> r_timeout r) (\<not> ev_write v \<and> r_timeout r) (ev_write v)"

fun handle_all ::
    "('d, 'z) AdNetBase_scheme netenv \<Rightarrow> nat \<Rightarrow> ready \<Rightarrow> int \<Rightarrow> UINT list \<Rightarrow> ('d, 'z) AdNetBase_scheme \<Rightarrow>
     ('d, 'z) AdNetBase_scheme net" where
  "handle_all E n r fd [] w = ret_net w"
| "handle_all E n r fd (m # ms) w =
     bind_net (AdEventHandleMsg E n (r_now r) (r_accepts r) fd m w) (\<lambda>(_, w). handle_all E n r fd ms w)"

fun AdEventWait ::
    "('d, 'z) AdNetBase_scheme netenv \<Rightarrow> nat \<Rightarrow> ready list \<Rightarrow> ('d, 'z) AdNetBase_scheme \<Rightarrow> ('d, 'z) AdNetBase_scheme net" where
  "AdEventWait E n [] w = ret_net w"
| "AdEventWait E n (r # rs) w =
     bind_net (case map_of (ev_base (n_event w)) (r_event r) of
         None \<Rightarrow> ret_net w
       | Some v \<Rightarrow> handle_all E n r (ev_fd v) (ready_messages r v) w) (AdEventWait E n rs)"

definition AdNetBaseRun ::
    "('d, 'z) AdNetBase_scheme netenv \<Rightarrow> nat \<Rightarrow> int \<Rightarrow> ready list \<Rightarrow> ('d, 'z) AdNetBase_scheme \<Rightarrow> ('d, 'z) AdNetBase_scheme net" where
  "AdNetBaseRun E n now rs w = bind_net (AdNetBaseLoop E n now w) (\<lambda>(_, w). AdEventWait E n rs w)"

section \<open>The end of the object\<close>

definition delete_session :: "nat \<Rightarrow> ('d, 'z) AdNetBase_scheme \<Rightarrow> ('d, 'z) AdNetBase_scheme net" where
  "delete_session a w = bind_cxx (get_session a w) (\<lambda>s.
     if fst (AdSessionClose s) = AD_SUCCESS then ret_net (w\<lparr>n_heap := smap_erase a (n_heap w)\<rparr>) else wait_net)"

fun delete_all :: "nat list \<Rightarrow> ('d, 'z) AdNetBase_scheme \<Rightarrow> ('d, 'z) AdNetBase_scheme net" where
  "delete_all [] w = ret_net w"
| "delete_all (a # q) w = bind_net (delete_session a w) (delete_all q)"

text \<open>
  The destructor. Its loop over the closed sessions stays at the first, so that it deletes the same object once more. The queues of
  write messages are dropped.
\<close>

definition AdNetBase_destroy :: "('d, 'z) AdNetBase_scheme \<Rightarrow> ('d, 'z) AdNetBase_scheme net" where
  "AdNetBase_destroy w =
     (let w = w\<lparr>m_mSessionWrite := [], n_event := fold AdEventDel (map fst (m_mSessionRead w)) (n_event w)\<rparr> in
      bind_net (delete_all (map snd (m_mSessionRead w)) w) (\<lambda>w.
      bind_net (case m_mSessionClose w of [] \<Rightarrow> ret_net w | (_, a) # _ \<Rightarrow> delete_all [a, a] w) (\<lambda>w.
        let w = w\<lparr>m_mSessionRead := [], m_mSessionClose := [], m_mSessionCloseTime := [], m_vMsgRead := [], m_vMsgWrite := []\<rparr> in
        bind_net (delete_all (m_ctSessionFree w) w) (\<lambda>w. ret_net (w\<lparr>m_ctSessionFree := []\<rparr>)))))"

text \<open>With a closed session that still waits the destructor never comes to its end.\<close>

lemma delete_twice: "smap_ok (n_heap w) \<Longrightarrow> delete_all [a, a] w \<noteq> ret_net w'"
  by (auto simp: delete_session_def bind_net_def get_session_def bind_cxx_Inr_iff split: option.splits if_splits)

lemma delete_session_heap:
  "smap_ok (n_heap w) \<Longrightarrow> delete_session a w = ret_net w' \<Longrightarrow> smap_ok (n_heap w') \<and> m_mSessionClose w' = m_mSessionClose w"
  by (auto simp: delete_session_def bind_cxx_Inr_iff split: if_splits)

lemma delete_all_heap:
  "smap_ok (n_heap w) \<Longrightarrow> delete_all q w = ret_net w' \<Longrightarrow> smap_ok (n_heap w') \<and> m_mSessionClose w' = m_mSessionClose w"
proof (induction q arbitrary: w)
  case (Cons a q)
  then obtain w1 where w1: "delete_session a w = ret_net w1" "delete_all q w1 = ret_net w'" by (auto simp: bind_net_ret_iff)
  have "smap_ok (n_heap w1)" "m_mSessionClose w1 = m_mSessionClose w" using delete_session_heap [OF Cons.prems(1) w1(1)] by auto
  with Cons.IH [OF _ w1(2)] show ?case by simp
qed simp

lemma destroy_with_closed:
  assumes "smap_ok (n_heap w)" "m_mSessionClose w \<noteq> []"
  shows "AdNetBase_destroy w \<noteq> ret_net w'"
proof
  assume "AdNetBase_destroy w = ret_net w'"
  then obtain w1 w2 where w1: "delete_all (map snd (m_mSessionRead w)) (w\<lparr>m_mSessionWrite := [],
        n_event := fold AdEventDel (map fst (m_mSessionRead w)) (n_event w)\<rparr>) = ret_net w1"
      and w2: "(case m_mSessionClose w1 of [] \<Rightarrow> ret_net w1 | (_, a) # _ \<Rightarrow> delete_all [a, a] w1) = ret_net w2"
    by (auto simp: AdNetBase_destroy_def Let_def bind_net_ret_iff)
  have h: "smap_ok (n_heap w1)" "m_mSessionClose w1 = m_mSessionClose w" using delete_all_heap [OF _ w1] assms(1) by auto
  obtain k a l where "m_mSessionClose w = (k, a) # l" using assms(2) by (cases "m_mSessionClose w") auto
  then have "delete_all [a, a] w1 = ret_net w2" using w2 h(2) by simp
  then show False using delete_twice [OF h(1)] by blast
qed

end
