(* ===== verification/AdNetTask.thy ===== *)
theory AdNetTask
  imports AdNetBase AdUtil StdMap "HOL-Library.List_Lexorder" "HOL-Library.Char_ord"
begin

text \<open>
  The users of the network loop: the threads of \<^verbatim>\<open>libnet/inc/AdNetTask.h\<close>, which take sessions from the queues of messages, the
  server \<^verbatim>\<open>libnet/src/AdServer.cpp\<close> and the client \<^verbatim>\<open>libnet/src/AdClient.cpp\<close>, which connects again when a session is closed.
\<close>

section \<open>The threads\<close>

text \<open>
  An operation of another thread on a session. What it put into the queue of the loop is counted in \<open>m_pMsg\<close>; here it gets into that
  queue, for which the thread may have to wait.
\<close>

definition session_use ::
    "('d AdSession \<Rightarrow> ('r \<times> 'd AdSession) cxx) \<Rightarrow> nat \<Rightarrow> ('d, 'z) AdNetBase_scheme \<Rightarrow> ('r \<times> ('d, 'z) AdNetBase_scheme) net" where
  "session_use f a w =
     bind_cxx (get_session a w) (\<lambda>s.
     bind_cxx (f s) (\<lambda>(r, s).
       let q = m_ctMsgControl w @ replicate (case m_pMsg s of None \<Rightarrow> 0 | Some k \<Rightarrow> k) a in
       if length q < AD_TASK_SESSION_MAX
       then ret_net (r, (put_session a (s\<lparr>m_pMsg := map_option (\<lambda>_. 0) (m_pMsg s)\<rparr>) w)\<lparr>m_ctMsgControl := q\<rparr>)
       else wait_net))"

text \<open>\<open>run\<close> is the virtual \<^verbatim>\<open>Run\<close> of the interface, on the packets that were read.\<close>

fun run_all ::
    "(AdCache option \<Rightarrow> nat \<Rightarrow> ('d, 'z) AdNetBase_scheme \<Rightarrow> ('d, 'z) AdNetBase_scheme net) \<Rightarrow> nat \<Rightarrow> AdCache list \<Rightarrow>
     ('d, 'z) AdNetBase_scheme \<Rightarrow> ('d, 'z) AdNetBase_scheme net" where
  "run_all run a [] w = ret_net w"
| "run_all run a (c # cs) w = (if m_iLen c \<le> 0 then run_all run a cs w else bind_net (run (Some c) a w) (run_all run a cs))"

text \<open>The turns of \<^verbatim>\<open>AdWorkerTask\<close> and of \<^verbatim>\<open>AdWriteTask\<close> on the queue of their number. The second does not make the session idle.\<close>

definition worker_turn ::
    "(AdCache option \<Rightarrow> nat \<Rightarrow> ('d, 'z) AdNetBase_scheme \<Rightarrow> ('d, 'z) AdNetBase_scheme net) \<Rightarrow> (AdCache \<Rightarrow> int cxx) \<Rightarrow> nat \<Rightarrow>
     (string \<times> tcp_read) list \<Rightarrow> ('d, 'z) AdNetBase_scheme \<Rightarrow> ('d, 'z) AdNetBase_scheme net" where
  "worker_turn run plen i evs w =
     (if i < length (m_vMsgRead w) then
        (case m_vMsgRead w ! i of
           [] \<Rightarrow> wait_net
         | a # q \<Rightarrow>
             bind_net (session_use (AdSessionRead (Some plen) evs []) a (w\<lparr>m_vMsgRead := (m_vMsgRead w)[i := q]\<rparr>)) (\<lambda>(ltRead, w).
             bind_net (run_all run a ltRead w) (\<lambda>w.
             bind_net (if ltRead = [] then run None a w else ret_net w) (\<lambda>w.
             bind_net (session_use (\<lambda>s. Inr ((), AdSessionIdle s)) a w) (\<lambda>(_, w). ret_net w)))))
      else Inl OutOfBounds)"

definition write_turn :: "nat \<Rightarrow> tcp_write list \<Rightarrow> int \<Rightarrow> ('d, 'z) AdNetBase_scheme \<Rightarrow> ('d, 'z) AdNetBase_scheme net" where
  "write_turn i evs len w =
     (if i < length (m_vMsgWrite w) then
        (case m_vMsgWrite w ! i of
           [] \<Rightarrow> wait_net
         | a # q \<Rightarrow>
             bind_net (session_use (\<lambda>s. Inr (AdSessionFlush evs len s)) a (w\<lparr>m_vMsgWrite := (m_vMsgWrite w)[i := q]\<rparr>)) (\<lambda>(_, w).
               ret_net w))
      else Inl OutOfBounds)"

section \<open>The server\<close>

text \<open>\<open>tcp\<close> is the listening socket, if \<^verbatim>\<open>TcpServerInit\<close> gets one.\<close>

definition AdServerInit ::
    "('d, 'z) AdNetBase_scheme netenv \<Rightarrow> int option \<Rightarrow> int \<Rightarrow> int \<Rightarrow> ('d, 'z) AdNetBase_scheme \<Rightarrow> int \<times> ('d, 'z) AdNetBase_scheme" where
  "AdServerInit E tcp msgRead msgWrite w =
     (let w = AdNetBaseInit msgRead msgWrite w in
      case tcp of
        None \<Rightarrow> (AD_FAILURE, w)
      | Some sock \<Rightarrow>
          (let (ret, w) = AdNetBaseAddServer E sock w in (if ret \<noteq> AD_SUCCESS then AD_FAILURE else AD_SUCCESS, w)))"

definition server_env :: "(nat \<Rightarrow> bool) \<Rightarrow> 'w netenv" where
  "server_env ev_new = \<lparr>env_new = ev_new, env_reconnect = AdNetBaseSessionReconnect\<rparr>"

section \<open>The client\<close>

text \<open>\<open>c_connects\<close> are the results of the connections to come: the socket, and whether it can be made non-blocking.\<close>

record 'd AdClient = "'d AdNetBase" +
  m_mSession :: "(string \<times> nat) list"
  m_mServer :: "(nat \<times> string) list"
  ctLock :: bool
  c_connects :: "(int \<times> bool) list"

definition client_connect :: "'d AdClient \<Rightarrow> (int \<times> bool) \<times> 'd AdClient" where
  "client_connect c = (case c_connects c of [] \<Rightarrow> ((AD_FAILURE, True), c) | r # rs \<Rightarrow> (r, c\<lparr>c_connects := rs\<rparr>))"

text \<open>\<open>pPreSend\<close> is the function of the constructor. The lock is not recursive: a thread that holds it waits for ever.\<close>

definition AdClientCreateSession ::
    "('d AdSession \<Rightarrow> (int \<times> 'd AdSession) cxx) option \<Rightarrow> string \<Rightarrow> 'd AdClient \<Rightarrow> (int \<times> 'd AdClient) net" where
  "AdClientCreateSession pPreSend sServer c =
     (case StrSplit sServer [] '':'' of
        None \<Rightarrow> wait_net
      | Some vStr \<Rightarrow>
          if length vStr \<noteq> 2 then ret_net (AD_FAILURE, c)
          else
            (let (a, c) = AdNetBaseNewSession c; ((sock, nonblock), c) = client_connect c in
             bind_cxx (get_session a c) (\<lambda>s.
               let (r, s) = AdSessionInit sock nonblock s; c = put_session a s c in
               if r \<le> 0 then bind_net (AdNetBaseDeleteSession a c) (\<lambda>c. ret_net (AD_FAILURE, c))
               else bind_net (AdNetBaseAddClient a c) (\<lambda>(_, c).
                 bind_net (case pPreSend of None \<Rightarrow> ret_net (0, c) | Some f \<Rightarrow> session_use f a c) (\<lambda>(_, c).
                   if ctLock c then wait_net
                   else ret_net (AD_SUCCESS, c\<lparr>m_mSession := smap_upd sServer a (m_mSession c),
                     m_mServer := smap_upd a sServer (m_mServer c)\<rparr>))))))"

definition AdClientSessionReconnect ::
    "('d AdSession \<Rightarrow> (int \<times> 'd AdSession) cxx) option \<Rightarrow> nat \<Rightarrow> 'd AdClient \<Rightarrow> 'd AdClient net" where
  "AdClientSessionReconnect pPreSend a c =
     (if ctLock c then wait_net
      else
        (case map_of (m_mServer c) a of
           None \<Rightarrow> ret_net c
         | Some sServer \<Rightarrow>
             bind_net (AdClientCreateSession pPreSend sServer (c\<lparr>ctLock := True\<rparr>)) (\<lambda>(ret, c).
               let c = (if ret \<noteq> AD_SUCCESS
                 then c\<lparr>m_mSession := smap_erase sServer (m_mSession c), m_mServer := smap_erase a (m_mServer c)\<rparr> else c)
               in ret_net (c\<lparr>ctLock := False\<rparr>))))"

definition client_env :: "(nat \<Rightarrow> bool) \<Rightarrow> ('d AdSession \<Rightarrow> (int \<times> 'd AdSession) cxx) option \<Rightarrow> 'd AdClient netenv" where
  "client_env ev_new pPreSend = \<lparr>env_new = ev_new, env_reconnect = AdClientSessionReconnect pPreSend\<rparr>"

fun create_all ::
    "('d AdSession \<Rightarrow> (int \<times> 'd AdSession) cxx) option \<Rightarrow> string list \<Rightarrow> 'd AdClient \<Rightarrow> 'd AdClient net" where
  "create_all pPreSend [] c = ret_net c"
| "create_all pPreSend (s # ss) c = bind_net (AdClientCreateSession pPreSend s c) (\<lambda>(_, c). create_all pPreSend ss c)"

definition AdClientInit ::
    "('d AdSession \<Rightarrow> (int \<times> 'd AdSession) cxx) option \<Rightarrow> string list \<Rightarrow> int \<Rightarrow> int \<Rightarrow> 'd AdClient \<Rightarrow> 'd AdClient net" where
  "AdClientInit pPreSend ltServer msgRead msgWrite c = create_all pPreSend ltServer (AdNetBaseInit msgRead msgWrite c)"

text \<open>The session is closed, but the loop is not told.\<close>

definition AdClientDelSession :: "string \<Rightarrow> 'd AdClient \<Rightarrow> 'd AdClient net" where
  "AdClientDelSession sServer c =
     (if ctLock c then wait_net
      else
        (case map_of (m_mSession c) sServer of
           None \<Rightarrow> ret_net c
         | Some a \<Rightarrow>
             bind_cxx (get_session a c) (\<lambda>s.
               ret_net ((put_session a (snd (AdSessionClose s)) c)\<lparr>m_mServer := smap_erase a (m_mServer c),
                 m_mSession := smap_erase sServer (m_mSession c)\<rparr>))))"

text \<open>\<^verbatim>\<open>AdBiddingPreSend\<close> of \<^verbatim>\<open>ibidding/src/AdRtbMain.cpp\<close>: the bidder names itself on a new connection.\<close>

definition AdBiddingPreSend :: "tcp_write \<Rightarrow> string \<Rightarrow> 'd AdSession \<Rightarrow> (int \<times> 'd AdSession) cxx" where
  "AdBiddingPreSend ev mem s = (let sBuf = ''IBIDDING(remote)  0x1'' in AdSessionWrite_bytes ev mem sBuf (int (length sBuf)) s)"

end
