(* ===== verification/AdNetCorrect.thy ===== *)
theory AdNetCorrect
  imports AdNetTask
begin

text \<open>
  What holds in every state of the network loop: each session object is at one place, free, new, open or closed, and only open and
  closed ones are used. The places are a function that the lemmas carry along; the locale \<open>reconnecting\<close> is what the loop needs of
  the virtual \<^verbatim>\<open>AdNetBaseSessionReconnect\<close>, interpreted for the server and for the client.
\<close>

section \<open>Places\<close>

text \<open>\<open>InHand\<close> and \<open>InClosing\<close> are places inside an operation: a session that is made, and one that is closed.\<close>

datatype place = NoPlace | InFree | InNew | InRead | InClose | InHand | InClosing

definition busy :: "place \<Rightarrow> bool" where
  "busy p \<longleftrightarrow> p \<noteq> NoPlace \<and> p \<noteq> InFree"

text \<open>The sessions that somebody works with: in the queues of read messages, with a thread (\<open>hold\<close>), in a write message once.\<close>

definition in_use :: "nat list \<Rightarrow> ('d, 'z) AdNetBase_scheme \<Rightarrow> nat list" where
  "in_use hold w = concat (m_vMsgRead w) @ hold @ n_writes w"

definition socket_of :: "('d, 'z) AdNetBase_scheme \<Rightarrow> nat \<Rightarrow> int option" where
  "socket_of w a = map_option m_s_iSocket (map_of (n_heap w) a)"

definition heap_ok :: "nat list \<Rightarrow> (nat \<Rightarrow> place) \<Rightarrow> ('d, 'z) AdNetBase_scheme \<Rightarrow> bool" where
  "heap_ok hold pl w \<longleftrightarrow> smap_ok (n_heap w) \<and>
     (\<forall>a. pl a = NoPlace \<longleftrightarrow> map_of (n_heap w) a = None) \<and>
     (\<forall>a s. map_of (n_heap w) a = Some s \<longrightarrow> a < n_next w \<and> m_uiActive s = of_nat (count_list (in_use hold w) a) \<and>
       (pl a = InClose \<longrightarrow> m_t_iSocket (m_ctTcp s) = AD_FAILURE))"

definition net_maps_ok :: "(nat \<Rightarrow> place) \<Rightarrow> ('d, 'z) AdNetBase_scheme \<Rightarrow> bool" where
  "net_maps_ok pl w \<longleftrightarrow> smap_ok (m_mSessionRead w) \<and> smap_ok (m_mSessionWrite w) \<and> smap_ok (m_mSessionClose w) \<and>
     (\<forall>sock a. map_of (m_mSessionRead w) sock = Some a \<longleftrightarrow> pl a = InRead \<and> socket_of w a = Some sock) \<and>
     (\<forall>sock a. map_of (m_mSessionWrite w) sock = Some a \<longrightarrow> map_of (m_mSessionRead w) sock = Some a) \<and>
     (\<forall>a. map_of (m_mSessionClose w) a \<noteq> None \<longleftrightarrow> pl a = InClose)"

definition queues_ok :: "nat list \<Rightarrow> (nat \<Rightarrow> place) \<Rightarrow> ('d, 'z) AdNetBase_scheme \<Rightarrow> bool" where
  "queues_ok hold pl w \<longleftrightarrow> distinct (m_ctSessionFree w) \<and> distinct (m_ctSessionNew w) \<and>
     (\<forall>a. a \<in> set (m_ctSessionFree w) \<longleftrightarrow> pl a = InFree) \<and> (\<forall>a. a \<in> set (m_ctSessionNew w) \<longleftrightarrow> pl a = InNew) \<and>
     (\<forall>a \<in> set (in_use hold w). pl a = InRead \<or> pl a = InClose \<or> pl a = InClosing) \<and>
     (\<forall>a \<in> set (m_ctMsgControl w). busy (pl a))"

text \<open>Every open socket is watched, and only an open one is watched for writing.\<close>

definition net_watched :: "('d, 'z) AdNetBase_scheme \<Rightarrow> bool" where
  "net_watched w \<longleftrightarrow> event_inv (n_event w) \<and>
     (\<forall>s. map_of (m_mSessionRead w) s \<noteq> None \<longrightarrow> wants_read (AdEventState s (n_event w))) \<and>
     (\<forall>s. wants_write (AdEventState s (n_event w)) \<longrightarrow> map_of (m_mSessionRead w) s \<noteq> None)"

definition net_ok :: "nat list \<Rightarrow> (nat \<Rightarrow> place) \<Rightarrow> ('d, 'z) AdNetBase_scheme \<Rightarrow> bool" where
  "net_ok hold pl w \<longleftrightarrow> heap_ok hold pl w \<and> net_maps_ok pl w \<and> queues_ok hold pl w \<and> net_watched w"

text \<open>The list of the times has the closed sessions, each once.\<close>

definition close_times_ok :: "(nat \<Rightarrow> place) \<Rightarrow> (int \<times> nat) list \<Rightarrow> bool" where
  "close_times_ok pl l \<longleftrightarrow> distinct (map snd l) \<and> (\<forall>a. a \<in> snd ` set l \<longleftrightarrow> pl a = InClose)"

lemmas net_defs = net_ok_def heap_ok_def net_maps_ok_def queues_ok_def net_watched_def in_use_def socket_of_def

lemma set_mmap_insert [simp]: "set (mmap_insert k v m) = insert (k, v) (set m)"
proof (induction m)
  case (Cons e m)
  then show ?case by (cases e) auto
qed simp

lemma distinct_mmap_insert [simp]: "distinct (map snd (mmap_insert k v m)) \<longleftrightarrow> v \<notin> snd ` set m \<and> distinct (map snd m)"
proof (induction m)
  case (Cons e m)
  then show ?case by (cases e) auto
qed simp

text \<open>What of a state the loop leaves alone while sessions only come from and go to the free list.\<close>

definition net_frame :: "('d, 'z) AdNetBase_scheme \<Rightarrow> ('d, 'z) AdNetBase_scheme \<Rightarrow> bool" where
  "net_frame w w' \<longleftrightarrow> m_mSessionRead w' = m_mSessionRead w \<and> m_mSessionWrite w' = m_mSessionWrite w \<and>
     m_mSessionClose w' = m_mSessionClose w \<and> m_mSessionCloseTime w' = m_mSessionCloseTime w \<and>
     m_ctSessionNew w' = m_ctSessionNew w \<and> m_ctMsgControl w' = m_ctMsgControl w \<and> n_event w' = n_event w \<and>
     m_vMsgRead w' = m_vMsgRead w \<and> n_writes w' = n_writes w \<and> m_ctTime w' = m_ctTime w"

definition same_busy :: "(nat \<Rightarrow> place) \<Rightarrow> ('d, 'z) AdNetBase_scheme \<Rightarrow> (nat \<Rightarrow> place) \<Rightarrow> ('d, 'z) AdNetBase_scheme \<Rightarrow> bool" where
  "same_busy pl w pl' w' \<longleftrightarrow>
     (\<forall>b. busy (pl b) \<or> busy (pl' b) \<longrightarrow> pl' b = pl b \<and> map_of (n_heap w') b = map_of (n_heap w) b)"

lemma net_frame_refl [simp]: "net_frame w w" "same_busy pl w pl w"
  by (simp_all add: net_frame_def same_busy_def)

section \<open>Sessions come and go\<close>

lemma heap_okD:
  assumes "heap_ok hold pl w"
  shows "pl a = NoPlace \<longleftrightarrow> map_of (n_heap w) a = None"
    "map_of (n_heap w) a = Some s \<Longrightarrow> a < n_next w \<and> m_uiActive s = of_nat (count_list (in_use hold w) a)"
    "map_of (n_heap w) a = Some s \<Longrightarrow> pl a = InClose \<Longrightarrow> m_t_iSocket (m_ctTcp s) = AD_FAILURE" "smap_ok (n_heap w)"
  using assms by (auto simp: heap_ok_def)

lemma net_maps_okD:
  assumes "net_maps_ok pl w"
  shows "map_of (m_mSessionRead w) sock = Some a \<longleftrightarrow> pl a = InRead \<and> socket_of w a = Some sock"
    "map_of (m_mSessionWrite w) sock = Some a \<Longrightarrow> map_of (m_mSessionRead w) sock = Some a"
    "map_of (m_mSessionClose w) a \<noteq> None \<longleftrightarrow> pl a = InClose"
    "smap_ok (m_mSessionRead w)" "smap_ok (m_mSessionWrite w)" "smap_ok (m_mSessionClose w)"
  using assms by (auto simp: net_maps_ok_def)

lemma queues_okD:
  assumes "queues_ok hold pl w"
  shows "a \<in> set (m_ctSessionFree w) \<longleftrightarrow> pl a = InFree" "a \<in> set (m_ctSessionNew w) \<longleftrightarrow> pl a = InNew"
    "distinct (m_ctSessionFree w)" "distinct (m_ctSessionNew w)"
    "a \<in> set (in_use hold w) \<Longrightarrow> pl a = InRead \<or> pl a = InClose \<or> pl a = InClosing"
    "a \<in> set (m_ctMsgControl w) \<Longrightarrow> busy (pl a)"
  using assms by (auto simp: queues_ok_def)

lemma queues_okI:
  assumes "distinct (m_ctSessionFree w)" "distinct (m_ctSessionNew w)"
    "\<And>a. a \<in> set (m_ctSessionFree w) \<longleftrightarrow> pl a = InFree" "\<And>a. a \<in> set (m_ctSessionNew w) \<longleftrightarrow> pl a = InNew"
    "\<And>a. a \<in> set (in_use hold w) \<Longrightarrow> pl a = InRead \<or> pl a = InClose \<or> pl a = InClosing"
    "\<And>a. a \<in> set (m_ctMsgControl w) \<Longrightarrow> busy (pl a)"
  shows "queues_ok hold pl w"
  using assms by (simp add: queues_ok_def)

text \<open>The four parts see their own fields only.\<close>

lemma net_maps_ok_cong:
  assumes "net_maps_ok pl w" "m_mSessionRead w' = m_mSessionRead w" "m_mSessionWrite w' = m_mSessionWrite w"
    "m_mSessionClose w' = m_mSessionClose w" "\<And>a. pl' a = InRead \<longleftrightarrow> pl a = InRead" "\<And>a. pl' a = InClose \<longleftrightarrow> pl a = InClose"
    "\<And>a. pl a = InRead \<Longrightarrow> socket_of w' a = socket_of w a"
  shows "net_maps_ok pl' w'"
  unfolding net_maps_ok_def assms(2-6) using net_maps_okD [OF assms(1)] assms(7) by metis

lemma heap_ok_cong:
  assumes "heap_ok hold pl w" "n_heap w' = n_heap w" "n_next w' = n_next w" "in_use hold' w' = in_use hold w"
    "\<And>a. pl' a = NoPlace \<longleftrightarrow> pl a = NoPlace" "\<And>a. pl' a = InClose \<longleftrightarrow> pl a = InClose"
  shows "heap_ok hold' pl' w'"
  using assms(1) unfolding heap_ok_def assms(2-6) .

lemma net_watched_cong:
  "net_watched w \<Longrightarrow> n_event w' = n_event w \<Longrightarrow> m_mSessionRead w' = m_mSessionRead w \<Longrightarrow> net_watched w'"
  by (simp add: net_watched_def)

text \<open>A session that nobody uses changes its place.\<close>

definition idle :: "place \<Rightarrow> bool" where
  "idle p \<longleftrightarrow> p = NoPlace \<or> p = InFree \<or> p = InHand"

lemma queues_ok_move:
  assumes "queues_ok hold pl w" "idle (pl a)" "idle p" "m_ctSessionNew w' = m_ctSessionNew w"
    "m_ctMsgControl w' = m_ctMsgControl w" "in_use hold w' = in_use hold w" "distinct (m_ctSessionFree w')"
    "\<And>b. b \<in> set (m_ctSessionFree w') \<longleftrightarrow> (if b = a then p else pl b) = InFree"
    "busy p \<or> a \<notin> set (m_ctMsgControl w)"
  shows "queues_ok hold (pl(a := p)) w'"
proof (rule queues_okI)
  note q = queues_okD [OF assms(1)]
  show "b \<in> set (m_ctSessionNew w') \<longleftrightarrow> (pl(a := p)) b = InNew" for b using q(2) [of b] assms(2-4) by (auto simp: idle_def)
  show "(pl(a := p)) b = InRead \<or> (pl(a := p)) b = InClose \<or> (pl(a := p)) b = InClosing" if "b \<in> set (in_use hold w')" for b
    using q(5) [of b] that assms(2,3,6) by (auto simp: idle_def)
  show "busy ((pl(a := p)) b)" if "b \<in> set (m_ctMsgControl w')" for b
    using q(6) [of b] that assms(5,9) by (auto simp: busy_def)
qed (use assms queues_okD(3,4) [OF assms(1)] in auto)

lemma net_maps_ok_move:
  assumes "net_maps_ok pl w" "idle (pl a)" "idle p" "m_mSessionRead w' = m_mSessionRead w" "m_mSessionWrite w' = m_mSessionWrite w"
    "m_mSessionClose w' = m_mSessionClose w" "\<And>b. b \<noteq> a \<Longrightarrow> map_of (n_heap w') b = map_of (n_heap w) b"
  shows "net_maps_ok (pl(a := p)) w'"
proof (rule net_maps_ok_cong [OF assms(1,4-6)])
  show "socket_of w' b = socket_of w b" if "pl b = InRead" for b
    using that assms(2) assms(7) [of b] by (cases "b = a") (auto simp: socket_of_def idle_def)
qed (use assms(2,3) in \<open>auto simp: idle_def\<close>)

lemma idle_simps [simp]: "idle InHand" "idle InFree" "idle NoPlace" "\<not> busy p \<Longrightarrow> idle p"
  by (auto simp: idle_def busy_def)

lemma NewSession_ok:
  assumes "net_ok hold pl w" "AdNetBaseNewSession w = (a, w')"
  shows "\<not> busy (pl a)" "net_ok hold (pl(a := InHand)) w'" "net_frame w w'" "map_of (n_heap w') a \<noteq> None"
    "b \<noteq> a \<Longrightarrow> map_of (n_heap w') b = map_of (n_heap w) b"
proof -
  have ok: "heap_ok hold pl w" "net_maps_ok pl w" "queues_ok hold pl w" "net_watched w" using assms(1) by (simp_all add: net_ok_def)
  note h = heap_okD [OF ok(1)] and q = queues_okD [OF ok(3)]
  show fr: "net_frame w w'" using assms(2) by (auto simp: AdNetBaseNewSession_def net_frame_def put_session_def split: list.splits)
  show b: "b \<noteq> a \<Longrightarrow> map_of (n_heap w') b = map_of (n_heap w) b" for b
    using assms(2) by (auto simp: AdNetBaseNewSession_def put_session_def split: list.splits)
  have fresh: "map_of (n_heap w) (n_next w) = None" using h(2) [of "n_next w"] by (cases "map_of (n_heap w) (n_next w)") auto
  have pl: "\<not> busy (pl a)"
    using assms(2) fresh h(1) [of a] q(1) [of a] by (auto simp: AdNetBaseNewSession_def busy_def split: list.splits)
  then show "\<not> busy (pl a)" .
  have u: "in_use hold w' = in_use hold w" using fr by (simp add: net_frame_def in_use_def)
  have q': "queues_ok hold (pl(a := InHand)) w'"
  proof (rule queues_ok_move [OF ok(3)])
    show "b \<in> set (m_ctSessionFree w') \<longleftrightarrow> (if b = a then InHand else pl b) = InFree" for b
      using assms(2) q(1) [of b] q(3) pl by (auto simp: AdNetBaseNewSession_def put_session_def busy_def split: list.splits)
    show "distinct (m_ctSessionFree w')" using assms(2) q(3) by (auto simp: AdNetBaseNewSession_def put_session_def split: list.splits)
  qed (use u fr pl in \<open>auto simp: net_frame_def busy_def\<close>)
  have m': "net_maps_ok (pl(a := InHand)) w'"
    using fr pl by (intro net_maps_ok_move [OF ok(2)]) (auto simp: net_frame_def b)
  have w': "net_watched w'" using fr by (intro net_watched_cong [OF ok(4)]) (auto simp: net_frame_def)
  have "map_of (n_heap w') a \<noteq> None \<and> heap_ok hold (pl(a := InHand)) w'"
  proof (cases "m_ctSessionFree w")
    case (Cons c l)
    then have e: "a = c" "w' = w\<lparr>m_ctSessionFree := l\<rparr>" using assms(2) by (auto simp: AdNetBaseNewSession_def)
    have "pl c = InFree" using q(1) [of c] Cons by simp
    moreover from this have "map_of (n_heap w) c \<noteq> None" using h(1) [of c] by auto
    moreover have "heap_ok hold (pl(c := InHand)) w'"
      using \<open>pl c = InFree\<close> e by (intro heap_ok_cong [OF ok(1)]) (auto simp: in_use_def)
    ultimately show ?thesis using e by simp
  next
    case Nil
    then have e: "a = n_next w" "w' = (put_session a (AdSession_new (Some 0)) w)\<lparr>n_next := Suc a\<rparr>"
      using assms(2) by (auto simp: AdNetBaseNewSession_def)
    have "count_list (in_use hold w) a = 0" using pl q(5) [of a] by (auto simp: busy_def count_list_0_iff)
    with ok(1) pl e show ?thesis by (auto simp: heap_ok_def put_session_def in_use_def AdSession_new_def less_Suc_eq busy_def)
  qed
  then show "map_of (n_heap w') a \<noteq> None" "net_ok hold (pl(a := InHand)) w'" using m' q' w' by (simp_all add: net_ok_def)
qed

text \<open>A session in hand goes to the free list, or is deleted when that is full.\<close>

lemma DeleteSession_ok:
  assumes "net_ok hold pl w" "pl a = InHand" "AdNetBaseDeleteSession a w = ret_net w'" "a \<notin> set (m_ctMsgControl w)"
  shows "\<exists>p. (p = InFree \<or> p = NoPlace) \<and> net_ok hold (pl(a := p)) w'" "net_frame w w'"
    "b \<noteq> a \<Longrightarrow> map_of (n_heap w') b = map_of (n_heap w) b"
proof -
  have ok: "heap_ok hold pl w" "net_maps_ok pl w" "queues_ok hold pl w" "net_watched w" using assms(1) by (simp_all add: net_ok_def)
  show fr: "net_frame w w'"
    using assms(3) by (auto simp: AdNetBaseDeleteSession_def net_frame_def bind_cxx_Inr_iff split: prod.splits bool.splits if_splits)
  show b: "b \<noteq> a \<Longrightarrow> map_of (n_heap w') b = map_of (n_heap w) b" for b
    using assms(3) ok(1) by (auto simp: AdNetBaseDeleteSession_def heap_ok_def bind_cxx_Inr_iff split: prod.splits bool.splits if_splits)
  have w': "net_watched w'" using fr by (intro net_watched_cong [OF ok(4)]) (auto simp: net_frame_def)
  have m': "net_maps_ok (pl(a := p)) w'" if "p = InFree \<or> p = NoPlace" for p
    using that assms(2) fr by (intro net_maps_ok_move [OF ok(2)]) (auto simp: net_frame_def b)
  have u: "in_use hold w' = in_use hold w" using fr by (simp add: net_frame_def in_use_def)
  have q': "queues_ok hold (pl(a := p)) w'" if "idle p" "distinct (m_ctSessionFree w')"
      "\<And>b. b \<in> set (m_ctSessionFree w') \<longleftrightarrow> (if b = a then p else pl b) = InFree" for p
    using that fr u assms(2,4) by (intro queues_ok_move [OF ok(3)]) (auto simp: net_frame_def)
  note q = queues_okD [OF ok(3)]
  show "\<exists>p. (p = InFree \<or> p = NoPlace) \<and> net_ok hold (pl(a := p)) w'"
  proof (cases "fst (queue_try_push a (m_ctSessionFree w))")
    case True
    then have e: "w' = w\<lparr>m_ctSessionFree := m_ctSessionFree w @ [a], m_uiDelSession := m_uiDelSession w + 1\<rparr>"
      using assms(3) by (auto simp: AdNetBaseDeleteSession_def queue_try_push_def split: if_splits)
    have "heap_ok hold (pl(a := InFree)) w'" using assms(2) e by (intro heap_ok_cong [OF ok(1)]) (auto simp: in_use_def)
    moreover have "queues_ok hold (pl(a := InFree)) w'" using q(1,3) assms(2) e by (intro q') auto
    ultimately show ?thesis using m' w' by (auto simp: net_ok_def)
  next
    case False
    then have e: "w' = w\<lparr>n_heap := smap_erase a (n_heap w), m_uiDelSession := m_uiDelSession w + 1\<rparr>"
      using assms(3) by (auto simp: AdNetBaseDeleteSession_def queue_try_push_def bind_cxx_Inr_iff split: if_splits)
    have "heap_ok hold (pl(a := NoPlace)) w'" using ok(1) e by (auto simp: heap_ok_def in_use_def)
    moreover have "queues_ok hold (pl(a := NoPlace)) w'" using q(1,3) assms(2) e by (intro q') auto
    ultimately show ?thesis using m' w' by (auto simp: net_ok_def)
  qed
qed

section \<open>Closing and opening\<close>

text \<open>
  What the loop needs of the virtual \<^verbatim>\<open>AdNetBaseSessionReconnect\<close>, when it returns: it takes sessions from the free list and gives
  them back at most, and leaves every other session and map alone.
\<close>

locale reconnecting =
  fixes E :: "('d, 'z) AdNetBase_scheme netenv"
  assumes memory: "env_new E h"
    and reconnect: "net_ok hold pl w \<Longrightarrow> env_reconnect E a w = ret_net w' \<Longrightarrow>
      net_frame w w' \<and> (\<exists>pl'. net_ok hold pl' w' \<and> same_busy pl w pl' w')"
    and reconnect_msgs: "env_reconnect E a w = ret_net w' \<Longrightarrow>
      m_vMsgRead w' = m_vMsgRead w \<and> m_vMsgWrite w' = m_vMsgWrite w \<and> n_writes w' = n_writes w"

text \<open>Closing the connection of a session leaves its socket number, its users and its heap alone.\<close>

lemma AdSessionClose_simps [simp]:
  "m_s_iSocket (snd (AdSessionClose s)) = m_s_iSocket s" "m_uiActive (snd (AdSessionClose s)) = m_uiActive s"
  "m_t_iSocket (m_ctTcp (snd (AdSessionClose s))) = AD_FAILURE" "fst (AdSessionClose s) = AD_SUCCESS \<longleftrightarrow> m_uiActive s = 0"
  by (auto simp: AdSessionClose_def Let_def Disconnect_def)

lemma heap_ok_put:
  assumes "heap_ok hold pl w" "map_of (n_heap w) a = Some s" "m_uiActive s' = m_uiActive s"
    "pl a = InClose \<Longrightarrow> m_t_iSocket (m_ctTcp s') = AD_FAILURE"
  shows "heap_ok hold pl (put_session a s' w)"
  using assms by (auto simp: heap_ok_def put_session_def in_use_def)

lemma socket_of_put: "socket_of (put_session a s w) b = (if b = a then Some (m_s_iSocket s) else socket_of w b)"
  by (simp add: socket_of_def put_session_def)

lemma put_session_simps [simp]:
  "m_mSessionRead (put_session a s w) = m_mSessionRead w" "m_mSessionWrite (put_session a s w) = m_mSessionWrite w"
  "m_mSessionClose (put_session a s w) = m_mSessionClose w" "m_mSessionCloseTime (put_session a s w) = m_mSessionCloseTime w"
  "m_ctSessionNew (put_session a s w) = m_ctSessionNew w" "m_ctSessionFree (put_session a s w) = m_ctSessionFree w"
  "m_ctMsgControl (put_session a s w) = m_ctMsgControl w" "n_event (put_session a s w) = n_event w"
  "m_vMsgRead (put_session a s w) = m_vMsgRead w" "n_writes (put_session a s w) = n_writes w"
  "m_vMsgWrite (put_session a s w) = m_vMsgWrite w" "m_ctTime (put_session a s w) = m_ctTime w" "n_next (put_session a s w) = n_next w"
  "n_heap (put_session a s w) = smap_upd a s (n_heap w)" "m_uiRead (put_session a s w) = m_uiRead w" "m_iServer (put_session a s w) = m_iServer w"
  by (simp_all add: put_session_def)

text \<open>A session with the same socket and the same users is put back.\<close>

lemma net_ok_put:
  assumes "net_ok hold pl w" "map_of (n_heap w) a = Some s" "m_uiActive s' = m_uiActive s" "m_s_iSocket s' = m_s_iSocket s"
    "pl a = InClose \<Longrightarrow> m_t_iSocket (m_ctTcp s') = AD_FAILURE"
  shows "net_ok hold pl (put_session a s' w)"
proof -
  have ok: "heap_ok hold pl w" "net_maps_ok pl w" "queues_ok hold pl w" "net_watched w" using assms(1) by (simp_all add: net_ok_def)
  have "heap_ok hold pl (put_session a s' w)" by (rule heap_ok_put [OF ok(1) assms(2,3,5)])
  moreover have "net_maps_ok pl (put_session a s' w)"
    using assms(2,4) by (intro net_maps_ok_cong [OF ok(2)]) (auto simp: socket_of_def)
  moreover have "queues_ok hold pl (put_session a s' w)" using ok(3) by (simp add: queues_ok_def in_use_def)
  moreover have "net_watched (put_session a s' w)" using ok(4) by (intro net_watched_cong [OF ok(4)]) simp_all
  ultimately show ?thesis by (simp add: net_ok_def)
qed

lemma get_session_Inr: "get_session a w = Inr s \<longleftrightarrow> map_of (n_heap w) a = Some s"
  by (simp add: get_session_def split: option.split)

text \<open>The socket of an open session is taken out of the maps and the events.\<close>

lemma unregister_ok:
  assumes "net_ok hold pl w" "pl a = InRead" "map_of (n_heap w) a = Some s"
    "w' = w\<lparr>n_event := AdEventDel (m_s_iSocket s) (n_event w), m_mSessionWrite := smap_erase (m_s_iSocket s) (m_mSessionWrite w),
      m_mSessionRead := smap_erase (m_s_iSocket s) (m_mSessionRead w)\<rparr>"
  shows "net_ok hold (pl(a := InClosing)) w'"
proof -
  have ok: "heap_ok hold pl w" "net_maps_ok pl w" "queues_ok hold pl w" "net_watched w" using assms(1) by (simp_all add: net_ok_def)
  note m = net_maps_okD [OF ok(2)] and q = queues_okD [OF ok(3)]
  have "heap_ok hold (pl(a := InClosing)) w'"
    using assms(2) by (intro heap_ok_cong [OF ok(1)]) (auto simp: assms(4) in_use_def)
  moreover have "net_maps_ok (pl(a := InClosing)) w'"
  proof -
    have r: "map_of (m_mSessionRead w) (m_s_iSocket s) = Some a" using m(1) assms(2,3) by (simp add: socket_of_def)
    have s: "socket_of w' b = socket_of w b" for b by (simp add: assms(4) socket_of_def)
    have "map_of (m_mSessionRead w') sock = Some b \<longleftrightarrow> (pl(a := InClosing)) b = InRead \<and> socket_of w' b = Some sock" for sock b
      using m(1) [of sock b] m(1) [of "m_s_iSocket s" b] r assms(2,3) s m(4) by (auto simp: assms(4) socket_of_def)
    moreover have "map_of (m_mSessionWrite w') sock = Some b \<Longrightarrow> map_of (m_mSessionRead w') sock = Some b" for sock b
      using m(2) [of sock b] m(4,5) by (auto simp: assms(4) split: if_splits)
    moreover have "map_of (m_mSessionClose w') b \<noteq> None \<longleftrightarrow> (pl(a := InClosing)) b = InClose" for b
      using m(3) [of b] assms(2) by (simp add: assms(4))
    ultimately show ?thesis using m(4-6) by (simp add: net_maps_ok_def assms(4))
  qed
  moreover have "queues_ok hold (pl(a := InClosing)) w'"
  proof (rule queues_okI)
    show "(pl(a := InClosing)) b = InRead \<or> (pl(a := InClosing)) b = InClose \<or> (pl(a := InClosing)) b = InClosing"
      if "b \<in> set (in_use hold w')" for b using q(5) [of b] that by (simp add: assms(4) in_use_def)
    show "busy ((pl(a := InClosing)) b)" if "b \<in> set (m_ctMsgControl w')" for b
      using q(6) [of b] that by (simp add: assms(4) busy_def)
  qed (use q(1-4) assms(2) in \<open>auto simp: assms(4)\<close>)
  moreover have "net_watched w'"
    using ok(4) AdEventDel_good [of "n_event w"] m(4) by (auto simp: net_watched_def assms(4))
  ultimately show ?thesis by (simp add: net_ok_def)
qed

text \<open>The session is now a closed one.\<close>

lemma closed_ok:
  assumes "net_ok hold pl w" "pl a = InClosing" "map_of (n_heap w) a = Some s"
    "w' = (put_session a (snd (AdSessionClose s)) w)\<lparr>m_mSessionClose := smap_upd a a (m_mSessionClose w),
      m_mSessionCloseTime := l, m_uiCloseSession := n\<rparr>"
  shows "net_ok hold (pl(a := InClose)) w'"
proof -
  have ok: "heap_ok hold pl w" "net_maps_ok pl w" "queues_ok hold pl w" "net_watched w" using assms(1) by (simp_all add: net_ok_def)
  note m = net_maps_okD [OF ok(2)] and q = queues_okD [OF ok(3)]
  have "heap_ok hold (pl(a := InClose)) w'"
    using ok(1) assms(2,3) by (auto simp: heap_ok_def in_use_def assms(4))
  moreover have "net_maps_ok (pl(a := InClose)) w'"
  proof -
    have s: "socket_of w' b = socket_of w b" for b using assms(3) by (simp add: assms(4) socket_of_def)
    have "map_of (m_mSessionRead w') sock = Some b \<longleftrightarrow> (pl(a := InClose)) b = InRead \<and> socket_of w' b = Some sock" for sock b
      using m(1) [of sock b] assms(2) unfolding s by (simp add: assms(4))
    moreover have "map_of (m_mSessionClose w') b \<noteq> None \<longleftrightarrow> (pl(a := InClose)) b = InClose" for b
      using m(3) [of b] by (simp add: assms(4))
    ultimately show ?thesis using m(2,4-6) by (simp add: net_maps_ok_def assms(4))
  qed
  moreover have "queues_ok hold (pl(a := InClose)) w'"
  proof (rule queues_okI)
    show "(pl(a := InClose)) b = InRead \<or> (pl(a := InClose)) b = InClose \<or> (pl(a := InClose)) b = InClosing"
      if "b \<in> set (in_use hold w')" for b using q(5) [of b] that by (simp add: assms(4) in_use_def)
    show "busy ((pl(a := InClose)) b)" if "b \<in> set (m_ctMsgControl w')" for b
      using q(6) [of b] that by (simp add: assms(4) busy_def)
  qed (use q(1-4) assms(2) in \<open>auto simp: assms(4)\<close>)
  moreover have "net_watched w'" using ok(4) by (intro net_watched_cong [OF ok(4)]) (simp_all add: assms(4))
  ultimately show ?thesis by (simp add: net_ok_def)
qed

definition rest_same :: "('d, 'z) AdNetBase_scheme \<Rightarrow> ('d, 'z) AdNetBase_scheme \<Rightarrow> bool" where
  "rest_same w w' \<longleftrightarrow> m_ctSessionNew w' = m_ctSessionNew w \<and> m_ctMsgControl w' = m_ctMsgControl w \<and>
     m_vMsgRead w' = m_vMsgRead w \<and> n_writes w' = n_writes w \<and> m_ctTime w' = m_ctTime w"

definition others_same ::
    "nat \<Rightarrow> (nat \<Rightarrow> place) \<Rightarrow> ('d, 'z) AdNetBase_scheme \<Rightarrow> (nat \<Rightarrow> place) \<Rightarrow> ('d, 'z) AdNetBase_scheme \<Rightarrow> bool" where
  "others_same a pl w pl' w' \<longleftrightarrow>
     (\<forall>b. b \<noteq> a \<longrightarrow> busy (pl b) \<or> busy (pl' b) \<longrightarrow> pl' b = pl b \<and> map_of (n_heap w') b = map_of (n_heap w) b)"

lemma close_times_ok_insert:
  assumes "close_times_ok pl l" "pl a \<noteq> InClose" "\<And>b. b \<noteq> a \<Longrightarrow> pl' b = InClose \<longleftrightarrow> pl b = InClose"
  shows "close_times_ok (pl'(a := InClose)) (mmap_insert t a l)"
  using assms by (auto simp: close_times_ok_def)

context reconnecting begin

lemma CloseSession_ok:
  assumes "net_ok hold pl w" "pl a = InRead \<or> pl a = InClose" "close_times_ok pl (m_mSessionCloseTime w)"
    "AdNetBaseCloseSession E a w = ret_net w'"
  shows "\<exists>pl'. net_ok hold pl' w' \<and> close_times_ok pl' (m_mSessionCloseTime w') \<and> pl' a = InClose \<and> others_same a pl w pl' w' \<and> rest_same w w'"
proof (cases "pl a = InClose")
  case True
  then have "map_of (m_mSessionClose w) a \<noteq> None" using assms(1) by (auto simp: net_ok_def dest: net_maps_okD(3))
  then have "w' = w" using assms(4) by (auto simp: AdNetBaseCloseSession_def bind_cxx_Inr_iff)
  then show ?thesis using assms True by (auto simp: others_same_def rest_same_def)
next
  case False
  then have a: "pl a = InRead" using assms(2) by simp
  obtain s where s: "map_of (n_heap w) a = Some s" using assms(4) by (auto simp: AdNetBaseCloseSession_def bind_cxx_Inr_iff get_session_Inr)
  have "net_maps_ok pl w" using assms(1) by (simp add: net_ok_def)
  note m = net_maps_okD [OF this]
  define w1 where w1: "w1 = w\<lparr>n_event := AdEventDel (m_s_iSocket s) (n_event w),
    m_mSessionWrite := smap_erase (m_s_iSocket s) (m_mSessionWrite w), m_mSessionRead := smap_erase (m_s_iSocket s) (m_mSessionRead w)\<rparr>"
  have "map_of (m_mSessionClose w) a = None" "map_of (m_mSessionRead w) (m_s_iSocket s) = Some a"
    using m(3) [of a] m(1) a s by (auto simp: socket_of_def)
  then obtain w2 s2 where w2: "env_reconnect E a w1 = ret_net w2" and s2: "map_of (n_heap w2) a = Some s2"
      and w': "w' = (put_session a (snd (AdSessionClose s2)) w2)\<lparr>m_mSessionClose := smap_upd a a (m_mSessionClose w2),
        m_mSessionCloseTime := mmap_insert (m_ctTime w) a (m_mSessionCloseTime w2), m_uiCloseSession := m_uiCloseSession w2 + 1\<rparr>"
    using assms(4) s by (auto simp: AdNetBaseCloseSession_def bind_cxx_Inr_iff get_session_Inr bind_net_ret_iff w1 Let_def)
  have ok1: "net_ok hold (pl(a := InClosing)) w1" by (rule unregister_ok [OF assms(1) a s w1])
  obtain pl2 where ok2: "net_ok hold pl2 w2" "same_busy (pl(a := InClosing)) w1 pl2 w2" and fr: "net_frame w1 w2"
    using reconnect [OF ok1 w2] by auto
  have a2: "pl2 a = InClosing" using ok2(2) by (auto simp: same_busy_def busy_def)
  have same: "b \<noteq> a \<Longrightarrow> busy (pl b) \<or> busy (pl2 b) \<Longrightarrow> pl2 b = pl b \<and> map_of (n_heap w2) b = map_of (n_heap w) b" for b
    using ok2(2) [unfolded same_busy_def, rule_format, of b] by (auto simp: w1)
  have "net_ok hold (pl2(a := InClose)) w'" by (rule closed_ok [OF ok2(1) a2 s2 w'])
  moreover have "close_times_ok (pl2(a := InClose)) (m_mSessionCloseTime w')"
  proof -
    have "m_mSessionCloseTime w2 = m_mSessionCloseTime w" using fr by (simp add: net_frame_def w1)
    moreover have "pl2 b = InClose \<longleftrightarrow> pl b = InClose" if "b \<noteq> a" for b using same [OF that] by (auto simp: busy_def)
    ultimately show ?thesis using close_times_ok_insert [OF assms(3) False, of pl2] by (simp add: w')
  qed
  moreover have "others_same a pl w (pl2(a := InClose)) w'" using same by (auto simp: others_same_def w')
  moreover have "rest_same w w'" using fr by (simp add: rest_same_def net_frame_def w1 w')
  ultimately show ?thesis by (intro exI [of _ "pl2(a := InClose)"]) simp
qed

text \<open>A session in hand becomes an open one; another with the same socket is closed before.\<close>

lemma AddSession_ok:
  assumes "net_ok hold pl w" "pl a = InHand" "close_times_ok pl (m_mSessionCloseTime w)" "AdNetBaseAddSession E a w = ret_net (ret, w')"
  shows "ret = AD_SUCCESS \<and> (\<exists>pl'. net_ok hold pl' w' \<and> close_times_ok pl' (m_mSessionCloseTime w') \<and> pl' a = InRead \<and>
    (\<forall>b. pl' b = InHand \<longrightarrow> b \<noteq> a \<and> pl b = InHand) \<and> (\<forall>b. pl' b = InClosing \<longrightarrow> pl b = InClosing)) \<and> rest_same w w'"
proof -
  obtain s where s: "map_of (n_heap w) a = Some s" using assms(4) by (auto simp: AdNetBaseAddSession_def bind_cxx_Inr_iff get_session_Inr)
  define sock where sock: "sock = m_s_iSocket s"
  have ok: "heap_ok hold pl w" "net_maps_ok pl w" using assms(1) by (simp_all add: net_ok_def)
  obtain w1 where w1: "(case map_of (m_mSessionRead w) sock of Some b \<Rightarrow> (if a \<noteq> b then AdNetBaseCloseSession E b w else ret_net w)
        | None \<Rightarrow> ret_net w) = ret_net w1"
      and rest: "(let (ret, e) = AdEventAdd (env_new E) sock AD_EVENT_READ 0 (n_event w1); w = w1\<lparr>n_event := e\<rparr> in
         if ret \<noteq> AD_SUCCESS then ret_net (AD_FAILURE, w)
         else ret_net (AD_SUCCESS, w\<lparr>m_mSessionRead := smap_upd sock a (m_mSessionRead w), m_uiAllSession := m_uiAllSession w + 1\<rparr>)) =
        ret_net (ret, w')"
    using assms(4) s unfolding sock by (auto simp: AdNetBaseAddSession_def bind_cxx_Inr_iff get_session_Inr bind_net_ret_iff Let_def)
  have "\<exists>pl1. net_ok hold pl1 w1 \<and> close_times_ok pl1 (m_mSessionCloseTime w1) \<and> map_of (m_mSessionRead w1) sock = None \<and> rest_same w w1 \<and>
      (\<forall>b. pl1 b = InHand \<longleftrightarrow> pl b = InHand) \<and> (\<forall>b. pl1 b = InClosing \<longrightarrow> pl b = InClosing) \<and> map_of (n_heap w1) a = Some s"
  proof (cases "map_of (m_mSessionRead w) sock")
    case None
    then show ?thesis using w1 assms(1,3) s by (auto simp: rest_same_def)
  next
    case (Some b)
    then have b: "pl b = InRead" "socket_of w b = Some sock" using net_maps_okD(1) [OF ok(2)] by auto
    then have "a \<noteq> b" using assms(2) by auto
    then have c: "AdNetBaseCloseSession E b w = ret_net w1" using w1 Some by simp
    obtain pl1 where pl1: "net_ok hold pl1 w1" "close_times_ok pl1 (m_mSessionCloseTime w1)" "pl1 b = InClose" "others_same b pl w pl1 w1" "rest_same w w1"
      using CloseSession_ok [OF assms(1) _ assms(3) c] b(1) by auto
    note o = pl1(4) [unfolded others_same_def, rule_format]
    have m1: "net_maps_ok pl1 w1" using pl1(1) by (simp add: net_ok_def)
    have "map_of (m_mSessionRead w1) sock = None"
    proof (rule ccontr)
      assume "map_of (m_mSessionRead w1) sock \<noteq> None"
      then obtain c where c: "pl1 c = InRead" "socket_of w1 c = Some sock" using net_maps_okD(1) [OF m1] by fastforce
      then have "c \<noteq> b" using pl1(3) by auto
      with o [of c] c have "pl c = InRead" "socket_of w c = Some sock" by (auto simp: busy_def socket_of_def)
      with Some net_maps_okD(1) [OF ok(2)] \<open>c \<noteq> b\<close> show False by (metis option.inject)
    qed
    moreover have "pl1 c = InHand \<longleftrightarrow> pl c = InHand" for c using o [of c] pl1(3) b(1) by (cases "c = b") (auto simp: busy_def)
    moreover have "pl1 c = InClosing \<Longrightarrow> pl c = InClosing" for c using o [of c] pl1(3) by (cases "c = b") (auto simp: busy_def)
    moreover have "map_of (n_heap w1) a = Some s" using o [of a] assms(2) \<open>a \<noteq> b\<close> s by (auto simp: busy_def)
    ultimately show ?thesis using pl1 by blast
  qed
  then obtain pl1 where pl1: "net_ok hold pl1 w1" "close_times_ok pl1 (m_mSessionCloseTime w1)" "map_of (m_mSessionRead w1) sock = None" "rest_same w w1"
      "\<forall>b. pl1 b = InHand \<longleftrightarrow> pl b = InHand" "\<forall>b. pl1 b = InClosing \<longrightarrow> pl b = InClosing" "map_of (n_heap w1) a = Some s" by blast
  have ok1: "heap_ok hold pl1 w1" "net_maps_ok pl1 w1" "queues_ok hold pl1 w1" "net_watched w1" using pl1(1) by (simp_all add: net_ok_def)
  note m = net_maps_okD [OF ok1(2)] and q = queues_okD [OF ok1(3)]
  have a1: "pl1 a = InHand" using pl1(5) assms(2) by simp
  have nw: "wants_write (AdEventState sock (n_event w1)) \<Longrightarrow> wants_write AD_EVENT_READ"
    using ok1(4) pl1(3) by (auto simp: net_watched_def)
  obtain e where e: "AdEventAdd (env_new E) sock AD_EVENT_READ 0 (n_event w1) = (AD_SUCCESS, e)" "event_inv e"
      "\<forall>s'. AdEventState s' e = (if s' = sock then AD_EVENT_READ else AdEventState s' (n_event w1))"
    using AdEventAdd_good [of "n_event w1" "env_new E" AD_EVENT_READ sock 0] ok1(4) nw memory by (auto simp: net_watched_def)
  have w': "ret = AD_SUCCESS" "w' = w1\<lparr>n_event := e, m_mSessionRead := smap_upd sock a (m_mSessionRead w1), m_uiAllSession := m_uiAllSession w1 + 1\<rparr>"
    using rest e(1) by auto
  have "heap_ok hold (pl1(a := InRead)) w'" using a1 w' by (intro heap_ok_cong [OF ok1(1)]) (auto simp: in_use_def)
  moreover have "net_maps_ok (pl1(a := InRead)) w'"
  proof -
    have s': "socket_of w' b = socket_of w1 b" for b by (simp add: w' socket_of_def)
    have "map_of (m_mSessionRead w') k = Some b \<longleftrightarrow> (pl1(a := InRead)) b = InRead \<and> socket_of w' b = Some k" for k b
      using m(1) [of k b] m(1) [of sock b] a1 pl1(3,7) unfolding s' by (auto simp: w' socket_of_def sock)
    moreover have "map_of (m_mSessionWrite w') k = Some b \<Longrightarrow> map_of (m_mSessionRead w') k = Some b" for k b
      using m(2) [of k b] pl1(3) by (auto simp: w')
    ultimately show ?thesis using m(3-6) a1 by (auto simp: net_maps_ok_def w')
  qed
  moreover have "queues_ok hold (pl1(a := InRead)) w'"
  proof (rule queues_okI)
    show "(pl1(a := InRead)) b = InRead \<or> (pl1(a := InRead)) b = InClose \<or> (pl1(a := InRead)) b = InClosing"
      if "b \<in> set (in_use hold w')" for b using q(5) [of b] that by (simp add: w' in_use_def)
    show "busy ((pl1(a := InRead)) b)" if "b \<in> set (m_ctMsgControl w')" for b using q(6) [of b] that by (simp add: w' busy_def)
  qed (use q(1-4) a1 in \<open>auto simp: w'\<close>)
  moreover have "net_watched w'" using ok1(4) e(2,3) by (auto simp: net_watched_def w')
  ultimately have "net_ok hold (pl1(a := InRead)) w'" by (simp add: net_ok_def)
  moreover have "close_times_ok (pl1(a := InRead)) (m_mSessionCloseTime w')" using pl1(2) a1 by (auto simp: close_times_ok_def w')
  moreover have "rest_same w w'" using pl1(4) by (simp add: rest_same_def w')
  ultimately show ?thesis using w'(1) pl1(5,6) by (intro conjI exI [of _ "pl1(a := InRead)"]) auto
qed

end

section \<open>One new session\<close>

text \<open>The body of the loop over the new sessions.\<close>

definition new_turn ::
    "('d, 'z) AdNetBase_scheme netenv \<Rightarrow> nat \<Rightarrow> ('d, 'z) AdNetBase_scheme \<Rightarrow> ('d, 'z) AdNetBase_scheme net" where
  "new_turn E a w = bind_net (AdNetBaseAddSession E a w) (\<lambda>(ret, w).
     if ret \<noteq> AD_SUCCESS then bind_net (AdNetBaseDeleteSession a w) (env_reconnect E a) else ret_net w)"

lemma bind_net_assoc: "bind_net (bind_net m f) g = bind_net m (\<lambda>x. bind_net (f x) g)"
  by (cases m) (auto simp: bind_net_def split: option.split)

lemma new_loop_turn: "m_ctSessionNew w = a # q \<Longrightarrow>
    new_loop E (Suc n) w = bind_net (new_turn E a (w\<lparr>m_ctSessionNew := q\<rparr>)) (new_loop E n)"
  by (auto simp: new_turn_def bind_net_assoc intro!: arg_cong [where f = "bind_net m" for m] split: prod.split)

lemma new_loop_turn_ret: "new_loop E (Suc n) w = ret_net w' \<Longrightarrow> m_ctSessionNew w = a # q \<Longrightarrow>
    \<exists>w1. new_turn E a (w\<lparr>m_ctSessionNew := q\<rparr>) = ret_net w1 \<and> new_loop E n w1 = ret_net w'"
  by (simp only: new_loop_turn bind_net_ret_iff)

section \<open>The messages are left alone by the loop\<close>

definition same_msgs :: "('d, 'z) AdNetBase_scheme \<Rightarrow> ('d, 'z) AdNetBase_scheme \<Rightarrow> bool" where
  "same_msgs w w' \<longleftrightarrow> m_vMsgRead w' = m_vMsgRead w \<and> m_vMsgWrite w' = m_vMsgWrite w \<and> n_writes w' = n_writes w"

lemma same_msgs_trans [trans]: "same_msgs w w1 \<Longrightarrow> same_msgs w1 w2 \<Longrightarrow> same_msgs w w2"
  by (simp add: same_msgs_def)

lemma same_msgs_refl [simp]: "same_msgs w w"
  by (simp add: same_msgs_def)

lemma in_use_same: "same_msgs w w' \<Longrightarrow> in_use hold w' = in_use hold w"
  by (simp add: same_msgs_def in_use_def)

lemma DeleteSession_msgs: "AdNetBaseDeleteSession a w = ret_net w' \<Longrightarrow> same_msgs w w'"
  by (auto simp: AdNetBaseDeleteSession_def same_msgs_def bind_cxx_Inr_iff split: prod.splits bool.splits if_splits)

lemma NewSession_msgs: "AdNetBaseNewSession w = (a, w') \<Longrightarrow> same_msgs w w'"
  by (auto simp: AdNetBaseNewSession_def same_msgs_def split: list.splits)

lemma write_loop_msgs: "write_loop E l w = ret_net (ret, w') \<Longrightarrow> same_msgs w w'"
proof -
  have "always (write_loop E l w) (\<lambda>r. same_msgs w (snd r))"
  proof (induction l arbitrary: w)
    case (Cons e l)
    obtain sock a where e: "e = (sock, a)" by (cases e)
    have IH: "always (write_loop E l w1) (\<lambda>r. same_msgs w (snd r))" if "same_msgs w w1" for w1
      using that by (intro always_mono [OF Cons.IH]) (auto intro: same_msgs_trans)
    show ?case by (auto simp: e Let_def case_prod_beta same_msgs_def [of w "w\<lparr>n_event := v\<rparr>" for v]
      same_msgs_def [of w "w\<lparr>m_mSessionWrite := v\<rparr>" for v] intro!: IH)
  qed simp
  then show "write_loop E l w = ret_net (ret, w') \<Longrightarrow> same_msgs w w'" by (auto dest: alwaysD)
qed

lemma close_loop_msgs: "close_loop l w = ret_net (l', w') \<Longrightarrow> same_msgs w w'"
proof (induction l arbitrary: w l')
  case (Cons e l)
  obtain t a where e: "e = (t, a)" by (cases e)
  show ?case
  proof (cases "m_ctTime w > t + 1")
    case True
    then obtain s where s: "get_session a w = Inr s"
        and r: "(if fst (AdSessionClose s) = AD_SUCCESS
          then bind_net (AdNetBaseDeleteSession a (put_session a (snd (AdSessionClose s)) w))
            (\<lambda>w. close_loop l (w\<lparr>m_mSessionClose := smap_erase a (m_mSessionClose w)\<rparr>))
          else bind_net (close_loop l (put_session a (snd (AdSessionClose s)) w)) (\<lambda>(l', w). ret_net ((t, a) # l', w))) = ret_net (l', w')"
      using Cons.prems by (auto simp: e bind_cxx_Inr_iff case_prod_beta Let_def)
    show ?thesis
    proof (cases "fst (AdSessionClose s) = AD_SUCCESS")
      case True
      then obtain w1 where w1: "AdNetBaseDeleteSession a (put_session a (snd (AdSessionClose s)) w) = ret_net w1"
          "close_loop l (w1\<lparr>m_mSessionClose := smap_erase a (m_mSessionClose w1)\<rparr>) = ret_net (l', w')"
        using r by (auto simp: bind_net_ret_iff)
      show ?thesis using DeleteSession_msgs [OF w1(1)] Cons.IH [OF w1(2)] by (simp add: same_msgs_def)
    next
      case False
      then obtain l1 where "close_loop l (put_session a (snd (AdSessionClose s)) w) = ret_net (l1, w')"
        using r by (auto simp: bind_net_ret_iff)
      from Cons.IH [OF this] show ?thesis by (simp add: same_msgs_def)
    qed
  next
    case False
    then show ?thesis using Cons.prems by (simp add: e)
  qed
qed simp

context reconnecting begin

lemma reconnect_same: "env_reconnect E a w = ret_net w' \<Longrightarrow> same_msgs w w'"
  using reconnect_msgs by (simp add: same_msgs_def)

lemma CloseSession_msgs: "AdNetBaseCloseSession E a w = ret_net w' \<Longrightarrow> same_msgs w w'"
  by (auto simp: AdNetBaseCloseSession_def Let_def bind_cxx_Inr_iff bind_net_ret_iff same_msgs_def dest: reconnect_msgs split: if_splits)

lemma AddSession_msgs: "AdNetBaseAddSession E a w = ret_net (ret, w') \<Longrightarrow> same_msgs w w'"
proof -
  assume "AdNetBaseAddSession E a w = ret_net (ret, w')"
  then obtain sock w1 where w1: "(case map_of (m_mSessionRead w) sock of Some b \<Rightarrow> (if a \<noteq> b then AdNetBaseCloseSession E b w else ret_net w)
        | None \<Rightarrow> ret_net w) = ret_net w1"
      and w': "m_vMsgRead w' = m_vMsgRead w1 \<and> m_vMsgWrite w' = m_vMsgWrite w1 \<and> n_writes w' = n_writes w1"
    by (auto simp: AdNetBaseAddSession_def bind_cxx_Inr_iff bind_net_ret_iff Let_def case_prod_beta split: if_splits)
  have "same_msgs w w1" using w1 by (auto split: option.splits if_splits intro: CloseSession_msgs)
  then show ?thesis using w' by (simp add: same_msgs_def)
qed

lemma new_turn_msgs: "new_turn E a w = ret_net w' \<Longrightarrow> same_msgs w w'"
  by (auto simp: new_turn_def bind_net_ret_iff split: if_splits dest!: AddSession_msgs DeleteSession_msgs reconnect_same
      intro: same_msgs_trans)

lemma new_loop_msgs: "new_loop E n w = ret_net w' \<Longrightarrow> same_msgs w w'"
proof (induction n arbitrary: w)
  case (Suc n)
  show ?case
  proof (cases "m_ctSessionNew w")
    case (Cons a q)
    then obtain w1 where w1: "new_turn E a (w\<lparr>m_ctSessionNew := q\<rparr>) = ret_net w1" "new_loop E n w1 = ret_net w'"
      using new_loop_turn_ret [OF Suc.prems Cons] by blast
    have "same_msgs w w1" using new_turn_msgs [OF w1(1)] by (simp add: same_msgs_def)
    also note Suc.IH [OF w1(2)]
    finally show ?thesis .
  qed (use Suc.prems in simp)
qed simp

lemma control_turn_msgs: "control_turn E a w = ret_net (ret, w') \<Longrightarrow> same_msgs w w'"
proof -
  have "always (control_turn E a w) (\<lambda>r. same_msgs w (snd r))"
    unfolding control_turn_def Let_def case_prod_beta
    by (auto simp: always_def [of "AdNetBaseCloseSession E a w"] same_msgs_def dest: CloseSession_msgs)
  then show "control_turn E a w = ret_net (ret, w') \<Longrightarrow> same_msgs w w'" by (auto dest: alwaysD)
qed

lemma control_loop_Suc:
  "control_loop E (Suc n) w = ret_net (ret, w') \<Longrightarrow>
     m_ctMsgControl w = [] \<and> ret = AD_SUCCESS \<and> w' = w \<or>
     (\<exists>a q r w1. m_ctMsgControl w = a # q \<and> control_turn E a (w\<lparr>m_ctMsgControl := q\<rparr>) = ret_net (r, w1) \<and>
       (if r \<noteq> AD_SUCCESS then ret = AD_FAILURE \<and> w' = w1 else control_loop E n w1 = ret_net (ret, w')))"
  by (cases "m_ctMsgControl w") (auto simp: bind_net_ret_iff split: if_splits)

lemma control_loop_msgs: "control_loop E n w = ret_net (ret, w') \<Longrightarrow> same_msgs w w'"
proof (induction n arbitrary: w)
  case (Suc n)
  from control_loop_Suc [OF Suc.prems] show ?case
  proof (elim disjE exE conjE)
    fix a q r w1
    assume w1: "control_turn E a (w\<lparr>m_ctMsgControl := q\<rparr>) = ret_net (r, w1)"
      and run: "if r \<noteq> AD_SUCCESS then ret = AD_FAILURE \<and> w' = w1 else control_loop E n w1 = ret_net (ret, w')"
    have "same_msgs w w1" using control_turn_msgs [OF w1] by (simp add: same_msgs_def)
    then show ?thesis using run Suc.IH by (auto split: if_splits intro: same_msgs_trans)
  qed simp
qed simp

lemma Loop_msgs: "AdNetBaseLoop E n now w = ret_net (ret, w') \<Longrightarrow> same_msgs w w'"
  by (auto simp: AdNetBaseLoop_def bind_net_ret_iff same_msgs_def
      dest!: new_loop_msgs control_loop_msgs write_loop_msgs close_loop_msgs split: if_splits)

lemma accept_turn_msgs: "accept_turn E sock nb w = ret_net (r, w') \<Longrightarrow> same_msgs w w'"
proof -
  obtain a w1 where n: "AdNetBaseNewSession w = (a, w1)" by fastforce
  have "always (accept_turn E sock nb w) (\<lambda>r. same_msgs w1 (snd r))"
    unfolding accept_turn_def n Let_def case_prod_beta
    by (auto simp: always_def [of "AdNetBaseAddSession E a m" for m] always_def [of "AdNetBaseDeleteSession a m" for m] same_msgs_def
        dest!: AddSession_msgs DeleteSession_msgs)
  then show "accept_turn E sock nb w = ret_net (r, w') \<Longrightarrow> same_msgs w w'"
    using NewSession_msgs [OF n] by (auto dest!: alwaysD intro: same_msgs_trans)
qed

lemma accept_loop_msgs: "accept_loop E l w = ret_net (r, w') \<Longrightarrow> same_msgs w w'"
proof (induction l arbitrary: w)
  case Nil
  then show ?case by (auto simp: bind_net_ret_iff dest: accept_turn_msgs)
next
  case (Cons e l)
  then show ?case
    by (cases e) (auto simp: bind_net_ret_iff split: option.splits dest!: accept_turn_msgs intro: same_msgs_trans)
qed

end

section \<open>The loop keeps the places\<close>

text \<open>Between the operations no session is in hand.\<close>

definition net_inv :: "nat list \<Rightarrow> ('d, 'z) AdNetBase_scheme \<Rightarrow> bool" where
  "net_inv hold w \<longleftrightarrow> (\<exists>pl. net_ok hold pl w \<and> (\<forall>a. pl a \<noteq> InHand \<and> pl a \<noteq> InClosing) \<and> close_times_ok pl (m_mSessionCloseTime w))"

lemma net_ok_parts:
  assumes "net_ok hold pl w"
  shows "heap_ok hold pl w" "net_maps_ok pl w" "queues_ok hold pl w" "net_watched w"
  using assms by (simp_all add: net_ok_def)

lemma net_ok_more [simp]:
  "net_ok hold pl (w\<lparr>m_ctTime := t\<rparr>) = net_ok hold pl w" "net_ok hold pl (w\<lparr>m_mSessionCloseTime := l\<rparr>) = net_ok hold pl w"
  "net_ok hold pl (w\<lparr>m_uiDelSession := n\<rparr>) = net_ok hold pl w"
  by (simp_all add: net_defs)

lemma net_ok_control: "net_ok hold pl w \<Longrightarrow> set q \<subseteq> set (m_ctMsgControl w) \<Longrightarrow> net_ok hold pl (w\<lparr>m_ctMsgControl := q\<rparr>)"
  by (auto simp: net_defs)

text \<open>The next new session is taken into the hand.\<close>

lemma take_new_ok:
  assumes "net_ok hold pl w" "m_ctSessionNew w = a # q"
  shows "net_ok hold (pl(a := InHand)) (w\<lparr>m_ctSessionNew := q\<rparr>)" "pl a = InNew"
proof -
  note ok = net_ok_parts [OF assms(1)]
  note q = queues_okD [OF ok(3)]
  show a: "pl a = InNew" using q(2) [of a] assms(2) by simp
  have "queues_ok hold (pl(a := InHand)) (w\<lparr>m_ctSessionNew := q\<rparr>)"
  proof (rule queues_okI)
    show "b \<in> set (m_ctSessionNew (w\<lparr>m_ctSessionNew := q\<rparr>)) \<longleftrightarrow> (pl(a := InHand)) b = InNew" for b
      using q(2) [of b] q(4) assms(2) by auto
    show "(pl(a := InHand)) b = InRead \<or> (pl(a := InHand)) b = InClose \<or> (pl(a := InHand)) b = InClosing"
      if "b \<in> set (in_use hold (w\<lparr>m_ctSessionNew := q\<rparr>))" for b using q(5) [of b] a that by (auto simp: in_use_def)
    show "busy ((pl(a := InHand)) b)" if "b \<in> set (m_ctMsgControl (w\<lparr>m_ctSessionNew := q\<rparr>))" for b
      using q(6) [of b] that by (auto simp: busy_def)
  qed (use q(1,3,4) a assms(2) in auto)
  moreover have "heap_ok hold (pl(a := InHand)) (w\<lparr>m_ctSessionNew := q\<rparr>)"
    using a by (intro heap_ok_cong [OF ok(1)]) (auto simp: in_use_def)
  moreover have "net_maps_ok (pl(a := InHand)) (w\<lparr>m_ctSessionNew := q\<rparr>)"
    using a by (intro net_maps_ok_cong [OF ok(2)]) (auto simp: socket_of_def)
  moreover have "net_watched (w\<lparr>m_ctSessionNew := q\<rparr>)" by (intro net_watched_cong [OF ok(4)]) simp_all
  ultimately show "net_ok hold (pl(a := InHand)) (w\<lparr>m_ctSessionNew := q\<rparr>)" by (simp add: net_ok_def)
qed

text \<open>A change of the time limit alone.\<close>

lemma AdEventModify_same:
  assumes "event_inv e" "\<forall>h. ev_new h"
  shows "event_inv (snd (AdEventModify ev_new s (AdEventState s e) t e)) \<and>
    (\<forall>s'. (wants_read (AdEventState s' (snd (AdEventModify ev_new s (AdEventState s e) t e))) \<longleftrightarrow> wants_read (AdEventState s' e)) \<and>
      (wants_write (AdEventState s' (snd (AdEventModify ev_new s (AdEventState s e) t e))) \<longleftrightarrow> wants_write (AdEventState s' e)))"
proof (cases "wants_read (AdEventState s e) \<or> wants_write (AdEventState s e)")
  case True
  then show ?thesis using AdEventModify_good [OF assms True, of s t] by (auto split: if_splits)
next
  case False
  let ?e = "e\<lparr>m_mState := smap_insert s 0 (m_mState e)\<rparr>"
  note d = event_inv_default [OF assms(1), where s = s]
  note del = AdEventDel_good [OF d(1), where s = s]
  have a: "AdEventAdd ev_new s (AdEventState s e) t' e' = (AD_FAILURE, e')" for t' e'
    using False by (simp add: AdEventAdd_def wants_none)
  have "snd (AdEventModify ev_new s (AdEventState s e) t e) = ?e \<or> snd (AdEventModify ev_new s (AdEventState s e) t e) = AdEventDel s ?e"
    by (auto simp: AdEventModify_def Let_def a split: option.split)
  then show ?thesis using False d del by (auto split: if_splits)
qed

lemma net_ok_event:
  assumes "net_ok hold pl w" "event_inv e"
    "\<And>s. map_of (m_mSessionRead w) s \<noteq> None \<Longrightarrow> wants_read (AdEventState s e)"
    "\<And>s. wants_write (AdEventState s e) \<Longrightarrow> map_of (m_mSessionRead w) s \<noteq> None"
  shows "net_ok hold pl (w\<lparr>n_event := e\<rparr>)"
  using assms by (auto simp: net_defs)

context reconnecting begin

lemma new_turn_ok:
  assumes "net_inv hold w" "m_ctSessionNew w = a # q" "new_turn E a (w\<lparr>m_ctSessionNew := q\<rparr>) = ret_net w'"
  shows "net_inv hold w'"
proof -
  obtain pl where pl: "net_ok hold pl w" "\<forall>b. pl b \<noteq> InHand \<and> pl b \<noteq> InClosing" "close_times_ok pl (m_mSessionCloseTime w)"
    using assms(1) by (auto simp: net_inv_def)
  obtain ret w1 where w: "AdNetBaseAddSession E a (w\<lparr>m_ctSessionNew := q\<rparr>) = ret_net (ret, w1)"
      "(if ret \<noteq> AD_SUCCESS then bind_net (AdNetBaseDeleteSession a w1) (env_reconnect E a) else ret_net w1) = ret_net w'"
    using assms(3) by (auto simp: new_turn_def bind_net_ret_iff)
  note new = take_new_ok [OF pl(1) assms(2)]
  have "close_times_ok (pl(a := InHand)) (m_mSessionCloseTime (w\<lparr>m_ctSessionNew := q\<rparr>))"
    using pl(3) new(2) by (auto simp: close_times_ok_def)
  from AddSession_ok [OF new(1) _ this w(1)] obtain pl1 where
      pl1: "ret = AD_SUCCESS" "net_ok hold pl1 w1" "close_times_ok pl1 (m_mSessionCloseTime w1)"
      "\<forall>b. pl1 b = InHand \<longrightarrow> b \<noteq> a \<and> (pl(a := InHand)) b = InHand" "\<forall>b. pl1 b = InClosing \<longrightarrow> (pl(a := InHand)) b = InClosing"
    by auto
  have "net_inv hold w1" unfolding net_inv_def
    using pl1(2-5) pl(2) by (intro exI [of _ pl1]) (auto split: if_splits)
  then show ?thesis using w(2) pl1(1) by simp
qed

lemma new_loop_ok:
  assumes "net_inv hold w" "new_loop E n w = ret_net w'"
  shows "net_inv hold w' \<and> m_ctSessionNew w' = []"
  using assms
proof (induction n arbitrary: w)
  case (Suc n)
  show ?case
  proof (cases "m_ctSessionNew w")
    case (Cons a q)
    then obtain w1 where w1: "new_turn E a (w\<lparr>m_ctSessionNew := q\<rparr>) = ret_net w1" "new_loop E n w1 = ret_net w'"
      using new_loop_turn_ret [OF Suc.prems(2) Cons] by blast
    show ?thesis by (rule Suc.IH [OF new_turn_ok [OF Suc.prems(1) Cons w1(1)] w1(2)])
  qed (use Suc.prems in simp)
qed simp

lemma control_turn_ok:
  assumes "net_inv hold w" "a \<notin> set (m_ctSessionNew w)" "a \<in> set (m_ctMsgControl w)" "set q \<subseteq> set (m_ctMsgControl w)"
    "control_turn E a (w\<lparr>m_ctMsgControl := q\<rparr>) = ret_net (ret, w')"
  shows "net_inv hold w' \<and> m_ctSessionNew w' = m_ctSessionNew w \<and> m_ctMsgControl w' = q"
proof -
  let ?w = "w\<lparr>m_ctMsgControl := q\<rparr>"
  obtain pl where pl: "net_ok hold pl w" "\<forall>b. pl b \<noteq> InHand \<and> pl b \<noteq> InClosing" "close_times_ok pl (m_mSessionCloseTime w)"
    using assms(1) by (auto simp: net_inv_def)
  have ok0: "net_ok hold pl ?w" using net_ok_control [OF pl(1) assms(4)] .
  have a: "pl a = InRead \<or> pl a = InClose"
    using queues_okD(6) [OF net_ok_parts(3) [OF pl(1)] assms(3)] queues_okD(2) [OF net_ok_parts(3) [OF pl(1)], of a] assms(2) pl(2)
    by (cases "pl a") (auto simp: busy_def)
  obtain s where s: "map_of (n_heap w) a = Some s"
    using assms(5) by (auto simp: control_turn_def bind_cxx_Inr_iff get_session_Inr)
  have g: "get_session a ?w = Inr s" using s by (simp add: get_session_Inr)
  obtain w1 where w1: "(if \<not> AdSessionOk s then AdNetBaseCloseSession E a ?w
        else if map_of (m_mSessionRead ?w) (m_s_iSocket s) \<noteq> None
        then ret_net (?w\<lparr>m_mSessionWrite := smap_upd (m_s_iSocket s) a (m_mSessionWrite ?w)\<rparr>) else ret_net ?w) = ret_net w1"
      and r1: "bind_cxx (get_session a w1) (\<lambda>s1. let (ret, s1) = AdSessionGetTimeout s1; w = put_session a s1 w1; sock = m_s_iSocket s1 in
        if ret \<ge> 0 then
          (let (ret, e) = AdEventModify (env_new E) sock (AdEventState sock (n_event w)) (of_int ret) (n_event w);
               w = w\<lparr>n_event := e\<rparr>
           in ret_net (if ret \<noteq> AD_SUCCESS then AD_FAILURE else AD_SUCCESS, w))
        else ret_net (AD_SUCCESS, w)) = ret_net (ret, w')"
    using assms(5) unfolding control_turn_def g bind_cxx.simps bind_net_ret_iff by blast
  obtain s1 where s1: "map_of (n_heap w1) a = Some s1"
      and w': "n_event w' = n_event w1 \<and> w' = put_session a (snd (AdSessionGetTimeout s1)) w1 \<or>
        (\<exists>sock t. w' = (put_session a (snd (AdSessionGetTimeout s1)) w1)\<lparr>n_event := snd (AdEventModify (env_new E) sock
          (AdEventState sock (n_event w1)) t (n_event w1))\<rparr>)"
    using r1 by (auto simp: bind_cxx_Inr_iff get_session_Inr Let_def case_prod_beta split: if_splits)
  have "\<exists>pl1. net_ok hold pl1 w1 \<and> (\<forall>b. pl1 b \<noteq> InHand \<and> pl1 b \<noteq> InClosing) \<and> close_times_ok pl1 (m_mSessionCloseTime w1) \<and>
      m_ctSessionNew w1 = m_ctSessionNew w \<and> m_ctMsgControl w1 = q"
  proof (cases "AdSessionOk s")
    case False
    then have c: "AdNetBaseCloseSession E a ?w = ret_net w1" using w1 by simp
    obtain pl1 where pl1: "net_ok hold pl1 w1" "close_times_ok pl1 (m_mSessionCloseTime w1)" "pl1 a = InClose" "others_same a pl ?w pl1 w1"
        "rest_same ?w w1"
      using CloseSession_ok [OF ok0 a _ c] pl(3) by auto
    have "pl1 b \<noteq> InHand \<and> pl1 b \<noteq> InClosing" for b
      using pl1(4) [unfolded others_same_def, rule_format, of b] pl(2) [rule_format, of b] pl1(3) by (cases "b = a") (auto simp: busy_def)
    then show ?thesis using pl1(1,2,5) assms(2) by (intro exI [of _ pl1]) (simp add: rest_same_def)
  next
    case True
    then have opened: "m_s_iSocket s = m_t_iSocket (m_ctTcp s)" "m_s_iSocket s \<noteq> AD_FAILURE" by (auto simp: AdSessionOk_def)
    have "pl a \<noteq> InClose" using heap_okD(3) [OF net_ok_parts(1) [OF pl(1)] s] opened by auto
    with a have "pl a = InRead" by simp
    then have r: "map_of (m_mSessionRead w) (m_s_iSocket s) = Some a"
      using net_maps_okD(1) [OF net_ok_parts(2) [OF pl(1)]] s by (simp add: socket_of_def)
    then have "w1 = ?w\<lparr>m_mSessionWrite := smap_upd (m_s_iSocket s) a (m_mSessionWrite ?w)\<rparr>" using w1 True by simp
    moreover have "net_ok hold pl (?w\<lparr>m_mSessionWrite := smap_upd (m_s_iSocket s) a (m_mSessionWrite ?w)\<rparr>)"
      using ok0 r by (auto simp: net_defs)
    ultimately show ?thesis using pl(2,3) assms(2) by (intro exI [of _ pl]) simp
  qed
  then obtain pl1 where pl1: "net_ok hold pl1 w1" "\<forall>b. pl1 b \<noteq> InHand \<and> pl1 b \<noteq> InClosing" "close_times_ok pl1 (m_mSessionCloseTime w1)"
      "m_ctSessionNew w1 = m_ctSessionNew w" "m_ctMsgControl w1 = q" by blast
  have put: "net_ok hold pl1 (put_session a (snd (AdSessionGetTimeout s1)) w1)"
    using heap_okD(3) [OF net_ok_parts(1) [OF pl1(1)] s1] by (intro net_ok_put [OF pl1(1) s1]) (auto simp: AdSessionGetTimeout_def)
  have "net_ok hold pl1 w'"
    using w'
  proof
    assume "\<exists>sock t. w' = (put_session a (snd (AdSessionGetTimeout s1)) w1)\<lparr>n_event := snd (AdEventModify (env_new E) sock
          (AdEventState sock (n_event w1)) t (n_event w1))\<rparr>"
    then obtain sock t where e: "w' = (put_session a (snd (AdSessionGetTimeout s1)) w1)\<lparr>n_event := snd (AdEventModify (env_new E) sock
          (AdEventState sock (n_event w1)) t (n_event w1))\<rparr>" by blast
    have w: "net_watched w1" using pl1(1) by (rule net_ok_parts)
    then show ?thesis unfolding e
      using AdEventModify_same [of "n_event w1" "env_new E" sock t] memory
      by (intro net_ok_event [OF put]) (auto simp: net_watched_def)
  qed (use put in simp)
  moreover have "close_times_ok pl1 (m_mSessionCloseTime w')" "m_ctSessionNew w' = m_ctSessionNew w" "m_ctMsgControl w' = q" using w' pl1(3-5) by auto
  ultimately show ?thesis unfolding net_inv_def using pl1(2) by (intro conjI exI [of _ pl1]) simp_all
qed

lemma control_loop_ok:
  assumes "net_inv hold w" "m_ctSessionNew w = []" "control_loop E n w = ret_net (ret, w')"
  shows "net_inv hold w' \<and> (ret = AD_SUCCESS \<longrightarrow> m_ctSessionNew w' = [] \<and> m_ctMsgControl w' = [])"
  using assms
proof (induction n arbitrary: w)
  case (Suc n)
  from control_loop_Suc [OF Suc.prems(3)] show ?case
  proof (elim disjE exE conjE)
    fix a q r w1
    assume q: "m_ctMsgControl w = a # q" and w1: "control_turn E a (w\<lparr>m_ctMsgControl := q\<rparr>) = ret_net (r, w1)"
      and run: "if r \<noteq> AD_SUCCESS then ret = AD_FAILURE \<and> w' = w1 else control_loop E n w1 = ret_net (ret, w')"
    have "net_inv hold w1 \<and> m_ctSessionNew w1 = [] \<and> m_ctMsgControl w1 = q"
      using Suc.prems(1,2) w1 q control_turn_ok [of hold w a q] by auto
    then show ?thesis using run Suc.IH [of w1] by (auto split: if_splits)
  qed (use Suc.prems in simp)
qed simp

lemma write_loop_ok:
  assumes "net_ok hold pl w" "\<And>s a. (s, a) \<in> set l \<Longrightarrow> map_of (m_mSessionRead w) s \<noteq> None" "write_loop E l w = ret_net (ret, w')"
  shows "net_ok hold pl w' \<and> m_mSessionCloseTime w' = m_mSessionCloseTime w \<and> m_ctMsgControl w' = m_ctMsgControl w \<and>
    m_ctSessionNew w' = m_ctSessionNew w"
  using assms
proof (induction l arbitrary: w)
  case (Cons e l)
  obtain sock a where e: "e = (sock, a)" by (cases e)
  have r: "map_of (m_mSessionRead w) sock \<noteq> None" using Cons.prems(2) [of sock a] by (simp add: e)
  have next_ok: ?case if "write_loop E l w1 = ret_net (ret, w')" "net_ok hold pl w1" "m_mSessionRead w1 = m_mSessionRead w"
      "m_mSessionCloseTime w1 = m_mSessionCloseTime w" "m_ctMsgControl w1 = m_ctMsgControl w" "m_ctSessionNew w1 = m_ctSessionNew w" for w1
    using Cons.IH [OF that(2) _ that(1)] Cons.prems(2) that(3-6) by (auto simp: e)
  obtain s where s: "get_session a w = Inr s" using Cons.prems(3) by (auto simp: e bind_cxx_Inr_iff)
  note run = Cons.prems(3) [unfolded e write_loop.simps s bind_cxx.simps]
  show ?case
  proof (cases "AdSessionEmpty s")
    case True
    have "net_ok hold pl (w\<lparr>m_mSessionWrite := smap_erase sock (m_mSessionWrite w)\<rparr>)"
      using Cons.prems(1) by (auto simp: net_defs split: if_splits)
    then show ?thesis using run True by (intro next_ok [of "w\<lparr>m_mSessionWrite := smap_erase sock (m_mSessionWrite w)\<rparr>"]) auto
  next
    case False
    show ?thesis
    proof (cases "AdEventState sock (n_event w) = AD_EVENT_READ OR AD_EVENT_WRITE")
      case True
      then show ?thesis using run False Cons.prems(1) by (intro next_ok [of w]) auto
    next
      case ne: False
      have wa: "net_watched w" using Cons.prems(1) by (rule net_ok_parts)
      then obtain ev where ev: "AdEventModify (env_new E) sock (AD_EVENT_READ OR AD_EVENT_WRITE) 0 (n_event w) = (AD_SUCCESS, ev)"
          "event_inv ev" "\<forall>s'. AdEventState s' ev = (if s' = sock then AD_EVENT_READ OR AD_EVENT_WRITE else AdEventState s' (n_event w))"
        using AdEventModify_good [of "n_event w" "env_new E" "AD_EVENT_READ OR AD_EVENT_WRITE" sock 0] memory by (auto simp: net_watched_def)
      have "net_ok hold pl (w\<lparr>n_event := ev\<rparr>)"
        using ev(2,3) r wa by (intro net_ok_event [OF Cons.prems(1)]) (auto simp: net_watched_def split: if_splits)
      then show ?thesis using run False ne ev(1) by (intro next_ok [of "w\<lparr>n_event := ev\<rparr>"]) auto
    qed
  qed
qed simp

end

text \<open>A closed session that nobody uses any more leaves the map of the closed sessions and goes to the free list.\<close>

lemma DeleteSession_close:
  "AdNetBaseDeleteSession a (w\<lparr>m_mSessionClose := m\<rparr>) =
    bind_net (AdNetBaseDeleteSession a w) (\<lambda>w. ret_net (w\<lparr>m_mSessionClose := m\<rparr>))"
  by (auto simp: AdNetBaseDeleteSession_def get_session_def split: bool.split prod.split option.split)

lemma count_list_le: "count_list xs a \<le> length xs"
  by (induction xs) auto

lemma release_ok:
  assumes "net_ok hold pl w" "pl a = InClose" "map_of (n_heap w) a = Some s" "m_uiActive s = 0"
    "length (in_use hold w) < 2 ^ 32" "a \<notin> set (m_ctMsgControl w)" "AdNetBaseDeleteSession a w = ret_net w1"
    "w' = w1\<lparr>m_mSessionClose := smap_erase a (m_mSessionClose w1)\<rparr>"
  shows "\<exists>p. (p = InFree \<or> p = NoPlace) \<and> net_ok hold (pl(a := p)) w'" "net_frame w (w'\<lparr>m_mSessionClose := m_mSessionClose w\<rparr>)"
proof -
  note ok = net_ok_parts [OF assms(1)]
  note m = net_maps_okD [OF ok(2)] and q = queues_okD [OF ok(3)]
  let ?w = "w\<lparr>m_mSessionClose := smap_erase a (m_mSessionClose w)\<rparr>"
  have "of_nat (count_list (in_use hold w) a) = (0 :: UINT)" using heap_okD(2) [OF ok(1) assms(3)] assms(4) by simp
  moreover have "count_list (in_use hold w) a < 2 ^ 32" using count_list_le [of "in_use hold w" a] assms(5) by simp
  ultimately have "count_list (in_use hold w) a = 0"
    using unat_of_nat [of "count_list (in_use hold w) a", where 'a = 32] by simp
  then have u: "a \<notin> set (in_use hold w)" by (simp add: count_list_0_iff)
  have "heap_ok hold (pl(a := InHand)) ?w"
    using ok(1) assms(3) by (auto simp: heap_ok_def in_use_def)
  moreover have "net_maps_ok (pl(a := InHand)) ?w"
    using ok(2) assms(2) by (auto simp: net_maps_ok_def socket_of_def)
  moreover have "queues_ok hold (pl(a := InHand)) ?w"
  proof (rule queues_okI)
    show "(pl(a := InHand)) b = InRead \<or> (pl(a := InHand)) b = InClose \<or> (pl(a := InHand)) b = InClosing"
      if "b \<in> set (in_use hold ?w)" for b using q(5) [of b] that u by (auto simp: in_use_def)
    show "busy ((pl(a := InHand)) b)" if "b \<in> set (m_ctMsgControl ?w)" for b using q(6) [of b] that by (simp add: busy_def)
  qed (use q(1-4) assms(2) in auto)
  moreover have "net_watched ?w" by (intro net_watched_cong [OF ok(4)]) simp_all
  ultimately have hand: "net_ok hold (pl(a := InHand)) ?w" by (simp add: net_ok_def)
  have fr: "net_frame w w1" using assms(7)
    by (auto simp: AdNetBaseDeleteSession_def net_frame_def bind_cxx_Inr_iff split: prod.splits bool.splits if_splits)
  have del: "AdNetBaseDeleteSession a ?w = ret_net w'"
    using fr by (simp add: DeleteSession_close assms(7,8) net_frame_def)
  show "\<exists>p. (p = InFree \<or> p = NoPlace) \<and> net_ok hold (pl(a := p)) w'"
    using DeleteSession_ok(1) [OF hand _ del] assms(6) by auto
  show "net_frame w (w'\<lparr>m_mSessionClose := m_mSessionClose w\<rparr>)" using fr by (simp add: net_frame_def assms(8))
qed

lemma close_loop_ok:
  assumes "net_ok hold pl w" "distinct (map snd l)" "\<forall>e \<in> set l. pl (snd e) = InClose" "m_ctMsgControl w = []"
    "length (in_use hold w) < 2 ^ 32" "close_loop l w = ret_net (l', w')"
  shows "\<exists>pl'. net_ok hold pl' w' \<and> (\<forall>b. pl' b = (if b \<in> snd ` set l \<and> b \<notin> snd ` set l' then pl' b else pl b)) \<and>
    (\<forall>b. b \<in> snd ` set l \<and> b \<notin> snd ` set l' \<longrightarrow> pl' b = InFree \<or> pl' b = NoPlace) \<and> set l' \<subseteq> set l \<and> distinct (map snd l') \<and>
    m_ctMsgControl w' = [] \<and> m_ctSessionNew w' = m_ctSessionNew w"
  using assms
proof (induction l arbitrary: w pl l')
  case (Cons e l)
  obtain t a where e: "e = (t, a)" by (cases e)
  have a: "pl a = InClose" "a \<notin> snd ` set l" "\<And>t. (t, a) \<notin> set l" using Cons.prems(2,3) by (auto simp: e image_iff)
  show ?case
  proof (cases "m_ctTime w > t + 1")
    case False
    then show ?thesis using Cons.prems by (intro exI [of _ pl]) (auto simp: e)
  next
    case True
    then obtain s where s: "map_of (n_heap w) a = Some s"
        and r: "(if fst (AdSessionClose s) = AD_SUCCESS
          then bind_net (AdNetBaseDeleteSession a (put_session a (snd (AdSessionClose s)) w))
            (\<lambda>w. close_loop l (w\<lparr>m_mSessionClose := smap_erase a (m_mSessionClose w)\<rparr>))
          else bind_net (close_loop l (put_session a (snd (AdSessionClose s)) w)) (\<lambda>(l', w). ret_net ((t, a) # l', w))) = ret_net (l', w')"
      using Cons.prems by (auto simp: e bind_cxx_Inr_iff case_prod_beta Let_def get_session_Inr)
    let ?w = "put_session a (snd (AdSessionClose s)) w"
    have ok: "net_ok hold pl ?w" using s by (intro net_ok_put [OF Cons.prems(1) s]) simp_all
    have s': "map_of (n_heap ?w) a = Some (snd (AdSessionClose s))" by simp
    have u: "in_use hold ?w = in_use hold w" by (simp add: in_use_def)
    show ?thesis
    proof (cases "fst (AdSessionClose s) = AD_SUCCESS")
      case True
      then obtain w1 where w1: "AdNetBaseDeleteSession a ?w = ret_net w1"
          "close_loop l (w1\<lparr>m_mSessionClose := smap_erase a (m_mSessionClose w1)\<rparr>) = ret_net (l', w')"
        using r by (auto simp: bind_net_ret_iff)
      let ?w1 = "w1\<lparr>m_mSessionClose := smap_erase a (m_mSessionClose w1)\<rparr>"
      have act: "m_uiActive (snd (AdSessionClose s)) = 0" using True by simp
      note rel = release_ok [OF ok a(1) s' act _ _ w1(1) refl]
      have lu: "length (in_use hold ?w) < 2 ^ 32" using Cons.prems(5) u by simp
      obtain p where p: "p = InFree \<or> p = NoPlace" "net_ok hold (pl(a := p)) ?w1" using rel(1) lu Cons.prems(4) by auto
      have fr: "net_frame ?w (?w1\<lparr>m_mSessionClose := m_mSessionClose ?w\<rparr>)" using rel(2) lu Cons.prems(4) by auto
      have u1: "in_use hold ?w1 = in_use hold w" using fr by (simp add: net_frame_def in_use_def)
      have "\<exists>pl'. net_ok hold pl' w' \<and> (\<forall>b. pl' b = (if b \<in> snd ` set l \<and> b \<notin> snd ` set l' then pl' b else (pl(a := p)) b)) \<and>
          (\<forall>b. b \<in> snd ` set l \<and> b \<notin> snd ` set l' \<longrightarrow> pl' b = InFree \<or> pl' b = NoPlace) \<and> set l' \<subseteq> set l \<and> distinct (map snd l') \<and>
          m_ctMsgControl w' = [] \<and> m_ctSessionNew w' = m_ctSessionNew ?w1"
        using Cons.prems(2-5) a(3) u1 fr by (intro Cons.IH [OF p(2) _ _ _ _ w1(2)]) (auto simp: e net_frame_def)
      then obtain pl' where pl': "net_ok hold pl' w'" "\<And>b. b \<notin> snd ` set l \<or> b \<in> snd ` set l' \<Longrightarrow> pl' b = (pl(a := p)) b"
          "\<And>b. b \<in> snd ` set l \<Longrightarrow> b \<notin> snd ` set l' \<Longrightarrow> pl' b = InFree \<or> pl' b = NoPlace" "set l' \<subseteq> set l" "distinct (map snd l')"
          "m_ctMsgControl w' = []" "m_ctSessionNew w' = m_ctSessionNew ?w1" by (metis (no_types, lifting))
      have "a \<notin> snd ` set l'" using pl'(4) a(2) by auto
      moreover have "m_ctSessionNew w' = m_ctSessionNew w" using pl'(7) fr by (simp add: net_frame_def)
      ultimately show ?thesis
        using pl' a(2) p(1) by (intro exI [of _ pl']) (auto simp: e)
    next
      case False
      then obtain l1 where l1: "close_loop l ?w = ret_net (l1, w')" "l' = (t, a) # l1"
        using r by (auto simp: bind_net_ret_iff)
      have "\<exists>pl'. net_ok hold pl' w' \<and> (\<forall>b. pl' b = (if b \<in> snd ` set l \<and> b \<notin> snd ` set l1 then pl' b else pl b)) \<and>
          (\<forall>b. b \<in> snd ` set l \<and> b \<notin> snd ` set l1 \<longrightarrow> pl' b = InFree \<or> pl' b = NoPlace) \<and> set l1 \<subseteq> set l \<and> distinct (map snd l1) \<and>
          m_ctMsgControl w' = [] \<and> m_ctSessionNew w' = m_ctSessionNew ?w"
        using Cons.prems(2-5) u by (intro Cons.IH [OF ok _ _ _ _ l1(1)]) (auto simp: e)
      then obtain pl' where pl': "net_ok hold pl' w'" "\<And>b. b \<notin> snd ` set l \<or> b \<in> snd ` set l1 \<Longrightarrow> pl' b = pl b"
          "\<And>b. b \<in> snd ` set l \<Longrightarrow> b \<notin> snd ` set l1 \<Longrightarrow> pl' b = InFree \<or> pl' b = NoPlace" "set l1 \<subseteq> set l" "distinct (map snd l1)"
          "m_ctMsgControl w' = []" "m_ctSessionNew w' = m_ctSessionNew ?w" by (metis (no_types, lifting))
      have "a \<notin> snd ` set l1" using pl'(4) a(2) by auto
      then show ?thesis using pl' a by (intro exI [of _ pl']) (auto simp: e l1(2))
    qed
  qed
qed auto

lemma net_ok_put_hand:
  assumes "net_ok hold pl w" "pl a = InHand" "map_of (n_heap w) a = Some s" "m_uiActive s' = m_uiActive s"
  shows "net_ok hold pl (put_session a s' w)"
proof -
  note ok = net_ok_parts [OF assms(1)]
  have "heap_ok hold pl (put_session a s' w)" using assms(2) by (intro heap_ok_put [OF ok(1) assms(3,4)]) simp
  moreover have "net_maps_ok pl (put_session a s' w)"
    using assms(2) by (intro net_maps_ok_cong [OF ok(2)]) (auto simp: socket_of_def)
  moreover have "queues_ok hold pl (put_session a s' w)" using ok(3) by (simp add: queues_ok_def in_use_def)
  moreover have "net_watched (put_session a s' w)" by (intro net_watched_cong [OF ok(4)]) simp_all
  ultimately show ?thesis by (simp add: net_ok_def)
qed

lemma AdSessionInit_active [simp]: "m_uiActive (snd (AdSessionInit sock nb s)) = m_uiActive s"
  by (simp add: AdSessionInit_def Let_def)

lemma net_inv_obtain:
  assumes "net_inv hold w"
  obtains pl where "net_ok hold pl w" "\<And>a. pl a \<noteq> InHand" "\<And>a. pl a \<noteq> InClosing" "close_times_ok pl (m_mSessionCloseTime w)"
  using assms by (auto simp: net_inv_def)

lemma net_invI:
  "net_ok hold pl w \<Longrightarrow> (\<And>a. pl a \<noteq> InHand) \<Longrightarrow> (\<And>a. pl a \<noteq> InClosing) \<Longrightarrow> close_times_ok pl (m_mSessionCloseTime w) \<Longrightarrow> net_inv hold w"
  by (auto simp: net_inv_def)

context reconnecting begin

lemma Loop_ok:
  assumes "net_inv hold w" "length (in_use hold w) < 2 ^ 32" "AdNetBaseLoop E n now w = ret_net (ret, w')"
  shows "net_inv hold w'"
proof -
  obtain w1 r2 w2 where w1: "new_loop E n (w\<lparr>m_ctTime := now\<rparr>) = ret_net w1"
      and w2: "control_loop E n w1 = ret_net (r2, w2)"
      and run: "(if r2 \<noteq> AD_SUCCESS then ret_net (AD_FAILURE, w2)
        else bind_net (write_loop E (m_mSessionWrite w2) w2) (\<lambda>(ret, w).
          if ret \<noteq> AD_SUCCESS then ret_net (AD_FAILURE, w)
          else bind_net (close_loop (m_mSessionCloseTime w) w) (\<lambda>(l, w). ret_net (AD_SUCCESS, w\<lparr>m_mSessionCloseTime := l\<rparr>)))) = ret_net (ret, w')"
    using assms(3) unfolding AdNetBaseLoop_def bind_net_ret_iff by auto
  have "net_inv hold (w\<lparr>m_ctTime := now\<rparr>)" using assms(1) by (simp add: net_inv_def)
  then have i1: "net_inv hold w1" "m_ctSessionNew w1 = []" using new_loop_ok [OF _ w1] by auto
  then have i2: "net_inv hold w2" "r2 = AD_SUCCESS \<Longrightarrow> m_ctMsgControl w2 = []" using control_loop_ok [OF i1 w2] by auto
  have m2: "same_msgs w w2"
    using new_loop_msgs [OF w1] control_loop_msgs [OF w2] by (simp add: same_msgs_def)
  show ?thesis
  proof (cases "r2 = AD_SUCCESS")
    case False
    then show ?thesis using run i2(1) by simp
  next
    case True
    then obtain r3 w3 where w3: "write_loop E (m_mSessionWrite w2) w2 = ret_net (r3, w3)"
        and run3: "(if r3 \<noteq> AD_SUCCESS then ret_net (AD_FAILURE, w3)
          else bind_net (close_loop (m_mSessionCloseTime w3) w3) (\<lambda>(l, w). ret_net (AD_SUCCESS, w\<lparr>m_mSessionCloseTime := l\<rparr>))) = ret_net (ret, w')"
      using run by (auto simp: bind_net_ret_iff)
    obtain pl where pl: "net_ok hold pl w2" "\<And>a. pl a \<noteq> InHand" "\<And>a. pl a \<noteq> InClosing" "close_times_ok pl (m_mSessionCloseTime w2)"
      using i2(1) by (rule net_inv_obtain) blast
    have wr: "map_of (m_mSessionRead w2) s \<noteq> None" if "(s, a) \<in> set (m_mSessionWrite w2)" for s a
      using that net_ok_parts(2) [OF pl(1)] by (auto simp: net_maps_ok_def smap_mem_iff)
    have ok3: "net_ok hold pl w3" "m_mSessionCloseTime w3 = m_mSessionCloseTime w2" "m_ctMsgControl w3 = m_ctMsgControl w2"
      using write_loop_ok [OF pl(1) wr w3] by auto
    show ?thesis
    proof (cases "r3 = AD_SUCCESS")
      case False
      then show ?thesis using run3 ok3 pl(2-4) by (auto intro: net_invI)
    next
      case True
      then obtain l w4 where w4: "close_loop (m_mSessionCloseTime w3) w3 = ret_net (l, w4)" "w' = w4\<lparr>m_mSessionCloseTime := l\<rparr>"
        using run3 by (auto simp: bind_net_ret_iff)
      have len: "length (in_use hold w3) < 2 ^ 32"
        using in_use_same [OF same_msgs_trans [OF m2 write_loop_msgs [OF w3]], of hold] assms(2) by simp
      have ctl: "m_ctMsgControl w3 = []" using ok3(3) i2(2) \<open>r2 = AD_SUCCESS\<close> by simp
      have d: "distinct (map snd (m_mSessionCloseTime w3))" "\<forall>e \<in> set (m_mSessionCloseTime w3). pl (snd e) = InClose"
        using pl(4) ok3(2) by (auto simp: close_times_ok_def)
      obtain pl' where pl': "net_ok hold pl' w4"
          "\<forall>b. pl' b = (if b \<in> snd ` set (m_mSessionCloseTime w3) \<and> b \<notin> snd ` set l then pl' b else pl b)"
          "\<forall>b. b \<in> snd ` set (m_mSessionCloseTime w3) \<and> b \<notin> snd ` set l \<longrightarrow> pl' b = InFree \<or> pl' b = NoPlace"
          "set l \<subseteq> set (m_mSessionCloseTime w3)" "distinct (map snd l)"
        using close_loop_ok [OF ok3(1) d ctl len w4(1)] by auto
      have c: "pl' b = pl b \<or> (b \<in> snd ` set (m_mSessionCloseTime w3) \<and> b \<notin> snd ` set l \<and> (pl' b = InFree \<or> pl' b = NoPlace))" for b
        using pl'(2) [rule_format, of b] pl'(3) by (cases "b \<in> snd ` set (m_mSessionCloseTime w3) \<and> b \<notin> snd ` set l") auto
      show ?thesis
      proof (rule net_invI)
        show "net_ok hold pl' w'" using pl'(1) by (simp add: w4(2))
        show "pl' b \<noteq> InHand" "pl' b \<noteq> InClosing" for b using c [of b] pl(2,3) [of b] by auto
        have "b \<in> snd ` set l \<longleftrightarrow> pl' b = InClose" for b
        proof
          assume b: "b \<in> snd ` set l"
          then have "b \<in> snd ` set (m_mSessionCloseTime w3)" using pl'(4) by auto
          then have "pl b = InClose" using d(2) by auto
          then show "pl' b = InClose" using c [of b] b by auto
        next
          assume b: "pl' b = InClose"
          with c [of b] have "pl b = InClose" by auto
          then have "b \<in> snd ` set (m_mSessionCloseTime w3)" using pl(4) ok3(2) by (auto simp: close_times_ok_def)
          then show "b \<in> snd ` set l" using b pl'(3) by auto
        qed
        then show "close_times_ok pl' (m_mSessionCloseTime w')" using pl'(5) by (simp add: close_times_ok_def w4(2))
      qed
    qed
  qed
qed

lemma accept_turn_ok:
  assumes "net_inv hold w" "accept_turn E sock nb w = ret_net (r, w')"
  shows "net_inv hold w'"
proof -
  obtain pl where pl: "net_ok hold pl w" "\<And>a. pl a \<noteq> InHand" "\<And>a. pl a \<noteq> InClosing" "close_times_ok pl (m_mSessionCloseTime w)"
    using assms(1) by (rule net_inv_obtain) blast
  obtain a w1 where n: "AdNetBaseNewSession w = (a, w1)" by fastforce
  note new = NewSession_ok [OF pl(1) n]
  obtain s where s: "map_of (n_heap w1) a = Some s" using new(4) by auto
  define s2 where "s2 = snd (AdSessionInit sock nb s)"
  define w2 where "w2 = put_session a s2 w1"
  have ok2: "net_ok hold (pl(a := InHand)) w2" unfolding w2_def s2_def by (rule net_ok_put_hand [OF new(2) _ s]) simp_all
  have t2: "close_times_ok (pl(a := InHand)) (m_mSessionCloseTime w2)"
    using pl(4) new(1,3) by (auto simp: close_times_ok_def w2_def net_frame_def busy_def)
  have c2: "a \<notin> set (m_ctMsgControl w2)"
    using queues_okD(6) [OF net_ok_parts(3) [OF pl(1)], of a] new(1,3) by (auto simp: w2_def net_frame_def)
  have run: "(if fst (AdSessionInit sock nb s) \<noteq> AD_FAILURE then
          bind_net (AdNetBaseAddSession E a w2) (\<lambda>(ret, w).
            if ret \<noteq> AD_SUCCESS then bind_net (AdNetBaseDeleteSession a w) (\<lambda>w. ret_net (Some AD_FAILURE, w))
            else ret_net (None, w))
        else
          bind_net (AdNetBaseDeleteSession a (w2\<lparr>m_uiDelSession := m_uiDelSession w2 - 1\<rparr>)) (\<lambda>w. ret_net (Some AD_SUCCESS, w))) = ret_net (r, w')"
  proof -
    obtain k where i: "AdSessionInit sock nb s = (k, s2)" by (cases "AdSessionInit sock nb s") (simp add: s2_def)
    have "get_session a w1 = Inr s" using s by (simp add: get_session_Inr)
    with assms(2) show ?thesis unfolding accept_turn_def n w2_def by (simp add: i Let_def)
  qed
  show ?thesis
  proof (cases "fst (AdSessionInit sock nb s) = AD_FAILURE")
    case True
    then have d: "AdNetBaseDeleteSession a (w2\<lparr>m_uiDelSession := m_uiDelSession w2 - 1\<rparr>) = ret_net w'"
      using run by (auto simp: bind_net_ret_iff)
    have ok2': "net_ok hold (pl(a := InHand)) (w2\<lparr>m_uiDelSession := m_uiDelSession w2 - 1\<rparr>)" using ok2 by simp
    obtain p where p: "p = InFree \<or> p = NoPlace" "net_ok hold (pl(a := InHand, a := p)) w'"
      using DeleteSession_ok(1) [OF ok2' _ d] c2 by auto
    have "net_frame (w2\<lparr>m_uiDelSession := m_uiDelSession w2 - 1\<rparr>) w'" using DeleteSession_ok(2) [OF ok2' _ d] c2 by auto
    then have ct: "m_mSessionCloseTime w' = m_mSessionCloseTime w2" by (simp add: net_frame_def)
    show ?thesis
    proof (rule net_invI)
      show "net_ok hold (pl(a := p)) w'" using p(2) by simp
      show "(pl(a := p)) b \<noteq> InHand" "(pl(a := p)) b \<noteq> InClosing" for b using p(1) pl(2,3) by auto
      show "close_times_ok (pl(a := p)) (m_mSessionCloseTime w')" using t2 p(1) unfolding ct by (auto simp: close_times_ok_def split: if_splits)
    qed
  next
    case False
    then obtain ret w3 where w3: "AdNetBaseAddSession E a w2 = ret_net (ret, w3)"
        and run3: "(if ret \<noteq> AD_SUCCESS then bind_net (AdNetBaseDeleteSession a w3) (\<lambda>w. ret_net (Some AD_FAILURE, w))
          else ret_net (None, w3)) = ret_net (r, w')"
      using run by (auto simp: bind_net_ret_iff)
    obtain pl' where pl': "ret = AD_SUCCESS" "net_ok hold pl' w3" "close_times_ok pl' (m_mSessionCloseTime w3)"
        "\<forall>b. pl' b = InHand \<longrightarrow> b \<noteq> a \<and> (pl(a := InHand)) b = InHand" "\<forall>b. pl' b = InClosing \<longrightarrow> (pl(a := InHand)) b = InClosing"
      using AddSession_ok [OF ok2 _ t2 w3] by auto
    have "w' = w3" using run3 pl'(1) by simp
    then show ?thesis using pl' pl(2,3) by (intro net_invI [of hold pl']) (auto split: if_splits)
  qed
qed

lemma accept_loop_ok: "net_inv hold w \<Longrightarrow> accept_loop E l w = ret_net (r, w') \<Longrightarrow> net_inv hold w'"
proof (induction l arbitrary: w)
  case Nil
  then show ?case by (auto simp: bind_net_ret_iff dest: accept_turn_ok)
next
  case (Cons e l)
  then show ?case by (cases e) (auto simp: bind_net_ret_iff split: option.splits dest: accept_turn_ok)
qed

end

end
