(* ===== verification/AdNetSessions.thy ===== *)
theory AdNetSessions
  imports AdNetCorrect
begin

text \<open>
  The network loop with its threads: the messages for the threads, the steps of all of them in any order, and what follows for the
  sessions from the invariant of \<open>AdNetCorrect\<close>.
\<close>

section \<open>Messages\<close>

lemma count_list_concat_update:
  "i < length v \<Longrightarrow> count_list (concat (v[i := v ! i @ [a]])) b = count_list (concat v) b + (if b = a then 1 else 0)"
  by (induction v arbitrary: i) (auto split: nat.split simp: less_Suc_eq_0_disj)

lemma set_concat_update: "i < length v \<Longrightarrow> set (concat (v[i := v ! i @ [a]])) = insert a (set (concat v))"
  by (induction v arbitrary: i) (auto split: nat.split simp: less_Suc_eq_0_disj)

lemma length_concat_update: "i < length v \<Longrightarrow> length (concat (v[i := v ! i @ [a]])) = Suc (length (concat v))"
  by (induction v arbitrary: i) (auto split: nat.split simp: less_Suc_eq_0_disj)

lemma queue_try_push_True: "queue_try_push a q = (True, q') \<longleftrightarrow> length q < AD_TASK_SESSION_MAX - 1 \<and> q' = q @ [a]"
  by (auto simp: queue_try_push_def)

lemma push_read_loop_ret:
  "push_read_loop n a i v = ret_net (j, v') \<Longrightarrow> \<exists>k < length v. v' = v[k := v ! k @ [a]] \<and> j = next_queue (of_nat k) v"
proof (induction n a i v rule: push_read_loop.induct)
  case (2 n a i v)
  have i: "unat i < length v" using "2.prems" by (simp split: if_splits)
  show ?case
  proof (cases "length (v ! unat i) < AD_TASK_SESSION_MAX - 1")
    case True
    then have "queue_try_push a (v ! unat i) = (True, v ! unat i @ [a])" by (simp add: queue_try_push_True)
    with "2.prems" i show ?thesis by (auto intro!: exI [of _ "unat i"])
  next
    case False
    then have f: "queue_try_push a (v ! unat i) = (False, v ! unat i)" by (simp add: queue_try_push_def)
    with "2.prems" i have "push_read_loop n a (next_queue i v) v = ret_net (j, v')" by simp
    then show ?thesis by (rule "2.IH" [OF i f [symmetric] refl])
  qed
qed simp

text \<open>One more message for a session that is open or closed.\<close>

lemma more_use_ok:
  assumes "net_ok hold pl w" "pl a = InRead \<or> pl a = InClose" "map_of (n_heap w) a = Some s"
    "n_heap w' = smap_upd a (AdSessionActive s) (n_heap w)" "n_next w' = n_next w" "net_frame w (w'\<lparr>m_vMsgRead := m_vMsgRead w, n_writes := n_writes w\<rparr>)"
    "m_ctSessionFree w' = m_ctSessionFree w"
    "\<And>b. count_list (in_use hold w') b = count_list (in_use hold w) b + (if b = a then 1 else 0)"
  shows "net_ok hold pl w'"
proof -
  note ok = net_ok_parts [OF assms(1)]
  note q = queues_okD [OF ok(3)]
  have fr: "m_mSessionRead w' = m_mSessionRead w" "m_mSessionWrite w' = m_mSessionWrite w" "m_mSessionClose w' = m_mSessionClose w"
      "m_ctSessionNew w' = m_ctSessionNew w" "m_ctMsgControl w' = m_ctMsgControl w" "n_event w' = n_event w"
    using assms(6) by (simp_all add: net_frame_def)
  have mem: "b \<in> set (in_use hold w') \<longleftrightarrow> b = a \<or> b \<in> set (in_use hold w)" for b
    using assms(8) [of b] count_list_0_iff [of "in_use hold w'" b] count_list_0_iff [of "in_use hold w" b] by (auto split: if_splits)
  have "heap_ok hold pl w'"
    using ok(1) assms(2,3,4,5,8) by (auto simp: heap_ok_def AdSessionActive_def)
  moreover have "net_maps_ok pl w'"
    using assms(3,4) fr by (intro net_maps_ok_cong [OF ok(2)]) (auto simp: socket_of_def AdSessionActive_def)
  moreover have "queues_ok hold pl w'"
  proof (rule queues_okI)
    show "pl b = InRead \<or> pl b = InClose \<or> pl b = InClosing" if "b \<in> set (in_use hold w')" for b
      using that mem q(5) [of b] assms(2) by auto
  qed (use q fr assms(7) in auto)
  moreover have "net_watched w'" using fr by (intro net_watched_cong [OF ok(4)])
  ultimately show ?thesis by (simp add: net_ok_def)
qed

lemma msg_types [simp]: "AD_NET_MSG_READ \<noteq> AD_NET_MSG_WRITE" "AD_NET_MSG_WRITE \<noteq> AD_NET_MSG_READ"
  "AD_EVENT_WRITE \<noteq> AD_EVENT_READ" "AD_EVENT_READ \<noteq> AD_EVENT_WRITE" "AD_EVENT_WRITE \<noteq> AD_EVENT_TIMEOUT"
  by (simp_all add: AD_NET_MSG_READ_def AD_NET_MSG_WRITE_def ad_events)

lemma msg_events: "AD_EVENT_READ = AD_NET_MSG_READ" "AD_EVENT_WRITE = AD_NET_MSG_WRITE"
  by (simp_all add: AD_NET_MSG_READ_def AD_NET_MSG_WRITE_def ad_events)

lemma PushMsg_cases:
  assumes "AdNetBasePushMsg a ty w = ret_net w'"
  obtains (rd) s i k where "ty = AD_NET_MSG_READ" "map_of (n_heap w) a = Some s" "k < length (m_vMsgRead w)"
      "w' = (put_session a (AdSessionActive s) w)\<lparr>m_uiRead := i, m_vMsgRead := (m_vMsgRead w)[k := m_vMsgRead w ! k @ [a]]\<rparr>"
    | (wr) s q where "ty = AD_NET_MSG_WRITE" "map_of (n_heap w) a = Some s"
      "w' = (put_session a (AdSessionActive s) w)\<lparr>m_vMsgWrite := q, n_writes := n_writes w @ [a]\<rparr>"
      "set (concat q) = insert a (set (concat (m_vMsgWrite w)))"
    | (none) "ty \<noteq> AD_NET_MSG_READ" "ty \<noteq> AD_NET_MSG_WRITE" "w' = w"
proof -
  consider "ty = AD_NET_MSG_READ" | "ty = AD_NET_MSG_WRITE" | "ty \<noteq> AD_NET_MSG_READ" "ty \<noteq> AD_NET_MSG_WRITE" by blast
  then show thesis
  proof cases
    case 1
    then obtain s i v where r: "map_of (n_heap w) a = Some s"
        "push_read_loop (Suc (length (m_vMsgRead w))) a (m_uiRead w) (m_vMsgRead w) = ret_net (i, v)"
        "w' = (put_session a (AdSessionActive s) w)\<lparr>m_uiRead := i, m_vMsgRead := v\<rparr>"
      using assms by (auto simp: AdNetBasePushMsg_def Let_def bind_cxx_Inr_iff get_session_Inr bind_net_ret_iff
        simp del: push_read_loop.simps)
    from push_read_loop_ret [OF r(2)] rd [OF 1 r(1)] r(3) show thesis by blast
  next
    case 2
    then obtain s k q where r: "map_of (n_heap w) a = Some s" "k < length (m_vMsgWrite w)"
        "queue_try_push a (m_vMsgWrite w ! k) = (True, q)"
        "w' = (put_session a (AdSessionActive s) w)\<lparr>m_vMsgWrite := (m_vMsgWrite w)[k := q], n_writes := n_writes w @ [a]\<rparr>"
      using assms by (auto simp: AdNetBasePushMsg_def Let_def bind_cxx_Inr_iff get_session_Inr split: if_splits prod.splits bool.splits)
    have "q = m_vMsgWrite w ! k @ [a]" using r(3) by (simp add: queue_try_push_True)
    then have "set (concat ((m_vMsgWrite w)[k := q])) = insert a (set (concat (m_vMsgWrite w)))" using set_concat_update [OF r(2)] by simp
    with wr [OF 2 r(1,4)] show thesis by blast
  next
    case 3
    with none assms show thesis by (simp add: AdNetBasePushMsg_def)
  qed
qed

text \<open>The users and the sessions of write messages only get more; \<open>n_writes\<close> has those in the queues.\<close>

definition writes_ok :: "('d, 'z) AdNetBase_scheme \<Rightarrow> bool" where
  "writes_ok w \<longleftrightarrow> set (concat (m_vMsgWrite w)) \<subseteq> set (n_writes w)"

definition grows :: "('d, 'z) AdNetBase_scheme \<Rightarrow> ('d, 'z) AdNetBase_scheme \<Rightarrow> bool" where
  "grows w w' \<longleftrightarrow> (\<forall>hold. length (in_use hold w) \<le> length (in_use hold w')) \<and> set (n_writes w) \<subseteq> set (n_writes w') \<and>
     (writes_ok w \<longrightarrow> writes_ok w')"

lemma grows_trans [trans]: "grows w w1 \<Longrightarrow> grows w1 w2 \<Longrightarrow> grows w w2"
  unfolding grows_def by (meson order_trans)

lemma grows_same: "same_msgs w w' \<Longrightarrow> grows w w'"
  by (simp add: grows_def same_msgs_def in_use_def writes_ok_def)

lemma grows_less: "grows w w' \<Longrightarrow> length (in_use hold w') < n \<Longrightarrow> length (in_use hold w) < n"
  unfolding grows_def by (meson le_less_trans)

lemma PushMsg_grows: "AdNetBasePushMsg a ty w = ret_net w' \<Longrightarrow> grows w w'"
  by (erule PushMsg_cases) (auto simp: grows_def in_use_def length_concat_update writes_ok_def)

lemma PushMsg_ok:
  assumes "net_ok hold pl w" "pl a = InRead \<or> pl a = InClose" "AdNetBasePushMsg a ty w = ret_net w'"
  shows "net_ok hold pl w'"
  using assms(3)
proof (cases rule: PushMsg_cases)
  case (rd s i k)
  show ?thesis
    by (rule more_use_ok [OF assms(1,2) rd(2)]) (simp_all add: rd(3,4) net_frame_def in_use_def count_list_concat_update)
next
  case (wr s q)
  show ?thesis
    by (rule more_use_ok [OF assms(1,2) wr(2)]) (simp_all add: wr(3) net_frame_def in_use_def)
qed (use assms(1) in simp)

lemma PushMsg_same:
  assumes "AdNetBasePushMsg a ty w = ret_net w'"
  shows "m_mSessionCloseTime w' = m_mSessionCloseTime w" "m_mSessionRead w' = m_mSessionRead w" "n_event w' = n_event w"
    "ty = AD_NET_MSG_WRITE \<Longrightarrow> a \<in> set (n_writes w')"
  using assms by (cases rule: PushMsg_cases; auto)+

lemma PushMsg_inv:
  assumes "net_inv hold w" "\<exists>s. map_of (m_mSessionRead w) s = Some a" "AdNetBasePushMsg a ty w = ret_net w'"
  shows "net_inv hold w'"
proof -
  obtain pl where pl: "net_ok hold pl w" "\<And>b. pl b \<noteq> InHand" "\<And>b. pl b \<noteq> InClosing" "close_times_ok pl (m_mSessionCloseTime w)"
    using assms(1) by (rule net_inv_obtain) blast
  have "pl a = InRead" using assms(2) net_maps_okD(1) [OF net_ok_parts(2) [OF pl(1)]] by auto
  with PushMsg_ok [OF pl(1) _ assms(3)] PushMsg_same(1) [OF assms(3)] pl(2-4) show ?thesis by (auto intro: net_invI)
qed

context reconnecting begin

lemma CloseSession_inv:
  assumes "net_inv hold w" "map_of (m_mSessionRead w) s = Some a" "AdNetBaseCloseSession E a w = ret_net w'"
  shows "\<exists>pl. net_ok hold pl w' \<and> (\<forall>b. pl b \<noteq> InHand \<and> pl b \<noteq> InClosing) \<and> close_times_ok pl (m_mSessionCloseTime w') \<and> pl a = InClose"
proof -
  obtain pl where pl: "net_ok hold pl w" "\<And>b. pl b \<noteq> InHand" "\<And>b. pl b \<noteq> InClosing" "close_times_ok pl (m_mSessionCloseTime w)"
    using assms(1) by (rule net_inv_obtain) blast
  have "pl a = InRead" using assms(2) net_maps_okD(1) [OF net_ok_parts(2) [OF pl(1)]] by auto
  then obtain pl' where pl': "net_ok hold pl' w'" "close_times_ok pl' (m_mSessionCloseTime w')" "pl' a = InClose" "others_same a pl w pl' w'"
    using CloseSession_ok [OF pl(1) _ pl(4) assms(3)] by auto
  have "pl' b \<noteq> InHand \<and> pl' b \<noteq> InClosing" for b
    using pl'(4) [unfolded others_same_def, rule_format, of b] pl(2,3) [of b] pl'(3) by (cases "b = a") (auto simp: busy_def)
  then show ?thesis using pl' by auto
qed

lemma message_inv:
  assumes "net_inv hold w" "map_of (m_mSessionRead w) s = Some a" "session_message E a s ty w = ret_net w'"
  shows "net_inv hold w'"
proof -
  consider (push) "AdNetBasePushMsg a AD_EVENT_READ w = ret_net w'"
    | (wr) w1 where "AdNetBasePushMsg a ty w = ret_net w1"
        "w' = w1\<lparr>n_event := snd (AdEventModify (env_new E) s AD_EVENT_READ 0 (n_event w1))\<rparr>"
    | (err) w1 where "AdNetBaseCloseSession E a w = ret_net w1" "AdNetBasePushMsg a AD_EVENT_READ w1 = ret_net w'"
    | (cl) "AdNetBaseCloseSession E a w = ret_net w'"
    using assms(3) by (auto simp: session_message_def bind_net_ret_iff split: if_splits)
  then show ?thesis
  proof cases
    case push
    then show ?thesis using PushMsg_inv assms(1,2) by blast
  next
    case wr
    have i1: "net_inv hold w1" using PushMsg_inv [OF assms(1) _ wr(1)] assms(2) by blast
    obtain pl where pl: "net_ok hold pl w1" "\<And>b. pl b \<noteq> InHand" "\<And>b. pl b \<noteq> InClosing" "close_times_ok pl (m_mSessionCloseTime w1)"
      using i1 by (rule net_inv_obtain) blast
    have wa: "net_watched w1" using pl(1) by (rule net_ok_parts)
    then obtain e where e: "AdEventModify (env_new E) s AD_EVENT_READ 0 (n_event w1) = (AD_SUCCESS, e)" "event_inv e"
        "\<forall>s'. AdEventState s' e = (if s' = s then AD_EVENT_READ else AdEventState s' (n_event w1))"
      using AdEventModify_good [of "n_event w1" "env_new E" AD_EVENT_READ s 0] memory by (auto simp: net_watched_def)
    have "net_ok hold pl w'"
      unfolding wr(2) e(1) snd_conv using e(2,3) wa by (intro net_ok_event [OF pl(1)]) (auto simp: net_watched_def split: if_splits)
    then show ?thesis using pl(2-4) wr(2) by (auto intro: net_invI)
  next
    case err
    obtain pl where pl: "net_ok hold pl w1" "\<forall>b. pl b \<noteq> InHand \<and> pl b \<noteq> InClosing" "close_times_ok pl (m_mSessionCloseTime w1)" "pl a = InClose"
      using CloseSession_inv [OF assms(1,2) err(1)] by auto
    have "net_ok hold pl w'" using PushMsg_ok [OF pl(1) _ err(2)] pl(4) by auto
    then show ?thesis using pl(2,3) PushMsg_same(1) [OF err(2)] by (auto intro: net_invI)
  next
    case cl
    then show ?thesis using CloseSession_inv [OF assms(1,2) cl] by (auto intro: net_invI)
  qed
qed

lemma message_grows: "session_message E a s ty w = ret_net w' \<Longrightarrow> grows w w'"
proof -
  assume r: "session_message E a s ty w = ret_net w'"
  have ev: "grows w (w1\<lparr>n_event := e\<rparr>)" if "grows w w1" for w1 e
    using that by (simp add: grows_def in_use_def writes_ok_def)
  have cl: "AdNetBaseCloseSession E a w = ret_net w1 \<Longrightarrow> grows w w1" for w1 using CloseSession_msgs grows_same by blast
  show "grows w w'" using r
    by (auto simp: session_message_def bind_net_ret_iff split: if_splits intro: ev cl PushMsg_grows grows_trans)
qed

lemma HandleMsg_grows: "AdEventHandleMsg E n now acc s ty w = ret_net (r, w') \<Longrightarrow> grows w w'"
proof -
  have "grows w (w\<lparr>n_event := e\<rparr>)" for e by (simp add: grows_def in_use_def writes_ok_def)
  then show "AdEventHandleMsg E n now acc s ty w = ret_net (r, w') \<Longrightarrow> grows w w'"
    using accept_loop_msgs Loop_msgs message_grows
    by (auto simp: AdEventHandleMsg_def bind_net_ret_iff split: if_splits option.splits) (blast intro: grows_same grows_trans)+
qed

lemma HandleMsg_inv:
  assumes "net_inv hold w" "AdEventHandleMsg E n now acc s ty w = ret_net (r, w')" "length (in_use hold w') < 2 ^ 32"
  shows "net_inv hold w'"
proof (cases "ty = AD_EVENT_READ \<and> s = m_iServer w")
  case True
  then show ?thesis using assms accept_loop_ok by (auto simp: AdEventHandleMsg_def)
next
  case not_server: False
  show ?thesis
  proof (cases "map_of (m_mSessionRead w) s")
    case None
    then have w': "w' = w\<lparr>n_event := AdEventDel s (n_event w)\<rparr>" using assms(2) not_server by (auto simp: AdEventHandleMsg_def)
    obtain pl where pl: "net_ok hold pl w" "\<And>b. pl b \<noteq> InHand" "\<And>b. pl b \<noteq> InClosing" "close_times_ok pl (m_mSessionCloseTime w)"
      using assms(1) by (rule net_inv_obtain) blast
    have wa: "net_watched w" using pl(1) by (rule net_ok_parts)
    have "net_ok hold pl w'" unfolding w' using wa AdEventDel_good [of "n_event w", where s = s] None
      by (intro net_ok_event [OF pl(1)]) (auto simp: net_watched_def split: if_splits)
    then show ?thesis using pl(2-4) w' by (auto intro: net_invI)
  next
    case (Some a)
    then obtain w1 r1 where w1: "session_message E a s ty w = ret_net w1" "AdNetBaseLoop E n now w1 = ret_net (r1, w')"
      using assms(2) not_server by (auto simp: AdEventHandleMsg_def bind_net_ret_iff split: if_splits)
    have "length (in_use hold w1) < 2 ^ 32" using grows_less [OF grows_same [OF Loop_msgs [OF w1(2)]] assms(3)] .
    then show ?thesis using Loop_ok [OF message_inv [OF assms(1) Some w1(1)] _ w1(2)] by blast
  qed
qed

lemma handle_all_grows: "handle_all E n r fd ms w = ret_net w' \<Longrightarrow> grows w w'"
  by (induction ms arbitrary: w) (auto simp: bind_net_ret_iff grows_same dest!: HandleMsg_grows intro: grows_trans)

lemma handle_all_inv:
  "net_inv hold w \<Longrightarrow> handle_all E n r fd ms w = ret_net w' \<Longrightarrow> length (in_use hold w') < 2 ^ 32 \<Longrightarrow> net_inv hold w'"
proof (induction ms arbitrary: w)
  case (Cons m ms)
  then obtain k w1 where w1: "AdEventHandleMsg E n (r_now r) (r_accepts r) fd m w = ret_net (k, w1)" "handle_all E n r fd ms w1 = ret_net w'"
    by (auto simp: bind_net_ret_iff)
  have "net_inv hold w1" by (rule HandleMsg_inv [OF Cons.prems(1) w1(1) grows_less [OF handle_all_grows [OF w1(2)] Cons.prems(3)]])
  then show ?case by (rule Cons.IH [OF _ w1(2) Cons.prems(3)])
qed simp

lemma Wait_grows: "AdEventWait E n rs w = ret_net w' \<Longrightarrow> grows w w'"
  by (induction rs arbitrary: w)
    (auto simp: bind_net_ret_iff grows_same split: option.splits dest!: handle_all_grows intro: grows_trans)

lemma Wait_inv:
  "net_inv hold w \<Longrightarrow> AdEventWait E n rs w = ret_net w' \<Longrightarrow> length (in_use hold w') < 2 ^ 32 \<Longrightarrow> net_inv hold w'"
proof (induction rs arbitrary: w)
  case (Cons r rs)
  then obtain w1 where w1: "(case map_of (ev_base (n_event w)) (r_event r) of None \<Rightarrow> ret_net w
       | Some v \<Rightarrow> handle_all E n r (ev_fd v) (ready_messages r v) w) = ret_net w1" "AdEventWait E n rs w1 = ret_net w'"
    by (auto simp: bind_net_ret_iff)
  have "length (in_use hold w1) < 2 ^ 32" by (rule grows_less [OF Wait_grows [OF w1(2)] Cons.prems(3)])
  then have "net_inv hold w1" using w1(1) Cons.prems(1) handle_all_inv by (auto split: option.splits)
  then show ?case by (rule Cons.IH [OF _ w1(2) Cons.prems(3)])
qed simp

lemma Run_grows: "AdNetBaseRun E n now rs w = ret_net w' \<Longrightarrow> grows w w'"
  by (auto simp: AdNetBaseRun_def bind_net_ret_iff dest!: Loop_msgs Wait_grows intro: grows_trans [OF grows_same])

lemma Run_inv:
  assumes "net_inv hold w" "AdNetBaseRun E n now rs w = ret_net w'" "length (in_use hold w') < 2 ^ 32"
  shows "net_inv hold w'"
proof -
  obtain r w1 where w1: "AdNetBaseLoop E n now w = ret_net (r, w1)" "AdEventWait E n rs w1 = ret_net w'"
    using assms(2) by (auto simp: AdNetBaseRun_def bind_net_ret_iff)
  have "length (in_use hold w1) < 2 ^ 32" by (rule grows_less [OF Wait_grows [OF w1(2)] assms(3)])
  moreover have "length (in_use hold w) < 2 ^ 32" by (rule grows_less [OF Run_grows [OF assms(2)] assms(3)])
  ultimately show ?thesis using Wait_inv [OF Loop_ok [OF assms(1) _ w1(1)] w1(2) assms(3)] by blast
qed

end

section \<open>The server and the client\<close>

interpretation server: reconnecting "server_env (\<lambda>_. True)"
  by unfold_locales (auto simp: server_env_def AdNetBaseSessionReconnect_def)

lemma net_ok_client [simp]:
  "net_ok hold pl (c\<lparr>c_connects := x\<rparr>) = net_ok hold pl c" "net_ok hold pl (c\<lparr>ctLock := b\<rparr>) = net_ok hold pl c"
  "net_ok hold pl (c\<lparr>m_mSession := m\<rparr>) = net_ok hold pl c" "net_ok hold pl (c\<lparr>m_mServer := v\<rparr>) = net_ok hold pl c"
  for c :: "'d AdClient"
  by (simp_all add: net_defs)

lemma client_connect_cases:
  obtains x where "snd (client_connect c) = c\<lparr>c_connects := x\<rparr>"
  by (cases "c_connects c") (auto simp: client_connect_def intro: that [of "[]"])

text \<open>The operations of the loop do not see the fields of the client.\<close>

lemma client_fields:
  fixes c :: "'d AdClient"
  shows "AdNetBaseNewSession c = (a, c1) \<Longrightarrow> ctLock c1 = ctLock c \<and> m_mServer c1 = m_mServer c \<and> m_mSession c1 = m_mSession c"
    "AdNetBaseDeleteSession a c = ret_net c1 \<Longrightarrow> ctLock c1 = ctLock c \<and> m_mServer c1 = m_mServer c \<and> m_mSession c1 = m_mSession c"
    "AdNetBaseAddClient a c = ret_net (k, c1) \<Longrightarrow> ctLock c1 = ctLock c \<and> m_mServer c1 = m_mServer c \<and> m_mSession c1 = m_mSession c"
    "session_use f a c = ret_net (r, c1) \<Longrightarrow> ctLock c1 = ctLock c \<and> m_mServer c1 = m_mServer c \<and> m_mSession c1 = m_mSession c"
  by (auto simp: AdNetBaseNewSession_def AdNetBaseDeleteSession_def AdNetBaseAddClient_def session_use_def put_session_def
      bind_cxx_Inr_iff Let_def split: list.splits prod.splits bool.splits if_splits)

text \<open>What creating a session comes to; the lock is asked for after the session was handed to the loop.\<close>

lemma create_cases:
  fixes c :: "'d AdClient"
  assumes "AdClientCreateSession pre srv c = ret_net (r, c')"
  obtains (bad) "r = AD_FAILURE" "c' = c"
    | (failed) a c1 x s s' where "r = AD_FAILURE" "AdNetBaseNewSession c = (a, c1)" "map_of (n_heap c1) a = Some s"
        "m_uiActive s' = m_uiActive s" "AdNetBaseDeleteSession a (put_session a s' (c1\<lparr>c_connects := x\<rparr>)) = ret_net c'"
    | (made) a c1 x s s' c2 k c3 where "r = AD_SUCCESS" "AdNetBaseNewSession c = (a, c1)" "map_of (n_heap c1) a = Some s"
        "m_uiActive s' = m_uiActive s" "AdNetBaseAddClient a (put_session a s' (c1\<lparr>c_connects := x\<rparr>)) = ret_net (k, c2)"
        "(case pre of None \<Rightarrow> c3 = c2 | Some f \<Rightarrow> \<exists>v. session_use f a c2 = ret_net (v, c3))" "\<not> ctLock c3"
        "c' = c3\<lparr>m_mSession := smap_upd srv a (m_mSession c3), m_mServer := smap_upd a srv (m_mServer c3)\<rparr>"
proof -
  obtain vStr where v: "StrSplit srv [] '':'' = Some vStr" using assms by (auto simp: AdClientCreateSession_def split: option.splits)
  show thesis
  proof (cases "length vStr = 2")
    case False
    then show thesis using assms v bad by (auto simp: AdClientCreateSession_def)
  next
    case True
    obtain a c1 where n: "AdNetBaseNewSession c = (a, c1)" by fastforce
    obtain sock nb c2 where k: "client_connect c1 = ((sock, nb), c2)" by (metis prod.exhaust)
    obtain x where x: "c2 = c1\<lparr>c_connects := x\<rparr>" using client_connect_cases [of c1] k by auto
    have run: "bind_cxx (get_session a c2) (\<lambda>s.
               let (r, s) = AdSessionInit sock nb s; c = put_session a s c2 in
               if r \<le> 0 then bind_net (AdNetBaseDeleteSession a c) (\<lambda>c. ret_net (AD_FAILURE, c))
               else bind_net (AdNetBaseAddClient a c) (\<lambda>(_, c).
                 bind_net (case pre of None \<Rightarrow> ret_net (0, c) | Some f \<Rightarrow> session_use f a c) (\<lambda>(_, c).
                   if ctLock c then wait_net
                   else ret_net (AD_SUCCESS, c\<lparr>m_mSession := smap_upd srv a (m_mSession c),
                     m_mServer := smap_upd a srv (m_mServer c)\<rparr>)))) = ret_net (r, c')"
      using assms True by (simp add: AdClientCreateSession_def v n k Let_def)
    then obtain s where s: "map_of (n_heap c2) a = Some s" by (auto simp: bind_cxx_Inr_iff get_session_Inr)
    obtain i s' where i: "AdSessionInit sock nb s = (i, s')" by fastforce
    have act: "m_uiActive s' = m_uiActive s" using AdSessionInit_active [of sock nb s] i by simp
    have s1: "map_of (n_heap c1) a = Some s" using s by (simp add: x)
    have g: "get_session a c2 = Inr s" using s by (simp add: get_session_Inr)
    note run' = run [unfolded g bind_cxx.simps i Let_def prod.case]
    show thesis
    proof (cases "i \<le> 0")
      case True
      then show thesis using run' by (intro failed [OF _ n s1 act, of x]) (auto simp: bind_net_ret_iff x)
    next
      case False
      then obtain k2 c2' v c3 where ad: "AdNetBaseAddClient a (put_session a s' c2) = ret_net (k2, c2')"
          and pr: "(case pre of None \<Rightarrow> ret_net (0, c2') | Some f \<Rightarrow> session_use f a c2') = ret_net (v, c3)"
          and e: "(if ctLock c3 then wait_net
                   else ret_net (AD_SUCCESS, c3\<lparr>m_mSession := smap_upd srv a (m_mSession c3),
                     m_mServer := smap_upd a srv (m_mServer c3)\<rparr>)) = ret_net (r, c')"
        using run' by (auto simp: bind_net_ret_iff)
      show thesis
      proof (rule made [OF _ n s1 act, of x k2 c2' c3])
        show "AdNetBaseAddClient a (put_session a s' (c1\<lparr>c_connects := x\<rparr>)) = ret_net (k2, c2')" using ad by (simp add: x)
        show "case pre of None \<Rightarrow> c3 = c2' | Some f \<Rightarrow> \<exists>v. session_use f a c2' = ret_net (v, c3)" using pr by (auto split: option.splits)
      qed (use e in \<open>auto split: if_splits\<close>)
    qed
  qed
qed

lemma NewSession_net_frame: "AdNetBaseNewSession w = (a, w') \<Longrightarrow> net_frame w w'"
  by (auto simp: AdNetBaseNewSession_def net_frame_def split: list.splits)

lemma DeleteSession_net_frame: "AdNetBaseDeleteSession a w = ret_net w' \<Longrightarrow> net_frame w w'"
  by (auto simp: AdNetBaseDeleteSession_def net_frame_def bind_cxx_Inr_iff split: prod.splits bool.splits if_splits)

lemma create_locked:
  fixes c :: "'d AdClient"
  assumes "AdClientCreateSession pre srv c = ret_net (r, c')" "ctLock c"
  shows "r = AD_FAILURE \<and> ctLock c' \<and> m_mServer c' = m_mServer c \<and> m_mSession c' = m_mSession c \<and>
    (c' = c \<or> (\<exists>a c1 x s s'. AdNetBaseNewSession c = (a, c1) \<and> map_of (n_heap c1) a = Some s \<and>
      m_uiActive s' = m_uiActive s \<and> AdNetBaseDeleteSession a (put_session a s' (c1\<lparr>c_connects := x\<rparr>)) = ret_net c'))"
  using assms(1)
proof (cases rule: create_cases)
  case bad
  then show ?thesis using assms(2) by simp
next
  case (failed a c1 x s s')
  then show ?thesis using assms(2) client_fields(1) [OF failed(2)] client_fields(2) [OF failed(5)]
    by (auto simp: put_session_def)
next
  case (made a c1 x s s' c2 k c3)
  have "ctLock c3 = ctLock c2" using made(6) by (auto split: option.splits dest: client_fields(4))
  then have "ctLock c3" using client_fields(1) [OF made(2)] client_fields(3) [OF made(5)] assms(2) by (simp add: put_session_def)
  with made(7) show ?thesis by simp
qed

text \<open>A session that could not be connected goes back to the free list.\<close>

lemma failed_session_ok:
  fixes c :: "'d AdClient"
  assumes "net_ok hold pl c" "AdNetBaseNewSession c = (a, c1)" "map_of (n_heap c1) a = Some s" "m_uiActive s' = m_uiActive s"
    "AdNetBaseDeleteSession a (put_session a s' (c1\<lparr>c_connects := x\<rparr>)) = ret_net c'"
  shows "net_frame c c' \<and> (\<exists>pl'. net_ok hold pl' c' \<and> same_busy pl c pl' c')"
proof -
  note new = NewSession_ok [OF assms(1,2)]
  let ?c = "put_session a s' (c1\<lparr>c_connects := x\<rparr>)"
  have "net_ok hold (pl(a := InHand)) ?c" using new(2) assms(3,4) by (intro net_ok_put_hand) auto
  moreover have c: "a \<notin> set (m_ctMsgControl ?c)"
    using queues_okD(6) [OF net_ok_parts(3) [OF assms(1)], of a] new(1,3) by (auto simp: net_frame_def)
  ultimately have d: "\<exists>p. (p = InFree \<or> p = NoPlace) \<and> net_ok hold (pl(a := InHand, a := p)) c'" "net_frame ?c c'"
      "\<And>b. b \<noteq> a \<Longrightarrow> map_of (n_heap c') b = map_of (n_heap ?c) b"
    using DeleteSession_ok [OF _ _ assms(5), of hold "pl(a := InHand)"] by auto
  then obtain p where p: "p = InFree \<or> p = NoPlace" "net_ok hold (pl(a := p)) c'" by auto
  have "net_frame c c'" using d(2) new(3) by (simp add: net_frame_def)
  moreover have "same_busy pl c (pl(a := p)) c'"
    using d(3) new(1,5) p(1) by (auto simp: same_busy_def busy_def)
  ultimately show ?thesis using p(2) by auto
qed

lemma same_busy_cong: "same_busy pl w pl' w' \<Longrightarrow> n_heap w1 = n_heap w \<Longrightarrow> n_heap w1' = n_heap w' \<Longrightarrow> same_busy pl w1 pl' w1'"
  unfolding same_busy_def by metis

lemma client_reconnect:
  fixes c :: "'d AdClient"
  assumes "AdClientSessionReconnect pre a c = ret_net c'"
  shows "net_ok hold pl c \<Longrightarrow> net_frame c c' \<and> (\<exists>pl'. net_ok hold pl' c' \<and> same_busy pl c pl' c')"
    "m_vMsgRead c' = m_vMsgRead c \<and> m_vMsgWrite c' = m_vMsgWrite c \<and> n_writes c' = n_writes c"
    "map_of (m_mServer c) a = Some srv \<Longrightarrow> smap_ok (m_mServer c) \<Longrightarrow> smap_ok (m_mSession c) \<Longrightarrow>
      map_of (m_mServer c') a = None \<and> map_of (m_mSession c') srv = None \<and> m_ctSessionNew c' = m_ctSessionNew c"
proof -
  have nl: "\<not> ctLock c" using assms by (auto simp: AdClientSessionReconnect_def)
  consider (none) "map_of (m_mServer c) a = None" "c' = c"
    | (some) srv' c1 where "map_of (m_mServer c) a = Some srv'"
        "AdClientCreateSession pre srv' (c\<lparr>ctLock := True\<rparr>) = ret_net (AD_FAILURE, c1)"
        "c' = c1\<lparr>m_mSession := smap_erase srv' (m_mSession c1), m_mServer := smap_erase a (m_mServer c1), ctLock := False\<rparr>"
  proof (cases "map_of (m_mServer c) a")
    case None
    then show thesis using assms nl by (intro none) (auto simp: AdClientSessionReconnect_def)
  next
    case (Some srv')
    then obtain r c1 where c1: "AdClientCreateSession pre srv' (c\<lparr>ctLock := True\<rparr>) = ret_net (r, c1)"
        "c' = (if r \<noteq> AD_SUCCESS then c1\<lparr>m_mSession := smap_erase srv' (m_mSession c1), m_mServer := smap_erase a (m_mServer c1)\<rparr>
          else c1)\<lparr>ctLock := False\<rparr>"
      using assms nl by (auto simp: AdClientSessionReconnect_def bind_net_ret_iff Let_def)
    have "r = AD_FAILURE" using create_locked [OF c1(1)] by simp
    then show thesis using some [OF Some] c1 by simp
  qed
  then have "(net_ok hold pl c \<longrightarrow> net_frame c c' \<and> (\<exists>pl'. net_ok hold pl' c' \<and> same_busy pl c pl' c')) \<and>
      m_vMsgRead c' = m_vMsgRead c \<and> m_vMsgWrite c' = m_vMsgWrite c \<and> n_writes c' = n_writes c \<and>
      (map_of (m_mServer c) a = Some srv \<longrightarrow> smap_ok (m_mServer c) \<longrightarrow> smap_ok (m_mSession c) \<longrightarrow>
        map_of (m_mServer c') a = None \<and> map_of (m_mSession c') srv = None \<and> m_ctSessionNew c' = m_ctSessionNew c)"
  proof cases
    case none
    then show ?thesis by auto
  next
    case some
    let ?c = "c\<lparr>ctLock := True\<rparr>"
    have "ctLock ?c" by simp
    note k = create_locked [OF some(2) this]
    have k1: "m_mServer c1 = m_mServer c" "m_mSession c1 = m_mSession c" using k by auto
    have fr: "net_frame ?c c1 \<and> same_msgs ?c c1"
    proof (cases "c1 = ?c")
      case False
      then obtain b c2 x s' where n: "AdNetBaseNewSession ?c = (b, c2)"
          and d: "AdNetBaseDeleteSession b (put_session b s' (c2\<lparr>c_connects := x\<rparr>)) = ret_net c1"
        using k by auto
      show ?thesis using NewSession_net_frame [OF n] DeleteSession_net_frame [OF d] NewSession_msgs [OF n] DeleteSession_msgs [OF d]
        by (simp add: net_frame_def same_msgs_def)
    qed simp
    have same: "net_frame c c' \<and> (\<exists>pl'. net_ok hold pl' c' \<and> same_busy pl c pl' c')" if ok: "net_ok hold pl c"
    proof -
      have ok': "net_ok hold pl ?c" using ok by simp
      have "\<exists>pl'. net_ok hold pl' c1 \<and> same_busy pl ?c pl' c1"
      proof (cases "c1 = ?c")
        case True
        then have "net_ok hold pl c1" "same_busy pl ?c pl c1" using ok' by (simp_all add: same_busy_def)
        then show ?thesis by blast
      next
        case False
        then obtain b c2 x s s' where n: "AdNetBaseNewSession ?c = (b, c2)" "map_of (n_heap c2) b = Some s"
            "m_uiActive s' = m_uiActive s" "AdNetBaseDeleteSession b (put_session b s' (c2\<lparr>c_connects := x\<rparr>)) = ret_net c1"
          using k by blast
        show ?thesis using failed_session_ok [OF ok' n] by blast
      qed
      then obtain pl' where pl': "net_ok hold pl' c1" "same_busy pl ?c pl' c1" by blast
      have "net_frame c c'" using fr by (simp add: some(3) net_frame_def)
      moreover have "net_ok hold pl' c'" unfolding some(3) net_ok_client by (rule pl'(1))
      moreover have "same_busy pl c pl' c'" using some(3) by (intro same_busy_cong [OF pl'(2)]) simp_all
      ultimately show ?thesis by blast
    qed
    have "m_vMsgRead c' = m_vMsgRead c \<and> m_vMsgWrite c' = m_vMsgWrite c \<and> n_writes c' = n_writes c \<and>
        m_ctSessionNew c' = m_ctSessionNew c"
      using fr by (simp add: some(3) net_frame_def same_msgs_def)
    then show ?thesis using same k1 some(1) by (auto simp: some(3))
  qed
  then show "net_ok hold pl c \<Longrightarrow> net_frame c c' \<and> (\<exists>pl'. net_ok hold pl' c' \<and> same_busy pl c pl' c')"
    "m_vMsgRead c' = m_vMsgRead c \<and> m_vMsgWrite c' = m_vMsgWrite c \<and> n_writes c' = n_writes c"
    "map_of (m_mServer c) a = Some srv \<Longrightarrow> smap_ok (m_mServer c) \<Longrightarrow> smap_ok (m_mSession c) \<Longrightarrow>
      map_of (m_mServer c') a = None \<and> map_of (m_mSession c') srv = None \<and> m_ctSessionNew c' = m_ctSessionNew c"
    by blast+
qed

interpretation client: reconnecting "client_env (\<lambda>_. True) pre" for pre :: "('d AdSession \<Rightarrow> (int \<times> 'd AdSession) cxx) option"
  by unfold_locales (auto simp: client_env_def dest: client_reconnect)

end
