(* ===== verification/AdNetSteps.thy ===== *)
theory AdNetSteps
  imports AdNetSessions
begin

text \<open>
  The steps of all threads, in any order: the network loop, the workers that take a session, use it and let it go, the write tasks.
  What is proved of the loop in \<open>AdNetSessions\<close> and of the operations on a session here holds in every state that is reached, for
  the server and for the client.
\<close>

section \<open>What a thread does with a session\<close>

datatype 'd user_op =
  OpRead "(AdCache \<Rightarrow> int cxx) option" "(string \<times> tcp_read) list"
| OpWriteBytes tcp_write string string int
| OpWrite tcp_write string AdCache
| OpFlush "tcp_write list" int
| OpSetTimeout int
| OpSetPrivate 'd
| OpGetPrivate bool
| OpClose

fun run_op :: "'d user_op \<Rightarrow> 'd AdSession \<Rightarrow> (unit \<times> 'd AdSession) cxx" where
  "run_op (OpRead plen evs) s = bind_cxx (AdSessionRead plen evs [] s) (\<lambda>(_, s). Inr ((), s))"
| "run_op (OpWriteBytes ev mem b k) s = bind_cxx (AdSessionWrite_bytes ev mem b k s) (\<lambda>(_, s). Inr ((), s))"
| "run_op (OpWrite ev mem c) s = bind_cxx (AdSessionWrite ev mem c s) (\<lambda>(_, s). Inr ((), s))"
| "run_op (OpFlush evs len) s = Inr ((), snd (AdSessionFlush evs len s))"
| "run_op (OpSetTimeout t) s = Inr ((), AdSessionSetTimeout t s)"
| "run_op (OpSetPrivate d) s = Inr ((), AdSessionSetPrivate d s)"
| "run_op (OpGetPrivate b) s = Inr ((), snd (AdSessionGetPrivate b s))"
| "run_op OpClose s = Inr ((), snd (AdSessionClose s))"

text \<open>None of them changes who uses the session or its socket number; the connection is closed at most.\<close>

definition same_socket :: "'d AdSession \<Rightarrow> 'd AdSession \<Rightarrow> bool" where
  "same_socket s s' \<longleftrightarrow> m_uiActive s' = m_uiActive s \<and> m_s_iSocket s' = m_s_iSocket s \<and>
     (m_t_iSocket (m_ctTcp s') = m_t_iSocket (m_ctTcp s) \<or> m_t_iSocket (m_ctTcp s') = AD_FAILURE)"

lemma same_socket_refl [simp]: "same_socket s s"
  by (simp add: same_socket_def)

lemma same_socket_trans [trans]: "same_socket s s1 \<Longrightarrow> same_socket s1 s2 \<Longrightarrow> same_socket s s2"
  by (auto simp: same_socket_def)

lemma close_same [simp]: "same_socket s (snd (AdSessionClose s))" "same_socket s (session_failed s)" "same_socket s (session_push s)"
  by (simp_all add: same_socket_def session_failed_def session_push_def)

lemma read_reset_same [simp]: "same_socket s (read_reset s1) = same_socket s s1" "same_socket s (piece_read c s1) = same_socket s s1"
  by (simp_all add: same_socket_def read_reset_def piece_read_def)

lemma CompletePacket_same: "AdSessionCompletePacket plen c s = Inr (p, s') \<Longrightarrow> same_socket s s'"
  by (auto simp: AdSessionCompletePacket_def bind_cxx_Inr_iff Let_def same_socket_def read_reset_def piece_read_def split: if_splits)

lemma Read_same: "AdSessionRead plen evs l s = Inr (l', s') \<Longrightarrow> same_socket s s'"
proof (induction evs arbitrary: l s)
  case (Cons e evs)
  obtain mem ev where e: "e = (mem, ev)" by (cases e)
  obtain k bytes where r: "Tcp_Read ev AD_CACHE_MAX (m_ctTcp s) = (k, bytes)" by fastforce
  note run = Cons.prems [unfolded e AdSessionRead.simps(2) r Let_def prod.case]
  show ?case
  proof (cases "k > 0")
    case True
    then obtain p s1 where s1: "(case plen of None \<Rightarrow> Inr (Some (read_cache mem bytes), s)
          | Some plen \<Rightarrow> AdSessionCompletePacket plen (read_cache mem bytes) s) = Inr (p, s1)"
        "AdSessionRead plen evs (case p of None \<Rightarrow> l | Some p \<Rightarrow> l @ [p]) s1 = Inr (l', s')"
      using run by (auto simp: bind_cxx_Inr_iff)
    have "same_socket s s1" using s1(1) by (auto split: option.splits dest: CompletePacket_same)
    also have "same_socket s1 s'" by (rule Cons.IH [OF s1(2)])
    finally show ?thesis .
  next
    case False
    then show ?thesis using run by (auto split: if_splits)
  qed
qed simp

lemma Tcp_Write_same: "m_t_iSocket (snd (Tcp_Write ev b t)) = m_t_iSocket t"
  by (auto simp: Tcp_Write_def Let_def split: tcp_write.splits)

lemma session_write_same: "same_socket s (snd (session_write ev b s))"
  using Tcp_Write_same [of ev b "m_ctTcp s"]
  by (auto simp: session_write_def Let_def case_prod_beta same_socket_def session_failed_def session_push_def split: if_splits)

lemma flush_loop_same: "same_socket s (snd (flush_loop evs len s))"
proof (induction evs arbitrary: len s)
  case (Cons ev evs)
  show ?case
  proof (cases "m_ltSendCache s")
    case (Cons c cs)
    obtain k t where w: "Tcp_Write ev (cache_data c) (m_ctTcp s) = (k, t)" by fastforce
    have t: "m_t_iSocket t = m_t_iSocket (m_ctTcp s)" using Tcp_Write_same [of ev "cache_data c" "m_ctTcp s"] w by simp
    have "same_socket s (s\<lparr>m_ctTcp := t, m_ltSendCache := cs\<rparr>)" by (simp add: same_socket_def t)
    also note Cons.IH
    finally show ?thesis using t by (auto simp: Cons w Let_def) (simp_all add: same_socket_def)
  qed simp
qed simp

lemma run_op_same: "run_op op s = Inr (r, s') \<Longrightarrow> same_socket s s'"
proof (cases op)
  case (OpRead plen evs)
  assume "run_op op s = Inr (r, s')"
  with OpRead show ?thesis using Read_same by (auto simp: bind_cxx_Inr_iff)
next
  case (OpWriteBytes ev mem b k)
  assume "run_op op s = Inr (r, s')"
  with OpWriteBytes show ?thesis using session_write_same [of s ev "take (nat k) b"]
    by (auto simp: bind_cxx_Inr_iff AdSessionWrite_bytes_def Let_def case_prod_beta same_socket_def session_push_def split: if_splits)
next
  case (OpWrite ev mem c)
  assume "run_op op s = Inr (r, s')"
  with OpWrite show ?thesis using session_write_same [of s ev "cache_data c"]
    by (auto simp: bind_cxx_Inr_iff AdSessionWrite_def Let_def case_prod_beta same_socket_def session_push_def split: if_splits)
next
  case (OpFlush evs len)
  assume "run_op op s = Inr (r, s')"
  with OpFlush show ?thesis using flush_loop_same [of s evs len]
    by (auto simp: AdSessionFlush_def Let_def case_prod_beta intro: same_socket_trans)
qed (auto simp: AdSessionSetTimeout_def AdSessionSetPrivate_def AdSessionGetPrivate_def same_socket_def session_push_def
  split: if_splits)

section \<open>A thread uses a session\<close>

lemma net_ok_writes [simp]: "net_ok hold pl (w\<lparr>m_vMsgWrite := q\<rparr>) = net_ok hold pl w"
  by (simp add: net_defs)

lemma session_use_ret:
  assumes "session_use f a w = ret_net (r, w')"
  obtains s s' q where "map_of (n_heap w) a = Some s" "f s = Inr (r, s')" "set q \<subseteq> insert a (set (m_ctMsgControl w))"
    "w' = (put_session a (s'\<lparr>m_pMsg := map_option (\<lambda>_. 0) (m_pMsg s')\<rparr>) w)\<lparr>m_ctMsgControl := q\<rparr>"
proof -
  obtain s s' where s: "map_of (n_heap w) a = Some s" "f s = Inr (r, s')"
      and w': "w' = (put_session a (s'\<lparr>m_pMsg := map_option (\<lambda>_. 0) (m_pMsg s')\<rparr>) w)
        \<lparr>m_ctMsgControl := m_ctMsgControl w @ replicate (case m_pMsg s' of None \<Rightarrow> 0 | Some k \<Rightarrow> k) a\<rparr>"
    using assms by (auto simp: session_use_def bind_cxx_Inr_iff get_session_Inr Let_def split: if_splits)
  show thesis by (rule that [OF s _ w']) auto
qed

text \<open>The operation may change the users by those of the thread.\<close>

lemma session_use_ok:
  assumes "net_ok hold pl w" "busy (pl a)" "session_use f a w = ret_net (r, w')"
    "\<And>s s'. map_of (n_heap w) a = Some s \<Longrightarrow> f s = Inr (r, s') \<Longrightarrow> m_uiActive s' = of_nat (count_list (in_use hold' w) a) \<and>
      m_s_iSocket s' = m_s_iSocket s \<and> (m_t_iSocket (m_ctTcp s') = m_t_iSocket (m_ctTcp s) \<or> m_t_iSocket (m_ctTcp s') = AD_FAILURE)"
    "\<And>b. b \<noteq> a \<Longrightarrow> count_list (in_use hold' w) b = count_list (in_use hold w) b" "set (in_use hold' w) \<subseteq> set (in_use hold w)"
  shows "net_ok hold' pl w' \<and> m_mSessionCloseTime w' = m_mSessionCloseTime w \<and> m_vMsgRead w' = m_vMsgRead w \<and>
    m_vMsgWrite w' = m_vMsgWrite w \<and> n_writes w' = n_writes w"
proof -
  obtain s s' q where s: "map_of (n_heap w) a = Some s" "f s = Inr (r, s')" and q: "set q \<subseteq> insert a (set (m_ctMsgControl w))"
      and w': "w' = (put_session a (s'\<lparr>m_pMsg := map_option (\<lambda>_. 0) (m_pMsg s')\<rparr>) w)\<lparr>m_ctMsgControl := q\<rparr>"
    using assms(3) by (rule session_use_ret)
  note ok = net_ok_parts [OF assms(1)] and f = assms(4) [OF s]
  have use: "in_use h w' = in_use h w" for h by (simp add: w' in_use_def)
  have "heap_ok hold' pl w'"
    unfolding heap_ok_def use using ok(1) s(1) f assms(5) by (auto simp: heap_ok_def w')
  moreover have "net_maps_ok pl w'" using s(1) f by (intro net_maps_ok_cong [OF ok(2)]) (auto simp: w' socket_of_def)
  moreover have "queues_ok hold' pl w'"
  proof (rule queues_okI)
    show "pl b = InRead \<or> pl b = InClose \<or> pl b = InClosing" if "b \<in> set (in_use hold' w')" for b
      using that queues_okD(5) [OF ok(3), of b] assms(6) unfolding use by auto
    show "busy (pl b)" if "b \<in> set (m_ctMsgControl w')" for b
      using that q assms(2) queues_okD(6) [OF ok(3), of b] by (auto simp: w')
  qed (use queues_okD(1-4) [OF ok(3)] in \<open>auto simp: w'\<close>)
  moreover have "net_watched w'" by (rule net_watched_cong [OF ok(4)]) (simp_all add: w')
  ultimately show ?thesis by (simp add: net_ok_def w')
qed

section \<open>Steps\<close>

text \<open>
  \<open>hold\<close> are the sessions that threads work with, one entry for every use they have to give back. Fewer than \<open>2 ^ 32\<close> uses at a
  time are needed, so that the counter of a session does not wrap.
\<close>

inductive net_step ::
    "('d, 'z) AdNetBase_scheme netenv \<Rightarrow> nat list \<times> ('d, 'z) AdNetBase_scheme \<Rightarrow> nat list \<times> ('d, 'z) AdNetBase_scheme \<Rightarrow> bool"
  for E :: "('d, 'z) AdNetBase_scheme netenv" where
  step_loop: "AdNetBaseRun E n now rs w = ret_net w' \<Longrightarrow> length (in_use hold w') < 2 ^ 32 \<Longrightarrow> net_step E (hold, w) (hold, w')"
| step_take: "i < length (m_vMsgRead w) \<Longrightarrow> m_vMsgRead w ! i = a # q \<Longrightarrow>
    net_step E (hold, w) (a # hold, w\<lparr>m_vMsgRead := (m_vMsgRead w)[i := q]\<rparr>)"
| step_use: "a \<in> set hold \<Longrightarrow> session_use (run_op op) a w = ret_net (r, w') \<Longrightarrow> net_step E (hold, w) (hold, w')"
| step_active: "a \<in> set hold \<Longrightarrow> Suc (length (in_use hold w)) < 2 ^ 32 \<Longrightarrow>
    session_use (\<lambda>s. Inr ((), AdSessionActive s)) a w = ret_net (r, w') \<Longrightarrow> net_step E (hold, w) (a # hold, w')"
| step_idle: "a \<in> set hold \<Longrightarrow> session_use (\<lambda>s. Inr ((), AdSessionIdle s)) a w = ret_net (r, w') \<Longrightarrow>
    net_step E (hold, w) (remove1 a hold, w')"
| step_write: "write_turn i evs len w = ret_net w' \<Longrightarrow> net_step E (hold, w) (hold, w')"

inductive_cases net_stepE: "net_step E (hold, w) (hold', w')"

text \<open>What holds in every state that is reached.\<close>

definition net_good :: "nat list \<Rightarrow> ('d, 'z) AdNetBase_scheme \<Rightarrow> bool" where
  "net_good hold w \<longleftrightarrow> net_inv hold w \<and> writes_ok w \<and> length (in_use hold w) < 2 ^ 32"

lemma count_list_remove1: "a \<in> set l \<Longrightarrow> count_list l b = count_list (remove1 a l) b + (if b = a then 1 else 0)"
  by (induction l) auto

lemma count_list_concat_take:
  "i < length v \<Longrightarrow> v ! i = a # q \<Longrightarrow> count_list (concat v) b = count_list (concat (v[i := q])) b + (if b = a then 1 else 0)"
  by (induction v arbitrary: i) (auto split: nat.split simp: less_Suc_eq_0_disj)

lemma length_concat_take: "i < length v \<Longrightarrow> v ! i = a # q \<Longrightarrow> length (concat v) = Suc (length (concat (v[i := q])))"
  by (induction v arbitrary: i) (auto split: nat.split simp: less_Suc_eq_0_disj)

lemma same_counts: "(\<And>b. count_list l b = count_list l' b) \<Longrightarrow> set l = set l'"
  by (metis count_list_0_iff subsetI subset_antisym)

text \<open>The users are the same, in another order.\<close>

lemma net_ok_take:
  assumes "net_ok hold pl w" "i < length (m_vMsgRead w)" "m_vMsgRead w ! i = a # q"
  shows "net_ok (a # hold) pl (w\<lparr>m_vMsgRead := (m_vMsgRead w)[i := q]\<rparr>)"
proof -
  let ?w = "w\<lparr>m_vMsgRead := (m_vMsgRead w)[i := q]\<rparr>"
  note ok = net_ok_parts [OF assms(1)]
  have c: "count_list (in_use (a # hold) ?w) b = count_list (in_use hold w) b" for b
    using count_list_concat_take [OF assms(2,3), of b] by (auto simp: in_use_def)
  note m = same_counts [OF c]
  have "heap_ok (a # hold) pl ?w" using ok(1) unfolding heap_ok_def c by simp
  moreover have "net_maps_ok pl ?w" by (rule net_maps_ok_cong [OF ok(2)]) (simp_all add: socket_of_def)
  moreover have "queues_ok (a # hold) pl ?w" using ok(3) unfolding queues_ok_def m by simp
  moreover have "net_watched ?w" by (rule net_watched_cong [OF ok(4)]) simp_all
  ultimately show ?thesis by (simp add: net_ok_def)
qed

text \<open>An operation of a thread keeps the places, so the invariant is kept as well.\<close>

lemma use_good:
  assumes "net_good hold w" "a \<in> set (in_use hold w)" "session_use f a w = ret_net (r, w')"
    "\<And>s s'. map_of (n_heap w) a = Some s \<Longrightarrow> m_uiActive s = of_nat (count_list (in_use hold w) a) \<Longrightarrow> f s = Inr (r, s') \<Longrightarrow>
      m_uiActive s' = of_nat (count_list (in_use hold' w) a) \<and> m_s_iSocket s' = m_s_iSocket s \<and>
      (m_t_iSocket (m_ctTcp s') = m_t_iSocket (m_ctTcp s) \<or> m_t_iSocket (m_ctTcp s') = AD_FAILURE)"
    "\<And>b. b \<noteq> a \<Longrightarrow> count_list (in_use hold' w) b = count_list (in_use hold w) b" "set (in_use hold' w) \<subseteq> set (in_use hold w)"
    "length (in_use hold' w) < 2 ^ 32"
  shows "net_good hold' w'"
proof -
  have g: "net_inv hold w" "writes_ok w" using assms(1) by (simp_all add: net_good_def)
  obtain pl where pl: "net_ok hold pl w" "\<And>b. pl b \<noteq> InHand" "\<And>b. pl b \<noteq> InClosing" "close_times_ok pl (m_mSessionCloseTime w)"
    using g(1) by (rule net_inv_obtain) blast
  note ok = net_ok_parts [OF pl(1)]
  have busy: "busy (pl a)" using queues_okD(5) [OF ok(3) assms(2)] by (auto simp: busy_def)
  have act: "m_uiActive s = of_nat (count_list (in_use hold w) a)" if "map_of (n_heap w) a = Some s" for s
    using heap_okD(2) [OF ok(1) that] by simp
  have w': "net_ok hold' pl w' \<and> m_mSessionCloseTime w' = m_mSessionCloseTime w \<and> m_vMsgRead w' = m_vMsgRead w \<and>
      m_vMsgWrite w' = m_vMsgWrite w \<and> n_writes w' = n_writes w"
    using session_use_ok [OF pl(1) busy assms(3) _ assms(5,6)] assms(4) [OF _ act] by blast
  then have "net_inv hold' w'" using pl(2-4) by (intro net_invI [of _ pl]) auto
  then show ?thesis using w' g(2) assms(7) by (simp add: net_good_def writes_ok_def in_use_def)
qed

lemma idle_counts: "0 < k \<Longrightarrow> k < 2 ^ 32 \<Longrightarrow> (of_nat k :: UINT) - 1 = of_nat (k - 1) \<and> (of_nat k :: UINT) > 0"
proof (cases k)
  case (Suc m)
  assume k: "k < 2 ^ 32"
  have "unat (of_nat k :: UINT) = k" using k by (simp add: unat_of_nat take_bit_nat_eq_self)
  then have "(of_nat k :: UINT) \<noteq> 0" using Suc by auto
  then show ?thesis using Suc by (simp add: word_gt_0 del: of_nat_Suc) (simp add: algebra_simps)
qed simp

lemma use_op_good:
  assumes "net_good hold w" "a \<in> set (in_use hold w)" "session_use f a w = ret_net (r, w')" "\<And>s s'. f s = Inr (r, s') \<Longrightarrow> same_socket s s'"
  shows "net_good hold w'"
  by (rule use_good [OF assms(1-3)]) (use assms(1,4) in \<open>auto simp: same_socket_def net_good_def\<close>)

lemma active_good:
  assumes "net_good hold w" "a \<in> set hold" "Suc (length (in_use hold w)) < 2 ^ 32"
    "session_use (\<lambda>s. Inr ((), AdSessionActive s)) a w = ret_net (r, w')"
  shows "net_good (a # hold) w'"
  by (rule use_good [OF assms(1) _ assms(4)]) (use assms(2,3) in \<open>auto simp: in_use_def AdSessionActive_def\<close>)

lemma idle_good:
  assumes "net_good hold w" "a \<in> set hold" "session_use (\<lambda>s. Inr ((), AdSessionIdle s)) a w = ret_net (r, w')"
  shows "net_good (remove1 a hold) w'"
proof (rule use_good [OF assms(1) _ assms(3)])
  have l: "length (in_use hold w) < 2 ^ 32" using assms(1) by (simp add: net_good_def)
  have c: "count_list (in_use hold w) b = count_list (in_use (remove1 a hold) w) b + (if b = a then 1 else 0)" for b
    using count_list_remove1 [OF assms(2), of b] by (simp add: in_use_def)
  show "a \<in> set (in_use hold w)" using assms(2) by (simp add: in_use_def)
  have "count_list (in_use hold w) a < 2 ^ 32" using count_le_length [of "in_use hold w" a] l by simp
  then have k: "(of_nat (count_list (in_use hold w) a) :: UINT) - 1 = of_nat (count_list (in_use (remove1 a hold) w) a)"
      "(of_nat (count_list (in_use hold w) a) :: UINT) > 0"
    using idle_counts [of "count_list (in_use hold w) a"] c [of a] by auto
  show "m_uiActive s' = of_nat (count_list (in_use (remove1 a hold) w) a) \<and> m_s_iSocket s' = m_s_iSocket s \<and>
      (m_t_iSocket (m_ctTcp s') = m_t_iSocket (m_ctTcp s) \<or> m_t_iSocket (m_ctTcp s') = AD_FAILURE)"
    if "m_uiActive s = of_nat (count_list (in_use hold w) a)" "Inr ((), AdSessionIdle s) = Inr (r, s')" for s s'
    using that k by (auto simp: AdSessionIdle_def)
  show "count_list (in_use (remove1 a hold) w) b = count_list (in_use hold w) b" if "b \<noteq> a" for b using c [of b] that by simp
  show "set (in_use (remove1 a hold) w) \<subseteq> set (in_use hold w)" using set_remove1_subset [of a hold] by (auto simp: in_use_def)
  show "length (in_use (remove1 a hold) w) < 2 ^ 32" using l by (auto simp: in_use_def length_remove1)
qed

lemma take_good:
  assumes "net_good hold w" "i < length (m_vMsgRead w)" "m_vMsgRead w ! i = a # q"
  shows "net_good (a # hold) (w\<lparr>m_vMsgRead := (m_vMsgRead w)[i := q]\<rparr>)"
proof -
  have g: "net_inv hold w" "writes_ok w" "length (in_use hold w) < 2 ^ 32" using assms(1) by (simp_all add: net_good_def)
  obtain pl where pl: "net_ok hold pl w" "\<And>b. pl b \<noteq> InHand" "\<And>b. pl b \<noteq> InClosing" "close_times_ok pl (m_mSessionCloseTime w)"
    using g(1) by (rule net_inv_obtain) blast
  have "net_inv (a # hold) (w\<lparr>m_vMsgRead := (m_vMsgRead w)[i := q]\<rparr>)"
    using net_ok_take [OF pl(1) assms(2,3)] pl(2-4) by (intro net_invI [of _ pl]) auto
  then show ?thesis using g(2,3) length_concat_take [OF assms(2,3)] by (simp add: net_good_def writes_ok_def in_use_def)
qed

lemma write_turn_good:
  assumes "net_good hold w" "write_turn i evs len w = ret_net w'"
  shows "net_good hold w'"
proof -
  obtain a q r where i: "i < length (m_vMsgWrite w)" "m_vMsgWrite w ! i = a # q"
      and u: "session_use (\<lambda>s. Inr (AdSessionFlush evs len s)) a (w\<lparr>m_vMsgWrite := (m_vMsgWrite w)[i := q]\<rparr>) = ret_net (r, w')"
    using assms(2) by (auto simp: write_turn_def bind_net_ret_iff split: if_splits list.splits)
  let ?w = "w\<lparr>m_vMsgWrite := (m_vMsgWrite w)[i := q]\<rparr>"
  have m: "set (m_vMsgWrite w ! i) \<subseteq> set (concat (m_vMsgWrite w))" using nth_mem [OF i(1)] by auto
  have sub: "set (concat ((m_vMsgWrite w)[i := q])) \<subseteq> set (concat (m_vMsgWrite w))" "a \<in> set (concat (m_vMsgWrite w))"
    using m set_update_subset_insert [of "m_vMsgWrite w" i q] by (force simp: i(2))+
  have g: "net_good hold ?w" using assms(1) sub(1) by (auto simp: net_good_def net_inv_def writes_ok_def in_use_def)
  have a: "a \<in> set (in_use hold ?w)" using assms(1) sub(2) by (auto simp: net_good_def writes_ok_def in_use_def)
  show ?thesis
  proof (rule use_op_good [OF g a u])
    show "same_socket s s'" if "Inr (AdSessionFlush evs len s) = Inr (r, s')" for s s'
      using run_op_same [of "OpFlush evs len" s "()" s'] that by simp
  qed
qed

context reconnecting begin

lemma step_good:
  assumes "net_step E (hold, w) (hold', w')" "net_good hold w"
  shows "net_good hold' w'"
  using assms(1)
proof (rule net_stepE)
  fix n now rs
  assume h: "hold' = hold" and r: "AdNetBaseRun E n now rs w = ret_net w'" and l: "length (in_use hold w') < 4294967296"
  have "net_inv hold w'" using assms(2) l by (intro Run_inv [OF _ r]) (simp_all add: net_good_def)
  then show ?thesis using assms(2) Run_grows [OF r] l h by (simp add: net_good_def grows_def)
next
  fix a op
  assume h: "hold' = hold" and a: "a \<in> set hold" and u: "session_use (run_op op) a w = ret_net ((), w')"
  show ?thesis unfolding h by (rule use_op_good [OF assms(2) _ u run_op_same]) (use a in \<open>simp_all add: in_use_def\<close>)
qed (use assms(2) in \<open>auto intro: active_good idle_good write_turn_good take_good\<close>)

lemma steps_good: "(net_step E)\<^sup>*\<^sup>* (hold, w) (hold', w') \<Longrightarrow> net_good hold w \<Longrightarrow> net_good hold' w'"
  by (induction "(hold', w')" arbitrary: hold' w' rule: rtranclp_induct) (auto dest: step_good)

end

section \<open>The server\<close>

lemma init_good:
  assumes "n_heap w = []" "m_mSessionRead w = []" "m_mSessionWrite w = []" "m_mSessionClose w = []" "m_mSessionCloseTime w = []"
    "m_ctSessionFree w = []" "m_ctSessionNew w = []" "concat (m_vMsgRead w) = []" "concat (m_vMsgWrite w) = []" "m_ctMsgControl w = []"
    "n_writes w = []" "event_inv (n_event w)" "\<And>s. \<not> wants_write (AdEventState s (n_event w))"
  shows "net_good [] w"
proof -
  have "net_ok [] (\<lambda>_. NoPlace) w"
    unfolding net_ok_def heap_ok_def net_maps_ok_def queues_ok_def net_watched_def in_use_def socket_of_def assms(1-11)
    using assms(12,13) by simp
  then have "net_inv [] w" by (intro net_invI [of _ "\<lambda>_. NoPlace"]) (simp_all add: assms(5) close_times_ok_def)
  then show ?thesis by (simp add: net_good_def writes_ok_def in_use_def assms(8,9,11))
qed

lemma concat_replicate_Nil: "concat (replicate n []) = []"
  by (induction n) simp_all

lemma server_start:
  assumes "AdServerInit (server_env (\<lambda>_. True)) (Some sock) r k (AdNetBase_new now) = (ret, w)"
  shows "ret = AD_SUCCESS \<and> net_good [] w"
proof -
  obtain e where e: "AdEventAdd (\<lambda>_. True) sock AD_EVENT_READ 0 AdEvent_new = (AD_SUCCESS, e)" "event_inv e"
      "\<forall>s'. AdEventState s' e = (if s' = sock then AD_EVENT_READ else AdEventState s' AdEvent_new)"
    using AdEventAdd_good [OF event_inv_new, of "\<lambda>_. True" AD_EVENT_READ sock 0]
    by (auto simp: AdEventState_def AdEvent_new_def wants_read_def wants_write_def ad_events)
  have "ret = AD_SUCCESS" and w: "w = (AdNetBaseInit r k (AdNetBase_new now))\<lparr>n_event := e, m_iServer := sock\<rparr>"
    using assms e(1) by (auto simp: AdServerInit_def server_env_def AdNetBaseAddServer_def AdNetBaseInit_def AdNetBase_new_def Let_def)
  moreover have "net_good [] w"
    using e(2,3) by (intro init_good) (simp_all add: w AdNetBaseInit_def AdNetBase_new_def Let_def concat_replicate_Nil
      AdEventState_def AdEvent_new_def wants_write_def ad_events)
  ultimately show ?thesis by simp
qed

text \<open>The states of a server: it was started on socket \<open>sock\<close>, then the threads took steps.\<close>

definition server_state :: "int \<Rightarrow> int \<Rightarrow> int \<Rightarrow> int \<Rightarrow> nat list \<Rightarrow> 'd AdNetBase \<Rightarrow> bool" where
  "server_state sock msgRead msgWrite now hold w \<longleftrightarrow>
     (net_step (server_env (\<lambda>_. True)))\<^sup>*\<^sup>*
       ([], snd (AdServerInit (server_env (\<lambda>_. True)) (Some sock) msgRead msgWrite (AdNetBase_new now))) (hold, w)"

lemma server_good: "server_state sock r k now hold w \<Longrightarrow> net_good hold w"
  unfolding server_state_def
  using server.steps_good server_start [of sock r k now] by (metis prod.collapse)

section \<open>What the invariant says\<close>

lemma good_places:
  assumes "net_good hold w"
  obtains pl where "net_ok hold pl w" "\<And>a. pl a \<noteq> InHand" "\<And>a. pl a \<noteq> InClosing" "close_times_ok pl (m_mSessionCloseTime w)"
  using assms unfolding net_good_def by (auto elim: net_inv_obtain)

lemma opened_place: "net_maps_ok pl w \<Longrightarrow> heap_ok hold pl w \<Longrightarrow> a \<in> snd ` set (m_mSessionRead w) \<longleftrightarrow> pl a = InRead"
proof -
  assume m: "net_maps_ok pl w" and h: "heap_ok hold pl w"
  have "a \<in> snd ` set (m_mSessionRead w) \<longleftrightarrow> (\<exists>s. map_of (m_mSessionRead w) s = Some a)"
    using smap_mem_iff [OF net_maps_okD(4) [OF m]] by (metis (no_types, opaque_lifting) imageE image_eqI prod.collapse snd_conv)
  also have "\<dots> \<longleftrightarrow> pl a = InRead"
    using net_maps_okD(1) [OF m] heap_okD(1) [OF h, of a] by (auto simp: socket_of_def)
  finally show ?thesis .
qed

lemma closed_place: "net_maps_ok pl w \<Longrightarrow> a \<in> fst ` set (m_mSessionClose w) \<longleftrightarrow> pl a = InClose"
  using net_maps_okD(3) [of pl w a] by (metis map_of_eq_None_iff)

lemma good_one_place:
  assumes "net_good hold w"
  shows "distinct (m_ctSessionFree w @ m_ctSessionNew w @ map snd (m_mSessionRead w) @ map fst (m_mSessionClose w))"
    "fst ` set (n_heap w) = set (m_ctSessionFree w @ m_ctSessionNew w @ map snd (m_mSessionRead w) @ map fst (m_mSessionClose w))"
    "set (in_use hold w) \<subseteq> set (map snd (m_mSessionRead w) @ map fst (m_mSessionClose w))"
proof -
  obtain pl where pl: "net_ok hold pl w" "\<And>a. pl a \<noteq> InHand" "\<And>a. pl a \<noteq> InClosing" "close_times_ok pl (m_mSessionCloseTime w)"
    using assms by (rule good_places) blast
  note ok = net_ok_parts [OF pl(1)]
  note p = opened_place [OF ok(2,1)] closed_place [OF ok(2)] queues_okD(1,2) [OF ok(3)]
  have inj: "inj_on snd (set (m_mSessionRead w))"
    using net_maps_okD(1,4) [OF ok(2)] by (intro inj_onI) (auto simp: smap_mem_iff)
  have "distinct (map snd (m_mSessionRead w))" "distinct (map fst (m_mSessionClose w))"
    using inj smap_ok_distinct [OF net_maps_okD(4) [OF ok(2)]] smap_ok_distinct [OF net_maps_okD(6) [OF ok(2)]]
    by (auto simp: distinct_map)
  then show "distinct (m_ctSessionFree w @ m_ctSessionNew w @ map snd (m_mSessionRead w) @ map fst (m_mSessionClose w))"
    using queues_okD(3,4) [OF ok(3)] p by (auto simp: set_eq_iff)
  have "a \<in> fst ` set (n_heap w) \<longleftrightarrow> pl a \<noteq> NoPlace" for a
    using heap_okD(1) [OF ok(1)] by (metis map_of_eq_None_iff)
  moreover have "pl a \<noteq> NoPlace \<longleftrightarrow> pl a = InFree \<or> pl a = InNew \<or> pl a = InRead \<or> pl a = InClose" for a
    using pl(2,3) [of a] by (cases "pl a") auto
  ultimately show "fst ` set (n_heap w) = set (m_ctSessionFree w @ m_ctSessionNew w @ map snd (m_mSessionRead w) @ map fst (m_mSessionClose w))"
    using p by (auto simp: set_eq_iff)
  show "set (in_use hold w) \<subseteq> set (map snd (m_mSessionRead w) @ map fst (m_mSessionClose w))"
  proof
    fix a assume "a \<in> set (in_use hold w)"
    then have "pl a = InRead \<or> pl a = InClose" using queues_okD(5) [OF ok(3)] pl(3) by blast
    then show "a \<in> set (map snd (m_mSessionRead w) @ map fst (m_mSessionClose w))" using p(1,2) [of a] by simp
  qed
qed

end
