(* ===== verification/AdNetLife.thy ===== *)
theory AdNetLife
  imports AdNetSteps
begin

text \<open>
  The life of a session, for every order of the steps of the threads, a turn of the loop being one of them: when it may be taken
  again, when it is never free again; which message is sent nowhere; what is left of a client whose server was lost. Where it
  is, also between the steps of a turn, is in \<open>AdNetTurns\<close>.
\<close>

section \<open>A turn of a worker\<close>

text \<open>
  The turn of a worker is a sequence of the steps, when the operations of the interface are: the session is taken, read, given to
  the interface, and let go.
\<close>

lemma run_all_steps:
  assumes "\<And>c w w'. run c a w = ret_net w' \<Longrightarrow> (net_step E)\<^sup>*\<^sup>* (hold, w) (hold, w')" "run_all run a cs w = ret_net w'"
  shows "(net_step E)\<^sup>*\<^sup>* (hold, w) (hold, w')"
  using assms(2)
proof (induction cs arbitrary: w)
  case (Cons c cs)
  show ?case
  proof (cases "m_iLen c \<le> 0")
    case False
    then obtain w1 where w1: "run (Some c) a w = ret_net w1" "run_all run a cs w1 = ret_net w'"
      using Cons.prems by (auto simp: bind_net_ret_iff)
    from assms(1) [OF w1(1)] Cons.IH [OF w1(2)] show ?thesis by (rule rtranclp_trans)
  qed (use Cons in simp)
qed simp

lemma worker_turn_steps:
  fixes w :: "('d, 'z) AdNetBase_scheme"
  assumes "\<And>c a w w'. run c a w = ret_net w' \<Longrightarrow> (net_step E)\<^sup>*\<^sup>* (a # hold, w) (a # hold, w')" "worker_turn run plen i evs w = ret_net w'"
  shows "(net_step E)\<^sup>*\<^sup>* (hold, w) (hold, w')"
proof -
  obtain a q where i: "i < length (m_vMsgRead w)" "m_vMsgRead w ! i = a # q"
    using assms(2) by (auto simp: worker_turn_def split: if_splits list.splits)
  then obtain l w1 w2 w3 u where r: "session_use (AdSessionRead (Some plen) evs []) a (w\<lparr>m_vMsgRead := (m_vMsgRead w)[i := q]\<rparr>) = ret_net (l, w1)"
        "run_all run a l w1 = ret_net w2" "(if l = [] then run None a w2 else ret_net w2) = ret_net w3"
        "session_use (\<lambda>s. Inr ((), AdSessionIdle s)) a w3 = ret_net (u, w')"
    using assms(2) by (simp add: worker_turn_def bind_net_ret_iff case_prod_beta) (metis prod.collapse)
  have op: "session_use (run_op (OpRead (Some plen) evs)) a (w\<lparr>m_vMsgRead := (m_vMsgRead w)[i := q]\<rparr>) = ret_net ((), w1)"
    using r(1) by (auto simp: session_use_def bind_cxx_Inr_iff Let_def split: if_splits)
  have "(net_step E)\<^sup>*\<^sup>* (hold, w) (a # hold, w1)"
    using step_take [OF i] step_use [OF _ op, where hold = "a # hold"] by (intro converse_rtranclp_into_rtranclp [OF _ r_into_rtranclp]) auto
  also have "(net_step E)\<^sup>*\<^sup>* (a # hold, w1) (a # hold, w2)" by (rule run_all_steps [OF assms(1) r(2)])
  also have "(net_step E)\<^sup>*\<^sup>* (a # hold, w2) (a # hold, w3)" using r(3) assms(1) by (auto split: if_splits)
  also have "net_step E (a # hold, w3) (hold, w')" using step_idle [OF _ r(4), where hold = "a # hold"] by simp
  finally show ?thesis .
qed

section \<open>A server\<close>

text \<open>An example: a server on socket 3 with two queues accepts a connection, socket 5.\<close>

definition server_ex :: "unit AdNetBase" where
  "server_ex = (AdNetBase_new 100)\<lparr>n_event := \<lparr>ev_base = [(0, \<lparr>ev_fd = 3, ev_write = False, ev_timeout = None\<rparr>)],
     ev_next = 1, m_mWrite = [], m_mRead = [(3, 0)], m_mState = [(3, 1)], m_mTimeout = []\<rparr>,
     m_vMsgRead := [[], []], m_vMsgWrite := [[]], m_iServer := 3\<rparr>"

definition session_ex :: "unit AdSession" where
  "session_ex = (AdSession_new (Some 0))\<lparr>m_ctTcp := \<lparr>m_t_iSocket = 5, m_sent = []\<rparr>, m_s_iSocket := 5\<rparr>"

definition accepting_ex :: "unit AdNetBase" where
  "accepting_ex = server_ex\<lparr>n_event := \<lparr>ev_base =
       [(0, \<lparr>ev_fd = 3, ev_write = False, ev_timeout = None\<rparr>), (1, \<lparr>ev_fd = 5, ev_write = False, ev_timeout = None\<rparr>)],
       ev_next = 2, m_mWrite = [], m_mRead = [(3, 0), (5, 1)], m_mState = [(3, 1), (5, 1)], m_mTimeout = []\<rparr>,
     n_heap := [(1, session_ex)], n_next := 2, m_mSessionRead := [(5, 1)], m_ctTime := 101, m_uiAllSession := 1\<rparr>"

definition accepted_ex :: "unit AdNetBase" where
  "accepted_ex = accepting_ex\<lparr>n_heap := [(1, session_ex), (2, AdSession_new (Some 0))], n_next := 3, m_ctSessionFree := [2]\<rparr>"

lemmas net_ex = server_ex_def session_ex_def accepting_ex_def accepted_ex_def AdNetBase_new_def AdSession_new_def

lemmas net_eval = ad_events AdEventAdd_def add_read_def add_write_def event_make_def time_limit_def AdEvent_new_def AdEventState_def
  Let_def AD_SUCCESS_def AD_FAILURE_def accept_turn_def AdNetBaseNewSession_def AdSessionInit_def AdNetBaseAddSession_def
  get_session_def put_session_def server_env_def AdNetBaseDeleteSession_def queue_try_push_def AD_TASK_SESSION_MAX_def
  smap_insert_def

lemma server_started: "AdServerInit (server_env (\<lambda>_. True)) (Some 3) 2 1 (AdNetBase_new 100) = (AD_SUCCESS, server_ex)"
  by (simp add: AdServerInit_def AdNetBaseInit_def AdNetBaseAddServer_def net_ex net_eval numeral_eq_Suc)

lemma server_accepts:
  "AdNetBaseRun (server_env (\<lambda>_. True)) 5 101 [\<lparr>r_event = 0, r_timeout = False, r_accepts = [(5, True)], r_now = 101\<rparr>] server_ex =
    ret_net accepted_ex"
proof -
  have t1: "accept_turn (server_env (\<lambda>_. True)) 5 True (server_ex\<lparr>m_ctTime := 101\<rparr>) = ret_net (None, accepting_ex)"
    by (simp add: net_ex net_eval)
  have t2: "accept_turn (server_env (\<lambda>_. True)) AD_FAILURE True accepting_ex = ret_net (Some AD_SUCCESS, accepted_ex)"
    by (simp add: net_ex net_eval)
  have l: "AdNetBaseLoop (server_env (\<lambda>_. True)) 5 101 server_ex = ret_net (AD_SUCCESS, server_ex\<lparr>m_ctTime := 101\<rparr>)"
    by (simp add: AdNetBaseLoop_def net_ex AD_SUCCESS_def numeral_eq_Suc)
  have "m_iServer (server_ex\<lparr>m_ctTime := 101\<rparr>) = 3" by (simp add: net_ex)
  then have m: "AdEventHandleMsg (server_env (\<lambda>_. True)) 5 101 [(5, True)] 3 AD_EVENT_READ (server_ex\<lparr>m_ctTime := 101\<rparr>) =
      ret_net (AD_SUCCESS, accepted_ex)"
    by (simp add: AdEventHandleMsg_def t1 t2)
  have e: "map_of (ev_base (n_event server_ex)) 0 = Some \<lparr>ev_fd = 3, ev_write = False, ev_timeout = None\<rparr>"
    by (simp add: net_ex)
  show ?thesis by (simp add: AdNetBaseRun_def l e m ready_messages_def AdEventHandle_def)
qed

lemma server_accepted: "server_state 3 2 1 100 [] accepted_ex"
proof -
  have "net_step (server_env (\<lambda>_. True)) ([], server_ex) ([], accepted_ex)"
    by (rule step_loop [OF server_accepts]) (simp add: in_use_def net_ex)
  then show ?thesis by (simp add: server_state_def server_started r_into_rtranclp)
qed

section \<open>Write messages\<close>

text \<open>A session that was in a write message is in use for ever: the write task does not make it idle.\<close>

lemma use_writes: "session_use f a w = ret_net (r, w') \<Longrightarrow> n_writes w' = n_writes w"
  by (erule session_use_ret) simp

lemma write_turn_writes: "write_turn i evs len w = ret_net w' \<Longrightarrow> n_writes w' = n_writes w"
  by (auto simp: write_turn_def bind_net_ret_iff dest: use_writes split: if_splits list.splits)

context reconnecting begin

lemma step_writes: "net_step E (hold, w) (hold', w') \<Longrightarrow> set (n_writes w) \<subseteq> set (n_writes w')"
  by (erule net_stepE) (auto simp: grows_def write_turn_writes use_writes dest!: Run_grows)

lemma steps_writes: "(net_step E)\<^sup>*\<^sup>* (hold, w) (hold', w') \<Longrightarrow> set (n_writes w) \<subseteq> set (n_writes w')"
  by (induction "(hold', w')" arbitrary: hold' w' rule: rtranclp_induct) (auto dest!: step_writes)

end

lemma written_in_use:
  assumes "net_good hold w" "a \<in> set (n_writes w)"
  shows "a \<notin> set (m_ctSessionFree w) \<and> (\<exists>s. map_of (n_heap w) a = Some s \<and> fst (AdSessionClose s) = AD_FAILURE)"
proof -
  obtain pl where pl: "net_ok hold pl w" using assms(1) by (rule good_places) blast
  note ok = net_ok_parts [OF pl]
  have u: "a \<in> set (in_use hold w)" using assms(2) by (simp add: in_use_def)
  then have p: "pl a = InRead \<or> pl a = InClose \<or> pl a = InClosing" by (rule queues_okD(5) [OF ok(3)])
  then obtain s where s: "map_of (n_heap w) a = Some s" using heap_okD(1) [OF ok(1), of a] by auto
  have "count_list (in_use hold w) a < 2 ^ 32" using count_le_length [of "in_use hold w" a] assms(1) by (simp add: net_good_def)
  moreover have "0 < count_list (in_use hold w) a" using u count_list_0_iff [of "in_use hold w" a] by (cases "count_list (in_use hold w) a") simp_all
  ultimately have "m_uiActive s \<noteq> 0"
    using idle_counts [of "count_list (in_use hold w) a"] heap_okD(2) [OF ok(1) s] by (auto simp: word_gt_0)
  then have "fst (AdSessionClose s) = AD_FAILURE" by (simp add: AdSessionClose_def Let_def)
  then show ?thesis using s p queues_okD(1) [OF ok(3), of a] by auto
qed



text \<open>C15. A server with more than one queue of read messages and one of write messages, as \<^verbatim>\<open>AdMain.cpp\<close> starts the adapter: as
  soon as one read message was put into the first queue, the next write event of a session is an access outside the vector of the
  write queues, because it is indexed with the number of the next read queue.\<close>

theorem write_event_out_of_bounds:
  assumes "AdServerInit E (Some sock) msgRead 1 (AdNetBase_new now) = (ret, w0)" "1 < msgRead"
    "m_uiRead w = m_uiRead w0" "m_vMsgRead w = m_vMsgRead w0" "m_vMsgWrite w = m_vMsgWrite w0"
    "AdNetBasePushMsg a AD_NET_MSG_READ w = ret_net w1" "map_of (n_heap w1) b = Some s"
  shows "AdNetBasePushMsg b AD_NET_MSG_WRITE w1 = Inl OutOfBounds"
proof -
  have w0: "m_uiRead w = 0" "m_vMsgRead w = replicate (nat msgRead) []" "m_vMsgWrite w = [[]]"
    using assms(1-5) by (auto simp: AdServerInit_def AdNetBaseInit_def AdNetBaseAddServer_def AdNetBase_new_def Let_def
      split: prod.splits if_splits)
  obtain k where k: "nat msgRead = Suc (Suc k)" using assms(2) by (metis Suc_lessD gr0_conv_Suc one_less_nat_eq Suc_pred not_less_eq)
  have "m_uiRead w1 = 1 \<and> m_vMsgWrite w1 = [[]]"
    using assms(6) k by (auto simp: AdNetBasePushMsg_def w0 bind_cxx_Inr_iff get_session_Inr Let_def bind_net_ret_iff queue_try_push_def
      AD_TASK_SESSION_MAX_def next_queue_def split: if_splits)
  then show ?thesis using assms(7) by (simp add: AdNetBasePushMsg_def get_session_def Let_def)
qed

theorem write_event_out_of_bounds_witness:
  "\<exists>w1. AdNetBasePushMsg 1 AD_NET_MSG_READ accepted_ex = ret_net w1 \<and> m_uiRead w1 = 1 \<and>
     AdNetBasePushMsg 1 AD_NET_MSG_WRITE w1 = Inl OutOfBounds"
proof -
  let ?w = "(put_session 1 (AdSessionActive session_ex) accepted_ex)\<lparr>m_vMsgRead := [[1], []], m_uiRead := 1\<rparr>"
  have m: "AdNetBasePushMsg 1 AD_NET_MSG_READ accepted_ex = ret_net ?w"
    by (simp add: AdNetBasePushMsg_def get_session_def queue_try_push_def AD_TASK_SESSION_MAX_def Let_def next_queue_def net_ex)
  have h: "map_of (n_heap ?w) 1 = Some (AdSessionActive session_ex)" by (simp add: net_ex)
  have "AdNetBasePushMsg 1 AD_NET_MSG_WRITE ?w = Inl OutOfBounds"
    by (rule write_event_out_of_bounds [OF server_started _ _ _ _ m h]) (simp_all add: net_ex)
  then show ?thesis using m by simp
qed

section \<open>The client\<close>

text \<open>A session handed to the loop is a new one.\<close>

lemma AddClient_ok:
  assumes "net_ok hold pl w" "pl a = InHand" "AdNetBaseAddClient a w = ret_net (r, w')"
  shows "net_ok hold (pl(a := InNew)) w' \<and> same_msgs w w' \<and> m_mSessionCloseTime w' = m_mSessionCloseTime w"
proof -
  have w': "w' = w\<lparr>m_ctSessionNew := m_ctSessionNew w @ [a]\<rparr>"
    using assms(3) by (auto simp: AdNetBaseAddClient_def queue_try_push_def split: if_splits)
  note ok = net_ok_parts [OF assms(1)]
  note q = queues_okD [OF ok(3)]
  have "heap_ok hold (pl(a := InNew)) w'"
    using assms(2) by (intro heap_ok_cong [OF ok(1)]) (auto simp: w' in_use_def)
  moreover have "net_maps_ok (pl(a := InNew)) w'"
    using assms(2) by (intro net_maps_ok_cong [OF ok(2)]) (auto simp: w' socket_of_def)
  moreover have "queues_ok hold (pl(a := InNew)) w'"
  proof (rule queues_okI)
    show "distinct (m_ctSessionNew w')" using q(2) [of a] q(4) assms(2) by (simp add: w')
    show "b \<in> set (m_ctSessionNew w') \<longleftrightarrow> (pl(a := InNew)) b = InNew" for b using q(2) [of b] by (auto simp: w')
    show "b \<in> set (m_ctSessionFree w') \<longleftrightarrow> (pl(a := InNew)) b = InFree" for b using q(1) [of b] assms(2) by (auto simp: w')
    show "(pl(a := InNew)) b = InRead \<or> (pl(a := InNew)) b = InClose \<or> (pl(a := InNew)) b = InClosing"
      if "b \<in> set (in_use hold w')" for b using that q(5) [of b] assms(2) by (auto simp: w' in_use_def)
    show "busy ((pl(a := InNew)) b)" if "b \<in> set (m_ctMsgControl w')" for b using that q(6) [of b] by (auto simp: w' busy_def)
  qed (use q(3) in \<open>simp add: w'\<close>)
  moreover have "net_watched w'" by (rule net_watched_cong [OF ok(4)]) (simp_all add: w')
  ultimately show ?thesis by (simp add: net_ok_def same_msgs_def w')
qed

lemma good_msgs: "net_good hold w \<Longrightarrow> net_inv hold w' \<Longrightarrow> same_msgs w w' \<Longrightarrow> net_good hold w'"
  by (simp add: net_good_def writes_ok_def in_use_def same_msgs_def)

text \<open>\<open>pre_ok\<close>: what is sent first on a connection does not change who uses the session.\<close>

definition pre_ok :: "('d AdSession \<Rightarrow> (int \<times> 'd AdSession) cxx) option \<Rightarrow> bool" where
  "pre_ok pre \<longleftrightarrow> (\<forall>f s r s'. pre = Some f \<longrightarrow> f s = Inr (r, s') \<longrightarrow> same_socket s s')"

lemma create_good:
  fixes c :: "'d AdClient"
  assumes "net_good hold c" "pre_ok pre" "AdClientCreateSession pre srv c = ret_net (r, c')"
  shows "net_good hold c'"
  using assms(3)
proof (cases rule: create_cases)
  case bad
  then show ?thesis using assms(1) by simp
next
  case (failed a c1 x s s')
  obtain pl where pl: "net_ok hold pl c" "\<And>b. pl b \<noteq> InHand" "\<And>b. pl b \<noteq> InClosing" "close_times_ok pl (m_mSessionCloseTime c)"
    using assms(1) by (rule good_places) blast
  obtain pl' where pl': "net_ok hold pl' c'" "same_busy pl c pl' c'" and fr: "net_frame c c'"
    using failed_session_ok [OF pl(1) failed(2-5)] by blast
  have b: "busy (pl b) \<or> busy (pl' b) \<Longrightarrow> pl' b = pl b" for b using pl'(2) unfolding same_busy_def by blast
  have "pl' b = InClose \<longleftrightarrow> pl b = InClose" for b using b [of b] by (auto simp: busy_def)
  then have "close_times_ok pl' (m_mSessionCloseTime c')" using pl(4) fr by (simp add: close_times_ok_def net_frame_def)
  moreover have "pl' b \<noteq> InHand \<and> pl' b \<noteq> InClosing" for b using b [of b] pl(2,3) [of b] by (auto simp: busy_def)
  ultimately have "net_inv hold c'" by (intro net_invI [OF pl'(1)]) auto
  moreover have "same_msgs c c'" using NewSession_msgs [OF failed(2)] DeleteSession_msgs [OF failed(5)] by (simp add: same_msgs_def)
  ultimately show ?thesis by (rule good_msgs [OF assms(1)])
next
  case (made a c1 x s s' c2 k c3)
  obtain pl where pl: "net_ok hold pl c" "\<And>b. pl b \<noteq> InHand" "\<And>b. pl b \<noteq> InClosing" "close_times_ok pl (m_mSessionCloseTime c)"
    using assms(1) by (rule good_places) blast
  note new = NewSession_ok [OF pl(1) made(2)]
  let ?pl = "pl(a := InNew)"
  have "net_ok hold (pl(a := InHand)) (put_session a s' (c1\<lparr>c_connects := x\<rparr>))"
    using new(2) made(3,4) by (intro net_ok_put_hand) auto
  from AddClient_ok [OF this _ made(5)] have c2: "net_ok hold ?pl c2" "same_msgs c c2" "m_mSessionCloseTime c2 = m_mSessionCloseTime c"
    using NewSession_msgs [OF made(2)] new(3) by (simp_all add: same_msgs_def net_frame_def)
  have c3: "net_ok hold ?pl c3 \<and> m_mSessionCloseTime c3 = m_mSessionCloseTime c2 \<and> same_msgs c2 c3"
  proof (cases pre)
    case None
    then show ?thesis using made(6) c2(1) by simp
  next
    case (Some f)
    then obtain v where u: "session_use f a c2 = ret_net (v, c3)" using made(6) by auto
    have "net_ok hold ?pl c3 \<and> m_mSessionCloseTime c3 = m_mSessionCloseTime c2 \<and> m_vMsgRead c3 = m_vMsgRead c2 \<and>
        m_vMsgWrite c3 = m_vMsgWrite c2 \<and> n_writes c3 = n_writes c2"
    proof (rule session_use_ok [OF c2(1) _ u])
      show "m_uiActive s' = of_nat (count_list (in_use hold c2) a) \<and> m_s_iSocket s' = m_s_iSocket s \<and>
          (m_t_iSocket (m_ctTcp s') = m_t_iSocket (m_ctTcp s) \<or> m_t_iSocket (m_ctTcp s') = AD_FAILURE)"
        if "map_of (n_heap c2) a = Some s" "f s = Inr (v, s')" for s s'
        using that heap_okD(2) [OF net_ok_parts(1) [OF c2(1)] that(1)] assms(2) Some
        by (auto simp: pre_ok_def same_socket_def)
    qed (simp_all add: busy_def)
    then show ?thesis by (simp add: same_msgs_def)
  qed
  have "net_inv hold c3"
    using pl(2-4) c2(3) c3 new(1) by (intro net_invI [of _ ?pl]) (auto simp: close_times_ok_def busy_def)
  then have "net_inv hold c'" unfolding made(8) net_inv_def by simp
  moreover have "same_msgs c c'" using c2(2) c3 by (simp add: made(8) same_msgs_def)
  ultimately show ?thesis by (rule good_msgs [OF assms(1)])
qed

lemma delete_good:
  fixes c :: "'d AdClient"
  assumes "net_good hold c" "AdClientDelSession srv c = ret_net c'"
  shows "net_good hold c'"
proof (cases "c' = c")
  case False
  then obtain a s v m where s: "map_of (n_heap c) a = Some s"
      and c': "c' = (put_session a (snd (AdSessionClose s)) c)\<lparr>m_mServer := v, m_mSession := m\<rparr>"
    using assms(2) by (auto simp: AdClientDelSession_def bind_cxx_Inr_iff get_session_Inr split: if_splits option.splits)
  obtain pl where pl: "net_ok hold pl c" "\<And>b. pl b \<noteq> InHand" "\<And>b. pl b \<noteq> InClosing" "close_times_ok pl (m_mSessionCloseTime c)"
    using assms(1) by (rule good_places) blast
  have "net_ok hold pl (put_session a (snd (AdSessionClose s)) c)" by (rule net_ok_put [OF pl(1) s]) simp_all
  then have "net_ok hold pl c'" unfolding c' net_ok_client .
  then have "net_inv hold c'" using pl(2-4) by (intro net_invI [of _ pl]) (simp_all add: c')
  then show ?thesis by (rule good_msgs [OF assms(1)]) (simp add: c' same_msgs_def)
qed (use assms(1) in simp)

definition client_new :: "int \<Rightarrow> (int \<times> bool) list \<Rightarrow> 'd AdClient" where
  "client_new now l = AdNetBase.AdNetBase.extend (AdNetBase_new now) (AdClient.fields [] [] False l)"

lemma client_start: "AdClientInit pre srvs r k (client_new now l) = ret_net c \<Longrightarrow> pre_ok pre \<Longrightarrow> net_good [] c"
proof -
  assume i: "AdClientInit pre srvs r k (client_new now l) = ret_net c" and p: "pre_ok pre"
  have e: "event_inv (n_event (AdNetBaseInit r k (client_new now l)))"
    using event_inv_new by (simp add: AdNetBaseInit_def client_new_def AdNetBase_new_def AdNetBase.AdNetBase.extend_def Let_def)
  have "net_good [] (AdNetBaseInit r k (client_new now l))"
    by (rule init_good [OF _ _ _ _ _ _ _ _ _ _ _ e]) (simp_all add: AdNetBaseInit_def client_new_def AdNetBase_new_def AdNetBase.AdNetBase.extend_def AdClient.fields_def Let_def
      concat_replicate_Nil AdEventState_def AdEvent_new_def)
  moreover have "net_good [] c" if "create_all pre ss c0 = ret_net c" "net_good [] c0" for ss c0
    using that
  proof (induction ss arbitrary: c0)
    case (Cons s ss)
    obtain r1 c1 where "AdClientCreateSession pre s c0 = ret_net (r1, c1)" "create_all pre ss c1 = ret_net c"
      using Cons.prems(1) by (auto simp: bind_net_ret_iff)
    with Cons.IH create_good [OF Cons.prems(2) p] show ?case by blast
  qed simp
  ultimately show "net_good [] c" using i by (auto simp: AdClientInit_def)
qed

lemma bidder_pre_ok: "pre_ok (Some (AdBiddingPreSend ev mem))"
  unfolding pre_ok_def
proof (intro allI impI)
  fix f s r s'
  assume "Some (AdBiddingPreSend ev mem) = Some f" "f s = Inr (r, s')"
  then have "run_op (OpWriteBytes ev mem ''IBIDDING(remote)  0x1'' (int (length ''IBIDDING(remote)  0x1''))) s = Inr ((), s')"
    by (auto simp: AdBiddingPreSend_def Let_def bind_cxx_Inr_iff)
  then show "same_socket s s'" by (rule run_op_same)
qed

text \<open>An example: a client without servers, which then connects to one.\<close>

definition client_ex :: "unit AdClient" where
  "client_ex = AdNetBaseInit 1 1 (client_new 100 [(5, True)])"

definition connected_ex :: "unit AdClient" where
  "connected_ex = client_ex\<lparr>n_heap := [(1, session_ex\<lparr>m_ctTcp := \<lparr>m_t_iSocket = 5, m_sent = ''IBIDDING(remote)  0x1''\<rparr>\<rparr>)], n_next := 2,
     m_ctSessionNew := [1], m_mSession := [(''h:1'', 1)], m_mServer := [(1, ''h:1'')], c_connects := []\<rparr>"

lemmas client_ex = client_ex_def connected_ex_def client_new_def AdNetBase.AdNetBase.extend_def AdClient.fields_def AdNetBaseInit_def net_ex

lemma address_ex: "StrSplit ''h:1'' [] '':'' = Some [''h'', ''1'']"
  by (simp add: StrSplit_fields split_fields_char)

lemma client_connected:
  "AdClientCreateSession (Some (AdBiddingPreSend (Wrote 100) [])) ''h:1'' client_ex = ret_net (AD_SUCCESS, connected_ex)"
  by (simp add: AdClientCreateSession_def address_ex AdNetBaseNewSession_def client_connect_def get_session_def put_session_def
      AdSessionInit_def AdNetBaseAddClient_def queue_try_push_def AD_TASK_SESSION_MAX_def session_use_def AdBiddingPreSend_def
      AdSessionWrite_bytes_def session_write_def Tcp_Write_def Let_def client_ex AD_SUCCESS_def AD_FAILURE_def)

section \<open>A lost server\<close>

lemma create_locked_waits:
  fixes c :: "'d AdClient"
  assumes "AdClientCreateSession pre srv c = ret_net (r, c')" "ctLock c" "c_connects c = (sock, True) # l" "0 < sock"
    "StrSplit srv [] '':'' = Some [h, p]"
  shows False
proof -
  obtain a c1 where n: "AdNetBaseNewSession c = (a, c1)" by fastforce
  have "c_connects c1 = c_connects c" using n by (auto simp: AdNetBaseNewSession_def put_session_def split: list.splits)
  then have k: "client_connect c1 = ((sock, True), c1\<lparr>c_connects := l\<rparr>)" using assms(3) by (simp add: client_connect_def)
  obtain s where s: "get_session a (c1\<lparr>c_connects := l\<rparr>) = Inr s" and run: "bind_net (AdNetBaseAddClient a
        (put_session a (snd (AdSessionInit sock True s)) (c1\<lparr>c_connects := l\<rparr>))) (\<lambda>(_, c).
      bind_net (case pre of None \<Rightarrow> ret_net (0, c) | Some f \<Rightarrow> session_use f a c) (\<lambda>(_, c).
        if ctLock c then wait_net
        else ret_net (AD_SUCCESS, c\<lparr>m_mSession := smap_upd srv a (m_mSession c), m_mServer := smap_upd a srv (m_mServer c)\<rparr>))) =
      ret_net (r, c')"
    using assms(1,4,5) by (auto simp: AdClientCreateSession_def n k Let_def bind_cxx_Inr_iff AdSessionInit_def)
  obtain v c2 w c3 where c2: "AdNetBaseAddClient a (put_session a (snd (AdSessionInit sock True s)) (c1\<lparr>c_connects := l\<rparr>)) = ret_net (v, c2)"
      and c3: "(case pre of None \<Rightarrow> ret_net (0, c2) | Some f \<Rightarrow> session_use f a c2) = ret_net (w, c3)" and "\<not> ctLock c3"
    using run by (auto simp: bind_net_ret_iff split: if_splits)
  moreover have "ctLock c2" using client_fields(1) [OF n] client_fields(3) [OF c2] assms(2) by (simp add: put_session_def)
  then have "ctLock c3" using c3 by (auto split: option.splits dest: client_fields(4))
  ultimately show False by simp
qed

text \<open>C14. A client whose session is closed does not get it back. \<^verbatim>\<open>AdNetBaseSessionReconnect\<close> holds the lock of the maps while
  it calls \<^verbatim>\<open>AdClientCreateSession\<close>, which takes the same lock, after the new session was handed to the loop: when the new
  connection succeeds the call does not return, and the network loop with it stands still for ever. When the call returns, no
  connection was made, and the client has forgotten the server, so that no later call tries again.\<close>

theorem reconnect_never_works:
  fixes c :: "'d AdClient"
  assumes "map_of (m_mServer c) a = Some srv" "smap_ok (m_mServer c)" "smap_ok (m_mSession c)"
  shows "(\<forall>c'. AdClientSessionReconnect pre a c = ret_net c' \<longrightarrow>
      map_of (m_mServer c') a = None \<and> map_of (m_mSession c') srv = None \<and> m_ctSessionNew c' = m_ctSessionNew c \<and>
      AdClientSessionReconnect pre a c' = ret_net c') \<and>
    (\<forall>sock l h p. c_connects c = (sock, True) # l \<and> 0 < sock \<and> StrSplit srv [] '':'' = Some [h, p] \<longrightarrow>
      (\<forall>c'. AdClientSessionReconnect pre a c \<noteq> ret_net c'))"
proof (intro conjI allI impI)
  fix c' assume r: "AdClientSessionReconnect pre a c = ret_net c'"
  from client_reconnect(3) [OF r assms] show m: "map_of (m_mServer c') a = None" "map_of (m_mSession c') srv = None"
    "m_ctSessionNew c' = m_ctSessionNew c" by simp_all
  have "\<not> ctLock c'" using r by (auto simp: AdClientSessionReconnect_def bind_net_ret_iff Let_def split: if_splits option.splits)
  then show "AdClientSessionReconnect pre a c' = ret_net c'" using m(1) by (simp add: AdClientSessionReconnect_def)
next
  fix sock l h p c'
  assume k: "c_connects c = (sock, True) # l \<and> 0 < sock \<and> StrSplit srv [] '':'' = Some [h, p]"
  show "AdClientSessionReconnect pre a c \<noteq> ret_net c'"
  proof
    assume "AdClientSessionReconnect pre a c = ret_net c'"
    then obtain r c1 where "AdClientCreateSession pre srv (c\<lparr>ctLock := True\<rparr>) = ret_net (r, c1)"
      using assms(1) by (auto simp: AdClientSessionReconnect_def bind_net_ret_iff split: if_splits)
    from create_locked_waits [OF this] k show False by auto
  qed
qed

theorem reconnect_never_works_witness:
  "(\<forall>c'. AdClientSessionReconnect None 1 (connected_ex\<lparr>c_connects := [(7, True)]\<rparr>) \<noteq> ret_net c') \<and>
    (\<exists>c'. AdClientSessionReconnect None 1 connected_ex = ret_net c' \<and> m_mServer c' = [])"
proof -
  have m: "map_of (m_mServer connected_ex) 1 = Some ''h:1''" "smap_ok (m_mServer connected_ex)" "smap_ok (m_mSession connected_ex)"
    by (simp_all add: connected_ex_def)
  have "\<exists>c'. AdClientSessionReconnect None 1 connected_ex = ret_net c' \<and> m_mServer c' = []"
    by (simp add: AdClientSessionReconnect_def AdClientCreateSession_def address_ex AdNetBaseNewSession_def client_connect_def
      get_session_def put_session_def AdSessionInit_def AdNetBaseDeleteSession_def queue_try_push_def AD_TASK_SESSION_MAX_def Let_def
      client_ex AD_SUCCESS_def AD_FAILURE_def)
  moreover have "\<forall>c'. AdClientSessionReconnect None 1 (connected_ex\<lparr>c_connects := [(7, True)]\<rparr>) \<noteq> ret_net c'"
    using reconnect_never_works [of "connected_ex\<lparr>c_connects := [(7, True)]\<rparr>" 1 "''h:1''" None] m address_ex by auto
  ultimately show ?thesis by blast
qed

end
