(* ===== verification/AdNetTurns.thy ===== *)
theory AdNetTurns
  imports AdNetLife
begin

text \<open>
  The turn of the network loop in steps. In \<open>AdNetSteps\<close> a turn of \<^verbatim>\<open>AdNetBaseLoop\<close> is one step; here the other threads
  run at every point between the new sessions, the control messages, the sessions with delayed writes, the closed
  sessions and the connections and events that the loop handles. A whole turn without the others is a sequence of these
  steps (\<open>net_step_calm\<close>). Every session stays in one place, with the exception of two races, which are stated
  (\<open>race\<close>); a run of the server that meets one of them, after which a session is free and closed at once and then given to
  another connection while it is closed, is \<open>race_opens_closed_session\<close>. Still one step each are one new session, one control
  message, one entry of the map of delayed writes or of closed sessions, one connection, one event, one operation of a
  worker, one turn of a write task, and one call of \<^verbatim>\<open>AdClientCreateSession\<close> or \<^verbatim>\<open>AdClientDelSession\<close>.
\<close>

section \<open>Steps\<close>

text \<open>Where the thread of the loop is: at its events, or in one of the four loops of \<^verbatim>\<open>AdNetBaseLoop\<close> with what is left of it.\<close>

datatype loop_pc = LEvents | LNew | LControl | LWrite "(int \<times> nat) list" | LClose "(int \<times> nat) list" "(int \<times> nat) list"

text \<open>The steps of the workers and of the write tasks, those of \<open>net_step\<close> without the loop.\<close>

inductive thread_step ::
    "nat list \<times> ('d, 'z) AdNetBase_scheme \<Rightarrow> nat list \<times> ('d, 'z) AdNetBase_scheme \<Rightarrow> bool" where
  thread_take: "i < length (m_vMsgRead w) \<Longrightarrow> m_vMsgRead w ! i = a # q \<Longrightarrow>
    thread_step (hold, w) (a # hold, w\<lparr>m_vMsgRead := (m_vMsgRead w)[i := q]\<rparr>)"
| thread_use: "a \<in> set hold \<Longrightarrow> session_use (run_op op) a w = ret_net (r, w') \<Longrightarrow> thread_step (hold, w) (hold, w')"
| thread_active: "a \<in> set hold \<Longrightarrow> Suc (length (in_use hold w)) < 2 ^ 32 \<Longrightarrow>
    session_use (\<lambda>s. Inr ((), AdSessionActive s)) a w = ret_net (r, w') \<Longrightarrow> thread_step (hold, w) (a # hold, w')"
| thread_idle: "a \<in> set hold \<Longrightarrow> session_use (\<lambda>s. Inr ((), AdSessionIdle s)) a w = ret_net (r, w') \<Longrightarrow>
    thread_step (hold, w) (remove1 a hold, w')"
| thread_write: "write_turn i evs len w = ret_net w' \<Longrightarrow> thread_step (hold, w) (hold, w')"

text \<open>The steps of the loop, and of the others at any time.\<close>

inductive turn_step ::
    "('d, 'z) AdNetBase_scheme netenv \<Rightarrow> loop_pc \<times> nat list \<times> ('d, 'z) AdNetBase_scheme \<Rightarrow>
     loop_pc \<times> nat list \<times> ('d, 'z) AdNetBase_scheme \<Rightarrow> bool"
  for E :: "('d, 'z) AdNetBase_scheme netenv" where
  turn_start: "turn_step E (LEvents, hold, w) (LNew, hold, w\<lparr>m_ctTime := now\<rparr>)"
| turn_new: "m_ctSessionNew w = a # q \<Longrightarrow> new_turn E a (w\<lparr>m_ctSessionNew := q\<rparr>) = ret_net w' \<Longrightarrow>
    turn_step E (LNew, hold, w) (LNew, hold, w')"
| turn_new_end: "m_ctSessionNew w = [] \<Longrightarrow> turn_step E (LNew, hold, w) (LControl, hold, w)"
| turn_control: "m_ctMsgControl w = a # q \<Longrightarrow> control_turn E a (w\<lparr>m_ctMsgControl := q\<rparr>) = ret_net (ret, w') \<Longrightarrow>
    turn_step E (LControl, hold, w) (if ret = AD_SUCCESS then LControl else LEvents, hold, w')"
| turn_control_end: "m_ctMsgControl w = [] \<Longrightarrow> turn_step E (LControl, hold, w) (LWrite (m_mSessionWrite w), hold, w)"
| turn_write: "write_loop E [e] w = ret_net (ret, w') \<Longrightarrow>
    turn_step E (LWrite (e # l), hold, w) (if ret = AD_SUCCESS then LWrite l else LEvents, hold, w')"
| turn_write_end: "turn_step E (LWrite [], hold, w) (LClose [] (m_mSessionCloseTime w), hold, w)"
| turn_close: "m_ctTime w > fst e + 1 \<Longrightarrow> close_loop [e] w = ret_net (k, w') \<Longrightarrow>
    turn_step E (LClose kept (e # l), hold, w) (LClose (kept @ k) l, hold, w'\<lparr>m_mSessionCloseTime := kept @ k @ l\<rparr>)"
| turn_close_end: "l = [] \<or> m_ctTime w \<le> fst (hd l) + 1 \<Longrightarrow> turn_step E (LClose kept l, hold, w) (LEvents, hold, w)"
| turn_accept: "accept_turn E sock nb w = ret_net (r, w') \<Longrightarrow> turn_step E (LEvents, hold, w) (LEvents, hold, w')"
| turn_message: "map_of (m_mSessionRead w) s = Some a \<Longrightarrow> session_message E a s ty w = ret_net w' \<Longrightarrow>
    length (in_use hold w') < 2 ^ 32 \<Longrightarrow> turn_step E (LEvents, hold, w) (LEvents, hold, w')"
| turn_unknown: "map_of (m_mSessionRead w) s = None \<Longrightarrow>
    turn_step E (LEvents, hold, w) (LEvents, hold, w\<lparr>n_event := AdEventDel s (n_event w)\<rparr>)"
| turn_thread: "thread_step (hold, w) (hold', w') \<Longrightarrow> turn_step E (pc, hold, w) (pc, hold', w')"

inductive_cases turn_stepE: "turn_step E (pc, hold, w) (pc', hold', w')"

text \<open>
  The two races. The loop is at a control message of a session that the client handed over after the loop over the
  new sessions had ended; or it is about to release a closed session of which a thread has put a control message into
  the queue after the loop over these messages had ended, and which no one uses any more.
\<close>

definition race :: "loop_pc \<times> nat list \<times> ('d, 'z) AdNetBase_scheme \<Rightarrow> bool" where
  "race = (\<lambda>(pc, _, w). case pc of
     LControl \<Rightarrow> (case m_ctMsgControl w of [] \<Rightarrow> False | a # _ \<Rightarrow> a \<in> set (m_ctSessionNew w))
   | LClose kept l \<Rightarrow> (case l of [] \<Rightarrow> False | (t, a) # _ \<Rightarrow>
       m_ctTime w > t + 1 \<and> a \<in> set (m_ctMsgControl w) \<and> map_option m_uiActive (map_of (n_heap w) a) = Some 0)
   | _ \<Rightarrow> False)"

definition calm_step ::
    "('d, 'z) AdNetBase_scheme netenv \<Rightarrow> loop_pc \<times> nat list \<times> ('d, 'z) AdNetBase_scheme \<Rightarrow>
     loop_pc \<times> nat list \<times> ('d, 'z) AdNetBase_scheme \<Rightarrow> bool" where
  "calm_step E s t \<longleftrightarrow> turn_step E s t \<and> \<not> race s"

section \<open>The invariant\<close>

definition turn_good :: "loop_pc \<times> nat list \<times> ('d, 'z) AdNetBase_scheme \<Rightarrow> bool" where
  "turn_good = (\<lambda>(pc, hold, w). net_good hold w \<and> (case pc of
     LWrite l \<Rightarrow> \<forall>(s, a) \<in> set l. map_of (m_mSessionRead w) s \<noteq> None
   | LClose kept l \<Rightarrow> m_mSessionCloseTime w = kept @ l
   | _ \<Rightarrow> True))"

lemma thread_net: "thread_step (hold, w) (hold', w') \<Longrightarrow> net_step E (hold, w) (hold', w')"
  by (induction "(hold, w)" "(hold', w')" rule: thread_step.induct) (auto intro: net_step.intros)

lemma session_use_frame: "session_use f a w = ret_net (r, w') \<Longrightarrow>
    m_mSessionRead w' = m_mSessionRead w \<and> m_mSessionCloseTime w' = m_mSessionCloseTime w"
  by (erule session_use_ret) simp

lemma thread_frame: "thread_step (hold, w) (hold', w') \<Longrightarrow>
    m_mSessionRead w' = m_mSessionRead w \<and> m_mSessionCloseTime w' = m_mSessionCloseTime w"
proof (induction "(hold, w)" "(hold', w')" rule: thread_step.induct)
  case (thread_write i evs len)
  then show ?case by (auto simp: write_turn_def bind_net_ret_iff split: if_splits list.splits dest!: session_use_frame)
qed (auto dest!: session_use_frame)

lemma pc_frame:
  assumes "turn_good (pc, hold, w)" "net_good hold' w'" "m_mSessionRead w' = m_mSessionRead w"
    "m_mSessionCloseTime w' = m_mSessionCloseTime w"
  shows "turn_good (pc, hold', w')"
  using assms by (auto simp: turn_good_def split: loop_pc.splits)

text \<open>One closed session: it is released, or it stays because it is in use.\<close>

lemma close_one:
  assumes "net_good hold w" "m_mSessionCloseTime w = kept @ (t, a) # l" "m_ctTime w > t + 1" "close_loop [(t, a)] w = ret_net (k, w')"
    "a \<in> set (m_ctMsgControl w) \<Longrightarrow> map_option m_uiActive (map_of (n_heap w) a) \<noteq> Some 0"
  shows "net_good hold (w'\<lparr>m_mSessionCloseTime := kept @ k @ l\<rparr>)"
proof -
  obtain pl where pl: "net_ok hold pl w" "\<And>b. pl b \<noteq> InHand" "\<And>b. pl b \<noteq> InClosing" "close_times_ok pl (m_mSessionCloseTime w)"
    using assms(1) by (rule good_places) blast
  have a: "pl a = InClose" "a \<notin> snd ` set kept" "a \<notin> snd ` set l"
    using pl(4) unfolding assms(2) close_times_ok_def by auto
  obtain s where s: "map_of (n_heap w) a = Some s"
      and r: "(if fst (AdSessionClose s) = AD_SUCCESS
        then bind_net (AdNetBaseDeleteSession a (put_session a (snd (AdSessionClose s)) w))
          (\<lambda>w. ret_net ([], w\<lparr>m_mSessionClose := smap_erase a (m_mSessionClose w)\<rparr>))
        else ret_net ([(t, a)], put_session a (snd (AdSessionClose s)) w)) = ret_net (k, w')"
    using assms(3,4) by (auto simp: bind_cxx_Inr_iff case_prod_beta Let_def get_session_Inr split: if_splits)
  let ?w = "put_session a (snd (AdSessionClose s)) w" and ?w' = "w'\<lparr>m_mSessionCloseTime := kept @ k @ l\<rparr>"
  have ok: "net_ok hold pl ?w" by (intro net_ok_put [OF pl(1) s]) simp_all
  have m: "same_msgs w ?w'" using close_loop_msgs [OF assms(4)] by (simp add: same_msgs_def)
  have "net_inv hold ?w'"
  proof (cases "fst (AdSessionClose s) = AD_SUCCESS")
    case True
    then obtain w1 where w1: "AdNetBaseDeleteSession a ?w = ret_net w1" "k = []"
        "w' = w1\<lparr>m_mSessionClose := smap_erase a (m_mSessionClose w1)\<rparr>"
      using r by (auto simp: bind_net_ret_iff)
    have act: "m_uiActive (snd (AdSessionClose s)) = 0" "a \<notin> set (m_ctMsgControl ?w)" "length (in_use hold ?w) < 2 ^ 32"
      using True assms(1,5) s by (auto simp: net_good_def in_use_def)
    obtain p where p: "p = InFree \<or> p = NoPlace" "net_ok hold (pl(a := p)) w'"
      using release_ok(1) [OF ok a(1) _ act(1,3,2) w1(1,3)] by auto
    have "close_times_ok (pl(a := p)) (kept @ l)"
      using pl(4) p(1) a(2,3) unfolding assms(2) by (auto simp: close_times_ok_def)
    then show ?thesis using p pl(2,3) w1(2) by (intro net_invI [of _ "pl(a := p)"]) auto
  next
    case False
    then have "k = [(t, a)]" "w' = ?w" using r by auto
    then show ?thesis using ok pl(2-4) by (intro net_invI [of _ pl]) (auto simp: assms(2))
  qed
  then show ?thesis by (rule good_msgs [OF assms(1) _ m])
qed

lemma write_one_read: "write_loop E [(sock, a)] w = ret_net (ret, w') \<Longrightarrow> m_mSessionRead w' = m_mSessionRead w"
  by (auto simp: bind_cxx_Inr_iff Let_def case_prod_beta split: if_splits)

context reconnecting begin

lemma write_one:
  assumes "net_good hold w" "map_of (m_mSessionRead w) sock \<noteq> None" "write_loop E [(sock, a)] w = ret_net (ret, w')"
  shows "net_good hold w'"
proof -
  obtain pl where pl: "net_ok hold pl w" "\<And>b. pl b \<noteq> InHand" "\<And>b. pl b \<noteq> InClosing" "close_times_ok pl (m_mSessionCloseTime w)"
    using assms(1) by (rule good_places) blast
  have "net_ok hold pl w' \<and> m_mSessionCloseTime w' = m_mSessionCloseTime w"
    using write_loop_ok [OF pl(1) _ assms(3)] assms(2) by simp
  with pl(2-4) have "net_inv hold w'" by (intro net_invI [of _ pl]) auto
  then show ?thesis by (rule good_msgs [OF assms(1) _ write_loop_msgs [OF assms(3)]])
qed

lemma unknown_good:
  assumes "net_good hold w" "map_of (m_mSessionRead w) s = None"
  shows "net_good hold (w\<lparr>n_event := AdEventDel s (n_event w)\<rparr>)"
proof -
  obtain pl where pl: "net_ok hold pl w" "\<And>b. pl b \<noteq> InHand" "\<And>b. pl b \<noteq> InClosing" "close_times_ok pl (m_mSessionCloseTime w)"
    using assms(1) by (rule good_places) blast
  have wa: "net_watched w" using pl(1) by (rule net_ok_parts)
  have "net_ok hold pl (w\<lparr>n_event := AdEventDel s (n_event w)\<rparr>)"
    using wa AdEventDel_good [of "n_event w", where s = s] assms(2)
    by (intro net_ok_event [OF pl(1)]) (auto simp: net_watched_def split: if_splits)
  with pl(2-4) have "net_inv hold (w\<lparr>n_event := AdEventDel s (n_event w)\<rparr>)" by (intro net_invI [of _ pl]) auto
  then show ?thesis by (rule good_msgs [OF assms(1)]) (simp add: same_msgs_def)
qed

lemma turn_step_good:
  assumes "turn_step E (pc, hold, w) (pc', hold', w')" "turn_good (pc, hold, w)" "\<not> race (pc, hold, w)"
  shows "turn_good (pc', hold', w')"
proof -
  have g: "net_good hold w" "net_inv hold w" using assms(2) by (simp_all add: turn_good_def net_good_def)
  from assms(1) show ?thesis
  proof (rule turn_stepE)
    fix a q
    assume p: "pc = LNew" "pc' = LNew" "hold' = hold" and n: "m_ctSessionNew w = a # q" "new_turn E a (w\<lparr>m_ctSessionNew := q\<rparr>) = ret_net w'"
    have "same_msgs w w'" using new_turn_msgs [OF n(2)] by (simp add: same_msgs_def)
    with good_msgs [OF g(1) new_turn_ok [OF g(2) n]] show ?thesis using p by (simp add: turn_good_def)
  next
    fix a q ret
    assume p: "pc = LControl" "pc' = (if ret = AD_SUCCESS then LControl else LEvents)" "hold' = hold"
      and c: "m_ctMsgControl w = a # q" "control_turn E a (w\<lparr>m_ctMsgControl := q\<rparr>) = ret_net (ret, w')"
    have "a \<notin> set (m_ctSessionNew w)" using assms(3) p(1) c(1) by (simp add: race_def)
    with control_turn_ok [OF g(2) _ _ _ c(2)] c(1) have "net_inv hold w'" by auto
    moreover have "same_msgs w w'" using control_turn_msgs [OF c(2)] by (simp add: same_msgs_def)
    ultimately have "net_good hold w'" by (rule good_msgs [OF g(1)])
    then show ?thesis using p by (simp add: turn_good_def)
  next
    assume p: "pc = LControl" "pc' = LWrite (m_mSessionWrite w)" "hold' = hold" "w' = w"
    obtain pl where "net_ok hold pl w" using g(1) by (rule good_places) blast
    then have "net_maps_ok pl w" by (rule net_ok_parts)
    note m = net_maps_okD(2,5) [OF this]
    have "map_of (m_mSessionRead w) s \<noteq> None" if "(s, a) \<in> set (m_mSessionWrite w)" for s a
      using that m(1) [of s a] unfolding smap_mem_iff [OF m(2)] by simp
    then show ?thesis using g(1) p by (auto simp: turn_good_def)
  next
    fix e ret l
    assume p: "pc = LWrite (e # l)" "pc' = (if ret = AD_SUCCESS then LWrite l else LEvents)" "hold' = hold"
      and w: "write_loop E [e] w = ret_net (ret, w')"
    obtain sock a where e: "e = (sock, a)" by (cases e)
    have r: "m_mSessionRead w' = m_mSessionRead w" "net_good hold w'"
      using write_one_read [OF w [unfolded e]] write_one [OF g(1) _ w [unfolded e]] assms(2) p(1) e by (auto simp: turn_good_def)
    then show ?thesis using assms(2) p by (auto simp: turn_good_def)
  next
    fix e k w1 kept l
    assume p: "pc = LClose kept (e # l)" "pc' = LClose (kept @ k) l" "hold' = hold" "w' = w1\<lparr>m_mSessionCloseTime := kept @ k @ l\<rparr>"
      and c: "fst e + 1 < m_ctTime w" "close_loop [e] w = ret_net (k, w1)"
    obtain t a where e: "e = (t, a)" by (cases e)
    have "net_good hold w'" unfolding p(4)
      using assms(2,3) p(1) c(1) unfolding e
      by (intro close_one [OF g(1) _ _ c(2) [unfolded e]]) (auto simp: turn_good_def race_def)
    then show ?thesis using p by (simp add: turn_good_def)
  next
    fix sock nb r
    assume p: "pc = LEvents" "pc' = LEvents" "hold' = hold" and a: "accept_turn E sock nb w = ret_net (r, w')"
    have "net_good hold w'" by (rule good_msgs [OF g(1) accept_turn_ok [OF g(2) a] accept_turn_msgs [OF a]])
    then show ?thesis using p by (simp add: turn_good_def)
  next
    fix s a ty
    assume p: "pc = LEvents" "pc' = LEvents" "hold' = hold" and m: "map_of (m_mSessionRead w) s = Some a"
      "session_message E a s ty w = ret_net w'" and l: "length (in_use hold w') < 4294967296"
    have "net_inv hold w'" by (rule message_inv [OF g(2) m])
    then show ?thesis using p l g(1) message_grows [OF m(2)] by (simp add: turn_good_def net_good_def grows_def)
  next
    assume p: "pc' = pc" and t: "thread_step (hold, w) (hold', w')"
    have "net_good hold' w'" by (rule step_good [OF thread_net [OF t] g(1)])
    then show ?thesis unfolding p using thread_frame [OF t] by (intro pc_frame [OF assms(2)]) simp_all
  next
    fix s
    assume "pc' = LEvents" "hold' = hold" "w' = w\<lparr>n_event := AdEventDel s (n_event w)\<rparr>" "map_of (m_mSessionRead w) s = None"
    then show ?thesis using unknown_good [OF g(1)] by (simp add: turn_good_def)
  qed (use g(1) assms(2) in \<open>auto simp: turn_good_def net_good_def net_inv_def writes_ok_def in_use_def\<close>)
qed

lemma calm_steps_good: "(calm_step E)\<^sup>*\<^sup>* s t \<Longrightarrow> turn_good s \<Longrightarrow> turn_good t"
proof (induction rule: rtranclp_induct)
  case (step t u)
  then show ?case using turn_step_good by (cases t, cases u) (auto simp: calm_step_def)
qed

end

section \<open>A whole turn\<close>

text \<open>A turn of the loop that runs without the others is a sequence of the steps, without a race.\<close>

lemma write_loop_Cons: "write_loop E (e # l) w = bind_net (write_loop E [e] w) (\<lambda>(ret, w).
    if ret \<noteq> AD_SUCCESS then ret_net (AD_FAILURE, w) else write_loop E l w)"
proof -
  obtain sock a where e: "e = (sock, a)" by (cases e)
  show ?thesis
    by (cases "get_session a w") (auto simp: e Let_def case_prod_beta AD_SUCCESS_def AD_FAILURE_def)
qed

lemma bind_net_id: "bind_net m (\<lambda>(x, y). ret_net (x, y)) = m"
  by (cases m) (auto simp: bind_net_def split: option.split)

lemma close_loop_Cons: "m_ctTime w > t + 1 \<Longrightarrow> close_loop ((t, a) # l) w =
    bind_net (close_loop [(t, a)] w) (\<lambda>(k, w). bind_net (close_loop l w) (\<lambda>(l', w). ret_net (k @ l', w)))"
  by (cases "get_session a w") (auto simp: Let_def case_prod_beta bind_net_assoc bind_net_id)

lemma DeleteSession_times:
  "AdNetBaseDeleteSession a (w\<lparr>m_mSessionCloseTime := x\<rparr>) =
    bind_net (AdNetBaseDeleteSession a w) (\<lambda>w. ret_net (w\<lparr>m_mSessionCloseTime := x\<rparr>))"
  by (auto simp: AdNetBaseDeleteSession_def get_session_def split: bool.split prod.split option.split)

lemma put_session_times: "put_session a s (w\<lparr>m_mSessionCloseTime := x\<rparr>) = (put_session a s w)\<lparr>m_mSessionCloseTime := x\<rparr>"
  by (simp add: put_session_def)

lemma get_session_times [simp]: "get_session a (w\<lparr>m_mSessionCloseTime := x\<rparr>) = get_session a w"
  by (simp add: get_session_def)

lemma close_one_times: "close_loop [(t, a)] (w\<lparr>m_mSessionCloseTime := x\<rparr>) =
    bind_net (close_loop [(t, a)] w) (\<lambda>(k, w). ret_net (k, w\<lparr>m_mSessionCloseTime := x\<rparr>))"
  by (cases "get_session a w")
    (auto simp: Let_def case_prod_beta put_session_times DeleteSession_times bind_net_assoc intro!: arg_cong [where f = "bind_net m" for m])

lemma close_one_control: "close_loop [(t, a)] w = ret_net (k, w') \<Longrightarrow> m_ctMsgControl w' = m_ctMsgControl w"
  by (auto simp: Let_def case_prod_beta bind_net_ret_iff bind_cxx_Inr_iff split: if_splits dest!: DeleteSession_net_frame)
    (simp add: net_frame_def)

lemma calm_path: "turn_step E s t \<Longrightarrow> \<not> race s \<Longrightarrow> (calm_step E)\<^sup>*\<^sup>* t u \<Longrightarrow> (calm_step E)\<^sup>*\<^sup>* s u"
  by (rule converse_rtranclp_into_rtranclp) (simp_all add: calm_step_def)

lemma calm_one: "turn_step E s t \<Longrightarrow> \<not> race s \<Longrightarrow> (calm_step E)\<^sup>*\<^sup>* s t"
  by (erule calm_path) auto

lemma no_race [simp]: "\<not> race (LEvents, hold, w)" "\<not> race (LNew, hold, w)" "\<not> race (LWrite l, hold, w)" "\<not> race (LClose kept [], hold, w)"
  "m_ctSessionNew w = [] \<Longrightarrow> \<not> race (LControl, hold, w)" "m_ctMsgControl w = [] \<Longrightarrow> \<not> race (LControl, hold, w)"
  "m_ctMsgControl w = [] \<Longrightarrow> \<not> race (LClose kept l, hold, w)"
  by (simp_all add: race_def split: list.split)

lemma new_loop_steps: "new_loop E n w = ret_net w' \<Longrightarrow> (calm_step E)\<^sup>*\<^sup>* (LNew, hold, w) (LControl, hold, w')"
proof (induction n arbitrary: w)
  case (Suc n)
  show ?case
  proof (cases "m_ctSessionNew w")
    case Nil
    then show ?thesis using Suc.prems calm_one [OF turn_new_end [OF Nil]] by simp
  next
    case (Cons a q)
    then obtain w1 where "new_turn E a (w\<lparr>m_ctSessionNew := q\<rparr>) = ret_net w1" "new_loop E n w1 = ret_net w'"
      using new_loop_turn_ret [OF Suc.prems Cons] by blast
    then show ?thesis using calm_path [OF turn_new [OF Cons]] Suc.IH by simp
  qed
qed simp

lemma write_loop_steps: "write_loop E l w = ret_net (ret, w') \<Longrightarrow>
    (calm_step E)\<^sup>*\<^sup>* (LWrite l, hold, w) (if ret = AD_SUCCESS then LWrite [] else LEvents, hold, w')"
proof (induction l arbitrary: w)
  case (Cons e l)
  obtain r w1 where w1: "write_loop E [e] w = ret_net (r, w1)"
      and run: "(if r \<noteq> AD_SUCCESS then ret_net (AD_FAILURE, w1) else write_loop E l w1) = ret_net (ret, w')"
    using Cons.prems by (subst (asm) write_loop_Cons) (auto simp: bind_net_ret_iff)
  show ?case
  proof (cases "r = AD_SUCCESS")
    case True
    then show ?thesis using calm_path [OF turn_write [OF w1]] Cons.IH run by simp
  next
    case False
    then have "ret = AD_FAILURE" "w' = w1" using run by auto
    then show ?thesis using calm_path [OF turn_write [OF w1]] False by (simp add: AD_SUCCESS_def AD_FAILURE_def)
  qed
qed (simp add: AD_SUCCESS_def)

lemma close_loop_steps:
  "close_loop l w = ret_net (l', w') \<Longrightarrow> m_ctMsgControl w = [] \<Longrightarrow>
    (calm_step E)\<^sup>*\<^sup>* (LClose kept l, hold, w\<lparr>m_mSessionCloseTime := kept @ l\<rparr>) (LEvents, hold, w'\<lparr>m_mSessionCloseTime := kept @ l'\<rparr>)"
proof (induction l arbitrary: w kept l')
  case Nil
  then show ?case using calm_one [OF turn_close_end [where l = "[]"]] by auto
next
  case (Cons e l)
  obtain t a where e: "e = (t, a)" by (cases e)
  show ?case
  proof (cases "m_ctTime w > t + 1")
    case True
    then obtain k w1 l1 where w1: "close_loop [(t, a)] w = ret_net (k, w1)" "close_loop l w1 = ret_net (l1, w')" "l' = k @ l1"
      using Cons.prems(1) unfolding e by (subst (asm) close_loop_Cons) (auto simp: bind_net_ret_iff)
    let ?w = "w\<lparr>m_mSessionCloseTime := kept @ e # l\<rparr>"
    have c: "close_loop [e] ?w = ret_net (k, w1\<lparr>m_mSessionCloseTime := kept @ e # l\<rparr>)"
      using w1(1) close_one_times [of t a "kept @ e # l" w] by (simp add: e)
    have s: "turn_step E (LClose kept (e # l), hold, ?w) (LClose (kept @ k) l, hold, w1\<lparr>m_mSessionCloseTime := (kept @ k) @ l\<rparr>)"
      using turn_close [OF _ c, where kept = kept and l = l and hold = hold and E = E] True by (simp add: e)
    have "m_ctMsgControl w1 = []" using close_one_control [OF w1(1)] Cons.prems(2) by simp
    from calm_path [OF s _ Cons.IH [OF w1(2) this]] show ?thesis using Cons.prems(2) w1(3) by simp
  next
    case False
    then have "l' = e # l" "w' = w" using Cons.prems(1) by (simp_all add: e)
    then show ?thesis
      using calm_one [OF turn_close_end [where l = "e # l" and w = "w\<lparr>m_mSessionCloseTime := kept @ e # l\<rparr>"]] False Cons.prems(2) by (simp add: e)
  qed
qed

context reconnecting begin

lemma control_loop_steps:
  assumes "net_inv hold w" "m_ctSessionNew w = []" "control_loop E n w = ret_net (ret, w')"
  shows "(calm_step E)\<^sup>*\<^sup>* (LControl, hold, w) (if ret = AD_SUCCESS then LWrite (m_mSessionWrite w') else LEvents, hold, w')"
  using assms
proof (induction n arbitrary: w)
  case (Suc n)
  from control_loop_Suc [OF Suc.prems(3)] show ?case
  proof (elim disjE exE conjE)
    assume c: "m_ctMsgControl w = []" "ret = AD_SUCCESS" "w' = w"
    then show ?thesis using calm_path [OF turn_control_end [OF c(1)]] by simp
  next
    fix a q r w1
    assume q: "m_ctMsgControl w = a # q" and w1: "control_turn E a (w\<lparr>m_ctMsgControl := q\<rparr>) = ret_net (r, w1)"
      and run: "if r \<noteq> AD_SUCCESS then ret = AD_FAILURE \<and> w' = w1 else control_loop E n w1 = ret_net (ret, w')"
    have i: "net_inv hold w1" "m_ctSessionNew w1 = []"
      using Suc.prems(1,2) w1 q control_turn_ok [of hold w a q] by auto
    note s = calm_path [OF turn_control [OF q w1]]
    show ?thesis
    proof (cases "r = AD_SUCCESS")
      case True
      then show ?thesis using s Suc.IH [OF i] run Suc.prems(2) by simp
    next
      case False
      then show ?thesis using s run Suc.prems(2) by (simp add: AD_SUCCESS_def AD_FAILURE_def)
    qed
  qed
qed simp

lemma loop_steps:
  assumes "net_inv hold w" "AdNetBaseLoop E n now w = ret_net (ret, w')"
  shows "(calm_step E)\<^sup>*\<^sup>* (LEvents, hold, w) (LEvents, hold, w')"
proof -
  obtain w1 r2 w2 where w1: "new_loop E n (w\<lparr>m_ctTime := now\<rparr>) = ret_net w1"
      and w2: "control_loop E n w1 = ret_net (r2, w2)"
      and run: "(if r2 \<noteq> AD_SUCCESS then ret_net (AD_FAILURE, w2)
        else bind_net (write_loop E (m_mSessionWrite w2) w2) (\<lambda>(ret, w).
          if ret \<noteq> AD_SUCCESS then ret_net (AD_FAILURE, w)
          else bind_net (close_loop (m_mSessionCloseTime w) w) (\<lambda>(l, w). ret_net (AD_SUCCESS, w\<lparr>m_mSessionCloseTime := l\<rparr>)))) = ret_net (ret, w')"
    using assms(2) unfolding AdNetBaseLoop_def bind_net_ret_iff by auto
  have "net_inv hold (w\<lparr>m_ctTime := now\<rparr>)" using assms(1) by (simp add: net_inv_def)
  then have i1: "net_inv hold w1" "m_ctSessionNew w1 = []" using new_loop_ok [OF _ w1] by auto
  have i2: "net_inv hold w2" "r2 = AD_SUCCESS \<Longrightarrow> m_ctMsgControl w2 = []" using control_loop_ok [OF i1 w2] by auto
  have "(calm_step E)\<^sup>*\<^sup>* (LEvents, hold, w) (LNew, hold, w\<lparr>m_ctTime := now\<rparr>)"
    by (rule calm_one [OF turn_start]) simp
  also note new_loop_steps [OF w1]
  also note control_loop_steps [OF i1 w2]
  finally have c: "(calm_step E)\<^sup>*\<^sup>* (LEvents, hold, w) (if r2 = AD_SUCCESS then LWrite (m_mSessionWrite w2) else LEvents, hold, w2)" .
  show ?thesis
  proof (cases "r2 = AD_SUCCESS")
    case False
    then show ?thesis using run c by simp
  next
    case True
    then obtain r3 w3 where w3: "write_loop E (m_mSessionWrite w2) w2 = ret_net (r3, w3)"
        and run3: "(if r3 \<noteq> AD_SUCCESS then ret_net (AD_FAILURE, w3)
          else bind_net (close_loop (m_mSessionCloseTime w3) w3) (\<lambda>(l, w). ret_net (AD_SUCCESS, w\<lparr>m_mSessionCloseTime := l\<rparr>))) = ret_net (ret, w')"
      using run by (auto simp: bind_net_ret_iff)
    have c3: "(calm_step E)\<^sup>*\<^sup>* (LEvents, hold, w) (if r3 = AD_SUCCESS then LWrite [] else LEvents, hold, w3)"
      using rtranclp_trans [OF c] write_loop_steps [OF w3] True by simp
    show ?thesis
    proof (cases "r3 = AD_SUCCESS")
      case False
      then show ?thesis using run3 c3 by simp
    next
      case True
      then obtain l w4 where w4: "close_loop (m_mSessionCloseTime w3) w3 = ret_net (l, w4)" "w' = w4\<lparr>m_mSessionCloseTime := l\<rparr>"
        using run3 by (auto simp: bind_net_ret_iff)
      obtain pl where pl: "net_ok hold pl w2" using i2(1) by (rule net_inv_obtain) blast
      have wr: "map_of (m_mSessionRead w2) s \<noteq> None" if "(s, a) \<in> set (m_mSessionWrite w2)" for s a
        using that net_ok_parts(2) [OF pl] by (auto simp: net_maps_ok_def smap_mem_iff)
      have "m_ctMsgControl w3 = []" using write_loop_ok [OF pl wr w3] i2(2) \<open>r2 = AD_SUCCESS\<close> by simp
      from close_loop_steps [OF w4(1) this, of E "[]" hold]
      have "(calm_step E)\<^sup>*\<^sup>* (LClose [] (m_mSessionCloseTime w3), hold, w3) (LEvents, hold, w')" by (simp add: w4(2))
      then have "(calm_step E)\<^sup>*\<^sup>* (LWrite [], hold, w3) (LEvents, hold, w')" by (rule calm_path [OF turn_write_end no_race(3)])
      then show ?thesis using rtranclp_trans [OF c3] True by simp
    qed
  qed
qed

lemma accept_loop_steps: "accept_loop E l w = ret_net (r, w') \<Longrightarrow> (calm_step E)\<^sup>*\<^sup>* (LEvents, hold, w) (LEvents, hold, w')"
proof (induction l arbitrary: w)
  case Nil
  then obtain k where "accept_turn E AD_FAILURE True w = ret_net (k, w')" by (auto simp: bind_net_ret_iff)
  from calm_one [OF turn_accept [OF this]] show ?case by simp
next
  case (Cons e l)
  obtain sock nb where e: "e = (sock, nb)" by (cases e)
  obtain k w1 where w1: "accept_turn E sock nb w = ret_net (k, w1)"
      and run: "(case k of None \<Rightarrow> accept_loop E l w1 | Some r \<Rightarrow> ret_net (r, w1)) = ret_net (r, w')"
    using Cons.prems by (auto simp: e bind_net_ret_iff)
  note s = turn_accept [OF w1, of hold]
  show ?case
  proof (cases k)
    case None
    with run Cons.IH [of w1] show ?thesis by (intro calm_path [OF s]) simp_all
  next
    case (Some r1)
    with run calm_one [OF s] show ?thesis by simp
  qed
qed

lemma message_steps:
  assumes "net_inv hold w" "AdEventHandleMsg E n now acc s ty w = ret_net (r, w')" "length (in_use hold w') < 2 ^ 32"
  shows "(calm_step E)\<^sup>*\<^sup>* (LEvents, hold, w) (LEvents, hold, w')"
proof (cases "ty = AD_EVENT_READ \<and> s = m_iServer w")
  case True
  then show ?thesis using assms(2) accept_loop_steps by (auto simp: AdEventHandleMsg_def)
next
  case not_server: False
  show ?thesis
  proof (cases "map_of (m_mSessionRead w) s")
    case None
    then have "w' = w\<lparr>n_event := AdEventDel s (n_event w)\<rparr>" using assms(2) not_server by (auto simp: AdEventHandleMsg_def)
    then show ?thesis using calm_one [OF turn_unknown [OF None]] by simp
  next
    case (Some a)
    then obtain w1 r1 where w1: "session_message E a s ty w = ret_net w1" "AdNetBaseLoop E n now w1 = ret_net (r1, w')"
      using assms(2) not_server by (auto simp: AdEventHandleMsg_def bind_net_ret_iff split: if_splits)
    have l: "length (in_use hold w1) < 2 ^ 32" using grows_less [OF grows_same [OF Loop_msgs [OF w1(2)]] assms(3)] .
    show ?thesis
      by (rule calm_path [OF turn_message [OF Some w1(1) l] _ loop_steps [OF message_inv [OF assms(1) Some w1(1)] w1(2)]]) simp
  qed
qed

lemma handle_all_steps:
  "net_inv hold w \<Longrightarrow> handle_all E n r fd ms w = ret_net w' \<Longrightarrow> length (in_use hold w') < 2 ^ 32 \<Longrightarrow>
    (calm_step E)\<^sup>*\<^sup>* (LEvents, hold, w) (LEvents, hold, w')"
proof (induction ms arbitrary: w)
  case (Cons m ms)
  then obtain k w1 where w1: "AdEventHandleMsg E n (r_now r) (r_accepts r) fd m w = ret_net (k, w1)" "handle_all E n r fd ms w1 = ret_net w'"
    by (auto simp: bind_net_ret_iff)
  have l: "length (in_use hold w1) < 2 ^ 32" by (rule grows_less [OF handle_all_grows [OF w1(2)] Cons.prems(3)])
  show ?case
    using rtranclp_trans [OF message_steps [OF Cons.prems(1) w1(1) l] Cons.IH [OF HandleMsg_inv [OF Cons.prems(1) w1(1) l] w1(2) Cons.prems(3)]] .
qed simp

lemma wait_steps:
  "net_inv hold w \<Longrightarrow> AdEventWait E n rs w = ret_net w' \<Longrightarrow> length (in_use hold w') < 2 ^ 32 \<Longrightarrow>
    (calm_step E)\<^sup>*\<^sup>* (LEvents, hold, w) (LEvents, hold, w')"
proof (induction rs arbitrary: w)
  case (Cons r rs)
  then obtain w1 where w1: "(case map_of (ev_base (n_event w)) (r_event r) of None \<Rightarrow> ret_net w
       | Some v \<Rightarrow> handle_all E n r (ev_fd v) (ready_messages r v) w) = ret_net w1" "AdEventWait E n rs w1 = ret_net w'"
    by (auto simp: bind_net_ret_iff)
  have l: "length (in_use hold w1) < 2 ^ 32" by (rule grows_less [OF Wait_grows [OF w1(2)] Cons.prems(3)])
  have i: "net_inv hold w1" using w1(1) Cons.prems(1) handle_all_inv l by (auto split: option.splits)
  have "(calm_step E)\<^sup>*\<^sup>* (LEvents, hold, w) (LEvents, hold, w1)"
    using w1(1) handle_all_steps [OF Cons.prems(1) _ l] by (auto split: option.splits)
  also note Cons.IH [OF i w1(2) Cons.prems(3)]
  finally show ?case .
qed simp

lemma net_step_calm:
  assumes "net_step E (hold, w) (hold', w')" "net_good hold w"
  shows "(calm_step E)\<^sup>*\<^sup>* (LEvents, hold, w) (LEvents, hold', w')"
  using assms(1)
proof (cases rule: net_step.cases)
  case (step_loop n now rs)
  obtain r w1 where w1: "AdNetBaseLoop E n now w = ret_net (r, w1)" "AdEventWait E n rs w1 = ret_net w'"
    using step_loop by (auto simp: AdNetBaseRun_def bind_net_ret_iff)
  have g: "net_inv hold w" "length (in_use hold w) < 2 ^ 32" using assms(2) by (simp_all add: net_good_def)
  have "(calm_step E)\<^sup>*\<^sup>* (LEvents, hold, w) (LEvents, hold, w1)" by (rule loop_steps [OF g(1) w1(1)])
  also have "(calm_step E)\<^sup>*\<^sup>* (LEvents, hold, w1) (LEvents, hold, w')"
    using wait_steps [OF Loop_ok [OF g w1(1)] w1(2)] step_loop by simp
  finally show ?thesis using step_loop by simp
qed (auto intro!: calm_one turn_thread intro: thread_step.intros)

lemma net_steps_calm:
  "(net_step E)\<^sup>*\<^sup>* (hold, w) (hold', w') \<Longrightarrow> net_good hold w \<Longrightarrow> (calm_step E)\<^sup>*\<^sup>* (LEvents, hold, w) (LEvents, hold', w')"
proof (induction "(hold', w')" arbitrary: hold' w' rule: rtranclp_induct)
  case (step y)
  obtain h1 w1 where y: "y = (h1, w1)" by (cases y)
  then have "(calm_step E)\<^sup>*\<^sup>* (LEvents, hold, w) (LEvents, h1, w1)" using step by simp
  also have "(calm_step E)\<^sup>*\<^sup>* (LEvents, h1, w1) (LEvents, hold', w')"
    using step y steps_good by (intro net_step_calm) auto
  finally show ?case .
qed simp

end

section \<open>Where a session is\<close>

text \<open>
  C7. In every state that a server reaches, while its loop accepts connections, handles events and goes through the control
  messages, the delayed writes and the closed sessions, and between any two of these steps workers take, use and release
  sessions and write tasks write, as long as no state of the run is a race, one in which the loop is about to release a
  closed session that no one uses and that still has a control message: every session object is in exactly one
  place, in the free list, among the new ones, open under one socket or closed and waiting; a session that is in a
  queue of messages or with a thread is open or closed, so that it is not given to another connection; a free one has no
  user; every open socket is watched by libevent. (The other race needs new sessions, which only a client has.)
\<close>

theorem sessions_in_one_place:
  assumes "AdServerInit (server_env (\<lambda>_. True)) (Some sock) msgRead msgWrite (AdNetBase_new now) = (ret, w0)"
    "(calm_step (server_env (\<lambda>_. True)))\<^sup>*\<^sup>* (LEvents, [], w0) (pc, hold, w)"
  shows "distinct (m_ctSessionFree w @ m_ctSessionNew w @ map snd (m_mSessionRead w) @ map fst (m_mSessionClose w)) \<and>
    fst ` set (n_heap w) = set (m_ctSessionFree w @ m_ctSessionNew w @ map snd (m_mSessionRead w) @ map fst (m_mSessionClose w)) \<and>
    set (concat (m_vMsgRead w) @ hold) \<subseteq> set (map snd (m_mSessionRead w) @ map fst (m_mSessionClose w)) \<and>
    (\<forall>a \<in> set (m_ctSessionFree w). map_option m_uiActive (map_of (n_heap w) a) = Some 0) \<and>
    (\<forall>(s, a) \<in> set (m_mSessionRead w). wants_read (AdEventState s (n_event w)) \<and> map_of (m_mRead (n_event w)) s \<noteq> None)"
proof -
  have "turn_good (LEvents, [], w0)" using server_start [OF assms(1)] by (simp add: turn_good_def)
  from server.calm_steps_good [OF assms(2) this] have g: "net_good hold w" by (simp add: turn_good_def)
  obtain pl where pl: "net_ok hold pl w" using g by (rule good_places) blast
  note ok = net_ok_parts [OF pl]
  have free: "map_option m_uiActive (map_of (n_heap w) a) = Some 0" if "a \<in> set (m_ctSessionFree w)" for a
  proof -
    have p: "pl a = InFree" using that queues_okD(1) [OF ok(3)] by simp
    then obtain s where s: "map_of (n_heap w) a = Some s" using heap_okD(1) [OF ok(1), of a] by auto
    have "a \<notin> set (in_use hold w)" using queues_okD(5) [OF ok(3), of a] p by auto
    then show ?thesis using heap_okD(2) [OF ok(1) s] s by (simp add: count_list_0_iff)
  qed
  have ev: "wants_read (AdEventState s (n_event w)) \<and> map_of (m_mRead (n_event w)) s \<noteq> None" if "(s, a) \<in> set (m_mSessionRead w)" for s a
    using that ok(4) by (force simp: net_watched_def event_inv_def flags_ok_def dest: weak_map_of_SomeI)
  show ?thesis using good_one_place [OF g] free ev by (auto simp: in_use_def)
qed

theorem sessions_in_one_place_witness:
  "distinct (m_ctSessionFree accepted_ex @ m_ctSessionNew accepted_ex @ map snd (m_mSessionRead accepted_ex) @
     map fst (m_mSessionClose accepted_ex)) \<and> m_ctSessionFree accepted_ex = [2] \<and> m_mSessionRead accepted_ex = [(5, 1)]"
proof -
  have "net_good [] server_ex" using server_start [OF server_started] by simp
  moreover have "(net_step (server_env (\<lambda>_. True)))\<^sup>*\<^sup>* ([], server_ex) ([], accepted_ex)"
    using server_accepted by (simp add: server_state_def server_started)
  ultimately have "(calm_step (server_env (\<lambda>_. True)))\<^sup>*\<^sup>* (LEvents, [], server_ex) (LEvents, [], accepted_ex)"
    by (intro server.net_steps_calm)
  from sessions_in_one_place [OF server_started this] show ?thesis by (simp add: net_ex)
qed

section \<open>The race\<close>

text \<open>
  A run of a server with one connection that meets the race. A worker reads the end of the connection, and the loop puts the
  session among the closed ones. Two seconds later the loop is past the control messages when the worker writes once more
  to the session, which fails and leaves a control message, and lets it go; so the session is released. In the next turn the
  message makes it a closed session again, while it is free: the next connection gets it.
\<close>

definition race_session :: "UINT \<Rightarrow> unit AdSession" where
  "race_session n = session_ex\<lparr>m_ctTcp := \<lparr>m_t_iSocket = AD_FAILURE, m_sent = []\<rparr>, m_uiActive := n\<rparr>"

definition race_open :: "unit AdNetBase" where
  "race_open = accepting_ex\<lparr>m_ctTime := 100\<rparr>"

definition race_read :: "unit AdNetBase" where
  "race_read = race_open\<lparr>n_heap := [(1, session_ex\<lparr>m_uiActive := 1\<rparr>)], m_vMsgRead := [[1], []], m_uiRead := 1\<rparr>"

definition race_taken :: "unit AdNetBase" where
  "race_taken = race_read\<lparr>m_vMsgRead := [[], []]\<rparr>"

definition race_ended :: "unit AdNetBase" where
  "race_ended = race_taken\<lparr>n_heap := [(1, race_session 1)], m_ctMsgControl := [1]\<rparr>"

definition race_closed :: "unit AdNetBase" where
  "race_closed = race_taken\<lparr>n_heap := [(1, race_session 1)], n_event := AdEventDel 5 (n_event race_taken), m_mSessionRead := [],
     m_mSessionClose := [(1, 1)], m_mSessionCloseTime := [(100, 1)], m_uiCloseSession := 1\<rparr>"

definition race_written :: "unit AdNetBase" where
  "race_written = race_closed\<lparr>m_ctTime := 102, m_ctMsgControl := [1]\<rparr>"

definition race_idle :: "unit AdNetBase" where
  "race_idle = race_written\<lparr>n_heap := [(1, race_session 0)]\<rparr>"

definition race_released :: "unit AdNetBase" where
  "race_released = race_idle\<lparr>m_mSessionClose := [], m_mSessionCloseTime := [], m_ctSessionFree := [1], m_uiDelSession := 1\<rparr>"

definition race_twice :: "unit AdNetBase" where
  "race_twice = race_released\<lparr>m_ctTime := 103, m_ctMsgControl := [], m_mSessionClose := [(1, 1)], m_mSessionCloseTime := [(103, 1)],
     m_uiCloseSession := 2\<rparr>"

lemmas race_states = race_session_def race_open_def race_read_def race_taken_def race_ended_def race_closed_def race_written_def
  race_idle_def race_released_def race_twice_def

lemmas race_eval = session_use_def put_session_def get_session_def session_failed_def session_push_def AdSessionClose_def
  Disconnect_def AD_TASK_SESSION_MAX_def Let_def AD_FAILURE_def AD_SUCCESS_def

abbreviation E0 :: "unit AdNetBase netenv" where "E0 \<equiv> server_env (\<lambda>_. True)"

lemma race_accept: "accept_turn E0 5 True server_ex = ret_net (None, race_open)"
  by (simp add: race_states net_ex net_eval)

lemma race_message: "session_message E0 1 5 AD_EVENT_READ race_open = ret_net race_read"
  by (simp add: session_message_def msg_events AdNetBasePushMsg_def queue_try_push_def next_queue_def AdSessionActive_def race_states net_ex race_eval)

lemma race_eof: "session_use (run_op (OpRead None [([], ReadEof)])) 1 race_taken = ret_net ((), race_ended)"
  by (simp add: race_eval race_states net_ex AdSessionRead.simps(2) Tcp_Read_def)

lemma race_control: "control_turn E0 1 (race_ended\<lparr>m_ctMsgControl := []\<rparr>) = ret_net (AD_SUCCESS, race_closed)"
  by (simp add: control_turn_def AdNetBaseCloseSession_def AdSessionOk_def AdSessionGetTimeout_def server_env_def
    AdNetBaseSessionReconnect_def race_eval race_states net_ex)

lemma race_write: "session_use (run_op (OpWrite WriteError [] \<lparr>m_cCache = ''x'', m_iLen = 1, m_iMaxLen = 1\<rparr>)) 1
    (race_closed\<lparr>m_ctTime := 102\<rparr>) = ret_net ((), race_written)"
  by (simp add: AdSessionWrite_def session_write_def Tcp_Write_def race_eval race_states net_ex)

lemma race_let_go: "session_use (\<lambda>s. Inr ((), AdSessionIdle s)) 1 race_written = ret_net ((), race_idle)"
  by (simp add: AdSessionIdle_def race_eval race_states net_ex)

lemma race_release: "close_loop [(100, 1)] race_idle = ret_net ([], race_released\<lparr>m_mSessionCloseTime := [(100, 1)]\<rparr>)"
  by (simp add: AdNetBaseDeleteSession_def queue_try_push_def race_eval race_states net_ex)

lemma race_again: "control_turn E0 1 (race_released\<lparr>m_ctTime := 103, m_ctMsgControl := []\<rparr>) = ret_net (AD_SUCCESS, race_twice)"
  by (simp add: control_turn_def AdNetBaseCloseSession_def AdSessionOk_def AdSessionGetTimeout_def server_env_def
    AdNetBaseSessionReconnect_def race_eval race_states net_ex)


definition race_reused :: "unit AdNetBase" where
  "race_reused = race_twice\<lparr>n_event := \<lparr>ev_base =
       [(0, \<lparr>ev_fd = 3, ev_write = False, ev_timeout = None\<rparr>), (2, \<lparr>ev_fd = 6, ev_write = False, ev_timeout = None\<rparr>)],
       ev_next = 3, m_mWrite = [], m_mRead = [(3, 0), (6, 2)], m_mState = [(3, 1), (6, 1)], m_mTimeout = []\<rparr>,
     n_heap := [(1, session_ex\<lparr>m_ctTcp := \<lparr>m_t_iSocket = 6, m_sent = []\<rparr>, m_s_iSocket := 6\<rparr>)], m_ctSessionFree := [],
     m_mSessionRead := [(6, 1)], m_uiAllSession := 2\<rparr>"

lemma race_event: "n_event race_twice = (n_event server_ex)\<lparr>ev_next := 2\<rparr>"
  by (simp add: race_states net_ex AdEventDel_def free_write_def free_read_def ad_events)

lemma race_reuse: "accept_turn E0 6 True race_twice = ret_net (None, race_reused)"
proof -
  have "race_twice = race_twice\<lparr>n_event := (n_event server_ex)\<lparr>ev_next := 2\<rparr>\<rparr>"
    by (simp add: race_event [symmetric])
  also have "accept_turn E0 6 True \<dots> = ret_net (None, race_reused)"
    by (simp add: race_states race_reused_def net_ex net_eval)
  finally show ?thesis .
qed

text \<open>
  The run: up to the race, a calm run to a state in which the session is among the closed ones only; after it the session
  is free and closed at once, and then open under the socket of another connection while it is closed.
\<close>

lemma race_before: "(calm_step E0)\<^sup>*\<^sup>* (LEvents, [], server_ex) (LClose [] [(100, 1)], [], race_idle)"
proof -
  have "turn_step E0 (LEvents, [], server_ex) (LEvents, [], race_open)" by (rule turn_accept [OF race_accept])
  then have "(calm_step E0)\<^sup>*\<^sup>* (LEvents, [], server_ex) (LEvents, [], race_open)" by (rule calm_one) simp
  also have "turn_step E0 (LEvents, [], race_open) (LEvents, [], race_read)"
    by (rule turn_message [OF _ race_message]) (simp_all add: race_states net_ex in_use_def)
  then have "(calm_step E0)\<^sup>*\<^sup>* (LEvents, [], race_open) (LEvents, [], race_read)" by (rule calm_one) simp
  also have "thread_step ([], race_read) ([1], race_taken)"
    using thread_take [of 0 race_read 1 "[]" "[]"] by (simp add: race_taken_def) (simp add: race_read_def)
  then have "(calm_step E0)\<^sup>*\<^sup>* (LEvents, [], race_read) (LEvents, [1], race_taken)" by (intro calm_one turn_thread) simp_all
  also have "thread_step ([1], race_taken) ([1], race_ended)" by (rule thread_use [OF _ race_eof]) simp
  then have "(calm_step E0)\<^sup>*\<^sup>* (LEvents, [1], race_taken) (LEvents, [1], race_ended)" by (intro calm_one turn_thread) simp_all
  also have "turn_step E0 (LEvents, [1], race_ended) (LNew, [1], race_ended)"
    using turn_start [of E0 "[1]" race_ended 100] by (simp add: race_states net_ex)
  then have "(calm_step E0)\<^sup>*\<^sup>* (LEvents, [1], race_ended) (LNew, [1], race_ended)" by (rule calm_one) simp
  also have "turn_step E0 (LNew, [1], race_ended) (LControl, [1], race_ended)"
    by (rule turn_new_end) (simp add: race_states net_ex)
  then have "(calm_step E0)\<^sup>*\<^sup>* (LNew, [1], race_ended) (LControl, [1], race_ended)" by (rule calm_one) simp
  also have "turn_step E0 (LControl, [1], race_ended) (LControl, [1], race_closed)"
    using turn_control [OF _ race_control, of "[1]"] by (simp add: race_ended_def)
  then have "(calm_step E0)\<^sup>*\<^sup>* (LControl, [1], race_ended) (LControl, [1], race_closed)"
    by (rule calm_one) (simp add: race_states net_ex)
  also have "(calm_step E0)\<^sup>*\<^sup>* (LControl, [1], race_closed) (LWrite [], [1], race_closed)"
    using calm_one [OF turn_control_end [of race_closed E0 "[1]"]] by (simp add: race_states net_ex)
  also have "(calm_step E0)\<^sup>*\<^sup>* (LWrite [], [1], race_closed) (LClose [] [(100, 1)], [1], race_closed)"
    using calm_one [OF turn_write_end [of E0 "[1]" race_closed]] by (simp add: race_closed_def)
  also have "(calm_step E0)\<^sup>*\<^sup>* (LClose [] [(100, 1)], [1], race_closed) (LEvents, [1], race_closed)"
    by (intro calm_one turn_close_end) (simp_all add: race_states net_ex)
  also have "(calm_step E0)\<^sup>*\<^sup>* (LEvents, [1], race_closed) (LNew, [1], race_closed\<lparr>m_ctTime := 102\<rparr>)"
    by (intro calm_one turn_start) simp
  also have "(calm_step E0)\<^sup>*\<^sup>* (LNew, [1], race_closed\<lparr>m_ctTime := 102\<rparr>) (LControl, [1], race_closed\<lparr>m_ctTime := 102\<rparr>)"
    by (intro calm_one turn_new_end) (simp_all add: race_states net_ex)
  also have "(calm_step E0)\<^sup>*\<^sup>* (LControl, [1], race_closed\<lparr>m_ctTime := 102\<rparr>) (LWrite [], [1], race_closed\<lparr>m_ctTime := 102\<rparr>)"
    using calm_one [OF turn_control_end [of "race_closed\<lparr>m_ctTime := 102\<rparr>" E0 "[1]"]] by (simp add: race_states net_ex)
  also have "(calm_step E0)\<^sup>*\<^sup>* (LWrite [], [1], race_closed\<lparr>m_ctTime := 102\<rparr>) (LClose [] [(100, 1)], [1], race_closed\<lparr>m_ctTime := 102\<rparr>)"
    using calm_one [OF turn_write_end [of E0 "[1]" "race_closed\<lparr>m_ctTime := 102\<rparr>"]] by (simp add: race_closed_def)
  also have "thread_step ([1], race_closed\<lparr>m_ctTime := 102\<rparr>) ([1], race_written)" by (rule thread_use [OF _ race_write]) simp
  then have "(calm_step E0)\<^sup>*\<^sup>* (LClose [] [(100, 1)], [1], race_closed\<lparr>m_ctTime := 102\<rparr>) (LClose [] [(100, 1)], [1], race_written)"
    by (intro calm_one turn_thread) (simp_all add: race_states net_ex race_def)
  also have "thread_step ([1], race_written) ([], race_idle)" using thread_idle [OF _ race_let_go, of "[1]"] by simp
  then have "(calm_step E0)\<^sup>*\<^sup>* (LClose [] [(100, 1)], [1], race_written) (LClose [] [(100, 1)], [], race_idle)"
    by (intro calm_one turn_thread) (simp_all add: race_states net_ex race_def)
  finally show ?thesis .
qed

lemma race_after: "(turn_step E0)\<^sup>*\<^sup>* (LClose [] [(100, 1)], [], race_idle) (LControl, [], race_twice)"
proof -
  have "turn_step E0 (LClose [] [(100, 1)], [], race_idle) (LClose [] [], [], race_released)"
    using turn_close [OF _ race_release, of E0 "[]" "[]" "[]"] by (simp add: race_states net_ex)
  moreover have "turn_step E0 (LClose [] [], [], race_released) (LEvents, [], race_released)" by (rule turn_close_end) simp
  moreover have "turn_step E0 (LEvents, [], race_released) (LNew, [], race_released\<lparr>m_ctTime := 103\<rparr>)" by (rule turn_start)
  moreover have "turn_step E0 (LNew, [], race_released\<lparr>m_ctTime := 103\<rparr>) (LControl, [], race_released\<lparr>m_ctTime := 103\<rparr>)"
    by (rule turn_new_end) (simp add: race_states net_ex)
  moreover have "turn_step E0 (LControl, [], race_released\<lparr>m_ctTime := 103\<rparr>) (LControl, [], race_twice)"
    using turn_control [of "race_released\<lparr>m_ctTime := 103\<rparr>" 1 "[]" E0 AD_SUCCESS race_twice "[]"] race_again
    by (simp add: race_states net_ex)
  ultimately show ?thesis by (meson converse_rtranclp_into_rtranclp rtranclp.rtrancl_refl)
qed

text \<open>The race, from the start of the server.\<close>

theorem race_opens_closed_session:
  "AdServerInit E0 (Some 3) 2 1 (AdNetBase_new 100) = (AD_SUCCESS, server_ex) \<and>
    (calm_step E0)\<^sup>*\<^sup>* (LEvents, [], server_ex) (LClose [] [(100, 1)], [], race_idle) \<and> race (LClose [] [(100, 1)], [], race_idle) \<and>
    (turn_step E0)\<^sup>*\<^sup>* (LClose [] [(100, 1)], [], race_idle) (LControl, [], race_twice) \<and>
    m_ctSessionFree race_twice = [1] \<and> map fst (m_mSessionClose race_twice) = [1] \<and>
    (turn_step E0)\<^sup>*\<^sup>* (LControl, [], race_twice) (LEvents, [], race_reused) \<and>
    m_mSessionRead race_reused = [(6, 1)] \<and> map fst (m_mSessionClose race_reused) = [1]"
proof -
  have "turn_step E0 (LControl, [], race_twice) (LWrite [], [], race_twice)"
    using turn_control_end [of race_twice E0 "[]"] by (simp add: race_states net_ex)
  moreover have "turn_step E0 (LWrite [], [], race_twice) (LClose [] [(103, 1)], [], race_twice)"
    using turn_write_end [of E0 "[]" race_twice] by (simp add: race_twice_def)
  moreover have "turn_step E0 (LClose [] [(103, 1)], [], race_twice) (LEvents, [], race_twice)"
    by (rule turn_close_end) (simp add: race_twice_def)
  moreover have "turn_step E0 (LEvents, [], race_twice) (LEvents, [], race_reused)" by (rule turn_accept [OF race_reuse])
  ultimately have "(turn_step E0)\<^sup>*\<^sup>* (LControl, [], race_twice) (LEvents, [], race_reused)"
    by (meson converse_rtranclp_into_rtranclp rtranclp.rtrancl_refl)
  moreover have "race (LClose [] [(100, 1)], [], race_idle)" by (simp add: race_def race_states net_ex)
  ultimately show ?thesis
    using server_started race_before race_after by (simp add: race_reused_def) (simp add: race_states)
qed

section \<open>A client\<close>

text \<open>
  The steps of a client: those of its loop and of its threads, and at any time between them a session that is made or deleted and
  the results of the connections to come.
\<close>

inductive client_turn ::
    "('d AdSession \<Rightarrow> (int \<times> 'd AdSession) cxx) option \<Rightarrow> loop_pc \<times> nat list \<times> 'd AdClient \<Rightarrow>
     loop_pc \<times> nat list \<times> 'd AdClient \<Rightarrow> bool"
  for pre :: "('d AdSession \<Rightarrow> (int \<times> 'd AdSession) cxx) option" where
  client_loop: "turn_step (client_env (\<lambda>_. True) pre) s t \<Longrightarrow> client_turn pre s t"
| client_create: "AdClientCreateSession pre srv c = ret_net (r, c') \<Longrightarrow> client_turn pre (pc, hold, c) (pc, hold, c')"
| client_delete: "AdClientDelSession srv c = ret_net c' \<Longrightarrow> client_turn pre (pc, hold, c) (pc, hold, c')"
| client_results: "client_turn pre (pc, hold, c) (pc, hold, c\<lparr>c_connects := l\<rparr>)"

inductive_cases client_turnE: "client_turn pre (pc, hold, c) (pc', hold', c')"

definition calm_client ::
    "('d AdSession \<Rightarrow> (int \<times> 'd AdSession) cxx) option \<Rightarrow> loop_pc \<times> nat list \<times> 'd AdClient \<Rightarrow>
     loop_pc \<times> nat list \<times> 'd AdClient \<Rightarrow> bool" where
  "calm_client pre s t \<longleftrightarrow> client_turn pre s t \<and> \<not> race s"

lemma create_frame:
  fixes c :: "'d AdClient"
  assumes "AdClientCreateSession pre srv c = ret_net (r, c')"
  shows "m_mSessionRead c' = m_mSessionRead c \<and> m_mSessionCloseTime c' = m_mSessionCloseTime c"
  using assms
proof (cases rule: create_cases)
  case (failed a c1 x s s')
  then show ?thesis using NewSession_net_frame [OF failed(2)] DeleteSession_net_frame [OF failed(5)] by (simp add: net_frame_def)
next
  case (made a c1 x s s' c2 k c3)
  have "m_mSessionRead c2 = m_mSessionRead c \<and> m_mSessionCloseTime c2 = m_mSessionCloseTime c"
    using made(5) NewSession_net_frame [OF made(2)] by (auto simp: AdNetBaseAddClient_def net_frame_def split: prod.splits bool.splits)
  moreover have "m_mSessionRead c3 = m_mSessionRead c2 \<and> m_mSessionCloseTime c3 = m_mSessionCloseTime c2"
    using made(6) by (auto split: option.splits dest!: session_use_frame)
  ultimately show ?thesis using made(8) by simp
qed simp

lemma delete_frame:
  fixes c :: "'d AdClient"
  shows "AdClientDelSession srv c = ret_net c' \<Longrightarrow>
    m_mSessionRead c' = m_mSessionRead c \<and> m_mSessionCloseTime c' = m_mSessionCloseTime c"
  by (auto simp: AdClientDelSession_def bind_cxx_Inr_iff split: if_splits option.splits)

lemma client_turn_good:
  assumes "client_turn pre (pc, hold, c) (pc', hold', c')" "turn_good (pc, hold, c)" "\<not> race (pc, hold, c)" "pre_ok pre"
  shows "turn_good (pc', hold', c')"
proof -
  have g: "net_good hold c" using assms(2) by (simp add: turn_good_def)
  have create: "turn_good (pc, hold, d)" if "AdClientCreateSession pre srv c = ret_net (r, d)" for srv r d
    using pc_frame [OF assms(2) create_good [OF g assms(4) that]] create_frame [OF that] by simp
  have delete: "turn_good (pc, hold, d)" if "AdClientDelSession srv c = ret_net d" for srv d
    using pc_frame [OF assms(2) delete_good [OF g that]] delete_frame [OF that] by simp
  have "net_good hold (c\<lparr>c_connects := l\<rparr>)" for l using g by (simp add: net_good_def net_inv_def writes_ok_def in_use_def)
  from pc_frame [OF assms(2) this] have results: "turn_good (pc, hold, c\<lparr>c_connects := l\<rparr>)" for l by simp
  from assms(1) show ?thesis
    by (rule client_turnE) (use client.turn_step_good [OF _ assms(2,3)] create delete results in blast)+
qed

lemma calm_client_good: "(calm_client pre)\<^sup>*\<^sup>* s t \<Longrightarrow> turn_good s \<Longrightarrow> pre_ok pre \<Longrightarrow> turn_good t"
proof (induction rule: rtranclp_induct)
  case (step t u)
  then show ?case using client_turn_good by (cases t, cases u) (auto simp: calm_client_def)
qed simp

text \<open>
  C12. The same for the client of the bidder, which names itself on every connection: whatever servers it is given, whatever
  connections succeed, whatever steps the loop and the threads take and whatever sessions are made and deleted between any two
  of them, as long as no state of the run is a race, one of the two: the loop is at a control message of a session that was handed
  over after the loop over the new sessions had ended, or it is about to release a closed session that no one uses and that
  still has a control message. Then every session object is in exactly one place, and one that is in a queue of messages
  or with a thread is neither free nor among the new ones. A call of \<^verbatim>\<open>AdClientCreateSession\<close> is one step; the bidder makes
  these calls before its loop starts and inside the step of the loop that connects a lost server again.
\<close>

theorem client_sessions_in_one_place:
  assumes "AdClientInit (Some (AdBiddingPreSend ev mem)) srvs msgRead msgWrite (client_new now l) = ret_net c0"
    "(calm_client (Some (AdBiddingPreSend ev mem)))\<^sup>*\<^sup>* (LEvents, [], c0) (pc, hold, c)"
  shows "distinct (m_ctSessionFree c @ m_ctSessionNew c @ map snd (m_mSessionRead c) @ map fst (m_mSessionClose c)) \<and>
    fst ` set (n_heap c) = set (m_ctSessionFree c @ m_ctSessionNew c @ map snd (m_mSessionRead c) @ map fst (m_mSessionClose c)) \<and>
    set (concat (m_vMsgRead c) @ hold) \<subseteq> set (map snd (m_mSessionRead c) @ map fst (m_mSessionClose c))"
proof -
  have "turn_good (LEvents, [], c0)" using client_start [OF assms(1) bidder_pre_ok] by (simp add: turn_good_def)
  from calm_client_good [OF assms(2) this bidder_pre_ok] have "net_good hold c" by (simp add: turn_good_def)
  from good_one_place [OF this] show ?thesis by (simp add: in_use_def)
qed

theorem client_sessions_in_one_place_witness:
  "set (m_ctSessionNew connected_ex) = {1} \<and>
    fst ` set (n_heap connected_ex) = set (m_ctSessionFree connected_ex @ m_ctSessionNew connected_ex @
      map snd (m_mSessionRead connected_ex) @ map fst (m_mSessionClose connected_ex))"
proof -
  have i: "AdClientInit (Some (AdBiddingPreSend (Wrote 100) [])) [] 1 1 (client_new 100 [(5, True)]) = ret_net client_ex"
    by (simp add: AdClientInit_def client_ex_def)
  have "(calm_client (Some (AdBiddingPreSend (Wrote 100) [])))\<^sup>*\<^sup>* (LEvents, [], client_ex) (LEvents, [], connected_ex)"
    by (rule r_into_rtranclp) (simp add: calm_client_def client_create [OF client_connected])
  from client_sessions_in_one_place [OF i this] show ?thesis by (simp add: connected_ex_def)
qed

end
