(* ===== verification/AdAes.thy ===== *)
theory AdAes
  imports AdCString
begin

text \<open>
  \<^verbatim>\<open>libutil/src/AdAes.cpp\<close>: the block cipher AES with a key of 128 bits, the hexadecimal texts, and the encryption of a text with
  which the exchange writes its price. A block is a list of 16 bytes, the state a list of four rows; character arrays are
  memories with their bounds.
\<close>

unbundle bit_operations_syntax

section \<open>Tables\<close>

definition Sbox :: "UCHAR list" where
  "Sbox =
    [0x63, 0x7c, 0x77, 0x7b, 0xf2, 0x6b, 0x6f, 0xc5, 0x30, 0x01, 0x67, 0x2b, 0xfe, 0xd7, 0xab, 0x76,
     0xca, 0x82, 0xc9, 0x7d, 0xfa, 0x59, 0x47, 0xf0, 0xad, 0xd4, 0xa2, 0xaf, 0x9c, 0xa4, 0x72, 0xc0,
     0xb7, 0xfd, 0x93, 0x26, 0x36, 0x3f, 0xf7, 0xcc, 0x34, 0xa5, 0xe5, 0xf1, 0x71, 0xd8, 0x31, 0x15,
     0x04, 0xc7, 0x23, 0xc3, 0x18, 0x96, 0x05, 0x9a, 0x07, 0x12, 0x80, 0xe2, 0xeb, 0x27, 0xb2, 0x75,
     0x09, 0x83, 0x2c, 0x1a, 0x1b, 0x6e, 0x5a, 0xa0, 0x52, 0x3b, 0xd6, 0xb3, 0x29, 0xe3, 0x2f, 0x84,
     0x53, 0xd1, 0x00, 0xed, 0x20, 0xfc, 0xb1, 0x5b, 0x6a, 0xcb, 0xbe, 0x39, 0x4a, 0x4c, 0x58, 0xcf,
     0xd0, 0xef, 0xaa, 0xfb, 0x43, 0x4d, 0x33, 0x85, 0x45, 0xf9, 0x02, 0x7f, 0x50, 0x3c, 0x9f, 0xa8,
     0x51, 0xa3, 0x40, 0x8f, 0x92, 0x9d, 0x38, 0xf5, 0xbc, 0xb6, 0xda, 0x21, 0x10, 0xff, 0xf3, 0xd2,
     0xcd, 0x0c, 0x13, 0xec, 0x5f, 0x97, 0x44, 0x17, 0xc4, 0xa7, 0x7e, 0x3d, 0x64, 0x5d, 0x19, 0x73,
     0x60, 0x81, 0x4f, 0xdc, 0x22, 0x2a, 0x90, 0x88, 0x46, 0xee, 0xb8, 0x14, 0xde, 0x5e, 0x0b, 0xdb,
     0xe0, 0x32, 0x3a, 0x0a, 0x49, 0x06, 0x24, 0x5c, 0xc2, 0xd3, 0xac, 0x62, 0x91, 0x95, 0xe4, 0x79,
     0xe7, 0xc8, 0x37, 0x6d, 0x8d, 0xd5, 0x4e, 0xa9, 0x6c, 0x56, 0xf4, 0xea, 0x65, 0x7a, 0xae, 0x08,
     0xba, 0x78, 0x25, 0x2e, 0x1c, 0xa6, 0xb4, 0xc6, 0xe8, 0xdd, 0x74, 0x1f, 0x4b, 0xbd, 0x8b, 0x8a,
     0x70, 0x3e, 0xb5, 0x66, 0x48, 0x03, 0xf6, 0x0e, 0x61, 0x35, 0x57, 0xb9, 0x86, 0xc1, 0x1d, 0x9e,
     0xe1, 0xf8, 0x98, 0x11, 0x69, 0xd9, 0x8e, 0x94, 0x9b, 0x1e, 0x87, 0xe9, 0xce, 0x55, 0x28, 0xdf,
     0x8c, 0xa1, 0x89, 0x0d, 0xbf, 0xe6, 0x42, 0x68, 0x41, 0x99, 0x2d, 0x0f, 0xb0, 0x54, 0xbb, 0x16]"

definition InvSbox :: "UCHAR list" where
  "InvSbox =
    [0x52, 0x09, 0x6a, 0xd5, 0x30, 0x36, 0xa5, 0x38, 0xbf, 0x40, 0xa3, 0x9e, 0x81, 0xf3, 0xd7, 0xfb,
     0x7c, 0xe3, 0x39, 0x82, 0x9b, 0x2f, 0xff, 0x87, 0x34, 0x8e, 0x43, 0x44, 0xc4, 0xde, 0xe9, 0xcb,
     0x54, 0x7b, 0x94, 0x32, 0xa6, 0xc2, 0x23, 0x3d, 0xee, 0x4c, 0x95, 0x0b, 0x42, 0xfa, 0xc3, 0x4e,
     0x08, 0x2e, 0xa1, 0x66, 0x28, 0xd9, 0x24, 0xb2, 0x76, 0x5b, 0xa2, 0x49, 0x6d, 0x8b, 0xd1, 0x25,
     0x72, 0xf8, 0xf6, 0x64, 0x86, 0x68, 0x98, 0x16, 0xd4, 0xa4, 0x5c, 0xcc, 0x5d, 0x65, 0xb6, 0x92,
     0x6c, 0x70, 0x48, 0x50, 0xfd, 0xed, 0xb9, 0xda, 0x5e, 0x15, 0x46, 0x57, 0xa7, 0x8d, 0x9d, 0x84,
     0x90, 0xd8, 0xab, 0x00, 0x8c, 0xbc, 0xd3, 0x0a, 0xf7, 0xe4, 0x58, 0x05, 0xb8, 0xb3, 0x45, 0x06,
     0xd0, 0x2c, 0x1e, 0x8f, 0xca, 0x3f, 0x0f, 0x02, 0xc1, 0xaf, 0xbd, 0x03, 0x01, 0x13, 0x8a, 0x6b,
     0x3a, 0x91, 0x11, 0x41, 0x4f, 0x67, 0xdc, 0xea, 0x97, 0xf2, 0xcf, 0xce, 0xf0, 0xb4, 0xe6, 0x73,
     0x96, 0xac, 0x74, 0x22, 0xe7, 0xad, 0x35, 0x85, 0xe2, 0xf9, 0x37, 0xe8, 0x1c, 0x75, 0xdf, 0x6e,
     0x47, 0xf1, 0x1a, 0x71, 0x1d, 0x29, 0xc5, 0x89, 0x6f, 0xb7, 0x62, 0x0e, 0xaa, 0x18, 0xbe, 0x1b,
     0xfc, 0x56, 0x3e, 0x4b, 0xc6, 0xd2, 0x79, 0x20, 0x9a, 0xdb, 0xc0, 0xfe, 0x78, 0xcd, 0x5a, 0xf4,
     0x1f, 0xdd, 0xa8, 0x33, 0x88, 0x07, 0xc7, 0x31, 0xb1, 0x12, 0x10, 0x59, 0x27, 0x80, 0xec, 0x5f,
     0x60, 0x51, 0x7f, 0xa9, 0x19, 0xb5, 0x4a, 0x0d, 0x2d, 0xe5, 0x7a, 0x9f, 0x93, 0xc9, 0x9c, 0xef,
     0xa0, 0xe0, 0x3b, 0x4d, 0xae, 0x2a, 0xf5, 0xb0, 0xc8, 0xeb, 0xbb, 0x3c, 0x83, 0x53, 0x99, 0x61,
     0x17, 0x2b, 0x04, 0x7e, 0xba, 0x77, 0xd6, 0x26, 0xe1, 0x69, 0x14, 0x63, 0x55, 0x21, 0x0c, 0x7d]"

section \<open>The steps of a round\<close>

text \<open>A matrix is filled for all rows and columns.\<close>

definition aes_state :: "(nat \<Rightarrow> nat \<Rightarrow> UCHAR) \<Rightarrow> UCHAR list list" where
  "aes_state f = map (\<lambda>r. map (\<lambda>c. f r c) [0..<4]) [0..<4]"

fun FFmul_bw :: "UCHAR \<Rightarrow> nat \<Rightarrow> UCHAR" where
  "FFmul_bw b 0 = b"
| "FFmul_bw b (Suc i) = push_bit 1 (FFmul_bw b i) XOR (if FFmul_bw b i AND 0x80 \<noteq> 0 then 0x1b else 0)"

definition FFmul :: "UCHAR \<Rightarrow> UCHAR \<Rightarrow> UCHAR" where
  "FFmul a b = fold (\<lambda>i res. if drop_bit i a AND 1 \<noteq> 0 then res XOR FFmul_bw b i else res) [0..<4] 0"

definition SubBytes :: "UCHAR list list \<Rightarrow> UCHAR list list" where
  "SubBytes state = aes_state (\<lambda>r c. Sbox ! unat (state ! r ! c))"

definition ShiftRows :: "UCHAR list list \<Rightarrow> UCHAR list list" where
  "ShiftRows state = aes_state (\<lambda>r c. if r < 1 then state ! r ! c else state ! r ! ((c + r) mod 4))"

definition MixColumns :: "UCHAR list list \<Rightarrow> UCHAR list list" where
  "MixColumns state = aes_state (\<lambda>r c. FFmul 2 (state ! r ! c) XOR FFmul 3 (state ! ((r + 1) mod 4) ! c) XOR
     FFmul 1 (state ! ((r + 2) mod 4) ! c) XOR FFmul 1 (state ! ((r + 3) mod 4) ! c))"

definition AddRoundKey :: "UCHAR list list \<Rightarrow> UCHAR list list \<Rightarrow> UCHAR list list" where
  "AddRoundKey state k = aes_state (\<lambda>r c. state ! r ! c XOR k ! r ! c)"

definition InvSubBytes :: "UCHAR list list \<Rightarrow> UCHAR list list" where
  "InvSubBytes state = aes_state (\<lambda>r c. InvSbox ! unat (state ! r ! c))"

definition InvShiftRows :: "UCHAR list list \<Rightarrow> UCHAR list list" where
  "InvShiftRows state = aes_state (\<lambda>r c. if r < 1 then state ! r ! c else state ! r ! ((c + 4 - r) mod 4))"

definition InvMixColumns :: "UCHAR list list \<Rightarrow> UCHAR list list" where
  "InvMixColumns state = aes_state (\<lambda>r c. FFmul 0x0e (state ! r ! c) XOR FFmul 0x0b (state ! ((r + 1) mod 4) ! c) XOR
     FFmul 0x0d (state ! ((r + 2) mod 4) ! c) XOR FFmul 0x09 (state ! ((r + 3) mod 4) ! c))"

section \<open>The keys of the rounds\<close>

text \<open>A column of the next key; the first one starts from the last of the key before, turned and substituted.\<close>

fun key_column :: "UCHAR list list \<Rightarrow> UCHAR \<Rightarrow> nat \<Rightarrow> UCHAR list" where
  "key_column k rc 0 =
     (let t = [Sbox ! unat (k ! 1 ! 3) XOR rc, Sbox ! unat (k ! 2 ! 3), Sbox ! unat (k ! 3 ! 3), Sbox ! unat (k ! 0 ! 3)]
      in map (\<lambda>r. k ! r ! 0 XOR t ! r) [0..<4])"
| "key_column k rc (Suc j) = (let t = key_column k rc j in map (\<lambda>r. k ! r ! Suc j XOR t ! r) [0..<4])"

definition next_key :: "UCHAR list list \<Rightarrow> UCHAR \<Rightarrow> UCHAR list list" where
  "next_key k rc = aes_state (\<lambda>r j. key_column k rc j ! r)"

fun next_keys :: "UCHAR list list \<Rightarrow> UCHAR list \<Rightarrow> UCHAR list list list" where
  "next_keys k [] = []"
| "next_keys k (rc # rcs) = (let k' = next_key k rc in k' # next_keys k' rcs)"

definition KeyExpansion :: "UCHAR list \<Rightarrow> UCHAR list list list" where
  "KeyExpansion key =
     (let k = aes_state (\<lambda>r c. key ! (r + c * 4))
      in k # next_keys k [0x01, 0x02, 0x04, 0x08, 0x10, 0x20, 0x40, 0x80, 0x1b, 0x36])"

section \<open>A block\<close>

definition load_block :: "UCHAR list \<Rightarrow> UCHAR list list" where
  "load_block input = aes_state (\<lambda>r c. input ! (c * 4 + r))"

definition store_block :: "UCHAR list list \<Rightarrow> UCHAR list" where
  "store_block state = map (\<lambda>i. state ! (i mod 4) ! (i div 4)) [0..<16]"

definition cipher_round :: "UCHAR list list list \<Rightarrow> nat \<Rightarrow> UCHAR list list \<Rightarrow> UCHAR list list" where
  "cipher_round w i state =
     (let state = ShiftRows (SubBytes state); state = (if i \<noteq> 10 then MixColumns state else state) in AddRoundKey state (w ! i))"

definition Cipher :: "UCHAR list list list \<Rightarrow> UCHAR list \<Rightarrow> UCHAR list" where
  "Cipher w input = store_block (fold (cipher_round w) [1..<11] (AddRoundKey (load_block input) (w ! 0)))"

definition inv_cipher_round :: "UCHAR list list list \<Rightarrow> nat \<Rightarrow> UCHAR list list \<Rightarrow> UCHAR list list" where
  "inv_cipher_round w i state =
     (let state = AddRoundKey (InvSubBytes (InvShiftRows state)) (w ! i) in if i \<noteq> 0 then InvMixColumns state else state)"

definition InvCipher :: "UCHAR list list list \<Rightarrow> UCHAR list \<Rightarrow> UCHAR list" where
  "InvCipher w input = store_block (fold (inv_cipher_round w) (rev [0..<10]) (AddRoundKey (load_block input) (w ! 10)))"

section \<open>Texts\<close>

text \<open>A C string that starts the memory \<open>mem\<close>; without a terminator the reads leave it.\<close>

definition text_in :: "string \<Rightarrow> string cxx" where
  "text_in mem = (if CHR 0x00 \<in> set mem then Inr (c_str mem) else Inl OutOfBounds)"

definition valueToHexCh :: "int \<Rightarrow> char" where
  "valueToHexCh value =
     (if 0 \<le> value \<and> value \<le> 9 then char_of (nat value + 48)
      else if 10 \<le> value \<and> value \<le> 15 then char_of (nat value - 10 + 65) else CHR 0x00)"

definition ascillToValue :: "char \<Rightarrow> int" where
  "ascillToValue ch =
     (let x = of_char ch in
      if 48 \<le> x \<and> x \<le> 57 then x - 48 else if 97 \<le> x \<and> x \<le> 122 then x - 97 + 10
      else if 65 \<le> x \<and> x \<le> 90 then x - 65 + 10 else - 1)"

definition strToUChar :: "string \<Rightarrow> string \<Rightarrow> (int \<times> string) cxx" where
  "strToUChar ch uch =
     bind_cxx (text_in ch) (\<lambda>s.
       if s = [] then Inr (- 2, uch) else bind_cxx (mem_write uch 0 (s @ [CHR 0x00])) (\<lambda>uch. Inr (0, uch)))"

definition ucharToStr :: "string \<Rightarrow> string \<Rightarrow> (int \<times> string) cxx" where
  "ucharToStr uch ch = bind_cxx (text_in uch) (\<lambda>s. bind_cxx (mem_write ch 0 (s @ [CHR 0x00])) (\<lambda>ch. Inr (0, ch)))"

definition ucharToHex :: "string \<Rightarrow> string \<Rightarrow> (int \<times> string) cxx" where
  "ucharToHex uch hex =
     bind_cxx (text_in uch) (\<lambda>s.
       if s = [] then Inr (- 2, hex)
       else bind_cxx (mem_write hex 0
           (concat (map (\<lambda>c. let tmp = of_char c in [valueToHexCh (tmp div 16), valueToHexCh (tmp mod 16)]) s) @ [CHR 0x00]))
         (\<lambda>hex. Inr (0, hex)))"

text \<open>\<^verbatim>\<open>strToHex\<close> shifts a signed character.\<close>

definition strToHex :: "string \<Rightarrow> string \<Rightarrow> (int \<times> string) cxx" where
  "strToHex ch hex =
     bind_cxx (text_in ch) (\<lambda>s.
       if s = [] then Inr (- 2, hex)
       else bind_cxx (mem_write hex 0
           (concat (map (\<lambda>c. let tmp = sint (of_char c :: UCHAR) in [valueToHexCh (tmp div 16), valueToHexCh (tmp mod 16)]) s) @ [CHR 0x00]))
         (\<lambda>hex. Inr (0, hex)))"

text \<open>Two digits to a byte; letters behind \<open>F\<close> count on. After a character that is none of them the text ends.\<close>

fun hex_loop :: "string \<Rightarrow> nat \<Rightarrow> string \<Rightarrow> (int \<times> string) cxx" where
  "hex_loop (h # l # hex) p uch =
     (if ascillToValue h < 0 \<or> ascillToValue l < 0 then bind_cxx (mem_write uch p [CHR 0x00]) (\<lambda>uch. Inr (- 3, uch))
      else bind_cxx (mem_write uch p [char_of (nat (ascillToValue h * 16 + ascillToValue l))]) (\<lambda>uch. hex_loop hex (p + 1) uch))"
| "hex_loop _ p uch = bind_cxx (mem_write uch p [CHR 0x00]) (\<lambda>uch. Inr (0, uch))"

definition hexToUChar :: "string \<Rightarrow> string \<Rightarrow> (int \<times> string) cxx" where
  "hexToUChar hex uch =
     bind_cxx (text_in hex) (\<lambda>s. if length s mod 2 = 1 then Inr (- 2, uch) else hex_loop s 0 uch)"

definition hexToStr :: "string \<Rightarrow> string \<Rightarrow> (int \<times> string) cxx" where
  "hexToStr hex ch =
     bind_cxx (text_in hex) (\<lambda>s. if length s mod 2 = 1 then Inr (- 2, ch) else hex_loop s 0 ch)"

section \<open>Encryption of a text\<close>

text \<open>The block at \<open>p\<close> of a memory.\<close>

definition cipher_at :: "(UCHAR list \<Rightarrow> UCHAR list) \<Rightarrow> nat \<Rightarrow> string \<Rightarrow> string cxx" where
  "cipher_at f p mem = bind_cxx (rd_bytes mem (int p) 16) (\<lambda>b. mem_write mem p (map byte_of (f (map of_char b))))"

text \<open>\<open>buf\<close> is what \<^verbatim>\<open>uch_input\<close> holds before.\<close>

definition Cipher_text :: "UCHAR list list list \<Rightarrow> string \<Rightarrow> string \<Rightarrow> string \<Rightarrow> string cxx" where
  "Cipher_text w buf input output =
     bind_cxx (strToUChar input buf) (\<lambda>(_, u).
     bind_cxx (cipher_at (Cipher w) 0 u) (\<lambda>u.
     bind_cxx (ucharToHex u output) (\<lambda>(_, output). Inr output)))"

definition InvCipher_text :: "UCHAR list list list \<Rightarrow> string \<Rightarrow> string \<Rightarrow> string \<Rightarrow> string cxx" where
  "InvCipher_text w buf input output =
     bind_cxx (hexToUChar input buf) (\<lambda>(_, u).
     bind_cxx (cipher_at (InvCipher w) 0 u) (\<lambda>u.
     bind_cxx (ucharToStr u output) (\<lambda>(_, output). Inr output)))"

text \<open>The two functions on an array of blocks, \<open>length\<close> bytes, or a text with its terminator.\<close>

fun cipher_blocks :: "(UCHAR list \<Rightarrow> UCHAR list) \<Rightarrow> nat list \<Rightarrow> string \<Rightarrow> string cxx" where
  "cipher_blocks f [] mem = Inr mem"
| "cipher_blocks f (i # is) mem = bind_cxx (cipher_at f (16 * i) mem) (cipher_blocks f is)"

definition Cipher_array :: "UCHAR list list list \<Rightarrow> string \<Rightarrow> nat \<Rightarrow> string cxx" where
  "Cipher_array w mem n =
     bind_cxx (if n = 0 then bind_cxx (text_in mem) (\<lambda>s. Inr (length s + 1)) else Inr n) (\<lambda>n.
       cipher_blocks (Cipher w) [0..<(n + 15) div 16] mem)"

definition InvCipher_array :: "UCHAR list list list \<Rightarrow> string \<Rightarrow> nat \<Rightarrow> string cxx" where
  "InvCipher_array w mem n = cipher_blocks (InvCipher w) [0..<(n + 15) div 16] mem"

text \<open>
  \<^verbatim>\<open>Bm53Cipher\<close>: the text is filled up to whole blocks, then block by block. The arrays \<^verbatim>\<open>block\<close> of 16 and \<^verbatim>\<open>e_block\<close> of 32
  characters keep what the block before left; \<open>buf\<close> is the content of the uninitialised array in \<^verbatim>\<open>Cipher\<close>.
\<close>

definition fill_blocks :: "string \<Rightarrow> string" where
  "fill_blocks s = (let k = 16 - length s mod 16 in s @ replicate k (char_of k))"

function cipher_text_loop ::
    "UCHAR list list list \<Rightarrow> string \<Rightarrow> string \<Rightarrow> string \<Rightarrow> nat \<Rightarrow> string \<Rightarrow> (nat \<times> string) cxx" where
  "cipher_text_loop w buf rest e_block j output =
     (if rest = [] then Inr (j, output)
      else
        bind_cxx (Cipher_text w buf (take 16 (rest @ replicate 16 (CHR 0x00))) e_block) (\<lambda>e_block.
        bind_cxx (mem_write output j (take 32 (c_str e_block @ replicate 32 (CHR 0x00)))) (\<lambda>output.
          cipher_text_loop w buf (drop 16 rest) e_block (j + 32) output)))"
  by pat_completeness auto
termination
  by (relation "measure (\<lambda>(w, buf, rest, e, j, out). length rest)") auto

declare cipher_text_loop.simps [simp del]

definition Bm53Cipher :: "UCHAR list list list \<Rightarrow> string \<Rightarrow> string \<Rightarrow> string \<Rightarrow> string \<Rightarrow> string cxx" where
  "Bm53Cipher w buf e_block input output =
     bind_cxx (text_in input) (\<lambda>s.
     bind_cxx (cipher_text_loop w buf (fill_blocks s) e_block 0 output) (\<lambda>(j, output). mem_write output j [CHR 0x00]))"

text \<open>
  \<^verbatim>\<open>Bm53InvCipher\<close>: \<open>mem\<close> and \<open>out\<close> are what \<^verbatim>\<open>malloc\<close> gives for half of the input and for the text that the output
  holds before. The characters 1 to 16 at the end are removed, 16 at most.
\<close>

fun inv_text_loop :: "UCHAR list list list \<Rightarrow> string \<Rightarrow> nat list \<Rightarrow> string \<Rightarrow> string cxx" where
  "inv_text_loop w u [] out = Inr out"
| "inv_text_loop w u (i # is) out =
     bind_cxx (rd_bytes u (int (16 * i)) 16) (\<lambda>b.
     bind_cxx (mem_write out (16 * i) (map byte_of (InvCipher w (map of_char b)))) (inv_text_loop w u is))"

fun strip_fill :: "nat \<Rightarrow> int \<Rightarrow> string \<Rightarrow> string cxx" where
  "strip_fill 0 n mem = Inr mem"
| "strip_fill (Suc k) n mem =
     bind_cxx (rd_bytes mem n 1) (\<lambda>c.
       let x = sint (of_char (hd c) :: UCHAR) in
       if 1 \<le> x \<and> 16 \<ge> x then bind_cxx (mem_write mem (nat n) [CHR 0x00]) (strip_fill k (n - 1)) else Inr mem)"

definition Bm53InvCipher :: "UCHAR list list list \<Rightarrow> (nat \<Rightarrow> string) \<Rightarrow> string \<Rightarrow> string \<Rightarrow> string cxx" where
  "Bm53InvCipher w malloc input output =
     bind_cxx (text_in input) (\<lambda>s.
     bind_cxx (text_in output) (\<lambda>o0.
       let m = length s div 2; blocks = (m + 15) div 16 in
       bind_cxx (hexToUChar input (malloc m)) (\<lambda>(_, u).
       bind_cxx (inv_text_loop w u [0..<blocks] (malloc (length o0))) (\<lambda>out.
       bind_cxx (mem_write out (16 * blocks) [CHR 0x00]) (\<lambda>out.
       bind_cxx (ucharToStr out output) (\<lambda>(_, output).
       bind_cxx (text_in output) (\<lambda>t. strip_fill 16 (int (length t) - 1) output)))))))"

end
