(* ===== verification/AdAesCorrect.thy ===== *)
theory AdAesCorrect
  imports AdAes
begin

text \<open>
  What is encrypted is decrypted again, block by block: every step of a round has its inverse. The multiplication in the columns
  needs no theory of fields: it is linear over XOR, and the products cancel. The texts around the blocks are another matter: the
  encryption of a text reads and writes outside its arrays.
\<close>

unbundle bit_operations_syntax

section \<open>Matrices\<close>

definition state_ok :: "UCHAR list list \<Rightarrow> bool" where
  "state_ok st \<longleftrightarrow> length st = 4 \<and> (\<forall>r < 4. length (st ! r) = 4)"

lemma aes_state_nth [simp]: "r < 4 \<Longrightarrow> c < 4 \<Longrightarrow> aes_state f ! r ! c = f r c"
  by (simp add: aes_state_def)

lemma aes_state_ok [simp]: "state_ok (aes_state f)"
  by (simp add: state_ok_def aes_state_def)

lemma aes_state_eqI: "state_ok st \<Longrightarrow> (\<And>r c. r < 4 \<Longrightarrow> c < 4 \<Longrightarrow> f r c = st ! r ! c) \<Longrightarrow> aes_state f = st"
  by (auto simp: aes_state_def state_ok_def intro!: nth_equalityI)

section \<open>The inverse steps\<close>

lemma concat_rows_nth:
  "\<forall>r \<in> set rs. length r = k \<Longrightarrow> n < k * length rs \<Longrightarrow> concat rs ! n = rs ! (n div k) ! (n mod k)"
proof (induction rs arbitrary: n)
  case (Cons r rs)
  show ?case
  proof (cases "n < k")
    case False
    then have "concat rs ! (n - k) = rs ! ((n - k) div k) ! ((n - k) mod k)" using Cons by (intro Cons.IH) auto
    moreover have "0 < k" using False Cons.prems(2) by (cases k) auto
    then have "n div k = Suc ((n - k) div k)" "n mod k = (n - k) mod k" using False by (simp_all add: le_div_geq le_mod_geq)
    ultimately show ?thesis using False Cons.prems(1) by (simp add: nth_append)
  qed (use Cons in \<open>simp add: nth_append\<close>)
qed simp

text \<open>The tables by rows of 16, so that a look-up is short.\<close>

definition inv_rows :: "UCHAR list list" where
  "inv_rows =
    [[0x52, 0x09, 0x6a, 0xd5, 0x30, 0x36, 0xa5, 0x38, 0xbf, 0x40, 0xa3, 0x9e, 0x81, 0xf3, 0xd7, 0xfb],
     [0x7c, 0xe3, 0x39, 0x82, 0x9b, 0x2f, 0xff, 0x87, 0x34, 0x8e, 0x43, 0x44, 0xc4, 0xde, 0xe9, 0xcb],
     [0x54, 0x7b, 0x94, 0x32, 0xa6, 0xc2, 0x23, 0x3d, 0xee, 0x4c, 0x95, 0x0b, 0x42, 0xfa, 0xc3, 0x4e],
     [0x08, 0x2e, 0xa1, 0x66, 0x28, 0xd9, 0x24, 0xb2, 0x76, 0x5b, 0xa2, 0x49, 0x6d, 0x8b, 0xd1, 0x25],
     [0x72, 0xf8, 0xf6, 0x64, 0x86, 0x68, 0x98, 0x16, 0xd4, 0xa4, 0x5c, 0xcc, 0x5d, 0x65, 0xb6, 0x92],
     [0x6c, 0x70, 0x48, 0x50, 0xfd, 0xed, 0xb9, 0xda, 0x5e, 0x15, 0x46, 0x57, 0xa7, 0x8d, 0x9d, 0x84],
     [0x90, 0xd8, 0xab, 0x00, 0x8c, 0xbc, 0xd3, 0x0a, 0xf7, 0xe4, 0x58, 0x05, 0xb8, 0xb3, 0x45, 0x06],
     [0xd0, 0x2c, 0x1e, 0x8f, 0xca, 0x3f, 0x0f, 0x02, 0xc1, 0xaf, 0xbd, 0x03, 0x01, 0x13, 0x8a, 0x6b],
     [0x3a, 0x91, 0x11, 0x41, 0x4f, 0x67, 0xdc, 0xea, 0x97, 0xf2, 0xcf, 0xce, 0xf0, 0xb4, 0xe6, 0x73],
     [0x96, 0xac, 0x74, 0x22, 0xe7, 0xad, 0x35, 0x85, 0xe2, 0xf9, 0x37, 0xe8, 0x1c, 0x75, 0xdf, 0x6e],
     [0x47, 0xf1, 0x1a, 0x71, 0x1d, 0x29, 0xc5, 0x89, 0x6f, 0xb7, 0x62, 0x0e, 0xaa, 0x18, 0xbe, 0x1b],
     [0xfc, 0x56, 0x3e, 0x4b, 0xc6, 0xd2, 0x79, 0x20, 0x9a, 0xdb, 0xc0, 0xfe, 0x78, 0xcd, 0x5a, 0xf4],
     [0x1f, 0xdd, 0xa8, 0x33, 0x88, 0x07, 0xc7, 0x31, 0xb1, 0x12, 0x10, 0x59, 0x27, 0x80, 0xec, 0x5f],
     [0x60, 0x51, 0x7f, 0xa9, 0x19, 0xb5, 0x4a, 0x0d, 0x2d, 0xe5, 0x7a, 0x9f, 0x93, 0xc9, 0x9c, 0xef],
     [0xa0, 0xe0, 0x3b, 0x4d, 0xae, 0x2a, 0xf5, 0xb0, 0xc8, 0xeb, 0xbb, 0x3c, 0x83, 0x53, 0x99, 0x61],
     [0x17, 0x2b, 0x04, 0x7e, 0xba, 0x77, 0xd6, 0x26, 0xe1, 0x69, 0x14, 0x63, 0x55, 0x21, 0x0c, 0x7d]]"

lemma InvSbox_rows: "InvSbox = concat inv_rows"
  by (simp add: InvSbox_def inv_rows_def)

lemma inv_rows:
  "inv_rows ! 0 = [0x52, 0x09, 0x6a, 0xd5, 0x30, 0x36, 0xa5, 0x38, 0xbf, 0x40, 0xa3, 0x9e, 0x81, 0xf3, 0xd7, 0xfb]"
  "inv_rows ! Suc 0 = [0x7c, 0xe3, 0x39, 0x82, 0x9b, 0x2f, 0xff, 0x87, 0x34, 0x8e, 0x43, 0x44, 0xc4, 0xde, 0xe9, 0xcb]"
  "inv_rows ! 2 = [0x54, 0x7b, 0x94, 0x32, 0xa6, 0xc2, 0x23, 0x3d, 0xee, 0x4c, 0x95, 0x0b, 0x42, 0xfa, 0xc3, 0x4e]"
  "inv_rows ! 3 = [0x08, 0x2e, 0xa1, 0x66, 0x28, 0xd9, 0x24, 0xb2, 0x76, 0x5b, 0xa2, 0x49, 0x6d, 0x8b, 0xd1, 0x25]"
  "inv_rows ! 4 = [0x72, 0xf8, 0xf6, 0x64, 0x86, 0x68, 0x98, 0x16, 0xd4, 0xa4, 0x5c, 0xcc, 0x5d, 0x65, 0xb6, 0x92]"
  "inv_rows ! 5 = [0x6c, 0x70, 0x48, 0x50, 0xfd, 0xed, 0xb9, 0xda, 0x5e, 0x15, 0x46, 0x57, 0xa7, 0x8d, 0x9d, 0x84]"
  "inv_rows ! 6 = [0x90, 0xd8, 0xab, 0x00, 0x8c, 0xbc, 0xd3, 0x0a, 0xf7, 0xe4, 0x58, 0x05, 0xb8, 0xb3, 0x45, 0x06]"
  "inv_rows ! 7 = [0xd0, 0x2c, 0x1e, 0x8f, 0xca, 0x3f, 0x0f, 0x02, 0xc1, 0xaf, 0xbd, 0x03, 0x01, 0x13, 0x8a, 0x6b]"
  "inv_rows ! 8 = [0x3a, 0x91, 0x11, 0x41, 0x4f, 0x67, 0xdc, 0xea, 0x97, 0xf2, 0xcf, 0xce, 0xf0, 0xb4, 0xe6, 0x73]"
  "inv_rows ! 9 = [0x96, 0xac, 0x74, 0x22, 0xe7, 0xad, 0x35, 0x85, 0xe2, 0xf9, 0x37, 0xe8, 0x1c, 0x75, 0xdf, 0x6e]"
  "inv_rows ! 10 = [0x47, 0xf1, 0x1a, 0x71, 0x1d, 0x29, 0xc5, 0x89, 0x6f, 0xb7, 0x62, 0x0e, 0xaa, 0x18, 0xbe, 0x1b]"
  "inv_rows ! 11 = [0xfc, 0x56, 0x3e, 0x4b, 0xc6, 0xd2, 0x79, 0x20, 0x9a, 0xdb, 0xc0, 0xfe, 0x78, 0xcd, 0x5a, 0xf4]"
  "inv_rows ! 12 = [0x1f, 0xdd, 0xa8, 0x33, 0x88, 0x07, 0xc7, 0x31, 0xb1, 0x12, 0x10, 0x59, 0x27, 0x80, 0xec, 0x5f]"
  "inv_rows ! 13 = [0x60, 0x51, 0x7f, 0xa9, 0x19, 0xb5, 0x4a, 0x0d, 0x2d, 0xe5, 0x7a, 0x9f, 0x93, 0xc9, 0x9c, 0xef]"
  "inv_rows ! 14 = [0xa0, 0xe0, 0x3b, 0x4d, 0xae, 0x2a, 0xf5, 0xb0, 0xc8, 0xeb, 0xbb, 0x3c, 0x83, 0x53, 0x99, 0x61]"
  "inv_rows ! 15 = [0x17, 0x2b, 0x04, 0x7e, 0xba, 0x77, 0xd6, 0x26, 0xe1, 0x69, 0x14, 0x63, 0x55, 0x21, 0x0c, 0x7d]"
  by (simp_all add: inv_rows_def)

definition inv_at :: "UCHAR \<Rightarrow> UCHAR" where
  "inv_at s = inv_rows ! (unat s div 16) ! (unat s mod 16)"

lemma InvSbox_at: "InvSbox ! unat s = inv_at s"
proof -
  have "unat s < 256" using unsigned_less [of s] by simp
  moreover have "concat inv_rows ! n = inv_rows ! (n div 16) ! (n mod 16)" if "n < 256" for n
    using concat_rows_nth [of inv_rows 16 n] that by (simp add: inv_rows_def del: concat.simps)
  ultimately show ?thesis by (simp add: InvSbox_rows inv_at_def)
qed

lemma Sbox_inverse_list:
  "map inv_at Sbox =
    [0, 1, 2, 3, 4, 5, 6, 7, 8, 9, 10, 11, 12, 13, 14, 15, 16, 17, 18, 19, 20, 21, 22, 23, 24, 25, 26, 27, 28, 29, 30, 31,
     32, 33, 34, 35, 36, 37, 38, 39, 40, 41, 42, 43, 44, 45, 46, 47, 48, 49, 50, 51, 52, 53, 54, 55, 56, 57, 58, 59, 60, 61, 62, 63,
     64, 65, 66, 67, 68, 69, 70, 71, 72, 73, 74, 75, 76, 77, 78, 79, 80, 81, 82, 83, 84, 85, 86, 87, 88, 89, 90, 91, 92, 93, 94, 95,
     96, 97, 98, 99, 100, 101, 102, 103, 104, 105, 106, 107, 108, 109, 110, 111, 112, 113, 114, 115, 116, 117, 118, 119, 120, 121, 122, 123, 124, 125, 126, 127,
     128, 129, 130, 131, 132, 133, 134, 135, 136, 137, 138, 139, 140, 141, 142, 143, 144, 145, 146, 147, 148, 149, 150, 151, 152, 153, 154, 155, 156, 157, 158, 159,
     160, 161, 162, 163, 164, 165, 166, 167, 168, 169, 170, 171, 172, 173, 174, 175, 176, 177, 178, 179, 180, 181, 182, 183, 184, 185, 186, 187, 188, 189, 190, 191,
     192, 193, 194, 195, 196, 197, 198, 199, 200, 201, 202, 203, 204, 205, 206, 207, 208, 209, 210, 211, 212, 213, 214, 215, 216, 217, 218, 219, 220, 221, 222, 223,
     224, 225, 226, 227, 228, 229, 230, 231, 232, 233, 234, 235, 236, 237, 238, 239, 240, 241, 242, 243, 244, 245, 246, 247, 248, 249, 250, 251, 252, 253, 254, 255]"
  by (simp add: Sbox_def inv_at_def inv_rows)

lemma upt_256:
  "[0..<256] =
    [0, 1, 2, 3, 4, 5, 6, 7, 8, 9, 10, 11, 12, 13, 14, 15, 16, 17, 18, 19, 20, 21, 22, 23, 24, 25, 26, 27, 28, 29, 30, 31,
     32, 33, 34, 35, 36, 37, 38, 39, 40, 41, 42, 43, 44, 45, 46, 47, 48, 49, 50, 51, 52, 53, 54, 55, 56, 57, 58, 59, 60, 61, 62, 63,
     64, 65, 66, 67, 68, 69, 70, 71, 72, 73, 74, 75, 76, 77, 78, 79, 80, 81, 82, 83, 84, 85, 86, 87, 88, 89, 90, 91, 92, 93, 94, 95,
     96, 97, 98, 99, 100, 101, 102, 103, 104, 105, 106, 107, 108, 109, 110, 111, 112, 113, 114, 115, 116, 117, 118, 119, 120, 121, 122, 123, 124, 125, 126, 127,
     128, 129, 130, 131, 132, 133, 134, 135, 136, 137, 138, 139, 140, 141, 142, 143, 144, 145, 146, 147, 148, 149, 150, 151, 152, 153, 154, 155, 156, 157, 158, 159,
     160, 161, 162, 163, 164, 165, 166, 167, 168, 169, 170, 171, 172, 173, 174, 175, 176, 177, 178, 179, 180, 181, 182, 183, 184, 185, 186, 187, 188, 189, 190, 191,
     192, 193, 194, 195, 196, 197, 198, 199, 200, 201, 202, 203, 204, 205, 206, 207, 208, 209, 210, 211, 212, 213, 214, 215, 216, 217, 218, 219, 220, 221, 222, 223,
     224, 225, 226, 227, 228, 229, 230, 231, 232, 233, 234, 235, 236, 237, 238, 239, 240, 241, 242, 243, 244, 245, 246, 247, 248, 249, 250, 251, 252, 253, 254, 255]"
  by (simp add: upt_conv_Cons)

lemma Sbox_inverse: "InvSbox ! unat (Sbox ! unat x) = x"
proof -
  have x: "unat x < 256" using unsigned_less [of x] by simp
  have "map inv_at Sbox = map of_nat [0..<256]" unfolding Sbox_inverse_list upt_256 by simp
  then have "map inv_at Sbox ! unat x = map of_nat [0..<256] ! unat x" by simp
  moreover have "length Sbox = 256" by (simp add: Sbox_def)
  ultimately show ?thesis using x by (simp add: InvSbox_at)
qed

lemma InvSubBytes_SubBytes [simp]: "state_ok st \<Longrightarrow> InvSubBytes (SubBytes st) = st"
  unfolding InvSubBytes_def by (rule aes_state_eqI) (simp_all add: SubBytes_def Sbox_inverse)

lemma InvShiftRows_ShiftRows [simp]: "state_ok st \<Longrightarrow> InvShiftRows (ShiftRows st) = st"
  unfolding InvShiftRows_def
proof (rule aes_state_eqI)
  fix r c :: nat
  assume rc: "r < 4" "c < 4"
  then have "((c + 4 - r) mod 4 + r) mod 4 = c" by (simp add: mod_add_left_eq)
  with rc show "(if r < 1 then ShiftRows st ! r ! c else ShiftRows st ! r ! ((c + 4 - r) mod 4)) = st ! r ! c"
    by (simp add: ShiftRows_def)
qed

lemma AddRoundKey_twice [simp]: "state_ok st \<Longrightarrow> AddRoundKey (AddRoundKey st k) k = st"
  by (subst AddRoundKey_def, rule aes_state_eqI) (simp_all add: AddRoundKey_def xor.assoc)

section \<open>The columns\<close>

definition xt :: "UCHAR \<Rightarrow> UCHAR" where
  "xt b = push_bit 1 b XOR (if b AND 0x80 \<noteq> 0 then 0x1b else 0)"

lemma and_80: "(b :: UCHAR) AND 0x80 \<noteq> 0 \<longleftrightarrow> bit b 7"
  using and_exp_eq_0_iff_not_bit [of b 7] by simp

lemma xt_xor: "xt (a XOR b) = xt a XOR xt b"
  by (auto simp: xt_def and_80 bit_xor_iff push_bit_xor ac_simps)

lemma FFmul_bw: "FFmul_bw b (Suc 0) = xt b" "FFmul_bw b 2 = xt (xt b)" "FFmul_bw b 3 = xt (xt (xt b))"
  by (simp_all add: numeral_eq_Suc xt_def)

lemma upt_4: "[0..<4] = [0, 1, 2, 3]"
  by code_simp

lemma FFmul_xt:
  "FFmul 1 b = b" "FFmul 2 b = xt b" "FFmul 3 b = b XOR xt b" "FFmul 9 b = b XOR xt (xt (xt b))"
  "FFmul 0x0b b = (b XOR xt b) XOR xt (xt (xt b))" "FFmul 0x0d b = (b XOR xt (xt b)) XOR xt (xt (xt b))"
  "FFmul 0x0e b = (xt b XOR xt (xt b)) XOR xt (xt (xt b))"
  by (simp_all add: FFmul_def upt_4 FFmul_bw del: FFmul_bw.simps(2))

lemma mix_inverse:
  "FFmul 0x0e (FFmul 2 a XOR FFmul 3 b XOR FFmul 1 c XOR FFmul 1 d) XOR
   FFmul 0x0b (FFmul 2 b XOR FFmul 3 c XOR FFmul 1 d XOR FFmul 1 a) XOR
   FFmul 0x0d (FFmul 2 c XOR FFmul 3 d XOR FFmul 1 a XOR FFmul 1 b) XOR
   FFmul 0x09 (FFmul 2 d XOR FFmul 3 a XOR FFmul 1 b XOR FFmul 1 c) = a"
proof -
  have self: "x XOR (x XOR y) = y" for x y :: UCHAR by (simp flip: xor.assoc)
  show ?thesis unfolding FFmul_xt xt_xor by (simp add: self xor.assoc xor.left_commute xor.commute)
qed

lemma InvMixColumns_MixColumns [simp]: "state_ok st \<Longrightarrow> InvMixColumns (MixColumns st) = st"
  unfolding InvMixColumns_def
proof (rule aes_state_eqI)
  fix r c :: nat
  assume rc: "r < 4" "c < 4"
  define r1 r2 r3 where r: "r1 = (r + 1) mod 4" "r2 = (r + 2) mod 4" "r3 = (r + 3) mod 4"
  have lt: "r1 < 4" "r2 < 4" "r3 < 4" by (simp_all add: r)
  have m: "(r1 + 1) mod 4 = r2" "(r1 + 2) mod 4 = r3" "(r1 + 3) mod 4 = r" "(r2 + 1) mod 4 = r3" "(r2 + 2) mod 4 = r" "(r2 + 3) mod 4 = r1"
    "(r3 + 1) mod 4 = r" "(r3 + 2) mod 4 = r1" "(r3 + 3) mod 4 = r2"
    using rc(1) unfolding r by presburger+
  show "FFmul 0x0e (MixColumns st ! r ! c) XOR FFmul 0x0b (MixColumns st ! ((r + 1) mod 4) ! c) XOR
      FFmul 0x0d (MixColumns st ! ((r + 2) mod 4) ! c) XOR FFmul 0x09 (MixColumns st ! ((r + 3) mod 4) ! c) = st ! r ! c"
    unfolding r [symmetric] MixColumns_def aes_state_nth [OF rc] aes_state_nth [OF lt(1) rc(2)] aes_state_nth [OF lt(2) rc(2)]
      aes_state_nth [OF lt(3) rc(2)] r [symmetric] m by (rule mix_inverse)
qed

section \<open>Rounds and blocks\<close>

lemma steps_ok [simp]: "state_ok (SubBytes st)" "state_ok (ShiftRows st)" "state_ok (MixColumns st)" "state_ok (AddRoundKey st k)"
    "state_ok (load_block b)"
  by (simp_all add: SubBytes_def ShiftRows_def MixColumns_def AddRoundKey_def load_block_def)

lemma round_ok [simp]: "state_ok (cipher_round w i st)"
  by (simp add: cipher_round_def Let_def)

text \<open>The state after the first \<open>i\<close> rounds, and the way back from it.\<close>

definition rounds :: "UCHAR list list list \<Rightarrow> UCHAR list list \<Rightarrow> nat \<Rightarrow> UCHAR list list" where
  "rounds w st i = fold (cipher_round w) [1..<Suc i] (AddRoundKey st (w ! 0))"

lemma rounds_Suc: "rounds w st (Suc i) = cipher_round w (Suc i) (rounds w st i)"
  by (simp add: rounds_def)

lemma rounds_ok [simp]: "state_ok (rounds w st i)"
  by (cases i) (simp_all add: rounds_Suc, simp add: rounds_def)

text \<open>Before the key of its round is added; in the last round the columns are not mixed.\<close>

definition mixed :: "nat \<Rightarrow> UCHAR list list \<Rightarrow> UCHAR list list" where
  "mixed i st = (let st = ShiftRows (SubBytes st) in if i \<noteq> 10 then MixColumns st else st)"

lemma round_mixed: "cipher_round w i st = AddRoundKey (mixed i st) (w ! i)"
  by (simp add: cipher_round_def mixed_def Let_def)

lemma inv_round_0: "state_ok st \<Longrightarrow> inv_cipher_round w 0 (ShiftRows (SubBytes (rounds w st 0))) = st"
  by (simp add: inv_cipher_round_def rounds_def)

lemma inv_round_Suc:
  "Suc k < 10 \<Longrightarrow> inv_cipher_round w (Suc k) (ShiftRows (SubBytes (rounds w st (Suc k)))) = ShiftRows (SubBytes (rounds w st k))"
proof -
  assume k: "Suc k < 10"
  have "AddRoundKey (rounds w st (Suc k)) (w ! Suc k) = mixed (Suc k) (rounds w st k)"
    unfolding rounds_Suc round_mixed by (rule AddRoundKey_twice) (simp add: mixed_def Let_def)
  then show ?thesis using k by (simp add: inv_cipher_round_def mixed_def Let_def)
qed

lemma inv_rounds:
  "k < 10 \<Longrightarrow> state_ok st \<Longrightarrow> fold (inv_cipher_round w) (rev [0..<Suc k]) (ShiftRows (SubBytes (rounds w st k))) = st"
proof (induction k)
  case 0
  then show ?case by (simp add: inv_round_0)
next
  case (Suc k)
  have "rev [0..<Suc (Suc k)] = Suc k # rev [0..<Suc k]" by simp
  then show ?case using Suc inv_round_Suc [of k w st] by (simp del: upt_Suc)
qed

lemma load_store: "state_ok st \<Longrightarrow> load_block (store_block st) = st"
  unfolding load_block_def
proof (rule aes_state_eqI)
  fix r c :: nat
  assume "r < 4" "c < 4"
  then show "store_block st ! (c * 4 + r) = st ! r ! c" by (simp add: store_block_def)
qed

lemma store_load: "length b = 16 \<Longrightarrow> store_block (load_block b) = b"
proof (rule nth_equalityI)
  fix i
  assume i: "i < length (store_block (load_block b))" and b: "length b = 16"
  then have "i < 16" by (simp add: store_block_def)
  then show "store_block (load_block b) ! i = b ! i" using b
    by (simp add: store_block_def load_block_def less_mult_imp_div_less mult.commute)
qed (simp add: store_block_def)

text \<open>C39. \<^verbatim>\<open>AES\<close>: for every key of 16 bytes (in fact for any round keys) and every block of 16 bytes, \<^verbatim>\<open>InvCipher\<close> with
  the expanded key gives back the block that \<^verbatim>\<open>Cipher\<close> encrypted; a block stays a block.\<close>

theorem aes_block_roundtrip:
  assumes "length block = 16"
  shows "InvCipher (KeyExpansion key) (Cipher (KeyExpansion key) block) = block \<and> length (Cipher (KeyExpansion key) block) = 16"
proof -
  let ?w = "KeyExpansion key" and ?st = "load_block block"
  have c: "Cipher ?w block = store_block (rounds ?w ?st 10)" by (simp add: Cipher_def rounds_def numeral_eq_Suc)
  have "rounds ?w ?st (Suc 9) = AddRoundKey (ShiftRows (SubBytes (rounds ?w ?st 9))) (?w ! 10)"
    unfolding rounds_Suc round_mixed by (simp add: mixed_def)
  then have "AddRoundKey (rounds ?w ?st 10) (?w ! 10) = ShiftRows (SubBytes (rounds ?w ?st 9))" by simp
  then have "InvCipher ?w (Cipher ?w block) = store_block (fold (inv_cipher_round ?w) (rev [0..<10]) (ShiftRows (SubBytes (rounds ?w ?st 9))))"
    by (simp add: InvCipher_def c load_store)
  also have "\<dots> = store_block ?st" using inv_rounds [of 9 ?st ?w] by simp
  finally show ?thesis using assms by (simp add: store_load) (simp add: c store_block_def)
qed

text \<open>The example of the standard, FIPS 197, appendix C.1.\<close>

definition fips_key :: "UCHAR list" where
  "fips_key = map of_nat [0..<16]"

definition fips_block :: "UCHAR list" where
  "fips_block = [0x00, 0x11, 0x22, 0x33, 0x44, 0x55, 0x66, 0x77, 0x88, 0x99, 0xaa, 0xbb, 0xcc, 0xdd, 0xee, 0xff]"

definition fips_keys :: "UCHAR list list list" where
  "fips_keys =
    [[[0, 4, 8, 12], [1, 5, 9, 13], [2, 6, 10, 14], [3, 7, 11, 15]], [[214, 210, 218, 214], [170, 175, 166, 171],
     [116, 114, 120, 118], [253, 250, 241, 254]], [[182, 100, 190, 104], [146, 61, 155, 48], [207, 189, 197, 179],
     [11, 241, 0, 254]], [[182, 210, 108, 4], [255, 194, 89, 105], [116, 201, 12, 191], [78, 191, 191, 65]],
     [[71, 149, 249, 253], [247, 53, 108, 5], [247, 62, 50, 141], [188, 3, 188, 253]], [[60, 169, 80, 173],
     [170, 159, 243, 246], [163, 157, 175, 34], [232, 235, 87, 170]], [[94, 247, 167, 10], [57, 166, 85, 163],
     [15, 146, 61, 31], [125, 150, 193, 107]], [[20, 227, 68, 78], [249, 95, 10, 169], [112, 226, 223, 192],
     [26, 140, 77, 38]], [[71, 164, 224, 174], [67, 28, 22, 191], [135, 101, 186, 122], [53, 185, 244, 210]],
     [[84, 240, 16, 190], [153, 133, 147, 44], [50, 87, 237, 151], [209, 104, 156, 78]], [[19, 227, 243, 77],
     [17, 148, 7, 43], [29, 74, 167, 48], [127, 23, 139, 197]]]"

definition fips_half :: "UCHAR list list" where
  "fips_half = [[200, 155, 37, 176], [22, 122, 2, 38], [119, 201, 121, 25], [188, 59, 146, 150]]"

lemma fips_expansion: "KeyExpansion fips_key = fips_keys"
  by code_simp

lemma fips_rounds_1: "fold (cipher_round fips_keys) [1..<6] (AddRoundKey (load_block fips_block) (fips_keys ! 0)) = fips_half"
  by code_simp

lemma fips_rounds_2:
  "store_block (fold (cipher_round fips_keys) [6..<11] fips_half) =
    [0x69, 0xc4, 0xe0, 0xd8, 0x6a, 0x7b, 0x04, 0x30, 0xd8, 0xcd, 0xb7, 0x80, 0x70, 0xb4, 0xc5, 0x5a]"
  by code_simp

lemma fips_cipher:
  "Cipher (KeyExpansion fips_key) fips_block =
    [0x69, 0xc4, 0xe0, 0xd8, 0x6a, 0x7b, 0x04, 0x30, 0xd8, 0xcd, 0xb7, 0x80, 0x70, 0xb4, 0xc5, 0x5a]"
proof -
  have "[1..<11 :: nat] = [1..<6] @ [6..<11]" by (simp add: upt_conv_Cons)
  then show ?thesis unfolding Cipher_def fips_expansion by (simp only: fold_append o_apply fips_rounds_1 fips_rounds_2)
qed

theorem aes_block_roundtrip_witness:
  "Cipher (KeyExpansion fips_key) fips_block =
     [0x69, 0xc4, 0xe0, 0xd8, 0x6a, 0x7b, 0x04, 0x30, 0xd8, 0xcd, 0xb7, 0x80, 0x70, 0xb4, 0xc5, 0x5a] \<and>
   InvCipher (KeyExpansion fips_key)
     [0x69, 0xc4, 0xe0, 0xd8, 0x6a, 0x7b, 0x04, 0x30, 0xd8, 0xcd, 0xb7, 0x80, 0x70, 0xb4, 0xc5, 0x5a] = fips_block"
  using aes_block_roundtrip [of fips_block fips_key] unfolding fips_cipher by (simp add: fips_block_def)

section \<open>Texts\<close>

lemma ascillToValue_less: "0 \<le> ascillToValue c \<Longrightarrow> ascillToValue c \<le> 35"
  by (auto simp: ascillToValue_def Let_def split: if_splits)

lemma hex_loop_outside:
  "\<forall>c \<in> set hex. 0 \<le> ascillToValue c \<Longrightarrow> even (length hex) \<Longrightarrow> p + length hex div 2 = length uch \<Longrightarrow>
    hex_loop hex p uch = Inl OutOfBounds"
proof (induction hex p uch rule: hex_loop.induct)
  case (1 h l hex p uch)
  let ?c = "char_of (nat (ascillToValue h * 16 + ascillToValue l)) :: char"
  have "mem_write uch p [?c] = Inr (take p uch @ [?c] @ drop (p + 1) uch)" using "1.prems"(3) by (simp add: mem_write_def)
  moreover have "\<not> (ascillToValue h < 0 \<or> ascillToValue l < 0)" using "1.prems"(1) by auto
  moreover have "hex_loop hex (p + 1) (take p uch @ [?c] @ drop (p + 1) uch) = Inl OutOfBounds"
    using "1.prems" calculation(2) by (intro "1.IH") auto
  ultimately show ?case by simp
qed (simp_all add: mem_write_def)

lemma c_str_nonzero: "CHR 0x00 \<notin> set (c_str s)"
  by (auto simp: c_str_def dest: set_takeWhileD)

lemma fill_blocks_start: "16 \<le> length (fill_blocks s) \<and> (CHR 0x00 \<notin> set s \<longrightarrow> CHR 0x00 \<notin> set (fill_blocks s))"
proof -
  have k: "16 - length s mod 16 \<le> 16" "0 < 16 - length s mod 16" by simp_all
  have l: "length (fill_blocks s) = length s + (16 - length s mod 16)" by (simp add: fill_blocks_def Let_def)
  have "16 \<le> length s + (16 - length s mod 16)"
    using div_mult_mod_eq [of "length s" 16] by (cases "length s < 16") auto
  moreover have "CHR 0x00 \<noteq> char_of (16 - length s mod 16)"
  proof
    define n where "n = 16 - length s mod 16"
    then have that: "0 < n" "n \<le> 16" by simp_all
    assume "CHR 0x00 = char_of (16 - length s mod 16)"
    then have "char_of n = CHR 0x00" by (simp add: n_def)
    then have "of_char (char_of n :: char) = (0 :: nat)" by simp
    then show False using that by (simp add: take_bit_eq_mod)
  qed
  ultimately show ?thesis using k unfolding l by (auto simp: fill_blocks_def Let_def)
qed

text \<open>C40. Neither function on whole texts is defined. \<^verbatim>\<open>Bm53Cipher\<close>, with which the exchange encrypts the price of every answer,
  copies 16 characters into an array of 16 and passes it on as a text, so that \<^verbatim>\<open>strlen\<close> reads behind it, whatever the input.
  \<^verbatim>\<open>Bm53InvCipher\<close> allocates half of the length of its input and writes one byte more, the terminator, for every input of
  an even number of digits.\<close>

theorem aes_text_undefined:
  assumes "CHR 0x00 \<in> set input" "CHR 0x00 \<in> set output"
  shows "Bm53Cipher w buf e_block input output = Inl OutOfBounds \<and>
    ((\<forall>c \<in> set (c_str input). 0 \<le> ascillToValue c) \<and> even (length (c_str input)) \<and> (\<forall>n. length (malloc n) = n) \<longrightarrow>
      Bm53InvCipher w malloc input output = Inl OutOfBounds)"
proof (intro conjI impI)
  let ?r = "fill_blocks (c_str input)"
  have f: "16 \<le> length ?r" "CHR 0x00 \<notin> set ?r" using fill_blocks_start [of "c_str input"] c_str_nonzero by auto
  have "CHR 0x00 \<notin> set (take 16 ?r)" using f(2) by (meson in_set_takeD)
  then have "text_in (take 16 (?r @ replicate 16 (CHR 0x00))) = Inl OutOfBounds" using f(1) by (simp add: text_in_def)
  moreover have "?r \<noteq> []" using f(1) by auto
  ultimately show "Bm53Cipher w buf e_block input output = Inl OutOfBounds"
    using assms(1) by (simp add: Bm53Cipher_def text_in_def cipher_text_loop.simps Cipher_text_def strToUChar_def)
next
  assume d: "(\<forall>c \<in> set (c_str input). 0 \<le> ascillToValue c) \<and> even (length (c_str input)) \<and> (\<forall>n. length (malloc n) = n)"
  then have "hex_loop (c_str input) 0 (malloc (length (c_str input) div 2)) = Inl OutOfBounds" by (intro hex_loop_outside) auto
  then show "Bm53InvCipher w malloc input output = Inl OutOfBounds"
    using assms d by (simp add: Bm53InvCipher_def text_in_def hexToUChar_def even_iff_mod_2_eq_zero)
qed

theorem aes_text_undefined_witness:
  "Bm53Cipher (KeyExpansion fips_key) (replicate 1024 (CHR 0x00)) (replicate 32 (CHR 0x00)) (''0.001500'' @ [CHR 0x00]) (replicate 256 (CHR 0x00)) =
     Inl OutOfBounds \<and>
   Bm53InvCipher (KeyExpansion fips_key) (\<lambda>n. replicate n (CHR 0x00)) (''69c4'' @ [CHR 0x00]) (replicate 256 (CHR 0x00)) = Inl OutOfBounds"
  using aes_text_undefined [of "''0.001500'' @ [CHR 0x00]" "replicate 256 (CHR 0x00)" "KeyExpansion fips_key"
      "replicate 1024 (CHR 0x00)" "replicate 32 (CHR 0x00)"]
    aes_text_undefined [of "''69c4'' @ [CHR 0x00]" "replicate 256 (CHR 0x00)" "KeyExpansion fips_key" _ _ "\<lambda>n. replicate n (CHR 0x00)"]
  by (simp add: c_str_def ascillToValue_def)

end
