(* ===== verification/Spec2Isabelle.thy ===== *)
theory Spec2Isabelle
  imports AdTlvRoundtrip AdBuffLive AdRtbEngineUpdates AdHttpCorrect AdAdapterAnswers AdNetTurns AdAesCorrect
begin

text \<open>
  A verification development of AdRtbAdapter, the adapter and the bidder of a real-time bidding system in C++. The adapter
  (\<^verbatim>\<open>adapter\<close>, \<^verbatim>\<open>adx\<close>, \<^verbatim>\<open>libnet\<close>) takes the HTTP requests of the exchanges, turns each into an internal request, hands it to a
  bidder, locally by a pointer or over the network as a TLV packet (\<^verbatim>\<open>libtlv\<close>), and writes the answer in the protocol of the
  exchange. The bidder (\<^verbatim>\<open>ibidding\<close>) loads planning units from Redis, matches a request against them by a chain of filters, ranks
  what is left and answers with a bid or with none.

  \<^bold>\<open>The C++ of the models.\<close>
  \<^item> \<open>AdPrelude\<close>, \<open>AdCString\<close>, \<open>StdMap\<close>: results of code that may go wrong (\<open>'a cxx\<close>, whose left values are undefined behaviour and
    exceptions), machine integers at their width, bytes in memory with their bounds, the C string functions, \<^verbatim>\<open>std::map\<close> as a
    sorted association list. Objects behind pointers are values, except for the parameter objects and sessions
    of the adapter and the nodes of the buffers, which are reached by numbers. The planning units are values as well, so
    that a pointer to a unit, a ban list or a price that was freed is not visible in the model; where that can happen is said in
    \<open>AdPlanningData\<close>, and what is said of the engine in use is said right after an update that succeeded, when it cannot.
    A list node that is read just after \<^verbatim>\<open>pop_front\<close> (\<^verbatim>\<open>AdParaList::pop\<close>, \<^verbatim>\<open>AdSessionCompletePacket\<close>) gives what it held.

  \<^bold>\<open>Shared parts.\<close>
  \<^item> \<open>AdRtbBase\<close>, \<open>AdTlvKeys\<close>, \<open>AdTlv\<close>, \<open>AdRtbNetProtocol\<close>: \<^verbatim>\<open>inc/AdRtbBase.h\<close> and \<^verbatim>\<open>libtlv\<close>: requests, responses, the head, the
    macro \<^verbatim>\<open>AD_PROTOCOL_KV\<close>, the parse loop and the four conversions. \<open>AdTlvRoundtrip\<close> has the round trips, the safety of the
    builders and where the code fails it.
  \<^item> \<open>AdBuff\<close>, \<open>AdBuffLive\<close>: \<^verbatim>\<open>libutil/inc/AdBuff.h\<close>: ring buffers, locked and lock-free (a step relation over all interleavings of
    a reader and a writer, with the calls that wait and the wake-ups, an invariant, delivery in fair runs where the reader
    waits with a time limit or the writer goes on pushing, and a run in which a wake-up is lost), the session buffer, the
    ping-pong buffer.
  \<^item> \<open>AdUtil\<close>, \<open>AdHttp\<close>, \<open>AdHttpCorrect\<close>: the classes of \<^verbatim>\<open>libutil/inc/AdUtil.h\<close>: the packet cache, splitting of strings, HTTP.
  \<^item> \<open>AdAcbm\<close>: \<^verbatim>\<open>libutil/src/AdAcbm.cpp\<close>, the search for many key words at once. \<open>JsonValue\<close>: the accesses of
    \<^verbatim>\<open>libjson/src/json_value.cpp\<close>. \<open>AdRtbConfig\<close>: \<^verbatim>\<open>libutil/src/AdRtbConfig.cpp\<close>, the configuration and the watched files.
    \<open>AdRedisCli\<close>: \<^verbatim>\<open>libutil/src/AdRedisCli.cpp\<close>.
  \<^item> \<open>AdAes\<close>, \<open>AdAesCorrect\<close>: \<^verbatim>\<open>libutil/src/AdAes.cpp\<close>: the block cipher with its inverse, and the functions on texts, which are
    undefined.

  \<^bold>\<open>The bidder.\<close>
  \<^item> \<open>AdPlanningUnit\<close>, \<open>AdPlanningData\<close>: the planning units and their loader; \<open>AdPlanningRoundtrip\<close> reads back a unit that is
    written as JSON, \<open>AdPlanningCorrect\<close> says what an update makes of the two maps of units, \<open>AdPlanningInvariant\<close> what every
    loaded unit satisfies.
  \<^item> \<open>AdFilterBase\<close>: the index of a filter and the results of a match; the locales \<open>marking_filter\<close> and \<open>erasing_filter\<close> are what
    the filters have in common, interpreted in \<open>AdFilterIndex\<close> (nine filters that mark units), \<open>AdFilterErase\<close>, \<open>AdFilterTanx\<close>,
    \<open>AdFilterRealTime\<close> (that erase units). \<open>AdUserInfo\<close> and \<open>AdFilterMark\<close> have the user data, key words and audiences. All are in
    \<^verbatim>\<open>ibidding/filter/src\<close> under the same names. \<open>AdRtbFilters\<close> is the chain behind its ping-pong buffer,
    \<open>AdRtbFiltersCorrect\<close> what a match after an update selects.
  \<^item> \<open>AdCtrModel\<close>, \<open>AdRtbDealRank\<close>: the estimate of the click rate and the choice of the unit and its price.
  \<^item> \<open>AdRtbEngine\<close>: the engine, which composes all of these, and its update task. \<open>AdRtbEngineCorrect\<close> follows a request from
    packet to packet, \<open>AdRtbEngineUpdates\<close> histories of updates.

  \<^bold>\<open>The adapter.\<close>
  \<^item> \<open>AdSession\<close>: \<^verbatim>\<open>libnet/src/AdSession.cpp\<close> over the calls of its socket: assembly of packets, writes, time limit.
  \<^item> \<open>AdEvent\<close>, \<open>AdNetBase\<close>, \<open>AdNetTask\<close>: the network under the sessions: the registration of sockets with libevent, with its invariant,
    the loop over new, written and closed sessions (\<^verbatim>\<open>libnet/src/AdNetBase.cpp\<close>), the turns of the worker and of the write task
    (\<^verbatim>\<open>libnet/inc/AdNetTask.h\<close>), the server and the client. Sessions are places of a heap. \<open>AdNetCorrect\<close> has the invariant that every
    session is in one place and the locale \<open>reconnecting\<close>, what the loop needs of the virtual \<^verbatim>\<open>AdNetBaseSessionReconnect\<close>;
    \<open>AdNetSessions\<close> interprets it for server and client; \<open>AdNetSteps\<close> has the steps of all threads, a turn of the loop
    being one; \<open>AdNetLife\<close> what follows for every state that is reached, and where the code fails: write messages, reconnection.
    \<open>AdNetTurns\<close> cuts a turn of the loop into its steps, with the other threads in between: where a session is, up to two
    races, and the damage that one of them does.
  \<^item> \<open>AdIpArea\<close>: \<^verbatim>\<open>libcommon/src/AdIpArea.cpp\<close>: the tree of networks, equal to the longest network of a list, default networks apart.
  \<^item> \<open>AdCoding\<close>, \<open>AdProtocolBase\<close>: \<^verbatim>\<open>inc/AdProtocolBase.h\<close> and \<^verbatim>\<open>inc/AdUaParser.h\<close>: codings, user agents, the parameter object, the
    snippets and the framing of an answer. \<open>AdProtocolTanX\<close>, \<open>AdProtocolBaidu\<close>, \<open>AdProtocolMtMedia\<close>: the protocols of \<^verbatim>\<open>adx\<close>.
  \<^item> \<open>AdAdapterMethod\<close>: \<^verbatim>\<open>adapter/AdAdapterMethod.cpp\<close> with \<^verbatim>\<open>libutil/inc/AdSharedLib.h\<close>, the ban list and the log queues.
  \<^item> \<open>AdAdapter\<close>: \<^verbatim>\<open>adapter/AdAdapter.cpp\<close> and \<^verbatim>\<open>inc/AdParaList.h\<close>: \<^verbatim>\<open>Run\<close> on a packet of an exchange or of a bidder, over a state
    with the parameter objects, the sessions with their lists of waiting requests and the free list. \<open>AdAdapterCorrect\<close> has the
    locale \<open>adx_protocol\<close>, what the adapter needs of a protocol, and under it the invariant that no object is in two places;
    \<open>AdAdapterProtocols\<close> interprets the locale on the four protocols; \<open>AdAdapterAnswers\<close> follows single requests to their answers.

  \<^bold>\<open>Arguments of the models.\<close> What the repository does not contain, or what it takes from outside, is an argument: zlib
  (\<open>zlib_ok\<close> is its documented round trip), the reader and the writer of JSON, the serialization of the generated protocol
  buffers (their messages are records of the fields that are used), the replies of hiredis, the consistent hash, \<^verbatim>\<open>liblinear\<close> and
  floating point, the XML document of the areas and \<^verbatim>\<open>inet_aton\<close>, \<^verbatim>\<open>dlopen\<close>, the file system, the readings of the clock and of
  \<^verbatim>\<open>rand\<close>, the results of system calls on sockets, and the content of memory that is read uninitialised. Allocations succeed.

  \<^bold>\<open>Bounds and termination.\<close> Loops are structural recursions or have a proved measure. \<^verbatim>\<open>StrSplit\<close>, which does not return for an empty
  separator, is a partial function. \<^verbatim>\<open>SkipQuoted\<close> is given the length of its memory as fuel, which each turn decreases. The turns of
  the update task are a list of what happens in each turn. The lock-free buffer is proved for every number of steps. The two queues
  that the network loop empties may grow meanwhile; its turns are bounded by an argument, and what is proved holds for every bound.
  Its sessions are proved for fewer than \<open>2 ^ 32\<close> uses at a time, so that their counters do not wrap. An operation that waits for
  ever, or until another thread has acted, has the result \<open>Inr None\<close>.

  \<^bold>\<open>Not modelled.\<close> Printing and display; epoll, UDP and the start of threads; \<^verbatim>\<open>main\<close> and the signal handlers; the frequency filter,
  whose match returns at once; \<^verbatim>\<open>AdCharge\<close>, which does not compile; the exchange simulator and the command line tools; generated
  code and vendored libraries. Locked operations run as a whole; the interleaving inside them is
  only modelled for the lock-free buffer. So do the turns of the network loop in \<open>AdNetSteps\<close> and \<open>AdNetLife\<close>, and its single
  steps in \<open>AdNetTurns\<close>.
\<close>

end
